(* ===== verification/Prelude.thy ===== *)
theory Prelude
  imports Main "HOL-Library.AList" "HOL-Library.Sublist"
begin

text \<open>
  Shared vocabulary of the development: the Python exceptions the modelled code raises or
  catches, the result type of fallible code with its sequencing operator, the string
  functions the sources use (\<open>str.strip\<close>, \<open>str(int)\<close>), the dynamically typed values that
  evidence mappings carry, and folds of fallible steps (every replay loop of the program is
  such a fold). The collections \<open>res_simps\<close> (inversion of sequenced results) and
  \<open>py_defs\<close> (small Python helpers to unfold) carry the component proofs.

  Messages of exceptions that the program never reads back are kept up to their interpolated
  values; texts that the program stores in a result are modelled in full.
  Python's \<open>str\<close> is modelled by \<open>string\<close>, a list of 8-bit characters, read as the
  code points up to U+00FF.
\<close>

named_theorems res_simps
named_theorems py_defs

section \<open>Exceptions and fallible results\<close>

datatype exc =
    ValueError string
  | TypeError string
  | RuntimeError string
  | AttributeError string
  | MoneyValidationError string
  | InvalidOperation string
  | ProjectionSequenceGapError int int
  | AppendVersionMismatchError int int
  | UniqueViolation "string option" string
  | LockNotAvailable string
  | StorageInfrastructureError string
  | DatabaseError string
  | SnapshotWriteCollisionError string
  | DecisionReceiptConflictError string
  | PostgresWriteSideRuntimeDecisionRefused string

text \<open>\<open>except ValueError\<close> also catches the subclasses of \<open>ValueError\<close>:
  \<open>MoneyValidationError\<close>, \<open>AppendVersionMismatchError\<close> and
  \<open>PostgresWriteSideRuntimeDecisionRefused\<close>.\<close>

fun is_ValueError :: "exc \<Rightarrow> bool" where
  "is_ValueError (ValueError m) = True"
| "is_ValueError (MoneyValidationError m) = True"
| "is_ValueError (AppendVersionMismatchError e obs) = True"
| "is_ValueError (PostgresWriteSideRuntimeDecisionRefused m) = True"
| "is_ValueError _ = False"

type_synonym 'a res = "exc + 'a"

definition bind_res :: "'x + 'a \<Rightarrow> ('a \<Rightarrow> 'x + 'b) \<Rightarrow> 'x + 'b" where
  "bind_res m f = (case m of Inl e \<Rightarrow> Inl e | Inr a \<Rightarrow> f a)"

definition require :: "bool \<Rightarrow> 'x \<Rightarrow> 'x + unit" where
  "require b e = (if b then Inr () else Inl e)"

lemma bind_res_simps [simp]:
  "bind_res (Inl e) f = Inl e"
  "bind_res (Inr a) f = f a"
  by (simp_all add: bind_res_def)

lemma bind_res_eq_Inr [res_simps]:
  "bind_res m f = Inr b \<longleftrightarrow> (\<exists>a. m = Inr a \<and> f a = Inr b)"
  by (cases m) auto

lemma bind_res_eq_Inl [res_simps]:
  "bind_res m f = Inl e \<longleftrightarrow> m = Inl e \<or> (\<exists>a. m = Inr a \<and> f a = Inl e)"
  by (cases m) auto

lemma require_simps [simp]:
  "require True e = Inr ()"
  "require False e = Inl e"
  by (simp_all add: require_def)

lemma require_eq_Inr [res_simps]: "require b e = Inr u \<longleftrightarrow> b"
  by (simp add: require_def)

lemma require_eq_Inl [res_simps]: "require b e = Inl e' \<longleftrightarrow> \<not> b \<and> e' = e"
  by (auto simp: require_def)

lemma bind_res_assoc: "bind_res (bind_res m f) g = bind_res m (\<lambda>a. bind_res (f a) g)"
  by (cases m) simp_all

lemma bind_res_cong [fundef_cong]:
  "m = m' \<Longrightarrow> (\<And>a. m' = Inr a \<Longrightarrow> f a = f' a) \<Longrightarrow> bind_res m f = bind_res m' f'"
  by (cases m') simp_all

section \<open>Folding a fallible step over a list\<close>

text \<open>The loop \<open>for x in xs: state = step(state, x)\<close> where \<open>step\<close> may raise.\<close>

fun fold_res :: "('s \<Rightarrow> 'e \<Rightarrow> 'x + 's) \<Rightarrow> 's \<Rightarrow> 'e list \<Rightarrow> 'x + 's" where
  "fold_res step s [] = Inr s"
| "fold_res step s (e # es) = bind_res (step s e) (\<lambda>s'. fold_res step s' es)"

lemma fold_res_append:
  "fold_res step s (es @ fs) = bind_res (fold_res step s es) (\<lambda>s'. fold_res step s' fs)"
  by (induction es arbitrary: s) (simp_all add: bind_res_assoc)

lemma fold_res_snoc:
  "fold_res step s (es @ [e]) = bind_res (fold_res step s es) (\<lambda>s'. step s' e)"
proof -
  have "fold_res step s' [e] = step s' e" for s'
    by (cases "step s' e") simp_all
  then show ?thesis by (simp add: fold_res_append)
qed

lemma fold_res_prefix:
  assumes "fold_res step s (es @ fs) = Inr t"
  shows "\<exists>u. fold_res step s es = Inr u \<and> fold_res step u fs = Inr t"
  using assms by (simp add: fold_res_append bind_res_eq_Inr)

lemma fold_res_invariant:
  assumes "fold_res step s es = Inr t" and "P s"
    and "\<And>s e t. P s \<Longrightarrow> step s e = Inr t \<Longrightarrow> P t"
  shows "P t"
  using assms(1,2)
proof (induction es arbitrary: s)
  case Nil
  then show ?case by simp
next
  case (Cons e es)
  then obtain u where u: "step s e = Inr u" "fold_res step u es = Inr t"
    by (auto simp: bind_res_eq_Inr)
  with Cons.prems(2) have "P u" by (blast intro: assms(3))
  with u(2) show ?case by (rule Cons.IH)
qed

text \<open>\<open>[f(x) for x in xs]\<close> where \<open>f\<close> may raise.\<close>

fun map_res :: "('a \<Rightarrow> 'x + 'b) \<Rightarrow> 'a list \<Rightarrow> 'x + 'b list" where
  "map_res f [] = Inr []"
| "map_res f (x # xs) = bind_res (f x) (\<lambda>y. bind_res (map_res f xs) (\<lambda>ys. Inr (y # ys)))"

lemma map_res_total: "(\<And>x. x \<in> set xs \<Longrightarrow> f x = Inr (g x)) \<Longrightarrow> map_res f xs = Inr (map g xs)"
  by (induction xs) simp_all

text \<open>
  Two machines that consume the same inputs. If the concrete step is simulated by the abstract
  one as long as the inputs satisfy the guard, whole replays agree. Every pair of replay loops
  of the program (aggregate rehydration, projection reduction, snapshot tails) is compared
  through this interface.
\<close>

locale replay_simulation =
  fixes cstep :: "'c \<Rightarrow> 'e \<Rightarrow> 'x + 'c"
    and astep :: "'a \<Rightarrow> 'e \<Rightarrow> 'y + 'a"
    and rel :: "'c \<Rightarrow> 'a \<Rightarrow> bool"
    and guard :: "'c \<Rightarrow> 'e \<Rightarrow> bool"
  assumes sim_step:
    "rel c a \<Longrightarrow> guard c e \<Longrightarrow> cstep c e = Inr c' \<Longrightarrow> \<exists>a'. astep a e = Inr a' \<and> rel c' a'"
begin

fun guarded :: "'c \<Rightarrow> 'e list \<Rightarrow> bool" where
  "guarded c [] = True"
| "guarded c (e # es) = (guard c e \<and> (case cstep c e of Inl _ \<Rightarrow> False | Inr c' \<Rightarrow> guarded c' es))"

lemma replay_simulated:
  assumes "rel c a" and "guarded c es"
  shows "\<exists>c' a'. fold_res cstep c es = Inr c' \<and> fold_res astep a es = Inr a' \<and> rel c' a'"
  using assms
proof (induction es arbitrary: c a)
  case Nil
  then show ?case by auto
next
  case (Cons e es)
  then obtain c1 where c1: "guard c e" "cstep c e = Inr c1" "guarded c1 es"
    by (auto split: sum.splits)
  with Cons.prems(1) obtain a1 where a1: "astep a e = Inr a1" "rel c1 a1"
    using sim_step by blast
  with Cons.IH [OF a1(2) c1(3)] c1(2) show ?case by simp
qed

end

section \<open>Strings\<close>

text \<open>The characters up to U+00FF that Python's \<open>str.isspace\<close> accepts: tab to carriage return, the four
  separators 28 to 31, the blank, the next line U+0085 and the no-break space U+00A0.\<close>

definition py_isspace :: "char \<Rightarrow> bool" where
  "py_isspace c = (let n = of_char c :: nat in (9 \<le> n \<and> n \<le> 13) \<or> (28 \<le> n \<and> n \<le> 32) \<or> n = 133 \<or> n = 160)"

definition py_strip :: "string \<Rightarrow> string" where
  "py_strip s = rev (dropWhile py_isspace (rev (dropWhile py_isspace s)))"

text \<open>\<open>not s.strip()\<close>: the string is empty or holds white space only.\<close>

definition py_blank :: "string \<Rightarrow> bool" where
  "py_blank s = (py_strip s = [])"

lemma py_blank_iff: "py_blank s \<longleftrightarrow> (\<forall>c \<in> set s. py_isspace c)"
proof -
  have "py_blank s \<longleftrightarrow> (\<forall>c \<in> set (dropWhile py_isspace s). py_isspace c)"
    by (simp add: py_blank_def py_strip_def dropWhile_eq_Nil_conv)
  also have "\<dots> \<longleftrightarrow> dropWhile py_isspace s = []"
    by (metis dropWhile_eq_Nil_conv hd_dropWhile list.set_sel(1) empty_iff list.set(1))
  also have "\<dots> \<longleftrightarrow> (\<forall>c \<in> set s. py_isspace c)"
    by (simp add: dropWhile_eq_Nil_conv)
  finally show ?thesis .
qed

lemma py_strip_id:
  assumes "s \<noteq> []" and "\<not> py_isspace (hd s)" and "\<not> py_isspace (last s)"
  shows "py_strip s = s"
proof -
  have "dropWhile py_isspace s = s"
    using assms(1,2) by (cases s) simp_all
  moreover have "dropWhile py_isspace (rev s) = rev s"
    using assms(1,3) by (cases s rule: rev_cases) simp_all
  ultimately show ?thesis by (simp add: py_strip_def)
qed

text \<open>\<open>sep.join(xs)\<close>.\<close>

fun py_join :: "string \<Rightarrow> string list \<Rightarrow> string" where
  "py_join sep [] = []"
| "py_join sep [x] = x"
| "py_join sep (x # xs) = x @ sep @ py_join sep xs"

lemma append_sep_inject:
  assumes "c \<notin> set b" and "c \<notin> set b'"
  shows "a @ c # b = a' @ c # b' \<longleftrightarrow> a = a' \<and> b = b'"
proof
  assume eq: "a @ c # b = a' @ c # b'"
  then have "rev b @ c # rev a = rev b' @ c # rev a'"
    by (metis append.assoc append_Cons append_Nil rev.simps(2) rev_append)
  moreover have "takeWhile (\<lambda>x. x \<noteq> c) (rev b @ c # r) = rev b"
    "takeWhile (\<lambda>x. x \<noteq> c) (rev b' @ c # r) = rev b'" for r
    using assms by (auto simp: takeWhile_append takeWhile_eq_all_conv)
  ultimately have "b = b'" by (metis rev_rev_ident)
  with eq show "a = a' \<and> b = b'" by simp
qed simp

subsection \<open>Decimal digits\<close>

definition digit_char :: "nat \<Rightarrow> char" where
  "digit_char d = char_of (48 + d)"

definition is_digit :: "char \<Rightarrow> bool" where
  "is_digit c = (let n = of_char c :: nat in 48 \<le> n \<and> n \<le> 57)"

definition digit_val :: "char \<Rightarrow> nat" where
  "digit_val c = of_char c - 48"

fun show_nat :: "nat \<Rightarrow> string" where
  "show_nat n = (if n < 10 then [digit_char n] else show_nat (n div 10) @ [digit_char (n mod 10)])"

declare show_nat.simps [simp del]

text \<open>\<open>str(i)\<close> of a Python \<open>int\<close>.\<close>

definition show_int :: "int \<Rightarrow> string" where
  "show_int i = (if i < 0 then ''-'' @ show_nat (nat (- i)) else show_nat (nat i))"

text \<open>\<open>str(exc)\<close>, where the code keeps the text of a caught exception.\<close>

fun exc_str :: "exc \<Rightarrow> string" where
  "exc_str (AppendVersionMismatchError e obs) =
     ''Version conflict: store_version='' @ show_int obs @ '', expected_version='' @ show_int e"
| "exc_str (ProjectionSequenceGapError e obs) =
     ''Projection worker sequence gap: expected '' @ show_int e @ '', got '' @ show_int obs"
| "exc_str (ValueError m) = m"
| "exc_str (TypeError m) = m"
| "exc_str (RuntimeError m) = m"
| "exc_str (AttributeError m) = m"
| "exc_str (MoneyValidationError m) = m"
| "exc_str (InvalidOperation m) = m"
| "exc_str (UniqueViolation c m) = m"
| "exc_str (LockNotAvailable m) = m"
| "exc_str (StorageInfrastructureError m) = m"
| "exc_str (DatabaseError m) = m"
| "exc_str (SnapshotWriteCollisionError m) = m"
| "exc_str (DecisionReceiptConflictError m) = m"
| "exc_str (PostgresWriteSideRuntimeDecisionRefused m) = m"

definition digits_val :: "string \<Rightarrow> nat" where
  "digits_val s = foldl (\<lambda>a c. 10 * a + digit_val c) 0 s"

lemma of_char_digit_char: "d < 10 \<Longrightarrow> (of_char (digit_char d) :: nat) = 48 + d"
  by (simp add: digit_char_def)

lemma is_digit_digit_char: "d < 10 \<Longrightarrow> is_digit (digit_char d)"
  by (simp add: is_digit_def of_char_digit_char)

lemma digit_val_digit_char: "d < 10 \<Longrightarrow> digit_val (digit_char d) = d"
  by (simp add: digit_val_def of_char_digit_char)

lemma digits_val_snoc: "digits_val (s @ [c]) = 10 * digits_val s + digit_val c"
  by (simp add: digits_val_def)

lemma digits_val_show_nat: "digits_val (show_nat n) = n"
proof (induction n rule: show_nat.induct)
  case (1 n)
  show ?case
  proof (cases "n < 10")
    case True
    then show ?thesis
      by (subst show_nat.simps) (simp add: digits_val_def digit_val_digit_char)
  next
    case False
    with 1 show ?thesis
      by (subst show_nat.simps) (simp add: digits_val_snoc digit_val_digit_char)
  qed
qed

lemma show_nat_digits: "\<forall>c \<in> set (show_nat n). is_digit c"
proof (induction n rule: show_nat.induct)
  case (1 n)
  then show ?case
    by (subst show_nat.simps) (auto simp: is_digit_digit_char)
qed

lemma show_nat_nonempty: "show_nat n \<noteq> []"
  by (subst show_nat.simps) simp

lemma is_digit_not_space: "is_digit c \<Longrightarrow> \<not> py_isspace c"
  by (auto simp: is_digit_def py_isspace_def Let_def)

section \<open>Dynamically typed values\<close>

text \<open>
  The values that evidence, context and metadata mappings hold. Dictionaries keep insertion
  order, as Python's do; floating-point numbers occur only through their finiteness, which is
  the one thing the modelled code asks of them. Objects of any other class are \<open>VObj\<close>.
\<close>

datatype pyval =
    VNone
  | VBool bool
  | VInt int
  | VFloat bool nat
  | VStr string
  | VUuid string
  | VList "pyval list"
  | VTuple "pyval list"
  | VDict "(pyval \<times> pyval) list"
  | VSet "pyval list"
  | VFrozenset "pyval list"
  | VObj string

abbreviation opt_str :: "string option \<Rightarrow> pyval" where
  "opt_str x \<equiv> (case x of None \<Rightarrow> VNone | Some s \<Rightarrow> VStr s)"

type_synonym py_dict = "(string \<times> pyval) list"

text \<open>\<open>merged.update(other)\<close> on dictionaries in insertion order.\<close>

fun dict_update :: "('k \<times> 'v) list \<Rightarrow> ('k \<times> 'v) list \<Rightarrow> ('k \<times> 'v) list" where
  "dict_update m [] = m"
| "dict_update m ((k, v) # kvs) = dict_update (AList.update k v m) kvs"

lemma map_of_AList_update [simp]: "map_of (AList.update k v m) = (map_of m)(k \<mapsto> v)"
  by (rule update_conv')

lemma map_of_dict_update_notin:
  "k \<notin> fst ` set kvs \<Longrightarrow> map_of (dict_update m kvs) k = map_of m k"
  by (induction m kvs rule: dict_update.induct) auto

lemma map_of_dict_update:
  "distinct (map fst kvs) \<Longrightarrow> map_of (dict_update m kvs) k
     = (case map_of kvs k of Some v \<Rightarrow> Some v | None \<Rightarrow> map_of m k)"
proof (induction m kvs rule: dict_update.induct)
  case (2 m k' v kvs)
  then have notin: "k' \<notin> fst ` set kvs" by simp
  show ?case
  proof (cases "k = k'")
    case True
    with notin show ?thesis by (simp add: map_of_dict_update_notin)
  next
    case False
    with 2 show ?thesis by (simp cong: option.case_cong)
  qed
qed simp

end
