(* ===== verification/Money.thy ===== *)
theory Money
  imports Complex_Main Prelude
begin

text \<open>
  \<open>src/core/common/money.py\<close>: exact decimal money. A Python \<open>Decimal\<close> is a sign, a
  coefficient and an exponent, or an infinity, or a NaN; \<open>quantize\<close>, the decimal literal
  syntax and \<open>format(_, 'f')\<close> are the parts of the \<open>decimal\<close> module the program uses
  (default context: 28 digits of precision). The lemmas show that normalisation rounds to the
  nearest cent with ties to even, is idempotent, fixes exactly the canonical two-decimal
  values, and that the storage string of an amount parses back to the same amount.
  Exponents are unbounded here, while the module rejects literals whose exponent exceeds
  \<open>10 ^ 18\<close>.
\<close>

section \<open>The decimal module\<close>

datatype decimal = Dec (dec_neg: bool) (dec_coeff: nat) (dec_exp: int) | Infinity bool | NaN

text \<open>The signed coefficient of a finite decimal in units of \<open>10 ^ m\<close>, for \<open>m\<close> at most its
  exponent. Comparison of finite decimals aligns both to the smaller exponent.\<close>

definition dec_scaled :: "int \<Rightarrow> bool \<Rightarrow> nat \<Rightarrow> int \<Rightarrow> int" where
  "dec_scaled m s c e = (if s then - 1 else 1) * int c * 10 ^ nat (e - m)"

fun dec_eq :: "decimal \<Rightarrow> decimal \<Rightarrow> bool" where
  "dec_eq (Dec s c e) (Dec s' c' e') =
     (let m = min e e' in dec_scaled m s c e = dec_scaled m s' c' e')"
| "dec_eq (Infinity s) (Infinity s') = (s = s')"
| "dec_eq _ _ = False"

fun dec_le :: "decimal \<Rightarrow> decimal \<Rightarrow> bool" where
  "dec_le (Dec s c e) (Dec s' c' e') =
     (let m = min e e' in dec_scaled m s c e \<le> dec_scaled m s' c' e')"
| "dec_le (Infinity s) (Infinity s') = (s \<or> \<not> s')"
| "dec_le (Infinity s) (Dec _ _ _) = s"
| "dec_le (Dec _ _ _) (Infinity s) = (\<not> s)"
| "dec_le _ _ = False"

text \<open>Division with ROUND_HALF_EVEN.\<close>

definition round_half_even :: "nat \<Rightarrow> nat \<Rightarrow> nat" where
  "round_half_even n d =
     (let q = n div d; r = n mod d
      in if 2 * r < d \<or> (2 * r = d \<and> even q) then q else Suc q)"

text \<open>\<open>x.quantize(q, rounding=ROUND_HALF_EVEN)\<close> in the default context: InvalidOperation when
  the result needs more than 28 digits, or one of the operands is infinite.\<close>

fun dec_quantize :: "decimal \<Rightarrow> decimal \<Rightarrow> decimal res" where
  "dec_quantize (Dec s c e) (Dec _ _ qe) =
     (let c' = (if qe \<le> e then c * 10 ^ nat (e - qe) else round_half_even c (10 ^ nat (qe - e)))
      in if c' < 10 ^ 28 then Inr (Dec s c' qe)
         else Inl (InvalidOperation ''quantize result has too many digits for current context''))"
| "dec_quantize NaN _ = Inr NaN"
| "dec_quantize _ NaN = Inr NaN"
| "dec_quantize (Infinity s) (Infinity _) = Inr (Infinity s)"
| "dec_quantize _ _ = Inl (InvalidOperation ''quantize with one INF'')"

text \<open>\<open>Decimal(text)\<close>: white space around the literal and underscores in it are ignored.\<close>

definition lower_char :: "char \<Rightarrow> char" where
  "lower_char c = (let n = of_char c :: nat in if 65 \<le> n \<and> n \<le> 90 then char_of (n + 32) else c)"

definition split_sign :: "string \<Rightarrow> bool \<times> string" where
  "split_sign s =
     (case s of
        [] \<Rightarrow> (False, [])
      | c # cs \<Rightarrow> if c = CHR ''-'' then (True, cs) else if c = CHR ''+'' then (False, cs) else (False, s))"

definition split_fraction :: "string \<Rightarrow> string \<times> string" where
  "split_fraction s =
     (case s of
        [] \<Rightarrow> ([], [])
      | c # cs \<Rightarrow> if c = CHR ''.'' then (takeWhile is_digit cs, dropWhile is_digit cs) else ([], s))"

definition parse_exponent :: "string \<Rightarrow> int option" where
  "parse_exponent s =
     (case s of
        [] \<Rightarrow> Some 0
      | c # cs \<Rightarrow>
          if lower_char c = CHR ''e'' then
            (case split_sign cs of (neg, ds) \<Rightarrow>
               if ds \<noteq> [] \<and> list_all is_digit ds
               then Some ((if neg then - 1 else 1) * int (digits_val ds)) else None)
          else None)"

definition parse_special :: "bool \<Rightarrow> string \<Rightarrow> decimal option" where
  "parse_special neg s =
     (let l = map lower_char s; r = (if take 1 l = ''s'' then drop 1 l else l)
      in if l = ''inf'' \<or> l = ''infinity'' then Some (Infinity neg)
         else if take 3 r = ''nan'' \<and> list_all is_digit (drop 3 r) then Some NaN
         else None)"

definition decimal_of_string :: "string \<Rightarrow> decimal option" where
  "decimal_of_string text =
     (case split_sign (filter (\<lambda>c. c \<noteq> CHR ''_'') (py_strip text)) of (neg, r) \<Rightarrow>
        (let ip = takeWhile is_digit r in
         case split_fraction (dropWhile is_digit r) of (fp, rest) \<Rightarrow>
           if ip @ fp = [] then parse_special neg r
           else map_option (\<lambda>x. Dec neg (digits_val (ip @ fp)) (x - int (length fp)))
                  (parse_exponent rest)))"

text \<open>\<open>format(x, 'f')\<close>.\<close>

definition pad_digits :: "nat \<Rightarrow> nat \<Rightarrow> string" where
  "pad_digits p n = replicate (p - length (show_nat n)) (CHR ''0'') @ show_nat n"

fun format_f :: "decimal \<Rightarrow> string" where
  "format_f (Dec s c e) =
     (if s then ''-'' else '''') @
     (if 0 \<le> e then show_nat (c * 10 ^ nat e)
      else show_nat (c div 10 ^ nat (- e)) @ ''.'' @ pad_digits (nat (- e)) (c mod 10 ^ nat (- e)))"
| "format_f (Infinity s) = (if s then ''-Infinity'' else ''Infinity'')"
| "format_f NaN = ''NaN''"

section \<open>money.py\<close>

text \<open>The dynamic types a caller may pass as an amount; \<open>MOther\<close> carries the type's name.\<close>

datatype MoneyInput = MStr string | MInt int | MDecimal decimal | MFloat | MOther string

definition MONEY_QUANT :: decimal where
  "MONEY_QUANT = Dec False 1 (- 2)"

definition parse_money :: "MoneyInput \<Rightarrow> decimal res" where
  "parse_money value =
     bind_res
       (case value of
          MFloat \<Rightarrow> Inl (MoneyValidationError ''float is not allowed for money input; use Decimal, str, or int'')
        | MDecimal d \<Rightarrow> Inr d
        | MInt i \<Rightarrow> Inr (Dec (i < 0) (nat (abs i)) 0)
        | MStr s \<Rightarrow>
            (case decimal_of_string (py_strip s) of
               None \<Rightarrow> Inl (MoneyValidationError ''invalid money input'')
             | Some d \<Rightarrow> Inr d)
        | MOther t \<Rightarrow> Inl (MoneyValidationError ''unsupported type for money input''))
       (\<lambda>result. case result of
          NaN \<Rightarrow> Inl (MoneyValidationError ''NaN is not a valid money value'')
        | Infinity _ \<Rightarrow> Inl (MoneyValidationError ''Infinity is not a valid money value'')
        | Dec _ _ _ \<Rightarrow> Inr result)"

definition normalize_money :: "MoneyInput \<Rightarrow> decimal res" where
  "normalize_money value =
     bind_res (parse_money value) (\<lambda>amount. dec_quantize amount MONEY_QUANT)"

definition ensure_positive_money :: "MoneyInput \<Rightarrow> decimal res" where
  "ensure_positive_money value =
     bind_res (normalize_money value) (\<lambda>amount.
       if dec_le amount (Dec False 0 (- 2))
       then Inl (MoneyValidationError ''money amount must be positive'')
       else Inr amount)"

definition money_to_storage_string :: "MoneyInput \<Rightarrow> string res" where
  "money_to_storage_string value =
     bind_res (normalize_money value) (\<lambda>amount. Inr (format_f amount))"

section \<open>Canonical amounts\<close>

text \<open>The amounts the domain admits: positive, two decimals, within the context's precision.\<close>

fun canonical_amount :: "decimal \<Rightarrow> bool" where
  "canonical_amount (Dec s c e) = (\<not> s \<and> 0 < c \<and> c < 10 ^ 28 \<and> e = - 2)"
| "canonical_amount _ = False"

lemma parse_money_finite:
  assumes "parse_money v = Inr d"
  shows "\<exists>s c e. d = Dec s c e"
proof -
  from assms obtain a where "(case a of NaN \<Rightarrow> Inl (MoneyValidationError ''NaN is not a valid money value'')
      | Infinity _ \<Rightarrow> Inl (MoneyValidationError ''Infinity is not a valid money value'')
      | Dec _ _ _ \<Rightarrow> Inr a) = Inr d"
    by (auto simp: parse_money_def res_simps)
  then show ?thesis by (cases a) auto
qed

lemma normalize_money_shape:
  assumes "normalize_money v = Inr d"
  shows "\<exists>s c. d = Dec s c (- 2) \<and> c < 10 ^ 28"
proof -
  from assms obtain x where x: "parse_money v = Inr x" "dec_quantize x MONEY_QUANT = Inr d"
    by (auto simp: normalize_money_def res_simps)
  from parse_money_finite [OF x(1)] obtain s c e where "x = Dec s c e"
    by blast
  with x(2) show ?thesis
    by (auto simp: MONEY_QUANT_def Let_def split: if_splits)
qed

lemma ensure_positive_canonical:
  assumes "ensure_positive_money v = Inr d"
  shows "canonical_amount d"
proof -
  from assms have n: "normalize_money v = Inr d" and pos: "\<not> dec_le d (Dec False 0 (- 2))"
    by (auto simp: ensure_positive_money_def res_simps split: if_splits)
  from normalize_money_shape [OF n] obtain s c where d: "d = Dec s c (- 2)" "c < 10 ^ 28"
    by blast
  from pos d(1) have "\<not> s \<and> 0 < c"
    by (auto simp: dec_scaled_def split: if_splits)
  with d show ?thesis by simp
qed

lemma parse_canonical [simp]: "canonical_amount d \<Longrightarrow> parse_money (MDecimal d) = Inr d"
  by (cases d) (simp_all add: parse_money_def)

lemma normalize_canonical [simp]: "canonical_amount d \<Longrightarrow> normalize_money (MDecimal d) = Inr d"
  by (cases d) (simp_all add: normalize_money_def parse_money_def MONEY_QUANT_def)

lemma ensure_positive_of_canonical [simp]:
  "canonical_amount d \<Longrightarrow> ensure_positive_money (MDecimal d) = Inr d"
  by (cases d) (simp_all add: ensure_positive_money_def dec_scaled_def)

lemma dec_eq_same_exp:
  "dec_eq (Dec s c e) (Dec s' c' e) \<longleftrightarrow> c = c' \<and> (s = s' \<or> c = 0)"
  by (cases s; cases s') (auto simp: dec_scaled_def)

lemma dec_eq_canonical:
  "canonical_amount a \<Longrightarrow> canonical_amount b \<Longrightarrow> dec_eq a b \<longleftrightarrow> a = b"
  by (cases a; cases b) (auto simp: dec_eq_same_exp simp del: dec_eq.simps)

lemma dec_eq_refl_finite: "dec_eq (Dec s c e) (Dec s c e)"
  by (simp add: Let_def)

section \<open>Rounding\<close>

definition dec_value :: "decimal \<Rightarrow> rat" where
  "dec_value d = (case d of Dec s c e \<Rightarrow> (if s then - 1 else 1) * of_nat c * 10 powi e | _ \<Rightarrow> 0)"

lemma round_half_even_split:
  "r < d \<Longrightarrow> round_half_even (d * q + r) d
     = (if 2 * r < d \<or> (2 * r = d \<and> even q) then q else Suc q)"
  by (simp add: round_half_even_def Let_def)

lemma div_mod_decomposition: "0 < (d::nat) \<Longrightarrow> \<exists>q r. n = d * q + r \<and> r < d"
  by (rule exI [of _ "n div d"], rule exI [of _ "n mod d"]) simp

lemma round_half_even_error:
  assumes "0 < d"
  shows "2 * n \<le> 2 * (d * round_half_even n d) + d \<and> 2 * (d * round_half_even n d) \<le> 2 * n + d"
proof -
  obtain q r where "n = d * q + r" "r < d"
    using div_mod_decomposition [OF assms] by blast
  then show ?thesis by (simp add: round_half_even_split)
qed

lemma round_half_even_tie:
  assumes "0 < d"
    and "2 * n = 2 * (d * round_half_even n d) + d \<or> 2 * (d * round_half_even n d) = 2 * n + d"
  shows "even (round_half_even n d)"
proof -
  obtain q r where n: "n = d * q + r" and r: "r < d"
    using div_mod_decomposition [OF assms(1)] by blast
  from assms(2) r have "2 * r = d"
    unfolding n round_half_even_split [OF r] by (auto split: if_splits)
  then show ?thesis by (auto simp: n round_half_even_split [OF r])
qed

text \<open>The value of a decimal in units of the exponent \<open>m\<close> is its scaled coefficient.\<close>

lemma dec_value_scale:
  assumes "m \<le> e"
  shows "(10 :: rat) powi e = 10 ^ nat (e - m) * 10 powi m"
proof -
  have "(10 :: rat) powi e = 10 powi (int (nat (e - m)) + m)"
    using assms by simp
  also have "\<dots> = 10 powi (int (nat (e - m))) * 10 powi m"
    by (rule power_int_add) simp
  also have "(10 :: rat) powi (int (nat (e - m))) = 10 ^ nat (e - m)"
    by (rule power_int_of_nat)
  finally show ?thesis .
qed

lemma abs_of_nat_diff_le:
  assumes "2 * n \<le> 2 * p + d" and "2 * p \<le> 2 * n + (d :: nat)"
  shows "2 * \<bar>of_nat p - of_nat n :: rat\<bar> \<le> of_nat d"
proof -
  from assms have "(of_nat (2 * n) :: rat) \<le> of_nat (2 * p + d)"
    and "(of_nat (2 * p) :: rat) \<le> of_nat (2 * n + d)"
    by (auto simp only: of_nat_le_iff)
  then show ?thesis by (simp add: abs_if)
qed

lemma dec_quantize_exact:
  assumes "dec_quantize (Dec s c e) (Dec qs qc qe) = Inr d" and "qe \<le> e"
  shows "dec_value d = dec_value (Dec s c e)"
proof -
  from assms have "d = Dec s (c * 10 ^ nat (e - qe)) qe"
    by (auto simp: Let_def split: if_splits)
  then show ?thesis
    using dec_value_scale [OF assms(2)] by (simp add: dec_value_def)
qed

lemma dec_quantize_rounded:
  assumes "dec_quantize (Dec s c e) (Dec qs qc qe) = Inr d" and "\<not> qe \<le> e"
  obtains k where "d = Dec s (round_half_even c (10 ^ k)) qe" and "(10 :: rat) powi qe = of_nat (10 ^ k) * 10 powi e"
    and "\<bar>dec_value d - dec_value (Dec s c e)\<bar>
          = \<bar>of_nat (10 ^ k * round_half_even c (10 ^ k)) - of_nat c\<bar> * 10 powi e"
proof
  define k where "k = nat (qe - e)"
  show d: "d = Dec s (round_half_even c (10 ^ k)) qe"
    using assms by (auto simp: Let_def k_def split: if_splits)
  show scale: "(10 :: rat) powi qe = of_nat (10 ^ k) * 10 powi e"
    using dec_value_scale [of e qe] assms(2) by (simp add: k_def)
  have "dec_value d - dec_value (Dec s c e)
      = (if s then - 1 else 1) * ((of_nat (10 ^ k * round_half_even c (10 ^ k)) - of_nat c) * 10 powi e)"
    by (simp add: d dec_value_def scale algebra_simps)
  then show "\<bar>dec_value d - dec_value (Dec s c e)\<bar>
      = \<bar>of_nat (10 ^ k * round_half_even c (10 ^ k)) - of_nat c\<bar> * 10 powi e"
    by (cases s) (simp_all only: abs_mult, simp_all)
qed

lemma dec_quantize_nearest:
  assumes "dec_quantize (Dec s c e) (Dec qs qc qe) = Inr d"
  shows "2 * \<bar>dec_value d - dec_value (Dec s c e)\<bar> \<le> 10 powi qe"
proof (cases "qe \<le> e")
  case True
  with assms show ?thesis by (simp only: dec_quantize_exact) simp
next
  case False
  with assms obtain k where scale: "(10 :: rat) powi qe = of_nat (10 ^ k) * 10 powi e"
    and err: "\<bar>dec_value d - dec_value (Dec s c e)\<bar>
          = \<bar>of_nat (10 ^ k * round_half_even c (10 ^ k)) - of_nat c\<bar> * 10 powi e"
    by (rule dec_quantize_rounded)
  have "2 * \<bar>of_nat (10 ^ k * round_half_even c (10 ^ k)) - of_nat c :: rat\<bar> \<le> of_nat (10 ^ k)"
    using round_half_even_error [of "10 ^ k" c] by (intro abs_of_nat_diff_le) simp_all
  then show ?thesis
    unfolding err scale mult.assoc [symmetric] by (rule mult_right_mono) simp
qed

lemma dec_quantize_tie:
  assumes q: "dec_quantize (Dec s c e) (Dec qs qc qe) = Inr d"
    and tie: "2 * \<bar>dec_value d - dec_value (Dec s c e)\<bar> = 10 powi qe"
  shows "even (dec_coeff d)"
proof (cases "qe \<le> e")
  case True
  with q tie show ?thesis by (simp only: dec_quantize_exact) simp
next
  case False
  with q obtain k where d: "d = Dec s (round_half_even c (10 ^ k)) qe"
    and scale: "(10 :: rat) powi qe = of_nat (10 ^ k) * 10 powi e"
    and err: "\<bar>dec_value d - dec_value (Dec s c e)\<bar>
          = \<bar>of_nat (10 ^ k * round_half_even c (10 ^ k)) - of_nat c\<bar> * 10 powi e"
    by (rule dec_quantize_rounded)
  let ?p = "round_half_even c (10 ^ k)"
  from tie have "2 * \<bar>of_nat (10 ^ k * ?p) - of_nat c :: rat\<bar> = of_nat (10 ^ k)"
    unfolding err scale mult.assoc [symmetric] by (simp only: mult_cancel_right) simp
  then have "(of_nat (2 * (10 ^ k * ?p)) :: rat) = of_nat (2 * c + 10 ^ k)
      \<or> (of_nat (2 * c) :: rat) = of_nat (2 * (10 ^ k * ?p) + 10 ^ k)"
    by (simp add: abs_if split: if_splits)
  then have "2 * (10 ^ k * ?p) = 2 * c + 10 ^ k \<or> 2 * c = 2 * (10 ^ k * ?p) + 10 ^ k"
    by (simp only: of_nat_eq_iff)
  then show ?thesis
    using round_half_even_tie [of "10 ^ k" c] by (auto simp: d)
qed

section \<open>Storage strings\<close>

lemma foldl_digits_acc:
  "foldl (\<lambda>a c. 10 * a + digit_val c) x s = x * 10 ^ length s + digits_val s"
proof (induction s rule: rev_induct)
  case Nil
  show ?case by (simp add: digits_val_def)
next
  case (snoc c s)
  then show ?case by (simp add: digits_val_snoc algebra_simps)
qed

lemma digits_val_append: "digits_val (s @ t) = digits_val s * 10 ^ length t + digits_val t"
  by (simp add: foldl_digits_acc [of "digits_val s" t, symmetric]) (simp add: digits_val_def)

lemma digits_val_zeros: "digits_val (replicate k (CHR ''0'')) = 0"
proof (induction k)
  case (Suc k)
  have "replicate (Suc k) (CHR ''0'') = replicate k (CHR ''0'') @ [CHR ''0'']"
    by (simp add: replicate_append_same)
  with Suc show ?case by (simp add: digits_val_snoc digit_val_def del: replicate.simps)
qed (simp add: digits_val_def)

lemma length_show_nat_le: "n < 10 ^ p \<Longrightarrow> 0 < p \<Longrightarrow> length (show_nat n) \<le> p"
proof (induction n arbitrary: p rule: show_nat.induct)
  case (1 n)
  show ?case
  proof (cases "n < 10")
    case True
    with 1 show ?thesis by (subst show_nat.simps) simp
  next
    case False
    with "1.prems" have p: "1 < p" by (cases p; cases "p - 1") auto
    then obtain p' where p': "p = Suc p'" "0 < p'" by (cases p) auto
    with "1.prems" have "n div 10 < 10 ^ p'" by (simp add: less_mult_imp_div_less mult.commute)
    with "1.IH" [OF False, of p'] p' False show ?thesis by (subst show_nat.simps) simp
  qed
qed

lemma pad_digits_val [simp]: "digits_val (pad_digits p n) = n"
  by (simp add: pad_digits_def digits_val_append digits_val_zeros digits_val_show_nat)

lemma length_pad_digits: "n < 10 ^ p \<Longrightarrow> 0 < p \<Longrightarrow> length (pad_digits p n) = p"
  using length_show_nat_le [of n p] by (simp add: pad_digits_def)

lemma pad_digits_digits: "\<forall>c \<in> set (pad_digits p n). is_digit c"
  using show_nat_digits [of n] by (auto simp: pad_digits_def is_digit_def)

lemma takeWhile_digits_stop:
  assumes "\<forall>c \<in> set s. is_digit c" and "t = [] \<or> \<not> is_digit (hd t)"
  shows "takeWhile is_digit (s @ t) = s" and "dropWhile is_digit (s @ t) = t"
  using assms by (induction s) (cases t; simp)+

lemma not_digit_chars:
  "\<not> is_digit (CHR ''.'')" "\<not> is_digit (CHR ''-'')" "\<not> is_digit (CHR ''+'')" "\<not> is_digit (CHR ''_'')"
  by (simp_all add: is_digit_def)

lemma minus_not_space: "\<not> py_isspace (CHR ''-'')"
  by (simp add: py_isspace_def)

lemma py_strip_format_f:
  assumes "e < 0"
  shows "py_strip (format_f (Dec s c e)) = format_f (Dec s c e)"
proof (rule py_strip_id)
  let ?f = "format_f (Dec s c e)"
  let ?ip = "show_nat (c div 10 ^ nat (- e))" and ?fp = "pad_digits (nat (- e)) (c mod 10 ^ nat (- e))"
  have f: "?f = (if s then ''-'' else '''') @ ?ip @ ''.'' @ ?fp"
    using assms by simp
  have ip: "?ip \<noteq> []" "is_digit (hd ?ip)"
    using show_nat_nonempty show_nat_digits by (blast, meson hd_in_set show_nat_nonempty)
  have fp: "?fp \<noteq> []" "is_digit (last ?fp)"
    using show_nat_nonempty pad_digits_digits
    by (simp add: pad_digits_def, metis append_is_Nil_conv last_in_set pad_digits_def show_nat_nonempty)
  show "?f \<noteq> []" by (simp add: f del: format_f.simps)
  show "\<not> py_isspace (hd ?f)"
    unfolding f using ip by (simp add: is_digit_not_space minus_not_space)
  show "\<not> py_isspace (last ?f)"
    unfolding f using fp by (simp add: is_digit_not_space)
qed

lemma decimal_of_format_f:
  assumes "e < 0"
  shows "decimal_of_string (format_f (Dec s c e)) = Some (Dec s c e)"
proof -
  define p where "p = nat (- e)"
  have p: "0 < p" "- e = int p" using assms by (auto simp: p_def)
  let ?ip = "show_nat (c div 10 ^ p)" and ?fp = "pad_digits p (c mod 10 ^ p)"
  let ?body = "?ip @ ''.'' @ ?fp"
  have f: "format_f (Dec s c e) = (if s then ''-'' else '''') @ ?body"
    using assms by (simp add: p_def)
  have ip: "?ip \<noteq> []" "\<forall>c \<in> set ?ip. is_digit c"
    using show_nat_nonempty show_nat_digits by auto
  have fp: "\<forall>c \<in> set ?fp. is_digit c" "length ?fp = p"
    using pad_digits_digits p by (auto intro: length_pad_digits)
  have plain: "filter (\<lambda>c. c \<noteq> CHR ''_'') ((if s then ''-'' else '''') @ ?body)
      = (if s then ''-'' else '''') @ ?body"
    using ip(2) fp(1) not_digit_chars by (subst filter_id_conv) auto
  have sign: "split_sign ((if s then ''-'' else '''') @ ?body) = (s, ?body)"
    using ip not_digit_chars by (auto simp: split_sign_def neq_Nil_conv)
  have tw: "takeWhile is_digit ?body = ?ip" "dropWhile is_digit ?body = ''.'' @ ?fp"
    using takeWhile_digits_stop [OF ip(2), of "''.'' @ ?fp"] not_digit_chars by auto
  have fr: "split_fraction (''.'' @ ?fp) = (?fp, [])"
    using takeWhile_digits_stop [OF fp(1), of "[]"] by (simp add: split_fraction_def)
  have val: "digits_val (?ip @ ?fp) = c"
    by (simp add: digits_val_append digits_val_show_nat fp(2) div_mult_mod_eq)
  note strip = py_strip_format_f [OF assms, of s c, unfolded f]
  show ?thesis
    unfolding decimal_of_string_def f strip plain sign prod.case Let_def tw fr
    using ip(1) p by (simp add: val fp(2) parse_exponent_def)
qed

lemma storage_string_parses:
  assumes "normalize_money v = Inr d"
  shows "money_to_storage_string v = Inr (format_f d)" and "parse_money (MStr (format_f d)) = Inr d"
proof -
  from normalize_money_shape [OF assms] obtain s c where d: "d = Dec s c (- 2)" by blast
  show "money_to_storage_string v = Inr (format_f d)"
    by (simp add: money_to_storage_string_def assms)
  show "parse_money (MStr (format_f d)) = Inr d"
    using decimal_of_format_f [of "- 2" s c] py_strip_format_f [of "- 2" s c]
    by (simp add: d parse_money_def del: format_f.simps)
qed

section \<open>Properties\<close>

text \<open>Evaluation of the money functions on literals.\<close>

lemmas money_eval = parse_money_def decimal_of_string_def py_strip_def py_isspace_def
  split_sign_def split_fraction_def is_digit_def digits_val_def digit_val_def
  parse_exponent_def MONEY_QUANT_def round_half_even_def Let_def

text \<open>
  Normalising an amount moves it by at most half a cent, and when the amount lies exactly
  half way between two cents the normalised coefficient is even: ROUND_HALF_EVEN to two
  decimals.
\<close>

theorem normalize_money_half_even:
  assumes "parse_money v = Inr x" and "normalize_money v = Inr d"
  shows "2 * \<bar>dec_value d - dec_value x\<bar> \<le> 1 / 100
    \<and> (2 * \<bar>dec_value d - dec_value x\<bar> = 1 / 100 \<longrightarrow> even (dec_coeff d)) \<and> dec_exp d = - 2"
proof -
  from parse_money_finite [OF assms(1)] obtain s c e where x: "x = Dec s c e" by blast
  from assms have q: "dec_quantize (Dec s c e) (Dec False 1 (- 2)) = Inr d"
    by (simp add: normalize_money_def MONEY_QUANT_def x)
  have cent: "(10 :: rat) powi (- 2) = 1 / 100" by (simp add: power_int_minus_divide)
  from normalize_money_shape [OF assms(2)] show ?thesis
    using dec_quantize_nearest [OF q] dec_quantize_tie [OF q] by (auto simp: x cent)
qed

theorem normalize_money_half_even_witness:
  "parse_money (MStr ''2.345'') = Inr (Dec False 2345 (- 3))
   \<and> normalize_money (MStr ''2.345'') = Inr (Dec False 234 (- 2))
   \<and> 2 * \<bar>dec_value (Dec False 234 (- 2)) - dec_value (Dec False 2345 (- 3))\<bar> \<le> 1 / 100
   \<and> even (dec_coeff (Dec False 234 (- 2)))"
proof -
  have p: "parse_money (MStr ''2.345'') = Inr (Dec False 2345 (- 3))"
    by (simp add: money_eval)
  have n: "normalize_money (MStr ''2.345'') = Inr (Dec False 234 (- 2))"
    by (simp add: normalize_money_def p MONEY_QUANT_def round_half_even_def Let_def)
  from normalize_money_half_even [OF p n] p n show ?thesis by simp
qed

text \<open>
  The storage string of an amount (the form used in payloads and in semantic fingerprints)
  exists whenever the amount normalises, and reading it back as money gives exactly the
  normalised amount; normalising it again changes nothing.
\<close>

theorem money_storage_roundtrip:
  assumes "normalize_money v = Inr d"
  shows "\<exists>text. money_to_storage_string v = Inr text \<and> parse_money (MStr text) = Inr d
    \<and> normalize_money (MStr text) = Inr d"
proof -
  from normalize_money_shape [OF assms] obtain s c where d: "d = Dec s c (- 2)" "c < 10 ^ 28"
    by blast
  have "normalize_money (MStr (format_f d)) = Inr d"
    unfolding normalize_money_def storage_string_parses(2) [OF assms]
    using d by (simp add: MONEY_QUANT_def)
  with storage_string_parses [OF assms] show ?thesis by blast
qed

theorem money_storage_roundtrip_witness:
  "\<exists>text. money_to_storage_string (MStr '' 12.5 '') = Inr text
    \<and> parse_money (MStr text) = Inr (Dec False 1250 (- 2))
    \<and> normalize_money (MStr text) = Inr (Dec False 1250 (- 2))"
proof -
  have n: "normalize_money (MStr '' 12.5 '') = Inr (Dec False 1250 (- 2))"
    by (simp add: normalize_money_def money_eval)
  show ?thesis by (rule money_storage_roundtrip [OF n])
qed

end
