(* ===== verification/Order_Domain.thy ===== *)
theory Order_Domain
  imports Money
begin

text \<open>
  \<open>src/core/order\<close>: the vocabulary (\<open>enums.py\<close>), predecessor claims (\<open>proofs.py\<close>),
  events (\<open>events.py\<close>), derived state (\<open>state.py\<close>) and the aggregate (\<open>aggregate.py\<close>)
  that owns command legality. \<open>generate_event_id\<close> (UUIDv4) and the wall clock are inputs: the
  identity and the time stamp of a new event are arguments of the commands.
  \<open>legal_candidate\<close> is what a successful command promises of its event, \<open>agg_inv\<close> the
  invariant of an aggregate, \<open>legal_history\<close> a stream built by legal candidates only; the
  lemmas connect the three. The last section gives the abstract life cycle of an order.
\<close>

section \<open>Vocabulary\<close>

datatype EventType = EV_CREATED | EV_PAID

datatype OrderStatus = INIT | CREATED | PAID

datatype CommandType = CREATE | PAY

fun EventType_value :: "EventType \<Rightarrow> string" where
  "EventType_value EV_CREATED = ''CREATED''"
| "EventType_value EV_PAID = ''PAID''"

fun OrderStatus_value :: "OrderStatus \<Rightarrow> string" where
  "OrderStatus_value INIT = ''INIT''"
| "OrderStatus_value CREATED = ''CREATED''"
| "OrderStatus_value PAID = ''PAID''"

fun CommandType_value :: "CommandType \<Rightarrow> string" where
  "CommandType_value CREATE = ''create''"
| "CommandType_value PAY = ''pay''"

text \<open>The enum constructors applied to a value: \<open>EventType(text)\<close> and its siblings raise
  \<open>ValueError\<close> on any other text.\<close>

definition EventType_of :: "string \<Rightarrow> EventType res" where
  "EventType_of s =
     (if s = ''CREATED'' then Inr EV_CREATED else if s = ''PAID'' then Inr EV_PAID
      else Inl (ValueError ''not a valid EventType''))"

definition OrderStatus_of :: "string \<Rightarrow> OrderStatus res" where
  "OrderStatus_of s =
     (if s = ''INIT'' then Inr INIT else if s = ''CREATED'' then Inr CREATED
      else if s = ''PAID'' then Inr PAID else Inl (ValueError ''not a valid OrderStatus''))"

definition CommandType_of :: "string \<Rightarrow> CommandType res" where
  "CommandType_of s =
     (if s = ''create'' then Inr CREATE else if s = ''pay'' then Inr PAY
      else Inl (ValueError ''not a valid CommandType''))"

lemma enum_of_value [simp]:
  "EventType_of (EventType_value t) = Inr t"
  "OrderStatus_of (OrderStatus_value st) = Inr st"
  "CommandType_of (CommandType_value c) = Inr c"
  by ((cases t; simp add: EventType_of_def), (cases st; simp add: OrderStatus_of_def),
      (cases c; simp add: CommandType_of_def))

section \<open>Proofs, events and derived state\<close>

record Proof =
  prev_status :: OrderStatus
  prev_version :: int
  prev_event_id :: "string option"

record OrderEvent =
  ev_event_id :: string
  ev_request_id :: string
  ev_order_id :: string
  ev_sequence :: int
  ev_event_type :: EventType
  ev_amount :: decimal
  ev_occurred_at_ms :: int
  ev_proof :: Proof

definition OrderEvent_create ::
  "string \<Rightarrow> int \<Rightarrow> string \<Rightarrow> string \<Rightarrow> int \<Rightarrow> EventType \<Rightarrow> decimal \<Rightarrow> Proof \<Rightarrow> OrderEvent res" where
  "OrderEvent_create new_event_id now_ms request_id order_id sequence event_type amount proof_claim =
     bind_res (normalize_money (MDecimal amount)) (\<lambda>normalized.
       Inr \<lparr>ev_event_id = new_event_id, ev_request_id = request_id, ev_order_id = order_id,
            ev_sequence = sequence, ev_event_type = event_type, ev_amount = normalized,
            ev_occurred_at_ms = now_ms, ev_proof = proof_claim\<rparr>)"

record OrderState =
  st_order_id :: string
  st_status :: OrderStatus
  st_total_amount :: decimal
  st_paid_amount :: decimal
  st_version :: int

text \<open>\<open>==\<close> of the frozen dataclass: the fields are compared with \<open>==\<close>, and decimals by value.\<close>

definition OrderState_eq :: "OrderState \<Rightarrow> OrderState \<Rightarrow> bool" where
  "OrderState_eq s t \<longleftrightarrow>
     st_order_id s = st_order_id t \<and> st_status s = st_status t
     \<and> dec_eq (st_total_amount s) (st_total_amount t)
     \<and> dec_eq (st_paid_amount s) (st_paid_amount t) \<and> st_version s = st_version t"

section \<open>The aggregate\<close>

record OrderAggregate =
  agg_order_id :: string
  current_version :: int
  status :: OrderStatus
  total_amount :: decimal
  paid_amount :: decimal
  last_event_id :: "string option"

abbreviation zero_amount :: decimal where
  "zero_amount \<equiv> Dec False 0 (- 2)"

definition OrderAggregate_init :: "string \<Rightarrow> OrderAggregate res" where
  "OrderAggregate_init order_id =
     (if py_blank order_id then Inl (ValueError ''order_id must not be empty'')
      else Inr \<lparr>agg_order_id = order_id, current_version = 0, status = INIT,
                total_amount = zero_amount, paid_amount = zero_amount, last_event_id = None\<rparr>)"

definition require_non_empty_request_id :: "string \<Rightarrow> unit res" where
  "require_non_empty_request_id request_id =
     require (\<not> py_blank request_id) (ValueError ''request_id must not be empty'')"

definition proof_of :: "OrderAggregate \<Rightarrow> Proof" where
  "proof_of self =
     \<lparr>prev_status = status self, prev_version = current_version self, prev_event_id = last_event_id self\<rparr>"

definition aggregate_create ::
  "OrderAggregate \<Rightarrow> string \<Rightarrow> int \<Rightarrow> string \<Rightarrow> decimal \<Rightarrow> OrderEvent res" where
  "aggregate_create self new_event_id now_ms request_id amount =
     bind_res (require_non_empty_request_id request_id) (\<lambda>_.
     bind_res (ensure_positive_money (MDecimal amount)) (\<lambda>normalized_total_amount.
     if status self \<noteq> INIT then Inl (ValueError ''Already created'')
     else OrderEvent_create new_event_id now_ms request_id (agg_order_id self)
            (current_version self + 1) EV_CREATED normalized_total_amount (proof_of self)))"

definition aggregate_pay ::
  "OrderAggregate \<Rightarrow> string \<Rightarrow> int \<Rightarrow> string \<Rightarrow> decimal \<Rightarrow> OrderEvent res" where
  "aggregate_pay self new_event_id now_ms request_id amount =
     bind_res (require_non_empty_request_id request_id) (\<lambda>_.
     bind_res (ensure_positive_money (MDecimal amount)) (\<lambda>normalized_payment_amount.
     if status self = PAID then Inl (ValueError ''Order is already paid'')
     else if status self = INIT then Inl (ValueError ''Cannot pay before order is created'')
     else if \<not> dec_eq normalized_payment_amount (total_amount self)
     then Inl (ValueError ''v1 full-payment rule violated: pay amount must equal total_amount'')
     else OrderEvent_create new_event_id now_ms request_id (agg_order_id self)
            (current_version self + 1) EV_PAID normalized_payment_amount (proof_of self)))"

definition aggregate_apply :: "OrderAggregate \<Rightarrow> OrderEvent \<Rightarrow> OrderAggregate res" where
  "aggregate_apply self event =
     (if ev_order_id event \<noteq> agg_order_id self
      then Inl (ValueError ''Order id mismatch during apply'')
      else if ev_sequence event \<noteq> current_version self + 1
      then Inl (ValueError ''Sequence discontinuity during apply'')
      else
        (let self1 = (case ev_event_type event of
                        EV_CREATED \<Rightarrow> self\<lparr>status := CREATED, total_amount := ev_amount event\<rparr>
                      | EV_PAID \<Rightarrow> self\<lparr>status := PAID, paid_amount := ev_amount event\<rparr>)
         in Inr (self1\<lparr>current_version := ev_sequence event, last_event_id := Some (ev_event_id event)\<rparr>)))"

text \<open>The command of either type, and rehydration from an accepted history.\<close>

fun aggregate_command ::
  "CommandType \<Rightarrow> OrderAggregate \<Rightarrow> string \<Rightarrow> int \<Rightarrow> string \<Rightarrow> decimal \<Rightarrow> OrderEvent res" where
  "aggregate_command CREATE self = aggregate_create self"
| "aggregate_command PAY self = aggregate_pay self"

definition rehydrate :: "string \<Rightarrow> OrderEvent list \<Rightarrow> OrderAggregate res" where
  "rehydrate order_id history =
     bind_res (OrderAggregate_init order_id) (\<lambda>a. fold_res aggregate_apply a history)"

section \<open>Invariant of an aggregate and legal candidates\<close>

fun agg_inv :: "OrderAggregate \<Rightarrow> bool" where
  "agg_inv a =
     (\<not> py_blank (agg_order_id a) \<and>
      (case status a of
         INIT \<Rightarrow> current_version a = 0 \<and> total_amount a = zero_amount
                 \<and> paid_amount a = zero_amount \<and> last_event_id a = None
       | CREATED \<Rightarrow> current_version a = 1 \<and> canonical_amount (total_amount a)
                 \<and> paid_amount a = zero_amount \<and> last_event_id a \<noteq> None
       | PAID \<Rightarrow> current_version a = 2 \<and> canonical_amount (total_amount a)
                 \<and> paid_amount a = total_amount a \<and> last_event_id a \<noteq> None))"

definition legal_candidate :: "OrderAggregate \<Rightarrow> OrderEvent \<Rightarrow> bool" where
  "legal_candidate a e \<longleftrightarrow>
     ev_order_id e = agg_order_id a \<and> ev_sequence e = current_version a + 1
     \<and> ev_proof e = proof_of a \<and> canonical_amount (ev_amount e) \<and> \<not> py_blank (ev_request_id e)
     \<and> (case ev_event_type e of
          EV_CREATED \<Rightarrow> status a = INIT
        | EV_PAID \<Rightarrow> status a = CREATED \<and> ev_amount e = total_amount a)"

fun legal_from :: "OrderAggregate \<Rightarrow> OrderEvent list \<Rightarrow> bool" where
  "legal_from a [] = True"
| "legal_from a (e # es) =
     (legal_candidate a e \<and> (case aggregate_apply a e of Inl _ \<Rightarrow> False | Inr a' \<Rightarrow> legal_from a' es))"

fun legal_history :: "string \<Rightarrow> OrderEvent list \<Rightarrow> bool" where
  "legal_history order_id es =
     (case OrderAggregate_init order_id of Inl _ \<Rightarrow> False | Inr a \<Rightarrow> legal_from a es)"

lemma OrderAggregate_init_inv: "OrderAggregate_init oid = Inr a \<Longrightarrow> agg_inv a"
  by (auto simp: OrderAggregate_init_def split: if_splits)

lemma aggregate_apply_fields:
  assumes "aggregate_apply a e = Inr a'"
  shows "agg_order_id a' = agg_order_id a" "current_version a' = ev_sequence e"
    "last_event_id a' = Some (ev_event_id e)" "ev_sequence e = current_version a + 1"
    "ev_order_id e = agg_order_id a"
  using assms by (auto simp: aggregate_apply_def Let_def split: if_splits EventType.splits)

lemma legal_apply:
  assumes "legal_candidate a e" and "agg_inv a"
  obtains a' where "aggregate_apply a e = Inr a'" and "agg_inv a'"
    and "status a' = (case ev_event_type e of EV_CREATED \<Rightarrow> CREATED | EV_PAID \<Rightarrow> PAID)"
    and "total_amount a' = ev_amount e"
  using assms
  by (auto simp: legal_candidate_def aggregate_apply_def Let_def split: EventType.splits)

lemma aggregate_create_event:
  assumes "aggregate_create a eid now rid amt = Inr ev"
  shows "\<exists>n. ensure_positive_money (MDecimal amt) = Inr n \<and> canonical_amount n \<and> \<not> py_blank rid
    \<and> status a = INIT
    \<and> ev = \<lparr>ev_event_id = eid, ev_request_id = rid, ev_order_id = agg_order_id a,
            ev_sequence = current_version a + 1, ev_event_type = EV_CREATED, ev_amount = n,
            ev_occurred_at_ms = now, ev_proof = proof_of a\<rparr>"
  using assms
  by (auto simp: aggregate_create_def OrderEvent_create_def require_non_empty_request_id_def
      res_simps ensure_positive_canonical split: if_splits)

lemma aggregate_pay_event:
  assumes "aggregate_pay a eid now rid amt = Inr ev" and "agg_inv a"
  shows "\<exists>n. ensure_positive_money (MDecimal amt) = Inr n \<and> canonical_amount n \<and> \<not> py_blank rid
    \<and> status a = CREATED \<and> n = total_amount a
    \<and> ev = \<lparr>ev_event_id = eid, ev_request_id = rid, ev_order_id = agg_order_id a,
            ev_sequence = current_version a + 1, ev_event_type = EV_PAID, ev_amount = n,
            ev_occurred_at_ms = now, ev_proof = proof_of a\<rparr>"
  using assms
  by (cases "status a")
     (auto simp: aggregate_pay_def OrderEvent_create_def require_non_empty_request_id_def
      res_simps ensure_positive_canonical dec_eq_canonical split: if_splits)

lemma command_candidate:
  assumes "aggregate_command cmd a eid now rid amt = Inr ev" and "agg_inv a"
  shows "legal_candidate a ev" and "ev_event_id ev = eid" and "ev_request_id ev = rid"
  using assms
  by (cases cmd; auto simp: legal_candidate_def dest!: aggregate_create_event aggregate_pay_event)+

lemma legal_from_snoc:
  assumes "fold_res aggregate_apply a es = Inr b"
  shows "legal_from a (es @ [e]) \<longleftrightarrow>
    legal_from a es \<and> legal_candidate b e \<and> (\<exists>b'. aggregate_apply b e = Inr b')"
  using assms
proof (induction es arbitrary: a)
  case Nil
  then show ?case by (auto split: sum.splits)
next
  case (Cons x es)
  then obtain a1 where "aggregate_apply a x = Inr a1" "fold_res aggregate_apply a1 es = Inr b"
    by (auto simp: res_simps)
  with Cons.IH [of a1] show ?case by auto
qed

lemma legal_from_replay:
  assumes "legal_from a es" and "agg_inv a"
  shows "\<exists>b. fold_res aggregate_apply a es = Inr b \<and> agg_inv b"
  using assms
proof (induction es arbitrary: a)
  case Nil
  then show ?case by simp
next
  case (Cons x es)
  then have x: "legal_candidate a x" by simp
  from legal_apply [OF x Cons.prems(2)] obtain a1
    where a1: "aggregate_apply a x = Inr a1" "agg_inv a1" by metis
  with Cons show ?case by simp
qed

lemma fold_apply_version:
  assumes "fold_res aggregate_apply a es = Inr b"
  shows "current_version b = current_version a + int (length es)
    \<and> agg_order_id b = agg_order_id a
    \<and> last_event_id b = (if es = [] then last_event_id a else Some (ev_event_id (last es)))
    \<and> map ev_sequence es = map (\<lambda>i. current_version a + int i) [1..<Suc (length es)]
    \<and> (\<forall>e \<in> set es. ev_order_id e = agg_order_id a)"
  using assms
proof (induction es arbitrary: b rule: rev_induct)
  case Nil
  then show ?case by simp
next
  case (snoc e es)
  then obtain c where c: "fold_res aggregate_apply a es = Inr c" "aggregate_apply c e = Inr b"
    by (auto simp: fold_res_snoc res_simps)
  with snoc.IH [OF c(1)] aggregate_apply_fields [OF c(2)] show ?case by auto
qed

lemma legal_history_replay:
  assumes "legal_history oid es"
  obtains a where "rehydrate oid es = Inr a" and "agg_inv a" and "agg_order_id a = oid"
    and "current_version a = int (length es)"
    and "last_event_id a = (if es = [] then None else Some (ev_event_id (last es)))"
proof -
  from assms obtain z where z: "OrderAggregate_init oid = Inr z" "legal_from z es"
    by (auto split: sum.splits)
  from legal_from_replay [OF z(2) OrderAggregate_init_inv [OF z(1)]] obtain a
    where a: "fold_res aggregate_apply z es = Inr a" "agg_inv a" by blast
  from z(1) have "current_version z = 0 \<and> agg_order_id z = oid \<and> last_event_id z = None"
    by (auto simp: OrderAggregate_init_def split: if_splits)
  with a fold_apply_version [OF a(1)] z(1) show ?thesis
    by (intro that [of a]) (auto simp: rehydrate_def)
qed

lemma legal_history_snoc:
  assumes "legal_history oid es" and "rehydrate oid es = Inr a" and "legal_candidate a e"
  shows "legal_history oid (es @ [e])"
proof -
  from assms(1,2) obtain z where z: "OrderAggregate_init oid = Inr z" "legal_from z es"
    "fold_res aggregate_apply z es = Inr a"
    by (auto simp: rehydrate_def split: sum.splits)
  with legal_from_replay [OF z(2) OrderAggregate_init_inv [OF z(1)]] have inv: "agg_inv a" by auto
  obtain a' where "aggregate_apply a e = Inr a'"
    using legal_apply [OF assms(3) inv] by metis
  with z assms(3) show ?thesis by (simp add: legal_from_snoc)
qed

lemma legal_history_length:
  assumes "legal_history oid es"
  shows "length es \<le> 2"
proof -
  from legal_history_replay [OF assms] obtain a where "agg_inv a" "current_version a = int (length es)"
    by metis
  then show ?thesis by (auto split: OrderStatus.splits)
qed

section \<open>The life cycle of an order\<close>

text \<open>
  The abstract view of one order stream: nothing accepted yet, created for an amount, or paid in
  full. \<open>life_step\<close> is the specification of a command on it, \<open>life_of\<close> the abstraction of an
  aggregate.
\<close>

datatype order_life = Absent | Created_for decimal | Paid_for decimal

fun life_of :: "OrderAggregate \<Rightarrow> order_life" where
  "life_of a = (case status a of INIT \<Rightarrow> Absent | CREATED \<Rightarrow> Created_for (total_amount a)
                | PAID \<Rightarrow> Paid_for (paid_amount a))"

fun life_step :: "CommandType \<Rightarrow> decimal \<Rightarrow> order_life \<Rightarrow> order_life option" where
  "life_step CREATE n Absent = Some (Created_for n)"
| "life_step PAY n (Created_for t) = (if n = t then Some (Paid_for n) else None)"
| "life_step _ _ _ = None"

lemma command_refines_life:
  assumes "agg_inv a"
  shows "(\<exists>ev. aggregate_command cmd a eid now rid amt = Inr ev) \<longleftrightarrow>
    \<not> py_blank rid \<and> (\<exists>n l. ensure_positive_money (MDecimal amt) = Inr n \<and> life_step cmd n (life_of a) = Some l)"
proof (cases "ensure_positive_money (MDecimal amt)")
  case (Inl e)
  then show ?thesis
    by (cases cmd) (auto simp: aggregate_create_def aggregate_pay_def res_simps)
next
  case (Inr n)
  then have c: "canonical_amount n" by (rule ensure_positive_canonical)
  with Inr assms show ?thesis
    by (cases cmd; cases "status a")
       (auto simp: aggregate_create_def aggregate_pay_def require_non_empty_request_id_def
         OrderEvent_create_def res_simps dec_eq_canonical)
qed

lemma command_apply_life:
  assumes "agg_inv a" and "aggregate_command cmd a eid now rid amt = Inr ev"
    and "aggregate_apply a ev = Inr a'" and "ensure_positive_money (MDecimal amt) = Inr n"
  shows "life_step cmd n (life_of a) = Some (life_of a')"
  using assms
  by (cases cmd; cases "status a")
     (auto simp: aggregate_apply_def Let_def dest!: aggregate_create_event aggregate_pay_event)

section \<open>Properties\<close>

text \<open>
  C21: The aggregate implements the order life cycle. From any aggregate that satisfies the
  invariant, a command produces an event exactly when the request identity is not blank, the
  amount normalises to a positive amount and the life cycle allows the step; applying the
  produced event always succeeds, re-establishes the invariant and performs that step.
\<close>

theorem aggregate_implements_life_cycle:
  assumes "agg_inv a"
  shows "((\<exists>ev. aggregate_command cmd a eid now rid amt = Inr ev) \<longleftrightarrow>
      \<not> py_blank rid \<and> (\<exists>n l. ensure_positive_money (MDecimal amt) = Inr n
                              \<and> life_step cmd n (life_of a) = Some l))
    \<and> (\<forall>ev. aggregate_command cmd a eid now rid amt = Inr ev \<longrightarrow>
      (\<exists>a' n. aggregate_apply a ev = Inr a' \<and> agg_inv a' \<and> ensure_positive_money (MDecimal amt) = Inr n
             \<and> life_step cmd n (life_of a) = Some (life_of a')))"
proof (intro conjI allI impI command_refines_life [OF assms])
  fix ev
  assume ev: "aggregate_command cmd a eid now rid amt = Inr ev"
  with command_refines_life [OF assms, of cmd eid now rid amt] obtain n
    where n: "ensure_positive_money (MDecimal amt) = Inr n" by blast
  from command_candidate(1) [OF ev assms] obtain a' where "aggregate_apply a ev = Inr a'" "agg_inv a'"
    using legal_apply [OF _ assms] by metis
  with command_apply_life [OF assms ev _ n] n
  show "\<exists>a' n. aggregate_apply a ev = Inr a' \<and> agg_inv a' \<and> ensure_positive_money (MDecimal amt) = Inr n
             \<and> life_step cmd n (life_of a) = Some (life_of a')"
    by blast
qed

definition sample_created :: OrderEvent where
  "sample_created = \<lparr>ev_event_id = ''e1'', ev_request_id = ''r1'', ev_order_id = ''o1'', ev_sequence = 1,
     ev_event_type = EV_CREATED, ev_amount = Dec False 1000 (- 2), ev_occurred_at_ms = 5,
     ev_proof = \<lparr>prev_status = INIT, prev_version = 0, prev_event_id = None\<rparr>\<rparr>"

definition sample_aggregate :: OrderAggregate where
  "sample_aggregate = \<lparr>agg_order_id = ''o1'', current_version = 1, status = CREATED,
     total_amount = Dec False 1000 (- 2), paid_amount = zero_amount, last_event_id = Some ''e1''\<rparr>"

lemmas sample_defs = sample_created_def sample_aggregate_def

theorem aggregate_implements_life_cycle_witness:
  "(\<exists>ev. aggregate_command PAY sample_aggregate ''e2'' 7 ''r2'' (Dec False 1000 (- 2)) = Inr ev)
   \<and> \<not> (\<exists>ev. aggregate_command PAY sample_aggregate ''e2'' 7 ''r2'' (Dec False 999 (- 2)) = Inr ev)"
proof -
  have inv: "agg_inv sample_aggregate"
    by (simp add: sample_defs money_eval py_blank_iff py_isspace_def)
  have rid: "\<not> py_blank ''r2''"
    by (simp add: py_blank_iff py_isspace_def)
  have "ensure_positive_money (MDecimal (Dec False 1000 (- 2))) = Inr (Dec False 1000 (- 2))"
    "ensure_positive_money (MDecimal (Dec False 999 (- 2))) = Inr (Dec False 999 (- 2))"
    by (simp_all add: money_eval)
  then show ?thesis
    using aggregate_implements_life_cycle
        [OF inv, of PAY "''e2''" 7 "''r2''" "Dec False 1000 (- 2)", THEN conjunct1]
      aggregate_implements_life_cycle
        [OF inv, of PAY "''e2''" 7 "''r2''" "Dec False 999 (- 2)", THEN conjunct1] rid
    by (simp add: sample_defs)
qed

text \<open>
  An accepted stream that was built from legal candidates rehydrates without an exception
  into an aggregate that satisfies the invariant, whose version is the number of events; the
  sequence numbers of the stream are exactly 1, 2, ... and there are at most two events, so an
  order is created once and paid at most once, for the amount it was created with.
\<close>

theorem legal_history_rehydrates:
  assumes "legal_history oid es"
  shows "\<exists>a. rehydrate oid es = Inr a \<and> agg_inv a \<and> current_version a = int (length es)
    \<and> map ev_sequence es = map int [1..<Suc (length es)] \<and> length es \<le> 2
    \<and> (\<forall>e \<in> set es. ev_order_id e = oid)"
proof -
  from assms obtain z where z: "OrderAggregate_init oid = Inr z" "legal_from z es"
    by (auto split: sum.splits)
  then have z0: "current_version z = 0 \<and> agg_order_id z = oid"
    by (auto simp: OrderAggregate_init_def split: if_splits)
  from legal_from_replay [OF z(2) OrderAggregate_init_inv [OF z(1)]] obtain a
    where a: "fold_res aggregate_apply z es = Inr a" "agg_inv a" by blast
  from fold_apply_version [OF a(1)] a z z0 legal_history_length [OF assms] show ?thesis
    by (auto simp: rehydrate_def)
qed

theorem legal_history_rehydrates_witness:
  "\<exists>a. rehydrate ''o1'' [sample_created] = Inr a \<and> agg_inv a \<and> current_version a = 1"
proof -
  have "legal_history ''o1'' [sample_created]"
    by (simp add: sample_defs money_eval py_blank_iff py_isspace_def OrderAggregate_init_def
        legal_candidate_def aggregate_apply_def proof_of_def)
  from legal_history_rehydrates [OF this] show ?thesis by auto
qed

end
