(* ===== verification/Transition_Validation.thy ===== *)
theory Transition_Validation
  imports Order_Domain
begin

text \<open>
  \<open>src/compass/transition\<close>: the full-proof transition validator with its sibling rule evidence
  (\<open>validators.py\<close>, \<open>rule_evaluation_evidence.py\<close>), the dispatcher, the policy and the
  validation runtime (\<open>runtime.py\<close>), over the types of \<open>types.py\<close>; and from \<open>src/core/order\<close>
  the rule identities of \<open>correctness_contract.py\<close> and \<open>rule_violation_evidence.py\<close>.
  The three elapsed-time fields of a validation result are measurements of the process clock
  that nothing reads back; they are left out. The lemmas show that the branch tree of the
  validator decides a declarative judgement (\<open>violated_rule\<close>, the first violated rule), that
  both views of the validator agree, and that the aggregate never proposes a candidate that its
  own accepted history rejects.
\<close>

section \<open>Types\<close>

datatype ValidationMode = STRICT | OFF

datatype ValidationVerdict = PASSED | FAILED | SKIPPED

datatype EnforcementAction = ALLOW | BLOCK

record ValidationResult =
  vr_verdict :: ValidationVerdict
  vr_reason :: string
  vr_candidate_event_id :: string
  vr_validator_name :: string
  vr_validation_mode :: ValidationMode
  vr_metadata :: py_dict

record ValidationDecision =
  vd_action :: EnforcementAction
  vd_validation_result :: ValidationResult

record ValidationContext =
  actual_prev_event :: "OrderEvent option"
  actual_prev_version :: int
  actual_prev_status :: OrderStatus

section \<open>Rule identities and violation evidence\<close>

datatype OrderCorrectnessRuleId =
    CREATE_ALLOWED_FROM_INIT
  | PAY_ALLOWED_FROM_CREATED
  | CREATE_NORMALIZED_AMOUNT_POSITIVE
  | PAY_NORMALIZED_AMOUNT_POSITIVE
  | PAY_NORMALIZED_AMOUNT_EQUALS_TOTAL
  | CANDIDATE_SEQUENCE_IS_NEXT_AGGREGATE_VERSION
  | CANDIDATE_PROOF_DERIVED_FROM_AGGREGATE_PREDECESSOR
  | TRUSTED_APPLICATION_EVENT_ORDER_ID_MATCHES_AGGREGATE
  | TRUSTED_APPLICATION_EVENT_SEQUENCE_IS_NEXT_VERSION
  | TRUSTED_APPLICATION_CREATED_ESTABLISHES_STATE
  | TRUSTED_APPLICATION_PAID_ESTABLISHES_STATE
  | TRUSTED_APPLICATION_UPDATES_AGGREGATE_HISTORY_HEAD
  | TRANSITION_SEQUENCE_MATCHES_ACCEPTED_NEXT_VERSION
  | TRANSITION_PROOF_PREV_EVENT_ID_MATCHES_ACCEPTED
  | TRANSITION_PROOF_PREV_VERSION_MATCHES_ACCEPTED
  | TRANSITION_PROOF_PREV_STATUS_MATCHES_ACCEPTED
  | TRANSITION_CANDIDATE_EVENT_TYPE_SUPPORTED
  | TRANSITION_EVENT_TYPE_LEGAL_FROM_ACCEPTED_STATUS

definition ORDER_V0_contract_id :: string where
  "ORDER_V0_contract_id = ''order.correctness''"

definition ORDER_V0_contract_version :: int where
  "ORDER_V0_contract_version = 0"

record OrderRuleViolationEvidence =
  rv_contract_id :: string
  rv_contract_version :: int
  rv_rule_id :: OrderCorrectnessRuleId
  rv_candidate_event_id :: string

definition OrderRuleViolationEvidence_init ::
  "string \<Rightarrow> int \<Rightarrow> OrderCorrectnessRuleId \<Rightarrow> string \<Rightarrow> OrderRuleViolationEvidence res" where
  "OrderRuleViolationEvidence_init contract_id contract_version rule_id candidate_event_id =
     (if contract_id \<noteq> ORDER_V0_contract_id
      then Inl (ValueError ''contract_id must identify the supported Order V0 contract'')
      else if contract_version \<noteq> ORDER_V0_contract_version
      then Inl (ValueError ''contract_version must identify the supported Order V0 contract'')
      else if py_blank candidate_event_id
      then Inl (ValueError ''candidate_event_id must be a non-empty string'')
      else Inr \<lparr>rv_contract_id = contract_id, rv_contract_version = contract_version,
                rv_rule_id = rule_id, rv_candidate_event_id = candidate_event_id\<rparr>)"

definition FULL_PROOF_SUPPORTED_RULE_IDS :: "OrderCorrectnessRuleId list" where
  "FULL_PROOF_SUPPORTED_RULE_IDS =
     [TRANSITION_SEQUENCE_MATCHES_ACCEPTED_NEXT_VERSION,
      TRANSITION_PROOF_PREV_EVENT_ID_MATCHES_ACCEPTED,
      TRANSITION_PROOF_PREV_VERSION_MATCHES_ACCEPTED,
      TRANSITION_PROOF_PREV_STATUS_MATCHES_ACCEPTED,
      TRANSITION_CANDIDATE_EVENT_TYPE_SUPPORTED,
      TRANSITION_EVENT_TYPE_LEGAL_FROM_ACCEPTED_STATUS]"

record FullProofValidationEvidence =
  fp_validation_result :: ValidationResult
  fp_observed_violation :: "OrderRuleViolationEvidence option"

definition FullProofValidationEvidence_init ::
  "ValidationResult \<Rightarrow> OrderRuleViolationEvidence option \<Rightarrow> FullProofValidationEvidence res" where
  "FullProofValidationEvidence_init result violation =
     (if py_blank (vr_candidate_event_id result)
      then Inl (ValueError ''validation_result.candidate_event_id must be a non-empty string'')
      else case vr_verdict result of
        PASSED \<Rightarrow>
          (if violation \<noteq> None
           then Inl (ValueError ''PASSED validation must not include observed_violation'')
           else Inr \<lparr>fp_validation_result = result, fp_observed_violation = violation\<rparr>)
      | SKIPPED \<Rightarrow>
          Inl (ValueError ''FullProofValidationEvidence supports only PASSED or FAILED'')
      | FAILED \<Rightarrow>
          (case violation of
             None \<Rightarrow> Inl (ValueError ''FAILED validation must include observed_violation'')
           | Some v \<Rightarrow>
               if rv_rule_id v \<notin> set FULL_PROOF_SUPPORTED_RULE_IDS
               then Inl (ValueError
                 ''observed_violation rule_id is not supported by FullProofValidator evidence'')
               else if rv_candidate_event_id v \<noteq> vr_candidate_event_id result
               then Inl (ValueError
                 ''observed_violation and validation_result must identify the same candidate event'')
               else Inr \<lparr>fp_validation_result = result, fp_observed_violation = violation\<rparr>))"

section \<open>Validators\<close>

definition NoOp_validate :: "OrderEvent \<Rightarrow> ValidationContext \<Rightarrow> ValidationResult" where
  "NoOp_validate candidate_event ctxt =
     \<lparr>vr_verdict = SKIPPED, vr_reason = ''Validation skipped because validation mode is OFF'',
      vr_candidate_event_id = ev_event_id candidate_event, vr_validator_name = ''NoOpValidator'',
      vr_validation_mode = OFF, vr_metadata = []\<rparr>"

text \<open>The dictionary lookup may miss in the source; the current enum has no third member.\<close>

definition REQUIRED_PREV_STATUS_BY_EVENT_TYPE :: "(EventType \<times> OrderStatus) list" where
  "REQUIRED_PREV_STATUS_BY_EVENT_TYPE = [(EV_CREATED, INIT), (EV_PAID, CREATED)]"

definition full_proof_result ::
  "ValidationVerdict \<Rightarrow> string \<Rightarrow> OrderEvent \<Rightarrow> py_dict \<Rightarrow> ValidationResult" where
  "full_proof_result verdict reason candidate_event metadata =
     \<lparr>vr_verdict = verdict, vr_reason = reason,
      vr_candidate_event_id = ev_event_id candidate_event,
      vr_validator_name = ''FullProofValidator'', vr_validation_mode = STRICT,
      vr_metadata = metadata\<rparr>"

definition FullProof_validate_branches ::
  "OrderEvent \<Rightarrow> ValidationContext \<Rightarrow> ValidationResult \<times> OrderCorrectnessRuleId option" where
  "FullProof_validate_branches candidate_event ctxt =
     (let expected_prev_version = actual_prev_version ctxt;
          expected_prev_event_id = map_option ev_event_id (actual_prev_event ctxt);
          expected_prev_status = actual_prev_status ctxt;
          claim = ev_proof candidate_event;
          type_value = EventType_value (ev_event_type candidate_event)
      in
      if ev_sequence candidate_event \<noteq> expected_prev_version + 1
      then (full_proof_result FAILED
              (''Sequence violation: got '' @ show_int (ev_sequence candidate_event)
               @ '', expected '' @ show_int (expected_prev_version + 1)) candidate_event
              [(''expected_prev_version'', VInt expected_prev_version),
               (''actual_sequence'', VInt (ev_sequence candidate_event)),
               (''expected_sequence'', VInt (expected_prev_version + 1)),
               (''expected_prev_event_id'', opt_str expected_prev_event_id),
               (''expected_prev_status'', VStr (OrderStatus_value expected_prev_status))],
            Some TRANSITION_SEQUENCE_MATCHES_ACCEPTED_NEXT_VERSION)
      else if prev_event_id claim \<noteq> expected_prev_event_id
      then (full_proof_result FAILED
              ''Predecessor mismatch: prev_event_id does not match actual previous event''
              candidate_event
              [(''expected_prev_event_id'', opt_str expected_prev_event_id),
               (''claimed_prev_event_id'', opt_str (prev_event_id claim))],
            Some TRANSITION_PROOF_PREV_EVENT_ID_MATCHES_ACCEPTED)
      else if prev_version claim \<noteq> expected_prev_version
      then (full_proof_result FAILED
              ''Proof mismatch: prev_version does not match actual history'' candidate_event
              [(''expected_prev_version'', VInt expected_prev_version),
               (''claimed_prev_version'', VInt (prev_version claim))],
            Some TRANSITION_PROOF_PREV_VERSION_MATCHES_ACCEPTED)
      else if prev_status claim \<noteq> expected_prev_status
      then (full_proof_result FAILED
              ''Proof mismatch: prev_status does not match actual history'' candidate_event
              [(''actual_prev_status'', VStr (OrderStatus_value expected_prev_status)),
               (''claimed_prev_status'', VStr (OrderStatus_value (prev_status claim)))],
            Some TRANSITION_PROOF_PREV_STATUS_MATCHES_ACCEPTED)
      else case map_of REQUIRED_PREV_STATUS_BY_EVENT_TYPE (ev_event_type candidate_event) of
        None \<Rightarrow>
          (full_proof_result FAILED (''Unsupported event type: '' @ type_value) candidate_event
             [(''event_type'', VStr type_value),
              (''actual_prev_status'', VStr (OrderStatus_value expected_prev_status)),
              (''claimed_prev_status'', VStr (OrderStatus_value (prev_status claim)))],
           Some TRANSITION_CANDIDATE_EVENT_TYPE_SUPPORTED)
      | Some required_prev_status \<Rightarrow>
          if expected_prev_status \<noteq> required_prev_status
          then (full_proof_result FAILED
                  (''Invalid transition: '' @ type_value @ '' requires prev_status=''
                   @ OrderStatus_value required_prev_status @ '', but actual_prev_status=''
                   @ OrderStatus_value expected_prev_status) candidate_event
                  [(''event_type'', VStr type_value),
                   (''required_prev_status'', VStr (OrderStatus_value required_prev_status)),
                   (''actual_prev_status'', VStr (OrderStatus_value expected_prev_status)),
                   (''claimed_prev_status'', VStr (OrderStatus_value (prev_status claim)))],
                Some TRANSITION_EVENT_TYPE_LEGAL_FROM_ACCEPTED_STATUS)
          else (full_proof_result PASSED ''Event passed full proof transition validation''
                  candidate_event
                  [(''event_type'', VStr type_value),
                   (''expected_prev_version'', VInt expected_prev_version),
                   (''expected_prev_event_id'', opt_str expected_prev_event_id),
                   (''expected_prev_status'', VStr (OrderStatus_value expected_prev_status)),
                   (''claimed_prev_version'', VInt (prev_version claim)),
                   (''claimed_prev_event_id'', opt_str (prev_event_id claim)),
                   (''claimed_prev_status'', VStr (OrderStatus_value (prev_status claim)))],
                None))"

definition FullProof_validate :: "OrderEvent \<Rightarrow> ValidationContext \<Rightarrow> ValidationResult" where
  "FullProof_validate candidate_event ctxt = fst (FullProof_validate_branches candidate_event ctxt)"

definition validate_with_rule_evidence ::
  "OrderEvent \<Rightarrow> ValidationContext \<Rightarrow> FullProofValidationEvidence res" where
  "validate_with_rule_evidence candidate_event ctxt =
     (let (validation_result, violated_rule_id) = FullProof_validate_branches candidate_event ctxt
      in bind_res
           (case violated_rule_id of
              None \<Rightarrow> Inr None
            | Some rule_id \<Rightarrow>
                bind_res (OrderRuleViolationEvidence_init ORDER_V0_contract_id
                            ORDER_V0_contract_version rule_id (ev_event_id candidate_event))
                  (\<lambda>v. Inr (Some v)))
           (\<lambda>observed_violation.
              FullProofValidationEvidence_init validation_result observed_violation))"

section \<open>Dispatcher, policy and runtime\<close>

datatype TransitionValidator = FullProofValidator | NoOpValidator

fun validator_validate ::
  "TransitionValidator \<Rightarrow> OrderEvent \<Rightarrow> ValidationContext \<Rightarrow> ValidationResult" where
  "validator_validate FullProofValidator = FullProof_validate"
| "validator_validate NoOpValidator = NoOp_validate"

record ValidationDispatcher =
  strict_validator :: TransitionValidator
  off_validator :: TransitionValidator

definition dispatcher_select :: "ValidationDispatcher \<Rightarrow> ValidationMode \<Rightarrow> TransitionValidator" where
  "dispatcher_select self mode = (if mode = OFF then off_validator self else strict_validator self)"

definition policy_decide :: "ValidationResult \<Rightarrow> EnforcementAction" where
  "policy_decide result = (if vr_verdict result = FAILED then BLOCK else ALLOW)"

record ValidationRuntime =
  vrt_dispatcher :: ValidationDispatcher
  vrt_mode :: ValidationMode

definition runtime_decide ::
  "ValidationRuntime \<Rightarrow> OrderEvent \<Rightarrow> ValidationContext \<Rightarrow> ValidationDecision" where
  "runtime_decide self candidate_event ctxt =
     (let validation_result =
            validator_validate (dispatcher_select (vrt_dispatcher self) (vrt_mode self)) candidate_event ctxt
      in \<lparr>vd_action = policy_decide validation_result, vd_validation_result = validation_result\<rparr>)"

record ValidationDecisionWithRuleEvidence =
  vdr_decision :: ValidationDecision
  vdr_observed_violation :: "OrderRuleViolationEvidence option"

definition decide_with_rule_evidence ::
  "ValidationRuntime \<Rightarrow> OrderEvent \<Rightarrow> ValidationContext \<Rightarrow> ValidationDecisionWithRuleEvidence res" where
  "decide_with_rule_evidence self candidate_event ctxt =
     (case dispatcher_select (vrt_dispatcher self) (vrt_mode self) of
        FullProofValidator \<Rightarrow>
          bind_res (validate_with_rule_evidence candidate_event ctxt) (\<lambda>evidence.
            Inr \<lparr>vdr_decision =
                   \<lparr>vd_action = policy_decide (fp_validation_result evidence),
                    vd_validation_result = fp_validation_result evidence\<rparr>,
                 vdr_observed_violation = fp_observed_violation evidence\<rparr>)
      | NoOpValidator \<Rightarrow>
          (let validation_result = validator_validate NoOpValidator candidate_event ctxt
           in Inr \<lparr>vdr_decision =
                   \<lparr>vd_action = policy_decide validation_result,
                    vd_validation_result = validation_result\<rparr>,
                 vdr_observed_violation = None\<rparr>))"

section \<open>What the validator decides\<close>

text \<open>The declarative judgement: the transition rules in order of precedence, and the first one
  that a candidate violates.\<close>

definition transition_rules ::
  "OrderEvent \<Rightarrow> ValidationContext \<Rightarrow> (OrderCorrectnessRuleId \<times> bool) list" where
  "transition_rules e c =
     [(TRANSITION_SEQUENCE_MATCHES_ACCEPTED_NEXT_VERSION, ev_sequence e = actual_prev_version c + 1),
      (TRANSITION_PROOF_PREV_EVENT_ID_MATCHES_ACCEPTED,
         prev_event_id (ev_proof e) = map_option ev_event_id (actual_prev_event c)),
      (TRANSITION_PROOF_PREV_VERSION_MATCHES_ACCEPTED, prev_version (ev_proof e) = actual_prev_version c),
      (TRANSITION_PROOF_PREV_STATUS_MATCHES_ACCEPTED, prev_status (ev_proof e) = actual_prev_status c),
      (TRANSITION_EVENT_TYPE_LEGAL_FROM_ACCEPTED_STATUS,
         actual_prev_status c = (case ev_event_type e of EV_CREATED \<Rightarrow> INIT | EV_PAID \<Rightarrow> CREATED))]"

definition violated_rule :: "OrderEvent \<Rightarrow> ValidationContext \<Rightarrow> OrderCorrectnessRuleId option" where
  "violated_rule e c = map_option fst (find (\<lambda>r. \<not> snd r) (transition_rules e c))"

lemma branches_cases:
  "snd (FullProof_validate_branches e c) = violated_rule e c"
  "vr_verdict (fst (FullProof_validate_branches e c)) = (if violated_rule e c = None then PASSED else FAILED)"
  "vr_candidate_event_id (fst (FullProof_validate_branches e c)) = ev_event_id e"
  "vr_validation_mode (fst (FullProof_validate_branches e c)) = STRICT"
  by (auto simp: FullProof_validate_branches_def violated_rule_def transition_rules_def Let_def
      REQUIRED_PREV_STATUS_BY_EVENT_TYPE_def full_proof_result_def split: EventType.splits)

lemma violated_rule_supported:
  "violated_rule e c = Some r \<Longrightarrow> r \<in> set FULL_PROOF_SUPPORTED_RULE_IDS"
  by (auto simp: violated_rule_def transition_rules_def FULL_PROOF_SUPPORTED_RULE_IDS_def
      split: if_splits)

lemma violated_rule_None:
  "violated_rule e c = None \<longleftrightarrow> (\<forall>r \<in> set (transition_rules e c). snd r)"
proof -
  have "violated_rule e c = None \<longleftrightarrow> find (\<lambda>r. \<not> snd r) (transition_rules e c) = None"
    by (simp add: violated_rule_def)
  also have "\<dots> \<longleftrightarrow> (\<forall>r \<in> set (transition_rules e c). snd r)"
    unfolding find_None_iff by blast
  finally show ?thesis .
qed

text \<open>The context the registry derives from an accepted stream and its rehydrated aggregate.\<close>

definition context_of_history :: "OrderEvent list \<Rightarrow> OrderAggregate \<Rightarrow> ValidationContext" where
  "context_of_history history a =
     \<lparr>actual_prev_event = (if history = [] then None else Some (last history)),
      actual_prev_version = current_version a, actual_prev_status = status a\<rparr>"

lemma legal_candidate_passes:
  assumes "legal_candidate a e"
    and "last_event_id a = (if es = [] then None else Some (ev_event_id (last es)))"
  shows "violated_rule e (context_of_history es a) = None"
  using assms
  by (auto simp: violated_rule_def transition_rules_def legal_candidate_def context_of_history_def
      proof_of_def split: EventType.splits)

lemma validate_with_rule_evidence_agrees:
  assumes "\<not> py_blank (ev_event_id e)"
  shows "\<exists>fp. validate_with_rule_evidence e c = Inr fp
    \<and> fp_validation_result fp = FullProof_validate e c
    \<and> map_option rv_rule_id (fp_observed_violation fp) = violated_rule e c"
proof -
  obtain r v where b: "FullProof_validate_branches e c = (r, v)" by force
  with branches_cases [of e c] violated_rule_supported [of e c] assms show ?thesis
    by (cases v)
       (auto simp: validate_with_rule_evidence_def FullProof_validate_def
         FullProofValidationEvidence_init_def OrderRuleViolationEvidence_init_def)
qed

section \<open>Properties\<close>

text \<open>
  C12: The full-proof validator passes a candidate exactly when every transition rule holds
  against the accepted history, and otherwise fails it with the first rule that is violated in
  the fixed order sequence, predecessor identity, predecessor version, predecessor status,
  legality of the event type. The evidence-carrying view runs without an exception for a
  candidate whose identity is not blank, returns the same result, and names that rule.
\<close>

theorem full_proof_decides_rules:
  assumes "\<not> py_blank (ev_event_id e)"
  shows "(vr_verdict (FullProof_validate e c) = PASSED \<longleftrightarrow> (\<forall>r \<in> set (transition_rules e c). snd r))
    \<and> vr_verdict (FullProof_validate e c) \<noteq> SKIPPED
    \<and> (\<exists>fp. validate_with_rule_evidence e c = Inr fp
        \<and> fp_validation_result fp = FullProof_validate e c
        \<and> map_option rv_rule_id (fp_observed_violation fp)
            = map_option fst (find (\<lambda>r. \<not> snd r) (transition_rules e c)))"
  using validate_with_rule_evidence_agrees [OF assms, of c] branches_cases [of e c]
    violated_rule_None [of e c]
  by (simp add: FullProof_validate_def violated_rule_def)

theorem full_proof_decides_rules_witness:
  "vr_verdict (FullProof_validate (sample_created\<lparr>ev_sequence := 2\<rparr>)
     \<lparr>actual_prev_event = None, actual_prev_version = 0, actual_prev_status = INIT\<rparr>) = FAILED
   \<and> vr_verdict (FullProof_validate sample_created
     \<lparr>actual_prev_event = None, actual_prev_version = 0, actual_prev_status = INIT\<rparr>) = PASSED"
  (is "vr_verdict (FullProof_validate ?e ?c) = _ \<and> _")
proof -
  have "\<not> py_blank (ev_event_id ?e)" "\<not> py_blank (ev_event_id sample_created)"
    by (simp_all add: sample_defs py_blank_iff py_isspace_def)
  from full_proof_decides_rules [OF this(1), of ?c] full_proof_decides_rules [OF this(2), of ?c]
  show ?thesis
    by (simp add: transition_rules_def sample_defs)
       (metis ValidationVerdict.exhaust)
qed

text \<open>
  Commands and validation agree. A candidate that the aggregate rehydrated from an accepted
  stream produces always passes strict validation against the context derived from that same
  stream, so the strict runtime allows it; in strict mode the two decision functions of the
  runtime return the same decision.
\<close>

theorem own_candidate_allowed:
  assumes "legal_history oid es" and "rehydrate oid es = Inr a"
    and "aggregate_command cmd a eid now rid amt = Inr ev"
    and "strict_validator d = FullProofValidator" and "\<not> py_blank eid"
  shows "vd_action (runtime_decide \<lparr>vrt_dispatcher = d, vrt_mode = STRICT\<rparr> ev (context_of_history es a)) = ALLOW
    \<and> (\<exists>w. decide_with_rule_evidence \<lparr>vrt_dispatcher = d, vrt_mode = STRICT\<rparr> ev (context_of_history es a) = Inr w
        \<and> vdr_decision w = runtime_decide \<lparr>vrt_dispatcher = d, vrt_mode = STRICT\<rparr> ev (context_of_history es a)
        \<and> vdr_observed_violation w = None)"
proof -
  from legal_history_replay [OF assms(1)] assms(2)
  have inv: "agg_inv a" and lst: "last_event_id a = (if es = [] then None else Some (ev_event_id (last es)))"
    by (metis sum.inject(2))+
  from command_candidate [OF assms(3) inv] lst
  have "violated_rule ev (context_of_history es a) = None" "ev_event_id ev = eid"
    by (simp_all add: legal_candidate_passes)
  with validate_with_rule_evidence_agrees [of ev "context_of_history es a"] assms(4,5)
    branches_cases(2) [of ev "context_of_history es a"]
  show ?thesis
    by (auto simp: runtime_decide_def decide_with_rule_evidence_def dispatcher_select_def
        policy_decide_def Let_def FullProof_validate_def)
qed

theorem own_candidate_allowed_witness:
  "\<exists>ev. aggregate_command PAY sample_aggregate ''e2'' 7 ''r2'' (Dec False 1000 (- 2)) = Inr ev
    \<and> vd_action (runtime_decide
        \<lparr>vrt_dispatcher = \<lparr>strict_validator = FullProofValidator, off_validator = NoOpValidator\<rparr>,
         vrt_mode = STRICT\<rparr> ev (context_of_history [sample_created] sample_aggregate)) = ALLOW"
proof -
  have h: "legal_history ''o1'' [sample_created]"
    and r: "rehydrate ''o1'' [sample_created] = Inr sample_aggregate"
    and e: "\<not> py_blank ''e2''"
    by (simp_all add: sample_defs money_eval py_blank_iff py_isspace_def OrderAggregate_init_def
        legal_candidate_def aggregate_apply_def proof_of_def rehydrate_def)
  obtain ev where c: "aggregate_command PAY sample_aggregate ''e2'' 7 ''r2'' (Dec False 1000 (- 2)) = Inr ev"
    by (simp add: sample_defs aggregate_pay_def require_non_empty_request_id_def money_eval
        OrderEvent_create_def py_blank_iff py_isspace_def)
  show ?thesis
    using own_candidate_allowed [OF h r c _ e,
        of "\<lparr>strict_validator = FullProofValidator, off_validator = NoOpValidator\<rparr>"] c
    by simp
qed

end
