(* ===== verification/Memory_Stores.thy ===== *)
theory Memory_Stores
  imports Transition_Validation
begin

text \<open>
  The in-memory stores and the admission boundary of the write side:
  \<open>src/storage/event_store.py\<close> (accepted history), \<open>src/storage/idempotency_store.py\<close> (request
  memory) and \<open>src/pipeline/transactional/admission.py\<close> (admission results and the optimistic
  version gate). The contracts the write side relies on are the locales \<open>event_log\<close>,
  \<open>version_gate\<close> and \<open>request_memory\<close>; they are interpreted here on the in-memory
  implementations and again on the PostgreSQL ones in the theories that model them.
\<close>

section \<open>Accepted history\<close>

record EventStore =
  events_by_order_id :: "string \<rightharpoonup> OrderEvent list"

definition EventStore_init :: EventStore where
  "EventStore_init = \<lparr>events_by_order_id = Map.empty\<rparr>"

definition store_load :: "EventStore \<Rightarrow> string \<Rightarrow> OrderEvent list" where
  "store_load self order_id =
     (case events_by_order_id self order_id of Some es \<Rightarrow> es | None \<Rightarrow> [])"

definition store_last_event :: "EventStore \<Rightarrow> string \<Rightarrow> OrderEvent option" where
  "store_last_event self order_id =
     (let history = store_load self order_id in if history \<noteq> [] then Some (last history) else None)"

text \<open>The stream is created before the checks run, so a rejected append to an unknown order leaves
  an empty stream behind.\<close>

definition store_append :: "EventStore \<Rightarrow> OrderEvent \<Rightarrow> int \<Rightarrow> EventStore \<times> unit res" where
  "store_append self candidate_event expected_current_version =
     (let order_id = ev_order_id candidate_event;
          (self1, event_stream) =
            (case events_by_order_id self order_id of
               Some es \<Rightarrow> (self, es)
             | None \<Rightarrow> (self\<lparr>events_by_order_id := (events_by_order_id self)(order_id \<mapsto> [])\<rparr>, []));
          current_version_in_store = int (length event_stream)
      in if current_version_in_store \<noteq> expected_current_version
         then (self1, Inl (ValueError (''Version conflict: store_version='' @ show_int current_version_in_store
                 @ '', expected_version='' @ show_int expected_current_version)))
         else let expected_new_sequence = expected_current_version + 1
              in if ev_sequence candidate_event \<noteq> expected_new_sequence
                 then (self1, Inl (ValueError (''Append-time continuity broken: expected event sequence ''
                         @ show_int expected_new_sequence @ '', but event contains sequence ''
                         @ show_int (ev_sequence candidate_event))))
                 else (self1\<lparr>events_by_order_id :=
                         (events_by_order_id self1)(order_id \<mapsto> event_stream @ [candidate_event])\<rparr>, Inr ()))"

section \<open>Request memory\<close>

record RequestSignature =
  sig_request_id :: string
  sig_command_type :: CommandType
  sig_order_id :: string
  sig_amount :: decimal

text \<open>\<open>==\<close> of the frozen dataclass compares the amounts as decimals.\<close>

definition RequestSignature_eq :: "RequestSignature \<Rightarrow> RequestSignature \<Rightarrow> bool" where
  "RequestSignature_eq s t \<longleftrightarrow>
     sig_request_id s = sig_request_id t \<and> sig_command_type s = sig_command_type t
     \<and> sig_order_id s = sig_order_id t \<and> dec_eq (sig_amount s) (sig_amount t)"

record IdempotencyRecord =
  rec_signature :: RequestSignature
  rec_accepted_event :: OrderEvent

datatype IdempotencyVerdict = MISS | REPLAY | CONFLICT

record IdempotencyDecision =
  id_verdict :: IdempotencyVerdict
  id_reason :: string
  id_record :: "IdempotencyRecord option"

record IdempotencyProvider =
  records_by_request_id :: "string \<rightharpoonup> IdempotencyRecord"

definition IdempotencyProvider_init :: IdempotencyProvider where
  "IdempotencyProvider_init = \<lparr>records_by_request_id = Map.empty\<rparr>"

definition idem_check :: "IdempotencyProvider \<Rightarrow> RequestSignature \<Rightarrow> IdempotencyDecision" where
  "idem_check self signature =
     (case records_by_request_id self (sig_request_id signature) of
        None \<Rightarrow> \<lparr>id_verdict = MISS, id_reason = ''No prior request with this request_id'', id_record = None\<rparr>
      | Some existing \<Rightarrow>
          if RequestSignature_eq (rec_signature existing) signature
          then \<lparr>id_verdict = REPLAY, id_reason = ''Semantically identical retry detected'',
                id_record = Some existing\<rparr>
          else \<lparr>id_verdict = CONFLICT, id_reason = ''Same request_id reused with different payload'',
                id_record = Some existing\<rparr>)"

definition idem_record ::
  "IdempotencyProvider \<Rightarrow> RequestSignature \<Rightarrow> OrderEvent \<Rightarrow> IdempotencyProvider" where
  "idem_record self signature accepted_event =
     self\<lparr>records_by_request_id := (records_by_request_id self)
        (sig_request_id signature \<mapsto> \<lparr>rec_signature = signature, rec_accepted_event = accepted_event\<rparr>)\<rparr>"

section \<open>Admission\<close>

datatype AdmissionVerdict = ADMITTED | STALE_WRITE | LOCK_TIMEOUT | INFRASTRUCTURE_ERROR

record AppendVersionMismatchEvidence =
  expected_current_version :: int
  observed_current_version :: int

definition AppendVersionMismatchEvidence_init ::
  "int \<Rightarrow> int \<Rightarrow> AppendVersionMismatchEvidence res" where
  "AppendVersionMismatchEvidence_init expected observed =
     (if expected < 0 then Inl (ValueError ''expected_current_version must be non-negative'')
      else if observed < 0 then Inl (ValueError ''observed_current_version must be non-negative'')
      else if expected = observed
      then Inl (ValueError ''expected_current_version and observed_current_version must differ'')
      else Inr \<lparr>expected_current_version = expected, observed_current_version = observed\<rparr>)"

record StreamAdmissionResult =
  sa_verdict :: AdmissionVerdict
  sa_reason :: string
  sa_order_id :: string

definition stream_admitted :: "StreamAdmissionResult \<Rightarrow> bool" where
  "stream_admitted r = (sa_verdict r = ADMITTED)"

record AdmissionResult =
  ad_verdict :: AdmissionVerdict
  ad_reason :: string
  ad_candidate_event_id :: string
  ad_accepted_event_id :: "string option"
  ad_mismatch_evidence :: "AppendVersionMismatchEvidence option"

definition AdmissionResult_init ::
  "AdmissionVerdict \<Rightarrow> string \<Rightarrow> string \<Rightarrow> string option \<Rightarrow> AppendVersionMismatchEvidence option
   \<Rightarrow> AdmissionResult res" where
  "AdmissionResult_init verdict reason candidate_event_id accepted_event_id evidence =
     (if evidence \<noteq> None \<and> verdict \<noteq> STALE_WRITE
      then Inl (ValueError ''append_version_mismatch_evidence requires STALE_WRITE verdict'')
      else if evidence \<noteq> None \<and> accepted_event_id \<noteq> None
      then Inl (ValueError ''append_version_mismatch_evidence requires no accepted_event_id'')
      else Inr \<lparr>ad_verdict = verdict, ad_reason = reason, ad_candidate_event_id = candidate_event_id,
                ad_accepted_event_id = accepted_event_id, ad_mismatch_evidence = evidence\<rparr>)"

definition admission_admitted :: "AdmissionResult \<Rightarrow> bool" where
  "admission_admitted r = (ad_verdict r = ADMITTED)"

definition optimistic_prepare_stream :: "string \<Rightarrow> StreamAdmissionResult" where
  "optimistic_prepare_stream order_id =
     \<lparr>sa_verdict = ADMITTED, sa_reason = ''Optimistic admission does not pre-lock stream'',
      sa_order_id = order_id\<rparr>"

text \<open>\<open>str(exc)\<close> of the exceptions a store raises inside the gate.\<close>

fun exc_message :: "exc \<Rightarrow> string" where
  "exc_message (ValueError m) = m"
| "exc_message (TypeError m) = m"
| "exc_message (RuntimeError m) = m"
| "exc_message (AttributeError m) = m"
| "exc_message (MoneyValidationError m) = m"
| "exc_message (InvalidOperation m) = m"
| "exc_message (StorageInfrastructureError m) = m"
| "exc_message (DatabaseError m) = m"
| "exc_message (LockNotAvailable m) = m"
| "exc_message (UniqueViolation constraint m) = m"
| "exc_message (AppendVersionMismatchError expected observed) =
     ''Version conflict: store_version='' @ show_int observed @ '', expected_version='' @ show_int expected"
| "exc_message (ProjectionSequenceGapError expected observed) =
     ''Projection worker sequence gap: expected '' @ show_int expected @ '', got '' @ show_int observed"

definition append_if_admitted ::
  "EventStore \<Rightarrow> OrderEvent \<Rightarrow> int \<Rightarrow> EventStore \<times> AdmissionResult res" where
  "append_if_admitted store candidate_event expected =
     (case store_append store candidate_event expected of
        (store', Inl exc) \<Rightarrow>
          (store',
           if is_ValueError exc
           then AdmissionResult_init STALE_WRITE
                  (''Admission rejected by optimistic version gate: '' @ exc_message exc)
                  (ev_event_id candidate_event) None None
           else Inl exc)
      | (store', Inr _) \<Rightarrow>
          (store', AdmissionResult_init ADMITTED ''Event admitted by optimistic version gate''
             (ev_event_id candidate_event) (Some (ev_event_id candidate_event)) None))"

section \<open>The contracts\<close>

text \<open>An append-only log of streams: a successful append extends exactly one stream, and only when
  the caller knew its length and the event carries the next sequence; a failed one changes no
  stream. The laws hold in the states that satisfy the provider's invariant, for the events it
  can store.\<close>

locale event_log =
  fixes inv :: "'s \<Rightarrow> bool"
    and fits :: "OrderEvent \<Rightarrow> bool"
    and load :: "'s \<Rightarrow> string \<Rightarrow> OrderEvent list"
    and append :: "'s \<Rightarrow> OrderEvent \<Rightarrow> int \<Rightarrow> 's \<times> unit res"
  assumes append_inv: "inv s \<Longrightarrow> fits e \<Longrightarrow> append s e v = (s', r) \<Longrightarrow> inv s'"
    and append_extends:
      "inv s \<Longrightarrow> fits e \<Longrightarrow> append s e v = (s', Inr ()) \<Longrightarrow>
         load s' oid = (if oid = ev_order_id e then load s oid @ [e] else load s oid)"
    and append_guard:
      "inv s \<Longrightarrow> fits e \<Longrightarrow> append s e v = (s', Inr ()) \<Longrightarrow>
         v = int (length (load s (ev_order_id e))) \<and> ev_sequence e = v + 1"
    and append_failure: "inv s \<Longrightarrow> fits e \<Longrightarrow> append s e v = (s', Inl x) \<Longrightarrow> load s' oid = load s oid"
begin

lemma append_prefix:
  assumes "inv s" and "fits e" and "append s e v = (s', r)"
  shows "prefix (load s oid) (load s' oid)"
  using assms append_extends append_failure by (cases r) (auto simp: prefix_def)

lemma second_writer_rejected:
  assumes "inv s" and "fits e" and "append s e v = (s', Inr ())"
    and "fits f" and "ev_order_id f = ev_order_id e"
  shows "\<exists>x. snd (append s' f v) = Inl x"
proof (rule ccontr)
  assume "\<not> ?thesis"
  then obtain s2 where s2: "append s' f v = (s2, Inr ())"
    by (metis old.unit.exhaust sum.exhaust prod.collapse)
  from append_guard [OF append_inv [OF assms(1-3)] assms(4) s2] append_guard [OF assms(1-3)]
    append_extends [OF assms(1-3)] assms(5)
  show False by simp
qed

end

text \<open>A gate in front of a log translates the outcome of an append into an admission verdict: an
  admitted candidate is appended and named as accepted, any other verdict leaves every stream as
  it was.\<close>

locale version_gate = event_log inv fits load append
  for inv :: "'s \<Rightarrow> bool"
    and fits :: "OrderEvent \<Rightarrow> bool"
    and load :: "'s \<Rightarrow> string \<Rightarrow> OrderEvent list"
    and append :: "'s \<Rightarrow> OrderEvent \<Rightarrow> int \<Rightarrow> 's \<times> unit res" +
  fixes admit :: "'s \<Rightarrow> OrderEvent \<Rightarrow> int \<Rightarrow> 's \<times> AdmissionResult res"
  assumes admit_admitted:
      "admit s e v = (s', Inr r) \<Longrightarrow> ad_verdict r = ADMITTED \<Longrightarrow>
         append s e v = (s', Inr ()) \<and> ad_accepted_event_id r = Some (ev_event_id e)"
    and admit_rejected:
      "inv s \<Longrightarrow> fits e \<Longrightarrow> admit s e v = (s', Inr r) \<Longrightarrow> ad_verdict r \<noteq> ADMITTED \<Longrightarrow>
         load s' oid = load s oid \<and> ad_accepted_event_id r = None"
    and admit_candidate: "admit s e v = (s', Inr r) \<Longrightarrow> ad_candidate_event_id r = ev_event_id e"
    and admit_error: "inv s \<Longrightarrow> fits e \<Longrightarrow> admit s e v = (s', Inl x) \<Longrightarrow> load s' oid = load s oid"
begin

lemma admit_load:
  assumes "inv s" and "fits e" and "admit s e v = (s', Inr r)"
  shows "load s' oid = (if ad_verdict r = ADMITTED \<and> oid = ev_order_id e
                        then load s oid @ [e] else load s oid)"
proof (cases "ad_verdict r = ADMITTED")
  case True
  with admit_admitted [OF assms(3)] have "append s e v = (s', Inr ())" by simp
  from append_extends [OF assms(1,2) this, of oid] True show ?thesis by simp
next
  case False
  with admit_rejected [OF assms] show ?thesis by simp
qed

lemma stale_candidate_not_admitted:
  assumes "inv s" and "fits e" and "admit s e v = (s', Inr r)"
    and "v \<noteq> int (length (load s (ev_order_id e)))"
  shows "ad_verdict r \<noteq> ADMITTED \<and> load s' oid = load s oid"
  using admit_admitted [OF assms(3)] admit_rejected [OF assms(1-3)] append_guard [OF assms(1,2)] assms(4)
  by blast

lemma competing_candidates_one_admitted:
  assumes "inv s" and "fits e" and "admit s e v = (s1, Inr r)" and "fits f" and "admit s1 f v = (s2, Inr q)"
    and "ev_order_id f = ev_order_id e"
  shows "ad_verdict r \<noteq> ADMITTED \<or> ad_verdict q \<noteq> ADMITTED"
proof (rule ccontr)
  assume both: "\<not> ?thesis"
  with admit_admitted [OF assms(3)] have e: "append s e v = (s1, Inr ())" by simp
  from both admit_admitted [OF assms(5)] have "append s1 f v = (s2, Inr ())" by simp
  with second_writer_rejected [OF assms(1,2) e assms(4,6)] show False by simp
qed

end

text \<open>A request memory: what was recorded under a request identity is what a check sees, and the
  verdict compares the stored signature with the presented one. A provider may store a signature
  in a normal form (\<open>norm\<close>), and may require that the recorded event is already part of the
  accepted history and answers that request (\<open>known\<close>).\<close>

locale request_memory =
  fixes inv :: "'s \<Rightarrow> bool"
    and known :: "'s \<Rightarrow> RequestSignature \<Rightarrow> OrderEvent \<Rightarrow> bool"
    and norm :: "RequestSignature \<Rightarrow> RequestSignature"
    and same :: "RequestSignature \<Rightarrow> RequestSignature \<Rightarrow> bool"
    and lookup :: "'s \<Rightarrow> string \<Rightarrow> IdempotencyRecord option"
    and check :: "'s \<Rightarrow> RequestSignature \<Rightarrow> IdempotencyDecision res"
    and recording :: "'s \<Rightarrow> RequestSignature \<Rightarrow> OrderEvent \<Rightarrow> 's \<times> unit res"
  assumes check_record: "inv s \<Longrightarrow> check s sg = Inr d \<Longrightarrow> id_record d = lookup s (sig_request_id sg)"
    and check_verdict:
      "inv s \<Longrightarrow> check s sg = Inr d \<Longrightarrow> id_verdict d =
         (case lookup s (sig_request_id sg) of None \<Rightarrow> MISS
          | Some r \<Rightarrow> if same (rec_signature r) sg then REPLAY else CONFLICT)"
    and recording_inv: "inv s \<Longrightarrow> known s sg e \<Longrightarrow> recording s sg e = (s', r) \<Longrightarrow> inv s'"
    and recording_lookup:
      "inv s \<Longrightarrow> known s sg e \<Longrightarrow> recording s sg e = (s', Inr ()) \<Longrightarrow> lookup s' rid =
         (if rid = sig_request_id sg then Some \<lparr>rec_signature = norm sg, rec_accepted_event = e\<rparr>
          else lookup s rid)"
begin

lemma check_after_recording:
  assumes "inv s" and "known s sg e" and "recording s sg e = (s', Inr ())"
    and "check s' sg' = Inr d" and "sig_request_id sg' = sig_request_id sg"
  shows "id_verdict d = (if same (norm sg) sg' then REPLAY else CONFLICT)
    \<and> id_record d = Some \<lparr>rec_signature = norm sg, rec_accepted_event = e\<rparr>"
proof -
  from recording_inv [OF assms(1-3)] have "inv s'" .
  from check_verdict [OF this assms(4)] check_record [OF this assms(4)]
    recording_lookup [OF assms(1-3)] assms(5)
  show ?thesis by simp
qed

lemma other_requests_unaffected:
  assumes "inv s" and "known s sg e" and "recording s sg e = (s', Inr ())"
    and "check s' sg' = Inr d'" and "check s sg' = Inr d" and "sig_request_id sg' \<noteq> sig_request_id sg"
  shows "id_verdict d' = id_verdict d \<and> id_record d' = id_record d"
proof -
  from recording_inv [OF assms(1-3)] have "inv s'" .
  from check_verdict [OF this assms(4)] check_record [OF this assms(4)]
    check_verdict [OF assms(1,5)] check_record [OF assms(1,5)]
    recording_lookup [OF assms(1-3)] assms(6)
  show ?thesis by simp
qed

end

section \<open>The in-memory implementations meet the contracts\<close>

lemma store_append_cases:
  "store_append s e v = (s', r) \<Longrightarrow>
     (r = Inr () \<and> v = int (length (store_load s (ev_order_id e))) \<and> ev_sequence e = v + 1
       \<and> s' = s\<lparr>events_by_order_id := (events_by_order_id s)
              (ev_order_id e \<mapsto> store_load s (ev_order_id e) @ [e])\<rparr>)
   \<or> (\<exists>m. r = Inl (ValueError m) \<and> store_load s' = store_load s
       \<and> \<not> (v = int (length (store_load s (ev_order_id e))) \<and> ev_sequence e = v + 1))"
  by (cases "events_by_order_id s (ev_order_id e)")
     (auto simp: store_append_def store_load_def Let_def fun_eq_iff split: if_splits)

lemma store_append_succeeds:
  assumes "v = int (length (store_load s (ev_order_id e)))" and "ev_sequence e = v + 1"
  shows "\<exists>s'. store_append s e v = (s', Inr ())"
  using store_append_cases [of s e v] assms by (cases "store_append s e v") auto

lemma store_load_update [simp]:
  "store_load (s\<lparr>events_by_order_id := (events_by_order_id s)(oid \<mapsto> es)\<rparr>)
     = (store_load s)(oid := es)"
  by (auto simp: store_load_def)

lemma append_if_admitted_cases:
  assumes "append_if_admitted s e v = (s', r)"
  obtains (admitted) m where "r = Inr \<lparr>ad_verdict = ADMITTED, ad_reason = m,
      ad_candidate_event_id = ev_event_id e, ad_accepted_event_id = Some (ev_event_id e),
      ad_mismatch_evidence = None\<rparr>" and "store_append s e v = (s', Inr ())"
  | (stale) m where "r = Inr \<lparr>ad_verdict = STALE_WRITE, ad_reason = m,
      ad_candidate_event_id = ev_event_id e, ad_accepted_event_id = None,
      ad_mismatch_evidence = None\<rparr>" and "store_load s' = store_load s"
      and "\<not> (v = int (length (store_load s (ev_order_id e))) \<and> ev_sequence e = v + 1)"
proof -
  obtain s1 q where q: "store_append s e v = (s1, q)" by force
  from store_append_cases [OF q] show ?thesis
    using assms q admitted stale
    by (auto simp: append_if_admitted_def AdmissionResult_init_def)
qed

interpretation mem_log: event_log "\<lambda>_. True" "\<lambda>_. True" store_load store_append
  by unfold_locales (auto dest!: store_append_cases)

interpretation mem_gate: version_gate "\<lambda>_. True" "\<lambda>_. True" store_load store_append append_if_admitted
  by unfold_locales (auto elim!: append_if_admitted_cases)

interpretation mem_requests: request_memory "\<lambda>_. True" "\<lambda>_ _ _. True" id RequestSignature_eq
  records_by_request_id "\<lambda>s sg. Inr (idem_check s sg)" "\<lambda>s sg e. (idem_record s sg e, Inr ())"
  by unfold_locales (auto simp: idem_check_def idem_record_def split: option.splits)

text \<open>A gate that never raises, and admits exactly the candidates for the next position.\<close>

lemma append_if_admitted_iff:
  "\<exists>r. snd (append_if_admitted s e v) = Inr r
     \<and> (ad_verdict r = ADMITTED \<longleftrightarrow>
          v = int (length (store_load s (ev_order_id e))) \<and> ev_sequence e = v + 1)
     \<and> ad_verdict r \<in> {ADMITTED, STALE_WRITE}"
proof -
  obtain s' r where "append_if_admitted s e v = (s', r)" by force
  then show ?thesis
  proof (cases rule: append_if_admitted_cases)
    case (admitted m)
    with store_append_cases [OF admitted(2)] \<open>append_if_admitted s e v = (s', r)\<close> show ?thesis by simp
  next
    case (stale m)
    with \<open>append_if_admitted s e v = (s', r)\<close> show ?thesis by auto
  qed
qed

section \<open>Properties\<close>

text \<open>
  Optimistic admission in memory. The gate never raises; it admits a candidate exactly when
  the caller's expected version is the length of the stored stream and the candidate carries the
  next sequence number, and then appends it to its own stream only; a rejected candidate is
  reported as a stale write and leaves every stream unchanged. Of two candidates for the same
  order and the same expected version at most one is admitted.
\<close>

theorem optimistic_gate_admits_next_position:
  assumes "append_if_admitted s e v = (s', r)"
  shows "(\<exists>a. r = Inr a \<and> ad_candidate_event_id a = ev_event_id e
      \<and> (if v = int (length (store_load s (ev_order_id e))) \<and> ev_sequence e = v + 1
         then ad_verdict a = ADMITTED \<and> ad_accepted_event_id a = Some (ev_event_id e)
           \<and> (\<forall>oid. store_load s' oid =
                (if oid = ev_order_id e then store_load s oid @ [e] else store_load s oid))
         else ad_verdict a = STALE_WRITE \<and> ad_accepted_event_id a = None
           \<and> store_load s' = store_load s))
    \<and> (\<forall>f s2 a b. ev_order_id f = ev_order_id e \<and> append_if_admitted s' f v = (s2, Inr b) \<and> r = Inr a
         \<longrightarrow> ad_verdict a \<noteq> ADMITTED \<or> ad_verdict b \<noteq> ADMITTED)"
  (is "?A \<and> ?B")
proof
  show ?A
    using assms
  proof (cases rule: append_if_admitted_cases)
    case (admitted m)
    with store_append_cases [OF admitted(2)] mem_log.append_extends [OF TrueI TrueI admitted(2)] show ?thesis
      by auto
  next
    case (stale m)
    then show ?thesis by auto
  qed
  show ?B
    using mem_gate.competing_candidates_one_admitted assms by blast
qed

theorem optimistic_gate_admits_next_position_witness:
  "\<exists>s' a. append_if_admitted EventStore_init sample_created 0 = (s', Inr a) \<and> ad_verdict a = ADMITTED
     \<and> store_load s' ''o1'' = [sample_created]"
proof -
  obtain s' r where r: "append_if_admitted EventStore_init sample_created 0 = (s', r)" by force
  have l: "store_load EventStore_init oid = []" for oid
    by (simp add: store_load_def EventStore_init_def)
  show ?thesis
    using optimistic_gate_admits_next_position [OF r, THEN conjunct1] r
    by (auto simp: l sample_defs)
qed

end
