(* ===== verification/Registry.thy ===== *)
theory Registry
  imports Memory_Stores
begin

text \<open>
  \<open>src/pipeline/transactional/registry.py\<close> and its composition root
  \<open>src/bootstrap/build_transactional_runtime.py\<close>: the in-memory transactional write side. A
  handler threads the registry state through idempotency lookup, rehydration, the aggregate
  command, validation, admission, the local apply and the recording of the request, with every
  early return and exception of the source; the state that an exception leaves behind is part of
  the result. The specification is \<open>spec_handle\<close>, a life cycle per order together with a memory
  of accepted requests, and the lemmas show that the registry refines it.
\<close>

section \<open>State and replies\<close>

record OrderRegistry =
  reg_store :: EventStore
  reg_idem :: IdempotencyProvider
  reg_validation_runtime :: ValidationRuntime

datatype RegistryReply =
    ReplyEvent OrderEvent
  | ReplyIdempotency IdempotencyDecision
  | ReplyValidation ValidationDecision
  | ReplyAdmission AdmissionResult

definition build_transactional_runtime :: "ValidationMode \<Rightarrow> OrderRegistry" where
  "build_transactional_runtime validation_mode =
     \<lparr>reg_store = EventStore_init, reg_idem = IdempotencyProvider_init,
      reg_validation_runtime =
        \<lparr>vrt_dispatcher = \<lparr>strict_validator = FullProofValidator, off_validator = NoOpValidator\<rparr>,
         vrt_mode = validation_mode\<rparr>\<rparr>"

section \<open>Operations\<close>

definition rehydrate_aggregate ::
  "OrderRegistry \<Rightarrow> string \<Rightarrow> (OrderAggregate \<times> OrderEvent list) res" where
  "rehydrate_aggregate self order_id =
     (let history = store_load (reg_store self) order_id
      in bind_res (OrderAggregate_init order_id) (\<lambda>aggregate.
         bind_res (fold_res aggregate_apply aggregate history) (\<lambda>aggregate'.
           Inr (aggregate', history))))"

definition build_validation_context :: "OrderAggregate \<Rightarrow> OrderEvent option \<Rightarrow> ValidationContext" where
  "build_validation_context aggregate prev_event =
     \<lparr>actual_prev_event = prev_event, actual_prev_version = current_version aggregate,
      actual_prev_status = status aggregate\<rparr>"

definition check_idempotency :: "OrderRegistry \<Rightarrow> RequestSignature \<Rightarrow> RegistryReply option res" where
  "check_idempotency self signature =
     (let decision = idem_check (reg_idem self) signature
      in if id_verdict decision = REPLAY
         then (case id_record decision of
                 Some record \<Rightarrow> Inr (Some (ReplyEvent (rec_accepted_event record)))
               | None \<Rightarrow> Inl (AttributeError ''NoneType has no attribute accepted_event''))
         else if id_verdict decision = CONFLICT then Inr (Some (ReplyIdempotency decision))
         else Inr None)"

text \<open>What follows the construction of the candidate; both handlers have the same text here.\<close>

definition admit_candidate ::
  "OrderRegistry \<Rightarrow> RequestSignature \<Rightarrow> OrderAggregate \<Rightarrow> ValidationContext \<Rightarrow> OrderEvent
   \<Rightarrow> OrderRegistry \<times> RegistryReply res" where
  "admit_candidate self signature aggregate ctxt candidate_event =
     (let validation_decision = runtime_decide (reg_validation_runtime self) candidate_event ctxt
      in if vd_action validation_decision \<noteq> ALLOW then (self, Inr (ReplyValidation validation_decision))
         else
           (let expected_current_version = current_version aggregate;
                (store', admission) =
                  append_if_admitted (reg_store self) candidate_event expected_current_version;
                self1 = self\<lparr>reg_store := store'\<rparr>
            in case admission of
                 Inl exc \<Rightarrow> (self1, Inl exc)
               | Inr admission_result \<Rightarrow>
                   if ad_verdict admission_result \<noteq> ADMITTED
                   then (self1, Inr (ReplyAdmission admission_result))
                   else (case aggregate_apply aggregate candidate_event of
                           Inl exc \<Rightarrow> (self1, Inl exc)
                         | Inr _ \<Rightarrow>
                             (self1\<lparr>reg_idem := idem_record (reg_idem self1) signature candidate_event\<rparr>,
                              Inr (ReplyEvent candidate_event)))))"

definition handle_create ::
  "OrderRegistry \<Rightarrow> string \<Rightarrow> int \<Rightarrow> string \<Rightarrow> string \<Rightarrow> decimal \<Rightarrow> OrderRegistry \<times> RegistryReply res" where
  "handle_create self new_event_id now_ms request_id order_id amount =
     (let signature = \<lparr>sig_request_id = request_id, sig_command_type = CREATE,
                       sig_order_id = order_id, sig_amount = amount\<rparr>
      in case check_idempotency self signature of
           Inl exc \<Rightarrow> (self, Inl exc)
         | Inr (Some idempotency_outcome) \<Rightarrow> (self, Inr idempotency_outcome)
         | Inr None \<Rightarrow>
             (case rehydrate_aggregate self order_id of
                Inl exc \<Rightarrow> (self, Inl exc)
              | Inr (aggregate, history) \<Rightarrow>
                  let prev_event = (if history \<noteq> [] then Some (last history) else None);
                      ctxt = build_validation_context aggregate prev_event
                  in case aggregate_create aggregate new_event_id now_ms request_id amount of
                       Inl exc \<Rightarrow> (self, Inl exc)
                     | Inr candidate_event \<Rightarrow>
                         admit_candidate self signature aggregate ctxt candidate_event))"

definition handle_pay ::
  "OrderRegistry \<Rightarrow> string \<Rightarrow> int \<Rightarrow> string \<Rightarrow> string \<Rightarrow> decimal \<Rightarrow> OrderRegistry \<times> RegistryReply res" where
  "handle_pay self new_event_id now_ms request_id order_id amount =
     (let signature = \<lparr>sig_request_id = request_id, sig_command_type = PAY,
                       sig_order_id = order_id, sig_amount = amount\<rparr>
      in case check_idempotency self signature of
           Inl exc \<Rightarrow> (self, Inl exc)
         | Inr (Some idempotency_outcome) \<Rightarrow> (self, Inr idempotency_outcome)
         | Inr None \<Rightarrow>
             (case rehydrate_aggregate self order_id of
                Inl exc \<Rightarrow> (self, Inl exc)
              | Inr (aggregate, history) \<Rightarrow>
                  let prev_event = (if history \<noteq> [] then Some (last history) else None);
                      ctxt = build_validation_context aggregate prev_event
                  in case aggregate_pay aggregate new_event_id now_ms request_id amount of
                       Inl exc \<Rightarrow> (self, Inl exc)
                     | Inr candidate_event \<Rightarrow>
                         admit_candidate self signature aggregate ctxt candidate_event))"

section \<open>Commands, steps and the specification\<close>

record command =
  cmd_type :: CommandType
  cmd_event_id :: string
  cmd_now :: int
  cmd_request_id :: string
  cmd_order_id :: string
  cmd_amount :: decimal

definition handle :: "OrderRegistry \<Rightarrow> command \<Rightarrow> OrderRegistry \<times> RegistryReply res" where
  "handle s c =
     (case cmd_type c of
        CREATE \<Rightarrow> handle_create s (cmd_event_id c) (cmd_now c) (cmd_request_id c) (cmd_order_id c) (cmd_amount c)
      | PAY \<Rightarrow> handle_pay s (cmd_event_id c) (cmd_now c) (cmd_request_id c) (cmd_order_id c) (cmd_amount c))"

definition signature_of :: "command \<Rightarrow> RequestSignature" where
  "signature_of c = \<lparr>sig_request_id = cmd_request_id c, sig_command_type = cmd_type c,
     sig_order_id = cmd_order_id c, sig_amount = cmd_amount c\<rparr>"

inductive registry_step :: "OrderRegistry \<Rightarrow> command \<Rightarrow> RegistryReply res \<Rightarrow> OrderRegistry \<Rightarrow> bool" where
  "handle s c = (s', r) \<Longrightarrow> registry_step s c r s'"

inductive registry_reachable :: "ValidationMode \<Rightarrow> OrderRegistry \<Rightarrow> bool" for m where
  start: "registry_reachable m (build_transactional_runtime m)"
| move: "registry_reachable m s \<Longrightarrow> registry_step s c r s' \<Longrightarrow> registry_reachable m s'"

inductive registry_run :: "OrderRegistry \<Rightarrow> OrderRegistry \<Rightarrow> bool" where
  run_none: "registry_run s s"
| run_more: "registry_run s s1 \<Longrightarrow> registry_step s1 c r s2 \<Longrightarrow> registry_run s s2"

inductive_cases registry_stepE: "registry_step s c r s'"
inductive_simps registry_step_iff: "registry_step s c r s'"

text \<open>The specification keeps the life of every order and, per accepted request, its signature
  and the identity of the accepted event. A new request is accepted when the order and request
  identities are not blank, the amount normalises to a positive one and the life cycle allows
  the step.\<close>

record spec_state =
  lives :: "string \<Rightarrow> order_life"
  accepted :: "string \<rightharpoonup> RequestSignature \<times> string"

datatype spec_reply = Event_reply string | Conflicting | Refused | Blocked

definition spec_accept :: "spec_state \<Rightarrow> command \<Rightarrow> order_life option" where
  "spec_accept t c =
     (if py_blank (cmd_order_id c) \<or> py_blank (cmd_request_id c) then None
      else case ensure_positive_money (MDecimal (cmd_amount c)) of
             Inl _ \<Rightarrow> None
           | Inr n \<Rightarrow> life_step (cmd_type c) n (lives t (cmd_order_id c)))"

definition spec_handle :: "spec_state \<Rightarrow> command \<Rightarrow> spec_state \<times> spec_reply" where
  "spec_handle t c =
     (case accepted t (cmd_request_id c) of
        Some (sg, eid) \<Rightarrow>
          (t, if RequestSignature_eq sg (signature_of c) then Event_reply eid else Conflicting)
      | None \<Rightarrow>
          (case spec_accept t c of
             None \<Rightarrow> (t, Refused)
           | Some l \<Rightarrow>
               (t\<lparr>lives := (lives t)(cmd_order_id c := l),
                  accepted := (accepted t)(cmd_request_id c \<mapsto> (signature_of c, cmd_event_id c))\<rparr>,
                Event_reply (cmd_event_id c))))"

definition life_at :: "OrderRegistry \<Rightarrow> string \<Rightarrow> order_life" where
  "life_at s oid = (case rehydrate oid (store_load (reg_store s) oid) of Inl _ \<Rightarrow> Absent | Inr a \<Rightarrow> life_of a)"

definition abs_registry :: "OrderRegistry \<Rightarrow> spec_state" where
  "abs_registry s =
     \<lparr>lives = life_at s,
      accepted = (\<lambda>rid. map_option (\<lambda>r. (rec_signature r, ev_event_id (rec_accepted_event r)))
                           (records_by_request_id (reg_idem s) rid))\<rparr>"

fun abs_reply :: "RegistryReply res \<Rightarrow> spec_reply" where
  "abs_reply (Inl _) = Refused"
| "abs_reply (Inr (ReplyEvent e)) = Event_reply (ev_event_id e)"
| "abs_reply (Inr (ReplyIdempotency _)) = Conflicting"
| "abs_reply (Inr (ReplyValidation _)) = Blocked"
| "abs_reply (Inr (ReplyAdmission _)) = Blocked"

section \<open>Invariant\<close>

text \<open>Every stored stream is a legal history, and accepted events and remembered requests are in
  one-to-one correspondence.\<close>

definition streams_legal :: "OrderRegistry \<Rightarrow> bool" where
  "streams_legal s \<longleftrightarrow>
     (\<forall>oid. store_load (reg_store s) oid \<noteq> [] \<longrightarrow> legal_history oid (store_load (reg_store s) oid))"

definition requests_match :: "OrderRegistry \<Rightarrow> bool" where
  "requests_match s \<longleftrightarrow>
     (\<forall>rid rec. records_by_request_id (reg_idem s) rid = Some rec \<longrightarrow>
        sig_request_id (rec_signature rec) = rid \<and> ev_request_id (rec_accepted_event rec) = rid
        \<and> rec_accepted_event rec \<in> set (store_load (reg_store s) (sig_order_id (rec_signature rec))))
   \<and> (\<forall>oid. \<forall>e \<in> set (store_load (reg_store s) oid). \<exists>rec.
        records_by_request_id (reg_idem s) (ev_request_id e) = Some rec \<and> rec_accepted_event rec = e
        \<and> sig_order_id (rec_signature rec) = oid)"

definition reg_inv :: "ValidationMode \<Rightarrow> OrderRegistry \<Rightarrow> bool" where
  "reg_inv m s \<longleftrightarrow> streams_legal s \<and> requests_match s
     \<and> reg_validation_runtime s = reg_validation_runtime (build_transactional_runtime m)"

lemma check_idempotency_cases:
  "check_idempotency s sg =
     (case records_by_request_id (reg_idem s) (sig_request_id sg) of
        None \<Rightarrow> Inr None
      | Some rec \<Rightarrow> if RequestSignature_eq (rec_signature rec) sg
          then Inr (Some (ReplyEvent (rec_accepted_event rec)))
          else Inr (Some (ReplyIdempotency (idem_check (reg_idem s) sg))))"
  using mem_requests.check_verdict [of "reg_idem s" sg, OF TrueI refl]
    mem_requests.check_record [of "reg_idem s" sg, OF TrueI refl]
  by (auto simp: check_idempotency_def Let_def split: option.splits if_splits)

lemma rehydrate_aggregate_eq:
  "rehydrate_aggregate s oid =
     bind_res (rehydrate oid (store_load (reg_store s) oid)) (\<lambda>a. Inr (a, store_load (reg_store s) oid))"
  by (simp add: rehydrate_aggregate_def rehydrate_def Let_def bind_res_assoc)

text \<open>The two handlers differ only in the command they send to the aggregate.\<close>

lemma handle_eq:
  "handle s c =
     (case check_idempotency s (signature_of c) of
        Inl exc \<Rightarrow> (s, Inl exc)
      | Inr (Some out) \<Rightarrow> (s, Inr out)
      | Inr None \<Rightarrow>
          (case rehydrate (cmd_order_id c) (store_load (reg_store s) (cmd_order_id c)) of
             Inl exc \<Rightarrow> (s, Inl exc)
           | Inr a \<Rightarrow>
               (case aggregate_command (cmd_type c) a (cmd_event_id c) (cmd_now c) (cmd_request_id c) (cmd_amount c) of
                  Inl exc \<Rightarrow> (s, Inl exc)
                | Inr ev \<Rightarrow> admit_candidate s (signature_of c) a
                    (context_of_history (store_load (reg_store s) (cmd_order_id c)) a) ev)))"
  by (cases "cmd_type c")
     (auto simp: handle_def handle_create_def handle_pay_def signature_of_def Let_def bind_res_def
        rehydrate_aggregate_eq build_validation_context_def context_of_history_def
        split: sum.splits option.splits)

lemma stream_rehydrates:
  assumes "streams_legal s" and "\<not> py_blank oid"
  obtains a where "rehydrate oid (store_load (reg_store s) oid) = Inr a" and "agg_inv a"
    and "agg_order_id a = oid" and "current_version a = int (length (store_load (reg_store s) oid))"
    and "last_event_id a = (if store_load (reg_store s) oid = [] then None
           else Some (ev_event_id (last (store_load (reg_store s) oid))))"
    and "legal_history oid (store_load (reg_store s) oid)"
proof -
  have "legal_history oid (store_load (reg_store s) oid)"
  proof (cases "store_load (reg_store s) oid = []")
    case True
    with assms(2) show ?thesis by (simp add: OrderAggregate_init_def)
  next
    case False
    with assms(1) show ?thesis unfolding streams_legal_def by blast
  qed
  with legal_history_replay [OF this] that show ?thesis by metis
qed

lemma admit_candidate_accepts:
  assumes inv: "reg_inv m s"
    and a: "rehydrate oid (store_load (reg_store s) oid) = Inr a" "\<not> py_blank oid"
    and cand: "legal_candidate a ev"
  obtains store' where
    "admit_candidate s sg a (context_of_history (store_load (reg_store s) oid) a) ev =
       (s\<lparr>reg_store := store', reg_idem := idem_record (reg_idem s) sg ev\<rparr>, Inr (ReplyEvent ev))"
    and "\<And>oid'. store_load store' oid' =
       (if oid' = oid then store_load (reg_store s) oid @ [ev] else store_load (reg_store s) oid')"
proof -
  from inv have legal: "streams_legal s" by (simp add: reg_inv_def)
  from stream_rehydrates [OF legal a(2)] a(1)
  have ai: "agg_inv a" "agg_order_id a = oid" "current_version a = int (length (store_load (reg_store s) oid))"
    "last_event_id a = (if store_load (reg_store s) oid = [] then None
           else Some (ev_event_id (last (store_load (reg_store s) oid))))"
    by (metis sum.inject(2))+
  let ?ctxt = "context_of_history (store_load (reg_store s) oid) a"
  from inv have rt: "reg_validation_runtime s = reg_validation_runtime (build_transactional_runtime m)"
    by (simp add: reg_inv_def)
  from legal_candidate_passes [OF cand ai(4)] branches_cases(2) [of ev ?ctxt]
  have allow: "vd_action (runtime_decide (reg_validation_runtime s) ev ?ctxt) = ALLOW"
    unfolding rt
    by (simp add: build_transactional_runtime_def runtime_decide_def dispatcher_select_def policy_decide_def
        Let_def FullProof_validate_def NoOp_validate_def)
  from cand have ev: "ev_order_id ev = oid" "ev_sequence ev = current_version a + 1"
    by (simp_all add: legal_candidate_def ai(2))
  obtain store' adm where adm: "append_if_admitted (reg_store s) ev (current_version a) = (store', adm)"
    by force
  then obtain q where q: "adm = Inr q" "ad_verdict q = ADMITTED"
    using append_if_admitted_iff [of "reg_store s" ev "current_version a"] ev ai(3) by auto
  obtain a' where "aggregate_apply a ev = Inr a'" using legal_apply [OF cand ai(1)] by metis
  with allow adm q
  have "admit_candidate s sg a ?ctxt ev =
       (s\<lparr>reg_store := store', reg_idem := idem_record (reg_idem s) sg ev\<rparr>, Inr (ReplyEvent ev))"
    by (simp add: admit_candidate_def Let_def)
  moreover from mem_gate.admit_load [OF TrueI TrueI adm [unfolded q(1)]] q(2) ev(1)
  have "store_load store' oid' =
       (if oid' = oid then store_load (reg_store s) oid @ [ev] else store_load (reg_store s) oid')" for oid'
    by simp
  ultimately show ?thesis by (rule that)
qed

section \<open>Every handler outcome\<close>

lemma rehydrate_snoc:
  "rehydrate oid (es @ [e]) = bind_res (rehydrate oid es) (\<lambda>a. aggregate_apply a e)"
  by (simp add: rehydrate_def fold_res_snoc bind_res_assoc)

lemma handle_outcome:
  assumes inv: "reg_inv m s" and h: "handle s c = (s', r)"
  obtains (remembered) rec where "records_by_request_id (reg_idem s) (cmd_request_id c) = Some rec"
      and "s' = s"
      and "r = Inr (if RequestSignature_eq (rec_signature rec) (signature_of c)
                    then ReplyEvent (rec_accepted_event rec)
                    else ReplyIdempotency (idem_check (reg_idem s) (signature_of c)))"
  | (refused) x where "records_by_request_id (reg_idem s) (cmd_request_id c) = None"
      and "s' = s" and "r = Inl x" and "spec_accept (abs_registry s) c = None"
  | (accepted) ev a a' where "records_by_request_id (reg_idem s) (cmd_request_id c) = None"
      and "r = Inr (ReplyEvent ev)" and "\<not> py_blank (cmd_order_id c)"
      and "legal_history (cmd_order_id c) (store_load (reg_store s) (cmd_order_id c))"
      and "rehydrate (cmd_order_id c) (store_load (reg_store s) (cmd_order_id c)) = Inr a"
      and "legal_candidate a ev" and "aggregate_apply a ev = Inr a'"
      and "ev_event_id ev = cmd_event_id c" and "ev_request_id ev = cmd_request_id c"
      and "spec_accept (abs_registry s) c = Some (life_of a')"
      and "reg_validation_runtime s' = reg_validation_runtime s"
      and "reg_idem s' = idem_record (reg_idem s) (signature_of c) ev"
      and "\<And>oid. store_load (reg_store s') oid =
             (if oid = cmd_order_id c then store_load (reg_store s) oid @ [ev] else store_load (reg_store s) oid)"
proof (cases "records_by_request_id (reg_idem s) (cmd_request_id c)")
  case (Some rec)
  with h show ?thesis
    by (intro remembered)
       (auto simp: handle_eq check_idempotency_cases signature_of_def split: if_splits)
next
  case miss: None
  then have chk: "check_idempotency s (signature_of c) = Inr None"
    by (simp add: check_idempotency_cases signature_of_def)
  let ?es = "store_load (reg_store s) (cmd_order_id c)"
  show ?thesis
  proof (cases "py_blank (cmd_order_id c)")
    case True
    with h chk miss show ?thesis
      by (intro refused)
         (auto simp: handle_eq rehydrate_def OrderAggregate_init_def spec_accept_def)
  next
    case False
    from inv have "streams_legal s" by (simp add: reg_inv_def)
    from stream_rehydrates [OF this False] obtain a where a: "rehydrate (cmd_order_id c) ?es = Inr a"
      "agg_inv a" "agg_order_id a = cmd_order_id c" and lh: "legal_history (cmd_order_id c) ?es" by metis
    let ?cmd = "aggregate_command (cmd_type c) a (cmd_event_id c) (cmd_now c) (cmd_request_id c) (cmd_amount c)"
    have life: "lives (abs_registry s) (cmd_order_id c) = life_of a"
      by (simp add: abs_registry_def life_at_def a(1))
    show ?thesis
    proof (cases ?cmd)
      case (Inl x)
      with h chk a(1) have "s' = s" "r = Inl x" by (auto simp: handle_eq)
      moreover from Inl command_refines_life [OF a(2), of "cmd_type c" "cmd_event_id c" "cmd_now c"
          "cmd_request_id c" "cmd_amount c"] life
      have "spec_accept (abs_registry s) c = None"
        unfolding spec_accept_def
        by (cases "ensure_positive_money (MDecimal (cmd_amount c))") auto
      ultimately show ?thesis using miss by (intro refused)
    next
      case (Inr ev)
      note cand = command_candidate [OF Inr a(2)]
      obtain a' where a': "aggregate_apply a ev = Inr a'" using legal_apply [OF cand(1) a(2)] by metis
      from Inr command_refines_life [OF a(2), of "cmd_type c" "cmd_event_id c" "cmd_now c"
          "cmd_request_id c" "cmd_amount c"]
      obtain n where n: "ensure_positive_money (MDecimal (cmd_amount c)) = Inr n"
        "\<not> py_blank (cmd_request_id c)" by auto
      from command_apply_life [OF a(2) Inr a' n(1)] n life False
      have acc: "spec_accept (abs_registry s) c = Some (life_of a')" by (simp add: spec_accept_def)
      obtain store' where st: "admit_candidate s (signature_of c) a (context_of_history ?es a) ev =
           (s\<lparr>reg_store := store', reg_idem := idem_record (reg_idem s) (signature_of c) ev\<rparr>, Inr (ReplyEvent ev))"
        "\<And>oid'. store_load store' oid' = (if oid' = cmd_order_id c then ?es @ [ev] else store_load (reg_store s) oid')"
        by (rule admit_candidate_accepts [OF inv a(1) False cand(1), of "signature_of c"]) blast
      from h chk a(1) Inr st(1)
      have s': "s' = s\<lparr>reg_store := store', reg_idem := idem_record (reg_idem s) (signature_of c) ev\<rparr>"
        and r: "r = Inr (ReplyEvent ev)" by (auto simp: handle_eq)
      show ?thesis
        by (rule accepted [OF miss r False lh a(1) cand(1) a' cand(2,3) acc]) (simp_all add: s' st(2))
    qed
  qed
qed

lemma reg_inv_init: "reg_inv m (build_transactional_runtime m)"
  by (simp add: reg_inv_def streams_legal_def requests_match_def build_transactional_runtime_def
      EventStore_init_def IdempotencyProvider_init_def store_load_def)

lemma requests_match_accept:
  assumes "requests_match s" and "records_by_request_id (reg_idem s) (sig_request_id sg) = None"
    and "ev_request_id ev = sig_request_id sg" and "reg_idem s' = idem_record (reg_idem s) sg ev"
    and "\<And>oid. store_load (reg_store s') oid =
           (if oid = sig_order_id sg then store_load (reg_store s) oid @ [ev] else store_load (reg_store s) oid)"
  shows "requests_match s'"
proof -
  have lk: "records_by_request_id (reg_idem s') rid =
    (if rid = sig_request_id sg then Some \<lparr>rec_signature = sg, rec_accepted_event = ev\<rparr>
     else records_by_request_id (reg_idem s) rid)" for rid
    using mem_requests.recording_lookup [OF TrueI TrueI refl] by (simp add: assms(4))
  have old: "ev_request_id e \<noteq> sig_request_id sg \<and> (\<exists>rec. records_by_request_id (reg_idem s) (ev_request_id e) = Some rec
      \<and> rec_accepted_event rec = e \<and> sig_order_id (rec_signature rec) = oid)"
    if "e \<in> set (store_load (reg_store s) oid)" for e oid
    using assms(1,2) that unfolding requests_match_def by (metis option.distinct(1))
  have new: "e \<in> set (store_load (reg_store s) oid) \<or> (e = ev \<and> oid = sig_order_id sg)"
    if "e \<in> set (store_load (reg_store s') oid)" for e oid
    using that by (auto simp: assms(5) split: if_splits)
  have "\<exists>rec. records_by_request_id (reg_idem s') (ev_request_id e) = Some rec
      \<and> rec_accepted_event rec = e \<and> sig_order_id (rec_signature rec) = oid"
    if "e \<in> set (store_load (reg_store s') oid)" for e oid
    using new [OF that] old [of e oid] assms(3) by (auto simp: lk)
  moreover have "sig_request_id (rec_signature rec) = rid \<and> ev_request_id (rec_accepted_event rec) = rid
        \<and> rec_accepted_event rec \<in> set (store_load (reg_store s') (sig_order_id (rec_signature rec)))"
    if "records_by_request_id (reg_idem s') rid = Some rec" for rid rec
  proof (cases "rid = sig_request_id sg")
    case True
    with that assms(3) show ?thesis by (auto simp: lk assms(5))
  next
    case False
    with that have "records_by_request_id (reg_idem s) rid = Some rec" by (simp add: lk)
    with assms(1) have "sig_request_id (rec_signature rec) = rid \<and> ev_request_id (rec_accepted_event rec) = rid
        \<and> rec_accepted_event rec \<in> set (store_load (reg_store s) (sig_order_id (rec_signature rec)))"
      unfolding requests_match_def by blast
    then show ?thesis
      by (cases "sig_order_id (rec_signature rec) = sig_order_id sg") (simp_all add: assms(5))
  qed
  ultimately show ?thesis unfolding requests_match_def by blast
qed

lemma handle_inv:
  assumes "reg_inv m s" and "handle s c = (s', r)"
  shows "reg_inv m s'"
  using assms
proof (cases rule: handle_outcome)
  case (accepted ev a a')
  have "legal_history (cmd_order_id c) (store_load (reg_store s) (cmd_order_id c) @ [ev])"
    by (rule legal_history_snoc [OF accepted(4,5,6)])
  with assms(1) accepted(13) have "streams_legal s'"
    by (auto simp: reg_inv_def streams_legal_def)
  moreover have "requests_match s'"
    using assms(1) accepted
    by (intro requests_match_accept [of s "signature_of c" ev s']) (simp_all add: reg_inv_def signature_of_def)
  ultimately show ?thesis using assms(1) accepted(11) by (simp add: reg_inv_def)
qed (use assms(1) in auto)

lemma reachable_inv: "registry_reachable m s \<Longrightarrow> reg_inv m s"
proof (induction rule: registry_reachable.induct)
  case start
  show ?case by (rule reg_inv_init)
next
  case (move s c r s')
  then show ?case by (auto elim!: registry_stepE intro: handle_inv)
qed

lemma handle_refines:
  assumes "reg_inv m s" and "handle s c = (s', r)"
  shows "spec_handle (abs_registry s) c = (abs_registry s', abs_reply r)"
  using assms
proof (cases rule: handle_outcome)
  case (remembered rec)
  then show ?thesis by (simp add: spec_handle_def abs_registry_def)
next
  case (refused x)
  then show ?thesis by (simp add: spec_handle_def abs_registry_def)
next
  case (accepted ev a a')
  have "life_at s' = (life_at s)(cmd_order_id c := life_of a')"
    using accepted by (auto simp: life_at_def rehydrate_snoc fun_eq_iff)
  moreover have "records_by_request_id (reg_idem s') = (records_by_request_id (reg_idem s))
      (cmd_request_id c \<mapsto> \<lparr>rec_signature = signature_of c, rec_accepted_event = ev\<rparr>)"
    by (simp add: accepted(12) idem_record_def signature_of_def)
  ultimately show ?thesis using accepted by (auto simp: spec_handle_def abs_registry_def fun_eq_iff)
qed

section \<open>Runs\<close>

lemma handle_keeps_records:
  assumes "reg_inv m s" and "handle s c = (s', r)"
    and "records_by_request_id (reg_idem s) rid = Some rec"
  shows "records_by_request_id (reg_idem s') rid = Some rec"
  using assms(1,2)
proof (cases rule: handle_outcome)
  case (accepted ev a a')
  with assms(3) show ?thesis by (auto simp: idem_record_def signature_of_def)
qed (use assms(3) in auto)

lemma run_keeps_records:
  assumes "registry_run s s'" and "reg_inv m s"
  shows "reg_inv m s' \<and> (\<forall>rid rec. records_by_request_id (reg_idem s) rid = Some rec
           \<longrightarrow> records_by_request_id (reg_idem s') rid = Some rec)"
  using assms
proof (induction rule: registry_run.induct)
  case (run_none s)
  then show ?case by simp
next
  case (run_more s s1 c r s2)
  then have "handle s1 c = (s2, r)" by (auto elim: registry_stepE)
  with run_more handle_inv handle_keeps_records show ?case by blast
qed

lemma handle_remembered:
  assumes "reg_inv m s" and "records_by_request_id (reg_idem s) (cmd_request_id c) = Some rec"
    and "RequestSignature_eq (rec_signature rec) (signature_of c)"
  shows "handle s c = (s, Inr (ReplyEvent (rec_accepted_event rec)))"
proof -
  obtain s' r where h: "handle s c = (s', r)" by force
  with assms(1) show ?thesis
    by (cases rule: handle_outcome) (use assms(2,3) h in auto)
qed

lemma event_reply_remembered:
  assumes inv: "reg_inv m s" and h: "handle s c = (s', Inr (ReplyEvent ev))"
  obtains rec where "records_by_request_id (reg_idem s') (cmd_request_id c) = Some rec"
    and "RequestSignature_eq (rec_signature rec) (signature_of c)" and "rec_accepted_event rec = ev"
  using inv h
proof (cases rule: handle_outcome)
  case (remembered rec)
  with that [of rec] show ?thesis by (auto split: if_splits)
next
  case (accepted e a a')
  then have "ensure_positive_money (MDecimal (cmd_amount c)) \<noteq> Inl x" for x
    by (auto simp: spec_accept_def split: if_splits)
  then obtain n where "ensure_positive_money (MDecimal (cmd_amount c)) = Inr n" by (metis sum.exhaust)
  then have "RequestSignature_eq (signature_of c) (signature_of c)"
    by (auto simp: RequestSignature_eq_def ensure_positive_money_def normalize_money_def parse_money_def
        res_simps signature_of_def simp del: dec_eq.simps intro: dec_eq_refl_finite
        split: decimal.splits)
  with accepted that [of "\<lparr>rec_signature = signature_of c, rec_accepted_event = e\<rparr>"] show ?thesis
    by (simp add: idem_record_def signature_of_def)
qed auto

lemma requests_match_unique:
  assumes "requests_match s" and "e \<in> set (store_load (reg_store s) oid)"
    and "f \<in> set (store_load (reg_store s) oid')" and "ev_request_id e = ev_request_id f"
  shows "e = f \<and> oid = oid'"
proof -
  from assms(1,2) obtain rec where rec: "records_by_request_id (reg_idem s) (ev_request_id e) = Some rec"
    "rec_accepted_event rec = e" "sig_order_id (rec_signature rec) = oid"
    unfolding requests_match_def by blast
  from assms(1,3) obtain rec' where "records_by_request_id (reg_idem s) (ev_request_id f) = Some rec'"
    "rec_accepted_event rec' = f" "sig_order_id (rec_signature rec') = oid'"
    unfolding requests_match_def by blast
  with rec assms(4) show ?thesis by simp
qed

lemma stored_sequence_position:
  assumes "reg_inv m s" and "i < length (store_load (reg_store s) oid)"
  shows "ev_sequence (store_load (reg_store s) oid ! i) = int i + 1"
proof -
  from assms have "legal_history oid (store_load (reg_store s) oid)"
    unfolding reg_inv_def streams_legal_def by (metis list.size(3) not_less_zero)
  then obtain z where z: "OrderAggregate_init oid = Inr z" "legal_from z (store_load (reg_store s) oid)"
    by (auto split: sum.splits)
  from legal_from_replay [OF z(2) OrderAggregate_init_inv [OF z(1)]] obtain b
    where "fold_res aggregate_apply z (store_load (reg_store s) oid) = Inr b" by blast
  from fold_apply_version [OF this] z(1)
  have "map ev_sequence (store_load (reg_store s) oid) = map int [1..<Suc (length (store_load (reg_store s) oid))]"
    by (auto simp: OrderAggregate_init_def split: if_splits)
  then have "map ev_sequence (store_load (reg_store s) oid) ! i
      = map int [1..<Suc (length (store_load (reg_store s) oid))] ! i" by simp
  with assms(2) show ?thesis by (simp del: upt_Suc)
qed

section \<open>Properties\<close>

text \<open>
  C5: The registry refines its specification. In every reachable state and for every command,
  with validation on or off, the handler performs exactly the specified step on the lives of the
  orders and the memory of accepted requests and gives the specified reply: the event of the
  earlier acceptance for an identical retry, a conflict when the request identity is reused with
  another payload, a new event when the life cycle allows the command, an exception otherwise.
  It never blocks a candidate of its own aggregate, and whatever does not return an event leaves
  the state exactly as it was.
\<close>

theorem registry_refines_spec:
  assumes "registry_reachable m s" and "registry_step s c r s'"
  shows "spec_handle (abs_registry s) c = (abs_registry s', abs_reply r)
    \<and> abs_reply r \<noteq> Blocked \<and> ((\<forall>ev. r \<noteq> Inr (ReplyEvent ev)) \<longrightarrow> s' = s)"
proof -
  from assms(2) have h: "handle s c = (s', r)" by (rule registry_stepE)
  from reachable_inv [OF assms(1)] h have "((\<forall>ev. r \<noteq> Inr (ReplyEvent ev)) \<longrightarrow> s' = s)"
    by (cases rule: handle_outcome) auto
  moreover have "spec_handle (abs_registry s) c = (t, q) \<Longrightarrow> q \<noteq> Blocked" for t q
    by (auto simp: spec_handle_def split: option.splits if_splits)
  ultimately show ?thesis using handle_refines [OF reachable_inv [OF assms(1)] h] by blast
qed

definition sample_create :: command where
  "sample_create = \<lparr>cmd_type = CREATE, cmd_event_id = ''e1'', cmd_now = 5, cmd_request_id = ''r1'',
     cmd_order_id = ''o1'', cmd_amount = Dec False 10 0\<rparr>"

lemma sample_spec_accept:
  "spec_accept (abs_registry (build_transactional_runtime m)) sample_create = Some (Created_for (Dec False 1000 (- 2)))"
proof -
  have "ensure_positive_money (MDecimal (Dec False 10 0)) = Inr (Dec False 1000 (- 2))"
    by (simp add: ensure_positive_money_def normalize_money_def money_eval dec_scaled_def)
  moreover have "lives (abs_registry (build_transactional_runtime m)) ''o1'' = Absent"
    by (simp add: abs_registry_def life_at_def build_transactional_runtime_def EventStore_init_def
        store_load_def rehydrate_def OrderAggregate_init_def py_blank_iff py_isspace_def)
  ultimately show ?thesis
    by (simp add: spec_accept_def sample_create_def py_blank_iff py_isspace_def)
qed

theorem registry_refines_spec_witness:
  "\<exists>s' r. registry_step (build_transactional_runtime STRICT) sample_create r s'
     \<and> abs_reply r = Event_reply ''e1'' \<and> lives (abs_registry s') ''o1'' = Created_for (Dec False 1000 (- 2))"
proof -
  obtain s' r where h: "registry_step (build_transactional_runtime STRICT) sample_create r s'"
    using registry_step.intros [OF prod.collapse [symmetric]] by blast
  have "accepted (abs_registry (build_transactional_runtime STRICT)) (cmd_request_id sample_create) = None"
    by (simp add: abs_registry_def build_transactional_runtime_def IdempotencyProvider_init_def)
  with registry_refines_spec [OF registry_reachable.start h] sample_spec_accept [of STRICT]
  have "abs_registry s' = (abs_registry (build_transactional_runtime STRICT))
      \<lparr>lives := (lives (abs_registry (build_transactional_runtime STRICT)))(''o1'' := Created_for (Dec False 1000 (- 2))),
       accepted := (accepted (abs_registry (build_transactional_runtime STRICT)))(''r1'' \<mapsto> (signature_of sample_create, ''e1''))\<rparr>"
    "abs_reply r = Event_reply ''e1''"
    by (auto simp: spec_handle_def sample_create_def)
  with h show ?thesis by (intro exI [of _ s'] exI [of _ r]) simp
qed

text \<open>
  Reachable registries are consistent. Every non-empty stream is a legal history of its
  order, every remembered request points to an accepted event of the order it names, every
  accepted event is remembered under its request identity, and no request identity was accepted
  at two positions of the store.
\<close>

theorem registry_store_consistent:
  assumes "registry_reachable m s"
  shows "streams_legal s \<and> requests_match s
    \<and> (\<forall>oid oid' i j. i < length (store_load (reg_store s) oid) \<and> j < length (store_load (reg_store s) oid')
         \<and> ev_request_id (store_load (reg_store s) oid ! i) = ev_request_id (store_load (reg_store s) oid' ! j)
         \<longrightarrow> oid = oid' \<and> i = j)"
proof -
  note inv = reachable_inv [OF assms]
  then have rm: "requests_match s" and sl: "streams_legal s" by (simp_all add: reg_inv_def)
  have "oid = oid' \<and> i = j"
    if i: "i < length (store_load (reg_store s) oid)" and j: "j < length (store_load (reg_store s) oid')"
      and rid: "ev_request_id (store_load (reg_store s) oid ! i) = ev_request_id (store_load (reg_store s) oid' ! j)"
    for oid oid' i j
  proof -
    from requests_match_unique [OF rm nth_mem [OF i] nth_mem [OF j] rid]
    have e: "store_load (reg_store s) oid ! i = store_load (reg_store s) oid' ! j" and o: "oid = oid'" by blast+
    from stored_sequence_position [OF inv i] stored_sequence_position [OF inv j]
    have "int i + 1 = int j + 1" by (simp only: e)
    with o show ?thesis by simp
  qed
  then have "\<forall>oid oid' i j. i < length (store_load (reg_store s) oid) \<and> j < length (store_load (reg_store s) oid')
         \<and> ev_request_id (store_load (reg_store s) oid ! i) = ev_request_id (store_load (reg_store s) oid' ! j)
         \<longrightarrow> oid = oid' \<and> i = j"
    by (intro allI impI) (elim conjE, assumption)
  with rm sl show ?thesis by (intro conjI)
qed

theorem registry_store_consistent_witness:
  "streams_legal (build_transactional_runtime OFF) \<and> requests_match (build_transactional_runtime OFF)"
  using registry_store_consistent [OF registry_reachable.start [of OFF]] by blast

text \<open>
  C19: Accepted requests replay for ever. Once a command has been answered with an event, the
  same request, presented again after any number of other commands and under any fresh event
  identity and clock, is answered with that same event and changes nothing.
\<close>

theorem accepted_request_replays:
  assumes "registry_reachable m s" and "handle s c = (s1, Inr (ReplyEvent ev))" and "registry_run s1 s2"
    and "signature_of c' = signature_of c"
  shows "handle s2 c' = (s2, Inr (ReplyEvent ev))"
proof -
  note inv = reachable_inv [OF assms(1)]
  obtain rec where rec: "records_by_request_id (reg_idem s1) (cmd_request_id c) = Some rec"
    "RequestSignature_eq (rec_signature rec) (signature_of c)" "rec_accepted_event rec = ev"
    by (rule event_reply_remembered [OF inv assms(2)])
  from run_keeps_records [OF assms(3) handle_inv [OF inv assms(2)]] rec(1)
  have "reg_inv m s2" "records_by_request_id (reg_idem s2) (cmd_request_id c) = Some rec" by auto
  moreover from assms(4) have "cmd_request_id c' = cmd_request_id c" by (simp add: signature_of_def)
  ultimately show ?thesis using handle_remembered [of m s2 c' rec] rec(2,3) assms(4) by simp
qed

theorem accepted_request_replays_witness:
  "\<exists>s1 ev. handle (build_transactional_runtime STRICT) sample_create = (s1, Inr (ReplyEvent ev))
     \<and> handle s1 (sample_create\<lparr>cmd_event_id := ''e7'', cmd_now := 9\<rparr>) = (s1, Inr (ReplyEvent ev))"
proof -
  obtain s1 r where h: "handle (build_transactional_runtime STRICT) sample_create = (s1, r)" by force
  from reg_inv_init h obtain ev where ev: "r = Inr (ReplyEvent ev)"
  proof (cases rule: handle_outcome)
    case (refused x)
    with sample_spec_accept [of STRICT] show ?thesis by simp
  qed (auto simp: build_transactional_runtime_def IdempotencyProvider_init_def)
  have "handle s1 (sample_create\<lparr>cmd_event_id := ''e7'', cmd_now := 9\<rparr>) = (s1, Inr (ReplyEvent ev))"
    by (rule accepted_request_replays [OF registry_reachable.start h [unfolded ev] registry_run.run_none])
       (simp add: signature_of_def)
  with h ev show ?thesis by blast
qed

end
