(* ===== verification/Projection.thy ===== *)
theory Projection
  imports Registry
begin

text \<open>
  \<open>src/pipeline/projection\<close>, the read side over accepted history: the reducer
  (\<open>reducer.py\<close>), the worker with its checkpoint policy (\<open>worker.py\<close>), and the in-memory
  stores it uses (\<open>src/storage/projection_store.py\<close>, \<open>src/storage/checkpoint_store.py\<close>).
  The reducer simulates the aggregate on legal histories (an interpretation of
  \<open>replay_simulation\<close>); the worker is studied as a machine that receives records of one
  accepted log again and again, and may stop between its two writes.
\<close>

section \<open>Reducer\<close>

definition build_empty_projection_state :: "string \<Rightarrow> OrderState" where
  "build_empty_projection_state order_id =
     \<lparr>st_order_id = order_id, st_status = INIT, st_total_amount = zero_amount,
      st_paid_amount = zero_amount, st_version = 0\<rparr>"

definition reduce_order_event :: "OrderState \<Rightarrow> OrderEvent \<Rightarrow> OrderState res" where
  "reduce_order_event current_state event =
     (if ev_order_id event \<noteq> st_order_id current_state
      then Inl (ValueError (''Projection reducer order_id mismatch: state.order_id='' @ st_order_id current_state
             @ '', event.order_id='' @ ev_order_id event))
      else let expected_next_sequence = st_version current_state + 1
      in if ev_sequence event \<noteq> expected_next_sequence
      then Inl (ValueError (''Projection reducer sequence violation: expected '' @ show_int expected_next_sequence
             @ '', got '' @ show_int (ev_sequence event)))
      else case ev_event_type event of
        EV_CREATED \<Rightarrow>
          (if st_status current_state \<noteq> INIT
           then Inl (ValueError ''Projection reducer invalid transition: CREATED must follow INIT'')
           else Inr \<lparr>st_order_id = st_order_id current_state, st_status = CREATED,
                     st_total_amount = ev_amount event, st_paid_amount = zero_amount,
                     st_version = ev_sequence event\<rparr>)
      | EV_PAID \<Rightarrow>
          (if st_status current_state \<noteq> CREATED
           then Inl (ValueError ''Projection reducer invalid transition: PAID must follow CREATED'')
           else if \<not> dec_eq (ev_amount event) (st_total_amount current_state)
           then Inl (ValueError
             ''Projection reducer amount mismatch: PAID amount must equal projected total_amount in v1'')
           else Inr \<lparr>st_order_id = st_order_id current_state, st_status = PAID,
                     st_total_amount = st_total_amount current_state,
                     st_paid_amount = ev_amount event, st_version = ev_sequence event\<rparr>))"

section \<open>Stores\<close>

record InMemoryProjectionStore =
  ps_states :: "string \<rightharpoonup> OrderState"

definition load_state :: "InMemoryProjectionStore \<Rightarrow> string \<Rightarrow> OrderState option" where
  "load_state self order_id = ps_states self order_id"

definition save_state :: "InMemoryProjectionStore \<Rightarrow> OrderState \<Rightarrow> InMemoryProjectionStore" where
  "save_state self state = self\<lparr>ps_states := (ps_states self)(st_order_id state \<mapsto> state)\<rparr>"

definition projection_store_clear :: "InMemoryProjectionStore \<Rightarrow> InMemoryProjectionStore" where
  "projection_store_clear self = self\<lparr>ps_states := Map.empty\<rparr>"

record InMemoryCheckpointStore =
  cs_offsets :: "string \<rightharpoonup> int"

definition load_offset :: "InMemoryCheckpointStore \<Rightarrow> string \<Rightarrow> int" where
  "load_offset self worker_name =
     (case cs_offsets self worker_name of None \<Rightarrow> - 1 | Some offset \<Rightarrow> offset)"

definition save_offset :: "InMemoryCheckpointStore \<Rightarrow> string \<Rightarrow> int \<Rightarrow> InMemoryCheckpointStore" where
  "save_offset self worker_name offset = self\<lparr>cs_offsets := (cs_offsets self)(worker_name \<mapsto> offset)\<rparr>"

definition checkpoint_store_clear :: "InMemoryCheckpointStore \<Rightarrow> InMemoryCheckpointStore" where
  "checkpoint_store_clear self = self\<lparr>cs_offsets := Map.empty\<rparr>"

section \<open>Worker\<close>

record ProjectionRecord =
  pr_offset :: int
  pr_event :: OrderEvent

record ProjectionProcessResult =
  pp_offset :: int
  pp_order_id :: string
  pp_event_sequence :: int
  pp_action :: string
  pp_projected_version :: int
  pp_reason :: string

record ProjectionWorker =
  worker_name :: string
  projection_store :: InMemoryProjectionStore
  checkpoint_store :: InMemoryCheckpointStore

definition load_or_init_state :: "ProjectionWorker \<Rightarrow> string \<Rightarrow> OrderState" where
  "load_or_init_state self order_id =
     (case load_state (projection_store self) order_id of
        Some state \<Rightarrow> state
      | None \<Rightarrow> build_empty_projection_state order_id)"

definition process_result ::
  "ProjectionRecord \<Rightarrow> string \<Rightarrow> int \<Rightarrow> string \<Rightarrow> ProjectionProcessResult" where
  "process_result r action version reason =
     \<lparr>pp_offset = pr_offset r, pp_order_id = ev_order_id (pr_event r),
      pp_event_sequence = ev_sequence (pr_event r), pp_action = action,
      pp_projected_version = version, pp_reason = reason\<rparr>"

definition process_record ::
  "ProjectionWorker \<Rightarrow> ProjectionRecord \<Rightarrow> ProjectionWorker \<times> ProjectionProcessResult res" where
  "process_record self r =
     (let current_offset = load_offset (checkpoint_store self) (worker_name self)
      in if pr_offset r \<le> current_offset
         then (let current_state = load_or_init_state self (ev_order_id (pr_event r))
               in (self, Inr (process_result r ''skipped_already_consumed'' (st_version current_state)
                       ''record offset already checkpointed'')))
         else
           let current_state = load_or_init_state self (ev_order_id (pr_event r))
           in if ev_sequence (pr_event r) \<le> st_version current_state
              then (self\<lparr>checkpoint_store :=
                      save_offset (checkpoint_store self) (worker_name self) (pr_offset r)\<rparr>,
                    Inr (process_result r ''skipped_already_projected'' (st_version current_state)
                      ''event sequence is already reflected in projected state''))
              else let expected_next_sequence = st_version current_state + 1
              in if ev_sequence (pr_event r) > expected_next_sequence
              then (self, Inl (ProjectionSequenceGapError expected_next_sequence (ev_sequence (pr_event r))))
              else case reduce_order_event current_state (pr_event r) of
                Inl exc \<Rightarrow> (self, Inl exc)
              | Inr next_state \<Rightarrow>
                  (self\<lparr>projection_store := save_state (projection_store self) next_state,
                        checkpoint_store :=
                          save_offset (checkpoint_store self) (worker_name self) (pr_offset r)\<rparr>,
                   Inr (process_result r ''applied'' (st_version next_state)
                     ''projection state advanced successfully'')))"

text \<open>An exception ends the loop; what was written before stays written.\<close>

fun worker_replay ::
  "ProjectionWorker \<Rightarrow> ProjectionRecord list \<Rightarrow> ProjectionWorker \<times> ProjectionProcessResult list res" where
  "worker_replay self [] = (self, Inr [])"
| "worker_replay self (r # rs) =
     (case process_record self r of
        (self1, Inl exc) \<Rightarrow> (self1, Inl exc)
      | (self1, Inr res) \<Rightarrow>
          (case worker_replay self1 rs of
             (self2, Inl exc) \<Rightarrow> (self2, Inl exc)
           | (self2, Inr results) \<Rightarrow> (self2, Inr (res # results))))"

section \<open>The reducer simulates the aggregate\<close>

fun state_of :: "OrderAggregate \<Rightarrow> OrderState" where
  "state_of a = \<lparr>st_order_id = agg_order_id a, st_status = status a, st_total_amount = total_amount a,
     st_paid_amount = paid_amount a, st_version = current_version a\<rparr>"

lemma reduce_simulates_apply:
  assumes "agg_inv a" and "legal_candidate a e" and "aggregate_apply a e = Inr a'"
  shows "reduce_order_event (state_of a) e = Inr (state_of a') \<and> agg_inv a'"
  using assms
  by (auto simp: reduce_order_event_def aggregate_apply_def legal_candidate_def Let_def
      dec_eq_canonical split: EventType.splits)

interpretation reducer_sim: replay_simulation aggregate_apply reduce_order_event
  "\<lambda>a st. agg_inv a \<and> st = state_of a" legal_candidate
  using reduce_simulates_apply by unfold_locales blast

lemma guarded_is_legal_from: "reducer_sim.guarded a es = legal_from a es"
  by (induction a es rule: reducer_sim.guarded.induct) (auto split: sum.splits)

definition project :: "string \<Rightarrow> OrderEvent list \<Rightarrow> OrderState res" where
  "project oid es = fold_res reduce_order_event (build_empty_projection_state oid) es"

lemma project_legal_history:
  assumes "legal_history oid es"
  obtains a where "rehydrate oid es = Inr a" and "project oid es = Inr (state_of a)" and "agg_inv a"
proof -
  from assms obtain z where z: "OrderAggregate_init oid = Inr z" "legal_from z es"
    by (auto split: sum.splits)
  then have "build_empty_projection_state oid = state_of z"
    by (auto simp: OrderAggregate_init_def build_empty_projection_state_def split: if_splits)
  with reducer_sim.replay_simulated [of z "state_of z" es] z OrderAggregate_init_inv [OF z(1)] that
  show ?thesis by (auto simp: guarded_is_legal_from rehydrate_def project_def)
qed

section \<open>One log, delivered at least once\<close>

text \<open>The accepted log of all orders in global order; the offset of a record is its position.\<close>

abbreviation stream :: "string \<Rightarrow> OrderEvent list \<Rightarrow> OrderEvent list" where
  "stream oid hist \<equiv> filter (\<lambda>e. ev_order_id e = oid) hist"

definition accepted_log :: "OrderEvent list \<Rightarrow> bool" where
  "accepted_log hist \<longleftrightarrow> (\<forall>e \<in> set hist. legal_history (ev_order_id e) (stream (ev_order_id e) hist))"

definition record_at :: "OrderEvent list \<Rightarrow> nat \<Rightarrow> ProjectionRecord" where
  "record_at hist j = \<lparr>pr_offset = int j, pr_event = hist ! j\<rparr>"

abbreviation offset_of :: "ProjectionWorker \<Rightarrow> int" where
  "offset_of w \<equiv> load_offset (checkpoint_store w) (worker_name w)"

text \<open>Deliveries of one log to one worker: any record up to the first unconsumed one may be
  delivered, any number of times; the process may stop after the projected state was saved and
  before the checkpoint was.\<close>

inductive worker_run :: "string \<Rightarrow> OrderEvent list \<Rightarrow> ProjectionWorker \<Rightarrow> bool" for w hist where
  start: "worker_run w hist \<lparr>worker_name = w, projection_store = \<lparr>ps_states = Map.empty\<rparr>,
            checkpoint_store = \<lparr>cs_offsets = Map.empty\<rparr>\<rparr>"
| deliver: "worker_run w hist s \<Longrightarrow> j < length hist \<Longrightarrow> int j \<le> offset_of s + 1
     \<Longrightarrow> worker_run w hist (fst (process_record s (record_at hist j)))"
| stop_between_writes: "worker_run w hist s \<Longrightarrow> j < length hist \<Longrightarrow> int j \<le> offset_of s + 1
     \<Longrightarrow> worker_run w hist ((fst (process_record s (record_at hist j)))\<lparr>checkpoint_store := checkpoint_store s\<rparr>)"

text \<open>The worker reflects the first \<open>k\<close> events of the log.\<close>

definition reflects :: "OrderEvent list \<Rightarrow> nat \<Rightarrow> ProjectionWorker \<Rightarrow> bool" where
  "reflects hist k s \<longleftrightarrow> k \<le> length hist
     \<and> (\<forall>oid. project oid (stream oid (take k hist)) = Inr (load_or_init_state s oid))"

lemma legal_from_prefix: "legal_from a (es @ fs) \<Longrightarrow> legal_from a es"
  by (induction a es rule: legal_from.induct) (auto split: sum.splits)

lemma legal_history_prefix: "legal_history oid (es @ fs) \<Longrightarrow> legal_history oid es"
  by (auto split: sum.splits intro: legal_from_prefix)

lemma stream_prefix_legal:
  assumes "accepted_log hist" and "j < length hist" and "k \<le> length hist" and "oid = ev_order_id (hist ! j)"
  shows "legal_history oid (stream oid (take k hist))"
proof -
  from assms(1,2,4) have "legal_history oid (stream oid hist)"
    by (auto simp: accepted_log_def simp del: legal_history.simps)
  moreover have "stream oid hist = stream oid (take k hist) @ stream oid (drop k hist)"
    by (metis append_take_drop_id filter_append)
  ultimately show ?thesis by (metis legal_history_prefix)
qed

lemma stream_take_Suc:
  assumes "j < length hist"
  shows "stream oid (take (Suc j) hist) =
    stream oid (take j hist) @ (if ev_order_id (hist ! j) = oid then [hist ! j] else [])"
  using assms by (simp add: take_Suc_conv_app_nth)

lemma legal_history_last_sequence:
  assumes "legal_history oid (es @ [e])"
  shows "ev_sequence e = int (length es) + 1"
proof -
  from assms obtain z where z: "OrderAggregate_init oid = Inr z" "legal_from z (es @ [e])"
    by (auto split: sum.splits)
  from legal_from_replay [OF z(2) OrderAggregate_init_inv [OF z(1)]] obtain b
    where "fold_res aggregate_apply z (es @ [e]) = Inr b" by blast
  from fold_apply_version [OF this] z(1) show ?thesis
    by (auto simp: OrderAggregate_init_def split: if_splits)
qed

lemma record_sequence:
  assumes "accepted_log hist" and "j < length hist"
  shows "ev_sequence (hist ! j) = int (length (stream (ev_order_id (hist ! j)) (take j hist))) + 1"
  using stream_prefix_legal [OF assms(1,2), of "Suc j"] assms(2)
  by (intro legal_history_last_sequence [of "ev_order_id (hist ! j)"])
     (simp add: stream_take_Suc del: legal_history.simps)

lemma reflects_version:
  assumes "accepted_log hist" and "reflects hist k s" and "j < length hist"
  shows "st_version (load_or_init_state s (ev_order_id (hist ! j)))
    = int (length (stream (ev_order_id (hist ! j)) (take k hist)))"
proof -
  let ?oid = "ev_order_id (hist ! j)"
  from assms(2) have k: "k \<le> length hist"
    and st: "project ?oid (stream ?oid (take k hist)) = Inr (load_or_init_state s ?oid)"
    by (simp_all add: reflects_def)
  note lh = stream_prefix_legal [OF assms(1,3) k refl]
  obtain a where a: "rehydrate ?oid (stream ?oid (take k hist)) = Inr a"
    "project ?oid (stream ?oid (take k hist)) = Inr (state_of a)" by (rule project_legal_history [OF lh])
  obtain b where "rehydrate ?oid (stream ?oid (take k hist)) = Inr b"
    "current_version b = int (length (stream ?oid (take k hist)))" by (rule legal_history_replay [OF lh])
  with a st show ?thesis by simp
qed

lemma stream_take_mono: "j \<le> k \<Longrightarrow> length (stream oid (take j hist)) \<le> length (stream oid (take k hist))"
proof -
  assume "j \<le> k"
  then have "take k hist = take j hist @ take (k - j) (drop j hist)"
    by (metis le_add_diff_inverse take_add)
  then show ?thesis by simp
qed

text \<open>A record the worker already reflects changes no state; the next one is applied.\<close>

lemma process_reflected:
  assumes "accepted_log hist" and "reflects hist k s" and "j < k"
  shows "\<exists>res. process_record s (record_at hist j) =
      ((if int j \<le> offset_of s then s
        else s\<lparr>checkpoint_store := save_offset (checkpoint_store s) (worker_name s) (int j)\<rparr>), Inr res)
      \<and> pp_action res \<noteq> ''applied''"
proof -
  from assms have j: "j < length hist" by (simp add: reflects_def)
  let ?oid = "ev_order_id (hist ! j)"
  have "ev_sequence (hist ! j) = int (length (stream ?oid (take (Suc j) hist)))"
    using record_sequence [OF assms(1) j] j by (simp add: stream_take_Suc)
  with stream_take_mono [of "Suc j" k ?oid hist] assms(3) reflects_version [OF assms(1,2) j]
  have "ev_sequence (hist ! j) \<le> st_version (load_or_init_state s ?oid)" by simp
  then show ?thesis by (simp add: process_record_def record_at_def Let_def process_result_def)
qed

lemma process_next:
  assumes "accepted_log hist" and "reflects hist k s" and "k < length hist" and "offset_of s < int k"
  obtains st res where "process_record s (record_at hist k) =
      (s\<lparr>projection_store := save_state (projection_store s) st,
         checkpoint_store := save_offset (checkpoint_store s) (worker_name s) (int k)\<rparr>, Inr res)"
    and "pp_action res = ''applied''"
    and "reflects hist (Suc k) (s\<lparr>projection_store := save_state (projection_store s) st, checkpoint_store := c\<rparr>)"
proof -
  let ?e = "hist ! k" and ?oid = "ev_order_id (hist ! k)"
  have seq: "ev_sequence ?e = st_version (load_or_init_state s ?oid) + 1"
    using record_sequence [OF assms(1,3)] reflects_version [OF assms(1,2,3)] by simp
  from assms(3) have "Suc k \<le> length hist" by simp
  note lh = stream_prefix_legal [OF assms(1,3) this refl]
  obtain a where "project ?oid (stream ?oid (take (Suc k) hist)) = Inr (state_of a)"
    by (rule project_legal_history [OF lh])
  with assms(2,3) have red: "reduce_order_event (load_or_init_state s ?oid) ?e = Inr (state_of a)"
    by (auto simp: reflects_def stream_take_Suc project_def fold_res_snoc)
  then have oid: "agg_order_id a = st_order_id (load_or_init_state s ?oid)" "?oid = st_order_id (load_or_init_state s ?oid)"
    by (auto simp: reduce_order_event_def Let_def split: if_splits EventType.splits)
  have "reflects hist (Suc k) (s\<lparr>projection_store := save_state (projection_store s) (state_of a), checkpoint_store := c\<rparr>)"
    using assms(2,3) red oid
    by (auto simp: reflects_def stream_take_Suc load_or_init_state_def load_state_def save_state_def
        project_def fold_res_snoc)
  with red seq assms(4) that show ?thesis
    by (auto simp: process_record_def record_at_def Let_def process_result_def)
qed

definition on_track :: "string \<Rightarrow> OrderEvent list \<Rightarrow> nat \<Rightarrow> ProjectionWorker \<Rightarrow> bool" where
  "on_track w hist k s \<longleftrightarrow> worker_name s = w \<and> reflects hist k s \<and> - 1 \<le> offset_of s
     \<and> (int k = offset_of s + 1 \<or> int k = offset_of s + 2)"

lemma reflects_checkpoint_irrelevant [simp]:
  "reflects hist k (s\<lparr>checkpoint_store := c\<rparr>) = reflects hist k s"
  by (simp add: reflects_def load_or_init_state_def)

lemma offset_of_save [simp]:
  "load_offset (save_offset c w off) w = off"
  by (simp add: load_offset_def save_offset_def)

lemma deliver_on_track:
  assumes hist: "accepted_log hist" and s: "on_track w hist k s"
    and j: "j < length hist" "int j \<le> offset_of s + 1"
  shows "\<exists>k' s' res. process_record s (record_at hist j) = (s', Inr res) \<and> on_track w hist k' s'
    \<and> (int j = offset_of s + 1 \<longrightarrow> offset_of s' = int j \<and> k' = Suc j)
    \<and> (\<exists>k''. on_track w hist k'' (s'\<lparr>checkpoint_store := checkpoint_store s\<rparr>))"
proof (cases "j < k")
  case True
  from s have r: "reflects hist k s" and w: "worker_name s = w" by (simp_all add: on_track_def)
  from process_reflected [OF hist r True] obtain res where res: "process_record s (record_at hist j) =
      ((if int j \<le> offset_of s then s
        else s\<lparr>checkpoint_store := save_offset (checkpoint_store s) (worker_name s) (int j)\<rparr>), Inr res)"
    by blast
  let ?s' = "(if int j \<le> offset_of s then s
        else s\<lparr>checkpoint_store := save_offset (checkpoint_store s) (worker_name s) (int j)\<rparr>)"
  from s j True have "on_track w hist k ?s'" "on_track w hist k (?s'\<lparr>checkpoint_store := checkpoint_store s\<rparr>)"
    "int j = offset_of s + 1 \<longrightarrow> offset_of ?s' = int j \<and> k = Suc j"
    by (auto simp: on_track_def)
  with res show ?thesis by blast
next
  case False
  with s j have jk: "j = k" "offset_of s < int k" "int k = offset_of s + 1" and r: "reflects hist k s"
    by (auto simp: on_track_def)
  from j(1) jk have k: "k < length hist" by simp
  obtain st res where p: "process_record s (record_at hist k) =
      (s\<lparr>projection_store := save_state (projection_store s) st,
         checkpoint_store := save_offset (checkpoint_store s) (worker_name s) (int k)\<rparr>, Inr res)"
    and ref: "reflects hist (Suc k) (s\<lparr>projection_store := save_state (projection_store s) st,
         checkpoint_store := checkpoint_store s\<rparr>)"
    by (rule process_next [OF hist r k jk(2), of "checkpoint_store s"]) blast
  let ?s' = "s\<lparr>projection_store := save_state (projection_store s) st,
         checkpoint_store := save_offset (checkpoint_store s) (worker_name s) (int k)\<rparr>"
  from ref have ref': "reflects hist (Suc k) ?s'"
    by (simp add: reflects_def load_or_init_state_def)
  from s ref ref' jk have "on_track w hist (Suc k) ?s'" "offset_of ?s' = int j \<and> Suc k = Suc j"
    "on_track w hist (Suc k) (?s'\<lparr>checkpoint_store := checkpoint_store s\<rparr>)"
    by (simp_all add: on_track_def)
  with p jk(1) show ?thesis by blast
qed

lemma run_on_track:
  assumes "worker_run w hist s" and "accepted_log hist"
  shows "\<exists>k. on_track w hist k s"
  using assms(1)
proof (induction rule: worker_run.induct)
  case start
  have "reflects hist 0 \<lparr>worker_name = w, projection_store = \<lparr>ps_states = Map.empty\<rparr>,
            checkpoint_store = \<lparr>cs_offsets = Map.empty\<rparr>\<rparr>"
    by (simp add: reflects_def project_def load_or_init_state_def load_state_def)
  then show ?case by (intro exI [of _ 0]) (simp add: on_track_def load_offset_def)
next
  case (deliver s j)
  then obtain k where "on_track w hist k s" by blast
  from deliver_on_track [OF assms(2) this deliver(2,3)] show ?case by auto
next
  case (stop_between_writes s j)
  then obtain k where "on_track w hist k s" by blast
  from deliver_on_track [OF assms(2) this stop_between_writes(2,3)] show ?case by auto
qed

lemma catch_up:
  assumes "accepted_log hist" and "on_track w hist k s" and "offset_of s + 1 = int j" and "j \<le> length hist"
  shows "\<exists>s' results k'. worker_replay s (map (record_at hist) [j..<length hist]) = (s', Inr results)
    \<and> on_track w hist k' s' \<and> offset_of s' + 1 = int (length hist)"
  using assms(2-4)
proof (induction "length hist - j" arbitrary: s k j)
  case 0
  then show ?case by auto
next
  case (Suc n)
  then have j: "j < length hist" "int j \<le> offset_of s + 1" by simp_all
  from deliver_on_track [OF assms(1) Suc.prems(1) j] Suc.prems(2)
  obtain k' s' res where d: "process_record s (record_at hist j) = (s', Inr res)" "on_track w hist k' s'"
    "offset_of s' = int j" by auto
  from Suc.hyps(2) j(1) have n: "n = length hist - Suc j" by simp
  from Suc.hyps(1) [OF n d(2)] d(3) j(1) obtain s'' results k''
    where "worker_replay s' (map (record_at hist) [Suc j..<length hist]) = (s'', Inr results)"
      "on_track w hist k'' s''" "offset_of s'' + 1 = int (length hist)" by auto
  with d(1) j(1) show ?case by (auto simp: upt_conv_Cons)
qed

section \<open>Properties\<close>

text \<open>
  C22: Read side and write side agree. On every legal history the reducer runs without an
  exception and yields exactly the order identity, status, amounts and version of the aggregate
  that the write side rehydrates from the same events.
\<close>

theorem projection_equals_rehydration:
  assumes "legal_history oid es"
  shows "\<exists>a. rehydrate oid es = Inr a \<and>
    fold_res reduce_order_event (build_empty_projection_state oid) es
      = Inr \<lparr>st_order_id = oid, st_status = status a, st_total_amount = total_amount a,
             st_paid_amount = paid_amount a, st_version = int (length es)\<rparr>"
proof -
  obtain a where "rehydrate oid es = Inr a" "project oid es = Inr (state_of a)"
    by (rule project_legal_history [OF assms])
  moreover obtain b where "rehydrate oid es = Inr b" "agg_order_id b = oid" "current_version b = int (length es)"
    by (rule legal_history_replay [OF assms])
  ultimately show ?thesis by (auto simp: project_def)
qed

lemma sample_legal: "legal_history ''o1'' [sample_created]"
  by (simp add: sample_defs money_eval py_blank_iff py_isspace_def OrderAggregate_init_def
      legal_candidate_def aggregate_apply_def proof_of_def)

theorem projection_equals_rehydration_witness:
  "\<exists>a. rehydrate ''o1'' [sample_created] = Inr a \<and>
    fold_res reduce_order_event (build_empty_projection_state ''o1'') [sample_created]
      = Inr \<lparr>st_order_id = ''o1'', st_status = status a, st_total_amount = total_amount a,
             st_paid_amount = paid_amount a, st_version = 1\<rparr>"
  using projection_equals_rehydration [OF sample_legal] by simp

text \<open>
  C20: Projection under redelivery and crashes. Whatever sequence of redeliveries and of stops
  between the two writes a worker went through, its stored states are the projection of a prefix
  of the accepted log that is the checkpointed prefix or one event longer, and no delivery ever
  raises; replaying the records from the checkpoint onwards then brings it to the projection of
  the whole log.
\<close>

theorem worker_survives_redelivery:
  assumes "worker_run w hist s" and "accepted_log hist"
  shows "\<exists>k. reflects hist k s \<and> (int k = offset_of s + 1 \<or> int k = offset_of s + 2)
    \<and> (\<forall>j < length hist. int j \<le> offset_of s + 1 \<longrightarrow>
         (\<exists>res. snd (process_record s (record_at hist j)) = Inr res))
    \<and> (\<exists>s' results. worker_replay s (map (record_at hist) [nat (offset_of s + 1)..<length hist]) = (s', Inr results)
         \<and> reflects hist (length hist) s' \<and> offset_of s' = int (length hist) - 1)"
proof -
  from run_on_track [OF assms] obtain k where k: "on_track w hist k s" by blast
  have "\<exists>res. snd (process_record s (record_at hist j)) = Inr res"
    if "j < length hist" "int j \<le> offset_of s + 1" for j
    using deliver_on_track [OF assms(2) k that] by auto
  moreover have "offset_of s + 1 = int (nat (offset_of s + 1))" "nat (offset_of s + 1) \<le> length hist"
    using k by (auto simp: on_track_def reflects_def)
  from catch_up [OF assms(2) k this] obtain s' results k' where c:
    "worker_replay s (map (record_at hist) [nat (offset_of s + 1)..<length hist]) = (s', Inr results)"
    "on_track w hist k' s'" "offset_of s' + 1 = int (length hist)" by blast
  moreover from c(2,3) have "k' = length hist" by (auto simp: on_track_def reflects_def)
  ultimately show ?thesis using k by (intro exI [of _ k]) (auto simp: on_track_def)
qed

theorem worker_survives_redelivery_witness:
  "\<exists>s' results. worker_replay \<lparr>worker_name = ''w'', projection_store = \<lparr>ps_states = Map.empty\<rparr>,
      checkpoint_store = \<lparr>cs_offsets = Map.empty\<rparr>\<rparr> (map (record_at [sample_created]) [0..<1]) = (s', Inr results)
     \<and> reflects [sample_created] 1 s'"
proof -
  have "accepted_log [sample_created]"
    using sample_legal by (simp add: accepted_log_def sample_created_def del: legal_history.simps)
  from worker_survives_redelivery [OF worker_run.start this, of "''w''"] show ?thesis
    by (auto simp: load_offset_def)
qed

end
