(* ===== verification/Postgres_Store.thy ===== *)
theory Postgres_Store
  imports Projection
begin

text \<open>
  The durable write-side stores: \<open>src/storage/postgres_event_store.py\<close>,
  \<open>src/storage/order_event_hydration.py\<close> and \<open>src/storage/postgres_idempotency_store.py\<close>, over the
  tables of \<open>db/migrations/001_create_write_side_tables.sql\<close>.

  A connection (\<open>pg_conn\<close>) sees the committed tables and its own uncommitted rows, as a
  READ COMMITTED session does. What other sessions and the server do is data: \<open>schedule\<close> holds
  one item per statement still to come, a commit by other sessions that becomes visible before
  the statement, a failure of the statement, a lost acknowledgement of a commit, or a busy
  advisory lock. Other sessions follow the same protocol: their commit takes effect only if it
  respects the table constraints (also against this session's pending rows, on which the unique
  indexes hold locks) and leaves a legal database. The theorems then show that this session
  commits only such changes itself.
  The three JSON columns and the time stamps of the tables are written and never read back by
  the modelled code; they are left out. UUID input is modelled for the hyphenated spelling that
  \<open>str(uuid.uuid4())\<close> produces.
\<close>

section \<open>Columns\<close>

definition is_hex :: "char \<Rightarrow> bool" where
  "is_hex c \<longleftrightarrow> is_digit c \<or> c \<in> set ''abcdef''"

definition uuid_in :: "string \<Rightarrow> string option" where
  "uuid_in s =
     (let t = map lower_char s
      in if length t = 36 \<and> list_all (\<lambda>(i, c). if i \<in> {8, 13, 18, 23} then c = CHR ''-'' else is_hex c)
                               (zip [0..<36] t)
         then Some t else None)"

definition int4_in :: "int \<Rightarrow> int option" where
  "int4_in i = (if - (2 ^ 31) \<le> i \<and> i < 2 ^ 31 then Some i else None)"

definition int8_in :: "int \<Rightarrow> int option" where
  "int8_in i = (if - (2 ^ 63) \<le> i \<and> i < 2 ^ 63 then Some i else None)"

definition text_in :: "string \<Rightarrow> string option" where
  "text_in s = (if CHR 0x00 \<in> set s then None else Some s)"

text \<open>\<open>NUMERIC(18, 2)\<close>: rounded to two decimals, ties away from zero; out of range from \<open>10^16\<close> on.\<close>

fun numeric_18_2_in :: "decimal \<Rightarrow> decimal option" where
  "numeric_18_2_in (Dec s c e) =
     (let c' = (if - 2 \<le> e then c * 10 ^ nat (e + 2)
                else (2 * c + 10 ^ nat (- 2 - e)) div (2 * 10 ^ nat (- 2 - e)))
      in if c' < 10 ^ 18 then Some (Dec (s \<and> c' \<noteq> 0) c' (- 2)) else None)"
| "numeric_18_2_in (Infinity s) = None"
| "numeric_18_2_in NaN = Some NaN"

definition column :: "'a option \<Rightarrow> 'a res" where
  "column v = (case v of None \<Rightarrow> Inl (DatabaseError ''invalid input for column'') | Some x \<Rightarrow> Inr x)"

lemma column_simps [simp]: "column (Some x) = Inr x" "column None = Inl (DatabaseError ''invalid input for column'')"
  by (simp_all add: column_def)

lemma column_eq_Inr [res_simps]: "column v = Inr x \<longleftrightarrow> v = Some x"
  by (cases v) simp_all

section \<open>Rows\<close>

record order_event_row =
  col_accepted_event_id :: string
  col_order_id :: string
  col_sequence :: int
  col_event_type :: string
  col_request_id :: string
  col_amount :: decimal
  col_occurred_at_ms :: int
  col_proof_prev_event_id :: "string option"
  col_proof_prev_version :: int
  col_proof_prev_status :: string

definition row_to_order_event :: "order_event_row \<Rightarrow> OrderEvent res" where
  "row_to_order_event row =
     bind_res (EventType_of (col_event_type row)) (\<lambda>event_type.
     bind_res (OrderStatus_of (col_proof_prev_status row)) (\<lambda>claimed_status.
       Inr \<lparr>ev_event_id = col_accepted_event_id row, ev_request_id = col_request_id row,
            ev_order_id = col_order_id row, ev_sequence = col_sequence row, ev_event_type = event_type,
            ev_amount = col_amount row, ev_occurred_at_ms = col_occurred_at_ms row,
            ev_proof = \<lparr>prev_status = claimed_status, prev_version = col_proof_prev_version row,
                        prev_event_id = col_proof_prev_event_id row\<rparr>\<rparr>))"

text \<open>The parameters of the INSERT statement after conversion to the column types, and the CHECK
  constraints of the table.\<close>

definition event_to_row :: "OrderEvent \<Rightarrow> order_event_row res" where
  "event_to_row e =
     bind_res (column (uuid_in (ev_event_id e))) (\<lambda>accepted_event_id.
     bind_res (column (text_in (ev_order_id e))) (\<lambda>order_id.
     bind_res (column (int4_in (ev_sequence e))) (\<lambda>sequence.
     bind_res (column (text_in (ev_request_id e))) (\<lambda>request_id.
     bind_res (column (numeric_18_2_in (ev_amount e))) (\<lambda>amount.
     bind_res (column (int8_in (ev_occurred_at_ms e))) (\<lambda>occurred_at_ms.
     bind_res (case prev_event_id (ev_proof e) of
                 None \<Rightarrow> Inr None
               | Some p \<Rightarrow> bind_res (column (uuid_in p)) (\<lambda>q. Inr (Some q))) (\<lambda>proof_prev_event_id.
     bind_res (column (int4_in (prev_version (ev_proof e)))) (\<lambda>proof_prev_version.
       Inr \<lparr>col_accepted_event_id = accepted_event_id, col_order_id = order_id, col_sequence = sequence,
            col_event_type = EventType_value (ev_event_type e), col_request_id = request_id,
            col_amount = amount, col_occurred_at_ms = occurred_at_ms,
            col_proof_prev_event_id = proof_prev_event_id, col_proof_prev_version = proof_prev_version,
            col_proof_prev_status = OrderStatus_value (prev_status (ev_proof e))\<rparr>))))))))"

definition event_row_checks :: "order_event_row \<Rightarrow> bool" where
  "event_row_checks row \<longleftrightarrow>
     0 < col_sequence row \<and> col_event_type row \<in> set [''CREATED'', ''PAID'']
     \<and> col_proof_prev_status row \<in> set [''INIT'', ''CREATED'', ''PAID'']
     \<and> (col_amount row = NaN \<or> dec_le (Dec False 0 0) (col_amount row))"

record idempotency_row =
  idr_request_id :: string
  idr_order_id :: string
  idr_command_type :: string
  idr_amount :: decimal
  idr_fingerprint_version :: int
  idr_semantic_fingerprint :: string
  idr_accepted_event_id :: string
  idr_result_sequence :: int
  idr_status :: string

definition idempotency_row_checks :: "idempotency_row \<Rightarrow> bool" where
  "idempotency_row_checks row \<longleftrightarrow>
     0 < idr_fingerprint_version row \<and> (\<exists>c \<in> set (idr_semantic_fingerprint row). c \<noteq> CHR '' '')
     \<and> 0 < idr_result_sequence row \<and> idr_status row = ''SUCCEEDED''
     \<and> idr_command_type row \<in> set [''create'', ''pay'']
     \<and> (idr_amount row = NaN \<or> dec_le (Dec False 0 0) (idr_amount row))"

section \<open>Database and connection\<close>

record db =
  order_events :: "order_event_row list"
  idempotency_records :: "idempotency_row list"

abbreviation empty_db :: db where
  "empty_db \<equiv> \<lparr>order_events = [], idempotency_records = []\<rparr>"

definition db_plus :: "db \<Rightarrow> db \<Rightarrow> db" where
  "db_plus d e = \<lparr>order_events = order_events d @ order_events e,
     idempotency_records = idempotency_records d @ idempotency_records e\<rparr>"

text \<open>A stored row holds values of its column types: reading it back and writing the event again
  gives the same row.\<close>

definition event_row_typed :: "order_event_row \<Rightarrow> bool" where
  "event_row_typed row =
     (case row_to_order_event row of Inl _ \<Rightarrow> False | Inr e \<Rightarrow> event_to_row e = Inr row)"

text \<open>The constraints of the two tables: column types, primary keys, the unique stream position,
  the foreign key and the CHECK clauses.\<close>

definition db_ok :: "db \<Rightarrow> bool" where
  "db_ok d \<longleftrightarrow>
     distinct (map col_accepted_event_id (order_events d))
     \<and> distinct (map (\<lambda>r. (col_order_id r, col_sequence r)) (order_events d))
     \<and> list_all (\<lambda>r. event_row_checks r \<and> event_row_typed r) (order_events d)
     \<and> distinct (map idr_request_id (idempotency_records d))
     \<and> list_all idempotency_row_checks (idempotency_records d)
     \<and> list_all (\<lambda>i. idr_accepted_event_id i \<in> set (map col_accepted_event_id (order_events d)))
         (idempotency_records d)"

text \<open>\<open>SELECT ... WHERE order_id = x ORDER BY sequence\<close>.\<close>

definition stream_rows :: "db \<Rightarrow> string \<Rightarrow> order_event_row list" where
  "stream_rows d order_id = sort_key col_sequence (filter (\<lambda>r. col_order_id r = order_id) (order_events d))"

text \<open>The accepted history a reader of the tables reconstructs.\<close>

definition history :: "db \<Rightarrow> string \<Rightarrow> OrderEvent list" where
  "history d order_id =
     (case map_res row_to_order_event (stream_rows d order_id) of Inl _ \<Rightarrow> [] | Inr es \<Rightarrow> es)"

section \<open>Semantic fingerprints\<close>

definition FINGERPRINT_VERSION :: int where
  "FINGERPRINT_VERSION = 1"

definition build_semantic_fingerprint :: "RequestSignature \<Rightarrow> string res" where
  "build_semantic_fingerprint signature =
     bind_res (money_to_storage_string (MDecimal (sig_amount signature))) (\<lambda>amount.
       Inr (py_join ''|'' [''v'' @ show_int FINGERPRINT_VERSION,
              CommandType_value (sig_command_type signature), sig_order_id signature, amount]))"

text \<open>The columns of the JOIN that \<open>_load_record\<close> selects are a pair of rows.\<close>

definition row_to_idempotency_record :: "idempotency_row \<times> order_event_row \<Rightarrow> IdempotencyRecord res" where
  "row_to_idempotency_record row =
     bind_res (CommandType_of (idr_command_type (fst row))) (\<lambda>command_type.
     bind_res (row_to_order_event (snd row)) (\<lambda>accepted_event.
       Inr \<lparr>rec_signature = \<lparr>sig_request_id = idr_request_id (fst row), sig_command_type = command_type,
              sig_order_id = idr_order_id (fst row), sig_amount = idr_amount (fst row)\<rparr>,
            rec_accepted_event = accepted_event\<rparr>))"

text \<open>A database that only this write side has written: every stream is a legal history, every
  request row names an accepted event of that request and order and carries the fingerprint of
  its own signature, and every event is remembered.\<close>

definition request_row_ok :: "db \<Rightarrow> idempotency_row \<Rightarrow> bool" where
  "request_row_ok d i \<longleftrightarrow>
     (\<exists>r \<in> set (order_events d). col_accepted_event_id r = idr_accepted_event_id i
        \<and> col_request_id r = idr_request_id i \<and> col_order_id r = idr_order_id i)
     \<and> idr_fingerprint_version i = FINGERPRINT_VERSION
     \<and> (case CommandType_of (idr_command_type i) of
          Inl _ \<Rightarrow> False
        | Inr c \<Rightarrow> build_semantic_fingerprint
            \<lparr>sig_request_id = idr_request_id i, sig_command_type = c, sig_order_id = idr_order_id i,
             sig_amount = idr_amount i\<rparr> = Inr (idr_semantic_fingerprint i))"

definition event_remembered :: "db \<Rightarrow> order_event_row \<Rightarrow> bool" where
  "event_remembered d r \<longleftrightarrow>
     (\<exists>i \<in> set (idempotency_records d). idr_accepted_event_id i = col_accepted_event_id r
        \<and> idr_request_id i = col_request_id r)"

definition legal_db :: "db \<Rightarrow> bool" where
  "legal_db d \<longleftrightarrow> db_ok d
     \<and> (\<forall>r \<in> set (order_events d). legal_history (col_order_id r) (history d (col_order_id r)) \<and> event_remembered d r)
     \<and> (\<forall>i \<in> set (idempotency_records d). request_row_ok d i)"

section \<open>Connections and statements\<close>

datatype server_event =
    Quiet
  | Other_commit db
  | Statement_fails exc
  | Ack_lost exc
  | Lock_busy

record pg_conn =
  committed :: db
  own :: db
  schedule :: "server_event list"
  autocommit :: bool

definition visible :: "pg_conn \<Rightarrow> db" where
  "visible c = db_plus (committed c) (own c)"

definition take_event :: "pg_conn \<Rightarrow> pg_conn \<times> server_event" where
  "take_event c = (case schedule c of [] \<Rightarrow> (c, Quiet) | v # vs \<Rightarrow> (c\<lparr>schedule := vs\<rparr>, v))"

definition foreign_commit :: "pg_conn \<Rightarrow> db \<Rightarrow> pg_conn" where
  "foreign_commit c delta =
     (let d = db_plus (committed c) delta
      in if legal_db d \<and> db_ok (db_plus d (own c)) then c\<lparr>committed := d\<rparr> else c)"

text \<open>What happens before a statement reads or writes the tables.\<close>

definition statement :: "pg_conn \<Rightarrow> pg_conn \<times> unit res" where
  "statement c =
     (case take_event c of
        (c1, Statement_fails x) \<Rightarrow> (c1, Inl x)
      | (c1, Ack_lost x) \<Rightarrow> (c1, Inl x)
      | (c1, Other_commit delta) \<Rightarrow> (foreign_commit c1 delta, Inr ())
      | (c1, _) \<Rightarrow> (c1, Inr ()))"

definition stage :: "pg_conn \<Rightarrow> db \<Rightarrow> pg_conn" where
  "stage c delta =
     (if autocommit c then c\<lparr>committed := db_plus (committed c) delta\<rparr>
      else c\<lparr>own := db_plus (own c) delta\<rparr>)"

definition insert_event_row :: "pg_conn \<Rightarrow> order_event_row \<Rightarrow> pg_conn \<times> unit res" where
  "insert_event_row c row =
     (if \<not> event_row_checks row then (c, Inl (DatabaseError ''check constraint of order_events''))
      else if col_accepted_event_id row \<in> set (map col_accepted_event_id (order_events (visible c)))
      then (c, Inl (UniqueViolation (Some ''order_events_pkey'') ''duplicate key value''))
      else if (col_order_id row, col_sequence row)
                \<in> set (map (\<lambda>r. (col_order_id r, col_sequence r)) (order_events (visible c)))
      then (c, Inl (UniqueViolation (Some ''uq_order_events_order_id_sequence'') ''duplicate key value''))
      else (stage c \<lparr>order_events = [row], idempotency_records = []\<rparr>, Inr ()))"

definition insert_idempotency_row :: "pg_conn \<Rightarrow> idempotency_row \<Rightarrow> pg_conn \<times> unit res" where
  "insert_idempotency_row c row =
     (if \<not> idempotency_row_checks row
      then (c, Inl (DatabaseError ''check constraint of idempotency_records''))
      else if idr_request_id row \<in> set (map idr_request_id (idempotency_records (visible c)))
      then (c, Inl (UniqueViolation (Some ''idempotency_records_pkey'') ''duplicate key value''))
      else if idr_accepted_event_id row \<notin> set (map col_accepted_event_id (order_events (visible c)))
      then (c, Inl (DatabaseError ''fk_idempotency_accepted_event''))
      else (stage c \<lparr>order_events = [], idempotency_records = [row]\<rparr>, Inr ()))"

definition conn_rollback :: "pg_conn \<Rightarrow> pg_conn" where
  "conn_rollback c = c\<lparr>own := empty_db\<rparr>"

text \<open>A commit may fail, or take effect without the session hearing of it.\<close>

definition conn_commit :: "pg_conn \<Rightarrow> pg_conn \<times> unit res" where
  "conn_commit c =
     (case take_event c of
        (c1, Statement_fails x) \<Rightarrow> (c1\<lparr>own := empty_db\<rparr>, Inl x)
      | (c1, Ack_lost x) \<Rightarrow> (c1\<lparr>committed := visible c1, own := empty_db\<rparr>, Inl x)
      | (c1, Other_commit delta) \<Rightarrow>
          (let c2 = foreign_commit c1 delta in (c2\<lparr>committed := visible c2, own := empty_db\<rparr>, Inr ()))
      | (c1, _) \<Rightarrow> (c1\<lparr>committed := visible c1, own := empty_db\<rparr>, Inr ()))"

section \<open>PostgresEventStore\<close>

definition sql_max :: "int list \<Rightarrow> int option" where
  "sql_max xs = (case xs of [] \<Rightarrow> None | y # ys \<Rightarrow> Some (fold max ys y))"

definition pg_current_version :: "pg_conn \<Rightarrow> string \<Rightarrow> pg_conn \<times> int res" where
  "pg_current_version c order_id =
     (case statement c of
        (c1, Inl x) \<Rightarrow> (c1, Inl x)
      | (c1, Inr _) \<Rightarrow>
          (c1, Inr (case sql_max (map col_sequence
                       (filter (\<lambda>r. col_order_id r = order_id) (order_events (visible c1)))) of
                      None \<Rightarrow> 0 | Some m \<Rightarrow> m)))"

definition pg_append :: "pg_conn \<Rightarrow> OrderEvent \<Rightarrow> int \<Rightarrow> pg_conn \<times> unit res" where
  "pg_append c candidate_event expected =
     (case pg_current_version c (ev_order_id candidate_event) of
        (c1, Inl x) \<Rightarrow> (c1, Inl x)
      | (c1, Inr current_version_in_store) \<Rightarrow>
          if current_version_in_store \<noteq> expected
          then (c1, Inl (AppendVersionMismatchError expected current_version_in_store))
          else let expected_new_sequence = expected + 1
          in if ev_sequence candidate_event \<noteq> expected_new_sequence
          then (c1, Inl (ValueError (''Append-time continuity broken: expected event sequence ''
                  @ show_int expected_new_sequence @ '', but event contains sequence ''
                  @ show_int (ev_sequence candidate_event))))
          else case statement c1 of
            (c2, Inl x) \<Rightarrow> (c2, Inl x)
          | (c2, Inr _) \<Rightarrow>
              (case event_to_row candidate_event of
                 Inl x \<Rightarrow> (c2, Inl x)
               | Inr row \<Rightarrow> insert_event_row c2 row))"

definition pg_load :: "pg_conn \<Rightarrow> string \<Rightarrow> pg_conn \<times> OrderEvent list res" where
  "pg_load c order_id =
     (case statement c of
        (c1, Inl x) \<Rightarrow> (c1, Inl x)
      | (c1, Inr _) \<Rightarrow> (c1, map_res row_to_order_event (stream_rows (visible c1) order_id)))"

definition pg_last_event :: "pg_conn \<Rightarrow> string \<Rightarrow> pg_conn \<times> OrderEvent option res" where
  "pg_last_event c order_id =
     (case statement c of
        (c1, Inl x) \<Rightarrow> (c1, Inl x)
      | (c1, Inr _) \<Rightarrow>
          (c1, case stream_rows (visible c1) order_id of
                 [] \<Rightarrow> Inr None
               | rows \<Rightarrow> bind_res (row_to_order_event (last rows)) (\<lambda>e. Inr (Some e))))"

section \<open>PostgresIdempotencyStore\<close>

definition load_record :: "db \<Rightarrow> string \<Rightarrow> (idempotency_row \<times> order_event_row) option" where
  "load_record d request_id =
     (case [(i, e). i \<leftarrow> filter (\<lambda>i. idr_request_id i = request_id) (idempotency_records d),
                    e \<leftarrow> filter (\<lambda>e. col_accepted_event_id e = idr_accepted_event_id i) (order_events d)] of
        [] \<Rightarrow> None | row # _ \<Rightarrow> Some row)"

definition classify_request :: "db \<Rightarrow> RequestSignature \<Rightarrow> IdempotencyDecision res" where
  "classify_request d signature =
     (case load_record d (sig_request_id signature) of
        None \<Rightarrow> Inr \<lparr>id_verdict = MISS, id_reason = ''No prior request with this request_id'', id_record = None\<rparr>
      | Some existing \<Rightarrow>
          bind_res (build_semantic_fingerprint signature) (\<lambda>expected_fingerprint.
          bind_res (row_to_idempotency_record existing) (\<lambda>record.
            if idr_fingerprint_version (fst existing) = FINGERPRINT_VERSION
               \<and> idr_semantic_fingerprint (fst existing) = expected_fingerprint
            then Inr \<lparr>id_verdict = REPLAY, id_reason = ''Semantically identical retry detected'',
                      id_record = Some record\<rparr>
            else Inr \<lparr>id_verdict = CONFLICT, id_reason = ''Same request_id reused with different payload'',
                      id_record = Some record\<rparr>)))"

definition pg_check :: "pg_conn \<Rightarrow> RequestSignature \<Rightarrow> pg_conn \<times> IdempotencyDecision res" where
  "pg_check c signature =
     (case statement c of
        (c1, Inl x) \<Rightarrow> (c1, Inl x)
      | (c1, Inr _) \<Rightarrow> (c1, classify_request (visible c1) signature))"

definition record_parameters :: "RequestSignature \<Rightarrow> (decimal \<times> string) res" where
  "record_parameters signature =
     bind_res (money_to_storage_string (MDecimal (sig_amount signature))) (\<lambda>text.
     bind_res (case decimal_of_string text of
                 None \<Rightarrow> Inl (InvalidOperation ''ConversionSyntax'') | Some d \<Rightarrow> Inr d) (\<lambda>amount.
     bind_res (build_semantic_fingerprint signature) (\<lambda>fingerprint. Inr (amount, fingerprint))))"

definition idempotency_row_of ::
  "RequestSignature \<Rightarrow> OrderEvent \<Rightarrow> decimal \<Rightarrow> string \<Rightarrow> idempotency_row res" where
  "idempotency_row_of signature accepted_event amount fingerprint =
     bind_res (column (text_in (sig_request_id signature))) (\<lambda>request_id.
     bind_res (column (text_in (sig_order_id signature))) (\<lambda>order_id.
     bind_res (column (numeric_18_2_in amount)) (\<lambda>stored_amount.
     bind_res (column (text_in fingerprint)) (\<lambda>semantic_fingerprint.
     bind_res (column (uuid_in (ev_event_id accepted_event))) (\<lambda>accepted_event_id.
     bind_res (column (int4_in (ev_sequence accepted_event))) (\<lambda>result_sequence.
       Inr \<lparr>idr_request_id = request_id, idr_order_id = order_id,
            idr_command_type = CommandType_value (sig_command_type signature), idr_amount = stored_amount,
            idr_fingerprint_version = FINGERPRINT_VERSION,
            idr_semantic_fingerprint = semantic_fingerprint, idr_accepted_event_id = accepted_event_id,
            idr_result_sequence = result_sequence, idr_status = ''SUCCEEDED''\<rparr>))))))"

definition pg_record :: "pg_conn \<Rightarrow> RequestSignature \<Rightarrow> OrderEvent \<Rightarrow> pg_conn \<times> unit res" where
  "pg_record c signature accepted_event =
     (case record_parameters signature of
        Inl x \<Rightarrow> (c, Inl x)
      | Inr (amount, fingerprint) \<Rightarrow>
          (case statement c of
             (c1, Inl x) \<Rightarrow> (c1, Inl x)
           | (c1, Inr _) \<Rightarrow>
               (case idempotency_row_of signature accepted_event amount fingerprint of
                  Inl x \<Rightarrow> (c1, Inl x)
                | Inr row \<Rightarrow> insert_idempotency_row c1 row)))"

section \<open>Column conversions\<close>

lemma lower_char_idem: "lower_char (lower_char c) = lower_char c"
  by (auto simp: lower_char_def Let_def split: if_splits)

lemma uuid_in_idem:
  assumes "uuid_in s = Some t"
  shows "uuid_in t = Some t"
proof -
  have "uuid_in (map lower_char s) = uuid_in s"
    by (simp add: uuid_in_def o_def lower_char_idem)
  moreover from assms have "t = map lower_char s" by (simp add: uuid_in_def Let_def split: if_splits)
  ultimately show ?thesis using assms by simp
qed

lemma column_in_id:
  "int4_in i = Some j \<Longrightarrow> j = i" "int8_in k = Some l \<Longrightarrow> l = k" "text_in s = Some t \<Longrightarrow> t = s"
  by (auto simp: int4_in_def int8_in_def text_in_def split: if_splits)

lemma numeric_in_canonical:
  "canonical_amount d \<Longrightarrow> numeric_18_2_in d = Some x \<Longrightarrow> x = d"
  by (cases d) (auto simp: Let_def split: if_splits)

definition storable :: "OrderEvent \<Rightarrow> bool" where
  "storable e \<longleftrightarrow> uuid_in (ev_event_id e) = Some (ev_event_id e) \<and> canonical_amount (ev_amount e)
     \<and> (\<forall>p. prev_event_id (ev_proof e) = Some p \<longrightarrow> uuid_in p = Some p)"

lemma event_row_roundtrip:
  assumes "storable e" and "event_to_row e = Inr row"
  shows "row_to_order_event row = Inr e"
  using assms
  by (auto simp: storable_def event_to_row_def row_to_order_event_def res_simps
      dest!: column_in_id numeric_in_canonical split: option.splits)

lemma event_row_fields:
  assumes "storable e" and "event_to_row e = Inr row"
  shows "col_accepted_event_id row = ev_event_id e" "col_order_id row = ev_order_id e"
    "col_sequence row = ev_sequence e" "col_request_id row = ev_request_id e" "event_row_typed row"
  using event_row_roundtrip [OF assms] assms(2)
  by (auto simp: row_to_order_event_def res_simps event_row_typed_def)

section \<open>Histories of a database\<close>

definition event_of :: "order_event_row \<Rightarrow> OrderEvent" where
  "event_of r = (case row_to_order_event r of Inr e \<Rightarrow> e | Inl _ \<Rightarrow> undefined)"

lemma typed_row_event:
  assumes "event_row_typed r"
  shows "row_to_order_event r = Inr (event_of r)" "event_to_row (event_of r) = Inr r"
    "ev_sequence (event_of r) = col_sequence r" "ev_order_id (event_of r) = col_order_id r"
    "ev_event_id (event_of r) = col_accepted_event_id r" "ev_request_id (event_of r) = col_request_id r"
  using assms
  by (auto simp: event_row_typed_def event_of_def row_to_order_event_def res_simps split: sum.splits)

lemma typed_uuid:
  assumes "event_row_typed r"
  shows "uuid_in (ev_event_id (event_of r)) = Some (ev_event_id (event_of r))"
proof -
  have "uuid_in (ev_event_id e) = Some (col_accepted_event_id r)" if "event_to_row e = Inr r" for e
    using that by (auto simp: event_to_row_def res_simps)
  from this [OF typed_row_event(2) [OF assms]] typed_row_event(5) [OF assms] show ?thesis by simp
qed

lemma uuid_not_blank:
  assumes "uuid_in s = Some s"
  shows "\<not> py_blank s"
proof -
  let ?P = "\<lambda>(i :: nat, c). if i \<in> {8, 13, 18, 23} then c = CHR ''-'' else is_hex c"
  have t: "length s = 36 \<and> list_all ?P (zip [0..<36] s)"
  proof (cases "length s = 36 \<and> list_all ?P (zip [0..<36] (map lower_char s))")
    case True
    with assms have "map lower_char s = s" by (simp add: uuid_in_def Let_def)
    with True show ?thesis by simp
  next
    case False
    then have "uuid_in s = None" unfolding uuid_in_def Let_def length_map by (rule if_not_P)
    with assms show ?thesis by simp
  qed
  then have "(8, s ! 8) \<in> set (zip [0..<36] s)" by (auto simp: set_zip intro!: exI [of _ 8])
  with t have "?P (8, s ! 8)" unfolding list_all_iff by blast
  then have "s ! 8 = CHR ''-''" by simp
  moreover from t have "s ! 8 \<in> set s" by simp
  moreover have "\<not> py_isspace (CHR ''-'')" by (simp add: py_isspace_def)
  ultimately show ?thesis unfolding py_blank_iff by metis
qed

lemma stream_rows_set: "set (stream_rows d oid) = {r \<in> set (order_events d). col_order_id r = oid}"
  by (auto simp: stream_rows_def)

lemma history_map:
  assumes "db_ok d"
  shows "map_res row_to_order_event (stream_rows d oid) = Inr (map event_of (stream_rows d oid))"
    and "history d oid = map event_of (stream_rows d oid)"
proof -
  show *: "map_res row_to_order_event (stream_rows d oid) = Inr (map event_of (stream_rows d oid))"
    using assms by (intro map_res_total typed_row_event)
      (auto simp: db_ok_def list_all_iff stream_rows_set)
  then show "history d oid = map event_of (stream_rows d oid)" by (simp add: history_def)
qed

lemma db_ok_plus: "db_ok (db_plus d e) \<Longrightarrow> distinct (map col_accepted_event_id (order_events d))
   \<and> distinct (map (\<lambda>r. (col_order_id r, col_sequence r)) (order_events d))
   \<and> list_all (\<lambda>r. event_row_checks r \<and> event_row_typed r) (order_events d)
   \<and> distinct (map idr_request_id (idempotency_records d))"
  by (auto simp: db_ok_def db_plus_def)

lemma legal_db_history:
  assumes "legal_db d" and "\<not> py_blank oid"
  shows "legal_history oid (history d oid)"
proof (cases "stream_rows d oid")
  case Nil
  with assms show ?thesis by (simp add: history_def OrderAggregate_init_def)
next
  case (Cons r rs)
  then have "r \<in> set (stream_rows d oid)" by simp
  with assms show ?thesis
    by (auto simp: legal_db_def stream_rows_set simp del: legal_history.simps)
qed

lemma stream_sequences:
  assumes "legal_db d"
  shows "map col_sequence (stream_rows d oid) = map int [1..<Suc (length (stream_rows d oid))]"
proof (cases "stream_rows d oid")
  case (Cons r rs)
  then have "r \<in> set (stream_rows d oid)" by simp
  with assms have "legal_history oid (history d oid)"
    by (auto simp: legal_db_def stream_rows_set simp del: legal_history.simps)
  then obtain z where z: "OrderAggregate_init oid = Inr z" "legal_from z (history d oid)"
    by (auto split: sum.splits)
  from legal_from_replay [OF z(2) OrderAggregate_init_inv [OF z(1)]] obtain b
    where "fold_res aggregate_apply z (history d oid) = Inr b" by blast
  from fold_apply_version [OF this] z(1)
  have "map ev_sequence (history d oid) = map int [1..<Suc (length (history d oid))]"
    by (auto simp: OrderAggregate_init_def split: if_splits)
  moreover from assms have ok: "db_ok d" by (simp add: legal_db_def)
  then have "map ev_sequence (map event_of (stream_rows d oid)) = map col_sequence (stream_rows d oid)"
    by (auto simp: typed_row_event db_ok_def list_all_iff stream_rows_set)
  ultimately show ?thesis using ok by (simp add: history_map del: upt_Suc)
qed simp

definition contiguous_db :: "db \<Rightarrow> bool" where
  "contiguous_db d \<longleftrightarrow>
     (\<forall>oid. map col_sequence (stream_rows d oid) = map int [1..<Suc (length (stream_rows d oid))])"

lemma legal_contiguous: "legal_db d \<Longrightarrow> contiguous_db d"
  by (simp add: contiguous_db_def stream_sequences del: upt_Suc)

lemma sql_max_stream:
  assumes "contiguous_db d"
  shows "(case sql_max (map col_sequence (filter (\<lambda>r. col_order_id r = oid) (order_events d))) of
            None \<Rightarrow> 0 | Some m \<Rightarrow> m) = int (length (stream_rows d oid))"
proof -
  have fold_Max: "fold max ys y = Max (set (y # ys))" for ys and y :: int
    by (rule Max.set_eq_fold [symmetric])
  let ?xs = "map col_sequence (filter (\<lambda>r. col_order_id r = oid) (order_events d))"
  have len: "length (stream_rows d oid) = length ?xs" by (simp add: stream_rows_def)
  have "set ?xs = set (map col_sequence (stream_rows d oid))" by (auto simp: stream_rows_set)
  then have st: "set ?xs = int ` {1..length ?xs}"
    using assms unfolding contiguous_db_def by (metis len set_map set_upt atLeastLessThanSuc_atLeastAtMost)
  show ?thesis
  proof (cases ?xs)
    case Nil
    then show ?thesis by (simp add: sql_max_def len)
  next
    case (Cons y ys)
    then have "0 < length ?xs" by simp
    then have "Max (int ` {1..length ?xs}) = int (length ?xs)"
      by (intro Max_eqI imageI) (auto simp: Suc_le_eq)
    with Cons st show ?thesis by (simp add: sql_max_def fold_Max len)
  qed
qed

section \<open>Adding accepted rows\<close>

lemma insort_key_append:
  "f a \<le> f x \<Longrightarrow> insort_key f a (ys @ [x]) = insort_key f a ys @ [x]"
  by (induction ys) auto

lemma sort_key_snoc:
  "(\<And>y. y \<in> set xs \<Longrightarrow> f y \<le> f x) \<Longrightarrow> sort_key f (xs @ [x]) = sort_key f xs @ [x]"
  by (induction xs) (auto simp: insort_key_append)

lemma db_plus_sel [simp]:
  "order_events (db_plus d e) = order_events d @ order_events e"
  "idempotency_records (db_plus d e) = idempotency_records d @ idempotency_records e"
  by (simp_all add: db_plus_def)

lemma stream_rows_add:
  assumes "contiguous_db d" and "col_sequence row = int (length (stream_rows d (col_order_id row))) + 1"
  shows "stream_rows (db_plus d \<lparr>order_events = [row], idempotency_records = is\<rparr>) oid =
    (if oid = col_order_id row then stream_rows d oid @ [row] else stream_rows d oid)"
proof (cases "oid = col_order_id row")
  case True
  have "col_sequence y \<le> col_sequence row" if "y \<in> set (filter (\<lambda>r. col_order_id r = oid) (order_events d))" for y
  proof -
    from that have "y \<in> set (stream_rows d oid)" by (simp add: stream_rows_set)
    then have "col_sequence y \<in> set (map col_sequence (stream_rows d oid))" by simp
    then have "col_sequence y \<in> set (map int [1..<Suc (length (stream_rows d oid))])"
      using assms(1) unfolding contiguous_db_def by metis
    then have "col_sequence y \<le> int (length (stream_rows d oid))" by auto
    with assms(2) True show ?thesis by simp
  qed
  note snoc = sort_key_snoc [of "filter (\<lambda>r. col_order_id r = oid) (order_events d)" col_sequence row, OF this]
  with True show ?thesis by (simp add: stream_rows_def)
qed (auto simp: stream_rows_def)

lemma position_free_length:
  assumes "legal_db d0" and "legal_db d1" and "order_events d1 = order_events d0 @ xs"
    and "(oid, int (length (stream_rows d0 oid)) + 1) \<notin> (\<lambda>r. (col_order_id r, col_sequence r)) ` set (order_events d1)"
  shows "stream_rows d1 oid = stream_rows d0 oid"
proof -
  let ?n = "length (stream_rows d0 oid)" and ?m = "length (stream_rows d1 oid)"
  have len: "?m = ?n + length (filter (\<lambda>r. col_order_id r = oid) xs)"
    by (simp add: stream_rows_def assms(3))
  have "?m \<le> ?n"
  proof (rule ccontr)
    assume "\<not> ?m \<le> ?n"
    then have "int ?n + 1 \<in> set (map int [1..<Suc ?m])" by (auto simp: image_iff intro!: bexI [of _ "Suc ?n"])
    then have "int ?n + 1 \<in> set (map col_sequence (stream_rows d1 oid))"
      by (simp only: stream_sequences [OF assms(2)])
    then have "int ?n + 1 \<in> col_sequence ` {r \<in> set (order_events d1). col_order_id r = oid}"
      by (simp add: stream_rows_set)
    with assms(4) show False by (auto simp: image_iff)
  qed
  with len have "filter (\<lambda>r. col_order_id r = oid) xs = []" by simp
  then show ?thesis by (simp add: stream_rows_def assms(3))
qed

lemma record_parameters_canonical:
  assumes "ensure_positive_money (MDecimal (sig_amount sg)) = Inr n" and "record_parameters sg = Inr (amount, fp)"
  shows "amount = n" and "build_semantic_fingerprint sg = Inr fp"
    and "build_semantic_fingerprint (sg\<lparr>sig_amount := n\<rparr>) = Inr fp"
proof -
  from assms(1) have norm: "normalize_money (MDecimal (sig_amount sg)) = Inr n"
    by (auto simp: ensure_positive_money_def res_simps split: if_splits)
  have can: "canonical_amount n" by (rule ensure_positive_canonical [OF assms(1)])
  from normalize_money_shape [OF norm] obtain s c where d: "n = Dec s c (- 2)" by blast
  from assms(2) storage_string_parses(1) [OF norm] decimal_of_format_f [of "- 2" s c] d
  show "amount = n" and fp: "build_semantic_fingerprint sg = Inr fp"
    by (auto simp: record_parameters_def res_simps)
  have "normalize_money (MDecimal n) = Inr n" using can by simp
  from storage_string_parses(1) [OF this] storage_string_parses(1) [OF norm] fp
  show "build_semantic_fingerprint (sg\<lparr>sig_amount := n\<rparr>) = Inr fp"
    by (simp add: build_semantic_fingerprint_def)
qed

lemma idempotency_row_fields:
  assumes "idempotency_row_of sg e amount fp = Inr irow" and "canonical_amount amount"
    and "uuid_in (ev_event_id e) = Some (ev_event_id e)"
  shows "irow = \<lparr>idr_request_id = sig_request_id sg, idr_order_id = sig_order_id sg,
     idr_command_type = CommandType_value (sig_command_type sg), idr_amount = amount,
     idr_fingerprint_version = FINGERPRINT_VERSION, idr_semantic_fingerprint = fp,
     idr_accepted_event_id = ev_event_id e, idr_result_sequence = ev_sequence e, idr_status = ''SUCCEEDED''\<rparr>"
  using assms
  by (auto simp: idempotency_row_of_def res_simps dest!: column_in_id numeric_in_canonical)

lemma accept_rows_legal:
  assumes d: "legal_db d" and ok: "db_ok (db_plus d \<lparr>order_events = [row], idempotency_records = [irow]\<rparr>)"
    and e: "storable e" "event_to_row e = Inr row"
    and a: "rehydrate (ev_order_id e) (history d (ev_order_id e)) = Inr a" "legal_candidate a e"
      "\<not> py_blank (ev_order_id e)"
    and sg: "sig_request_id sg = ev_request_id e" "sig_order_id sg = ev_order_id e"
      "ensure_positive_money (MDecimal (sig_amount sg)) = Inr n"
      "record_parameters sg = Inr (amount, fp)" "idempotency_row_of sg e amount fp = Inr irow"
  shows "legal_db (db_plus d \<lparr>order_events = [row], idempotency_records = [irow]\<rparr>)"
    and "history (db_plus d \<lparr>order_events = [row], idempotency_records = [irow]\<rparr>) oid =
      (if oid = ev_order_id e then history d oid @ [e] else history d oid)"
proof -
  let ?d = "db_plus d \<lparr>order_events = [row], idempotency_records = [irow]\<rparr>"
  note rf = event_row_fields [OF e]
  from d have okd: "db_ok d" by (simp add: legal_db_def)
  have lh: "legal_history (ev_order_id e) (history d (ev_order_id e))" by (rule legal_db_history [OF d a(3)])
  from legal_history_replay [OF lh] a(1)
  have "current_version a = int (length (stream_rows d (ev_order_id e)))"
    by (metis history_map(2) [OF okd] length_map sum.inject(2))
  with a(2) have "col_sequence row = int (length (stream_rows d (col_order_id row))) + 1"
    by (simp add: rf legal_candidate_def)
  note sr = stream_rows_add [OF legal_contiguous [OF d] this, of "[irow]"]
  have "event_of row = e" using event_row_roundtrip [OF e] by (simp add: event_of_def)
  then show h: "history ?d oid = (if oid = ev_order_id e then history d oid @ [e] else history d oid)" for oid
    by (simp add: history_map(2) [OF ok] history_map(2) [OF okd] sr rf)
  have new: "legal_history (ev_order_id e) (history ?d (ev_order_id e))"
    unfolding h using legal_history_snoc [OF lh a(1,2)] by (simp del: legal_history.simps)
  have ir: "irow = \<lparr>idr_request_id = ev_request_id e, idr_order_id = ev_order_id e,
     idr_command_type = CommandType_value (sig_command_type sg), idr_amount = n,
     idr_fingerprint_version = FINGERPRINT_VERSION, idr_semantic_fingerprint = fp,
     idr_accepted_event_id = ev_event_id e, idr_result_sequence = ev_sequence e, idr_status = ''SUCCEEDED''\<rparr>"
    using idempotency_row_fields [OF sg(5)] record_parameters_canonical [OF sg(3,4)]
      ensure_positive_canonical [OF sg(3)] e(1) sg(1,2) by (simp add: storable_def)
  have "legal_history (col_order_id r) (history ?d (col_order_id r)) \<and> event_remembered ?d r"
    if "r \<in> set (order_events ?d)" for r
  proof (cases "r = row")
    case True
    with new ir rf show ?thesis by (simp add: event_remembered_def del: legal_history.simps)
  next
    case False
    with that have "r \<in> set (order_events d)" by simp
    with d have "legal_history (col_order_id r) (history d (col_order_id r))" "event_remembered d r"
      by (auto simp: legal_db_def simp del: legal_history.simps)
    with new h [of "col_order_id r"] show ?thesis
      by (cases "col_order_id r = ev_order_id e") (auto simp: event_remembered_def simp del: legal_history.simps)
  qed
  moreover have "request_row_ok ?d i" if "i \<in> set (idempotency_records ?d)" for i
  proof (cases "i = irow")
    case True
    have "sg\<lparr>sig_amount := n\<rparr> = \<lparr>sig_request_id = ev_request_id e, sig_command_type = sig_command_type sg,
        sig_order_id = ev_order_id e, sig_amount = n\<rparr>" using sg(1,2) by (cases sg) simp
    with True ir rf record_parameters_canonical(3) [OF sg(3,4)] show ?thesis
      by (simp add: request_row_ok_def)
  next
    case False
    with that have "i \<in> set (idempotency_records d)" by simp
    with d have "request_row_ok d i" by (simp add: legal_db_def)
    then show ?thesis by (auto simp: request_row_ok_def)
  qed
  ultimately show "legal_db ?d" using ok by (auto simp: legal_db_def simp del: legal_history.simps)
qed

section \<open>Connections\<close>

lemma db_plus_empty [simp]: "db_plus d empty_db = d" "db_plus empty_db d = d"
  by (simp_all add: db_plus_def)

lemma db_plus_assoc: "db_plus (db_plus d e) f = db_plus d (db_plus e f)"
  by (simp add: db_plus_def)

definition conn_ok :: "pg_conn \<Rightarrow> bool" where
  "conn_ok c \<longleftrightarrow> (autocommit c \<longrightarrow> own c = empty_db)"

lemma visible_stage: "conn_ok c \<Longrightarrow> visible (stage c delta) = db_plus (visible c) delta"
  by (auto simp: conn_ok_def visible_def stage_def db_plus_assoc)

lemma stage_sel [simp]: "schedule (stage c delta) = schedule c" "autocommit (stage c delta) = autocommit c"
  by (simp_all add: stage_def)

lemma conn_ok_stage: "conn_ok c \<Longrightarrow> conn_ok (stage c delta)"
  by (simp add: conn_ok_def stage_def)

lemma statement_quiet [simp]: "schedule c = [] \<Longrightarrow> statement c = (c, Inr ())"
  by (simp add: statement_def take_event_def)

lemma db_ok_add_event:
  assumes "db_ok d" and "event_row_checks row" and "event_row_typed row"
    and "col_accepted_event_id row \<notin> set (map col_accepted_event_id (order_events d))"
    and "(col_order_id row, col_sequence row) \<notin> set (map (\<lambda>r. (col_order_id r, col_sequence r)) (order_events d))"
  shows "db_ok (db_plus d \<lparr>order_events = [row], idempotency_records = []\<rparr>)"
  using assms by (auto simp: db_ok_def list_all_iff)

lemma db_ok_add_request:
  assumes "db_ok d" and "idempotency_row_checks i"
    and "idr_request_id i \<notin> set (map idr_request_id (idempotency_records d))"
    and "idr_accepted_event_id i \<in> set (map col_accepted_event_id (order_events d))"
  shows "db_ok (db_plus d \<lparr>order_events = [], idempotency_records = [i]\<rparr>)"
  using assms by (auto simp: db_ok_def list_all_iff)

lemma contiguous_add_event:
  assumes "contiguous_db d" and "col_sequence row = int (length (stream_rows d (col_order_id row))) + 1"
  shows "contiguous_db (db_plus d \<lparr>order_events = [row], idempotency_records = is\<rparr>)"
proof -
  have "map col_sequence (xs @ [row]) = map int [1..<Suc (length (xs @ [row]))]"
    if "map col_sequence xs = map int [1..<Suc (length xs)]" "xs = stream_rows d (col_order_id row)" for xs
    using that assms(2) by simp
  with assms(1) show ?thesis
    unfolding contiguous_db_def stream_rows_add [OF assms] by (simp del: upt_Suc map_append)
qed

definition log_inv :: "pg_conn \<Rightarrow> bool" where
  "log_inv c \<longleftrightarrow> schedule c = [] \<and> conn_ok c \<and> db_ok (visible c) \<and> contiguous_db (visible c)"

lemma pg_append_cases:
  assumes "log_inv c" and "storable e" and "pg_append c e v = (c', r)"
  obtains (appended) row where "r = Inr ()" and "event_to_row e = Inr row"
      and "v = int (length (stream_rows (visible c) (ev_order_id e)))" and "ev_sequence e = v + 1"
      and "visible c' = db_plus (visible c) \<lparr>order_events = [row], idempotency_records = []\<rparr>"
      and "log_inv c'"
  | (failed) x where "r = Inl x" and "c' = c"
proof -
  from assms(1) have inv: "schedule c = []" "conn_ok c" "db_ok (visible c)" "contiguous_db (visible c)"
    by (simp_all add: log_inv_def)
  have ver: "pg_current_version c (ev_order_id e) = (c, Inr (int (length (stream_rows (visible c) (ev_order_id e)))))"
    using sql_max_stream [OF inv(4), of "ev_order_id e"] by (simp add: pg_current_version_def inv(1))
  show ?thesis
  proof (cases r)
    case (Inl x)
    with assms(3) inv(1) failed show ?thesis
      by (auto simp: pg_append_def ver insert_event_row_def Let_def split: if_splits sum.splits)
  next
    case (Inr u)
    with assms(3) inv(1) obtain row where row: "event_to_row e = Inr row" "insert_event_row c row = (c', Inr ())"
      and v: "v = int (length (stream_rows (visible c) (ev_order_id e)))" "ev_sequence e = v + 1"
      by (auto simp: pg_append_def ver Let_def split: if_splits sum.splits)
    note rf = event_row_fields [OF assms(2) row(1)]
    from row(2) have ins: "event_row_checks row" "c' = stage c \<lparr>order_events = [row], idempotency_records = []\<rparr>"
      "col_accepted_event_id row \<notin> set (map col_accepted_event_id (order_events (visible c)))"
      "(col_order_id row, col_sequence row)
         \<notin> set (map (\<lambda>r. (col_order_id r, col_sequence r)) (order_events (visible c)))"
      by (auto simp: insert_event_row_def split: if_splits)
    then have vis: "visible c' = db_plus (visible c) \<lparr>order_events = [row], idempotency_records = []\<rparr>"
      by (simp add: visible_stage [OF inv(2)])
    moreover have "log_inv c'"
      using db_ok_add_event [OF inv(3) ins(1) rf(5) ins(3,4)] contiguous_add_event [OF inv(4), of row "[]"]
        vis ins(2) inv v rf by (simp add: log_inv_def conn_ok_stage)
    ultimately show ?thesis using appended row(1) v Inr by simp
  qed
qed

lemma appended_history:
  assumes "log_inv c" and "storable e" and "event_to_row e = Inr row"
    and "ev_sequence e = int (length (stream_rows (visible c) (ev_order_id e))) + 1"
    and "visible c' = db_plus (visible c) \<lparr>order_events = [row], idempotency_records = is\<rparr>" and "db_ok (visible c')"
  shows "history (visible c') oid =
    (if oid = ev_order_id e then history (visible c) oid @ [e] else history (visible c) oid)"
proof -
  from assms(1) have inv: "db_ok (visible c)" "contiguous_db (visible c)" by (simp_all add: log_inv_def)
  note rf = event_row_fields [OF assms(2,3)]
  have "event_of row = e" using event_row_roundtrip [OF assms(2,3)] by (simp add: event_of_def)
  with stream_rows_add [OF inv(2), of row "is" oid] assms(4) rf history_map(2) [OF assms(6), of oid]
    history_map(2) [OF inv(1)] assms(5)
  show ?thesis by simp
qed

interpretation pg_log: event_log log_inv storable "\<lambda>c. history (visible c)" pg_append
proof
  fix c e v c' r oid x
  assume inv: "log_inv c" and e: "storable e"
  from inv have hm: "length (history (visible c) (ev_order_id e)) = length (stream_rows (visible c) (ev_order_id e))"
    by (simp add: log_inv_def history_map(2))
  {
    assume "pg_append c e v = (c', r)"
    with inv e show "log_inv c'" by (cases rule: pg_append_cases) (use inv in simp_all)
  next
    assume "pg_append c e v = (c', Inr ())"
    with inv e show "history (visible c') oid =
        (if oid = ev_order_id e then history (visible c) oid @ [e] else history (visible c) oid)"
    proof (cases rule: pg_append_cases)
      case (appended row)
      then show ?thesis
        by (intro appended_history [OF inv e appended(2)]) (auto simp: log_inv_def)
    qed simp
  next
    assume "pg_append c e v = (c', Inr ())"
    with inv e show "v = int (length (history (visible c) (ev_order_id e))) \<and> ev_sequence e = v + 1"
      by (cases rule: pg_append_cases) (auto simp: hm)
  next
    assume "pg_append c e v = (c', Inl x)"
    with inv e show "history (visible c') oid = history (visible c) oid"
      by (cases rule: pg_append_cases) auto
  }
qed

section \<open>Request rows\<close>

lemma distinct_map_unique: "distinct (map f xs) \<Longrightarrow> x \<in> set xs \<Longrightarrow> y \<in> set xs \<Longrightarrow> f x = f y \<Longrightarrow> x = y"
  by (auto simp: distinct_map inj_on_def)

lemma load_record_iff:
  assumes "db_ok d"
  shows "load_record d rid = Some (i, r) \<longleftrightarrow>
    i \<in> set (idempotency_records d) \<and> idr_request_id i = rid
    \<and> r \<in> set (order_events d) \<and> col_accepted_event_id r = idr_accepted_event_id i"
    (is "_ \<longleftrightarrow> ?R i r")
proof -
  let ?rows = "[(i, e). i \<leftarrow> filter (\<lambda>i. idr_request_id i = rid) (idempotency_records d),
                    e \<leftarrow> filter (\<lambda>e. col_accepted_event_id e = idr_accepted_event_id i) (order_events d)]"
  have mem: "(j, q) \<in> set ?rows \<longleftrightarrow> ?R j q" for j q by auto
  have uni: "?R i r \<Longrightarrow> ?R j q \<Longrightarrow> (j, q) = (i, r)" for j q
    using assms unfolding db_ok_def by (metis distinct_map_unique)
  show ?thesis
  proof (cases ?rows)
    case Nil
    with mem [of i r] show ?thesis by (simp only: load_record_def list.case) simp
  next
    case (Cons x xs)
    obtain j q where x: "x = (j, q)" by force
    with Cons have "(j, q) \<in> set ?rows" by (simp only: list.set_intros(1))
    with mem have R: "?R j q" by blast
    have "load_record d rid = Some (j, q)" by (simp only: load_record_def Cons list.case x)
    with R uni show ?thesis by auto
  qed
qed

lemma load_record_None:
  assumes "db_ok d"
  shows "load_record d rid = None \<longleftrightarrow> rid \<notin> idr_request_id ` set (idempotency_records d)"
proof
  assume None: "load_record d rid = None"
  show "rid \<notin> idr_request_id ` set (idempotency_records d)"
  proof
    assume "rid \<in> idr_request_id ` set (idempotency_records d)"
    then obtain i where i: "i \<in> set (idempotency_records d)" "idr_request_id i = rid" by auto
    with assms obtain r where "r \<in> set (order_events d)" "col_accepted_event_id r = idr_accepted_event_id i"
      by (auto simp: db_ok_def list_all_iff)
    with load_record_iff [OF assms, of rid i r] i None show False by simp
  qed
next
  assume new: "rid \<notin> idr_request_id ` set (idempotency_records d)"
  show "load_record d rid = None"
  proof (cases "load_record d rid")
    case (Some p)
    obtain i r where "p = (i, r)" by force
    with Some load_record_iff [OF assms, of rid i r] new show ?thesis by auto
  qed
qed

definition same_fingerprint :: "RequestSignature \<Rightarrow> RequestSignature \<Rightarrow> bool" where
  "same_fingerprint s t \<longleftrightarrow> (\<exists>f. build_semantic_fingerprint s = Inr f \<and> build_semantic_fingerprint t = Inr f)"

definition normal_signature :: "RequestSignature \<Rightarrow> RequestSignature" where
  "normal_signature sg =
     (case normalize_money (MDecimal (sig_amount sg)) of Inl _ \<Rightarrow> sg | Inr n \<Rightarrow> sg\<lparr>sig_amount := n\<rparr>)"

definition lookup_request :: "db \<Rightarrow> string \<Rightarrow> IdempotencyRecord option" where
  "lookup_request d rid =
     (case load_record d rid of None \<Rightarrow> None
      | Some row \<Rightarrow> (case row_to_idempotency_record row of Inl _ \<Rightarrow> None | Inr r \<Rightarrow> Some r))"

definition requests_ok :: "db \<Rightarrow> bool" where
  "requests_ok d \<longleftrightarrow> db_ok d \<and> (\<forall>i \<in> set (idempotency_records d). request_row_ok d i)"

lemma legal_requests_ok: "legal_db d \<Longrightarrow> requests_ok d"
  by (simp add: legal_db_def requests_ok_def)

lemma stored_request:
  assumes "requests_ok d" and "load_record d rid = Some (i, r)"
  obtains rec where "row_to_idempotency_record (i, r) = Inr rec" and "lookup_request d rid = Some rec"
    and "rec_accepted_event rec = event_of r" and "sig_request_id (rec_signature rec) = rid"
    and "sig_order_id (rec_signature rec) = idr_order_id i"
    and "build_semantic_fingerprint (rec_signature rec) = Inr (idr_semantic_fingerprint i)"
    and "idr_fingerprint_version i = FINGERPRINT_VERSION"
proof -
  from assms have ok: "db_ok d" by (simp add: requests_ok_def)
  from assms load_record_iff [OF ok, of rid i r] have row: "request_row_ok d i" "event_row_typed r" "idr_request_id i = rid"
    by (auto simp: requests_ok_def db_ok_def list_all_iff)
  from row(1) obtain ct where ct: "CommandType_of (idr_command_type i) = Inr ct"
    by (auto simp: request_row_ok_def split: sum.splits)
  let ?rec = "\<lparr>rec_signature = \<lparr>sig_request_id = rid, sig_command_type = ct, sig_order_id = idr_order_id i,
    sig_amount = idr_amount i\<rparr>, rec_accepted_event = event_of r\<rparr>"
  have "row_to_idempotency_record (i, r) = Inr ?rec"
    using row(2,3) ct by (simp add: row_to_idempotency_record_def typed_row_event)
  with that [of ?rec] row ct assms(2) show ?thesis
    by (simp add: lookup_request_def request_row_ok_def)
qed

lemma classify_request_cases:
  assumes "requests_ok d"
  shows "classify_request d sg = (case lookup_request d (sig_request_id sg) of
      None \<Rightarrow> Inr \<lparr>id_verdict = MISS, id_reason = ''No prior request with this request_id'', id_record = None\<rparr>
    | Some rec \<Rightarrow> bind_res (build_semantic_fingerprint sg) (\<lambda>_.
        Inr (if same_fingerprint (rec_signature rec) sg
             then \<lparr>id_verdict = REPLAY, id_reason = ''Semantically identical retry detected'', id_record = Some rec\<rparr>
             else \<lparr>id_verdict = CONFLICT, id_reason = ''Same request_id reused with different payload'',
                   id_record = Some rec\<rparr>)))"
proof (cases "load_record d (sig_request_id sg)")
  case None
  then show ?thesis by (simp add: classify_request_def lookup_request_def)
next
  case (Some row)
  obtain i r where row: "row = (i, r)" by force
  obtain rec where rec: "row_to_idempotency_record (i, r) = Inr rec" "lookup_request d (sig_request_id sg) = Some rec"
    "build_semantic_fingerprint (rec_signature rec) = Inr (idr_semantic_fingerprint i)"
    "idr_fingerprint_version i = FINGERPRINT_VERSION"
    by (rule stored_request [OF assms Some [unfolded row]])
  with Some row show ?thesis
    by (cases "build_semantic_fingerprint sg")
       (auto simp: classify_request_def same_fingerprint_def)
qed

definition memory_inv :: "pg_conn \<Rightarrow> bool" where
  "memory_inv c \<longleftrightarrow> schedule c = [] \<and> conn_ok c \<and> requests_ok (visible c)"

definition answers :: "pg_conn \<Rightarrow> RequestSignature \<Rightarrow> OrderEvent \<Rightarrow> bool" where
  "answers c sg e \<longleftrightarrow> storable e \<and> (\<exists>row \<in> set (order_events (visible c)). event_to_row e = Inr row)
     \<and> sig_request_id sg = ev_request_id e \<and> sig_order_id sg = ev_order_id e
     \<and> (\<exists>n. ensure_positive_money (MDecimal (sig_amount sg)) = Inr n)"

lemma pg_record_cases:
  assumes inv: "memory_inv c" and ans: "answers c sg e" and rec: "pg_record c sg e = (c', r)"
  obtains (recorded) i n row where "r = Inr ()" and "ensure_positive_money (MDecimal (sig_amount sg)) = Inr n"
      and "visible c' = db_plus (visible c) \<lparr>order_events = [], idempotency_records = [i]\<rparr>"
      and "idr_request_id i = sig_request_id sg" and "idr_accepted_event_id i = ev_event_id e"
      and "row_to_idempotency_record (i, row) = Inr \<lparr>rec_signature = sg\<lparr>sig_amount := n\<rparr>, rec_accepted_event = e\<rparr>"
      and "row \<in> set (order_events (visible c))" and "col_accepted_event_id row = ev_event_id e"
      and "sig_request_id sg \<notin> idr_request_id ` set (idempotency_records (visible c))"
      and "memory_inv c'"
  | (failed) x where "r = Inl x" and "c' = c"
proof -
  from inv have c: "schedule c = []" "conn_ok c" "requests_ok (visible c)" "db_ok (visible c)"
    by (simp_all add: memory_inv_def requests_ok_def)
  from ans obtain row n where e: "storable e" "row \<in> set (order_events (visible c))" "event_to_row e = Inr row"
    "sig_request_id sg = ev_request_id e" "sig_order_id sg = ev_order_id e"
    "ensure_positive_money (MDecimal (sig_amount sg)) = Inr n" by (auto simp: answers_def)
  note rf = event_row_fields [OF e(1,3)]
  show ?thesis
  proof (cases r)
    case (Inl x)
    with rec c(1) failed show ?thesis
      by (auto simp: pg_record_def insert_idempotency_row_def split: if_splits sum.splits prod.splits)
  next
    case (Inr u)
    with rec c(1) obtain amount fp i where p: "record_parameters sg = Inr (amount, fp)"
      "idempotency_row_of sg e amount fp = Inr i" "insert_idempotency_row c i = (c', Inr ())"
      by (auto simp: pg_record_def split: sum.splits)
    note can = ensure_positive_canonical [OF e(6)] and par = record_parameters_canonical [OF e(6) p(1)]
    have i: "i = \<lparr>idr_request_id = ev_request_id e, idr_order_id = ev_order_id e,
     idr_command_type = CommandType_value (sig_command_type sg), idr_amount = n,
     idr_fingerprint_version = FINGERPRINT_VERSION, idr_semantic_fingerprint = fp,
     idr_accepted_event_id = ev_event_id e, idr_result_sequence = ev_sequence e, idr_status = ''SUCCEEDED''\<rparr>"
      using idempotency_row_fields [OF p(2)] par(1) can e by (simp add: storable_def)
    from p(3) have ins: "idempotency_row_checks i"
      "idr_request_id i \<notin> set (map idr_request_id (idempotency_records (visible c)))"
      "idr_accepted_event_id i \<in> set (map col_accepted_event_id (order_events (visible c)))"
      "c' = stage c \<lparr>order_events = [], idempotency_records = [i]\<rparr>"
      by (auto simp: insert_idempotency_row_def split: if_splits)
    have vis: "visible c' = db_plus (visible c) \<lparr>order_events = [], idempotency_records = [i]\<rparr>"
      using ins(4) by (simp add: visible_stage [OF c(2)])
    have sge: "sg\<lparr>sig_amount := n\<rparr> = \<lparr>sig_request_id = ev_request_id e, sig_command_type = sig_command_type sg,
        sig_order_id = ev_order_id e, sig_amount = n\<rparr>" using e(4,5) by (cases sg) simp
    have hyd: "row_to_idempotency_record (i, row) =
        Inr \<lparr>rec_signature = sg\<lparr>sig_amount := n\<rparr>, rec_accepted_event = e\<rparr>"
      using event_row_roundtrip [OF e(1,3)] by (simp add: row_to_idempotency_record_def i sge)
    have ok: "db_ok (visible c')"
      unfolding vis by (rule db_ok_add_request [OF c(4) ins(1-3)])
    have new: "request_row_ok (visible c') i"
      using e(2) rf par(3) by (auto simp: request_row_ok_def vis i sge)
    have "request_row_ok (visible c') j" if "j \<in> set (idempotency_records (visible c'))" for j
    proof (cases "j = i")
      case False
      with that have "j \<in> set (idempotency_records (visible c))" by (simp add: vis)
      with c(3) show ?thesis by (auto simp: requests_ok_def request_row_ok_def vis)
    qed (use new in simp)
    with ok have "requests_ok (visible c')" by (simp add: requests_ok_def)
    with c(1,2) ins(4) have inv': "memory_inv c'" by (simp add: memory_inv_def conn_ok_stage)
    show ?thesis
      by (rule recorded [OF _ e(6) vis _ _ hyd e(2) rf(1) _ inv']) (use Inr i ins(2) e(4) in auto)
  qed
qed

interpretation pg_requests: request_memory memory_inv answers normal_signature same_fingerprint
  "\<lambda>c. lookup_request (visible c)" "\<lambda>c sg. snd (pg_check c sg)" pg_record
proof
  fix c sg d e c' r rid
  assume inv: "memory_inv c"
  then have ok: "requests_ok (visible c)" and quiet: "schedule c = []" by (simp_all add: memory_inv_def)
  {
    assume "snd (pg_check c sg) = Inr d"
    with quiet have "classify_request (visible c) sg = Inr d" by (simp add: pg_check_def)
    with classify_request_cases [OF ok, of sg]
    show "id_record d = lookup_request (visible c) (sig_request_id sg)"
      and "id_verdict d = (case lookup_request (visible c) (sig_request_id sg) of None \<Rightarrow> MISS
          | Some r \<Rightarrow> if same_fingerprint (rec_signature r) sg then REPLAY else CONFLICT)"
      by (cases "build_semantic_fingerprint sg"; auto split: option.splits if_splits)+
  next
    assume "answers c sg e" "pg_record c sg e = (c', r)"
    with inv show "memory_inv c'" by (cases rule: pg_record_cases) (use inv in simp_all)
  next
    assume a: "answers c sg e" "pg_record c sg e = (c', Inr ())"
    with inv show "lookup_request (visible c') rid =
         (if rid = sig_request_id sg then Some \<lparr>rec_signature = normal_signature sg, rec_accepted_event = e\<rparr>
          else lookup_request (visible c) rid)"
    proof (cases rule: pg_record_cases)
      case (recorded i n row)
      from recorded(2) have norm: "normal_signature sg = sg\<lparr>sig_amount := n\<rparr>"
        by (auto simp: normal_signature_def ensure_positive_money_def res_simps split: if_splits)
      from recorded(10) have ok': "db_ok (visible c')" by (simp add: memory_inv_def requests_ok_def)
      from ok have okc: "db_ok (visible c)" by (simp add: requests_ok_def)
      show ?thesis
      proof (cases "rid = sig_request_id sg")
        case True
        with load_record_iff [OF ok', of rid i row] recorded
        have "load_record (visible c') rid = Some (i, row)" by simp
        with True recorded(6) norm show ?thesis by (simp add: lookup_request_def)
      next
        case False
        have "load_record (visible c') rid = Some (j, q) \<longleftrightarrow> load_record (visible c) rid = Some (j, q)" for j q
          unfolding load_record_iff [OF ok'] load_record_iff [OF okc]
          using False recorded(4) by (auto simp: recorded(3))
        then have "load_record (visible c') rid = load_record (visible c) rid"
          by (metis option.exhaust surj_pair)
        with False show ?thesis by (simp add: lookup_request_def)
      qed
    qed simp
  }
qed

section \<open>Fingerprints separate requests\<close>

lemma format_f_no_bar: "CHR ''|'' \<notin> set (format_f (Dec s c (- 2)))"
proof -
  have "CHR ''|'' \<notin> set (show_nat n)" for n
    using show_nat_digits [of n] by (auto simp: is_digit_def Let_def)
  then show ?thesis by (auto simp: pad_digits_def)
qed

lemma format_f_inject: "format_f (Dec s c (- 2)) = format_f (Dec s' c' (- 2)) \<longleftrightarrow> s = s' \<and> c = c'"
  using decimal_of_format_f [of "- 2" s c] decimal_of_format_f [of "- 2" s' c'] by auto

lemma fingerprint_shape:
  assumes "build_semantic_fingerprint sg = Inr f"
  obtains s c where "normalize_money (MDecimal (sig_amount sg)) = Inr (Dec s c (- 2))"
    and "f = ''v'' @ show_int 1 @ ''|'' @ CommandType_value (sig_command_type sg) @ ''|'' @ sig_order_id sg @ ''|''
               @ format_f (Dec s c (- 2))"
proof -
  from assms obtain n where n: "normalize_money (MDecimal (sig_amount sg)) = Inr n"
    "f = ''v'' @ show_int 1 @ ''|'' @ CommandType_value (sig_command_type sg) @ ''|'' @ sig_order_id sg @ ''|'' @ format_f n"
    by (auto simp: build_semantic_fingerprint_def money_to_storage_string_def FINGERPRINT_VERSION_def res_simps)
  from normalize_money_shape [OF n(1)] n that show ?thesis by blast
qed

lemma fingerprint_text_inject:
  assumes "CHR ''|'' \<notin> set x" and "CHR ''|'' \<notin> set y"
  shows "''v'' @ n @ ''|'' @ CommandType_value a @ ''|'' @ o1 @ ''|'' @ x
       = ''v'' @ n @ ''|'' @ CommandType_value b @ ''|'' @ o2 @ ''|'' @ y
     \<longleftrightarrow> a = b \<and> o1 = o2 \<and> x = y"
  using append_sep_inject [OF assms, of o1 o2] by (cases a; cases b) simp_all

lemma same_fingerprint_iff:
  assumes "build_semantic_fingerprint s = Inr f" and "build_semantic_fingerprint t = Inr g"
  shows "f = g \<longleftrightarrow> sig_command_type s = sig_command_type t \<and> sig_order_id s = sig_order_id t
    \<and> normalize_money (MDecimal (sig_amount s)) = normalize_money (MDecimal (sig_amount t))"
proof -
  obtain a c where s: "normalize_money (MDecimal (sig_amount s)) = Inr (Dec a c (- 2))"
    "f = ''v'' @ show_int 1 @ ''|'' @ CommandType_value (sig_command_type s) @ ''|'' @ sig_order_id s @ ''|''
               @ format_f (Dec a c (- 2))" by (rule fingerprint_shape [OF assms(1)])
  obtain b d where t: "normalize_money (MDecimal (sig_amount t)) = Inr (Dec b d (- 2))"
    "g = ''v'' @ show_int 1 @ ''|'' @ CommandType_value (sig_command_type t) @ ''|'' @ sig_order_id t @ ''|''
               @ format_f (Dec b d (- 2))" by (rule fingerprint_shape [OF assms(2)])
  have "f = g \<longleftrightarrow> sig_command_type s = sig_command_type t \<and> sig_order_id s = sig_order_id t
      \<and> format_f (Dec a c (- 2)) = format_f (Dec b d (- 2))"
    unfolding s(2) t(2) by (rule fingerprint_text_inject [OF format_f_no_bar format_f_no_bar])
  then show ?thesis unfolding s(1) t(1) format_f_inject by simp
qed

section \<open>Properties\<close>

text \<open>
  Durable round trip of events. An event whose identities are canonical UUID texts and whose
  amount is a canonical amount, once its columns are accepted by the table, is read back from the
  stored row as the same event.
\<close>

theorem order_event_row_roundtrip:
  assumes "storable e" and "event_to_row e = Inr row"
  shows "row_to_order_event row = Inr e \<and> event_row_typed row"
  using event_row_roundtrip [OF assms] event_row_fields(5) [OF assms] by simp

definition sample_uuid :: string where
  "sample_uuid = ''0f8fad5b-d9cb-469f-a165-70867728950e''"

definition sample_event :: OrderEvent where
  "sample_event = sample_created\<lparr>ev_event_id := sample_uuid\<rparr>"

lemma sample_uuid_in: "uuid_in sample_uuid = Some sample_uuid"
  by code_simp

lemma sample_storable: "storable sample_event"
  by (simp add: storable_def sample_event_def sample_uuid_in sample_created_def)

theorem order_event_row_roundtrip_witness:
  "\<exists>row. event_to_row sample_event = Inr row \<and> row_to_order_event row = Inr sample_event"
proof -
  obtain row where row: "event_to_row sample_event = Inr row"
    by (simp add: event_to_row_def sample_event_def sample_uuid_in sample_created_def text_in_def int4_in_def
        int8_in_def)
  with order_event_row_roundtrip [OF sample_storable row] show ?thesis by blast
qed

text \<open>
  Semantic fingerprints identify requests. Two signatures with valid amounts have the same
  fingerprint exactly when they agree on the command type, on the order identity (which may
  itself contain the separator) and on the amount after normalisation to cents.
\<close>

theorem fingerprint_identifies_request:
  assumes "build_semantic_fingerprint s = Inr f" and "build_semantic_fingerprint t = Inr g"
  shows "f = g \<longleftrightarrow> sig_command_type s = sig_command_type t \<and> sig_order_id s = sig_order_id t
    \<and> normalize_money (MDecimal (sig_amount s)) = normalize_money (MDecimal (sig_amount t))"
  by (rule same_fingerprint_iff [OF assms])

definition sample_signature :: "string \<Rightarrow> nat \<Rightarrow> int \<Rightarrow> RequestSignature" where
  "sample_signature oid c e = \<lparr>sig_request_id = ''r1'', sig_command_type = CREATE, sig_order_id = oid,
     sig_amount = Dec False c e\<rparr>"

theorem fingerprint_identifies_request_witness:
  "\<exists>f g. build_semantic_fingerprint (sample_signature ''o|1'' 10 0) = Inr f
     \<and> build_semantic_fingerprint (sample_signature ''o|1'' 100 (- 1)) = Inr g \<and> f = g"
proof -
  have n: "normalize_money (MDecimal (Dec False 10 0)) = Inr (Dec False 1000 (- 2))"
    "normalize_money (MDecimal (Dec False 100 (- 1))) = Inr (Dec False 1000 (- 2))"
    by (simp_all add: normalize_money_def money_eval)
  then obtain f g where fg: "build_semantic_fingerprint (sample_signature ''o|1'' 10 0) = Inr f"
    "build_semantic_fingerprint (sample_signature ''o|1'' 100 (- 1)) = Inr g"
    by (simp add: build_semantic_fingerprint_def money_to_storage_string_def sample_signature_def)
  from fingerprint_identifies_request [OF fg] fg n show ?thesis by (simp add: sample_signature_def)
qed

text \<open>
  The durable log. On a connection without interference whose streams are gapless, appending
  a storable event either extends its own stream by exactly that event (and then the caller's
  expected version was the length of the stream and the event carries the next sequence) or
  raises and changes nothing; the gapless state is kept, and a second append with the same
  expected version to the same order raises.
\<close>

theorem pg_append_extends_stream:
  assumes "log_inv c" and "storable e" and "pg_append c e v = (c', r)"
  shows "log_inv c' \<and>
    (case r of
       Inr _ \<Rightarrow> v = int (length (history (visible c) (ev_order_id e))) \<and> ev_sequence e = v + 1
         \<and> (\<forall>oid. history (visible c') oid =
              (if oid = ev_order_id e then history (visible c) oid @ [e] else history (visible c) oid))
         \<and> (\<forall>f. storable f \<and> ev_order_id f = ev_order_id e \<longrightarrow> (\<exists>x. snd (pg_append c' f v) = Inl x))
     | Inl x \<Rightarrow> \<forall>oid. history (visible c') oid = history (visible c) oid)"
proof (cases r)
  case (Inl x)
  with assms pg_log.append_inv [OF assms] pg_log.append_failure [OF assms(1,2)] show ?thesis by auto
next
  case (Inr u)
  with assms(3) have ok: "pg_append c e v = (c', Inr ())" by simp
  from pg_log.append_inv [OF assms] pg_log.append_guard [OF assms(1,2) ok]
    pg_log.append_extends [OF assms(1,2) ok] pg_log.second_writer_rejected [OF assms(1,2) ok] Inr
  show ?thesis by auto
qed

theorem pg_append_extends_stream_witness:
  "\<exists>c'. pg_append \<lparr>committed = empty_db, own = empty_db, schedule = [], autocommit = False\<rparr> sample_event 0
        = (c', Inr ()) \<and> history (visible c') ''o1'' = [sample_event]"
proof -
  let ?c = "\<lparr>committed = empty_db, own = empty_db, schedule = [], autocommit = False\<rparr>"
  have vis: "visible ?c = empty_db" by (simp add: visible_def)
  have inv: "log_inv ?c"
    by (simp add: log_inv_def conn_ok_def vis db_ok_def contiguous_db_def stream_rows_def)
  obtain row where row: "event_to_row sample_event = Inr row" "event_row_checks row"
    by (simp add: event_to_row_def sample_event_def sample_uuid_in sample_created_def text_in_def int4_in_def
        int8_in_def event_row_checks_def dec_scaled_def)
  have "\<exists>c'. pg_append ?c sample_event 0 = (c', Inr ())"
    by (simp add: pg_append_def pg_current_version_def vis sql_max_def row insert_event_row_def)
       (simp add: sample_event_def sample_created_def)
  then obtain c' where c': "pg_append ?c sample_event 0 = (c', Inr ())" by blast
  from pg_append_extends_stream [OF inv sample_storable c'] c' vis show ?thesis
    by (simp add: sample_event_def sample_created_def history_def stream_rows_def)
qed

text \<open>
  Durable request memory. After a request has been recorded with the event that answers it,
  a check of any signature under the same request identity finds that event; the verdict is
  REPLAY when the presented signature has the same fingerprint and CONFLICT otherwise, and the
  stored signature is the presented one with its amount normalised.
\<close>

theorem pg_recorded_request_found:
  assumes "memory_inv c" and "answers c sg e" and "pg_record c sg e = (c', Inr ())"
    and "sig_request_id sg' = sig_request_id sg" and "snd (pg_check c' sg') = Inr d"
  shows "id_record d = Some \<lparr>rec_signature = normal_signature sg, rec_accepted_event = e\<rparr>
    \<and> id_verdict d = (if same_fingerprint (normal_signature sg) sg' then REPLAY else CONFLICT)"
  using pg_requests.check_after_recording [OF assms(1-3,5,4)] by simp

lemma sample_parameters:
  "\<exists>fp. record_parameters (sample_signature ''o1'' 10 0) = Inr (Dec False 1000 (- 2), fp)
     \<and> CHR 0x00 \<notin> set fp \<and> (\<exists>c \<in> set fp. c \<noteq> CHR '' '')
     \<and> build_semantic_fingerprint (sample_signature ''o1'' 10 0) = Inr fp"
proof -
  have n: "normalize_money (MDecimal (Dec False 10 0)) = Inr (Dec False 1000 (- 2))"
    by (simp add: normalize_money_def money_eval)
  have "show_int 1 = ''1''" "show_nat 10 = ''10''" "show_nat 0 = ''0''" by code_simp+
  with n decimal_of_format_f [of "- 2" False 1000] show ?thesis
    by (simp add: record_parameters_def build_semantic_fingerprint_def money_to_storage_string_def
        sample_signature_def FINGERPRINT_VERSION_def pad_digits_def)
qed

theorem pg_recorded_request_found_witness:
  "\<exists>c c' d. pg_record c (sample_signature ''o1'' 10 0) sample_event = (c', Inr ())
     \<and> snd (pg_check c' (sample_signature ''o1'' 10 0)) = Inr d
     \<and> map_option rec_accepted_event (id_record d) = Some sample_event"
proof -
  obtain row where row: "event_to_row sample_event = Inr row" "event_row_checks row"
    by (simp add: event_to_row_def sample_event_def sample_uuid_in sample_created_def text_in_def int4_in_def
        int8_in_def event_row_checks_def dec_scaled_def)
  let ?c = "\<lparr>committed = \<lparr>order_events = [row], idempotency_records = []\<rparr>, own = empty_db, schedule = [],
    autocommit = False\<rparr>" and ?sg = "sample_signature ''o1'' 10 0"
  have vis: "visible ?c = \<lparr>order_events = [row], idempotency_records = []\<rparr>" by (simp add: visible_def)
  have inv: "memory_inv ?c"
    using row event_row_fields(5) [OF sample_storable row(1)]
    by (simp add: memory_inv_def conn_ok_def requests_ok_def vis db_ok_def)
  have pos: "ensure_positive_money (MDecimal (Dec False 10 0)) = Inr (Dec False 1000 (- 2))"
    by (simp add: ensure_positive_money_def normalize_money_def money_eval dec_scaled_def)
  have ans: "answers ?c ?sg sample_event"
    using row sample_storable pos
    by (simp add: answers_def vis sample_signature_def sample_event_def sample_created_def)
  obtain fp where fp: "record_parameters ?sg = Inr (Dec False 1000 (- 2), fp)" "CHR 0x00 \<notin> set fp"
    "\<exists>c \<in> set fp. c \<noteq> CHR '' ''" "build_semantic_fingerprint ?sg = Inr fp" using sample_parameters by blast
  have "\<exists>c'. pg_record ?c ?sg sample_event = (c', Inr ())"
    using fp(2,3) event_row_fields(1) [OF sample_storable row(1)]
    by (simp add: pg_record_def fp(1) [unfolded sample_signature_def] idempotency_row_of_def sample_signature_def sample_event_def sample_created_def
        sample_uuid_in text_in_def int4_in_def insert_idempotency_row_def idempotency_row_checks_def
        FINGERPRINT_VERSION_def vis dec_scaled_def)
  then obtain c' where c': "pg_record ?c ?sg sample_event = (c', Inr ())" by blast
  from inv ans c' have "memory_inv c'" by (rule pg_requests.recording_inv)
  then have "\<exists>d. snd (pg_check c' ?sg) = Inr d"
    by (simp add: memory_inv_def pg_check_def classify_request_cases fp(4) split: option.split)
  then obtain d where d: "snd (pg_check c' ?sg) = Inr d" by blast
  from pg_recorded_request_found [OF inv ans c' refl d] c' d show ?thesis
    by (intro exI [of _ ?c] exI [of _ c'] exI [of _ d]) simp
qed

end
