(* ===== verification/Snapshot.thy ===== *)
theory Snapshot
  imports Projection
begin

text \<open>
  Snapshot-assisted reading, over the protocols that its classes are written against:
  \<open>projection_snapshot_replay_validator.py\<close> and \<open>projection_snapshot_assisted_state_resolver.py\<close> of
  \<open>src/pipeline/projection\<close>. The stores behind the protocols are arguments of the definitions:
  functions that return or raise. The loop that pages through the tail of a stream has no bound in
  the code; here it is a partial function, and the locale \<open>tail_source\<close> states the contract under
  which it ends. What the validator and the resolver compute is proved under \<open>snapshot_readers\<close>,
  which the PostgreSQL readers satisfy.
\<close>

section \<open>Data\<close>

record ProjectionEventRecord =
  per_global_position :: int
  per_event :: OrderEvent

record ProjectionSnapshot =
  snapshot_id :: string
  sn_order_id :: string
  source_event_id :: string
  source_event_sequence :: int
  source_global_position :: int
  state_status :: string
  sn_total_amount :: decimal
  sn_paid_amount :: decimal
  state_version :: int
  snapshot_schema_version :: int
  reducer_version :: string
  payload_hash :: string
  sn_metadata :: "(string \<times> pyval) list"
  created_by :: string

datatype ProjectionSnapshotReplayValidationStatus =
    SV_MATCH
  | SV_MISSING_SNAPSHOT
  | SV_NO_ACCEPTED_HISTORY_FOR_ORDER
  | SV_INVALID_SNAPSHOT_BOUNDARY
  | SV_TAIL_EVENT_SOURCE_CONTRACT_VIOLATION
  | SV_SNAPSHOT_ASSISTED_DRIFT

record ProjectionSnapshotReplayValidationResult =
  sv_status :: ProjectionSnapshotReplayValidationStatus
  sv_order_id :: string
  sv_snapshot_id :: "string option"
  sv_source_global_position :: "int option"
  sv_snapshot_assisted_state :: "OrderState option"
  sv_authority_state :: "OrderState option"
  sv_reason :: "string option"

definition is_match :: "ProjectionSnapshotReplayValidationResult \<Rightarrow> bool" where
  "is_match self = (sv_status self = SV_MATCH)"

datatype ProjectionSnapshotAssistedResolutionStatus =
    SR_RESOLVED_FROM_SNAPSHOT
  | SR_MISSING_SNAPSHOT
  | SR_INVALID_SNAPSHOT_PRECONDITION
  | SR_INVALID_SNAPSHOT_COMPATIBILITY
  | SR_TAIL_EVENT_SOURCE_CONTRACT_VIOLATION
  | SR_TAIL_REPLAY_FAILED

record ProjectionSnapshotAssistedResolutionResult =
  sr_order_id :: string
  sr_status :: ProjectionSnapshotAssistedResolutionStatus
  sr_resolved_state :: "OrderState option"
  sr_snapshot_id :: "string option"
  sr_source_global_position :: "int option"
  sr_reason :: "string option"

definition is_resolved :: "ProjectionSnapshotAssistedResolutionResult \<Rightarrow> bool" where
  "is_resolved self = (sr_status self = SR_RESOLVED_FROM_SNAPSHOT)"

section \<open>Loading the tail\<close>

type_synonym tail_reader = "string \<Rightarrow> int \<Rightarrow> int \<Rightarrow> ProjectionEventRecord list res"

fun check_tail_batch :: "string \<Rightarrow> int \<Rightarrow> ProjectionEventRecord list \<Rightarrow> int res" where
  "check_tail_batch order_id current_sequence [] = Inr current_sequence"
| "check_tail_batch order_id current_sequence (r # rs) =
     (let expected_sequence = current_sequence + 1
      in if ev_order_id (per_event r) \<noteq> order_id
         then Inl (ValueError ''Tail event source returned an event for a different order_id.'')
         else if ev_sequence (per_event r) \<noteq> expected_sequence
         then Inl (ValueError (''Tail event source returned a non-contiguous order-local sequence: expected ''
                @ show_int expected_sequence @ '', got '' @ show_int (ev_sequence (per_event r)) @ ''.''))
         else check_tail_batch order_id (ev_sequence (per_event r)) rs)"

partial_function (option) load_all_tail_records ::
  "tail_reader \<Rightarrow> int \<Rightarrow> string \<Rightarrow> int \<Rightarrow> ProjectionEventRecord list \<Rightarrow> ProjectionEventRecord list res option" where
  "load_all_tail_records load_after_sequence limit order_id current_sequence records =
     (case load_after_sequence order_id current_sequence limit of
        Inl x \<Rightarrow> Some (Inl x)
      | Inr batch \<Rightarrow>
          if batch = [] then Some (Inr records)
          else (case check_tail_batch order_id current_sequence batch of
                  Inl x \<Rightarrow> Some (Inl x)
                | Inr next_sequence \<Rightarrow>
                    load_all_tail_records load_after_sequence limit order_id next_sequence (records @ batch)))"

text \<open>The replay loop keeps the last state when an event raises.\<close>

fun replay_tail :: "OrderState \<Rightarrow> ProjectionEventRecord list \<Rightarrow> OrderState \<times> exc option" where
  "replay_tail state [] = (state, None)"
| "replay_tail state (r # rs) =
     (case reduce_order_event state (per_event r) of
        Inl x \<Rightarrow> (state, Some x)
      | Inr state' \<Rightarrow> replay_tail state' rs)"

definition hydrate_snapshot_state :: "ProjectionSnapshot \<Rightarrow> OrderState res" where
  "hydrate_snapshot_state snapshot =
     (case OrderStatus_of (state_status snapshot) of
        Inl x \<Rightarrow> if is_ValueError x
                 then Inl (ValueError (''Unsupported snapshot state_status: '' @ state_status snapshot)) else Inl x
      | Inr hydrated_status \<Rightarrow> Inr \<lparr>st_order_id = sn_order_id snapshot, st_status = hydrated_status,
                          st_total_amount = sn_total_amount snapshot, st_paid_amount = sn_paid_amount snapshot,
                          st_version = state_version snapshot\<rparr>)"

section \<open>ProjectionSnapshotReplayValidator\<close>

definition validate_snapshot_boundary :: "ProjectionSnapshot \<Rightarrow> string \<Rightarrow> int \<Rightarrow> string option" where
  "validate_snapshot_boundary snapshot requested_order_id authority_max_sequence =
     (if sn_order_id snapshot \<noteq> requested_order_id
      then Some (''Snapshot order_id does not match requested order_id: snapshot.order_id='' @ sn_order_id snapshot
             @ '', requested_order_id='' @ requested_order_id)
      else if source_global_position snapshot \<le> 0
      then Some ''Snapshot source_global_position must be positive.''
      else if source_event_sequence snapshot \<le> 0
      then Some ''Snapshot source_event_sequence must be positive.''
      else if source_event_sequence snapshot > authority_max_sequence
      then Some (''Snapshot source_event_sequence is ahead of accepted history: snapshot.source_event_sequence=''
             @ show_int (source_event_sequence snapshot) @ '', authority_max_sequence='' @ show_int authority_max_sequence)
      else if state_version snapshot < 0
      then Some ''Snapshot state_version must be non-negative.''
      else if state_version snapshot > source_event_sequence snapshot
      then Some ''Snapshot state_version must not be ahead of source_event_sequence.''
      else if state_version snapshot \<noteq> source_event_sequence snapshot
      then Some ''Current order projection reducer requires snapshot state_version to equal source_event_sequence.''
      else if state_status snapshot \<notin> set [''CREATED'', ''PAID'']
      then Some (''Unsupported snapshot state_status: '' @ state_status snapshot)
      else None)"

definition replay_authority_state :: "string \<Rightarrow> OrderEvent list \<Rightarrow> OrderState res" where
  "replay_authority_state order_id accepted_events =
     fold_res reduce_order_event (build_empty_projection_state order_id) accepted_events"

definition snapshot_validator_init :: "int \<Rightarrow> unit res" where
  "snapshot_validator_init tail_event_limit =
     (if tail_event_limit \<le> 0 then Inl (ValueError ''tail_event_limit must be positive'') else Inr ())"

definition validation_result ::
  "ProjectionSnapshotReplayValidationStatus \<Rightarrow> string \<Rightarrow> ProjectionSnapshot option \<Rightarrow> OrderState option
   \<Rightarrow> OrderState option \<Rightarrow> string \<Rightarrow> ProjectionSnapshotReplayValidationResult" where
  "validation_result verdict order_id snapshot assisted authority reason =
     \<lparr>sv_status = verdict, sv_order_id = order_id, sv_snapshot_id = map_option snapshot_id snapshot,
      sv_source_global_position = map_option source_global_position snapshot,
      sv_snapshot_assisted_state = assisted, sv_authority_state = authority, sv_reason = Some reason\<rparr>"

text \<open>The part of \<open>validate_order\<close> that replays a snapshot and its tail, and the whole method.\<close>

definition validate_snapshot_replay ::
  "tail_reader \<Rightarrow> int \<Rightarrow> string \<Rightarrow> ProjectionSnapshot \<Rightarrow> OrderState
   \<Rightarrow> ProjectionSnapshotReplayValidationResult res option" where
  "validate_snapshot_replay load_after_sequence tail_event_limit order_id snapshot authority_state =
     (case hydrate_snapshot_state snapshot of
        Inl x \<Rightarrow> Some (if is_ValueError x
             then Inr (validation_result SV_INVALID_SNAPSHOT_BOUNDARY order_id (Some snapshot) None
               (Some authority_state) (exc_str x))
             else Inl x)
      | Inr snapshot_assisted_state \<Rightarrow>
         (case load_all_tail_records load_after_sequence tail_event_limit order_id (source_event_sequence snapshot) [] of
            None \<Rightarrow> None
          | Some loaded \<Rightarrow>
             (case loaded of
                Inl x \<Rightarrow> Some (if is_ValueError x
                  then Inr (validation_result SV_TAIL_EVENT_SOURCE_CONTRACT_VIOLATION order_id (Some snapshot)
                    (Some snapshot_assisted_state) (Some authority_state) (exc_str x))
                  else Inl x)
              | Inr tail_records \<Rightarrow>
                 (case replay_tail snapshot_assisted_state tail_records of (state, failure) \<Rightarrow>
                   (case failure of
                      Some x \<Rightarrow> Some (if is_ValueError x
                        then Inr (validation_result SV_SNAPSHOT_ASSISTED_DRIFT order_id (Some snapshot) (Some state)
                          (Some authority_state) (''Snapshot-assisted tail replay failed: '' @ exc_str x))
                        else Inl x)
                    | None \<Rightarrow>
                       if \<not> OrderState_eq state authority_state
                       then Some (Inr (validation_result SV_SNAPSHOT_ASSISTED_DRIFT order_id (Some snapshot) (Some state)
                              (Some authority_state) ''Snapshot-assisted replay differs from accepted-history replay.''))
                       else Some (Inr (validation_result SV_MATCH order_id (Some snapshot) (Some state)
                              (Some authority_state) ''Snapshot-assisted replay matches accepted-history replay.'')))))))"

definition validate_order ::
  "(string \<Rightarrow> ProjectionSnapshot option res) \<Rightarrow> (string \<Rightarrow> OrderEvent list res) \<Rightarrow> tail_reader \<Rightarrow> int \<Rightarrow> string
   \<Rightarrow> ProjectionSnapshotReplayValidationResult res option" where
  "validate_order load_latest_snapshot load_history load_after_sequence tail_event_limit order_id =
     (case load_latest_snapshot order_id of
        Inl x \<Rightarrow> Some (Inl x)
      | Inr found \<Rightarrow>
         (case load_history order_id of
            Inl x \<Rightarrow> Some (Inl x)
          | Inr accepted_events \<Rightarrow>
             if accepted_events = []
             then Some (Inr (validation_result SV_NO_ACCEPTED_HISTORY_FOR_ORDER order_id found None None
                    ''No accepted history exists for order.''))
             else (case replay_authority_state order_id accepted_events of
                Inl x \<Rightarrow> Some (Inl x)
              | Inr authority_state \<Rightarrow>
                 (let authority_max_sequence = Max (set (map ev_sequence accepted_events))
                  in case found of
                    None \<Rightarrow> Some (Inr (validation_result SV_MISSING_SNAPSHOT order_id None None (Some authority_state)
                      ''No projection snapshot exists for order; authority state was reconstructed from accepted history.''))
                  | Some snapshot \<Rightarrow>
                     (case validate_snapshot_boundary snapshot order_id authority_max_sequence of
                        Some invalid_reason \<Rightarrow>
                          Some (Inr (validation_result SV_INVALID_SNAPSHOT_BOUNDARY order_id (Some snapshot)
                            None (Some authority_state) invalid_reason))
                      | None \<Rightarrow> validate_snapshot_replay load_after_sequence tail_event_limit order_id snapshot
                            authority_state)))))"

section \<open>ProjectionSnapshotAssistedStateResolver\<close>

definition SUPPORTED_SNAPSHOT_SCHEMA_VERSION :: int where
  "SUPPORTED_SNAPSHOT_SCHEMA_VERSION = 1"

definition SUPPORTED_REDUCER_VERSION :: string where
  "SUPPORTED_REDUCER_VERSION = ''order_projection_reducer:v1''"

definition validate_snapshot_compatibility :: "ProjectionSnapshot \<Rightarrow> string \<Rightarrow> string option" where
  "validate_snapshot_compatibility snapshot requested_order_id =
     (if sn_order_id snapshot \<noteq> requested_order_id
      then Some (''Snapshot order_id does not match requested order_id: snapshot.order_id='' @ sn_order_id snapshot
             @ '', requested_order_id='' @ requested_order_id)
      else if source_global_position snapshot \<le> 0
      then Some ''Snapshot source_global_position must be positive.''
      else if source_event_sequence snapshot \<le> 0
      then Some ''Snapshot source_event_sequence must be positive.''
      else if state_version snapshot < 0
      then Some ''Snapshot state_version must be non-negative.''
      else if state_version snapshot > source_event_sequence snapshot
      then Some ''Snapshot state_version must not be ahead of source_event_sequence.''
      else if state_version snapshot \<noteq> source_event_sequence snapshot
      then Some ''Current order projection reducer requires snapshot state_version to equal source_event_sequence.''
      else if snapshot_schema_version snapshot \<noteq> SUPPORTED_SNAPSHOT_SCHEMA_VERSION
      then Some (''Snapshot snapshot_schema_version is not supported by this resolver: snapshot.snapshot_schema_version=''
             @ show_int (snapshot_schema_version snapshot) @ '', supported_snapshot_schema_version=''
             @ show_int SUPPORTED_SNAPSHOT_SCHEMA_VERSION)
      else if reducer_version snapshot \<noteq> SUPPORTED_REDUCER_VERSION
      then Some (''Snapshot reducer_version is not supported by this resolver: snapshot.reducer_version=''
             @ reducer_version snapshot @ '', supported_reducer_version='' @ SUPPORTED_REDUCER_VERSION)
      else if state_status snapshot \<notin> set [''CREATED'', ''PAID'']
      then Some (''Unsupported snapshot state_status: '' @ state_status snapshot)
      else None)"

definition snapshot_resolver_init :: "int \<Rightarrow> unit res" where
  "snapshot_resolver_init tail_event_limit =
     (if tail_event_limit \<le> 0 then Inl (ValueError ''tail_event_limit must be positive'') else Inr ())"

definition resolution_failure ::
  "ProjectionSnapshotAssistedResolutionStatus \<Rightarrow> string \<Rightarrow> ProjectionSnapshot \<Rightarrow> string
   \<Rightarrow> ProjectionSnapshotAssistedResolutionResult" where
  "resolution_failure verdict order_id snapshot reason =
     \<lparr>sr_order_id = order_id, sr_status = verdict, sr_resolved_state = None,
      sr_snapshot_id = Some (snapshot_id snapshot),
      sr_source_global_position = Some (source_global_position snapshot), sr_reason = Some reason\<rparr>"

definition resolve_from_snapshot ::
  "tail_reader \<Rightarrow> int \<Rightarrow> string \<Rightarrow> ProjectionSnapshot \<Rightarrow> ProjectionSnapshotAssistedResolutionResult res option" where
  "resolve_from_snapshot load_after_sequence tail_event_limit order_id snapshot =
     (case hydrate_snapshot_state snapshot of
        Inl x \<Rightarrow> Some (if is_ValueError x
             then Inr (resolution_failure SR_INVALID_SNAPSHOT_COMPATIBILITY order_id snapshot (exc_str x)) else Inl x)
      | Inr resolved_state \<Rightarrow>
         (case load_all_tail_records load_after_sequence tail_event_limit order_id (source_event_sequence snapshot) [] of
            None \<Rightarrow> None
          | Some loaded \<Rightarrow>
             (case loaded of
                Inl x \<Rightarrow> Some (if is_ValueError x
                  then Inr (resolution_failure SR_TAIL_EVENT_SOURCE_CONTRACT_VIOLATION order_id snapshot (exc_str x))
                  else Inl x)
              | Inr tail_records \<Rightarrow>
                 (case replay_tail resolved_state tail_records of (state, failure) \<Rightarrow>
                   (case failure of
                      Some x \<Rightarrow> Some (if is_ValueError x
                        then Inr (resolution_failure SR_TAIL_REPLAY_FAILED order_id snapshot
                          (''Snapshot-assisted tail replay failed: '' @ exc_str x)) else Inl x)
                    | None \<Rightarrow>
                       Some (Inr \<lparr>sr_order_id = order_id, sr_status = SR_RESOLVED_FROM_SNAPSHOT,
                         sr_resolved_state = Some state, sr_snapshot_id = Some (snapshot_id snapshot),
                         sr_source_global_position = Some (source_global_position snapshot),
                         sr_reason = Some ''Projection state resolved from snapshot and tail replay.''\<rparr>))))))"

definition resolve_order ::
  "(string \<Rightarrow> ProjectionSnapshot option res) \<Rightarrow> tail_reader \<Rightarrow> int \<Rightarrow> string \<Rightarrow> string option
   \<Rightarrow> ProjectionSnapshotAssistedResolutionResult res option" where
  "resolve_order load_snapshot load_after_sequence tail_event_limit order_id trusted_snapshot_id =
     (case trusted_snapshot_id of
        None \<Rightarrow> Some (Inr \<lparr>sr_order_id = order_id, sr_status = SR_INVALID_SNAPSHOT_PRECONDITION,
             sr_resolved_state = None, sr_snapshot_id = None, sr_source_global_position = None,
             sr_reason = Some ''trusted_snapshot_id is required.''\<rparr>)
      | Some trusted \<Rightarrow>
         (case load_snapshot trusted of
            Inl x \<Rightarrow> Some (Inl x)
          | Inr found \<Rightarrow>
             (case found of
                None \<Rightarrow> Some (Inr \<lparr>sr_order_id = order_id, sr_status = SR_MISSING_SNAPSHOT,
                  sr_resolved_state = None, sr_snapshot_id = Some trusted, sr_source_global_position = None,
                  sr_reason = Some ''Projection snapshot was not found.''\<rparr>)
              | Some snapshot \<Rightarrow>
                 (case validate_snapshot_compatibility snapshot order_id of
                    Some invalid_reason \<Rightarrow>
                      Some (Inr (resolution_failure SR_INVALID_SNAPSHOT_COMPATIBILITY order_id snapshot invalid_reason))
                  | None \<Rightarrow> resolve_from_snapshot load_after_sequence tail_event_limit order_id snapshot))))"

section \<open>Paging through a stream\<close>

lemma reduce_raises_ValueError: "reduce_order_event st e = Inl x \<Longrightarrow> is_ValueError x"
  by (auto simp: reduce_order_event_def Let_def split: if_splits EventType.splits)

lemma replay_tail_fold:
  "fold_res reduce_order_event st (map per_event rs) =
     (case replay_tail st rs of (st', None) \<Rightarrow> Inr st' | (_, Some x) \<Rightarrow> Inl x)"
  by (induction st rs rule: replay_tail.induct) (auto split: sum.splits)

lemma replay_tail_ValueError: "replay_tail st rs = (st', Some x) \<Longrightarrow> is_ValueError x"
  by (induction st rs rule: replay_tail.induct) (auto split: sum.splits dest: reduce_raises_ValueError)

lemma filter_after_position:
  assumes "map f xs = map int [1..<Suc (length xs)]"
  shows "filter (\<lambda>x. int n < f x) xs = drop n xs"
proof -
  have nth: "f (xs ! i) = int (Suc i)" if "i < length xs" for i
    using arg_cong [OF assms, of "\<lambda>ys. ys ! i"] that by (simp del: upt_Suc)
  have "\<not> int n < f x" if "x \<in> set (take n xs)" for x
    using that nth by (auto simp: in_set_conv_nth)
  moreover have "int n < f x" if "x \<in> set (drop n xs)" for x
  proof -
    from that obtain i where "i < length xs - n" "x = xs ! (n + i)" by (auto simp: in_set_conv_nth)
    with nth [of "n + i"] show ?thesis by simp
  qed
  ultimately have "filter (\<lambda>x. int n < f x) (take n xs @ drop n xs) = drop n xs"
    by (simp only: filter_append) (auto simp: filter_empty_conv filter_id_conv)
  then show ?thesis by simp
qed

text \<open>The contract of a tail source: a page holds the first events of the order after the given
  sequence, and the events of an order are numbered from one without gaps.\<close>

locale tail_source =
  fixes inv :: "'s \<Rightarrow> bool"
    and hist :: "'s \<Rightarrow> string \<Rightarrow> ProjectionEventRecord list"
    and load_after :: "'s \<Rightarrow> string \<Rightarrow> int \<Rightarrow> int \<Rightarrow> ProjectionEventRecord list res"
  assumes hist_order: "inv s \<Longrightarrow> r \<in> set (hist s oid) \<Longrightarrow> ev_order_id (per_event r) = oid"
    and hist_sequences: "inv s \<Longrightarrow>
      map (\<lambda>r. ev_sequence (per_event r)) (hist s oid) = map int [1..<Suc (length (hist s oid))]"
    and page: "inv s \<Longrightarrow> \<not> py_blank oid \<Longrightarrow> 0 \<le> seq \<Longrightarrow> 0 < limit \<Longrightarrow>
      load_after s oid seq limit
        = Inr (take (nat limit) (filter (\<lambda>r. seq < ev_sequence (per_event r)) (hist s oid)))"
begin

lemma sequence_nth: "inv s \<Longrightarrow> i < length (hist s oid) \<Longrightarrow> ev_sequence (per_event (hist s oid ! i)) = int (Suc i)"
  using arg_cong [OF hist_sequences, of s "\<lambda>ys. ys ! i" oid] by (simp del: upt_Suc)

lemma check_page:
  assumes "inv s"
  shows "check_tail_batch oid (int n) (take k (drop n (hist s oid)))
    = Inr (int (n + length (take k (drop n (hist s oid)))))"
proof (induction k arbitrary: n)
  case (Suc k)
  show ?case
  proof (cases "n < length (hist s oid)")
    case True
    then have d: "drop n (hist s oid) = hist s oid ! n # drop (Suc n) (hist s oid)" by (simp add: Cons_nth_drop_Suc)
    have "ev_order_id (per_event (hist s oid ! n)) = oid" using hist_order [OF assms] True by simp
    with sequence_nth [OF assms True] Suc [of "Suc n"] show ?thesis by (simp add: d)
  qed simp
qed simp

text \<open>The loop of the resolver and of the validator ends, and returns exactly the events after the
  given sequence, whatever the size of a page.\<close>

lemma load_all_complete:
  assumes "inv s" and "\<not> py_blank oid" and "0 < limit"
  shows "load_all_tail_records (load_after s) limit oid (int n) rs = Some (Inr (rs @ drop n (hist s oid)))"
proof (induction "length (hist s oid) - n" arbitrary: n rs rule: less_induct)
  case less
  let ?h = "hist s oid" and ?b = "take (nat limit) (drop n (hist s oid))"
  have b: "load_after s oid (int n) limit = Inr ?b"
    using page [OF assms(1,2) _ assms(3), of "int n"] filter_after_position [OF hist_sequences [OF assms(1)], of n oid]
    by simp
  show ?case
  proof (cases "n < length ?h")
    case True
    then have ne: "?b \<noteq> []" and lt: "length ?h - (n + length ?b) < length ?h - n" using assms(3) by auto
    have "drop (length ?b) (drop n ?h) = drop (nat limit) (drop n ?h)" by (simp add: min_def)
    then have "drop n ?h = ?b @ drop (n + length ?b) ?h"
      using append_take_drop_id [of "nat limit" "drop n ?h"] by (simp add: add.commute)
    with less [OF lt, of "rs @ ?b"] check_page [OF assms(1), of oid n "nat limit"] ne b show ?thesis
      by (simp add: load_all_tail_records.simps [of "load_after s" limit oid "int n"])
  next
    case False
    with b show ?thesis by (simp add: load_all_tail_records.simps [of "load_after s" limit oid "int n"])
  qed
qed

end

section \<open>What validation and resolution compute\<close>

text \<open>The state that a snapshot and the events after it lead to.\<close>

definition assisted_state :: "OrderEvent list \<Rightarrow> ProjectionSnapshot \<Rightarrow> OrderState res" where
  "assisted_state events sn = bind_res (hydrate_snapshot_state sn) (\<lambda>st0.
     fold_res reduce_order_event st0 (drop (nat (source_event_sequence sn)) events))"

text \<open>The readers of one observation: the latest snapshot of an order, a snapshot by identity, the
  accepted history and its tail, all of the same database.\<close>

locale snapshot_readers = tail_source +
  fixes latest :: "'s \<Rightarrow> string \<Rightarrow> ProjectionSnapshot option res"
    and by_id :: "'s \<Rightarrow> string \<Rightarrow> ProjectionSnapshot option res"
    and load_history :: "'s \<Rightarrow> string \<Rightarrow> OrderEvent list res"
  assumes history: "inv s \<Longrightarrow> load_history s oid = Inr (map per_event (hist s oid))"
    and legal: "inv s \<Longrightarrow> hist s oid \<noteq> [] \<Longrightarrow> legal_history oid (map per_event (hist s oid))"
begin

lemma authority:
  assumes "inv s" and "hist s oid \<noteq> []"
  obtains a where "replay_authority_state oid (map per_event (hist s oid)) = Inr a"
    and "project oid (map per_event (hist s oid)) = Inr a" and "\<not> py_blank oid"
proof -
  from legal [OF assms] have "\<not> py_blank oid" by (auto simp: OrderAggregate_init_def split: sum.splits if_splits)
  moreover obtain a where "project oid (map per_event (hist s oid)) = Inr (state_of a)"
    by (rule project_legal_history [OF legal [OF assms]])
  ultimately show ?thesis using that by (simp add: replay_authority_state_def project_def)
qed

lemma max_sequence:
  assumes "inv s" and "hist s oid \<noteq> []"
  shows "Max (set (map ev_sequence (map per_event (hist s oid)))) = int (length (hist s oid))"
proof -
  have "set (map ev_sequence (map per_event (hist s oid))) = set (map int [1..<Suc (length (hist s oid))])"
    using hist_sequences [OF assms(1), of oid] by (simp only: list.map_comp o_def)
  also have "\<dots> = int ` {1..length (hist s oid)}" by (simp add: atLeastLessThanSuc_atLeastAtMost del: upt_Suc)
  finally have e: "set (map ev_sequence (map per_event (hist s oid))) = int ` {1..length (hist s oid)}" .
  show ?thesis unfolding e by (rule Max_eqI) (use assms(2) in \<open>auto simp: Suc_le_eq\<close>)
qed

lemma snapshot_replay_verdict:
  assumes "inv s" and "\<not> py_blank oid" and "0 < limit" and "0 \<le> source_event_sequence sn"
    and "state_status sn \<in> set [''CREATED'', ''PAID'']"
  shows "\<exists>r. validate_snapshot_replay (load_after s) limit oid sn a = Some (Inr r)
      \<and> sv_snapshot_id r = Some (snapshot_id sn) \<and> sv_authority_state r = Some a
      \<and> sv_status r = (case assisted_state (map per_event (hist s oid)) sn of Inl _ \<Rightarrow> SV_SNAPSHOT_ASSISTED_DRIFT
          | Inr st \<Rightarrow> if OrderState_eq st a then SV_MATCH else SV_SNAPSHOT_ASSISTED_DRIFT)
      \<and> (\<forall>st. assisted_state (map per_event (hist s oid)) sn = Inr st \<longrightarrow> sv_snapshot_assisted_state r = Some st)"
proof -
  from assms(5) obtain st0 where st0: "hydrate_snapshot_state sn = Inr st0"
    by (auto simp: hydrate_snapshot_state_def OrderStatus_of_def)
  let ?tail = "drop (nat (source_event_sequence sn)) (hist s oid)"
  have ld: "load_all_tail_records (load_after s) limit oid (source_event_sequence sn) [] = Some (Inr ?tail)"
    using load_all_complete [OF assms(1-3), of "nat (source_event_sequence sn)" "[]"] assms(4) by simp
  obtain st f where f: "replay_tail st0 ?tail = (st, f)" by force
  have "assisted_state (map per_event (hist s oid)) sn = (case f of None \<Rightarrow> Inr st | Some x \<Rightarrow> Inl x)"
    by (simp add: assisted_state_def st0 drop_map replay_tail_fold f)
  with replay_tail_ValueError [of st0 ?tail st] f show ?thesis
    by (cases f) (simp_all add: validate_snapshot_replay_def st0 ld f validation_result_def)
qed

lemma validate_order_total:
  assumes "inv s" and "0 < limit" and "latest s oid = Inr found"
  shows "\<exists>r. validate_order (latest s) (load_history s) (load_after s) limit oid = Some (Inr r)
    \<and> sv_status r \<noteq> SV_TAIL_EVENT_SOURCE_CONTRACT_VIOLATION
    \<and> (sv_status r = SV_MATCH \<longleftrightarrow> (\<exists>sn a st. hist s oid \<noteq> [] \<and> found = Some sn
          \<and> validate_snapshot_boundary sn oid (int (length (hist s oid))) = None
          \<and> project oid (map per_event (hist s oid)) = Inr a \<and> assisted_state (map per_event (hist s oid)) sn = Inr st \<and> OrderState_eq st a))"
proof (cases "hist s oid = []")
  case True
  with assms history [OF assms(1)] show ?thesis by (simp add: validate_order_def validation_result_def)
next
  case False
  obtain a where a: "replay_authority_state oid (map per_event (hist s oid)) = Inr a"
    "project oid (map per_event (hist s oid)) = Inr a" "\<not> py_blank oid" by (rule authority [OF assms(1) False])
  note common = validate_order_def assms(3) history [OF assms(1)] False a(1,2) Let_def
    max_sequence [OF assms(1) False, unfolded list.set_map list.map_comp o_def, simplified]
  show ?thesis
  proof (cases found)
    case None
    then show ?thesis by (simp add: common validation_result_def)
  next
    case (Some sn)
    show ?thesis
    proof (cases "validate_snapshot_boundary sn oid (int (length (hist s oid)))")
      case None
      then have "0 \<le> source_event_sequence sn" "state_status sn \<in> set [''CREATED'', ''PAID'']"
        by (auto simp: validate_snapshot_boundary_def split: if_splits)
      from snapshot_replay_verdict [OF assms(1) a(3) assms(2) this, of a] Some None show ?thesis
        by (auto simp: common image_image split: sum.splits if_splits)
    next
      case reason: (Some reason)
      with Some show ?thesis by (simp add: common image_image validation_result_def)
    qed
  qed
qed

lemma resolve_order_verdict:
  assumes "inv s" and "\<not> py_blank oid" and "0 < limit" and "by_id s tid = Inr (Some sn)"
    and "validate_snapshot_compatibility sn oid = None"
  shows "\<exists>r. resolve_order (by_id s) (load_after s) limit oid (Some tid) = Some (Inr r)
      \<and> (case assisted_state (map per_event (hist s oid)) sn of Inl _ \<Rightarrow> sr_status r = SR_TAIL_REPLAY_FAILED
          | Inr st \<Rightarrow> sr_status r = SR_RESOLVED_FROM_SNAPSHOT \<and> sr_resolved_state r = Some st)"
proof -
  from assms(5) have sn: "0 \<le> source_event_sequence sn" "state_status sn \<in> set [''CREATED'', ''PAID'']"
    by (auto simp: validate_snapshot_compatibility_def split: if_splits)
  from sn(2) obtain st0 where st0: "hydrate_snapshot_state sn = Inr st0"
    by (auto simp: hydrate_snapshot_state_def OrderStatus_of_def)
  let ?tail = "drop (nat (source_event_sequence sn)) (hist s oid)"
  have ld: "load_all_tail_records (load_after s) limit oid (source_event_sequence sn) [] = Some (Inr ?tail)"
    using load_all_complete [OF assms(1-3), of "nat (source_event_sequence sn)" "[]"] sn(1) by simp
  obtain st f where f: "replay_tail st0 ?tail = (st, f)" by force
  have "assisted_state (map per_event (hist s oid)) sn = (case f of None \<Rightarrow> Inr st | Some x \<Rightarrow> Inl x)"
    by (simp add: assisted_state_def st0 drop_map replay_tail_fold f)
  with replay_tail_ValueError [of st0 ?tail st] f assms(4,5) show ?thesis
    by (cases f) (simp_all add: resolve_order_def resolve_from_snapshot_def st0 ld f resolution_failure_def)
qed

text \<open>A snapshot that holds the projection of the events up to its boundary leads to the projection
  of the whole history.\<close>

lemma faithful_snapshot_resolves:
  assumes "inv s" and "hist s oid \<noteq> []" and "source_event_sequence sn \<le> int (length (hist s oid))"
    and "hydrate_snapshot_state sn = Inr st0"
    and "project oid (map per_event (take (nat (source_event_sequence sn)) (hist s oid))) = Inr st0"
  shows "assisted_state (map per_event (hist s oid)) sn = project oid (map per_event (hist s oid))"
proof -
  let ?n = "nat (source_event_sequence sn)"
  have "map per_event (hist s oid) = map per_event (take ?n (hist s oid)) @ drop ?n (map per_event (hist s oid))"
    by (metis append_take_drop_id drop_map map_append)
  with assms(4,5) show ?thesis
    unfolding assisted_state_def project_def by (metis bind_res_simps(2) fold_res_append)
qed

end

end
