(* ===== verification/Postgres_Projection.thy ===== *)
theory Postgres_Projection
  imports Postgres_Store Snapshot
begin

text \<open>
  The durable read side over the accepted history: \<open>order_projection_definition.py\<close>,
  \<open>postgres_worker.py\<close> and \<open>replay_validator.py\<close> of \<open>src/pipeline/projection\<close>, and the PostgreSQL
  stores and sources they use (\<open>projection_progress_store.py\<close>,
  \<open>postgres_projection_progress_store.py\<close>, \<open>postgres_projection_store.py\<close>,
  \<open>postgres_projection_eligible_event_source.py\<close>, \<open>postgres_projection_event_source.py\<close>,
  \<open>postgres_order_event_tail_source.py\<close>, \<open>postgres_accepted_history_event_source.py\<close>,
  \<open>postgres_checkpoint_store.py\<close> of \<open>src/storage\<close>).
  The state is the tables these classes read and write. A row of \<open>order_events\<close> carries the global
  position that the server allocates, in any order, beside the columns of the write side. Rows
  that other sessions commit while a worker transaction runs are an argument of the transaction.
\<close>

section \<open>Tables\<close>

record projection_state_row =
  psr_status :: string
  psr_total_amount :: decimal
  psr_paid_amount :: decimal
  psr_version :: int
  psr_last_sequence :: int

record ProjectionOrderProgress =
  pg_projection_name :: string
  pg_projection_epoch :: int
  pg_order_id :: string
  last_sequence :: int
  pg_last_event_id :: string
  last_global_position :: int

record read_db =
  rd_events :: "(int \<times> order_event_row) list"
  rd_states :: "string \<rightharpoonup> projection_state_row"
  rd_progress :: "string \<times> int \<times> string \<rightharpoonup> ProjectionOrderProgress"
  rd_checkpoints :: "string \<rightharpoonup> string \<times> string"
  rd_snapshots :: "ProjectionSnapshot list"

text \<open>\<open>length(trim(x)) > 0\<close>.\<close>

definition sql_not_blank :: "string \<Rightarrow> bool" where
  "sql_not_blank s = (\<exists>c \<in> set s. c \<noteq> CHR '' '')"

definition projection_state_checks :: "string \<Rightarrow> projection_state_row \<Rightarrow> bool" where
  "projection_state_checks order_id row \<longleftrightarrow>
     sql_not_blank order_id \<and> psr_status row \<in> set [''INIT'', ''CREATED'', ''PAID'']
     \<and> dec_le (Dec False 0 0) (psr_total_amount row) \<and> dec_le (Dec False 0 0) (psr_paid_amount row)
     \<and> dec_le (psr_paid_amount row) (psr_total_amount row)
     \<and> 0 \<le> psr_version row \<and> 0 \<le> psr_last_sequence row"

section \<open>Projection definition\<close>

definition ORDER_STATE_PROJECTION_NAME :: string where
  "ORDER_STATE_PROJECTION_NAME = ''order_state_projection''"

definition ORDER_STATE_PROJECTION_EPOCH :: int where
  "ORDER_STATE_PROJECTION_EPOCH = 1"

definition require_current_order_state_projection :: "string \<Rightarrow> int \<Rightarrow> unit res" where
  "require_current_order_state_projection projection_name projection_epoch =
     (if projection_name \<noteq> ORDER_STATE_PROJECTION_NAME
      then Inl (ValueError (''unsupported projection_name; expected '' @ [CHR 0x27] @ ORDER_STATE_PROJECTION_NAME @ [CHR 0x27]))
      else if projection_epoch \<noteq> ORDER_STATE_PROJECTION_EPOCH
      then Inl (ValueError ''unsupported projection_epoch; expected 1'') else Inr ())"

section \<open>Stores and sources\<close>

definition pg_load_state :: "read_db \<Rightarrow> string \<Rightarrow> OrderState option res" where
  "pg_load_state d order_id =
     (case rd_states d order_id of
        None \<Rightarrow> Inr None
      | Some row \<Rightarrow>
          bind_res (OrderStatus_of (psr_status row)) (\<lambda>s.
            Inr (Some \<lparr>st_order_id = order_id, st_status = s, st_total_amount = psr_total_amount row,
                       st_paid_amount = psr_paid_amount row, st_version = psr_version row\<rparr>)))"

definition pg_save_state :: "read_db \<Rightarrow> OrderState \<Rightarrow> read_db res" where
  "pg_save_state d st =
     bind_res (column (text_in (st_order_id st))) (\<lambda>order_id.
     bind_res (column (numeric_18_2_in (st_total_amount st))) (\<lambda>total.
     bind_res (column (numeric_18_2_in (st_paid_amount st))) (\<lambda>paid.
     bind_res (column (int4_in (st_version st))) (\<lambda>version.
       let row = \<lparr>psr_status = OrderStatus_value (st_status st), psr_total_amount = total,
                  psr_paid_amount = paid, psr_version = version, psr_last_sequence = version\<rparr>
       in if projection_state_checks order_id row
          then Inr (d\<lparr>rd_states := (rd_states d)(order_id \<mapsto> row)\<rparr>)
          else Inl (DatabaseError ''check constraint of projection_states'')))))"

definition pg_projection_store_clear :: "read_db \<Rightarrow> read_db" where
  "pg_projection_store_clear d = d\<lparr>rd_states := Map.empty\<rparr>"

definition ProjectionOrderProgress_init :: "ProjectionOrderProgress \<Rightarrow> ProjectionOrderProgress res" where
  "ProjectionOrderProgress_init self =
     (if py_blank (pg_projection_name self) then Inl (ValueError ''projection_name must not be empty'')
      else if pg_projection_epoch self \<le> 0 then Inl (ValueError ''projection_epoch must be positive'')
      else if py_blank (pg_order_id self) then Inl (ValueError ''order_id must not be empty'')
      else if last_sequence self \<le> 0 then Inl (ValueError ''last_sequence must be positive'')
      else if py_blank (pg_last_event_id self) then Inl (ValueError ''last_event_id must not be empty'')
      else if last_global_position self \<le> 0 then Inl (ValueError ''last_global_position must be positive'')
      else Inr self)"

definition validate_identity :: "string \<Rightarrow> int \<Rightarrow> string \<Rightarrow> unit res" where
  "validate_identity projection_name projection_epoch order_id =
     bind_res (require_current_order_state_projection projection_name projection_epoch) (\<lambda>_.
       if py_blank order_id then Inl (ValueError ''order_id must not be empty'') else Inr ())"

definition load_progress ::
  "read_db \<Rightarrow> string \<Rightarrow> int \<Rightarrow> string \<Rightarrow> ProjectionOrderProgress option res" where
  "load_progress d projection_name projection_epoch order_id =
     bind_res (validate_identity projection_name projection_epoch order_id) (\<lambda>_.
       case rd_progress d (projection_name, projection_epoch, order_id) of
         None \<Rightarrow> Inr None
       | Some row \<Rightarrow> bind_res (ProjectionOrderProgress_init row) (\<lambda>p. Inr (Some p)))"

text \<open>The one statement of \<open>advance_progress\<close>: the accepted event with the given lineage, an update
  of the existing row when it is exactly one behind, or the insertion of the first row. The
  conflict error is raised when neither returned a row.\<close>

definition accepted_event_row :: "read_db \<Rightarrow> ProjectionOrderProgress \<Rightarrow> string \<Rightarrow> (int \<times> order_event_row) option" where
  "accepted_event_row d p event_id =
     find (\<lambda>(gp, row). col_accepted_event_id row = event_id \<and> col_order_id row = pg_order_id p
             \<and> col_sequence row = last_sequence p \<and> gp = last_global_position p) (rd_events d)"

definition advance_progress :: "read_db \<Rightarrow> ProjectionOrderProgress \<Rightarrow> read_db res" where
  "advance_progress d p =
     bind_res (require_current_order_state_projection (pg_projection_name p) (pg_projection_epoch p)) (\<lambda>_.
     bind_res (column (uuid_in (pg_last_event_id p))) (\<lambda>event_id.
       let conflict = Inl (RuntimeError
             ''Projection progress must cite accepted-event lineage and advance by exactly one order-local sequence'');
           key = (pg_projection_name p, pg_projection_epoch p, pg_order_id p);
           written = p\<lparr>pg_last_event_id := event_id\<rparr>
       in case accepted_event_row d p event_id of
            None \<Rightarrow> conflict
          | Some _ \<Rightarrow>
              (case rd_progress d key of
                 Some progress \<Rightarrow>
                   if last_sequence progress + 1 = last_sequence p
                   then Inr (d\<lparr>rd_progress := (rd_progress d)(key \<mapsto> written)\<rparr>) else conflict
               | None \<Rightarrow>
                   if last_sequence p = 1
                   then Inr (d\<lparr>rd_progress := (rd_progress d)(key \<mapsto> written)\<rparr>) else conflict)))"

definition event_record :: "int \<times> order_event_row \<Rightarrow> ProjectionEventRecord res" where
  "event_record r = bind_res (row_to_order_event (snd r)) (\<lambda>e.
     Inr \<lparr>per_global_position = fst r, per_event = e\<rparr>)"

text \<open>Global positions are unique, so the further sort keys of the query never decide.\<close>

definition load_eligible ::
  "read_db \<Rightarrow> string \<Rightarrow> int \<Rightarrow> int \<Rightarrow> ProjectionEventRecord list res" where
  "load_eligible d projection_name projection_epoch limit =
     bind_res (require_current_order_state_projection projection_name projection_epoch) (\<lambda>_.
     if limit \<le> 0 then Inl (ValueError ''limit must be positive'')
     else map_res event_record (take (nat limit) (sort_key fst
       (filter (\<lambda>(gp, row). col_sequence row =
            (case rd_progress d (projection_name, projection_epoch, col_order_id row) of
               None \<Rightarrow> 0 | Some progress \<Rightarrow> last_sequence progress) + 1) (rd_events d)))))"

definition load_after :: "read_db \<Rightarrow> int \<Rightarrow> int \<Rightarrow> ProjectionEventRecord list res" where
  "load_after d global_position limit =
     (if global_position < 0 then Inl (ValueError ''global_position must be non-negative'')
      else if limit \<le> 0 then Inl (ValueError ''limit must be positive'')
      else map_res event_record (take (nat limit) (sort_key fst
        (filter (\<lambda>(gp, row). global_position < gp) (rd_events d)))))"

definition load_after_sequence :: "read_db \<Rightarrow> string \<Rightarrow> int \<Rightarrow> int \<Rightarrow> ProjectionEventRecord list res" where
  "load_after_sequence d order_id sequence limit =
     (if py_blank order_id then Inl (ValueError ''order_id must not be empty'')
      else if sequence < 0 then Inl (ValueError ''sequence must be non-negative'')
      else if limit \<le> 0 then Inl (ValueError ''limit must be positive'')
      else map_res event_record (take (nat limit) (sort_key (\<lambda>r. col_sequence (snd r))
        (filter (\<lambda>(gp, row). col_order_id row = order_id \<and> sequence < col_sequence row) (rd_events d)))))"

text \<open>\<open>PostgresEventStore.load\<close> on these tables, which \<open>PostgresAcceptedHistoryEventSource\<close> calls.\<close>

definition events_db :: "read_db \<Rightarrow> db" where
  "events_db d = \<lparr>order_events = map snd (rd_events d), idempotency_records = []\<rparr>"

definition accepted_history_load :: "read_db \<Rightarrow> string \<Rightarrow> OrderEvent list res" where
  "accepted_history_load d order_id = map_res row_to_order_event (stream_rows (events_db d) order_id)"

section \<open>Legacy checkpoints\<close>

datatype CheckpointCursorKind = CK_UNSPECIFIED | CK_APPENDED_AT | CK_EVENT_ID | CK_GLOBAL_POSITION

fun CheckpointCursorKind_value :: "CheckpointCursorKind \<Rightarrow> string" where
  "CheckpointCursorKind_value CK_UNSPECIFIED = ''UNSPECIFIED''"
| "CheckpointCursorKind_value CK_APPENDED_AT = ''APPENDED_AT''"
| "CheckpointCursorKind_value CK_EVENT_ID = ''EVENT_ID''"
| "CheckpointCursorKind_value CK_GLOBAL_POSITION = ''GLOBAL_POSITION''"

definition CheckpointCursorKind_of :: "string \<Rightarrow> CheckpointCursorKind res" where
  "CheckpointCursorKind_of s =
     (case find (\<lambda>k. CheckpointCursorKind_value k = s)
             [CK_UNSPECIFIED, CK_APPENDED_AT, CK_EVENT_ID, CK_GLOBAL_POSITION] of
        None \<Rightarrow> Inl (ValueError (''not a valid CheckpointCursorKind: '' @ s)) | Some k \<Rightarrow> Inr k)"

record ProjectionCheckpoint =
  cp_worker_name :: string
  cursor_kind :: CheckpointCursorKind
  cursor_value :: string

definition sql_trim :: "string \<Rightarrow> string" where
  "sql_trim s = rev (dropWhile (\<lambda>c. c = CHR '' '') (rev (dropWhile (\<lambda>c. c = CHR '' '') s)))"

fun checkpoint_value_aligned :: "CheckpointCursorKind \<Rightarrow> string \<Rightarrow> bool" where
  "checkpoint_value_aligned CK_UNSPECIFIED v = (v = [])"
| "checkpoint_value_aligned CK_GLOBAL_POSITION v = (v \<noteq> [] \<and> list_all is_digit v)"
| "checkpoint_value_aligned CK_EVENT_ID v = (uuid_in (sql_trim v) \<noteq> None)"
| "checkpoint_value_aligned CK_APPENDED_AT v = sql_not_blank v"

definition load_checkpoint :: "read_db \<Rightarrow> string \<Rightarrow> ProjectionCheckpoint option res" where
  "load_checkpoint d worker =
     (case rd_checkpoints d worker of
        None \<Rightarrow> Inr None
      | Some (kind, v) \<Rightarrow> bind_res (CheckpointCursorKind_of kind) (\<lambda>k.
          Inr (Some \<lparr>cp_worker_name = worker, cursor_kind = k, cursor_value = v\<rparr>)))"

definition save_checkpoint :: "read_db \<Rightarrow> ProjectionCheckpoint \<Rightarrow> read_db res" where
  "save_checkpoint d checkpoint =
     bind_res (column (text_in (cp_worker_name checkpoint))) (\<lambda>worker.
     bind_res (column (text_in (cursor_value checkpoint))) (\<lambda>v.
       if sql_not_blank worker \<and> checkpoint_value_aligned (cursor_kind checkpoint) v
       then Inr (d\<lparr>rd_checkpoints :=
              (rd_checkpoints d)(worker \<mapsto> (CheckpointCursorKind_value (cursor_kind checkpoint), v))\<rparr>)
       else Inl (DatabaseError ''check constraint of projection_checkpoints'')))"

definition pg_checkpoint_store_clear :: "read_db \<Rightarrow> read_db" where
  "pg_checkpoint_store_clear d = d\<lparr>rd_checkpoints := Map.empty\<rparr>"

section \<open>The worker\<close>

record PostgresProjectionWorkerResult =
  pw_worker_name :: string
  pw_action :: string
  pw_global_position :: "int option"
  pw_order_id :: "string option"
  pw_event_sequence :: "int option"
  pw_projected_version :: "int option"
  pw_reason :: string

definition no_event_result :: "string \<Rightarrow> PostgresProjectionWorkerResult" where
  "no_event_result name =
     \<lparr>pw_worker_name = name, pw_action = ''no_event'', pw_global_position = None, pw_order_id = None,
      pw_event_sequence = None, pw_projected_version = None,
      pw_reason = ''no currently visible accepted event is eligible as the next order-local event for this projection definition and epoch''\<rparr>"

text \<open>Rows of other sessions become visible.\<close>

definition arrive :: "(int \<times> order_event_row) list \<Rightarrow> read_db \<Rightarrow> read_db" where
  "arrive late d = d\<lparr>rd_events := rd_events d @ late\<rparr>"

text \<open>What the transaction does with the event it found; the connections of the collaborators are
  compared by the constructor, and \<open>idle\<close> is the transaction status on entry. A raised exception
  rolls the own writes back.\<close>

definition apply_record :: "string \<Rightarrow> read_db \<Rightarrow> ProjectionEventRecord \<Rightarrow> (read_db \<times> PostgresProjectionWorkerResult) res" where
  "apply_record name d r =
     (let event = per_event r
      in bind_res (pg_load_state d (ev_order_id event)) (\<lambda>found.
         let current_state = (case found of None \<Rightarrow> build_empty_projection_state (ev_order_id event) | Some st \<Rightarrow> st)
         in bind_res (reduce_order_event current_state event) (\<lambda>next_state.
            bind_res (pg_save_state d next_state) (\<lambda>d1.
            bind_res (ProjectionOrderProgress_init
                \<lparr>pg_projection_name = ORDER_STATE_PROJECTION_NAME, pg_projection_epoch = ORDER_STATE_PROJECTION_EPOCH,
                 pg_order_id = ev_order_id event, last_sequence = ev_sequence event,
                 pg_last_event_id = ev_event_id event, last_global_position = per_global_position r\<rparr>) (\<lambda>progress.
            bind_res (advance_progress d1 progress) (\<lambda>d2.
              Inr (d2, \<lparr>pw_worker_name = name, pw_action = ''applied'',
                 pw_global_position = Some (per_global_position r), pw_order_id = Some (ev_order_id event),
                 pw_event_sequence = Some (ev_sequence event), pw_projected_version = Some (st_version next_state),
                 pw_reason = ''accepted event applied and per-order progress advanced''\<rparr>)))))))"

definition worker_init :: "nat \<Rightarrow> string \<Rightarrow> nat \<Rightarrow> nat \<Rightarrow> nat \<Rightarrow> unit res" where
  "worker_init connection name event_source_connection projection_store_connection progress_store_connection =
     (if py_blank name then Inl (ValueError ''worker_name must not be empty'')
      else if event_source_connection \<noteq> connection
      then Inl (ValueError ''event_source must share the exact worker connection'')
      else if projection_store_connection \<noteq> connection
      then Inl (ValueError ''projection_store must share the exact worker connection'')
      else if progress_store_connection \<noteq> connection
      then Inl (ValueError ''progress_store must share the exact worker connection'')
      else Inr ())"

definition pg_process_next ::
  "string \<Rightarrow> bool \<Rightarrow> (int \<times> order_event_row) list \<Rightarrow> read_db \<Rightarrow> read_db \<times> PostgresProjectionWorkerResult res" where
  "pg_process_next name idle late d =
     (if \<not> idle
      then (d, Inl (RuntimeError ''PostgresProjectionWorker.process_next requires an idle connection so it can own a top-level transaction''))
      else
        (let d1 = arrive late d
         in case load_eligible d ORDER_STATE_PROJECTION_NAME ORDER_STATE_PROJECTION_EPOCH 1 of
              Inl x \<Rightarrow> (d1, Inl x)
            | Inr records \<Rightarrow>
                (case records of
                   [] \<Rightarrow> (d1, Inr (no_event_result name))
                 | r # _ \<Rightarrow>
                     (case apply_record name d1 r of
                        Inl x \<Rightarrow> (d1, Inl x)
                      | Inr (d2, result) \<Rightarrow> (d2, Inr result)))))"

section \<open>The replay validator\<close>

datatype ReplayValidationStatus = RV_MATCH | RV_MISSING_PROJECTION | RV_DRIFT | RV_NO_ACCEPTED_HISTORY

record ReplayValidationResult =
  rv_order_id :: string
  rv_status :: ReplayValidationStatus
  rv_expected_state :: "OrderState option"
  rv_persisted_state :: "OrderState option"
  rv_reason :: string

definition replay_validator_init :: "nat \<Rightarrow> nat \<Rightarrow> unit res" where
  "replay_validator_init event_store_connection projection_store_connection =
     (if event_store_connection \<noteq> projection_store_connection
      then Inl (ValueError ''event_store and projection_store must share the exact validator connection'')
      else Inr ())"

definition validate_projection :: "read_db \<Rightarrow> string \<Rightarrow> ReplayValidationResult res" where
  "validate_projection d order_id =
     bind_res (accepted_history_load d order_id) (\<lambda>accepted_events.
     if accepted_events = []
     then bind_res (pg_load_state d order_id) (\<lambda>persisted_state.
       Inr \<lparr>rv_order_id = order_id, rv_status = RV_NO_ACCEPTED_HISTORY, rv_expected_state = None,
            rv_persisted_state = persisted_state, rv_reason = ''No accepted history exists for order''\<rparr>)
     else bind_res (fold_res reduce_order_event (build_empty_projection_state order_id) accepted_events)
       (\<lambda>expected_state.
       bind_res (pg_load_state d order_id) (\<lambda>found.
       case found of
         None \<Rightarrow> Inr \<lparr>rv_order_id = order_id, rv_status = RV_MISSING_PROJECTION,
           rv_expected_state = Some expected_state, rv_persisted_state = None,
           rv_reason = ''Accepted history exists but projection state is missing''\<rparr>
       | Some persisted_state \<Rightarrow>
           if \<not> OrderState_eq persisted_state expected_state
           then Inr \<lparr>rv_order_id = order_id, rv_status = RV_DRIFT, rv_expected_state = Some expected_state,
             rv_persisted_state = Some persisted_state,
             rv_reason = ''Persisted projection state differs from replay-derived state''\<rparr>
           else Inr \<lparr>rv_order_id = order_id, rv_status = RV_MATCH, rv_expected_state = Some expected_state,
             rv_persisted_state = Some persisted_state,
             rv_reason = ''Persisted projection state matches replay-derived state''\<rparr>)))"

definition durable_validate_order :: "bool \<Rightarrow> read_db \<Rightarrow> string \<Rightarrow> ReplayValidationResult res" where
  "durable_validate_order idle d order_id =
     (if \<not> idle
      then Inl (RuntimeError ''DurableReplayValidator.validate_order requires an idle connection so it can own a top-level transaction'')
      else validate_projection d order_id)"

section \<open>Histories of the tables\<close>

text \<open>The event table holds the rows of a legal write side, each at its own positive position.\<close>

definition read_ok :: "read_db \<Rightarrow> bool" where
  "read_ok d \<longleftrightarrow> (\<exists>is. legal_db \<lparr>order_events = map snd (rd_events d), idempotency_records = is\<rparr>)
     \<and> distinct (map fst (rd_events d)) \<and> (\<forall>r \<in> set (rd_events d). 0 < fst r)"

definition order_rows :: "read_db \<Rightarrow> string \<Rightarrow> (int \<times> order_event_row) list" where
  "order_rows d oid = sort_key (\<lambda>r. col_sequence (snd r)) (filter (\<lambda>r. col_order_id (snd r) = oid) (rd_events d))"

definition record_of :: "int \<times> order_event_row \<Rightarrow> ProjectionEventRecord" where
  "record_of r = \<lparr>per_global_position = fst r, per_event = event_of (snd r)\<rparr>"

definition order_records :: "read_db \<Rightarrow> string \<Rightarrow> ProjectionEventRecord list" where
  "order_records d oid = map record_of (order_rows d oid)"

abbreviation accepted :: "read_db \<Rightarrow> string \<Rightarrow> OrderEvent list" where
  "accepted d oid \<equiv> map per_event (order_records d oid)"

lemma map_insort_key: "map g (insort_key (\<lambda>x. f (g x)) x xs) = insort_key f (g x) (map g xs)"
  by (induction xs) auto

lemma map_sort_key: "map g (sort_key (\<lambda>x. f (g x)) xs) = sort_key f (map g xs)"
  by (induction xs) (simp_all add: map_insort_key)

lemma order_rows_set: "set (order_rows d oid) = {r \<in> set (rd_events d). col_order_id (snd r) = oid}"
  by (auto simp: order_rows_def)

lemma order_rows_stream: "map snd (order_rows d oid) = stream_rows (events_db d) oid"
  by (simp add: order_rows_def stream_rows_def events_db_def map_sort_key filter_map o_def)

lemma accepted_stream: "accepted d oid = map event_of (stream_rows (events_db d) oid)"
  by (simp add: order_records_def record_of_def o_def flip: order_rows_stream)

lemma read_okE:
  assumes "read_ok d"
  obtains "is" where "legal_db \<lparr>order_events = map snd (rd_events d), idempotency_records = is\<rparr>"
    and "db_ok \<lparr>order_events = map snd (rd_events d), idempotency_records = is\<rparr>"
  using assms by (auto simp: read_ok_def legal_db_def)

lemma read_ok_rows:
  assumes "read_ok d" and "r \<in> set (rd_events d)"
  shows "event_row_typed (snd r)" and "event_row_checks (snd r)" and "0 < fst r"
proof -
  obtain "is" where "db_ok \<lparr>order_events = map snd (rd_events d), idempotency_records = is\<rparr>"
    by (rule read_okE [OF assms(1)])
  with assms(2) show "event_row_typed (snd r)" "event_row_checks (snd r)" by (auto simp: db_ok_def list_all_iff)
  show "0 < fst r" using assms by (simp add: read_ok_def)
qed

lemma read_ok_unique:
  assumes "read_ok d" and "r \<in> set (rd_events d)" and "q \<in> set (rd_events d)"
    and "col_order_id (snd r) = col_order_id (snd q)" and "col_sequence (snd r) = col_sequence (snd q)"
  shows "r = q"
proof -
  obtain "is" where "db_ok \<lparr>order_events = map snd (rd_events d), idempotency_records = is\<rparr>"
    by (rule read_okE [OF assms(1)])
  then have "distinct (map (\<lambda>r. (col_order_id (snd r), col_sequence (snd r))) (rd_events d))"
    by (simp add: db_ok_def o_def)
  from distinct_map_unique [OF this assms(2,3)] assms(4,5) show ?thesis by simp
qed

lemma event_records:
  assumes "read_ok d" and "set rs \<subseteq> set (rd_events d)"
  shows "map_res event_record rs = Inr (map record_of rs)"
  by (rule map_res_total)
     (use assms read_ok_rows(1) in \<open>auto simp: event_record_def record_of_def typed_row_event\<close>)

lemma accepted_history:
  assumes "read_ok d"
  shows "accepted_history_load d oid = Inr (accepted d oid)"
proof -
  obtain "is" where ok: "db_ok \<lparr>order_events = map snd (rd_events d), idempotency_records = is\<rparr>" (is "db_ok ?d")
    by (rule read_okE [OF assms])
  have "stream_rows (events_db d) oid = stream_rows ?d oid" by (simp add: stream_rows_def events_db_def)
  with history_map(1) [OF ok, of oid] show ?thesis by (simp add: accepted_history_load_def accepted_stream del: map_map)
qed

lemma row_sequences:
  assumes "read_ok d"
  shows "map (\<lambda>r. col_sequence (snd r)) (order_rows d oid) = map int [1..<Suc (length (order_rows d oid))]"
proof -
  obtain "is" where ok: "legal_db \<lparr>order_events = map snd (rd_events d), idempotency_records = is\<rparr>" (is "legal_db ?d")
    by (rule read_okE [OF assms])
  have st: "stream_rows ?d oid = map snd (order_rows d oid)"
    by (simp add: order_rows_stream stream_rows_def events_db_def)
  from stream_sequences [OF ok, of oid] show ?thesis unfolding st by (simp add: o_def del: upt_Suc)
qed

lemma row_nth:
  assumes "read_ok d" and "i < length (order_rows d oid)"
  shows "col_sequence (snd (order_rows d oid ! i)) = int (Suc i)"
  using arg_cong [OF row_sequences [OF assms(1)], of "\<lambda>ys. ys ! i" oid] assms(2) by (simp del: upt_Suc)

lemma row_position:
  assumes "read_ok d" and "r \<in> set (rd_events d)"
  obtains i where "i < length (order_rows d (col_order_id (snd r)))" and "order_rows d (col_order_id (snd r)) ! i = r"
    and "col_sequence (snd r) = int (Suc i)"
proof -
  from assms(2) have "r \<in> set (order_rows d (col_order_id (snd r)))" by (simp add: order_rows_set)
  then obtain i where "i < length (order_rows d (col_order_id (snd r)))" "order_rows d (col_order_id (snd r)) ! i = r"
    by (auto simp: in_set_conv_nth)
  with row_nth [OF assms(1)] that show ?thesis by metis
qed

lemma accepted_legal:
  assumes "read_ok d" and "\<not> py_blank oid"
  shows "legal_history oid (accepted d oid)"
proof -
  obtain "is" where l: "legal_db \<lparr>order_events = map snd (rd_events d), idempotency_records = is\<rparr>"
    and ok: "db_ok \<lparr>order_events = map snd (rd_events d), idempotency_records = is\<rparr>" (is "db_ok ?d")
    by (rule read_okE [OF assms(1)])
  have "history ?d oid = accepted d oid"
    unfolding history_map(2) [OF ok] accepted_stream by (simp add: stream_rows_def events_db_def)
  with legal_db_history [OF l assms(2)] show ?thesis by (simp only:)
qed

lemma row_not_blank:
  assumes "read_ok d" and "r \<in> set (rd_events d)"
  shows "\<not> py_blank (col_order_id (snd r))"
proof -
  obtain "is" where "legal_db \<lparr>order_events = map snd (rd_events d), idempotency_records = is\<rparr>"
    by (rule read_okE [OF assms(1)])
  with assms(2) have "\<exists>es. legal_history (col_order_id (snd r)) es" by (auto simp: legal_db_def simp del: legal_history.simps)
  then show ?thesis by (auto simp: OrderAggregate_init_def split: sum.splits if_splits)
qed

interpretation pg_tail: tail_source read_ok order_records load_after_sequence
proof
  fix d r oid and seq limit :: int
  assume ok: "read_ok d"
  {
    assume "r \<in> set (order_records d oid)"
    then show "ev_order_id (per_event r) = oid"
      using read_ok_rows(1) [OF ok]
      by (auto simp: order_records_def order_rows_set record_of_def typed_row_event)
  next
    have "map (\<lambda>r. ev_sequence (per_event r)) (order_records d oid) = map (\<lambda>r. col_sequence (snd r)) (order_rows d oid)"
      using read_ok_rows(1) [OF ok]
      by (auto simp: order_records_def order_rows_set record_of_def typed_row_event)
    with row_sequences [OF ok, of oid]
    show "map (\<lambda>r. ev_sequence (per_event r)) (order_records d oid) = map int [1..<Suc (length (order_records d oid))]"
      by (simp add: order_records_def del: upt_Suc)
  next
    assume a: "\<not> py_blank oid" "0 \<le> seq" "0 < limit"
    have sub: "set (take (nat limit) (filter (\<lambda>r. seq < col_sequence (snd r)) (order_rows d oid))) \<subseteq> set (rd_events d)"
      by (auto simp: order_rows_set dest!: in_set_takeD)
    have "sort_key (\<lambda>r. col_sequence (snd r))
        (filter (\<lambda>(gp, row). col_order_id row = oid \<and> seq < col_sequence row) (rd_events d))
        = filter (\<lambda>r. seq < col_sequence (snd r)) (order_rows d oid)"
      by (simp add: order_rows_def filter_sort conj_commute split_def)
    with a event_records [OF ok sub]
    have "load_after_sequence d oid seq limit
        = Inr (map record_of (take (nat limit) (filter (\<lambda>r. seq < col_sequence (snd r)) (order_rows d oid))))"
      by (simp add: load_after_sequence_def)
    also have "map record_of (take (nat limit) (filter (\<lambda>r. seq < col_sequence (snd r)) (order_rows d oid)))
        = take (nat limit) (filter (\<lambda>r. seq < ev_sequence (per_event r)) (order_records d oid))"
    proof -
      have "filter (\<lambda>r. seq < ev_sequence (per_event (record_of r))) (order_rows d oid)
          = filter (\<lambda>r. seq < col_sequence (snd r)) (order_rows d oid)"
        using read_ok_rows(1) [OF ok] by (intro filter_cong) (auto simp: order_rows_set record_of_def typed_row_event)
      then show ?thesis by (simp add: order_records_def filter_map take_map o_def)
    qed
    finally show "load_after_sequence d oid seq limit
        = Inr (take (nat limit) (filter (\<lambda>r. seq < ev_sequence (per_event r)) (order_records d oid)))" .
  }
qed

text \<open>Arrivals extend every history at its end.\<close>

lemma arrive_rows:
  assumes "read_ok d" and "read_ok (arrive late d)"
  shows "order_rows d oid = take (length (order_rows d oid)) (order_rows (arrive late d) oid)"
    and "length (order_rows d oid) \<le> length (order_rows (arrive late d) oid)"
proof -
  let ?e = "arrive late d"
  show len: "length (order_rows d oid) \<le> length (order_rows ?e oid)" by (simp add: order_rows_def arrive_def)
  have "order_rows d oid ! i = order_rows ?e oid ! i" if i: "i < length (order_rows d oid)" for i
  proof (rule read_ok_unique [OF assms(2)])
    have "order_rows d oid ! i \<in> set (order_rows d oid)" "order_rows ?e oid ! i \<in> set (order_rows ?e oid)"
      using i len by simp_all
    then show "order_rows d oid ! i \<in> set (rd_events ?e)" "order_rows ?e oid ! i \<in> set (rd_events ?e)"
      "col_order_id (snd (order_rows d oid ! i)) = col_order_id (snd (order_rows ?e oid ! i))"
      unfolding order_rows_set by (auto simp: arrive_def)
    show "col_sequence (snd (order_rows d oid ! i)) = col_sequence (snd (order_rows ?e oid ! i))"
      using row_nth [OF assms(1) i] row_nth [OF assms(2), of i oid] i len by simp
  qed
  with len show "order_rows d oid = take (length (order_rows d oid)) (order_rows ?e oid)"
    by (intro nth_equalityI) simp_all
qed

lemma arrive_accepted:
  assumes "read_ok d" and "read_ok (arrive late d)" and "k \<le> length (order_rows d oid)"
  shows "take k (accepted (arrive late d) oid) = take k (accepted d oid)"
proof -
  have "take k (order_rows d oid) = take k (order_rows (arrive late d) oid)"
    using arrive_rows(1) [OF assms(1,2), of oid] assms(3) by (metis min.absorb1 take_take)
  then show ?thesis by (simp add: order_records_def take_map)
qed

section \<open>Projected states fit the table\<close>

lemma fold_res_invariant_on:
  assumes "fold_res step s es = Inr t" and "P s"
    and "\<And>s e t. e \<in> set es \<Longrightarrow> P s \<Longrightarrow> step s e = Inr t \<Longrightarrow> P t"
  shows "P t"
  using assms
proof (induction es arbitrary: s)
  case (Cons e es)
  then obtain u where u: "step s e = Inr u" "fold_res step u es = Inr t" by (auto simp: bind_res_eq_Inr)
  have "P u" by (rule Cons.prems(3) [OF _ Cons.prems(2) u(1)]) simp
  with u(2) show ?case by (rule Cons.IH) (rule Cons.prems(3); simp)
qed simp

definition amounts_fit :: "OrderState \<Rightarrow> bool" where
  "amounts_fit st \<longleftrightarrow> numeric_18_2_in (st_total_amount st) = Some (st_total_amount st)
     \<and> numeric_18_2_in (st_paid_amount st) = Some (st_paid_amount st)"

lemma typed_amount:
  assumes "event_row_typed r"
  shows "numeric_18_2_in (ev_amount (event_of r)) = Some (ev_amount (event_of r))"
    and "int4_in (col_sequence r) = Some (col_sequence r)" and "text_in (col_order_id r) = Some (col_order_id r)"
proof -
  have "ev_amount (event_of r) = col_amount r"
    using typed_row_event(1) [OF assms] by (auto simp: row_to_order_event_def res_simps dest!: sym [of _ "event_of r"])
  then show "numeric_18_2_in (ev_amount (event_of r)) = Some (ev_amount (event_of r))"
    and "int4_in (col_sequence r) = Some (col_sequence r)" and "text_in (col_order_id r) = Some (col_order_id r)"
    using typed_row_event(2) [OF assms] typed_row_event(3,4) [OF assms]
    by (cases r; auto simp: event_to_row_def res_simps)+
qed

lemma reduce_amounts_fit:
  assumes "amounts_fit st" and "reduce_order_event st e = Inr st'" and "numeric_18_2_in (ev_amount e) = Some (ev_amount e)"
  shows "amounts_fit st'"
  using assms by (auto simp: amounts_fit_def reduce_order_event_def Let_def split: if_splits EventType.splits)

lemma not_blank_sql: "\<not> py_blank s \<Longrightarrow> sql_not_blank s"
proof -
  have "py_isspace (CHR '' '')" by (simp add: py_isspace_def)
  moreover assume "\<not> py_blank s"
  ultimately show ?thesis unfolding sql_not_blank_def py_blank_iff by metis
qed

lemma agg_amounts:
  assumes "agg_inv a"
  obtains c c' where "total_amount a = Dec False c (- 2)" and "paid_amount a = Dec False c' (- 2)" and "c' \<le> c"
  using assms by (cases "total_amount a"; cases "status a") auto

lemma projection_amounts_fit:
  assumes ok: "read_ok d" and st: "project oid (take k (accepted d oid)) = Inr st"
  shows "amounts_fit st"
proof (rule fold_res_invariant_on [OF st [unfolded project_def], of amounts_fit])
  show "amounts_fit (build_empty_projection_state oid)"
    by (simp add: amounts_fit_def build_empty_projection_state_def)
next
  fix s e t
  assume e: "e \<in> set (take k (accepted d oid))" and s: "amounts_fit s" "reduce_order_event s e = Inr t"
  from e obtain q where q: "q \<in> set (rd_events d)" "e = event_of (snd q)"
    by (auto simp: order_records_def record_of_def order_rows_set dest!: in_set_takeD)
  show "amounts_fit t"
    using reduce_amounts_fit [OF s] typed_amount(1) [OF read_ok_rows(1) [OF ok q(1)]] q(2) by simp
qed

text \<open>A state projected from a non-empty prefix of an accepted history is stored, and read back as it
  was.\<close>

lemma projected_state_saved:
  assumes ok: "read_ok d" and k: "k < length (order_rows d oid)"
    and st: "project oid (take (Suc k) (accepted d oid)) = Inr st"
  obtains d1 where "pg_save_state d st = Inr d1" and "pg_load_state d1 oid = Inr (Some st)"
    and "\<And>oid'. oid' \<noteq> oid \<Longrightarrow> rd_states d1 oid' = rd_states d oid'"
    and "rd_events d1 = rd_events d" and "rd_progress d1 = rd_progress d" and "rd_snapshots d1 = rd_snapshots d"
    and "rd_checkpoints d1 = rd_checkpoints d"
proof -
  let ?r = "order_rows d oid ! k"
  from k have r: "?r \<in> set (rd_events d)" "col_order_id (snd ?r) = oid"
    using nth_mem [OF k] unfolding order_rows_set by auto
  note b = row_not_blank [OF ok r(1), unfolded r(2)]
  have leg: "legal_history oid (take (Suc k) (accepted d oid))"
    using accepted_legal [OF ok b] by (metis append_take_drop_id legal_history_prefix)
  obtain a where a: "project oid (take (Suc k) (accepted d oid)) = Inr (state_of a)" "agg_inv a"
    "rehydrate oid (take (Suc k) (accepted d oid)) = Inr a"
    by (rule project_legal_history [OF leg])
  obtain a' where a': "rehydrate oid (take (Suc k) (accepted d oid)) = Inr a'" "agg_order_id a' = oid"
    "current_version a' = int (length (take (Suc k) (accepted d oid)))" by (rule legal_history_replay [OF leg])
  have st': "st = state_of a" "agg_order_id a = oid" "current_version a = int (Suc k)"
    using a st a' k by (simp_all add: order_records_def)
  have "amounts_fit st" by (rule projection_amounts_fit [OF ok st])
  then have num: "numeric_18_2_in (total_amount a) = Some (total_amount a)"
    "numeric_18_2_in (paid_amount a) = Some (paid_amount a)" by (simp_all add: amounts_fit_def st')
  have typed: "text_in oid = Some oid" "int4_in (int (Suc k)) = Some (int (Suc k))"
    using typed_amount(2,3) [OF read_ok_rows(1) [OF ok r(1)]] row_nth [OF ok k] r(2) by simp_all
  note blank = not_blank_sql [OF b]
  let ?row = "\<lparr>psr_status = OrderStatus_value (status a), psr_total_amount = total_amount a,
      psr_paid_amount = paid_amount a, psr_version = int (Suc k), psr_last_sequence = int (Suc k)\<rparr>"
  have "projection_state_checks oid ?row"
    by (rule agg_amounts [OF a(2)], cases "status a") (use blank in \<open>auto simp: projection_state_checks_def dec_scaled_def\<close>)
  with num typed have "pg_save_state d st = Inr (d\<lparr>rd_states := (rd_states d)(oid \<mapsto> ?row)\<rparr>)"
    by (simp add: pg_save_state_def st')
  with that show ?thesis by (simp add: pg_load_state_def st')
qed

section \<open>A worker in step with the history\<close>

definition progress_of :: "read_db \<Rightarrow> string \<Rightarrow> nat" where
  "progress_of d oid =
     (case rd_progress d (ORDER_STATE_PROJECTION_NAME, ORDER_STATE_PROJECTION_EPOCH, oid) of
        None \<Rightarrow> 0 | Some p \<Rightarrow> nat (last_sequence p))"

definition order_in_step :: "read_db \<Rightarrow> string \<Rightarrow> bool" where
  "order_in_step d oid \<longleftrightarrow>
     progress_of d oid \<le> length (order_rows d oid)
     \<and> (\<forall>p. rd_progress d (ORDER_STATE_PROJECTION_NAME, ORDER_STATE_PROJECTION_EPOCH, oid) = Some p \<longrightarrow> 0 < last_sequence p)
     \<and> (if progress_of d oid = 0 then rd_states d oid = None
        else \<exists>st. pg_load_state d oid = Inr (Some st) \<and> project oid (take (progress_of d oid) (accepted d oid)) = Inr st)"

definition in_step :: "read_db \<Rightarrow> bool" where
  "in_step d \<longleftrightarrow> read_ok d \<and> (\<forall>oid. order_in_step d oid)"

lemma arrive_tables [simp]:
  "rd_states (arrive late d) = rd_states d" "rd_progress (arrive late d) = rd_progress d"
  "rd_events (arrive late d) = rd_events d @ late"
  "pg_load_state (arrive late d) = pg_load_state d" "progress_of (arrive late d) = progress_of d"
  by (simp_all add: arrive_def pg_load_state_def progress_of_def fun_eq_iff)

lemma arrive_in_step:
  assumes "in_step d" and "read_ok (arrive late d)"
  shows "in_step (arrive late d)"
proof -
  from assms(1) have ok: "read_ok d" and st: "\<And>oid. order_in_step d oid" by (simp_all add: in_step_def)
  have "order_in_step (arrive late d) oid" for oid
  proof -
    have "progress_of d oid \<le> length (order_rows d oid)" using st [of oid] by (simp add: order_in_step_def)
    from arrive_accepted [OF ok assms(2) this] arrive_rows(2) [OF ok assms(2), of oid] this st [of oid]
    show ?thesis by (simp add: order_in_step_def)
  qed
  with assms(2) show ?thesis by (simp add: in_step_def)
qed

lemma same_events:
  assumes "rd_events d' = rd_events d"
  shows "order_rows d' = order_rows d" "order_records d' = order_records d" "read_ok d' = read_ok d"
    "accepted_history_load d' = accepted_history_load d"
  using assms by (simp_all add: order_rows_def order_records_def read_ok_def accepted_history_load_def events_db_def fun_eq_iff)

text \<open>The next event of an order in step is applied.\<close>

lemma next_state:
  assumes "in_step d" and r: "r \<in> set (rd_events d)" "oid = col_order_id (snd r)"
    and seq: "col_sequence (snd r) = int (progress_of d oid) + 1"
  obtains cur st where "pg_load_state d oid = Inr cur"
    and "reduce_order_event (case cur of None \<Rightarrow> build_empty_projection_state oid | Some st \<Rightarrow> st) (event_of (snd r)) = Inr st"
    and "project oid (take (Suc (progress_of d oid)) (accepted d oid)) = Inr st" and "st_order_id st = oid"
    and "progress_of d oid < length (order_rows d oid)"
proof -
  let ?k = "progress_of d oid"
  from assms(1) have ok: "read_ok d" and st: "order_in_step d oid" by (simp_all add: in_step_def)
  obtain i where i: "i < length (order_rows d oid)" "order_rows d oid ! i = r" "col_sequence (snd r) = int (Suc i)"
    using row_position [OF ok r(1)] r(2) by metis
  with seq have ik: "i = ?k" by simp
  have tk: "take (Suc ?k) (accepted d oid) = take ?k (accepted d oid) @ [event_of (snd r)]"
    using i ik by (simp add: take_Suc_conv_app_nth order_records_def record_of_def)
  have leg: "legal_history oid (take (Suc ?k) (accepted d oid))"
    using accepted_legal [OF ok row_not_blank [OF ok r(1)]] r(2) by (metis append_take_drop_id legal_history_prefix)
  obtain a where a: "rehydrate oid (take (Suc ?k) (accepted d oid)) = Inr a"
    "project oid (take (Suc ?k) (accepted d oid)) = Inr (state_of a)" by (rule project_legal_history [OF leg])
  obtain b where "rehydrate oid (take (Suc ?k) (accepted d oid)) = Inr b" "agg_order_id b = oid"
    by (rule legal_history_replay [OF leg])
  with a(1) have "st_order_id (state_of a) = oid" by simp
  moreover obtain cur where "pg_load_state d oid = Inr cur"
    "project oid (take ?k (accepted d oid)) = Inr (case cur of None \<Rightarrow> build_empty_projection_state oid | Some st \<Rightarrow> st)"
  proof (cases "?k = 0")
    case True
    with st that [of None] show ?thesis by (simp add: order_in_step_def project_def pg_load_state_def)
  next
    case False
    with st obtain st' where "pg_load_state d oid = Inr (Some st')" "project oid (take ?k (accepted d oid)) = Inr st'"
      by (auto simp: order_in_step_def)
    with that [of "Some st'"] show ?thesis by simp
  qed
  ultimately show ?thesis using that a(2) i ik by (simp add: tk project_def fold_res_snoc)
qed

lemma progress_saved:
  assumes "in_step d" and r: "r \<in> set (rd_events d)" "oid = col_order_id (snd r)"
    and seq: "col_sequence (snd r) = int (progress_of d oid) + 1"
    and same: "rd_events d1 = rd_events d" "rd_progress d1 = rd_progress d"
  obtains p where "ProjectionOrderProgress_init p = Inr p" and "last_sequence p = col_sequence (snd r)"
    and "p = \<lparr>pg_projection_name = ORDER_STATE_PROJECTION_NAME, pg_projection_epoch = ORDER_STATE_PROJECTION_EPOCH,
          pg_order_id = oid, last_sequence = col_sequence (snd r),
          pg_last_event_id = ev_event_id (event_of (snd r)), last_global_position = fst r\<rparr>"
    and "advance_progress d1 p = Inr (d1\<lparr>rd_progress := (rd_progress d)
          ((ORDER_STATE_PROJECTION_NAME, ORDER_STATE_PROJECTION_EPOCH, oid) \<mapsto> p)\<rparr>)"
proof -
  from assms(1) have ok: "read_ok d" and st: "order_in_step d oid" by (simp_all add: in_step_def)
  note t = read_ok_rows [OF ok r(1)]
  let ?p = "\<lparr>pg_projection_name = ORDER_STATE_PROJECTION_NAME, pg_projection_epoch = ORDER_STATE_PROJECTION_EPOCH,
          pg_order_id = oid, last_sequence = col_sequence (snd r),
          pg_last_event_id = ev_event_id (event_of (snd r)), last_global_position = fst r\<rparr>"
  have name: "\<not> py_blank ORDER_STATE_PROJECTION_NAME"
    by (simp add: py_blank_iff py_isspace_def ORDER_STATE_PROJECTION_NAME_def)
  have "ProjectionOrderProgress_init ?p = Inr ?p"
    using name row_not_blank [OF ok r(1)] uuid_not_blank [OF typed_uuid [OF t(1)]] t(3) seq r(2)
    by (simp add: ProjectionOrderProgress_init_def ORDER_STATE_PROJECTION_EPOCH_def)
  moreover have "accepted_event_row d1 ?p (ev_event_id (event_of (snd r))) \<noteq> None"
    using r typed_row_event(5) [OF t(1)] by (auto simp: accepted_event_row_def same(1) find_None_iff)
  then have "advance_progress d1 ?p = Inr (d1\<lparr>rd_progress := (rd_progress d)
          ((ORDER_STATE_PROJECTION_NAME, ORDER_STATE_PROJECTION_EPOCH, oid) \<mapsto> ?p)\<rparr>)"
    using typed_uuid [OF t(1)] st seq
    by (auto simp: advance_progress_def require_current_order_state_projection_def order_in_step_def progress_of_def
        same(2) Let_def split: option.splits)
  ultimately show ?thesis using that by simp
qed

lemma apply_next_in_step:
  assumes "in_step d" and r: "r \<in> set (rd_events d)"
    and seq: "col_sequence (snd r) = int (progress_of d (col_order_id (snd r))) + 1"
  obtains d' res where "apply_record name d (record_of r) = Inr (d', res)" and "pw_action res = ''applied''"
    and "in_step d'" and "rd_events d' = rd_events d"
    and "progress_of d' = (progress_of d)(col_order_id (snd r) := Suc (progress_of d (col_order_id (snd r))))"
proof -
  let ?oid = "col_order_id (snd r)" and ?k = "progress_of d (col_order_id (snd r))"
  let ?key = "(ORDER_STATE_PROJECTION_NAME, ORDER_STATE_PROJECTION_EPOCH, ?oid)"
  from assms(1) have ok: "read_ok d" by (simp add: in_step_def)
  note ev = typed_row_event(3,4) [OF read_ok_rows(1) [OF ok r]]
  obtain cur st where st: "pg_load_state d ?oid = Inr cur"
    "reduce_order_event (case cur of None \<Rightarrow> build_empty_projection_state ?oid | Some st \<Rightarrow> st) (event_of (snd r)) = Inr st"
    "project ?oid (take (Suc ?k) (accepted d ?oid)) = Inr st" and k: "?k < length (order_rows d ?oid)"
    by (rule next_state [OF assms(1) r refl seq])
  obtain d1 where d1: "pg_save_state d st = Inr d1" "pg_load_state d1 ?oid = Inr (Some st)"
    "\<And>oid'. oid' \<noteq> ?oid \<Longrightarrow> rd_states d1 oid' = rd_states d oid'"
    and same: "rd_events d1 = rd_events d" "rd_progress d1 = rd_progress d"
    by (rule projected_state_saved [OF ok k st(3)]) blast
  obtain p where p: "ProjectionOrderProgress_init p = Inr p" "last_sequence p = col_sequence (snd r)"
    "p = \<lparr>pg_projection_name = ORDER_STATE_PROJECTION_NAME, pg_projection_epoch = ORDER_STATE_PROJECTION_EPOCH,
          pg_order_id = ?oid, last_sequence = col_sequence (snd r),
          pg_last_event_id = ev_event_id (event_of (snd r)), last_global_position = fst r\<rparr>"
    "advance_progress d1 p = Inr (d1\<lparr>rd_progress := (rd_progress d)(?key \<mapsto> p)\<rparr>)"
    by (rule progress_saved [OF assms(1) r refl seq same])
  let ?d' = "d1\<lparr>rd_progress := (rd_progress d)(?key \<mapsto> p)\<rparr>"
  have ld: "pg_load_state ?d' = pg_load_state d1" by (simp add: pg_load_state_def fun_eq_iff)
  have pr: "progress_of ?d' = (progress_of d)(?oid := Suc ?k)"
    using seq p(2) by (simp add: progress_of_def fun_eq_iff)
  have ev': "rd_events ?d' = rd_events d" by (simp add: same(1))
  have "order_in_step ?d' oid" for oid
  proof (cases "oid = ?oid")
    case True
    with st(3) d1(2) k p(2) seq show ?thesis by (simp add: order_in_step_def pr same_events [OF ev'] ld)
  next
    case False
    with d1(3) have "pg_load_state d1 oid = pg_load_state d oid" by (simp add: pg_load_state_def)
    with False assms(1) d1(3) [OF False] show ?thesis
      by (simp add: in_step_def order_in_step_def pr same_events [OF ev'] ld)
  qed
  then have "in_step ?d'" using ok by (simp add: in_step_def same_events [OF ev'])
  moreover obtain res where "apply_record name d (record_of r) = Inr (?d', res)" "pw_action res = ''applied''"
    using st(2) by (cases cur; simp add: apply_record_def record_of_def Let_def ev st(1) d1(1) p(1,4) flip: p(3))
  ultimately show ?thesis using that pr ev' by blast
qed

section \<open>Runs of the worker\<close>

definition backlog :: "read_db \<Rightarrow> (int \<times> order_event_row) list" where
  "backlog d = filter (\<lambda>r. int (progress_of d (col_order_id (snd r))) < col_sequence (snd r)) (rd_events d)"

lemma filter_shrinks:
  assumes "\<And>y. Q y \<Longrightarrow> P y" and "x \<in> set xs" and "P x" and "\<not> Q x"
  shows "length (filter Q xs) < length (filter P xs)"
proof -
  have "filter Q xs = filter Q (filter P xs)" using assms(1) by (auto intro: filter_cong)
  with length_filter_less [of x "filter P xs" Q] assms(2-4) show ?thesis by simp
qed

lemma eligible_in_step:
  assumes "in_step d"
  shows "load_eligible d ORDER_STATE_PROJECTION_NAME ORDER_STATE_PROJECTION_EPOCH 1 = Inr (map record_of (take 1
      (sort_key fst (filter (\<lambda>r. col_sequence (snd r) = int (progress_of d (col_order_id (snd r))) + 1) (rd_events d)))))"
proof -
  have "(case rd_progress d (ORDER_STATE_PROJECTION_NAME, ORDER_STATE_PROJECTION_EPOCH, oid) of
          None \<Rightarrow> 0 | Some progress \<Rightarrow> last_sequence progress) = int (progress_of d oid)" for oid
    using assms by (auto simp: in_step_def order_in_step_def progress_of_def less_imp_le split: option.splits)
  then have f: "filter (\<lambda>(gp, row). col_sequence row = (case rd_progress d
        (ORDER_STATE_PROJECTION_NAME, ORDER_STATE_PROJECTION_EPOCH, col_order_id row) of
          None \<Rightarrow> 0 | Some progress \<Rightarrow> last_sequence progress) + 1) (rd_events d)
    = filter (\<lambda>r. col_sequence (snd r) = int (progress_of d (col_order_id (snd r))) + 1) (rd_events d)"
    by (simp add: split_def)
  have "map_res event_record (take 1 (sort_key fst (filter (\<lambda>r. col_sequence (snd r)
        = int (progress_of d (col_order_id (snd r))) + 1) (rd_events d))))
      = Inr (map record_of (take 1 (sort_key fst (filter (\<lambda>r. col_sequence (snd r)
        = int (progress_of d (col_order_id (snd r))) + 1) (rd_events d)))))"
    by (rule event_records) (use assms in \<open>auto simp: in_step_def dest!: in_set_takeD\<close>)
  then show ?thesis unfolding load_eligible_def f by (simp add: require_current_order_state_projection_def)
qed

lemma caught_up:
  assumes "in_step d" and "filter (\<lambda>r. col_sequence (snd r) = int (progress_of d (col_order_id (snd r))) + 1) (rd_events d) = []"
  shows "progress_of d oid = length (order_rows d oid)"
proof (rule ccontr)
  assume "progress_of d oid \<noteq> length (order_rows d oid)"
  with assms(1) have k: "progress_of d oid < length (order_rows d oid)" and ok: "read_ok d"
    by (auto simp: in_step_def order_in_step_def le_less)
  let ?r = "order_rows d oid ! progress_of d oid"
  have "?r \<in> set (rd_events d)" "col_order_id (snd ?r) = oid" using nth_mem [OF k] unfolding order_rows_set by auto
  with row_nth [OF ok k] assms(2) show False by (auto simp: filter_empty_conv)
qed

text \<open>One call of \<open>process_next\<close> on tables in step.\<close>

lemma process_next_in_step:
  assumes "in_step d" and "read_ok (arrive late d)"
  shows "(pg_process_next name True late d = (arrive late d, Inr (no_event_result name))
      \<and> (\<forall>oid. progress_of d oid = length (order_rows d oid)))
    \<or> (\<exists>d' res. pg_process_next name True late d = (d', Inr res) \<and> pw_action res = ''applied''
      \<and> in_step d' \<and> rd_events d' = rd_events d @ late \<and> length (backlog d') < length (backlog (arrive late d)))"
proof -
  let ?d = "arrive late d"
  let ?el = "filter (\<lambda>r. col_sequence (snd r) = int (progress_of d (col_order_id (snd r))) + 1) (rd_events d)"
  note step = arrive_in_step [OF assms]
  show ?thesis
  proof (cases "sort_key fst ?el")
    case Nil
    have "?el = []" using arg_cong [OF Nil, of length] by simp
    note up = caught_up [OF assms(1) this]
    have "load_eligible d ORDER_STATE_PROJECTION_NAME ORDER_STATE_PROJECTION_EPOCH 1 = Inr []"
      unfolding eligible_in_step [OF assms(1)] Nil by simp
    with up show ?thesis by (simp add: pg_process_next_def)
  next
    case (Cons r rs)
    have "set ?el = set (r # rs)" unfolding Cons [symmetric] by simp
    then have "r \<in> set ?el" by (simp only: list.set_intros)
    then have r: "r \<in> set (rd_events ?d)" "col_sequence (snd r) = int (progress_of ?d (col_order_id (snd r))) + 1" by auto
    obtain d' res where d': "apply_record name ?d (record_of r) = Inr (d', res)" "pw_action res = ''applied''" "in_step d'"
      "rd_events d' = rd_events ?d"
      "progress_of d' = (progress_of ?d)(col_order_id (snd r) := Suc (progress_of ?d (col_order_id (snd r))))"
      by (rule apply_next_in_step [OF step r])
    have "length (backlog d') < length (backlog ?d)"
      unfolding backlog_def d'(4)
    proof (rule filter_shrinks [OF _ r(1)])
      fix q
      assume "int (progress_of d' (col_order_id (snd q))) < col_sequence (snd q)"
      then show "int (progress_of ?d (col_order_id (snd q))) < col_sequence (snd q)"
        unfolding d'(5) by (cases "col_order_id (snd q) = col_order_id (snd r)") simp_all
    qed (use r(2) in \<open>simp_all add: d'(5)\<close>)
    moreover have "load_eligible d ORDER_STATE_PROJECTION_NAME ORDER_STATE_PROJECTION_EPOCH 1 = Inr [record_of r]"
      unfolding eligible_in_step [OF assms(1)] Cons by simp
    ultimately show ?thesis using d' by (simp add: pg_process_next_def)
  qed
qed

text \<open>The tables a worker can see: it starts with none of its own rows, other sessions commit accepted
  events at any time, also during its transactions, and the connection may be busy.\<close>

inductive worker_reach :: "read_db \<Rightarrow> bool" where
  fresh: "read_ok d \<Longrightarrow> rd_states d = Map.empty \<Longrightarrow> rd_progress d = Map.empty \<Longrightarrow> worker_reach d"
| commit: "worker_reach d \<Longrightarrow> read_ok (arrive late d) \<Longrightarrow> worker_reach (arrive late d)"
| process: "worker_reach d \<Longrightarrow> read_ok (arrive late d) \<Longrightarrow> pg_process_next name idle late d = (d', res) \<Longrightarrow> worker_reach d'"

lemma worker_reach_in_step: "worker_reach d \<Longrightarrow> in_step d"
proof (induction rule: worker_reach.induct)
  case (fresh d)
  then show ?case by (simp add: in_step_def order_in_step_def progress_of_def)
next
  case (commit d late)
  then show ?case by (simp add: arrive_in_step)
next
  case (process d late name idle d' res)
  show ?case
  proof (cases idle)
    case True
    with process_next_in_step [OF process(4,2), of name] process(3) arrive_in_step [OF process(4,2)] show ?thesis by auto
  next
    case False
    with process(3,4) show ?thesis by (simp add: pg_process_next_def)
  qed
qed

lemma drain_in_step:
  assumes "in_step d"
  shows "\<exists>n \<le> length (backlog d). \<exists>d'. ((\<lambda>d. fst (pg_process_next name True [] d)) ^^ n) d = d'
    \<and> snd (pg_process_next name True [] d') = Inr (no_event_result name) \<and> in_step d' \<and> rd_events d' = rd_events d
    \<and> (\<forall>oid. progress_of d' oid = length (order_rows d' oid))"
  using assms
proof (induction "length (backlog d)" arbitrary: d rule: less_induct)
  case less
  have "arrive [] d = d" by (simp add: arrive_def)
  with less.prems have ok: "read_ok (arrive [] d)" and d: "arrive [] d = d" by (simp_all add: in_step_def)
  from process_next_in_step [OF less.prems ok, of name]
  show ?case
  proof (elim disjE exE conjE)
    assume "pg_process_next name True [] d = (arrive [] d, Inr (no_event_result name))"
      "\<forall>oid. progress_of d oid = length (order_rows d oid)"
    with less.prems show ?thesis by (intro exI [of _ 0]) simp
  next
    fix d1 res
    assume d1: "pg_process_next name True [] d = (d1, Inr res)" "in_step d1" "rd_events d1 = rd_events d @ []"
      "length (backlog d1) < length (backlog (arrive [] d))"
    then have "length (backlog d1) < length (backlog d)" by (simp add: d)
    from less.hyps [OF this d1(2)] obtain n d' where n: "n \<le> length (backlog d1)"
      "((\<lambda>d. fst (pg_process_next name True [] d)) ^^ n) d1 = d'"
      "snd (pg_process_next name True [] d') = Inr (no_event_result name)" "in_step d'" "rd_events d' = rd_events d1"
      "\<forall>oid. progress_of d' oid = length (order_rows d' oid)" by blast
    have "((\<lambda>d. fst (pg_process_next name True [] d)) ^^ Suc n) d = d'"
      using n(2) d1(1) by (simp add: funpow_Suc_right del: funpow.simps)
    moreover have "Suc n \<le> length (backlog d)" using n(1) d1(4) d by simp
    ultimately show ?thesis using n d1(3) by (intro exI [of _ "Suc n"]) simp
  qed
qed

text \<open>What the replay validator finds.\<close>

lemma projected_state:
  assumes "legal_history oid es"
  obtains st where "project oid es = Inr st" and "st_version st = int (length es)" and "OrderState_eq st st"
proof -
  obtain a where a: "rehydrate oid es = Inr a" "project oid es = Inr (state_of a)" "agg_inv a"
    by (rule project_legal_history [OF assms])
  obtain b where "rehydrate oid es = Inr b" "current_version b = int (length es)" by (rule legal_history_replay [OF assms])
  with a(1) have "st_version (state_of a) = int (length es)" by simp
  moreover have "OrderState_eq (state_of a) (state_of a)"
    by (rule agg_amounts [OF a(3)]) (simp add: OrderState_eq_def dec_eq_refl_finite del: dec_eq.simps)
  ultimately show ?thesis using that a(2) by blast
qed

lemma validator_verdict:
  assumes "in_step d"
  obtains r where "durable_validate_order True d oid = Inr r"
    and "rv_status r = (if order_rows d oid = [] then RV_NO_ACCEPTED_HISTORY
          else if progress_of d oid = 0 then RV_MISSING_PROJECTION
          else if progress_of d oid = length (order_rows d oid) then RV_MATCH else RV_DRIFT)"
proof -
  from assms have ok: "read_ok d" and st: "order_in_step d oid" by (simp_all add: in_step_def)
  note h = accepted_history [OF ok, of oid]
  show ?thesis
  proof (cases "order_rows d oid = []")
    case True
    with st have "pg_load_state d oid = Inr None" by (simp add: order_in_step_def pg_load_state_def)
    with True h that show ?thesis
      by (simp add: durable_validate_order_def validate_projection_def order_records_def)
  next
    case False
    then obtain r where "r \<in> set (rd_events d)" "col_order_id (snd r) = oid"
      by (metis (mono_tags, lifting) list.set_intros(1) mem_Collect_eq neq_Nil_conv order_rows_set)
    then have leg: "legal_history oid (accepted d oid)" using accepted_legal [OF ok row_not_blank [OF ok]] by metis
    obtain st where full: "project oid (accepted d oid) = Inr st" "st_version st = int (length (order_rows d oid))" "OrderState_eq st st"
      by (rule projected_state [OF leg]) (simp add: order_records_def)
    have "legal_history oid (take (progress_of d oid) (accepted d oid))"
      using leg by (metis append_take_drop_id legal_history_prefix)
    then obtain st' where part: "project oid (take (progress_of d oid) (accepted d oid)) = Inr st'"
      "st_version st' = int (length (take (progress_of d oid) (accepted d oid)))" by (rule projected_state)
    have eq: "OrderState_eq st' st \<longleftrightarrow> progress_of d oid = length (order_rows d oid)"
    proof
      assume "progress_of d oid = length (order_rows d oid)"
      with part(1) full show "OrderState_eq st' st" by (simp add: order_records_def)
    qed (use part(2) full(2) st in \<open>auto simp: order_in_step_def OrderState_eq_def order_records_def min_def split: if_splits\<close>)
    note defs = durable_validate_order_def validate_projection_def h order_records_def
    show ?thesis
    proof (cases "progress_of d oid = 0")
      case True
      with st have "pg_load_state d oid = Inr None" by (simp add: order_in_step_def pg_load_state_def)
      with True False full(1) that show ?thesis by (simp add: defs project_def)
    next
      case k: False
      with st part(1) have "pg_load_state d oid = Inr (Some st')" by (auto simp: order_in_step_def)
      with k False full(1) eq that show ?thesis
        by (cases "progress_of d oid = length (order_rows d oid)") (simp_all add: defs project_def)
    qed
  qed
qed

end
