(* ===== verification/Postgres_Snapshot.thy ===== *)
theory Postgres_Snapshot
  imports Postgres_Projection
begin

text \<open>
  Durable snapshots: \<open>postgres_projection_snapshot_store.py\<close> of \<open>src/storage\<close> and the observation
  boundaries of \<open>src/pipeline/projection/postgres_snapshot_observation.py\<close>, over the table
  \<open>projection_snapshots\<close> of migration 004. A UUID is its canonical text, the time of creation, which
  no code reads, is left out, and metadata are kept as they are given.
  The interpretation \<open>pg_readers\<close> shows that the readers of one repeatable-read transaction meet
  the contract of the snapshot validator and resolver.
\<close>

section \<open>PostgresProjectionSnapshotStore\<close>

definition snapshot_row_checks :: "ProjectionSnapshot \<Rightarrow> bool" where
  "snapshot_row_checks row \<longleftrightarrow>
     sql_not_blank (sn_order_id row) \<and> 0 < source_event_sequence row \<and> 0 < source_global_position row
     \<and> state_status row \<in> set [''CREATED'', ''PAID'']
     \<and> dec_le (Dec False 0 0) (sn_total_amount row) \<and> dec_le (Dec False 0 0) (sn_paid_amount row)
     \<and> dec_le (sn_paid_amount row) (sn_total_amount row)
     \<and> 0 \<le> state_version row \<and> state_version row \<le> source_event_sequence row
     \<and> 0 < snapshot_schema_version row \<and> sql_not_blank (reducer_version row)
     \<and> sql_not_blank (payload_hash row) \<and> sql_not_blank (created_by row)"

definition snapshot_row :: "ProjectionSnapshot \<Rightarrow> ProjectionSnapshot res" where
  "snapshot_row sn =
     bind_res (column (uuid_in (snapshot_id sn))) (\<lambda>sid.
     bind_res (column (text_in (sn_order_id sn))) (\<lambda>oid.
     bind_res (column (uuid_in (source_event_id sn))) (\<lambda>eid.
     bind_res (column (int4_in (source_event_sequence sn))) (\<lambda>seq.
     bind_res (column (int8_in (source_global_position sn))) (\<lambda>gp.
     bind_res (column (text_in (state_status sn))) (\<lambda>sta.
     bind_res (column (numeric_18_2_in (sn_total_amount sn))) (\<lambda>total.
     bind_res (column (numeric_18_2_in (sn_paid_amount sn))) (\<lambda>paid.
     bind_res (column (int4_in (state_version sn))) (\<lambda>version.
     bind_res (column (int4_in (snapshot_schema_version sn))) (\<lambda>schema.
     bind_res (column (text_in (reducer_version sn))) (\<lambda>reducer.
     bind_res (column (text_in (payload_hash sn))) (\<lambda>hash.
     bind_res (column (text_in (created_by sn))) (\<lambda>creator.
       Inr \<lparr>snapshot_id = sid, sn_order_id = oid, source_event_id = eid, source_event_sequence = seq,
            source_global_position = gp, state_status = sta, sn_total_amount = total, sn_paid_amount = paid,
            state_version = version, snapshot_schema_version = schema, reducer_version = reducer,
            payload_hash = hash, sn_metadata = sn_metadata sn, created_by = creator\<rparr>)))))))))))))"

text \<open>The rows of the unique constraints on the source boundary, which
  \<open>_load_existing_source_boundary_snapshots\<close> selects too.\<close>

definition shares_source_boundary :: "ProjectionSnapshot \<Rightarrow> ProjectionSnapshot \<Rightarrow> bool" where
  "shares_source_boundary existing sn \<longleftrightarrow>
     source_event_id existing = source_event_id sn
     \<or> source_global_position existing = source_global_position sn
     \<or> (sn_order_id existing = sn_order_id sn \<and> source_event_sequence existing = source_event_sequence sn)"

definition insert_snapshot :: "read_db \<Rightarrow> ProjectionSnapshot \<Rightarrow> (read_db \<times> bool) res" where
  "insert_snapshot d sn =
     bind_res (snapshot_row sn) (\<lambda>row.
       if \<not> snapshot_row_checks row then Inl (DatabaseError ''check constraint of projection_snapshots'')
       else if list_ex (\<lambda>existing. snapshot_id existing = snapshot_id row \<or> shares_source_boundary existing row) (rd_snapshots d)
       then Inr (d, False)
       else Inr (d\<lparr>rd_snapshots := rd_snapshots d @ [row]\<rparr>, True))"

definition load_existing_source_boundary_snapshots :: "read_db \<Rightarrow> ProjectionSnapshot \<Rightarrow> ProjectionSnapshot list" where
  "load_existing_source_boundary_snapshots d sn =
     sort_key (\<lambda>existing. - source_global_position existing)
       (filter (\<lambda>existing. shares_source_boundary existing sn) (rd_snapshots d))"

definition same_source_boundary :: "ProjectionSnapshot \<Rightarrow> ProjectionSnapshot \<Rightarrow> bool" where
  "same_source_boundary existing incoming \<longleftrightarrow>
     sn_order_id existing = sn_order_id incoming
     \<and> source_event_id existing = source_event_id incoming
     \<and> source_event_sequence existing = source_event_sequence incoming
     \<and> source_global_position existing = source_global_position incoming"

definition same_snapshot_evidence :: "ProjectionSnapshot \<Rightarrow> ProjectionSnapshot \<Rightarrow> bool" where
  "same_snapshot_evidence existing incoming \<longleftrightarrow>
     same_source_boundary existing incoming
     \<and> snapshot_schema_version existing = snapshot_schema_version incoming
     \<and> reducer_version existing = reducer_version incoming
     \<and> payload_hash existing = payload_hash incoming"

definition save_snapshot :: "read_db \<Rightarrow> ProjectionSnapshot \<Rightarrow> read_db res" where
  "save_snapshot d sn =
     bind_res (insert_snapshot d sn) (\<lambda>(d', inserted).
       if inserted then Inr d'
       else
         (let existing_snapshots = load_existing_source_boundary_snapshots d' sn
          in if existing_snapshots = []
             then Inl (SnapshotWriteCollisionError
                    ''Projection snapshot insert conflicted, but no matching source-boundary snapshot could be found.'')
             else if list_all (\<lambda>existing. same_snapshot_evidence existing sn) existing_snapshots then Inr d'
             else Inl (SnapshotWriteCollisionError
                    ''Projection snapshot source boundary already exists with different lineage or payload evidence.'')))"

definition load_latest_snapshot :: "read_db \<Rightarrow> string \<Rightarrow> ProjectionSnapshot option res" where
  "load_latest_snapshot d order_id =
     (case sort_key (\<lambda>sn. - source_event_sequence sn) (filter (\<lambda>sn. sn_order_id sn = order_id) (rd_snapshots d)) of
        [] \<Rightarrow> Inr None | sn # _ \<Rightarrow> Inr (Some sn))"

definition load_snapshot :: "read_db \<Rightarrow> string \<Rightarrow> ProjectionSnapshot option res" where
  "load_snapshot d sid = Inr (find (\<lambda>sn. snapshot_id sn = sid) (rd_snapshots d))"

definition clear_snapshots :: "read_db \<Rightarrow> string \<Rightarrow> read_db" where
  "clear_snapshots d order_id = d\<lparr>rd_snapshots := filter (\<lambda>sn. sn_order_id sn \<noteq> order_id) (rd_snapshots d)\<rparr>"

section \<open>Observation boundaries\<close>

definition require_idle_connection :: "bool \<Rightarrow> string \<Rightarrow> unit res" where
  "require_idle_connection idle operation =
     (if \<not> idle then Inl (RuntimeError (operation @ '' requires an idle connection so it can own a top-level transaction''))
      else Inr ())"

text \<open>Construction with a page size, and one observation: all reads of a repeatable-read transaction
  see the same tables.\<close>

definition snapshot_observation_validate ::
  "int \<Rightarrow> bool \<Rightarrow> read_db \<Rightarrow> string \<Rightarrow> ProjectionSnapshotReplayValidationResult res option" where
  "snapshot_observation_validate tail_event_limit idle d order_id =
     (case bind_res (snapshot_validator_init tail_event_limit) (\<lambda>_.
             require_idle_connection idle ''PostgresProjectionSnapshotReplayValidator.validate_order'') of
        Inl x \<Rightarrow> Some (Inl x)
      | Inr _ \<Rightarrow> validate_order (load_latest_snapshot d) (accepted_history_load d) (load_after_sequence d)
                  tail_event_limit order_id)"

definition snapshot_observation_resolve ::
  "int \<Rightarrow> bool \<Rightarrow> read_db \<Rightarrow> string \<Rightarrow> string option \<Rightarrow> ProjectionSnapshotAssistedResolutionResult res option" where
  "snapshot_observation_resolve tail_event_limit idle d order_id trusted_snapshot_id =
     (case bind_res (snapshot_resolver_init tail_event_limit) (\<lambda>_.
             require_idle_connection idle ''PostgresProjectionSnapshotAssistedStateResolver.resolve_order'') of
        Inl x \<Rightarrow> Some (Inl x)
      | Inr _ \<Rightarrow> resolve_order (load_snapshot d) (load_after_sequence d) tail_event_limit order_id trusted_snapshot_id)"

section \<open>The table of snapshots\<close>

text \<open>The constraints of the table.\<close>

definition snapshots_ok :: "read_db \<Rightarrow> bool" where
  "snapshots_ok d \<longleftrightarrow>
     distinct (map snapshot_id (rd_snapshots d)) \<and> distinct (map source_event_id (rd_snapshots d))
     \<and> distinct (map source_global_position (rd_snapshots d))
     \<and> distinct (map (\<lambda>sn. (sn_order_id sn, source_event_sequence sn)) (rd_snapshots d))
     \<and> list_all snapshot_row_checks (rd_snapshots d)"

lemma snapshot_row_fields:
  assumes "snapshot_row sn = Inr row" and "uuid_in (source_event_id sn) = Some (source_event_id sn)"
  shows "same_snapshot_evidence row sn" and "state_status row = state_status sn" and "state_version row = state_version sn"
    and "sn_total_amount row = the (numeric_18_2_in (sn_total_amount sn))"
    and "sn_paid_amount row = the (numeric_18_2_in (sn_paid_amount sn))"
    and "snapshot_id row = the (uuid_in (snapshot_id sn))"
  using assms by (auto simp: snapshot_row_def res_simps same_snapshot_evidence_def same_source_boundary_def
      text_in_def int4_in_def int8_in_def split: if_splits)

lemma find_key_unique:
  assumes "distinct (map f xs)" and "x \<in> set xs"
  shows "find (\<lambda>y. f y = f x) xs = Some x"
  using assms by (induction xs) (auto simp: image_iff)

lemma find_last: "\<forall>x \<in> set xs. \<not> P x \<Longrightarrow> P y \<Longrightarrow> find P (xs @ [y]) = Some y"
  by (induction xs) auto

lemma load_latest_snapshot_in:
  assumes "load_latest_snapshot d oid = Inr (Some sn)"
  shows "sn \<in> set (rd_snapshots d)"
proof -
  from assms obtain rest where "sort_key (\<lambda>sn. - source_event_sequence sn)
      (filter (\<lambda>sn. sn_order_id sn = oid) (rd_snapshots d)) = sn # rest" (is "?s = _")
    unfolding load_latest_snapshot_def by (auto split: list.splits)
  then have "sn \<in> set ?s" by (simp only: list.set_intros)
  then show ?thesis by simp
qed

lemma boundary_of_row:
  assumes "same_source_boundary row sn"
  shows "shares_source_boundary existing row = shares_source_boundary existing sn"
  using assms by (auto simp: same_source_boundary_def shares_source_boundary_def)

lemma insert_snapshot_ok:
  assumes "snapshots_ok d" and "snapshot_row_checks row"
    and "\<not> list_ex (\<lambda>existing. snapshot_id existing = snapshot_id row \<or> shares_source_boundary existing row) (rd_snapshots d)"
  shows "snapshots_ok (d\<lparr>rd_snapshots := rd_snapshots d @ [row]\<rparr>)"
  using assms by (auto simp: snapshots_ok_def list_ex_iff shares_source_boundary_def)

text \<open>The three results of saving.\<close>

lemma save_snapshot_cases:
  assumes "uuid_in (source_event_id sn) = Some (source_event_id sn)" and "save_snapshot d sn = Inr d'"
  obtains (stored) row where "snapshot_row sn = Inr row" and "snapshot_row_checks row"
      and "d' = d\<lparr>rd_snapshots := rd_snapshots d @ [row]\<rparr>"
      and "\<not> list_ex (\<lambda>existing. snapshot_id existing = snapshot_id row \<or> shares_source_boundary existing row) (rd_snapshots d)"
    | (known) e where "d' = d" and "e \<in> set (rd_snapshots d)" and "same_snapshot_evidence e sn"
proof -
  from assms(2) obtain row where row: "snapshot_row sn = Inr row" "snapshot_row_checks row"
    by (auto simp: save_snapshot_def insert_snapshot_def res_simps split: if_splits)
  show ?thesis
  proof (cases "list_ex (\<lambda>existing. snapshot_id existing = snapshot_id row \<or> shares_source_boundary existing row) (rd_snapshots d)")
    case True
    let ?ex = "load_existing_source_boundary_snapshots d sn"
    have ex: "set ?ex = {e \<in> set (rd_snapshots d). shares_source_boundary e sn}"
      by (auto simp: load_existing_source_boundary_snapshots_def)
    from assms(2) row True have "?ex \<noteq> []" "list_all (\<lambda>existing. same_snapshot_evidence existing sn) ?ex" "d' = d"
      by (auto simp: save_snapshot_def insert_snapshot_def Let_def split: if_splits)
    with ex known show ?thesis by (metis (no_types, lifting) list.set_intros(1) list_all_iff mem_Collect_eq neq_Nil_conv)
  next
    case False
    with assms(2) row stored show ?thesis by (simp add: save_snapshot_def insert_snapshot_def)
  qed
qed

interpretation pg_readers: snapshot_readers read_ok order_records load_after_sequence load_latest_snapshot load_snapshot
    accepted_history_load
proof
  fix d oid
  assume ok: "read_ok d"
  then show "accepted_history_load d oid = Inr (accepted d oid)" by (rule accepted_history)
  assume "order_records d oid \<noteq> []"
  then have "set (order_rows d oid) \<noteq> {}" by (auto simp: order_records_def)
  then obtain r where "r \<in> set (rd_events d)" "col_order_id (snd r) = oid" unfolding order_rows_set by blast
  with accepted_legal [OF ok row_not_blank [OF ok]] show "legal_history oid (accepted d oid)" by metis
qed

end
