(* ===== verification/Postgres_Admission.thy ===== *)
theory Postgres_Admission
  imports Postgres_Store
begin

text \<open>
  \<open>src/pipeline/transactional/postgres_admission.py\<close>: the optimistic and the pessimistic admission
  gate over the durable event store, and the translation of storage failures into admission
  verdicts. A gate object lives for one unit of work; the pessimistic one remembers the streams it
  has prepared. Both gates are interpretations of \<open>version_gate\<close>. The last section follows a
  connection through the statements of other sessions: committed tables only grow, stay legal,
  and never collide with the rows this session holds back.
\<close>

section \<open>Translation of append failures\<close>

definition is_stream_position_conflict :: "string option \<Rightarrow> bool" where
  "is_stream_position_conflict constraint_name =
     (case constraint_name of
        None \<Rightarrow> False
      | Some name \<Rightarrow> name \<in> set [''uq_order_events_order_id_sequence'', ''order_events_order_id_sequence_key''])"

fun translate_append_failure :: "exc \<Rightarrow> string \<Rightarrow> string \<Rightarrow> AdmissionResult res" where
  "translate_append_failure (AppendVersionMismatchError expected observed) candidate_event_id gate_name =
     bind_res (AppendVersionMismatchEvidence_init expected observed) (\<lambda>evidence.
       AdmissionResult_init STALE_WRITE
         (''Stale write rejected by '' @ gate_name @ '': '' @ exc_message (AppendVersionMismatchError expected observed))
         candidate_event_id None (Some evidence))"
| "translate_append_failure (ValueError m) candidate_event_id gate_name =
     AdmissionResult_init STALE_WRITE (''Stale write rejected by '' @ gate_name @ '': '' @ m)
       candidate_event_id None None"
| "translate_append_failure (MoneyValidationError m) candidate_event_id gate_name =
     AdmissionResult_init STALE_WRITE (''Stale write rejected by '' @ gate_name @ '': '' @ m)
       candidate_event_id None None"
| "translate_append_failure (UniqueViolation constraint m) candidate_event_id gate_name =
     (if is_stream_position_conflict constraint
      then AdmissionResult_init STALE_WRITE (''Append-time stream position conflict rejected by '' @ gate_name)
             candidate_event_id None None
      else AdmissionResult_init INFRASTRUCTURE_ERROR
             (''Unexpected unique constraint violation during '' @ gate_name @ '': '' @ m)
             candidate_event_id None None)"
| "translate_append_failure (LockNotAvailable m) candidate_event_id gate_name =
     AdmissionResult_init LOCK_TIMEOUT (''Lock was not available during '' @ gate_name @ '': '' @ m)
       candidate_event_id None None"
| "translate_append_failure (StorageInfrastructureError m) candidate_event_id gate_name =
     AdmissionResult_init INFRASTRUCTURE_ERROR
       (''Storage infrastructure failure during '' @ gate_name @ '': '' @ m) candidate_event_id None None"
| "translate_append_failure x candidate_event_id gate_name = Inl x"

definition append_with_translation ::
  "pg_conn \<Rightarrow> OrderEvent \<Rightarrow> int \<Rightarrow> string \<Rightarrow> pg_conn \<times> AdmissionResult res" where
  "append_with_translation c candidate_event expected gate_name =
     (case pg_append c candidate_event expected of
        (c1, Inl x) \<Rightarrow> (c1, translate_append_failure x (ev_event_id candidate_event) gate_name)
      | (c1, Inr _) \<Rightarrow>
          (c1, AdmissionResult_init ADMITTED (''Event admitted by '' @ gate_name)
             (ev_event_id candidate_event) (Some (ev_event_id candidate_event)) None))"

section \<open>Gates\<close>

datatype gate_strategy = Optimistic | Pessimistic

record admission_gate =
  gate_strategy_of :: gate_strategy
  prepared_order_ids :: "string list"

definition new_gate :: "gate_strategy \<Rightarrow> admission_gate" where
  "new_gate strategy = \<lparr>gate_strategy_of = strategy, prepared_order_ids = []\<rparr>"

definition try_lock_stream :: "pg_conn \<Rightarrow> string \<Rightarrow> pg_conn \<times> bool res" where
  "try_lock_stream c order_id =
     (case take_event c of
        (c1, Lock_busy) \<Rightarrow> (c1, Inr False)
      | (_, _) \<Rightarrow> (case statement c of (c1, Inl x) \<Rightarrow> (c1, Inl x) | (c1, Inr _) \<Rightarrow> (c1, Inr True)))"

definition gate_prepare_stream ::
  "admission_gate \<Rightarrow> pg_conn \<Rightarrow> string \<Rightarrow> admission_gate \<times> pg_conn \<times> StreamAdmissionResult res" where
  "gate_prepare_stream g c order_id =
     (case gate_strategy_of g of
        Optimistic \<Rightarrow>
          (g, c, Inr \<lparr>sa_verdict = ADMITTED,
             sa_reason = ''PostgreSQL optimistic admission does not pre-lock stream'', sa_order_id = order_id\<rparr>)
      | Pessimistic \<Rightarrow>
          if autocommit c
          then (g, c, Inr \<lparr>sa_verdict = INFRASTRUCTURE_ERROR,
                 sa_reason = ''PostgreSQL pessimistic admission gate requires a transaction-scoped connection, but connection.autocommit is enabled'',
                 sa_order_id = order_id\<rparr>)
          else case try_lock_stream c order_id of
            (c1, Inl x) \<Rightarrow> (g, c1, Inl x)
          | (c1, Inr lock_acquired) \<Rightarrow>
              if \<not> lock_acquired
              then (g, c1, Inr \<lparr>sa_verdict = LOCK_TIMEOUT,
                     sa_reason = ''Stream lock was not available for PostgreSQL pessimistic admission gate: order_id='' @ order_id,
                     sa_order_id = order_id\<rparr>)
              else (g\<lparr>prepared_order_ids := List.insert order_id (prepared_order_ids g)\<rparr>, c1,
                    Inr \<lparr>sa_verdict = ADMITTED,
                     sa_reason = ''Stream lock acquired by PostgreSQL pessimistic admission gate: order_id='' @ order_id,
                     sa_order_id = order_id\<rparr>))"

definition gate_append_if_admitted ::
  "admission_gate \<Rightarrow> pg_conn \<Rightarrow> OrderEvent \<Rightarrow> int \<Rightarrow> pg_conn \<times> AdmissionResult res" where
  "gate_append_if_admitted g c candidate_event expected =
     (case gate_strategy_of g of
        Optimistic \<Rightarrow>
          append_with_translation c candidate_event expected ''PostgreSQL optimistic admission gate''
      | Pessimistic \<Rightarrow>
          if ev_order_id candidate_event \<notin> set (prepared_order_ids g)
          then (c, AdmissionResult_init INFRASTRUCTURE_ERROR
                 (''PostgreSQL pessimistic admission gate requires prepare_stream(order_id) before append-time admission: order_id=''
                  @ ev_order_id candidate_event) (ev_event_id candidate_event) None None)
          else append_with_translation c candidate_event expected ''PostgreSQL pessimistic admission gate'')"

section \<open>The gates meet the contract\<close>

lemma translate_not_admitted:
  "translate_append_failure x eid gate = Inr r \<Longrightarrow>
     ad_verdict r \<noteq> ADMITTED \<and> ad_accepted_event_id r = None \<and> ad_candidate_event_id r = eid"
  by (cases x) (auto simp: AdmissionResult_init_def res_simps split: if_splits)

lemma append_with_translation_cases:
  assumes "append_with_translation c e v gate = (c', r)"
  obtains (admitted) a where "r = Inr a" and "ad_verdict a = ADMITTED" and "pg_append c e v = (c', Inr ())"
      and "ad_accepted_event_id a = Some (ev_event_id e)" and "ad_candidate_event_id a = ev_event_id e"
  | (translated) x where "pg_append c e v = (c', Inl x)" and "translate_append_failure x (ev_event_id e) gate = r"
  using assms
  by (auto simp: append_with_translation_def AdmissionResult_init_def split: prod.splits sum.splits)

lemma gate_append_cases:
  assumes "gate_append_if_admitted g c e v = (c', r)"
  obtains (admitted) a where "r = Inr a" and "ad_verdict a = ADMITTED" and "pg_append c e v = (c', Inr ())"
      and "ad_accepted_event_id a = Some (ev_event_id e)" and "ad_candidate_event_id a = ev_event_id e"
  | (translated) x gate where "pg_append c e v = (c', Inl x)"
      and "translate_append_failure x (ev_event_id e) gate = r"
  | (unprepared) a where "r = Inr a" and "c' = c" and "ad_verdict a = INFRASTRUCTURE_ERROR"
      and "ad_accepted_event_id a = None" and "ad_candidate_event_id a = ev_event_id e"
  using assms
proof (cases "gate_strategy_of g")
  case Optimistic
  with assms have "append_with_translation c e v ''PostgreSQL optimistic admission gate'' = (c', r)"
    by (simp add: gate_append_if_admitted_def)
  then show ?thesis by (cases rule: append_with_translation_cases) (use admitted translated in blast)+
next
  case Pessimistic
  show ?thesis
  proof (cases "ev_order_id e \<in> set (prepared_order_ids g)")
    case True
    with assms Pessimistic
    have "append_with_translation c e v ''PostgreSQL pessimistic admission gate'' = (c', r)"
      by (simp add: gate_append_if_admitted_def)
    then show ?thesis by (cases rule: append_with_translation_cases) (use admitted translated in blast)+
  next
    case False
    with assms Pessimistic unprepared show ?thesis
      by (auto simp: gate_append_if_admitted_def AdmissionResult_init_def)
  qed
qed

interpretation pg_gate: version_gate log_inv storable "\<lambda>c. history (visible c)" pg_append
  "gate_append_if_admitted g" for g
proof
  fix c e v c' r oid x
  {
    assume "gate_append_if_admitted g c e v = (c', Inr r)" "ad_verdict r = ADMITTED"
    then show "pg_append c e v = (c', Inr ()) \<and> ad_accepted_event_id r = Some (ev_event_id e)"
      by (cases rule: gate_append_cases) (auto dest: translate_not_admitted)
  next
    assume i: "log_inv c" "storable e" "gate_append_if_admitted g c e v = (c', Inr r)" "ad_verdict r \<noteq> ADMITTED"
    from i(3) show "history (visible c') oid = history (visible c) oid \<and> ad_accepted_event_id r = None"
      by (cases rule: gate_append_cases)
         (use i(4) pg_log.append_failure [OF i(1,2)] in \<open>auto dest: translate_not_admitted\<close>)
  next
    assume "gate_append_if_admitted g c e v = (c', Inr r)"
    then show "ad_candidate_event_id r = ev_event_id e"
      by (cases rule: gate_append_cases) (auto dest: translate_not_admitted)
  next
    assume i: "log_inv c" "storable e" "gate_append_if_admitted g c e v = (c', Inl x)"
    from i(3) show "history (visible c') oid = history (visible c) oid"
      by (cases rule: gate_append_cases) (use pg_log.append_failure [OF i(1,2)] in auto)
  }
qed

section \<open>Statements among other sessions\<close>

text \<open>\<open>d'\<close> is \<open>d\<close> with rows that sessions named in the schedule \<open>S\<close> committed, and nothing else.\<close>

definition grows_by :: "server_event set \<Rightarrow> db \<Rightarrow> db \<Rightarrow> bool" where
  "grows_by S d d' \<longleftrightarrow> (\<exists>ds. (\<forall>x \<in> set ds. Other_commit x \<in> S) \<and> d' = foldl db_plus d ds)"

lemma grows_refl [simp]: "grows_by S d d"
  unfolding grows_by_def by (rule exI [of _ "[]"]) simp

lemma grows_trans:
  assumes "grows_by S d e" and "grows_by T e f" and "T \<subseteq> S"
  shows "grows_by S d f"
proof -
  from assms obtain xs ys where "\<forall>x \<in> set xs. Other_commit x \<in> S" "e = foldl db_plus d xs"
    "\<forall>y \<in> set ys. Other_commit y \<in> T" "f = foldl db_plus e ys" by (auto simp: grows_by_def)
  with assms(3) show ?thesis unfolding grows_by_def
    by (intro exI [of _ "xs @ ys"]) auto
qed

lemma grows_one: "Other_commit x \<in> S \<Longrightarrow> grows_by S d (db_plus d x)"
  unfolding grows_by_def by (rule exI [of _ "[x]"]) simp

lemma grows_extends:
  assumes "grows_by S d d'"
  shows "\<exists>x. d' = db_plus d x"
proof -
  have "\<exists>x. foldl db_plus d ds = db_plus d x" for ds
  proof (induction ds rule: rev_induct)
    case Nil
    show ?case by (rule exI [of _ empty_db]) simp
  next
    case (snoc y ys)
    then show ?case by (auto simp: db_plus_assoc)
  qed
  with assms show ?thesis by (auto simp: grows_by_def)
qed

definition conn_inv :: "pg_conn \<Rightarrow> bool" where
  "conn_inv c \<longleftrightarrow> legal_db (committed c) \<and> db_ok (visible c) \<and> \<not> autocommit c"

text \<open>What the statements of other sessions may do to a connection.\<close>

definition moves :: "pg_conn \<Rightarrow> pg_conn \<Rightarrow> bool" where
  "moves c c' \<longleftrightarrow> grows_by (set (schedule c)) (committed c) (committed c')
     \<and> set (schedule c') \<subseteq> set (schedule c) \<and> own c' = own c \<and> (conn_inv c \<longrightarrow> conn_inv c')
     \<and> autocommit c' = autocommit c"

lemma moves_refl [simp]: "moves c c"
  by (simp add: moves_def)

lemma moves_trans [trans]: "moves c d \<Longrightarrow> moves d e \<Longrightarrow> moves c e"
  by (auto simp: moves_def intro: grows_trans)

lemma take_event_moves: "take_event c = (c1, v) \<Longrightarrow> moves c c1"
  by (auto simp: take_event_def moves_def conn_inv_def visible_def split: list.splits)

lemma foreign_commit_moves:
  assumes "take_event c = (c1, Other_commit delta)"
  shows "moves c (foreign_commit c1 delta)"
proof -
  from assms obtain vs where c: "schedule c = Other_commit delta # vs" "c1 = c\<lparr>schedule := vs\<rparr>"
    by (auto simp: take_event_def split: list.splits)
  then show ?thesis
    by (auto simp: foreign_commit_def moves_def conn_inv_def visible_def Let_def intro: grows_one)
qed

lemma statement_moves:
  assumes "statement c = (c', r)"
  shows "moves c c'"
proof -
  obtain c1 v where v: "take_event c = (c1, v)" by force
  show ?thesis
  proof (cases v)
    case (Other_commit delta)
    with assms v foreign_commit_moves [of c c1 delta] show ?thesis by (simp add: statement_def)
  qed (use assms v take_event_moves [OF v] in \<open>auto simp: statement_def\<close>)
qed

lemma try_lock_moves: "try_lock_stream c oid = (c', r) \<Longrightarrow> moves c c'"
  by (auto simp: try_lock_stream_def dest: statement_moves take_event_moves
      split: prod.splits server_event.splits sum.splits)

lemma prepare_moves:
  assumes "gate_prepare_stream g c oid = (g', c', r)"
  shows "moves c c'" and "gate_strategy_of g' = gate_strategy_of g"
    and "r = Inr a \<Longrightarrow> stream_admitted a \<Longrightarrow> gate_strategy_of g = Pessimistic \<Longrightarrow> oid \<in> set (prepared_order_ids g')"
    and "r = Inr a \<Longrightarrow> sa_order_id a = oid"
proof -
  obtain c1 q where q: "try_lock_stream c oid = (c1, q)" by force
  note m = try_lock_moves [OF q]
  show "moves c c'" and "gate_strategy_of g' = gate_strategy_of g"
    using assms m by (auto simp: gate_prepare_stream_def q split: gate_strategy.splits if_splits sum.splits)
  show "r = Inr a \<Longrightarrow> stream_admitted a \<Longrightarrow> gate_strategy_of g = Pessimistic \<Longrightarrow> oid \<in> set (prepared_order_ids g')"
    and "r = Inr a \<Longrightarrow> sa_order_id a = oid"
    using assms
    by (auto simp: gate_prepare_stream_def q stream_admitted_def split: gate_strategy.splits if_splits sum.splits)
qed

lemma check_moves: "pg_check c sg = (c', r) \<Longrightarrow> moves c c'"
  by (auto simp: pg_check_def dest: statement_moves split: prod.splits sum.splits)

lemma load_moves: "pg_load c oid = (c', r) \<Longrightarrow> moves c c'"
  by (auto simp: pg_load_def dest: statement_moves split: prod.splits sum.splits)

lemma visible_idle [simp]: "own c = empty_db \<Longrightarrow> visible c = committed c"
  by (simp add: visible_def)

text \<open>The row of a candidate that another session has not overtaken.\<close>

lemma pg_append_among_others:
  assumes inv: "conn_inv c" and idle: "own c = empty_db" and e: "storable e"
    and app: "pg_append c e v = (c', r)"
  shows "conn_inv c' \<and> grows_by (set (schedule c)) (committed c) (committed c')
    \<and> set (schedule c') \<subseteq> set (schedule c) \<and>
    (case r of
       Inl x \<Rightarrow> own c' = empty_db
     | Inr _ \<Rightarrow> \<exists>row. event_to_row e = Inr row \<and> own c' = \<lparr>order_events = [row], idempotency_records = []\<rparr>
         \<and> v = int (length (stream_rows (committed c') (ev_order_id e))) \<and> ev_sequence e = v + 1)"
proof -
  let ?oid = "ev_order_id e"
  obtain c1 q where ver: "pg_current_version c ?oid = (c1, q)" by force
  then have m1: "moves c c1"
    by (auto simp: pg_current_version_def dest: statement_moves split: prod.splits sum.splits)
  obtain c2 s where st: "statement c1 = (c2, s)" by force
  note m2 = statement_moves [OF st]
  from moves_trans [OF m1 m2] m1 inv idle
  have k1: "conn_inv c1" "own c1 = empty_db" "grows_by (set (schedule c)) (committed c) (committed c1)"
      "set (schedule c1) \<subseteq> set (schedule c)"
    and k2: "conn_inv c2" "own c2 = empty_db" "grows_by (set (schedule c)) (committed c) (committed c2)"
      "grows_by (set (schedule c1)) (committed c1) (committed c2)" "set (schedule c2) \<subseteq> set (schedule c)"
    using m2 by (auto simp: moves_def)
  show ?thesis
  proof (cases r)
    case (Inl x)
    with app ver st k1 k2 show ?thesis
      by (auto simp: pg_append_def insert_event_row_def Let_def split: if_splits sum.splits)
  next
    case (Inr u)
    with app ver st obtain row where row: "q = Inr v" "ev_sequence e = v + 1" "event_to_row e = Inr row"
      "insert_event_row c2 row = (c', Inr ())"
      by (auto simp: pg_append_def Let_def split: if_splits sum.splits)
    note rf = event_row_fields [OF e row(3)]
    from ver row(1) k1 have v: "v = int (length (stream_rows (committed c1) ?oid))"
      using sql_max_stream [of "committed c1" ?oid] legal_contiguous [of "committed c1"]
      by (auto simp: pg_current_version_def conn_inv_def split: prod.splits sum.splits)
    from row(4) k2(1,2) have ins: "event_row_checks row"
      "col_accepted_event_id row \<notin> set (map col_accepted_event_id (order_events (visible c2)))"
      "(col_order_id row, col_sequence row) \<notin> set (map (\<lambda>r. (col_order_id r, col_sequence r)) (order_events (visible c2)))"
      "c' = c2\<lparr>own := \<lparr>order_events = [row], idempotency_records = []\<rparr>\<rparr>"
      by (auto simp: insert_event_row_def stage_def conn_inv_def split: if_splits)
    then have vis: "visible c' = db_plus (committed c2) \<lparr>order_events = [row], idempotency_records = []\<rparr>"
      by (simp add: visible_def)
    have "db_ok (visible c')"
      unfolding vis using db_ok_add_event [OF _ ins(1) rf(5) ins(2,3)] k2 by (simp add: conn_inv_def)
    then have inv': "conn_inv c'" using ins(4) k2 by (simp add: conn_inv_def)
    obtain xs where xs: "order_events (committed c2) = order_events (committed c1) @ xs"
      using grows_extends [OF k2(4)] by auto
    have "stream_rows (committed c2) ?oid = stream_rows (committed c1) ?oid"
      by (rule position_free_length [OF _ _ xs])
         (use k1 k2 ins(3) rf row(2) v in \<open>auto simp: conn_inv_def\<close>)
    with inv' ins(4) k2(3,5) v row(2,3) Inr show ?thesis by auto
  qed
qed

section \<open>Properties\<close>

text \<open>
  Admission among concurrent sessions. Whatever other sessions commit before and between the
  version check and the INSERT, and whatever statement fails: a candidate that a gate admits
  holds, as this session's only pending row, exactly the next position of its stream in the
  tables committed by then; any other verdict or exception leaves no pending row. The committed
  tables gain only rows that other sessions committed, and stay legal.
\<close>

theorem gate_admits_next_position:
  assumes "conn_inv c" and "own c = empty_db" and "storable e"
    and "gate_append_if_admitted g c e v = (c', r)"
  shows "conn_inv c' \<and> grows_by (set (schedule c)) (committed c) (committed c') \<and>
    (if \<exists>a. r = Inr a \<and> ad_verdict a = ADMITTED
     then \<exists>row. event_to_row e = Inr row \<and> own c' = \<lparr>order_events = [row], idempotency_records = []\<rparr>
       \<and> v = int (length (history (committed c') (ev_order_id e))) \<and> ev_sequence e = v + 1
     else own c' = empty_db)"
  using assms(4)
proof (cases rule: gate_append_cases)
  case (admitted a)
  from pg_append_among_others [OF assms(1-3) admitted(3)] obtain row where k: "conn_inv c'"
    "grows_by (set (schedule c)) (committed c) (committed c')" "event_to_row e = Inr row"
    "own c' = \<lparr>order_events = [row], idempotency_records = []\<rparr>"
    "v = int (length (stream_rows (committed c') (ev_order_id e)))" "ev_sequence e = v + 1" by auto
  moreover from k(1) have "db_ok (committed c')" by (simp add: conn_inv_def legal_db_def)
  ultimately show ?thesis using admitted by (simp add: history_map(2))
next
  case (translated x gate)
  with pg_append_among_others [OF assms(1-3) translated(1)] show ?thesis
    by (auto dest: translate_not_admitted)
next
  case (unprepared a)
  with assms show ?thesis by simp
qed

theorem gate_admits_next_position_witness:
  "\<exists>c' r. gate_append_if_admitted (new_gate Optimistic)
      \<lparr>committed = empty_db, own = empty_db, schedule = [Quiet, Statement_fails (DatabaseError ''lost'')],
       autocommit = False\<rparr> sample_event 0 = (c', r) \<and> own c' = empty_db"
proof -
  let ?c = "\<lparr>committed = empty_db, own = empty_db, schedule = [Quiet, Statement_fails (DatabaseError ''lost'')],
       autocommit = False\<rparr>"
  have inv: "conn_inv ?c" by (simp add: conn_inv_def legal_db_def db_ok_def visible_def)
  obtain c' r where g: "gate_append_if_admitted (new_gate Optimistic) ?c sample_event 0 = (c', r)" by force
  have "r = Inl (DatabaseError ''lost'')"
    using g
    by (simp add: gate_append_if_admitted_def new_gate_def append_with_translation_def pg_append_def
        pg_current_version_def statement_def take_event_def visible_def sql_max_def sample_event_def
        sample_created_def)
  with gate_admits_next_position [OF inv _ sample_storable g] g show ?thesis by auto
qed

end
