(* ===== verification/Postgres_Write_Side.thy ===== *)
theory Postgres_Write_Side
  imports Postgres_Admission
begin

text \<open>
  The durable transactional write side: \<open>postgres_unit_of_work.py\<close>, \<open>postgres_write_side_config.py\<close>,
  \<open>postgres_write_side_execution_trace.py\<close> and \<open>postgres_write_side.py\<close> of
  \<open>src/pipeline/transactional\<close>. A command is a computation on the connection, the finished flag of
  the unit of work and the optional trace collector; it returns or raises, and what it leaves behind
  is part of the outcome. The measurement recorder, which only wraps the calls in clock readings, is
  not part of the model (the sources run the same statements with and without it).
  The lemmas are triples over these computations; the properties state what a command may commit
  among concurrent sessions, what it returns, and that traces are always canonical.
\<close>

section \<open>Configuration and traces\<close>

datatype ValidationPlacement = IN_TRANSACTION | PRE_TRANSACTION

datatype checkpoint =
    PRELIMINARY_IDEMPOTENCY_CHECK_RETURNED
  | ACCEPTED_HISTORY_OBSERVED
  | VALIDATION_RETURNED
  | BUSINESS_UOW_REACHED
  | AUTHORITATIVE_IDEMPOTENCY_CHECK_RETURNED
  | CONCURRENCY_PREPARATION_RETURNED
  | APPEND_ADMISSION_RETURNED
  | IDEMPOTENCY_PERSISTENCE_RETURNED

record PostgresWriteSideConfig =
  cfg_validation_mode :: ValidationMode
  cfg_validation_placement :: ValidationPlacement

fun canonical_checkpoints_for :: "ValidationPlacement \<Rightarrow> checkpoint list" where
  "canonical_checkpoints_for PRE_TRANSACTION =
     [PRELIMINARY_IDEMPOTENCY_CHECK_RETURNED, ACCEPTED_HISTORY_OBSERVED, VALIDATION_RETURNED,
      BUSINESS_UOW_REACHED, AUTHORITATIVE_IDEMPOTENCY_CHECK_RETURNED,
      CONCURRENCY_PREPARATION_RETURNED, APPEND_ADMISSION_RETURNED, IDEMPOTENCY_PERSISTENCE_RETURNED]"
| "canonical_checkpoints_for IN_TRANSACTION =
     [BUSINESS_UOW_REACHED, AUTHORITATIVE_IDEMPOTENCY_CHECK_RETURNED, CONCURRENCY_PREPARATION_RETURNED,
      ACCEPTED_HISTORY_OBSERVED, VALIDATION_RETURNED, APPEND_ADMISSION_RETURNED,
      IDEMPOTENCY_PERSISTENCE_RETURNED]"

record execution_trace =
  tr_validation_placement :: ValidationPlacement
  tr_checkpoints :: "checkpoint list"

definition execution_trace_init :: "ValidationPlacement \<Rightarrow> checkpoint list \<Rightarrow> execution_trace res" where
  "execution_trace_init placement checkpoints =
     (if checkpoints = [] then Inl (ValueError ''checkpoints must not be empty'')
      else if \<not> distinct checkpoints then Inl (ValueError ''checkpoints must not contain duplicates'')
      else if checkpoints \<noteq> take (length checkpoints) (canonical_checkpoints_for placement)
      then Inl (ValueError ''checkpoints must be a canonical prefix for the placement'')
      else Inr \<lparr>tr_validation_placement = placement, tr_checkpoints = checkpoints\<rparr>)"

definition terminal_checkpoint :: "execution_trace \<Rightarrow> checkpoint" where
  "terminal_checkpoint t = last (tr_checkpoints t)"

record trace_collector =
  tc_validation_placement :: ValidationPlacement
  tc_trace :: "execution_trace option"

definition new_collector :: "ValidationPlacement \<Rightarrow> trace_collector" where
  "new_collector placement = \<lparr>tc_validation_placement = placement, tc_trace = None\<rparr>"

definition collector_record :: "trace_collector \<Rightarrow> checkpoint \<Rightarrow> trace_collector res" where
  "collector_record self cp =
     (let checkpoints = (case tc_trace self of None \<Rightarrow> [] | Some t \<Rightarrow> tr_checkpoints t)
      in bind_res (execution_trace_init (tc_validation_placement self) (checkpoints @ [cp]))
           (\<lambda>validated_trace. Inr (self\<lparr>tc_trace := Some validated_trace\<rparr>)))"

definition collector_trace :: "trace_collector \<Rightarrow> execution_trace res" where
  "collector_trace self =
     (case tc_trace self of
        None \<Rightarrow> Inl (RuntimeError ''trace collector has no validated checkpoint'')
      | Some t \<Rightarrow> Inr t)"

section \<open>Results\<close>

datatype PostgresWriteSideOutcome =
    OUT_ACCEPTED | OUT_REPLAY | OUT_CONFLICT | OUT_VALIDATION_BLOCKED | OUT_ADMISSION_REJECTED

record PostgresWriteSideResult =
  wr_outcome :: PostgresWriteSideOutcome
  wr_accepted_event :: "OrderEvent option"
  wr_idempotency_decision :: IdempotencyDecision
  wr_stream_admission_result :: "StreamAdmissionResult option"
  wr_validation_decision :: "ValidationDecision option"
  wr_admission_result :: "AdmissionResult option"
  wr_validation_decision_evidence :: "ValidationDecisionWithRuleEvidence option"

definition PostgresWriteSideResult_init :: "PostgresWriteSideResult \<Rightarrow> PostgresWriteSideResult res" where
  "PostgresWriteSideResult_init r =
     (case wr_validation_decision_evidence r of
        None \<Rightarrow> Inr r
      | Some carrier \<Rightarrow>
          if wr_validation_decision r \<noteq> Some (vdr_decision carrier)
          then Inl (ValueError
            ''validation_decision must be the identical decision owned by validation_decision_evidence'')
          else Inr r)"

definition observed_rule_violation :: "PostgresWriteSideResult \<Rightarrow> OrderRuleViolationEvidence option" where
  "observed_rule_violation r =
     (case wr_validation_decision_evidence r of
        None \<Rightarrow> None | Some carrier \<Rightarrow> vdr_observed_violation carrier)"

definition ALLOWED_EXECUTION_TERMINALS ::
  "(ValidationPlacement \<times> PostgresWriteSideOutcome \<times> checkpoint) list" where
  "ALLOWED_EXECUTION_TERMINALS =
     [(PRE_TRANSACTION, OUT_REPLAY, PRELIMINARY_IDEMPOTENCY_CHECK_RETURNED),
      (PRE_TRANSACTION, OUT_REPLAY, AUTHORITATIVE_IDEMPOTENCY_CHECK_RETURNED),
      (PRE_TRANSACTION, OUT_CONFLICT, PRELIMINARY_IDEMPOTENCY_CHECK_RETURNED),
      (PRE_TRANSACTION, OUT_CONFLICT, AUTHORITATIVE_IDEMPOTENCY_CHECK_RETURNED),
      (PRE_TRANSACTION, OUT_VALIDATION_BLOCKED, VALIDATION_RETURNED),
      (PRE_TRANSACTION, OUT_ADMISSION_REJECTED, CONCURRENCY_PREPARATION_RETURNED),
      (PRE_TRANSACTION, OUT_ADMISSION_REJECTED, APPEND_ADMISSION_RETURNED),
      (PRE_TRANSACTION, OUT_ACCEPTED, IDEMPOTENCY_PERSISTENCE_RETURNED),
      (IN_TRANSACTION, OUT_REPLAY, AUTHORITATIVE_IDEMPOTENCY_CHECK_RETURNED),
      (IN_TRANSACTION, OUT_CONFLICT, AUTHORITATIVE_IDEMPOTENCY_CHECK_RETURNED),
      (IN_TRANSACTION, OUT_VALIDATION_BLOCKED, VALIDATION_RETURNED),
      (IN_TRANSACTION, OUT_ADMISSION_REJECTED, CONCURRENCY_PREPARATION_RETURNED),
      (IN_TRANSACTION, OUT_ADMISSION_REJECTED, APPEND_ADMISSION_RETURNED),
      (IN_TRANSACTION, OUT_ACCEPTED, IDEMPOTENCY_PERSISTENCE_RETURNED)]"

record PostgresWriteSideExecution =
  we_result :: PostgresWriteSideResult
  we_trace :: execution_trace

definition PostgresWriteSideExecution_init ::
  "PostgresWriteSideResult \<Rightarrow> execution_trace \<Rightarrow> PostgresWriteSideExecution res" where
  "PostgresWriteSideExecution_init result trace =
     (if (tr_validation_placement trace, wr_outcome result, terminal_checkpoint trace)
           \<notin> set ALLOWED_EXECUTION_TERMINALS
      then Inl (ValueError
        ''result outcome and trace terminal checkpoint are incompatible for validation placement'')
      else Inr \<lparr>we_result = result, we_trace = trace\<rparr>)"

datatype command_result = Primary PostgresWriteSideResult | Traced PostgresWriteSideExecution

fun primary_result :: "command_result \<Rightarrow> PostgresWriteSideResult" where
  "primary_result (Primary r) = r"
| "primary_result (Traced x) = we_result x"

section \<open>Computations\<close>

record ws_state =
  ws_conn :: pg_conn
  ws_finished :: bool
  ws_collector :: "trace_collector option"

type_synonym 'a ws = "ws_state \<Rightarrow> ws_state \<times> 'a res"

definition ws_return :: "'a \<Rightarrow> 'a ws" where
  "ws_return a s = (s, Inr a)"

definition ws_bind :: "'a ws \<Rightarrow> ('a \<Rightarrow> 'b ws) \<Rightarrow> 'b ws" where
  "ws_bind m f s = (case m s of (s', Inl x) \<Rightarrow> (s', Inl x) | (s', Inr a) \<Rightarrow> f a s')"

definition ws_lift :: "'a res \<Rightarrow> 'a ws" where
  "ws_lift r s = (s, r)"

definition on_conn :: "(pg_conn \<Rightarrow> pg_conn \<times> 'a res) \<Rightarrow> 'a ws" where
  "on_conn f s = (case f (ws_conn s) of (c, r) \<Rightarrow> (s\<lparr>ws_conn := c\<rparr>, r))"

definition record_checkpoint :: "checkpoint \<Rightarrow> unit ws" where
  "record_checkpoint cp s =
     (case ws_collector s of
        None \<Rightarrow> (s, Inr ())
      | Some collector \<Rightarrow>
          (case collector_record collector cp of
             Inl x \<Rightarrow> (s, Inl x)
           | Inr collector' \<Rightarrow> (s\<lparr>ws_collector := Some collector'\<rparr>, Inr ())))"

definition finalize_result :: "PostgresWriteSideResult \<Rightarrow> command_result ws" where
  "finalize_result candidate s =
     (s, bind_res (PostgresWriteSideResult_init candidate) (\<lambda>result.
           case ws_collector s of
             None \<Rightarrow> Inr (Primary result)
           | Some collector \<Rightarrow>
               bind_res (collector_trace collector) (\<lambda>trace.
               bind_res (PostgresWriteSideExecution_init result trace) (\<lambda>execution.
                 Inr (Traced execution)))))"

text \<open>The unit of work: \<open>rollback()\<close>, and the \<open>with\<close> statement around a body.\<close>

definition uow_rollback :: "unit ws" where
  "uow_rollback s = (s\<lparr>ws_conn := conn_rollback (ws_conn s), ws_finished := True\<rparr>, Inr ())"

definition with_uow :: "'a ws \<Rightarrow> 'a ws" where
  "with_uow body s =
     (if autocommit (ws_conn s)
      then (s, Inl (RuntimeError ''PostgresWriteSideUnitOfWork requires connection.autocommit=False''))
      else case body (s\<lparr>ws_finished := False\<rparr>) of
        (s1, Inl x) \<Rightarrow>
          (if ws_finished s1 then s1
           else s1\<lparr>ws_conn := conn_rollback (ws_conn s1), ws_finished := True\<rparr>, Inl x)
      | (s1, Inr a) \<Rightarrow>
          if ws_finished s1 then (s1, Inr a)
          else (case conn_commit (ws_conn s1) of
                  (c, Inl x) \<Rightarrow> (s1\<lparr>ws_conn := c\<rparr>, Inl x)
                | (c, Inr _) \<Rightarrow> (s1\<lparr>ws_conn := c, ws_finished := True\<rparr>, Inr a)))"

text \<open>\<open>try: body finally: self._connection.rollback()\<close>.\<close>

definition finally_rollback :: "'a ws \<Rightarrow> 'a ws" where
  "finally_rollback body s =
     (case body s of (s1, r) \<Rightarrow> (s1\<lparr>ws_conn := conn_rollback (ws_conn s1)\<rparr>, r))"

section \<open>Steps shared by both placements\<close>

definition accepted_event_from_replay :: "IdempotencyDecision \<Rightarrow> OrderEvent res" where
  "accepted_event_from_replay decision =
     (case id_record decision of
        None \<Rightarrow> Inl (RuntimeError ''REPLAY idempotency decision must include a record'')
      | Some record \<Rightarrow> Inr (rec_accepted_event record))"

definition rehydrate_aggregate_from_history :: "string \<Rightarrow> OrderEvent list \<Rightarrow> OrderAggregate res" where
  "rehydrate_aggregate_from_history order_id events =
     bind_res (OrderAggregate_init order_id) (\<lambda>aggregate. fold_res aggregate_apply aggregate events)"

definition invoke_validation ::
  "ValidationRuntime \<Rightarrow> OrderEvent \<Rightarrow> ValidationContext
   \<Rightarrow> (ValidationDecision \<times> ValidationDecisionWithRuleEvidence option) res" where
  "invoke_validation runtime candidate_event ctxt =
     bind_res (decide_with_rule_evidence runtime candidate_event ctxt) (\<lambda>carrier.
       Inr (vdr_decision carrier, Some carrier))"

definition prepare_stream :: "admission_gate \<Rightarrow> string \<Rightarrow> (admission_gate \<times> StreamAdmissionResult) ws" where
  "prepare_stream g order_id =
     on_conn (\<lambda>c. case gate_prepare_stream g c order_id of
                    (g', c', Inl x) \<Rightarrow> (c', Inl x)
                  | (g', c', Inr r) \<Rightarrow> (c', Inr (g', r)))"

record write_side =
  wsd_validation_runtime :: ValidationRuntime
  wsd_gate_strategy :: gate_strategy
  wsd_config :: PostgresWriteSideConfig

abbreviation plain_result ::
  "PostgresWriteSideOutcome \<Rightarrow> OrderEvent option \<Rightarrow> IdempotencyDecision \<Rightarrow> PostgresWriteSideResult" where
  "plain_result outcome accepted_event decision \<equiv>
     \<lparr>wr_outcome = outcome, wr_accepted_event = accepted_event, wr_idempotency_decision = decision,
      wr_stream_admission_result = None, wr_validation_decision = None, wr_admission_result = None,
      wr_validation_decision_evidence = None\<rparr>"

definition execute_in_transaction_command ::
  "write_side \<Rightarrow> string \<Rightarrow> string \<Rightarrow> decimal \<Rightarrow> CommandType \<Rightarrow> (OrderAggregate \<Rightarrow> OrderEvent res)
   \<Rightarrow> command_result ws" where
  "execute_in_transaction_command self request_id order_id amount command_type build_candidate_event =
     (let signature = \<lparr>sig_request_id = request_id, sig_command_type = command_type,
                       sig_order_id = order_id, sig_amount = amount\<rparr>
      in with_uow (
        ws_bind (record_checkpoint BUSINESS_UOW_REACHED) (\<lambda>_.
        ws_bind (on_conn (\<lambda>c. pg_check c signature)) (\<lambda>idempotency_decision.
        ws_bind (record_checkpoint AUTHORITATIVE_IDEMPOTENCY_CHECK_RETURNED) (\<lambda>_.
        if id_verdict idempotency_decision = REPLAY
        then ws_bind uow_rollback (\<lambda>_.
             ws_bind (ws_lift (accepted_event_from_replay idempotency_decision)) (\<lambda>accepted_event.
               finalize_result (plain_result OUT_REPLAY (Some accepted_event) idempotency_decision)))
        else if id_verdict idempotency_decision = CONFLICT
        then ws_bind uow_rollback (\<lambda>_.
               finalize_result (plain_result OUT_CONFLICT None idempotency_decision))
        else
        ws_bind (prepare_stream (new_gate (wsd_gate_strategy self)) order_id) (\<lambda>(gate, stream_admission_result).
        ws_bind (record_checkpoint CONCURRENCY_PREPARATION_RETURNED) (\<lambda>_.
        if \<not> stream_admitted stream_admission_result
        then ws_bind uow_rollback (\<lambda>_.
               finalize_result ((plain_result OUT_ADMISSION_REJECTED None idempotency_decision)
                 \<lparr>wr_stream_admission_result := Some stream_admission_result\<rparr>))
        else
        ws_bind (on_conn (\<lambda>c. pg_load c order_id)) (\<lambda>events.
        ws_bind (record_checkpoint ACCEPTED_HISTORY_OBSERVED) (\<lambda>_.
        ws_bind (ws_lift (rehydrate_aggregate_from_history order_id events)) (\<lambda>aggregate.
        let prev_event = (if events \<noteq> [] then Some (last events) else None);
            validation_context = build_validation_context aggregate prev_event
        in
        ws_bind (ws_lift (build_candidate_event aggregate)) (\<lambda>candidate_event.
        ws_bind (ws_lift (invoke_validation (wsd_validation_runtime self) candidate_event validation_context))
          (\<lambda>(validation_decision, validation_decision_evidence).
        ws_bind (record_checkpoint VALIDATION_RETURNED) (\<lambda>_.
        if vd_action validation_decision \<noteq> ALLOW
        then ws_bind uow_rollback (\<lambda>_.
               finalize_result ((plain_result OUT_VALIDATION_BLOCKED None idempotency_decision)
                 \<lparr>wr_stream_admission_result := Some stream_admission_result,
                  wr_validation_decision := Some validation_decision,
                  wr_validation_decision_evidence := validation_decision_evidence\<rparr>))
        else
        ws_bind (on_conn (\<lambda>c. gate_append_if_admitted gate c candidate_event (current_version aggregate)))
          (\<lambda>admission_result.
        ws_bind (record_checkpoint APPEND_ADMISSION_RETURNED) (\<lambda>_.
        if \<not> admission_admitted admission_result
        then ws_bind uow_rollback (\<lambda>_.
               finalize_result ((plain_result OUT_ADMISSION_REJECTED None idempotency_decision)
                 \<lparr>wr_stream_admission_result := Some stream_admission_result,
                  wr_validation_decision := Some validation_decision,
                  wr_admission_result := Some admission_result,
                  wr_validation_decision_evidence := validation_decision_evidence\<rparr>))
        else
        ws_bind (on_conn (\<lambda>c. pg_record c signature candidate_event)) (\<lambda>_.
        ws_bind (record_checkpoint IDEMPOTENCY_PERSISTENCE_RETURNED) (\<lambda>_.
          finalize_result ((plain_result OUT_ACCEPTED (Some candidate_event) idempotency_decision)
            \<lparr>wr_stream_admission_result := Some stream_admission_result,
             wr_validation_decision := Some validation_decision,
             wr_admission_result := Some admission_result,
             wr_validation_decision_evidence := validation_decision_evidence\<rparr>))))))))))))))))))"

text \<open>Under PRE_TRANSACTION the reads run in an implicit read transaction that is closed before the
  candidate is built; an early return (REPLAY, CONFLICT) is the left alternative of the read
  phase.\<close>

definition preliminary_read_phase ::
  "RequestSignature \<Rightarrow> string \<Rightarrow> (command_result + IdempotencyDecision \<times> OrderEvent list) ws" where
  "preliminary_read_phase signature order_id =
     finally_rollback (
       ws_bind (on_conn (\<lambda>c. pg_check c signature)) (\<lambda>preliminary_idempotency_decision.
       ws_bind (record_checkpoint PRELIMINARY_IDEMPOTENCY_CHECK_RETURNED) (\<lambda>_.
       if id_verdict preliminary_idempotency_decision = REPLAY
       then ws_bind (ws_lift (accepted_event_from_replay preliminary_idempotency_decision)) (\<lambda>accepted_event.
            ws_bind (finalize_result
                (plain_result OUT_REPLAY (Some accepted_event) preliminary_idempotency_decision)) (\<lambda>result.
              ws_return (Inl result)))
       else if id_verdict preliminary_idempotency_decision = CONFLICT
       then ws_bind (finalize_result (plain_result OUT_CONFLICT None preliminary_idempotency_decision)) (\<lambda>result.
              ws_return (Inl result))
       else
       ws_bind (on_conn (\<lambda>c. pg_load c order_id)) (\<lambda>events.
       ws_bind (record_checkpoint ACCEPTED_HISTORY_OBSERVED) (\<lambda>_.
         ws_return (Inr (preliminary_idempotency_decision, events)))))))"

definition pre_transaction_uow ::
  "write_side \<Rightarrow> RequestSignature \<Rightarrow> string \<Rightarrow> OrderEvent \<Rightarrow> int \<Rightarrow> ValidationDecision
   \<Rightarrow> ValidationDecisionWithRuleEvidence option \<Rightarrow> command_result ws" where
  "pre_transaction_uow self signature order_id candidate_event expected validation_decision
      validation_decision_evidence =
     with_uow (
       ws_bind (record_checkpoint BUSINESS_UOW_REACHED) (\<lambda>_.
       ws_bind (on_conn (\<lambda>c. pg_check c signature)) (\<lambda>authoritative_idempotency_decision.
       ws_bind (record_checkpoint AUTHORITATIVE_IDEMPOTENCY_CHECK_RETURNED) (\<lambda>_.
       if id_verdict authoritative_idempotency_decision = REPLAY
       then ws_bind uow_rollback (\<lambda>_.
            ws_bind (ws_lift (accepted_event_from_replay authoritative_idempotency_decision)) (\<lambda>accepted_event.
              finalize_result ((plain_result OUT_REPLAY (Some accepted_event) authoritative_idempotency_decision)
                \<lparr>wr_validation_decision := Some validation_decision,
                 wr_validation_decision_evidence := validation_decision_evidence\<rparr>)))
       else if id_verdict authoritative_idempotency_decision = CONFLICT
       then ws_bind uow_rollback (\<lambda>_.
              finalize_result ((plain_result OUT_CONFLICT None authoritative_idempotency_decision)
                \<lparr>wr_validation_decision := Some validation_decision,
                 wr_validation_decision_evidence := validation_decision_evidence\<rparr>))
       else
       ws_bind (prepare_stream (new_gate (wsd_gate_strategy self)) order_id) (\<lambda>(gate, stream_admission_result).
       ws_bind (record_checkpoint CONCURRENCY_PREPARATION_RETURNED) (\<lambda>_.
       if \<not> stream_admitted stream_admission_result
       then ws_bind uow_rollback (\<lambda>_.
              finalize_result ((plain_result OUT_ADMISSION_REJECTED None authoritative_idempotency_decision)
                \<lparr>wr_stream_admission_result := Some stream_admission_result,
                 wr_validation_decision := Some validation_decision,
                 wr_validation_decision_evidence := validation_decision_evidence\<rparr>))
       else
       ws_bind (on_conn (\<lambda>c. gate_append_if_admitted gate c candidate_event expected)) (\<lambda>admission_result.
       ws_bind (record_checkpoint APPEND_ADMISSION_RETURNED) (\<lambda>_.
       if \<not> admission_admitted admission_result
       then ws_bind uow_rollback (\<lambda>_.
              finalize_result ((plain_result OUT_ADMISSION_REJECTED None authoritative_idempotency_decision)
                \<lparr>wr_stream_admission_result := Some stream_admission_result,
                 wr_validation_decision := Some validation_decision,
                 wr_admission_result := Some admission_result,
                 wr_validation_decision_evidence := validation_decision_evidence\<rparr>))
       else
       ws_bind (on_conn (\<lambda>c. pg_record c signature candidate_event)) (\<lambda>_.
       ws_bind (record_checkpoint IDEMPOTENCY_PERSISTENCE_RETURNED) (\<lambda>_.
         finalize_result ((plain_result OUT_ACCEPTED (Some candidate_event) authoritative_idempotency_decision)
           \<lparr>wr_stream_admission_result := Some stream_admission_result,
            wr_validation_decision := Some validation_decision,
            wr_admission_result := Some admission_result,
            wr_validation_decision_evidence := validation_decision_evidence\<rparr>)))))))))))"

definition execute_pre_transaction_command ::
  "write_side \<Rightarrow> string \<Rightarrow> string \<Rightarrow> decimal \<Rightarrow> CommandType \<Rightarrow> (OrderAggregate \<Rightarrow> OrderEvent res)
   \<Rightarrow> command_result ws" where
  "execute_pre_transaction_command self request_id order_id amount command_type build_candidate_event =
     (let signature = \<lparr>sig_request_id = request_id, sig_command_type = command_type,
                       sig_order_id = order_id, sig_amount = amount\<rparr>
      in
      ws_bind (preliminary_read_phase signature order_id) (\<lambda>read.
      case read of
        Inl result \<Rightarrow> ws_return result
      | Inr (preliminary_idempotency_decision, events) \<Rightarrow>
          ws_bind (ws_lift (rehydrate_aggregate_from_history order_id events)) (\<lambda>aggregate.
          let prev_event = (if events \<noteq> [] then Some (last events) else None);
              validation_context = build_validation_context aggregate prev_event
          in
          ws_bind (ws_lift (build_candidate_event aggregate)) (\<lambda>candidate_event.
          ws_bind (ws_lift (invoke_validation (wsd_validation_runtime self) candidate_event validation_context))
            (\<lambda>(validation_decision, validation_decision_evidence).
          ws_bind (record_checkpoint VALIDATION_RETURNED) (\<lambda>_.
          if vd_action validation_decision \<noteq> ALLOW
          then finalize_result ((plain_result OUT_VALIDATION_BLOCKED None preliminary_idempotency_decision)
                 \<lparr>wr_validation_decision := Some validation_decision,
                  wr_validation_decision_evidence := validation_decision_evidence\<rparr>)
          else pre_transaction_uow self signature order_id candidate_event (current_version aggregate)
                 validation_decision validation_decision_evidence))))))"

definition execute_command ::
  "write_side \<Rightarrow> string \<Rightarrow> string \<Rightarrow> decimal \<Rightarrow> CommandType \<Rightarrow> (OrderAggregate \<Rightarrow> OrderEvent res)
   \<Rightarrow> command_result ws" where
  "execute_command self request_id order_id amount command_type build_candidate_event =
     (case cfg_validation_placement (wsd_config self) of
        IN_TRANSACTION \<Rightarrow>
          execute_in_transaction_command self request_id order_id amount command_type build_candidate_event
      | PRE_TRANSACTION \<Rightarrow>
          execute_pre_transaction_command self request_id order_id amount command_type build_candidate_event)"

text \<open>The public commands; \<open>collector\<close> is absent for \<open>create_order\<close> and \<open>pay_order\<close> and new for the
  variants with a trace.\<close>

definition run_command ::
  "command_result ws \<Rightarrow> trace_collector option \<Rightarrow> pg_conn \<Rightarrow> pg_conn \<times> command_result res" where
  "run_command m collector c =
     (case m \<lparr>ws_conn = c, ws_finished = False, ws_collector = collector\<rparr> of (s, r) \<Rightarrow> (ws_conn s, r))"

definition create_order ::
  "write_side \<Rightarrow> pg_conn \<Rightarrow> string \<Rightarrow> int \<Rightarrow> string \<Rightarrow> string \<Rightarrow> decimal \<Rightarrow> pg_conn \<times> command_result res" where
  "create_order self c new_event_id now_ms request_id order_id amount =
     run_command (execute_command self request_id order_id amount CREATE
       (\<lambda>aggregate. aggregate_create aggregate new_event_id now_ms request_id amount)) None c"

definition create_order_with_trace ::
  "write_side \<Rightarrow> pg_conn \<Rightarrow> string \<Rightarrow> int \<Rightarrow> string \<Rightarrow> string \<Rightarrow> decimal \<Rightarrow> pg_conn \<times> command_result res" where
  "create_order_with_trace self c new_event_id now_ms request_id order_id amount =
     run_command (execute_command self request_id order_id amount CREATE
       (\<lambda>aggregate. aggregate_create aggregate new_event_id now_ms request_id amount))
       (Some (new_collector (cfg_validation_placement (wsd_config self)))) c"

definition pay_order ::
  "write_side \<Rightarrow> pg_conn \<Rightarrow> string \<Rightarrow> int \<Rightarrow> string \<Rightarrow> string \<Rightarrow> decimal \<Rightarrow> pg_conn \<times> command_result res" where
  "pay_order self c new_event_id now_ms request_id order_id amount =
     run_command (execute_command self request_id order_id amount PAY
       (\<lambda>aggregate. aggregate_pay aggregate new_event_id now_ms request_id amount)) None c"

definition pay_order_with_trace ::
  "write_side \<Rightarrow> pg_conn \<Rightarrow> string \<Rightarrow> int \<Rightarrow> string \<Rightarrow> string \<Rightarrow> decimal \<Rightarrow> pg_conn \<times> command_result res" where
  "pay_order_with_trace self c new_event_id now_ms request_id order_id amount =
     run_command (execute_command self request_id order_id amount PAY
       (\<lambda>aggregate. aggregate_pay aggregate new_event_id now_ms request_id amount))
       (Some (new_collector (cfg_validation_placement (wsd_config self)))) c"

section \<open>Triples\<close>

text \<open>\<open>triple P m Q E\<close>: from a connection and finished flag in \<open>P\<close>, \<open>m\<close> returns a value in \<open>Q\<close> or
  raises in \<open>E\<close>. The collector does not matter here.\<close>

type_synonym ws_pred = "pg_conn \<Rightarrow> bool \<Rightarrow> bool"

definition triple :: "ws_pred \<Rightarrow> 'a ws \<Rightarrow> ('a \<Rightarrow> ws_pred) \<Rightarrow> (exc \<Rightarrow> ws_pred) \<Rightarrow> bool" where
  "triple P m Q E \<longleftrightarrow> (\<forall>s s' r. P (ws_conn s) (ws_finished s) \<longrightarrow> m s = (s', r) \<longrightarrow>
     (case r of Inr a \<Rightarrow> Q a (ws_conn s') (ws_finished s') | Inl x \<Rightarrow> E x (ws_conn s') (ws_finished s')))"

lemma tripleI:
  assumes "\<And>s s' a. P (ws_conn s) (ws_finished s) \<Longrightarrow> m s = (s', Inr a) \<Longrightarrow> Q a (ws_conn s') (ws_finished s')"
    and "\<And>s s' x. P (ws_conn s) (ws_finished s) \<Longrightarrow> m s = (s', Inl x) \<Longrightarrow> E x (ws_conn s') (ws_finished s')"
  shows "triple P m Q E"
  unfolding triple_def using assms by (auto split: sum.splits)

lemma triple_Inr: "triple P m Q E \<Longrightarrow> P (ws_conn s) (ws_finished s) \<Longrightarrow> m s = (s', Inr a)
    \<Longrightarrow> Q a (ws_conn s') (ws_finished s')"
  unfolding triple_def by fastforce

lemma triple_Inl: "triple P m Q E \<Longrightarrow> P (ws_conn s) (ws_finished s) \<Longrightarrow> m s = (s', Inl x)
    \<Longrightarrow> E x (ws_conn s') (ws_finished s')"
  unfolding triple_def by fastforce

lemma triple_bind:
  assumes m: "triple P m R E" and f: "\<And>a. triple (R a) (f a) Q E"
  shows "triple P (ws_bind m f) Q E"
proof (rule tripleI)
  fix s s' b
  assume P: "P (ws_conn s) (ws_finished s)" and "ws_bind m f s = (s', Inr b)"
  then obtain s1 a where "m s = (s1, Inr a)" "f a s1 = (s', Inr b)"
    by (auto simp: ws_bind_def split: prod.splits sum.splits)
  with triple_Inr [OF m P] triple_Inr [OF f] show "Q b (ws_conn s') (ws_finished s')" by blast
next
  fix s s' x
  assume P: "P (ws_conn s) (ws_finished s)" and "ws_bind m f s = (s', Inl x)"
  then consider "m s = (s', Inl x)" | s1 a where "m s = (s1, Inr a)" "f a s1 = (s', Inl x)"
    by (auto simp: ws_bind_def split: prod.splits sum.splits)
  then show "E x (ws_conn s') (ws_finished s')"
  proof cases
    case 1
    with triple_Inl [OF m P] show ?thesis by blast
  next
    case (2 s1 a)
    with triple_Inr [OF m P] triple_Inl [OF f] show ?thesis by blast
  qed
qed

lemma triple_weaken:
  assumes "triple P' m Q' E'" and "\<And>c f. P c f \<Longrightarrow> P' c f"
    and "\<And>a c f. Q' a c f \<Longrightarrow> Q a c f" and "\<And>x c f. E' x c f \<Longrightarrow> E x c f"
  shows "triple P m Q E"
proof (rule tripleI)
  fix s s' a
  assume "P (ws_conn s) (ws_finished s)" "m s = (s', Inr a)"
  with triple_Inr [OF assms(1)] assms(2,3) show "Q a (ws_conn s') (ws_finished s')" by blast
next
  fix s s' x
  assume "P (ws_conn s) (ws_finished s)" "m s = (s', Inl x)"
  with triple_Inl [OF assms(1)] assms(2,4) show "E x (ws_conn s') (ws_finished s')" by blast
qed

lemma triple_return: "(\<And>c f. P c f \<Longrightarrow> Q a c f) \<Longrightarrow> triple P (ws_return a) Q E"
  by (auto simp: triple_def ws_return_def)

lemma triple_lift: "(\<And>c f. P c f \<Longrightarrow> E' c f) \<Longrightarrow> triple P (ws_lift r) (\<lambda>a c f. P c f \<and> r = Inr a) (\<lambda>_. E')"
  by (auto simp: triple_def ws_lift_def split: sum.splits)

lemma triple_checkpoint: "(\<And>c f. P c f \<Longrightarrow> E c f) \<Longrightarrow> triple P (record_checkpoint cp) (\<lambda>_. P) (\<lambda>_. E)"
  by (auto simp: triple_def record_checkpoint_def split: option.splits sum.splits)

lemma triple_finalize:
  assumes "\<And>c f. P c f \<Longrightarrow> E c f"
  shows "triple P (finalize_result r0) (\<lambda>r c f. P c f \<and> primary_result r = r0) (\<lambda>_. E)"
  using assms
  by (auto simp: triple_def finalize_result_def PostgresWriteSideResult_init_def
      PostgresWriteSideExecution_init_def res_simps split: option.splits sum.splits if_splits)

lemma triple_conn:
  assumes "\<And>c f c' r. P c f \<Longrightarrow> m c = (c', r) \<Longrightarrow> (case r of Inr a \<Rightarrow> Q a c' f | Inl x \<Rightarrow> E x c' f)"
  shows "triple P (on_conn m) Q E"
proof (rule tripleI)
  fix s s' a
  assume "P (ws_conn s) (ws_finished s)" "on_conn m s = (s', Inr a)"
  with assms [of "ws_conn s" "ws_finished s"] show "Q a (ws_conn s') (ws_finished s')"
    by (auto simp: on_conn_def split: prod.splits)
next
  fix s s' x
  assume "P (ws_conn s) (ws_finished s)" "on_conn m s = (s', Inl x)"
  with assms [of "ws_conn s" "ws_finished s"] show "E x (ws_conn s') (ws_finished s')"
    by (auto simp: on_conn_def split: prod.splits)
qed

lemma triple_rollback:
  "(\<And>c f. P c f \<Longrightarrow> Q (conn_rollback c) True) \<Longrightarrow> triple P uow_rollback (\<lambda>_. Q) E"
  by (auto simp: triple_def uow_rollback_def)

lemma triple_if:
  "(b \<Longrightarrow> triple P m Q E) \<Longrightarrow> (\<not> b \<Longrightarrow> triple P n Q E) \<Longrightarrow> triple P (if b then m else n) Q E"
  by simp

text \<open>The unit of work: its body either finished (rolled back) or is committed now; an exception
  rolls back.\<close>

lemma triple_with_uow:
  assumes body: "triple (\<lambda>c f. P c \<and> \<not> f) body Q E"
    and noauto: "\<And>c. P c \<Longrightarrow> \<not> autocommit c"
    and fin: "\<And>a c. Q a c True \<Longrightarrow> Q' a c"
    and commit: "\<And>a c c' r. Q a c False \<Longrightarrow> conn_commit c = (c', r) \<Longrightarrow>
       (case r of Inr _ \<Rightarrow> Q' a c' | Inl x \<Rightarrow> E' x c')"
    and exc: "\<And>x c. E x c True \<Longrightarrow> E' x c" "\<And>x c. E x c False \<Longrightarrow> E' x (conn_rollback c)"
  shows "triple (\<lambda>c _. P c) (with_uow body) (\<lambda>a c _. Q' a c) (\<lambda>x c _. E' x c)"
proof (rule tripleI)
  fix s s' a
  assume P: "P (ws_conn s)" and w: "with_uow body s = (s', Inr a)"
  obtain s1 r where r: "body (s\<lparr>ws_finished := False\<rparr>) = (s1, r)" by force
  from w r noauto [OF P] have "r = Inr a"
    by (auto simp: with_uow_def split: sum.splits if_splits prod.splits)
  with triple_Inr [OF body, of "s\<lparr>ws_finished := False\<rparr>"] r P have Q: "Q a (ws_conn s1) (ws_finished s1)" by simp
  obtain c q where c: "conn_commit (ws_conn s1) = (c, q)" by force
  from Q fin commit [OF _ c] w r c noauto [OF P] \<open>r = Inr a\<close> show "Q' a (ws_conn s')"
    by (cases "ws_finished s1") (auto simp: with_uow_def split: sum.splits)
next
  fix s s' x
  assume P: "P (ws_conn s)" and w: "with_uow body s = (s', Inl x)"
  obtain s1 r where r: "body (s\<lparr>ws_finished := False\<rparr>) = (s1, r)" by force
  obtain c q where c: "conn_commit (ws_conn s1) = (c, q)" by force
  show "E' x (ws_conn s')"
  proof (cases r)
    case (Inl y)
    with triple_Inl [OF body, of "s\<lparr>ws_finished := False\<rparr>"] r P have "E y (ws_conn s1) (ws_finished s1)" by simp
    with exc w r noauto [OF P] Inl show ?thesis by (cases "ws_finished s1") (auto simp: with_uow_def)
  next
    case (Inr a)
    with triple_Inr [OF body, of "s\<lparr>ws_finished := False\<rparr>"] r P have "Q a (ws_conn s1) (ws_finished s1)" by simp
    with commit [OF _ c] w r c noauto [OF P] Inr show ?thesis
      by (cases "ws_finished s1") (auto simp: with_uow_def split: sum.splits)
  qed
qed

lemma triple_finally_rollback:
  assumes "triple P body Q E" and "\<And>a c f. Q a c f \<Longrightarrow> Q' a (conn_rollback c) f"
    and "\<And>x c f. E x c f \<Longrightarrow> E' x (conn_rollback c) f"
  shows "triple P (finally_rollback body) Q' E'"
proof (rule tripleI)
  fix s s' a
  assume P: "P (ws_conn s) (ws_finished s)" and "finally_rollback body s = (s', Inr a)"
  then obtain s1 where "body s = (s1, Inr a)" "s' = s1\<lparr>ws_conn := conn_rollback (ws_conn s1)\<rparr>"
    by (auto simp: finally_rollback_def split: prod.splits)
  with triple_Inr [OF assms(1) P] assms(2) show "Q' a (ws_conn s') (ws_finished s')" by simp
next
  fix s s' x
  assume P: "P (ws_conn s) (ws_finished s)" and "finally_rollback body s = (s', Inl x)"
  then obtain s1 where "body s = (s1, Inl x)" "s' = s1\<lparr>ws_conn := conn_rollback (ws_conn s1)\<rparr>"
    by (auto simp: finally_rollback_def split: prod.splits)
  with triple_Inl [OF assms(1) P] assms(3) show "E' x (ws_conn s') (ws_finished s')" by simp
qed

end
