(* ===== verification/Write_Side_Safety.thy ===== *)
theory Write_Side_Safety
  imports Postgres_Write_Side
begin

text \<open>
  What a durable command may commit among concurrent sessions. \<open>idle\<close>, \<open>pending\<close> and
  \<open>accepted_in\<close> describe the connection before, during and after the write of a command; every
  statement of the write side is a triple between them, for both placements of validation and both
  admission gates.
\<close>

section \<open>States of a command\<close>

definition idle :: "server_event set \<Rightarrow> db \<Rightarrow> pg_conn \<Rightarrow> bool" where
  "idle S d0 c \<longleftrightarrow> conn_inv c \<and> own c = empty_db \<and> grows_by S d0 (committed c) \<and> set (schedule c) \<subseteq> S"

definition inside :: "server_event set \<Rightarrow> db \<Rightarrow> ws_pred" where
  "inside S d0 c f \<longleftrightarrow> conn_inv c \<and> grows_by S d0 (committed c) \<and> set (schedule c) \<subseteq> S
     \<and> (f \<longrightarrow> own c = empty_db)"

definition since :: "db \<Rightarrow> pg_conn \<Rightarrow> bool" where
  "since dl c \<longleftrightarrow> (\<exists>x. committed c = db_plus dl x)"

definition candidate_from :: "db \<Rightarrow> OrderAggregate \<Rightarrow> OrderEvent \<Rightarrow> bool" where
  "candidate_from dl a e \<longleftrightarrow> legal_db dl \<and> rehydrate (ev_order_id e) (history dl (ev_order_id e)) = Inr a
     \<and> legal_candidate a e \<and> storable e \<and> \<not> py_blank (ev_order_id e)"

definition pending ::
  "server_event set \<Rightarrow> db \<Rightarrow> db \<Rightarrow> OrderEvent \<Rightarrow> idempotency_row list \<Rightarrow> pg_conn \<Rightarrow> bool" where
  "pending S d0 dl e is c \<longleftrightarrow> conn_inv c \<and> grows_by S d0 (committed c) \<and> set (schedule c) \<subseteq> S \<and> since dl c
     \<and> (\<exists>row. event_to_row e = Inr row \<and> own c = \<lparr>order_events = [row], idempotency_records = is\<rparr>)"

text \<open>The event answers the request: same identities, the event type of the command and its
  normalised amount.\<close>

definition signature_for :: "RequestSignature \<Rightarrow> OrderEvent \<Rightarrow> bool" where
  "signature_for sg e \<longleftrightarrow> sig_request_id sg = ev_request_id e \<and> sig_order_id sg = ev_order_id e
     \<and> ensure_positive_money (MDecimal (sig_amount sg)) = Inr (ev_amount e)
     \<and> ev_event_type e = (case sig_command_type sg of CREATE \<Rightarrow> EV_CREATED | PAY \<Rightarrow> EV_PAID)"

text \<open>\<open>d\<close> is what other sessions made of \<open>d0\<close>, and then exactly one event and its request: the event
  extends its own history, the request was unknown before and is now remembered.\<close>

definition accepted_in ::
  "server_event set \<Rightarrow> db \<Rightarrow> RequestSignature \<Rightarrow> OrderEvent \<Rightarrow> db \<Rightarrow> bool" where
  "accepted_in S d0 sg e d \<longleftrightarrow> signature_for sg e \<and> (\<exists>d1 row irow. grows_by S d0 d1 \<and> legal_db d1
     \<and> d = db_plus d1 \<lparr>order_events = [row], idempotency_records = [irow]\<rparr> \<and> legal_db d
     \<and> (\<forall>oid. history d oid = (if oid = ev_order_id e then history d1 oid @ [e] else history d1 oid))
     \<and> lookup_request d1 (sig_request_id sg) = None
     \<and> lookup_request d (sig_request_id sg)
         = Some \<lparr>rec_signature = normal_signature sg, rec_accepted_event = e\<rparr>)"

lemma idle_inside: "idle S d0 c \<Longrightarrow> inside S d0 c f"
  by (simp add: idle_def inside_def)

lemma pending_inside: "pending S d0 dl e is c \<Longrightarrow> inside S d0 c False"
  by (simp add: pending_def inside_def)

lemma idle_moves: "idle S d0 c \<Longrightarrow> moves c c' \<Longrightarrow> idle S d0 c'"
  by (auto simp: idle_def moves_def intro: grows_trans)

lemma since_moves: "since dl c \<Longrightarrow> moves c c' \<Longrightarrow> since dl c'"
  unfolding since_def moves_def by (metis grows_extends db_plus_assoc)

lemma pending_moves: "pending S d0 dl e is c \<Longrightarrow> moves c c' \<Longrightarrow> pending S d0 dl e is c'"
  using since_moves by (auto simp: pending_def moves_def intro: grows_trans)

lemma legal_db_ok: "legal_db d \<Longrightarrow> db_ok d"
  by (simp add: legal_db_def)

lemma inside_rollback: "inside S d0 c f \<Longrightarrow> idle S d0 (conn_rollback c)"
  by (simp add: inside_def idle_def conn_rollback_def conn_inv_def visible_def legal_db_ok)

lemma since_rollback [simp]: "since dl (conn_rollback c) = since dl c"
  by (simp add: since_def conn_rollback_def)

lemma idle_rollback: "idle S d0 c \<Longrightarrow> idle S d0 (conn_rollback c)"
  by (rule inside_rollback [OF idle_inside [of _ _ _ False]])

lemma candidate_storable:
  assumes d: "legal_db d" and b: "\<not> py_blank oid" and a: "rehydrate oid (history d oid) = Inr a"
    and e: "legal_candidate a e" and u: "uuid_in (ev_event_id e) = Some (ev_event_id e)"
  shows "candidate_from d a e" and "ev_order_id e = oid"
    and "current_version a = int (length (stream_rows d oid))"
proof -
  from d have ok: "db_ok d" by (rule legal_db_ok)
  have lh: "legal_history oid (history d oid)" by (rule legal_db_history [OF d b])
  from legal_history_replay [OF lh] a
  have ag: "agg_order_id a = oid" "current_version a = int (length (history d oid))"
    "last_event_id a = (if history d oid = [] then None else Some (ev_event_id (last (history d oid))))"
    by (metis sum.inject(2))+
  show oid: "ev_order_id e = oid" using e ag by (simp add: legal_candidate_def)
  show "current_version a = int (length (stream_rows d oid))" using ag history_map(2) [OF ok] by simp
  have "uuid_in p = Some p" if "last_event_id a = Some p" for p
  proof -
    from that ag(3) have ne: "history d oid \<noteq> []" and p: "p = ev_event_id (last (history d oid))"
      by (auto split: if_splits)
    let ?r = "last (stream_rows d oid)"
    from ne have "stream_rows d oid \<noteq> []" by (auto simp: history_map(2) [OF ok])
    then have "?r \<in> set (stream_rows d oid)" and "last (history d oid) = event_of ?r"
      by (simp_all add: history_map(2) [OF ok] last_map)
    moreover from this(1) ok have "event_row_typed ?r"
      unfolding stream_rows_set db_ok_def list_all_iff by blast
    ultimately show ?thesis using typed_uuid p by simp
  qed
  with e u have "storable e" by (auto simp: storable_def legal_candidate_def proof_of_def)
  with d a e b oid show "candidate_from d a e" by (simp add: candidate_from_def)
qed

section \<open>Commit\<close>

lemma pending_position:
  assumes p: "pending S d0 dl e is c" and cand: "candidate_from dl a e"
  shows "candidate_from (committed c) a e"
proof -
  from p obtain row x where row: "event_to_row e = Inr row"
    "own c = \<lparr>order_events = [row], idempotency_records = is\<rparr>" and x: "committed c = db_plus dl x"
    by (auto simp: pending_def since_def)
  from p have inv: "legal_db (committed c)" "db_ok (visible c)" by (auto simp: pending_def conn_inv_def)
  from cand have e: "storable e" and dl: "legal_db dl" by (simp_all add: candidate_from_def)
  note rf = event_row_fields [OF e row(1)]
  from cand have "current_version a = int (length (stream_rows dl (ev_order_id e)))"
    by (intro candidate_storable(3) [OF dl, of "ev_order_id e" a e]) (simp_all add: candidate_from_def storable_def)
  with cand have "ev_sequence e = int (length (stream_rows dl (ev_order_id e))) + 1"
    by (simp add: candidate_from_def legal_candidate_def)
  moreover from inv(2) row(2) have "(ev_order_id e, ev_sequence e)
      \<notin> (\<lambda>r. (col_order_id r, col_sequence r)) ` set (order_events (committed c))"
    by (simp add: db_ok_def visible_def rf)
  moreover have "order_events (committed c) = order_events dl @ order_events x" by (simp add: x)
  ultimately have "stream_rows (committed c) (ev_order_id e) = stream_rows dl (ev_order_id e)"
    using position_free_length [OF dl inv(1)] by auto
  then have "history (committed c) (ev_order_id e) = history dl (ev_order_id e)"
    using history_map(2) legal_db_ok [OF dl] legal_db_ok [OF inv(1)] by simp
  with cand inv(1) show ?thesis by (simp add: candidate_from_def)
qed

lemma pending_accepts:
  assumes p: "pending S d0 dl e [irow] c" and cand: "candidate_from dl a e" and sg: "signature_for sg e"
    and par: "record_parameters sg = Inr (amount, fp)" "idempotency_row_of sg e amount fp = Inr irow"
  shows "accepted_in S d0 sg e (visible c)" and "legal_db (visible c)"
proof -
  from p obtain row where row: "event_to_row e = Inr row"
    "own c = \<lparr>order_events = [row], idempotency_records = [irow]\<rparr>"
    by (auto simp: pending_def)
  let ?d1 = "committed c"
  have vis: "visible c = db_plus ?d1 \<lparr>order_events = [row], idempotency_records = [irow]\<rparr>"
    by (simp add: visible_def row)
  from p have inv: "legal_db ?d1" "db_ok (visible c)" "grows_by S d0 ?d1"
    by (auto simp: pending_def conn_inv_def)
  from pending_position [OF p cand] have cf: "rehydrate (ev_order_id e) (history ?d1 (ev_order_id e)) = Inr a"
    "legal_candidate a e" "storable e" "\<not> py_blank (ev_order_id e)" by (simp_all add: candidate_from_def)
  from sg obtain n where n: "sig_request_id sg = ev_request_id e" "sig_order_id sg = ev_order_id e"
    "ensure_positive_money (MDecimal (sig_amount sg)) = Inr n" by (auto simp: signature_for_def)
  note acc = accept_rows_legal [OF inv(1) inv(2) [unfolded vis] cf(3) row(1) cf(1,2,4) n par, folded vis]
  then show "legal_db (visible c)" by simp
  note rf = event_row_fields [OF cf(3) row(1)]
  have ir: "irow = \<lparr>idr_request_id = sig_request_id sg, idr_order_id = sig_order_id sg,
     idr_command_type = CommandType_value (sig_command_type sg), idr_amount = n,
     idr_fingerprint_version = FINGERPRINT_VERSION, idr_semantic_fingerprint = fp,
     idr_accepted_event_id = ev_event_id e, idr_result_sequence = ev_sequence e, idr_status = ''SUCCEEDED''\<rparr>"
    using idempotency_row_fields [OF par(2)] record_parameters_canonical(1) [OF n(3) par(1)]
      ensure_positive_canonical [OF n(3)] cf(3) by (simp add: storable_def)
  have norm: "normal_signature sg = sg\<lparr>sig_amount := n\<rparr>"
    using n(3) by (auto simp: normal_signature_def ensure_positive_money_def res_simps split: if_splits)
  have "load_record (visible c) (sig_request_id sg) = Some (irow, row)"
    unfolding load_record_iff [OF inv(2)] by (simp add: vis ir rf)
  moreover have "row_to_idempotency_record (irow, row)
      = Inr \<lparr>rec_signature = normal_signature sg, rec_accepted_event = e\<rparr>"
    using event_row_roundtrip [OF cf(3) row(1)] by (simp add: row_to_idempotency_record_def ir norm)
  ultimately have "lookup_request (visible c) (sig_request_id sg)
      = Some \<lparr>rec_signature = normal_signature sg, rec_accepted_event = e\<rparr>" by (simp add: lookup_request_def)
  moreover from inv(2) have "sig_request_id sg \<notin> idr_request_id ` set (idempotency_records ?d1)"
    by (simp add: db_ok_def vis ir)
  then have "load_record ?d1 (sig_request_id sg) = None"
    by (simp only: load_record_None [OF legal_db_ok [OF inv(1)]] not_False_eq_True)
  then have "lookup_request ?d1 (sig_request_id sg) = None" by (simp add: lookup_request_def)
  ultimately show "accepted_in S d0 sg e (visible c)"
    unfolding accepted_in_def using inv acc vis sg by blast
qed

lemma commit_pending:
  assumes p: "pending S d0 dl e [irow] c" and cand: "candidate_from dl a e" and sg: "signature_for sg e"
    and par: "record_parameters sg = Inr (amount, fp)" "idempotency_row_of sg e amount fp = Inr irow"
    and cm: "conn_commit c = (c', r)"
  shows "conn_inv c' \<and> own c' = empty_db \<and>
    (case r of Inr _ \<Rightarrow> accepted_in S d0 sg e (committed c')
     | Inl x \<Rightarrow> grows_by S d0 (committed c') \<or> Ack_lost x \<in> S \<and> accepted_in S d0 sg e (committed c'))"
proof -
  obtain c1 v where v: "take_event c = (c1, v)" by force
  have settle: "conn_inv (c2\<lparr>committed := visible c2, own := empty_db\<rparr>) \<and> accepted_in S d0 sg e (visible c2)"
    if m: "moves c c2" for c2
    using pending_accepts [OF pending_moves [OF p m] cand sg par] pending_moves [OF p m]
    by (simp add: conn_inv_def visible_def pending_def legal_db_ok)
  note m1 = take_event_moves [OF v]
  from p have sched: "set (schedule c) \<subseteq> S" by (simp add: pending_def)
  from p m1 pending_moves [OF p m1] have c1: "conn_inv c1" "grows_by S d0 (committed c1)"
    by (simp_all add: pending_def)
  show ?thesis
  proof (cases v)
    case (Other_commit delta)
    have "moves c (foreign_commit c1 delta)" by (rule foreign_commit_moves) (use v Other_commit in simp)
    from settle [OF this] cm v Other_commit show ?thesis by (auto simp: conn_commit_def Let_def)
  next
    case (Statement_fails x)
    with cm v c1 show ?thesis by (auto simp: conn_commit_def conn_inv_def visible_def legal_db_ok)
  next
    case (Ack_lost x)
    with v have "Ack_lost x \<in> set (schedule c)" by (auto simp: take_event_def split: list.splits)
    with settle [OF m1] cm v Ack_lost sched show ?thesis by (auto simp: conn_commit_def)
  qed (use settle [OF m1] cm v in \<open>auto simp: conn_commit_def\<close>)
qed

section \<open>Triples of the statements\<close>

lemma triple_pure: "(b \<Longrightarrow> triple P m Q E) \<Longrightarrow> triple (\<lambda>c f. P c f \<and> b) m Q E"
  by (auto simp: triple_def)

lemma triple_ex: "(\<And>x. triple (P x) m Q E) \<Longrightarrow> triple (\<lambda>c f. \<exists>x. P x c f) m Q E"
  by (auto simp: triple_def)

text \<open>What an idempotency decision says about a database at some moment of the command.\<close>

definition decided :: "server_event set \<Rightarrow> db \<Rightarrow> RequestSignature \<Rightarrow> IdempotencyDecision \<Rightarrow> bool" where
  "decided S d0 sg dec \<longleftrightarrow> (\<exists>d. grows_by S d0 d \<and> legal_db d \<and> classify_request d sg = Inr dec)"

lemma check_triple:
  "triple (\<lambda>c f. idle S d0 c \<and> R f \<and> (\<forall>dl. B dl \<longrightarrow> since dl c)) (on_conn (\<lambda>c. pg_check c sg))
     (\<lambda>dec c f. (idle S d0 c \<and> R f \<and> (\<forall>dl. B dl \<longrightarrow> since dl c)) \<and> decided S d0 sg dec) (\<lambda>_. inside S d0)"
proof (rule triple_conn)
  fix c f c' r
  assume P: "idle S d0 c \<and> R f \<and> (\<forall>dl. B dl \<longrightarrow> since dl c)" and chk: "pg_check c sg = (c', r)"
  note m = check_moves [OF chk]
  from idle_moves [OF _ m] P have i: "idle S d0 c'" by blast
  have "classify_request (committed c') sg = r" if "r = Inr dec" for dec
    using chk that i by (auto simp: pg_check_def idle_def split: prod.splits sum.splits)
  with i P since_moves [OF _ m] idle_inside [OF i]
  show "case r of Inr dec \<Rightarrow> (idle S d0 c' \<and> R f \<and> (\<forall>dl. B dl \<longrightarrow> since dl c')) \<and> decided S d0 sg dec
    | Inl x \<Rightarrow> inside S d0 c' f"
    by (auto simp: decided_def idle_def conn_inv_def split: sum.splits)
qed

lemma moving_triple:
  assumes "\<And>c c' r. m c = (c', r) \<Longrightarrow> moves c c'"
  shows "triple (\<lambda>c f. idle S d0 c \<and> R f \<and> (\<forall>dl. B dl \<longrightarrow> since dl c)) (on_conn m)
     (\<lambda>_ c f. idle S d0 c \<and> R f \<and> (\<forall>dl. B dl \<longrightarrow> since dl c)) (\<lambda>_. inside S d0)"
proof (rule triple_conn)
  fix c f c' r
  assume P: "idle S d0 c \<and> R f \<and> (\<forall>dl. B dl \<longrightarrow> since dl c)" and "m c = (c', r)"
  from assms [OF this(2)] have m: "moves c c'" .
  from P idle_moves [OF _ m] have i: "idle S d0 c'" by blast
  show "case r of Inr a \<Rightarrow> idle S d0 c' \<and> R f \<and> (\<forall>dl. B dl \<longrightarrow> since dl c') | Inl x \<Rightarrow> inside S d0 c' f"
    using P i idle_inside [OF i] since_moves [OF _ m] by (cases r) simp_all
qed

lemma prepare_triple:
  "triple (\<lambda>c f. idle S d0 c \<and> R f \<and> (\<forall>dl. B dl \<longrightarrow> since dl c)) (prepare_stream g oid)
     (\<lambda>_ c f. idle S d0 c \<and> R f \<and> (\<forall>dl. B dl \<longrightarrow> since dl c)) (\<lambda>_. inside S d0)"
  unfolding prepare_stream_def
proof (rule moving_triple)
  fix c c' r
  assume prep: "(case gate_prepare_stream g c oid of (g', c', Inl x) \<Rightarrow> (c', Inl x) | (g', c', Inr r) \<Rightarrow> (c', Inr (g', r))) = (c', r)"
  obtain g' c1 q where q: "gate_prepare_stream g c oid = (g', c1, q)" by (rule prod_cases3)
  with prep have "c' = c1" by (simp split: sum.splits)
  with prepare_moves(1) [OF q] show "moves c c'" by simp
qed

lemma load_triple:
  "triple (\<lambda>c f. idle S d0 c \<and> R f) (on_conn (\<lambda>c. pg_load c oid))
     (\<lambda>es c f. \<exists>dl. (idle S d0 c \<and> R f \<and> since dl c) \<and> legal_db dl \<and> es = history dl oid) (\<lambda>_. inside S d0)"
proof (rule triple_conn)
  fix c f c' r
  assume P: "idle S d0 c \<and> R f" and ld: "pg_load c oid = (c', r)"
  note m = load_moves [OF ld]
  from idle_moves [OF _ m] P have i: "idle S d0 c'" by blast
  then have d: "legal_db (committed c')" "visible c' = committed c'" by (simp_all add: idle_def conn_inv_def)
  have "map_res row_to_order_event (stream_rows (visible c') oid) = Inr es" if "r = Inr es" for es
    using ld that by (auto simp: pg_load_def split: prod.splits sum.splits)
  then have es: "es = history (committed c') oid" if "r = Inr es" for es
  proof -
    from \<open>\<And>es. r = Inr es \<Longrightarrow> map_res row_to_order_event (stream_rows (visible c') oid) = Inr es\<close> [OF that]
    have "Inr (map event_of (stream_rows (committed c') oid)) = (Inr es :: OrderEvent list res)"
      by (simp only: d(2) history_map(1) [OF legal_db_ok [OF d(1)]])
    then show ?thesis by (simp only: history_map(2) [OF legal_db_ok [OF d(1)]] sum.inject)
  qed
  have "since (committed c') c'" unfolding since_def by (rule exI [of _ empty_db]) simp
  then have "\<exists>dl. (idle S d0 c' \<and> R f \<and> since dl c') \<and> legal_db dl \<and> es = history dl oid" if "r = Inr es" for es
    using es [OF that] P i d(1) by (intro exI [of _ "committed c'"]) simp
  then show "case r of Inr es \<Rightarrow> \<exists>dl. (idle S d0 c' \<and> R f \<and> since dl c') \<and> legal_db dl \<and> es = history dl oid
    | Inl x \<Rightarrow> inside S d0 c' f"
    using idle_inside [OF i] by (simp split: sum.split)
qed

lemma append_triple:
  assumes cand: "candidate_from dl a e"
  shows "triple (\<lambda>c f. idle S d0 c \<and> \<not> f \<and> since dl c) (on_conn (\<lambda>c. gate_append_if_admitted g c e v))
     (\<lambda>adm c f. \<not> f \<and> (if admission_admitted adm then pending S d0 dl e [] c else idle S d0 c)) (\<lambda>_. inside S d0)"
proof (rule triple_conn)
  fix c f c' r
  assume P: "idle S d0 c \<and> \<not> f \<and> since dl c" and app: "gate_append_if_admitted g c e v = (c', r)"
  then have c: "conn_inv c" "own c = empty_db" "grows_by S d0 (committed c)" "set (schedule c) \<subseteq> S" "since dl c"
    by (simp_all add: idle_def)
  from cand have e: "storable e" by (simp add: candidate_from_def)
  from app obtain q where q: "pg_append c e v = (c', q) \<and> (\<forall>adm. r = Inr adm \<and> ad_verdict adm = ADMITTED \<longrightarrow> q = Inr ())
      \<and> ((\<exists>adm. r = Inr adm \<and> ad_verdict adm = ADMITTED) \<or> (\<exists>x. q = Inl x))
    \<or> c' = c \<and> \<not> (\<exists>adm. r = Inr adm \<and> ad_verdict adm = ADMITTED)"
    by (cases rule: gate_append_cases) (auto dest: translate_not_admitted)
  show "case r of Inr adm \<Rightarrow> \<not> f \<and> (if admission_admitted adm then pending S d0 dl e [] c' else idle S d0 c')
    | Inl x \<Rightarrow> inside S d0 c' f"
  proof (cases "c' = c \<and> \<not> (\<exists>adm. r = Inr adm \<and> ad_verdict adm = ADMITTED)")
    case True
    with P idle_inside show ?thesis by (auto simp: admission_admitted_def split: sum.splits)
  next
    case False
    with q have q: "pg_append c e v = (c', q)" "\<forall>adm. r = Inr adm \<and> ad_verdict adm = ADMITTED \<longrightarrow> q = Inr ()"
      "(\<exists>adm. r = Inr adm \<and> ad_verdict adm = ADMITTED) \<or> (\<exists>x. q = Inl x)" by blast+
    note k = pg_append_among_others [OF c(1,2) e q(1)]
    from k c(3,4) have g: "conn_inv c'" "grows_by S d0 (committed c')" "set (schedule c') \<subseteq> S"
      by (auto intro: grows_trans)
    from k c(5) have s: "since dl c'"
      unfolding since_def by (metis grows_extends db_plus_assoc)
    show ?thesis
    proof (cases "\<exists>adm. r = Inr adm \<and> ad_verdict adm = ADMITTED")
      case True
      with q(2) k g s P show ?thesis by (auto simp: pending_def admission_admitted_def)
    next
      case False
      with q(3) k g have "idle S d0 c'" by (auto simp: idle_def)
      with False P idle_inside show ?thesis by (auto simp: admission_admitted_def split: sum.splits)
    qed
  qed
qed

lemma record_triple:
  assumes cand: "candidate_from dl a e" and sg: "signature_for sg e"
  shows "triple (\<lambda>c f. \<not> f \<and> pending S d0 dl e [] c) (on_conn (\<lambda>c. pg_record c sg e))
     (\<lambda>_ c f. \<not> f \<and> (\<exists>amount fp irow. record_parameters sg = Inr (amount, fp)
        \<and> idempotency_row_of sg e amount fp = Inr irow \<and> pending S d0 dl e [irow] c)) (\<lambda>_. inside S d0)"
proof (rule triple_conn)
  fix c f c' r
  assume P: "\<not> f \<and> pending S d0 dl e [] c" and rec: "pg_record c sg e = (c', r)"
  obtain c1 q where st: "statement c = (c1, q)" by force
  from P have p1: "pending S d0 dl e [] c1" using pending_moves [OF _ statement_moves [OF st]] by blast
  show "case r of Inr _ \<Rightarrow> \<not> f \<and> (\<exists>amount fp irow. record_parameters sg = Inr (amount, fp)
        \<and> idempotency_row_of sg e amount fp = Inr irow \<and> pending S d0 dl e [irow] c') | Inl x \<Rightarrow> inside S d0 c' f"
  proof (cases r)
    case (Inl x)
    with rec st have "c' = c \<or> c' = c1"
      by (auto simp: pg_record_def insert_idempotency_row_def split: sum.splits prod.splits if_splits)
    with P p1 pending_inside Inl show ?thesis by auto
  next
    case (Inr u)
    with rec st obtain amount fp irow where par: "record_parameters sg = Inr (amount, fp)"
      "idempotency_row_of sg e amount fp = Inr irow" "insert_idempotency_row c1 irow = (c', Inr ())"
      by (auto simp: pg_record_def split: sum.splits prod.splits)
    from p1 obtain row where row: "event_to_row e = Inr row" "own c1 = \<lparr>order_events = [row], idempotency_records = []\<rparr>"
      and ci: "conn_inv c1" by (auto simp: pending_def)
    from par(3) ci have ins: "idempotency_row_checks irow"
      "idr_request_id irow \<notin> set (map idr_request_id (idempotency_records (visible c1)))"
      "idr_accepted_event_id irow \<in> set (map col_accepted_event_id (order_events (visible c1)))"
      "c' = c1\<lparr>own := \<lparr>order_events = [row], idempotency_records = [irow]\<rparr>\<rparr>"
      by (auto simp: insert_idempotency_row_def stage_def conn_inv_def row db_plus_def split: if_splits)
    have "visible c' = db_plus (visible c1) \<lparr>order_events = [], idempotency_records = [irow]\<rparr>"
      by (simp add: visible_def ins(4) row db_plus_def)
    then have "db_ok (visible c')" using db_ok_add_request [OF _ ins(1-3)] ci by (simp add: conn_inv_def)
    with p1 ins(4) row(1) have "pending S d0 dl e [irow] c'" by (simp add: pending_def conn_inv_def since_def)
    with par P Inr show ?thesis by auto
  qed
qed

section \<open>Outcomes\<close>

text \<open>What a result that accepts nothing promises.\<close>

definition refused :: "server_event set \<Rightarrow> db \<Rightarrow> RequestSignature \<Rightarrow> PostgresWriteSideResult \<Rightarrow> bool" where
  "refused S d0 sg r \<longleftrightarrow>
     (case wr_outcome r of
        OUT_ACCEPTED \<Rightarrow> False
      | OUT_REPLAY \<Rightarrow> (\<exists>d rec. grows_by S d0 d \<and> lookup_request d (sig_request_id sg) = Some rec
          \<and> same_fingerprint (rec_signature rec) sg \<and> wr_accepted_event r = Some (rec_accepted_event rec))
      | OUT_CONFLICT \<Rightarrow> wr_accepted_event r = None
          \<and> (\<exists>d rec. grows_by S d0 d \<and> lookup_request d (sig_request_id sg) = Some rec
              \<and> \<not> same_fingerprint (rec_signature rec) sg)
      | _ \<Rightarrow> wr_accepted_event r = None)"

definition command_post ::
  "server_event set \<Rightarrow> db \<Rightarrow> RequestSignature \<Rightarrow> string \<Rightarrow> PostgresWriteSideResult \<Rightarrow> pg_conn \<Rightarrow> bool" where
  "command_post S d0 sg eid r c \<longleftrightarrow> conn_inv c \<and> own c = empty_db \<and>
     (if wr_outcome r = OUT_ACCEPTED
      then \<exists>e. wr_accepted_event r = Some e \<and> ev_event_id e = eid \<and> accepted_in S d0 sg e (committed c)
      else grows_by S d0 (committed c) \<and> refused S d0 sg r)"

definition command_exc :: "server_event set \<Rightarrow> db \<Rightarrow> RequestSignature \<Rightarrow> exc \<Rightarrow> pg_conn \<Rightarrow> bool" where
  "command_exc S d0 sg x c \<longleftrightarrow> conn_inv c \<and> own c = empty_db \<and>
     (grows_by S d0 (committed c) \<or> Ack_lost x \<in> S \<and> (\<exists>e. accepted_in S d0 sg e (committed c)))"

text \<open>The end of a body: rolled back with a refusal, or about to commit the event.\<close>

definition body_post ::
  "server_event set \<Rightarrow> db \<Rightarrow> RequestSignature \<Rightarrow> string \<Rightarrow> command_result \<Rightarrow> ws_pred" where
  "body_post S d0 sg eid r c f \<longleftrightarrow>
     (if f then idle S d0 c \<and> refused S d0 sg (primary_result r)
      else \<exists>dl a e amount fp irow. candidate_from dl a e \<and> signature_for sg e \<and> record_parameters sg = Inr (amount, fp)
        \<and> idempotency_row_of sg e amount fp = Inr irow \<and> pending S d0 dl e [irow] c \<and> ev_event_id e = eid
        \<and> wr_outcome (primary_result r) = OUT_ACCEPTED \<and> wr_accepted_event (primary_result r) = Some e)"

lemma with_uow_post:
  assumes "triple (\<lambda>c f. (idle S d0 c \<and> (\<forall>dl. B dl \<longrightarrow> since dl c)) \<and> \<not> f) body (body_post S d0 sg eid) (\<lambda>_. inside S d0)"
  shows "triple (\<lambda>c _. idle S d0 c \<and> (\<forall>dl. B dl \<longrightarrow> since dl c)) (with_uow body)
     (\<lambda>r c _. command_post S d0 sg eid (primary_result r) c) (\<lambda>x c _. command_exc S d0 sg x c)"
proof (rule triple_with_uow [OF assms])
  fix c
  show "idle S d0 c \<and> (\<forall>dl. B dl \<longrightarrow> since dl c) \<Longrightarrow> \<not> autocommit c" by (simp add: idle_def conn_inv_def)
next
  fix r c
  assume "body_post S d0 sg eid r c True"
  then show "command_post S d0 sg eid (primary_result r) c"
    by (auto simp: body_post_def command_post_def idle_def refused_def)
next
  fix r c c' q
  assume "body_post S d0 sg eid r c False" and cm: "conn_commit c = (c', q)"
  then obtain dl a e amount fp irow where b: "candidate_from dl a e" "signature_for sg e"
    "record_parameters sg = Inr (amount, fp)" "idempotency_row_of sg e amount fp = Inr irow"
    "pending S d0 dl e [irow] c" "ev_event_id e = eid" "wr_outcome (primary_result r) = OUT_ACCEPTED"
    "wr_accepted_event (primary_result r) = Some e" by (auto simp: body_post_def)
  from commit_pending [OF b(5,1-4) cm] b(6-8)
  show "case q of Inr _ \<Rightarrow> command_post S d0 sg eid (primary_result r) c' | Inl x \<Rightarrow> command_exc S d0 sg x c'"
    by (auto simp: command_post_def command_exc_def split: sum.splits)
next
  fix x c
  assume "inside S d0 c True"
  then show "command_exc S d0 sg x c" by (simp add: inside_def command_exc_def)
next
  fix x c
  assume "inside S d0 c False"
  from inside_rollback [OF this] show "command_exc S d0 sg x (conn_rollback c)" by (simp add: idle_def command_exc_def)
qed

lemma refuse_triple:
  assumes "refused S d0 sg r0" and "\<And>c f. P c f \<Longrightarrow> inside S d0 c f"
  shows "triple P (ws_bind uow_rollback (\<lambda>_. finalize_result r0)) (body_post S d0 sg eid) (\<lambda>_. inside S d0)"
proof (rule triple_bind [OF triple_rollback])
  fix c f
  assume "P c f"
  then show "idle S d0 (conn_rollback c) \<and> True" using inside_rollback [OF assms(2)] by blast
next
  fix u :: unit
  show "triple (\<lambda>c f. idle S d0 c \<and> f) (finalize_result r0) (body_post S d0 sg eid) (\<lambda>_. inside S d0)"
    by (rule triple_weaken [OF triple_finalize [of "\<lambda>c f. idle S d0 c \<and> f" "inside S d0"]])
       (use assms(1) idle_inside in \<open>auto simp: body_post_def\<close>)
qed

lemma replay_triple:
  assumes "\<And>ev. accepted_event_from_replay dec = Inr ev \<Longrightarrow> refused S d0 sg (r0 ev)"
    and "\<And>c f. P c f \<Longrightarrow> inside S d0 c f"
  shows "triple P (ws_bind uow_rollback (\<lambda>_. ws_bind (ws_lift (accepted_event_from_replay dec)) (\<lambda>ev. finalize_result (r0 ev))))
    (body_post S d0 sg eid) (\<lambda>_. inside S d0)"
proof (rule triple_bind [OF triple_rollback])
  fix c f
  assume "P c f"
  then show "idle S d0 (conn_rollback c) \<and> True" using inside_rollback [OF assms(2)] by blast
next
  fix u :: unit
  show "triple (\<lambda>c f. idle S d0 c \<and> f) (ws_bind (ws_lift (accepted_event_from_replay dec)) (\<lambda>ev. finalize_result (r0 ev)))
      (body_post S d0 sg eid) (\<lambda>_. inside S d0)"
  proof (rule triple_bind [OF triple_lift])
    fix ev
    show "triple (\<lambda>c f. (idle S d0 c \<and> f) \<and> accepted_event_from_replay dec = Inr ev) (finalize_result (r0 ev))
      (body_post S d0 sg eid) (\<lambda>_. inside S d0)"
      by (rule triple_pure, rule triple_weaken [OF triple_finalize [of "\<lambda>c f. idle S d0 c \<and> f" "inside S d0"]])
         (use assms(1) idle_inside in \<open>auto simp: body_post_def\<close>)
  qed (use idle_inside in blast)
qed

lemma decided_replay:
  assumes "decided S d0 sg dec" and "id_verdict dec = REPLAY" and "accepted_event_from_replay dec = Inr ev"
    and "wr_outcome r = OUT_REPLAY" and "wr_accepted_event r = Some ev"
  shows "refused S d0 sg r"
proof -
  from assms(1) obtain d where d: "grows_by S d0 d" "legal_db d" "classify_request d sg = Inr dec"
    by (auto simp: decided_def)
  from d(3) classify_request_cases [OF legal_requests_ok [OF d(2)], of sg] assms(2)
  obtain rec where "lookup_request d (sig_request_id sg) = Some rec" "same_fingerprint (rec_signature rec) sg"
    "id_record dec = Some rec"
    by (cases "build_semantic_fingerprint sg") (auto split: option.splits if_splits)
  with d(1) assms(3-5) show ?thesis by (auto simp: refused_def accepted_event_from_replay_def)
qed

lemma decided_conflict:
  assumes "decided S d0 sg dec" and "id_verdict dec = CONFLICT"
    and "wr_outcome r = OUT_CONFLICT" and "wr_accepted_event r = None"
  shows "refused S d0 sg r"
proof -
  from assms(1) obtain d where d: "grows_by S d0 d" "legal_db d" "classify_request d sg = Inr dec"
    by (auto simp: decided_def)
  from d(3) classify_request_cases [OF legal_requests_ok [OF d(2)], of sg] assms(2)
  obtain rec where "lookup_request d (sig_request_id sg) = Some rec" "\<not> same_fingerprint (rec_signature rec) sg"
    by (cases "build_semantic_fingerprint sg") (auto split: option.splits if_splits)
  with d(1) assms(3,4) show ?thesis by (auto simp: refused_def)
qed

text \<open>From the admission of the candidate to the end of the body; both placements share this text.\<close>

lemma admission_tail:
  assumes cand: "candidate_from dl a e" and sg: "signature_for sg e" and eid: "ev_event_id e = eid"
    and rej: "\<And>adm. refused S d0 sg (rejection adm)"
    and acc: "\<And>adm. wr_outcome (acceptance adm) = OUT_ACCEPTED \<and> wr_accepted_event (acceptance adm) = Some e"
  shows "triple (\<lambda>c f. idle S d0 c \<and> \<not> f \<and> since dl c)
    (ws_bind (on_conn (\<lambda>c. gate_append_if_admitted g c e v)) (\<lambda>adm.
     ws_bind (record_checkpoint APPEND_ADMISSION_RETURNED) (\<lambda>_.
     if \<not> admission_admitted adm
     then ws_bind uow_rollback (\<lambda>_. finalize_result (rejection adm))
     else ws_bind (on_conn (\<lambda>c. pg_record c sg e)) (\<lambda>_.
          ws_bind (record_checkpoint IDEMPOTENCY_PERSISTENCE_RETURNED) (\<lambda>_.
            finalize_result (acceptance adm))))))
    (body_post S d0 sg eid) (\<lambda>_. inside S d0)"
proof (rule triple_bind [OF append_triple [OF cand]])
  fix adm
  let ?P = "\<lambda>c f. \<not> f \<and> (if admission_admitted adm then pending S d0 dl e [] c else idle S d0 c)"
  have safe: "inside S d0 c f" if "?P c f" for c f
    using that idle_inside [of S d0 c f] pending_inside [of S d0 dl e "[]" c] by (auto split: if_splits)
  let ?R = "\<lambda>c f. \<not> f \<and> (\<exists>amount fp irow. record_parameters sg = Inr (amount, fp)
        \<and> idempotency_row_of sg e amount fp = Inr irow \<and> pending S d0 dl e [irow] c)"
  have safe_R: "inside S d0 c f" if "?R c f" for c f
    using that pending_inside by fastforce
  have post: "body_post S d0 sg eid r c f" if R: "?R c f \<and> primary_result r = acceptance adm" for r c f
  proof -
    from R obtain amount fp irow where "record_parameters sg = Inr (amount, fp)"
      "idempotency_row_of sg e amount fp = Inr irow" "pending S d0 dl e [irow] c" by blast
    with R cand sg eid acc [of adm] show ?thesis unfolding body_post_def
      by (simp, intro exI [of _ dl] exI [of _ a] exI [of _ e]) auto
  qed
  have last: "triple ?R (finalize_result (acceptance adm)) (body_post S d0 sg eid) (\<lambda>_. inside S d0)"
    by (rule triple_weaken [OF triple_finalize [of ?R "inside S d0", OF safe_R]]) (use post in blast)+
  show "triple ?P (ws_bind (record_checkpoint APPEND_ADMISSION_RETURNED) (\<lambda>_.
     if \<not> admission_admitted adm
     then ws_bind uow_rollback (\<lambda>_. finalize_result (rejection adm))
     else ws_bind (on_conn (\<lambda>c. pg_record c sg e)) (\<lambda>_.
          ws_bind (record_checkpoint IDEMPOTENCY_PERSISTENCE_RETURNED) (\<lambda>_.
            finalize_result (acceptance adm))))) (body_post S d0 sg eid) (\<lambda>_. inside S d0)"
  proof (rule triple_bind [OF triple_checkpoint [OF safe]], assumption, rule triple_if)
    show "triple ?P (ws_bind uow_rollback (\<lambda>_. finalize_result (rejection adm))) (body_post S d0 sg eid) (\<lambda>_. inside S d0)"
      by (rule refuse_triple [OF rej safe])
  next
    assume "\<not> \<not> admission_admitted adm"
    then have "triple ?P (on_conn (\<lambda>c. pg_record c sg e)) (\<lambda>_. ?R) (\<lambda>_. inside S d0)"
      using record_triple [OF cand sg, of S d0] by simp
    then show "triple ?P (ws_bind (on_conn (\<lambda>c. pg_record c sg e)) (\<lambda>_.
          ws_bind (record_checkpoint IDEMPOTENCY_PERSISTENCE_RETURNED) (\<lambda>_.
            finalize_result (acceptance adm)))) (body_post S d0 sg eid) (\<lambda>_. inside S d0)"
      by (rule triple_bind) (rule triple_bind [OF triple_checkpoint [OF safe_R] last])
  qed
qed

lemma command_candidate_from:
  assumes dl: "legal_db dl" and a: "rehydrate_aggregate_from_history oid (history dl oid) = Inr a"
    and cmd: "aggregate_command ct a eid now rid amt = Inr e" and u: "uuid_in eid = Some eid"
  shows "candidate_from dl a e" and "ev_event_id e = eid"
    and "signature_for \<lparr>sig_request_id = rid, sig_command_type = ct, sig_order_id = oid, sig_amount = amt\<rparr> e"
proof -
  from a have a: "rehydrate oid (history dl oid) = Inr a"
    by (simp add: rehydrate_aggregate_from_history_def rehydrate_def)
  then have b: "\<not> py_blank oid" by (auto simp: rehydrate_def OrderAggregate_init_def split: if_splits)
  from legal_history_replay [OF legal_db_history [OF dl b]] a have inv: "agg_inv a" by (metis sum.inject(2))
  note cc = command_candidate [OF cmd inv]
  show eid: "ev_event_id e = eid" by (rule cc(2))
  note cs = candidate_storable [OF dl b a cc(1)]
  show "candidate_from dl a e" by (rule cs(1)) (simp add: eid u)
  have "ensure_positive_money (MDecimal amt) = Inr (ev_amount e)"
    "ev_event_type e = (case ct of CREATE \<Rightarrow> EV_CREATED | PAY \<Rightarrow> EV_PAID)"
    using cmd inv by (cases ct; auto dest!: aggregate_create_event aggregate_pay_event)+
  with cc(3) cs(2) eid u
  show "signature_for \<lparr>sig_request_id = rid, sig_command_type = ct, sig_order_id = oid, sig_amount = amt\<rparr> e"
    by (simp add: signature_for_def)
qed

section \<open>Whole commands\<close>

abbreviation ready :: "server_event set \<Rightarrow> db \<Rightarrow> (db \<Rightarrow> bool) \<Rightarrow> ws_pred" where
  "ready S d0 B \<equiv> (\<lambda>c f. idle S d0 c \<and> \<not> f \<and> (\<forall>dl. B dl \<longrightarrow> since dl c))"

lemma ready_inside: "ready S d0 B c f \<Longrightarrow> inside S d0 c f"
  by (blast intro: idle_inside)

text \<open>The part of a unit of work before the gate is used to append, with what follows it as a
  parameter.\<close>

lemma uow_body:
  assumes rep: "\<And>dec ev. wr_outcome (replay dec ev) = OUT_REPLAY \<and> wr_accepted_event (replay dec ev) = Some ev"
    and con: "\<And>dec. wr_outcome (conflict dec) = OUT_CONFLICT \<and> wr_accepted_event (conflict dec) = None"
    and rej: "\<And>dec sa. wr_outcome (reject dec sa) = OUT_ADMISSION_REJECTED \<and> wr_accepted_event (reject dec sa) = None"
    and rest: "\<And>dec g sa. triple (ready S d0 B) (rest dec g sa) (body_post S d0 sg eid) (\<lambda>_. inside S d0)"
  shows "triple (ready S d0 B)
    (ws_bind (record_checkpoint BUSINESS_UOW_REACHED) (\<lambda>_.
     ws_bind (on_conn (\<lambda>c. pg_check c sg)) (\<lambda>dec.
     ws_bind (record_checkpoint AUTHORITATIVE_IDEMPOTENCY_CHECK_RETURNED) (\<lambda>_.
     if id_verdict dec = REPLAY
     then ws_bind uow_rollback (\<lambda>_. ws_bind (ws_lift (accepted_event_from_replay dec)) (\<lambda>ev. finalize_result (replay dec ev)))
     else if id_verdict dec = CONFLICT then ws_bind uow_rollback (\<lambda>_. finalize_result (conflict dec))
     else ws_bind (prepare_stream g0 oid) (\<lambda>(g, sa).
          ws_bind (record_checkpoint CONCURRENCY_PREPARATION_RETURNED) (\<lambda>_.
          if \<not> stream_admitted sa then ws_bind uow_rollback (\<lambda>_. finalize_result (reject dec sa))
          else rest dec g sa))))))
    (body_post S d0 sg eid) (\<lambda>_. inside S d0)"
proof (rule triple_bind [OF triple_checkpoint [OF ready_inside]], assumption,
    rule triple_bind [OF check_triple [of S d0 Not B sg]], rule triple_pure)
  fix dec
  assume dec: "decided S d0 sg dec"
  note start = triple_bind [OF triple_checkpoint [of "ready S d0 B" "inside S d0", OF ready_inside]]
  show "triple (ready S d0 B)
     (ws_bind (record_checkpoint AUTHORITATIVE_IDEMPOTENCY_CHECK_RETURNED) (\<lambda>_.
     if id_verdict dec = REPLAY
     then ws_bind uow_rollback (\<lambda>_. ws_bind (ws_lift (accepted_event_from_replay dec)) (\<lambda>ev. finalize_result (replay dec ev)))
     else if id_verdict dec = CONFLICT then ws_bind uow_rollback (\<lambda>_. finalize_result (conflict dec))
     else ws_bind (prepare_stream g0 oid) (\<lambda>(g, sa).
          ws_bind (record_checkpoint CONCURRENCY_PREPARATION_RETURNED) (\<lambda>_.
          if \<not> stream_admitted sa then ws_bind uow_rollback (\<lambda>_. finalize_result (reject dec sa))
          else rest dec g sa)))) (body_post S d0 sg eid) (\<lambda>_. inside S d0)"
  proof (rule start, assumption, intro triple_if)
    assume "id_verdict dec = REPLAY"
    then show "triple (ready S d0 B) (ws_bind uow_rollback (\<lambda>_. ws_bind (ws_lift (accepted_event_from_replay dec))
        (\<lambda>ev. finalize_result (replay dec ev)))) (body_post S d0 sg eid) (\<lambda>_. inside S d0)"
      using decided_replay [OF dec] rep by (intro replay_triple) (auto intro: idle_inside)
  next
    assume "id_verdict dec = CONFLICT"
    then show "triple (ready S d0 B) (ws_bind uow_rollback (\<lambda>_. finalize_result (conflict dec)))
        (body_post S d0 sg eid) (\<lambda>_. inside S d0)"
      using decided_conflict [OF dec] con by (intro refuse_triple) (auto intro: idle_inside)
  next
    have rej': "refused S d0 sg (reject dec sa)" for sa by (simp add: refused_def rej)
    have "triple (ready S d0 B) (ws_bind (record_checkpoint CONCURRENCY_PREPARATION_RETURNED) (\<lambda>_.
          if \<not> stream_admitted sa then ws_bind uow_rollback (\<lambda>_. finalize_result (reject dec sa))
          else rest dec g sa)) (body_post S d0 sg eid) (\<lambda>_. inside S d0)" for g sa
      by (rule start, assumption, rule triple_if, rule refuse_triple [OF rej'])
         (auto intro: idle_inside rest)
    then show "triple (ready S d0 B) (ws_bind (prepare_stream g0 oid) (\<lambda>(g, sa).
          ws_bind (record_checkpoint CONCURRENCY_PREPARATION_RETURNED) (\<lambda>_.
          if \<not> stream_admitted sa then ws_bind uow_rollback (\<lambda>_. finalize_result (reject dec sa))
          else rest dec g sa))) (body_post S d0 sg eid) (\<lambda>_. inside S d0)"
      by (intro triple_bind [OF prepare_triple]) (simp add: split_beta)
  qed
qed

lemma with_uow_ready:
  assumes "triple (ready S d0 B) body (body_post S d0 sg eid) (\<lambda>_. inside S d0)"
  shows "triple (\<lambda>c _. idle S d0 c \<and> (\<forall>dl. B dl \<longrightarrow> since dl c)) (with_uow body)
     (\<lambda>r c _. command_post S d0 sg eid (primary_result r) c) (\<lambda>x c _. command_exc S d0 sg x c)"
  by (rule with_uow_post, rule triple_weaken [OF assms]) auto

lemma in_transaction_triple:
  assumes u: "uuid_in eid = Some eid"
  shows "triple (\<lambda>c _. idle S d0 c)
    (execute_in_transaction_command w rid oid amt ct (\<lambda>a. aggregate_command ct a eid now rid amt))
    (\<lambda>r c _. command_post S d0 \<lparr>sig_request_id = rid, sig_command_type = ct, sig_order_id = oid, sig_amount = amt\<rparr>
       eid (primary_result r) c)
    (\<lambda>x c _. command_exc S d0 \<lparr>sig_request_id = rid, sig_command_type = ct, sig_order_id = oid, sig_amount = amt\<rparr> x c)"
    (is "triple _ _ (\<lambda>r c _. command_post S d0 ?sg eid (primary_result r) c) _")
proof -
  let ?B = "\<lambda>_ :: db. False"
  have P: "triple (\<lambda>c _. idle S d0 c) m Q E" if "triple (\<lambda>c _. idle S d0 c \<and> (\<forall>dl. ?B dl \<longrightarrow> since dl c)) m Q E"
    for m :: "command_result ws" and Q E using that by simp
  show ?thesis
    unfolding execute_in_transaction_command_def Let_def
  proof (rule P, rule with_uow_ready, rule uow_body, goal_cases)
    case (4 dec g sa)
    note cp = triple_bind [OF triple_checkpoint]
    have rej: "refused S d0 ?sg ((plain_result OUT_ADMISSION_REJECTED None dec)
        \<lparr>wr_stream_admission_result := Some sa, wr_validation_decision := Some vd,
         wr_admission_result := Some adm, wr_validation_decision_evidence := ev\<rparr>)" for vd adm ev
      by (simp add: refused_def)
    have blk: "refused S d0 ?sg ((plain_result OUT_VALIDATION_BLOCKED None dec)
        \<lparr>wr_stream_admission_result := Some sa, wr_validation_decision := Some vd,
         wr_validation_decision_evidence := ev\<rparr>)" for vd ev
      by (simp add: refused_def)
    have load: "triple (ready S d0 ?B) (on_conn (\<lambda>c. pg_load c oid))
       (\<lambda>es c f. \<exists>dl. (idle S d0 c \<and> \<not> f \<and> since dl c) \<and> legal_db dl \<and> es = history dl oid) (\<lambda>_. inside S d0)"
      using load_triple [of S d0 Not oid] by simp
    show ?case
    proof (rule triple_bind [OF load], rule triple_ex, rule triple_pure, elim conjE, goal_cases)
      case (1 es dl)
      show ?case
        apply (rule cp, blast intro: idle_inside)
        apply (rule triple_bind [OF triple_lift], blast intro: idle_inside)
        apply (rule triple_pure)
        apply (rule triple_bind [OF triple_lift], blast intro: idle_inside)
        apply (rule triple_pure)
        apply (rule triple_bind [OF triple_lift], blast intro: idle_inside)
        apply (rule triple_pure, clarsimp split del: if_split)
        apply (rule cp, blast intro: idle_inside)
        apply (rule triple_if)
         apply (rule refuse_triple [OF blk], blast intro: idle_inside)
        apply (rule admission_tail [OF command_candidate_from(1,3,2) rej])
        using 1 u by auto
    qed
  qed simp_all
qed

lemma triple_lift_exc:
  "(\<And>x c f. P c f \<Longrightarrow> E x c f) \<Longrightarrow> triple P (ws_lift r) (\<lambda>a c f. P c f \<and> r = Inr a) E"
  by (auto simp: triple_def ws_lift_def split: sum.splits)

lemma triple_checkpoint_exc: "(\<And>x c f. P c f \<Longrightarrow> E x c f) \<Longrightarrow> triple P (record_checkpoint cp) (\<lambda>_. P) E"
  by (auto simp: triple_def record_checkpoint_def split: option.splits sum.splits)

lemma idle_exc: "idle S d0 c \<Longrightarrow> command_exc S d0 sg x c"
  by (simp add: idle_def command_exc_def)

lemma idle_post: "idle S d0 c \<Longrightarrow> refused S d0 sg r \<Longrightarrow> command_post S d0 sg eid r c"
  by (auto simp: idle_def command_post_def refused_def)

lemma preliminary_read_triple:
  "triple (\<lambda>c _. idle S d0 c) (preliminary_read_phase sg oid)
     (\<lambda>read c _. case read of
        Inl r \<Rightarrow> idle S d0 c \<and> refused S d0 sg (primary_result r)
      | Inr (dec, es) \<Rightarrow> \<exists>dl. (idle S d0 c \<and> since dl c) \<and> legal_db dl \<and> es = history dl oid)
     (\<lambda>_ c _. idle S d0 c)"
proof -
  let ?P = "\<lambda>c f :: bool. idle S d0 c"
  let ?Q = "\<lambda>read c f :: bool. case read of
        Inl r \<Rightarrow> idle S d0 c \<and> refused S d0 sg (primary_result r)
      | Inr (dec, es) \<Rightarrow> \<exists>dl. (idle S d0 c \<and> since dl c) \<and> legal_db dl \<and> es = history dl oid"
  have chk: "triple ?P (on_conn (\<lambda>c. pg_check c sg)) (\<lambda>dec c f. ?P c f \<and> decided S d0 sg dec) (\<lambda>_. inside S d0)"
    using check_triple [of S d0 "\<lambda>_. True" "\<lambda>_. False" sg] by simp
  have ld: "triple ?P (on_conn (\<lambda>c. pg_load c oid))
      (\<lambda>es c f. \<exists>dl. (idle S d0 c \<and> since dl c) \<and> legal_db dl \<and> es = history dl oid) (\<lambda>_. inside S d0)"
    using load_triple [of S d0 "\<lambda>_. True" oid] by simp
  have fin: "triple ?P (ws_bind (finalize_result r0) (\<lambda>result. ws_return (Inl result))) ?Q (\<lambda>_. inside S d0)"
    if "refused S d0 sg r0" for r0
    by (rule triple_bind [OF triple_finalize [of ?P]]) (use that in \<open>auto intro: idle_inside triple_return\<close>)
  note cp = triple_bind [OF triple_checkpoint [of _ "inside S d0"]]
  show ?thesis
    unfolding preliminary_read_phase_def
  proof (rule triple_finally_rollback [where Q = ?Q and E = "\<lambda>_. inside S d0"])
    show "triple ?P (ws_bind (on_conn (\<lambda>c. pg_check c sg)) (\<lambda>dec.
       ws_bind (record_checkpoint PRELIMINARY_IDEMPOTENCY_CHECK_RETURNED) (\<lambda>_.
       if id_verdict dec = REPLAY
       then ws_bind (ws_lift (accepted_event_from_replay dec)) (\<lambda>accepted_event.
            ws_bind (finalize_result (plain_result OUT_REPLAY (Some accepted_event) dec)) (\<lambda>result. ws_return (Inl result)))
       else if id_verdict dec = CONFLICT
       then ws_bind (finalize_result (plain_result OUT_CONFLICT None dec)) (\<lambda>result. ws_return (Inl result))
       else ws_bind (on_conn (\<lambda>c. pg_load c oid)) (\<lambda>events.
            ws_bind (record_checkpoint ACCEPTED_HISTORY_OBSERVED) (\<lambda>_. ws_return (Inr (dec, events))))))) ?Q (\<lambda>_. inside S d0)"
    proof (rule triple_bind [OF chk], rule triple_pure, rule cp, blast intro: idle_inside, intro triple_if)
      fix dec
      assume d: "decided S d0 sg dec" "id_verdict dec = REPLAY"
      show "triple ?P (ws_bind (ws_lift (accepted_event_from_replay dec)) (\<lambda>accepted_event.
            ws_bind (finalize_result (plain_result OUT_REPLAY (Some accepted_event) dec)) (\<lambda>result. ws_return (Inl result))))
          ?Q (\<lambda>_. inside S d0)"
        by (rule triple_bind [OF triple_lift], blast intro: idle_inside, rule triple_pure, rule fin)
           (use decided_replay [OF d] in simp)
    next
      fix dec
      assume d: "decided S d0 sg dec" "id_verdict dec = CONFLICT"
      show "triple ?P (ws_bind (finalize_result (plain_result OUT_CONFLICT None dec)) (\<lambda>result. ws_return (Inl result)))
          ?Q (\<lambda>_. inside S d0)"
        by (rule fin) (use decided_conflict [OF d] in simp)
    next
      fix dec
      show "triple ?P (ws_bind (on_conn (\<lambda>c. pg_load c oid)) (\<lambda>events.
            ws_bind (record_checkpoint ACCEPTED_HISTORY_OBSERVED) (\<lambda>_. ws_return (Inr (dec, events))))) ?Q (\<lambda>_. inside S d0)"
        by (rule triple_bind [OF ld], rule cp, blast intro: idle_inside, rule triple_return) simp
    qed
  next
    fix read c f
    assume "?Q read c f"
    then show "?Q read (conn_rollback c) f" by (auto split: sum.splits intro: idle_rollback)
  next
    fix x :: exc and c f
    assume "inside S d0 c f"
    then show "idle S d0 (conn_rollback c)" by (rule inside_rollback)
  qed
qed

lemma pre_transaction_uow_triple:
  assumes cand: "candidate_from dl a e" and sg: "signature_for sg e" and eid: "ev_event_id e = eid"
  shows "triple (\<lambda>c _. idle S d0 c \<and> since dl c) (pre_transaction_uow w sg oid e v vd vde)
    (\<lambda>r c _. command_post S d0 sg eid (primary_result r) c) (\<lambda>x c _. command_exc S d0 sg x c)"
proof -
  let ?B = "\<lambda>x. x = dl"
  have P: "triple (\<lambda>c _. idle S d0 c \<and> since dl c) m Q E"
    if "triple (\<lambda>c _. idle S d0 c \<and> (\<forall>x. ?B x \<longrightarrow> since x c)) m Q E" for m :: "command_result ws" and Q E
    using that by simp
  show ?thesis
    unfolding pre_transaction_uow_def
  proof (rule P, rule with_uow_ready, rule uow_body, goal_cases)
    case (4 dec g sa)
    have rej: "refused S d0 sg ((plain_result OUT_ADMISSION_REJECTED None dec)
        \<lparr>wr_stream_admission_result := Some sa, wr_validation_decision := Some vd,
         wr_admission_result := Some adm, wr_validation_decision_evidence := vde\<rparr>)" for adm
      by (simp add: refused_def)
    show ?case
      by (rule triple_weaken [OF admission_tail [OF cand sg eid rej]]) simp_all
  qed simp_all
qed

lemma pre_transaction_triple:
  assumes u: "uuid_in eid = Some eid"
  shows "triple (\<lambda>c _. idle S d0 c)
    (execute_pre_transaction_command w rid oid amt ct (\<lambda>a. aggregate_command ct a eid now rid amt))
    (\<lambda>r c _. command_post S d0 \<lparr>sig_request_id = rid, sig_command_type = ct, sig_order_id = oid, sig_amount = amt\<rparr>
       eid (primary_result r) c)
    (\<lambda>x c _. command_exc S d0 \<lparr>sig_request_id = rid, sig_command_type = ct, sig_order_id = oid, sig_amount = amt\<rparr> x c)"
    (is "triple _ _ ?Q ?E")
proof -
  let ?sg = "\<lparr>sig_request_id = rid, sig_command_type = ct, sig_order_id = oid, sig_amount = amt\<rparr>"
  have read: "triple (\<lambda>c _. idle S d0 c) (preliminary_read_phase ?sg oid)
     (\<lambda>read c _. case read of
        Inl r \<Rightarrow> idle S d0 c \<and> refused S d0 ?sg (primary_result r)
      | Inr (dec, es) \<Rightarrow> \<exists>dl. (idle S d0 c \<and> since dl c) \<and> legal_db dl \<and> es = history dl oid) ?E"
    by (rule triple_weaken [OF preliminary_read_triple]) (auto intro: idle_exc)
  have blk: "refused S d0 ?sg ((plain_result OUT_VALIDATION_BLOCKED None dec)
        \<lparr>wr_validation_decision := Some vd, wr_validation_decision_evidence := ev\<rparr>)" for dec vd ev
    by (simp add: refused_def)
  have fin: "triple (\<lambda>c _. idle S d0 c \<and> since dl c) (finalize_result r0) ?Q ?E" if "refused S d0 ?sg r0" for dl r0
    by (rule triple_weaken [OF triple_finalize [of "\<lambda>c _. idle S d0 c \<and> since dl c" "\<lambda>c _. idle S d0 c"]])
       (use that in \<open>simp_all add: idle_post idle_exc\<close>)
  show ?thesis
    unfolding execute_pre_transaction_command_def Let_def
  proof (rule triple_bind [OF read])
    fix read
    show "triple (\<lambda>c _. case read of
        Inl r \<Rightarrow> idle S d0 c \<and> refused S d0 ?sg (primary_result r)
      | Inr (dec, es) \<Rightarrow> \<exists>dl. (idle S d0 c \<and> since dl c) \<and> legal_db dl \<and> es = history dl oid)
      (case read of Inl result \<Rightarrow> ws_return result
       | Inr (preliminary_idempotency_decision, events) \<Rightarrow>
          ws_bind (ws_lift (rehydrate_aggregate_from_history oid events)) (\<lambda>aggregate.
          ws_bind (ws_lift (aggregate_command ct aggregate eid now rid amt)) (\<lambda>candidate_event.
          ws_bind (ws_lift (invoke_validation (wsd_validation_runtime w) candidate_event
            (build_validation_context aggregate (if events \<noteq> [] then Some (last events) else None))))
            (\<lambda>(validation_decision, validation_decision_evidence).
          ws_bind (record_checkpoint VALIDATION_RETURNED) (\<lambda>_.
          if vd_action validation_decision \<noteq> ALLOW
          then finalize_result ((plain_result OUT_VALIDATION_BLOCKED None preliminary_idempotency_decision)
                 \<lparr>wr_validation_decision := Some validation_decision,
                  wr_validation_decision_evidence := validation_decision_evidence\<rparr>)
          else pre_transaction_uow w ?sg oid candidate_event (current_version aggregate)
                 validation_decision validation_decision_evidence))))) ?Q ?E"
    proof (cases read)
      case (Inl r)
      show ?thesis unfolding Inl sum.case by (rule triple_return) (simp add: idle_post)
    next
      case (Inr p)
      obtain dec es where p: "p = (dec, es)" by force
      show ?thesis
        unfolding Inr p sum.case prod.case
      proof (rule triple_ex, rule triple_pure, elim conjE, goal_cases)
        case (1 dl)
        show ?case
          apply (rule triple_bind [OF triple_lift_exc], blast intro: idle_exc)
          apply (rule triple_pure)
          apply (rule triple_bind [OF triple_lift_exc], blast intro: idle_exc)
          apply (rule triple_pure)
          apply (rule triple_bind [OF triple_lift_exc], blast intro: idle_exc)
          apply (rule triple_pure, clarsimp split del: if_split)
          apply (rule triple_bind [OF triple_checkpoint_exc], blast intro: idle_exc)
          apply (rule triple_if, rule fin [OF blk])
          apply (rule pre_transaction_uow_triple [OF command_candidate_from(1,3,2)])
          using 1 u by auto
      qed
    qed
  qed
qed

section \<open>The public commands\<close>

definition durable_command :: "write_side \<Rightarrow> bool \<Rightarrow> pg_conn \<Rightarrow> command \<Rightarrow> pg_conn \<times> command_result res" where
  "durable_command w traced c cmd =
     (case cmd_type cmd of
        CREATE \<Rightarrow> (if traced then create_order_with_trace else create_order) w c
          (cmd_event_id cmd) (cmd_now cmd) (cmd_request_id cmd) (cmd_order_id cmd) (cmd_amount cmd)
      | PAY \<Rightarrow> (if traced then pay_order_with_trace else pay_order) w c
          (cmd_event_id cmd) (cmd_now cmd) (cmd_request_id cmd) (cmd_order_id cmd) (cmd_amount cmd))"

lemma durable_command_eq:
  "durable_command w traced c cmd =
     run_command (execute_command w (cmd_request_id cmd) (cmd_order_id cmd) (cmd_amount cmd) (cmd_type cmd)
       (\<lambda>a. aggregate_command (cmd_type cmd) a (cmd_event_id cmd) (cmd_now cmd) (cmd_request_id cmd) (cmd_amount cmd)))
       (if traced then Some (new_collector (cfg_validation_placement (wsd_config w))) else None) c"
  by (cases "cmd_type cmd")
     (simp_all add: durable_command_def create_order_def create_order_with_trace_def pay_order_def
        pay_order_with_trace_def)

lemma execute_command_triple:
  assumes "uuid_in (cmd_event_id cmd) = Some (cmd_event_id cmd)"
  shows "triple (\<lambda>c _. idle S d0 c)
    (execute_command w (cmd_request_id cmd) (cmd_order_id cmd) (cmd_amount cmd) (cmd_type cmd)
       (\<lambda>a. aggregate_command (cmd_type cmd) a (cmd_event_id cmd) (cmd_now cmd) (cmd_request_id cmd) (cmd_amount cmd)))
    (\<lambda>r c _. command_post S d0 (signature_of cmd) (cmd_event_id cmd) (primary_result r) c)
    (\<lambda>x c _. command_exc S d0 (signature_of cmd) x c)"
  using in_transaction_triple [OF assms] pre_transaction_triple [OF assms]
  by (simp add: execute_command_def signature_of_def split: ValidationPlacement.split)

lemma durable_command_outcome:
  assumes "conn_inv c" and "own c = empty_db" and "uuid_in (cmd_event_id cmd) = Some (cmd_event_id cmd)"
    and "durable_command w traced c cmd = (c', r)"
  shows "case r of
      Inr res \<Rightarrow> command_post (set (schedule c)) (committed c) (signature_of cmd) (cmd_event_id cmd) (primary_result res) c'
    | Inl x \<Rightarrow> command_exc (set (schedule c)) (committed c) (signature_of cmd) x c'"
proof -
  let ?S = "set (schedule c)" and ?d0 = "committed c"
  let ?col = "if traced then Some (new_collector (cfg_validation_placement (wsd_config w))) else None"
  let ?m = "execute_command w (cmd_request_id cmd) (cmd_order_id cmd) (cmd_amount cmd) (cmd_type cmd)
       (\<lambda>a. aggregate_command (cmd_type cmd) a (cmd_event_id cmd) (cmd_now cmd) (cmd_request_id cmd) (cmd_amount cmd))"
  let ?s = "\<lparr>ws_conn = c, ws_finished = False, ws_collector = ?col\<rparr>"
  obtain s' where m: "?m ?s = (s', r)" "ws_conn s' = c'"
    using assms(4) unfolding durable_command_eq run_command_def by (auto split: prod.splits)
  have i: "idle ?S ?d0 (ws_conn ?s)" using assms(1,2) by (simp add: idle_def)
  note t = execute_command_triple [OF assms(3), of ?S ?d0 w]
  show ?thesis
  proof (cases r)
    case (Inl x)
    with triple_Inl [OF t, of ?s s' x] i m show ?thesis by simp
  next
    case (Inr res)
    with triple_Inr [OF t, of ?s s' res] i m show ?thesis by simp
  qed
qed

lemmas durable_command_post = durable_command_outcome [where r = "Inr res" for res, simplified]
  and durable_command_exc = durable_command_outcome [where r = "Inl x" for x, simplified]

section \<open>Properties\<close>

text \<open>
  C1: Safety of a durable command among concurrent sessions. Start from a connection without
  pending rows on a legal database, with any interference and any statement failure to come,
  either placement of validation, either gate, traced or not. When the command returns or raises,
  no row is pending and the committed database is legal. If it returns ACCEPTED, then the tables
  are what other sessions made of them plus exactly the returned event and its request row, the
  event (of the type of the command, with the given identity and the normalised amount) extends its history, and the request was unknown just
  before. If it returns REPLAY, CONFLICT, VALIDATION_BLOCKED or ADMISSION_REJECTED it committed
  nothing; REPLAY returns the event recorded for a request with the same fingerprint, CONFLICT
  means that a recorded request has another fingerprint. If it raises, it committed nothing
  unless the acknowledgement of its commit was lost.
\<close>

theorem durable_command_safe:
  assumes "conn_inv c" and "own c = empty_db" and "uuid_in (cmd_event_id cmd) = Some (cmd_event_id cmd)"
    and "durable_command w traced c cmd = (c', r)"
  shows "case r of
      Inr res \<Rightarrow> command_post (set (schedule c)) (committed c) (signature_of cmd) (cmd_event_id cmd) (primary_result res) c'
    | Inl x \<Rightarrow> command_exc (set (schedule c)) (committed c) (signature_of cmd) x c'"
  by (rule durable_command_outcome [OF assms])

end
