(* ===== verification/Write_Side_Traces.thy ===== *)
theory Write_Side_Traces
  imports Write_Side_Safety
begin

text \<open>
  Execution traces of durable commands. A command with a trace collector runs the same statements
  on the connection as the command without one; the collector never raises, and the trace that it
  hands out is a prefix of the canonical checkpoints of the placement whose last checkpoint is
  allowed for the outcome. \<open>mirrors\<close> relates the two runs of a computation; each statement of
  the write side has one rule, and the rules are composed along the text of the commands.
\<close>

section \<open>Two runs of a computation\<close>

text \<open>The collector after \<open>n\<close> canonical checkpoints.\<close>

definition collector_at :: "ValidationPlacement \<Rightarrow> nat \<Rightarrow> trace_collector" where
  "collector_at pl n = \<lparr>tc_validation_placement = pl,
     tc_trace = (if n = 0 then None
       else Some \<lparr>tr_validation_placement = pl, tr_checkpoints = take n (canonical_checkpoints_for pl)\<rparr>)\<rparr>"

definition mirrors ::
  "ValidationPlacement \<Rightarrow> nat \<Rightarrow> 'a ws \<Rightarrow> 'a ws \<Rightarrow> (nat \<Rightarrow> 'a \<Rightarrow> 'a \<Rightarrow> bool) \<Rightarrow> bool" where
  "mirrors pl n m m' V \<longleftrightarrow> (\<forall>s. ws_collector s = None \<longrightarrow>
     (\<exists>s1 r k r'. m s = (s1, r) \<and> ws_collector s1 = None
        \<and> m' (s\<lparr>ws_collector := Some (collector_at pl n)\<rparr>) = (s1\<lparr>ws_collector := Some (collector_at pl k)\<rparr>, r')
        \<and> rel_sum (=) (V k) r r'))"

abbreviation same_at :: "nat \<Rightarrow> nat \<Rightarrow> 'a \<Rightarrow> 'a \<Rightarrow> bool" where
  "same_at n \<equiv> (\<lambda>k a b. k = n \<and> a = b)"

definition result_mirror :: "ValidationPlacement \<Rightarrow> nat \<Rightarrow> command_result \<Rightarrow> command_result \<Rightarrow> bool" where
  "result_mirror pl k q q' \<longleftrightarrow> (\<exists>r. q = Primary r \<and> 0 < k \<and> k \<le> length (canonical_checkpoints_for pl)
     \<and> (pl, wr_outcome r, canonical_checkpoints_for pl ! (k - 1)) \<in> set ALLOWED_EXECUTION_TERMINALS
     \<and> q' = Traced \<lparr>we_result = r, we_trace =
         \<lparr>tr_validation_placement = pl, tr_checkpoints = take k (canonical_checkpoints_for pl)\<rparr>\<rparr>)"

lemma canonical_distinct: "distinct (canonical_checkpoints_for pl)"
  by (cases pl) simp_all

lemma mirrorsI:
  assumes "\<And>s. ws_collector s = None \<Longrightarrow> \<exists>s1 r k r'. m s = (s1, r) \<and> ws_collector s1 = None
        \<and> m' (s\<lparr>ws_collector := Some (collector_at pl n)\<rparr>) = (s1\<lparr>ws_collector := Some (collector_at pl k)\<rparr>, r')
        \<and> rel_sum (=) (V k) r r'"
  shows "mirrors pl n m m' V"
  using assms by (simp add: mirrors_def)

lemma mirrorsE:
  assumes "mirrors pl n m m' V" and "ws_collector s = None"
  obtains s1 r k r' where "m s = (s1, r)" and "ws_collector s1 = None"
    and "m' (s\<lparr>ws_collector := Some (collector_at pl n)\<rparr>) = (s1\<lparr>ws_collector := Some (collector_at pl k)\<rparr>, r')"
    and "rel_sum (=) (V k) r r'"
  using assms unfolding mirrors_def by blast

section \<open>Rules\<close>

lemma mirrors_bind:
  assumes m: "mirrors pl n m m' V" and f: "\<And>k a b. V k a b \<Longrightarrow> mirrors pl k (f a) (f' b) W"
  shows "mirrors pl n (ws_bind m f) (ws_bind m' f') W"
proof (rule mirrorsI)
  fix s :: ws_state
  assume s: "ws_collector s = None"
  obtain s1 r k r' where 1: "m s = (s1, r)" "ws_collector s1 = None"
    "m' (s\<lparr>ws_collector := Some (collector_at pl n)\<rparr>) = (s1\<lparr>ws_collector := Some (collector_at pl k)\<rparr>, r')"
    "rel_sum (=) (V k) r r'"
    by (rule mirrorsE [OF m s])
  show "\<exists>s1 r k r'. ws_bind m f s = (s1, r) \<and> ws_collector s1 = None
        \<and> ws_bind m' f' (s\<lparr>ws_collector := Some (collector_at pl n)\<rparr>) = (s1\<lparr>ws_collector := Some (collector_at pl k)\<rparr>, r')
        \<and> rel_sum (=) (W k) r r'"
  proof (cases r)
    case (Inl x)
    with 1 have "r' = Inl x" by (cases r') simp_all
    with 1 Inl show ?thesis
      by (intro exI [of _ s1] exI [of _ "Inl x"] exI [of _ k] exI [of _ "Inl x"]) (simp add: ws_bind_def)
  next
    case (Inr a)
    with 1 obtain b where b: "r' = Inr b" "V k a b" by (cases r') simp_all
    obtain s2 q j q' where "f a s1 = (s2, q)" "ws_collector s2 = None"
      "f' b (s1\<lparr>ws_collector := Some (collector_at pl k)\<rparr>) = (s2\<lparr>ws_collector := Some (collector_at pl j)\<rparr>, q')"
      "rel_sum (=) (W j) q q'"
      by (rule mirrorsE [OF f [OF b(2)] 1(2)])
    with 1 b Inr show ?thesis
      by (intro exI [of _ s2] exI [of _ q] exI [of _ j] exI [of _ q']) (simp add: ws_bind_def)
  qed
qed

lemma mirrors_same:
  assumes "\<And>s. ws_collector s = None \<Longrightarrow> ws_collector (fst (m s)) = None"
    and "\<And>s c. m (s\<lparr>ws_collector := c\<rparr>) = ((fst (m s))\<lparr>ws_collector := c\<rparr>, snd (m s))"
  shows "mirrors pl n m m (same_at n)"
proof (rule mirrorsI)
  fix s :: ws_state
  assume "ws_collector s = None"
  with assms show "\<exists>s1 r k r'. m s = (s1, r) \<and> ws_collector s1 = None
        \<and> m (s\<lparr>ws_collector := Some (collector_at pl n)\<rparr>) = (s1\<lparr>ws_collector := Some (collector_at pl k)\<rparr>, r')
        \<and> rel_sum (=) (\<lambda>a b. k = n \<and> a = b) r r'"
    by (intro exI [of _ "fst (m s)"] exI [of _ "snd (m s)"] exI [of _ n]) (simp add: sum.rel_refl)
qed

lemma mirrors_conn: "mirrors pl n (on_conn f) (on_conn f) (same_at n)"
  by (rule mirrors_same) (simp_all add: on_conn_def split_beta)

lemma mirrors_lift: "mirrors pl n (ws_lift r) (ws_lift r) (same_at n)"
  by (rule mirrors_same) (simp_all add: ws_lift_def)

lemma mirrors_prepare: "mirrors pl n (prepare_stream g oid) (prepare_stream g oid) (same_at n)"
  unfolding prepare_stream_def by (rule mirrors_conn)

lemma mirrors_rollback: "mirrors pl n uow_rollback uow_rollback (same_at n)"
  by (rule mirrors_same) (simp_all add: uow_rollback_def)

lemma mirrors_return: "V n a b \<Longrightarrow> mirrors pl n (ws_return a) (ws_return b) V"
  by (auto simp: mirrors_def ws_return_def)

lemma collector_record_next:
  assumes "n < length (canonical_checkpoints_for pl)"
  shows "collector_record (collector_at pl n) (canonical_checkpoints_for pl ! n) = Inr (collector_at pl (Suc n))"
proof -
  let ?cs = "canonical_checkpoints_for pl"
  have "(case tc_trace (collector_at pl n) of None \<Rightarrow> [] | Some t \<Rightarrow> tr_checkpoints t) = take n ?cs"
    by (simp add: collector_at_def)
  moreover have "take n ?cs @ [?cs ! n] = take (Suc n) ?cs" using assms by (simp add: take_Suc_conv_app_nth)
  moreover have "execution_trace_init pl (take (Suc n) ?cs)
      = Inr \<lparr>tr_validation_placement = pl, tr_checkpoints = take (Suc n) ?cs\<rparr>"
    using assms distinct_take [OF canonical_distinct, of "Suc n" pl] by (auto simp: execution_trace_init_def)
  ultimately show ?thesis by (simp add: collector_record_def collector_at_def)
qed

lemma mirrors_checkpoint:
  assumes "n < length (canonical_checkpoints_for pl)" and "canonical_checkpoints_for pl ! n = cp"
  shows "mirrors pl n (record_checkpoint cp) (record_checkpoint cp) (same_at (Suc n))"
  using collector_record_next [OF assms(1)] assms(2)
  by (auto simp: mirrors_def record_checkpoint_def)

lemma collector_trace_at:
  "0 < n \<Longrightarrow> collector_trace (collector_at pl n)
     = Inr \<lparr>tr_validation_placement = pl, tr_checkpoints = take n (canonical_checkpoints_for pl)\<rparr>"
  by (simp add: collector_trace_def collector_at_def)

lemma mirrors_finalize:
  assumes "0 < n" and "n \<le> length (canonical_checkpoints_for pl)"
    and "(pl, wr_outcome r, canonical_checkpoints_for pl ! (n - 1)) \<in> set ALLOWED_EXECUTION_TERMINALS"
  shows "mirrors pl n (finalize_result r) (finalize_result r) (result_mirror pl)"
proof (rule mirrorsI)
  let ?cs = "canonical_checkpoints_for pl"
  have last: "last (take n ?cs) = ?cs ! (n - 1)"
    using assms(1,2) by (subst last_conv_nth) (auto simp: min_def)
  fix s :: ws_state
  assume s: "ws_collector s = None"
  show "\<exists>s1 q k q'. finalize_result r s = (s1, q) \<and> ws_collector s1 = None
        \<and> finalize_result r (s\<lparr>ws_collector := Some (collector_at pl n)\<rparr>) = (s1\<lparr>ws_collector := Some (collector_at pl k)\<rparr>, q')
        \<and> rel_sum (=) (result_mirror pl k) q q'"
  proof (cases "PostgresWriteSideResult_init r")
    case (Inl x)
    with s show ?thesis by (intro exI [of _ s] exI [of _ "Inl x"] exI [of _ n]) (simp add: finalize_result_def)
  next
    case (Inr q)
    then have "q = r" by (auto simp: PostgresWriteSideResult_init_def split: option.splits if_splits)
    with Inr s last assms show ?thesis
      by (intro exI [of _ s] exI [of _ "Inr (Primary r)"] exI [of _ n] conjI
            exI [of _ "Inr (Traced \<lparr>we_result = r, we_trace =
              \<lparr>tr_validation_placement = pl, tr_checkpoints = take n ?cs\<rparr>\<rparr>)"])
         (simp_all add: finalize_result_def collector_trace_at terminal_checkpoint_def PostgresWriteSideExecution_init_def
           result_mirror_def)
  qed
qed

lemma mirrors_if:
  "(b \<Longrightarrow> mirrors pl n m m' V) \<Longrightarrow> (\<not> b \<Longrightarrow> mirrors pl n k k' V) \<Longrightarrow>
     mirrors pl n (if b then m else k) (if b then m' else k') V"
  by simp

lemma collector_commutes:
  "s\<lparr>ws_collector := x, ws_finished := f\<rparr> = s\<lparr>ws_finished := f, ws_collector := x\<rparr>"
  "s\<lparr>ws_collector := x, ws_conn := c\<rparr> = s\<lparr>ws_conn := c, ws_collector := x\<rparr>"
  by (cases s, simp)+

lemma mirrors_finally:
  assumes "mirrors pl n m m' V"
  shows "mirrors pl n (finally_rollback m) (finally_rollback m') V"
proof (rule mirrorsI)
  fix s :: ws_state
  assume "ws_collector s = None"
  then obtain s1 r k r' where "m s = (s1, r)" "ws_collector s1 = None"
    "m' (s\<lparr>ws_collector := Some (collector_at pl n)\<rparr>) = (s1\<lparr>ws_collector := Some (collector_at pl k)\<rparr>, r')"
    "rel_sum (=) (V k) r r'"
    by (rule mirrorsE [OF assms])
  then show "\<exists>s1 r k r'. finally_rollback m s = (s1, r) \<and> ws_collector s1 = None
        \<and> finally_rollback m' (s\<lparr>ws_collector := Some (collector_at pl n)\<rparr>) = (s1\<lparr>ws_collector := Some (collector_at pl k)\<rparr>, r')
        \<and> rel_sum (=) (V k) r r'"
    by (intro exI [of _ "s1\<lparr>ws_conn := conn_rollback (ws_conn s1)\<rparr>"] exI [of _ r] exI [of _ k] exI [of _ r'])
       (simp add: finally_rollback_def collector_commutes)
qed

lemma mirrors_uow:
  assumes "mirrors pl n m m' V"
  shows "mirrors pl n (with_uow m) (with_uow m') V"
proof (rule mirrorsI)
  fix s :: ws_state
  assume s: "ws_collector s = None"
  then have s': "ws_collector (s\<lparr>ws_finished := False\<rparr>) = None" by simp
  obtain s1 r k r' where 1: "m (s\<lparr>ws_finished := False\<rparr>) = (s1, r)" "ws_collector s1 = None"
    "m' (s\<lparr>ws_finished := False, ws_collector := Some (collector_at pl n)\<rparr>) = (s1\<lparr>ws_collector := Some (collector_at pl k)\<rparr>, r')"
    "rel_sum (=) (V k) r r'"
    by (rule mirrorsE [OF assms s'])
  obtain c q where c: "conn_commit (ws_conn s1) = (c, q)" by force
  show "\<exists>s1 r k r'. with_uow m s = (s1, r) \<and> ws_collector s1 = None
        \<and> with_uow m' (s\<lparr>ws_collector := Some (collector_at pl n)\<rparr>) = (s1\<lparr>ws_collector := Some (collector_at pl k)\<rparr>, r')
        \<and> rel_sum (=) (V k) r r'"
  proof (cases "autocommit (ws_conn s)")
    case True
    with s show ?thesis by (intro exI [of _ s] exI [of _ n]) (force simp: with_uow_def)
  next
    case False
    with 1 s c show ?thesis
      by (cases r; cases r'; cases "ws_finished s1"; cases q) (auto simp: with_uow_def collector_commutes)
  qed
qed

section \<open>The commands\<close>

lemma mirrors_prod:
  "(\<And>a b. p = (a, b) \<Longrightarrow> mirrors pl n (f a b) (f' a b) V) \<Longrightarrow>
     mirrors pl n (case p of (a, b) \<Rightarrow> f a b) (case p of (a, b) \<Rightarrow> f' a b) V"
  by (cases p) simp

lemma mirrors_step:
  assumes "mirrors pl n m m (same_at k)" and "\<And>a. mirrors pl k (f a) (f' a) V"
  shows "mirrors pl n (ws_bind m f) (ws_bind m f') V"
  by (rule mirrors_bind [OF assms(1)]) (use assms(2) in auto)

lemmas mirrors_rules = mirrors_uow mirrors_if mirrors_prod mirrors_finalize mirrors_finally
  mirrors_step [OF mirrors_conn] mirrors_step [OF mirrors_lift] mirrors_step [OF mirrors_prepare]
  mirrors_step [OF mirrors_rollback] mirrors_step [OF mirrors_checkpoint]

lemma in_transaction_mirrors:
  "mirrors IN_TRANSACTION 0 (execute_in_transaction_command w rid oid amt ct build)
     (execute_in_transaction_command w rid oid amt ct build) (result_mirror IN_TRANSACTION)"
  unfolding execute_in_transaction_command_def Let_def
  by (intro mirrors_rules) (simp_all add: ALLOWED_EXECUTION_TERMINALS_def)

lemma pre_transaction_uow_mirrors:
  "mirrors PRE_TRANSACTION 3 (pre_transaction_uow w sg oid e v vd vde) (pre_transaction_uow w sg oid e v vd vde)
     (result_mirror PRE_TRANSACTION)"
  unfolding pre_transaction_uow_def
  by (intro mirrors_rules) (simp_all add: ALLOWED_EXECUTION_TERMINALS_def)

text \<open>The read phase returns early with a result, or with the observed history after two
  checkpoints.\<close>

definition read_mirror ::
  "nat \<Rightarrow> command_result + IdempotencyDecision \<times> OrderEvent list
   \<Rightarrow> command_result + IdempotencyDecision \<times> OrderEvent list \<Rightarrow> bool" where
  "read_mirror k a b = rel_sum (result_mirror PRE_TRANSACTION k) (\<lambda>p q. p = q \<and> k = 2) a b"

lemma early_result_mirrors:
  assumes "mirrors PRE_TRANSACTION n m m (result_mirror PRE_TRANSACTION)"
  shows "mirrors PRE_TRANSACTION n (ws_bind m (\<lambda>r. ws_return (Inl r))) (ws_bind m (\<lambda>r. ws_return (Inl r))) read_mirror"
  by (rule mirrors_bind [OF assms]) (simp add: mirrors_return read_mirror_def)

lemma preliminary_read_mirrors:
  "mirrors PRE_TRANSACTION 0 (preliminary_read_phase sg oid) (preliminary_read_phase sg oid) read_mirror"
  unfolding preliminary_read_phase_def
  by (intro early_result_mirrors mirrors_rules mirrors_return)
     (simp_all add: ALLOWED_EXECUTION_TERMINALS_def read_mirror_def)

lemma pre_transaction_mirrors:
  "mirrors PRE_TRANSACTION 0 (execute_pre_transaction_command w rid oid amt ct build)
     (execute_pre_transaction_command w rid oid amt ct build) (result_mirror PRE_TRANSACTION)"
  unfolding execute_pre_transaction_command_def Let_def
proof (rule mirrors_bind [OF preliminary_read_mirrors], goal_cases)
  case (1 k a b)
  show ?case
  proof (cases a)
    case (Inl r)
    with 1 obtain r' where "b = Inl r'" "result_mirror PRE_TRANSACTION k r r'" by (cases b) (simp_all add: read_mirror_def)
    with Inl show ?thesis by (simp add: mirrors_return)
  next
    case (Inr p)
    with 1 have b: "b = Inr p" "k = 2" by (cases b; simp add: read_mirror_def)+
    show ?thesis
      unfolding Inr b sum.case numeral_2_eq_2
      by (intro mirrors_rules pre_transaction_uow_mirrors [unfolded numeral_3_eq_3])
         (simp_all add: ALLOWED_EXECUTION_TERMINALS_def)
  qed
qed

lemma durable_command_mirrors:
  obtains c' r k r' where "durable_command w False c cmd = (c', r)" and "durable_command w True c cmd = (c', r')"
    and "rel_sum (=) (result_mirror (cfg_validation_placement (wsd_config w)) k) r r'"
proof -
  let ?pl = "cfg_validation_placement (wsd_config w)"
  let ?m = "execute_command w (cmd_request_id cmd) (cmd_order_id cmd) (cmd_amount cmd) (cmd_type cmd)
       (\<lambda>a. aggregate_command (cmd_type cmd) a (cmd_event_id cmd) (cmd_now cmd) (cmd_request_id cmd) (cmd_amount cmd))"
  let ?s = "\<lparr>ws_conn = c, ws_finished = False, ws_collector = None\<rparr>"
  have "mirrors ?pl 0 ?m ?m (result_mirror ?pl)"
    by (cases ?pl) (simp_all add: execute_command_def in_transaction_mirrors pre_transaction_mirrors del: aggregate_command.simps)
  then obtain s1 r k r' where run: "?m ?s = (s1, r)"
    "?m (?s\<lparr>ws_collector := Some (collector_at ?pl 0)\<rparr>) = (s1\<lparr>ws_collector := Some (collector_at ?pl k)\<rparr>, r')"
    "rel_sum (=) (result_mirror ?pl k) r r'"
    by (rule mirrorsE [of _ _ _ _ _ ?s]) simp
  have "collector_at ?pl 0 = new_collector ?pl" by (simp add: collector_at_def new_collector_def)
  with run have "durable_command w False c cmd = (ws_conn s1, r)" "durable_command w True c cmd = (ws_conn s1, r')"
    by (simp_all add: durable_command_eq run_command_def)
  from that [OF this run(3)] show ?thesis .
qed

text \<open>Results without a trace carry over to the traced variant.\<close>

lemma durable_command_traced:
  assumes "durable_command w False c cmd = (c', Inr res)"
  obtains res' where "durable_command w traced c cmd = (c', Inr res')" and "primary_result res' = primary_result res"
proof (cases traced)
  case True
  obtain c1 r k r' where run: "durable_command w False c cmd = (c1, r)" "durable_command w True c cmd = (c1, r')"
    "rel_sum (=) (result_mirror (cfg_validation_placement (wsd_config w)) k) r r'" by (rule durable_command_mirrors)
  with assms True that show ?thesis by (cases r') (auto simp: result_mirror_def)
qed (use assms that in auto)

section \<open>Property\<close>

text \<open>
  C23: Tracing is transparent and traces are sound. For every connection and every interference, the
  traced variant of a durable command leaves the same connection behind as the plain one and raises the
  same exception when the plain one raises; in particular recording a checkpoint never fails. When
  the plain command returns a result, the traced one returns that result with a trace of the
  configured placement: a non-empty prefix of the canonical checkpoints whose last checkpoint is
  one of those declared for the outcome.
\<close>

theorem tracing_is_transparent:
  "case durable_command w False c cmd of (c', r) \<Rightarrow>
     fst (durable_command w True c cmd) = c' \<and>
     (case r of
        Inl x \<Rightarrow> snd (durable_command w True c cmd) = Inl x
      | Inr res \<Rightarrow> \<exists>t k. snd (durable_command w True c cmd)
            = Inr (Traced \<lparr>we_result = primary_result res, we_trace = t\<rparr>)
          \<and> tr_validation_placement t = cfg_validation_placement (wsd_config w)
          \<and> tr_checkpoints t = take (Suc k) (canonical_checkpoints_for (cfg_validation_placement (wsd_config w)))
          \<and> (cfg_validation_placement (wsd_config w), wr_outcome (primary_result res), terminal_checkpoint t)
               \<in> set ALLOWED_EXECUTION_TERMINALS)"
proof -
  let ?pl = "cfg_validation_placement (wsd_config w)"
  obtain c' r k r' where dc: "durable_command w False c cmd = (c', r)" "durable_command w True c cmd = (c', r')"
    and run: "rel_sum (=) (result_mirror ?pl k) r r'" by (rule durable_command_mirrors)
  show ?thesis
  proof (cases r)
    case (Inl x)
    with run dc show ?thesis by (cases r') simp_all
  next
    case (Inr res)
    with run obtain res' where res': "r' = Inr res'" "result_mirror ?pl k res res'" by (cases r') simp_all
    then obtain q where q: "res = Primary q" "0 < k" "k \<le> length (canonical_checkpoints_for ?pl)"
      "(?pl, wr_outcome q, canonical_checkpoints_for ?pl ! (k - 1)) \<in> set ALLOWED_EXECUTION_TERMINALS"
      "res' = Traced \<lparr>we_result = q, we_trace =
         \<lparr>tr_validation_placement = ?pl, tr_checkpoints = take k (canonical_checkpoints_for ?pl)\<rparr>\<rparr>"
      by (auto simp: result_mirror_def)
    have "last (take k (canonical_checkpoints_for ?pl)) = canonical_checkpoints_for ?pl ! (k - 1)"
      using q(2,3) by (subst last_conv_nth) (auto simp: min_def)
    with dc res' q Inr show ?thesis
      by (simp add: terminal_checkpoint_def) (rule exI [of _ "k - 1"], simp)
  qed
qed

end
