(* ===== verification/Write_Side_Progress.thy ===== *)
theory Write_Side_Progress
  imports Write_Side_Traces
begin

text \<open>
  What a durable command does when no other session interferes: a new request that the life cycle
  of its order allows is accepted, and a request that is already recorded is answered with the
  recorded event without touching the tables. Together with the safety of every interleaving this
  gives the retry protocol: after an acceptance, or after a commit whose acknowledgement was lost,
  the same request finds its event.
\<close>

section \<open>Storable commands\<close>

text \<open>The values that the columns of the tables can hold, for a command with normalised amount
  \<open>n\<close>.\<close>

definition storable_command :: "command \<Rightarrow> decimal \<Rightarrow> bool" where
  "storable_command cmd n \<longleftrightarrow> uuid_in (cmd_event_id cmd) = Some (cmd_event_id cmd)
     \<and> text_in (cmd_order_id cmd) = Some (cmd_order_id cmd) \<and> text_in (cmd_request_id cmd) = Some (cmd_request_id cmd)
     \<and> int8_in (cmd_now cmd) = Some (cmd_now cmd) \<and> numeric_18_2_in n = Some n"

definition life_in :: "db \<Rightarrow> string \<Rightarrow> order_life" where
  "life_in d oid = (case rehydrate oid (history d oid) of Inl _ \<Rightarrow> Absent | Inr a \<Rightarrow> life_of a)"

text \<open>A connection that nobody disturbs.\<close>

definition quiet :: "pg_conn \<Rightarrow> bool" where
  "quiet c \<longleftrightarrow> conn_inv c \<and> own c = empty_db \<and> schedule c = []"

lemma quiet_visible [simp]: "quiet c \<Longrightarrow> visible c = committed c"
  by (simp add: quiet_def)

lemma show_nat_no_nul: "CHR 0x00 \<notin> set (show_nat n)"
  using show_nat_digits [of n] by (auto simp: is_digit_def Let_def)

lemma fingerprint_text:
  assumes "ensure_positive_money (MDecimal (sig_amount sg)) = Inr n" and "text_in (sig_order_id sg) = Some (sig_order_id sg)"
  obtains fp where "record_parameters sg = Inr (n, fp)" and "build_semantic_fingerprint sg = Inr fp"
    and "text_in fp = Some fp" and "\<exists>c \<in> set fp. c \<noteq> CHR '' ''"
proof -
  from assms(1) have norm: "normalize_money (MDecimal (sig_amount sg)) = Inr n"
    by (auto simp: ensure_positive_money_def res_simps split: if_splits)
  from normalize_money_shape [OF norm] obtain s c where n: "n = Dec s c (- 2)" by blast
  note st = storage_string_parses(1) [OF norm]
  let ?fp = "py_join ''|'' [''v'' @ show_int FINGERPRINT_VERSION, CommandType_value (sig_command_type sg),
      sig_order_id sg, format_f n]"
  have fp: "build_semantic_fingerprint sg = Inr ?fp" by (simp add: build_semantic_fingerprint_def st)
  have rp: "record_parameters sg = Inr (n, ?fp)"
    using decimal_of_format_f [of "- 2" s c] by (simp add: record_parameters_def st fp n del: format_f.simps)
  have "CHR 0x00 \<notin> set (format_f (Dec s c (- 2)))"
    by (auto simp: pad_digits_def show_nat_no_nul)
  moreover have "CHR 0x00 \<notin> set (CommandType_value (sig_command_type sg))" by (cases "sig_command_type sg") simp_all
  moreover from assms(2) have "CHR 0x00 \<notin> set (sig_order_id sg)" by (auto simp: text_in_def split: if_splits)
  ultimately have "text_in ?fp = Some ?fp"
    by (simp add: text_in_def n show_int_def show_nat_no_nul FINGERPRINT_VERSION_def del: format_f.simps)
  moreover have "\<exists>c \<in> set ?fp. c \<noteq> CHR '' ''" by (rule bexI [of _ "CHR ''v''"]) simp_all
  ultimately show ?thesis by (rule that [OF rp fp])
qed

section \<open>The steps of an accepted command\<close>

lemma prepare_quiet:
  assumes "quiet c"
  obtains g sa where "gate_prepare_stream (new_gate st) c oid = (g, c, Inr sa)" and "stream_admitted sa"
    and "gate_strategy_of g = st" and "st = Pessimistic \<Longrightarrow> oid \<in> set (prepared_order_ids g)"
  using assms
  by (cases st)
     (auto simp: gate_prepare_stream_def new_gate_def try_lock_stream_def take_event_def statement_def
        quiet_def conn_inv_def stream_admitted_def)

lemma candidate_row:
  assumes d: "legal_db d" and b: "\<not> py_blank oid" and a: "rehydrate oid (history d oid) = Inr a"
    and cmd: "aggregate_command ct a eid now rid amt = Inr e"
    and n: "ensure_positive_money (MDecimal amt) = Inr n"
    and st: "uuid_in eid = Some eid" "text_in oid = Some oid" "text_in rid = Some rid" "int8_in now = Some now"
      "numeric_18_2_in n = Some n"
  obtains row where "event_to_row e = Inr row" and "event_row_checks row"
proof -
  have lh: "legal_history oid (history d oid)" by (rule legal_db_history [OF d b])
  from legal_history_replay [OF lh] a have inv: "agg_inv a" "agg_order_id a = oid" by (metis sum.inject(2))+
  note cc = command_candidate [OF cmd inv(1)]
  have ev: "ev_order_id e = oid" "ev_request_id e = rid" "ev_amount e = n" "ev_occurred_at_ms e = now" "ev_event_id e = eid"
    using cmd inv n by (cases ct; auto dest!: aggregate_create_event aggregate_pay_event)+
  have cf: "storable e" using candidate_storable(1) [OF d b a cc(1)] ev(5) st(1) by (simp add: candidate_from_def)
  have ver: "0 \<le> current_version a" "current_version a \<le> 2" using inv(1) by (auto split: OrderStatus.splits)
  have can: "canonical_amount n" by (rule ensure_positive_canonical [OF n])
  have seq: "ev_sequence e = current_version a + 1" "ev_proof e = proof_of a" using cc(1) by (simp_all add: legal_candidate_def)
  have int4: "int4_in (current_version a + 1) = Some (current_version a + 1)" "int4_in (current_version a) = Some (current_version a)"
    using ver by (simp_all add: int4_in_def)
  have prev: "(case prev_event_id (ev_proof e) of None \<Rightarrow> Inr None
               | Some p \<Rightarrow> bind_res (column (uuid_in p)) (\<lambda>q. Inr (Some q))) = Inr (prev_event_id (ev_proof e))"
    using cf by (auto simp: storable_def split: option.split)
  obtain row where row: "event_to_row e = Inr row"
    using st int4 prev by (simp add: event_to_row_def ev seq proof_of_def)
  have "event_row_checks row"
  proof -
    have "dec_le (Dec False 0 0) n" using can by (cases n) (simp_all add: dec_scaled_def)
    with row ver can show ?thesis
      by (cases "ev_event_type e"; cases "status a")
         (auto simp: event_to_row_def res_simps event_row_checks_def ev seq proof_of_def
           dest!: column_in_id numeric_in_canonical)
  qed
  with row show ?thesis by (rule that)
qed

text \<open>A command that a database can accept: a new event identity, valid arguments, and a step that
  the life cycle of the order allows.\<close>

definition acceptable :: "db \<Rightarrow> command \<Rightarrow> decimal \<Rightarrow> bool" where
  "acceptable d cmd n \<longleftrightarrow> \<not> py_blank (cmd_order_id cmd) \<and> \<not> py_blank (cmd_request_id cmd)
     \<and> ensure_positive_money (MDecimal (cmd_amount cmd)) = Inr n
     \<and> life_step (cmd_type cmd) n (life_in d (cmd_order_id cmd)) \<noteq> None \<and> storable_command cmd n
     \<and> cmd_event_id cmd \<notin> set (map col_accepted_event_id (order_events d))
     \<and> lookup_request d (cmd_request_id cmd) = None"

lemma quiet_load:
  assumes "quiet c"
  shows "pg_load c oid = (c, Inr (history (committed c) oid))"
proof -
  from assms have "legal_db (committed c)" "schedule c = []" by (simp_all add: quiet_def conn_inv_def)
  with assms history_map [OF legal_db_ok [OF this(1)]] show ?thesis by (simp add: pg_load_def)
qed

lemma quiet_check:
  assumes "quiet c"
  shows "pg_check c sg = (c, classify_request (committed c) sg)"
  using assms by (simp add: pg_check_def quiet_def)

lemma quiet_check_miss:
  assumes "quiet c" and "lookup_request (committed c) (sig_request_id sg) = None"
  obtains dec where "pg_check c sg = (c, Inr dec)" and "id_verdict dec = MISS"
  using assms classify_request_cases [OF legal_requests_ok, of "committed c" sg]
  by (auto simp: quiet_check quiet_def conn_inv_def)

lemma validation_allows:
  assumes "legal_history oid es" and "rehydrate oid es = Inr a" and "legal_candidate a e" and "\<not> py_blank (ev_event_id e)"
  obtains ev where "invoke_validation (reg_validation_runtime (build_transactional_runtime m)) e
      (build_validation_context a (if es \<noteq> [] then Some (last es) else None)) = Inr (vdr_decision ev, Some ev)"
    and "vd_action (vdr_decision ev) = ALLOW"
proof -
  from legal_history_replay [OF assms(1)] assms(2)
  have lst: "last_event_id a = (if es = [] then None else Some (ev_event_id (last es)))" by (metis sum.inject(2))
  have ctxt: "build_validation_context a (if es \<noteq> [] then Some (last es) else None) = context_of_history es a"
    by (simp add: build_validation_context_def context_of_history_def)
  note v = legal_candidate_passes [OF assms(3) lst]
  have "\<exists>ev. decide_with_rule_evidence (reg_validation_runtime (build_transactional_runtime m)) e (context_of_history es a)
      = Inr ev \<and> vd_action (vdr_decision ev) = ALLOW"
    using validate_with_rule_evidence_agrees [OF assms(4), of "context_of_history es a"] v
      branches_cases(2) [of e "context_of_history es a"]
    by (cases m)
       (auto simp: decide_with_rule_evidence_def dispatcher_select_def policy_decide_def
         build_transactional_runtime_def FullProof_validate_def NoOp_validate_def)
  with that show ?thesis by (auto simp: invoke_validation_def ctxt)
qed

text \<open>The writes of an accepted command: the event row, the request row and the commit.\<close>

lemma append_quiet:
  assumes q: "quiet c" and cand: "candidate_from (committed c) a e"
    and row: "event_to_row e = Inr row" "event_row_checks row"
    and new: "ev_event_id e \<notin> set (map col_accepted_event_id (order_events (committed c)))"
  shows "pg_append c e (current_version a) = (c\<lparr>own := \<lparr>order_events = [row], idempotency_records = []\<rparr>\<rparr>, Inr ())"
proof -
  let ?d = "committed c" and ?oid = "ev_order_id e"
  from q have d: "legal_db ?d" "schedule c = []" "own c = empty_db" "\<not> autocommit c"
    by (simp_all add: quiet_def conn_inv_def)
  from cand have e: "storable e" "legal_candidate a e" by (simp_all add: candidate_from_def)
  note rf = event_row_fields [OF e(1) row(1)]
  from cand have v: "current_version a = int (length (stream_rows ?d ?oid))"
    by (intro candidate_storable(3) [OF d(1), of ?oid a e]) (simp_all add: candidate_from_def storable_def)
  have ver: "pg_current_version c ?oid = (c, Inr (current_version a))"
    using sql_max_stream [OF legal_contiguous [OF d(1)], of ?oid] q v d(2) by (simp add: pg_current_version_def)
  have seq: "ev_sequence e = current_version a + 1" using e(2) by (simp add: legal_candidate_def)
  have "(?oid, ev_sequence e) \<notin> (\<lambda>r. (col_order_id r, col_sequence r)) ` set (order_events ?d)"
  proof
    assume "(?oid, ev_sequence e) \<in> (\<lambda>r. (col_order_id r, col_sequence r)) ` set (order_events ?d)"
    then obtain r where r: "r \<in> set (stream_rows ?d ?oid)" "col_sequence r = ev_sequence e"
      by (auto simp: stream_rows_set)
    then have "ev_sequence e \<in> set (map col_sequence (stream_rows ?d ?oid))" by (metis imageI list.set_map)
    then show False unfolding stream_sequences [OF d(1)] using seq v by auto
  qed
  with new d row(2) rf q have "insert_event_row c row = (c\<lparr>own := \<lparr>order_events = [row], idempotency_records = []\<rparr>\<rparr>, Inr ())"
    by (simp add: insert_event_row_def stage_def)
  with ver seq d(2) row(1) show ?thesis by (simp add: pg_append_def)
qed

lemma record_quiet:
  assumes q: "quiet c" and e: "storable e" and row: "event_to_row e = Inr row" "event_row_checks row"
    and sg: "sig_request_id sg = ev_request_id e" "sig_order_id sg = ev_order_id e"
      "ensure_positive_money (MDecimal (sig_amount sg)) = Inr n"
    and st: "text_in (ev_order_id e) = Some (ev_order_id e)" "text_in (ev_request_id e) = Some (ev_request_id e)"
      "numeric_18_2_in n = Some n"
    and new: "lookup_request (committed c) (sig_request_id sg) = None"
  obtains irow where "pg_record (c\<lparr>own := \<lparr>order_events = [row], idempotency_records = []\<rparr>\<rparr>) sg e
    = (c\<lparr>own := \<lparr>order_events = [row], idempotency_records = [irow]\<rparr>\<rparr>, Inr ())"
proof -
  let ?d = "committed c" and ?c = "c\<lparr>own := \<lparr>order_events = [row], idempotency_records = []\<rparr>\<rparr>"
  from q have d: "legal_db ?d" "schedule c = []" "\<not> autocommit c" by (simp_all add: quiet_def conn_inv_def)
  note ok = legal_db_ok [OF d(1)] and rf = event_row_fields [OF e row(1)]
  obtain fp where fp: "record_parameters sg = Inr (n, fp)" "text_in fp = Some fp" "\<exists>c \<in> set fp. c \<noteq> CHR '' ''"
    by (rule fingerprint_text [OF sg(3)]) (use st(1) sg(2) in auto)
  have "load_record ?d (sig_request_id sg) = None"
    using new stored_request [OF legal_requests_ok [OF d(1)]] by (metis not_None_eq prod.exhaust)
  then have unknown: "ev_request_id e \<notin> idr_request_id ` set (idempotency_records ?d)"
    unfolding load_record_None [OF ok] sg(1) .
  have seq: "int4_in (ev_sequence e) = Some (ev_sequence e)" "0 < ev_sequence e"
    using row rf(3) by (auto simp: event_to_row_def res_simps event_row_checks_def int4_in_def split: if_splits)
  have uid: "uuid_in (ev_event_id e) = Some (ev_event_id e)" using e by (simp add: storable_def)
  let ?irow = "\<lparr>idr_request_id = ev_request_id e, idr_order_id = ev_order_id e,
     idr_command_type = CommandType_value (sig_command_type sg), idr_amount = n,
     idr_fingerprint_version = FINGERPRINT_VERSION, idr_semantic_fingerprint = fp,
     idr_accepted_event_id = ev_event_id e, idr_result_sequence = ev_sequence e, idr_status = ''SUCCEEDED''\<rparr>"
  have irow: "idempotency_row_of sg e n fp = Inr ?irow"
    by (simp add: idempotency_row_of_def sg st fp(2) seq uid)
  have pos: "dec_le (Dec False 0 0) n"
    using ensure_positive_canonical [OF sg(3)] by (cases n) (simp_all add: dec_scaled_def)
  have "idempotency_row_checks ?irow"
    using fp(3) seq(2) pos by (cases "sig_command_type sg") (simp_all add: idempotency_row_checks_def FINGERPRINT_VERSION_def)
  then have "insert_idempotency_row ?c ?irow = (c\<lparr>own := \<lparr>order_events = [row], idempotency_records = [?irow]\<rparr>\<rparr>, Inr ())"
    using unknown rf(1) d(3) by (simp add: insert_idempotency_row_def visible_def stage_def db_plus_def)
  with fp(1) irow d(2) have "pg_record ?c sg e = (c\<lparr>own := \<lparr>order_events = [row], idempotency_records = [?irow]\<rparr>\<rparr>, Inr ())"
    by (simp add: pg_record_def)
  then show ?thesis by (rule that)
qed

lemma acceptance_steps:
  assumes q: "quiet c" and acc: "acceptable (committed c) cmd n"
  obtains a e ev c1 c2 where
    "rehydrate_aggregate_from_history (cmd_order_id cmd) (history (committed c) (cmd_order_id cmd)) = Inr a"
    and "aggregate_command (cmd_type cmd) a (cmd_event_id cmd) (cmd_now cmd) (cmd_request_id cmd) (cmd_amount cmd) = Inr e"
    and "ev_order_id e = cmd_order_id cmd"
    and "invoke_validation (reg_validation_runtime (build_transactional_runtime m)) e
      (build_validation_context a (if history (committed c) (cmd_order_id cmd) \<noteq> []
         then Some (last (history (committed c) (cmd_order_id cmd))) else None)) = Inr (vdr_decision ev, Some ev)"
    and "vd_action (vdr_decision ev) = ALLOW"
    and "pg_append c e (current_version a) = (c1, Inr ())"
    and "pg_record c1 (signature_of cmd) e = (c2, Inr ())"
    and "conn_commit c2 = (c2\<lparr>committed := visible c2, own := empty_db\<rparr>, Inr ())" and "schedule c2 = []"
proof -
  let ?d = "committed c" and ?oid = "cmd_order_id cmd" and ?es = "history (committed c) (cmd_order_id cmd)"
  from q have d: "legal_db ?d" "schedule c = []" by (simp_all add: quiet_def conn_inv_def)
  from acc have b: "\<not> py_blank ?oid" "\<not> py_blank (cmd_request_id cmd)"
    and n: "ensure_positive_money (MDecimal (cmd_amount cmd)) = Inr n"
    and life: "life_step (cmd_type cmd) n (life_in ?d ?oid) \<noteq> None" and st: "storable_command cmd n"
    and new: "cmd_event_id cmd \<notin> set (map col_accepted_event_id (order_events ?d))"
      "lookup_request ?d (cmd_request_id cmd) = None" by (simp_all add: acceptable_def)
  from st have st: "uuid_in (cmd_event_id cmd) = Some (cmd_event_id cmd)" "text_in ?oid = Some ?oid"
    "text_in (cmd_request_id cmd) = Some (cmd_request_id cmd)" "int8_in (cmd_now cmd) = Some (cmd_now cmd)"
    "numeric_18_2_in n = Some n" by (simp_all add: storable_command_def)
  have lh: "legal_history ?oid ?es" by (rule legal_db_history [OF d(1) b(1)])
  then obtain a where a: "rehydrate ?oid ?es = Inr a" "agg_inv a" by (rule legal_history_replay)
  then have a': "rehydrate_aggregate_from_history ?oid ?es = Inr a"
    by (simp add: rehydrate_aggregate_from_history_def rehydrate_def)
  obtain e where e: "aggregate_command (cmd_type cmd) a (cmd_event_id cmd) (cmd_now cmd) (cmd_request_id cmd) (cmd_amount cmd) = Inr e"
    using command_refines_life [OF a(2), of "cmd_type cmd" "cmd_event_id cmd" "cmd_now cmd" "cmd_request_id cmd"
        "cmd_amount cmd"] b(2) n life a(1) by (auto simp: life_in_def)
  note cf = command_candidate_from [OF d(1) a' e st(1)]
  obtain row where row: "event_to_row e = Inr row" "event_row_checks row"
    by (rule candidate_row [OF d(1) b(1) a(1) e n st])
  from cf(1) have cand: "legal_candidate a e" "storable e" by (simp_all add: candidate_from_def)
  from cf(3) have sg: "sig_request_id (signature_of cmd) = ev_request_id e" "sig_order_id (signature_of cmd) = ev_order_id e"
    by (simp_all add: signature_for_def signature_of_def)
  obtain ev where ev: "invoke_validation (reg_validation_runtime (build_transactional_runtime m)) e
      (build_validation_context a (if ?es \<noteq> [] then Some (last ?es) else None)) = Inr (vdr_decision ev, Some ev)"
    "vd_action (vdr_decision ev) = ALLOW"
    by (rule validation_allows [OF lh a(1) cand(1)]) (use uuid_not_blank [OF st(1)] cf(2) in auto)
  have app: "pg_append c e (current_version a) = (c\<lparr>own := \<lparr>order_events = [row], idempotency_records = []\<rparr>\<rparr>, Inr ())"
    by (rule append_quiet [OF q cf(1) row]) (use new(1) cf(2) in simp)
  obtain irow where rec: "pg_record (c\<lparr>own := \<lparr>order_events = [row], idempotency_records = []\<rparr>\<rparr>) (signature_of cmd) e
    = (c\<lparr>own := \<lparr>order_events = [row], idempotency_records = [irow]\<rparr>\<rparr>, Inr ())"
    by (rule record_quiet [OF q cand(2) row sg, of n]) (use n st new(2) sg in \<open>auto simp: signature_of_def\<close>)
  show ?thesis
    by (rule that [OF a' e _ ev app rec]) (use sg d(2) in \<open>simp_all add: signature_of_def conn_commit_def take_event_def\<close>)
qed

section \<open>The run of an accepted command\<close>

text \<open>Without a collector a checkpoint does nothing; a statement that returns continues.\<close>

lemma ws_bind_steps:
  "ws_collector s = None \<Longrightarrow> ws_bind (record_checkpoint cp) f s = f () s"
  "ws_bind uow_rollback f s = f () (s\<lparr>ws_conn := conn_rollback (ws_conn s), ws_finished := True\<rparr>)"
  by (simp_all add: ws_bind_def record_checkpoint_def uow_rollback_def)

lemma ws_bind_conn:
  "ws_bind (on_conn m) f s = (case m (ws_conn s) of (c, r) \<Rightarrow>
     (case r of Inl x \<Rightarrow> (s\<lparr>ws_conn := c\<rparr>, Inl x) | Inr a \<Rightarrow> f a (s\<lparr>ws_conn := c\<rparr>)))"
  by (simp add: ws_bind_def on_conn_def split: prod.split sum.split)

lemma ws_bind_lift: "ws_bind (ws_lift r) f s = (case r of Inl x \<Rightarrow> (s, Inl x) | Inr a \<Rightarrow> f a s)"
  by (simp add: ws_bind_def ws_lift_def)

lemma ws_bind_prepare:
  "ws_bind (prepare_stream g oid) f s = (case gate_prepare_stream g (ws_conn s) oid of (g', c, r) \<Rightarrow>
     (case r of Inl x \<Rightarrow> (s\<lparr>ws_conn := c\<rparr>, Inl x) | Inr a \<Rightarrow> f (g', a) (s\<lparr>ws_conn := c\<rparr>)))"
  by (simp add: ws_bind_def prepare_stream_def on_conn_def split: prod.split sum.split)

lemma ws_bind_finally:
  "ws_bind (finally_rollback m) f s = (case m s of (s1, r) \<Rightarrow>
     (case r of Inl x \<Rightarrow> (s1\<lparr>ws_conn := conn_rollback (ws_conn s1)\<rparr>, Inl x)
      | Inr a \<Rightarrow> f a (s1\<lparr>ws_conn := conn_rollback (ws_conn s1)\<rparr>)))"
  by (simp add: ws_bind_def finally_rollback_def split: prod.split sum.split)

lemma ws_bind_finalize:
  "ws_collector s = None \<Longrightarrow> ws_bind (finalize_result r) f s =
     (case PostgresWriteSideResult_init r of Inl x \<Rightarrow> (s, Inl x) | Inr q \<Rightarrow> f (Primary q) s)"
  by (simp add: ws_bind_def finalize_result_def bind_res_def split: sum.split)

lemmas run_simps = Let_def ws_bind_steps ws_bind_conn ws_bind_lift ws_bind_prepare ws_bind_finally ws_bind_finalize
  finalize_result_def PostgresWriteSideResult_init_def with_uow_def ws_return_def

lemma gate_append_admits:
  assumes "gate_strategy_of g = Pessimistic \<Longrightarrow> ev_order_id e \<in> set (prepared_order_ids g)"
    and "pg_append c e v = (c', Inr ())"
  obtains adm where "gate_append_if_admitted g c e v = (c', Inr adm)" and "admission_admitted adm"
  using assms
  by (cases "gate_strategy_of g")
     (auto simp: gate_append_if_admitted_def append_with_translation_def AdmissionResult_init_def
       admission_admitted_def)

lemma quiet_run_accepts:
  assumes q: "quiet c" and acc: "acceptable (committed c) cmd n"
    and w: "wsd_validation_runtime w = reg_validation_runtime (build_transactional_runtime m)"
  obtains c' r where "durable_command w False c cmd = (c', Inr (Primary r))" and "wr_outcome r = OUT_ACCEPTED"
    and "schedule c' = []"
proof -
  let ?oid = "cmd_order_id cmd" and ?es = "history (committed c) (cmd_order_id cmd)"
  obtain a e ev c1 c2 where steps:
    "rehydrate_aggregate_from_history ?oid ?es = Inr a"
    "aggregate_command (cmd_type cmd) a (cmd_event_id cmd) (cmd_now cmd) (cmd_request_id cmd) (cmd_amount cmd) = Inr e"
    "ev_order_id e = ?oid"
    "invoke_validation (reg_validation_runtime (build_transactional_runtime m)) e
      (build_validation_context a (if ?es \<noteq> [] then Some (last ?es) else None)) = Inr (vdr_decision ev, Some ev)"
    "vd_action (vdr_decision ev) = ALLOW"
    "pg_append c e (current_version a) = (c1, Inr ())"
    "pg_record c1 (signature_of cmd) e = (c2, Inr ())"
    "conn_commit c2 = (c2\<lparr>committed := visible c2, own := empty_db\<rparr>, Inr ())" "schedule c2 = []"
    by (rule acceptance_steps [OF q acc])
  from acc have new: "lookup_request (committed c) (sig_request_id (signature_of cmd)) = None"
    by (simp add: acceptable_def signature_of_def)
  obtain dec where dec: "pg_check c (signature_of cmd) = (c, Inr dec)" "id_verdict dec = MISS"
    by (rule quiet_check_miss [OF q new])
  obtain g sa where prep: "gate_prepare_stream (new_gate (wsd_gate_strategy w)) c ?oid = (g, c, Inr sa)" "stream_admitted sa"
    "gate_strategy_of g = wsd_gate_strategy w" "wsd_gate_strategy w = Pessimistic \<Longrightarrow> ?oid \<in> set (prepared_order_ids g)"
    using prepare_quiet [OF q, of "wsd_gate_strategy w" ?oid thesis] by blast
  obtain adm where adm: "gate_append_if_admitted g c e (current_version a) = (c1, Inr adm)" "admission_admitted adm"
    by (rule gate_append_admits [OF _ steps(6), of g]) (use prep steps(3) in auto)
  from q have conn: "\<not> autocommit c" "conn_rollback c = c" by (simp_all add: quiet_def conn_inv_def conn_rollback_def)
  note sg = signature_of_def [of cmd, symmetric]
  note run = run_simps w sg dec prep(1,2) adm steps(1,2,4-9) quiet_load [OF q] conn
  show ?thesis
  proof (cases "cfg_validation_placement (wsd_config w)")
    case IN_TRANSACTION
    then have "durable_command w False c cmd =
        run_command (execute_in_transaction_command w (cmd_request_id cmd) ?oid (cmd_amount cmd) (cmd_type cmd)
          (\<lambda>a. aggregate_command (cmd_type cmd) a (cmd_event_id cmd) (cmd_now cmd) (cmd_request_id cmd) (cmd_amount cmd))) None c"
      by (simp add: durable_command_eq execute_command_def)
    then show ?thesis
      by (simp add: run_command_def execute_in_transaction_command_def run del: aggregate_command.simps)
         (rule that, assumption, simp_all add: steps)
  next
    case PRE_TRANSACTION
    then have "durable_command w False c cmd =
        run_command (execute_pre_transaction_command w (cmd_request_id cmd) ?oid (cmd_amount cmd) (cmd_type cmd)
          (\<lambda>a. aggregate_command (cmd_type cmd) a (cmd_event_id cmd) (cmd_now cmd) (cmd_request_id cmd) (cmd_amount cmd))) None c"
      by (simp add: durable_command_eq execute_command_def)
    then show ?thesis
      by (simp add: run_command_def execute_pre_transaction_command_def preliminary_read_phase_def pre_transaction_uow_def
            run del: aggregate_command.simps)
         (rule that, assumption, simp_all add: steps)
  qed
qed

section \<open>The run of a remembered command\<close>

lemma quiet_run_replays:
  assumes q: "quiet c" and rec: "lookup_request (committed c) (cmd_request_id cmd) = Some rec"
    and same: "same_fingerprint (rec_signature rec) (signature_of cmd)"
  obtains r where "durable_command w False c cmd = (c, Inr (Primary r))" and "wr_outcome r = OUT_REPLAY"
    and "wr_accepted_event r = Some (rec_accepted_event rec)" and "id_record (wr_idempotency_decision r) = Some rec"
proof -
  from q have d: "legal_db (committed c)" by (simp add: quiet_def conn_inv_def)
  from same obtain f where "build_semantic_fingerprint (signature_of cmd) = Inr f" by (auto simp: same_fingerprint_def)
  with classify_request_cases [OF legal_requests_ok [OF d], of "signature_of cmd"] rec same q
  obtain dec where dec: "pg_check c (signature_of cmd) = (c, Inr dec)" "id_verdict dec = REPLAY" "id_record dec = Some rec"
    by (simp add: quiet_check signature_of_def)
  have ev: "accepted_event_from_replay dec = Inr (rec_accepted_event rec)"
    by (simp add: accepted_event_from_replay_def dec)
  from q have conn: "\<not> autocommit c" "conn_rollback c = c" by (simp_all add: quiet_def conn_inv_def conn_rollback_def)
  note sg = signature_of_def [of cmd, symmetric]
  note run = run_simps sg dec ev conn durable_command_eq execute_command_def run_command_def
  show ?thesis
  proof (cases "cfg_validation_placement (wsd_config w)")
    case IN_TRANSACTION
    show ?thesis
      by (rule that [of "plain_result OUT_REPLAY (Some (rec_accepted_event rec)) dec"])
         (simp_all add: IN_TRANSACTION run execute_in_transaction_command_def del: aggregate_command.simps)
  next
    case PRE_TRANSACTION
    show ?thesis
      by (rule that [of "plain_result OUT_REPLAY (Some (rec_accepted_event rec)) dec"])
         (simp_all add: PRE_TRANSACTION run execute_pre_transaction_command_def preliminary_read_phase_def
           del: aggregate_command.simps)
  qed
qed

text \<open>A recorded request stays recorded when rows are added.\<close>

lemma lookup_request_grows:
  assumes d: "legal_db d" and d': "legal_db (db_plus d x)" and rec: "lookup_request d rid = Some rec"
  shows "lookup_request (db_plus d x) rid = Some rec"
proof -
  from rec obtain i r where l: "load_record d rid = Some (i, r)"
    by (cases "load_record d rid") (auto simp: lookup_request_def)
  then have "load_record (db_plus d x) rid = Some (i, r)"
    unfolding load_record_iff [OF legal_db_ok [OF d]] load_record_iff [OF legal_db_ok [OF d']] by auto
  with l rec show ?thesis by (simp add: lookup_request_def)
qed

lemma normal_same_fingerprint:
  assumes "ensure_positive_money (MDecimal (sig_amount sg)) = Inr n"
    and "build_semantic_fingerprint (normal_signature sg) = Inr f"
  shows "same_fingerprint (normal_signature sg) sg"
proof -
  from assms(1) have n: "normalize_money (MDecimal (sig_amount sg)) = Inr n"
    by (auto simp: ensure_positive_money_def res_simps split: if_splits)
  then have ns: "normal_signature sg = sg\<lparr>sig_amount := n\<rparr>" by (simp add: normal_signature_def)
  have "normalize_money (MDecimal n) = Inr n" using ensure_positive_canonical [OF assms(1)] by simp
  with storage_string_parses(1) [OF n] storage_string_parses(1) [of "MDecimal n" n] show ?thesis
    by (simp add: same_fingerprint_def build_semantic_fingerprint_def ns)
qed

lemma accepted_remembered:
  assumes acc: "accepted_in S d0 sg e d" and d': "legal_db (db_plus d x)"
  obtains rec where "lookup_request (db_plus d x) (sig_request_id sg) = Some rec"
    and "same_fingerprint (rec_signature rec) sg" and "rec_accepted_event rec = e"
proof -
  let ?rec = "\<lparr>rec_signature = normal_signature sg, rec_accepted_event = e\<rparr>"
  from acc have d: "legal_db d" "lookup_request d (sig_request_id sg) = Some ?rec"
    and pos: "ensure_positive_money (MDecimal (sig_amount sg)) = Inr (ev_amount e)"
    by (auto simp: accepted_in_def signature_for_def)
  obtain i r where l: "load_record d (sig_request_id sg) = Some (i, r)"
    using d(2) by (cases "load_record d (sig_request_id sg)") (auto simp: lookup_request_def)
  from stored_request [OF legal_requests_ok [OF d(1)] l] d(2)
  obtain f where "build_semantic_fingerprint (normal_signature sg) = Inr f"
    by (metis IdempotencyRecord.select_convs(1) option.inject)
  from that [OF lookup_request_grows [OF d(1) d' d(2)]] normal_same_fingerprint [OF pos this] show ?thesis by simp
qed

section \<open>Properties\<close>

text \<open>
  C15: A durable command makes progress. On a connection that no other session disturbs, for the
  validation runtime that the bootstrap builds in either mode, either placement, either gate,
  traced or not: a request that is not yet remembered, whose arguments are valid and fit the
  columns and whose step the life cycle of the order allows, is accepted. The command returns, and
  the accepted event is exactly what its history gained.
\<close>

theorem quiet_command_accepted:
  assumes "quiet c" and "acceptable (committed c) cmd n"
    and "wsd_validation_runtime w = reg_validation_runtime (build_transactional_runtime m)"
  shows "\<exists>c' res e. durable_command w traced c cmd = (c', Inr res) \<and> quiet c'
    \<and> wr_outcome (primary_result res) = OUT_ACCEPTED \<and> wr_accepted_event (primary_result res) = Some e
    \<and> ev_event_id e = cmd_event_id cmd \<and> signature_for (signature_of cmd) e
    \<and> (\<forall>oid. history (committed c') oid =
         (if oid = cmd_order_id cmd then history (committed c) oid @ [e] else history (committed c) oid))"
proof -
  from assms(1) have c: "conn_inv c" "own c = empty_db" "schedule c = []" by (simp_all add: quiet_def)
  have u: "uuid_in (cmd_event_id cmd) = Some (cmd_event_id cmd)"
    using assms(2) by (simp add: acceptable_def storable_command_def)
  obtain c' r where run: "durable_command w False c cmd = (c', Inr (Primary r))" "wr_outcome r = OUT_ACCEPTED"
    "schedule c' = []" by (rule quiet_run_accepts [OF assms])
  obtain res where res: "durable_command w traced c cmd = (c', Inr res)" "primary_result res = r"
    using durable_command_traced [OF run(1), of traced thesis] by auto
  have post: "command_post {} (committed c) (signature_of cmd) (cmd_event_id cmd) (primary_result res) c'"
    using durable_command_post [OF c(1,2) u res(1)] c(3) by simp
  then obtain e where e: "wr_accepted_event r = Some e" "ev_event_id e = cmd_event_id cmd"
    "accepted_in {} (committed c) (signature_of cmd) e (committed c')" "conn_inv c'" "own c' = empty_db"
    using run(2) res(2) by (auto simp: command_post_def)
  from e(3) have sg: "signature_for (signature_of cmd) e" and oid: "ev_order_id e = cmd_order_id cmd"
    by (simp_all add: accepted_in_def signature_for_def signature_of_def)
  from e(3) obtain d1 where d1: "grows_by {} (committed c) d1"
    "\<forall>oid. history (committed c') oid = (if oid = ev_order_id e then history d1 oid @ [e] else history d1 oid)"
    by (auto simp: accepted_in_def)
  from d1(1) have "d1 = committed c" by (auto simp: grows_by_def)
  with d1(2) show ?thesis
    using run res e sg oid by (intro exI [of _ c'] exI [of _ res] exI [of _ e]) (simp add: quiet_def)
qed

definition sample_conn :: pg_conn where
  "sample_conn = \<lparr>committed = empty_db, own = empty_db, schedule = [], autocommit = False\<rparr>"

definition sample_write_side :: "ValidationPlacement \<Rightarrow> gate_strategy \<Rightarrow> write_side" where
  "sample_write_side pl st = \<lparr>wsd_validation_runtime = reg_validation_runtime (build_transactional_runtime STRICT),
     wsd_gate_strategy = st, wsd_config = \<lparr>cfg_validation_mode = STRICT, cfg_validation_placement = pl\<rparr>\<rparr>"

definition sample_command :: command where
  "sample_command = sample_create\<lparr>cmd_event_id := sample_uuid\<rparr>"

lemma sample_quiet: "quiet sample_conn"
  by (simp add: quiet_def conn_inv_def sample_conn_def visible_def legal_db_def db_ok_def)

lemma sample_acceptable: "acceptable (committed sample_conn) sample_command (Dec False 1000 (- 2))"
proof -
  have "ensure_positive_money (MDecimal (Dec False 10 0)) = Inr (Dec False 1000 (- 2))"
    by (simp add: ensure_positive_money_def normalize_money_def money_eval dec_scaled_def)
  moreover have "life_in empty_db ''o1'' = Absent"
    by (simp add: life_in_def history_def stream_rows_def rehydrate_def OrderAggregate_init_def py_blank_iff py_isspace_def)
  ultimately show ?thesis
    by (simp add: acceptable_def sample_conn_def sample_command_def sample_create_def storable_command_def sample_uuid_in
        text_in_def int8_in_def lookup_request_def load_record_def py_blank_iff py_isspace_def)
qed

theorem quiet_command_accepted_witness:
  "\<exists>c' res e. durable_command (sample_write_side PRE_TRANSACTION Pessimistic) True sample_conn sample_command = (c', Inr res)
     \<and> wr_outcome (primary_result res) = OUT_ACCEPTED \<and> history (committed c') ''o1'' = [e]"
proof -
  have "history empty_db ''o1'' = []" by (simp add: history_def stream_rows_def)
  moreover have "wsd_validation_runtime (sample_write_side PRE_TRANSACTION Pessimistic)
      = reg_validation_runtime (build_transactional_runtime STRICT)" by (simp add: sample_write_side_def)
  from quiet_command_accepted [OF sample_quiet sample_acceptable this, of True]
  obtain c' res e where "durable_command (sample_write_side PRE_TRANSACTION Pessimistic) True sample_conn sample_command
      = (c', Inr res)" "wr_outcome (primary_result res) = OUT_ACCEPTED"
    "history (committed c') ''o1'' = history empty_db ''o1'' @ [e]"
    by (auto simp: sample_command_def sample_create_def sample_conn_def)
  ultimately show ?thesis by auto
qed

lemma sample_run:
  obtains c' r where "durable_command (sample_write_side pl st) False sample_conn sample_command = (c', Inr (Primary r))"
    and "wr_outcome r = OUT_ACCEPTED" and "schedule c' = []"
  by (rule quiet_run_accepts [OF sample_quiet sample_acceptable, of "sample_write_side pl st" STRICT])
     (auto simp: sample_write_side_def)

lemma sample_idle: "conn_inv sample_conn" "own sample_conn = empty_db" "schedule sample_conn = []"
    "uuid_in (cmd_event_id sample_command) = Some (cmd_event_id sample_command)"
  using sample_quiet by (simp_all add: quiet_def sample_command_def sample_uuid_in)

text \<open>The safety theorem at work: the first command on an empty database.\<close>

theorem durable_command_safe_witness:
  "\<exists>c' res e. durable_command (sample_write_side IN_TRANSACTION Optimistic) False sample_conn sample_command = (c', Inr res)
     \<and> wr_accepted_event (primary_result res) = Some e \<and> accepted_in {} empty_db (signature_of sample_command) e (committed c')"
proof -
  obtain c' r where run: "durable_command (sample_write_side IN_TRANSACTION Optimistic) False sample_conn sample_command
      = (c', Inr (Primary r))" "wr_outcome r = OUT_ACCEPTED" by (rule sample_run)
  from durable_command_safe [OF sample_idle(1,2,4) run(1)] run sample_idle(3) show ?thesis
    by (auto simp: command_post_def sample_conn_def)
qed

text \<open>
  C13: Retries are safe. When a durable command, among any interference, returned ACCEPTED, or
  committed anything although it raised (its acknowledgement was lost), then a later retry of the
  same request on any extension of the database, with any placement, gate and validation runtime,
  on an undisturbed connection, returns REPLAY with the event that the first attempt committed and
  changes nothing.
\<close>

theorem retry_returns_accepted_event:
  assumes "conn_inv c" and "own c = empty_db" and "uuid_in (cmd_event_id cmd) = Some (cmd_event_id cmd)"
    and "durable_command w traced c cmd = (c', r)"
    and "(\<exists>res. r = Inr res \<and> wr_outcome (primary_result res) = OUT_ACCEPTED)
       \<or> \<not> grows_by (set (schedule c)) (committed c) (committed c')"
    and "quiet c2" and "committed c2 = db_plus (committed c') x" and "signature_of cmd2 = signature_of cmd"
  shows "\<exists>e res2. e \<in> set (history (committed c') (cmd_order_id cmd))
    \<and> (\<forall>res. r = Inr res \<longrightarrow> wr_accepted_event (primary_result res) = Some e)
    \<and> durable_command w2 traced2 c2 cmd2 = (c2, Inr res2)
    \<and> wr_outcome (primary_result res2) = OUT_REPLAY \<and> wr_accepted_event (primary_result res2) = Some e"
proof -
  let ?S = "set (schedule c)"
  obtain e where acc: "accepted_in ?S (committed c) (signature_of cmd) e (committed c')"
    and ev: "\<forall>res. r = Inr res \<longrightarrow> wr_accepted_event (primary_result res) = Some e"
  proof (cases r)
    case (Inl y)
    with durable_command_exc [OF assms(1-3) assms(4) [unfolded Inl]] assms(5) that show ?thesis
      by (auto simp: command_exc_def)
  next
    case (Inr res)
    with durable_command_post [OF assms(1-3) assms(4) [unfolded Inr]] assms(5) that show ?thesis
      by (auto simp: command_post_def split: if_splits)
  qed
  from assms(6,7) have d2: "legal_db (db_plus (committed c') x)" by (auto simp: quiet_def conn_inv_def)
  obtain rec where rec: "lookup_request (committed c2) (cmd_request_id cmd2) = Some rec"
    "same_fingerprint (rec_signature rec) (signature_of cmd2)" "rec_accepted_event rec = e"
    using accepted_remembered [OF acc d2, of thesis] assms(7,8) by (auto simp: signature_of_def)
  obtain r2 where r2: "durable_command w2 False c2 cmd2 = (c2, Inr (Primary r2))" "wr_outcome r2 = OUT_REPLAY"
    "wr_accepted_event r2 = Some e" using quiet_run_replays [OF assms(6) rec(1,2), of w2 thesis] rec(3) by auto
  obtain res2 where res2: "durable_command w2 traced2 c2 cmd2 = (c2, Inr res2)" "primary_result res2 = r2"
    using durable_command_traced [OF r2(1), of traced2 thesis] by auto
  have "e \<in> set (history (committed c') (cmd_order_id cmd))"
    using acc by (auto simp: accepted_in_def signature_for_def signature_of_def)
  with ev r2 res2 show ?thesis by blast
qed

theorem retry_returns_accepted_event_witness:
  "\<exists>c' res e res2. durable_command (sample_write_side IN_TRANSACTION Optimistic) False sample_conn sample_command = (c', Inr res)
     \<and> wr_accepted_event (primary_result res) = Some e
     \<and> durable_command (sample_write_side PRE_TRANSACTION Pessimistic) True c' (sample_command\<lparr>cmd_now := 9\<rparr>) = (c', Inr res2)
     \<and> wr_outcome (primary_result res2) = OUT_REPLAY \<and> wr_accepted_event (primary_result res2) = Some e"
proof -
  obtain c' r where run: "durable_command (sample_write_side IN_TRANSACTION Optimistic) False sample_conn sample_command
      = (c', Inr (Primary r))" "wr_outcome r = OUT_ACCEPTED" "schedule c' = []" by (rule sample_run)
  from durable_command_post [OF sample_idle(1,2,4) run(1)] run have q: "quiet c'"
    by (auto simp: command_post_def quiet_def)
  have again: "signature_of (sample_command\<lparr>cmd_now := 9\<rparr>) = signature_of sample_command"
    by (simp add: signature_of_def)
  from retry_returns_accepted_event [OF sample_idle(1,2,4) run(1) _ q _ again, of empty_db
      "sample_write_side PRE_TRANSACTION Pessimistic" True] run
  show ?thesis by auto
qed

end
