(* ===== verification/Read_Side.thy ===== *)
theory Read_Side
  imports Postgres_Snapshot Write_Side_Progress
begin

text \<open>
  The properties of the durable read side, over the tables that a legal write side leaves: the
  projection worker, the replay validator, the snapshot store, the snapshot validator and the
  snapshot-assisted resolver. The samples come from a run of the write side itself.
\<close>

section \<open>From the write side to the read side\<close>

definition numbered :: "db \<Rightarrow> read_db" where
  "numbered d = \<lparr>rd_events = zip (map int [1..<Suc (length (order_events d))]) (order_events d), rd_states = Map.empty,
     rd_progress = Map.empty, rd_checkpoints = Map.empty, rd_snapshots = []\<rparr>"

lemma numbered_ok:
  assumes "legal_db d"
  shows "read_ok (numbered d)" and "map snd (rd_events (numbered d)) = order_events d"
proof -
  show rows: "map snd (rd_events (numbered d)) = order_events d" by (simp add: numbered_def del: upt_Suc)
  have "map fst (rd_events (numbered d)) = map int [1..<Suc (length (order_events d))]"
    by (simp add: numbered_def del: upt_Suc)
  then have "distinct (map fst (rd_events (numbered d)))" "\<forall>gp \<in> set (map fst (rd_events (numbered d))). 0 < gp"
    by (simp_all add: distinct_map del: upt_Suc)
  moreover have "\<lparr>order_events = order_events d, idempotency_records = idempotency_records d\<rparr> = d" by simp
  then have "\<exists>is. legal_db \<lparr>order_events = map snd (rd_events (numbered d)), idempotency_records = is\<rparr>"
    using assms rows by metis
  ultimately show "read_ok (numbered d)" by (simp add: read_ok_def)
qed

lemma numbered_accepted: "legal_db d \<Longrightarrow> accepted (numbered d) oid = history d oid"
proof -
  assume l: "legal_db d"
  then have "db_ok d" by (simp add: legal_db_def)
  with numbered_ok(2) [OF l] show ?thesis
    by (simp add: accepted_stream history_map(2) events_db_def stream_rows_def del: map_map)
qed

text \<open>The tables after the first command of a write side.\<close>

lemma sample_tables:
  obtains d e where "worker_reach d" and "rd_snapshots d = []" and "accepted d ''o1'' = [e]"
    and "length (rd_events d) = 1" and "uuid_in (ev_event_id e) = Some (ev_event_id e)"
    and "project ''o1'' [e] = Inr \<lparr>st_order_id = ''o1'', st_status = CREATED, st_total_amount = Dec False 1000 (- 2),
           st_paid_amount = Dec False 0 (- 2), st_version = 1\<rparr>"
proof -
  obtain c' res where run: "durable_command (sample_write_side PRE_TRANSACTION Pessimistic) False sample_conn sample_command
      = (c', Inr (Primary res))" "wr_outcome res = OUT_ACCEPTED" by (rule sample_run)
  let ?d = "numbered (committed c')"
  from durable_command_post [OF sample_idle(1,2,4) run(1)] run(2) obtain e
    where e: "ev_event_id e = sample_uuid" "accepted_in {} empty_db (signature_of sample_command) e (committed c')"
    by (auto simp: command_post_def sample_idle(3) sample_conn_def sample_command_def)
  then obtain d1 row irow where d1: "grows_by {} empty_db d1" and l: "legal_db (committed c')"
    and c': "committed c' = db_plus d1 \<lparr>order_events = [row], idempotency_records = [irow]\<rparr>"
    and h: "\<forall>oid. history (committed c') oid = (if oid = ev_order_id e then history d1 oid @ [e] else history d1 oid)"
    and sg: "signature_for (signature_of sample_command) e" by (auto simp: accepted_in_def)
  from d1 have "d1 = empty_db" by (auto simp: grows_by_def)
  then have len: "length (rd_events ?d) = 1" and hist: "history (committed c') ''o1'' = [e]"
    using c' h sg by (simp_all add: numbered_def db_plus_def history_def stream_rows_def signature_for_def
        signature_of_def sample_command_def sample_create_def)
  have acc: "accepted ?d ''o1'' = [e]" using numbered_accepted [OF l] hist by simp
  have leg: "legal_history ''o1'' [e]"
    using accepted_legal [OF numbered_ok(1) [OF l], of "''o1''"] unfolding acc by (simp add: py_blank_iff py_isspace_def)
  have "worker_reach ?d" by (rule worker_reach.fresh [OF numbered_ok(1) [OF l]]) (simp_all add: numbered_def)
  moreover have "ev_sequence e = 1" using legal_history_last_sequence [of "''o1''" "[]" e] leg by simp
  moreover have "ensure_positive_money (MDecimal (Dec False 10 0)) = Inr (Dec False 1000 (- 2))"
    by (simp add: ensure_positive_money_def normalize_money_def money_eval dec_scaled_def)
  then have "ev_order_id e = ''o1''" "ev_amount e = Dec False 1000 (- 2)" "ev_event_type e = EV_CREATED"
    using sg by (simp_all add: signature_for_def signature_of_def sample_command_def sample_create_def)
  ultimately have "project ''o1'' [e] = Inr \<lparr>st_order_id = ''o1'', st_status = CREATED,
      st_total_amount = Dec False 1000 (- 2), st_paid_amount = Dec False 0 (- 2), st_version = 1\<rparr>"
    by (simp add: project_def build_empty_projection_state_def reduce_order_event_def Let_def)
  with that [OF \<open>worker_reach ?d\<close> _ acc len] e(1) show ?thesis by (simp add: numbered_def sample_uuid_in)
qed

section \<open>Properties\<close>

text \<open>
  C4: The projection worker never leaves the accepted history. Whatever accepted events other
  sessions commit, before or during its transactions, each stored state is the projection of
  exactly the accepted events up to the recorded progress of its order, there is no state without
  progress, and a call of process_next on an idle connection, whose statements succeed, never raises.
\<close>

theorem worker_stays_in_step:
  assumes "worker_reach d"
  shows "progress_of d oid \<le> length (accepted d oid)
    \<and> (progress_of d oid = 0 \<longrightarrow> pg_load_state d oid = Inr None)
    \<and> (0 < progress_of d oid \<longrightarrow> (\<exists>st. pg_load_state d oid = Inr (Some st)
          \<and> project oid (take (progress_of d oid) (accepted d oid)) = Inr st))
    \<and> (\<forall>late. read_ok (arrive late d) \<longrightarrow> (\<exists>d' res. pg_process_next name True late d = (d', Inr res)))"
proof -
  note st = worker_reach_in_step [OF assms]
  have "\<exists>d' res. pg_process_next name True late d = (d', Inr res)" if "read_ok (arrive late d)" for late
    using process_next_in_step [OF st that, of name] by blast
  moreover have "order_in_step d oid" using st by (simp add: in_step_def)
  ultimately show ?thesis by (auto simp: order_in_step_def order_records_def pg_load_state_def)
qed

theorem worker_stays_in_step_witness:
  "\<exists>d d' res. length (rd_events d) = 1 \<and> pg_process_next ''w'' True [] d = (d', Inr res)"
proof -
  obtain d e where d: "worker_reach d" "length (rd_events d) = 1" by (rule sample_tables)
  then have "read_ok (arrive [] d)" using worker_reach_in_step by (simp add: in_step_def arrive_def)
  with worker_stays_in_step [OF d(1), of "[]" "''w''"] d(2) show ?thesis by blast
qed

text \<open>
  C24: The worker catches up. From every state it can be in, with no new events arriving, after at
  most as many calls of process_next as there are accepted events it reports that nothing is
  eligible, and then the replay validator answers MATCH for every order with accepted events.
\<close>

theorem worker_catches_up:
  assumes "worker_reach d"
  shows "\<exists>n \<le> length (rd_events d). \<exists>d'. ((\<lambda>d. fst (pg_process_next name True [] d)) ^^ n) d = d'
    \<and> snd (pg_process_next name True [] d') = Inr (no_event_result name) \<and> rd_events d' = rd_events d
    \<and> (\<forall>oid. accepted d oid \<noteq> [] \<longrightarrow> (\<exists>r. durable_validate_order True d' oid = Inr r \<and> rv_status r = RV_MATCH))"
proof -
  from drain_in_step [OF worker_reach_in_step [OF assms], of name] obtain n d' where n: "n \<le> length (backlog d)"
    "((\<lambda>d. fst (pg_process_next name True [] d)) ^^ n) d = d'" "snd (pg_process_next name True [] d') = Inr (no_event_result name)"
    and st: "in_step d'" and ev: "rd_events d' = rd_events d" and up: "\<forall>oid. progress_of d' oid = length (order_rows d' oid)"
    by blast
  have "\<exists>r. durable_validate_order True d' oid = Inr r \<and> rv_status r = RV_MATCH" if "accepted d oid \<noteq> []" for oid
  proof -
    from that have "order_rows d' oid \<noteq> []" by (simp add: order_records_def same_events [OF ev])
    moreover obtain r where "durable_validate_order True d' oid = Inr r" "rv_status r = (if order_rows d' oid = [] then RV_NO_ACCEPTED_HISTORY
          else if progress_of d' oid = 0 then RV_MISSING_PROJECTION
          else if progress_of d' oid = length (order_rows d' oid) then RV_MATCH else RV_DRIFT)"
      by (rule validator_verdict [OF st])
    ultimately show ?thesis using up by simp
  qed
  moreover have "length (backlog d) \<le> length (rd_events d)" by (simp add: backlog_def)
  ultimately show ?thesis using n ev by (intro exI [of _ n]) auto
qed

theorem worker_catches_up_witness:
  "\<exists>d n d' r. n \<le> 1 \<and> ((\<lambda>d. fst (pg_process_next ''w'' True [] d)) ^^ n) d = d'
    \<and> durable_validate_order True d' ''o1'' = Inr r \<and> rv_status r = RV_MATCH"
proof -
  obtain d e where d: "worker_reach d" "length (rd_events d) = 1" "accepted d ''o1'' = [e]" by (rule sample_tables)
  from worker_catches_up [OF d(1), of "''w''"] d(2) obtain n where "n \<le> 1"
    "\<forall>oid. accepted d oid \<noteq> [] \<longrightarrow> (\<exists>r. durable_validate_order True
        (((\<lambda>d. fst (pg_process_next ''w'' True [] d)) ^^ n) d) oid = Inr r \<and> rv_status r = RV_MATCH)" by auto
  with d(3) show ?thesis by (metis list.distinct(1))
qed

text \<open>
  The replay validator measures the lag of the projection exactly. On the tables of a worker
  it never raises, and it answers NO_ACCEPTED_HISTORY, MISSING_PROJECTION, DRIFT or MATCH according
  to whether the order has no accepted event, none of them is projected, some are, or all are.
\<close>

theorem validator_measures_lag:
  assumes "worker_reach d"
  shows "\<exists>r. durable_validate_order True d oid = Inr r
    \<and> rv_status r = (if accepted d oid = [] then RV_NO_ACCEPTED_HISTORY
          else if progress_of d oid = 0 then RV_MISSING_PROJECTION
          else if progress_of d oid < length (accepted d oid) then RV_DRIFT else RV_MATCH)"
proof -
  note st = worker_reach_in_step [OF assms]
  then have "progress_of d oid \<le> length (order_rows d oid)" by (simp add: in_step_def order_in_step_def)
  moreover obtain r where "durable_validate_order True d oid = Inr r"
    "rv_status r = (if order_rows d oid = [] then RV_NO_ACCEPTED_HISTORY
          else if progress_of d oid = 0 then RV_MISSING_PROJECTION
          else if progress_of d oid = length (order_rows d oid) then RV_MATCH else RV_DRIFT)"
    by (rule validator_verdict [OF st])
  ultimately show ?thesis by (auto simp: order_records_def)
qed

theorem validator_measures_lag_witness:
  "\<exists>d r. durable_validate_order True d ''o1'' = Inr r \<and> rv_status r \<noteq> RV_NO_ACCEPTED_HISTORY"
proof -
  obtain d e where d: "worker_reach d" "accepted d ''o1'' = [e]" by (rule sample_tables)
  from validator_measures_lag [OF d(1), of "''o1''"] d(2) obtain r where "durable_validate_order True d ''o1'' = Inr r"
    "rv_status r = (if progress_of d ''o1'' = 0 then RV_MISSING_PROJECTION
          else if progress_of d ''o1'' < 1 then RV_DRIFT else RV_MATCH)" by auto
  then show ?thesis by (intro exI [of _ d] exI [of _ r]) simp
qed

text \<open>
  C25: The unbounded paging loop over the tail of an order ends and is complete: whatever the page
  size, it returns exactly the accepted events of the order after the given sequence.
\<close>

theorem tail_paging_complete:
  assumes "read_ok d" and "\<not> py_blank oid" and "0 < limit"
  shows "load_all_tail_records (load_after_sequence d) limit oid (int n) [] = Some (Inr (drop n (order_records d oid)))"
  using pg_tail.load_all_complete [OF assms, of n "[]"] by simp

theorem tail_paging_complete_witness:
  "\<exists>d e. load_all_tail_records (load_after_sequence d) 1 ''o1'' 0 [] = Some (Inr [e])"
proof -
  obtain d e where d: "worker_reach d" "accepted d ''o1'' = [e]" by (rule sample_tables)
  then have "read_ok d" using worker_reach_in_step by (simp add: in_step_def)
  moreover have "\<not> py_blank ''o1''" by (simp add: py_blank_iff py_isspace_def)
  ultimately have "load_all_tail_records (load_after_sequence d) 1 ''o1'' (int 0) [] = Some (Inr (drop 0 (order_records d ''o1'')))"
    by (rule tail_paging_complete) simp
  moreover obtain r where "order_records d ''o1'' = [r]" using d(2) by auto
  ultimately show ?thesis by (intro exI [of _ d] exI [of _ r]) simp
qed

text \<open>
  Saving a snapshot. A successful save keeps every constraint of the table and every snapshot
  in it, leaves the accepted events alone, stores the evidence of the snapshot (or found it
  stored), and saving the same snapshot again succeeds and changes nothing.
\<close>

theorem save_snapshot_idempotent:
  assumes "snapshots_ok d" and "uuid_in (source_event_id sn) = Some (source_event_id sn)" and "save_snapshot d sn = Inr d'"
  shows "snapshots_ok d' \<and> set (rd_snapshots d) \<subseteq> set (rd_snapshots d') \<and> rd_events d' = rd_events d
    \<and> (\<exists>e \<in> set (rd_snapshots d'). same_snapshot_evidence e sn) \<and> save_snapshot d' sn = Inr d'"
proof (cases rule: save_snapshot_cases [OF assms(2,3), case_names stored known])
  case (stored row)
  note row = snapshot_row_fields(1) [OF stored(1) assms(2)]
  then have b: "same_source_boundary row sn" by (simp add: same_snapshot_evidence_def)
  have self: "shares_source_boundary row row" by (simp add: shares_source_boundary_def)
  with stored(4) have "filter (\<lambda>e. shares_source_boundary e sn) (rd_snapshots d') = [row]"
    by (auto simp: stored(3) list_ex_iff boundary_of_row [OF b, symmetric])
  with self row stored(1,2) have "save_snapshot d' sn = Inr d'"
    by (simp add: save_snapshot_def insert_snapshot_def load_existing_source_boundary_snapshots_def stored(3))
  with insert_snapshot_ok [OF assms(1) stored(2,4)] row stored(3) show ?thesis by auto
next
  case (known e)
  with assms(1,3) show ?thesis by auto
qed

definition sample_snapshot :: "string \<Rightarrow> ProjectionSnapshot" where
  "sample_snapshot eid = \<lparr>snapshot_id = sample_uuid, sn_order_id = ''o1'', source_event_id = eid, source_event_sequence = 1,
     source_global_position = 1, state_status = ''CREATED'', sn_total_amount = Dec False 1000 (- 2),
     sn_paid_amount = Dec False 0 (- 2), state_version = 1, snapshot_schema_version = 1,
     reducer_version = ''order_projection_reducer:v1'', payload_hash = ''h'', sn_metadata = [], created_by = ''s''\<rparr>"

lemma sample_snapshot_row:
  assumes "uuid_in eid = Some eid"
  shows "snapshot_row (sample_snapshot eid) = Inr (sample_snapshot eid)" and "snapshot_row_checks (sample_snapshot eid)"
  using assms by (simp_all add: snapshot_row_def sample_snapshot_def sample_uuid_in text_in_def int4_in_def int8_in_def
      snapshot_row_checks_def sql_not_blank_def dec_scaled_def)

lemma sample_snapshot_saved:
  assumes "uuid_in eid = Some eid" and "rd_snapshots d = []"
  shows "save_snapshot d (sample_snapshot eid) = Inr (d\<lparr>rd_snapshots := [sample_snapshot eid]\<rparr>)"
  using sample_snapshot_row [OF assms(1)] assms(2) by (simp add: save_snapshot_def insert_snapshot_def)

theorem save_snapshot_idempotent_witness:
  "\<exists>d'. save_snapshot (numbered empty_db) (sample_snapshot sample_uuid) = Inr d' \<and> snapshots_ok d'
     \<and> save_snapshot d' (sample_snapshot sample_uuid) = Inr d'"
proof -
  have "rd_snapshots (numbered empty_db) = []" by (simp add: numbered_def)
  note saved = sample_snapshot_saved [OF sample_uuid_in this]
  have "snapshots_ok (numbered empty_db)" by (simp add: snapshots_ok_def numbered_def)
  moreover have "uuid_in (source_event_id (sample_snapshot sample_uuid)) = Some (source_event_id (sample_snapshot sample_uuid))"
    by (simp add: sample_snapshot_def sample_uuid_in)
  ultimately show ?thesis using save_snapshot_idempotent [OF _ _ saved] saved by blast
qed

text \<open>
  A snapshot never replaces other evidence. When a well-formed snapshot meets a stored one at the
  same source event, the same global position or the same position of the same order that has
  other lineage, schema, reducer or payload hash, saving raises the collision error.
\<close>

theorem save_snapshot_refuses_other_evidence:
  assumes "uuid_in (source_event_id sn) = Some (source_event_id sn)" and "snapshot_row sn = Inr row" and "snapshot_row_checks row"
    and "e \<in> set (rd_snapshots d)" and "shares_source_boundary e sn" and "\<not> same_snapshot_evidence e sn"
  shows "\<exists>m. save_snapshot d sn = Inl (SnapshotWriteCollisionError m)"
proof -
  have "same_source_boundary row sn" using snapshot_row_fields(1) [OF assms(2,1)] by (simp add: same_snapshot_evidence_def)
  then have "list_ex (\<lambda>existing. snapshot_id existing = snapshot_id row \<or> shares_source_boundary existing row) (rd_snapshots d)"
    using assms(4,5) boundary_of_row [of row sn e] by (auto simp: list_ex_iff)
  moreover have "e \<in> set (load_existing_source_boundary_snapshots d sn)"
    using assms(4,5) by (simp add: load_existing_source_boundary_snapshots_def)
  ultimately show ?thesis using assms(2,3,6) by (auto simp: save_snapshot_def insert_snapshot_def Let_def list_all_iff)
qed

theorem save_snapshot_refuses_other_evidence_witness:
  "\<exists>m. save_snapshot ((numbered empty_db)\<lparr>rd_snapshots := [(sample_snapshot sample_uuid)\<lparr>payload_hash := ''g''\<rparr>]\<rparr>)
     (sample_snapshot sample_uuid) = Inl (SnapshotWriteCollisionError m)"
  by (rule save_snapshot_refuses_other_evidence [OF _ sample_snapshot_row [OF sample_uuid_in], of "(sample_snapshot sample_uuid)\<lparr>payload_hash := ''g''\<rparr>"])
     (simp_all add: sample_snapshot_def sample_uuid_in shares_source_boundary_def same_snapshot_evidence_def)

text \<open>
  Snapshot validation. On an idle connection with a positive page size the validator always
  returns a verdict, and the verdict is MATCH exactly when the order has accepted events and a
  latest snapshot whose boundary is valid, and replaying the tail on the snapshot yields the state
  that the whole accepted history yields.
\<close>

theorem snapshot_validation_verdict:
  assumes "read_ok d" and "0 < limit"
  shows "\<exists>r. snapshot_observation_validate limit True d oid = Some (Inr r)
    \<and> (sv_status r = SV_MATCH \<longleftrightarrow> (\<exists>sn a st. accepted d oid \<noteq> [] \<and> load_latest_snapshot d oid = Inr (Some sn)
          \<and> validate_snapshot_boundary sn oid (int (length (accepted d oid))) = None
          \<and> project oid (accepted d oid) = Inr a \<and> assisted_state (accepted d oid) sn = Inr st \<and> OrderState_eq st a))"
proof -
  obtain found where found: "load_latest_snapshot d oid = Inr found"
    by (cases "sort_key (\<lambda>sn. - source_event_sequence sn) (filter (\<lambda>sn. sn_order_id sn = oid) (rd_snapshots d))")
       (simp_all add: load_latest_snapshot_def)
  from pg_readers.validate_order_total [OF assms found] found assms(2) show ?thesis
    by (auto simp: snapshot_observation_validate_def snapshot_validator_init_def require_idle_connection_def)
qed

lemma sample_snapshot_defs:
  "validate_snapshot_compatibility (sample_snapshot eid) ''o1'' = None"
  "validate_snapshot_boundary (sample_snapshot eid) ''o1'' 1 = None"
  "hydrate_snapshot_state (sample_snapshot eid) = Inr \<lparr>st_order_id = ''o1'', st_status = CREATED,
     st_total_amount = Dec False 1000 (- 2), st_paid_amount = Dec False 0 (- 2), st_version = 1\<rparr>"
  by (simp_all add: sample_snapshot_def validate_snapshot_compatibility_def validate_snapshot_boundary_def
      SUPPORTED_SNAPSHOT_SCHEMA_VERSION_def SUPPORTED_REDUCER_VERSION_def hydrate_snapshot_state_def OrderStatus_of_def)

lemma sample_snapshot_tables:
  obtains d e where "read_ok d" and "accepted d ''o1'' = [e]" and "rd_snapshots d = [sample_snapshot (ev_event_id e)]"
    and "project ''o1'' [e] = hydrate_snapshot_state (sample_snapshot (ev_event_id e))"
    and "uuid_in (ev_event_id e) = Some (ev_event_id e)"
proof -
  obtain d e where d: "worker_reach d" "accepted d ''o1'' = [e]"
    "project ''o1'' [e] = Inr \<lparr>st_order_id = ''o1'', st_status = CREATED, st_total_amount = Dec False 1000 (- 2),
           st_paid_amount = Dec False 0 (- 2), st_version = 1\<rparr>"
    "uuid_in (ev_event_id e) = Some (ev_event_id e)" by (rule sample_tables)
  have ev: "rd_events (d\<lparr>rd_snapshots := [sample_snapshot (ev_event_id e)]\<rparr>) = rd_events d" by simp
  from worker_reach_in_step [OF d(1)] have "read_ok d" by (simp add: in_step_def)
  with that [of "d\<lparr>rd_snapshots := [sample_snapshot (ev_event_id e)]\<rparr>"] d(2,3,4) show ?thesis
    by (simp add: same_events [OF ev] sample_snapshot_defs)
qed

theorem snapshot_validation_verdict_witness:
  "\<exists>d r. snapshot_observation_validate 1 True d ''o1'' = Some (Inr r) \<and> sv_status r = SV_MATCH"
proof -
  obtain d e where d: "read_ok d" "accepted d ''o1'' = [e]" "rd_snapshots d = [sample_snapshot (ev_event_id e)]"
    "project ''o1'' [e] = hydrate_snapshot_state (sample_snapshot (ev_event_id e))" by (rule sample_snapshot_tables)
  let ?sn = "sample_snapshot (ev_event_id e)"
  have "sn_order_id ?sn = ''o1''" "source_event_sequence ?sn = 1" by (simp_all add: sample_snapshot_def)
  then have "load_latest_snapshot d ''o1'' = Inr (Some ?sn)" "assisted_state [e] ?sn = hydrate_snapshot_state ?sn"
    by (simp_all add: load_latest_snapshot_def d(3) assisted_state_def sample_snapshot_defs)
  with snapshot_validation_verdict [OF d(1), of 1 "''o1''"] d(2,4) show ?thesis
    by (auto simp: sample_snapshot_defs OrderState_eq_def dec_scaled_def)
qed

text \<open>
  What the validator qualifies, the resolver may use. If the validator answers MATCH for an
  order whose latest snapshot has the supported schema and reducer, then resolving that snapshot on
  the same tables, with any page size, succeeds with a state equal to the state that the whole
  accepted history yields.
\<close>

theorem matched_snapshot_resolves:
  assumes "read_ok d" and "snapshots_ok d" and "0 < limit" and "0 < limit'"
    and "load_latest_snapshot d oid = Inr (Some sn)"
    and "snapshot_observation_validate limit True d oid = Some (Inr v)" and "sv_status v = SV_MATCH"
    and "snapshot_schema_version sn = SUPPORTED_SNAPSHOT_SCHEMA_VERSION" and "reducer_version sn = SUPPORTED_REDUCER_VERSION"
  shows "\<exists>r st a. snapshot_observation_resolve limit' True d oid (Some (snapshot_id sn)) = Some (Inr r)
    \<and> is_resolved r \<and> sr_resolved_state r = Some st \<and> project oid (accepted d oid) = Inr a \<and> OrderState_eq st a"
proof -
  from pg_readers.validate_order_total [OF assms(1,3,5)] assms(6,7) assms(3) obtain a st where
    ne: "order_records d oid \<noteq> []" and b: "validate_snapshot_boundary sn oid (int (length (order_records d oid))) = None"
    and a: "project oid (accepted d oid) = Inr a" "assisted_state (accepted d oid) sn = Inr st" "OrderState_eq st a"
    by (auto simp: snapshot_observation_validate_def snapshot_validator_init_def require_idle_connection_def)
  have blank: "\<not> py_blank oid" by (rule pg_readers.authority [OF assms(1) ne])
  have "sn \<in> set (rd_snapshots d)" by (rule load_latest_snapshot_in [OF assms(5)])
  with assms(2) have "load_snapshot d (snapshot_id sn) = Inr (Some sn)"
    unfolding load_snapshot_def snapshots_ok_def by (simp add: find_key_unique)
  moreover have "validate_snapshot_compatibility sn oid = None"
    using b assms(8,9) by (auto simp: validate_snapshot_boundary_def validate_snapshot_compatibility_def split: if_splits)
  ultimately show ?thesis using pg_readers.resolve_order_verdict [OF assms(1) blank assms(4)] a assms(4)
    by (fastforce simp: snapshot_observation_resolve_def snapshot_resolver_init_def require_idle_connection_def is_resolved_def)
qed

theorem matched_snapshot_resolves_witness:
  "\<exists>d r st. snapshot_observation_resolve 7 True d ''o1'' (Some sample_uuid) = Some (Inr r) \<and> is_resolved r
     \<and> sr_resolved_state r = Some st"
proof -
  obtain d e where d: "read_ok d" "accepted d ''o1'' = [e]" "rd_snapshots d = [sample_snapshot (ev_event_id e)]"
    "project ''o1'' [e] = hydrate_snapshot_state (sample_snapshot (ev_event_id e))"
    "uuid_in (ev_event_id e) = Some (ev_event_id e)" by (rule sample_snapshot_tables)
  let ?sn = "sample_snapshot (ev_event_id e)"
  have f: "sn_order_id ?sn = ''o1''" "source_event_sequence ?sn = 1" "snapshot_id ?sn = sample_uuid"
    "snapshot_schema_version ?sn = SUPPORTED_SNAPSHOT_SCHEMA_VERSION" "reducer_version ?sn = SUPPORTED_REDUCER_VERSION"
    by (simp_all add: sample_snapshot_def SUPPORTED_SNAPSHOT_SCHEMA_VERSION_def SUPPORTED_REDUCER_VERSION_def)
  then have l: "load_latest_snapshot d ''o1'' = Inr (Some ?sn)" and s: "assisted_state [e] ?sn = hydrate_snapshot_state ?sn"
    by (simp_all add: load_latest_snapshot_def d(3) assisted_state_def sample_snapshot_defs)
  have "snapshots_ok d" by (simp add: snapshots_ok_def d(3) sample_snapshot_row [OF d(5)])
  moreover obtain v where "snapshot_observation_validate 1 True d ''o1'' = Some (Inr v)" "sv_status v = SV_MATCH"
    using pg_readers.validate_order_total [OF d(1) _ l, of 1] d(2,4) s
    by (auto simp: snapshot_observation_validate_def snapshot_validator_init_def require_idle_connection_def
        sample_snapshot_defs OrderState_eq_def dec_scaled_def)
  ultimately show ?thesis using matched_snapshot_resolves [OF d(1) _ _ _ l _ _ f(4,5), of 1 7 v] f(3) by auto
qed

text \<open>
  C6: Snapshot-assisted reading equals full replay. Take a compatible snapshot that holds the projection of the
  first events of an order, up to its source sequence, and save it; let any accepted events be
  committed afterwards. Resolving by its identity then returns exactly the projection of the whole
  accepted history of the order at that later time.
\<close>

theorem resolution_equals_replay:
  assumes "read_ok d" and "int n = source_event_sequence sn" and "n \<le> length (accepted d oid)"
    and "hydrate_snapshot_state sn = project oid (take n (accepted d oid))"
    and "validate_snapshot_compatibility sn oid = None"
    and "uuid_in (snapshot_id sn) = Some (snapshot_id sn)" and "uuid_in (source_event_id sn) = Some (source_event_id sn)"
    and "save_snapshot d sn = Inr d'" and "d' \<noteq> d" and "read_ok (arrive late d')" and "0 < limit"
  shows "\<exists>r st. snapshot_observation_resolve limit True (arrive late d') oid (Some (snapshot_id sn)) = Some (Inr r)
    \<and> is_resolved r \<and> sr_resolved_state r = Some st \<and> project oid (accepted (arrive late d') oid) = Inr st"
proof (cases rule: save_snapshot_cases [OF assms(7,8), case_names stored known])
  case (stored row)
  let ?d = "arrive late d'"
  note row = snapshot_row_fields [OF stored(1) assms(7)]
  have ev: "rd_events d' = rd_events d" by (simp add: stored(3))
  have n: "n \<le> length (order_rows d' oid)" using assms(3) by (simp add: order_records_def same_events [OF ev])
  have ok': "read_ok d'" using assms(1) by (simp add: same_events [OF ev])
  have "0 < n" using assms(2,5) by (auto simp: validate_snapshot_compatibility_def split: if_splits)
  then have ne: "order_records ?d oid \<noteq> []" and n': "n \<le> length (order_records ?d oid)"
    using n arrive_rows(2) [OF ok' assms(10), of oid] by (auto simp: order_records_def)
  have tk: "take n (accepted ?d oid) = take n (accepted d oid)"
    using arrive_accepted [OF ok' assms(10) n] by (simp add: same_events [OF ev])
  obtain st0 where st0: "hydrate_snapshot_state sn = Inr st0"
    using assms(5) by (auto simp: validate_snapshot_compatibility_def hydrate_snapshot_state_def OrderStatus_of_def split: if_splits)
  have "amounts_fit st0" by (rule projection_amounts_fit [OF assms(1)]) (use assms(4) st0 in simp)
  then have same: "hydrate_snapshot_state row = Inr st0" "validate_snapshot_compatibility row oid = None"
    "source_event_sequence row = int n"
    using row st0 assms(2,5) by (auto simp: same_snapshot_evidence_def same_source_boundary_def hydrate_snapshot_state_def
        amounts_fit_def validate_snapshot_compatibility_def split: sum.splits if_splits)
  have ld: "load_snapshot ?d (snapshot_id sn) = Inr (Some row)"
    using stored(4) row(6) assms(6)
    by (auto simp: load_snapshot_def arrive_def stored(3) list_ex_iff intro!: find_last)
  obtain a where a: "project oid (accepted ?d oid) = Inr a" and blank: "\<not> py_blank oid"
    by (rule pg_readers.authority [OF assms(10) ne])
  have "assisted_state (accepted ?d oid) row = project oid (accepted ?d oid)"
    by (rule pg_readers.faithful_snapshot_resolves [OF assms(10) ne _ same(1)])
       (use n' same(3) tk assms(4) st0 in \<open>simp_all add: take_map\<close>)
  with pg_readers.resolve_order_verdict [OF assms(10) blank assms(11) ld same(2)] a assms(11) show ?thesis
    by (auto simp: snapshot_observation_resolve_def snapshot_resolver_init_def require_idle_connection_def is_resolved_def)
next
  case known
  with assms(9) show ?thesis by simp
qed

theorem resolution_equals_replay_witness:
  "\<exists>d d' r st. save_snapshot d (sample_snapshot sample_uuid) = Inr d'
     \<and> snapshot_observation_resolve 1000 True d' ''o1'' (Some sample_uuid) = Some (Inr r) \<and> sr_resolved_state r = Some st"
proof -
  obtain d e where d: "worker_reach d" "rd_snapshots d = []" "accepted d ''o1'' = [e]"
    "project ''o1'' [e] = Inr \<lparr>st_order_id = ''o1'', st_status = CREATED, st_total_amount = Dec False 1000 (- 2),
           st_paid_amount = Dec False 0 (- 2), st_version = 1\<rparr>" by (rule sample_tables)
  let ?sn = "sample_snapshot sample_uuid"
  note saved = sample_snapshot_saved [OF sample_uuid_in d(2)]
  let ?d' = "d\<lparr>rd_snapshots := [?sn]\<rparr>"
  have ne: "?d' \<noteq> d" using d(2) by (metis list.distinct(1) read_db.select_convs(5) read_db.surjective read_db.update_convs(5))
  have f: "snapshot_id ?sn = sample_uuid" "source_event_id ?sn = sample_uuid" "source_event_sequence ?sn = 1"
    by (simp_all add: sample_snapshot_def)
  from worker_reach_in_step [OF d(1)] have ok: "read_ok d" by (simp add: in_step_def)
  have "arrive [] ?d' = ?d'" by (simp add: arrive_def)
  moreover have "read_ok ?d'" using ok by (simp add: same_events [of ?d' d])
  ultimately show ?thesis
    using resolution_equals_replay [OF ok _ _ _ sample_snapshot_defs(1) _ _ saved ne, of 1 "[]" 1000] saved d(3,4)
    by (auto simp: f sample_uuid_in sample_snapshot_defs)
qed

text \<open>
  A saved checkpoint is what the worker reads back, and the checkpoints of the other workers are
  untouched.
\<close>

theorem checkpoint_roundtrip:
  assumes "save_checkpoint d c = Inr d'"
  shows "load_checkpoint d' (cp_worker_name c) = Inr (Some c)
    \<and> (\<forall>w. w \<noteq> cp_worker_name c \<longrightarrow> load_checkpoint d' w = load_checkpoint d w)"
proof -
  have "CheckpointCursorKind_of (CheckpointCursorKind_value k) = Inr k" for k
    by (cases k) (simp_all add: CheckpointCursorKind_of_def)
  with assms show ?thesis
    by (cases c) (auto simp: save_checkpoint_def load_checkpoint_def res_simps text_in_def split: if_splits)
qed

theorem checkpoint_roundtrip_witness:
  "\<exists>d'. save_checkpoint (numbered empty_db) \<lparr>cp_worker_name = ''w'', cursor_kind = CK_GLOBAL_POSITION, cursor_value = ''7''\<rparr> = Inr d'
     \<and> load_checkpoint d' ''w'' = Inr (Some \<lparr>cp_worker_name = ''w'', cursor_kind = CK_GLOBAL_POSITION, cursor_value = ''7''\<rparr>)"
proof -
  let ?c = "\<lparr>cp_worker_name = ''w'', cursor_kind = CK_GLOBAL_POSITION, cursor_value = ''7''\<rparr>"
  obtain d' where d': "save_checkpoint (numbered empty_db) ?c = Inr d'"
    by (simp add: save_checkpoint_def text_in_def sql_not_blank_def is_digit_def)
  from checkpoint_roundtrip [OF d'] d' show ?thesis by simp
qed

end
