(* ===== verification/Semantic_Outcome.thy ===== *)
theory Semantic_Outcome
  imports Postgres_Snapshot Postgres_Write_Side
begin

text \<open>
  From technical results to semantic meaning: \<open>semantic_outcome.py\<close>,
  \<open>technical_status_mapping.py\<close>, \<open>write_side_outcome_mapping.py\<close> and
  \<open>read_side_outcome_mapping.py\<close> of \<open>src/compass/runtime\<close>. Context and evidence are dictionaries
  in insertion order; an argument that may be absent is the empty dictionary then. Checks of the
  type of an argument are discharged by the types of the model. The identity of an outcome is an
  argument.
\<close>

section \<open>SemanticOutcome\<close>

datatype SemanticOutcomeCategory =
    CAT_VALID
  | CAT_UNRESOLVED
  | CAT_UNTRUSTED
  | CAT_DRIFT
  | CAT_FALLBACK_REQUIRED
  | CAT_REBUILD_REQUIRED
  | CAT_BLOCK_REQUIRED
  | CAT_ESCALATION_REQUIRED
  | CAT_CONCURRENCY_UNCERTAIN
  | CAT_RETRY_CLASSIFIED
  | CAT_INTENT_INCONSISTENT

fun SemanticOutcomeCategory_value :: "SemanticOutcomeCategory \<Rightarrow> string" where
  "SemanticOutcomeCategory_value CAT_VALID = ''VALID''"
| "SemanticOutcomeCategory_value CAT_UNRESOLVED = ''UNRESOLVED''"
| "SemanticOutcomeCategory_value CAT_UNTRUSTED = ''UNTRUSTED''"
| "SemanticOutcomeCategory_value CAT_DRIFT = ''DRIFT''"
| "SemanticOutcomeCategory_value CAT_FALLBACK_REQUIRED = ''FALLBACK_REQUIRED''"
| "SemanticOutcomeCategory_value CAT_REBUILD_REQUIRED = ''REBUILD_REQUIRED''"
| "SemanticOutcomeCategory_value CAT_BLOCK_REQUIRED = ''BLOCK_REQUIRED''"
| "SemanticOutcomeCategory_value CAT_ESCALATION_REQUIRED = ''ESCALATION_REQUIRED''"
| "SemanticOutcomeCategory_value CAT_CONCURRENCY_UNCERTAIN = ''CONCURRENCY_UNCERTAIN''"
| "SemanticOutcomeCategory_value CAT_RETRY_CLASSIFIED = ''RETRY_CLASSIFIED''"
| "SemanticOutcomeCategory_value CAT_INTENT_INCONSISTENT = ''INTENT_INCONSISTENT''"

datatype SemanticOutcomeCode =
    CODE_SEMANTICALLY_VALID
  | CODE_RUNTIME_UNRESOLVED
  | CODE_DERIVED_STATE_UNTRUSTED
  | CODE_DRIFT_DETECTED
  | CODE_FAST_PATH_UNAVAILABLE
  | CODE_REQUIRES_AUTHORITY_FALLBACK
  | CODE_REQUIRES_REBUILD
  | CODE_REQUIRES_OPERATOR_REVIEW
  | CODE_REJECT_DOWNSTREAM_USAGE
  | CODE_CONCURRENCY_UNCERTAIN
  | CODE_IDEMPOTENT_REPLAY_ALLOWED
  | CODE_SEMANTIC_CONFLICT_DETECTED
  | CODE_INTENT_DRIFT_DETECTED

fun SemanticOutcomeCode_value :: "SemanticOutcomeCode \<Rightarrow> string" where
  "SemanticOutcomeCode_value CODE_SEMANTICALLY_VALID = ''SEMANTICALLY_VALID''"
| "SemanticOutcomeCode_value CODE_RUNTIME_UNRESOLVED = ''RUNTIME_UNRESOLVED''"
| "SemanticOutcomeCode_value CODE_DERIVED_STATE_UNTRUSTED = ''DERIVED_STATE_UNTRUSTED''"
| "SemanticOutcomeCode_value CODE_DRIFT_DETECTED = ''DRIFT_DETECTED''"
| "SemanticOutcomeCode_value CODE_FAST_PATH_UNAVAILABLE = ''FAST_PATH_UNAVAILABLE''"
| "SemanticOutcomeCode_value CODE_REQUIRES_AUTHORITY_FALLBACK = ''REQUIRES_AUTHORITY_FALLBACK''"
| "SemanticOutcomeCode_value CODE_REQUIRES_REBUILD = ''REQUIRES_REBUILD''"
| "SemanticOutcomeCode_value CODE_REQUIRES_OPERATOR_REVIEW = ''REQUIRES_OPERATOR_REVIEW''"
| "SemanticOutcomeCode_value CODE_REJECT_DOWNSTREAM_USAGE = ''REJECT_DOWNSTREAM_USAGE''"
| "SemanticOutcomeCode_value CODE_CONCURRENCY_UNCERTAIN = ''CONCURRENCY_UNCERTAIN''"
| "SemanticOutcomeCode_value CODE_IDEMPOTENT_REPLAY_ALLOWED = ''IDEMPOTENT_REPLAY_ALLOWED''"
| "SemanticOutcomeCode_value CODE_SEMANTIC_CONFLICT_DETECTED = ''SEMANTIC_CONFLICT_DETECTED''"
| "SemanticOutcomeCode_value CODE_INTENT_DRIFT_DETECTED = ''INTENT_DRIFT_DETECTED''"

datatype SemanticBoundary =
    AT_LAYER_1_WRITE_SIDE
  | AT_LAYER_2_READ_SIDE
  | AT_SNAPSHOT_TRUST
  | AT_IDEMPOTENCY
  | AT_CONCURRENCY_ADMISSION
  | AT_RUNTIME_GOVERNANCE

fun SemanticBoundary_value :: "SemanticBoundary \<Rightarrow> string" where
  "SemanticBoundary_value AT_LAYER_1_WRITE_SIDE = ''LAYER_1_WRITE_SIDE''"
| "SemanticBoundary_value AT_LAYER_2_READ_SIDE = ''LAYER_2_READ_SIDE''"
| "SemanticBoundary_value AT_SNAPSHOT_TRUST = ''SNAPSHOT_TRUST''"
| "SemanticBoundary_value AT_IDEMPOTENCY = ''IDEMPOTENCY''"
| "SemanticBoundary_value AT_CONCURRENCY_ADMISSION = ''CONCURRENCY_ADMISSION''"
| "SemanticBoundary_value AT_RUNTIME_GOVERNANCE = ''RUNTIME_GOVERNANCE''"

datatype SemanticSeverity =
    SEV_INFO
  | SEV_WARNING
  | SEV_ERROR
  | SEV_CRITICAL

fun SemanticSeverity_value :: "SemanticSeverity \<Rightarrow> string" where
  "SemanticSeverity_value SEV_INFO = ''INFO''"
| "SemanticSeverity_value SEV_WARNING = ''WARNING''"
| "SemanticSeverity_value SEV_ERROR = ''ERROR''"
| "SemanticSeverity_value SEV_CRITICAL = ''CRITICAL''"

datatype SemanticRiskLevel =
    RISK_LOW
  | RISK_MEDIUM
  | RISK_HIGH
  | RISK_CRITICAL
  | RISK_UNKNOWN

fun SemanticRiskLevel_value :: "SemanticRiskLevel \<Rightarrow> string" where
  "SemanticRiskLevel_value RISK_LOW = ''LOW''"
| "SemanticRiskLevel_value RISK_MEDIUM = ''MEDIUM''"
| "SemanticRiskLevel_value RISK_HIGH = ''HIGH''"
| "SemanticRiskLevel_value RISK_CRITICAL = ''CRITICAL''"
| "SemanticRiskLevel_value RISK_UNKNOWN = ''UNKNOWN''"

datatype SemanticReversibility =
    REV_REVERSIBLE
  | REV_REBUILDABLE
  | REV_COMPENSABLE
  | REV_IRREVERSIBLE
  | REV_UNKNOWN

fun SemanticReversibility_value :: "SemanticReversibility \<Rightarrow> string" where
  "SemanticReversibility_value REV_REVERSIBLE = ''REVERSIBLE''"
| "SemanticReversibility_value REV_REBUILDABLE = ''REBUILDABLE''"
| "SemanticReversibility_value REV_COMPENSABLE = ''COMPENSABLE''"
| "SemanticReversibility_value REV_IRREVERSIBLE = ''IRREVERSIBLE''"
| "SemanticReversibility_value REV_UNKNOWN = ''UNKNOWN''"

record SemanticOutcome =
  outcome_id :: string
  so_ok :: bool
  so_boundary :: SemanticBoundary
  so_category :: SemanticOutcomeCategory
  so_code :: SemanticOutcomeCode
  so_severity :: SemanticSeverity
  so_risk_level :: SemanticRiskLevel
  so_reversibility :: SemanticReversibility
  so_reason :: string
  so_context :: py_dict
  so_evidence :: py_dict

text \<open>Deep freezing: lists become tuples and sets become frozen sets, in every container.\<close>

fun freeze_value :: "pyval \<Rightarrow> pyval" and freeze_items :: "pyval list \<Rightarrow> pyval list"
  and freeze_pairs :: "(pyval \<times> pyval) list \<Rightarrow> (pyval \<times> pyval) list" where
  "freeze_value (VDict kvs) = VDict (freeze_pairs kvs)"
| "freeze_value (VList xs) = VTuple (freeze_items xs)"
| "freeze_value (VTuple xs) = VTuple (freeze_items xs)"
| "freeze_value (VSet xs) = VFrozenset (freeze_items xs)"
| "freeze_value (VFrozenset xs) = VFrozenset (freeze_items xs)"
| "freeze_value v = v"
| "freeze_items [] = []"
| "freeze_items (x # xs) = freeze_value x # freeze_items xs"
| "freeze_pairs [] = []"
| "freeze_pairs ((k, v) # kvs) = (k, freeze_value v) # freeze_pairs kvs"

definition freeze_mapping :: "py_dict \<Rightarrow> py_dict" where
  "freeze_mapping m = map (\<lambda>(k, v). (k, freeze_value v)) m"

definition SemanticOutcome_init :: "SemanticOutcome \<Rightarrow> SemanticOutcome res" where
  "SemanticOutcome_init self =
     (if py_blank (so_reason self) then Inl (ValueError ''reason must be a non-empty string'')
      else Inr (self\<lparr>so_context := freeze_mapping (so_context self), so_evidence := freeze_mapping (so_evidence self)\<rparr>))"

section \<open>Technical statuses\<close>

record RuntimeTechnicalStatusMapping =
  tm_ok :: bool
  tm_category :: SemanticOutcomeCategory
  tm_code :: SemanticOutcomeCode
  tm_severity :: SemanticSeverity
  tm_risk_level :: SemanticRiskLevel
  tm_reversibility :: SemanticReversibility

abbreviation status_mapping where
  "status_mapping b c d s r v \<equiv> \<lparr>tm_ok = b, tm_category = c, tm_code = d, tm_severity = s, tm_risk_level = r,
     tm_reversibility = v\<rparr>"

definition STATUS_MAPPINGS :: "(string \<times> RuntimeTechnicalStatusMapping) list" where
  "STATUS_MAPPINGS =
     [(''MATCH'', status_mapping True CAT_VALID CODE_SEMANTICALLY_VALID SEV_INFO RISK_LOW REV_REVERSIBLE),
      (''RESOLVED_FROM_SNAPSHOT'', status_mapping True CAT_VALID CODE_SEMANTICALLY_VALID SEV_INFO RISK_LOW REV_REVERSIBLE),
      (''MISSING_SNAPSHOT'', status_mapping False CAT_FALLBACK_REQUIRED CODE_FAST_PATH_UNAVAILABLE SEV_WARNING RISK_MEDIUM REV_REVERSIBLE),
      (''MISSING_PROJECTION'', status_mapping False CAT_REBUILD_REQUIRED CODE_REQUIRES_REBUILD SEV_WARNING RISK_MEDIUM REV_REBUILDABLE),
      (''NO_ACCEPTED_HISTORY'', status_mapping False CAT_UNRESOLVED CODE_RUNTIME_UNRESOLVED SEV_WARNING RISK_UNKNOWN REV_UNKNOWN),
      (''NO_ACCEPTED_HISTORY_FOR_ORDER'', status_mapping False CAT_UNRESOLVED CODE_RUNTIME_UNRESOLVED SEV_WARNING RISK_UNKNOWN REV_UNKNOWN),
      (''INVALID_SNAPSHOT_BOUNDARY'', status_mapping False CAT_UNTRUSTED CODE_DERIVED_STATE_UNTRUSTED SEV_ERROR RISK_HIGH REV_REBUILDABLE),
      (''INVALID_SNAPSHOT_PRECONDITION'', status_mapping False CAT_UNTRUSTED CODE_DERIVED_STATE_UNTRUSTED SEV_ERROR RISK_HIGH REV_REBUILDABLE),
      (''INVALID_SNAPSHOT_COMPATIBILITY'', status_mapping False CAT_UNTRUSTED CODE_DERIVED_STATE_UNTRUSTED SEV_ERROR RISK_HIGH REV_REBUILDABLE),
      (''TAIL_EVENT_SOURCE_CONTRACT_VIOLATION'', status_mapping False CAT_UNRESOLVED CODE_RUNTIME_UNRESOLVED SEV_ERROR RISK_HIGH REV_UNKNOWN),
      (''TAIL_REPLAY_FAILED'', status_mapping False CAT_FALLBACK_REQUIRED CODE_FAST_PATH_UNAVAILABLE SEV_WARNING RISK_MEDIUM REV_REVERSIBLE),
      (''DRIFT'', status_mapping False CAT_DRIFT CODE_DRIFT_DETECTED SEV_ERROR RISK_HIGH REV_REBUILDABLE),
      (''SNAPSHOT_ASSISTED_DRIFT'', status_mapping False CAT_DRIFT CODE_DRIFT_DETECTED SEV_ERROR RISK_HIGH REV_REBUILDABLE),
      (''WRITE_SIDE_ACCEPTED'', status_mapping True CAT_VALID CODE_SEMANTICALLY_VALID SEV_INFO RISK_LOW REV_REVERSIBLE),
      (''COMPASS_VALIDATION_BLOCKED'', status_mapping False CAT_BLOCK_REQUIRED CODE_SEMANTIC_CONFLICT_DETECTED SEV_ERROR RISK_HIGH REV_UNKNOWN),
      (''CONCURRENT_STATE_STALENESS'', status_mapping False CAT_CONCURRENCY_UNCERTAIN CODE_CONCURRENCY_UNCERTAIN SEV_WARNING RISK_MEDIUM REV_REVERSIBLE),
      (''WRITE_SIDE_INFRASTRUCTURE_ERROR'', status_mapping False CAT_ESCALATION_REQUIRED CODE_REQUIRES_OPERATOR_REVIEW SEV_ERROR RISK_HIGH REV_UNKNOWN),
      (''OCC_CONFLICT_AFTER_VALIDATION'', status_mapping False CAT_CONCURRENCY_UNCERTAIN CODE_CONCURRENCY_UNCERTAIN SEV_WARNING RISK_MEDIUM REV_REVERSIBLE),
      (''LOCK_TIMEOUT'', status_mapping False CAT_CONCURRENCY_UNCERTAIN CODE_CONCURRENCY_UNCERTAIN SEV_WARNING RISK_MEDIUM REV_REVERSIBLE),
      (''IDEMPOTENT_REPLAY'', status_mapping True CAT_RETRY_CLASSIFIED CODE_IDEMPOTENT_REPLAY_ALLOWED SEV_INFO RISK_LOW REV_REVERSIBLE),
      (''IDEMPOTENCY_CONFLICT'', status_mapping False CAT_BLOCK_REQUIRED CODE_SEMANTIC_CONFLICT_DETECTED SEV_ERROR RISK_HIGH REV_UNKNOWN)]"

definition supported_runtime_technical_statuses :: "string set" where
  "supported_runtime_technical_statuses = fst ` set STATUS_MAPPINGS"

definition mapping_for_status :: "string \<Rightarrow> RuntimeTechnicalStatusMapping res" where
  "mapping_for_status s =
     (case map_of STATUS_MAPPINGS s of
        None \<Rightarrow> Inl (ValueError (''Unsupported runtime technical status: '' @ s)) | Some m \<Rightarrow> Inr m)"

text \<open>The value of an enumeration member, or the string itself.\<close>

definition normalize_technical_status :: "string \<Rightarrow> string res" where
  "normalize_technical_status s =
     (if py_blank s then Inl (ValueError ''technical_status must be a non-empty string'') else Inr s)"

definition merge_technical_status_into_evidence :: "string \<Rightarrow> py_dict \<Rightarrow> py_dict res" where
  "merge_technical_status_into_evidence technical_status evidence =
     (case map_of evidence ''technical_status'' of
        None \<Rightarrow> Inr (AList.update ''technical_status'' (VStr technical_status) evidence)
      | Some existing \<Rightarrow>
          if existing \<noteq> VNone \<and> existing \<noteq> VStr technical_status
          then Inl (ValueError ''evidence technical_status must match mapped technical_status'')
          else Inr (AList.update ''technical_status'' (VStr technical_status) evidence))"

definition map_runtime_technical_status ::
  "string \<Rightarrow> string \<Rightarrow> SemanticBoundary \<Rightarrow> string \<Rightarrow> py_dict \<Rightarrow> py_dict \<Rightarrow> SemanticOutcome res" where
  "map_runtime_technical_status oid technical_status boundary reason context evidence =
     bind_res (normalize_technical_status technical_status) (\<lambda>normalized_status.
     bind_res (mapping_for_status normalized_status) (\<lambda>mapping.
     bind_res (merge_technical_status_into_evidence normalized_status evidence) (\<lambda>merged_evidence.
       SemanticOutcome_init \<lparr>outcome_id = oid, so_ok = tm_ok mapping, so_boundary = boundary,
         so_category = tm_category mapping, so_code = tm_code mapping, so_severity = tm_severity mapping,
         so_risk_level = tm_risk_level mapping, so_reversibility = tm_reversibility mapping,
         so_reason = reason, so_context = context, so_evidence = merged_evidence\<rparr>)))"

section \<open>Write-side results\<close>

fun PostgresWriteSideOutcome_value :: "PostgresWriteSideOutcome \<Rightarrow> string" where
  "PostgresWriteSideOutcome_value OUT_ACCEPTED = ''ACCEPTED''"
| "PostgresWriteSideOutcome_value OUT_REPLAY = ''REPLAY''"
| "PostgresWriteSideOutcome_value OUT_CONFLICT = ''CONFLICT''"
| "PostgresWriteSideOutcome_value OUT_VALIDATION_BLOCKED = ''VALIDATION_BLOCKED''"
| "PostgresWriteSideOutcome_value OUT_ADMISSION_REJECTED = ''ADMISSION_REJECTED''"

fun AdmissionVerdict_value :: "AdmissionVerdict \<Rightarrow> string" where
  "AdmissionVerdict_value ADMITTED = ''ADMITTED''"
| "AdmissionVerdict_value STALE_WRITE = ''STALE_WRITE''"
| "AdmissionVerdict_value LOCK_TIMEOUT = ''LOCK_TIMEOUT''"
| "AdmissionVerdict_value INFRASTRUCTURE_ERROR = ''INFRASTRUCTURE_ERROR''"

fun IdempotencyVerdict_value :: "IdempotencyVerdict \<Rightarrow> string" where
  "IdempotencyVerdict_value MISS = ''miss''"
| "IdempotencyVerdict_value REPLAY = ''replay''"
| "IdempotencyVerdict_value CONFLICT = ''conflict''"

fun EnforcementAction_value :: "EnforcementAction \<Rightarrow> string" where
  "EnforcementAction_value ALLOW = ''allow''"
| "EnforcementAction_value BLOCK = ''block''"

fun ValidationVerdict_value :: "ValidationVerdict \<Rightarrow> string" where
  "ValidationVerdict_value PASSED = ''passed''"
| "ValidationVerdict_value FAILED = ''failed''"
| "ValidationVerdict_value SKIPPED = ''skipped''"

fun ValidationMode_value :: "ValidationMode \<Rightarrow> string" where
  "ValidationMode_value STRICT = ''strict''"
| "ValidationMode_value OFF = ''off''"

definition PROTECTED_CONTEXT_KEYS :: "string list" where
  "PROTECTED_CONTEXT_KEYS =
     [''write_side_outcome'', ''order_id'', ''request_id'', ''candidate_event_id'', ''accepted_event_id'']"

definition require_reason :: "string option \<Rightarrow> string \<Rightarrow> string" where
  "require_reason reason source =
     (case reason of
        None \<Rightarrow> ''Missing explicit reason from '' @ source @ ''.''
      | Some r \<Rightarrow> if py_blank r then ''Missing explicit reason from '' @ source @ ''.'' else r)"

fun merge_context :: "py_dict \<Rightarrow> py_dict \<Rightarrow> py_dict res" where
  "merge_context merged [] = Inr merged"
| "merge_context merged ((key, v) # overrides) =
     (case map_of merged key of
        None \<Rightarrow> merge_context (AList.update key v merged) overrides
      | Some old \<Rightarrow>
          if key \<in> set PROTECTED_CONTEXT_KEYS \<and> old \<noteq> VNone \<and> v \<noteq> old
          then Inl (ValueError (''context '' @ key @ '' must not contradict mapped write-side context''))
          else merge_context (AList.update key v merged) overrides)"

definition map_write_side_admission_status_to_semantic_outcome ::
  "string \<Rightarrow> string \<Rightarrow> string \<Rightarrow> py_dict \<Rightarrow> py_dict \<Rightarrow> SemanticOutcome res" where
  "map_write_side_admission_status_to_semantic_outcome oid technical_status reason context evidence =
     map_runtime_technical_status oid technical_status AT_LAYER_1_WRITE_SIDE
       (require_reason (Some reason) ''write-side admission status'') context evidence"

text \<open>The verdict and reason of the append-time result, or else of the stream result.\<close>

definition admission_rejection_source :: "PostgresWriteSideResult \<Rightarrow> (AdmissionVerdict \<times> string) res" where
  "admission_rejection_source result =
     (case wr_admission_result result of
        Some a \<Rightarrow>
          if ad_verdict a = ADMITTED
          then Inl (ValueError ''ADMISSION_REJECTED result cannot use admitted append-time admission result'')
          else Inr (ad_verdict a, ad_reason a)
      | None \<Rightarrow>
          (case wr_stream_admission_result result of
             Some s \<Rightarrow>
               if sa_verdict s = ADMITTED
               then Inl (ValueError ''ADMISSION_REJECTED result cannot use admitted stream admission result'')
               else Inr (sa_verdict s, sa_reason s)
           | None \<Rightarrow> Inl (ValueError ''ADMISSION_REJECTED write-side result requires stream_admission_result or admission_result'')))"

fun technical_status_for_admission_verdict :: "AdmissionVerdict \<Rightarrow> string res" where
  "technical_status_for_admission_verdict STALE_WRITE = Inr ''CONCURRENT_STATE_STALENESS''"
| "technical_status_for_admission_verdict LOCK_TIMEOUT = Inr ''LOCK_TIMEOUT''"
| "technical_status_for_admission_verdict INFRASTRUCTURE_ERROR = Inr ''WRITE_SIDE_INFRASTRUCTURE_ERROR''"
| "technical_status_for_admission_verdict ADMITTED =
     Inl (ValueError ''ADMISSION_REJECTED result cannot be mapped from admitted verdict'')"

definition technical_status_for_result :: "PostgresWriteSideResult \<Rightarrow> string res" where
  "technical_status_for_result result =
     (case wr_outcome result of
        OUT_ACCEPTED \<Rightarrow> Inr ''WRITE_SIDE_ACCEPTED''
      | OUT_REPLAY \<Rightarrow> Inr ''IDEMPOTENT_REPLAY''
      | OUT_CONFLICT \<Rightarrow> Inr ''IDEMPOTENCY_CONFLICT''
      | OUT_VALIDATION_BLOCKED \<Rightarrow> Inr ''COMPASS_VALIDATION_BLOCKED''
      | OUT_ADMISSION_REJECTED \<Rightarrow>
          bind_res (admission_rejection_source result) (\<lambda>source. technical_status_for_admission_verdict (fst source)))"

definition reason_for_result :: "PostgresWriteSideResult \<Rightarrow> string \<Rightarrow> string res" where
  "reason_for_result result technical_status =
     (case wr_outcome result of
        OUT_ACCEPTED \<Rightarrow> Inr ''Write-side candidate event was admitted into accepted history.''
      | OUT_REPLAY \<Rightarrow> Inr (require_reason (Some (id_reason (wr_idempotency_decision result))) ''REPLAY idempotency decision'')
      | OUT_CONFLICT \<Rightarrow> Inr (require_reason (Some (id_reason (wr_idempotency_decision result))) ''CONFLICT idempotency decision'')
      | OUT_VALIDATION_BLOCKED \<Rightarrow>
          (case wr_validation_decision result of
             None \<Rightarrow> Inl (AttributeError ''validation_decision'')
           | Some d \<Rightarrow> Inr (require_reason (Some (vr_reason (vd_validation_result d))) ''ValidationDecision''))
      | OUT_ADMISSION_REJECTED \<Rightarrow>
          bind_res (admission_rejection_source result) (\<lambda>source.
            Inr (require_reason (Some (snd source)) (technical_status @ '' admission result''))))"

definition accepted_event_from_result :: "PostgresWriteSideResult \<Rightarrow> OrderEvent option" where
  "accepted_event_from_result result =
     (case wr_accepted_event result of
        Some e \<Rightarrow> Some e
      | None \<Rightarrow> map_option rec_accepted_event (id_record (wr_idempotency_decision result)))"

definition validate_result_shape :: "PostgresWriteSideResult \<Rightarrow> unit res" where
  "validate_result_shape result =
     (if wr_outcome result = OUT_ACCEPTED \<and> wr_accepted_event result = None
      then Inl (ValueError ''ACCEPTED write-side result requires accepted_event'')
      else if wr_outcome result = OUT_REPLAY \<and> accepted_event_from_result result = None
      then Inl (ValueError ''REPLAY write-side result requires prior accepted_event from idempotency record'')
      else if wr_outcome result = OUT_VALIDATION_BLOCKED \<and> wr_validation_decision result = None
      then Inl (ValueError ''VALIDATION_BLOCKED write-side result requires validation_decision'')
      else if (case wr_admission_result result of None \<Rightarrow> False
               | Some a \<Rightarrow> ad_verdict a \<noteq> ADMITTED \<and> ad_accepted_event_id a \<noteq> None)
      then Inl (ValueError ''rejected append-time admission result must not carry accepted_event_id'')
      else if wr_outcome result = OUT_ADMISSION_REJECTED
      then bind_res (admission_rejection_source result) (\<lambda>_. Inr ())
      else Inr ())"

definition first_some :: "'a option list \<Rightarrow> 'a option" where
  "first_some xs = (case List.map_filter id xs of [] \<Rightarrow> None | x # _ \<Rightarrow> Some x)"

text \<open>The identities that a result carries must agree; the first one present is used.\<close>

definition agreed_identity :: "string \<Rightarrow> string option list \<Rightarrow> string option res" where
  "agreed_identity name xs =
     (if card (set (List.map_filter id xs)) > 1
      then Inl (ValueError (''Contradictory '' @ name @ '' evidence detected in write-side result''))
      else Inr (first_some xs))"

definition order_id_from_result :: "PostgresWriteSideResult \<Rightarrow> OrderEvent option \<Rightarrow> string option res" where
  "order_id_from_result result accepted_event =
     agreed_identity ''order_id''
       [map_option ev_order_id accepted_event, map_option sa_order_id (wr_stream_admission_result result),
        map_option (\<lambda>record. sig_order_id (rec_signature record)) (id_record (wr_idempotency_decision result))]"

definition request_id_from_result :: "PostgresWriteSideResult \<Rightarrow> OrderEvent option \<Rightarrow> string option res" where
  "request_id_from_result result accepted_event =
     agreed_identity ''request_id''
       [map_option ev_request_id accepted_event,
        map_option (\<lambda>record. sig_request_id (rec_signature record)) (id_record (wr_idempotency_decision result))]"

definition candidate_event_id_from_result :: "PostgresWriteSideResult \<Rightarrow> string option" where
  "candidate_event_id_from_result result =
     (case wr_admission_result result of
        Some a \<Rightarrow> Some (ad_candidate_event_id a)
      | None \<Rightarrow> map_option (\<lambda>d. vr_candidate_event_id (vd_validation_result d)) (wr_validation_decision result))"

definition context_from_result :: "PostgresWriteSideResult \<Rightarrow> py_dict res" where
  "context_from_result result =
     (let accepted_event = accepted_event_from_result result
      in bind_res (order_id_from_result result accepted_event) (\<lambda>order_id.
         bind_res (request_id_from_result result accepted_event) (\<lambda>request_id.
           Inr [(''write_side_outcome'', VStr (PostgresWriteSideOutcome_value (wr_outcome result))),
                (''order_id'', opt_str order_id), (''request_id'', opt_str request_id),
                (''candidate_event_id'', opt_str (candidate_event_id_from_result result)),
                (''accepted_event_id'', opt_str (map_option ev_event_id accepted_event))])))"

definition evidence_from_result :: "PostgresWriteSideResult \<Rightarrow> py_dict" where
  "evidence_from_result result =
     (let stream = wr_stream_admission_result result; validation = wr_validation_decision result;
          admission = wr_admission_result result; decision = wr_idempotency_decision result
      in [(''result_type'', VStr ''PostgresWriteSideResult''),
          (''write_side_outcome'', VStr (PostgresWriteSideOutcome_value (wr_outcome result))),
          (''accepted_event_present'', VBool (wr_accepted_event result \<noteq> None)),
          (''idempotency_verdict'', VStr (IdempotencyVerdict_value (id_verdict decision))),
          (''idempotency_reason'', VStr (id_reason decision)),
          (''stream_admission_result_present'', VBool (stream \<noteq> None)),
          (''stream_admission_verdict'', opt_str (map_option (\<lambda>s. AdmissionVerdict_value (sa_verdict s)) stream)),
          (''stream_admission_reason'', opt_str (map_option sa_reason stream)),
          (''validation_decision_present'', VBool (validation \<noteq> None)),
          (''validation_action'', opt_str (map_option (\<lambda>d. EnforcementAction_value (vd_action d)) validation)),
          (''validation_verdict'', opt_str (map_option (\<lambda>d. ValidationVerdict_value (vr_verdict (vd_validation_result d))) validation)),
          (''validation_reason'', opt_str (map_option (\<lambda>d. vr_reason (vd_validation_result d)) validation)),
          (''validation_mode'', opt_str (map_option (\<lambda>d. ValidationMode_value (vr_validation_mode (vd_validation_result d))) validation)),
          (''validator_name'', opt_str (map_option (\<lambda>d. vr_validator_name (vd_validation_result d)) validation)),
          (''append_admission_result_present'', VBool (admission \<noteq> None)),
          (''append_admission_verdict'', opt_str (map_option (\<lambda>a. AdmissionVerdict_value (ad_verdict a)) admission)),
          (''append_admission_reason'', opt_str (map_option ad_reason admission))])"

definition map_postgres_write_side_result_to_semantic_outcome ::
  "string \<Rightarrow> PostgresWriteSideResult \<Rightarrow> py_dict \<Rightarrow> py_dict \<Rightarrow> SemanticOutcome res" where
  "map_postgres_write_side_result_to_semantic_outcome oid result context evidence =
     bind_res (validate_result_shape result) (\<lambda>_.
     bind_res (technical_status_for_result result) (\<lambda>technical_status.
     bind_res (reason_for_result result technical_status) (\<lambda>reason.
     bind_res (context_from_result result) (\<lambda>base.
     bind_res (merge_context base context) (\<lambda>merged.
       map_write_side_admission_status_to_semantic_outcome oid technical_status reason merged
         (dict_update (evidence_from_result result) evidence))))))"

section \<open>Read-side results\<close>

fun ReplayValidationStatus_value :: "ReplayValidationStatus \<Rightarrow> string" where
  "ReplayValidationStatus_value RV_MATCH = ''MATCH''"
| "ReplayValidationStatus_value RV_MISSING_PROJECTION = ''MISSING_PROJECTION''"
| "ReplayValidationStatus_value RV_DRIFT = ''DRIFT''"
| "ReplayValidationStatus_value RV_NO_ACCEPTED_HISTORY = ''NO_ACCEPTED_HISTORY''"

fun snapshot_validation_status_value :: "ProjectionSnapshotReplayValidationStatus \<Rightarrow> string" where
  "snapshot_validation_status_value SV_MATCH = ''MATCH''"
| "snapshot_validation_status_value SV_MISSING_SNAPSHOT = ''MISSING_SNAPSHOT''"
| "snapshot_validation_status_value SV_NO_ACCEPTED_HISTORY_FOR_ORDER = ''NO_ACCEPTED_HISTORY_FOR_ORDER''"
| "snapshot_validation_status_value SV_INVALID_SNAPSHOT_BOUNDARY = ''INVALID_SNAPSHOT_BOUNDARY''"
| "snapshot_validation_status_value SV_TAIL_EVENT_SOURCE_CONTRACT_VIOLATION = ''TAIL_EVENT_SOURCE_CONTRACT_VIOLATION''"
| "snapshot_validation_status_value SV_SNAPSHOT_ASSISTED_DRIFT = ''SNAPSHOT_ASSISTED_DRIFT''"

fun snapshot_resolution_status_value :: "ProjectionSnapshotAssistedResolutionStatus \<Rightarrow> string" where
  "snapshot_resolution_status_value SR_RESOLVED_FROM_SNAPSHOT = ''RESOLVED_FROM_SNAPSHOT''"
| "snapshot_resolution_status_value SR_MISSING_SNAPSHOT = ''MISSING_SNAPSHOT''"
| "snapshot_resolution_status_value SR_INVALID_SNAPSHOT_PRECONDITION = ''INVALID_SNAPSHOT_PRECONDITION''"
| "snapshot_resolution_status_value SR_INVALID_SNAPSHOT_COMPATIBILITY = ''INVALID_SNAPSHOT_COMPATIBILITY''"
| "snapshot_resolution_status_value SR_TAIL_EVENT_SOURCE_CONTRACT_VIOLATION = ''TAIL_EVENT_SOURCE_CONTRACT_VIOLATION''"
| "snapshot_resolution_status_value SR_TAIL_REPLAY_FAILED = ''TAIL_REPLAY_FAILED''"

text \<open>Python compares booleans with integers by value.\<close>

definition py_eq :: "pyval \<Rightarrow> pyval \<Rightarrow> bool" where
  "py_eq a b = (let num = (\<lambda>v. case v of VBool x \<Rightarrow> VInt (if x then 1 else 0) | _ \<Rightarrow> v) in num a = num b)"

fun merge_caller_context_with_canonical_context :: "py_dict \<Rightarrow> py_dict \<Rightarrow> py_dict res" where
  "merge_caller_context_with_canonical_context merged [] = Inr merged"
| "merge_caller_context_with_canonical_context merged ((key, canonical_value) # rest) =
     (case map_of merged key of
        None \<Rightarrow> merge_caller_context_with_canonical_context (AList.update key canonical_value merged) rest
      | Some v \<Rightarrow>
          if \<not> py_eq v canonical_value
          then Inl (ValueError (''caller context conflicts with canonical context: '' @ key))
          else merge_caller_context_with_canonical_context (AList.update key canonical_value merged) rest)"

abbreviation opt_uuid :: "string option \<Rightarrow> pyval" where
  "opt_uuid x \<equiv> (case x of None \<Rightarrow> VNone | Some s \<Rightarrow> VUuid s)"

abbreviation opt_int :: "int option \<Rightarrow> pyval" where
  "opt_int x \<equiv> (case x of None \<Rightarrow> VNone | Some i \<Rightarrow> VInt i)"

definition map_replay_validation_result_to_semantic_outcome ::
  "string \<Rightarrow> ReplayValidationResult \<Rightarrow> py_dict \<Rightarrow> py_dict \<Rightarrow> SemanticOutcome res" where
  "map_replay_validation_result_to_semantic_outcome oid result context evidence =
     bind_res (merge_caller_context_with_canonical_context context [(''order_id'', VStr (rv_order_id result))]) (\<lambda>merged.
       map_runtime_technical_status oid (ReplayValidationStatus_value (rv_status result)) AT_LAYER_2_READ_SIDE
         (require_reason (Some (rv_reason result)) ''ReplayValidationResult'') merged
         (dict_update [(''result_type'', VStr ''ReplayValidationResult''),
            (''expected_state_present'', VBool (rv_expected_state result \<noteq> None)),
            (''persisted_state_present'', VBool (rv_persisted_state result \<noteq> None))] evidence))"

definition map_projection_snapshot_replay_validation_result_to_semantic_outcome ::
  "string \<Rightarrow> ProjectionSnapshotReplayValidationResult \<Rightarrow> py_dict \<Rightarrow> py_dict \<Rightarrow> SemanticOutcome res" where
  "map_projection_snapshot_replay_validation_result_to_semantic_outcome oid result context evidence =
     bind_res (merge_caller_context_with_canonical_context context
         [(''order_id'', VStr (sv_order_id result)), (''snapshot_id'', opt_uuid (sv_snapshot_id result)),
          (''source_global_position'', opt_int (sv_source_global_position result))]) (\<lambda>merged.
       map_runtime_technical_status oid (snapshot_validation_status_value (sv_status result)) AT_SNAPSHOT_TRUST
         (require_reason (sv_reason result) ''ProjectionSnapshotReplayValidationResult'') merged
         (dict_update [(''result_type'', VStr ''ProjectionSnapshotReplayValidationResult''),
            (''snapshot_assisted_state_present'', VBool (sv_snapshot_assisted_state result \<noteq> None)),
            (''authority_state_present'', VBool (sv_authority_state result \<noteq> None))] evidence))"

definition map_projection_snapshot_assisted_resolution_result_to_semantic_outcome ::
  "string \<Rightarrow> ProjectionSnapshotAssistedResolutionResult \<Rightarrow> py_dict \<Rightarrow> py_dict \<Rightarrow> SemanticOutcome res" where
  "map_projection_snapshot_assisted_resolution_result_to_semantic_outcome oid result context evidence =
     bind_res (merge_caller_context_with_canonical_context context
         [(''order_id'', VStr (sr_order_id result)), (''snapshot_id'', opt_uuid (sr_snapshot_id result)),
          (''source_global_position'', opt_int (sr_source_global_position result))]) (\<lambda>merged.
       map_runtime_technical_status oid (snapshot_resolution_status_value (sr_status result)) AT_SNAPSHOT_TRUST
         (require_reason (sr_reason result) ''ProjectionSnapshotAssistedResolutionResult'') merged
         (dict_update [(''result_type'', VStr ''ProjectionSnapshotAssistedResolutionResult''),
            (''resolved_state_present'', VBool (sr_resolved_state result \<noteq> None))] evidence))"

end
