(* ===== verification/Runtime_Decision.thy ===== *)
theory Runtime_Decision
  imports Semantic_Outcome
begin

text \<open>
  Authority over completed write-side results: \<open>write_side_rule_feedback.py\<close>,
  \<open>runtime_decision.py\<close>, \<open>write_side_runtime_decision.py\<close>, \<open>reinvocation_authority.py\<close> and
  \<open>postgres_write_side_reinvocation_authority.py\<close> of \<open>src/compass/runtime\<close>. The classes that only an
  evaluator may construct are records; the checks of types and of object identity in their
  constructors are discharged by the way the evaluators call them.
\<close>

section \<open>Rule feedback\<close>

fun OrderCorrectnessRuleId_value :: "OrderCorrectnessRuleId \<Rightarrow> string" where
  "OrderCorrectnessRuleId_value CREATE_ALLOWED_FROM_INIT = ''order.command.create.allowed-from-init''"
| "OrderCorrectnessRuleId_value PAY_ALLOWED_FROM_CREATED = ''order.command.pay.allowed-from-created''"
| "OrderCorrectnessRuleId_value CREATE_NORMALIZED_AMOUNT_POSITIVE = ''order.command.create.normalized-amount-positive''"
| "OrderCorrectnessRuleId_value PAY_NORMALIZED_AMOUNT_POSITIVE = ''order.command.pay.normalized-amount-positive''"
| "OrderCorrectnessRuleId_value PAY_NORMALIZED_AMOUNT_EQUALS_TOTAL = ''order.command.pay.normalized-amount-equals-total''"
| "OrderCorrectnessRuleId_value CANDIDATE_SEQUENCE_IS_NEXT_AGGREGATE_VERSION = ''order.candidate.sequence-is-next-aggregate-version''"
| "OrderCorrectnessRuleId_value CANDIDATE_PROOF_DERIVED_FROM_AGGREGATE_PREDECESSOR = ''order.candidate.proof-derived-from-aggregate-predecessor''"
| "OrderCorrectnessRuleId_value TRUSTED_APPLICATION_EVENT_ORDER_ID_MATCHES_AGGREGATE = ''order.trusted-application.event-order-id-matches-aggregate''"
| "OrderCorrectnessRuleId_value TRUSTED_APPLICATION_EVENT_SEQUENCE_IS_NEXT_VERSION = ''order.trusted-application.event-sequence-is-next-version''"
| "OrderCorrectnessRuleId_value TRUSTED_APPLICATION_CREATED_ESTABLISHES_STATE = ''order.trusted-application.created-establishes-state''"
| "OrderCorrectnessRuleId_value TRUSTED_APPLICATION_PAID_ESTABLISHES_STATE = ''order.trusted-application.paid-establishes-state''"
| "OrderCorrectnessRuleId_value TRUSTED_APPLICATION_UPDATES_AGGREGATE_HISTORY_HEAD = ''order.trusted-application.updates-aggregate-history-head''"
| "OrderCorrectnessRuleId_value TRANSITION_SEQUENCE_MATCHES_ACCEPTED_NEXT_VERSION = ''order.transition.sequence-matches-accepted-next-version''"
| "OrderCorrectnessRuleId_value TRANSITION_PROOF_PREV_EVENT_ID_MATCHES_ACCEPTED = ''order.transition.proof-prev-event-id-matches-accepted''"
| "OrderCorrectnessRuleId_value TRANSITION_PROOF_PREV_VERSION_MATCHES_ACCEPTED = ''order.transition.proof-prev-version-matches-accepted''"
| "OrderCorrectnessRuleId_value TRANSITION_PROOF_PREV_STATUS_MATCHES_ACCEPTED = ''order.transition.proof-prev-status-matches-accepted''"
| "OrderCorrectnessRuleId_value TRANSITION_CANDIDATE_EVENT_TYPE_SUPPORTED = ''order.transition.candidate-event-type-supported''"
| "OrderCorrectnessRuleId_value TRANSITION_EVENT_TYPE_LEGAL_FROM_ACCEPTED_STATUS = ''order.transition.event-type-legal-from-accepted-status''"

record PostgresWriteSideSemanticRuleFeedback =
  fb_semantic_outcome :: SemanticOutcome
  fb_rule_refinement :: "OrderRuleViolationEvidence option"

definition feedback_from_source ::
  "SemanticOutcome \<Rightarrow> PostgresWriteSideResult \<Rightarrow> PostgresWriteSideSemanticRuleFeedback res" where
  "feedback_from_source semantic_outcome result =
     (if wr_outcome result = OUT_VALIDATION_BLOCKED
      then (case observed_rule_violation result of
              None \<Rightarrow> Inl (ValueError ''VALIDATION_BLOCKED requires Order rule evidence for semantic rule refinement'')
            | Some v \<Rightarrow> Inr \<lparr>fb_semantic_outcome = semantic_outcome, fb_rule_refinement = Some v\<rparr>)
      else Inr \<lparr>fb_semantic_outcome = semantic_outcome, fb_rule_refinement = None\<rparr>)"

definition map_postgres_write_side_result_to_semantic_rule_feedback ::
  "string \<Rightarrow> PostgresWriteSideResult \<Rightarrow> PostgresWriteSideSemanticRuleFeedback res" where
  "map_postgres_write_side_result_to_semantic_rule_feedback oid result =
     bind_res (map_postgres_write_side_result_to_semantic_outcome oid result [] []) (\<lambda>semantic_outcome.
       feedback_from_source semantic_outcome result)"

section \<open>Runtime decisions\<close>

datatype RuntimeDecisionResponse =
    USE_CURRENT_RESULT
  | RETURN_PRIOR_ACCEPTED_RESULT
  | BLOCK_CURRENT_CONTINUATION
  | REQUIRE_ESCALATION

record RuntimeDecision =
  rd_response :: RuntimeDecisionResponse
  rd_semantic_outcome :: SemanticOutcome
  rd_explanation :: string

definition RuntimeDecision_from_evaluation ::
  "RuntimeDecisionResponse \<Rightarrow> SemanticOutcome \<Rightarrow> string \<Rightarrow> RuntimeDecision res" where
  "RuntimeDecision_from_evaluation response semantic_outcome explanation =
     (if py_blank explanation then Inl (ValueError ''explanation must be a non-empty string'')
      else Inr \<lparr>rd_response = response, rd_semantic_outcome = semantic_outcome, rd_explanation = explanation\<rparr>)"

record PostgresWriteSideRuntimeDecisionEvaluation =
  rde_decision :: RuntimeDecision
  rde_source_feedback :: PostgresWriteSideSemanticRuleFeedback

definition RuntimeDecisionEvaluation_from_evaluation ::
  "RuntimeDecision \<Rightarrow> PostgresWriteSideSemanticRuleFeedback \<Rightarrow> PostgresWriteSideRuntimeDecisionEvaluation res" where
  "RuntimeDecisionEvaluation_from_evaluation decision source_feedback =
     (if rd_semantic_outcome decision \<noteq> fb_semantic_outcome source_feedback
      then Inl (ValueError ''decision must retain the exact source SemanticOutcome'')
      else Inr \<lparr>rde_decision = decision, rde_source_feedback = source_feedback\<rparr>)"

definition SUPPORTED_RESPONSES ::
  "((SemanticBoundary \<times> SemanticOutcomeCategory \<times> SemanticOutcomeCode) \<times> RuntimeDecisionResponse) list" where
  "SUPPORTED_RESPONSES =
     [((AT_LAYER_1_WRITE_SIDE, CAT_VALID, CODE_SEMANTICALLY_VALID), USE_CURRENT_RESULT),
      ((AT_LAYER_1_WRITE_SIDE, CAT_RETRY_CLASSIFIED, CODE_IDEMPOTENT_REPLAY_ALLOWED), RETURN_PRIOR_ACCEPTED_RESULT),
      ((AT_LAYER_1_WRITE_SIDE, CAT_BLOCK_REQUIRED, CODE_SEMANTIC_CONFLICT_DETECTED), BLOCK_CURRENT_CONTINUATION),
      ((AT_LAYER_1_WRITE_SIDE, CAT_ESCALATION_REQUIRED, CODE_REQUIRES_OPERATOR_REVIEW), REQUIRE_ESCALATION)]"

fun explain_response :: "RuntimeDecisionResponse \<Rightarrow> PostgresWriteSideSemanticRuleFeedback \<Rightarrow> string" where
  "explain_response USE_CURRENT_RESULT feedback =
     ''The caller may use or return the already-completed current result; this decision does not authorize candidate append admission.''"
| "explain_response RETURN_PRIOR_ACCEPTED_RESULT feedback =
     ''The caller may return the prior accepted result; this decision does not authorize another attempt or retry.''"
| "explain_response REQUIRE_ESCALATION feedback =
     ''The current condition requires escalation; this decision does not execute an operator workflow.''"
| "explain_response BLOCK_CURRENT_CONTINUATION feedback =
     (case fb_rule_refinement feedback of
        None \<Rightarrow> ''Current downstream continuation is blocked by a semantic conflict; this decision authorizes no repair, regeneration, reload, retry, or another attempt.''
      | Some v \<Rightarrow> ''Current downstream continuation is blocked by a semantic conflict refined by terminal Order rule ''
          @ OrderCorrectnessRuleId_value (rv_rule_id v)
          @ ''; this decision authorizes no repair, regeneration, reload, retry, or another attempt.'')"

definition evaluate_postgres_write_side_runtime_decision ::
  "PostgresWriteSideSemanticRuleFeedback \<Rightarrow> PostgresWriteSideRuntimeDecisionEvaluation res" where
  "evaluate_postgres_write_side_runtime_decision feedback =
     (let semantic_outcome = fb_semantic_outcome feedback
      in case map_of SUPPORTED_RESPONSES
                (so_boundary semantic_outcome, so_category semantic_outcome, so_code semantic_outcome) of
           None \<Rightarrow> Inl (PostgresWriteSideRuntimeDecisionRefused
              (''no authoritative RuntimeDecision exists for semantic tuple ''
               @ SemanticBoundary_value (so_boundary semantic_outcome) @ ''/''
               @ SemanticOutcomeCategory_value (so_category semantic_outcome) @ ''/''
               @ SemanticOutcomeCode_value (so_code semantic_outcome)))
         | Some response \<Rightarrow>
             if fb_rule_refinement feedback \<noteq> None \<and> response \<noteq> BLOCK_CURRENT_CONTINUATION
             then Inl (PostgresWriteSideRuntimeDecisionRefused
               ''terminal Order-rule refinement is only coherent with the reviewed block-current-continuation response family'')
             else bind_res (RuntimeDecision_from_evaluation response semantic_outcome (explain_response response feedback))
               (\<lambda>decision. RuntimeDecisionEvaluation_from_evaluation decision feedback))"

section \<open>Re-invocation authority\<close>

datatype reinvocation_evaluation =
    ReinvocationAuthorization RequestSignature
  | NoReinvocationAuthority RequestSignature string

definition NoReinvocationAuthority_from_evaluation :: "RequestSignature \<Rightarrow> string \<Rightarrow> reinvocation_evaluation res" where
  "NoReinvocationAuthority_from_evaluation request_signature explanation =
     (if py_blank explanation then Inl (ValueError ''explanation must be a non-empty string'')
      else Inr (NoReinvocationAuthority request_signature explanation))"

definition is_eligible_preparation_lock_timeout :: "RequestSignature \<Rightarrow> PostgresWriteSideResult \<Rightarrow> bool" where
  "is_eligible_preparation_lock_timeout request_signature result \<longleftrightarrow>
     wr_outcome result = OUT_ADMISSION_REJECTED
     \<and> wr_accepted_event result = None
     \<and> id_verdict (wr_idempotency_decision result) = MISS
     \<and> id_record (wr_idempotency_decision result) = None
     \<and> (case wr_stream_admission_result result of
          None \<Rightarrow> False
        | Some s \<Rightarrow> sa_verdict s = LOCK_TIMEOUT \<and> sa_order_id s = sig_order_id request_signature)
     \<and> wr_validation_decision result = None
     \<and> wr_validation_decision_evidence result = None
     \<and> wr_admission_result result = None"

definition is_eligible_append_version_mismatch :: "RequestSignature \<Rightarrow> PostgresWriteSideResult \<Rightarrow> bool" where
  "is_eligible_append_version_mismatch request_signature result =
     (case wr_validation_decision result of
        None \<Rightarrow> False
      | Some validation_decision \<Rightarrow>
         (case wr_admission_result result of
            None \<Rightarrow> False
          | Some admission_result \<Rightarrow>
              wr_outcome result = OUT_ADMISSION_REJECTED
              \<and> wr_accepted_event result = None
              \<and> id_verdict (wr_idempotency_decision result) = MISS
              \<and> id_record (wr_idempotency_decision result) = None
              \<and> (case wr_stream_admission_result result of
                   None \<Rightarrow> False
                 | Some s \<Rightarrow> sa_verdict s = ADMITTED \<and> sa_order_id s = sig_order_id request_signature)
              \<and> vd_action validation_decision = ALLOW
              \<and> ad_verdict admission_result = STALE_WRITE
              \<and> ad_accepted_event_id admission_result = None
              \<and> (case ad_mismatch_evidence admission_result of
                   None \<Rightarrow> False
                 | Some mismatch \<Rightarrow> observed_current_version mismatch > expected_current_version mismatch)
              \<and> ad_candidate_event_id admission_result = vr_candidate_event_id (vd_validation_result validation_decision)))"

definition evaluate_postgres_write_side_reinvocation_authority ::
  "RequestSignature \<Rightarrow> PostgresWriteSideResult \<Rightarrow> reinvocation_evaluation res" where
  "evaluate_postgres_write_side_reinvocation_authority request_signature result =
     (if is_eligible_preparation_lock_timeout request_signature result
      then Inr (ReinvocationAuthorization request_signature)
      else if is_eligible_append_version_mismatch request_signature result
      then Inr (ReinvocationAuthorization request_signature)
      else NoReinvocationAuthority_from_evaluation request_signature
        ''The completed PostgreSQL write-side result is outside the accepted preparation LOCK_TIMEOUT and append version-advance profiles; no Stage 4E authority was issued.'')"

end
