(* ===== verification/Governed_Results.thy ===== *)
theory Governed_Results
  imports Runtime_Decision Write_Side_Progress
begin

text \<open>
  The results that a durable command can return, and what the governance of
  \<open>src/compass/runtime\<close> makes of them. \<open>yields\<close> is the partial-correctness view of a computation that
  only speaks of the returned value; its rules follow the text of the write side. The decision that
  the request memory gives is read from a legal database, so its record agrees with its event.
\<close>

section \<open>Returned values\<close>

definition yields :: "(pg_conn \<Rightarrow> bool) \<Rightarrow> 'a ws \<Rightarrow> ('a \<Rightarrow> bool) \<Rightarrow> bool" where
  "yields P m Q \<longleftrightarrow> (\<forall>s s' a. P (ws_conn s) \<longrightarrow> m s = (s', Inr a) \<longrightarrow> Q a)"

lemma yieldsD: "yields P m Q \<Longrightarrow> P (ws_conn s) \<Longrightarrow> m s = (s', Inr a) \<Longrightarrow> Q a"
  by (simp add: yields_def)

lemma yields_bind:
  assumes "yields P m R" and "\<And>a. R a \<Longrightarrow> yields (\<lambda>_. True) (f a) Q"
  shows "yields P (ws_bind m f) Q"
  unfolding yields_def
proof (intro allI impI)
  fix s s' b
  assume P: "P (ws_conn s)" and "ws_bind m f s = (s', Inr b)"
  then obtain s1 a where "m s = (s1, Inr a)" "f a s1 = (s', Inr b)"
    by (auto simp: ws_bind_def split: prod.splits sum.splits)
  with yieldsD [OF assms(1) P] yieldsD [OF assms(2)] show "Q b" by blast
qed

lemma yields_triple_bind:
  assumes "yields P m R" and "triple (\<lambda>c _. P c) m (\<lambda>a c _. I a c) E"
    and "\<And>a. R a \<Longrightarrow> yields (I a) (f a) Q"
  shows "yields P (ws_bind m f) Q"
  unfolding yields_def
proof (intro allI impI)
  fix s s' b
  assume P: "P (ws_conn s)" and "ws_bind m f s = (s', Inr b)"
  then obtain s1 a where a: "m s = (s1, Inr a)" "f a s1 = (s', Inr b)"
    by (auto simp: ws_bind_def split: prod.splits sum.splits)
  from yieldsD [OF assms(3) _ a(2)] yieldsD [OF assms(1) P a(1)] triple_Inr [OF assms(2) P a(1)] show "Q b" by blast
qed

lemma yields_checkpoint:
  "yields P m Q \<Longrightarrow> yields P (ws_bind (record_checkpoint cp) (\<lambda>_. m)) Q"
proof -
  assume m: "yields P m Q"
  have "ws_conn s1 = ws_conn s" if "record_checkpoint cp s = (s1, r)" for s s1 r
    using that by (auto simp: record_checkpoint_def split: option.splits sum.splits)
  then have "Q a" if P: "P (ws_conn s)" and b: "ws_bind (record_checkpoint cp) (\<lambda>_. m) s = (s', Inr a)" for s s' a
  proof -
    from b obtain s1 where "record_checkpoint cp s = (s1, Inr ())" "m s1 = (s', Inr a)"
      by (auto simp: ws_bind_def split: prod.splits sum.splits)
    with \<open>\<And>r s1 s. record_checkpoint cp s = (s1, r) \<Longrightarrow> ws_conn s1 = ws_conn s\<close> P show ?thesis
      by (intro yieldsD [OF m, of s1]) simp_all
  qed
  then show ?thesis by (auto simp: yields_def)
qed

lemma yields_any: "yields P m (\<lambda>_. True)"
  by (simp add: yields_def)

lemma yields_rollback: "yields (\<lambda>_. True) m Q \<Longrightarrow> yields P (ws_bind uow_rollback (\<lambda>_. m)) Q"
  by (rule yields_bind [OF yields_any])

lemma yields_lift: "yields P (ws_lift r) (\<lambda>a. r = Inr a)"
  by (simp add: yields_def ws_lift_def)

lemma yields_lift_bind: "(\<And>a. r = Inr a \<Longrightarrow> yields P (f a) Q) \<Longrightarrow> yields P (ws_bind (ws_lift r) f) Q"
  by (cases r) (auto simp: yields_def ws_lift_def ws_bind_def)

lemma yields_lift_pair:
  "(\<And>x y. r = Inr (x, y) \<Longrightarrow> yields P (f x y) Q) \<Longrightarrow> yields P (ws_bind (ws_lift r) (\<lambda>(x, y). f x y)) Q"
  by (rule yields_lift_bind) auto

lemma yields_conn: "(\<And>c c' a. P c \<Longrightarrow> m c = (c', Inr a) \<Longrightarrow> Q a) \<Longrightarrow> yields P (on_conn m) Q"
  by (auto simp: yields_def on_conn_def split: prod.splits)

lemma yields_finalize: "(PostgresWriteSideResult_init r = Inr r \<Longrightarrow> Q r) \<Longrightarrow> yields P (finalize_result r) (\<lambda>x. Q (primary_result x))"
  by (auto simp: yields_def finalize_result_def PostgresWriteSideResult_init_def
      PostgresWriteSideExecution_init_def res_simps split: option.splits sum.splits if_splits)

lemma yields_if: "(b \<Longrightarrow> yields P m Q) \<Longrightarrow> (\<not> b \<Longrightarrow> yields P n Q) \<Longrightarrow> yields P (if b then m else n) Q"
  by simp

lemma yields_with_uow: "yields P m Q \<Longrightarrow> yields P (with_uow m) Q"
proof -
  assume m: "yields P m Q"
  have "Q a" if P: "P (ws_conn s)" and w: "with_uow m s = (s', Inr a)" for s s' a
  proof -
    obtain s1 r where r: "m (s\<lparr>ws_finished := False\<rparr>) = (s1, r)" by force
    with w have "r = Inr a" by (auto simp: with_uow_def split: if_splits prod.splits sum.splits)
    with yieldsD [OF m, of "s\<lparr>ws_finished := False\<rparr>"] P r show ?thesis by simp
  qed
  then show ?thesis by (auto simp: yields_def)
qed

lemma yields_finally: "yields P m Q \<Longrightarrow> yields P (finally_rollback m) Q"
  by (auto simp: yields_def finally_rollback_def split: prod.splits)

lemma yields_return: "Q a \<Longrightarrow> yields P (ws_return a) Q"
  by (simp add: yields_def ws_return_def)

lemmas yields_rules = yields_checkpoint yields_rollback yields_with_uow yields_finally yields_if yields_return

section \<open>The shape of a result\<close>

definition decision_shape :: "IdempotencyDecision \<Rightarrow> bool" where
  "decision_shape dec \<longleftrightarrow>
     (if id_verdict dec = MISS then id_record dec = None
      else \<exists>rec. id_record dec = Some rec \<and> sig_order_id (rec_signature rec) = ev_order_id (rec_accepted_event rec)
        \<and> sig_request_id (rec_signature rec) = ev_request_id (rec_accepted_event rec)
        \<and> \<not> py_blank (ev_order_id (rec_accepted_event rec)) \<and> \<not> py_blank (ev_request_id (rec_accepted_event rec))
        \<and> uuid_in (ev_event_id (rec_accepted_event rec)) = Some (ev_event_id (rec_accepted_event rec)))"

text \<open>The allowing decision a result may carry, and the candidate \<open>eid\<close> that every phase reports.\<close>

definition allowed_if_validated :: "PostgresWriteSideResult \<Rightarrow> bool" where
  "allowed_if_validated r \<longleftrightarrow> (\<forall>d. wr_validation_decision r = Some d \<longrightarrow> vd_action d = ALLOW)"

definition same_candidate :: "string \<Rightarrow> PostgresWriteSideResult \<Rightarrow> bool" where
  "same_candidate eid r \<longleftrightarrow>
     (\<forall>d. wr_validation_decision r = Some d \<longrightarrow> vr_candidate_event_id (vd_validation_result d) = eid)
     \<and> (\<forall>a. wr_admission_result r = Some a \<longrightarrow> ad_candidate_event_id a = eid)"

definition result_shape :: "RequestSignature \<Rightarrow> string \<Rightarrow> PostgresWriteSideResult \<Rightarrow> bool" where
  "result_shape sg eid r \<longleftrightarrow>
     decision_shape (wr_idempotency_decision r)
     \<and> (\<forall>s. wr_stream_admission_result r = Some s \<longrightarrow> sa_order_id s = sig_order_id sg)
     \<and> (\<forall>a. wr_admission_result r = Some a \<longrightarrow> ad_verdict a \<noteq> ADMITTED \<longrightarrow> ad_accepted_event_id a = None)
     \<and> same_candidate eid r
     \<and> (case wr_outcome r of
          OUT_ACCEPTED \<Rightarrow> id_verdict (wr_idempotency_decision r) = MISS
            \<and> (\<exists>s d a. wr_stream_admission_result r = Some s \<and> sa_verdict s = ADMITTED
                \<and> wr_validation_decision r = Some d \<and> vd_action d = ALLOW
                \<and> wr_admission_result r = Some a \<and> ad_verdict a = ADMITTED \<and> ad_accepted_event_id a = Some eid)
        | OUT_REPLAY \<Rightarrow> id_verdict (wr_idempotency_decision r) = REPLAY \<and> wr_stream_admission_result r = None
            \<and> wr_admission_result r = None \<and> allowed_if_validated r
            \<and> wr_accepted_event r = map_option rec_accepted_event (id_record (wr_idempotency_decision r))
            \<and> wr_accepted_event r \<noteq> None
        | OUT_CONFLICT \<Rightarrow> id_verdict (wr_idempotency_decision r) = CONFLICT \<and> wr_stream_admission_result r = None
            \<and> wr_admission_result r = None \<and> allowed_if_validated r
            \<and> wr_accepted_event r = None
        | OUT_VALIDATION_BLOCKED \<Rightarrow> id_verdict (wr_idempotency_decision r) = MISS \<and> wr_accepted_event r = None
            \<and> (\<exists>d. wr_validation_decision r = Some d \<and> vd_action d = BLOCK)
            \<and> (\<forall>s. wr_stream_admission_result r = Some s \<longrightarrow> sa_verdict s = ADMITTED)
            \<and> observed_rule_violation r \<noteq> None \<and> wr_admission_result r = None
        | OUT_ADMISSION_REJECTED \<Rightarrow> id_verdict (wr_idempotency_decision r) = MISS \<and> wr_accepted_event r = None
            \<and> (\<exists>s. wr_stream_admission_result r = Some s
                \<and> (case wr_admission_result r of None \<Rightarrow> sa_verdict s \<noteq> ADMITTED \<and> allowed_if_validated r
                   | Some a \<Rightarrow> sa_verdict s = ADMITTED \<and> ad_verdict a \<noteq> ADMITTED
                       \<and> (\<exists>d. wr_validation_decision r = Some d \<and> vd_action d = ALLOW
                            \<and> ad_candidate_event_id a = vr_candidate_event_id (vd_validation_result d))))
            \<and> (wr_validation_decision r = None \<longrightarrow> wr_validation_decision_evidence r = None))"

lemma legal_from_request: "legal_from a es \<Longrightarrow> e \<in> set es \<Longrightarrow> \<not> py_blank (ev_request_id e)"
  by (induction a es rule: legal_from.induct) (auto simp: legal_candidate_def split: sum.splits)

lemma legal_row_identity:
  assumes "legal_db d" and "r \<in> set (order_events d)"
  shows "\<not> py_blank (col_order_id r)" and "\<not> py_blank (col_request_id r)"
proof -
  from assms have ok: "db_ok d" and h: "legal_history (col_order_id r) (history d (col_order_id r))"
    by (auto simp: legal_db_def simp del: legal_history.simps)
  then show "\<not> py_blank (col_order_id r)" by (auto simp: OrderAggregate_init_def split: if_splits)
  have "event_of r \<in> set (history d (col_order_id r))"
    using assms(2) by (auto simp: history_map [OF ok] stream_rows_set)
  with h have "\<not> py_blank (ev_request_id (event_of r))" by (auto split: sum.splits dest: legal_from_request)
  moreover have "event_row_typed r" using ok assms(2) by (auto simp: db_ok_def list_all_iff)
  ultimately show "\<not> py_blank (col_request_id r)" by (simp add: typed_row_event)
qed

lemma lookup_agrees:
  assumes "legal_db d" and "lookup_request d rid = Some rec"
  shows "sig_order_id (rec_signature rec) = ev_order_id (rec_accepted_event rec)"
    and "sig_request_id (rec_signature rec) = ev_request_id (rec_accepted_event rec)"
    and "\<not> py_blank (ev_order_id (rec_accepted_event rec))" and "\<not> py_blank (ev_request_id (rec_accepted_event rec))"
    and "uuid_in (ev_event_id (rec_accepted_event rec)) = Some (ev_event_id (rec_accepted_event rec))"
proof -
  from assms(2) obtain i r where ir: "load_record d rid = Some (i, r)" by (auto simp: lookup_request_def split: option.splits)
  from assms(1) have ok: "db_ok d" by (simp add: legal_db_def)
  from ir load_record_iff [OF ok, of rid i r] have row: "i \<in> set (idempotency_records d)" "r \<in> set (order_events d)"
    "col_accepted_event_id r = idr_accepted_event_id i" "idr_request_id i = rid" by auto
  from assms(1) row(1) obtain q where q: "q \<in> set (order_events d)" "col_accepted_event_id q = idr_accepted_event_id i"
    "col_request_id q = idr_request_id i" "col_order_id q = idr_order_id i" by (auto simp: legal_db_def request_row_ok_def)
  have "q = r" using distinct_map_unique [of col_accepted_event_id "order_events d" q r] ok q row by (simp add: db_ok_def)
  moreover have "event_row_typed r" using ok row(2) by (auto simp: db_ok_def list_all_iff)
  moreover obtain rec' where "lookup_request d rid = Some rec'" "rec_accepted_event rec' = event_of r"
    "sig_request_id (rec_signature rec') = rid" "sig_order_id (rec_signature rec') = idr_order_id i"
    by (rule stored_request [OF legal_requests_ok [OF assms(1)] ir])
  ultimately show "sig_order_id (rec_signature rec) = ev_order_id (rec_accepted_event rec)"
    "sig_request_id (rec_signature rec) = ev_request_id (rec_accepted_event rec)"
    "\<not> py_blank (ev_order_id (rec_accepted_event rec))" "\<not> py_blank (ev_request_id (rec_accepted_event rec))"
    "uuid_in (ev_event_id (rec_accepted_event rec)) = Some (ev_event_id (rec_accepted_event rec))"
    using assms(2) q row(4) legal_row_identity [OF assms(1) row(2)] typed_uuid [of r] by (simp_all add: typed_row_event)
qed

lemma classified_shape:
  assumes "legal_db d" and "classify_request d sg = Inr dec"
  shows "decision_shape dec"
proof (cases "lookup_request d (sig_request_id sg)")
  case None
  with assms classify_request_cases [OF legal_requests_ok [OF assms(1)], of sg] show ?thesis
    by (auto simp: decision_shape_def)
next
  case (Some rec)
  with assms classify_request_cases [OF legal_requests_ok [OF assms(1)], of sg] lookup_agrees [OF assms(1) Some]
  show ?thesis by (auto simp: decision_shape_def res_simps split: if_splits)
qed

abbreviation at_rest :: "pg_conn \<Rightarrow> bool" where
  "at_rest c \<equiv> conn_inv c \<and> own c = empty_db"

lemma check_yields: "yields at_rest (on_conn (\<lambda>c. pg_check c sg)) decision_shape"
proof (rule yields_conn)
  fix c c' dec
  assume c: "at_rest c" and chk: "pg_check c sg = (c', Inr dec)"
  from check_moves [OF chk] c have "conn_inv c'" "own c' = empty_db" by (auto simp: moves_def)
  then have "legal_db (visible c')" by (simp add: conn_inv_def visible_def)
  moreover have "classify_request (visible c') sg = Inr dec"
    using chk by (auto simp: pg_check_def split: prod.splits sum.splits)
  ultimately show "decision_shape dec" by (rule classified_shape)
qed

lemma prepare_yields: "yields P (prepare_stream g oid) (\<lambda>(g', s). sa_order_id s = oid)"
  unfolding prepare_stream_def
  by (rule yields_conn) (auto simp: gate_prepare_stream_def split: gate_strategy.splits if_splits prod.splits sum.splits)

lemma append_yields:
  "yields P (on_conn (\<lambda>c. gate_append_if_admitted g c e v))
     (\<lambda>a. ad_accepted_event_id a = (if ad_verdict a = ADMITTED then Some (ev_event_id e) else None) \<and> ad_candidate_event_id a = ev_event_id e)"
proof (rule yields_conn)
  fix c c' a
  assume "gate_append_if_admitted g c e v = (c', Inr a)"
  then show "ad_accepted_event_id a = (if ad_verdict a = ADMITTED then Some (ev_event_id e) else None) \<and> ad_candidate_event_id a = ev_event_id e"
    by (cases rule: gate_append_cases) (auto dest: translate_not_admitted)
qed

lemma validation_carrier:
  assumes "invoke_validation rt e ctxt = Inr (d, ev)"
  obtains carrier where "ev = Some carrier" and "vdr_decision carrier = d"
    and "vd_action d \<noteq> ALLOW \<Longrightarrow> vdr_observed_violation carrier \<noteq> None"
    and "vr_candidate_event_id (vd_validation_result d) = ev_event_id e"
proof -
  from assms obtain carrier where c: "decide_with_rule_evidence rt e ctxt = Inr carrier" "d = vdr_decision carrier" "ev = Some carrier"
    by (auto simp: invoke_validation_def res_simps)
  obtain r v where b: "FullProof_validate_branches e ctxt = (r, v)" by force
  have "(vd_action d \<noteq> ALLOW \<longrightarrow> vdr_observed_violation carrier \<noteq> None)
      \<and> vr_candidate_event_id (vd_validation_result d) = ev_event_id e"
  proof (cases "dispatcher_select (vrt_dispatcher rt) (vrt_mode rt)")
    case FullProofValidator
    with c(1) obtain fp where fp: "validate_with_rule_evidence e ctxt = Inr fp"
      "carrier = \<lparr>vdr_decision = \<lparr>vd_action = policy_decide (fp_validation_result fp), vd_validation_result = fp_validation_result fp\<rparr>,
         vdr_observed_violation = fp_observed_violation fp\<rparr>" by (auto simp: decide_with_rule_evidence_def res_simps)
    then obtain ov where ov: "FullProofValidationEvidence_init r ov = Inr fp" "v \<noteq> None \<Longrightarrow> ov \<noteq> None"
      by (auto simp: validate_with_rule_evidence_def b res_simps split: option.splits)
    from ov(1) have "fp_validation_result fp = r" "fp_observed_violation fp = ov"
      by (auto simp: FullProofValidationEvidence_init_def split: if_splits option.splits ValidationVerdict.splits)
    with fp(2) ov(2) b branches_cases [of e ctxt] c(2) show ?thesis
      by (auto simp: policy_decide_def split: if_splits)
  next
    case NoOpValidator
    with c show ?thesis
      by (auto simp: decide_with_rule_evidence_def NoOp_validate_def policy_decide_def Let_def)
  qed
  with that [of carrier] c(2,3) show ?thesis by blast
qed

text \<open>The answers of the request memory.\<close>

lemmas shape_defs = result_shape_def allowed_if_validated_def same_candidate_def

lemma replay_shape:
  assumes "decision_shape dec" and "id_verdict dec = REPLAY" and "accepted_event_from_replay dec = Inr e"
      and "\<forall>d. v = Some d \<longrightarrow> vd_action d = ALLOW \<and> vr_candidate_event_id (vd_validation_result d) = eid"
  shows "result_shape sg eid ((plain_result OUT_REPLAY (Some e) dec)\<lparr>wr_validation_decision := v, wr_validation_decision_evidence := x\<rparr>)"
  using assms by (auto simp: shape_defs decision_shape_def accepted_event_from_replay_def)

lemma conflict_shape:
  assumes "decision_shape dec" and "id_verdict dec = CONFLICT"
    and "\<forall>d. v = Some d \<longrightarrow> vd_action d = ALLOW \<and> vr_candidate_event_id (vd_validation_result d) = eid"
  shows "result_shape sg eid ((plain_result OUT_CONFLICT None dec)\<lparr>wr_validation_decision := v, wr_validation_decision_evidence := x\<rparr>)"
  using assms by (auto simp: shape_defs)

lemma verdict_cases: "id_verdict dec \<noteq> REPLAY \<Longrightarrow> id_verdict dec \<noteq> CONFLICT \<Longrightarrow> id_verdict dec = MISS"
  by (cases "id_verdict dec") simp_all

lemma admission_yields:
  assumes "decision_shape dec" and "id_verdict dec = MISS" and "sa_order_id sar = sig_order_id sg" and "stream_admitted sar"
    and "vd_action vd = ALLOW" and "vr_candidate_event_id (vd_validation_result vd) = ev_event_id candidate_event"
    and "ev_event_id candidate_event = eid"
  shows "yields P
       (ws_bind (on_conn (\<lambda>c. gate_append_if_admitted gate c candidate_event expected)) (\<lambda>admission_result.
        ws_bind (record_checkpoint APPEND_ADMISSION_RETURNED) (\<lambda>_.
        if \<not> admission_admitted admission_result
        then ws_bind uow_rollback (\<lambda>_.
               finalize_result ((plain_result OUT_ADMISSION_REJECTED None dec)
                 \<lparr>wr_stream_admission_result := Some sar, wr_validation_decision := Some vd,
                  wr_admission_result := Some admission_result, wr_validation_decision_evidence := vde\<rparr>))
        else
        ws_bind (on_conn (\<lambda>c. pg_record c sg candidate_event)) (\<lambda>_.
        ws_bind (record_checkpoint IDEMPOTENCY_PERSISTENCE_RETURNED) (\<lambda>_.
          finalize_result ((plain_result OUT_ACCEPTED (Some candidate_event) dec)
            \<lparr>wr_stream_admission_result := Some sar, wr_validation_decision := Some vd,
             wr_admission_result := Some admission_result, wr_validation_decision_evidence := vde\<rparr>))))))
     (\<lambda>x. result_shape sg eid (primary_result x))"
proof (rule yields_bind [OF append_yields], intro yields_checkpoint yields_if yields_rollback)
  fix a :: AdmissionResult
  assume a: "ad_accepted_event_id a = (if ad_verdict a = ADMITTED then Some (ev_event_id candidate_event) else None)
    \<and> ad_candidate_event_id a = ev_event_id candidate_event"
  {
    assume "\<not> admission_admitted a"
    with a assms show "yields (\<lambda>_. True) (finalize_result ((plain_result OUT_ADMISSION_REJECTED None dec)
                 \<lparr>wr_stream_admission_result := Some sar, wr_validation_decision := Some vd,
                  wr_admission_result := Some a, wr_validation_decision_evidence := vde\<rparr>)) (\<lambda>x. result_shape sg eid (primary_result x))"
      by (intro yields_finalize) (simp add: shape_defs admission_admitted_def stream_admitted_def)
  next
    assume "\<not> \<not> admission_admitted a"
    with a assms show "yields (\<lambda>_. True) (ws_bind (on_conn (\<lambda>c. pg_record c sg candidate_event)) (\<lambda>_.
        ws_bind (record_checkpoint IDEMPOTENCY_PERSISTENCE_RETURNED) (\<lambda>_.
          finalize_result ((plain_result OUT_ACCEPTED (Some candidate_event) dec)
            \<lparr>wr_stream_admission_result := Some sar, wr_validation_decision := Some vd,
             wr_admission_result := Some a, wr_validation_decision_evidence := vde\<rparr>)))) (\<lambda>x. result_shape sg eid (primary_result x))"
      by (intro yields_bind [OF yields_any] yields_checkpoint yields_finalize)
         (simp_all add: shape_defs admission_admitted_def stream_admitted_def)
  }
qed

lemma blocked_shape:
  assumes "decision_shape dec" and "id_verdict dec = MISS"
    and "\<forall>s. sar = Some s \<longrightarrow> sa_order_id s = sig_order_id sg \<and> stream_admitted s"
    and "invoke_validation rt e ctxt = Inr (d, ev)" and "vd_action d \<noteq> ALLOW" and "ev_event_id e = eid"
  shows "result_shape sg eid ((plain_result OUT_VALIDATION_BLOCKED None dec)\<lparr>wr_stream_admission_result := sar,
     wr_validation_decision := Some d, wr_validation_decision_evidence := ev\<rparr>)"
proof -
  obtain carrier where "ev = Some carrier" "vdr_observed_violation carrier \<noteq> None"
    "vr_candidate_event_id (vd_validation_result d) = ev_event_id e"
    by (rule validation_carrier [OF assms(4)]) (use assms(5) in blast)
  moreover have "vd_action d = BLOCK" using assms(5) by (cases "vd_action d") simp_all
  ultimately show ?thesis using assms by (simp add: shape_defs observed_rule_violation_def stream_admitted_def)
qed

lemma in_transaction_yields:
  assumes build: "\<And>a e. build a = Inr e \<Longrightarrow> ev_event_id e = eid"
  shows "yields at_rest (execute_in_transaction_command w rid oid amt ct build)
     (\<lambda>x. result_shape \<lparr>sig_request_id = rid, sig_command_type = ct, sig_order_id = oid, sig_amount = amt\<rparr> eid (primary_result x))"
    (is "yields _ _ ?Q")
  unfolding execute_in_transaction_command_def Let_def
  apply (intro yields_with_uow yields_checkpoint, rule yields_bind [OF check_yields], intro yields_checkpoint yields_if yields_rollback)
  subgoal for dec
    by (intro yields_bind [OF yields_lift] yields_finalize) (use replay_shape [of dec _ None] in simp)
  subgoal for dec
    by (intro yields_finalize) (use conflict_shape [of dec None] in simp)
  apply (rule yields_bind [OF prepare_yields], clarify, intro yields_checkpoint yields_if yields_rollback)
  subgoal for dec gate sar
    by (intro yields_finalize) (use verdict_cases [of dec] in \<open>simp add: shape_defs stream_admitted_def\<close>)
  apply (rule yields_bind [OF yields_any], intro yields_checkpoint, rule yields_lift_bind,
      rule yields_lift_bind, rule yields_lift_pair, intro yields_checkpoint yields_if yields_rollback)
  subgoal for dec gate sar events aggregate e d ev
    by (intro yields_finalize) (use verdict_cases [of dec] blocked_shape [of dec "Some sar"] build in simp)
  subgoal for dec gate sar events aggregate e d ev
    by (rule admission_yields) (use verdict_cases [of dec] build in \<open>auto elim: validation_carrier\<close>)
  done

lemma preliminary_yields:
  "yields at_rest (preliminary_read_phase sg oid)
     (\<lambda>read. case read of Inl x \<Rightarrow> result_shape sg eid (primary_result x) | Inr (dec, es) \<Rightarrow> decision_shape dec \<and> id_verdict dec = MISS)"
  unfolding preliminary_read_phase_def
  apply (intro yields_finally, rule yields_bind [OF check_yields], intro yields_checkpoint yields_if)
  subgoal for dec
    by (rule yields_bind [OF yields_lift], rule yields_bind [OF yields_finalize [where Q = "result_shape sg eid"]])
       (use replay_shape [of dec _ None] in \<open>auto intro: yields_return\<close>)
  subgoal for dec
    by (rule yields_bind [OF yields_finalize [where Q = "result_shape sg eid"]])
       (use conflict_shape [of dec None] in \<open>auto intro: yields_return\<close>)
  subgoal for dec
    by (rule yields_bind [OF yields_any], intro yields_checkpoint yields_return) (use verdict_cases [of dec] in simp)
  done

lemma pre_transaction_uow_yields:
  assumes "sig_order_id sg = oid" and "vd_action vd = ALLOW" and "vr_candidate_event_id (vd_validation_result vd) = ev_event_id e"
    and "ev_event_id e = eid"
  shows "yields at_rest (pre_transaction_uow w sg oid e v vd vde) (\<lambda>x. result_shape sg eid (primary_result x))"
  unfolding pre_transaction_uow_def
  apply (intro yields_with_uow yields_checkpoint, rule yields_bind [OF check_yields], intro yields_checkpoint yields_if yields_rollback)
  subgoal for dec
    by (intro yields_bind [OF yields_lift] yields_finalize) (use replay_shape [of dec] assms in simp)
  subgoal for dec
    by (intro yields_finalize) (use conflict_shape [of dec] assms in simp)
  apply (rule yields_bind [OF prepare_yields], clarify, intro yields_checkpoint yields_if yields_rollback)
  subgoal for dec gate sar
    by (intro yields_finalize) (use verdict_cases [of dec] assms in \<open>simp add: shape_defs stream_admitted_def\<close>)
  subgoal for dec gate sar
    by (rule admission_yields) (use verdict_cases [of dec] assms in simp_all)
  done

lemma pre_transaction_yields:
  assumes build: "\<And>a e. build a = Inr e \<Longrightarrow> ev_event_id e = eid"
  shows "yields at_rest (execute_pre_transaction_command w rid oid amt ct build)
     (\<lambda>x. result_shape \<lparr>sig_request_id = rid, sig_command_type = ct, sig_order_id = oid, sig_amount = amt\<rparr> eid (primary_result x))"
proof -
  let ?sg = "\<lparr>sig_request_id = rid, sig_command_type = ct, sig_order_id = oid, sig_amount = amt\<rparr>"
  have keep: "triple (\<lambda>c _. at_rest c) (preliminary_read_phase ?sg oid) (\<lambda>_ c _. at_rest c) (\<lambda>_ _ _. True)"
  proof (rule tripleI)
    fix s s' a
    assume s: "at_rest (ws_conn s)" and run: "preliminary_read_phase ?sg oid s = (s', Inr a)"
    let ?S = "set (schedule (ws_conn s))" and ?d = "committed (ws_conn s)"
    have "idle ?S ?d (ws_conn s)" using s by (simp add: idle_def)
    from triple_Inr [OF preliminary_read_triple this run] show "at_rest (ws_conn s')"
      by (auto simp: idle_def split: sum.splits)
  qed simp
  show ?thesis
    unfolding execute_pre_transaction_command_def Let_def
    apply (rule yields_triple_bind [OF preliminary_yields [where eid = eid] keep])
    subgoal for read
      apply (split sum.split, intro conjI allI impI)
      subgoal by (auto intro: yields_return)
      apply (split prod.split, intro allI impI, rule yields_lift_bind, rule yields_lift_bind, rule yields_lift_pair,
          intro yields_checkpoint yields_if)
      subgoal for _ dec es aggregate e d ev
        by (intro yields_finalize) (use blocked_shape [of dec None] build in simp)
      subgoal by (rule pre_transaction_uow_yields) (use build in \<open>auto elim: validation_carrier\<close>)
      done
    done
qed

lemma command_event_id: "aggregate_command ct a eid now rid amt = Inr e \<Longrightarrow> ev_event_id e = eid"
  by (cases ct) (auto simp: aggregate_create_def aggregate_pay_def OrderEvent_create_def res_simps Let_def split: if_splits)

lemma durable_command_shape:
  assumes "conn_inv c" and "own c = empty_db" and "durable_command w traced c cmd = (c', Inr res)"
  shows "result_shape (signature_of cmd) (cmd_event_id cmd) (primary_result res)"
proof -
  let ?m = "execute_command w (cmd_request_id cmd) (cmd_order_id cmd) (cmd_amount cmd) (cmd_type cmd)
       (\<lambda>a. aggregate_command (cmd_type cmd) a (cmd_event_id cmd) (cmd_now cmd) (cmd_request_id cmd) (cmd_amount cmd))"
  let ?s = "\<lparr>ws_conn = c, ws_finished = False,
      ws_collector = if traced then Some (new_collector (cfg_validation_placement (wsd_config w))) else None\<rparr>"
  have y: "yields at_rest ?m (\<lambda>x. result_shape (signature_of cmd) (cmd_event_id cmd) (primary_result x))"
    unfolding execute_command_def signature_of_def
    by (cases "cfg_validation_placement (wsd_config w)")
       (simp_all add: in_transaction_yields [OF command_event_id] pre_transaction_yields [OF command_event_id])
  obtain s' where "?m ?s = (s', Inr res)"
    using assms(3) unfolding durable_command_eq run_command_def by (auto split: prod.splits)
  from yieldsD [OF y _ this] assms(1,2) show ?thesis by simp
qed

text \<open>The complete answer to a request: the shape, and the accepted event of the candidate.\<close>

definition answered :: "RequestSignature \<Rightarrow> string \<Rightarrow> PostgresWriteSideResult \<Rightarrow> bool" where
  "answered sg eid r \<longleftrightarrow> result_shape sg eid r
     \<and> (wr_outcome r = OUT_ACCEPTED \<longrightarrow> (\<exists>e. wr_accepted_event r = Some e \<and> ev_event_id e = eid
          \<and> ev_order_id e = sig_order_id sg \<and> ev_request_id e = sig_request_id sg
          \<and> \<not> py_blank (sig_order_id sg) \<and> \<not> py_blank (sig_request_id sg)))"

lemma accepted_identity:
  assumes "accepted_in S d0 sg e d"
  shows "ev_order_id e = sig_order_id sg" "ev_request_id e = sig_request_id sg"
    "\<not> py_blank (sig_order_id sg)" "\<not> py_blank (sig_request_id sg)"
proof -
  from assms have "signature_for sg e" and d: "legal_db d"
    and l: "lookup_request d (sig_request_id sg) = Some \<lparr>rec_signature = normal_signature sg, rec_accepted_event = e\<rparr>"
    by (auto simp: accepted_in_def)
  then show "ev_order_id e = sig_order_id sg" "ev_request_id e = sig_request_id sg" by (auto simp: signature_for_def)
  with lookup_agrees(3,4) [OF d l] show "\<not> py_blank (sig_order_id sg)" "\<not> py_blank (sig_request_id sg)" by simp_all
qed

lemma durable_command_answered:
  assumes "conn_inv c" and "own c = empty_db" and "uuid_in (cmd_event_id cmd) = Some (cmd_event_id cmd)"
    and "durable_command w traced c cmd = (c', Inr res)"
  shows "answered (signature_of cmd) (cmd_event_id cmd) (primary_result res)"
  using durable_command_shape [OF assms(1,2,4)] durable_command_post [OF assms] accepted_identity
  by (auto simp: answered_def command_post_def)

section \<open>Governance of a result\<close>

text \<open>The verdict that rejected an admission.\<close>

definition rejection_verdict :: "PostgresWriteSideResult \<Rightarrow> AdmissionVerdict" where
  "rejection_verdict r = (case wr_admission_result r of Some a \<Rightarrow> ad_verdict a
     | None \<Rightarrow> (case wr_stream_admission_result r of Some s \<Rightarrow> sa_verdict s | None \<Rightarrow> ADMITTED))"

text \<open>The specified response to a result; \<open>None\<close> is a refusal.\<close>

definition governed_response :: "PostgresWriteSideResult \<Rightarrow> RuntimeDecisionResponse option" where
  "governed_response r =
     (case wr_outcome r of
        OUT_ACCEPTED \<Rightarrow> Some USE_CURRENT_RESULT
      | OUT_REPLAY \<Rightarrow> Some RETURN_PRIOR_ACCEPTED_RESULT
      | OUT_CONFLICT \<Rightarrow> Some BLOCK_CURRENT_CONTINUATION
      | OUT_VALIDATION_BLOCKED \<Rightarrow> Some BLOCK_CURRENT_CONTINUATION
      | OUT_ADMISSION_REJECTED \<Rightarrow>
          if rejection_verdict r = INFRASTRUCTURE_ERROR then Some REQUIRE_ESCALATION else None)"

lemma require_reason_not_blank: "\<not> py_blank (require_reason reason source)"
proof -
  have "\<not> py_blank (''Missing explicit reason from '' @ t)" for t by (simp add: py_blank_iff py_isspace_def)
  then show ?thesis by (auto simp: require_reason_def simp del: append.simps split: option.splits)
qed

lemma map_status_total:
  assumes "map_of STATUS_MAPPINGS tst = Some m" and "\<not> py_blank tst" and "\<not> py_blank reason"
    and "map_of evidence ''technical_status'' = None"
  shows "\<exists>o'. map_runtime_technical_status oid tst boundary reason context evidence = Inr o'
    \<and> so_boundary o' = boundary \<and> so_category o' = tm_category m \<and> so_code o' = tm_code m \<and> so_ok o' = tm_ok m"
  using assms by (simp add: map_runtime_technical_status_def normalize_technical_status_def mapping_for_status_def
      merge_technical_status_into_evidence_def SemanticOutcome_init_def)

lemma result_evidence_fresh: "map_of (evidence_from_result r) ''technical_status'' = None"
  by (simp add: evidence_from_result_def Let_def)

lemma agreed_le_one:
  assumes "set xs \<subseteq> {None, Some y}"
  shows "\<exists>z. agreed_identity name xs = Inr z"
proof -
  have "set (List.map_filter id xs) \<subseteq> {y}" using assms by (force simp: List.map_filter_def)
  then have "card (set (List.map_filter id xs)) \<le> 1" using card_mono [of "{y}"] by simp
  then show ?thesis by (simp add: agreed_identity_def)
qed

lemma context_total:
  assumes sh: "result_shape sg eid r" and acc: "wr_outcome r = OUT_ACCEPTED \<Longrightarrow> \<exists>e. wr_accepted_event r = Some e \<and> ev_order_id e = sig_order_id sg"
  shows "\<exists>ctxt. context_from_result r = Inr ctxt"
proof -
  let ?e = "accepted_event_from_result r" and ?rec = "id_record (wr_idempotency_decision r)"
  obtain o' q where o': "set [map_option ev_order_id ?e, map_option sa_order_id (wr_stream_admission_result r),
        map_option (\<lambda>record. sig_order_id (rec_signature record)) ?rec] \<subseteq> {None, Some o'}"
    and q: "set [map_option ev_request_id ?e,
        map_option (\<lambda>record. sig_request_id (rec_signature record)) ?rec] \<subseteq> {None, Some q}"
  proof (cases "id_verdict (wr_idempotency_decision r) = MISS")
    case True
    then have rec: "?rec = None" using sh by (simp add: result_shape_def decision_shape_def)
    have "?e = None \<or> (\<exists>e. ?e = Some e \<and> ev_order_id e = sig_order_id sg)"
      using sh acc rec by (auto simp: result_shape_def accepted_event_from_result_def True split: PostgresWriteSideOutcome.splits)
    then show ?thesis using that [of "sig_order_id sg"] rec sh
      by (cases "wr_stream_admission_result r"; cases ?e) (auto simp: result_shape_def)
  next
    case False
    with sh obtain rec where rec: "?rec = Some rec" "sig_order_id (rec_signature rec) = ev_order_id (rec_accepted_event rec)"
      "sig_request_id (rec_signature rec) = ev_request_id (rec_accepted_event rec)"
      by (auto simp: result_shape_def decision_shape_def)
    from sh False have "wr_stream_admission_result r = None" "?e = Some (rec_accepted_event rec)"
      by (auto simp: result_shape_def accepted_event_from_result_def rec(1) split: PostgresWriteSideOutcome.splits option.splits)
    with that rec show ?thesis by auto
  qed
  obtain y z where "order_id_from_result r ?e = Inr y" "request_id_from_result r ?e = Inr z"
    using agreed_le_one [OF o'] agreed_le_one [OF q] unfolding order_id_from_result_def request_id_from_result_def by blast
  then show ?thesis by (simp add: context_from_result_def Let_def)
qed

lemma status_table:
  "map_of STATUS_MAPPINGS ''WRITE_SIDE_ACCEPTED'' = Some (status_mapping True CAT_VALID CODE_SEMANTICALLY_VALID SEV_INFO RISK_LOW REV_REVERSIBLE)"
  "map_of STATUS_MAPPINGS ''IDEMPOTENT_REPLAY'' = Some (status_mapping True CAT_RETRY_CLASSIFIED CODE_IDEMPOTENT_REPLAY_ALLOWED SEV_INFO RISK_LOW REV_REVERSIBLE)"
  "map_of STATUS_MAPPINGS ''IDEMPOTENCY_CONFLICT'' = Some (status_mapping False CAT_BLOCK_REQUIRED CODE_SEMANTIC_CONFLICT_DETECTED SEV_ERROR RISK_HIGH REV_UNKNOWN)"
  "map_of STATUS_MAPPINGS ''COMPASS_VALIDATION_BLOCKED'' = Some (status_mapping False CAT_BLOCK_REQUIRED CODE_SEMANTIC_CONFLICT_DETECTED SEV_ERROR RISK_HIGH REV_UNKNOWN)"
  "map_of STATUS_MAPPINGS ''CONCURRENT_STATE_STALENESS'' = Some (status_mapping False CAT_CONCURRENCY_UNCERTAIN CODE_CONCURRENCY_UNCERTAIN SEV_WARNING RISK_MEDIUM REV_REVERSIBLE)"
  "map_of STATUS_MAPPINGS ''LOCK_TIMEOUT'' = Some (status_mapping False CAT_CONCURRENCY_UNCERTAIN CODE_CONCURRENCY_UNCERTAIN SEV_WARNING RISK_MEDIUM REV_REVERSIBLE)"
  "map_of STATUS_MAPPINGS ''WRITE_SIDE_INFRASTRUCTURE_ERROR'' = Some (status_mapping False CAT_ESCALATION_REQUIRED CODE_REQUIRES_OPERATOR_REVIEW SEV_ERROR RISK_HIGH REV_UNKNOWN)"
  by (simp_all add: STATUS_MAPPINGS_def)

lemma status_not_blank:
  "\<not> py_blank ''WRITE_SIDE_ACCEPTED''" "\<not> py_blank ''IDEMPOTENT_REPLAY''" "\<not> py_blank ''IDEMPOTENCY_CONFLICT''"
  "\<not> py_blank ''COMPASS_VALIDATION_BLOCKED''" "\<not> py_blank ''CONCURRENT_STATE_STALENESS''" "\<not> py_blank ''LOCK_TIMEOUT''"
  "\<not> py_blank ''WRITE_SIDE_INFRASTRUCTURE_ERROR''"
  by (simp_all add: py_blank_iff py_isspace_def)

lemmas status_facts = governed_response_def status_table status_not_blank validate_result_shape_def technical_status_for_result_def
  reason_for_result_def result_shape_def SUPPORTED_RESPONSES_def

lemma status_of_shape:
  assumes "result_shape sg eid r" and acc: "wr_outcome r = OUT_ACCEPTED \<Longrightarrow> wr_accepted_event r \<noteq> None"
  obtains tst and m :: RuntimeTechnicalStatusMapping and reason where "validate_result_shape r = Inr ()" and "technical_status_for_result r = Inr tst"
    and "reason_for_result r tst = Inr reason" and "\<not> py_blank tst" and "map_of STATUS_MAPPINGS tst = Some m"
    and "map_of SUPPORTED_RESPONSES (AT_LAYER_1_WRITE_SIDE, tm_category m, tm_code m) =
      governed_response r"
proof (cases "wr_outcome r")
  case OUT_ACCEPTED
  show ?thesis by (rule that [of "''WRITE_SIDE_ACCEPTED''"]) (use assms OUT_ACCEPTED in \<open>auto simp: status_facts split: option.splits\<close>)
next
  case OUT_REPLAY
  show ?thesis by (rule that [of "''IDEMPOTENT_REPLAY''"])
      (use assms OUT_REPLAY in \<open>auto simp: status_facts accepted_event_from_result_def decision_shape_def split: option.splits\<close>)
next
  case OUT_CONFLICT
  show ?thesis by (rule that [of "''IDEMPOTENCY_CONFLICT''"]) (use assms OUT_CONFLICT in \<open>auto simp: status_facts split: option.splits\<close>)
next
  case OUT_VALIDATION_BLOCKED
  then obtain vd where "wr_validation_decision r = Some vd" using assms by (auto simp: result_shape_def)
  with OUT_VALIDATION_BLOCKED show ?thesis
    by (intro that [of "''COMPASS_VALIDATION_BLOCKED''"]) (use assms in \<open>auto simp: status_facts split: option.splits\<close>)
next
  case OUT_ADMISSION_REJECTED
  have src: "\<exists>m. admission_rejection_source r = Inr (rejection_verdict r, m)" "rejection_verdict r \<noteq> ADMITTED"
    using assms OUT_ADMISSION_REJECTED
    by (auto simp: result_shape_def admission_rejection_source_def rejection_verdict_def split: option.splits)
  then obtain m where m: "admission_rejection_source r = Inr (rejection_verdict r, m)" by blast
  have v: "validate_result_shape r = Inr ()"
    using assms OUT_ADMISSION_REJECTED m by (auto simp: validate_result_shape_def result_shape_def split: option.splits)
  show ?thesis
  proof (cases "rejection_verdict r")
    case ADMITTED
    with src(2) show ?thesis by simp
  next
    case STALE_WRITE
    show ?thesis by (rule that [OF v _ _ _ status_table(5)]) (simp_all add: OUT_ADMISSION_REJECTED m STALE_WRITE
        status_not_blank technical_status_for_result_def reason_for_result_def SUPPORTED_RESPONSES_def governed_response_def)
  next
    case LOCK_TIMEOUT
    show ?thesis by (rule that [OF v _ _ _ status_table(6)]) (simp_all add: OUT_ADMISSION_REJECTED m LOCK_TIMEOUT
        status_not_blank technical_status_for_result_def reason_for_result_def SUPPORTED_RESPONSES_def governed_response_def)
  next
    case INFRASTRUCTURE_ERROR
    show ?thesis by (rule that [OF v _ _ _ status_table(7)]) (simp_all add: OUT_ADMISSION_REJECTED m INFRASTRUCTURE_ERROR
        status_not_blank technical_status_for_result_def reason_for_result_def SUPPORTED_RESPONSES_def governed_response_def)
  qed
qed

lemma feedback_total:
  assumes sh: "result_shape sg eid r" and acc: "wr_outcome r = OUT_ACCEPTED \<Longrightarrow> \<exists>e. wr_accepted_event r = Some e \<and> ev_order_id e = sig_order_id sg"
  obtains fb and m :: RuntimeTechnicalStatusMapping where "map_postgres_write_side_result_to_semantic_rule_feedback oid r = Inr fb"
    and "so_boundary (fb_semantic_outcome fb) = AT_LAYER_1_WRITE_SIDE" and "so_category (fb_semantic_outcome fb) = tm_category m"
    and "so_code (fb_semantic_outcome fb) = tm_code m"
    and "fb_rule_refinement fb = (if wr_outcome r = OUT_VALIDATION_BLOCKED then observed_rule_violation r else None)"
    and "map_of SUPPORTED_RESPONSES (AT_LAYER_1_WRITE_SIDE, tm_category m, tm_code m) =
      governed_response r"
proof -
  obtain tst m reason where t: "validate_result_shape r = Inr ()" "technical_status_for_result r = Inr tst"
    "reason_for_result r tst = Inr reason" "\<not> py_blank tst" "map_of STATUS_MAPPINGS tst = Some m"
    and resp: "map_of SUPPORTED_RESPONSES (AT_LAYER_1_WRITE_SIDE, tm_category m, tm_code m) =
      governed_response r"
    by (rule status_of_shape [OF sh]) (use acc in auto)
  obtain ctxt where ctxt: "context_from_result r = Inr ctxt" using context_total [OF sh acc] by blast
  from map_status_total [OF t(5,4) require_reason_not_blank result_evidence_fresh [of r]]
  obtain o' where o': "map_postgres_write_side_result_to_semantic_outcome oid r [] [] = Inr o'"
    "so_boundary o' = AT_LAYER_1_WRITE_SIDE" "so_category o' = tm_category m" "so_code o' = tm_code m"
    by (fastforce simp: map_postgres_write_side_result_to_semantic_outcome_def t ctxt
        map_write_side_admission_status_to_semantic_outcome_def)
  have "wr_outcome r = OUT_VALIDATION_BLOCKED \<Longrightarrow> observed_rule_violation r \<noteq> None" using sh by (simp add: result_shape_def)
  then have "feedback_from_source o' r = Inr \<lparr>fb_semantic_outcome = o',
      fb_rule_refinement = if wr_outcome r = OUT_VALIDATION_BLOCKED then observed_rule_violation r else None\<rparr>"
    by (cases "wr_outcome r = OUT_VALIDATION_BLOCKED") (auto simp: feedback_from_source_def)
  with that [OF _ _ _ _ _ resp] o' show ?thesis
    by (simp add: map_postgres_write_side_result_to_semantic_rule_feedback_def)
qed

lemma explanation_not_blank: "\<not> py_blank (explain_response response fb)"
proof -
  have "\<not> py_blank (''Current downstream continuation is blocked'' @ t)" for t by (simp add: py_blank_iff py_isspace_def)
  then show ?thesis
    by (cases response) (auto simp: py_blank_iff py_isspace_def split: option.splits)
qed

lemma evaluate_supported:
  assumes "so_boundary (fb_semantic_outcome fb) = AT_LAYER_1_WRITE_SIDE"
    and "map_of SUPPORTED_RESPONSES (AT_LAYER_1_WRITE_SIDE, so_category (fb_semantic_outcome fb), so_code (fb_semantic_outcome fb)) = resp"
    and "fb_rule_refinement fb \<noteq> None \<Longrightarrow> resp = Some BLOCK_CURRENT_CONTINUATION"
  shows "case resp of
      Some response \<Rightarrow> \<exists>ev. evaluate_postgres_write_side_runtime_decision fb = Inr ev \<and> rd_response (rde_decision ev) = response
        \<and> rde_source_feedback ev = fb
    | None \<Rightarrow> \<exists>m. evaluate_postgres_write_side_runtime_decision fb = Inl (PostgresWriteSideRuntimeDecisionRefused m)"
  using assms explanation_not_blank
  by (cases resp; cases "fb_rule_refinement fb") (auto simp: evaluate_postgres_write_side_runtime_decision_def RuntimeDecision_from_evaluation_def
      RuntimeDecisionEvaluation_from_evaluation_def Let_def simp del: explain_response.simps)

section \<open>Properties\<close>

text \<open>
  C14: Governance of a durable command. Whatever a durable command returns, among any interference and
  failures, the semantic mapping and the rule feedback succeed, the feedback carries an exact rule
  violation if and only if validation blocked, and the runtime decision is: use the current result
  for ACCEPTED, return the prior result for REPLAY, block for CONFLICT and VALIDATION_BLOCKED,
  escalate for an admission rejected by an infrastructure error, and a typed refusal, never a
  positive decision, for an admission rejected as stale or by a lock timeout.
\<close>

theorem command_governance:
  assumes "conn_inv c" and "own c = empty_db" and "uuid_in (cmd_event_id cmd) = Some (cmd_event_id cmd)"
    and "durable_command w traced c cmd = (c', Inr res)"
  shows "\<exists>fb. map_postgres_write_side_result_to_semantic_rule_feedback oid (primary_result res) = Inr fb
    \<and> (fb_rule_refinement fb \<noteq> None \<longleftrightarrow> wr_outcome (primary_result res) = OUT_VALIDATION_BLOCKED)
    \<and> (case governed_response (primary_result res) of
       Some response \<Rightarrow> \<exists>ev. evaluate_postgres_write_side_runtime_decision fb = Inr ev
          \<and> rd_response (rde_decision ev) = response \<and> rde_source_feedback ev = fb
     | None \<Rightarrow> \<exists>m. evaluate_postgres_write_side_runtime_decision fb = Inl (PostgresWriteSideRuntimeDecisionRefused m))"
proof -
  let ?r = "primary_result res"
  have sh: "result_shape (signature_of cmd) (cmd_event_id cmd) ?r"
    and acc: "wr_outcome ?r = OUT_ACCEPTED \<Longrightarrow> \<exists>e. wr_accepted_event ?r = Some e \<and> ev_order_id e = sig_order_id (signature_of cmd)"
    using durable_command_answered [OF assms] by (auto simp: answered_def)
  obtain fb and m :: RuntimeTechnicalStatusMapping where fb: "map_postgres_write_side_result_to_semantic_rule_feedback oid ?r = Inr fb"
    "so_boundary (fb_semantic_outcome fb) = AT_LAYER_1_WRITE_SIDE" "so_category (fb_semantic_outcome fb) = tm_category m"
    "so_code (fb_semantic_outcome fb) = tm_code m"
    "fb_rule_refinement fb = (if wr_outcome ?r = OUT_VALIDATION_BLOCKED then observed_rule_violation ?r else None)"
    and resp: "map_of SUPPORTED_RESPONSES (AT_LAYER_1_WRITE_SIDE, tm_category m, tm_code m) =
      governed_response ?r"
    by (rule feedback_total [OF sh acc, of oid])
  have "fb_rule_refinement fb \<noteq> None \<longleftrightarrow> wr_outcome ?r = OUT_VALIDATION_BLOCKED"
    using fb(5) sh by (auto simp: result_shape_def)
  moreover from evaluate_supported [OF fb(2), unfolded fb(3,4), OF resp] this
  have "case governed_response ?r of
       Some response \<Rightarrow> \<exists>ev. evaluate_postgres_write_side_runtime_decision fb = Inr ev
          \<and> rd_response (rde_decision ev) = response \<and> rde_source_feedback ev = fb
     | None \<Rightarrow> \<exists>m. evaluate_postgres_write_side_runtime_decision fb = Inl (PostgresWriteSideRuntimeDecisionRefused m)"
    by (simp add: governed_response_def)
  ultimately show ?thesis using fb(1) by blast
qed

theorem command_governance_witness:
  "\<exists>c' res fb ev. durable_command (sample_write_side IN_TRANSACTION Optimistic) False sample_conn sample_command = (c', Inr res)
     \<and> map_postgres_write_side_result_to_semantic_rule_feedback ''x'' (primary_result res) = Inr fb
     \<and> evaluate_postgres_write_side_runtime_decision fb = Inr ev \<and> rd_response (rde_decision ev) = USE_CURRENT_RESULT"
proof -
  obtain c' r where run: "durable_command (sample_write_side IN_TRANSACTION Optimistic) False sample_conn sample_command
      = (c', Inr (Primary r))" "wr_outcome r = OUT_ACCEPTED" by (rule sample_run)
  from command_governance [OF sample_idle(1,2,4) run(1), of "''x''"] run show ?thesis by (auto simp: governed_response_def)
qed

text \<open>
  C16: Re-invocation authority. For a result of a durable command, authority for one more invocation
  is issued exactly when the stream lock was not available before validation was reached, or the
  append found that the stream had advanced; in that case the command committed nothing, the
  authority names the request of the command, and no runtime decision is given.
\<close>

theorem reinvocation_authority_exact:
  assumes "conn_inv c" and "own c = empty_db" and "uuid_in (cmd_event_id cmd) = Some (cmd_event_id cmd)"
    and "durable_command w traced c cmd = (c', Inr res)"
  shows "(evaluate_postgres_write_side_reinvocation_authority (signature_of cmd) (primary_result res)
        = Inr (ReinvocationAuthorization (signature_of cmd))
      \<longleftrightarrow> wr_outcome (primary_result res) = OUT_ADMISSION_REJECTED
        \<and> (rejection_verdict (primary_result res) = LOCK_TIMEOUT \<and> wr_validation_decision (primary_result res) = None
           \<or> (\<exists>a m. wr_admission_result (primary_result res) = Some a \<and> ad_verdict a = STALE_WRITE
                \<and> ad_mismatch_evidence a = Some m \<and> expected_current_version m < observed_current_version m)))
    \<and> (\<forall>sg. evaluate_postgres_write_side_reinvocation_authority (signature_of cmd) (primary_result res)
          = Inr (ReinvocationAuthorization sg) \<longrightarrow>
         sg = signature_of cmd \<and> grows_by (set (schedule c)) (committed c) (committed c')
         \<and> governed_response (primary_result res) = None)"
proof -
  let ?r = "primary_result res" and ?sg = "signature_of cmd"
  note sh = durable_command_shape [OF assms(1,2,4)]
  have "evaluate_postgres_write_side_reinvocation_authority ?sg ?r = Inr (ReinvocationAuthorization sg)
      \<longleftrightarrow> sg = ?sg \<and> (is_eligible_preparation_lock_timeout ?sg ?r \<or> is_eligible_append_version_mismatch ?sg ?r)" for sg
    by (auto simp: evaluate_postgres_write_side_reinvocation_authority_def NoReinvocationAuthority_from_evaluation_def)
  moreover have "is_eligible_preparation_lock_timeout ?sg ?r \<longleftrightarrow> wr_outcome ?r = OUT_ADMISSION_REJECTED
      \<and> rejection_verdict ?r = LOCK_TIMEOUT \<and> wr_validation_decision ?r = None"
    using sh by (auto simp: is_eligible_preparation_lock_timeout_def result_shape_def rejection_verdict_def decision_shape_def
        split: option.splits)
  moreover have "is_eligible_append_version_mismatch ?sg ?r \<longleftrightarrow> wr_outcome ?r = OUT_ADMISSION_REJECTED
      \<and> (\<exists>a m. wr_admission_result ?r = Some a \<and> ad_verdict a = STALE_WRITE
                \<and> ad_mismatch_evidence a = Some m \<and> expected_current_version m < observed_current_version m)"
    using sh by (auto simp: is_eligible_append_version_mismatch_def result_shape_def decision_shape_def split: option.splits)
  moreover have "grows_by (set (schedule c)) (committed c) (committed c')" if "wr_outcome ?r = OUT_ADMISSION_REJECTED"
    using durable_command_post [OF assms] that by (simp add: command_post_def)
  ultimately show ?thesis by (auto simp: governed_response_def rejection_verdict_def split: option.splits)
qed

definition locked_conn :: pg_conn where
  "locked_conn = sample_conn\<lparr>schedule := [Quiet, Lock_busy]\<rparr>"

lemma locked_run:
  "\<exists>c' r. durable_command (sample_write_side IN_TRANSACTION Pessimistic) False locked_conn sample_command = (c', Inr (Primary r))
    \<and> wr_outcome r = OUT_ADMISSION_REJECTED \<and> rejection_verdict r = LOCK_TIMEOUT \<and> wr_validation_decision r = None"
proof -
  let ?c1 = "sample_conn\<lparr>schedule := [Lock_busy]\<rparr>"
  have chk: "pg_check locked_conn sg = (?c1, Inr \<lparr>id_verdict = MISS, id_reason = ''No prior request with this request_id'', id_record = None\<rparr>)" for sg
    by (simp add: pg_check_def statement_def take_event_def classify_request_def load_record_def locked_conn_def sample_conn_def visible_def)
  have prep: "\<exists>m. gate_prepare_stream (new_gate Pessimistic) ?c1 oid = (new_gate Pessimistic, sample_conn,
      Inr \<lparr>sa_verdict = LOCK_TIMEOUT, sa_reason = m, sa_order_id = oid\<rparr>)" for oid
    by (simp add: gate_prepare_stream_def new_gate_def try_lock_stream_def take_event_def sample_conn_def)
  obtain m where "gate_prepare_stream (new_gate Pessimistic) ?c1 (cmd_order_id sample_command) = (new_gate Pessimistic, sample_conn,
      Inr \<lparr>sa_verdict = LOCK_TIMEOUT, sa_reason = m, sa_order_id = cmd_order_id sample_command\<rparr>)"
    using prep by blast
  moreover have "\<not> autocommit locked_conn" by (simp add: locked_conn_def sample_conn_def)
  ultimately show ?thesis
    unfolding durable_command_eq run_command_def execute_command_def sample_write_side_def
    by (simp add: execute_in_transaction_command_def Let_def with_uow_def ws_bind_def record_checkpoint_def on_conn_def chk
        prepare_stream_def stream_admitted_def uow_rollback_def finalize_result_def PostgresWriteSideResult_init_def
        rejection_verdict_def)
qed

theorem reinvocation_authority_exact_witness:
  "\<exists>c' res. durable_command (sample_write_side IN_TRANSACTION Pessimistic) False locked_conn sample_command = (c', Inr res)
     \<and> evaluate_postgres_write_side_reinvocation_authority (signature_of sample_command) (primary_result res)
        = Inr (ReinvocationAuthorization (signature_of sample_command))"
proof -
  obtain c' r where run: "durable_command (sample_write_side IN_TRANSACTION Pessimistic) False locked_conn sample_command = (c', Inr (Primary r))"
    "wr_outcome r = OUT_ADMISSION_REJECTED" "rejection_verdict r = LOCK_TIMEOUT" "wr_validation_decision r = None"
    using locked_run by blast
  have "conn_inv locked_conn" "own locked_conn = empty_db"
    using sample_idle by (simp_all add: locked_conn_def conn_inv_def visible_def)
  from reinvocation_authority_exact [OF this sample_idle(4) run(1)] run show ?thesis by auto
qed

end
