(* ===== verification/Python_Json.thy ===== *)
theory Python_Json
  imports Postgres_Store "HOL-Library.List_Lexorder" "HOL-Library.Char_ord"
begin

text \<open>
  JSON-safe values, \<open>src/compass/runtime/json_types.py\<close>, and the parts of the receipt serialiser
  that do not depend on receipts: detached copies with integers of 64 bits, exact key sets, and
  the comparison of serialised values of \<open>src/storage/postgres_decision_receipt_store.py\<close>. The
  constructor \<open>UUID(str)\<close> of Python is here too; a \<open>UUID\<close> is represented by its canonical spelling.
\<close>

section \<open>UUID\<close>

text \<open>\<open>s.replace(pat, '')\<close> for a non-empty pattern.\<close>

fun remove_all :: "string \<Rightarrow> string \<Rightarrow> string" where
  "remove_all pat [] = []"
| "remove_all pat (c # s) =
     (if prefix pat (c # s) then remove_all pat (drop (length pat - 1) s) else c # remove_all pat s)"

definition strip_braces :: "string \<Rightarrow> string" where
  "strip_braces s = rev (dropWhile (\<lambda>c. c \<in> set ''{}'') (rev (dropWhile (\<lambda>c. c \<in> set ''{}'') s)))"

text \<open>The digits of \<open>int(s, 16)\<close>: single underscores may separate digits, and follow a prefix \<open>0x\<close>;
  \<open>prev\<close> says whether an underscore may come next.\<close>

fun hex_run :: "bool \<Rightarrow> string \<Rightarrow> string option" where
  "hex_run prev [] = (if prev then Some [] else None)"
| "hex_run prev (c # s) =
     (if c = CHR ''_'' then (if prev then hex_run False s else None)
      else if is_hex c then map_option ((#) c) (hex_run True s)
      else None)"

definition int_base16_digits :: "string \<Rightarrow> (bool \<times> string) option" where
  "int_base16_digits s =
     (let t = map lower_char (py_strip s);
          neg = (t \<noteq> [] \<and> hd t = CHR ''-'');
          u = (if t \<noteq> [] \<and> hd t \<in> set ''+-'' then tl t else t)
      in map_option (Pair neg)
           (if prefix ''0x'' u then (if drop 2 u = [] then None else hex_run True (drop 2 u)) else hex_run False u))"

definition uuid_spelling :: "string \<Rightarrow> string" where
  "uuid_spelling h = take 8 h @ ''-'' @ take 4 (drop 8 h) @ ''-'' @ take 4 (drop 12 h) @ ''-'' @ take 4 (drop 16 h) @ ''-'' @ drop 20 h"

definition UUID_of :: "string \<Rightarrow> string option" where
  "UUID_of s =
     (let h = remove_all ''-'' (strip_braces (remove_all ''uuid:'' (remove_all ''urn:'' s)))
      in if length h \<noteq> 32 then None
         else case int_base16_digits h of
           None \<Rightarrow> None
         | Some (neg, ds) \<Rightarrow>
             if neg \<and> (\<exists>c \<in> set ds. c \<noteq> CHR ''0'') then None
             else Some (uuid_spelling (replicate (32 - length ds) CHR ''0'' @ ds)))"

abbreviation is_uuid :: "string \<Rightarrow> bool" where
  "is_uuid s \<equiv> UUID_of s = Some s"

lemma remove_all_absent: "pat \<noteq> [] \<Longrightarrow> hd pat \<notin> set s \<Longrightarrow> remove_all pat s = s"
proof (induction s)
  case (Cons c s)
  have "\<not> prefix pat (c # s)"
  proof
    assume "prefix pat (c # s)"
    from set_mono_prefix [OF this] Cons.prems show False by (cases pat) auto
  qed
  with Cons show ?case by simp
qed simp

lemma remove_all_char: "remove_all [c] s = filter (\<lambda>x. x \<noteq> c) s"
  by (induction s) auto

lemma is_hex_code: "is_hex c \<Longrightarrow> of_char c \<in> {48..57} \<union> {97..102 :: nat}"
  by (auto simp: is_hex_def is_digit_def Let_def)

lemma is_hex_plain:
  assumes "is_hex c"
  shows "c \<notin> set ''+-_xXu{}''"
proof
  assume "c \<in> set ''+-_xXu{}''"
  then have "of_char c \<in> {43, 45, 95, 120, 88, 117, 123, 125 :: nat}" by auto
  with is_hex_code [OF assms] show False by auto
qed

lemma hex_run_digits: "list_all is_hex s \<Longrightarrow> prev \<or> s \<noteq> [] \<Longrightarrow> hex_run prev s = Some s"
proof (induction s arbitrary: prev)
  case (Cons c s)
  with is_hex_plain [of c] have "c \<noteq> CHR ''_''" by auto
  with Cons show ?case by simp
qed simp

lemma is_hex_lower: "is_hex c \<Longrightarrow> lower_char c = c"
  using is_hex_code [of c] by (auto simp: lower_char_def Let_def)

lemma is_hex_not_space: "is_hex c \<Longrightarrow> \<not> py_isspace c"
  using is_hex_code [of c] by (auto simp: py_isspace_def Let_def)

lemma int_base16_hex:
  assumes "list_all is_hex h" and "h \<noteq> []"
  shows "int_base16_digits h = Some (False, h)"
proof -
  have plain: "\<forall>c \<in> set h. is_hex c" using assms(1) by (simp add: list_all_iff)
  have "py_strip h = h" using plain assms(2) is_hex_not_space by (intro py_strip_id) auto
  moreover have "map lower_char h = h" using plain is_hex_lower by (intro map_idI) auto
  moreover have "hd h \<notin> set ''+-''" using plain assms(2) is_hex_plain [of "hd h"] by auto
  moreover have "\<not> prefix ''0x'' h" 
  proof
    assume "prefix ''0x'' h"
    from set_mono_prefix [OF this] plain have "is_hex (CHR ''x'')" by auto
    from is_hex_plain [OF this] show False by simp
  qed
  ultimately show ?thesis using assms(2) hex_run_digits [OF assms(1), of False]
    by (simp add: int_base16_digits_def Let_def)
qed

lemma hex_run_hex: "hex_run prev s = Some ds \<Longrightarrow> list_all is_hex ds \<and> length ds \<le> length s"
proof (induction prev s arbitrary: ds rule: hex_run.induct)
  case (2 prev c s)
  then show ?case by (fastforce split: if_splits)
qed (simp split: if_splits)

lemma dropWhile_absent: "\<forall>x \<in> set xs. \<not> P x \<Longrightarrow> dropWhile P xs = xs"
  by (cases xs) simp_all

lemma spelling_is_uuid:
  assumes "list_all is_hex h" and "length h = 32"
  shows "is_uuid (uuid_spelling h)"
proof -
  have hex: "\<forall>c \<in> set h. is_hex c" using assms(1) by (simp add: list_all_iff)
  have parts: "set (uuid_spelling h) \<subseteq> set h \<union> {CHR ''-''}"
    by (auto simp: uuid_spelling_def dest: in_set_takeD in_set_dropD)
  have "\<not> is_hex (CHR ''u'')" "\<not> is_hex (CHR ''{'')" "\<not> is_hex (CHR ''}'')"
    using is_hex_plain by fastforce+
  then have "CHR ''u'' \<notin> set (uuid_spelling h)" "CHR ''{'' \<notin> set (uuid_spelling h)" "CHR ''}'' \<notin> set (uuid_spelling h)"
    using parts hex by auto
  then have strip: "remove_all ''urn:'' (uuid_spelling h) = uuid_spelling h" "remove_all ''uuid:'' (uuid_spelling h) = uuid_spelling h"
    and none: "\<forall>c \<in> set (uuid_spelling h). \<not> c \<in> set ''{}''"
    by (auto simp: remove_all_absent)
  then have none': "\<forall>c \<in> set (rev (uuid_spelling h)). \<not> c \<in> set ''{}''" by (simp only: set_rev)
  have braces: "strip_braces (uuid_spelling h) = uuid_spelling h"
    using dropWhile_absent [OF none] dropWhile_absent [OF none']
    by (simp only: strip_braces_def rev_rev_ident)
  have "filter (\<lambda>x. x \<noteq> CHR ''-'') h = h" using hex is_hex_plain by (auto simp: filter_id_conv)
  moreover have "filter (\<lambda>x. x \<noteq> CHR ''-'') (uuid_spelling h)
      = filter (\<lambda>x. x \<noteq> CHR ''-'') (take 8 h @ take 4 (drop 8 h) @ take 4 (drop 12 h) @ take 4 (drop 16 h) @ drop 20 h)"
    by (simp add: uuid_spelling_def)
  moreover have "take 8 h @ take 4 (drop 8 h) @ take 4 (drop 12 h) @ take 4 (drop 16 h) @ drop 20 h = h"
    by (simp flip: append_assoc add: take_add [symmetric])
  ultimately have "remove_all ''-'' (uuid_spelling h) = h" by (simp add: remove_all_char)
  moreover have "h \<noteq> []" using assms(2) by auto
  ultimately show ?thesis using strip braces assms int_base16_hex [of h] by (simp add: UUID_of_def Let_def)
qed

lemma UUID_of_canonical:
  assumes "UUID_of s = Some t"
  shows "is_uuid t"
proof -
  from assms obtain h neg ds where h: "length h = 32" "int_base16_digits h = Some (neg, ds)"
    and t: "t = uuid_spelling (replicate (32 - length ds) CHR ''0'' @ ds)"
    by (auto simp: UUID_of_def Let_def split: if_splits option.splits)
  obtain prev u where u: "hex_run prev u = Some ds" "length u \<le> length h"
  proof -
    have "length (py_strip h) \<le> length h"
      unfolding py_strip_def by (metis length_rev length_dropWhile_le le_trans)
    with h(2) that show ?thesis
      by (fastforce simp: int_base16_digits_def Let_def split: if_splits)
  qed
  from hex_run_hex [OF u(1)] u(2) h(1) have "list_all is_hex ds" "length ds \<le> 32" by auto
  moreover have "is_hex (CHR ''0'')" by (simp add: is_hex_def is_digit_def)
  ultimately show ?thesis unfolding t by (intro spelling_is_uuid) (auto simp: list_all_iff)
qed

text \<open>What a \<open>uuid\<close> column returns is canonical.\<close>

lemma column_uuid:
  assumes "uuid_in s = Some s"
  shows "is_uuid s"
proof -
  let ?a = "take 8 s" and ?b = "take 4 (drop 9 s)" and ?c = "take 4 (drop 14 s)" and ?d = "take 4 (drop 19 s)" and ?e = "drop 24 s"
  let ?h = "?a @ ?b @ ?c @ ?d @ ?e"
  from assms have len: "length s = 36" and at: "\<And>i. i < 36 \<Longrightarrow> if i \<in> {8, 13, 18, 23} then s ! i = CHR ''-'' else is_hex (s ! i)"
    by (auto simp: uuid_in_def Let_def list_all_length split: if_splits)
  have at': "drop n s = CHR ''-'' # drop (Suc n) s" if "n \<in> {8, 13, 18, 23}" for n
    using that len at [of n] Cons_nth_drop_Suc [of n s] by auto
  have cut: "drop n s = take 4 (drop n s) @ drop (n + 4) s" for n by (metis add.commute append_take_drop_id drop_drop)
  have "s = ?a @ drop 8 s" by simp
  also have "drop 8 s = ''-'' @ ?b @ drop 13 s" using at' [of 8] cut [of 9] by simp
  also have "drop 13 s = ''-'' @ ?c @ drop 18 s" using at' [of 13] cut [of 14] by simp
  also have "drop 18 s = ''-'' @ ?d @ drop 23 s" using at' [of 18] cut [of 19] by simp
  also have "drop 23 s = ''-'' @ ?e" using at' [of 23] by simp
  finally have "s = uuid_spelling ?h" using len by (simp add: uuid_spelling_def)
  moreover have "list_all is_hex ?h"
  proof -
    have "\<forall>c \<in> set (take k (drop n s)). is_hex c" if "n + k \<le> 36" "\<forall>i \<in> {n..<n + k}. i \<notin> {8, 13, 18, 23}" for n k
      using that at len by (force simp: in_set_conv_nth)
    from this [of 0 8] this [of 9 4] this [of 14 4] this [of 19 4] this [of 24 12] show ?thesis
      using len by (auto simp: list_all_iff)
  qed
  ultimately show ?thesis using len spelling_is_uuid [of ?h] by simp
qed

section \<open>JSON-safe values\<close>

definition MAX_JSON_DEPTH :: nat where
  "MAX_JSON_DEPTH = 32"

definition require_json_depth :: "nat \<Rightarrow> string \<Rightarrow> unit res" where
  "require_json_depth depth field_name =
     require (depth \<le> MAX_JSON_DEPTH) (ValueError (field_name @ '' exceeds maximum JSON depth of 32''))"

definition ensure_json_key :: "pyval \<Rightarrow> string \<Rightarrow> string res" where
  "ensure_json_key key field_name =
     (case key of
        VStr k \<Rightarrow> if k = [] then Inl (ValueError (field_name @ '' keys must be non-empty strings'')) else Inr k
      | _ \<Rightarrow> Inl (TypeError (field_name @ '' keys must be strings'')))"

abbreviation item_path :: "string \<Rightarrow> nat \<Rightarrow> string" where
  "item_path field_name index \<equiv> field_name @ ''['' @ show_nat index @ '']''"

text \<open>A frozen sequence is a tuple; a frozen mapping is a read-only view with the same pairs.\<close>

fun ensure_json_value :: "string \<Rightarrow> nat \<Rightarrow> pyval \<Rightarrow> pyval res"
  and ensure_json_pairs :: "string \<Rightarrow> nat \<Rightarrow> (pyval \<times> pyval) list \<Rightarrow> (pyval \<times> pyval) list res"
  and ensure_json_items :: "string \<Rightarrow> nat \<Rightarrow> nat \<Rightarrow> pyval list \<Rightarrow> pyval list res" where
  "ensure_json_value field_name depth v =
     bind_res (require_json_depth depth field_name) (\<lambda>_.
       case v of
         VNone \<Rightarrow> Inr VNone
       | VStr s \<Rightarrow> Inr (VStr s)
       | VBool b \<Rightarrow> Inr (VBool b)
       | VInt i \<Rightarrow> Inr (VInt i)
       | VFloat fin n \<Rightarrow> if fin then Inr (VFloat fin n) else Inl (ValueError (field_name @ '' must be a finite JSON number''))
       | VDict kvs \<Rightarrow> bind_res (ensure_json_pairs field_name (Suc depth) kvs) (\<lambda>m. Inr (VDict m))
       | VList xs \<Rightarrow> bind_res (ensure_json_items field_name (Suc depth) 0 xs) (\<lambda>t. Inr (VTuple t))
       | VTuple xs \<Rightarrow> bind_res (ensure_json_items field_name (Suc depth) 0 xs) (\<lambda>t. Inr (VTuple t))
       | _ \<Rightarrow> Inl (TypeError (field_name @ '' must be JSON-safe'')))"
| "ensure_json_pairs field_name depth [] = Inr []"
| "ensure_json_pairs field_name depth ((key, item) # kvs) =
     bind_res (ensure_json_key key field_name) (\<lambda>k.
     bind_res (ensure_json_value (field_name @ ''.'' @ k) depth item) (\<lambda>v.
     bind_res (ensure_json_pairs field_name depth kvs) (\<lambda>m. Inr ((VStr k, v) # m))))"
| "ensure_json_items field_name depth index [] = Inr []"
| "ensure_json_items field_name depth index (item # xs) =
     bind_res (ensure_json_value (item_path field_name index) depth item) (\<lambda>v.
     bind_res (ensure_json_items field_name depth (Suc index) xs) (\<lambda>t. Inr (v # t)))"

type_synonym json_object = "(pyval \<times> pyval) list"

definition ensure_json_object :: "string \<Rightarrow> json_object \<Rightarrow> json_object res" where
  "ensure_json_object field_name m =
     bind_res (require_json_depth 0 field_name) (\<lambda>_. ensure_json_pairs field_name 1 m)"

section \<open>Detached copies\<close>

definition require_int64 :: "pyval \<Rightarrow> string \<Rightarrow> int res" where
  "require_int64 v field_name =
     (case v of
        VInt i \<Rightarrow> if i < - (2 ^ 63) \<or> i > 2 ^ 63 - 1
                  then Inl (ValueError (field_name @ '' must fit the signed 64-bit range'')) else Inr i
      | _ \<Rightarrow> Inl (TypeError (field_name @ '' must be int, not bool or another type'')))"

fun detach_json_value :: "string \<Rightarrow> pyval \<Rightarrow> pyval res"
  and detach_json_pairs :: "string \<Rightarrow> (pyval \<times> pyval) list \<Rightarrow> (pyval \<times> pyval) list res"
  and detach_json_items :: "string \<Rightarrow> nat \<Rightarrow> pyval list \<Rightarrow> pyval list res" where
  "detach_json_value field_name v =
     (case v of
        VNone \<Rightarrow> Inr VNone
      | VStr s \<Rightarrow> Inr (VStr s)
      | VBool b \<Rightarrow> Inr (VBool b)
      | VInt i \<Rightarrow> bind_res (require_int64 (VInt i) field_name) (\<lambda>i. Inr (VInt i))
      | VFloat fin n \<Rightarrow> Inr (VFloat fin n)
      | VDict kvs \<Rightarrow> bind_res (detach_json_pairs field_name kvs) (\<lambda>m. Inr (VDict m))
      | VTuple xs \<Rightarrow> bind_res (detach_json_items field_name 0 xs) (\<lambda>t. Inr (VList t))
      | _ \<Rightarrow> Inl (TypeError (field_name @ '' must be JSON-safe'')))"
| "detach_json_pairs field_name [] = Inr []"
| "detach_json_pairs field_name ((key, item) # kvs) =
     (case key of VStr k \<Rightarrow>
         bind_res (detach_json_value (field_name @ ''.'' @ k) item) (\<lambda>v.
         bind_res (detach_json_pairs field_name kvs) (\<lambda>m. Inr ((VStr k, v) # m)))
      | _ \<Rightarrow> Inl (TypeError (field_name @ '' must be JSON-safe'')))"
| "detach_json_items field_name index [] = Inr []"
| "detach_json_items field_name index (item # xs) =
     bind_res (detach_json_value (item_path field_name index) item) (\<lambda>v.
     bind_res (detach_json_items field_name (Suc index) xs) (\<lambda>t. Inr (v # t)))"

definition detach_json_object :: "json_object \<Rightarrow> string \<Rightarrow> json_object res" where
  "detach_json_object m field_name =
     bind_res (ensure_json_object field_name m) (\<lambda>validated. detach_json_pairs field_name validated)"

section \<open>What the copies are\<close>

text \<open>A specification of the three recursions: which values are accepted, what freezing and
  detaching make of them, and that every integer fits 64 bits.\<close>

fun json_ok :: "nat \<Rightarrow> pyval \<Rightarrow> bool" and json_ok_pairs :: "nat \<Rightarrow> (pyval \<times> pyval) list \<Rightarrow> bool"
  and json_ok_items :: "nat \<Rightarrow> pyval list \<Rightarrow> bool" where
  "json_ok d v \<longleftrightarrow> d \<le> MAX_JSON_DEPTH \<and>
     (case v of
        VFloat fin n \<Rightarrow> fin
      | VDict kvs \<Rightarrow> json_ok_pairs (Suc d) kvs
      | VList xs \<Rightarrow> json_ok_items (Suc d) xs
      | VTuple xs \<Rightarrow> json_ok_items (Suc d) xs
      | VUuid u \<Rightarrow> False | VSet u \<Rightarrow> False | VFrozenset u \<Rightarrow> False | VObj u \<Rightarrow> False
      | _ \<Rightarrow> True)"
| "json_ok_pairs d [] = True"
| "json_ok_pairs d ((key, v) # kvs) = ((\<exists>k. key = VStr k \<and> k \<noteq> []) \<and> json_ok d v \<and> json_ok_pairs d kvs)"
| "json_ok_items d [] = True"
| "json_ok_items d (v # vs) = (json_ok d v \<and> json_ok_items d vs)"

fun frozen :: "pyval \<Rightarrow> pyval" and frozen_pairs :: "(pyval \<times> pyval) list \<Rightarrow> (pyval \<times> pyval) list"
  and frozen_items :: "pyval list \<Rightarrow> pyval list" where
  "frozen (VDict kvs) = VDict (frozen_pairs kvs)"
| "frozen (VList xs) = VTuple (frozen_items xs)"
| "frozen (VTuple xs) = VTuple (frozen_items xs)"
| "frozen v = v"
| "frozen_pairs [] = []"
| "frozen_pairs ((k, v) # kvs) = (k, frozen v) # frozen_pairs kvs"
| "frozen_items [] = []"
| "frozen_items (v # vs) = frozen v # frozen_items vs"

fun thawed :: "pyval \<Rightarrow> pyval" and thawed_pairs :: "(pyval \<times> pyval) list \<Rightarrow> (pyval \<times> pyval) list"
  and thawed_items :: "pyval list \<Rightarrow> pyval list" where
  "thawed (VDict kvs) = VDict (thawed_pairs kvs)"
| "thawed (VList xs) = VList (thawed_items xs)"
| "thawed (VTuple xs) = VList (thawed_items xs)"
| "thawed v = v"
| "thawed_pairs [] = []"
| "thawed_pairs ((k, v) # kvs) = (k, thawed v) # thawed_pairs kvs"
| "thawed_items [] = []"
| "thawed_items (v # vs) = thawed v # thawed_items vs"

definition int64 :: "int \<Rightarrow> bool" where
  "int64 i \<longleftrightarrow> - (2 ^ 63) \<le> i \<and> i \<le> 2 ^ 63 - 1"

fun ints64 :: "pyval \<Rightarrow> bool" and ints64_pairs :: "(pyval \<times> pyval) list \<Rightarrow> bool" and ints64_items :: "pyval list \<Rightarrow> bool" where
  "ints64 (VInt i) = int64 i"
| "ints64 (VDict kvs) = ints64_pairs kvs"
| "ints64 (VList xs) = ints64_items xs"
| "ints64 (VTuple xs) = ints64_items xs"
| "ints64 _ = True"
| "ints64_pairs [] = True"
| "ints64_pairs ((k, v) # kvs) = (ints64 v \<and> ints64_pairs kvs)"
| "ints64_items [] = True"
| "ints64_items (v # vs) = (ints64 v \<and> ints64_items vs)"

lemma require_int64_iff: "require_int64 (VInt i) f = Inr j \<longleftrightarrow> int64 i \<and> j = i"
  by (auto simp: require_int64_def int64_def)

lemma ensure_key_iff: "ensure_json_key key f = Inr k \<longleftrightarrow> key = VStr k \<and> k \<noteq> []"
  by (auto simp: ensure_json_key_def split: pyval.splits)

lemma ensure_depth_iff: "require_json_depth d f = Inr u \<longleftrightarrow> d \<le> MAX_JSON_DEPTH"
  by (simp add: require_json_depth_def require_eq_Inr)

declare ensure_json_value.simps(1) [simp del] detach_json_value.simps(1) [simp del] json_ok.simps(1) [simp del]

lemma ensure_json_iff:
  "ensure_json_value f d v = Inr w \<longleftrightarrow> json_ok d v \<and> w = frozen v"
  "ensure_json_pairs f d kvs = Inr kws \<longleftrightarrow> json_ok_pairs d kvs \<and> kws = frozen_pairs kvs"
  "ensure_json_items f d i vs = Inr ws \<longleftrightarrow> json_ok_items d vs \<and> ws = frozen_items vs"
proof (induction f d v and f d kvs and f d i vs arbitrary: w and kws and ws
    rule: ensure_json_value_ensure_json_pairs_ensure_json_items.induct)
  case (1 f d v)
  then show ?case
    by (cases v) (auto simp: ensure_json_value.simps json_ok.simps res_simps ensure_depth_iff)
next
  case (3 f d key item kvs)
  then show ?case by (auto simp: res_simps ensure_key_iff)
next
  case (5 f d i item xs)
  then show ?case by (auto simp: res_simps)
qed auto

lemma frozen_frozen [simp]:
  "frozen (frozen v) = frozen v" "frozen_pairs (frozen_pairs kvs) = frozen_pairs kvs" "frozen_items (frozen_items vs) = frozen_items vs"
  by (induction v and kvs and vs rule: frozen_frozen_pairs_frozen_items.induct) simp_all

lemma frozen_thawed [simp]:
  "frozen (thawed v) = frozen v" "frozen_pairs (thawed_pairs kvs) = frozen_pairs kvs" "frozen_items (thawed_items vs) = frozen_items vs"
  by (induction v and kvs and vs rule: frozen_frozen_pairs_frozen_items.induct) simp_all

lemma thawed_frozen [simp]:
  "thawed (frozen v) = thawed v" "thawed_pairs (frozen_pairs kvs) = thawed_pairs kvs" "thawed_items (frozen_items vs) = thawed_items vs"
  by (induction v and kvs and vs rule: frozen_frozen_pairs_frozen_items.induct) simp_all

lemma ints64_frozen [simp]:
  "ints64 (frozen v) = ints64 v" "ints64_pairs (frozen_pairs kvs) = ints64_pairs kvs" "ints64_items (frozen_items vs) = ints64_items vs"
  by (induction v and kvs and vs rule: frozen_frozen_pairs_frozen_items.induct) simp_all

lemma ints64_thawed [simp]:
  "ints64 (thawed v) = ints64 v" "ints64_pairs (thawed_pairs kvs) = ints64_pairs kvs" "ints64_items (thawed_items vs) = ints64_items vs"
  by (induction v and kvs and vs rule: frozen_frozen_pairs_frozen_items.induct) simp_all

lemma json_ok_frozen [simp]:
  "json_ok d (frozen v) = json_ok d v" "json_ok_pairs d (frozen_pairs kvs) = json_ok_pairs d kvs" "json_ok_items d (frozen_items vs) = json_ok_items d vs"
  by (induction v and kvs and vs arbitrary: d and d and d rule: frozen_frozen_pairs_frozen_items.induct)
     (simp_all add: json_ok.simps)

lemma json_ok_thawed [simp]:
  "json_ok d (thawed v) = json_ok d v" "json_ok_pairs d (thawed_pairs kvs) = json_ok_pairs d kvs" "json_ok_items d (thawed_items vs) = json_ok_items d vs"
  by (induction v and kvs and vs arbitrary: d and d and d rule: frozen_frozen_pairs_frozen_items.induct)
     (simp_all add: json_ok.simps)

lemma detach_json_iff:
  "json_ok d v \<Longrightarrow> detach_json_value f (frozen v) = Inr u \<longleftrightarrow> ints64 v \<and> u = thawed v"
  "json_ok_pairs d kvs \<Longrightarrow> detach_json_pairs f (frozen_pairs kvs) = Inr kus \<longleftrightarrow> ints64_pairs kvs \<and> kus = thawed_pairs kvs"
  "json_ok_items d vs \<Longrightarrow> detach_json_items f i (frozen_items vs) = Inr us \<longleftrightarrow> ints64_items vs \<and> us = thawed_items vs"
proof (induction v and kvs and vs arbitrary: f d u and f d kus and f d i us rule: frozen_frozen_pairs_frozen_items.induct)
qed (auto simp: json_ok.simps detach_json_value.simps res_simps require_int64_iff)

lemma ensure_object_iff: "ensure_json_object f m = Inr w \<longleftrightarrow> json_ok_pairs 1 m \<and> w = frozen_pairs m"
  by (auto simp: ensure_json_object_def res_simps ensure_depth_iff ensure_json_iff MAX_JSON_DEPTH_def)

lemma detach_object_iff: "detach_json_object m f = Inr u \<longleftrightarrow> json_ok_pairs 1 m \<and> ints64_pairs m \<and> u = thawed_pairs m"
  using detach_json_iff(2) [of 1 m]
  by (auto simp: detach_json_object_def res_simps ensure_object_iff)

end
