(* ===== verification/Decision_Receipt.thy ===== *)
theory Decision_Receipt
  imports Semantic_Outcome Python_Json
begin

text \<open>
  Decision receipts, \<open>src/compass/runtime/decision_receipt.py\<close>: the enums, the six parts of a
  receipt with the checks of their constructors, and the construction from a semantic outcome,
  \<open>src/compass/runtime/decision_receipt_mapping.py\<close>. Fields typed \<open>UUID\<close> hold canonical spellings;
  the checks \<open>isinstance\<close> are settled by the types of the model.
\<close>

section \<open>Enums\<close>

text \<open>\<open>Enum(value)\<close>: the member with the given value, in order of declaration.\<close>

definition enum_of :: "('a \<Rightarrow> string) \<Rightarrow> 'a list \<Rightarrow> string \<Rightarrow> 'a option" where
  "enum_of val members s = find (\<lambda>m. val m = s) members"

lemma enum_of_member: "distinct (map val members) \<Longrightarrow> m \<in> set members \<Longrightarrow> enum_of val members (val m) = Some m"
  by (induction members) (auto simp: enum_of_def image_iff)

lemma enum_of_Some: "enum_of val members s = Some m \<Longrightarrow> val m = s \<and> m \<in> set members"
  by (auto simp: enum_of_def find_Some_iff)

datatype DecisionReceiptEvidenceSource =
    ES_WRITE_SIDE_ADMISSION
  | ES_READ_SIDE_PATH
  | ES_SNAPSHOT_TRUST_PATH
  | ES_SNAPSHOT_ASSISTED_PATH
  | ES_RUNTIME_OBSERVATION
  | ES_UNKNOWN

fun DecisionReceiptEvidenceSource_value :: "DecisionReceiptEvidenceSource \<Rightarrow> string" where
  "DecisionReceiptEvidenceSource_value ES_WRITE_SIDE_ADMISSION = ''WRITE_SIDE_ADMISSION''"
| "DecisionReceiptEvidenceSource_value ES_READ_SIDE_PATH = ''READ_SIDE_PATH''"
| "DecisionReceiptEvidenceSource_value ES_SNAPSHOT_TRUST_PATH = ''SNAPSHOT_TRUST_PATH''"
| "DecisionReceiptEvidenceSource_value ES_SNAPSHOT_ASSISTED_PATH = ''SNAPSHOT_ASSISTED_PATH''"
| "DecisionReceiptEvidenceSource_value ES_RUNTIME_OBSERVATION = ''RUNTIME_OBSERVATION''"
| "DecisionReceiptEvidenceSource_value ES_UNKNOWN = ''UNKNOWN''"

datatype DecisionReceiptSubjectType =
    ST_ORDER
  | ST_REQUEST
  | ST_CANDIDATE_EVENT
  | ST_ACCEPTED_EVENT
  | ST_SNAPSHOT
  | ST_PROJECTION
  | ST_RUNTIME
  | ST_UNKNOWN

fun DecisionReceiptSubjectType_value :: "DecisionReceiptSubjectType \<Rightarrow> string" where
  "DecisionReceiptSubjectType_value ST_ORDER = ''ORDER''"
| "DecisionReceiptSubjectType_value ST_REQUEST = ''REQUEST''"
| "DecisionReceiptSubjectType_value ST_CANDIDATE_EVENT = ''CANDIDATE_EVENT''"
| "DecisionReceiptSubjectType_value ST_ACCEPTED_EVENT = ''ACCEPTED_EVENT''"
| "DecisionReceiptSubjectType_value ST_SNAPSHOT = ''SNAPSHOT''"
| "DecisionReceiptSubjectType_value ST_PROJECTION = ''PROJECTION''"
| "DecisionReceiptSubjectType_value ST_RUNTIME = ''RUNTIME''"
| "DecisionReceiptSubjectType_value ST_UNKNOWN = ''UNKNOWN''"

datatype DecisionReceiptIdentitySource =
    IS_ACCEPTED_HISTORY
  | IS_CANDIDATE_EVENT_IDENTITY
  | IS_WRITE_SIDE_CORRELATION
  | IS_READ_SIDE_OBSERVATION
  | IS_SNAPSHOT_LINEAGE
  | IS_CALLER_CONTEXT
  | IS_UNKNOWN

fun DecisionReceiptIdentitySource_value :: "DecisionReceiptIdentitySource \<Rightarrow> string" where
  "DecisionReceiptIdentitySource_value IS_ACCEPTED_HISTORY = ''ACCEPTED_HISTORY''"
| "DecisionReceiptIdentitySource_value IS_CANDIDATE_EVENT_IDENTITY = ''CANDIDATE_EVENT_IDENTITY''"
| "DecisionReceiptIdentitySource_value IS_WRITE_SIDE_CORRELATION = ''WRITE_SIDE_CORRELATION''"
| "DecisionReceiptIdentitySource_value IS_READ_SIDE_OBSERVATION = ''READ_SIDE_OBSERVATION''"
| "DecisionReceiptIdentitySource_value IS_SNAPSHOT_LINEAGE = ''SNAPSHOT_LINEAGE''"
| "DecisionReceiptIdentitySource_value IS_CALLER_CONTEXT = ''CALLER_CONTEXT''"
| "DecisionReceiptIdentitySource_value IS_UNKNOWN = ''UNKNOWN''"

datatype EventAdmissionDisposition =
    AD_ADMITTED_TO_ACCEPTED_HISTORY
  | AD_MATCHED_EXISTING_ACCEPTED_EVENT
  | AD_IDEMPOTENCY_CONFLICT_WITH_ACCEPTED_HISTORY
  | AD_SEMANTIC_ADMISSION_REJECTED
  | AD_APPEND_CONCURRENCY_CONFLICT
  | AD_APPEND_TECHNICAL_FAILURE
  | AD_COMMIT_OUTCOME_UNRESOLVED
  | AD_APPEND_ADMISSION_NOT_REACHED
  | AD_UNKNOWN

fun EventAdmissionDisposition_value :: "EventAdmissionDisposition \<Rightarrow> string" where
  "EventAdmissionDisposition_value AD_ADMITTED_TO_ACCEPTED_HISTORY = ''ADMITTED_TO_ACCEPTED_HISTORY''"
| "EventAdmissionDisposition_value AD_MATCHED_EXISTING_ACCEPTED_EVENT = ''MATCHED_EXISTING_ACCEPTED_EVENT''"
| "EventAdmissionDisposition_value AD_IDEMPOTENCY_CONFLICT_WITH_ACCEPTED_HISTORY = ''IDEMPOTENCY_CONFLICT_WITH_ACCEPTED_HISTORY''"
| "EventAdmissionDisposition_value AD_SEMANTIC_ADMISSION_REJECTED = ''SEMANTIC_ADMISSION_REJECTED''"
| "EventAdmissionDisposition_value AD_APPEND_CONCURRENCY_CONFLICT = ''APPEND_CONCURRENCY_CONFLICT''"
| "EventAdmissionDisposition_value AD_APPEND_TECHNICAL_FAILURE = ''APPEND_TECHNICAL_FAILURE''"
| "EventAdmissionDisposition_value AD_COMMIT_OUTCOME_UNRESOLVED = ''COMMIT_OUTCOME_UNRESOLVED''"
| "EventAdmissionDisposition_value AD_APPEND_ADMISSION_NOT_REACHED = ''APPEND_ADMISSION_NOT_REACHED''"
| "EventAdmissionDisposition_value AD_UNKNOWN = ''UNKNOWN''"

datatype DecisionReceiptFlagState = FL_TRUE | FL_FALSE | FL_NOT_EVALUATED

fun DecisionReceiptFlagState_value :: "DecisionReceiptFlagState \<Rightarrow> string" where
  "DecisionReceiptFlagState_value FL_TRUE = ''TRUE''"
| "DecisionReceiptFlagState_value FL_FALSE = ''FALSE''"
| "DecisionReceiptFlagState_value FL_NOT_EVALUATED = ''NOT_EVALUATED''"

section \<open>The parts of a receipt\<close>

definition require_optional_non_empty_string :: "string option \<Rightarrow> string \<Rightarrow> unit res" where
  "require_optional_non_empty_string v field_name =
     (case v of
        None \<Rightarrow> Inr ()
      | Some s \<Rightarrow> require (\<not> py_blank s) (ValueError (field_name @ '' must be a non-empty string'')))"

definition require_optional_non_negative_int :: "int option \<Rightarrow> string \<Rightarrow> unit res" where
  "require_optional_non_negative_int v field_name =
     (case v of
        None \<Rightarrow> Inr ()
      | Some i \<Rightarrow> require (\<not> i < 0) (ValueError (field_name @ '' must be non-negative'')))"

record DecisionReceiptSubject =
  ds_subject_type :: DecisionReceiptSubjectType
  ds_subject_id :: "string option"

definition DecisionReceiptSubject_init :: "DecisionReceiptSubject \<Rightarrow> DecisionReceiptSubject res" where
  "DecisionReceiptSubject_init self =
     bind_res (require_optional_non_empty_string (ds_subject_id self) ''subject_id'') (\<lambda>_. Inr self)"

record DecisionReceiptCorrelation =
  dc_order_id :: "string option"
  dc_request_id :: "string option"
  dc_candidate_event_id :: "string option"
  dc_accepted_event_id :: "string option"
  dc_snapshot_id :: "string option"
  dc_source_global_position :: "int option"
  dc_identity_source :: DecisionReceiptIdentitySource

definition DecisionReceiptCorrelation_init :: "DecisionReceiptCorrelation \<Rightarrow> DecisionReceiptCorrelation res" where
  "DecisionReceiptCorrelation_init self =
     bind_res (require_optional_non_empty_string (dc_order_id self) ''order_id'') (\<lambda>_.
     bind_res (require_optional_non_empty_string (dc_request_id self) ''request_id'') (\<lambda>_.
     bind_res (require_optional_non_negative_int (dc_source_global_position self) ''source_global_position'') (\<lambda>_.
       Inr self)))"

record DecisionReceiptActor =
  da_actor_id :: "string option"
  da_actor_role :: "string option"
  da_runtime_role :: "string option"

definition DecisionReceiptActor_init :: "DecisionReceiptActor \<Rightarrow> DecisionReceiptActor res" where
  "DecisionReceiptActor_init self =
     bind_res (require_optional_non_empty_string (da_actor_id self) ''actor_id'') (\<lambda>_.
     bind_res (require_optional_non_empty_string (da_actor_role self) ''actor_role'') (\<lambda>_.
     bind_res (require_optional_non_empty_string (da_runtime_role self) ''runtime_role'') (\<lambda>_.
       Inr self)))"

record DecisionReceiptCostSummary =
  dk_elapsed_ms :: "int option"
  dk_validation_elapsed_ms :: "int option"
  dk_replay_elapsed_ms :: "int option"
  dk_transaction_elapsed_ms :: "int option"
  dk_lock_wait_ms :: "int option"

definition DecisionReceiptCostSummary_init :: "DecisionReceiptCostSummary \<Rightarrow> DecisionReceiptCostSummary res" where
  "DecisionReceiptCostSummary_init self =
     bind_res (require_optional_non_negative_int (dk_elapsed_ms self) ''elapsed_ms'') (\<lambda>_.
     bind_res (require_optional_non_negative_int (dk_validation_elapsed_ms self) ''validation_elapsed_ms'') (\<lambda>_.
     bind_res (require_optional_non_negative_int (dk_replay_elapsed_ms self) ''replay_elapsed_ms'') (\<lambda>_.
     bind_res (require_optional_non_negative_int (dk_transaction_elapsed_ms self) ''transaction_elapsed_ms'') (\<lambda>_.
     bind_res (require_optional_non_negative_int (dk_lock_wait_ms self) ''lock_wait_ms'') (\<lambda>_.
       Inr self)))))"

record DecisionReceiptFlags =
  df_fallback_required :: DecisionReceiptFlagState
  df_rebuild_required :: DecisionReceiptFlagState
  df_operator_review_required :: DecisionReceiptFlagState
  df_retry_candidate :: DecisionReceiptFlagState

record DecisionReceiptAdmissionEvidence =
  dae_disposition :: EventAdmissionDisposition

definition unknown_subject :: DecisionReceiptSubject where
  "unknown_subject = \<lparr>ds_subject_type = ST_UNKNOWN, ds_subject_id = None\<rparr>"

definition default_correlation :: DecisionReceiptCorrelation where
  "default_correlation = \<lparr>dc_order_id = None, dc_request_id = None, dc_candidate_event_id = None,
     dc_accepted_event_id = None, dc_snapshot_id = None, dc_source_global_position = None, dc_identity_source = IS_UNKNOWN\<rparr>"

definition default_actor :: DecisionReceiptActor where
  "default_actor = \<lparr>da_actor_id = None, da_actor_role = None, da_runtime_role = None\<rparr>"

definition default_cost_summary :: DecisionReceiptCostSummary where
  "default_cost_summary = \<lparr>dk_elapsed_ms = None, dk_validation_elapsed_ms = None, dk_replay_elapsed_ms = None,
     dk_transaction_elapsed_ms = None, dk_lock_wait_ms = None\<rparr>"

definition default_flags :: DecisionReceiptFlags where
  "default_flags = \<lparr>df_fallback_required = FL_NOT_EVALUATED, df_rebuild_required = FL_NOT_EVALUATED,
     df_operator_review_required = FL_NOT_EVALUATED, df_retry_candidate = FL_NOT_EVALUATED\<rparr>"

section \<open>The receipt\<close>

definition validate_admission_evidence :: "DecisionReceiptAdmissionEvidence \<Rightarrow> DecisionReceiptCorrelation \<Rightarrow> unit res" where
  "validate_admission_evidence admission_evidence correlation =
     (let candidate_event_id = dc_candidate_event_id correlation;
          accepted_event_id = dc_accepted_event_id correlation
      in case dae_disposition admission_evidence of
           AD_ADMITTED_TO_ACCEPTED_HISTORY \<Rightarrow>
             if candidate_event_id = None
             then Inl (ValueError ''candidate_event_id is required when an event is admitted'')
             else if accepted_event_id = None
             then Inl (ValueError ''accepted_event_id is required when an event is admitted'')
             else if candidate_event_id \<noteq> accepted_event_id
             then Inl (ValueError ''candidate_event_id and accepted_event_id must match when the same event identity is admitted to accepted history'')
             else Inr ()
         | AD_MATCHED_EXISTING_ACCEPTED_EVENT \<Rightarrow>
             if accepted_event_id = None
             then Inl (ValueError ''accepted_event_id is required for an idempotent replay match'')
             else Inr ()
         | AD_IDEMPOTENCY_CONFLICT_WITH_ACCEPTED_HISTORY \<Rightarrow>
             if accepted_event_id = None
             then Inl (ValueError ''accepted_event_id is required for an idempotency conflict with accepted history'')
             else Inr ()
         | AD_APPEND_ADMISSION_NOT_REACHED \<Rightarrow>
             if accepted_event_id \<noteq> None
             then Inl (ValueError ''accepted_event_id must be None when append admission was not reached'')
             else Inr ()
         | AD_UNKNOWN \<Rightarrow> Inr ()
         | _ \<Rightarrow>
             if candidate_event_id = None
             then Inl (ValueError ''candidate_event_id is required after a candidate event exists'')
             else if accepted_event_id \<noteq> None
             then Inl (ValueError ''accepted_event_id must be None without authoritative accepted-history evidence'')
             else Inr ())"

record DecisionReceipt =
  dr_receipt_id :: string
  dr_outcome_id :: string
  dr_ok :: bool
  dr_boundary :: SemanticBoundary
  dr_category :: SemanticOutcomeCategory
  dr_semantic_code :: SemanticOutcomeCode
  dr_severity :: SemanticSeverity
  dr_risk_level :: SemanticRiskLevel
  dr_reversibility :: SemanticReversibility
  dr_reason :: string
  dr_evidence_source :: DecisionReceiptEvidenceSource
  dr_subject :: DecisionReceiptSubject
  dr_correlation :: DecisionReceiptCorrelation
  dr_actor :: DecisionReceiptActor
  dr_cost_summary :: DecisionReceiptCostSummary
  dr_flags :: DecisionReceiptFlags
  dr_admission_evidence :: "DecisionReceiptAdmissionEvidence option"
  dr_evidence_summary :: json_object
  dr_metadata :: json_object

definition DecisionReceipt_init :: "DecisionReceipt \<Rightarrow> DecisionReceipt res" where
  "DecisionReceipt_init self =
     bind_res (require (\<not> py_blank (dr_reason self)) (ValueError ''reason must be a non-empty string'')) (\<lambda>_.
     bind_res (case dr_admission_evidence self of
                 None \<Rightarrow> Inr ()
               | Some evidence \<Rightarrow> validate_admission_evidence evidence (dr_correlation self)) (\<lambda>_.
     bind_res (ensure_json_object ''evidence_summary'' (dr_evidence_summary self)) (\<lambda>evidence_summary.
     bind_res (ensure_json_object ''metadata'' (dr_metadata self)) (\<lambda>metadata.
       Inr (self\<lparr>dr_evidence_summary := evidence_summary, dr_metadata := metadata\<rparr>)))))"

definition receipt_is_valid :: "DecisionReceipt \<Rightarrow> bool" where
  "receipt_is_valid self \<longleftrightarrow> dr_category self = CAT_VALID"

definition map_semantic_outcome_to_decision_receipt ::
  "string \<Rightarrow> SemanticOutcome \<Rightarrow> DecisionReceiptEvidenceSource \<Rightarrow> DecisionReceiptSubject option
   \<Rightarrow> DecisionReceiptCorrelation option \<Rightarrow> DecisionReceiptActor option \<Rightarrow> DecisionReceiptCostSummary option
   \<Rightarrow> DecisionReceiptFlags option \<Rightarrow> DecisionReceiptAdmissionEvidence option \<Rightarrow> json_object option \<Rightarrow> json_object option
   \<Rightarrow> DecisionReceipt res" where
  "map_semantic_outcome_to_decision_receipt receipt_id outcome evidence_source subject correlation actor cost_summary
     flags admission_evidence evidence_summary metadata =
     DecisionReceipt_init
       \<lparr>dr_receipt_id = receipt_id, dr_outcome_id = outcome_id outcome, dr_ok = so_ok outcome,
        dr_boundary = so_boundary outcome, dr_category = so_category outcome, dr_semantic_code = so_code outcome,
        dr_severity = so_severity outcome, dr_risk_level = so_risk_level outcome,
        dr_reversibility = so_reversibility outcome, dr_reason = so_reason outcome,
        dr_evidence_source = evidence_source,
        dr_subject = case_option unknown_subject id subject,
        dr_correlation = case_option default_correlation id correlation,
        dr_actor = case_option default_actor id actor,
        dr_cost_summary = case_option default_cost_summary id cost_summary,
        dr_flags = case_option default_flags id flags,
        dr_admission_evidence = admission_evidence,
        dr_evidence_summary = case_option [] id evidence_summary,
        dr_metadata = case_option [] id metadata\<rparr>"

section \<open>Well-formed receipts\<close>

text \<open>What every constructed receipt satisfies: its parts pass their own checks, identities are UUIDs,
  and both mappings are frozen.\<close>

definition subject_ok :: "DecisionReceiptSubject \<Rightarrow> bool" where
  "subject_ok s \<longleftrightarrow> DecisionReceiptSubject_init s = Inr s"

definition correlation_ok :: "DecisionReceiptCorrelation \<Rightarrow> bool" where
  "correlation_ok c \<longleftrightarrow> DecisionReceiptCorrelation_init c = Inr c
     \<and> (\<forall>u. dc_candidate_event_id c = Some u \<or> dc_accepted_event_id c = Some u \<or> dc_snapshot_id c = Some u \<longrightarrow> is_uuid u)"

definition receipt_ok :: "DecisionReceipt \<Rightarrow> bool" where
  "receipt_ok r \<longleftrightarrow> is_uuid (dr_receipt_id r) \<and> is_uuid (dr_outcome_id r) \<and> subject_ok (dr_subject r)
     \<and> correlation_ok (dr_correlation r) \<and> DecisionReceiptActor_init (dr_actor r) = Inr (dr_actor r)
     \<and> DecisionReceiptCostSummary_init (dr_cost_summary r) = Inr (dr_cost_summary r)
     \<and> DecisionReceipt_init r = Inr r"

lemma receipt_init_iff:
  "DecisionReceipt_init r = Inr s \<longleftrightarrow> \<not> py_blank (dr_reason r)
     \<and> (\<forall>a. dr_admission_evidence r = Some a \<longrightarrow> validate_admission_evidence a (dr_correlation r) = Inr ())
     \<and> json_ok_pairs 1 (dr_evidence_summary r) \<and> json_ok_pairs 1 (dr_metadata r)
     \<and> s = r\<lparr>dr_evidence_summary := frozen_pairs (dr_evidence_summary r), dr_metadata := frozen_pairs (dr_metadata r)\<rparr>"
  by (auto simp: DecisionReceipt_init_def res_simps ensure_object_iff split: option.splits)

lemma receipt_init_ok:
  assumes "DecisionReceipt_init r = Inr s" and "is_uuid (dr_receipt_id r)" and "is_uuid (dr_outcome_id r)"
    and "subject_ok (dr_subject r)" and "correlation_ok (dr_correlation r)" and "DecisionReceiptActor_init (dr_actor r) = Inr (dr_actor r)"
    and "DecisionReceiptCostSummary_init (dr_cost_summary r) = Inr (dr_cost_summary r)"
  shows "receipt_ok s"
  using assms by (auto simp: receipt_ok_def receipt_init_iff)

lemma receipt_ok_init: "receipt_ok r \<Longrightarrow> DecisionReceipt_init r = Inr r"
  by (simp add: receipt_ok_def)

lemma receipt_ok_frozen: "receipt_ok r \<Longrightarrow> frozen_pairs (dr_evidence_summary r) = dr_evidence_summary r
    \<and> frozen_pairs (dr_metadata r) = dr_metadata r"
  unfolding receipt_ok_def receipt_init_iff by (metis DecisionReceipt.select_convs(18,19) DecisionReceipt.surjective DecisionReceipt.update_convs(18,19))

end
