(* ===== verification/Receipt_Serialization.thy ===== *)
theory Receipt_Serialization
  imports Decision_Receipt
begin

text \<open>
  The portable form of a decision receipt, version 1,
  \<open>src/compass/runtime/decision_receipt_serialization.py\<close>. The locale \<open>str_enum\<close> is what the
  serialiser relies on in every enum: the value of a member identifies it. Its interpretations
  on the eleven enums of a receipt give the reading of a written member.
\<close>

section \<open>Enums by value\<close>

locale str_enum =
  fixes val :: "'a \<Rightarrow> string" and members :: "'a list" and read :: "string \<Rightarrow> 'a option"
  assumes complete: "m \<in> set members" and distinct_values: "distinct (map val members)" and read_enum: "read = enum_of val members"
begin

lemma read_value [simp]: "read (val m) = Some m"
  by (simp add: read_enum enum_of_member distinct_values complete)

lemma value_inj: "val m = val n \<longleftrightarrow> m = n"
  by (metis option.inject read_value)

lemma value_of_read: "read s = Some m \<Longrightarrow> val m = s"
  by (simp add: read_enum enum_of_Some)

end

definition SemanticBoundary_members :: "SemanticBoundary list" where
  "SemanticBoundary_members =
     [AT_LAYER_1_WRITE_SIDE, AT_LAYER_2_READ_SIDE, AT_SNAPSHOT_TRUST, AT_IDEMPOTENCY, AT_CONCURRENCY_ADMISSION, AT_RUNTIME_GOVERNANCE]"

definition SemanticBoundary_of :: "string \<Rightarrow> SemanticBoundary option" where
  "SemanticBoundary_of = enum_of SemanticBoundary_value SemanticBoundary_members"

interpretation boundary_enum: str_enum SemanticBoundary_value SemanticBoundary_members SemanticBoundary_of
proof
  fix m
  show "m \<in> set SemanticBoundary_members" by (cases m) (simp_all add: SemanticBoundary_members_def)
qed (simp_all add: SemanticBoundary_members_def SemanticBoundary_of_def)

definition SemanticOutcomeCategory_members :: "SemanticOutcomeCategory list" where
  "SemanticOutcomeCategory_members =
     [CAT_VALID, CAT_UNRESOLVED, CAT_UNTRUSTED, CAT_DRIFT, CAT_FALLBACK_REQUIRED, CAT_REBUILD_REQUIRED, CAT_BLOCK_REQUIRED, CAT_ESCALATION_REQUIRED, CAT_CONCURRENCY_UNCERTAIN, CAT_RETRY_CLASSIFIED, CAT_INTENT_INCONSISTENT]"

definition SemanticOutcomeCategory_of :: "string \<Rightarrow> SemanticOutcomeCategory option" where
  "SemanticOutcomeCategory_of = enum_of SemanticOutcomeCategory_value SemanticOutcomeCategory_members"

interpretation category_enum: str_enum SemanticOutcomeCategory_value SemanticOutcomeCategory_members SemanticOutcomeCategory_of
proof
  fix m
  show "m \<in> set SemanticOutcomeCategory_members" by (cases m) (simp_all add: SemanticOutcomeCategory_members_def)
qed (simp_all add: SemanticOutcomeCategory_members_def SemanticOutcomeCategory_of_def)

definition SemanticOutcomeCode_members :: "SemanticOutcomeCode list" where
  "SemanticOutcomeCode_members =
     [CODE_SEMANTICALLY_VALID, CODE_RUNTIME_UNRESOLVED, CODE_DERIVED_STATE_UNTRUSTED, CODE_DRIFT_DETECTED, CODE_FAST_PATH_UNAVAILABLE, CODE_REQUIRES_AUTHORITY_FALLBACK, CODE_REQUIRES_REBUILD, CODE_REQUIRES_OPERATOR_REVIEW, CODE_REJECT_DOWNSTREAM_USAGE, CODE_CONCURRENCY_UNCERTAIN, CODE_IDEMPOTENT_REPLAY_ALLOWED, CODE_SEMANTIC_CONFLICT_DETECTED, CODE_INTENT_DRIFT_DETECTED]"

definition SemanticOutcomeCode_of :: "string \<Rightarrow> SemanticOutcomeCode option" where
  "SemanticOutcomeCode_of = enum_of SemanticOutcomeCode_value SemanticOutcomeCode_members"

interpretation code_enum: str_enum SemanticOutcomeCode_value SemanticOutcomeCode_members SemanticOutcomeCode_of
proof
  fix m
  show "m \<in> set SemanticOutcomeCode_members" by (cases m) (simp_all add: SemanticOutcomeCode_members_def)
qed (simp_all add: SemanticOutcomeCode_members_def SemanticOutcomeCode_of_def)

definition SemanticSeverity_members :: "SemanticSeverity list" where
  "SemanticSeverity_members =
     [SEV_INFO, SEV_WARNING, SEV_ERROR, SEV_CRITICAL]"

definition SemanticSeverity_of :: "string \<Rightarrow> SemanticSeverity option" where
  "SemanticSeverity_of = enum_of SemanticSeverity_value SemanticSeverity_members"

interpretation severity_enum: str_enum SemanticSeverity_value SemanticSeverity_members SemanticSeverity_of
proof
  fix m
  show "m \<in> set SemanticSeverity_members" by (cases m) (simp_all add: SemanticSeverity_members_def)
qed (simp_all add: SemanticSeverity_members_def SemanticSeverity_of_def)

definition SemanticRiskLevel_members :: "SemanticRiskLevel list" where
  "SemanticRiskLevel_members =
     [RISK_LOW, RISK_MEDIUM, RISK_HIGH, RISK_CRITICAL, RISK_UNKNOWN]"

definition SemanticRiskLevel_of :: "string \<Rightarrow> SemanticRiskLevel option" where
  "SemanticRiskLevel_of = enum_of SemanticRiskLevel_value SemanticRiskLevel_members"

interpretation risk_enum: str_enum SemanticRiskLevel_value SemanticRiskLevel_members SemanticRiskLevel_of
proof
  fix m
  show "m \<in> set SemanticRiskLevel_members" by (cases m) (simp_all add: SemanticRiskLevel_members_def)
qed (simp_all add: SemanticRiskLevel_members_def SemanticRiskLevel_of_def)

definition SemanticReversibility_members :: "SemanticReversibility list" where
  "SemanticReversibility_members =
     [REV_REVERSIBLE, REV_REBUILDABLE, REV_COMPENSABLE, REV_IRREVERSIBLE, REV_UNKNOWN]"

definition SemanticReversibility_of :: "string \<Rightarrow> SemanticReversibility option" where
  "SemanticReversibility_of = enum_of SemanticReversibility_value SemanticReversibility_members"

interpretation reversibility_enum: str_enum SemanticReversibility_value SemanticReversibility_members SemanticReversibility_of
proof
  fix m
  show "m \<in> set SemanticReversibility_members" by (cases m) (simp_all add: SemanticReversibility_members_def)
qed (simp_all add: SemanticReversibility_members_def SemanticReversibility_of_def)

definition DecisionReceiptEvidenceSource_members :: "DecisionReceiptEvidenceSource list" where
  "DecisionReceiptEvidenceSource_members =
     [ES_WRITE_SIDE_ADMISSION, ES_READ_SIDE_PATH, ES_SNAPSHOT_TRUST_PATH, ES_SNAPSHOT_ASSISTED_PATH, ES_RUNTIME_OBSERVATION, ES_UNKNOWN]"

definition DecisionReceiptEvidenceSource_of :: "string \<Rightarrow> DecisionReceiptEvidenceSource option" where
  "DecisionReceiptEvidenceSource_of = enum_of DecisionReceiptEvidenceSource_value DecisionReceiptEvidenceSource_members"

interpretation evidence_source_enum: str_enum DecisionReceiptEvidenceSource_value DecisionReceiptEvidenceSource_members DecisionReceiptEvidenceSource_of
proof
  fix m
  show "m \<in> set DecisionReceiptEvidenceSource_members" by (cases m) (simp_all add: DecisionReceiptEvidenceSource_members_def)
qed (simp_all add: DecisionReceiptEvidenceSource_members_def DecisionReceiptEvidenceSource_of_def)

definition DecisionReceiptSubjectType_members :: "DecisionReceiptSubjectType list" where
  "DecisionReceiptSubjectType_members =
     [ST_ORDER, ST_REQUEST, ST_CANDIDATE_EVENT, ST_ACCEPTED_EVENT, ST_SNAPSHOT, ST_PROJECTION, ST_RUNTIME, ST_UNKNOWN]"

definition DecisionReceiptSubjectType_of :: "string \<Rightarrow> DecisionReceiptSubjectType option" where
  "DecisionReceiptSubjectType_of = enum_of DecisionReceiptSubjectType_value DecisionReceiptSubjectType_members"

interpretation subject_type_enum: str_enum DecisionReceiptSubjectType_value DecisionReceiptSubjectType_members DecisionReceiptSubjectType_of
proof
  fix m
  show "m \<in> set DecisionReceiptSubjectType_members" by (cases m) (simp_all add: DecisionReceiptSubjectType_members_def)
qed (simp_all add: DecisionReceiptSubjectType_members_def DecisionReceiptSubjectType_of_def)

definition DecisionReceiptIdentitySource_members :: "DecisionReceiptIdentitySource list" where
  "DecisionReceiptIdentitySource_members =
     [IS_ACCEPTED_HISTORY, IS_CANDIDATE_EVENT_IDENTITY, IS_WRITE_SIDE_CORRELATION, IS_READ_SIDE_OBSERVATION, IS_SNAPSHOT_LINEAGE, IS_CALLER_CONTEXT, IS_UNKNOWN]"

definition DecisionReceiptIdentitySource_of :: "string \<Rightarrow> DecisionReceiptIdentitySource option" where
  "DecisionReceiptIdentitySource_of = enum_of DecisionReceiptIdentitySource_value DecisionReceiptIdentitySource_members"

interpretation identity_source_enum: str_enum DecisionReceiptIdentitySource_value DecisionReceiptIdentitySource_members DecisionReceiptIdentitySource_of
proof
  fix m
  show "m \<in> set DecisionReceiptIdentitySource_members" by (cases m) (simp_all add: DecisionReceiptIdentitySource_members_def)
qed (simp_all add: DecisionReceiptIdentitySource_members_def DecisionReceiptIdentitySource_of_def)

definition DecisionReceiptFlagState_members :: "DecisionReceiptFlagState list" where
  "DecisionReceiptFlagState_members =
     [FL_TRUE, FL_FALSE, FL_NOT_EVALUATED]"

definition DecisionReceiptFlagState_of :: "string \<Rightarrow> DecisionReceiptFlagState option" where
  "DecisionReceiptFlagState_of = enum_of DecisionReceiptFlagState_value DecisionReceiptFlagState_members"

interpretation flag_enum: str_enum DecisionReceiptFlagState_value DecisionReceiptFlagState_members DecisionReceiptFlagState_of
proof
  fix m
  show "m \<in> set DecisionReceiptFlagState_members" by (cases m) (simp_all add: DecisionReceiptFlagState_members_def)
qed (simp_all add: DecisionReceiptFlagState_members_def DecisionReceiptFlagState_of_def)

definition EventAdmissionDisposition_members :: "EventAdmissionDisposition list" where
  "EventAdmissionDisposition_members =
     [AD_ADMITTED_TO_ACCEPTED_HISTORY, AD_MATCHED_EXISTING_ACCEPTED_EVENT, AD_IDEMPOTENCY_CONFLICT_WITH_ACCEPTED_HISTORY, AD_SEMANTIC_ADMISSION_REJECTED, AD_APPEND_CONCURRENCY_CONFLICT, AD_APPEND_TECHNICAL_FAILURE, AD_COMMIT_OUTCOME_UNRESOLVED, AD_APPEND_ADMISSION_NOT_REACHED, AD_UNKNOWN]"

definition EventAdmissionDisposition_of :: "string \<Rightarrow> EventAdmissionDisposition option" where
  "EventAdmissionDisposition_of = enum_of EventAdmissionDisposition_value EventAdmissionDisposition_members"

interpretation disposition_enum: str_enum EventAdmissionDisposition_value EventAdmissionDisposition_members EventAdmissionDisposition_of
proof
  fix m
  show "m \<in> set EventAdmissionDisposition_members" by (cases m) (simp_all add: EventAdmissionDisposition_members_def)
qed (simp_all add: EventAdmissionDisposition_members_def EventAdmissionDisposition_of_def)

section \<open>Serialising\<close>

definition DECISION_RECEIPT_SERIALIZATION_VERSION :: int where
  "DECISION_RECEIPT_SERIALIZATION_VERSION = 1"

definition OUTER_KEYS :: "string list" where
  "OUTER_KEYS = [''receipt_serialization_version'', ''receipt'']"

definition RECEIPT_KEYS :: "string list" where
  "RECEIPT_KEYS = [''receipt_id'', ''outcome_id'', ''ok'', ''boundary'', ''category'', ''semantic_code'', ''severity'',
     ''risk_level'', ''reversibility'', ''reason'', ''evidence_source'', ''subject'', ''correlation'', ''actor'',
     ''cost_summary'', ''flags'', ''admission_evidence'', ''evidence_summary'', ''metadata'']"

definition SUBJECT_KEYS :: "string list" where
  "SUBJECT_KEYS = [''subject_type'', ''subject_id'']"

definition CORRELATION_KEYS :: "string list" where
  "CORRELATION_KEYS = [''order_id'', ''request_id'', ''candidate_event_id'', ''accepted_event_id'', ''snapshot_id'',
     ''source_global_position'', ''identity_source'']"

definition ACTOR_KEYS :: "string list" where
  "ACTOR_KEYS = [''actor_id'', ''actor_role'', ''runtime_role'']"

definition COST_SUMMARY_KEYS :: "string list" where
  "COST_SUMMARY_KEYS = [''elapsed_ms'', ''validation_elapsed_ms'', ''replay_elapsed_ms'', ''transaction_elapsed_ms'', ''lock_wait_ms'']"

definition FLAGS_KEYS :: "string list" where
  "FLAGS_KEYS = [''fallback_required'', ''rebuild_required'', ''operator_review_required'', ''retry_candidate'']"

definition ADMISSION_EVIDENCE_KEYS :: "string list" where
  "ADMISSION_EVIDENCE_KEYS = [''disposition'']"

text \<open>A dictionary display with literal keys.\<close>

definition dict_display :: "(string \<times> pyval) list \<Rightarrow> json_object" where
  "dict_display kvs = map (\<lambda>(k, v). (VStr k, v)) kvs"

definition serialize_optional_int64 :: "int option \<Rightarrow> string \<Rightarrow> pyval res" where
  "serialize_optional_int64 v field_name =
     (case v of
        None \<Rightarrow> Inr VNone
      | Some i \<Rightarrow> bind_res (require_int64 (VInt i) field_name) (\<lambda>i. Inr (VInt i)))"

definition serialize_admission_evidence :: "DecisionReceiptAdmissionEvidence option \<Rightarrow> pyval" where
  "serialize_admission_evidence evidence =
     (case evidence of
        None \<Rightarrow> VNone
      | Some e \<Rightarrow> VDict (dict_display [(''disposition'', VStr (EventAdmissionDisposition_value (dae_disposition e)))]))"

definition serialize_subject :: "DecisionReceiptSubject \<Rightarrow> json_object" where
  "serialize_subject s = dict_display
     [(''subject_type'', VStr (DecisionReceiptSubjectType_value (ds_subject_type s))),
      (''subject_id'', opt_str (ds_subject_id s))]"

definition serialize_correlation :: "DecisionReceiptCorrelation \<Rightarrow> json_object res" where
  "serialize_correlation c =
     bind_res (serialize_optional_int64 (dc_source_global_position c) ''receipt.correlation.source_global_position'') (\<lambda>position.
       Inr (dict_display
         [(''order_id'', opt_str (dc_order_id c)),
          (''request_id'', opt_str (dc_request_id c)),
          (''candidate_event_id'', opt_str (dc_candidate_event_id c)),
          (''accepted_event_id'', opt_str (dc_accepted_event_id c)),
          (''snapshot_id'', opt_str (dc_snapshot_id c)),
          (''source_global_position'', position),
          (''identity_source'', VStr (DecisionReceiptIdentitySource_value (dc_identity_source c)))]))"

definition serialize_actor :: "DecisionReceiptActor \<Rightarrow> json_object" where
  "serialize_actor a = dict_display
     [(''actor_id'', opt_str (da_actor_id a)), (''actor_role'', opt_str (da_actor_role a)),
      (''runtime_role'', opt_str (da_runtime_role a))]"

definition serialize_cost_summary :: "DecisionReceiptCostSummary \<Rightarrow> json_object res" where
  "serialize_cost_summary k =
     bind_res (serialize_optional_int64 (dk_elapsed_ms k) ''receipt.cost_summary.elapsed_ms'') (\<lambda>elapsed.
     bind_res (serialize_optional_int64 (dk_validation_elapsed_ms k) ''receipt.cost_summary.validation_elapsed_ms'') (\<lambda>validation.
     bind_res (serialize_optional_int64 (dk_replay_elapsed_ms k) ''receipt.cost_summary.replay_elapsed_ms'') (\<lambda>replay.
     bind_res (serialize_optional_int64 (dk_transaction_elapsed_ms k) ''receipt.cost_summary.transaction_elapsed_ms'') (\<lambda>transaction.
     bind_res (serialize_optional_int64 (dk_lock_wait_ms k) ''receipt.cost_summary.lock_wait_ms'') (\<lambda>lock_wait.
       Inr (dict_display
         [(''elapsed_ms'', elapsed), (''validation_elapsed_ms'', validation), (''replay_elapsed_ms'', replay),
          (''transaction_elapsed_ms'', transaction), (''lock_wait_ms'', lock_wait)]))))))"

definition serialize_flags :: "DecisionReceiptFlags \<Rightarrow> json_object" where
  "serialize_flags f = dict_display
     [(''fallback_required'', VStr (DecisionReceiptFlagState_value (df_fallback_required f))),
      (''rebuild_required'', VStr (DecisionReceiptFlagState_value (df_rebuild_required f))),
      (''operator_review_required'', VStr (DecisionReceiptFlagState_value (df_operator_review_required f))),
      (''retry_candidate'', VStr (DecisionReceiptFlagState_value (df_retry_candidate f)))]"

definition serialize_decision_receipt :: "DecisionReceipt \<Rightarrow> json_object res" where
  "serialize_decision_receipt receipt =
     bind_res (serialize_correlation (dr_correlation receipt)) (\<lambda>correlation.
     bind_res (serialize_cost_summary (dr_cost_summary receipt)) (\<lambda>cost_summary.
     bind_res (detach_json_object (dr_evidence_summary receipt) ''receipt.evidence_summary'') (\<lambda>evidence_summary.
     bind_res (detach_json_object (dr_metadata receipt) ''receipt.metadata'') (\<lambda>metadata.
       Inr (dict_display
         [(''receipt_serialization_version'', VInt DECISION_RECEIPT_SERIALIZATION_VERSION),
          (''receipt'', VDict (dict_display
             [(''receipt_id'', VStr (dr_receipt_id receipt)),
              (''outcome_id'', VStr (dr_outcome_id receipt)),
              (''ok'', VBool (dr_ok receipt)),
              (''boundary'', VStr (SemanticBoundary_value (dr_boundary receipt))),
              (''category'', VStr (SemanticOutcomeCategory_value (dr_category receipt))),
              (''semantic_code'', VStr (SemanticOutcomeCode_value (dr_semantic_code receipt))),
              (''severity'', VStr (SemanticSeverity_value (dr_severity receipt))),
              (''risk_level'', VStr (SemanticRiskLevel_value (dr_risk_level receipt))),
              (''reversibility'', VStr (SemanticReversibility_value (dr_reversibility receipt))),
              (''reason'', VStr (dr_reason receipt)),
              (''evidence_source'', VStr (DecisionReceiptEvidenceSource_value (dr_evidence_source receipt))),
              (''subject'', VDict (serialize_subject (dr_subject receipt))),
              (''correlation'', VDict correlation),
              (''actor'', VDict (serialize_actor (dr_actor receipt))),
              (''cost_summary'', VDict cost_summary),
              (''flags'', VDict (serialize_flags (dr_flags receipt))),
              (''admission_evidence'', serialize_admission_evidence (dr_admission_evidence receipt)),
              (''evidence_summary'', VDict evidence_summary),
              (''metadata'', VDict metadata)]))])))))"

section \<open>Deserialising\<close>

definition require_mapping :: "pyval \<Rightarrow> string \<Rightarrow> json_object res" where
  "require_mapping v field_name =
     (case v of VDict kvs \<Rightarrow> Inr kvs | _ \<Rightarrow> Inl (TypeError (field_name @ '' must be a mapping'')))"

definition key_string :: "string \<Rightarrow> pyval \<Rightarrow> string res" where
  "key_string field_name key =
     (case key of VStr k \<Rightarrow> Inr k | _ \<Rightarrow> Inl (TypeError (field_name @ '' keys must be strings'')))"

fun join_names :: "string list \<Rightarrow> string" where
  "join_names [] = []"
| "join_names [x] = x"
| "join_names (x # xs) = x @ '', '' @ join_names xs"

definition require_exact_keys :: "json_object \<Rightarrow> string list \<Rightarrow> string \<Rightarrow> unit res" where
  "require_exact_keys value expected_keys field_name =
     bind_res (map_res (key_string field_name) (map fst value)) (\<lambda>actual_keys.
       let missing = sort (filter (\<lambda>k. k \<notin> set actual_keys) expected_keys);
           unknown = sort (filter (\<lambda>k. k \<notin> set expected_keys) (remdups actual_keys))
       in if missing \<noteq> [] \<or> unknown \<noteq> []
          then Inl (ValueError (field_name @ '' has invalid keys ('' @
                 (if missing = [] then [] else ''missing keys: '' @ join_names missing) @
                 (if missing \<noteq> [] \<and> unknown \<noteq> [] then ''; '' else []) @
                 (if unknown = [] then [] else ''unknown keys: '' @ join_names unknown) @ '')''))
          else Inr ())"

text \<open>\<open>body[key]\<close> for a key that was required before.\<close>

definition item :: "json_object \<Rightarrow> string \<Rightarrow> pyval" where
  "item body key = (case map_of body (VStr key) of Some v \<Rightarrow> v | None \<Rightarrow> VNone)"

definition require_nested_mapping :: "json_object \<Rightarrow> string \<Rightarrow> string list \<Rightarrow> json_object res" where
  "require_nested_mapping receipt_body field_name expected_keys =
     bind_res (require_mapping (item receipt_body field_name) (''payload.receipt.'' @ field_name)) (\<lambda>body.
     bind_res (require_exact_keys body expected_keys (''payload.receipt.'' @ field_name)) (\<lambda>_. Inr body))"

definition require_bool :: "pyval \<Rightarrow> string \<Rightarrow> bool res" where
  "require_bool v field_name = (case v of VBool b \<Rightarrow> Inr b | _ \<Rightarrow> Inl (TypeError (field_name @ '' must be bool'')))"

definition require_string :: "pyval \<Rightarrow> string \<Rightarrow> string res" where
  "require_string v field_name = (case v of VStr t \<Rightarrow> Inr t | _ \<Rightarrow> Inl (TypeError (field_name @ '' must be str'')))"

definition deserialize_optional_string :: "pyval \<Rightarrow> string \<Rightarrow> string option res" where
  "deserialize_optional_string v field_name =
     (if v = VNone then Inr None else bind_res (require_string v field_name) (\<lambda>t. Inr (Some t)))"

definition deserialize_uuid :: "pyval \<Rightarrow> string \<Rightarrow> string res" where
  "deserialize_uuid v field_name =
     (case v of
        VStr t \<Rightarrow> (case UUID_of t of
             Some u \<Rightarrow> Inr u
           | None \<Rightarrow> Inl (ValueError (field_name @ '' must be a valid UUID string'')))
      | _ \<Rightarrow> Inl (TypeError (field_name @ '' must be a UUID string'')))"

definition deserialize_optional_uuid :: "pyval \<Rightarrow> string \<Rightarrow> string option res" where
  "deserialize_optional_uuid v field_name =
     (if v = VNone then Inr None else bind_res (deserialize_uuid v field_name) (\<lambda>u. Inr (Some u)))"

definition deserialize_enum :: "(string \<Rightarrow> 'a option) \<Rightarrow> pyval \<Rightarrow> string \<Rightarrow> 'a res" where
  "deserialize_enum read v field_name =
     (case v of
        VStr t \<Rightarrow> (case read t of
             Some m \<Rightarrow> Inr m
           | None \<Rightarrow> Inl (ValueError (field_name @ '' has an unknown value'')))
      | _ \<Rightarrow> Inl (TypeError (field_name @ '' must be a value string'')))"

definition deserialize_optional_int64 :: "pyval \<Rightarrow> string \<Rightarrow> int option res" where
  "deserialize_optional_int64 v field_name =
     (if v = VNone then Inr None else bind_res (require_int64 v field_name) (\<lambda>i. Inr (Some i)))"

definition deserialize_admission_evidence :: "pyval \<Rightarrow> DecisionReceiptAdmissionEvidence option res" where
  "deserialize_admission_evidence v =
     (if v = VNone then Inr None
      else bind_res (require_mapping v ''payload.receipt.admission_evidence'') (\<lambda>body.
           bind_res (require_exact_keys body ADMISSION_EVIDENCE_KEYS ''payload.receipt.admission_evidence'') (\<lambda>_.
           bind_res (deserialize_enum EventAdmissionDisposition_of (item body ''disposition'')
               ''payload.receipt.admission_evidence.disposition'') (\<lambda>disposition.
             Inr (Some \<lparr>dae_disposition = disposition\<rparr>)))))"

definition deserialize_subject :: "json_object \<Rightarrow> DecisionReceiptSubject res" where
  "deserialize_subject body =
     bind_res (deserialize_enum DecisionReceiptSubjectType_of (item body ''subject_type'') ''payload.receipt.subject.subject_type'') (\<lambda>subject_type.
     bind_res (deserialize_optional_string (item body ''subject_id'') ''payload.receipt.subject.subject_id'') (\<lambda>subject_id.
       DecisionReceiptSubject_init \<lparr>ds_subject_type = subject_type, ds_subject_id = subject_id\<rparr>))"

definition deserialize_correlation :: "json_object \<Rightarrow> DecisionReceiptCorrelation res" where
  "deserialize_correlation body =
     bind_res (deserialize_optional_string (item body ''order_id'') ''payload.receipt.correlation.order_id'') (\<lambda>order_id.
     bind_res (deserialize_optional_string (item body ''request_id'') ''payload.receipt.correlation.request_id'') (\<lambda>request_id.
     bind_res (deserialize_optional_uuid (item body ''candidate_event_id'') ''payload.receipt.correlation.candidate_event_id'') (\<lambda>candidate.
     bind_res (deserialize_optional_uuid (item body ''accepted_event_id'') ''payload.receipt.correlation.accepted_event_id'') (\<lambda>accepted.
     bind_res (deserialize_optional_uuid (item body ''snapshot_id'') ''payload.receipt.correlation.snapshot_id'') (\<lambda>snapshot.
     bind_res (deserialize_optional_int64 (item body ''source_global_position'') ''payload.receipt.correlation.source_global_position'') (\<lambda>position.
     bind_res (deserialize_enum DecisionReceiptIdentitySource_of (item body ''identity_source'') ''payload.receipt.correlation.identity_source'') (\<lambda>identity_source.
       DecisionReceiptCorrelation_init \<lparr>dc_order_id = order_id, dc_request_id = request_id, dc_candidate_event_id = candidate,
         dc_accepted_event_id = accepted, dc_snapshot_id = snapshot, dc_source_global_position = position, dc_identity_source = identity_source\<rparr>)))))))"

definition deserialize_actor :: "json_object \<Rightarrow> DecisionReceiptActor res" where
  "deserialize_actor body =
     bind_res (deserialize_optional_string (item body ''actor_id'') ''payload.receipt.actor.actor_id'') (\<lambda>actor_id.
     bind_res (deserialize_optional_string (item body ''actor_role'') ''payload.receipt.actor.actor_role'') (\<lambda>actor_role.
     bind_res (deserialize_optional_string (item body ''runtime_role'') ''payload.receipt.actor.runtime_role'') (\<lambda>runtime_role.
       DecisionReceiptActor_init \<lparr>da_actor_id = actor_id, da_actor_role = actor_role, da_runtime_role = runtime_role\<rparr>)))"

definition deserialize_cost_summary :: "json_object \<Rightarrow> DecisionReceiptCostSummary res" where
  "deserialize_cost_summary body =
     bind_res (deserialize_optional_int64 (item body ''elapsed_ms'') ''payload.receipt.cost_summary.elapsed_ms'') (\<lambda>elapsed.
     bind_res (deserialize_optional_int64 (item body ''validation_elapsed_ms'') ''payload.receipt.cost_summary.validation_elapsed_ms'') (\<lambda>validation.
     bind_res (deserialize_optional_int64 (item body ''replay_elapsed_ms'') ''payload.receipt.cost_summary.replay_elapsed_ms'') (\<lambda>replay.
     bind_res (deserialize_optional_int64 (item body ''transaction_elapsed_ms'') ''payload.receipt.cost_summary.transaction_elapsed_ms'') (\<lambda>transaction.
     bind_res (deserialize_optional_int64 (item body ''lock_wait_ms'') ''payload.receipt.cost_summary.lock_wait_ms'') (\<lambda>lock_wait.
       DecisionReceiptCostSummary_init \<lparr>dk_elapsed_ms = elapsed, dk_validation_elapsed_ms = validation, dk_replay_elapsed_ms = replay,
         dk_transaction_elapsed_ms = transaction, dk_lock_wait_ms = lock_wait\<rparr>)))))"

definition deserialize_flags :: "json_object \<Rightarrow> DecisionReceiptFlags res" where
  "deserialize_flags body =
     bind_res (deserialize_enum DecisionReceiptFlagState_of (item body ''fallback_required'') ''payload.receipt.flags.fallback_required'') (\<lambda>fallback.
     bind_res (deserialize_enum DecisionReceiptFlagState_of (item body ''rebuild_required'') ''payload.receipt.flags.rebuild_required'') (\<lambda>rebuild.
     bind_res (deserialize_enum DecisionReceiptFlagState_of (item body ''operator_review_required'') ''payload.receipt.flags.operator_review_required'') (\<lambda>review.
     bind_res (deserialize_enum DecisionReceiptFlagState_of (item body ''retry_candidate'') ''payload.receipt.flags.retry_candidate'') (\<lambda>retry.
       Inr \<lparr>df_fallback_required = fallback, df_rebuild_required = rebuild, df_operator_review_required = review, df_retry_candidate = retry\<rparr>))))"

definition deserialize_fields :: "json_object \<Rightarrow> json_object \<Rightarrow> json_object \<Rightarrow> json_object \<Rightarrow> json_object \<Rightarrow> json_object
   \<Rightarrow> DecisionReceiptAdmissionEvidence option \<Rightarrow> DecisionReceipt res" where
  "deserialize_fields receipt_body subject_body correlation_body actor_body cost_summary_body flags_body admission_evidence =
     bind_res (deserialize_uuid (item receipt_body ''receipt_id'') ''payload.receipt.receipt_id'') (\<lambda>receipt_id.
     bind_res (deserialize_uuid (item receipt_body ''outcome_id'') ''payload.receipt.outcome_id'') (\<lambda>oid.
     bind_res (require_bool (item receipt_body ''ok'') ''payload.receipt.ok'') (\<lambda>ok.
     bind_res (deserialize_enum SemanticBoundary_of (item receipt_body ''boundary'') ''payload.receipt.boundary'') (\<lambda>boundary.
     bind_res (deserialize_enum SemanticOutcomeCategory_of (item receipt_body ''category'') ''payload.receipt.category'') (\<lambda>category.
     bind_res (deserialize_enum SemanticOutcomeCode_of (item receipt_body ''semantic_code'') ''payload.receipt.semantic_code'') (\<lambda>semantic_code.
     bind_res (deserialize_enum SemanticSeverity_of (item receipt_body ''severity'') ''payload.receipt.severity'') (\<lambda>severity.
     bind_res (deserialize_enum SemanticRiskLevel_of (item receipt_body ''risk_level'') ''payload.receipt.risk_level'') (\<lambda>risk_level.
     bind_res (deserialize_enum SemanticReversibility_of (item receipt_body ''reversibility'') ''payload.receipt.reversibility'') (\<lambda>reversibility.
     bind_res (require_string (item receipt_body ''reason'') ''payload.receipt.reason'') (\<lambda>reason.
     bind_res (deserialize_enum DecisionReceiptEvidenceSource_of (item receipt_body ''evidence_source'') ''payload.receipt.evidence_source'') (\<lambda>evidence_source.
     bind_res (deserialize_subject subject_body) (\<lambda>subject.
     bind_res (deserialize_correlation correlation_body) (\<lambda>correlation.
     bind_res (deserialize_actor actor_body) (\<lambda>actor.
     bind_res (deserialize_cost_summary cost_summary_body) (\<lambda>cost_summary.
     bind_res (deserialize_flags flags_body) (\<lambda>flags.
     bind_res (require_mapping (item receipt_body ''evidence_summary'') ''payload.receipt.evidence_summary'') (\<lambda>summary_body.
     bind_res (detach_json_object summary_body ''payload.receipt.evidence_summary'') (\<lambda>evidence_summary.
     bind_res (require_mapping (item receipt_body ''metadata'') ''payload.receipt.metadata'') (\<lambda>metadata_body.
     bind_res (detach_json_object metadata_body ''payload.receipt.metadata'') (\<lambda>metadata.
       DecisionReceipt_init
         \<lparr>dr_receipt_id = receipt_id, dr_outcome_id = oid, dr_ok = ok, dr_boundary = boundary, dr_category = category,
          dr_semantic_code = semantic_code, dr_severity = severity, dr_risk_level = risk_level,
          dr_reversibility = reversibility, dr_reason = reason, dr_evidence_source = evidence_source,
          dr_subject = subject, dr_correlation = correlation, dr_actor = actor, dr_cost_summary = cost_summary,
          dr_flags = flags, dr_admission_evidence = admission_evidence, dr_evidence_summary = evidence_summary,
          dr_metadata = metadata\<rparr>))))))))))))))))))))"

definition deserialize_decision_receipt :: "json_object \<Rightarrow> DecisionReceipt res" where
  "deserialize_decision_receipt payload =
     bind_res (require_exact_keys payload OUTER_KEYS ''payload'') (\<lambda>_.
     bind_res (require_int64 (item payload ''receipt_serialization_version'') ''payload.receipt_serialization_version'') (\<lambda>version.
     bind_res (require (version = DECISION_RECEIPT_SERIALIZATION_VERSION) (ValueError ''payload.receipt_serialization_version is unsupported; expected 1'')) (\<lambda>_.
     bind_res (require_mapping (item payload ''receipt'') ''payload.receipt'') (\<lambda>receipt_body.
     bind_res (require_exact_keys receipt_body RECEIPT_KEYS ''payload.receipt'') (\<lambda>_.
     bind_res (require_nested_mapping receipt_body ''subject'' SUBJECT_KEYS) (\<lambda>subject_body.
     bind_res (require_nested_mapping receipt_body ''correlation'' CORRELATION_KEYS) (\<lambda>correlation_body.
     bind_res (require_nested_mapping receipt_body ''actor'' ACTOR_KEYS) (\<lambda>actor_body.
     bind_res (require_nested_mapping receipt_body ''cost_summary'' COST_SUMMARY_KEYS) (\<lambda>cost_summary_body.
     bind_res (require_nested_mapping receipt_body ''flags'' FLAGS_KEYS) (\<lambda>flags_body.
     bind_res (deserialize_admission_evidence (item receipt_body ''admission_evidence'')) (\<lambda>admission_evidence.
       deserialize_fields receipt_body subject_body correlation_body actor_body cost_summary_body flags_body admission_evidence)))))))))))"

section \<open>Reading what was written\<close>

lemma item_display: "item (dict_display kvs) k = (case map_of kvs k of Some v \<Rightarrow> v | None \<Rightarrow> VNone)"
proof -
  have "map_of (dict_display kvs) (VStr k) = map_of kvs k"
    by (induction kvs) (auto simp: dict_display_def)
  then show ?thesis by (simp add: item_def)
qed

lemma display_keys: "map_res (key_string f) (map fst (dict_display kvs)) = Inr (map fst kvs)"
  by (induction kvs) (auto simp: dict_display_def key_string_def)

lemma exact_keys_display: "set (map fst kvs) = set ks \<Longrightarrow> require_exact_keys (dict_display kvs) ks f = Inr ()"
  by (auto simp: require_exact_keys_def display_keys Let_def filter_empty_conv)

lemma optional_string_written [simp]: "deserialize_optional_string (opt_str x) f = Inr x"
  by (cases x) (simp_all add: deserialize_optional_string_def require_string_def)

lemma optional_uuid_written: "(\<And>u. x = Some u \<Longrightarrow> is_uuid u) \<Longrightarrow> deserialize_optional_uuid (opt_str x) f = Inr x"
  by (cases x) (simp_all add: deserialize_optional_uuid_def deserialize_uuid_def)

lemma optional_int_written: "serialize_optional_int64 x f = Inr v \<Longrightarrow> deserialize_optional_int64 v g = Inr x"
  by (cases x) (auto simp: serialize_optional_int64_def deserialize_optional_int64_def res_simps require_int64_iff)

lemma enum_written: "read t = Some m \<Longrightarrow> deserialize_enum read (VStr t) f = Inr m"
  by (simp add: deserialize_enum_def)

lemmas enums_written = boundary_enum.read_value category_enum.read_value code_enum.read_value severity_enum.read_value
  risk_enum.read_value reversibility_enum.read_value evidence_source_enum.read_value subject_type_enum.read_value
  identity_source_enum.read_value flag_enum.read_value disposition_enum.read_value

lemma subject_written: "subject_ok x \<Longrightarrow> deserialize_subject (serialize_subject x) = Inr x"
  by (cases x) (simp add: deserialize_subject_def serialize_subject_def item_display enum_written enums_written subject_ok_def)

lemma correlation_written:
  assumes "correlation_ok c" and "serialize_correlation c = Inr b"
  shows "deserialize_correlation b = Inr c"
proof -
  from assms(2) obtain v where v: "serialize_optional_int64 (dc_source_global_position c) ''receipt.correlation.source_global_position'' = Inr v"
    and b: "b = dict_display
         [(''order_id'', opt_str (dc_order_id c)),
          (''request_id'', opt_str (dc_request_id c)),
          (''candidate_event_id'', opt_str (dc_candidate_event_id c)),
          (''accepted_event_id'', opt_str (dc_accepted_event_id c)),
          (''snapshot_id'', opt_str (dc_snapshot_id c)),
          (''source_global_position'', v),
          (''identity_source'', VStr (DecisionReceiptIdentitySource_value (dc_identity_source c)))]"
    by (auto simp: serialize_correlation_def res_simps)
  from assms(1) show ?thesis unfolding b
    by (cases c) (simp add: deserialize_correlation_def item_display enum_written enums_written optional_uuid_written
        correlation_ok_def optional_int_written [OF v])
qed

lemma actor_written: "DecisionReceiptActor_init a = Inr a \<Longrightarrow> deserialize_actor (serialize_actor a) = Inr a"
  by (cases a) (simp add: deserialize_actor_def serialize_actor_def item_display)

lemma cost_summary_written:
  assumes "DecisionReceiptCostSummary_init k = Inr k" and "serialize_cost_summary k = Inr b"
  shows "deserialize_cost_summary b = Inr k"
proof -
  from assms(2) obtain v1 v2 v3 v4 v5
    where v: "serialize_optional_int64 (dk_elapsed_ms k) ''receipt.cost_summary.elapsed_ms'' = Inr v1"
      "serialize_optional_int64 (dk_validation_elapsed_ms k) ''receipt.cost_summary.validation_elapsed_ms'' = Inr v2"
      "serialize_optional_int64 (dk_replay_elapsed_ms k) ''receipt.cost_summary.replay_elapsed_ms'' = Inr v3"
      "serialize_optional_int64 (dk_transaction_elapsed_ms k) ''receipt.cost_summary.transaction_elapsed_ms'' = Inr v4"
      "serialize_optional_int64 (dk_lock_wait_ms k) ''receipt.cost_summary.lock_wait_ms'' = Inr v5"
    and b: "b = dict_display [(''elapsed_ms'', v1), (''validation_elapsed_ms'', v2), (''replay_elapsed_ms'', v3),
          (''transaction_elapsed_ms'', v4), (''lock_wait_ms'', v5)]"
    by (auto simp: serialize_cost_summary_def res_simps)
  from assms(1) show ?thesis unfolding b
    by (cases k) (simp add: deserialize_cost_summary_def item_display v [THEN optional_int_written])
qed

lemma flags_written: "deserialize_flags (serialize_flags f) = Inr f"
  by (cases f) (simp add: deserialize_flags_def serialize_flags_def item_display enum_written enums_written)

lemma admission_written: "deserialize_admission_evidence (serialize_admission_evidence e) = Inr e"
  by (cases e) (auto simp: deserialize_admission_evidence_def serialize_admission_evidence_def require_mapping_def
      exact_keys_display ADMISSION_EVIDENCE_KEYS_def item_display enum_written enums_written)

text \<open>The bodies have the keys that reading requires.\<close>

lemma written_keys:
  "require_exact_keys (serialize_subject x) SUBJECT_KEYS f = Inr ()"
  "serialize_correlation c = Inr b \<Longrightarrow> require_exact_keys b CORRELATION_KEYS f = Inr ()"
  "require_exact_keys (serialize_actor a) ACTOR_KEYS f = Inr ()"
  "serialize_cost_summary k = Inr b \<Longrightarrow> require_exact_keys b COST_SUMMARY_KEYS f = Inr ()"
  "require_exact_keys (serialize_flags g) FLAGS_KEYS f = Inr ()"
  by (auto simp: serialize_subject_def SUBJECT_KEYS_def serialize_correlation_def CORRELATION_KEYS_def serialize_actor_def ACTOR_KEYS_def
      serialize_cost_summary_def COST_SUMMARY_KEYS_def serialize_flags_def FLAGS_KEYS_def res_simps intro!: exact_keys_display)

text \<open>The integers of a receipt.\<close>

definition receipt_int64 :: "DecisionReceipt \<Rightarrow> bool" where
  "receipt_int64 r \<longleftrightarrow>
     (\<forall>i. Some i \<in> {dc_source_global_position (dr_correlation r), dk_elapsed_ms (dr_cost_summary r),
          dk_validation_elapsed_ms (dr_cost_summary r), dk_replay_elapsed_ms (dr_cost_summary r),
          dk_transaction_elapsed_ms (dr_cost_summary r), dk_lock_wait_ms (dr_cost_summary r)} \<longrightarrow> int64 i)
     \<and> ints64_pairs (dr_evidence_summary r) \<and> ints64_pairs (dr_metadata r)"

lemma optional_int_iff:
  "serialize_optional_int64 x f = Inr v \<longleftrightarrow> (\<forall>i. x = Some i \<longrightarrow> int64 i) \<and> v = opt_int x"
  by (cases x) (auto simp: serialize_optional_int64_def res_simps require_int64_iff)

lemma ints64_display: "ints64_pairs (dict_display kvs) = list_all (\<lambda>(k, v). ints64 v) kvs"
  by (induction kvs) (auto simp: dict_display_def)

lemma ints64_opt [simp]: "ints64 (opt_str x)" "ints64 (opt_int i) = (\<forall>j. i = Some j \<longrightarrow> int64 j)"
  by (simp_all split: option.splits)

lemma correlation_iff:
  "serialize_correlation c = Inr b \<Longrightarrow> (\<forall>i. dc_source_global_position c = Some i \<longrightarrow> int64 i) \<and> ints64_pairs b"
  by (auto simp: serialize_correlation_def res_simps optional_int_iff ints64_display)

lemma cost_summary_iff:
  "serialize_cost_summary k = Inr b \<Longrightarrow> ints64_pairs b \<and>
     (\<forall>i. Some i \<in> {dk_elapsed_ms k, dk_validation_elapsed_ms k, dk_replay_elapsed_ms k, dk_transaction_elapsed_ms k, dk_lock_wait_ms k}
        \<longrightarrow> int64 i)"
  by (auto simp: serialize_cost_summary_def res_simps optional_int_iff ints64_display)

lemma ints64_parts:
  "ints64_pairs (serialize_subject x)" "ints64_pairs (serialize_actor a)" "ints64_pairs (serialize_flags f)" "ints64 (serialize_admission_evidence e)"
  by (simp_all add: serialize_subject_def serialize_actor_def serialize_flags_def serialize_admission_evidence_def ints64_display split: option.splits)

lemma optional_int_raises: "serialize_optional_int64 x f = Inl e \<Longrightarrow> is_ValueError e"
  by (cases x) (auto simp: serialize_optional_int64_def res_simps require_int64_def split: if_splits)

lemma detach_raises:
  "json_ok d v \<Longrightarrow> detach_json_value f (frozen v) = Inl e \<Longrightarrow> is_ValueError e"
  "json_ok_pairs d kvs \<Longrightarrow> detach_json_pairs f (frozen_pairs kvs) = Inl e \<Longrightarrow> is_ValueError e"
  "json_ok_items d vs \<Longrightarrow> detach_json_items f i (frozen_items vs) = Inl e \<Longrightarrow> is_ValueError e"
proof (induction v and kvs and vs arbitrary: f d and f d and f d i rule: frozen_frozen_pairs_frozen_items.induct)
qed (auto simp: json_ok.simps detach_json_value.simps res_simps require_int64_def split: if_splits)

lemma detach_object_raises: "json_ok_pairs 1 m \<Longrightarrow> detach_json_object m f = Inl e \<Longrightarrow> is_ValueError e"
  using ensure_object_iff [of f m "frozen_pairs m"] detach_raises(2) [of 1 m f e] by (auto simp: detach_json_object_def)

lemma receipt_ok_json: "receipt_ok r \<Longrightarrow> json_ok_pairs 1 (dr_evidence_summary r) \<and> json_ok_pairs 1 (dr_metadata r)"
  by (simp add: receipt_ok_def receipt_init_iff)

text \<open>What is read is well-formed.\<close>

lemma subject_read: "deserialize_subject b = Inr x \<Longrightarrow> subject_ok x"
  by (auto simp: deserialize_subject_def DecisionReceiptSubject_init_def subject_ok_def res_simps)

lemma optional_uuid_read: "deserialize_optional_uuid v f = Inr (Some u) \<Longrightarrow> is_uuid u"
  by (auto simp: deserialize_optional_uuid_def deserialize_uuid_def res_simps dest: UUID_of_canonical split: if_splits pyval.splits option.splits)

lemma optional_int_read: "deserialize_optional_int64 v f = Inr (Some i) \<Longrightarrow> int64 i"
  by (cases v) (auto simp: deserialize_optional_int64_def res_simps require_int64_iff, auto simp: require_int64_def)

lemma correlation_read:
  "deserialize_correlation b = Inr c \<Longrightarrow> correlation_ok c \<and> (\<forall>i. dc_source_global_position c = Some i \<longrightarrow> int64 i)"
  by (auto simp: deserialize_correlation_def DecisionReceiptCorrelation_init_def correlation_ok_def res_simps
      dest: optional_uuid_read optional_int_read)

lemma actor_read: "deserialize_actor b = Inr a \<Longrightarrow> DecisionReceiptActor_init a = Inr a"
  by (auto simp: deserialize_actor_def DecisionReceiptActor_init_def res_simps)

lemma cost_summary_read:
  "deserialize_cost_summary b = Inr k \<Longrightarrow> DecisionReceiptCostSummary_init k = Inr k
     \<and> (\<forall>i. Some i \<in> {dk_elapsed_ms k, dk_validation_elapsed_ms k, dk_replay_elapsed_ms k, dk_transaction_elapsed_ms k, dk_lock_wait_ms k}
          \<longrightarrow> int64 i)"
  by (auto simp: deserialize_cost_summary_def DecisionReceiptCostSummary_init_def res_simps dest: optional_int_read)

lemma uuid_read: "deserialize_uuid v f = Inr u \<Longrightarrow> is_uuid u"
  by (auto simp: deserialize_uuid_def dest: UUID_of_canonical split: pyval.splits option.splits)

lemma receipt_surjective:
  "\<lparr>dr_receipt_id = dr_receipt_id r, dr_outcome_id = dr_outcome_id r, dr_ok = dr_ok r, dr_boundary = dr_boundary r,
    dr_category = dr_category r, dr_semantic_code = dr_semantic_code r, dr_severity = dr_severity r, dr_risk_level = dr_risk_level r,
    dr_reversibility = dr_reversibility r, dr_reason = dr_reason r, dr_evidence_source = dr_evidence_source r,
    dr_subject = dr_subject r, dr_correlation = dr_correlation r, dr_actor = dr_actor r, dr_cost_summary = dr_cost_summary r,
    dr_flags = dr_flags r, dr_admission_evidence = dr_admission_evidence r, dr_evidence_summary = x, dr_metadata = y\<rparr>
   = r\<lparr>dr_evidence_summary := x, dr_metadata := y\<rparr>"
  by (cases r) simp

lemma written_receipt_read:
  assumes ok: "receipt_ok r" and ser: "serialize_decision_receipt r = Inr payload"
  shows "deserialize_decision_receipt payload = Inr r"
proof -
  from ser obtain c k where c: "serialize_correlation (dr_correlation r) = Inr c" and k: "serialize_cost_summary (dr_cost_summary r) = Inr k"
    and ints: "ints64_pairs (dr_evidence_summary r)" "ints64_pairs (dr_metadata r)"
    and p: "payload = dict_display
         [(''receipt_serialization_version'', VInt DECISION_RECEIPT_SERIALIZATION_VERSION),
          (''receipt'', VDict (dict_display
             [(''receipt_id'', VStr (dr_receipt_id r)), (''outcome_id'', VStr (dr_outcome_id r)), (''ok'', VBool (dr_ok r)),
              (''boundary'', VStr (SemanticBoundary_value (dr_boundary r))),
              (''category'', VStr (SemanticOutcomeCategory_value (dr_category r))),
              (''semantic_code'', VStr (SemanticOutcomeCode_value (dr_semantic_code r))),
              (''severity'', VStr (SemanticSeverity_value (dr_severity r))),
              (''risk_level'', VStr (SemanticRiskLevel_value (dr_risk_level r))),
              (''reversibility'', VStr (SemanticReversibility_value (dr_reversibility r))), (''reason'', VStr (dr_reason r)),
              (''evidence_source'', VStr (DecisionReceiptEvidenceSource_value (dr_evidence_source r))),
              (''subject'', VDict (serialize_subject (dr_subject r))), (''correlation'', VDict c),
              (''actor'', VDict (serialize_actor (dr_actor r))), (''cost_summary'', VDict k),
              (''flags'', VDict (serialize_flags (dr_flags r))),
              (''admission_evidence'', serialize_admission_evidence (dr_admission_evidence r)),
              (''evidence_summary'', VDict (thawed_pairs (dr_evidence_summary r))),
              (''metadata'', VDict (thawed_pairs (dr_metadata r)))]))]"
    by (auto simp: serialize_decision_receipt_def res_simps detach_object_iff)
  have detach: "detach_json_object (thawed_pairs (dr_evidence_summary r)) f = Inr (thawed_pairs (thawed_pairs (dr_evidence_summary r)))"
    "detach_json_object (thawed_pairs (dr_metadata r)) f = Inr (thawed_pairs (thawed_pairs (dr_metadata r)))" for f
    using receipt_ok_json [OF ok] ints by (simp_all add: detach_object_iff)
  have init: "DecisionReceipt_init (r\<lparr>dr_evidence_summary := thawed_pairs (thawed_pairs (dr_evidence_summary r)),
      dr_metadata := thawed_pairs (thawed_pairs (dr_metadata r))\<rparr>) = Inr r"
    using receipt_ok_init [OF ok] receipt_ok_frozen [OF ok] by (simp add: receipt_init_iff)
  have parts: "deserialize_subject (serialize_subject (dr_subject r)) = Inr (dr_subject r)"
    "deserialize_correlation c = Inr (dr_correlation r)" "deserialize_actor (serialize_actor (dr_actor r)) = Inr (dr_actor r)"
    "deserialize_cost_summary k = Inr (dr_cost_summary r)" "deserialize_flags (serialize_flags (dr_flags r)) = Inr (dr_flags r)"
    using ok c k by (simp_all add: receipt_ok_def subject_written correlation_written actor_written cost_summary_written flags_written)
  have ids: "is_uuid (dr_receipt_id r)" "is_uuid (dr_outcome_id r)" using ok by (simp_all add: receipt_ok_def)
  have v: "require_int64 (VInt DECISION_RECEIPT_SERIALIZATION_VERSION) f = Inr DECISION_RECEIPT_SERIALIZATION_VERSION" for f
    by (simp add: DECISION_RECEIPT_SERIALIZATION_VERSION_def require_int64_def)
  show ?thesis unfolding p
    by (simp add: deserialize_decision_receipt_def deserialize_fields_def exact_keys_display OUTER_KEYS_def RECEIPT_KEYS_def
        item_display v require_mapping_def require_nested_mapping_def written_keys(1,3,5) written_keys(2) [OF c] written_keys(4) [OF k] admission_written deserialize_uuid_def
        require_bool_def require_string_def enum_written enums_written parts ids detach receipt_surjective init)
qed

lemma serialize_total:
  assumes "receipt_ok r" and "receipt_int64 r"
  shows "\<exists>payload. serialize_decision_receipt r = Inr payload"
  using assms receipt_ok_json [OF assms(1)]
  by (auto simp: serialize_decision_receipt_def serialize_correlation_def serialize_cost_summary_def res_simps
      optional_int_iff detach_object_iff receipt_int64_def)

lemma read_receipt_ok:
  assumes "deserialize_decision_receipt payload = Inr r"
  shows "receipt_ok r \<and> receipt_int64 r"
proof -
  from assms obtain rb sb cb ab kb fb ae where "deserialize_fields rb sb cb ab kb fb ae = Inr r"
    by (auto simp: deserialize_decision_receipt_def res_simps)
  then obtain raw where raw: "DecisionReceipt_init raw = Inr r" "is_uuid (dr_receipt_id raw)" "is_uuid (dr_outcome_id raw)"
    "deserialize_subject sb = Inr (dr_subject raw)" "deserialize_correlation cb = Inr (dr_correlation raw)"
    "deserialize_actor ab = Inr (dr_actor raw)" "deserialize_cost_summary kb = Inr (dr_cost_summary raw)"
    "ints64_pairs (dr_evidence_summary raw)" "ints64_pairs (dr_metadata raw)"
    unfolding deserialize_fields_def
    by (clarsimp simp: res_simps detach_object_iff) (rule that, assumption, auto dest: uuid_read)
  have "receipt_ok r"
    by (rule receipt_init_ok [OF raw(1-3) subject_read [OF raw(4)] conjunct1 [OF correlation_read [OF raw(5)]] actor_read [OF raw(6)]
        conjunct1 [OF cost_summary_read [OF raw(7)]]])
  moreover have "receipt_int64 r"
    using raw(1,8,9) correlation_read [OF raw(5)] cost_summary_read [OF raw(7)] by (auto simp: receipt_init_iff receipt_int64_def)
  ultimately show ?thesis ..
qed

section \<open>Properties\<close>

text \<open>
  C26: Round trip of receipts. A well-formed receipt that can be serialised is read back from its payload
  unchanged, in every field, including the frozen evidence and metadata mappings.
\<close>

theorem receipt_roundtrip:
  assumes ok: "receipt_ok r" and ser: "serialize_decision_receipt r = Inr payload"
  shows "deserialize_decision_receipt payload = Inr r"
  by (rule written_receipt_read [OF assms])

text \<open>
  C27: Bounds of the payload. For a well-formed receipt serialisation succeeds exactly when every integer of the receipt, at any depth of
  its evidence and metadata, fits a signed 64-bit integer, and the payload then contains only such
  integers, nests within the depth limit, and is JSON. Otherwise serialisation raises a ValueError.
\<close>

theorem payload_fits_int64:
  assumes "receipt_ok r"
  shows "case serialize_decision_receipt r of
      Inr payload \<Rightarrow> receipt_int64 r \<and> ints64_pairs payload
        \<and> json_ok_pairs 1 (thawed_pairs (dr_evidence_summary r)) \<and> json_ok_pairs 1 (thawed_pairs (dr_metadata r))
    | Inl e \<Rightarrow> \<not> receipt_int64 r \<and> is_ValueError e"
proof (cases "serialize_decision_receipt r")
  case (Inl e)
  note json = receipt_ok_json [OF assms]
  have "is_ValueError e" using Inl json
    by (auto simp: serialize_decision_receipt_def serialize_correlation_def serialize_cost_summary_def res_simps
        dest: optional_int_raises detach_object_raises [unfolded One_nat_def])
  moreover have "\<not> receipt_int64 r" using serialize_total [OF assms] Inl by auto
  ultimately show ?thesis using Inl by simp
next
  case (Inr payload)
  then obtain c k where c: "serialize_correlation (dr_correlation r) = Inr c" and k: "serialize_cost_summary (dr_cost_summary r) = Inr k"
    and ints: "ints64_pairs (dr_evidence_summary r)" "ints64_pairs (dr_metadata r)"
    by (auto simp: serialize_decision_receipt_def res_simps detach_object_iff)
  have "ints64_pairs payload"
    using Inr ints correlation_iff [OF c] cost_summary_iff [OF k]
    by (auto simp: serialize_decision_receipt_def c k res_simps detach_object_iff ints64_display ints64_parts
        DECISION_RECEIPT_SERIALIZATION_VERSION_def int64_def)
  moreover have "receipt_int64 r" using ints correlation_iff [OF c] cost_summary_iff [OF k] by (auto simp: receipt_int64_def)
  ultimately show ?thesis using Inr receipt_ok_json [OF assms] by simp
qed

text \<open>
  C28: Only well-formed receipts are read. Whatever payload is given, when it is accepted the receipt that it yields is
  well-formed (canonical UUIDs, non-empty optional strings, non-negative counters, admission
  evidence that agrees with the event identities, frozen JSON mappings), all its integers fit 64
  bits, and serialising it succeeds and reads back as the same receipt.
\<close>

theorem deserialized_receipt_well_formed:
  assumes "deserialize_decision_receipt payload = Inr r"
  shows "receipt_ok r \<and> receipt_int64 r
    \<and> (\<exists>canonical. serialize_decision_receipt r = Inr canonical \<and> deserialize_decision_receipt canonical = Inr r)"
proof -
  from read_receipt_ok [OF assms] have ok: "receipt_ok r" "receipt_int64 r" by simp_all
  obtain canonical where "serialize_decision_receipt r = Inr canonical" using serialize_total [OF ok] by blast
  with ok written_receipt_read [OF ok(1) this] show ?thesis by blast
qed

definition sample_receipt :: DecisionReceipt where
  "sample_receipt =
     \<lparr>dr_receipt_id = ''00000000-0000-0000-0000-000000000001'', dr_outcome_id = ''00000000-0000-0000-0000-000000000002'',
      dr_ok = True, dr_boundary = AT_LAYER_1_WRITE_SIDE, dr_category = CAT_VALID, dr_semantic_code = CODE_SEMANTICALLY_VALID,
      dr_severity = SEV_INFO, dr_risk_level = RISK_LOW, dr_reversibility = REV_IRREVERSIBLE, dr_reason = ''accepted'',
      dr_evidence_source = ES_WRITE_SIDE_ADMISSION, dr_subject = \<lparr>ds_subject_type = ST_ORDER, ds_subject_id = Some ''o1''\<rparr>,
      dr_correlation = default_correlation, dr_actor = default_actor,
      dr_cost_summary = default_cost_summary\<lparr>dk_elapsed_ms := Some 7\<rparr>, dr_flags = default_flags, dr_admission_evidence = None,
      dr_evidence_summary = [(VStr ''n'', VTuple [VInt 1, VNone])], dr_metadata = []\<rparr>"

lemma sample_uuids:
  "is_uuid ''00000000-0000-0000-0000-000000000001''" "is_uuid ''00000000-0000-0000-0000-000000000002''"
  by (rule column_uuid, code_simp)+

lemmas sample_receipt_facts = receipt_ok_def sample_receipt_def sample_uuids subject_ok_def DecisionReceiptSubject_init_def
  correlation_ok_def DecisionReceiptCorrelation_init_def default_correlation_def DecisionReceiptActor_init_def default_actor_def
  DecisionReceiptCostSummary_init_def default_cost_summary_def require_optional_non_empty_string_def
  require_optional_non_negative_int_def receipt_init_iff py_blank_iff py_isspace_def json_ok.simps MAX_JSON_DEPTH_def
  receipt_int64_def int64_def

lemma sample_receipt_ok: "receipt_ok sample_receipt" "receipt_int64 sample_receipt"
  by (simp_all add: sample_receipt_facts)

theorem receipt_roundtrip_witness:
  "\<exists>payload. serialize_decision_receipt sample_receipt = Inr payload \<and> deserialize_decision_receipt payload = Inr sample_receipt"
  using serialize_total [OF sample_receipt_ok] receipt_roundtrip [OF sample_receipt_ok(1)] by blast

text \<open>An integer of 2 to the 63 in the metadata is refused.\<close>

theorem payload_fits_int64_witness:
  "\<exists>e. serialize_decision_receipt (sample_receipt\<lparr>dr_metadata := [(VStr ''m'', VInt (2 ^ 63))]\<rparr>) = Inl e \<and> is_ValueError e"
proof -
  let ?r = "sample_receipt\<lparr>dr_metadata := [(VStr ''m'', VInt (2 ^ 63))]\<rparr>"
  have "receipt_ok ?r" by (simp add: sample_receipt_facts)
  moreover have "\<not> receipt_int64 ?r" by (simp add: receipt_int64_def int64_def)
  ultimately show ?thesis using payload_fits_int64 [of ?r] by (cases "serialize_decision_receipt ?r") auto
qed

theorem deserialized_receipt_well_formed_witness:
  "\<exists>payload. deserialize_decision_receipt payload = Inr sample_receipt \<and> receipt_ok sample_receipt"
proof -
  obtain payload where "serialize_decision_receipt sample_receipt = Inr payload" using serialize_total [OF sample_receipt_ok] by blast
  from written_receipt_read [OF sample_receipt_ok(1) this] deserialized_receipt_well_formed show ?thesis by blast
qed

end
