(* ===== verification/Receipt_Mapping.thy ===== *)
theory Receipt_Mapping
  imports Governed_Results Receipt_Serialization
begin

text \<open>
  From a result of the PostgreSQL write side to its decision receipt
  (compass/runtime/write_side_decision_receipt_mapping.py): the supported shapes, the identities a
  receipt may name, subject, provenance, admission fate and the summary of the evidence. The
  property: every result of a durable command has a well-formed receipt, which tells the truth
  about the accepted history. The \<open>isinstance\<close> checks are settled by the types of the model.
\<close>

section \<open>Supported shapes\<close>

definition require_idempotency_state ::
  "IdempotencyDecision \<Rightarrow> IdempotencyVerdict \<Rightarrow> bool \<Rightarrow> string \<Rightarrow> unit res" where
  "require_idempotency_state decision expected_verdict expected_record outcome_name =
     (if id_verdict decision \<noteq> expected_verdict
      then Inl (ValueError (outcome_name @ '' result requires idempotency verdict '' @ IdempotencyVerdict_value expected_verdict))
      else if expected_record \<and> id_record decision = None
      then Inl (ValueError (outcome_name @ '' result requires an accepted idempotency record''))
      else if \<not> expected_record \<and> id_record decision \<noteq> None
      then Inl (ValueError (outcome_name @ '' result must not carry an idempotency record''))
      else Inr ())"

definition validate_accepted_result :: "PostgresWriteSideResult \<Rightarrow> unit res" where
  "validate_accepted_result result =
     bind_res (require_idempotency_state (wr_idempotency_decision result) MISS False ''ACCEPTED'') (\<lambda>_.
     if wr_accepted_event result = None then Inl (ValueError ''ACCEPTED result requires accepted_event'')
     else case wr_stream_admission_result result of
       None \<Rightarrow> Inl (ValueError ''ACCEPTED result requires stream_admission_result'')
     | Some sar \<Rightarrow>
     if \<not> stream_admitted sar then Inl (ValueError ''ACCEPTED result requires admitted stream evidence'')
     else case wr_validation_decision result of
       None \<Rightarrow> Inl (ValueError ''ACCEPTED result requires validation_decision'')
     | Some decision \<Rightarrow>
     if vd_action decision \<noteq> ALLOW then Inl (ValueError ''ACCEPTED result requires an allowing validation decision'')
     else case wr_admission_result result of
       None \<Rightarrow> Inl (ValueError ''ACCEPTED result requires admitted append evidence'')
     | Some admission \<Rightarrow>
     if \<not> admission_admitted admission then Inl (ValueError ''ACCEPTED result requires admitted append evidence'')
     else if ad_accepted_event_id admission = None
     then Inl (ValueError ''ACCEPTED result requires append accepted_event_id evidence'')
     else Inr ())"

definition validate_replay_or_conflict_result :: "PostgresWriteSideResult \<Rightarrow> IdempotencyVerdict \<Rightarrow> unit res" where
  "validate_replay_or_conflict_result result expected_verdict =
     (let outcome_name = PostgresWriteSideOutcome_value (wr_outcome result)
      in bind_res (require_idempotency_state (wr_idempotency_decision result) expected_verdict True outcome_name) (\<lambda>_.
         if wr_stream_admission_result result \<noteq> None
         then Inl (ValueError (outcome_name @ '' result must not carry stream admission evidence''))
         else if wr_admission_result result \<noteq> None
         then Inl (ValueError (outcome_name @ '' result must not carry append admission evidence''))
         else case wr_validation_decision result of
           None \<Rightarrow> Inr ()
         | Some decision \<Rightarrow>
             require (vd_action decision = ALLOW)
               (ValueError (outcome_name @ '' post-validation result requires an allowing validation decision''))))"

definition validate_validation_blocked_result :: "PostgresWriteSideResult \<Rightarrow> unit res" where
  "validate_validation_blocked_result result =
     bind_res (require_idempotency_state (wr_idempotency_decision result) MISS False ''VALIDATION_BLOCKED'') (\<lambda>_.
     if wr_accepted_event result \<noteq> None then Inl (ValueError ''VALIDATION_BLOCKED result must not carry accepted_event'')
     else case wr_validation_decision result of
       None \<Rightarrow> Inl (ValueError ''VALIDATION_BLOCKED result requires validation_decision'')
     | Some decision \<Rightarrow>
     if vd_action decision \<noteq> BLOCK
     then Inl (ValueError ''VALIDATION_BLOCKED result requires a blocking validation decision'')
     else if wr_admission_result result \<noteq> None
     then Inl (ValueError ''VALIDATION_BLOCKED result must not carry append admission evidence'')
     else case wr_stream_admission_result result of
       None \<Rightarrow> Inr ()
     | Some sar \<Rightarrow>
         require (stream_admitted sar) (ValueError ''VALIDATION_BLOCKED result cannot carry rejected stream evidence''))"

definition validate_admission_rejected_result :: "PostgresWriteSideResult \<Rightarrow> unit res" where
  "validate_admission_rejected_result result =
     bind_res (require_idempotency_state (wr_idempotency_decision result) MISS False ''ADMISSION_REJECTED'') (\<lambda>_.
     if wr_accepted_event result \<noteq> None then Inl (ValueError ''ADMISSION_REJECTED result must not carry accepted_event'')
     else case wr_stream_admission_result result of
       None \<Rightarrow> Inl (ValueError ''ADMISSION_REJECTED result requires stream admission evidence'')
     | Some sar \<Rightarrow>
     (case wr_admission_result result of
        None \<Rightarrow>
          if stream_admitted sar
          then Inl (ValueError ''stream-owned ADMISSION_REJECTED result requires a rejected stream verdict'')
          else (case wr_validation_decision result of
            None \<Rightarrow> Inr ()
          | Some decision \<Rightarrow>
              require (vd_action decision = ALLOW)
                (ValueError ''post-validation stream rejection requires an allowing validation decision''))
      | Some append_result \<Rightarrow>
          if \<not> stream_admitted sar
          then Inl (ValueError ''append-owned ADMISSION_REJECTED result requires admitted stream evidence'')
          else if admission_admitted append_result
          then Inl (ValueError ''ADMISSION_REJECTED result cannot carry admitted append evidence'')
          else if ad_accepted_event_id append_result \<noteq> None
          then Inl (ValueError ''rejected append result must not carry accepted_event_id'')
          else case wr_validation_decision result of
            None \<Rightarrow> Inl (ValueError ''append-owned ADMISSION_REJECTED result requires validation_decision'')
          | Some decision \<Rightarrow>
              require (vd_action decision = ALLOW)
                (ValueError ''append-owned ADMISSION_REJECTED result requires an allowing validation decision'')))"

definition validate_receipt_result_shape :: "PostgresWriteSideResult \<Rightarrow> unit res" where
  "validate_receipt_result_shape result =
     (case wr_outcome result of
        OUT_ACCEPTED \<Rightarrow> validate_accepted_result result
      | OUT_REPLAY \<Rightarrow> validate_replay_or_conflict_result result REPLAY
      | OUT_CONFLICT \<Rightarrow>
          bind_res (validate_replay_or_conflict_result result CONFLICT) (\<lambda>_.
            require (wr_accepted_event result = None) (ValueError ''CONFLICT result must not carry accepted_event''))
      | OUT_VALIDATION_BLOCKED \<Rightarrow> validate_validation_blocked_result result
      | OUT_ADMISSION_REJECTED \<Rightarrow> validate_admission_rejected_result result)"

section \<open>Identities\<close>

record SelectedIdentity =
  si_order_id :: "string option"
  si_request_id :: "string option"
  si_candidate_event_id :: "string option"
  si_accepted_event_id :: "string option"

definition parse_uuid :: "string option \<Rightarrow> string \<Rightarrow> string res" where
  "parse_uuid v field_name =
     (case v of
        None \<Rightarrow> Inl (ValueError (field_name @ '' must be a non-empty UUID string''))
      | Some s \<Rightarrow>
          if py_blank s then Inl (ValueError (field_name @ '' must be a non-empty UUID string''))
          else case UUID_of s of
            None \<Rightarrow> Inl (ValueError (field_name @ '' must be a valid UUID string''))
          | Some u \<Rightarrow> Inr u)"

text \<open>Both selections return \<open>None\<close> without sources, and otherwise the value that all sources share.\<close>

definition select_consistent_string :: "(string \<times> string) list \<Rightarrow> string \<Rightarrow> string option res" where
  "select_consistent_string sources field_name =
     (if sources = [] then Inr None
      else bind_res (map_res (\<lambda>(source_name, v).
               if py_blank v then Inl (ValueError (source_name @ '' must be a non-empty string'')) else Inr v) sources) (\<lambda>values.
           if card (set values) \<noteq> 1 then Inl (ValueError (''Contradictory '' @ field_name @ '' evidence''))
           else Inr (Some (snd (hd sources)))))"

definition select_consistent_uuid :: "(string \<times> string) list \<Rightarrow> string \<Rightarrow> string option res" where
  "select_consistent_uuid sources field_name =
     (if sources = [] then Inr None
      else bind_res (map_res (\<lambda>(source_name, v). parse_uuid (Some v) source_name) sources) (\<lambda>parsed.
           if card (set parsed) \<noteq> 1 then Inl (ValueError (''Contradictory '' @ field_name @ '' evidence''))
           else Inr (Some (hd parsed))))"

definition validate_accepted_identity :: "PostgresWriteSideResult \<Rightarrow> SelectedIdentity \<Rightarrow> unit res" where
  "validate_accepted_identity result identity =
     (case wr_admission_result result of
        None \<Rightarrow> Inl (ValueError ''ACCEPTED result requires admitted append evidence'')
      | Some admission \<Rightarrow>
          bind_res (parse_uuid (ad_accepted_event_id admission) ''admission_result.accepted_event_id'') (\<lambda>append_accepted_event_id.
          if si_candidate_event_id identity = None
          then Inl (ValueError ''ACCEPTED result requires candidate_event_id'')
          else if si_accepted_event_id identity = None
          then Inl (ValueError ''ACCEPTED result requires accepted_event_id'')
          else require (si_candidate_event_id identity = si_accepted_event_id identity
                        \<and> Some append_accepted_event_id = si_accepted_event_id identity)
                 (ValueError ''ACCEPTED candidate and accepted event identities must match'')))"

definition accepted_event_sources :: "PostgresWriteSideResult \<Rightarrow> (string \<times> OrderEvent) list" where
  "accepted_event_sources result =
     (case wr_accepted_event result of None \<Rightarrow> [] | Some e \<Rightarrow> [(''returned accepted event'', e)])
     @ (case id_record (wr_idempotency_decision result) of
          None \<Rightarrow> [] | Some record \<Rightarrow> [(''idempotency record accepted event'', rec_accepted_event record)])"

definition select_identity :: "PostgresWriteSideResult \<Rightarrow> SelectedIdentity res" where
  "select_identity result =
     (let record = id_record (wr_idempotency_decision result);
          accepted_events = accepted_event_sources result;
          order_sources =
            map (\<lambda>(source_name, event). (source_name @ '' order_id'', ev_order_id event)) accepted_events
            @ (case record of None \<Rightarrow> []
               | Some r \<Rightarrow> [(''idempotency record signature order_id'', sig_order_id (rec_signature r))])
            @ (case wr_stream_admission_result result of None \<Rightarrow> []
               | Some sar \<Rightarrow> [(''stream admission order_id'', sa_order_id sar)]);
          request_sources =
            map (\<lambda>(source_name, event). (source_name @ '' request_id'', ev_request_id event)) accepted_events
            @ (case record of None \<Rightarrow> []
               | Some r \<Rightarrow> [(''idempotency record signature request_id'', sig_request_id (rec_signature r))]);
          accepted_id_sources =
            map (\<lambda>(source_name, event). (source_name @ '' event_id'', ev_event_id event)) accepted_events;
          candidate_sources =
            (case wr_validation_decision result of None \<Rightarrow> []
             | Some d \<Rightarrow> [(''validation candidate_event_id'', vr_candidate_event_id (vd_validation_result d))])
            @ (case wr_admission_result result of None \<Rightarrow> []
               | Some a \<Rightarrow> [(''append candidate_event_id'', ad_candidate_event_id a)])
      in bind_res (select_consistent_string order_sources ''order_id'') (\<lambda>order_id.
         bind_res (select_consistent_string request_sources ''request_id'') (\<lambda>request_id.
         bind_res (select_consistent_uuid candidate_sources ''candidate_event_id'') (\<lambda>candidate_event_id.
         bind_res (select_consistent_uuid accepted_id_sources ''accepted_event_id'') (\<lambda>accepted_event_id.
         let selected = \<lparr>si_order_id = order_id, si_request_id = request_id,
                         si_candidate_event_id = candidate_event_id, si_accepted_event_id = accepted_event_id\<rparr>
         in bind_res (if wr_outcome result = OUT_ACCEPTED then validate_accepted_identity result selected else Inr ()) (\<lambda>_.
              Inr selected))))))"

section \<open>The parts of the receipt\<close>

definition require_selected :: "string option \<Rightarrow> string \<Rightarrow> string res" where
  "require_selected v field_name =
     (case v of None \<Rightarrow> Inl (ValueError (field_name @ '' is required for receipt mapping'')) | Some x \<Rightarrow> Inr x)"

definition candidate_subject :: "SelectedIdentity \<Rightarrow> DecisionReceiptSubject res" where
  "candidate_subject identity =
     bind_res (require_selected (si_candidate_event_id identity) ''candidate_event_id'') (\<lambda>candidate_event_id.
       DecisionReceiptSubject_init \<lparr>ds_subject_type = ST_CANDIDATE_EVENT, ds_subject_id = Some candidate_event_id\<rparr>)"

definition subject_for_result :: "PostgresWriteSideResult \<Rightarrow> SelectedIdentity \<Rightarrow> DecisionReceiptSubject res" where
  "subject_for_result result identity =
     (if wr_outcome result \<in> set [OUT_ACCEPTED, OUT_REPLAY]
      then bind_res (require_selected (si_accepted_event_id identity) ''accepted_event_id'') (\<lambda>u.
             DecisionReceiptSubject_init \<lparr>ds_subject_type = ST_ACCEPTED_EVENT, ds_subject_id = Some u\<rparr>)
      else if wr_outcome result = OUT_CONFLICT
      then bind_res (require_selected (si_request_id identity) ''request_id'') (\<lambda>u.
             DecisionReceiptSubject_init \<lparr>ds_subject_type = ST_REQUEST, ds_subject_id = Some u\<rparr>)
      else if wr_outcome result = OUT_VALIDATION_BLOCKED then candidate_subject identity
      else if si_candidate_event_id identity \<noteq> None then candidate_subject identity
      else bind_res (require_selected (si_order_id identity) ''order_id'') (\<lambda>u.
             DecisionReceiptSubject_init \<lparr>ds_subject_type = ST_ORDER, ds_subject_id = Some u\<rparr>))"

definition identity_source_for_result :: "PostgresWriteSideResult \<Rightarrow> SelectedIdentity \<Rightarrow> DecisionReceiptIdentitySource" where
  "identity_source_for_result result identity =
     (case wr_outcome result of
        OUT_ACCEPTED \<Rightarrow> IS_ACCEPTED_HISTORY
      | OUT_REPLAY \<Rightarrow> IS_ACCEPTED_HISTORY
      | OUT_CONFLICT \<Rightarrow> IS_WRITE_SIDE_CORRELATION
      | OUT_VALIDATION_BLOCKED \<Rightarrow> IS_CANDIDATE_EVENT_IDENTITY
      | OUT_ADMISSION_REJECTED \<Rightarrow>
          if si_candidate_event_id identity = None then IS_WRITE_SIDE_CORRELATION else IS_CANDIDATE_EVENT_IDENTITY)"

definition admission_disposition_for_result :: "PostgresWriteSideResult \<Rightarrow> EventAdmissionDisposition res" where
  "admission_disposition_for_result result =
     (case wr_outcome result of
        OUT_ACCEPTED \<Rightarrow> Inr AD_ADMITTED_TO_ACCEPTED_HISTORY
      | OUT_REPLAY \<Rightarrow> Inr AD_MATCHED_EXISTING_ACCEPTED_EVENT
      | OUT_CONFLICT \<Rightarrow> Inr AD_IDEMPOTENCY_CONFLICT_WITH_ACCEPTED_HISTORY
      | OUT_VALIDATION_BLOCKED \<Rightarrow> Inr AD_SEMANTIC_ADMISSION_REJECTED
      | OUT_ADMISSION_REJECTED \<Rightarrow>
          (case wr_admission_result result of
             None \<Rightarrow> Inr AD_APPEND_ADMISSION_NOT_REACHED
           | Some a \<Rightarrow>
               if ad_verdict a = STALE_WRITE then Inr AD_APPEND_CONCURRENCY_CONFLICT
               else if ad_verdict a \<in> set [LOCK_TIMEOUT, INFRASTRUCTURE_ERROR] then Inr AD_APPEND_TECHNICAL_FAILURE
               else Inl (ValueError ''Unsupported write-side admission disposition'')))"

definition owned_rejection_verdict :: "PostgresWriteSideResult \<Rightarrow> AdmissionVerdict option res" where
  "owned_rejection_verdict result =
     (if wr_outcome result \<noteq> OUT_ADMISSION_REJECTED then Inr None
      else case wr_admission_result result of
        Some a \<Rightarrow> Inr (Some (ad_verdict a))
      | None \<Rightarrow>
          (case wr_stream_admission_result result of
             None \<Rightarrow> Inl (ValueError ''ADMISSION_REJECTED result requires stream admission evidence'')
           | Some s \<Rightarrow> Inr (Some (sa_verdict s))))"

definition receipt_technical_status_for_result :: "PostgresWriteSideResult \<Rightarrow> string res" where
  "receipt_technical_status_for_result result =
     (case wr_outcome result of
        OUT_ACCEPTED \<Rightarrow> Inr ''WRITE_SIDE_ACCEPTED''
      | OUT_REPLAY \<Rightarrow> Inr ''IDEMPOTENT_REPLAY''
      | OUT_CONFLICT \<Rightarrow> Inr ''IDEMPOTENCY_CONFLICT''
      | OUT_VALIDATION_BLOCKED \<Rightarrow> Inr ''COMPASS_VALIDATION_BLOCKED''
      | OUT_ADMISSION_REJECTED \<Rightarrow>
          bind_res (owned_rejection_verdict result) (\<lambda>verdict.
          if verdict = Some STALE_WRITE then Inr ''CONCURRENT_STATE_STALENESS''
          else if verdict = Some LOCK_TIMEOUT then Inr ''LOCK_TIMEOUT''
          else if verdict = Some INFRASTRUCTURE_ERROR then Inr ''WRITE_SIDE_INFRASTRUCTURE_ERROR''
          else Inl (ValueError ''Unsupported write-side technical status'')))"

definition lifecycle_phase_for_result :: "PostgresWriteSideResult \<Rightarrow> string" where
  "lifecycle_phase_for_result result =
     (case wr_outcome result of
        OUT_ACCEPTED \<Rightarrow> ''ACCEPTED_HISTORY''
      | OUT_REPLAY \<Rightarrow> ''IDEMPOTENCY_CHECK''
      | OUT_CONFLICT \<Rightarrow> ''IDEMPOTENCY_CHECK''
      | OUT_VALIDATION_BLOCKED \<Rightarrow> ''VALIDATION''
      | OUT_ADMISSION_REJECTED \<Rightarrow>
          (if wr_admission_result result = None then ''STREAM_PREPARATION'' else ''APPEND_ADMISSION''))"

definition evidence_summary_for_result :: "PostgresWriteSideResult \<Rightarrow> json_object res" where
  "evidence_summary_for_result result =
     bind_res (receipt_technical_status_for_result result) (\<lambda>technical_status.
       Inr (dict_display
         ([(''technical_status'', VStr technical_status),
           (''write_side_outcome'', VStr (PostgresWriteSideOutcome_value (wr_outcome result))),
           (''idempotency_verdict'', VStr (IdempotencyVerdict_value (id_verdict (wr_idempotency_decision result)))),
           (''lifecycle_phase'', VStr (lifecycle_phase_for_result result))]
          @ (case wr_stream_admission_result result of None \<Rightarrow> []
             | Some s \<Rightarrow> [(''stream_admission_verdict'', VStr (AdmissionVerdict_value (sa_verdict s)))])
          @ (case wr_validation_decision result of None \<Rightarrow> []
             | Some d \<Rightarrow>
                 [(''validation_action'', VStr (EnforcementAction_value (vd_action d))),
                  (''validation_verdict'', VStr (ValidationVerdict_value (vr_verdict (vd_validation_result d)))),
                  (''validation_mode'', VStr (ValidationMode_value (vr_validation_mode (vd_validation_result d))))])
          @ (case wr_admission_result result of None \<Rightarrow> []
             | Some a \<Rightarrow> [(''append_admission_verdict'', VStr (AdmissionVerdict_value (ad_verdict a)))]))))"

definition map_postgres_write_side_result_to_decision_receipt ::
  "string \<Rightarrow> string \<Rightarrow> PostgresWriteSideResult \<Rightarrow> DecisionReceipt res" where
  "map_postgres_write_side_result_to_decision_receipt receipt_id oid result =
     bind_res (validate_receipt_result_shape result) (\<lambda>_.
     bind_res (map_postgres_write_side_result_to_semantic_outcome oid result [] []) (\<lambda>outcome.
     bind_res (select_identity result) (\<lambda>identity.
     bind_res (subject_for_result result identity) (\<lambda>subject.
     bind_res (DecisionReceiptCorrelation_init
                 \<lparr>dc_order_id = si_order_id identity, dc_request_id = si_request_id identity,
                  dc_candidate_event_id = si_candidate_event_id identity, dc_accepted_event_id = si_accepted_event_id identity,
                  dc_snapshot_id = None, dc_source_global_position = None,
                  dc_identity_source = identity_source_for_result result identity\<rparr>) (\<lambda>correlation.
     bind_res (admission_disposition_for_result result) (\<lambda>disposition.
     bind_res (evidence_summary_for_result result) (\<lambda>evidence_summary.
       map_semantic_outcome_to_decision_receipt receipt_id outcome ES_WRITE_SIDE_ADMISSION (Some subject) (Some correlation)
         None None (Some default_flags) (Some \<lparr>dae_disposition = disposition\<rparr>) (Some evidence_summary) None)))))))"

section \<open>Receipts of answered requests\<close>

lemma UUID_not_blank:
  assumes "UUID_of s = Some u"
  shows "\<not> py_blank u"
proof -
  from assms obtain h where "u = uuid_spelling h" by (auto simp: UUID_of_def Let_def split: if_splits option.splits)
  then have "CHR ''-'' \<in> set u" by (simp add: uuid_spelling_def)
  moreover have "\<not> py_isspace (CHR ''-'')" by (simp add: py_isspace_def)
  ultimately show ?thesis by (auto simp: py_blank_iff)
qed

lemma parse_uuid_ok: "is_uuid u \<Longrightarrow> parse_uuid (Some u) f = Inr u"
  by (simp add: parse_uuid_def UUID_not_blank)

lemma card_shared: "xs \<noteq> [] \<Longrightarrow> \<forall>v \<in> set xs. v = x \<Longrightarrow> card (set xs) = 1 \<and> hd xs = x"
proof -
  assume "xs \<noteq> []" and "\<forall>v \<in> set xs. v = x"
  then have "set xs = {x}" "hd xs = x" by (cases xs; auto)+
  then show ?thesis by simp
qed

lemma select_string_ok:
  assumes "\<forall>s \<in> set sources. snd s = x" and "sources \<noteq> [] \<Longrightarrow> \<not> py_blank x"
  shows "select_consistent_string sources f = Inr (if sources = [] then None else Some x)"
proof (cases "sources = []")
  case False
  have "map_res (\<lambda>(source_name, v). if py_blank v then Inl (ValueError (source_name @ '' must be a non-empty string'')) else Inr v) sources
      = Inr (map snd sources)" using assms False by (intro map_res_total) (auto split: prod.splits)
  with card_shared [of "map snd sources" x] assms False show ?thesis by (auto simp: select_consistent_string_def hd_map)
qed (simp add: select_consistent_string_def)

lemma select_uuid_ok:
  assumes "\<forall>s \<in> set sources. snd s = x" and "sources \<noteq> [] \<Longrightarrow> is_uuid x"
  shows "select_consistent_uuid sources f = Inr (if sources = [] then None else Some x)"
proof (cases "sources = []")
  case False
  have "map_res (\<lambda>(source_name, v). parse_uuid (Some v) source_name) sources = Inr (map snd sources)"
    using assms False by (intro map_res_total) (auto simp: parse_uuid_ok split: prod.splits)
  with card_shared [of "map snd sources" x] assms False show ?thesis by (auto simp: select_consistent_uuid_def)
qed (simp add: select_consistent_uuid_def)

lemma answered_shape_supported:
  assumes "answered sg eid r"
  shows "validate_receipt_result_shape r = Inr ()"
proof (cases "wr_outcome r")
  case OUT_ACCEPTED
  with assms show ?thesis by (auto simp: answered_def shape_defs decision_shape_def validate_receipt_result_shape_def
      validate_accepted_result_def require_idempotency_state_def stream_admitted_def admission_admitted_def)
next
  case OUT_REPLAY
  with assms show ?thesis by (auto simp: answered_def shape_defs decision_shape_def validate_receipt_result_shape_def
      validate_replay_or_conflict_result_def require_idempotency_state_def require_def split: option.splits)
next
  case OUT_CONFLICT
  with assms show ?thesis by (auto simp: answered_def shape_defs decision_shape_def validate_receipt_result_shape_def
      validate_replay_or_conflict_result_def require_idempotency_state_def require_def split: option.splits)
next
  case OUT_VALIDATION_BLOCKED
  with assms show ?thesis by (auto simp: answered_def shape_defs decision_shape_def validate_receipt_result_shape_def
      validate_validation_blocked_result_def require_idempotency_state_def require_def stream_admitted_def split: option.splits)
next
  case OUT_ADMISSION_REJECTED
  with assms show ?thesis by (auto simp: answered_def shape_defs decision_shape_def validate_receipt_result_shape_def
      validate_admission_rejected_result_def require_idempotency_state_def require_def stream_admitted_def admission_admitted_def
      split: option.splits)
qed

text \<open>The identities that the receipt of an answered request names.\<close>

definition named_identity :: "string \<Rightarrow> PostgresWriteSideResult \<Rightarrow> SelectedIdentity" where
  "named_identity eid r =
     \<lparr>si_order_id = (case accepted_event_from_result r of
          Some e \<Rightarrow> Some (ev_order_id e) | None \<Rightarrow> map_option sa_order_id (wr_stream_admission_result r)),
      si_request_id = map_option ev_request_id (accepted_event_from_result r),
      si_candidate_event_id = (if wr_validation_decision r = None \<and> wr_admission_result r = None then None else Some eid),
      si_accepted_event_id = map_option ev_event_id (accepted_event_from_result r)\<rparr>"

lemma answered_sources:
  assumes a: "answered sg eid r"
  shows "snd ` set (accepted_event_sources r) = set_option (accepted_event_from_result r)"
    and "id_record (wr_idempotency_decision r) = Some record \<Longrightarrow> accepted_event_from_result r = Some (rec_accepted_event record)
      \<and> sig_order_id (rec_signature record) = ev_order_id (rec_accepted_event record)
      \<and> sig_request_id (rec_signature record) = ev_request_id (rec_accepted_event record)"
    and "wr_stream_admission_result r = Some sar \<Longrightarrow> accepted_event_from_result r = Some e \<Longrightarrow> sa_order_id sar = ev_order_id e"
  using a by (auto simp: answered_def result_shape_def decision_shape_def accepted_event_sources_def accepted_event_from_result_def
      split: option.splits PostgresWriteSideOutcome.splits if_splits)

lemma answered_event:
  assumes "answered sg eid r" and "is_uuid eid" and "accepted_event_from_result r = Some e"
  shows "is_uuid (ev_event_id e)" "\<not> py_blank (ev_order_id e)" "\<not> py_blank (ev_request_id e)"
  using assms by (auto simp: answered_def result_shape_def decision_shape_def accepted_event_from_result_def column_uuid
      split: option.splits PostgresWriteSideOutcome.splits if_splits)

lemma answered_identity:
  assumes a: "answered sg eid r" and eid: "is_uuid eid" and o': "\<not> py_blank (sig_order_id sg)"
  shows "select_identity r = Inr (named_identity eid r)"
proof -
  let ?e = "accepted_event_from_result r" and ?acc = "accepted_event_sources r"
  note src = answered_sources [OF a]
  have ev: "?e = Some (snd p)" if "p \<in> set ?acc" for p
    using imageI [OF that, of snd] unfolding src(1) by simp
  have none: "?acc = [] \<longleftrightarrow> ?e = None" using src(1) by (cases ?e) auto
  have str: "sa_order_id s = sig_order_id sg" if "wr_stream_admission_result r = Some s" for s
    using a that by (auto simp: answered_def result_shape_def)
  have cand: "wr_validation_decision r = Some d \<Longrightarrow> vr_candidate_event_id (vd_validation_result d) = eid"
    "wr_admission_result r = Some ad \<Longrightarrow> ad_candidate_event_id ad = eid" for d ad
    using a by (auto simp: answered_def shape_defs)
  let ?rec = "id_record (wr_idempotency_decision r)" and ?str = "wr_stream_admission_result r"
  have rec: "?e = None \<Longrightarrow> ?rec = None" using src(2) by (cases ?rec) auto
  have ev': "\<forall>p \<in> set ?acc. snd p = the ?e" using ev by fastforce
  have order: "select_consistent_string (map (\<lambda>(source_name, event). (source_name @ '' order_id'', ev_order_id event)) ?acc
            @ (case ?rec of None \<Rightarrow> [] | Some r \<Rightarrow> [(''idempotency record signature order_id'', sig_order_id (rec_signature r))])
            @ (case ?str of None \<Rightarrow> [] | Some sar \<Rightarrow> [(''stream admission order_id'', sa_order_id sar)])) ''order_id''
      = Inr (si_order_id (named_identity eid r))" (is "select_consistent_string ?order _ = _")
  proof (cases ?e)
    case None
    with none rec str o' show ?thesis
      by (cases ?str) (simp_all add: named_identity_def select_string_ok [where x = "sig_order_id sg"])
  next
    case (Some e)
    have "\<forall>s \<in> set ?order. snd s = ev_order_id e"
      using ev' src(2,3) Some by (cases ?rec; cases ?str) (auto split: prod.splits)
    moreover have "?order \<noteq> []" using none Some by simp
    ultimately show ?thesis using answered_event [OF a eid Some] Some select_string_ok [of ?order "ev_order_id e" "''order_id''"]
      by (simp add: named_identity_def)
  qed
  have request: "select_consistent_string (map (\<lambda>(source_name, event). (source_name @ '' request_id'', ev_request_id event)) ?acc
            @ (case ?rec of None \<Rightarrow> [] | Some r \<Rightarrow> [(''idempotency record signature request_id'', sig_request_id (rec_signature r))])) ''request_id''
      = Inr (si_request_id (named_identity eid r))" (is "select_consistent_string ?request _ = _")
  proof (cases ?e)
    case None
    with none rec show ?thesis by (simp add: named_identity_def select_consistent_string_def)
  next
    case (Some e)
    have "\<forall>s \<in> set ?request. snd s = ev_request_id e"
      using ev' src(2) Some by (cases ?rec) (auto split: prod.splits)
    moreover have "?request \<noteq> []" using none Some by simp
    ultimately show ?thesis using answered_event [OF a eid Some] Some select_string_ok [of ?request "ev_request_id e" "''request_id''"]
      by (simp add: named_identity_def)
  qed
  have candidate: "select_consistent_uuid ((case wr_validation_decision r of None \<Rightarrow> []
             | Some d \<Rightarrow> [(''validation candidate_event_id'', vr_candidate_event_id (vd_validation_result d))])
            @ (case wr_admission_result r of None \<Rightarrow> []
               | Some a \<Rightarrow> [(''append candidate_event_id'', ad_candidate_event_id a)])) ''candidate_event_id''
      = Inr (si_candidate_event_id (named_identity eid r))"
    by (subst select_uuid_ok [where x = eid]) (use cand eid in \<open>auto simp: named_identity_def split: option.splits\<close>)
  have accepted: "select_consistent_uuid (map (\<lambda>(source_name, event). (source_name @ '' event_id'', ev_event_id event)) ?acc) ''accepted_event_id''
      = Inr (si_accepted_event_id (named_identity eid r))"
  proof (cases ?e)
    case (Some e)
    with none ev' answered_event [OF a eid Some] show ?thesis
      by (subst select_uuid_ok [where x = "ev_event_id e"]) (auto simp: named_identity_def)
  qed (simp add: none named_identity_def select_consistent_uuid_def)
  have fate: "validate_accepted_identity r (named_identity eid r) = Inr ()" if "wr_outcome r = OUT_ACCEPTED"
    using a that eid by (auto simp: answered_def shape_defs validate_accepted_identity_def named_identity_def parse_uuid_ok
        accepted_event_from_result_def require_def)
  have whole: "\<lparr>si_order_id = si_order_id (named_identity eid r), si_request_id = si_request_id (named_identity eid r),
      si_candidate_event_id = si_candidate_event_id (named_identity eid r),
      si_accepted_event_id = si_accepted_event_id (named_identity eid r)\<rparr> = named_identity eid r" by simp
  show ?thesis
    unfolding select_identity_def Let_def order request candidate accepted bind_res_simps whole using fate by auto
qed

lemma answered_outcome:
  assumes "answered sg eid r"
  obtains outcome where "map_postgres_write_side_result_to_semantic_outcome oid r [] [] = Inr outcome"
    and "\<not> py_blank (so_reason outcome)" and "outcome_id outcome = oid"
proof -
  have "result_shape sg eid r"
    "wr_outcome r = OUT_ACCEPTED \<Longrightarrow> \<exists>e. wr_accepted_event r = Some e \<and> ev_order_id e = sig_order_id sg"
    using assms by (auto simp: answered_def)
  then obtain fb where "map_postgres_write_side_result_to_semantic_rule_feedback oid r = Inr fb" by (rule feedback_total)
  then obtain outcome where o': "map_postgres_write_side_result_to_semantic_outcome oid r [] [] = Inr outcome"
    by (auto simp: map_postgres_write_side_result_to_semantic_rule_feedback_def res_simps)
  then have "\<not> py_blank (so_reason outcome)" "outcome_id outcome = oid"
    by (auto simp: map_postgres_write_side_result_to_semantic_outcome_def map_write_side_admission_status_to_semantic_outcome_def
        map_runtime_technical_status_def SemanticOutcome_init_def res_simps split: if_splits)
  with o' that show ?thesis by blast
qed

lemma answered_rejection:
  assumes "answered sg eid r" and "wr_outcome r = OUT_ADMISSION_REJECTED"
  obtains v where "owned_rejection_verdict r = Inr (Some v)" and "v \<noteq> ADMITTED"
    and "\<And>a. wr_admission_result r = Some a \<Longrightarrow> ad_verdict a = v"
  using assms by (auto simp: answered_def result_shape_def owned_rejection_verdict_def split: option.splits)

lemma answered_status:
  assumes "answered sg eid r"
  obtains tst disposition where "receipt_technical_status_for_result r = Inr tst" and "admission_disposition_for_result r = Inr disposition"
    and "(disposition = AD_ADMITTED_TO_ACCEPTED_HISTORY) = (wr_outcome r = OUT_ACCEPTED)"
    and "validate_admission_evidence \<lparr>dae_disposition = disposition\<rparr>
      \<lparr>dc_order_id = p, dc_request_id = q, dc_candidate_event_id = si_candidate_event_id (named_identity eid r),
       dc_accepted_event_id = si_accepted_event_id (named_identity eid r), dc_snapshot_id = s, dc_source_global_position = g,
       dc_identity_source = k\<rparr> = Inr ()"
proof (cases "wr_outcome r = OUT_ADMISSION_REJECTED")
  case True
  obtain v where v: "owned_rejection_verdict r = Inr (Some v)" "v \<noteq> ADMITTED" "\<And>a. wr_admission_result r = Some a \<Longrightarrow> ad_verdict a = v"
    using answered_rejection [OF assms True] by blast
  have none: "accepted_event_from_result r = None"
    using assms True by (auto simp: answered_def result_shape_def decision_shape_def accepted_event_from_result_def)
  from v none True show ?thesis
    by (cases v; cases "wr_admission_result r")
       (auto intro!: that simp: receipt_technical_status_for_result_def admission_disposition_for_result_def named_identity_def
         validate_admission_evidence_def)
next
  case False
  with assms show ?thesis
    by (cases "wr_outcome r")
       (auto intro!: that simp: answered_def shape_defs decision_shape_def receipt_technical_status_for_result_def
         admission_disposition_for_result_def named_identity_def validate_admission_evidence_def accepted_event_from_result_def split: option.splits)
qed

lemma answered_summary:
  assumes "answered sg eid r"
  obtains summary where "evidence_summary_for_result r = Inr summary" and "json_ok_pairs 1 summary" and "ints64_pairs summary"
proof -
  obtain tst where t: "receipt_technical_status_for_result r = Inr tst" by (rule answered_status [OF assms])
  show ?thesis
    by (rule that) (auto simp: evidence_summary_for_result_def t dict_display_def json_ok.simps MAX_JSON_DEPTH_def split: option.splits)
qed

lemma answered_subject:
  assumes "answered sg eid r" and "is_uuid eid" and "\<not> py_blank (sig_order_id sg)"
  obtains subject :: DecisionReceiptSubject where "subject_for_result r (named_identity eid r) = Inr subject" and "subject_ok subject"
    and "wr_outcome r = OUT_ACCEPTED \<longrightarrow> subject = \<lparr>ds_subject_type = ST_ACCEPTED_EVENT, ds_subject_id = Some eid\<rparr>"
proof -
  note defs = subject_for_result_def named_identity_def require_selected_def candidate_subject_def DecisionReceiptSubject_init_def
    require_optional_non_empty_string_def subject_ok_def
  have eid: "\<not> py_blank eid" using assms(2) UUID_not_blank by blast
  show ?thesis
  proof (cases "accepted_event_from_result r")
    case None
    with assms(1) have "wr_outcome r \<notin> {OUT_ACCEPTED, OUT_REPLAY, OUT_CONFLICT}"
      by (auto simp: answered_def result_shape_def decision_shape_def accepted_event_from_result_def split: option.splits)
    with None assms eid show ?thesis
      by (cases "wr_outcome r"; cases "wr_validation_decision r") (auto intro!: that simp: defs answered_def result_shape_def split: option.splits)
  next
    case (Some e)
    with answered_event [OF assms(1,2) Some] UUID_not_blank [of _ "ev_event_id e"] assms(1) eid show ?thesis
      by (cases "wr_outcome r") (auto intro!: that simp: defs answered_def result_shape_def decision_shape_def
          accepted_event_from_result_def split: option.splits)
  qed
qed

lemma answered_receipt_parts:
  assumes a: "answered sg eid r" and eid: "uuid_in eid = Some eid" and o': "\<not> py_blank (sig_order_id sg)"
    and ids: "is_uuid receipt_id" "is_uuid oid"
  obtains rc outcome disposition summary where "map_postgres_write_side_result_to_decision_receipt receipt_id oid r = Inr rc"
    and "receipt_ok rc" and "receipt_int64 rc" and "dr_receipt_id rc = receipt_id"
    and "map_postgres_write_side_result_to_semantic_outcome oid r [] [] = Inr outcome"
    and "(dr_outcome_id rc, dr_ok rc, dr_boundary rc, dr_category rc, dr_semantic_code rc, dr_reason rc)
       = (oid, so_ok outcome, so_boundary outcome, so_category outcome, so_code outcome, so_reason outcome)"
    and "dr_admission_evidence rc = Some \<lparr>dae_disposition = disposition\<rparr>"
    and "(disposition = AD_ADMITTED_TO_ACCEPTED_HISTORY) = (wr_outcome r = OUT_ACCEPTED)"
    and "dc_accepted_event_id (dr_correlation rc) = map_option ev_event_id (accepted_event_from_result r)"
    and "wr_outcome r = OUT_ACCEPTED \<Longrightarrow> dr_subject rc = \<lparr>ds_subject_type = ST_ACCEPTED_EVENT, ds_subject_id = Some eid\<rparr>"
    and "dr_flags rc = default_flags" and "evidence_summary_for_result r = Inr summary"
    and "dr_evidence_summary rc = frozen_pairs summary" and "dr_metadata rc = []"
    and "(dr_evidence_source rc, dr_actor rc) = (ES_WRITE_SIDE_ADMISSION, default_actor)"
    and "subject_for_result r (named_identity eid r) = Inr (dr_subject rc)"
    and "dr_correlation rc = \<lparr>dc_order_id = si_order_id (named_identity eid r), dc_request_id = si_request_id (named_identity eid r),
      dc_candidate_event_id = si_candidate_event_id (named_identity eid r), dc_accepted_event_id = si_accepted_event_id (named_identity eid r),
      dc_snapshot_id = None, dc_source_global_position = None, dc_identity_source = identity_source_for_result r (named_identity eid r)\<rparr>"
proof -
  have u: "is_uuid eid" by (rule column_uuid [OF eid])
  obtain outcome where out: "map_postgres_write_side_result_to_semantic_outcome oid r [] [] = Inr outcome"
    "\<not> py_blank (so_reason outcome)" "outcome_id outcome = oid" by (rule answered_outcome [OF a])
  obtain subject :: DecisionReceiptSubject where sub: "subject_for_result r (named_identity eid r) = Inr subject" "subject_ok subject"
    "wr_outcome r = OUT_ACCEPTED \<longrightarrow> subject = \<lparr>ds_subject_type = ST_ACCEPTED_EVENT, ds_subject_id = Some eid\<rparr>"
    by (rule answered_subject [OF a u o'])
  obtain summary where sum: "evidence_summary_for_result r = Inr summary" "json_ok_pairs 1 summary" "ints64_pairs summary"
    by (rule answered_summary [OF a])
  let ?id = "named_identity eid r"
  let ?c = "\<lparr>dc_order_id = si_order_id ?id, dc_request_id = si_request_id ?id, dc_candidate_event_id = si_candidate_event_id ?id,
    dc_accepted_event_id = si_accepted_event_id ?id, dc_snapshot_id = None, dc_source_global_position = None,
    dc_identity_source = identity_source_for_result r ?id\<rparr>"
  obtain tst disposition where disp: "admission_disposition_for_result r = Inr disposition"
    "(disposition = AD_ADMITTED_TO_ACCEPTED_HISTORY) = (wr_outcome r = OUT_ACCEPTED)"
    "validate_admission_evidence \<lparr>dae_disposition = disposition\<rparr> ?c = Inr ()"
    by (rule answered_status [OF a])
  have "\<not> py_blank q" if "si_order_id ?id = Some q \<or> si_request_id ?id = Some q" for q
    using that a o' answered_event [OF a u] by (auto simp: named_identity_def answered_def result_shape_def split: option.splits)
  then have c: "DecisionReceiptCorrelation_init ?c = Inr ?c"
    by (auto simp: DecisionReceiptCorrelation_init_def require_optional_non_empty_string_def require_optional_non_negative_int_def
        require_def split: option.splits)
  have cok: "correlation_ok ?c" using c u answered_event [OF a u] by (auto simp: correlation_ok_def named_identity_def)
  let ?rc = "\<lparr>dr_receipt_id = receipt_id, dr_outcome_id = oid, dr_ok = so_ok outcome,
        dr_boundary = so_boundary outcome, dr_category = so_category outcome, dr_semantic_code = so_code outcome,
        dr_severity = so_severity outcome, dr_risk_level = so_risk_level outcome,
        dr_reversibility = so_reversibility outcome, dr_reason = so_reason outcome,
        dr_evidence_source = ES_WRITE_SIDE_ADMISSION, dr_subject = subject, dr_correlation = ?c, dr_actor = default_actor,
        dr_cost_summary = default_cost_summary, dr_flags = default_flags,
        dr_admission_evidence = Some \<lparr>dae_disposition = disposition\<rparr>,
        dr_evidence_summary = summary, dr_metadata = []\<rparr>"
  let ?fc = "?rc\<lparr>dr_evidence_summary := frozen_pairs summary\<rparr>"
  have init: "DecisionReceipt_init ?rc = Inr ?fc"
    using out(2) disp(3) sum(2) by (simp add: receipt_init_iff)
  have "map_postgres_write_side_result_to_decision_receipt receipt_id oid r = Inr ?fc"
    using init by (simp add: map_postgres_write_side_result_to_decision_receipt_def answered_shape_supported [OF a] out answered_identity [OF a u o']
        sub(1) c disp(1) sum(1) map_semantic_outcome_to_decision_receipt_def)
  moreover have "receipt_ok ?fc"
    by (rule receipt_init_ok [OF init]) (use ids sub(2) cok in \<open>simp_all add: DecisionReceiptActor_init_def default_actor_def
        DecisionReceiptCostSummary_init_def default_cost_summary_def require_optional_non_empty_string_def require_optional_non_negative_int_def\<close>)
  moreover have "receipt_int64 ?fc"
    using sum(3) by (simp add: receipt_int64_def default_cost_summary_def ints64_frozen)
  ultimately show ?thesis
    by (rule that) (use out sub disp(2) sum(1) in \<open>simp_all add: named_identity_def\<close>)
qed

lemma answered_receipt:
  assumes a: "answered sg eid r" and eid: "uuid_in eid = Some eid" and o': "\<not> py_blank (sig_order_id sg)"
    and ids: "is_uuid receipt_id" "is_uuid oid"
  obtains rc outcome disposition where "map_postgres_write_side_result_to_decision_receipt receipt_id oid r = Inr rc"
    and "receipt_ok rc" and "receipt_int64 rc" and "dr_receipt_id rc = receipt_id"
    and "map_postgres_write_side_result_to_semantic_outcome oid r [] [] = Inr outcome"
    and "(dr_outcome_id rc, dr_ok rc, dr_boundary rc, dr_category rc, dr_semantic_code rc, dr_reason rc)
       = (oid, so_ok outcome, so_boundary outcome, so_category outcome, so_code outcome, so_reason outcome)"
    and "dr_admission_evidence rc = Some \<lparr>dae_disposition = disposition\<rparr>"
    and "(disposition = AD_ADMITTED_TO_ACCEPTED_HISTORY) = (wr_outcome r = OUT_ACCEPTED)"
    and "dc_accepted_event_id (dr_correlation rc) = map_option ev_event_id (accepted_event_from_result r)"
    and "wr_outcome r = OUT_ACCEPTED \<Longrightarrow> dr_subject rc = \<lparr>ds_subject_type = ST_ACCEPTED_EVENT, ds_subject_id = Some eid\<rparr>"
    and "dr_flags rc = default_flags"
  by (rule answered_receipt_parts [OF assms], rule that; assumption)

section \<open>Properties\<close>

text \<open>
  C7: Receipts tell the truth. Whatever a durable command on an order with a non-blank identity returns, among
  any interference and failures, its receipt can be built, passes every receipt check and fits the
  serialised form, carries exactly the semantic outcome of the result and evaluates no flag. It says
  that an event was admitted if and only if the command committed exactly that event, which is then
  its subject; otherwise the command changed nothing, and an accepted event that the receipt names
  is the one that the request memory returned.
\<close>

theorem command_receipt_truthful:
  assumes "conn_inv c" and "own c = empty_db" and "uuid_in (cmd_event_id cmd) = Some (cmd_event_id cmd)"
    and "durable_command w traced c cmd = (c', Inr res)" and "\<not> py_blank (cmd_order_id cmd)"
    and "is_uuid receipt_id" and "is_uuid oid"
  shows "\<exists>rc outcome disposition. map_postgres_write_side_result_to_decision_receipt receipt_id oid (primary_result res) = Inr rc
    \<and> receipt_ok rc \<and> receipt_int64 rc \<and> dr_receipt_id rc = receipt_id \<and> dr_flags rc = default_flags
    \<and> map_postgres_write_side_result_to_semantic_outcome oid (primary_result res) [] [] = Inr outcome
    \<and> (dr_outcome_id rc, dr_ok rc, dr_boundary rc, dr_category rc, dr_semantic_code rc, dr_reason rc)
       = (oid, so_ok outcome, so_boundary outcome, so_category outcome, so_code outcome, so_reason outcome)
    \<and> dr_admission_evidence rc = Some \<lparr>dae_disposition = disposition\<rparr>
    \<and> (if disposition = AD_ADMITTED_TO_ACCEPTED_HISTORY
       then \<exists>e. accepted_in (set (schedule c)) (committed c) (signature_of cmd) e (committed c')
         \<and> dr_subject rc = \<lparr>ds_subject_type = ST_ACCEPTED_EVENT, ds_subject_id = Some (ev_event_id e)\<rparr>
         \<and> dc_accepted_event_id (dr_correlation rc) = Some (ev_event_id e)
       else grows_by (set (schedule c)) (committed c) (committed c')
         \<and> dc_accepted_event_id (dr_correlation rc)
            = map_option (\<lambda>rec. ev_event_id (rec_accepted_event rec)) (id_record (wr_idempotency_decision (primary_result res))))"
proof -
  let ?r = "primary_result res" and ?sg = "signature_of cmd" and ?eid = "cmd_event_id cmd"
  note a = durable_command_answered [OF assms(1-4)]
  have "\<not> py_blank (sig_order_id ?sg)" using assms(5) by (simp add: signature_of_def)
  from answered_receipt [OF a assms(3) this assms(6,7)] obtain rc outcome disposition where
    rc: "map_postgres_write_side_result_to_decision_receipt receipt_id oid ?r = Inr rc" "receipt_ok rc" "receipt_int64 rc"
      "dr_receipt_id rc = receipt_id" "map_postgres_write_side_result_to_semantic_outcome oid ?r [] [] = Inr outcome"
      "(dr_outcome_id rc, dr_ok rc, dr_boundary rc, dr_category rc, dr_semantic_code rc, dr_reason rc)
       = (oid, so_ok outcome, so_boundary outcome, so_category outcome, so_code outcome, so_reason outcome)"
      "dr_admission_evidence rc = Some \<lparr>dae_disposition = disposition\<rparr>"
      "(disposition = AD_ADMITTED_TO_ACCEPTED_HISTORY) = (wr_outcome ?r = OUT_ACCEPTED)"
      "dc_accepted_event_id (dr_correlation rc) = map_option ev_event_id (accepted_event_from_result ?r)"
      "wr_outcome ?r = OUT_ACCEPTED \<longrightarrow> dr_subject rc = \<lparr>ds_subject_type = ST_ACCEPTED_EVENT, ds_subject_id = Some ?eid\<rparr>"
      "dr_flags rc = default_flags"
    by blast
  have prior: "accepted_event_from_result ?r = map_option rec_accepted_event (id_record (wr_idempotency_decision ?r))"
    if "wr_outcome ?r \<noteq> OUT_ACCEPTED"
    using a that by (auto simp: answered_def result_shape_def accepted_event_from_result_def
        split: PostgresWriteSideOutcome.splits option.splits)
  have "if disposition = AD_ADMITTED_TO_ACCEPTED_HISTORY
     then \<exists>e. accepted_in (set (schedule c)) (committed c) ?sg e (committed c')
       \<and> dr_subject rc = \<lparr>ds_subject_type = ST_ACCEPTED_EVENT, ds_subject_id = Some (ev_event_id e)\<rparr>
       \<and> dc_accepted_event_id (dr_correlation rc) = Some (ev_event_id e)
     else grows_by (set (schedule c)) (committed c) (committed c')
       \<and> dc_accepted_event_id (dr_correlation rc)
          = map_option (\<lambda>rec. ev_event_id (rec_accepted_event rec)) (id_record (wr_idempotency_decision ?r))"
    using durable_command_post [OF assms(1-4)] rc(8-10) prior
    by (cases "wr_outcome ?r = OUT_ACCEPTED") (auto simp: command_post_def accepted_event_from_result_def option.map_comp comp_def)
  with rc(1-7,11) show ?thesis by blast
qed

theorem command_receipt_truthful_witness:
  "\<exists>c' res rc. durable_command (sample_write_side IN_TRANSACTION Optimistic) False sample_conn sample_command = (c', Inr res)
     \<and> map_postgres_write_side_result_to_decision_receipt ''00000000-0000-0000-0000-000000000001''
         ''00000000-0000-0000-0000-000000000002'' (primary_result res) = Inr rc
     \<and> receipt_ok rc \<and> receipt_int64 rc \<and> dr_outcome_id rc = ''00000000-0000-0000-0000-000000000002''"
proof -
  obtain c' r where run: "durable_command (sample_write_side IN_TRANSACTION Optimistic) False sample_conn sample_command
      = (c', Inr (Primary r))" "wr_outcome r = OUT_ACCEPTED" by (rule sample_run)
  have "\<not> py_blank (cmd_order_id sample_command)" by (simp add: sample_command_def sample_create_def py_blank_iff py_isspace_def)
  from command_receipt_truthful [OF sample_idle(1,2,4) run(1) this sample_uuids] run show ?thesis by auto
qed

end
