(* ===== verification/Read_Side_Receipts.thy ===== *)
theory Read_Side_Receipts
  imports Read_Side Receipt_Mapping
begin

text \<open>
  From the results of the three read-side observers to decision receipts
  (compass/runtime/read_side_decision_receipt_mapping.py): the shapes that the mappers admit, the
  subject and the lineage that a receipt names, and the three mappers. The property ties them to
  the observers themselves: on the tables of the system every observation has a receipt, and the
  receipt says VALID exactly when the accepted history bears it out. The \<open>isinstance\<close> checks are
  settled by the types of the model, and the values quoted at the end of the order mismatch message
  are left out of it.
\<close>

section \<open>Shapes\<close>

definition read_validate_order_id :: "string \<Rightarrow> string \<Rightarrow> unit res" where
  "read_validate_order_id order_id result_type =
     (if py_blank order_id then Inl (ValueError (result_type @ ''.order_id must be a non-empty string'')) else Inr ())"

definition validate_present_order_state :: "OrderState option \<Rightarrow> string \<Rightarrow> string \<Rightarrow> string \<Rightarrow> unit res" where
  "validate_present_order_state state result_order_id result_type field_name =
     (case state of
        None \<Rightarrow> Inr ()
      | Some st \<Rightarrow>
          if st_order_id st \<noteq> result_order_id
          then Inl (ValueError (result_type @ ''.'' @ field_name @ '' order_id mismatch'')) else Inr ())"

definition validate_paired_snapshot_lineage :: "string option \<Rightarrow> int option \<Rightarrow> string \<Rightarrow> bool res" where
  "validate_paired_snapshot_lineage sid position result_type =
     (if (sid \<noteq> None) \<noteq> (position \<noteq> None)
      then Inl (ValueError (result_type @ '' requires snapshot_id and source_global_position to be both present or both absent''))
      else Inr (sid \<noteq> None))"

definition require_loaded_snapshot_lineage :: "bool \<Rightarrow> string \<Rightarrow> unit res" where
  "require_loaded_snapshot_lineage lineage_present name =
     (if \<not> lineage_present
      then Inl (ValueError (''ProjectionSnapshotReplayValidationResult '' @ name @ '' requires loaded snapshot lineage''))
      else Inr ())"

definition require_positive_snapshot_position :: "int option \<Rightarrow> string \<Rightarrow> string \<Rightarrow> unit res" where
  "require_positive_snapshot_position position result_type name =
     (if position = Some 0 then Inl (ValueError (result_type @ '' '' @ name @ '' requires source_global_position > 0''))
      else Inr ())"

definition validate_replay_result_shape :: "ReplayValidationResult \<Rightarrow> unit res" where
  "validate_replay_result_shape result =
     (let name = ''ReplayValidationResult''
      in bind_res (read_validate_order_id (rv_order_id result) name) (\<lambda>_.
         bind_res (validate_present_order_state (rv_expected_state result) (rv_order_id result) name ''expected_state'') (\<lambda>_.
         bind_res (validate_present_order_state (rv_persisted_state result) (rv_order_id result) name ''persisted_state'') (\<lambda>_.
         case rv_status result of
           RV_MATCH \<Rightarrow>
             (case (rv_expected_state result, rv_persisted_state result) of
                (Some expected, Some persisted) \<Rightarrow>
                  if \<not> OrderState_eq expected persisted then Inl (ValueError ''ReplayValidationResult MATCH requires equal states'')
                  else Inr ()
              | _ \<Rightarrow> Inl (ValueError ''ReplayValidationResult MATCH requires expected_state and persisted_state''))
         | RV_MISSING_PROJECTION \<Rightarrow>
             if rv_expected_state result = None
             then Inl (ValueError ''ReplayValidationResult MISSING_PROJECTION requires accepted-history replay state'')
             else if rv_persisted_state result \<noteq> None
             then Inl (ValueError ''ReplayValidationResult MISSING_PROJECTION requires persisted projection to be absent'')
             else Inr ()
         | RV_DRIFT \<Rightarrow>
             (case (rv_expected_state result, rv_persisted_state result) of
                (Some expected, Some persisted) \<Rightarrow>
                  if OrderState_eq expected persisted then Inl (ValueError ''ReplayValidationResult DRIFT requires unequal states'')
                  else Inr ()
              | _ \<Rightarrow> Inl (ValueError ''ReplayValidationResult DRIFT requires expected_state and persisted_state''))
         | RV_NO_ACCEPTED_HISTORY \<Rightarrow>
             if rv_expected_state result \<noteq> None
             then Inl (ValueError ''ReplayValidationResult NO_ACCEPTED_HISTORY requires absent expected_state'')
             else Inr ()))))"

definition validate_snapshot_replay_result_shape :: "ProjectionSnapshotReplayValidationResult \<Rightarrow> unit res" where
  "validate_snapshot_replay_result_shape result =
     (let name = ''ProjectionSnapshotReplayValidationResult'';
          code = snapshot_validation_status_value (sv_status result);
          snapshot_state_present = sv_snapshot_assisted_state result \<noteq> None;
          authority_state_present = sv_authority_state result \<noteq> None
      in bind_res (read_validate_order_id (sv_order_id result) name) (\<lambda>_.
         bind_res (validate_present_order_state (sv_snapshot_assisted_state result) (sv_order_id result) name
           ''snapshot_assisted_state'') (\<lambda>_.
         bind_res (validate_present_order_state (sv_authority_state result) (sv_order_id result) name ''authority_state'') (\<lambda>_.
         bind_res (validate_paired_snapshot_lineage (sv_snapshot_id result) (sv_source_global_position result) name) (\<lambda>lineage_present.
         bind_res (if sv_status result \<in> set [SV_MATCH, SV_TAIL_EVENT_SOURCE_CONTRACT_VIOLATION, SV_SNAPSHOT_ASSISTED_DRIFT]
                   then require_positive_snapshot_position (sv_source_global_position result) name code else Inr ()) (\<lambda>_.
         case sv_status result of
           SV_MATCH \<Rightarrow>
             bind_res (require_loaded_snapshot_lineage lineage_present code) (\<lambda>_.
             case (sv_snapshot_assisted_state result, sv_authority_state result) of
               (Some assisted, Some authority) \<Rightarrow>
                 if \<not> OrderState_eq assisted authority then Inl (ValueError (name @ '' MATCH requires equal states'')) else Inr ()
             | _ \<Rightarrow> Inl (ValueError (name @ '' MATCH requires snapshot_assisted_state and authority_state'')))
         | SV_MISSING_SNAPSHOT \<Rightarrow>
             if lineage_present then Inl (ValueError (name @ '' MISSING_SNAPSHOT requires absent snapshot lineage''))
             else if snapshot_state_present \<or> \<not> authority_state_present
             then Inl (ValueError (name @ '' MISSING_SNAPSHOT requires absent snapshot_assisted_state and present authority_state''))
             else Inr ()
         | SV_INVALID_SNAPSHOT_BOUNDARY \<Rightarrow>
             bind_res (require_loaded_snapshot_lineage lineage_present code) (\<lambda>_.
             if snapshot_state_present \<or> \<not> authority_state_present
             then Inl (ValueError (name @ '' INVALID_SNAPSHOT_BOUNDARY requires absent snapshot_assisted_state and present authority_state''))
             else Inr ())
         | SV_TAIL_EVENT_SOURCE_CONTRACT_VIOLATION \<Rightarrow>
             bind_res (require_loaded_snapshot_lineage lineage_present code) (\<lambda>_.
             if \<not> snapshot_state_present \<or> \<not> authority_state_present
             then Inl (ValueError (name @ '' TAIL_EVENT_SOURCE_CONTRACT_VIOLATION requires snapshot_assisted_state and authority_state''))
             else Inr ())
         | SV_SNAPSHOT_ASSISTED_DRIFT \<Rightarrow>
             bind_res (require_loaded_snapshot_lineage lineage_present code) (\<lambda>_.
             if \<not> snapshot_state_present \<or> \<not> authority_state_present
             then Inl (ValueError (name @ '' SNAPSHOT_ASSISTED_DRIFT requires snapshot_assisted_state and authority_state''))
             else Inr ())
         | SV_NO_ACCEPTED_HISTORY_FOR_ORDER \<Rightarrow>
             if snapshot_state_present \<or> authority_state_present
             then Inl (ValueError (name @ '' NO_ACCEPTED_HISTORY_FOR_ORDER requires absent comparison states''))
             else Inr ()))))))"

definition validate_snapshot_assisted_result_shape :: "ProjectionSnapshotAssistedResolutionResult \<Rightarrow> unit res" where
  "validate_snapshot_assisted_result_shape result =
     (let name = ''ProjectionSnapshotAssistedResolutionResult'';
          code = snapshot_resolution_status_value (sr_status result);
          snapshot_id_present = sr_snapshot_id result \<noteq> None;
          position_present = sr_source_global_position result \<noteq> None;
          resolved_state_present = sr_resolved_state result \<noteq> None
      in bind_res (read_validate_order_id (sr_order_id result) name) (\<lambda>_.
         bind_res (validate_present_order_state (sr_resolved_state result) (sr_order_id result) name ''resolved_state'') (\<lambda>_.
         if sr_status result = SR_INVALID_SNAPSHOT_PRECONDITION
         then if snapshot_id_present \<or> position_present \<or> resolved_state_present
              then Inl (ValueError (name @ '' INVALID_SNAPSHOT_PRECONDITION requires absent snapshot reference, lineage, and resolved_state''))
              else Inr ()
         else if sr_status result = SR_MISSING_SNAPSHOT
         then if \<not> snapshot_id_present \<or> position_present \<or> resolved_state_present
              then Inl (ValueError (name @ '' MISSING_SNAPSHOT requires requested snapshot_id, absent source_global_position, and absent resolved_state''))
              else Inr ()
         else if \<not> snapshot_id_present \<or> \<not> position_present
         then Inl (ValueError (name @ '' '' @ code @ '' requires loaded snapshot lineage''))
         else bind_res (if sr_status result \<in> set [SR_RESOLVED_FROM_SNAPSHOT, SR_TAIL_EVENT_SOURCE_CONTRACT_VIOLATION, SR_TAIL_REPLAY_FAILED]
                   then require_positive_snapshot_position (sr_source_global_position result) name code else Inr ()) (\<lambda>_.
              if sr_status result = SR_RESOLVED_FROM_SNAPSHOT
              then if \<not> resolved_state_present
                   then Inl (ValueError (name @ '' RESOLVED_FROM_SNAPSHOT requires resolved_state'')) else Inr ()
              else if resolved_state_present
              then Inl (ValueError (name @ '' '' @ code @ '' requires absent resolved_state'')) else Inr ()))))"

section \<open>Subjects\<close>

definition replay_subject :: "ReplayValidationResult \<Rightarrow> DecisionReceiptSubject res" where
  "replay_subject result =
     (if rv_status result = RV_NO_ACCEPTED_HISTORY
      then DecisionReceiptSubject_init \<lparr>ds_subject_type = ST_ORDER, ds_subject_id = Some (rv_order_id result)\<rparr>
      else DecisionReceiptSubject_init \<lparr>ds_subject_type = ST_PROJECTION, ds_subject_id = Some (rv_order_id result)\<rparr>)"

text \<open>\<open>str(None)\<close> is \<open>'None'\<close>.\<close>

definition str_of_optional :: "string option \<Rightarrow> string" where
  "str_of_optional x = (case x of None \<Rightarrow> ''None'' | Some s \<Rightarrow> s)"

definition snapshot_replay_subject :: "ProjectionSnapshotReplayValidationResult \<Rightarrow> DecisionReceiptSubject res" where
  "snapshot_replay_subject result =
     DecisionReceiptSubject_init (case sv_status result of
       SV_MISSING_SNAPSHOT \<Rightarrow> \<lparr>ds_subject_type = ST_SNAPSHOT, ds_subject_id = None\<rparr>
     | SV_MATCH \<Rightarrow> \<lparr>ds_subject_type = ST_SNAPSHOT, ds_subject_id = Some (str_of_optional (sv_snapshot_id result))\<rparr>
     | SV_INVALID_SNAPSHOT_BOUNDARY \<Rightarrow>
         \<lparr>ds_subject_type = ST_SNAPSHOT, ds_subject_id = Some (str_of_optional (sv_snapshot_id result))\<rparr>
     | SV_TAIL_EVENT_SOURCE_CONTRACT_VIOLATION \<Rightarrow> \<lparr>ds_subject_type = ST_RUNTIME, ds_subject_id = None\<rparr>
     | SV_SNAPSHOT_ASSISTED_DRIFT \<Rightarrow> \<lparr>ds_subject_type = ST_PROJECTION, ds_subject_id = Some (sv_order_id result)\<rparr>
     | SV_NO_ACCEPTED_HISTORY_FOR_ORDER \<Rightarrow> \<lparr>ds_subject_type = ST_ORDER, ds_subject_id = Some (sv_order_id result)\<rparr>)"

definition snapshot_assisted_subject :: "ProjectionSnapshotAssistedResolutionResult \<Rightarrow> DecisionReceiptSubject res" where
  "snapshot_assisted_subject result =
     DecisionReceiptSubject_init (case sr_status result of
       SR_RESOLVED_FROM_SNAPSHOT \<Rightarrow> \<lparr>ds_subject_type = ST_PROJECTION, ds_subject_id = Some (sr_order_id result)\<rparr>
     | SR_MISSING_SNAPSHOT \<Rightarrow> \<lparr>ds_subject_type = ST_SNAPSHOT, ds_subject_id = Some (str_of_optional (sr_snapshot_id result))\<rparr>
     | SR_INVALID_SNAPSHOT_COMPATIBILITY \<Rightarrow>
         \<lparr>ds_subject_type = ST_SNAPSHOT, ds_subject_id = Some (str_of_optional (sr_snapshot_id result))\<rparr>
     | SR_INVALID_SNAPSHOT_PRECONDITION \<Rightarrow> \<lparr>ds_subject_type = ST_RUNTIME, ds_subject_id = None\<rparr>
     | SR_TAIL_EVENT_SOURCE_CONTRACT_VIOLATION \<Rightarrow> \<lparr>ds_subject_type = ST_RUNTIME, ds_subject_id = None\<rparr>
     | SR_TAIL_REPLAY_FAILED \<Rightarrow> \<lparr>ds_subject_type = ST_RUNTIME, ds_subject_id = None\<rparr>)"

definition assisted_snapshot_artifact_present :: "ProjectionSnapshotAssistedResolutionStatus \<Rightarrow> bool" where
  "assisted_snapshot_artifact_present verdict = (verdict \<notin> set [SR_MISSING_SNAPSHOT, SR_INVALID_SNAPSHOT_PRECONDITION])"

section \<open>The mappers\<close>

definition read_side_correlation :: "string \<Rightarrow> string option \<Rightarrow> int option \<Rightarrow> bool \<Rightarrow> DecisionReceiptCorrelation" where
  "read_side_correlation order_id sid position artifact_present =
     \<lparr>dc_order_id = Some order_id, dc_request_id = None, dc_candidate_event_id = None, dc_accepted_event_id = None,
      dc_snapshot_id = sid, dc_source_global_position = position,
      dc_identity_source = (if artifact_present then IS_SNAPSHOT_LINEAGE else IS_READ_SIDE_OBSERVATION)\<rparr>"

definition map_replay_validation_result_to_decision_receipt ::
  "string \<Rightarrow> string \<Rightarrow> ReplayValidationResult \<Rightarrow> DecisionReceipt res" where
  "map_replay_validation_result_to_decision_receipt receipt_id oid result =
     bind_res (validate_replay_result_shape result) (\<lambda>_.
     bind_res (map_replay_validation_result_to_semantic_outcome oid result [] []) (\<lambda>outcome.
     bind_res (replay_subject result) (\<lambda>subject.
     bind_res (DecisionReceiptCorrelation_init (read_side_correlation (rv_order_id result) None None False)) (\<lambda>correlation.
       map_semantic_outcome_to_decision_receipt receipt_id outcome ES_READ_SIDE_PATH (Some subject) (Some correlation) None None
         (Some default_flags) None
         (Some [(VStr ''technical_status'', VStr (ReplayValidationStatus_value (rv_status result))),
                (VStr ''expected_state_present'', VBool (rv_expected_state result \<noteq> None)),
                (VStr ''persisted_state_present'', VBool (rv_persisted_state result \<noteq> None))]) None))))"

definition map_projection_snapshot_replay_validation_result_to_decision_receipt ::
  "string \<Rightarrow> string \<Rightarrow> ProjectionSnapshotReplayValidationResult \<Rightarrow> DecisionReceipt res" where
  "map_projection_snapshot_replay_validation_result_to_decision_receipt receipt_id oid result =
     bind_res (validate_snapshot_replay_result_shape result) (\<lambda>_.
     bind_res (map_projection_snapshot_replay_validation_result_to_semantic_outcome oid result [] []) (\<lambda>outcome.
     let snapshot_artifact_present = sv_snapshot_id result \<noteq> None
     in bind_res (snapshot_replay_subject result) (\<lambda>subject.
        bind_res (DecisionReceiptCorrelation_init (read_side_correlation (sv_order_id result) (sv_snapshot_id result)
          (sv_source_global_position result) snapshot_artifact_present)) (\<lambda>correlation.
          map_semantic_outcome_to_decision_receipt receipt_id outcome ES_SNAPSHOT_TRUST_PATH (Some subject) (Some correlation)
            None None (Some default_flags) None
            (Some [(VStr ''technical_status'', VStr (snapshot_validation_status_value (sv_status result))),
                   (VStr ''snapshot_artifact_present'', VBool snapshot_artifact_present),
                   (VStr ''snapshot_assisted_state_present'', VBool (sv_snapshot_assisted_state result \<noteq> None)),
                   (VStr ''authority_state_present'', VBool (sv_authority_state result \<noteq> None))]) None))))"

definition map_projection_snapshot_assisted_resolution_result_to_decision_receipt ::
  "string \<Rightarrow> string \<Rightarrow> ProjectionSnapshotAssistedResolutionResult \<Rightarrow> DecisionReceipt res" where
  "map_projection_snapshot_assisted_resolution_result_to_decision_receipt receipt_id oid result =
     bind_res (validate_snapshot_assisted_result_shape result) (\<lambda>_.
     bind_res (map_projection_snapshot_assisted_resolution_result_to_semantic_outcome oid result [] []) (\<lambda>outcome.
     let snapshot_artifact_present = assisted_snapshot_artifact_present (sr_status result)
     in bind_res (snapshot_assisted_subject result) (\<lambda>subject.
        bind_res (DecisionReceiptCorrelation_init (read_side_correlation (sr_order_id result) (sr_snapshot_id result)
          (sr_source_global_position result) snapshot_artifact_present)) (\<lambda>correlation.
          map_semantic_outcome_to_decision_receipt receipt_id outcome ES_SNAPSHOT_ASSISTED_PATH (Some subject) (Some correlation)
            None None (Some default_flags) None
            (Some [(VStr ''technical_status'', VStr (snapshot_resolution_status_value (sr_status result))),
                   (VStr ''snapshot_artifact_present'', VBool snapshot_artifact_present),
                   (VStr ''resolved_state_present'', VBool (sr_resolved_state result \<noteq> None))]) None))))"

section \<open>What the mappers build\<close>

lemma receipt_built:
  assumes mapped: "mapped = map_semantic_outcome_to_decision_receipt receipt_id outcome src (Some subject) (Some correlation) None None
      (Some default_flags) None (Some summary) None"
    and "is_uuid receipt_id" and "is_uuid (outcome_id outcome)" and "\<not> py_blank (so_reason outcome)" and "subject_ok subject"
    and "correlation_ok correlation" and "json_ok_pairs 1 summary"
  obtains rc where "mapped = Inr rc" and "receipt_ok rc" and "receipt_is_valid rc \<longleftrightarrow> so_category outcome = CAT_VALID"
    and "dr_receipt_id rc = receipt_id" and "dr_correlation rc = correlation"
proof -
  let ?rc = "\<lparr>dr_receipt_id = receipt_id, dr_outcome_id = outcome_id outcome, dr_ok = so_ok outcome,
        dr_boundary = so_boundary outcome, dr_category = so_category outcome, dr_semantic_code = so_code outcome,
        dr_severity = so_severity outcome, dr_risk_level = so_risk_level outcome,
        dr_reversibility = so_reversibility outcome, dr_reason = so_reason outcome,
        dr_evidence_source = src, dr_subject = subject, dr_correlation = correlation, dr_actor = default_actor,
        dr_cost_summary = default_cost_summary, dr_flags = default_flags, dr_admission_evidence = None,
        dr_evidence_summary = summary, dr_metadata = []\<rparr>"
  let ?fc = "?rc\<lparr>dr_evidence_summary := frozen_pairs summary\<rparr>"
  have init: "DecisionReceipt_init ?rc = Inr ?fc" using assms(4,7) by (simp add: receipt_init_iff)
  have "receipt_ok ?fc"
    by (rule receipt_init_ok [OF init]) (use assms in \<open>simp_all add: DecisionReceiptActor_init_def default_actor_def
        DecisionReceiptCostSummary_init_def default_cost_summary_def require_optional_non_empty_string_def require_optional_non_negative_int_def\<close>)
  with init show ?thesis
    by (intro that [of ?fc]) (simp_all add: mapped map_semantic_outcome_to_decision_receipt_def receipt_is_valid_def)
qed

lemma status_outcome:
  assumes "map_of STATUS_MAPPINGS tst = Some m" and "\<not> py_blank tst" and "map_of evidence ''technical_status'' = None"
  obtains outcome where "map_runtime_technical_status oid tst boundary (require_reason reason name) context evidence = Inr outcome"
    and "outcome_id outcome = oid" and "\<not> py_blank (so_reason outcome)" and "so_category outcome = tm_category m"
  using assms require_reason_not_blank [of reason name]
  by (simp add: map_runtime_technical_status_def normalize_technical_status_def mapping_for_status_def
      merge_technical_status_into_evidence_def SemanticOutcome_init_def)

lemma replay_status: "\<not> py_blank (ReplayValidationStatus_value v)
    \<and> (\<exists>m. map_of STATUS_MAPPINGS (ReplayValidationStatus_value v) = Some m \<and> (tm_category m = CAT_VALID \<longleftrightarrow> v = RV_MATCH))"
  by (cases v) (simp_all add: STATUS_MAPPINGS_def py_blank_iff py_isspace_def)

lemma snapshot_validation_status: "\<not> py_blank (snapshot_validation_status_value v)
    \<and> (\<exists>m. map_of STATUS_MAPPINGS (snapshot_validation_status_value v) = Some m \<and> (tm_category m = CAT_VALID \<longleftrightarrow> v = SV_MATCH))"
  by (cases v) (simp_all add: STATUS_MAPPINGS_def py_blank_iff py_isspace_def)

lemma snapshot_resolution_status: "\<not> py_blank (snapshot_resolution_status_value v)
    \<and> (\<exists>m. map_of STATUS_MAPPINGS (snapshot_resolution_status_value v) = Some m
        \<and> (tm_category m = CAT_VALID \<longleftrightarrow> v = SR_RESOLVED_FROM_SNAPSHOT))"
  by (cases v) (simp_all add: STATUS_MAPPINGS_def py_blank_iff py_isspace_def)

lemma read_correlation_ok:
  assumes "\<not> py_blank order_id" and "\<forall>u. sid = Some u \<longrightarrow> is_uuid u" and "\<forall>i. position = Some i \<longrightarrow> 0 \<le> i"
  shows "DecisionReceiptCorrelation_init (read_side_correlation order_id sid position b) = Inr (read_side_correlation order_id sid position b)"
    and "correlation_ok (read_side_correlation order_id sid position b)"
  using assms by (auto simp: correlation_ok_def read_side_correlation_def DecisionReceiptCorrelation_init_def
      require_optional_non_empty_string_def require_optional_non_negative_int_def split: option.splits)

lemma subject_built:
  "\<not> py_blank i \<Longrightarrow> DecisionReceiptSubject_init \<lparr>ds_subject_type = t, ds_subject_id = Some i\<rparr> = Inr \<lparr>ds_subject_type = t, ds_subject_id = Some i\<rparr>"
  "DecisionReceiptSubject_init \<lparr>ds_subject_type = t, ds_subject_id = None\<rparr> = Inr \<lparr>ds_subject_type = t, ds_subject_id = None\<rparr>"
  by (simp_all add: DecisionReceiptSubject_init_def require_optional_non_empty_string_def)

lemma str_of_optional_not_blank: "\<forall>u. sid = Some u \<longrightarrow> is_uuid u \<Longrightarrow> \<not> py_blank (str_of_optional sid)"
  using UUID_not_blank by (cases sid) (fastforce simp: str_of_optional_def py_blank_iff py_isspace_def)+

lemma replay_receipt:
  assumes "validate_replay_result_shape r = Inr ()" and ids: "is_uuid receipt_id" "is_uuid oid"
  obtains rc where "map_replay_validation_result_to_decision_receipt receipt_id oid r = Inr rc" and "receipt_ok rc"
    and "receipt_is_valid rc \<longleftrightarrow> rv_status r = RV_MATCH" and "dr_receipt_id rc = receipt_id"
    and "dr_correlation rc = read_side_correlation (rv_order_id r) None None False"
proof -
  have o': "\<not> py_blank (rv_order_id r)"
    using assms(1) by (auto simp: validate_replay_result_shape_def read_validate_order_id_def res_simps Let_def split: if_splits)
  obtain m where m: "map_of STATUS_MAPPINGS (ReplayValidationStatus_value (rv_status r)) = Some m"
    "tm_category m = CAT_VALID \<longleftrightarrow> rv_status r = RV_MATCH" and nb: "\<not> py_blank (ReplayValidationStatus_value (rv_status r))"
    using replay_status by blast
  obtain outcome where out: "map_replay_validation_result_to_semantic_outcome oid r [] [] = Inr outcome" "outcome_id outcome = oid"
    "\<not> py_blank (so_reason outcome)" "so_category outcome = tm_category m"
    unfolding map_replay_validation_result_to_semantic_outcome_def
    by (rule status_outcome [OF m(1) nb]) auto
  obtain subject where sub: "replay_subject r = Inr subject" "subject_ok subject"
    using o' by (cases "rv_status r = RV_NO_ACCEPTED_HISTORY") (simp_all add: replay_subject_def subject_ok_def subject_built)
  note cor = read_correlation_ok [of "rv_order_id r" None None False, OF o', simplified]
  note mapped = map_replay_validation_result_to_decision_receipt_def [of receipt_id oid r,
      unfolded assms(1) out(1) sub(1) cor(1) bind_res_simps]
  show ?thesis
    by (rule receipt_built [OF mapped ids(1) _ out(3) sub(2) cor(2)], use ids(2) out(2) in simp,
        simp add: json_ok.simps MAX_JSON_DEPTH_def, rule that; (assumption | use out(4) m(2) in simp))
qed

lemma snapshot_validation_receipt:
  assumes "validate_snapshot_replay_result_shape r = Inr ()" and ids: "is_uuid receipt_id" "is_uuid oid"
    and sid: "\<forall>u. sv_snapshot_id r = Some u \<longrightarrow> is_uuid u" and pos: "\<forall>i. sv_source_global_position r = Some i \<longrightarrow> 0 \<le> i"
  obtains rc where "map_projection_snapshot_replay_validation_result_to_decision_receipt receipt_id oid r = Inr rc" and "receipt_ok rc"
    and "receipt_is_valid rc \<longleftrightarrow> sv_status r = SV_MATCH" and "dr_receipt_id rc = receipt_id"
    and "dr_correlation rc = read_side_correlation (sv_order_id r) (sv_snapshot_id r) (sv_source_global_position r) (sv_snapshot_id r \<noteq> None)"
proof -
  have o': "\<not> py_blank (sv_order_id r)"
    using assms(1) by (auto simp: validate_snapshot_replay_result_shape_def read_validate_order_id_def res_simps Let_def split: if_splits)
  obtain m where m: "map_of STATUS_MAPPINGS (snapshot_validation_status_value (sv_status r)) = Some m"
    "tm_category m = CAT_VALID \<longleftrightarrow> sv_status r = SV_MATCH" and nb: "\<not> py_blank (snapshot_validation_status_value (sv_status r))"
    using snapshot_validation_status by blast
  obtain outcome where out: "map_projection_snapshot_replay_validation_result_to_semantic_outcome oid r [] [] = Inr outcome"
    "outcome_id outcome = oid" "\<not> py_blank (so_reason outcome)" "so_category outcome = tm_category m"
    unfolding map_projection_snapshot_replay_validation_result_to_semantic_outcome_def
    by (rule status_outcome [OF m(1) nb]) auto
  obtain subject where sub: "snapshot_replay_subject r = Inr subject" "subject_ok subject"
    using o' str_of_optional_not_blank [OF sid] by (cases "sv_status r") (simp_all add: snapshot_replay_subject_def subject_ok_def subject_built)
  note cor = read_correlation_ok [OF o' sid pos, where b = "sv_snapshot_id r \<noteq> None"]
  note mapped = map_projection_snapshot_replay_validation_result_to_decision_receipt_def [of receipt_id oid r,
      unfolded assms(1) out(1) sub(1) Let_def cor(1) bind_res_simps]
  show ?thesis
    by (rule receipt_built [OF mapped ids(1) _ out(3) sub(2) cor(2)], use ids(2) out(2) in simp,
        simp add: json_ok.simps MAX_JSON_DEPTH_def, rule that; (assumption | use out(4) m(2) in simp))
qed

lemma snapshot_resolution_receipt:
  assumes "validate_snapshot_assisted_result_shape r = Inr ()" and ids: "is_uuid receipt_id" "is_uuid oid"
    and sid: "\<forall>u. sr_snapshot_id r = Some u \<longrightarrow> is_uuid u" and pos: "\<forall>i. sr_source_global_position r = Some i \<longrightarrow> 0 \<le> i"
  obtains rc where "map_projection_snapshot_assisted_resolution_result_to_decision_receipt receipt_id oid r = Inr rc" and "receipt_ok rc"
    and "receipt_is_valid rc \<longleftrightarrow> sr_status r = SR_RESOLVED_FROM_SNAPSHOT" and "dr_receipt_id rc = receipt_id"
    and "dr_correlation rc = read_side_correlation (sr_order_id r) (sr_snapshot_id r) (sr_source_global_position r)
      (assisted_snapshot_artifact_present (sr_status r))"
proof -
  have o': "\<not> py_blank (sr_order_id r)"
    using assms(1) by (auto simp: validate_snapshot_assisted_result_shape_def read_validate_order_id_def res_simps Let_def split: if_splits)
  obtain m where m: "map_of STATUS_MAPPINGS (snapshot_resolution_status_value (sr_status r)) = Some m"
    "tm_category m = CAT_VALID \<longleftrightarrow> sr_status r = SR_RESOLVED_FROM_SNAPSHOT" and nb: "\<not> py_blank (snapshot_resolution_status_value (sr_status r))"
    using snapshot_resolution_status by blast
  obtain outcome where out: "map_projection_snapshot_assisted_resolution_result_to_semantic_outcome oid r [] [] = Inr outcome"
    "outcome_id outcome = oid" "\<not> py_blank (so_reason outcome)" "so_category outcome = tm_category m"
    unfolding map_projection_snapshot_assisted_resolution_result_to_semantic_outcome_def
    by (rule status_outcome [OF m(1) nb]) auto
  obtain subject where sub: "snapshot_assisted_subject r = Inr subject" "subject_ok subject"
    using o' str_of_optional_not_blank [OF sid] by (cases "sr_status r") (simp_all add: snapshot_assisted_subject_def subject_ok_def subject_built)
  note cor = read_correlation_ok [OF o' sid pos, where b = "assisted_snapshot_artifact_present (sr_status r)"]
  note mapped = map_projection_snapshot_assisted_resolution_result_to_decision_receipt_def [of receipt_id oid r,
      unfolded assms(1) out(1) sub(1) Let_def cor(1) bind_res_simps]
  show ?thesis
    by (rule receipt_built [OF mapped ids(1) _ out(3) sub(2) cor(2)], use ids(2) out(2) in simp,
        simp add: json_ok.simps MAX_JSON_DEPTH_def, rule that; (assumption | use out(4) m(2) in simp))
qed

section \<open>What the observers return\<close>

lemma reduce_keeps_order: "reduce_order_event st e = Inr st' \<Longrightarrow> st_order_id st' = st_order_id st"
  by (auto simp: reduce_order_event_def Let_def split: if_splits EventType.splits)

lemma replay_keeps_order: "fold_res reduce_order_event st es = Inr st' \<Longrightarrow> st_order_id st' = st_order_id st"
  by (induction es arbitrary: st) (auto simp: res_simps dest: reduce_keeps_order)

lemma replay_tail_keeps_order: "replay_tail st rs = (st', f) \<Longrightarrow> st_order_id st' = st_order_id st"
  by (induction st rs rule: replay_tail.induct) (auto split: sum.splits dest: reduce_keeps_order)

lemma dec_eq_sym: "dec_eq a b = dec_eq b a"
  by (cases a; cases b) (auto simp: Let_def min.commute)

lemma OrderState_eq_sym: "OrderState_eq s t = OrderState_eq t s"
  by (auto simp: OrderState_eq_def dec_eq_sym)

lemmas shape_checks = read_validate_order_id_def validate_present_order_state_def validate_paired_snapshot_lineage_def
  require_loaded_snapshot_lineage_def require_positive_snapshot_position_def

text \<open>The admitted shapes as predicates.\<close>

definition state_for :: "string \<Rightarrow> OrderState option \<Rightarrow> bool" where
  "state_for oid s \<longleftrightarrow> (\<forall>st. s = Some st \<longrightarrow> st_order_id st = oid)"

lemma present_state_iff: "validate_present_order_state s oid t f = Inr () \<longleftrightarrow> state_for oid s"
  by (auto simp: validate_present_order_state_def state_for_def split: option.splits)

lemma replay_shape_iff:
  "validate_replay_result_shape r = Inr () \<longleftrightarrow> \<not> py_blank (rv_order_id r) \<and> state_for (rv_order_id r) (rv_expected_state r)
    \<and> state_for (rv_order_id r) (rv_persisted_state r)
    \<and> (case rv_status r of
         RV_MATCH \<Rightarrow> \<exists>e p. rv_expected_state r = Some e \<and> rv_persisted_state r = Some p \<and> OrderState_eq e p
       | RV_MISSING_PROJECTION \<Rightarrow> rv_expected_state r \<noteq> None \<and> rv_persisted_state r = None
       | RV_DRIFT \<Rightarrow> \<exists>e p. rv_expected_state r = Some e \<and> rv_persisted_state r = Some p \<and> \<not> OrderState_eq e p
       | RV_NO_ACCEPTED_HISTORY \<Rightarrow> rv_expected_state r = None)"
  unfolding validate_replay_result_shape_def Let_def bind_res_eq_Inr present_state_iff read_validate_order_id_def
  by (cases "rv_status r"; cases "rv_expected_state r"; cases "rv_persisted_state r"; simp add: present_state_iff)

lemma snapshot_replay_shape_iff:
  "validate_snapshot_replay_result_shape r = Inr () \<longleftrightarrow> \<not> py_blank (sv_order_id r)
    \<and> state_for (sv_order_id r) (sv_snapshot_assisted_state r) \<and> state_for (sv_order_id r) (sv_authority_state r)
    \<and> (sv_snapshot_id r = None \<longleftrightarrow> sv_source_global_position r = None)
    \<and> (case sv_status r of
         SV_MATCH \<Rightarrow> \<exists>s a. sv_snapshot_assisted_state r = Some s \<and> sv_authority_state r = Some a \<and> OrderState_eq s a
           \<and> sv_snapshot_id r \<noteq> None \<and> sv_source_global_position r \<noteq> Some 0
       | SV_MISSING_SNAPSHOT \<Rightarrow> sv_snapshot_id r = None \<and> sv_snapshot_assisted_state r = None \<and> sv_authority_state r \<noteq> None
       | SV_INVALID_SNAPSHOT_BOUNDARY \<Rightarrow> sv_snapshot_id r \<noteq> None \<and> sv_snapshot_assisted_state r = None \<and> sv_authority_state r \<noteq> None
       | SV_NO_ACCEPTED_HISTORY_FOR_ORDER \<Rightarrow> sv_snapshot_assisted_state r = None \<and> sv_authority_state r = None
       | _ \<Rightarrow> sv_snapshot_id r \<noteq> None \<and> sv_source_global_position r \<noteq> Some 0
           \<and> sv_snapshot_assisted_state r \<noteq> None \<and> sv_authority_state r \<noteq> None)"
  unfolding validate_snapshot_replay_result_shape_def Let_def bind_res_eq_Inr present_state_iff shape_checks(1,3-)
  by (cases "sv_status r"; cases "sv_snapshot_assisted_state r"; cases "sv_authority_state r"; cases "sv_snapshot_id r";
      cases "sv_source_global_position r"; simp add: present_state_iff ex_bool_eq)

lemma snapshot_assisted_shape_iff:
  "validate_snapshot_assisted_result_shape r = Inr () \<longleftrightarrow> \<not> py_blank (sr_order_id r) \<and> state_for (sr_order_id r) (sr_resolved_state r)
    \<and> (case sr_status r of
         SR_INVALID_SNAPSHOT_PRECONDITION \<Rightarrow> sr_snapshot_id r = None \<and> sr_source_global_position r = None \<and> sr_resolved_state r = None
       | SR_MISSING_SNAPSHOT \<Rightarrow> sr_snapshot_id r \<noteq> None \<and> sr_source_global_position r = None \<and> sr_resolved_state r = None
       | SR_INVALID_SNAPSHOT_COMPATIBILITY \<Rightarrow>
           sr_snapshot_id r \<noteq> None \<and> sr_source_global_position r \<noteq> None \<and> sr_resolved_state r = None
       | _ \<Rightarrow> sr_snapshot_id r \<noteq> None \<and> sr_source_global_position r \<notin> {None, Some 0}
           \<and> (sr_resolved_state r \<noteq> None \<longleftrightarrow> sr_status r = SR_RESOLVED_FROM_SNAPSHOT))"
  unfolding validate_snapshot_assisted_result_shape_def Let_def bind_res_eq_Inr present_state_iff shape_checks(1,3-)
  by (cases "sr_status r"; cases "sr_resolved_state r"; simp add: present_state_iff)

text \<open>Whatever the stores hold, the observers return only shapes that the mappers admit.\<close>

lemma validate_projection_shape:
  assumes "validate_projection d oid = Inr r" and "\<not> py_blank oid"
  shows "validate_replay_result_shape r = Inr () \<and> rv_order_id r = oid"
proof -
  have loaded: "st_order_id st = oid" if "pg_load_state d oid = Inr (Some st)" for st
    using that by (auto simp: pg_load_state_def res_simps split: option.splits)
  have replayed: "st_order_id st = oid" if "fold_res reduce_order_event (build_empty_projection_state oid) es = Inr st" for st es
    using replay_keeps_order [OF that] by (simp add: build_empty_projection_state_def)
  from assms(1) obtain es where es: "accepted_history_load d oid = Inr es" by (auto simp: validate_projection_def bind_res_eq_Inr)
  from assms(1) obtain found where found: "pg_load_state d oid = Inr found"
    by (auto simp: validate_projection_def es bind_res_eq_Inr split: if_splits)
  then have f: "state_for oid found" using loaded by (simp add: state_for_def)
  show ?thesis
  proof (cases "es = []")
    case True
    with assms f show ?thesis by (auto simp: replay_shape_iff validate_projection_def es found state_for_def)
  next
    case False
    with assms(1) obtain e where e: "fold_res reduce_order_event (build_empty_projection_state oid) es = Inr e"
      by (auto simp: validate_projection_def es bind_res_eq_Inr)
    with assms f replayed [OF e] OrderState_eq_sym [of e "the found"] False show ?thesis
      by (cases found; cases "OrderState_eq (the found) e")
         (auto simp: replay_shape_iff validate_projection_def es found state_for_def)
  qed
qed

lemma hydrated_order: "hydrate_snapshot_state sn = Inr st \<Longrightarrow> st_order_id st = sn_order_id sn"
  by (auto simp: hydrate_snapshot_state_def split: sum.splits if_splits)

lemma validation_result_shape:
  assumes "\<not> py_blank oid" and "state_for oid s" and "state_for oid a" and "found = None \<longleftrightarrow> v \<in> {SV_MISSING_SNAPSHOT} \<or> v = SV_NO_ACCEPTED_HISTORY_FOR_ORDER \<and> found = None"
  shows "validate_snapshot_replay_result_shape (validation_result v oid found s a reason) = Inr () \<longleftrightarrow>
    (case v of
         SV_MATCH \<Rightarrow> \<exists>s' a'. s = Some s' \<and> a = Some a' \<and> OrderState_eq s' a' \<and> source_global_position (the found) \<noteq> 0
       | SV_MISSING_SNAPSHOT \<Rightarrow> s = None \<and> a \<noteq> None
       | SV_INVALID_SNAPSHOT_BOUNDARY \<Rightarrow> s = None \<and> a \<noteq> None
       | SV_NO_ACCEPTED_HISTORY_FOR_ORDER \<Rightarrow> s = None \<and> a = None
       | _ \<Rightarrow> source_global_position (the found) \<noteq> 0 \<and> s \<noteq> None \<and> a \<noteq> None)"
  using assms by (cases v; cases found) (auto simp: snapshot_replay_shape_iff validation_result_def)

lemma validate_snapshot_replay_shape:
  assumes v: "validate_snapshot_replay tail limit oid sn a = Some (Inr r)" and o': "\<not> py_blank oid" and a: "st_order_id a = oid"
    and sn: "sn_order_id sn = oid" "0 < source_global_position sn"
  shows "validate_snapshot_replay_result_shape r = Inr () \<and> (\<exists>w s x reason. r = validation_result w oid (Some sn) s x reason)"
proof (cases "hydrate_snapshot_state sn")
  case (Inl x)
  with v o' a show ?thesis
    by (auto simp: validate_snapshot_replay_def validation_result_shape state_for_def split: if_splits)
next
  case (Inr st0)
  with sn(1) have st0: "st_order_id st0 = oid" using hydrated_order by simp
  from v Inr obtain ld where ld: "load_all_tail_records tail limit oid (source_event_sequence sn) [] = Some ld"
    by (auto simp: validate_snapshot_replay_def split: option.splits)
  show ?thesis
  proof (cases ld)
    case (Inl x)
    with v o' a sn st0 \<open>hydrate_snapshot_state sn = Inr st0\<close> ld show ?thesis
      by (auto simp: validate_snapshot_replay_def validation_result_shape state_for_def split: if_splits)
  next
    case tl: (Inr tl)
    obtain st f where f: "replay_tail st0 tl = (st, f)" by force
    with st0 have "st_order_id st = oid" using replay_tail_keeps_order by blast
    with v o' a sn Inr ld tl f show ?thesis
      by (cases f) (auto simp: validate_snapshot_replay_def validation_result_shape state_for_def split: if_splits)
  qed
qed

lemma validate_order_shape:
  assumes v: "validate_order latest hist tail limit oid = Some (Inr r)" and o': "\<not> py_blank oid"
  shows "validate_snapshot_replay_result_shape r = Inr ()
    \<and> (\<exists>found w s x reason. latest oid = Inr found \<and> r = validation_result w oid found s x reason)"
proof -
  from v obtain found es where found: "latest oid = Inr found" "hist oid = Inr es"
    by (auto simp: validate_order_def split: sum.splits)
  show ?thesis
  proof (cases "es = []")
    case True
    with v o' found show ?thesis
      by (auto simp: validate_order_def snapshot_replay_shape_iff validation_result_def state_for_def)
  next
    case False
    with v found obtain a where auth: "replay_authority_state oid es = Inr a"
      by (auto simp: validate_order_def split: sum.splits)
    then have a: "st_order_id a = oid"
      using replay_keeps_order by (fastforce simp: replay_authority_state_def build_empty_projection_state_def)
    show ?thesis
    proof (cases found)
      case None
      with v o' found False auth a show ?thesis by (auto simp: validate_order_def validation_result_shape state_for_def)
    next
      case (Some sn)
      show ?thesis
      proof (cases "validate_snapshot_boundary sn oid (Max (set (map ev_sequence es)))")
        case None
        then have "sn_order_id sn = oid" "0 < source_global_position sn"
          by (auto simp: validate_snapshot_boundary_def split: if_splits)
        with v found False auth Some None validate_snapshot_replay_shape [OF _ o' a] show ?thesis
          by (auto simp: validate_order_def Let_def)
      next
        case reason: (Some reason)
        with v o' found False auth a Some show ?thesis
          by (auto simp: validate_order_def validation_result_shape state_for_def Let_def)
      qed
    qed
  qed
qed

lemma resolve_from_snapshot_shape:
  assumes v: "resolve_from_snapshot tail limit oid sn = Some (Inr r)" and o': "\<not> py_blank oid"
    and sn: "sn_order_id sn = oid" "0 < source_global_position sn"
  shows "validate_snapshot_assisted_result_shape r = Inr () \<and> sr_order_id r = oid
    \<and> sr_snapshot_id r = Some (snapshot_id sn) \<and> sr_source_global_position r = Some (source_global_position sn)"
proof (cases "hydrate_snapshot_state sn")
  case (Inl x)
  with v o' show ?thesis
    by (auto simp: resolve_from_snapshot_def snapshot_assisted_shape_iff resolution_failure_def state_for_def split: if_splits)
next
  case (Inr st0)
  with sn(1) have st0: "st_order_id st0 = oid" using hydrated_order by simp
  from v Inr obtain ld where ld: "load_all_tail_records tail limit oid (source_event_sequence sn) [] = Some ld"
    by (auto simp: resolve_from_snapshot_def split: option.splits)
  show ?thesis
  proof (cases ld)
    case (Inl x)
    with v o' sn \<open>hydrate_snapshot_state sn = Inr st0\<close> ld show ?thesis
      by (auto simp: resolve_from_snapshot_def snapshot_assisted_shape_iff resolution_failure_def state_for_def split: if_splits)
  next
    case tl: (Inr tl)
    obtain st f where f: "replay_tail st0 tl = (st, f)" by force
    with st0 have "st_order_id st = oid" using replay_tail_keeps_order by blast
    with v o' sn Inr ld tl f show ?thesis
      by (cases f) (auto simp: resolve_from_snapshot_def snapshot_assisted_shape_iff resolution_failure_def state_for_def split: if_splits)
  qed
qed

lemma resolve_order_shape:
  assumes v: "resolve_order by_id tail limit oid trusted = Some (Inr r)" and o': "\<not> py_blank oid"
  obtains "validate_snapshot_assisted_result_shape r = Inr ()" and "sr_order_id r = oid" and "sr_snapshot_id r = trusted"
      and "sr_source_global_position r = None"
    | sid sn where "validate_snapshot_assisted_result_shape r = Inr ()" and "sr_order_id r = oid" and "trusted = Some sid"
      and "by_id sid = Inr (Some sn)" and "sr_snapshot_id r = Some (snapshot_id sn)"
      and "sr_source_global_position r = Some (source_global_position sn)"
proof (cases trusted)
  case None
  with v o' that(1) show ?thesis by (auto simp: resolve_order_def snapshot_assisted_shape_iff state_for_def)
next
  case (Some sid)
  with v obtain found where found: "by_id sid = Inr found" by (auto simp: resolve_order_def split: sum.splits)
  show ?thesis
  proof (cases found)
    case None
    with v o' Some found that(1) show ?thesis by (auto simp: resolve_order_def snapshot_assisted_shape_iff state_for_def)
  next
    case sn: (Some sn)
    show ?thesis
    proof (cases "validate_snapshot_compatibility sn oid")
      case None
      then have "sn_order_id sn = oid" "0 < source_global_position sn"
        by (auto simp: validate_snapshot_compatibility_def split: if_splits)
      with v Some found sn None resolve_from_snapshot_shape [OF _ o'] that(2) show ?thesis by (simp add: resolve_order_def)
    next
      case reason: (Some reason)
      with v o' Some found sn that(2) show ?thesis
        by (auto simp: resolve_order_def snapshot_assisted_shape_iff resolution_failure_def state_for_def)
    qed
  qed
qed

section \<open>Observations of the tables\<close>

text \<open>The constraints of the tables that the observers read.\<close>

definition observable :: "read_db \<Rightarrow> bool" where
  "observable d \<longleftrightarrow> read_ok d \<and> snapshots_ok d \<and> (\<forall>sn \<in> set (rd_snapshots d). is_uuid (snapshot_id sn))
     \<and> (\<forall>oid row. rd_states d oid = Some row \<longrightarrow> projection_state_checks oid row)"

text \<open>What a VALID receipt of the two validators asserts about the tables.\<close>

definition projection_agrees :: "read_db \<Rightarrow> string \<Rightarrow> bool" where
  "projection_agrees d oid \<longleftrightarrow> (\<exists>st a. accepted d oid \<noteq> [] \<and> pg_load_state d oid = Inr (Some st)
      \<and> project oid (accepted d oid) = Inr a \<and> OrderState_eq st a)"

definition snapshot_agrees :: "read_db \<Rightarrow> string \<Rightarrow> bool" where
  "snapshot_agrees d oid \<longleftrightarrow> (\<exists>sn a st. accepted d oid \<noteq> [] \<and> load_latest_snapshot d oid = Inr (Some sn)
      \<and> validate_snapshot_boundary sn oid (int (length (accepted d oid))) = None
      \<and> project oid (accepted d oid) = Inr a \<and> assisted_state (accepted d oid) sn = Inr st \<and> OrderState_eq st a)"

text \<open>The state that a trusted snapshot yields, if it exists, is compatible, and can be replayed.\<close>

definition trusted_state :: "read_db \<Rightarrow> string \<Rightarrow> string option \<Rightarrow> OrderState option" where
  "trusted_state d oid trusted =
     Option.bind trusted (\<lambda>t. case load_snapshot d t of
        Inr (Some sn) \<Rightarrow>
          (case (validate_snapshot_compatibility sn oid, assisted_state (accepted d oid) sn) of
             (None, Inr st) \<Rightarrow> Some st | _ \<Rightarrow> None)
      | _ \<Rightarrow> None)"

lemma lineage_ok:
  assumes "observable d" and "sn \<in> set (rd_snapshots d)"
  shows "is_uuid (snapshot_id sn)" and "0 \<le> source_global_position sn"
  using assms by (auto simp: observable_def snapshots_ok_def snapshot_row_checks_def list_all_iff)

lemma load_state_total:
  assumes "observable d"
  obtains found where "pg_load_state d oid = Inr found"
proof (cases "rd_states d oid")
  case None
  with that show ?thesis by (simp add: pg_load_state_def)
next
  case (Some row)
  with assms have "psr_status row \<in> set [''INIT'', ''CREATED'', ''PAID'']" by (auto simp: observable_def projection_state_checks_def)
  then obtain s where "OrderStatus_of (psr_status row) = Inr s" by (auto simp: OrderStatus_of_def)
  with Some that show ?thesis by (simp add: pg_load_state_def)
qed

lemma latest_total: obtains found where "load_latest_snapshot d oid = Inr found"
  by (cases "sort_key (\<lambda>sn. - source_event_sequence sn) (filter (\<lambda>sn. sn_order_id sn = oid) (rd_snapshots d))")
     (simp_all add: load_latest_snapshot_def)

lemma observed_replay:
  assumes "observable d" and "\<not> py_blank oid"
  obtains r where "durable_validate_order True d oid = Inr r"
    and "rv_status r = RV_MATCH \<longleftrightarrow> projection_agrees d oid"
proof -
  from assms(1) have ok: "read_ok d" by (simp add: observable_def)
  note h = accepted_history [OF ok, of oid]
  obtain found where found: "pg_load_state d oid = Inr found" by (rule load_state_total [OF assms(1)])
  show ?thesis
  proof (cases "accepted d oid = []")
    case True
    with h found that show ?thesis by (simp add: durable_validate_order_def validate_projection_def projection_agrees_def)
  next
    case False
    then have "order_records d oid \<noteq> []" by simp
    then obtain a where a: "project oid (accepted d oid) = Inr a" by (rule pg_readers.authority [OF ok])
    with h found False that show ?thesis
      by (cases found; cases "OrderState_eq (the found) a") (simp_all add: durable_validate_order_def validate_projection_def project_def projection_agrees_def)
  qed
qed

lemma observed_resolution:
  assumes "read_ok d" and "0 < limit" and "\<not> py_blank oid"
  obtains r where "resolve_order (load_snapshot d) (load_after_sequence d) limit oid trusted = Some (Inr r)"
    and "sr_status r = SR_RESOLVED_FROM_SNAPSHOT \<longleftrightarrow> trusted_state d oid trusted \<noteq> None" and "sr_resolved_state r = trusted_state d oid trusted"
proof (cases "\<exists>t sn. trusted = Some t \<and> load_snapshot d t = Inr (Some sn) \<and> validate_snapshot_compatibility sn oid = None")
  case True
  then obtain t sn where t: "trusted = Some t" "load_snapshot d t = Inr (Some sn)" "validate_snapshot_compatibility sn oid = None" by blast
  from pg_readers.resolve_order_verdict [OF assms(1,3,2) t(2,3)] obtain r where
    r: "resolve_order (load_snapshot d) (load_after_sequence d) limit oid (Some t) = Some (Inr r)"
      "case assisted_state (accepted d oid) sn of Inl _ \<Rightarrow> sr_status r = SR_TAIL_REPLAY_FAILED
          | Inr st \<Rightarrow> sr_status r = SR_RESOLVED_FROM_SNAPSHOT \<and> sr_resolved_state r = Some st" by blast
  have "sr_status r = SR_TAIL_REPLAY_FAILED \<Longrightarrow> sr_resolved_state r = None"
    by (rule resolve_order_shape [OF r(1) assms(3)]) (auto simp: snapshot_assisted_shape_iff)
  with that [of r] r t show ?thesis by (cases "assisted_state (accepted d oid) sn") (simp_all add: trusted_state_def)
next
  case False
  show ?thesis
  proof (cases trusted)
    case None
    with that show ?thesis by (simp add: resolve_order_def trusted_state_def)
  next
    case (Some t)
    obtain found where f: "load_snapshot d t = Inr found" by (simp add: load_snapshot_def)
    with False Some that show ?thesis
      by (cases found; cases "validate_snapshot_compatibility (the found) oid")
         (simp_all add: resolve_order_def resolution_failure_def trusted_state_def)
  qed
qed

lemma replay_observation_receipted:
  assumes "observable d" and "\<not> py_blank oid" and "is_uuid receipt_id" and "is_uuid outc"
  shows "\<exists>r rc. durable_validate_order True d oid = Inr r
      \<and> map_replay_validation_result_to_decision_receipt receipt_id outc r = Inr rc \<and> receipt_ok rc
      \<and> dc_order_id (dr_correlation rc) = Some oid \<and> receipt_is_valid rc = projection_agrees d oid"
proof -
  obtain r where r: "durable_validate_order True d oid = Inr r" "rv_status r = RV_MATCH \<longleftrightarrow> projection_agrees d oid"
    by (rule observed_replay [OF assms(1,2)])
  then have "validate_projection d oid = Inr r" by (simp add: durable_validate_order_def)
  then have shape: "validate_replay_result_shape r = Inr ()" and o': "rv_order_id r = oid"
    using validate_projection_shape [OF _ assms(2)] by simp_all
  show ?thesis
    by (rule replay_receipt [OF shape assms(3,4)]) (use r o' in \<open>auto simp: read_side_correlation_def\<close>)
qed

lemma validation_observation_receipted:
  assumes "observable d" and "0 < limit" and "\<not> py_blank oid" and "is_uuid receipt_id" and "is_uuid outc"
  shows "\<exists>r rc. snapshot_observation_validate limit True d oid = Some (Inr r)
      \<and> map_projection_snapshot_replay_validation_result_to_decision_receipt receipt_id outc r = Inr rc \<and> receipt_ok rc
      \<and> dc_order_id (dr_correlation rc) = Some oid \<and> receipt_is_valid rc = snapshot_agrees d oid"
proof -
  from assms(1) have ok: "read_ok d" by (simp add: observable_def)
  obtain found where found: "load_latest_snapshot d oid = Inr found" by (rule latest_total)
  from pg_readers.validate_order_total [OF ok assms(2) found] found obtain r where
    r: "validate_order (load_latest_snapshot d) (accepted_history_load d) (load_after_sequence d) limit oid = Some (Inr r)"
      "sv_status r = SV_MATCH \<longleftrightarrow> snapshot_agrees d oid" by (auto simp: snapshot_agrees_def)
  have obs: "snapshot_observation_validate limit True d oid = Some (Inr r)"
    using r(1) assms(2) by (simp add: snapshot_observation_validate_def snapshot_validator_init_def require_idle_connection_def)
  from validate_order_shape [OF r(1) assms(3)] found have shape: "validate_snapshot_replay_result_shape r = Inr ()"
    and fs: "sv_order_id r = oid" "sv_snapshot_id r = map_option snapshot_id found"
      "sv_source_global_position r = map_option source_global_position found"
    by (auto simp: validation_result_def)
  have "sn \<in> set (rd_snapshots d)" if "found = Some sn" for sn using load_latest_snapshot_in found that by simp
  then have l: "\<forall>u. sv_snapshot_id r = Some u \<longrightarrow> is_uuid u" "\<forall>i. sv_source_global_position r = Some i \<longrightarrow> 0 \<le> i"
    using lineage_ok [OF assms(1)] by (auto simp: fs)
  show ?thesis
    by (rule snapshot_validation_receipt [OF shape assms(4,5) l]) (use r(2) obs fs(1) in \<open>auto simp: read_side_correlation_def\<close>)
qed

lemma resolution_observation_receipted:
  assumes "observable d" and "0 < limit" and "\<not> py_blank oid" and "is_uuid receipt_id" and "is_uuid outc"
    and "\<forall>t. trusted = Some t \<longrightarrow> is_uuid t"
  shows "\<exists>r rc. snapshot_observation_resolve limit True d oid trusted = Some (Inr r)
      \<and> map_projection_snapshot_assisted_resolution_result_to_decision_receipt receipt_id outc r = Inr rc \<and> receipt_ok rc
      \<and> dc_order_id (dr_correlation rc) = Some oid
      \<and> receipt_is_valid rc = (trusted_state d oid trusted \<noteq> None) \<and> sr_resolved_state r = trusted_state d oid trusted"
proof -
  from assms(1) have ok: "read_ok d" by (simp add: observable_def)
  obtain r where r: "resolve_order (load_snapshot d) (load_after_sequence d) limit oid trusted = Some (Inr r)"
    "sr_status r = SR_RESOLVED_FROM_SNAPSHOT \<longleftrightarrow> trusted_state d oid trusted \<noteq> None" "sr_resolved_state r = trusted_state d oid trusted"
    by (rule observed_resolution [OF ok assms(2,3)])
  have obs: "snapshot_observation_resolve limit True d oid trusted = Some (Inr r)"
    using r(1) assms(2) by (simp add: snapshot_observation_resolve_def snapshot_resolver_init_def require_idle_connection_def)
  have mem: "sn \<in> set (rd_snapshots d)" if "load_snapshot d t = Inr (Some sn)" for t sn
    using that by (auto simp: load_snapshot_def find_Some_iff)
  have "validate_snapshot_assisted_result_shape r = Inr () \<and> sr_order_id r = oid
    \<and> (\<forall>u. sr_snapshot_id r = Some u \<longrightarrow> is_uuid u) \<and> (\<forall>i. sr_source_global_position r = Some i \<longrightarrow> 0 \<le> i)"
    by (rule resolve_order_shape [OF r(1) assms(3)]) (use assms(6) lineage_ok [OF assms(1) mem] in auto)
  then have shape: "validate_snapshot_assisted_result_shape r = Inr ()" and o': "sr_order_id r = oid"
    and l: "\<forall>u. sr_snapshot_id r = Some u \<longrightarrow> is_uuid u" "\<forall>i. sr_source_global_position r = Some i \<longrightarrow> 0 \<le> i" by blast+
  show ?thesis
    by (rule snapshot_resolution_receipt [OF shape assms(4,5) l]) (use r(2,3) obs o' in \<open>auto simp: read_side_correlation_def\<close>)
qed

section \<open>Property\<close>

text \<open>
  C8: Read-side receipts tell the truth. On tables that satisfy their constraints, each of the three
  observers returns a result for every non-blank order, and the result has a well-formed receipt for
  that order. The receipt of the replay validator is VALID exactly when the persisted projection
  equals the projection of a non-empty accepted history; that of the snapshot validator exactly when
  the latest snapshot has a valid boundary and leads to the projection of the whole history; that of
  the resolver exactly when the trusted snapshot exists, is compatible, and can be replayed, and its
  result carries the state that the replay yields.
\<close>

theorem read_side_receipts_truthful:
  assumes "observable d" and "0 < limit" and "\<not> py_blank oid" and "is_uuid receipt_id" and "is_uuid outc"
    and "\<forall>t. trusted = Some t \<longrightarrow> is_uuid t"
  shows "(\<exists>r rc. durable_validate_order True d oid = Inr r
      \<and> map_replay_validation_result_to_decision_receipt receipt_id outc r = Inr rc \<and> receipt_ok rc
      \<and> dc_order_id (dr_correlation rc) = Some oid \<and> receipt_is_valid rc = projection_agrees d oid)
    \<and> (\<exists>r rc. snapshot_observation_validate limit True d oid = Some (Inr r)
      \<and> map_projection_snapshot_replay_validation_result_to_decision_receipt receipt_id outc r = Inr rc \<and> receipt_ok rc
      \<and> dc_order_id (dr_correlation rc) = Some oid \<and> receipt_is_valid rc = snapshot_agrees d oid)
    \<and> (\<exists>r rc. snapshot_observation_resolve limit True d oid trusted = Some (Inr r)
      \<and> map_projection_snapshot_assisted_resolution_result_to_decision_receipt receipt_id outc r = Inr rc \<and> receipt_ok rc
      \<and> dc_order_id (dr_correlation rc) = Some oid
      \<and> receipt_is_valid rc = (trusted_state d oid trusted \<noteq> None) \<and> sr_resolved_state r = trusted_state d oid trusted)"
  by (intro conjI replay_observation_receipted [OF assms(1,3-5)] validation_observation_receipted [OF assms(1-5)]
      resolution_observation_receipted [OF assms])

theorem read_side_receipts_truthful_witness:
  "\<exists>d r rc. snapshot_observation_resolve 7 True d ''o1'' (Some sample_uuid) = Some (Inr r)
     \<and> map_projection_snapshot_assisted_resolution_result_to_decision_receipt ''00000000-0000-0000-0000-000000000001''
         ''00000000-0000-0000-0000-000000000002'' r = Inr rc \<and> receipt_ok rc \<and> receipt_is_valid rc"
proof -
  obtain d e where d: "worker_reach d" "rd_snapshots d = []" "accepted d ''o1'' = [e]"
    "project ''o1'' [e] = hydrate_snapshot_state (sample_snapshot (ev_event_id e))"
    "uuid_in (ev_event_id e) = Some (ev_event_id e)"
    by (rule sample_tables) (simp add: sample_snapshot_defs)
  let ?sn = "sample_snapshot (ev_event_id e)" and ?d = "d\<lparr>rd_states := Map.empty, rd_snapshots := [sample_snapshot (ev_event_id e)]\<rparr>"
  have f: "source_event_sequence ?sn = 1" "snapshot_id ?sn = sample_uuid" by (simp_all add: sample_snapshot_def)
  have ev: "rd_events ?d = rd_events d" by simp
  from worker_reach_in_step [OF d(1)] have "read_ok d" by (simp add: in_step_def)
  then have "observable ?d"
    by (simp add: observable_def same_events [OF ev] snapshots_ok_def sample_snapshot_row [OF d(5)] f column_uuid [OF sample_uuid_in])
  moreover have "\<not> py_blank ''o1''" by (simp add: py_blank_iff py_isspace_def)
  moreover have "accepted ?d ''o1'' = [e]" "load_snapshot ?d sample_uuid = Inr (Some ?sn)"
    using d(3) by (simp_all add: same_events [OF ev] load_snapshot_def f)
  ultimately show ?thesis
    using read_side_receipts_truthful [of ?d 7 "''o1''", OF _ _ _ sample_uuids, of "Some sample_uuid"] f
    by (auto simp: column_uuid [OF sample_uuid_in] sample_snapshot_defs assisted_state_def trusted_state_def)
qed

end
