(* ===== verification/Invocation_Owner.thy ===== *)
theory Invocation_Owner
  imports Governed_Results
begin

text \<open>
  The live owner of one request,
  \<open>src/pipeline/transactional/postgres_write_side_invocation_owner.py\<close>: one initial invocation of the
  writer, at most one more that re-invocation authority permits, and the delivery of the response
  for the current result. A method that calls the writer is three steps here, as in the code: the
  section under the lifecycle lock before the call, the call without the lock, and the section that
  publishes the result. The step relation interleaves such sections of any number of callers with
  each other and with the commits of other sessions.
\<close>

section \<open>The owner\<close>

text \<open>The selected result is the current result, the prior accepted event, or \<open>None\<close>.\<close>

datatype selected_result =
    SelectedResult PostgresWriteSideResult
  | SelectedEvent OrderEvent
  | NoSelection

datatype current_response_delivery =
    CurrentResponseEvaluation PostgresWriteSideResult PostgresWriteSideRuntimeDecisionEvaluation selected_result
  | CurrentResponseRefusal PostgresWriteSideResult PostgresWriteSideSemanticRuleFeedback exc

record invocation_owner =
  iv_request_signature :: RequestSignature
  iv_writer :: write_side
  iv_initial_invocation_started :: bool
  iv_initial_result :: "PostgresWriteSideResult option"
  iv_cached_reinvocation_evaluation :: "reinvocation_evaluation option"
  iv_authority_spent :: bool
  iv_current_response_result :: "PostgresWriteSideResult option"
  iv_current_response_outcome_id :: "string option"
  iv_cached_current_response_delivery :: "current_response_delivery option"

definition new_invocation_owner :: "RequestSignature \<Rightarrow> write_side \<Rightarrow> invocation_owner" where
  "new_invocation_owner request_signature writer =
     \<lparr>iv_request_signature = request_signature, iv_writer = writer, iv_initial_invocation_started = False,
      iv_initial_result = None, iv_cached_reinvocation_evaluation = None, iv_authority_spent = False,
      iv_current_response_result = None, iv_current_response_outcome_id = None,
      iv_cached_current_response_delivery = None\<rparr>"

text \<open>\<open>PostgresWriteSideInvocationLifecycleError\<close> is a \<open>RuntimeError\<close>.\<close>

abbreviation lifecycle_error :: "string \<Rightarrow> exc" where
  "lifecycle_error \<equiv> RuntimeError"

definition clear_current_response_state :: "invocation_owner \<Rightarrow> invocation_owner" where
  "clear_current_response_state self =
     self\<lparr>iv_current_response_result := None, iv_current_response_outcome_id := None,
          iv_cached_current_response_delivery := None\<rparr>"

definition publish_current_response_result :: "invocation_owner \<Rightarrow> PostgresWriteSideResult \<Rightarrow> invocation_owner" where
  "publish_current_response_result self r =
     self\<lparr>iv_current_response_result := Some r, iv_current_response_outcome_id := None,
          iv_cached_current_response_delivery := None\<rparr>"

definition require_completed_initial_result :: "invocation_owner \<Rightarrow> PostgresWriteSideResult res" where
  "require_completed_initial_result self =
     (case iv_initial_result self of
        None \<Rightarrow> Inl (lifecycle_error ''initial invocation has not completed normally'')
      | Some r \<Rightarrow> Inr r)"

definition require_current_response_result :: "invocation_owner \<Rightarrow> PostgresWriteSideResult res" where
  "require_current_response_result self =
     (case iv_current_response_result self of
        None \<Rightarrow> Inl (lifecycle_error ''no normally completed current-response result is available'')
      | Some r \<Rightarrow> Inr r)"

definition dispatch_retained_request ::
  "invocation_owner \<Rightarrow> pg_conn \<Rightarrow> string \<Rightarrow> int \<Rightarrow> pg_conn \<times> PostgresWriteSideResult res" where
  "dispatch_retained_request self c new_event_id now_ms =
     (let signature = iv_request_signature self;
          (c', r) = (case sig_command_type signature of
             CREATE \<Rightarrow> create_order (iv_writer self) c new_event_id now_ms (sig_request_id signature)
               (sig_order_id signature) (sig_amount signature)
           | PAY \<Rightarrow> pay_order (iv_writer self) c new_event_id now_ms (sig_request_id signature)
               (sig_order_id signature) (sig_amount signature))
      in (c', bind_res r (\<lambda>res. case res of
             Primary p \<Rightarrow> Inr p
           | Traced _ \<Rightarrow> Inl (TypeError ''retained writer must return PostgresWriteSideResult''))))"

text \<open>The two sections under the lock of \<open>invoke_initial\<close>, and the method when no other caller runs.\<close>

definition enter_initial :: "invocation_owner \<Rightarrow> invocation_owner \<times> unit res" where
  "enter_initial self =
     (if iv_initial_invocation_started self
      then (self, Inl (lifecycle_error ''initial invocation has already started''))
      else (self\<lparr>iv_initial_invocation_started := True\<rparr>, Inr ()))"

definition publish_initial :: "invocation_owner \<Rightarrow> PostgresWriteSideResult \<Rightarrow> invocation_owner" where
  "publish_initial self r = publish_current_response_result (self\<lparr>iv_initial_result := Some r\<rparr>) r"

definition invoke_initial ::
  "invocation_owner \<Rightarrow> pg_conn \<Rightarrow> string \<Rightarrow> int \<Rightarrow> invocation_owner \<times> pg_conn \<times> PostgresWriteSideResult res" where
  "invoke_initial self c new_event_id now_ms =
     (case enter_initial self of
        (self1, Inl x) \<Rightarrow> (self1, c, Inl x)
      | (self1, Inr _) \<Rightarrow>
          (case dispatch_retained_request self1 c new_event_id now_ms of
             (c', Inl x) \<Rightarrow> (self1, c', Inl x)
           | (c', Inr r) \<Rightarrow> (publish_initial self1 r, c', Inr r)))"

text \<open>The sections of \<open>invoke_authorized_reinvocation\<close>, and the method.\<close>

definition enter_reinvocation :: "invocation_owner \<Rightarrow> invocation_owner \<times> unit res" where
  "enter_reinvocation self =
     (case require_completed_initial_result self of
        Inl x \<Rightarrow> (self, Inl x)
      | Inr _ \<Rightarrow>
          (case iv_cached_reinvocation_evaluation self of
             None \<Rightarrow> (self, Inl (lifecycle_error ''re-invocation authority has not been explicitly evaluated''))
           | Some (NoReinvocationAuthority _ _) \<Rightarrow>
               (self, Inl (lifecycle_error ''the cached Stage 4E evaluation issued no re-invocation authority''))
           | Some (ReinvocationAuthorization _) \<Rightarrow>
               if iv_authority_spent self
               then (self, Inl (lifecycle_error ''re-invocation authority has already been spent''))
               else (clear_current_response_state (self\<lparr>iv_authority_spent := True\<rparr>), Inr ())))"

definition invoke_authorized_reinvocation ::
  "invocation_owner \<Rightarrow> pg_conn \<Rightarrow> string \<Rightarrow> int \<Rightarrow> invocation_owner \<times> pg_conn \<times> PostgresWriteSideResult res" where
  "invoke_authorized_reinvocation self c new_event_id now_ms =
     (case enter_reinvocation self of
        (self1, Inl x) \<Rightarrow> (self1, c, Inl x)
      | (self1, Inr _) \<Rightarrow>
          (case dispatch_retained_request self1 c new_event_id now_ms of
             (c', Inl x) \<Rightarrow> (self1, c', Inl x)
           | (c', Inr r) \<Rightarrow> (publish_current_response_result self1 r, c', Inr r)))"

definition owner_evaluate_reinvocation_authority ::
  "invocation_owner \<Rightarrow> invocation_owner \<times> reinvocation_evaluation res" where
  "owner_evaluate_reinvocation_authority self =
     (case require_completed_initial_result self of
        Inl x \<Rightarrow> (self, Inl x)
      | Inr r \<Rightarrow>
          (case iv_cached_reinvocation_evaluation self of
             Some evaluation \<Rightarrow> (self, Inr evaluation)
           | None \<Rightarrow>
               (case evaluate_postgres_write_side_reinvocation_authority (iv_request_signature self) r of
                  Inl x \<Rightarrow> (self, Inl x)
                | Inr evaluation \<Rightarrow>
                    (self\<lparr>iv_cached_reinvocation_evaluation := Some evaluation\<rparr>, Inr evaluation))))"

section \<open>The current response\<close>

text \<open>\<open>is not\<close> on the two accepted events is inequality of the values.\<close>

definition exact_prior_accepted_event :: "RequestSignature \<Rightarrow> PostgresWriteSideResult \<Rightarrow> OrderEvent res" where
  "exact_prior_accepted_event request_signature producer_result =
     (if wr_outcome producer_result \<noteq> OUT_REPLAY
      then Inl (ValueError ''RETURN_PRIOR_ACCEPTED_RESULT requires a REPLAY producer result'')
      else if id_verdict (wr_idempotency_decision producer_result) \<noteq> REPLAY
      then Inl (ValueError ''REPLAY producer result requires a REPLAY idempotency decision'')
      else case id_record (wr_idempotency_decision producer_result) of
             None \<Rightarrow> Inl (ValueError ''REPLAY producer result requires an idempotency record'')
           | Some rec \<Rightarrow>
               if \<not> RequestSignature_eq (rec_signature rec) request_signature
               then Inl (ValueError ''REPLAY idempotency record signature must equal the retained RequestSignature'')
               else case wr_accepted_event producer_result of
                      None \<Rightarrow> Inl (ValueError ''REPLAY producer result requires a producer-carried accepted event'')
                    | Some e \<Rightarrow>
                        if e \<noteq> rec_accepted_event rec
                        then Inl (ValueError ''REPLAY producer result and idempotency record must carry the exact same accepted event'')
                        else Inr e)"

definition CurrentResponseEvaluation_from_owner ::
  "RequestSignature \<Rightarrow> PostgresWriteSideResult \<Rightarrow> PostgresWriteSideRuntimeDecisionEvaluation
   \<Rightarrow> current_response_delivery res" where
  "CurrentResponseEvaluation_from_owner request_signature producer_result evaluation =
     bind_res
       (case rd_response (rde_decision evaluation) of
          USE_CURRENT_RESULT \<Rightarrow> Inr (SelectedResult producer_result)
        | RETURN_PRIOR_ACCEPTED_RESULT \<Rightarrow>
            bind_res (exact_prior_accepted_event request_signature producer_result) (\<lambda>e. Inr (SelectedEvent e))
        | BLOCK_CURRENT_CONTINUATION \<Rightarrow> Inr NoSelection
        | REQUIRE_ESCALATION \<Rightarrow> Inr NoSelection)
       (\<lambda>selected. Inr (CurrentResponseEvaluation producer_result evaluation selected))"

text \<open>The mapping and the evaluation of a result under an outcome identity; a typed refusal is a
  delivery, any other exception is not.\<close>

definition deliver_response ::
  "RequestSignature \<Rightarrow> string \<Rightarrow> PostgresWriteSideResult \<Rightarrow> current_response_delivery res" where
  "deliver_response request_signature oid current_result =
     bind_res (map_postgres_write_side_result_to_semantic_rule_feedback oid current_result) (\<lambda>feedback.
       case evaluate_postgres_write_side_runtime_decision feedback of
         Inl (PostgresWriteSideRuntimeDecisionRefused m) \<Rightarrow>
           Inr (CurrentResponseRefusal current_result feedback (PostgresWriteSideRuntimeDecisionRefused m))
       | Inl x \<Rightarrow> Inl x
       | Inr evaluation \<Rightarrow> CurrentResponseEvaluation_from_owner request_signature current_result evaluation)"

text \<open>\<open>minted\<close> is the value that \<open>uuid4()\<close> gives if it is called.\<close>

definition evaluate_current_response ::
  "invocation_owner \<Rightarrow> string \<Rightarrow> invocation_owner \<times> current_response_delivery res" where
  "evaluate_current_response self minted =
     (case require_current_response_result self of
        Inl x \<Rightarrow> (self, Inl x)
      | Inr current_result \<Rightarrow>
          (case iv_cached_current_response_delivery self of
             Some delivery \<Rightarrow> (self, Inr delivery)
           | None \<Rightarrow>
               (let oid = (case iv_current_response_outcome_id self of Some i \<Rightarrow> i | None \<Rightarrow> minted);
                    self1 = self\<lparr>iv_current_response_outcome_id := Some oid\<rparr>
                in case deliver_response (iv_request_signature self) oid current_result of
                     Inl x \<Rightarrow> (self1, Inl x)
                   | Inr delivery \<Rightarrow>
                       (self1\<lparr>iv_cached_current_response_delivery := Some delivery\<rparr>, Inr delivery))))"

section \<open>Interleaved callers\<close>

datatype invocation = Initial | Reinvocation

text \<open>A caller that entered a method is about to call the writer, or holds its result.\<close>

datatype caller =
    Calling invocation
  | Returned invocation PostgresWriteSideResult

record owner_state =
  os_owner :: invocation_owner
  os_conn :: pg_conn
  os_callers :: "caller list"
  os_calls :: "invocation list"

text \<open>Each step is one section under the lock, one call of the writer, or a change that other sessions
  make while the connection is idle. \<open>os_calls\<close> lists the calls of the writer, the latest first;
  each call meets some interference and failures \<open>vs\<close> out of \<open>S\<close> and a fresh event identity. Sections that raise leave the callers unchanged.\<close>

inductive owner_step :: "server_event set \<Rightarrow> owner_state \<Rightarrow> owner_state \<Rightarrow> bool" for S where
  Enter_initial: "enter_initial (os_owner s) = (own', Inr ()) \<Longrightarrow>
    owner_step S s (s\<lparr>os_owner := own', os_callers := Calling Initial # os_callers s\<rparr>)"
| Refuse_initial: "enter_initial (os_owner s) = (own', Inl x) \<Longrightarrow> owner_step S s (s\<lparr>os_owner := own'\<rparr>)"
| Enter_reinvocation: "enter_reinvocation (os_owner s) = (own', Inr ()) \<Longrightarrow>
    owner_step S s (s\<lparr>os_owner := own', os_callers := Calling Reinvocation # os_callers s\<rparr>)"
| Refuse_reinvocation: "enter_reinvocation (os_owner s) = (own', Inl x) \<Longrightarrow> owner_step S s (s\<lparr>os_owner := own'\<rparr>)"
| Call_returns: "os_callers s = xs @ Calling i # ys \<Longrightarrow> uuid_in eid = Some eid \<Longrightarrow>
    set vs \<subseteq> S \<Longrightarrow>
    dispatch_retained_request (os_owner s) ((os_conn s)\<lparr>schedule := vs\<rparr>) eid now = (c', Inr r) \<Longrightarrow>
    owner_step S s (s\<lparr>os_conn := c', os_callers := xs @ Returned i r # ys, os_calls := i # os_calls s\<rparr>)"
| Call_raises: "os_callers s = xs @ Calling i # ys \<Longrightarrow> uuid_in eid = Some eid \<Longrightarrow>
    set vs \<subseteq> S \<Longrightarrow>
    dispatch_retained_request (os_owner s) ((os_conn s)\<lparr>schedule := vs\<rparr>) eid now = (c', Inl x) \<Longrightarrow>
    owner_step S s (s\<lparr>os_conn := c', os_callers := xs @ ys, os_calls := i # os_calls s\<rparr>)"
| Publish_initial: "os_callers s = xs @ Returned Initial r # ys \<Longrightarrow>
    owner_step S s (s\<lparr>os_owner := publish_initial (os_owner s) r, os_callers := xs @ ys\<rparr>)"
| Publish_reinvocation: "os_callers s = xs @ Returned Reinvocation r # ys \<Longrightarrow>
    owner_step S s (s\<lparr>os_owner := publish_current_response_result (os_owner s) r, os_callers := xs @ ys\<rparr>)"
| Evaluate_response: "evaluate_current_response (os_owner s) minted = (own', d) \<Longrightarrow> owner_step S s (s\<lparr>os_owner := own'\<rparr>)"
| Evaluate_authority: "owner_evaluate_reinvocation_authority (os_owner s) = (own', a) \<Longrightarrow> owner_step S s (s\<lparr>os_owner := own'\<rparr>)"
| Other_sessions: "conn_inv c' \<Longrightarrow> own c' = empty_db \<Longrightarrow> grows_by S (committed (os_conn s)) (committed c') \<Longrightarrow>
    owner_step S s (s\<lparr>os_conn := c'\<rparr>)"

inductive owner_reach :: "server_event set \<Rightarrow> owner_state \<Rightarrow> owner_state \<Rightarrow> bool" for S s0 where
  Start: "owner_reach S s0 s0"
| Step: "owner_reach S s0 s \<Longrightarrow> owner_step S s s' \<Longrightarrow> owner_reach S s0 s'"

definition new_owner_state :: "RequestSignature \<Rightarrow> write_side \<Rightarrow> pg_conn \<Rightarrow> owner_state" where
  "new_owner_state sg w c = \<lparr>os_owner = new_invocation_owner sg w, os_conn = c, os_callers = [], os_calls = []\<rparr>"

section \<open>What a call of the writer does\<close>

definition retained_command :: "RequestSignature \<Rightarrow> string \<Rightarrow> int \<Rightarrow> command" where
  "retained_command sg eid now = \<lparr>cmd_type = sig_command_type sg, cmd_event_id = eid, cmd_now = now,
     cmd_request_id = sig_request_id sg, cmd_order_id = sig_order_id sg, cmd_amount = sig_amount sg\<rparr>"

lemma retained_signature [simp]: "signature_of (retained_command sg eid now) = sg"
  by (simp add: signature_of_def retained_command_def)

lemma retained_event_id [simp]: "cmd_event_id (retained_command sg eid now) = eid"
  by (simp add: retained_command_def)

lemma dispatch_is_command:
  assumes "dispatch_retained_request self c eid now = (c', r)"
  shows "durable_command (iv_writer self) False c (retained_command (iv_request_signature self) eid now)
    = (c', map_sum id Primary r)"
proof -
  let ?cmd = "retained_command (iv_request_signature self) eid now"
  obtain c1 q k q' where run: "durable_command (iv_writer self) False c ?cmd = (c1, q)"
    "rel_sum (=) (result_mirror (cfg_validation_placement (wsd_config (iv_writer self))) k) q q'"
    by (rule durable_command_mirrors)
  from run(2) have "q = map_sum id Primary (bind_res q (\<lambda>res. case res of Primary p \<Rightarrow> Inr p
      | Traced _ \<Rightarrow> Inl (TypeError ''retained writer must return PostgresWriteSideResult'')))"
    by (cases q; cases q') (auto simp: result_mirror_def)
  with assms run(1) show ?thesis
    by (cases "sig_command_type (iv_request_signature self)")
       (auto simp: dispatch_retained_request_def durable_command_def retained_command_def split: prod.splits)
qed

text \<open>A result of the writer for the request: of the right shape, with its event when accepted.\<close>

definition writer_result :: "RequestSignature \<Rightarrow> PostgresWriteSideResult \<Rightarrow> bool" where
  "writer_result sg r \<longleftrightarrow> (\<exists>eid. uuid_in eid = Some eid \<and> answered sg eid r)"

text \<open>What became of the database since \<open>d0\<close>: changes of other sessions, and at most one accepted
  event of the request.\<close>

definition accepted_once :: "server_event set \<Rightarrow> db \<Rightarrow> RequestSignature \<Rightarrow> db \<Rightarrow> bool" where
  "accepted_once S d0 sg d \<longleftrightarrow> (\<exists>e d1. accepted_in S d0 sg e d1 \<and> grows_by S d1 d)"

lemma accepted_in_mono: "accepted_in S d0 sg e d \<Longrightarrow> S \<subseteq> T \<Longrightarrow> accepted_in T d0 sg e d"
  using grows_trans [OF grows_refl] unfolding accepted_in_def by blast

lemma accepted_in_since: "grows_by S d0 d1 \<Longrightarrow> accepted_in S d1 sg e d \<Longrightarrow> accepted_in S d0 sg e d"
  using grows_trans [of S d0] unfolding accepted_in_def by blast

lemma dispatch_effect:
  assumes c: "conn_inv c" "own c = empty_db" "set (schedule c) \<subseteq> S" and g: "grows_by S d0 (committed c)"
    and eid: "uuid_in eid = Some eid" and d: "dispatch_retained_request self c eid now = (c', r)"
    and sg: "iv_request_signature self = sg"
  shows "conn_inv c' \<and> own c' = empty_db
    \<and> (grows_by S d0 (committed c') \<or> accepted_once S d0 sg (committed c'))
    \<and> (\<forall>p. r = Inr p \<longrightarrow> writer_result sg p \<and> (wr_outcome p \<noteq> OUT_ACCEPTED \<longrightarrow> grows_by S d0 (committed c')))"
proof -
  let ?cmd = "retained_command sg eid now"
  note run = dispatch_is_command [OF d, unfolded sg]
  have eid': "uuid_in (cmd_event_id ?cmd) = Some (cmd_event_id ?cmd)" using eid by simp
  have grown: "grows_by S d0 (committed c')" if "grows_by (set (schedule c)) (committed c) (committed c')"
    by (rule grows_trans [OF g that c(3)])
  have acc: "accepted_once S d0 sg (committed c')" if "accepted_in (set (schedule c)) (committed c) sg e (committed c')" for e
    using accepted_in_since [OF g accepted_in_mono [OF that c(3)]] grows_refl unfolding accepted_once_def by blast
  show ?thesis
  proof (cases r)
    case (Inl x)
    with durable_command_exc [OF c(1,2) eid', of "iv_writer self" False c' x] run grown acc show ?thesis
      by (auto simp: command_exc_def)
  next
    case (Inr p)
    with run have run': "durable_command (iv_writer self) False c ?cmd = (c', Inr (Primary p))" by simp
    from durable_command_answered [OF c(1,2) eid' run'] have "answered sg eid p" by simp
    then have "writer_result sg p" using eid by (auto simp: writer_result_def)
    with durable_command_post [OF c(1,2) eid' run'] Inr grown acc show ?thesis
      by (auto simp: command_post_def split: if_splits)
  qed
qed

lemma authority_needs_rejection:
  assumes "evaluate_postgres_write_side_reinvocation_authority sg r = Inr (ReinvocationAuthorization sg')"
  shows "sg' = sg \<and> wr_outcome r = OUT_ADMISSION_REJECTED"
  using assms
  by (auto simp: evaluate_postgres_write_side_reinvocation_authority_def NoReinvocationAuthority_from_evaluation_def
      is_eligible_preparation_lock_timeout_def is_eligible_append_version_mismatch_def split: if_splits option.splits)

section \<open>The invariant\<close>

text \<open>The phases of an owner: not used; calling for the first time; first call lost to an exception;
  first result published; and, after authority was issued and spent, the same for the second call.\<close>

definition authorised :: "invocation_owner \<Rightarrow> bool" where
  "authorised self \<longleftrightarrow> (\<exists>r. iv_initial_result self = Some r
     \<and> evaluate_postgres_write_side_reinvocation_authority (iv_request_signature self) r
         = Inr (ReinvocationAuthorization (iv_request_signature self)))"

definition phase_ok :: "owner_state \<Rightarrow> bool" where
  "phase_ok s \<longleftrightarrow>
     (let self = os_owner s in
       (if \<not> iv_initial_invocation_started self
        then os_callers s = [] \<and> os_calls s = [] \<and> iv_initial_result self = None \<and> \<not> iv_authority_spent self
        else if \<not> iv_authority_spent self
        then (os_callers s = [Calling Initial] \<and> os_calls s = [] \<and> iv_initial_result self = None)
          \<or> (\<exists>r. os_callers s = [Returned Initial r] \<and> os_calls s = [Initial] \<and> iv_initial_result self = None)
          \<or> (os_callers s = [] \<and> os_calls s = [Initial])
        else authorised self \<and>
          (os_callers s = [Calling Reinvocation] \<and> os_calls s = [Initial]
          \<or> (\<exists>r. os_callers s = [Returned Reinvocation r] \<and> os_calls s = [Reinvocation, Initial])
          \<or> (os_callers s = [] \<and> os_calls s = [Reinvocation, Initial]))))"

definition evaluation_ok :: "invocation_owner \<Rightarrow> bool" where
  "evaluation_ok self \<longleftrightarrow> (\<forall>a. iv_cached_reinvocation_evaluation self = Some a \<longrightarrow>
     (\<exists>r. iv_initial_result self = Some r \<and> evaluate_postgres_write_side_reinvocation_authority (iv_request_signature self) r = Inr a))"

definition response_ok :: "invocation_owner \<Rightarrow> bool" where
  "response_ok self \<longleftrightarrow> (\<forall>d. iv_cached_current_response_delivery self = Some d \<longrightarrow>
     (\<exists>r oid. iv_current_response_result self = Some r \<and> iv_current_response_outcome_id self = Some oid
        \<and> deliver_response (iv_request_signature self) oid r = Inr d))"

definition results_ok :: "owner_state \<Rightarrow> bool" where
  "results_ok s \<longleftrightarrow>
     (\<forall>r. (iv_initial_result (os_owner s) = Some r \<or> iv_current_response_result (os_owner s) = Some r
           \<or> (\<exists>i. Returned i r \<in> set (os_callers s))) \<longrightarrow> writer_result (iv_request_signature (os_owner s)) r)"

definition database_ok :: "server_event set \<Rightarrow> db \<Rightarrow> owner_state \<Rightarrow> bool" where
  "database_ok S d0 s \<longleftrightarrow> conn_inv (os_conn s) \<and> own (os_conn s) = empty_db
     \<and> (grows_by S d0 (committed (os_conn s))
        \<or> accepted_once S d0 (iv_request_signature (os_owner s)) (committed (os_conn s)))
     \<and> (os_calls s = [] \<or> (\<exists>i. Calling i \<in> set (os_callers s)) \<longrightarrow> grows_by S d0 (committed (os_conn s)))
     \<and> (\<forall>r. (iv_initial_result (os_owner s) = Some r \<or> Returned Initial r \<in> set (os_callers s))
          \<and> os_calls s = [Initial] \<and> wr_outcome r \<noteq> OUT_ACCEPTED \<longrightarrow> grows_by S d0 (committed (os_conn s)))"

definition owner_inv :: "server_event set \<Rightarrow> db \<Rightarrow> RequestSignature \<Rightarrow> owner_state \<Rightarrow> bool" where
  "owner_inv S d0 sg s \<longleftrightarrow> iv_request_signature (os_owner s) = sg \<and> phase_ok s \<and> evaluation_ok (os_owner s)
     \<and> response_ok (os_owner s) \<and> results_ok s \<and> database_ok S d0 s"

lemmas owner_inv_defs = owner_inv_def phase_ok_def authorised_def evaluation_ok_def response_ok_def results_ok_def database_ok_def Let_def

lemma inv_new: "conn_inv c \<Longrightarrow> own c = empty_db \<Longrightarrow> committed c = d0 \<Longrightarrow> owner_inv S d0 sg (new_owner_state sg w c)"
  by (simp add: owner_inv_defs new_owner_state_def new_invocation_owner_def)

lemma inv_enter_initial:
  assumes "owner_inv S d0 sg s" and "enter_initial (os_owner s) = (own', Inr ())"
  shows "owner_inv S d0 sg (s\<lparr>os_owner := own', os_callers := Calling Initial # os_callers s\<rparr>)"
  using assms by (auto simp: owner_inv_defs enter_initial_def split: if_splits)

lemma inv_enter_reinvocation:
  assumes inv: "owner_inv S d0 sg s" and "enter_reinvocation (os_owner s) = (own', Inr ())"
  shows "owner_inv S d0 sg (s\<lparr>os_owner := own', os_callers := Calling Reinvocation # os_callers s\<rparr>)"
proof -
  from assms(2) obtain r sg' where own': "own' = clear_current_response_state ((os_owner s)\<lparr>iv_authority_spent := True\<rparr>)"
    and r: "iv_initial_result (os_owner s) = Some r" "\<not> iv_authority_spent (os_owner s)"
    and a: "iv_cached_reinvocation_evaluation (os_owner s) = Some (ReinvocationAuthorization sg')"
    by (auto simp: enter_reinvocation_def require_completed_initial_result_def
        split: option.splits reinvocation_evaluation.splits if_splits)
  from inv a r(1) have ev: "evaluate_postgres_write_side_reinvocation_authority sg r = Inr (ReinvocationAuthorization sg')"
    by (auto simp: owner_inv_def evaluation_ok_def)
  note rej = authority_needs_rejection [OF ev]
  from inv r have ph: "os_callers s = []" "os_calls s = [Initial]" "iv_initial_invocation_started (os_owner s)"
    by (auto simp: owner_inv_def phase_ok_def Let_def split: if_splits)
  have "grows_by S d0 (committed (os_conn s))" using inv ph r(1) rej by (simp add: owner_inv_def database_ok_def)
  with inv own' r ph ev rej a show ?thesis
    by (auto simp: owner_inv_defs clear_current_response_state_def)
qed

lemma inv_publish_initial:
  assumes "owner_inv S d0 sg s" and "os_callers s = xs @ Returned Initial r # ys"
  shows "owner_inv S d0 sg (s\<lparr>os_owner := publish_initial (os_owner s) r, os_callers := xs @ ys\<rparr>)"
proof -
  from assms have "xs = []" "ys = []" "iv_initial_result (os_owner s) = None" "\<not> iv_authority_spent (os_owner s)"
    by (auto simp: owner_inv_def phase_ok_def Let_def append_eq_Cons_conv split: if_splits)
  with assms show ?thesis
    by (auto simp: owner_inv_defs publish_initial_def publish_current_response_result_def split: if_splits)
qed

lemma inv_publish_reinvocation:
  assumes "owner_inv S d0 sg s" and "os_callers s = xs @ Returned Reinvocation r # ys"
  shows "owner_inv S d0 sg (s\<lparr>os_owner := publish_current_response_result (os_owner s) r, os_callers := xs @ ys\<rparr>)"
proof -
  from assms have "xs = []" "ys = []" "iv_authority_spent (os_owner s)"
    by (auto simp: owner_inv_def phase_ok_def Let_def append_eq_Cons_conv split: if_splits)
  with assms show ?thesis
    by (auto simp: owner_inv_defs publish_current_response_result_def split: if_splits)
qed

lemma inv_call:
  assumes inv: "owner_inv S d0 sg s" and s: "os_callers s = xs @ Calling i # ys" and "uuid_in eid = Some eid" and "set vs \<subseteq> S"
    and d: "dispatch_retained_request (os_owner s) ((os_conn s)\<lparr>schedule := vs\<rparr>) eid now = (c', r)"
  shows "owner_inv S d0 sg (s\<lparr>os_conn := c', os_callers := xs @ (case r of Inr p \<Rightarrow> [Returned i p] | Inl _ \<Rightarrow> []) @ ys,
    os_calls := i # os_calls s\<rparr>)"
proof -
  from inv s have ph: "xs = []" "ys = []"
    "if iv_authority_spent (os_owner s) then i = Reinvocation \<and> os_calls s = [Initial]
     else i = Initial \<and> os_calls s = [] \<and> iv_initial_result (os_owner s) = None"
    by (auto simp: owner_inv_def phase_ok_def Let_def append_eq_Cons_conv split: if_splits)
  have "conn_inv ((os_conn s)\<lparr>schedule := vs\<rparr>)" "own ((os_conn s)\<lparr>schedule := vs\<rparr>) = empty_db"
    "grows_by S d0 (committed ((os_conn s)\<lparr>schedule := vs\<rparr>))" "iv_request_signature (os_owner s) = sg"
    using inv s by (auto simp: owner_inv_def database_ok_def conn_inv_def visible_def)
  from dispatch_effect [OF this(1,2) _ this(3) assms(3) d this(4)] assms(4)
  have eff: "conn_inv c'" "own c' = empty_db" "grows_by S d0 (committed c') \<or> accepted_once S d0 sg (committed c')"
    "\<And>p. r = Inr p \<Longrightarrow> writer_result sg p" "\<And>p. r = Inr p \<Longrightarrow> wr_outcome p \<noteq> OUT_ACCEPTED \<Longrightarrow> grows_by S d0 (committed c')"
    by auto
  show ?thesis
    using inv s ph eff by (cases r) (auto simp: owner_inv_defs split: if_splits)
qed

lemma inv_other_sessions:
  assumes "owner_inv S d0 sg s" and "conn_inv c'" and "own c' = empty_db" and g: "grows_by S (committed (os_conn s)) (committed c')"
  shows "owner_inv S d0 sg (s\<lparr>os_conn := c'\<rparr>)"
proof -
  have "grows_by S d0 (committed c')" if "grows_by S d0 (committed (os_conn s))"
    using grows_trans [OF that g] by simp
  moreover have "accepted_once S d0 sg (committed c')" if "accepted_once S d0 sg (committed (os_conn s))"
    using that grows_trans [OF _ g] unfolding accepted_once_def by blast
  ultimately have "database_ok S d0 (s\<lparr>os_conn := c'\<rparr>)" using assms(1-3) by (auto simp: owner_inv_def database_ok_def)
  moreover have "phase_ok (s\<lparr>os_conn := c'\<rparr>) = phase_ok s" "results_ok (s\<lparr>os_conn := c'\<rparr>) = results_ok s"
    by (simp_all add: phase_ok_def results_ok_def)
  ultimately show ?thesis using assms(1) by (simp add: owner_inv_def)
qed

lemma authority_effect:
  assumes "evaluation_ok self" and "owner_evaluate_reinvocation_authority self = (self', a)"
  shows "evaluation_ok self' \<and> self' = self\<lparr>iv_cached_reinvocation_evaluation := iv_cached_reinvocation_evaluation self'\<rparr>"
proof (cases "iv_initial_result self")
  case None
  with assms show ?thesis
    by (simp add: owner_evaluate_reinvocation_authority_def require_completed_initial_result_def)
next
  case (Some r)
  show ?thesis
  proof (cases "iv_cached_reinvocation_evaluation self")
    case None
    with assms Some show ?thesis
      by (cases "evaluate_postgres_write_side_reinvocation_authority (iv_request_signature self) r"; cases self)
         (auto simp: owner_evaluate_reinvocation_authority_def require_completed_initial_result_def evaluation_ok_def)
  next
    case (Some x)
    with assms \<open>iv_initial_result self = _\<close> show ?thesis
      by (simp add: owner_evaluate_reinvocation_authority_def require_completed_initial_result_def)
  qed
qed

lemma inv_authority:
  assumes "owner_inv S d0 sg s" and "owner_evaluate_reinvocation_authority (os_owner s) = (own', a)"
  shows "owner_inv S d0 sg (s\<lparr>os_owner := own'\<rparr>)"
proof -
  from assms(1) have "evaluation_ok (os_owner s)" by (simp add: owner_inv_def)
  from authority_effect [OF this assms(2)] obtain x where own': "evaluation_ok own'"
    "own' = (os_owner s)\<lparr>iv_cached_reinvocation_evaluation := x\<rparr>" by blast
  have "phase_ok (s\<lparr>os_owner := own'\<rparr>) = phase_ok s" "response_ok own' = response_ok (os_owner s)"
    "results_ok (s\<lparr>os_owner := own'\<rparr>) = results_ok s" "database_ok S d0 (s\<lparr>os_owner := own'\<rparr>) = database_ok S d0 s"
    "iv_request_signature own' = iv_request_signature (os_owner s)"
    by (simp_all add: own'(2) phase_ok_def authorised_def response_ok_def results_ok_def database_ok_def Let_def)
  with own'(1) assms(1) show ?thesis by (simp add: owner_inv_def)
qed

lemma response_effect:
  assumes "response_ok self" and "evaluate_current_response self minted = (self', d)"
  shows "response_ok self' \<and> self' = self\<lparr>iv_current_response_outcome_id := iv_current_response_outcome_id self',
    iv_cached_current_response_delivery := iv_cached_current_response_delivery self'\<rparr>"
proof (cases "iv_current_response_result self")
  case None
  with assms show ?thesis
    by (simp add: evaluate_current_response_def require_current_response_result_def)
next
  case (Some r)
  show ?thesis
  proof (cases "iv_cached_current_response_delivery self")
    case None
    with assms Some show ?thesis
      by (cases "deliver_response (iv_request_signature self) (case iv_current_response_outcome_id self of Some i \<Rightarrow> i | None \<Rightarrow> minted) r"; cases self)
         (auto simp: evaluate_current_response_def require_current_response_result_def response_ok_def Let_def)
  next
    case (Some x)
    with assms \<open>iv_current_response_result self = _\<close> show ?thesis
      by (simp add: evaluate_current_response_def require_current_response_result_def)
  qed
qed

lemma inv_response:
  assumes "owner_inv S d0 sg s" and "evaluate_current_response (os_owner s) minted = (own', d)"
  shows "owner_inv S d0 sg (s\<lparr>os_owner := own'\<rparr>)"
proof -
  from assms(1) have "response_ok (os_owner s)" by (simp add: owner_inv_def)
  from response_effect [OF this assms(2)] obtain i x where own': "response_ok own'"
    "own' = (os_owner s)\<lparr>iv_current_response_outcome_id := i, iv_cached_current_response_delivery := x\<rparr>" by blast
  have "phase_ok (s\<lparr>os_owner := own'\<rparr>) = phase_ok s" "evaluation_ok own' = evaluation_ok (os_owner s)"
    "results_ok (s\<lparr>os_owner := own'\<rparr>) = results_ok s" "database_ok S d0 (s\<lparr>os_owner := own'\<rparr>) = database_ok S d0 s"
    "iv_request_signature own' = iv_request_signature (os_owner s)"
    by (simp_all add: own'(2) phase_ok_def authorised_def evaluation_ok_def results_ok_def database_ok_def Let_def)
  with own'(1) assms(1) show ?thesis by (simp add: owner_inv_def)
qed

lemma enter_initial_refuses: "enter_initial self = (self', Inl x) \<Longrightarrow> self' = self"
  by (auto simp: enter_initial_def split: if_splits)

lemma enter_reinvocation_refuses: "enter_reinvocation self = (self', Inl x) \<Longrightarrow> self' = self"
  by (auto simp: enter_reinvocation_def split: sum.splits option.splits reinvocation_evaluation.splits if_splits)

lemma step_inv:
  assumes "owner_step S s s'" and inv: "owner_inv S d0 sg s"
  shows "owner_inv S d0 sg s'"
  using assms(1)
proof cases
  case (Enter_initial own')
  then show ?thesis using inv_enter_initial [OF inv] by simp
next
  case (Refuse_initial own' x)
  then show ?thesis using enter_initial_refuses inv by fastforce
next
  case (Enter_reinvocation own')
  then show ?thesis using inv_enter_reinvocation [OF inv] by simp
next
  case (Refuse_reinvocation own' x)
  then show ?thesis using enter_reinvocation_refuses inv by fastforce
next
  case (Call_returns xs i ys eid vs now c' r)
  with inv_call [OF inv Call_returns(2-5)] show ?thesis by simp
next
  case (Call_raises xs i ys eid vs now c' x)
  with inv_call [OF inv Call_raises(2-5)] show ?thesis by simp
next
  case (Publish_initial xs r ys)
  with inv_publish_initial [OF inv] show ?thesis by simp
next
  case (Publish_reinvocation xs r ys)
  with inv_publish_reinvocation [OF inv] show ?thesis by simp
next
  case (Evaluate_response minted own' d)
  with inv_response [OF inv] show ?thesis by simp
next
  case (Evaluate_authority own' a)
  with inv_authority [OF inv] show ?thesis by simp
next
  case (Other_sessions c')
  with inv_other_sessions [OF inv] show ?thesis by simp
qed

lemma reach_inv: "owner_reach S s0 s \<Longrightarrow> owner_inv S d0 sg s0 \<Longrightarrow> owner_inv S d0 sg s"
  by (induction rule: owner_reach.induct) (auto intro: step_inv)

section \<open>The delivered response\<close>

definition selection_for :: "RuntimeDecisionResponse \<Rightarrow> PostgresWriteSideResult \<Rightarrow> selected_result" where
  "selection_for response r =
     (case response of
        USE_CURRENT_RESULT \<Rightarrow> SelectedResult r
      | RETURN_PRIOR_ACCEPTED_RESULT \<Rightarrow> (case wr_accepted_event r of Some e \<Rightarrow> SelectedEvent e | None \<Rightarrow> NoSelection)
      | _ \<Rightarrow> NoSelection)"

text \<open>The remembered request of a replay differs from the request of the owner.\<close>

definition foreign_record :: "RequestSignature \<Rightarrow> PostgresWriteSideResult \<Rightarrow> bool" where
  "foreign_record sg r \<longleftrightarrow> wr_outcome r = OUT_REPLAY
     \<and> (\<exists>rec. id_record (wr_idempotency_decision r) = Some rec \<and> \<not> RequestSignature_eq (rec_signature rec) sg)"

definition delivery_spec :: "RequestSignature \<Rightarrow> PostgresWriteSideResult \<Rightarrow> current_response_delivery res \<Rightarrow> bool" where
  "delivery_spec sg r d \<longleftrightarrow>
     (case governed_response r of
        None \<Rightarrow> \<exists>fb m. d = Inr (CurrentResponseRefusal r fb (PostgresWriteSideRuntimeDecisionRefused m))
      | Some response \<Rightarrow>
          if foreign_record sg r then \<exists>m. d = Inl (ValueError m)
          else \<exists>ev. d = Inr (CurrentResponseEvaluation r ev (selection_for response r)) \<and> rd_response (rde_decision ev) = response)"

lemma prior_event_cases:
  assumes "result_shape sg eid r" and "wr_outcome r = OUT_REPLAY"
  shows "if foreign_record sg r then \<exists>m. exact_prior_accepted_event sg r = Inl (ValueError m)
    else \<exists>e. wr_accepted_event r = Some e \<and> exact_prior_accepted_event sg r = Inr e"
  using assms by (auto simp: foreign_record_def exact_prior_accepted_event_def result_shape_def decision_shape_def)

lemma deliver_governed:
  assumes "answered sg eid r"
  shows "delivery_spec sg r (deliver_response sg oid r)"
proof -
  from assms have sh: "result_shape sg eid r"
    and acc: "wr_outcome r = OUT_ACCEPTED \<Longrightarrow> \<exists>e. wr_accepted_event r = Some e \<and> ev_order_id e = sig_order_id sg"
    by (auto simp: answered_def)
  obtain fb and m :: RuntimeTechnicalStatusMapping where fb: "map_postgres_write_side_result_to_semantic_rule_feedback oid r = Inr fb"
    "so_boundary (fb_semantic_outcome fb) = AT_LAYER_1_WRITE_SIDE" "so_category (fb_semantic_outcome fb) = tm_category m"
    "so_code (fb_semantic_outcome fb) = tm_code m"
    "fb_rule_refinement fb = (if wr_outcome r = OUT_VALIDATION_BLOCKED then observed_rule_violation r else None)"
    and resp: "map_of SUPPORTED_RESPONSES (AT_LAYER_1_WRITE_SIDE, tm_category m, tm_code m) = governed_response r"
    by (rule feedback_total [OF sh acc, of oid])
  have blocked: "fb_rule_refinement fb \<noteq> None \<Longrightarrow> governed_response r = Some BLOCK_CURRENT_CONTINUATION"
    using fb(5) by (auto simp: governed_response_def split: if_splits)
  note ev = evaluate_supported [OF fb(2), unfolded fb(3,4), OF resp blocked]
  show ?thesis
  proof (cases "governed_response r")
    case None
    with ev fb(1) show ?thesis by (auto simp: delivery_spec_def deliver_response_def)
  next
    case (Some response)
    with ev obtain e where e: "evaluate_postgres_write_side_runtime_decision fb = Inr e" "rd_response (rde_decision e) = response"
      by auto
    have run: "deliver_response sg oid r = CurrentResponseEvaluation_from_owner sg r e" by (simp add: deliver_response_def fb(1) e(1))
    show ?thesis
    proof (cases "response = RETURN_PRIOR_ACCEPTED_RESULT")
      case True
      with Some have "wr_outcome r = OUT_REPLAY" by (auto simp: governed_response_def split: PostgresWriteSideOutcome.splits if_splits)
      from prior_event_cases [OF sh this] Some True e(2) run show ?thesis
        by (auto simp: delivery_spec_def CurrentResponseEvaluation_from_owner_def selection_for_def split: if_splits)
    next
      case False
      with Some have "\<not> foreign_record sg r" by (auto simp: foreign_record_def governed_response_def)
      with False Some e(2) run show ?thesis
        by (cases response) (auto simp: delivery_spec_def CurrentResponseEvaluation_from_owner_def selection_for_def)
    qed
  qed
qed

text \<open>An evaluation is repeatable, and its answer is that of the current result under one identity.\<close>

lemma response_answer:
  assumes "response_ok self" and "iv_current_response_result self = Some r"
    and "evaluate_current_response self minted = (self', d)"
  shows "(\<exists>oid. d = deliver_response (iv_request_signature self) oid r) \<and> evaluate_current_response self' minted' = (self', d)"
proof (cases "iv_cached_current_response_delivery self")
  case None
  with assms show ?thesis
    by (cases "deliver_response (iv_request_signature self) (case iv_current_response_outcome_id self of Some i \<Rightarrow> i | None \<Rightarrow> minted) r")
       (auto simp: evaluate_current_response_def require_current_response_result_def Let_def split: sum.splits)
next
  case (Some x)
  with assms(1,2) obtain oid where "deliver_response (iv_request_signature self) oid r = Inr x" by (auto simp: response_ok_def)
  with Some assms show ?thesis
    by (auto simp: evaluate_current_response_def require_current_response_result_def intro!: exI [of _ oid])
qed

section \<open>Properties\<close>

text \<open>
  C2: One acceptance per owner. However any number of callers of one owner interleave, with each other,
  with the commits of other sessions and with failures, at most one caller is between entry and
  publication, the writer is called at most once initially and once more, the second call only
  after re-invocation authority was issued for the published first result, no row stays pending,
  the committed database is legal, and since the owner was made it changed by commits of other sessions and
  at most one accepted event of the request.
\<close>

theorem owner_accepts_once:
  assumes "conn_inv c" and "own c = empty_db" and "owner_reach S (new_owner_state sg w c) s"
  shows "length (os_callers s) \<le> 1 \<and> os_calls s \<in> {[], [Initial], [Reinvocation, Initial]}
    \<and> (Calling Reinvocation \<in> set (os_callers s) \<or> Reinvocation \<in> set (os_calls s) \<longrightarrow>
         (\<exists>r. iv_initial_result (os_owner s) = Some r
            \<and> evaluate_postgres_write_side_reinvocation_authority sg r = Inr (ReinvocationAuthorization sg)))
    \<and> legal_db (committed (os_conn s)) \<and> own (os_conn s) = empty_db
    \<and> (grows_by S (committed c) (committed (os_conn s))
       \<or> (\<exists>e d1. accepted_in S (committed c) sg e d1 \<and> grows_by S d1 (committed (os_conn s))))"
proof -
  from reach_inv [OF assms(3) inv_new [OF assms(1,2) refl]] have inv: "owner_inv S (committed c) sg s" .
  then have "legal_db (committed (os_conn s))" "own (os_conn s) = empty_db"
    "grows_by S (committed c) (committed (os_conn s)) \<or> accepted_once S (committed c) sg (committed (os_conn s))"
    by (auto simp: owner_inv_def database_ok_def conn_inv_def)
  moreover from inv have "length (os_callers s) \<le> 1" "os_calls s \<in> {[], [Initial], [Reinvocation, Initial]}"
    "Calling Reinvocation \<in> set (os_callers s) \<or> Reinvocation \<in> set (os_calls s) \<longrightarrow> authorised (os_owner s)"
    by (auto simp: owner_inv_def phase_ok_def Let_def split: if_splits)
  ultimately show ?thesis using inv by (simp add: accepted_once_def authorised_def owner_inv_def)
qed

text \<open>A run of an owner without interference: entry, call and publication.\<close>

lemma reach_initial:
  assumes "uuid_in eid = Some eid" and "schedule c = []" and "invoke_initial (new_invocation_owner sg w) c eid now = (own', c', Inr r)"
  shows "owner_reach S (new_owner_state sg w c) \<lparr>os_owner = own', os_conn = c', os_callers = [], os_calls = [Initial]\<rparr>"
proof -
  let ?own = "(new_invocation_owner sg w)\<lparr>iv_initial_invocation_started := True\<rparr>"
  let ?s1 = "(new_owner_state sg w c)\<lparr>os_owner := ?own, os_callers := [Calling Initial]\<rparr>"
  let ?s2 = "?s1\<lparr>os_conn := c', os_callers := [Returned Initial r], os_calls := [Initial]\<rparr>"
  have enter: "enter_initial (new_invocation_owner sg w) = (?own, Inr ())"
    by (simp add: enter_initial_def new_invocation_owner_def)
  with assms(3) have run: "dispatch_retained_request ?own c eid now = (c', Inr r)" "own' = publish_initial ?own r"
    by (auto simp: invoke_initial_def split: prod.splits sum.splits)
  have "owner_step S (new_owner_state sg w c) ?s1"
    using Enter_initial [of "new_owner_state sg w c" ?own S] enter by (simp add: new_owner_state_def)
  moreover have "c\<lparr>schedule := []\<rparr> = c" using assms(2) by (cases c) simp
  then have "owner_step S ?s1 ?s2"
    using Call_returns [of ?s1 "[]" Initial "[]" eid "[]" S now c' r] assms(1) run(1) by (simp add: new_owner_state_def)
  moreover have "owner_step S ?s2 (?s2\<lparr>os_owner := own', os_callers := []\<rparr>)"
    using Publish_initial [of ?s2 "[]" r "[]" S] run(2) by simp
  ultimately have "owner_reach S (new_owner_state sg w c) (?s2\<lparr>os_owner := own', os_callers := []\<rparr>)"
    by (meson owner_reach.intros)
  then show ?thesis by (simp add: new_owner_state_def)
qed

lemma invoke_initial_runs:
  assumes "durable_command w False c (retained_command sg eid now) = (c', Inr (Primary r))"
  shows "\<exists>own'. invoke_initial (new_invocation_owner sg w) c eid now = (own', c', Inr r) \<and> iv_current_response_result own' = Some r"
proof -
  let ?own = "(new_invocation_owner sg w)\<lparr>iv_initial_invocation_started := True\<rparr>"
  obtain c1 q where d: "dispatch_retained_request ?own c eid now = (c1, q)" by force
  from dispatch_is_command [OF d] assms have "c1 = c'" "q = Inr r"
    by (cases q; simp add: new_invocation_owner_def)+
  with d show ?thesis
    by (simp add: invoke_initial_def enter_initial_def new_invocation_owner_def publish_initial_def publish_current_response_result_def)
qed

lemma sample_retained: "retained_command (signature_of sample_command) (cmd_event_id sample_command) (cmd_now sample_command) = sample_command"
  by (simp add: retained_command_def signature_of_def)

lemma sample_owner_run:
  obtains own' c' r where "invoke_initial (new_invocation_owner (signature_of sample_command) (sample_write_side IN_TRANSACTION Optimistic))
      sample_conn (cmd_event_id sample_command) (cmd_now sample_command) = (own', c', Inr r)"
    and "wr_outcome r = OUT_ACCEPTED" and "iv_current_response_result own' = Some r"
    and "owner_reach {} (new_owner_state (signature_of sample_command) (sample_write_side IN_TRANSACTION Optimistic) sample_conn)
      \<lparr>os_owner = own', os_conn = c', os_callers = [], os_calls = [Initial]\<rparr>"
proof -
  obtain c' r where run: "durable_command (sample_write_side IN_TRANSACTION Optimistic) False sample_conn sample_command
      = (c', Inr (Primary r))" "wr_outcome r = OUT_ACCEPTED" by (rule sample_run)
  have "durable_command (sample_write_side IN_TRANSACTION Optimistic) False sample_conn
      (retained_command (signature_of sample_command) (cmd_event_id sample_command) (cmd_now sample_command)) = (c', Inr (Primary r))"
    by (simp only: sample_retained run(1))
  from invoke_initial_runs [OF this]
  obtain own' where own': "invoke_initial (new_invocation_owner (signature_of sample_command) (sample_write_side IN_TRANSACTION Optimistic))
      sample_conn (cmd_event_id sample_command) (cmd_now sample_command) = (own', c', Inr r)" "iv_current_response_result own' = Some r"
    by blast
  from that [OF own'(1) run(2) own'(2) reach_initial [OF sample_idle(4,3) own'(1)]] show ?thesis .
qed

theorem owner_accepts_once_witness:
  "\<exists>s. owner_reach {} (new_owner_state (signature_of sample_command) (sample_write_side IN_TRANSACTION Optimistic) sample_conn) s
     \<and> os_calls s = [Initial] \<and> legal_db (committed (os_conn s))"
proof -
  obtain own' c' where reach: "owner_reach {} (new_owner_state (signature_of sample_command) (sample_write_side IN_TRANSACTION Optimistic) sample_conn)
      \<lparr>os_owner = own', os_conn = c', os_callers = [], os_calls = [Initial]\<rparr>" by (rule sample_owner_run)
  from owner_accepts_once [OF sample_idle(1,2) reach] reach show ?thesis
    by (intro exI [of _ "\<lparr>os_owner = own', os_conn = c', os_callers = [], os_calls = [Initial]\<rparr>"]) simp
qed

text \<open>
  C17: The delivered response. In every state that callers of an owner can reach, evaluating the
  current response raises a lifecycle error when no result is published; otherwise it answers for
  exactly the published result: a typed refusal where no decision exists, the result itself, the
  prior accepted event, or no selection. The only other exception is a ValueError, for a replay whose remembered
  request is not equal to the request of the owner. Repeating the evaluation gives the same answer
  and changes nothing, also after an exception, whatever identity would be minted.
\<close>

theorem owner_delivers_governed_response:
  assumes "conn_inv c" and "own c = empty_db" and "owner_reach S (new_owner_state sg w c) s"
    and "evaluate_current_response (os_owner s) minted = (own', d)"
  shows "case iv_current_response_result (os_owner s) of
      None \<Rightarrow> own' = os_owner s \<and> (\<exists>m. d = Inl (RuntimeError m))
    | Some r \<Rightarrow> delivery_spec sg r d \<and> (\<forall>minted'. evaluate_current_response own' minted' = (own', d))"
proof (cases "iv_current_response_result (os_owner s)")
  case None
  with assms(4) show ?thesis by (auto simp: evaluate_current_response_def require_current_response_result_def)
next
  case (Some r)
  from reach_inv [OF assms(3) inv_new [OF assms(1,2) refl]] have "owner_inv S (committed c) sg s" .
  with Some have ok: "response_ok (os_owner s)" "writer_result sg r" "iv_request_signature (os_owner s) = sg"
    by (auto simp: owner_inv_def results_ok_def)
  from ok(2) obtain eid where "answered sg eid r" by (auto simp: writer_result_def)
  from response_answer [OF ok(1) Some assms(4)] deliver_governed [OF this] ok(3) Some show ?thesis by auto
qed

theorem owner_delivers_governed_response_witness:
  "\<exists>own c' r own' ev. invoke_initial (new_invocation_owner (signature_of sample_command) (sample_write_side IN_TRANSACTION Optimistic))
      sample_conn (cmd_event_id sample_command) (cmd_now sample_command) = (own, c', Inr r)
     \<and> evaluate_current_response own ''x'' = (own', Inr (CurrentResponseEvaluation r ev (SelectedResult r)))
     \<and> evaluate_current_response own' ''y'' = (own', Inr (CurrentResponseEvaluation r ev (SelectedResult r)))"
proof -
  obtain own1 c' r where run: "invoke_initial (new_invocation_owner (signature_of sample_command) (sample_write_side IN_TRANSACTION Optimistic))
      sample_conn (cmd_event_id sample_command) (cmd_now sample_command) = (own1, c', Inr r)"
    "wr_outcome r = OUT_ACCEPTED" "iv_current_response_result own1 = Some r"
    and reach: "owner_reach {} (new_owner_state (signature_of sample_command) (sample_write_side IN_TRANSACTION Optimistic) sample_conn)
      \<lparr>os_owner = own1, os_conn = c', os_callers = [], os_calls = [Initial]\<rparr>" by (rule sample_owner_run)
  obtain own2 d where ev: "evaluate_current_response own1 ''x'' = (own2, d)" by force
  from owner_delivers_governed_response [OF sample_idle(1,2) reach, of "''x''" own2 d] ev run
  show ?thesis by (auto simp: delivery_spec_def governed_response_def foreign_record_def selection_for_def)
qed

text \<open>
  C18: Recovering an accepted request. When a request was accepted, a new owner for the same request, on an undisturbed connection
  to the database left by the acceptance, gets the accepted event as its selected result without
  changing anything, provided that the amount of the request equals its normalised amount. For
  an amount with more than two decimals the writer answers REPLAY as well, but evaluating the response
  raises a ValueError, each time, and no response is delivered.
\<close>

theorem new_owner_recovers_acceptance:
  assumes "accepted_in S d0 sg e (committed c)" and "quiet c"
    and "invoke_initial (new_invocation_owner sg w) c eid now = (own', c', res)"
  shows "c' = c \<and> (\<exists>r. res = Inr r \<and> wr_outcome r = OUT_REPLAY \<and>
    (if dec_eq (ev_amount e) (sig_amount sg)
     then \<exists>ev. snd (evaluate_current_response own' minted) = Inr (CurrentResponseEvaluation r ev (SelectedEvent e))
     else \<exists>m. snd (evaluate_current_response own' minted) = Inl (ValueError m)))"
proof -
  let ?cmd = "retained_command sg eid now" and ?rec = "\<lparr>rec_signature = normal_signature sg, rec_accepted_event = e\<rparr>"
  from assms(1) have e: "signature_for sg e" "lookup_request (committed c) (sig_request_id sg) = Some ?rec"
    and d: "legal_db (db_plus (committed c) empty_db)" by (auto simp: accepted_in_def)
  obtain rec where "lookup_request (db_plus (committed c) empty_db) (sig_request_id sg) = Some rec" "same_fingerprint (rec_signature rec) sg"
    by (rule accepted_remembered [OF assms(1) d])
  with e(2) have fp: "same_fingerprint (rec_signature ?rec) (signature_of ?cmd)" by simp
  obtain r where r: "durable_command w False c ?cmd = (c, Inr (Primary r))" "wr_outcome r = OUT_REPLAY"
    "wr_accepted_event r = Some e" "id_record (wr_idempotency_decision r) = Some ?rec"
    using quiet_run_replays [OF assms(2) _ fp, of w thesis] e(2) by (auto simp: retained_command_def)
  from invoke_initial_runs [OF r(1)] assms(3) have run: "c' = c" "res = Inr r" by auto
  from assms(2) have c: "conn_inv c" "own c = empty_db" by (simp_all add: quiet_def)
  have "answered sg eid r" using durable_command_shape [OF c r(1)] r(2) by (simp add: answered_def)
  then have spec: "delivery_spec sg r (deliver_response sg minted r)" by (rule deliver_governed)
  have own': "iv_current_response_result own' = Some r" "iv_cached_current_response_delivery own' = None"
    "iv_current_response_outcome_id own' = None" "iv_request_signature own' = sg"
    using assms(3) run by (auto simp: invoke_initial_def enter_initial_def new_invocation_owner_def publish_initial_def
        publish_current_response_result_def split: prod.splits sum.splits)
  have "snd (evaluate_current_response own' minted) = deliver_response sg minted r"
    by (simp add: evaluate_current_response_def require_current_response_result_def own' Let_def split: sum.splits)
  moreover have "foreign_record sg r \<longleftrightarrow> \<not> dec_eq (ev_amount e) (sig_amount sg)"
    using e(1) r(2,4) by (auto simp: foreign_record_def RequestSignature_eq_def normal_signature_def signature_for_def
        ensure_positive_money_def res_simps split: sum.splits if_splits)
  ultimately show ?thesis using run spec r(2,3)
    by (auto simp: delivery_spec_def governed_response_def selection_for_def)
qed

text \<open>A request for 10.001 is accepted as 10.00; the next owner of the same request gets no response.\<close>

definition fine_command :: command where
  "fine_command = sample_command\<lparr>cmd_amount := Dec False 10001 (- 3)\<rparr>"

lemma fine_acceptable: "acceptable (committed sample_conn) fine_command (Dec False 1000 (- 2))"
proof -
  have "ensure_positive_money (MDecimal (Dec False 10001 (- 3))) = Inr (Dec False 1000 (- 2))"
    by (simp add: ensure_positive_money_def normalize_money_def money_eval dec_scaled_def)
  with sample_acceptable show ?thesis
    by (simp add: acceptable_def fine_command_def storable_command_def)
qed

theorem new_owner_recovers_acceptance_witness:
  "\<exists>c own' r m. quiet c \<and> invoke_initial (new_invocation_owner (signature_of fine_command) (sample_write_side IN_TRANSACTION Optimistic))
       c ''e2'' 7 = (own', c, Inr r)
     \<and> wr_outcome r = OUT_REPLAY \<and> snd (evaluate_current_response own' ''x'') = Inl (ValueError m)"
proof -
  let ?w = "sample_write_side IN_TRANSACTION Optimistic" and ?sg = "signature_of fine_command"
  obtain c' r where run: "durable_command ?w False sample_conn fine_command = (c', Inr (Primary r))" "wr_outcome r = OUT_ACCEPTED"
    "schedule c' = []"
    by (rule quiet_run_accepts [OF sample_quiet fine_acceptable, of ?w STRICT]) (auto simp: sample_write_side_def)
  have id: "uuid_in (cmd_event_id fine_command) = Some (cmd_event_id fine_command)"
    using sample_idle(4) by (simp add: fine_command_def)
  from durable_command_post [OF sample_idle(1,2) id run(1)] run obtain e where q: "quiet c'"
    and acc: "accepted_in {} (committed sample_conn) ?sg e (committed c')"
    by (auto simp: command_post_def quiet_def sample_idle(3))
  have "ev_amount e = Dec False 1000 (- 2)" "sig_amount ?sg = Dec False 10001 (- 3)"
    using acc fine_acceptable by (auto simp: accepted_in_def signature_for_def acceptable_def storable_command_def signature_of_def fine_command_def)
  then have "\<not> dec_eq (ev_amount e) (sig_amount ?sg)" by (simp add: dec_scaled_def)
  moreover obtain own' c2 res where i: "invoke_initial (new_invocation_owner ?sg ?w) c' ''e2'' 7 = (own', c2, res)"
    by (metis prod.exhaust)
  ultimately show ?thesis using new_owner_recovers_acceptance [OF acc q i, of "''x''"] q by auto
qed

end
