(* ===== verification/Receipt_Store.thy ===== *)
theory Receipt_Store
  imports Receipt_Serialization
begin

text \<open>
  The durable store of decision receipts: storage/decision_receipt_store.py and
  storage/postgres_decision_receipt_store.py, on the table \<open>decision_receipts\<close> of migration 007.
  A connection sees the committed rows and its own; before each statement other sessions may commit
  rows that the constraints of the table admit, and any statement may fail. \<open>JSONB\<close> columns
  reorder the keys of every object; what becomes of a Python float in such a column is a parameter.
\<close>

section \<open>The persistence envelope\<close>

datatype DecisionReceiptMaterializationProvenance = LIVE_RESULT | ACCEPTED_HISTORY_RECONCILIATION

fun DecisionReceiptMaterializationProvenance_value :: "DecisionReceiptMaterializationProvenance \<Rightarrow> string" where
  "DecisionReceiptMaterializationProvenance_value LIVE_RESULT = ''LIVE_RESULT''"
| "DecisionReceiptMaterializationProvenance_value ACCEPTED_HISTORY_RECONCILIATION = ''ACCEPTED_HISTORY_RECONCILIATION''"

definition DecisionReceiptMaterializationProvenance_members :: "DecisionReceiptMaterializationProvenance list" where
  "DecisionReceiptMaterializationProvenance_members = [LIVE_RESULT, ACCEPTED_HISTORY_RECONCILIATION]"

definition DecisionReceiptMaterializationProvenance_of :: "string \<Rightarrow> DecisionReceiptMaterializationProvenance option" where
  "DecisionReceiptMaterializationProvenance_of =
     enum_of DecisionReceiptMaterializationProvenance_value DecisionReceiptMaterializationProvenance_members"

interpretation provenance_enum: str_enum DecisionReceiptMaterializationProvenance_value
  DecisionReceiptMaterializationProvenance_members DecisionReceiptMaterializationProvenance_of
proof
  fix m
  show "m \<in> set DecisionReceiptMaterializationProvenance_members"
    by (cases m) (simp_all add: DecisionReceiptMaterializationProvenance_members_def)
qed (simp_all add: DecisionReceiptMaterializationProvenance_members_def DecisionReceiptMaterializationProvenance_of_def)

datatype DecisionReceiptInsertStatus = INSERTED | ALREADY_PRESENT

text \<open>A \<open>timestamptz\<close> is read as a timezone-aware datetime, here its instant.\<close>

record PersistedDecisionReceipt =
  pr_receipt :: DecisionReceipt
  pr_receipt_serialization_version :: int
  pr_materialization_provenance :: DecisionReceiptMaterializationProvenance
  pr_materialized_at :: int

definition PersistedDecisionReceipt_init :: "PersistedDecisionReceipt \<Rightarrow> PersistedDecisionReceipt res" where
  "PersistedDecisionReceipt_init self =
     bind_res (require (pr_receipt_serialization_version self = 1)
       (ValueError ''receipt_serialization_version must be 1'')) (\<lambda>_. Inr self)"

record DecisionReceiptInsertResult =
  ir_status :: DecisionReceiptInsertStatus
  ir_record :: PersistedDecisionReceipt

datatype DecisionReceiptConflictCategory = RECEIPT_ID_CONTENT_CONFLICT | ACCEPTED_PRODUCER_IDENTITY_CONFLICT

text \<open>The exceptions of this boundary: a typed conflict, an error of the driver with its SQLSTATE and
  whether it is the class of the idle-owner timeout, and any other exception.\<close>

datatype receipt_error =
    ReceiptConflict DecisionReceiptConflictCategory string "string option"
  | Driver_error "string option" bool
  | Python_error exc

type_synonym 'a rres = "receipt_error + 'a"

definition py :: "'a res \<Rightarrow> 'a rres" where
  "py r = map_sum Python_error id r"

definition DecisionReceiptConflictError_init ::
  "DecisionReceiptConflictCategory \<Rightarrow> string \<Rightarrow> string option \<Rightarrow> receipt_error" where
  "DecisionReceiptConflictError_init category receipt_id accepted_event_id =
     (if category = ACCEPTED_PRODUCER_IDENTITY_CONFLICT \<and> accepted_event_id = None
      then Python_error (ValueError ''accepted_event_id is required for an accepted producer conflict'')
      else ReceiptConflict category receipt_id accepted_event_id)"

section \<open>The table\<close>

record receipt_row =
  rr_receipt_id :: string
  rr_receipt_serialization_version :: int
  rr_outcome_id :: string
  rr_ok :: bool
  rr_boundary :: string
  rr_category :: string
  rr_semantic_code :: string
  rr_severity :: string
  rr_risk_level :: string
  rr_reversibility :: string
  rr_reason :: string
  rr_evidence_source :: string
  rr_subject_type :: string
  rr_subject_id :: "string option"
  rr_order_id :: "string option"
  rr_request_id :: "string option"
  rr_candidate_event_id :: "string option"
  rr_accepted_event_id :: "string option"
  rr_snapshot_id :: "string option"
  rr_source_global_position :: "int option"
  rr_identity_source :: string
  rr_actor_id :: "string option"
  rr_actor_role :: "string option"
  rr_runtime_role :: "string option"
  rr_elapsed_ms :: "int option"
  rr_validation_elapsed_ms :: "int option"
  rr_replay_elapsed_ms :: "int option"
  rr_transaction_elapsed_ms :: "int option"
  rr_lock_wait_ms :: "int option"
  rr_fallback_required :: string
  rr_rebuild_required :: string
  rr_operator_review_required :: string
  rr_retry_candidate :: string
  rr_admission_disposition :: "string option"
  rr_evidence_summary :: json_object
  rr_metadata :: json_object
  rr_materialization_provenance :: string
  rr_materialized_at :: int

text \<open>A \<open>JSONB\<close> document: no NUL in strings, keys in the order of their length and then bytewise.\<close>

definition key_text :: "pyval \<times> pyval \<Rightarrow> string" where
  "key_text p = (case fst p of VStr k \<Rightarrow> k | _ \<Rightarrow> [])"

definition jsonb_order :: "json_object \<Rightarrow> json_object" where
  "jsonb_order kvs = sort_key (\<lambda>p. length (key_text p)) (sort_key key_text kvs)"

fun jsonb_in :: "(pyval \<Rightarrow> pyval) \<Rightarrow> pyval \<Rightarrow> pyval option"
  and jsonb_pairs :: "(pyval \<Rightarrow> pyval) \<Rightarrow> json_object \<Rightarrow> json_object option"
  and jsonb_items :: "(pyval \<Rightarrow> pyval) \<Rightarrow> pyval list \<Rightarrow> pyval list option" where
  "jsonb_in float_io (VStr s) = map_option VStr (text_in s)"
| "jsonb_in float_io (VDict kvs) = map_option (\<lambda>kus. VDict (jsonb_order kus)) (jsonb_pairs float_io kvs)"
| "jsonb_in float_io (VList xs) = map_option VList (jsonb_items float_io xs)"
| "jsonb_in float_io (VTuple xs) = map_option VList (jsonb_items float_io xs)"
| "jsonb_in float_io (VFloat fin n) = Some (float_io (VFloat fin n))"
| "jsonb_in float_io v = Some v"
| "jsonb_pairs float_io [] = Some []"
| "jsonb_pairs float_io ((k, v) # kvs) =
     (case k of
        VStr t \<Rightarrow> (case (text_in t, jsonb_in float_io v) of
            (Some t', Some u) \<Rightarrow> map_option ((#) (VStr t', u)) (jsonb_pairs float_io kvs)
          | _ \<Rightarrow> None)
      | _ \<Rightarrow> None)"
| "jsonb_items float_io [] = Some []"
| "jsonb_items float_io (v # vs) =
     (case jsonb_in float_io v of None \<Rightarrow> None | Some u \<Rightarrow> map_option ((#) u) (jsonb_items float_io vs))"

definition jsonb_object_in :: "(pyval \<Rightarrow> pyval) \<Rightarrow> json_object \<Rightarrow> json_object option" where
  "jsonb_object_in float_io m = map_option jsonb_order (jsonb_pairs float_io m)"

text \<open>The CHECK constraints.\<close>

definition opt_checked :: "('a \<Rightarrow> bool) \<Rightarrow> 'a option \<Rightarrow> bool" where
  "opt_checked P v = (case v of None \<Rightarrow> True | Some x \<Rightarrow> P x)"

definition admission_identity_alignment :: "receipt_row \<Rightarrow> bool" where
  "admission_identity_alignment row =
     (case rr_admission_disposition row of
        None \<Rightarrow> True
      | Some d \<Rightarrow>
          d = ''UNKNOWN''
          \<or> d = ''ADMITTED_TO_ACCEPTED_HISTORY'' \<and> rr_candidate_event_id row \<noteq> None \<and> rr_accepted_event_id row \<noteq> None
             \<and> rr_candidate_event_id row = rr_accepted_event_id row
          \<or> d \<in> set [''MATCHED_EXISTING_ACCEPTED_EVENT'', ''IDEMPOTENCY_CONFLICT_WITH_ACCEPTED_HISTORY'']
             \<and> rr_accepted_event_id row \<noteq> None
          \<or> d \<in> set [''SEMANTIC_ADMISSION_REJECTED'', ''APPEND_CONCURRENCY_CONFLICT'', ''APPEND_TECHNICAL_FAILURE'', ''COMMIT_OUTCOME_UNRESOLVED'']
             \<and> rr_candidate_event_id row \<noteq> None \<and> rr_accepted_event_id row = None
          \<or> d = ''APPEND_ADMISSION_NOT_REACHED'' \<and> rr_accepted_event_id row = None)"

definition receipt_row_checks :: "receipt_row \<Rightarrow> bool" where
  "receipt_row_checks row \<longleftrightarrow>
     rr_receipt_serialization_version row = 1
     \<and> SemanticBoundary_of (rr_boundary row) \<noteq> None \<and> SemanticOutcomeCategory_of (rr_category row) \<noteq> None
     \<and> SemanticOutcomeCode_of (rr_semantic_code row) \<noteq> None \<and> SemanticSeverity_of (rr_severity row) \<noteq> None
     \<and> SemanticRiskLevel_of (rr_risk_level row) \<noteq> None \<and> SemanticReversibility_of (rr_reversibility row) \<noteq> None
     \<and> DecisionReceiptEvidenceSource_of (rr_evidence_source row) \<noteq> None
     \<and> DecisionReceiptSubjectType_of (rr_subject_type row) \<noteq> None
     \<and> DecisionReceiptIdentitySource_of (rr_identity_source row) \<noteq> None
     \<and> list_all (\<lambda>f. DecisionReceiptFlagState_of f \<noteq> None)
         [rr_fallback_required row, rr_rebuild_required row, rr_operator_review_required row, rr_retry_candidate row]
     \<and> opt_checked (\<lambda>d. EventAdmissionDisposition_of d \<noteq> None) (rr_admission_disposition row)
     \<and> DecisionReceiptMaterializationProvenance_of (rr_materialization_provenance row) \<noteq> None
     \<and> sql_not_blank (rr_reason row)
     \<and> list_all (opt_checked sql_not_blank)
         [rr_subject_id row, rr_order_id row, rr_request_id row, rr_actor_id row, rr_actor_role row, rr_runtime_role row]
     \<and> list_all (opt_checked (\<lambda>i. 0 \<le> i))
         [rr_source_global_position row, rr_elapsed_ms row, rr_validation_elapsed_ms row, rr_replay_elapsed_ms row,
          rr_transaction_elapsed_ms row, rr_lock_wait_ms row]
     \<and> admission_identity_alignment row"

text \<open>The rows of the partial unique index.\<close>

definition admitted_write_side_event :: "receipt_row \<Rightarrow> string option" where
  "admitted_write_side_event row =
     (if rr_evidence_source row = ''WRITE_SIDE_ADMISSION'' \<and> rr_admission_disposition row = Some ''ADMITTED_TO_ACCEPTED_HISTORY''
      then rr_accepted_event_id row else None)"

definition receipts_ok :: "receipt_row list \<Rightarrow> string list \<Rightarrow> bool" where
  "receipts_ok rows events \<longleftrightarrow>
     distinct (map rr_receipt_id rows)
     \<and> distinct (List.map_filter admitted_write_side_event rows)
     \<and> list_all receipt_row_checks rows
     \<and> list_all (\<lambda>r. opt_checked (\<lambda>e. e \<in> set events) (rr_accepted_event_id r)) rows"

section \<open>Connections\<close>

datatype receipt_event =
    R_Quiet
  | R_Other "receipt_row list" "string list"
  | R_Fails receipt_error
  | R_Ack_lost receipt_error

text \<open>\<open>rc_autocommit\<close>, \<open>rc_idle\<close>, \<open>rc_rollback\<close> and \<open>rc_close\<close> are what reading the property or
  calling the method gives.\<close>

record receipt_conn =
  rc_committed :: "receipt_row list"
  rc_events :: "string list"
  rc_own :: "receipt_row list"
  rc_schedule :: "receipt_event list"
  rc_autocommit :: "bool rres"
  rc_idle :: "bool rres"
  rc_rollback :: "unit rres"
  rc_close :: "unit rres"

type_synonym 'a rc = "receipt_conn \<Rightarrow> receipt_conn \<times> 'a rres"

definition rc_visible :: "receipt_conn \<Rightarrow> receipt_row list" where
  "rc_visible c = rc_committed c @ rc_own c"

definition rc_foreign :: "receipt_conn \<Rightarrow> receipt_row list \<Rightarrow> string list \<Rightarrow> receipt_conn" where
  "rc_foreign c rows events =
     (if receipts_ok (rc_committed c @ rows @ rc_own c) (rc_events c @ events)
      then c\<lparr>rc_committed := rc_committed c @ rows, rc_events := rc_events c @ events\<rparr> else c)"

definition rc_take :: "receipt_conn \<Rightarrow> receipt_conn \<times> receipt_event" where
  "rc_take c = (case rc_schedule c of [] \<Rightarrow> (c, R_Quiet) | v # vs \<Rightarrow> (c\<lparr>rc_schedule := vs\<rparr>, v))"

definition rc_statement :: "unit rc" where
  "rc_statement c =
     (case rc_take c of
        (c1, R_Fails x) \<Rightarrow> (c1, Inl x)
      | (c1, R_Ack_lost x) \<Rightarrow> (c1, Inl x)
      | (c1, R_Other rows events) \<Rightarrow> (rc_foreign c1 rows events, Inr ())
      | (c1, R_Quiet) \<Rightarrow> (c1, Inr ()))"

definition rc_bind :: "'a rc \<Rightarrow> ('a \<Rightarrow> 'b rc) \<Rightarrow> 'b rc" where
  "rc_bind m f c = (case m c of (c1, Inl x) \<Rightarrow> (c1, Inl x) | (c1, Inr a) \<Rightarrow> f a c1)"

definition rc_lift :: "'a rres \<Rightarrow> 'a rc" where
  "rc_lift r c = (c, r)"

text \<open>\<open>INSERT ... ON CONFLICT DO NOTHING RETURNING\<close>: the checks, then the unique indexes, then the
  foreign key.\<close>

definition insert_receipt_row :: "receipt_row option \<Rightarrow> receipt_row option rc" where
  "insert_receipt_row columns =
     rc_bind rc_statement (\<lambda>_ c.
       case columns of
         None \<Rightarrow> (c, Inl (Driver_error None False))
       | Some row \<Rightarrow>
           if \<not> receipt_row_checks row then (c, Inl (Driver_error (Some ''23514'') False))
           else if rr_receipt_id row \<in> set (map rr_receipt_id (rc_visible c))
             \<or> admitted_write_side_event row \<noteq> None \<and> admitted_write_side_event row \<in> set (map admitted_write_side_event (rc_visible c))
           then (c, Inr None)
           else if \<not> opt_checked (\<lambda>e. e \<in> set (rc_events c)) (rr_accepted_event_id row)
           then (c, Inl (Driver_error (Some ''23503'') False))
           else (c\<lparr>rc_own := rc_own c @ [row]\<rparr>, Inr (Some row)))"

definition select_receipt :: "(receipt_row \<Rightarrow> bool) \<Rightarrow> receipt_row option rc" where
  "select_receipt P = rc_bind rc_statement (\<lambda>_ c. (c, Inr (find P (rc_visible c))))"

section \<open>PostgresDecisionReceiptStore\<close>

definition serialized_receipt_body :: "json_object \<Rightarrow> json_object res" where
  "serialized_receipt_body payload =
     (if item payload ''receipt_serialization_version'' \<noteq> VInt DECISION_RECEIPT_SERIALIZATION_VERSION
      then Inl (ValueError ''serialized receipt version must be 1'')
      else case item payload ''receipt'' of
        VDict receipt_body \<Rightarrow> Inr receipt_body
      | _ \<Rightarrow> Inl (TypeError ''serialized receipt body must be a mapping''))"

definition serialized_json_object :: "pyval \<Rightarrow> string \<Rightarrow> json_object res" where
  "serialized_json_object v field_name =
     (case v of VDict m \<Rightarrow> Inr m | _ \<Rightarrow> Inl (TypeError (''serialized '' @ field_name @ '' must be a mapping'')))"

text \<open>The values of the statement as the columns take them: UUIDs and enum values are valid, text must
  not hold a NUL, and the integers of a serialised receipt fit \<open>BIGINT\<close>.\<close>

definition opt_in :: "('a \<Rightarrow> 'b option) \<Rightarrow> 'a option \<Rightarrow> 'b option option" where
  "opt_in f v = (case v of None \<Rightarrow> Some None | Some x \<Rightarrow> map_option Some (f x))"

abbreviation opt_bind :: "'a option \<Rightarrow> ('a \<Rightarrow> 'b option) \<Rightarrow> 'b option" where
  "opt_bind \<equiv> Option.bind"

definition receipt_to_row ::
  "(pyval \<Rightarrow> pyval) \<Rightarrow> int \<Rightarrow> DecisionReceipt \<Rightarrow> json_object \<Rightarrow> json_object \<Rightarrow> DecisionReceiptMaterializationProvenance
   \<Rightarrow> receipt_row option" where
  "receipt_to_row float_io now_ms receipt evidence_summary metadata materialization_provenance =
     opt_bind (text_in (dr_reason receipt)) (\<lambda>reason.
     opt_bind (opt_in text_in (ds_subject_id (dr_subject receipt))) (\<lambda>subject_id.
     opt_bind (opt_in text_in (dc_order_id (dr_correlation receipt))) (\<lambda>order_id.
     opt_bind (opt_in text_in (dc_request_id (dr_correlation receipt))) (\<lambda>request_id.
     opt_bind (opt_in int8_in (dc_source_global_position (dr_correlation receipt))) (\<lambda>source_global_position.
     opt_bind (opt_in text_in (da_actor_id (dr_actor receipt))) (\<lambda>actor_id.
     opt_bind (opt_in text_in (da_actor_role (dr_actor receipt))) (\<lambda>actor_role.
     opt_bind (opt_in text_in (da_runtime_role (dr_actor receipt))) (\<lambda>runtime_role.
     opt_bind (opt_in int8_in (dk_elapsed_ms (dr_cost_summary receipt))) (\<lambda>elapsed_ms.
     opt_bind (opt_in int8_in (dk_validation_elapsed_ms (dr_cost_summary receipt))) (\<lambda>validation_elapsed_ms.
     opt_bind (opt_in int8_in (dk_replay_elapsed_ms (dr_cost_summary receipt))) (\<lambda>replay_elapsed_ms.
     opt_bind (opt_in int8_in (dk_transaction_elapsed_ms (dr_cost_summary receipt))) (\<lambda>transaction_elapsed_ms.
     opt_bind (opt_in int8_in (dk_lock_wait_ms (dr_cost_summary receipt))) (\<lambda>lock_wait_ms.
     opt_bind (jsonb_object_in float_io evidence_summary) (\<lambda>evidence_summary.
     opt_bind (jsonb_object_in float_io metadata) (\<lambda>metadata.
       Some \<lparr>rr_receipt_id = dr_receipt_id receipt,
         rr_receipt_serialization_version = DECISION_RECEIPT_SERIALIZATION_VERSION,
         rr_outcome_id = dr_outcome_id receipt, rr_ok = dr_ok receipt,
         rr_boundary = SemanticBoundary_value (dr_boundary receipt),
         rr_category = SemanticOutcomeCategory_value (dr_category receipt),
         rr_semantic_code = SemanticOutcomeCode_value (dr_semantic_code receipt),
         rr_severity = SemanticSeverity_value (dr_severity receipt),
         rr_risk_level = SemanticRiskLevel_value (dr_risk_level receipt),
         rr_reversibility = SemanticReversibility_value (dr_reversibility receipt), rr_reason = reason,
         rr_evidence_source = DecisionReceiptEvidenceSource_value (dr_evidence_source receipt),
         rr_subject_type = DecisionReceiptSubjectType_value (ds_subject_type (dr_subject receipt)),
         rr_subject_id = subject_id, rr_order_id = order_id, rr_request_id = request_id,
         rr_candidate_event_id = dc_candidate_event_id (dr_correlation receipt),
         rr_accepted_event_id = dc_accepted_event_id (dr_correlation receipt),
         rr_snapshot_id = dc_snapshot_id (dr_correlation receipt),
         rr_source_global_position = source_global_position,
         rr_identity_source = DecisionReceiptIdentitySource_value (dc_identity_source (dr_correlation receipt)),
         rr_actor_id = actor_id, rr_actor_role = actor_role, rr_runtime_role = runtime_role,
         rr_elapsed_ms = elapsed_ms, rr_validation_elapsed_ms = validation_elapsed_ms,
         rr_replay_elapsed_ms = replay_elapsed_ms, rr_transaction_elapsed_ms = transaction_elapsed_ms,
         rr_lock_wait_ms = lock_wait_ms,
         rr_fallback_required = DecisionReceiptFlagState_value (df_fallback_required (dr_flags receipt)),
         rr_rebuild_required = DecisionReceiptFlagState_value (df_rebuild_required (dr_flags receipt)),
         rr_operator_review_required = DecisionReceiptFlagState_value (df_operator_review_required (dr_flags receipt)),
         rr_retry_candidate = DecisionReceiptFlagState_value (df_retry_candidate (dr_flags receipt)),
         rr_admission_disposition =
           map_option (\<lambda>e. EventAdmissionDisposition_value (dae_disposition e)) (dr_admission_evidence receipt),
         rr_evidence_summary = evidence_summary, rr_metadata = metadata,
         rr_materialization_provenance = DecisionReceiptMaterializationProvenance_value materialization_provenance,
         rr_materialized_at = now_ms\<rparr>)))))))))))))))"

definition stored_enum :: "(string \<Rightarrow> 'a option) \<Rightarrow> string \<Rightarrow> 'a res" where
  "stored_enum read v = (case read v of Some m \<Rightarrow> Inr m | None \<Rightarrow> Inl (ValueError (v @ '' is not a valid member'')))"

definition receipt_from_row :: "receipt_row \<Rightarrow> DecisionReceiptAdmissionEvidence option \<Rightarrow> DecisionReceipt res" where
  "receipt_from_row row admission_evidence =
     bind_res (stored_enum SemanticBoundary_of (rr_boundary row)) (\<lambda>boundary.
     bind_res (stored_enum SemanticOutcomeCategory_of (rr_category row)) (\<lambda>category.
     bind_res (stored_enum SemanticOutcomeCode_of (rr_semantic_code row)) (\<lambda>semantic_code.
     bind_res (stored_enum SemanticSeverity_of (rr_severity row)) (\<lambda>severity.
     bind_res (stored_enum SemanticRiskLevel_of (rr_risk_level row)) (\<lambda>risk_level.
     bind_res (stored_enum SemanticReversibility_of (rr_reversibility row)) (\<lambda>reversibility.
     bind_res (stored_enum DecisionReceiptEvidenceSource_of (rr_evidence_source row)) (\<lambda>evidence_source.
     bind_res (stored_enum DecisionReceiptSubjectType_of (rr_subject_type row)) (\<lambda>subject_type.
     bind_res (DecisionReceiptSubject_init \<lparr>ds_subject_type = subject_type, ds_subject_id = rr_subject_id row\<rparr>) (\<lambda>subject.
     bind_res (stored_enum DecisionReceiptIdentitySource_of (rr_identity_source row)) (\<lambda>identity_source.
     bind_res (DecisionReceiptCorrelation_init \<lparr>dc_order_id = rr_order_id row, dc_request_id = rr_request_id row,
         dc_candidate_event_id = rr_candidate_event_id row, dc_accepted_event_id = rr_accepted_event_id row,
         dc_snapshot_id = rr_snapshot_id row, dc_source_global_position = rr_source_global_position row,
         dc_identity_source = identity_source\<rparr>) (\<lambda>correlation.
     bind_res (DecisionReceiptActor_init \<lparr>da_actor_id = rr_actor_id row, da_actor_role = rr_actor_role row,
         da_runtime_role = rr_runtime_role row\<rparr>) (\<lambda>actor.
     bind_res (DecisionReceiptCostSummary_init \<lparr>dk_elapsed_ms = rr_elapsed_ms row,
         dk_validation_elapsed_ms = rr_validation_elapsed_ms row, dk_replay_elapsed_ms = rr_replay_elapsed_ms row,
         dk_transaction_elapsed_ms = rr_transaction_elapsed_ms row, dk_lock_wait_ms = rr_lock_wait_ms row\<rparr>) (\<lambda>cost_summary.
     bind_res (stored_enum DecisionReceiptFlagState_of (rr_fallback_required row)) (\<lambda>fallback_required.
     bind_res (stored_enum DecisionReceiptFlagState_of (rr_rebuild_required row)) (\<lambda>rebuild_required.
     bind_res (stored_enum DecisionReceiptFlagState_of (rr_operator_review_required row)) (\<lambda>operator_review_required.
     bind_res (stored_enum DecisionReceiptFlagState_of (rr_retry_candidate row)) (\<lambda>retry_candidate.
       DecisionReceipt_init \<lparr>dr_receipt_id = rr_receipt_id row, dr_outcome_id = rr_outcome_id row, dr_ok = rr_ok row,
         dr_boundary = boundary, dr_category = category, dr_semantic_code = semantic_code, dr_severity = severity,
         dr_risk_level = risk_level, dr_reversibility = reversibility, dr_reason = rr_reason row,
         dr_evidence_source = evidence_source, dr_subject = subject, dr_correlation = correlation, dr_actor = actor,
         dr_cost_summary = cost_summary,
         dr_flags = \<lparr>df_fallback_required = fallback_required, df_rebuild_required = rebuild_required,
           df_operator_review_required = operator_review_required, df_retry_candidate = retry_candidate\<rparr>,
         dr_admission_evidence = admission_evidence, dr_evidence_summary = rr_evidence_summary row,
         dr_metadata = rr_metadata row\<rparr>)))))))))))))))))"

definition persisted_decision_receipt_from_row :: "receipt_row \<Rightarrow> PersistedDecisionReceipt res" where
  "persisted_decision_receipt_from_row row =
     bind_res (require (rr_receipt_serialization_version row = DECISION_RECEIPT_SERIALIZATION_VERSION)
       (ValueError ''stored receipt_serialization_version must be 1'')) (\<lambda>_.
     bind_res (case rr_admission_disposition row of
         None \<Rightarrow> Inr None
       | Some d \<Rightarrow> bind_res (stored_enum EventAdmissionDisposition_of d) (\<lambda>disposition.
           Inr (Some \<lparr>dae_disposition = disposition\<rparr>))) (\<lambda>admission_evidence.
     bind_res (receipt_from_row row admission_evidence) (\<lambda>receipt.
     bind_res (serialize_decision_receipt receipt) (\<lambda>_.
     bind_res (stored_enum DecisionReceiptMaterializationProvenance_of (rr_materialization_provenance row)) (\<lambda>provenance.
       PersistedDecisionReceipt_init
         \<lparr>pr_receipt = receipt, pr_receipt_serialization_version = rr_receipt_serialization_version row,
          pr_materialization_provenance = provenance, pr_materialized_at = rr_materialized_at row\<rparr>)))))"

text \<open>Comparison of serialised values; \<open>all()\<close> stops at the first difference.\<close>

fun py_type :: "pyval \<Rightarrow> string" where
  "py_type VNone = ''NoneType''"
| "py_type (VBool _) = ''bool''"
| "py_type (VInt _) = ''int''"
| "py_type (VFloat _ _) = ''float''"
| "py_type (VStr _) = ''str''"
| "py_type (VUuid _) = ''UUID''"
| "py_type (VList _) = ''list''"
| "py_type (VTuple _) = ''tuple''"
| "py_type (VDict _) = ''dict''"
| "py_type (VSet _) = ''set''"
| "py_type (VFrozenset _) = ''frozenset''"
| "py_type (VObj _) = ''object''"

definition same_scalar :: "pyval \<Rightarrow> pyval \<Rightarrow> bool res" where
  "same_scalar left right =
     (if left = VNone \<or> right = VNone then Inr (left = VNone \<and> right = VNone)
      else if py_type left \<noteq> py_type right then Inr False
      else if py_type left \<in> set [''str'', ''bool'', ''int'', ''float''] then Inr (left = right)
      else Inl (TypeError ''serialized payload contains an unsupported JSON value''))"

fun same_serialized_json_value :: "pyval \<Rightarrow> pyval \<Rightarrow> bool res"
  and same_serialized_pairs :: "json_object \<Rightarrow> json_object \<Rightarrow> bool res"
  and same_serialized_items :: "pyval list \<Rightarrow> pyval list \<Rightarrow> bool res" where
  "same_serialized_json_value (VDict l) right =
     (case right of
        VDict r \<Rightarrow>
          if set (map fst l) \<noteq> set (map fst r) then Inr False
          else if \<not> list_all (\<lambda>p. py_type (fst p) = ''str'') (l @ r)
          then Inl (TypeError ''serialized payload object keys must be strings'')
          else same_serialized_pairs l r
      | _ \<Rightarrow> Inr False)"
| "same_serialized_json_value (VList xs) right =
     (case right of
        VList ys \<Rightarrow> if length xs \<noteq> length ys then Inr False else same_serialized_items xs ys
      | _ \<Rightarrow> Inr False)"
| "same_serialized_json_value left right = same_scalar left right"
| "same_serialized_pairs [] r = Inr True"
| "same_serialized_pairs ((k, v) # l) r =
     bind_res (same_serialized_json_value v (case map_of r k of Some u \<Rightarrow> u | None \<Rightarrow> VNone)) (\<lambda>b.
       if b then same_serialized_pairs l r else Inr False)"
| "same_serialized_items [] ys = Inr True"
| "same_serialized_items (x # xs) ys =
     (case ys of [] \<Rightarrow> Inr True
      | y # zs \<Rightarrow> bind_res (same_serialized_json_value x y) (\<lambda>b. if b then same_serialized_items xs zs else Inr False))"

definition same_versioned_payload :: "PersistedDecisionReceipt \<Rightarrow> json_object \<Rightarrow> bool res" where
  "same_versioned_payload existing incoming_payload =
     (if pr_receipt_serialization_version existing \<noteq> DECISION_RECEIPT_SERIALIZATION_VERSION then Inr False
      else bind_res (serialize_decision_receipt (pr_receipt existing)) (\<lambda>payload.
             same_serialized_json_value (VDict payload) (VDict incoming_payload)))"

definition admitted_write_side_accepted_event_id :: "DecisionReceipt \<Rightarrow> string option" where
  "admitted_write_side_accepted_event_id receipt =
     (if dr_evidence_source receipt = ES_WRITE_SIDE_ADMISSION
         \<and> dr_admission_evidence receipt = Some \<lparr>dae_disposition = AD_ADMITTED_TO_ACCEPTED_HISTORY\<rparr>
      then dc_accepted_event_id (dr_correlation receipt) else None)"

definition hydrate_row :: "receipt_row option \<Rightarrow> PersistedDecisionReceipt option rres" where
  "hydrate_row row =
     (case row of
        None \<Rightarrow> Inr None
      | Some r \<Rightarrow> bind_res (py (persisted_decision_receipt_from_row r)) (\<lambda>p. Inr (Some p)))"

definition load_by_receipt_id :: "string \<Rightarrow> PersistedDecisionReceipt option rc" where
  "load_by_receipt_id receipt_id =
     rc_bind (select_receipt (\<lambda>r. rr_receipt_id r = receipt_id)) (\<lambda>row. rc_lift (hydrate_row row))"

definition load_admitted_write_side_materialization_by_accepted_event_id :: "string \<Rightarrow> PersistedDecisionReceipt option rc" where
  "load_admitted_write_side_materialization_by_accepted_event_id accepted_event_id =
     rc_bind (select_receipt (\<lambda>r. rr_accepted_event_id r = Some accepted_event_id
         \<and> rr_evidence_source r = ''WRITE_SIDE_ADMISSION''
         \<and> rr_admission_disposition r = Some ''ADMITTED_TO_ACCEPTED_HISTORY'')) (\<lambda>row. rc_lift (hydrate_row row))"

definition classify_present :: "DecisionReceipt \<Rightarrow> json_object \<Rightarrow> DecisionReceiptInsertResult rc" where
  "classify_present receipt serialized_payload =
     rc_bind (load_by_receipt_id (dr_receipt_id receipt)) (\<lambda>existing_by_receipt_id.
       case existing_by_receipt_id of
         Some existing \<Rightarrow>
           rc_bind (rc_lift (py (same_versioned_payload existing serialized_payload))) (\<lambda>same.
             rc_lift (if same then Inr \<lparr>ir_status = ALREADY_PRESENT, ir_record = existing\<rparr>
                      else Inl (DecisionReceiptConflictError_init RECEIPT_ID_CONTENT_CONFLICT (dr_receipt_id receipt)
                                  (dc_accepted_event_id (dr_correlation receipt)))))
       | None \<Rightarrow>
           (let unclassified = Inl (Python_error (RuntimeError
                  ''DecisionReceipt insert returned no row and no existing receipt identity could be classified''))
            in case admitted_write_side_accepted_event_id receipt of
                 None \<Rightarrow> rc_lift unclassified
               | Some accepted_event_id \<Rightarrow>
                   rc_bind (load_admitted_write_side_materialization_by_accepted_event_id accepted_event_id) (\<lambda>existing_by_producer.
                     rc_lift (if existing_by_producer \<noteq> None
                       then Inl (DecisionReceiptConflictError_init ACCEPTED_PRODUCER_IDENTITY_CONFLICT (dr_receipt_id receipt)
                                   (Some accepted_event_id))
                       else unclassified))))"

definition receipt_insert ::
  "(pyval \<Rightarrow> pyval) \<Rightarrow> int \<Rightarrow> DecisionReceipt \<Rightarrow> DecisionReceiptMaterializationProvenance \<Rightarrow> DecisionReceiptInsertResult rc" where
  "receipt_insert float_io now_ms receipt materialization_provenance =
     rc_bind (rc_lift (py (serialize_decision_receipt receipt))) (\<lambda>serialized_payload.
     rc_bind (rc_lift (py (serialized_receipt_body serialized_payload))) (\<lambda>receipt_body.
     rc_bind (rc_lift (py (serialized_json_object (item receipt_body ''evidence_summary'') ''evidence_summary''))) (\<lambda>evidence_summary.
     rc_bind (rc_lift (py (serialized_json_object (item receipt_body ''metadata'') ''metadata''))) (\<lambda>metadata.
     rc_bind (insert_receipt_row
         (receipt_to_row float_io now_ms receipt evidence_summary metadata materialization_provenance)) (\<lambda>inserted_row.
       case inserted_row of
         Some row \<Rightarrow>
           rc_bind (rc_lift (py (persisted_decision_receipt_from_row row))) (\<lambda>p.
             rc_lift (Inr \<lparr>ir_status = INSERTED, ir_record = p\<rparr>))
       | None \<Rightarrow> classify_present receipt serialized_payload)))))"

section \<open>Documents that \<open>JSONB\<close> keeps\<close>

text \<open>A document without floats and NULs, with the distinct keys of a dictionary.\<close>

fun portable :: "pyval \<Rightarrow> bool" and portable_pairs :: "json_object \<Rightarrow> bool" and portable_items :: "pyval list \<Rightarrow> bool" where
  "portable (VStr s) = (CHR 0x00 \<notin> set s)"
| "portable (VDict kvs) = (distinct (map fst kvs) \<and> portable_pairs kvs)"
| "portable (VList xs) = portable_items xs"
| "portable v = (py_type v \<in> set [''NoneType'', ''bool'', ''int''])"
| "portable_pairs [] = True"
| "portable_pairs ((k, v) # kvs) = ((\<exists>t. k = VStr t \<and> CHR 0x00 \<notin> set t) \<and> portable v \<and> portable_pairs kvs)"
| "portable_items [] = True"
| "portable_items (v # vs) = (portable v \<and> portable_items vs)"

lemma json_ok_pairs_iff:
  "json_ok_pairs d kvs \<longleftrightarrow> (\<forall>p \<in> set kvs. (\<exists>k. fst p = VStr k \<and> k \<noteq> []) \<and> json_ok d (snd p))"
  by (induction kvs) (auto simp del: json_ok.simps)

lemma json_ok_items_iff: "json_ok_items d vs \<longleftrightarrow> (\<forall>v \<in> set vs. json_ok d v)"
  by (induction vs) (auto simp del: json_ok.simps)

lemma ints64_pairs_iff: "ints64_pairs kvs \<longleftrightarrow> (\<forall>p \<in> set kvs. ints64 (snd p))"
  by (induction kvs) auto

lemma ints64_items_iff: "ints64_items vs \<longleftrightarrow> (\<forall>v \<in> set vs. ints64 v)"
  by (induction vs) auto

lemma thawed_pairs_map: "thawed_pairs kvs = map (\<lambda>p. (fst p, thawed (snd p))) kvs"
  by (induction kvs) auto

lemma thawed_items_map: "thawed_items vs = map thawed vs"
  by (induction vs) auto

lemma jsonb_order_set [simp]: "set (jsonb_order kvs) = set kvs"
  by (simp add: jsonb_order_def)

lemma same_pairs_iff:
  "same_serialized_pairs l r = Inr True \<longleftrightarrow>
     (\<forall>p \<in> set l. same_serialized_json_value (snd p) (case map_of r (fst p) of Some u \<Rightarrow> u | None \<Rightarrow> VNone) = Inr True)"
proof (induction l)
  case (Cons p l)
  then show ?case by (cases p) (auto simp: res_simps split: if_splits)
qed simp

lemma same_items_iff:
  "length xs = length ys \<Longrightarrow> same_serialized_items xs ys = Inr True \<longleftrightarrow>
     list_all2 (\<lambda>x y. same_serialized_json_value x y = Inr True) xs ys"
  by (induction xs ys rule: list_induct2) (auto simp: res_simps split: if_splits)

text \<open>What a column returns for a document, compared with the document.\<close>

definition kept :: "pyval \<Rightarrow> pyval \<Rightarrow> bool" where
  "kept v u \<longleftrightarrow> same_serialized_json_value u v = Inr True \<and> thawed u = u
     \<and> (\<forall>d. json_ok d v \<longrightarrow> json_ok d u) \<and> (ints64 v \<longrightarrow> ints64 u)"

definition kept_pairs :: "json_object \<Rightarrow> json_object \<Rightarrow> bool" where
  "kept_pairs = list_all2 (\<lambda>p q. fst q = fst p \<and> kept (snd p) (snd q))"

lemma kept_object:
  assumes "kept_pairs kvs kus" and "distinct (map fst kvs)" and "\<forall>p \<in> set kvs. py_type (fst p) = ''str''"
  shows "kept (VDict kvs) (VDict (jsonb_order kus))"
proof -
  have keys: "map fst kus = map fst kvs"
    using assms(1) unfolding kept_pairs_def by (induction rule: list_all2_induct) auto
  have "set (map fst kus) = set (map fst kvs)" by (simp only: keys)
  then have img: "fst ` set kus = fst ` set kvs" by simp
  have each: "\<exists>v. map_of kvs (fst q) = Some v \<and> (fst q, v) \<in> set kvs \<and> kept v (snd q)" if "q \<in> set kus" for q
  proof -
    from that obtain i where i: "i < length kus" "q = kus ! i" by (auto simp: in_set_conv_nth)
    with assms(1) have "kvs ! i \<in> set kvs" "fst q = fst (kvs ! i)" "kept (snd (kvs ! i)) (snd q)"
      unfolding kept_pairs_def by (auto simp: list_all2_conv_all_nth)
    then obtain p where p: "p \<in> set kvs" "fst q = fst p" "kept (snd p) (snd q)" by blast
    with assms(2) have "map_of kvs (fst q) = Some (snd p)" by (metis map_of_eq_Some_iff surjective_pairing)
    with p show ?thesis by (metis surjective_pairing)
  qed
  have "same_serialized_pairs (jsonb_order kus) kvs = Inr True"
    unfolding same_pairs_iff using each by (fastforce simp: kept_def)
  moreover have "\<forall>p \<in> set kus. py_type (fst p) = ''str''" using assms(3) img by (metis imageE imageI)
  ultimately have "same_serialized_json_value (VDict (jsonb_order kus)) (VDict kvs) = Inr True"
    using assms(3) img by (auto simp: list_all_iff)
  moreover have "thawed_pairs (jsonb_order kus) = jsonb_order kus"
    unfolding thawed_pairs_map by (rule map_idI) (use each in \<open>fastforce simp: kept_def\<close>)
  moreover have "json_ok_pairs d kvs \<Longrightarrow> json_ok_pairs d (jsonb_order kus)" for d
    unfolding json_ok_pairs_iff using each by (fastforce simp: kept_def simp del: json_ok.simps)
  moreover have "ints64_pairs kvs \<Longrightarrow> ints64_pairs (jsonb_order kus)"
    unfolding ints64_pairs_iff using each by (fastforce simp: kept_def)
  ultimately show ?thesis by (auto simp: kept_def json_ok.simps)
qed

lemma kept_array:
  assumes "list_all2 kept vs us"
  shows "kept (VList vs) (VList us)"
proof -
  have "list_all2 (\<lambda>x y. same_serialized_json_value x y = Inr True) us vs"
    using assms by (induction rule: list_all2_induct) (auto simp: kept_def)
  then have "same_serialized_json_value (VList us) (VList vs) = Inr True"
    by (auto simp: same_items_iff dest: list_all2_lengthD)
  moreover have "thawed_items us = us"
    using assms by (induction rule: list_all2_induct) (auto simp: kept_def)
  moreover have "json_ok_items d vs \<Longrightarrow> json_ok_items d us" for d
    using assms by (induction rule: list_all2_induct) (auto simp: kept_def simp del: json_ok.simps)
  moreover have "ints64_items vs \<Longrightarrow> ints64_items us"
    using assms by (induction rule: list_all2_induct) (auto simp: kept_def)
  ultimately show ?thesis by (auto simp: kept_def json_ok.simps)
qed

lemma portable_keys: "portable_pairs kvs \<Longrightarrow> p \<in> set kvs \<Longrightarrow> py_type (fst p) = ''str''"
  by (induction kvs) auto

lemma jsonb_keeps:
  "portable v \<Longrightarrow> \<exists>u. jsonb_in float_io v = Some u \<and> kept v u"
  "portable_pairs kvs \<Longrightarrow> \<exists>kus. jsonb_pairs float_io kvs = Some kus \<and> kept_pairs kvs kus"
  "portable_items vs \<Longrightarrow> \<exists>us. jsonb_items float_io vs = Some us \<and> list_all2 kept vs us"
proof (induction float_io v and float_io kvs and float_io vs rule: jsonb_in_jsonb_pairs_jsonb_items.induct)
  case (2 float_io kvs)
  then show ?case using kept_object portable_keys by fastforce
next
  case (3 float_io xs)
  then show ?case using kept_array by fastforce
next
  case (8 float_io k v kvs)
  then show ?case by (fastforce simp: text_in_def kept_pairs_def)
next
  case (10 float_io v vs)
  then show ?case by fastforce
qed (simp_all add: kept_def kept_pairs_def same_scalar_def text_in_def)

lemma jsonb_keeps_object:
  assumes "portable (VDict m)"
  obtains m' where "jsonb_object_in float_io m = Some m'" and "kept (VDict m) (VDict m')"
proof -
  from assms have p: "distinct (map fst m)" "portable_pairs m" by simp_all
  obtain k where "jsonb_pairs float_io m = Some k" "kept_pairs m k" using jsonb_keeps(2) [OF p(2)] by blast
  with that [of "jsonb_order k"] kept_object [OF _ p(1)] portable_keys [OF p(2)] show ?thesis
    by (auto simp: jsonb_object_in_def)
qed

section \<open>Comparing payloads\<close>

definition scalar :: "pyval \<Rightarrow> bool" where
  "scalar v \<longleftrightarrow> py_type v \<in> {''NoneType'', ''bool'', ''int'', ''str''}"

lemma scalar_simps [simp]: "scalar (VStr s)" "scalar (VBool b)" "scalar (VInt i)" "scalar VNone" "scalar (opt_str x)" "scalar (opt_int y)"
  by (simp_all add: scalar_def split: option.split)

lemma same_refl: "scalar v \<Longrightarrow> same_serialized_json_value v v = Inr True"
  by (cases v) (simp_all add: same_scalar_def scalar_def)

lemma same_display:
  assumes "map fst a = map fst b" and "distinct (map fst a)"
    and "list_all2 (\<lambda>p q. same_serialized_json_value (snd p) (snd q) = Inr True) a b"
  shows "same_serialized_json_value (VDict (dict_display a)) (VDict (dict_display b)) = Inr True"
proof -
  have fst_display: "map fst (dict_display kvs) = map VStr (map fst kvs)" for kvs
    by (induction kvs) (auto simp: dict_display_def)
  have keys: "set (map fst (dict_display a)) = set (map fst (dict_display b))"
    unfolding fst_display assms(1) ..
  have lookup: "map_of (dict_display b) (VStr k) = map_of b k" for k by (induction b) (auto simp: dict_display_def)
  have "same_serialized_pairs (dict_display a) (dict_display b) = Inr True"
    unfolding same_pairs_iff
  proof
    fix p
    assume "p \<in> set (dict_display a)"
    then obtain i where i: "i < length a" "p = (VStr (fst (a ! i)), snd (a ! i))"
      by (auto simp: dict_display_def in_set_conv_nth split: prod.splits)
    from assms(3) i(1) have b: "i < length b" "same_serialized_json_value (snd (a ! i)) (snd (b ! i)) = Inr True"
      by (auto simp: list_all2_conv_all_nth)
    have "fst (b ! i) = fst (a ! i)" using assms(1) i(1) b(1) by (metis nth_map)
    moreover have "map_of b (fst (b ! i)) = Some (snd (b ! i))"
      using assms(1,2) b(1) by (metis map_of_eq_Some_iff nth_mem surjective_pairing)
    ultimately show "same_serialized_json_value (snd p) (case map_of (dict_display b) (fst p) of Some u \<Rightarrow> u | None \<Rightarrow> VNone) = Inr True"
      using b(2) by (simp add: i(2) lookup)
  qed
  moreover have "list_all (\<lambda>p. py_type (fst p) = ''str'') (dict_display kvs)" for kvs
    by (induction kvs) (auto simp: dict_display_def)
  ultimately show ?thesis using keys by simp
qed

lemma same_display_refl:
  assumes "distinct (map fst a)" and "list_all (\<lambda>p. scalar (snd p)) a"
  shows "same_serialized_json_value (VDict (dict_display a)) (VDict (dict_display a)) = Inr True"
  using assms by (intro same_display) (auto simp: list_all2_conv_all_nth list_all_length same_refl)

definition payload_of :: "DecisionReceipt \<Rightarrow> json_object \<Rightarrow> json_object \<Rightarrow> json_object \<Rightarrow> json_object \<Rightarrow> json_object" where
  "payload_of r c k ev md = dict_display
         [(''receipt_serialization_version'', VInt DECISION_RECEIPT_SERIALIZATION_VERSION),
          (''receipt'', VDict (dict_display
             [(''receipt_id'', VStr (dr_receipt_id r)), (''outcome_id'', VStr (dr_outcome_id r)), (''ok'', VBool (dr_ok r)),
              (''boundary'', VStr (SemanticBoundary_value (dr_boundary r))),
              (''category'', VStr (SemanticOutcomeCategory_value (dr_category r))),
              (''semantic_code'', VStr (SemanticOutcomeCode_value (dr_semantic_code r))),
              (''severity'', VStr (SemanticSeverity_value (dr_severity r))),
              (''risk_level'', VStr (SemanticRiskLevel_value (dr_risk_level r))),
              (''reversibility'', VStr (SemanticReversibility_value (dr_reversibility r))), (''reason'', VStr (dr_reason r)),
              (''evidence_source'', VStr (DecisionReceiptEvidenceSource_value (dr_evidence_source r))),
              (''subject'', VDict (serialize_subject (dr_subject r))), (''correlation'', VDict c),
              (''actor'', VDict (serialize_actor (dr_actor r))), (''cost_summary'', VDict k),
              (''flags'', VDict (serialize_flags (dr_flags r))),
              (''admission_evidence'', serialize_admission_evidence (dr_admission_evidence r)),
              (''evidence_summary'', VDict ev), (''metadata'', VDict md)]))]"

lemma serialize_iff:
  "serialize_decision_receipt r = Inr payload \<longleftrightarrow>
     (\<exists>c k. serialize_correlation (dr_correlation r) = Inr c \<and> serialize_cost_summary (dr_cost_summary r) = Inr k
       \<and> json_ok_pairs 1 (dr_evidence_summary r) \<and> ints64_pairs (dr_evidence_summary r)
       \<and> json_ok_pairs 1 (dr_metadata r) \<and> ints64_pairs (dr_metadata r)
       \<and> payload = payload_of r c k (thawed_pairs (dr_evidence_summary r)) (thawed_pairs (dr_metadata r)))"
  by (auto simp: serialize_decision_receipt_def payload_of_def res_simps detach_object_iff)

lemma same_parts:
  "serialize_correlation cc = Inr c \<Longrightarrow> same_serialized_json_value (VDict c) (VDict c) = Inr True"
  "serialize_cost_summary kk = Inr k \<Longrightarrow> same_serialized_json_value (VDict k) (VDict k) = Inr True"
  "same_serialized_json_value (VDict (serialize_subject s)) (VDict (serialize_subject s)) = Inr True"
  "same_serialized_json_value (VDict (serialize_actor a)) (VDict (serialize_actor a)) = Inr True"
  "same_serialized_json_value (VDict (serialize_flags f)) (VDict (serialize_flags f)) = Inr True"
  "same_serialized_json_value (serialize_admission_evidence e) (serialize_admission_evidence e) = Inr True"
proof -
  show "serialize_correlation cc = Inr c \<Longrightarrow> same_serialized_json_value (VDict c) (VDict c) = Inr True"
    by (clarsimp simp only: serialize_correlation_def res_simps optional_int_iff) (rule same_display_refl, simp_all)
  show "serialize_cost_summary kk = Inr k \<Longrightarrow> same_serialized_json_value (VDict k) (VDict k) = Inr True"
    by (clarsimp simp only: serialize_cost_summary_def res_simps optional_int_iff) (rule same_display_refl, simp_all)
  show "same_serialized_json_value (VDict (serialize_subject s)) (VDict (serialize_subject s)) = Inr True"
    "same_serialized_json_value (VDict (serialize_actor a)) (VDict (serialize_actor a)) = Inr True"
    "same_serialized_json_value (VDict (serialize_flags f)) (VDict (serialize_flags f)) = Inr True"
    unfolding serialize_subject_def serialize_actor_def serialize_flags_def
    by (rule same_display_refl; simp)+
  have "same_serialized_json_value (VDict (dict_display [(''disposition'', VStr d)])) (VDict (dict_display [(''disposition'', VStr d)])) = Inr True" for d
    by (rule same_display_refl) simp_all
  then show "same_serialized_json_value (serialize_admission_evidence e) (serialize_admission_evidence e) = Inr True"
    by (cases e) (simp_all add: serialize_admission_evidence_def same_scalar_def del: same_serialized_json_value.simps(1))
qed

lemma same_payload:
  assumes "serialize_correlation (dr_correlation r) = Inr c" and "serialize_cost_summary (dr_cost_summary r) = Inr k"
    and "same_serialized_json_value (VDict ev) (VDict ev') = Inr True" and "same_serialized_json_value (VDict md) (VDict md') = Inr True"
  shows "same_serialized_json_value (VDict (payload_of r c k ev md)) (VDict (payload_of r c k ev' md')) = Inr True"
  unfolding payload_of_def
  by (intro same_display) (simp_all add: same_parts(1) [OF assms(1)] same_parts(2) [OF assms(2)] same_parts(3-6) assms(3,4) same_scalar_def
      same_display del: same_serialized_json_value.simps(1))

end
