(* ===== verification/Receipt_Rows.thy ===== *)
theory Receipt_Rows
  imports Receipt_Store
begin

text \<open>
  What the receipt store guarantees about its table: a receipt whose text and JSON PostgreSQL can
  keep is written as a row that satisfies every constraint and is read back as the same receipt
  up to the order of JSON keys; an insert is classified exactly, among any other sessions that
  use the store.
\<close>

section \<open>Comparison never fails on payloads\<close>

fun plain :: "pyval \<Rightarrow> bool" and plain_pairs :: "json_object \<Rightarrow> bool" and plain_items :: "pyval list \<Rightarrow> bool" where
  "plain (VDict kvs) = plain_pairs kvs"
| "plain (VList xs) = plain_items xs"
| "plain v = (py_type v \<in> set [''NoneType'', ''bool'', ''int'', ''float'', ''str''])"
| "plain_pairs [] = True"
| "plain_pairs ((k, v) # kvs) = (py_type k = ''str'' \<and> plain v \<and> plain_pairs kvs)"
| "plain_items [] = True"
| "plain_items (v # vs) = (plain v \<and> plain_items vs)"

lemma plain_pairs_iff: "plain_pairs kvs \<longleftrightarrow> (\<forall>p \<in> set kvs. py_type (fst p) = ''str'' \<and> plain (snd p))"
  by (induction kvs) auto

lemma plain_lookup: "plain_pairs r \<Longrightarrow> plain (case map_of r k of Some u \<Rightarrow> u | None \<Rightarrow> VNone)"
  by (auto simp: plain_pairs_iff dest!: map_of_SomeD split: option.splits)

lemma same_total:
  "plain l \<Longrightarrow> plain r \<Longrightarrow> \<exists>b. same_serialized_json_value l r = Inr b"
  "plain_pairs kvs \<Longrightarrow> plain_pairs kus \<Longrightarrow> \<exists>b. same_serialized_pairs kvs kus = Inr b"
  "plain_items vs \<Longrightarrow> plain_items us \<Longrightarrow> \<exists>b. same_serialized_items vs us = Inr b"
proof (induction l r and kvs kus and vs us
    rule: same_serialized_json_value_same_serialized_pairs_same_serialized_items.induct)
  case (1 l right)
  then show ?case
    by (cases right) (auto simp: list_all_iff plain_pairs_iff)
next
  case (2 xs right)
  then show ?case by (cases right) auto
next
  case (5 k v l r)
  then obtain b where "same_serialized_json_value v (case map_of r k of Some u \<Rightarrow> u | None \<Rightarrow> VNone) = Inr b"
    using plain_lookup by fastforce
  with 5 show ?case by (cases b) auto
next
  case (7 x xs ys)
  then show ?case by (cases ys) (auto simp: res_simps, metis)
qed (auto simp: same_scalar_def)

lemma thawed_plain:
  "json_ok d v \<Longrightarrow> plain (thawed v)" "json_ok_pairs d kvs \<Longrightarrow> plain_pairs (thawed_pairs kvs)"
  "json_ok_items d vs \<Longrightarrow> plain_items (thawed_items vs)"
proof (induction v and kvs and vs arbitrary: d and d and d rule: thawed_thawed_pairs_thawed_items.induct)
qed (auto simp: json_ok.simps)

lemma plain_display: "plain_pairs (dict_display kvs) \<longleftrightarrow> list_all (\<lambda>p. plain (snd p)) kvs"
  by (induction kvs) (auto simp: dict_display_def)

lemma scalar_plain: "scalar v \<Longrightarrow> plain v"
  by (cases v) (auto simp: scalar_def)

lemma payload_plain:
  assumes "serialize_decision_receipt r = Inr payload"
  shows "plain (VDict payload)"
proof -
  from assms obtain c k where c: "serialize_correlation (dr_correlation r) = Inr c" and k: "serialize_cost_summary (dr_cost_summary r) = Inr k"
    and j: "json_ok_pairs 1 (dr_evidence_summary r)" "json_ok_pairs 1 (dr_metadata r)"
    and p: "payload = payload_of r c k (thawed_pairs (dr_evidence_summary r)) (thawed_pairs (dr_metadata r))"
    unfolding serialize_iff by blast
  have "plain_pairs c" "plain_pairs k" "plain_pairs (serialize_subject s)" "plain_pairs (serialize_actor a)" "plain_pairs (serialize_flags f)"
    "plain (serialize_admission_evidence e)" for s a f e
    using c k by (auto simp: serialize_correlation_def serialize_cost_summary_def serialize_subject_def serialize_actor_def
        serialize_flags_def serialize_admission_evidence_def res_simps optional_int_iff plain_display scalar_plain split: option.split)
  with thawed_plain(2) [OF j(1)] thawed_plain(2) [OF j(2)] show ?thesis
    by (simp add: p payload_of_def plain_display)
qed

section \<open>The row of a receipt\<close>

definition text_ok :: "string \<Rightarrow> bool" where
  "text_ok s \<longleftrightarrow> CHR 0x00 \<notin> set s"

definition receipt_portable :: "DecisionReceipt \<Rightarrow> bool" where
  "receipt_portable r \<longleftrightarrow> text_ok (dr_reason r)
     \<and> list_all (opt_checked text_ok) [ds_subject_id (dr_subject r), dc_order_id (dr_correlation r), dc_request_id (dr_correlation r),
         da_actor_id (dr_actor r), da_actor_role (dr_actor r), da_runtime_role (dr_actor r)]
     \<and> portable (VDict (thawed_pairs (dr_evidence_summary r))) \<and> portable (VDict (thawed_pairs (dr_metadata r)))"

text \<open>The receipt with the key order that the columns give to its documents.\<close>

definition reordered :: "DecisionReceipt \<Rightarrow> json_object \<Rightarrow> json_object \<Rightarrow> DecisionReceipt" where
  "reordered r ev md = r\<lparr>dr_evidence_summary := frozen_pairs ev, dr_metadata := frozen_pairs md\<rparr>"

lemma opt_text [simp]: "opt_checked text_ok x \<Longrightarrow> opt_in text_in x = Some x"
  by (cases x) (simp_all add: opt_in_def opt_checked_def text_in_def text_ok_def)

lemma opt_int8 [simp]: "\<forall>i. x = Some i \<longrightarrow> int64 i \<Longrightarrow> opt_in int8_in x = Some x"
  by (cases x) (simp_all add: opt_in_def int8_in_def int64_def)

lemma disposition_values:
  "EventAdmissionDisposition_value d = ''ADMITTED_TO_ACCEPTED_HISTORY'' \<longleftrightarrow> d = AD_ADMITTED_TO_ACCEPTED_HISTORY"
  "DecisionReceiptEvidenceSource_value s = ''WRITE_SIDE_ADMISSION'' \<longleftrightarrow> s = ES_WRITE_SIDE_ADMISSION"
  by (cases d; simp) (cases s; simp)

lemma alignment_holds:
  assumes "\<And>a. dr_admission_evidence r = Some a \<Longrightarrow> validate_admission_evidence a (dr_correlation r) = Inr ()"
    and "rr_admission_disposition row = map_option (\<lambda>e. EventAdmissionDisposition_value (dae_disposition e)) (dr_admission_evidence r)"
    and "rr_candidate_event_id row = dc_candidate_event_id (dr_correlation r)" "rr_accepted_event_id row = dc_accepted_event_id (dr_correlation r)"
  shows "admission_identity_alignment row"
proof (cases "dr_admission_evidence r")
  case (Some a)
  with assms show ?thesis
    by (cases "dae_disposition a") (auto simp: admission_identity_alignment_def validate_admission_evidence_def Let_def split: if_splits)
qed (use assms in \<open>simp add: admission_identity_alignment_def\<close>)

lemma opt_not_blank: "require_optional_non_empty_string x f = Inr () \<Longrightarrow> opt_checked sql_not_blank x"
  by (cases x) (auto simp: require_optional_non_empty_string_def opt_checked_def res_simps not_blank_sql)

lemma opt_not_negative: "require_optional_non_negative_int x f = Inr () \<Longrightarrow> opt_checked (\<lambda>i. 0 \<le> i) x"
  by (cases x) (auto simp: require_optional_non_negative_int_def opt_checked_def res_simps)

lemma receipt_to_row_total:
  assumes "receipt_int64 r" and "receipt_portable r"
  obtains row ev md where "receipt_to_row float_io now_ms r (thawed_pairs (dr_evidence_summary r)) (thawed_pairs (dr_metadata r)) prov = Some row"
    and "kept (VDict (thawed_pairs (dr_evidence_summary r))) (VDict ev)" and "kept (VDict (thawed_pairs (dr_metadata r))) (VDict md)"
    and "rr_evidence_summary row = ev" and "rr_metadata row = md"
proof -
  have p: "portable (VDict (thawed_pairs (dr_evidence_summary r)))" "portable (VDict (thawed_pairs (dr_metadata r)))"
    using assms(2) unfolding receipt_portable_def by blast+
  obtain ev where ev: "jsonb_object_in float_io (thawed_pairs (dr_evidence_summary r)) = Some ev"
    "kept (VDict (thawed_pairs (dr_evidence_summary r))) (VDict ev)" by (rule jsonb_keeps_object [OF p(1)])
  obtain md where md: "jsonb_object_in float_io (thawed_pairs (dr_metadata r)) = Some md"
    "kept (VDict (thawed_pairs (dr_metadata r))) (VDict md)" by (rule jsonb_keeps_object [OF p(2)])
  have t: "text_in (dr_reason r) = Some (dr_reason r)" using assms(2) by (simp add: receipt_portable_def text_in_def text_ok_def)
  obtain row where "receipt_to_row float_io now_ms r (thawed_pairs (dr_evidence_summary r)) (thawed_pairs (dr_metadata r)) prov = Some row"
    "rr_evidence_summary row = ev" "rr_metadata row = md"
    using assms t ev(1) md(1) by (simp add: receipt_to_row_def receipt_portable_def receipt_int64_def)
  with ev(2) md(2) that show ?thesis by blast
qed

text \<open>Documents without floats. What the columns refuse of them holds a NUL.\<close>

fun floatless :: "pyval \<Rightarrow> bool" and floatless_pairs :: "json_object \<Rightarrow> bool" and floatless_items :: "pyval list \<Rightarrow> bool" where
  "floatless (VDict kvs) = (distinct (map fst kvs) \<and> floatless_pairs kvs)"
| "floatless (VList xs) = floatless_items xs"
| "floatless v = (py_type v \<in> set [''NoneType'', ''bool'', ''int'', ''str''])"
| "floatless_pairs [] = True"
| "floatless_pairs ((k, v) # kvs) = (floatless v \<and> floatless_pairs kvs)"
| "floatless_items [] = True"
| "floatless_items (v # vs) = (floatless v \<and> floatless_items vs)"

lemma floatless_portable:
  "floatless v \<Longrightarrow> jsonb_in float_io v = Some u \<Longrightarrow> portable v"
  "floatless_pairs kvs \<Longrightarrow> jsonb_pairs float_io kvs = Some kus \<Longrightarrow> portable_pairs kvs"
  "floatless_items vs \<Longrightarrow> jsonb_items float_io vs = Some us \<Longrightarrow> portable_items vs"
  by (induction float_io v and float_io kvs and float_io vs arbitrary: u and kus and us rule: jsonb_in_jsonb_pairs_jsonb_items.induct)
    (fastforce simp: text_in_def split: if_splits option.splits pyval.splits)+

definition receipt_floatless :: "DecisionReceipt \<Rightarrow> bool" where
  "receipt_floatless r \<longleftrightarrow> floatless (VDict (thawed_pairs (dr_evidence_summary r))) \<and> floatless (VDict (thawed_pairs (dr_metadata r)))"

lemma accepted_portable:
  assumes "receipt_floatless r"
    and "receipt_to_row float_io now_ms r (thawed_pairs (dr_evidence_summary r)) (thawed_pairs (dr_metadata r)) prov = Some row"
  shows "receipt_portable r"
proof -
  have t: "opt_in text_in x = Some y \<Longrightarrow> opt_checked text_ok x" for x y
    by (cases x) (auto simp: opt_in_def opt_checked_def text_in_def text_ok_def split: if_splits)
  have "portable (VDict m)" if "floatless (VDict m)" "jsonb_object_in float_io m = Some m'" for m m'
    using that floatless_portable(2) [of m float_io] by (auto simp: jsonb_object_in_def)
  with assms show ?thesis
    by (auto simp: receipt_to_row_def bind_eq_Some_conv receipt_portable_def receipt_floatless_def text_in_def text_ok_def
        dest!: t simp del: portable.simps floatless.simps split: if_splits)
qed

definition row_for :: "DecisionReceipt \<Rightarrow> json_object \<Rightarrow> json_object \<Rightarrow> DecisionReceiptMaterializationProvenance \<Rightarrow> int \<Rightarrow> receipt_row" where
  "row_for r ev md prov now_ms =
     \<lparr>rr_receipt_id = dr_receipt_id r,
         rr_receipt_serialization_version = DECISION_RECEIPT_SERIALIZATION_VERSION,
         rr_outcome_id = dr_outcome_id r, rr_ok = dr_ok r,
         rr_boundary = SemanticBoundary_value (dr_boundary r),
         rr_category = SemanticOutcomeCategory_value (dr_category r),
         rr_semantic_code = SemanticOutcomeCode_value (dr_semantic_code r),
         rr_severity = SemanticSeverity_value (dr_severity r),
         rr_risk_level = SemanticRiskLevel_value (dr_risk_level r),
         rr_reversibility = SemanticReversibility_value (dr_reversibility r), rr_reason = dr_reason r,
         rr_evidence_source = DecisionReceiptEvidenceSource_value (dr_evidence_source r),
         rr_subject_type = DecisionReceiptSubjectType_value (ds_subject_type (dr_subject r)),
         rr_subject_id = ds_subject_id (dr_subject r), rr_order_id = dc_order_id (dr_correlation r), rr_request_id = dc_request_id (dr_correlation r),
         rr_candidate_event_id = dc_candidate_event_id (dr_correlation r),
         rr_accepted_event_id = dc_accepted_event_id (dr_correlation r),
         rr_snapshot_id = dc_snapshot_id (dr_correlation r),
         rr_source_global_position = dc_source_global_position (dr_correlation r),
         rr_identity_source = DecisionReceiptIdentitySource_value (dc_identity_source (dr_correlation r)),
         rr_actor_id = da_actor_id (dr_actor r), rr_actor_role = da_actor_role (dr_actor r), rr_runtime_role = da_runtime_role (dr_actor r),
         rr_elapsed_ms = dk_elapsed_ms (dr_cost_summary r), rr_validation_elapsed_ms = dk_validation_elapsed_ms (dr_cost_summary r),
         rr_replay_elapsed_ms = dk_replay_elapsed_ms (dr_cost_summary r), rr_transaction_elapsed_ms = dk_transaction_elapsed_ms (dr_cost_summary r),
         rr_lock_wait_ms = dk_lock_wait_ms (dr_cost_summary r),
         rr_fallback_required = DecisionReceiptFlagState_value (df_fallback_required (dr_flags r)),
         rr_rebuild_required = DecisionReceiptFlagState_value (df_rebuild_required (dr_flags r)),
         rr_operator_review_required = DecisionReceiptFlagState_value (df_operator_review_required (dr_flags r)),
         rr_retry_candidate = DecisionReceiptFlagState_value (df_retry_candidate (dr_flags r)),
         rr_admission_disposition =
           map_option (\<lambda>e. EventAdmissionDisposition_value (dae_disposition e)) (dr_admission_evidence r),
         rr_evidence_summary = ev, rr_metadata = md,
         rr_materialization_provenance = DecisionReceiptMaterializationProvenance_value prov,
         rr_materialized_at = now_ms\<rparr>"

lemma opt_in_same: "opt_in text_in x = Some y \<Longrightarrow> y = x" "opt_in int8_in u = Some v \<Longrightarrow> v = u"
  by (cases x; cases u; auto simp: opt_in_def text_in_def int8_in_def split: if_splits)+

lemma receipt_to_row_for:
  "receipt_to_row float_io now_ms r ev0 md0 prov = Some row \<Longrightarrow>
     row = row_for r (rr_evidence_summary row) (rr_metadata row) prov now_ms"
  by (auto simp: receipt_to_row_def row_for_def bind_eq_Some_conv text_in_def dest!: opt_in_same split: if_splits)

lemma row_for_admitted: "admitted_write_side_event (row_for r ev md prov now_ms) = admitted_write_side_accepted_event_id r"
  by (cases "dr_admission_evidence r") (auto simp: row_for_def admitted_write_side_event_def admitted_write_side_accepted_event_id_def
      disposition_values)

lemma row_for_checks:
  assumes ok: "receipt_ok r"
  shows "receipt_row_checks (row_for r ev md prov now_ms)"
proof -
  have "admission_identity_alignment (row_for r ev md prov now_ms)"
    by (rule alignment_holds [of r]) (use ok in \<open>auto simp: row_for_def receipt_ok_def receipt_init_iff\<close>)
  moreover have "opt_checked (\<lambda>d. EventAdmissionDisposition_of d \<noteq> None)
      (map_option (\<lambda>e. EventAdmissionDisposition_value (dae_disposition e)) (dr_admission_evidence r))"
    by (cases "dr_admission_evidence r") (simp_all add: opt_checked_def)
  moreover have "sql_not_blank (dr_reason r)" using ok by (simp add: receipt_ok_def receipt_init_iff not_blank_sql)
  ultimately show ?thesis
    using ok by (auto simp: receipt_row_checks_def row_for_def DECISION_RECEIPT_SERIALIZATION_VERSION_def receipt_ok_def subject_ok_def
        DecisionReceiptSubject_init_def correlation_ok_def DecisionReceiptCorrelation_init_def DecisionReceiptActor_init_def
        DecisionReceiptCostSummary_init_def res_simps intro: opt_not_blank opt_not_negative)
qed

lemma kept_receipt:
  assumes "kept (VDict (thawed_pairs (dr_evidence_summary r))) (VDict ev)" and "kept (VDict (thawed_pairs (dr_metadata r))) (VDict md)"
    and "receipt_ok r" and "receipt_int64 r"
  shows "json_ok_pairs 1 ev" "json_ok_pairs 1 md" "ints64_pairs ev" "ints64_pairs md" "thawed_pairs ev = ev" "thawed_pairs md = md"
proof -
  have "json_ok 0 (VDict (thawed_pairs (dr_evidence_summary r)))" "json_ok 0 (VDict (thawed_pairs (dr_metadata r)))"
    using receipt_ok_json [OF assms(3)] by (simp_all add: json_ok.simps)
  then have "json_ok 0 (VDict ev)" "json_ok 0 (VDict md)" using assms(1,2) by (auto simp: kept_def simp del: json_ok.simps)
  then show "json_ok_pairs 1 ev" "json_ok_pairs 1 md" by (simp_all add: json_ok.simps)
  show "ints64_pairs ev" "ints64_pairs md" "thawed_pairs ev = ev" "thawed_pairs md = md"
    using assms by (auto simp: kept_def receipt_int64_def)
qed

lemma parts_surjective:
  "\<lparr>ds_subject_type = ds_subject_type s, ds_subject_id = ds_subject_id s\<rparr> = s"
  "\<lparr>dc_order_id = dc_order_id c, dc_request_id = dc_request_id c, dc_candidate_event_id = dc_candidate_event_id c,
     dc_accepted_event_id = dc_accepted_event_id c, dc_snapshot_id = dc_snapshot_id c,
     dc_source_global_position = dc_source_global_position c, dc_identity_source = dc_identity_source c\<rparr> = c"
  "\<lparr>da_actor_id = da_actor_id a, da_actor_role = da_actor_role a, da_runtime_role = da_runtime_role a\<rparr> = a"
  "\<lparr>dk_elapsed_ms = dk_elapsed_ms k, dk_validation_elapsed_ms = dk_validation_elapsed_ms k, dk_replay_elapsed_ms = dk_replay_elapsed_ms k,
     dk_transaction_elapsed_ms = dk_transaction_elapsed_ms k, dk_lock_wait_ms = dk_lock_wait_ms k\<rparr> = k"
  "\<lparr>df_fallback_required = df_fallback_required f, df_rebuild_required = df_rebuild_required f,
     df_operator_review_required = df_operator_review_required f, df_retry_candidate = df_retry_candidate f\<rparr> = f"
  by simp_all

lemma row_for_hydrates:
  assumes ok: "receipt_ok r" and i: "receipt_int64 r" and k: "kept (VDict (thawed_pairs (dr_evidence_summary r))) (VDict ev)"
    "kept (VDict (thawed_pairs (dr_metadata r))) (VDict md)"
  shows "persisted_decision_receipt_from_row (row_for r ev md prov now_ms) =
    Inr \<lparr>pr_receipt = reordered r ev md, pr_receipt_serialization_version = 1, pr_materialization_provenance = prov, pr_materialized_at = now_ms\<rparr>"
    and "\<exists>c k. serialize_correlation (dr_correlation r) = Inr c \<and> serialize_cost_summary (dr_cost_summary r) = Inr k
      \<and> serialize_decision_receipt r = Inr (payload_of r c k (thawed_pairs (dr_evidence_summary r)) (thawed_pairs (dr_metadata r)))
      \<and> serialize_decision_receipt (reordered r ev md) = Inr (payload_of r c k ev md)"
proof -
  note kr = kept_receipt [OF k ok i]
  obtain c k where p: "serialize_correlation (dr_correlation r) = Inr c" "serialize_cost_summary (dr_cost_summary r) = Inr k"
    "serialize_decision_receipt r = Inr (payload_of r c k (thawed_pairs (dr_evidence_summary r)) (thawed_pairs (dr_metadata r)))"
    using serialize_total [OF ok i] unfolding serialize_iff by blast
  have q: "serialize_decision_receipt (reordered r ev md) = Inr (payload_of r c k ev md)"
    unfolding serialize_iff using p(1,2) kr by (auto simp: reordered_def payload_of_def)
  show "\<exists>c k. serialize_correlation (dr_correlation r) = Inr c \<and> serialize_cost_summary (dr_cost_summary r) = Inr k
      \<and> serialize_decision_receipt r = Inr (payload_of r c k (thawed_pairs (dr_evidence_summary r)) (thawed_pairs (dr_metadata r)))
      \<and> serialize_decision_receipt (reordered r ev md) = Inr (payload_of r c k ev md)"
    using p q by blast
  let ?row = "row_for r ev md prov now_ms"
  have parts: "DecisionReceiptSubject_init (dr_subject r) = Inr (dr_subject r)"
    "DecisionReceiptCorrelation_init (dr_correlation r) = Inr (dr_correlation r)"
    "DecisionReceiptActor_init (dr_actor r) = Inr (dr_actor r)" "DecisionReceiptCostSummary_init (dr_cost_summary r) = Inr (dr_cost_summary r)"
    using ok by (simp_all add: receipt_ok_def subject_ok_def correlation_ok_def)
  have init: "DecisionReceipt_init (r\<lparr>dr_evidence_summary := ev, dr_metadata := md\<rparr>) = Inr (reordered r ev md)"
    using ok kr by (simp add: receipt_init_iff receipt_ok_def reordered_def)
  have hyd: "receipt_from_row ?row (dr_admission_evidence r) = Inr (reordered r ev md)"
    by (simp add: receipt_from_row_def row_for_def stored_enum_def parts_surjective parts receipt_surjective init)
  have adm: "(case rr_admission_disposition ?row of None \<Rightarrow> Inr None
       | Some d \<Rightarrow> bind_res (stored_enum EventAdmissionDisposition_of d) (\<lambda>disposition. Inr (Some \<lparr>dae_disposition = disposition\<rparr>)))
      = Inr (dr_admission_evidence r)"
    by (cases "dr_admission_evidence r") (simp_all add: row_for_def stored_enum_def)
  have ver: "rr_receipt_serialization_version ?row = 1" "rr_materialized_at ?row = now_ms"
    "rr_materialization_provenance ?row = DecisionReceiptMaterializationProvenance_value prov"
    by (simp_all add: row_for_def DECISION_RECEIPT_SERIALIZATION_VERSION_def)
  show "persisted_decision_receipt_from_row ?row =
    Inr \<lparr>pr_receipt = reordered r ev md, pr_receipt_serialization_version = 1, pr_materialization_provenance = prov, pr_materialized_at = now_ms\<rparr>"
    unfolding persisted_decision_receipt_from_row_def adm
    by (simp add: ver hyd q stored_enum_def PersistedDecisionReceipt_init_def DECISION_RECEIPT_SERIALIZATION_VERSION_def)
qed

text \<open>Rows that the store wrote.\<close>

definition stored_row :: "receipt_row \<Rightarrow> bool" where
  "stored_row row \<longleftrightarrow> (\<exists>r ev md prov now_ms. row = row_for r ev md prov now_ms \<and> receipt_ok r \<and> receipt_int64 r
     \<and> kept (VDict (thawed_pairs (dr_evidence_summary r))) (VDict ev) \<and> kept (VDict (thawed_pairs (dr_metadata r))) (VDict md))"

lemma stored_hydrates:
  assumes "stored_row row" and "plain (VDict payload)"
  obtains p b where "persisted_decision_receipt_from_row row = Inr p" and "same_versioned_payload p payload = Inr b"
proof -
  from assms(1) obtain r ev md prov now_ms where row: "row = row_for r ev md prov now_ms" "receipt_ok r" "receipt_int64 r"
    "kept (VDict (thawed_pairs (dr_evidence_summary r))) (VDict ev)" "kept (VDict (thawed_pairs (dr_metadata r))) (VDict md)"
    unfolding stored_row_def by blast
  note h = row_for_hydrates [OF row(2-5)]
  obtain q where q: "serialize_decision_receipt (reordered r ev md) = Inr q" using h(2) by blast
  obtain b where "same_serialized_json_value (VDict q) (VDict payload) = Inr b"
    using same_total(1) [OF payload_plain [OF q] assms(2)] by blast
  with that h(1) q row(1) show ?thesis by (simp add: same_versioned_payload_def DECISION_RECEIPT_SERIALIZATION_VERSION_def)
qed

lemma stored_same_payload:
  assumes "receipt_ok r" "receipt_int64 r" "kept (VDict (thawed_pairs (dr_evidence_summary r))) (VDict ev)"
    "kept (VDict (thawed_pairs (dr_metadata r))) (VDict md)" and "serialize_decision_receipt r = Inr payload"
  shows "same_versioned_payload \<lparr>pr_receipt = reordered r ev md, pr_receipt_serialization_version = 1,
      pr_materialization_provenance = prov, pr_materialized_at = now_ms\<rparr> payload = Inr True"
proof -
  from row_for_hydrates(2) [OF assms(1-4)] assms(5) obtain c k where
    ck: "serialize_correlation (dr_correlation r) = Inr c" "serialize_cost_summary (dr_cost_summary r) = Inr k"
    and q: "serialize_decision_receipt (reordered r ev md) = Inr (payload_of r c k ev md)"
    and p: "payload = payload_of r c k (thawed_pairs (dr_evidence_summary r)) (thawed_pairs (dr_metadata r))" by auto
  have "same_serialized_json_value (VDict (payload_of r c k ev md)) (VDict payload) = Inr True"
    unfolding p by (rule same_payload [OF ck]) (use assms(3,4) in \<open>simp_all only: kept_def\<close>)
  then show ?thesis by (simp add: same_versioned_payload_def DECISION_RECEIPT_SERIALIZATION_VERSION_def q)
qed

section \<open>Connections among sessions of the store\<close>

definition rc_inv :: "receipt_conn \<Rightarrow> bool" where
  "rc_inv c \<longleftrightarrow> receipts_ok (rc_visible c) (rc_events c) \<and> (\<forall>row \<in> set (rc_visible c). stored_row row)
     \<and> (\<forall>rows events row. R_Other rows events \<in> set (rc_schedule c) \<longrightarrow> row \<in> set rows \<longrightarrow> stored_row row)"

definition rc_others :: "receipt_conn \<Rightarrow> receipt_row set" where
  "rc_others c = {row. \<exists>rows events. R_Other rows events \<in> set (rc_schedule c) \<and> row \<in> set rows}"

definition rc_moves :: "receipt_conn \<Rightarrow> receipt_conn \<Rightarrow> bool" where
  "rc_moves c c' \<longleftrightarrow> rc_own c' = rc_own c \<and> (\<exists>rows. rc_committed c' = rc_committed c @ rows \<and> set rows \<subseteq> rc_others c)
     \<and> (\<exists>events. rc_events c' = rc_events c @ events) \<and> set (rc_schedule c') \<subseteq> set (rc_schedule c)
     \<and> rc_autocommit c' = rc_autocommit c \<and> rc_idle c' = rc_idle c \<and> rc_rollback c' = rc_rollback c \<and> rc_close c' = rc_close c"

lemma rc_moves_refl [simp]: "rc_moves c c"
  by (simp add: rc_moves_def)

lemma rc_moves_trans:
  assumes "rc_moves a b" and "rc_moves b c"
  shows "rc_moves a c"
proof -
  from assms have "set (rc_schedule b) \<subseteq> set (rc_schedule a)" by (simp add: rc_moves_def)
  then have "rc_others b \<subseteq> rc_others a" unfolding rc_others_def by blast
  moreover from assms obtain r1 r2 where "rc_committed b = rc_committed a @ r1" "set r1 \<subseteq> rc_others a"
    "rc_committed c = rc_committed b @ r2" "set r2 \<subseteq> rc_others b" by (auto simp: rc_moves_def)
  ultimately have "\<exists>rows. rc_committed c = rc_committed a @ rows \<and> set rows \<subseteq> rc_others a" by (intro exI [of _ "r1 @ r2"]) auto
  moreover from assms have "\<exists>events. rc_events c = rc_events a @ events" by (auto simp: rc_moves_def)
  ultimately show ?thesis using assms by (auto simp: rc_moves_def)
qed

lemma rc_moves_visible: "rc_moves c c' \<Longrightarrow> set (rc_visible c) \<subseteq> set (rc_visible c')"
  by (auto simp: rc_moves_def rc_visible_def)

text \<open>The failures that a schedule holds.\<close>

definition scheduled :: "receipt_conn \<Rightarrow> receipt_error \<Rightarrow> bool" where
  "scheduled c x \<longleftrightarrow> R_Fails x \<in> set (rc_schedule c) \<or> R_Ack_lost x \<in> set (rc_schedule c)"

lemma scheduled_mono: "rc_moves c c' \<Longrightarrow> scheduled c' x \<Longrightarrow> scheduled c x"
  by (auto simp: rc_moves_def scheduled_def)

lemma rc_take_moves: "rc_inv c \<Longrightarrow> rc_take c = (c1, v) \<Longrightarrow> rc_moves c c1 \<and> rc_inv c1 \<and> (v \<noteq> R_Quiet \<longrightarrow> v \<in> set (rc_schedule c))"
  by (auto simp: rc_take_def rc_moves_def rc_inv_def rc_visible_def split: list.splits; blast)

lemma rc_foreign_inv: "rc_inv c \<Longrightarrow> \<forall>row \<in> set rows. stored_row row \<Longrightarrow> rc_inv (rc_foreign c rows events)"
  by (auto simp: rc_foreign_def rc_inv_def rc_visible_def)

lemma rc_statement_moves:
  assumes "rc_inv c" and "rc_statement c = (c', r)"
  shows "rc_moves c c' \<and> rc_inv c' \<and> (\<forall>x. r = Inl x \<longrightarrow> scheduled c x)"
proof -
  obtain c1 v where t: "rc_take c = (c1, v)" by force
  note m = rc_take_moves [OF assms(1) t]
  show ?thesis
  proof (cases v)
    case (R_Other rows events)
    with m have rows: "\<forall>row \<in> set rows. stored_row row" "set rows \<subseteq> rc_others c"
      using assms(1) by (auto simp: rc_inv_def rc_others_def)
    have "rc_committed c1 = rc_committed c" using t by (auto simp: rc_take_def split: list.splits)
    with m rows(2) have "rc_moves c (rc_foreign c1 rows events)" by (auto simp: rc_moves_def rc_foreign_def)
    with R_Other m rc_foreign_inv [OF _ rows(1)] assms(2) t show ?thesis by (auto simp: rc_statement_def)
  qed (use m assms(2) t in \<open>auto simp: rc_statement_def scheduled_def\<close>)
qed

lemma receipts_ok_add:
  assumes "receipts_ok rows events" and "receipt_row_checks row" and "rr_receipt_id row \<notin> set (map rr_receipt_id rows)"
    and "admitted_write_side_event row = None \<or> admitted_write_side_event row \<notin> set (map admitted_write_side_event rows)"
    and "opt_checked (\<lambda>e. e \<in> set events) (rr_accepted_event_id row)"
  shows "receipts_ok (rows @ [row]) events"
proof -
  have "distinct (List.map_filter admitted_write_side_event (rows @ [row]))"
    using assms(1,4) by (cases "admitted_write_side_event row") (auto simp: receipts_ok_def List.map_filter_def image_iff)
  with assms show ?thesis by (auto simp: receipts_ok_def)
qed

lemma insert_row_cases:
  assumes "rc_inv c" and "stored_row row" and "receipt_row_checks row" and "insert_receipt_row (Some row) c = (c', res)"
  obtains (failed) x where "res = Inl x" and "scheduled c x" and "rc_moves c c'" and "rc_inv c'"
  | (unknown_event) e where "res = Inl (Driver_error (Some ''23503'') False)" and "rc_moves c c'" and "rc_inv c'"
      and "rr_accepted_event_id row = Some e" and "e \<notin> set (rc_events c')"
  | (taken) other where "res = Inr None" and "rc_moves c c'" and "rc_inv c'" and "other \<in> set (rc_visible c')"
      and "rr_receipt_id other = rr_receipt_id row
        \<or> admitted_write_side_event row \<noteq> None \<and> admitted_write_side_event other = admitted_write_side_event row"
  | (inserted) c1 where "res = Inr (Some row)" and "rc_moves c c1" and "rc_inv c1" and "c' = c1\<lparr>rc_own := rc_own c1 @ [row]\<rparr>"
      and "rc_inv c'" and "rr_receipt_id row \<notin> set (map rr_receipt_id (rc_visible c1))"
proof -
  obtain c1 r where st: "rc_statement c = (c1, r)" by force
  note m = rc_statement_moves [OF assms(1) st]
  show ?thesis
  proof (cases r)
    case (Inl x)
    with m st assms(4) failed show ?thesis by (auto simp: insert_receipt_row_def rc_bind_def)
  next
    case (Inr u)
    let ?taken = "rr_receipt_id row \<in> set (map rr_receipt_id (rc_visible c1))
      \<or> admitted_write_side_event row \<noteq> None \<and> admitted_write_side_event row \<in> set (map admitted_write_side_event (rc_visible c1))"
    consider ?taken | "\<not> ?taken" "\<not> opt_checked (\<lambda>e. e \<in> set (rc_events c1)) (rr_accepted_event_id row)"
      | "\<not> ?taken" "opt_checked (\<lambda>e. e \<in> set (rc_events c1)) (rr_accepted_event_id row)" by blast
    then show ?thesis
    proof cases
      case 1
      then have "res = Inr None" "c' = c1" using assms(3,4) Inr st by (auto simp: insert_receipt_row_def rc_bind_def)
      moreover from 1 obtain other where "other \<in> set (rc_visible c1)" "rr_receipt_id other = rr_receipt_id row
        \<or> admitted_write_side_event row \<noteq> None \<and> admitted_write_side_event other = admitted_write_side_event row"
        unfolding set_map image_iff by (metis (no_types))
      ultimately show ?thesis using taken m by blast
    next
      case 2
      then have "res = Inl (Driver_error (Some ''23503'') False)" "c' = c1"
        using assms(3,4) Inr st by (auto simp: insert_receipt_row_def rc_bind_def)
      with 2(2) m unknown_event show ?thesis by (auto simp: opt_checked_def split: option.splits)
    next
      case 3
      then have c': "res = Inr (Some row)" "c' = c1\<lparr>rc_own := rc_own c1 @ [row]\<rparr>"
        using assms(3,4) Inr st by (auto simp: insert_receipt_row_def rc_bind_def)
      have "receipts_ok (rc_visible c1 @ [row]) (rc_events c1)"
        using m assms(3) 3 by (intro receipts_ok_add) (auto simp: rc_inv_def)
      then have "rc_inv c'" using m assms(2) unfolding c'(2) by (auto simp: rc_inv_def rc_visible_def)
      with c' m 3(1) inserted show ?thesis by blast
    qed
  qed
qed

section \<open>Classification of an insert\<close>

lemma select_moves:
  assumes "rc_inv c" and "select_receipt P c = (c', res)"
  shows "rc_moves c c'" "rc_inv c'" "res = Inl x \<Longrightarrow> scheduled c x" "res = Inr row \<Longrightarrow> row = find P (rc_visible c')"
  using assms rc_statement_moves [OF assms(1)]
  by (auto simp: select_receipt_def rc_bind_def split: prod.splits sum.splits)

lemma hydrate_stored:
  assumes "rc_inv c" and "find P (rc_visible c) = Some row" and "plain (VDict payload)"
  obtains p b where "row \<in> set (rc_visible c)" and "P row" and "persisted_decision_receipt_from_row row = Inr p"
    and "hydrate_row (Some row) = Inr (Some p)" and "same_versioned_payload p payload = Inr b"
proof -
  from assms(2) have row: "row \<in> set (rc_visible c)" "P row" by (auto simp: find_Some_iff)
  with assms(1) have "stored_row row" by (simp add: rc_inv_def)
  then obtain p b where "persisted_decision_receipt_from_row row = Inr p" "same_versioned_payload p payload = Inr b"
    using assms(3) by (rule stored_hydrates)
  with that row show ?thesis by (simp add: hydrate_row_def py_def)
qed

text \<open>The error of an insert: a failure of the connection, a value that the columns refuse, an event that is not accepted,
  or a conflict with a stored receipt.\<close>

definition insert_error :: "receipt_conn \<Rightarrow> receipt_conn \<Rightarrow> DecisionReceipt \<Rightarrow> json_object \<Rightarrow> receipt_error \<Rightarrow> bool" where
  "insert_error c c' r payload x \<longleftrightarrow> scheduled c x
     \<or> x = Driver_error None False \<and> \<not> receipt_portable r
     \<or> (\<exists>e. x = Driver_error (Some ''23503'') False \<and> dc_accepted_event_id (dr_correlation r) = Some e \<and> e \<notin> set (rc_events c'))
     \<or> (\<exists>row p. x = ReceiptConflict RECEIPT_ID_CONTENT_CONFLICT (dr_receipt_id r) (dc_accepted_event_id (dr_correlation r))
          \<and> row \<in> set (rc_visible c') \<and> rr_receipt_id row = dr_receipt_id r \<and> persisted_decision_receipt_from_row row = Inr p
          \<and> same_versioned_payload p payload = Inr False)
     \<or> (\<exists>row e. x = ReceiptConflict ACCEPTED_PRODUCER_IDENTITY_CONFLICT (dr_receipt_id r) (Some e)
          \<and> row \<in> set (rc_visible c') \<and> rr_receipt_id row \<noteq> dr_receipt_id r
          \<and> admitted_write_side_event row = Some e \<and> admitted_write_side_accepted_event_id r = Some e)"

definition already_present :: "receipt_conn \<Rightarrow> DecisionReceipt \<Rightarrow> json_object \<Rightarrow> DecisionReceiptInsertResult \<Rightarrow> bool" where
  "already_present c r payload ins \<longleftrightarrow> ir_status ins = ALREADY_PRESENT
     \<and> (\<exists>row \<in> set (rc_visible c). rr_receipt_id row = dr_receipt_id r \<and> persisted_decision_receipt_from_row row = Inr (ir_record ins))
     \<and> same_versioned_payload (ir_record ins) payload = Inr True"

lemma admitted_unique:
  assumes "receipts_ok rows events" and "a \<in> set rows" and "b \<in> set rows"
    and "admitted_write_side_event a = Some e" and "admitted_write_side_event b = Some e"
  shows "a = b"
proof -
  have "distinct (map (the \<circ> admitted_write_side_event) (filter (\<lambda>x. admitted_write_side_event x \<noteq> None) rows))"
    using assms(1) by (simp add: receipts_ok_def List.map_filter_def)
  then have "inj_on (the \<circ> admitted_write_side_event) (set (filter (\<lambda>x. admitted_write_side_event x \<noteq> None) rows))"
    by (simp add: distinct_map)
  with assms(2-5) show ?thesis by (auto dest!: inj_onD [where x = a and y = b])
qed

lemma classify_present_cases:
  assumes inv: "rc_inv c" and p: "plain (VDict payload)" and other: "other \<in> set (rc_visible c)"
    "rr_receipt_id other = dr_receipt_id r
      \<or> admitted_write_side_accepted_event_id r \<noteq> None \<and> admitted_write_side_event other = admitted_write_side_accepted_event_id r"
    and run: "classify_present r payload c = (c', res)"
  shows "rc_moves c c' \<and> rc_inv c' \<and> (case res of Inr ins \<Rightarrow> already_present c' r payload ins | Inl x \<Rightarrow> insert_error c c' r payload x)"
proof -
  let ?P = "\<lambda>w. rr_receipt_id w = dr_receipt_id r"
  obtain c1 r1 where s1: "select_receipt ?P c = (c1, r1)" by force
  note m1 = select_moves [OF inv s1]
  show ?thesis
  proof (cases r1)
    case (Inl x)
    with run s1 m1 show ?thesis by (auto simp: classify_present_def load_by_receipt_id_def rc_bind_def insert_error_def)
  next
    case (Inr o1)
    with m1(4) have o1: "o1 = find ?P (rc_visible c1)" by simp
    show ?thesis
    proof (cases o1)
      case (Some row)
      obtain q b where q: "row \<in> set (rc_visible c1)" "?P row" "persisted_decision_receipt_from_row row = Inr q"
        "hydrate_row (Some row) = Inr (Some q)" "same_versioned_payload q payload = Inr b"
        using hydrate_stored [OF m1(2) _ p, of ?P row] o1 Some by metis
      have l1: "load_by_receipt_id (dr_receipt_id r) c = (c1, Inr (Some q))"
        by (simp add: load_by_receipt_id_def rc_bind_def rc_lift_def s1 Inr Some q(4))
      show ?thesis
      proof (cases b)
        case True
        then have "classify_present r payload c = (c1, Inr \<lparr>ir_status = ALREADY_PRESENT, ir_record = q\<rparr>)"
          by (simp add: classify_present_def rc_bind_def rc_lift_def py_def l1 q(5))
        with run q m1 True show ?thesis by (auto simp: already_present_def)
      next
        case False
        then have "classify_present r payload c =
            (c1, Inl (ReceiptConflict RECEIPT_ID_CONTENT_CONFLICT (dr_receipt_id r) (dc_accepted_event_id (dr_correlation r))))"
          by (simp add: classify_present_def rc_bind_def rc_lift_def py_def l1 q(5) DecisionReceiptConflictError_init_def)
        with run q m1 False show ?thesis by (auto simp: insert_error_def)
      qed
    next
      case None
      have "find ?P (rc_visible c1) = None" using o1 None by simp
      then have new_id: "\<not> ?P other" using other(1) rc_moves_visible [OF m1(1)] by (auto simp: find_None_iff)
      then obtain e where e: "admitted_write_side_accepted_event_id r = Some e" "admitted_write_side_event other = Some e" using other(2) by auto
      let ?Q = "\<lambda>w. rr_accepted_event_id w = Some e \<and> rr_evidence_source w = ''WRITE_SIDE_ADMISSION''
         \<and> rr_admission_disposition w = Some ''ADMITTED_TO_ACCEPTED_HISTORY''"
      have l1: "load_by_receipt_id (dr_receipt_id r) c = (c1, Inr None)"
        by (simp add: load_by_receipt_id_def rc_bind_def rc_lift_def s1 Inr None hydrate_row_def)
      obtain c2 r2 where s2: "select_receipt ?Q c1 = (c2, r2)" by force
      note m2 = select_moves [OF m1(2) s2]
      have m: "rc_moves c c2" by (rule rc_moves_trans [OF m1(1) m2(1)])
      show ?thesis
      proof (cases r2)
        case (Inl x)
        have l2: "load_admitted_write_side_materialization_by_accepted_event_id e c1 = (c2, Inl x)"
          by (simp add: load_admitted_write_side_materialization_by_accepted_event_id_def rc_bind_def s2 Inl)
        have "c' = c2" "res = Inl x" using run by (simp_all add: classify_present_def rc_bind_def l1 l2 e(1) Let_def)
        moreover have "scheduled c x" by (rule scheduled_mono [OF m1(1) m2(3)]) (simp add: Inl)
        ultimately show ?thesis using m m2(2) by (simp add: insert_error_def)
      next
        case Inr2: (Inr o2)
        with m2(4) have o2: "o2 = find ?Q (rc_visible c2)" by simp
        have "?Q other" using e(2) by (auto simp: admitted_write_side_event_def split: if_splits)
        with other(1) rc_moves_visible [OF m] have "find ?Q (rc_visible c2) \<noteq> None" unfolding find_None_iff by blast
        with o2 obtain row where row: "o2 = Some row" by auto
        have "find ?Q (rc_visible c2) = Some row" using o2 row by simp
        from hydrate_stored [OF m2(2) this p] obtain q b where q: "row \<in> set (rc_visible c2)" "?Q row" "hydrate_row (Some row) = Inr (Some q)"
          by blast
        have l2: "load_admitted_write_side_materialization_by_accepted_event_id e c1 = (c2, Inr (Some q))"
          by (simp add: load_admitted_write_side_materialization_by_accepted_event_id_def rc_bind_def rc_lift_def s2 Inr2 row q(3))
        have "res = Inl (ReceiptConflict ACCEPTED_PRODUCER_IDENTITY_CONFLICT (dr_receipt_id r) (Some e))" "c' = c2"
          using run by (simp_all add: classify_present_def rc_bind_def rc_lift_def l1 l2 e(1) Let_def DecisionReceiptConflictError_init_def)
        moreover have a: "admitted_write_side_event row = Some e" using q(2) by (simp add: admitted_write_side_event_def)
        moreover have "row = other"
          using admitted_unique [OF _ q(1) _ a e(2), of "rc_events c2"] m2(2) other(1) rc_moves_visible [OF m] by (auto simp: rc_inv_def)
        ultimately show ?thesis using m m2(2) q(1) e(1) new_id by (auto simp: insert_error_def)
      qed
    qed
  qed
qed

lemma find_new: "find P xs = None \<Longrightarrow> P x \<Longrightarrow> find P (xs @ [x]) = Some x"
  by (induction xs) (auto split: if_splits)

text \<open>An insert past its serialisation.\<close>

lemma insert_runs:
  assumes "serialize_decision_receipt r = Inr payload"
    and "receipt_to_row float_io now_ms r (thawed_pairs (dr_evidence_summary r)) (thawed_pairs (dr_metadata r)) prov = columns"
    and "insert_receipt_row columns c = (c1, r1)"
  shows "receipt_insert float_io now_ms r prov c = (case r1 of Inl x \<Rightarrow> (c1, Inl x)
      | Inr None \<Rightarrow> classify_present r payload c1
      | Inr (Some w) \<Rightarrow> (c1, bind_res (py (persisted_decision_receipt_from_row w)) (\<lambda>q. Inr \<lparr>ir_status = INSERTED, ir_record = q\<rparr>)))"
proof -
  from assms(1) obtain cc kk where pay: "payload = payload_of r cc kk (thawed_pairs (dr_evidence_summary r)) (thawed_pairs (dr_metadata r))"
    unfolding serialize_iff by blast
  have body: "\<exists>b. serialized_receipt_body payload = Inr b \<and> item b ''evidence_summary'' = VDict (thawed_pairs (dr_evidence_summary r))
      \<and> item b ''metadata'' = VDict (thawed_pairs (dr_metadata r))"
    by (simp add: pay payload_of_def serialized_receipt_body_def item_display)
  then show ?thesis
    by (auto simp: receipt_insert_def rc_bind_def rc_lift_def py_def assms serialized_json_object_def split: sum.splits option.splits)
qed

lemma insert_portable_cases:
  assumes inv: "rc_inv c" and ok: "receipt_ok r" and i: "receipt_int64 r" and p: "receipt_portable r"
    and ser: "serialize_decision_receipt r = Inr payload" and run: "receipt_insert float_io now_ms r prov c = (c', res)"
  obtains (inserted) c1 ev md where "rc_moves c c1" and "rc_inv c1" and "rc_inv c'"
      and "c' = c1\<lparr>rc_own := rc_own c1 @ [row_for r ev md prov now_ms]\<rparr>"
      and "stored_row (row_for r ev md prov now_ms)"
      and "kept (VDict (thawed_pairs (dr_evidence_summary r))) (VDict ev)" and "kept (VDict (thawed_pairs (dr_metadata r))) (VDict md)"
      and "res = Inr \<lparr>ir_status = INSERTED, ir_record = \<lparr>pr_receipt = reordered r ev md, pr_receipt_serialization_version = 1,
        pr_materialization_provenance = prov, pr_materialized_at = now_ms\<rparr>\<rparr>"
      and "dr_receipt_id r \<notin> set (map rr_receipt_id (rc_visible c1))"
  | (present) ins where "rc_moves c c'" and "rc_inv c'" and "res = Inr ins" and "already_present c' r payload ins"
  | (error) x where "rc_moves c c'" and "rc_inv c'" and "res = Inl x" and "insert_error c c' r payload x"
proof -
  obtain row ev md where row: "receipt_to_row float_io now_ms r (thawed_pairs (dr_evidence_summary r)) (thawed_pairs (dr_metadata r)) prov = Some row"
    and k: "kept (VDict (thawed_pairs (dr_evidence_summary r))) (VDict ev)" "kept (VDict (thawed_pairs (dr_metadata r))) (VDict md)"
    and rr: "rr_evidence_summary row = ev" "rr_metadata row = md"
    by (rule receipt_to_row_total [OF i p])
  have row_eq: "row = row_for r ev md prov now_ms" using receipt_to_row_for [OF row] rr by simp
  have st: "stored_row row" unfolding stored_row_def row_eq using ok i k by blast
  have chk: "receipt_row_checks row" unfolding row_eq by (rule row_for_checks [OF ok])
  obtain c1 r1 where ins: "insert_receipt_row (Some row) c = (c1, r1)" by force
  have run': "(case r1 of Inl x \<Rightarrow> (c1, Inl x)
      | Inr None \<Rightarrow> classify_present r payload c1
      | Inr (Some w) \<Rightarrow> (c1, bind_res (py (persisted_decision_receipt_from_row w)) (\<lambda>q. Inr \<lparr>ir_status = INSERTED, ir_record = q\<rparr>))) = (c', res)"
    using run insert_runs [OF ser row ins] by simp
  from inv st chk ins show ?thesis
  proof (cases rule: insert_row_cases)
    case (failed x)
    with run' error show ?thesis by (auto simp: insert_error_def)
  next
    case (unknown_event e)
    with run' error show ?thesis by (auto simp: insert_error_def row_eq row_for_def)
  next
    case (taken other)
    then have "classify_present r payload c1 = (c', res)" using run' by simp
    moreover have "rr_receipt_id other = dr_receipt_id r
      \<or> admitted_write_side_accepted_event_id r \<noteq> None \<and> admitted_write_side_event other = admitted_write_side_accepted_event_id r"
      using taken(5) by (simp add: row_eq row_for_admitted) (simp add: row_for_def)
    ultimately have "rc_moves c1 c' \<and> rc_inv c' \<and> (case res of Inr ins \<Rightarrow> already_present c' r payload ins | Inl x \<Rightarrow> insert_error c1 c' r payload x)"
      using classify_present_cases [OF taken(3) payload_plain [OF ser] taken(4)] by blast
    moreover have "insert_error c1 c' r payload x \<Longrightarrow> insert_error c c' r payload x" for x
      using scheduled_mono [OF taken(2)] by (auto simp: insert_error_def)
    ultimately show ?thesis using present error rc_moves_trans [OF taken(2)] by (cases res) auto
  next
    case (inserted c2)
    then have "c' = c1" "res = Inr \<lparr>ir_status = INSERTED, ir_record = \<lparr>pr_receipt = reordered r ev md, pr_receipt_serialization_version = 1,
        pr_materialization_provenance = prov, pr_materialized_at = now_ms\<rparr>\<rparr>"
      using run' row_for_hydrates(1) [OF ok i k, of prov now_ms] by (auto simp: row_eq py_def)
    with inserted st k show ?thesis by (intro that(1) [of c2 ev md]) (auto simp: row_eq row_for_def)
  qed
qed

lemma insert_refused:
  assumes inv: "rc_inv c" and "receipt_int64 r" and "receipt_floatless r" and p: "\<not> receipt_portable r"
    and ser: "serialize_decision_receipt r = Inr payload" and run: "receipt_insert float_io now_ms r prov c = (c', res)"
  obtains x where "rc_moves c c'" and "rc_inv c'" and "res = Inl x" and "insert_error c c' r payload x"
proof -
  have none: "receipt_to_row float_io now_ms r (thawed_pairs (dr_evidence_summary r)) (thawed_pairs (dr_metadata r)) prov = None"
    using accepted_portable [OF assms(3)] p by (meson not_Some_eq)
  obtain c1 y where st: "rc_statement c = (c1, y)" by force
  then have "insert_receipt_row None c = (c1, case y of Inl x \<Rightarrow> Inl x | Inr _ \<Rightarrow> Inl (Driver_error None False))"
    by (simp add: insert_receipt_row_def rc_bind_def split: sum.splits)
  from insert_runs [OF ser none this] run rc_statement_moves [OF inv st] p that show ?thesis
    by (auto simp: insert_error_def split: sum.splits)
qed

lemma insert_cases:
  assumes inv: "rc_inv c" and ok: "receipt_ok r" and i: "receipt_int64 r" and p: "receipt_floatless r"
    and ser: "serialize_decision_receipt r = Inr payload" and run: "receipt_insert float_io now_ms r prov c = (c', res)"
  obtains (inserted) c1 ev md where "rc_moves c c1" and "rc_inv c1" and "rc_inv c'"
      and "c' = c1\<lparr>rc_own := rc_own c1 @ [row_for r ev md prov now_ms]\<rparr>"
      and "stored_row (row_for r ev md prov now_ms)"
      and "kept (VDict (thawed_pairs (dr_evidence_summary r))) (VDict ev)" and "kept (VDict (thawed_pairs (dr_metadata r))) (VDict md)"
      and "res = Inr \<lparr>ir_status = INSERTED, ir_record = \<lparr>pr_receipt = reordered r ev md, pr_receipt_serialization_version = 1,
        pr_materialization_provenance = prov, pr_materialized_at = now_ms\<rparr>\<rparr>"
      and "dr_receipt_id r \<notin> set (map rr_receipt_id (rc_visible c1))"
  | (present) ins where "rc_moves c c'" and "rc_inv c'" and "res = Inr ins" and "already_present c' r payload ins"
  | (error) x where "rc_moves c c'" and "rc_inv c'" and "res = Inl x" and "insert_error c c' r payload x"
proof -
  show ?thesis
  proof (cases "receipt_portable r")
    case True
    from inv ok i True ser run show ?thesis by (rule insert_portable_cases) (use that in blast)+
  next
    case False
    from insert_refused [OF inv i p this ser run] error show ?thesis by blast
  qed
qed

text \<open>On a connection that nothing disturbs, a new receipt is inserted.\<close>

lemma quiet_insert:
  assumes "rc_schedule c = []" and "receipt_ok r" and "receipt_int64 r" and "receipt_portable r" and "serialize_decision_receipt r = Inr payload"
    and "dr_receipt_id r \<notin> set (map rr_receipt_id (rc_visible c))"
    and "admitted_write_side_accepted_event_id r = None \<or> admitted_write_side_accepted_event_id r \<notin> set (map admitted_write_side_event (rc_visible c))"
    and "opt_checked (\<lambda>e. e \<in> set (rc_events c)) (dc_accepted_event_id (dr_correlation r))"
  obtains row ins where "receipt_insert float_io now_ms r prov c = (c\<lparr>rc_own := rc_own c @ [row]\<rparr>, Inr ins)" and "ir_status ins = INSERTED"
    and "rr_receipt_id row = dr_receipt_id r" and "admitted_write_side_event row = admitted_write_side_accepted_event_id r"
proof -
  obtain row ev md where row: "receipt_to_row float_io now_ms r (thawed_pairs (dr_evidence_summary r)) (thawed_pairs (dr_metadata r)) prov = Some row"
    and k: "kept (VDict (thawed_pairs (dr_evidence_summary r))) (VDict ev)" "kept (VDict (thawed_pairs (dr_metadata r))) (VDict md)"
    and rr: "rr_evidence_summary row = ev" "rr_metadata row = md" by (rule receipt_to_row_total [OF assms(3,4)])
  have row_eq: "row = row_for r ev md prov now_ms" using receipt_to_row_for [OF row] rr by simp
  have ids: "rr_receipt_id row = dr_receipt_id r" "rr_accepted_event_id row = dc_accepted_event_id (dr_correlation r)"
    by (simp_all add: row_eq row_for_def)
  have adm: "admitted_write_side_event row = admitted_write_side_accepted_event_id r" by (simp add: row_eq row_for_admitted)
  have "receipt_row_checks row" unfolding row_eq by (rule row_for_checks [OF assms(2)])
  then have "insert_receipt_row (Some row) c = (c\<lparr>rc_own := rc_own c @ [row]\<rparr>, Inr (Some row))"
    using assms(1,6-8) by (simp add: insert_receipt_row_def rc_bind_def rc_statement_def rc_take_def ids adm)
  from insert_runs [OF assms(5) row this] row_for_hydrates(1) [OF assms(2,3) k, of prov now_ms]
  have "receipt_insert float_io now_ms r prov c = (c\<lparr>rc_own := rc_own c @ [row]\<rparr>, Inr \<lparr>ir_status = INSERTED,
      ir_record = \<lparr>pr_receipt = reordered r ev md, pr_receipt_serialization_version = 1, pr_materialization_provenance = prov,
        pr_materialized_at = now_ms\<rparr>\<rparr>)" by (simp add: row_eq py_def)
  with that ids(1) adm show ?thesis by simp
qed

section \<open>Properties\<close>

text \<open>
  C10: Classification of a receipt insert. Among any other sessions of the store and any failures, inserting a
  well-formed receipt whose documents hold no floats reports INSERTED exactly with one new row of its own, which satisfies every
  constraint and reads back as the receipt; ALREADY_PRESENT with a stored row of the same identity
  and the same payload; a content conflict with a stored row of the same identity and another payload; a
  producer conflict with a stored receipt of another identity for the same admitted event; or it
  raises a failure of the connection, of the foreign key or of a column that refuses a NUL. It never changes a stored row, and never ends without a
  classification.
\<close>

theorem receipt_insert_classified:
  assumes "rc_inv c" and "receipt_ok r" and "receipt_floatless r"
    and "serialize_decision_receipt r = Inr payload" and "receipt_insert float_io now_ms r prov c = (c', res)"
  shows "rc_inv c' \<and> (case res of
      Inl x \<Rightarrow> rc_moves c c' \<and> insert_error c c' r payload x
    | Inr ins \<Rightarrow>
        if ir_status ins = INSERTED
        then \<exists>c1 row. rc_moves c c1 \<and> c' = c1\<lparr>rc_own := rc_own c1 @ [row]\<rparr> \<and> rr_receipt_id row = dr_receipt_id r
          \<and> persisted_decision_receipt_from_row row = Inr (ir_record ins) \<and> same_versioned_payload (ir_record ins) payload = Inr True
        else rc_moves c c' \<and> already_present c' r payload ins)"
proof -
  from assms(4) have i: "receipt_int64 r" using read_receipt_ok [OF written_receipt_read [OF assms(2,4)]] by blast
  from assms(1,2) i assms(3-5) show ?thesis
  proof (cases rule: insert_cases)
    case (inserted c1 ev md)
    with row_for_hydrates(1) [OF assms(2) i inserted(6,7), of prov now_ms] stored_same_payload [OF assms(2) i inserted(6,7) assms(4)]
    have "rc_moves c c1 \<and> c' = c1\<lparr>rc_own := rc_own c1 @ [row_for r ev md prov now_ms]\<rparr>
       \<and> rr_receipt_id (row_for r ev md prov now_ms) = dr_receipt_id r
       \<and> persisted_decision_receipt_from_row (row_for r ev md prov now_ms) = Inr (ir_record (projr res))
       \<and> same_versioned_payload (ir_record (projr res)) payload = Inr True" by (simp add: row_for_def)
    with inserted show ?thesis by auto
  qed (auto simp: already_present_def)
qed

text \<open>
  C29: Round trip through the receipt store, for well-formed receipts whose evidence summary and metadata hold no
  float. On a connection that nothing disturbs, such a receipt that was inserted is found by its identity
  with the same payload, and inserting it again reports the stored row as ALREADY_PRESENT and changes
  nothing. Receipts with floats are left out because a JSONB column may return a float as another
  number, so that the second insert is a content conflict.
\<close>

theorem receipt_store_roundtrip:
  assumes "rc_inv c" and "rc_schedule c = []" and "receipt_ok r" and "receipt_floatless r"
    and "serialize_decision_receipt r = Inr payload" and "receipt_insert float_io now_ms r prov c = (c', Inr ins)" and "ir_status ins = INSERTED"
  shows "load_by_receipt_id (dr_receipt_id r) c' = (c', Inr (Some (ir_record ins)))
    \<and> same_versioned_payload (ir_record ins) payload = Inr True
    \<and> receipt_insert float_io later r prov' c' = (c', Inr \<lparr>ir_status = ALREADY_PRESENT, ir_record = ir_record ins\<rparr>)"
proof -
  from assms(5) have i: "receipt_int64 r" using read_receipt_ok [OF written_receipt_read [OF assms(3,5)]] by blast
  have p: "receipt_portable r" using insert_refused [OF assms(1) i assms(4) _ assms(5,6)] by blast
  from assms(1,3) i assms(4-6) obtain c1 ev md where c1: "rc_moves c c1"
    "c' = c1\<lparr>rc_own := rc_own c1 @ [row_for r ev md prov now_ms]\<rparr>"
    "dr_receipt_id r \<notin> set (map rr_receipt_id (rc_visible c1))"
    and k: "kept (VDict (thawed_pairs (dr_evidence_summary r))) (VDict ev)" "kept (VDict (thawed_pairs (dr_metadata r))) (VDict md)"
    and ins: "ir_record ins = \<lparr>pr_receipt = reordered r ev md, pr_receipt_serialization_version = 1,
        pr_materialization_provenance = prov, pr_materialized_at = now_ms\<rparr>"
    by (cases rule: insert_cases) (use assms(7) in \<open>auto simp: already_present_def\<close>)
  let ?row = "row_for r ev md prov now_ms" and ?P = "\<lambda>w. rr_receipt_id w = dr_receipt_id r"
  have id: "?P ?row" by (simp add: row_for_def)
  have vis: "rc_visible c' = rc_visible c1 @ [?row]" using c1(2) by (simp add: rc_visible_def)
  have "rc_schedule c' = []" using c1(1,2) assms(2) by (simp add: rc_moves_def)
  then have quiet: "rc_statement c' = (c', Inr ())" by (simp add: rc_statement_def rc_take_def)
  have "find ?P (rc_visible c1) = None" unfolding find_None_iff using c1(3) by (metis image_eqI set_map)
  then have "find ?P (rc_visible c') = Some ?row" unfolding vis by (rule find_new) (rule id)
  then have sel: "select_receipt ?P c' = (c', Inr (Some ?row))" by (simp add: select_receipt_def rc_bind_def quiet)
  have load: "load_by_receipt_id (dr_receipt_id r) c' = (c', Inr (Some (ir_record ins)))"
    using row_for_hydrates(1) [OF assms(3) i k, of prov now_ms]
    by (simp add: load_by_receipt_id_def rc_bind_def rc_lift_def sel hydrate_row_def py_def ins)
  have same: "same_versioned_payload (ir_record ins) payload = Inr True"
    unfolding ins by (rule stored_same_payload [OF assms(3) i k assms(5)])
  obtain row2 ev2 md2 where row2: "receipt_to_row float_io later r (thawed_pairs (dr_evidence_summary r)) (thawed_pairs (dr_metadata r)) prov'
      = Some row2" "rr_evidence_summary row2 = ev2" "rr_metadata row2 = md2" by (rule receipt_to_row_total [OF i p])
  have "row2 = row_for r ev2 md2 prov' later" using receipt_to_row_for [OF row2(1)] row2(2,3) by simp
  then have "insert_receipt_row (Some row2) c' = (c', Inr None)"
    using row_for_checks [OF assms(3)] id by (simp add: insert_receipt_row_def rc_bind_def quiet vis) (simp add: row_for_def)
  from insert_runs [OF assms(5) row2(1) this] load same show ?thesis
    by (simp add: classify_present_def rc_bind_def rc_lift_def py_def)
qed

definition sample_receipt_conn :: receipt_conn where
  "sample_receipt_conn = \<lparr>rc_committed = [], rc_events = [], rc_own = [], rc_schedule = [], rc_autocommit = Inr False, rc_idle = Inr True,
     rc_rollback = Inr (), rc_close = Inr ()\<rparr>"

lemma sample_conn_inv: "rc_inv sample_receipt_conn"
  by (simp add: rc_inv_def sample_receipt_conn_def rc_visible_def receipts_ok_def List.map_filter_def)

lemma sample_portable: "receipt_portable sample_receipt"
  by (simp add: receipt_portable_def sample_receipt_def default_correlation_def default_actor_def opt_checked_def text_ok_def)

lemma sample_floatless: "receipt_floatless sample_receipt"
  by (simp add: receipt_floatless_def sample_receipt_def)

lemma sample_conn_visible: "rc_visible sample_receipt_conn = rc_committed sample_receipt_conn"
  by (simp add: rc_visible_def sample_receipt_conn_def)

lemma sample_conn_new:
  "rc_schedule sample_receipt_conn = []" "dr_receipt_id sample_receipt \<notin> set (map rr_receipt_id (rc_committed sample_receipt_conn))"
  "admitted_write_side_accepted_event_id sample_receipt = None
    \<or> admitted_write_side_accepted_event_id sample_receipt \<notin> set (map admitted_write_side_event (rc_committed sample_receipt_conn))"
  "opt_checked (\<lambda>e. e \<in> set (rc_events sample_receipt_conn)) (dc_accepted_event_id (dr_correlation sample_receipt))"
  by (simp_all add: sample_receipt_conn_def opt_checked_def sample_receipt_def default_correlation_def)

lemma sample_insert:
  obtains payload c' ins where "serialize_decision_receipt sample_receipt = Inr payload"
    and "receipt_insert id 0 sample_receipt LIVE_RESULT sample_receipt_conn = (c', Inr ins)" and "ir_status ins = INSERTED"
proof -
  obtain payload where p: "serialize_decision_receipt sample_receipt = Inr payload" using serialize_total [OF sample_receipt_ok] by blast
  obtain row ins where "receipt_insert id 0 sample_receipt LIVE_RESULT sample_receipt_conn
      = (sample_receipt_conn\<lparr>rc_own := rc_own sample_receipt_conn @ [row]\<rparr>, Inr ins)" "ir_status ins = INSERTED"
    by (rule quiet_insert [OF sample_conn_new(1) sample_receipt_ok sample_portable p sample_conn_new(2-4) [folded sample_conn_visible]])
  with that p show ?thesis by blast
qed

theorem receipt_insert_classified_witness:
  "\<exists>c' ins row. receipt_insert id 0 sample_receipt LIVE_RESULT sample_receipt_conn = (c', Inr ins) \<and> ir_status ins = INSERTED
     \<and> row \<in> set (rc_own c') \<and> rr_receipt_id row = dr_receipt_id sample_receipt"
proof -
  obtain payload c' ins where run: "serialize_decision_receipt sample_receipt = Inr payload"
    "receipt_insert id 0 sample_receipt LIVE_RESULT sample_receipt_conn = (c', Inr ins)" "ir_status ins = INSERTED" by (rule sample_insert)
  from receipt_insert_classified [OF sample_conn_inv sample_receipt_ok(1) sample_floatless run(1,2)] run(2,3) show ?thesis by auto
qed

theorem receipt_store_roundtrip_witness:
  "\<exists>c' ins. receipt_insert id 0 sample_receipt LIVE_RESULT sample_receipt_conn = (c', Inr ins) \<and> ir_status ins = INSERTED
     \<and> load_by_receipt_id (dr_receipt_id sample_receipt) c' = (c', Inr (Some (ir_record ins)))"
proof -
  obtain payload c' ins where run: "serialize_decision_receipt sample_receipt = Inr payload"
    "receipt_insert id 0 sample_receipt LIVE_RESULT sample_receipt_conn = (c', Inr ins)" "ir_status ins = INSERTED" by (rule sample_insert)
  have "rc_schedule sample_receipt_conn = []" by (simp add: sample_receipt_conn_def)
  from receipt_store_roundtrip [OF sample_conn_inv this sample_receipt_ok(1) sample_floatless run] run show ?thesis by auto
qed

end
