(* ===== verification/Receipt_Transaction.thy ===== *)
theory Receipt_Transaction
  imports Receipt_Rows
begin

text \<open>
  The owner of one receipt transaction,
  storage/postgres_decision_receipt_transaction_owner.py: it takes a dedicated connection, inserts the
  receipt, commits, closes, and reports what is known about durability. Its result type refuses
  incoherent evidence. The properties: the owner always returns a coherent result, and what the
  result says about durability is true of the database.
\<close>

section \<open>Results\<close>

datatype DecisionReceiptTransactionDurability = TX_COMMITTED | TX_NOT_COMMITTED | TX_UNKNOWN

datatype DecisionReceiptRollbackDisposition = RB_NOT_REQUIRED | RB_CONFIRMED | RB_FAILED | RB_NOT_POSSIBLE

datatype DecisionReceiptConnectionDisposition = CN_CLOSED | CN_DISCARDED | CN_CLEANUP_FAILED

datatype DecisionReceiptTransactionFailureCategory =
    CONNECTION_ACQUISITION_FAILED
  | AUTOCOMMIT_ENABLED
  | TRANSACTION_NOT_IDLE
  | CONNECTION_STATE_UNAVAILABLE
  | TIMEOUT_CONFIGURATION_FAILED
  | STORE_OPERATION_FAILED
  | TX_CONFLICT
  | COMMIT_FAILED
  | IDLE_OWNER_TIMEOUT

datatype DecisionReceiptCleanupFailureCategory = ROLLBACK_FAILED | CONNECTION_CLOSE_FAILED

record PostgresDecisionReceiptTransactionResult =
  tr_durability :: DecisionReceiptTransactionDurability
  tr_rollback_disposition :: DecisionReceiptRollbackDisposition
  tr_statement_result :: "DecisionReceiptInsertResult option"
  tr_failure_category :: "DecisionReceiptTransactionFailureCategory option"
  tr_conflict_error :: "receipt_error option"
  tr_connection_disposition :: "DecisionReceiptConnectionDisposition option"
  tr_sqlstate :: "string option"
  tr_cleanup_failures :: "DecisionReceiptCleanupFailureCategory list"

type_synonym tx_result = PostgresDecisionReceiptTransactionResult

definition validate_cleanup_coherence :: "tx_result \<Rightarrow> unit res" where
  "validate_cleanup_coherence result =
     bind_res (require ((tr_rollback_disposition result = RB_FAILED) = (ROLLBACK_FAILED \<in> set (tr_cleanup_failures result)))
       (ValueError ''rollback disposition FAILED and ROLLBACK_FAILED cleanup evidence must appear together'')) (\<lambda>_.
     require ((tr_connection_disposition result = Some CN_CLEANUP_FAILED) = (CONNECTION_CLOSE_FAILED \<in> set (tr_cleanup_failures result)))
       (ValueError ''connection disposition CLEANUP_FAILED and CONNECTION_CLOSE_FAILED cleanup evidence must appear together''))"

definition no_evidence :: "tx_result \<Rightarrow> bool" where
  "no_evidence result \<longleftrightarrow> tr_statement_result result = None \<and> tr_conflict_error result = None"

definition closed_or_failed :: "tx_result \<Rightarrow> bool" where
  "closed_or_failed result \<longleftrightarrow> tr_connection_disposition result \<in> set [Some CN_CLOSED, Some CN_CLEANUP_FAILED]"

definition discarded_or_failed :: "tx_result \<Rightarrow> bool" where
  "discarded_or_failed result \<longleftrightarrow> tr_connection_disposition result \<in> set [Some CN_DISCARDED, Some CN_CLEANUP_FAILED]"

definition validate_acquisition_failure_result :: "tx_result \<Rightarrow> unit res" where
  "validate_acquisition_failure_result result =
     bind_res (require (tr_durability result = TX_NOT_COMMITTED)
       (ValueError ''connection acquisition failure must be NOT_COMMITTED'')) (\<lambda>_.
     bind_res (require (no_evidence result)
       (ValueError ''connection acquisition failure cannot contain statement or conflict evidence'')) (\<lambda>_.
     bind_res (require (tr_rollback_disposition result = RB_NOT_REQUIRED)
       (ValueError ''connection acquisition failure requires rollback NOT_REQUIRED'')) (\<lambda>_.
     require (tr_connection_disposition result = None)
       (ValueError ''connection acquisition failure cannot have connection disposition''))))"

definition validate_committed_result :: "tx_result \<Rightarrow> unit res" where
  "validate_committed_result result =
     bind_res (require (tr_statement_result result \<noteq> None) (ValueError ''COMMITTED durability requires statement_result'')) (\<lambda>_.
     bind_res (require (tr_failure_category result = None \<and> tr_conflict_error result = None)
       (ValueError ''COMMITTED durability cannot contain failure or conflict evidence'')) (\<lambda>_.
     bind_res (require (tr_rollback_disposition result = RB_NOT_REQUIRED)
       (ValueError ''COMMITTED durability requires rollback disposition NOT_REQUIRED'')) (\<lambda>_.
     require (closed_or_failed result) (ValueError ''COMMITTED durability requires connection CLOSED or CLEANUP_FAILED''))))"

definition validate_unknown_result :: "tx_result \<Rightarrow> unit res" where
  "validate_unknown_result result =
     bind_res (require (tr_statement_result result \<noteq> None) (ValueError ''UNKNOWN durability requires statement_result'')) (\<lambda>_.
     bind_res (require (tr_failure_category result = Some COMMIT_FAILED)
       (ValueError ''UNKNOWN durability requires failure category COMMIT_FAILED'')) (\<lambda>_.
     bind_res (require (tr_conflict_error result = None) (ValueError ''UNKNOWN durability cannot contain conflict evidence'')) (\<lambda>_.
     bind_res (require (tr_rollback_disposition result = RB_NOT_POSSIBLE)
       (ValueError ''UNKNOWN durability requires rollback disposition NOT_POSSIBLE'')) (\<lambda>_.
     require (discarded_or_failed result) (ValueError ''UNKNOWN durability requires connection DISCARDED or CLEANUP_FAILED'')))))"

definition validate_rolled_back_acquired_result :: "tx_result \<Rightarrow> string \<Rightarrow> unit res" where
  "validate_rolled_back_acquired_result result failure_name =
     bind_res (require (tr_rollback_disposition result \<in> set [RB_CONFIRMED, RB_FAILED])
       (ValueError (failure_name @ '' requires rollback CONFIRMED or FAILED''))) (\<lambda>_.
     bind_res (require (tr_connection_disposition result \<noteq> None)
       (ValueError (failure_name @ '' requires connection disposition''))) (\<lambda>_.
     bind_res (require (\<not> (tr_rollback_disposition result = RB_CONFIRMED \<and> \<not> closed_or_failed result))
       (ValueError (failure_name @ '' with confirmed rollback requires connection CLOSED or CLEANUP_FAILED''))) (\<lambda>_.
     require (\<not> (tr_rollback_disposition result = RB_FAILED \<and> \<not> discarded_or_failed result))
       (ValueError (failure_name @ '' with failed rollback requires connection DISCARDED or CLEANUP_FAILED'')))))"

definition validate_conflict_result :: "tx_result \<Rightarrow> unit res" where
  "validate_conflict_result result =
     bind_res (require (tr_durability result = TX_NOT_COMMITTED) (ValueError ''CONFLICT requires NOT_COMMITTED durability'')) (\<lambda>_.
     bind_res (require (tr_conflict_error result \<noteq> None) (ValueError ''CONFLICT requires conflict_error'')) (\<lambda>_.
     bind_res (require (tr_statement_result result = None) (ValueError ''CONFLICT cannot contain statement_result'')) (\<lambda>_.
     validate_rolled_back_acquired_result result ''CONFLICT'')))"

definition validate_idle_owner_timeout_result :: "tx_result \<Rightarrow> unit res" where
  "validate_idle_owner_timeout_result result =
     bind_res (require (tr_durability result = TX_NOT_COMMITTED)
       (ValueError ''IDLE_OWNER_TIMEOUT requires NOT_COMMITTED durability'')) (\<lambda>_.
     bind_res (require (tr_conflict_error result = None) (ValueError ''IDLE_OWNER_TIMEOUT cannot contain conflict evidence'')) (\<lambda>_.
     bind_res (require (tr_rollback_disposition result = RB_NOT_POSSIBLE)
       (ValueError ''IDLE_OWNER_TIMEOUT requires rollback NOT_POSSIBLE'')) (\<lambda>_.
     require (discarded_or_failed result) (ValueError ''IDLE_OWNER_TIMEOUT requires connection DISCARDED or CLEANUP_FAILED''))))"

definition validate_precommit_failure_result :: "tx_result \<Rightarrow> unit res" where
  "validate_precommit_failure_result result =
     bind_res (require (tr_durability result = TX_NOT_COMMITTED)
       (ValueError ''pre-commit failure requires NOT_COMMITTED durability'')) (\<lambda>_.
     bind_res (require (no_evidence result)
       (ValueError ''pre-commit failure cannot contain statement or conflict evidence'')) (\<lambda>_.
     validate_rolled_back_acquired_result result ''pre-commit failure''))"

definition validate_entry_failure_common :: "tx_result \<Rightarrow> string \<Rightarrow> unit res" where
  "validate_entry_failure_common result failure_name =
     bind_res (require (tr_durability result = TX_NOT_COMMITTED)
       (ValueError (failure_name @ '' requires NOT_COMMITTED durability''))) (\<lambda>_.
     require (no_evidence result) (ValueError (failure_name @ '' cannot contain statement or conflict evidence'')))"

definition validate_autocommit_entry_failure_result :: "tx_result \<Rightarrow> unit res" where
  "validate_autocommit_entry_failure_result result =
     bind_res (validate_entry_failure_common result ''AUTOCOMMIT_ENABLED'') (\<lambda>_.
     bind_res (require (tr_rollback_disposition result = RB_NOT_REQUIRED)
       (ValueError ''AUTOCOMMIT_ENABLED requires rollback NOT_REQUIRED'')) (\<lambda>_.
     require (closed_or_failed result) (ValueError ''AUTOCOMMIT_ENABLED requires connection CLOSED or CLEANUP_FAILED'')))"

definition validate_discarded_entry_failure_result :: "tx_result \<Rightarrow> unit res" where
  "validate_discarded_entry_failure_result result =
     bind_res (validate_entry_failure_common result ''entry-state failure'') (\<lambda>_.
     bind_res (require (tr_rollback_disposition result = RB_NOT_POSSIBLE)
       (ValueError ''entry-state failure requires rollback NOT_POSSIBLE'')) (\<lambda>_.
     require (discarded_or_failed result) (ValueError ''entry-state failure requires connection DISCARDED or CLEANUP_FAILED'')))"

definition validate_result_coherence :: "tx_result \<Rightarrow> unit res" where
  "validate_result_coherence result =
     bind_res (validate_cleanup_coherence result) (\<lambda>_.
     let acquisition_failure = (tr_failure_category result = Some CONNECTION_ACQUISITION_FAILED)
     in bind_res (require (\<not> (tr_connection_disposition result = None \<and> \<not> acquisition_failure))
          (ValueError ''connection_disposition may be None only for connection acquisition failure'')) (\<lambda>_.
        if acquisition_failure then validate_acquisition_failure_result result
        else if tr_durability result = TX_COMMITTED then validate_committed_result result
        else if tr_durability result = TX_UNKNOWN then validate_unknown_result result
        else if tr_failure_category result = Some TX_CONFLICT then validate_conflict_result result
        else if tr_failure_category result = Some IDLE_OWNER_TIMEOUT then validate_idle_owner_timeout_result result
        else if tr_failure_category result \<in> set [Some TIMEOUT_CONFIGURATION_FAILED, Some STORE_OPERATION_FAILED]
        then validate_precommit_failure_result result
        else if tr_failure_category result = Some AUTOCOMMIT_ENABLED then validate_autocommit_entry_failure_result result
        else if tr_failure_category result \<in> set [Some TRANSACTION_NOT_IDLE, Some CONNECTION_STATE_UNAVAILABLE]
        then validate_discarded_entry_failure_result result
        else Inl (ValueError ''NOT_COMMITTED durability requires a supported pre-commit failure category'')))"

definition TransactionResult_init :: "tx_result \<Rightarrow> tx_result res" where
  "TransactionResult_init self = bind_res (validate_result_coherence self) (\<lambda>_. Inr self)"

section \<open>The connection\<close>

definition rc_rollback_call :: "unit rc" where
  "rc_rollback_call c = (case rc_rollback c of Inl x \<Rightarrow> (c, Inl x) | Inr u \<Rightarrow> (c\<lparr>rc_own := []\<rparr>, Inr u))"

definition rc_close_call :: "unit rc" where
  "rc_close_call c = (case rc_close c of Inl x \<Rightarrow> (c, Inl x) | Inr u \<Rightarrow> (c\<lparr>rc_own := []\<rparr>, Inr u))"

text \<open>A commit may fail, or take effect without the session hearing of it.\<close>

definition rc_commit_call :: "unit rc" where
  "rc_commit_call c =
     (case rc_take c of
        (c1, R_Fails x) \<Rightarrow> (c1\<lparr>rc_own := []\<rparr>, Inl x)
      | (c1, R_Ack_lost x) \<Rightarrow> (c1\<lparr>rc_committed := rc_visible c1, rc_own := []\<rparr>, Inl x)
      | (c1, R_Other rows events) \<Rightarrow>
          (let c2 = rc_foreign c1 rows events in (c2\<lparr>rc_committed := rc_visible c2, rc_own := []\<rparr>, Inr ()))
      | (c1, R_Quiet) \<Rightarrow> (c1\<lparr>rc_committed := rc_visible c1, rc_own := []\<rparr>, Inr ()))"

definition IDLE_OWNER_TIMEOUT_SQLSTATE :: string where
  "IDLE_OWNER_TIMEOUT_SQLSTATE = ''25P03''"

fun safe_sqlstate :: "receipt_error \<Rightarrow> string option" where
  "safe_sqlstate (Driver_error sqlstate _) = sqlstate"
| "safe_sqlstate _ = None"

fun is_characterized_idle_owner_timeout :: "receipt_error \<Rightarrow> bool" where
  "is_characterized_idle_owner_timeout (Driver_error sqlstate idle_class) =
     (idle_class \<or> sqlstate = Some IDLE_OWNER_TIMEOUT_SQLSTATE)"
| "is_characterized_idle_owner_timeout _ = False"

text \<open>Python's \<open>a or b\<close> on optional strings.\<close>

definition str_or :: "string option \<Rightarrow> string option \<Rightarrow> string option" where
  "str_or a b = (if a = None \<or> a = Some [] then b else a)"

definition close_connection ::
  "receipt_conn \<Rightarrow> DecisionReceiptConnectionDisposition
   \<Rightarrow> receipt_conn \<times> DecisionReceiptConnectionDisposition \<times> DecisionReceiptCleanupFailureCategory list \<times> string option" where
  "close_connection c success_disposition =
     (case rc_close_call c of
        (c1, Inl error) \<Rightarrow> (c1, CN_CLEANUP_FAILED, [CONNECTION_CLOSE_FAILED], safe_sqlstate error)
      | (c1, Inr _) \<Rightarrow> (c1, success_disposition, [], None))"

section \<open>PostgresDecisionReceiptTransactionOwner\<close>

definition TransactionOwner_init :: "int \<Rightarrow> int res" where
  "TransactionOwner_init idle_in_transaction_session_timeout_ms =
     (if idle_in_transaction_session_timeout_ms \<le> 0
      then Inl (ValueError ''idle_in_transaction_session_timeout_ms must be greater than zero'')
      else Inr idle_in_transaction_session_timeout_ms)"

definition blank_result :: "DecisionReceiptTransactionDurability \<Rightarrow> DecisionReceiptRollbackDisposition \<Rightarrow> tx_result" where
  "blank_result durability rollback_disposition =
     \<lparr>tr_durability = durability, tr_rollback_disposition = rollback_disposition, tr_statement_result = None,
      tr_failure_category = None, tr_conflict_error = None, tr_connection_disposition = None, tr_sqlstate = None,
      tr_cleanup_failures = []\<rparr>"

definition build_store :: "receipt_conn \<Rightarrow> unit rres" where
  "build_store c =
     (case rc_autocommit c of
        Inl x \<Rightarrow> Inl x
      | Inr auto_on \<Rightarrow>
          if auto_on then Inl (Python_error (ValueError ''connection.autocommit must be False'')) else Inr ())"

text \<open>\<open>set_config\<close> refuses a value above the range of the parameter.\<close>

definition apply_transaction_local_timeout :: "int \<Rightarrow> unit rc" where
  "apply_transaction_local_timeout timeout_ms =
     rc_bind rc_statement (\<lambda>_. rc_lift (if timeout_ms > 2147483647 then Inl (Driver_error (Some ''22023'') False) else Inr ()))"

definition connection_invariant_failure_result ::
  "receipt_conn \<Rightarrow> receipt_error option \<Rightarrow> DecisionReceiptTransactionFailureCategory \<Rightarrow> bool \<Rightarrow> receipt_conn \<times> tx_result res" where
  "connection_invariant_failure_result c error failure_category discard =
     (case close_connection c (if discard then CN_DISCARDED else CN_CLOSED) of
        (c1, disposition, cleanup_failures, cleanup_sqlstate) \<Rightarrow>
          (c1, TransactionResult_init
             ((blank_result TX_NOT_COMMITTED (if discard then RB_NOT_POSSIBLE else RB_NOT_REQUIRED))
                \<lparr>tr_failure_category := Some failure_category, tr_connection_disposition := Some disposition,
                 tr_sqlstate := str_or (case error of None \<Rightarrow> None | Some e \<Rightarrow> safe_sqlstate e) cleanup_sqlstate,
                 tr_cleanup_failures := cleanup_failures\<rparr>)))"

definition validate_connection_entry :: "receipt_conn \<Rightarrow> (receipt_conn \<times> tx_result res) option" where
  "validate_connection_entry c =
     (case rc_autocommit c of
        Inl error \<Rightarrow> Some (connection_invariant_failure_result c (Some error) CONNECTION_STATE_UNAVAILABLE True)
      | Inr auto_on \<Rightarrow>
          if auto_on then Some (connection_invariant_failure_result c None AUTOCOMMIT_ENABLED False)
          else case rc_idle c of
            Inl error \<Rightarrow> Some (connection_invariant_failure_result c (Some error) CONNECTION_STATE_UNAVAILABLE True)
          | Inr is_idle \<Rightarrow>
              if \<not> is_idle then Some (connection_invariant_failure_result c None TRANSACTION_NOT_IDLE True) else None)"

definition precommit_failure_result ::
  "receipt_conn \<Rightarrow> receipt_error \<Rightarrow> DecisionReceiptTransactionFailureCategory \<Rightarrow> receipt_error option \<Rightarrow> receipt_conn \<times> tx_result res" where
  "precommit_failure_result c error failure_category conflict_error =
     (let primary_sqlstate = safe_sqlstate error
      in case rc_rollback_call c of
           (c1, Inl rollback_error) \<Rightarrow>
             (case close_connection c1 CN_DISCARDED of
                (c2, disposition, close_failures, close_sqlstate) \<Rightarrow>
                  (c2, TransactionResult_init
                     ((blank_result TX_NOT_COMMITTED RB_FAILED)
                        \<lparr>tr_failure_category := Some failure_category, tr_conflict_error := conflict_error,
                         tr_connection_disposition := Some disposition,
                         tr_sqlstate := str_or (str_or primary_sqlstate (safe_sqlstate rollback_error)) close_sqlstate,
                         tr_cleanup_failures := ROLLBACK_FAILED # close_failures\<rparr>)))
         | (c1, Inr _) \<Rightarrow>
             (case close_connection c1 CN_CLOSED of
                (c2, disposition, cleanup_failures, cleanup_sqlstate) \<Rightarrow>
                  (c2, TransactionResult_init
                     ((blank_result TX_NOT_COMMITTED RB_CONFIRMED)
                        \<lparr>tr_failure_category := Some failure_category, tr_conflict_error := conflict_error,
                         tr_connection_disposition := Some disposition,
                         tr_sqlstate := str_or primary_sqlstate cleanup_sqlstate,
                         tr_cleanup_failures := cleanup_failures\<rparr>))))"

definition idle_owner_timeout_result ::
  "receipt_conn \<Rightarrow> receipt_error \<Rightarrow> DecisionReceiptInsertResult option \<Rightarrow> receipt_conn \<times> tx_result res" where
  "idle_owner_timeout_result c error statement_result =
     (case close_connection c CN_DISCARDED of
        (c1, disposition, cleanup_failures, cleanup_sqlstate) \<Rightarrow>
          (c1, TransactionResult_init
             ((blank_result TX_NOT_COMMITTED RB_NOT_POSSIBLE)
                \<lparr>tr_statement_result := statement_result, tr_failure_category := Some IDLE_OWNER_TIMEOUT,
                 tr_connection_disposition := Some disposition,
                 tr_sqlstate := str_or (safe_sqlstate error) cleanup_sqlstate, tr_cleanup_failures := cleanup_failures\<rparr>)))"

definition commit_ambiguous_result ::
  "receipt_conn \<Rightarrow> receipt_error \<Rightarrow> DecisionReceiptInsertResult \<Rightarrow> receipt_conn \<times> tx_result res" where
  "commit_ambiguous_result c error statement_result =
     (case close_connection c CN_DISCARDED of
        (c1, disposition, cleanup_failures, cleanup_sqlstate) \<Rightarrow>
          (c1, TransactionResult_init
             ((blank_result TX_UNKNOWN RB_NOT_POSSIBLE)
                \<lparr>tr_statement_result := Some statement_result, tr_failure_category := Some COMMIT_FAILED,
                 tr_connection_disposition := Some disposition,
                 tr_sqlstate := str_or (safe_sqlstate error) cleanup_sqlstate, tr_cleanup_failures := cleanup_failures\<rparr>)))"

definition committed_result :: "receipt_conn \<Rightarrow> DecisionReceiptInsertResult \<Rightarrow> receipt_conn \<times> tx_result res" where
  "committed_result c statement_result =
     (case close_connection c CN_CLOSED of
        (c1, disposition, cleanup_failures, cleanup_sqlstate) \<Rightarrow>
          (c1, TransactionResult_init
             ((blank_result TX_COMMITTED RB_NOT_REQUIRED)
                \<lparr>tr_statement_result := Some statement_result, tr_connection_disposition := Some disposition,
                 tr_sqlstate := cleanup_sqlstate, tr_cleanup_failures := cleanup_failures\<rparr>)))"

text \<open>\<open>persist()\<close> on an acquired connection.\<close>

definition persist_on ::
  "(pyval \<Rightarrow> pyval) \<Rightarrow> int \<Rightarrow> int \<Rightarrow> DecisionReceipt \<Rightarrow> DecisionReceiptMaterializationProvenance \<Rightarrow> receipt_conn
   \<Rightarrow> receipt_conn \<times> tx_result res" where
  "persist_on float_io now_ms timeout_ms receipt materialization_provenance c =
     (case validate_connection_entry c of
        Some entry_failure \<Rightarrow> entry_failure
      | None \<Rightarrow>
          (case apply_transaction_local_timeout timeout_ms c of
             (c1, Inl error) \<Rightarrow>
               if is_characterized_idle_owner_timeout error then idle_owner_timeout_result c1 error None
               else precommit_failure_result c1 error TIMEOUT_CONFIGURATION_FAILED None
           | (c1, Inr _) \<Rightarrow>
               (case rc_bind (rc_lift (build_store c1)) (\<lambda>_. receipt_insert float_io now_ms receipt materialization_provenance) c1 of
                  (c2, Inl error) \<Rightarrow>
                    (case error of
                       ReceiptConflict _ _ _ \<Rightarrow> precommit_failure_result c2 error TX_CONFLICT (Some error)
                     | _ \<Rightarrow>
                         if is_characterized_idle_owner_timeout error then idle_owner_timeout_result c2 error None
                         else precommit_failure_result c2 error STORE_OPERATION_FAILED None)
                | (c2, Inr statement_result) \<Rightarrow>
                    (case rc_commit_call c2 of
                       (c3, Inl error) \<Rightarrow>
                         if is_characterized_idle_owner_timeout error then idle_owner_timeout_result c3 error (Some statement_result)
                         else commit_ambiguous_result c3 error statement_result
                     | (c3, Inr _) \<Rightarrow> committed_result c3 statement_result))))"

definition persist ::
  "(pyval \<Rightarrow> pyval) \<Rightarrow> int \<Rightarrow> int \<Rightarrow> receipt_conn rres \<Rightarrow> DecisionReceipt \<Rightarrow> DecisionReceiptMaterializationProvenance
   \<Rightarrow> receipt_conn option \<times> tx_result res" where
  "persist float_io now_ms timeout_ms acquired receipt materialization_provenance =
     (case acquired of
        Inl error \<Rightarrow>
          (None, TransactionResult_init ((blank_result TX_NOT_COMMITTED RB_NOT_REQUIRED)
             \<lparr>tr_failure_category := Some CONNECTION_ACQUISITION_FAILED, tr_sqlstate := safe_sqlstate error\<rparr>))
      | Inr c \<Rightarrow> map_prod Some id (persist_on float_io now_ms timeout_ms receipt materialization_provenance c))"


section \<open>Every branch builds a coherent result\<close>

lemmas coherence_defs = TransactionResult_init_def validate_result_coherence_def validate_cleanup_coherence_def Let_def require_def
  blank_result_def no_evidence_def closed_or_failed_def discarded_or_failed_def validate_acquisition_failure_result_def
  validate_committed_result_def validate_unknown_result_def validate_rolled_back_acquired_result_def validate_conflict_result_def
  validate_idle_owner_timeout_result_def validate_precommit_failure_result_def validate_entry_failure_common_def
  validate_autocommit_entry_failure_result_def validate_discarded_entry_failure_result_def

lemma close_connection_cases:
  obtains (closed) c' where "close_connection c d = (c', d, [], None)" and "rc_committed c' = rc_committed c"
  | (stays_open) sqlstate where "close_connection c d = (c, CN_CLEANUP_FAILED, [CONNECTION_CLOSE_FAILED], sqlstate)"
  by (cases "rc_close c") (auto simp: close_connection_def rc_close_call_def)

lemma committed_result_built:
  obtains c' result where "committed_result c ins = (c', Inr result)" and "rc_committed c' = rc_committed c"
    and "tr_durability result = TX_COMMITTED" and "tr_statement_result result = Some ins"
  by (rule close_connection_cases [of c CN_CLOSED]) (auto simp: committed_result_def coherence_defs)

lemma commit_ambiguous_result_built:
  obtains c' result where "commit_ambiguous_result c x ins = (c', Inr result)" and "rc_committed c' = rc_committed c"
    and "tr_durability result = TX_UNKNOWN" and "tr_statement_result result = Some ins"
  by (rule close_connection_cases [of c CN_DISCARDED]) (auto simp: commit_ambiguous_result_def coherence_defs)

lemma idle_owner_timeout_result_built:
  obtains c' result where "idle_owner_timeout_result c x ins = (c', Inr result)" and "rc_committed c' = rc_committed c"
    and "tr_durability result = TX_NOT_COMMITTED"
  by (rule close_connection_cases [of c CN_DISCARDED]) (auto simp: idle_owner_timeout_result_def coherence_defs)

lemma precommit_failure_result_built:
  assumes "category = TX_CONFLICT \<and> conflict \<noteq> None
    \<or> category \<in> {TIMEOUT_CONFIGURATION_FAILED, STORE_OPERATION_FAILED} \<and> conflict = None"
  obtains c' result where "precommit_failure_result c x category conflict = (c', Inr result)"
    and "rc_committed c' = rc_committed c" and "tr_durability result = TX_NOT_COMMITTED"
proof (cases "rc_rollback c")
  case (Inl e)
  then show ?thesis using assms that
    by - (rule close_connection_cases [of c CN_DISCARDED]; auto simp: precommit_failure_result_def rc_rollback_call_def coherence_defs)
next
  case (Inr u)
  then show ?thesis using assms that
    by - (rule close_connection_cases [of "c\<lparr>rc_own := []\<rparr>" CN_CLOSED];
      auto simp: precommit_failure_result_def rc_rollback_call_def coherence_defs)
qed

lemma connection_invariant_failure_result_built:
  assumes "category = AUTOCOMMIT_ENABLED \<and> \<not> discard \<or> category \<in> {TRANSACTION_NOT_IDLE, CONNECTION_STATE_UNAVAILABLE} \<and> discard"
  obtains c' result where "connection_invariant_failure_result c x category discard = (c', Inr result)"
    and "rc_committed c' = rc_committed c" and "tr_durability result = TX_NOT_COMMITTED"
  using assms that
  by - (rule close_connection_cases [of c "if discard then CN_DISCARDED else CN_CLOSED"]; cases discard;
    auto simp: connection_invariant_failure_result_def coherence_defs)

lemma validate_connection_entry_built:
  obtains (usable) "validate_connection_entry c = None"
  | (refused) c' result where "validate_connection_entry c = Some (c', Inr result)" and "rc_committed c' = rc_committed c"
    and "tr_durability result = TX_NOT_COMMITTED"
proof -
  let ?built = "\<exists>c' result. validate_connection_entry c = Some (c', Inr result) \<and> rc_committed c' = rc_committed c
    \<and> tr_durability result = TX_NOT_COMMITTED"
  note built = connection_invariant_failure_result_built [where c = c]
  have "validate_connection_entry c = None \<or> ?built"
  proof (cases "rc_autocommit c")
    case (Inl x)
    then show ?thesis by (auto simp: validate_connection_entry_def intro: built [of CONNECTION_STATE_UNAVAILABLE True "Some x"])
  next
    case ac: (Inr b)
    show ?thesis
    proof (cases b)
      case True
      with ac show ?thesis by (auto simp: validate_connection_entry_def intro: built [of AUTOCOMMIT_ENABLED False None])
    next
      case b: False
      show ?thesis
      proof (cases "rc_idle c")
        case (Inl x)
        with ac b show ?thesis
          by (auto simp: validate_connection_entry_def intro: built [of CONNECTION_STATE_UNAVAILABLE True "Some x"])
      next
        case (Inr i)
        with ac b show ?thesis
          by (cases i) (auto simp: validate_connection_entry_def intro: built [of TRANSACTION_NOT_IDLE True None])
      qed
    qed
  qed
  then show ?thesis by (elim disjE exE conjE) (erule usable, erule refused)
qed

text \<open>The ways that \<open>persist()\<close> ends.\<close>

lemma persist_on_cases:
  obtains (refused) c' result where "persist_on float_io now_ms timeout_ms r prov c = (c', Inr result)"
      and "rc_committed c' = rc_committed c" and "tr_durability result = TX_NOT_COMMITTED"
  | (no_timeout) c1 x c' result where "rc_statement c = (c1, x)" and "persist_on float_io now_ms timeout_ms r prov c = (c', Inr result)"
      and "rc_committed c' = rc_committed c1" and "tr_durability result = TX_NOT_COMMITTED"
  | (no_insert) c1 c2 x c' result where "rc_statement c = (c1, Inr ())"
      and "receipt_insert float_io now_ms r prov c1 = (c2, Inl x) \<or> c2 = c1"
      and "persist_on float_io now_ms timeout_ms r prov c = (c', Inr result)"
      and "rc_committed c' = rc_committed c2" and "tr_durability result = TX_NOT_COMMITTED"
  | (no_commit) c1 c2 c3 ins x c' result where "rc_statement c = (c1, Inr ())"
      and "receipt_insert float_io now_ms r prov c1 = (c2, Inr ins)" and "rc_commit_call c2 = (c3, Inl x)"
      and "persist_on float_io now_ms timeout_ms r prov c = (c', Inr result)" and "rc_committed c' = rc_committed c3"
      and "if is_characterized_idle_owner_timeout x then tr_durability result = TX_NOT_COMMITTED
        else tr_durability result = TX_UNKNOWN \<and> tr_statement_result result = Some ins"
  | (commits) c1 c2 c3 ins c' result where "rc_statement c = (c1, Inr ())"
      and "receipt_insert float_io now_ms r prov c1 = (c2, Inr ins)" and "rc_commit_call c2 = (c3, Inr ())"
      and "persist_on float_io now_ms timeout_ms r prov c = (c', Inr result)" and "rc_committed c' = rc_committed c3"
      and "tr_durability result = TX_COMMITTED" and "tr_statement_result result = Some ins"
proof -
  let ?run = "persist_on float_io now_ms timeout_ms r prov c"
  show ?thesis
  proof (cases c rule: validate_connection_entry_built)
    case (refused c' result)
    then show ?thesis by (intro that(1) [of c' result]) (auto simp: persist_on_def)
  next
    case entry: usable
    obtain c1 y where st: "rc_statement c = (c1, y)" by force
    show ?thesis
    proof (cases "apply_transaction_local_timeout timeout_ms c")
      case (Pair c1' z)
      then have [simp]: "c1' = c1" using st by (auto simp: apply_transaction_local_timeout_def rc_bind_def rc_lift_def split: sum.splits)
      show ?thesis
      proof (cases z)
        case (Inl x)
        have run: "?run = (if is_characterized_idle_owner_timeout x then idle_owner_timeout_result c1 x None
            else precommit_failure_result c1 x TIMEOUT_CONFIGURATION_FAILED None)"
          by (simp add: persist_on_def entry Pair Inl)
        obtain c' result where "?run = (c', Inr result)" "rc_committed c' = rc_committed c1" "tr_durability result = TX_NOT_COMMITTED"
          unfolding run by (cases "is_characterized_idle_owner_timeout x")
            (auto intro: idle_owner_timeout_result_built [of c1 x None]
              precommit_failure_result_built [of TIMEOUT_CONFIGURATION_FAILED None c1 x])
        with that(2) st show ?thesis by blast
      next
        case (Inr u)
        with Pair st have y: "rc_statement c = (c1, Inr ())"
          by (auto simp: apply_transaction_local_timeout_def rc_bind_def split: sum.splits)
        obtain c2 w where ins: "rc_bind (rc_lift (build_store c1)) (\<lambda>_. receipt_insert float_io now_ms r prov) c1 = (c2, w)" by force
        show ?thesis
        proof (cases w)
          case x: (Inl x)
          define conflict where "conflict = (case x of ReceiptConflict _ _ _ \<Rightarrow> True | _ \<Rightarrow> False)"
          have "?run = (if conflict then precommit_failure_result c2 x TX_CONFLICT (Some x)
              else if is_characterized_idle_owner_timeout x then idle_owner_timeout_result c2 x None
              else precommit_failure_result c2 x STORE_OPERATION_FAILED None)"
            by (simp add: persist_on_def entry Pair Inr ins x conflict_def split: receipt_error.splits)
          then obtain c' result where "?run = (c', Inr result)" "rc_committed c' = rc_committed c2" "tr_durability result = TX_NOT_COMMITTED"
            by (cases conflict) (auto intro: idle_owner_timeout_result_built [of c2 x None]
              precommit_failure_result_built [of TX_CONFLICT "Some x" c2 x] precommit_failure_result_built [of STORE_OPERATION_FAILED None c2 x]
              split: if_splits)
          moreover have "receipt_insert float_io now_ms r prov c1 = (c2, Inl x) \<or> c2 = c1"
            using ins x by (auto simp: rc_bind_def rc_lift_def split: sum.splits)
          ultimately show ?thesis using that(3) y by blast
        next
          case (Inr ins')
          then have i: "receipt_insert float_io now_ms r prov c1 = (c2, Inr ins')"
            using ins by (auto simp: rc_bind_def rc_lift_def split: sum.splits)
          obtain c3 k where com: "rc_commit_call c2 = (c3, k)" by force
          show ?thesis
          proof (cases k)
            case k: (Inl x)
            have run: "?run = (if is_characterized_idle_owner_timeout x then idle_owner_timeout_result c3 x (Some ins')
                else commit_ambiguous_result c3 x ins')"
              by (simp add: persist_on_def entry Pair \<open>z = Inr u\<close> ins Inr com k)
            obtain c' result where "?run = (c', Inr result)" "rc_committed c' = rc_committed c3"
              "if is_characterized_idle_owner_timeout x then tr_durability result = TX_NOT_COMMITTED
               else tr_durability result = TX_UNKNOWN \<and> tr_statement_result result = Some ins'"
              unfolding run by (cases "is_characterized_idle_owner_timeout x")
                (auto intro: idle_owner_timeout_result_built [of c3 x "Some ins'"] commit_ambiguous_result_built [of c3 x ins'])
            with that(4) y i com k show ?thesis by blast
          next
            case k: (Inr v)
            obtain c' result where "?run = (c', Inr result)" "rc_committed c' = rc_committed c3"
              "tr_durability result = TX_COMMITTED" "tr_statement_result result = Some ins'"
              by (rule committed_result_built [of c3 ins']) (simp add: persist_on_def entry Pair \<open>z = Inr u\<close> ins Inr com k)
            with that(5) y i com k show ?thesis by simp
          qed
        qed
      qed
    qed
  qed
qed

lemma result_built:
  "\<exists>self. snd (committed_result c ins) = TransactionResult_init self"
  "\<exists>self. snd (commit_ambiguous_result c x ins) = TransactionResult_init self"
  "\<exists>self. snd (idle_owner_timeout_result c x stmt) = TransactionResult_init self"
  "\<exists>self. snd (connection_invariant_failure_result c e category discard) = TransactionResult_init self"
  "\<exists>self. snd (precommit_failure_result c x category conflict) = TransactionResult_init self"
  by (auto simp: committed_result_def commit_ambiguous_result_def idle_owner_timeout_result_def connection_invariant_failure_result_def
      precommit_failure_result_def Let_def split: prod.splits sum.splits)

lemma persist_on_built: "\<exists>self. snd (persist_on float_io now_ms timeout_ms r prov c) = TransactionResult_init self"
  by (simp add: persist_on_def validate_connection_entry_def result_built
      split: prod.splits sum.splits option.splits receipt_error.splits)

lemma init_coherent: "TransactionResult_init self = Inr result \<Longrightarrow> validate_result_coherence result = Inr ()"
  by (cases "validate_result_coherence self") (auto simp: TransactionResult_init_def)

lemma persist_on_reports:
  obtains c' result where "persist_on float_io now_ms timeout_ms r prov c = (c', Inr result)" and "validate_result_coherence result = Inr ()"
proof -
  obtain c' result where run: "persist_on float_io now_ms timeout_ms r prov c = (c', Inr result)"
    by (rule persist_on_cases [of float_io now_ms timeout_ms r prov c])
  with persist_on_built [of float_io now_ms timeout_ms r prov c] init_coherent that show ?thesis by auto
qed

lemma persist_returns:
  obtains c' result where "persist float_io now_ms timeout_ms acquired r prov = (c', Inr result)" and "validate_result_coherence result = Inr ()"
proof (cases acquired)
  case (Inl x)
  with that show ?thesis by (simp add: persist_def coherence_defs)
next
  case (Inr c)
  obtain c' result where "persist_on float_io now_ms timeout_ms r prov c = (c', Inr result)" "validate_result_coherence result = Inr ()"
    by (rule persist_on_reports)
  with Inr that show ?thesis by (simp add: persist_def)
qed

lemma unusable_connection_untouched:
  assumes "rc_autocommit c \<noteq> Inr False \<or> rc_idle c \<noteq> Inr True"
  shows "rc_schedule (fst (persist_on float_io now_ms timeout_ms r prov c)) = rc_schedule c"
proof -
  have "rc_schedule (fst (connection_invariant_failure_result c e category discard)) = rc_schedule c" for e category discard
    by (simp add: connection_invariant_failure_result_def close_connection_def rc_close_call_def split: sum.splits)
  then show ?thesis using assms
    by (cases "rc_autocommit c"; cases "rc_idle c") (auto simp: persist_on_def validate_connection_entry_def)
qed

section \<open>Properties\<close>

text \<open>
  C30: The transaction owner always reports. Whatever the connection, the store and the cleanup do, persisting a receipt raises
  nothing and returns a result that its own coherence rules accept; a connection that was not
  acquired, is in autocommit mode, is not idle or whose state cannot be read is never used for a
  statement.
\<close>

theorem persist_always_reports:
  "(\<exists>c' result. persist float_io now_ms timeout_ms acquired r prov = (c', Inr result) \<and> validate_result_coherence result = Inr ())
   \<and> (case acquired of Inl x \<Rightarrow> fst (persist float_io now_ms timeout_ms acquired r prov) = None
      | Inr c \<Rightarrow> rc_autocommit c \<noteq> Inr False \<or> rc_idle c \<noteq> Inr True \<longrightarrow>
          (\<exists>c'. fst (persist float_io now_ms timeout_ms acquired r prov) = Some c' \<and> rc_schedule c' = rc_schedule c))"
proof (cases acquired)
  case (Inl x)
  then show ?thesis by (simp add: persist_def coherence_defs)
next
  case (Inr c)
  obtain c' result where "persist_on float_io now_ms timeout_ms r prov c = (c', Inr result)" "validate_result_coherence result = Inr ()"
    by (rule persist_on_reports)
  with Inr unusable_connection_untouched [of c float_io now_ms timeout_ms r prov] show ?thesis by (simp add: persist_def)
qed

text \<open>The receipt is durable on a database: a committed row of its identity reads back as the record
  of the insert and has its payload.\<close>

definition receipt_durable :: "receipt_conn \<Rightarrow> DecisionReceipt \<Rightarrow> json_object \<Rightarrow> DecisionReceiptInsertResult \<Rightarrow> bool" where
  "receipt_durable c r payload ins \<longleftrightarrow>
     (\<exists>row \<in> set (rc_committed c). rr_receipt_id row = dr_receipt_id r \<and> persisted_decision_receipt_from_row row = Inr (ir_record ins))
     \<and> same_versioned_payload (ir_record ins) payload = Inr True"

definition only_others_committed :: "receipt_conn \<Rightarrow> receipt_conn \<Rightarrow> bool" where
  "only_others_committed c c' \<longleftrightarrow> (\<exists>rows. rc_committed c' = rc_committed c @ rows \<and> set rows \<subseteq> rc_others c)"

lemma only_others_trans:
  assumes "only_others_committed c c1" and "set (rc_schedule c1) \<subseteq> set (rc_schedule c)" and "only_others_committed c1 c2"
  shows "only_others_committed c c2"
proof -
  from assms(2) have "rc_others c1 \<subseteq> rc_others c" unfolding rc_others_def by blast
  moreover from assms(1,3) obtain r1 r2 where "rc_committed c1 = rc_committed c @ r1" "set r1 \<subseteq> rc_others c"
    "rc_committed c2 = rc_committed c1 @ r2" "set r2 \<subseteq> rc_others c1" unfolding only_others_committed_def by blast
  ultimately show ?thesis unfolding only_others_committed_def by (intro exI [of _ "r1 @ r2"]) auto
qed

lemma moves_only_others: "rc_moves c c' \<Longrightarrow> only_others_committed c c' \<and> set (rc_schedule c') \<subseteq> set (rc_schedule c)"
  by (simp add: rc_moves_def only_others_committed_def)

lemma commit_call_cases:
  assumes "rc_commit_call c = (c', res)"
  obtains (lost) x where "res = Inl x" and "only_others_committed c c'"
  | (unheard) x where "res = Inl x" and "R_Ack_lost x \<in> set (rc_schedule c)" and "set (rc_visible c) \<subseteq> set (rc_committed c')"
  | (acknowledged) "res = Inr ()" and "set (rc_visible c) \<subseteq> set (rc_committed c')"
  using assms that
  by (auto simp: rc_commit_call_def rc_take_def rc_visible_def rc_foreign_def only_others_committed_def Let_def
      split: list.splits receipt_event.splits if_splits; blast)

lemma insert_visible:
  assumes "rc_inv c" and "receipt_ok r" and "receipt_floatless r" and "serialize_decision_receipt r = Inr payload"
    and "receipt_insert float_io now_ms r prov c = (c', res)"
  shows "only_others_committed c c'" and "set (rc_schedule c') \<subseteq> set (rc_schedule c)"
    and "res = Inr ins \<Longrightarrow> set (rc_visible c') \<subseteq> set (rc_committed c2) \<Longrightarrow> receipt_durable c2 r payload ins"
proof -
  from assms(4) have i: "receipt_int64 r" using read_receipt_ok [OF written_receipt_read [OF assms(2,4)]] by blast
  have "only_others_committed c c' \<and> set (rc_schedule c') \<subseteq> set (rc_schedule c)
    \<and> (res = Inr ins \<longrightarrow> set (rc_visible c') \<subseteq> set (rc_committed c2) \<longrightarrow> receipt_durable c2 r payload ins)"
    using assms(1,2) i assms(3-5)
  proof (cases rule: insert_cases)
    case (inserted c1 ev md)
    let ?row = "row_for r ev md prov now_ms"
    have "?row \<in> set (rc_visible c')" "rr_receipt_id ?row = dr_receipt_id r" by (simp_all add: inserted(4) rc_visible_def row_for_def)
    with inserted(8) row_for_hydrates(1) [OF assms(2) i inserted(6,7), of prov now_ms] stored_same_payload [OF assms(2) i inserted(6,7) assms(4)]
    have "res = Inr ins \<longrightarrow> set (rc_visible c') \<subseteq> set (rc_committed c2) \<longrightarrow> receipt_durable c2 r payload ins"
      by (auto simp: receipt_durable_def)
    with moves_only_others [OF inserted(1)] show ?thesis by (simp add: inserted(4) only_others_committed_def)
  next
    case (present ins)
    with moves_only_others [OF present(1)] show ?thesis by (auto simp: already_present_def receipt_durable_def)
  next
    case (error x)
    with moves_only_others [OF error(1)] show ?thesis by simp
  qed
  then show "only_others_committed c c'" "set (rc_schedule c') \<subseteq> set (rc_schedule c)"
    "res = Inr ins \<Longrightarrow> set (rc_visible c') \<subseteq> set (rc_committed c2) \<Longrightarrow> receipt_durable c2 r payload ins" by simp_all
qed

text \<open>What a result says about durability is true of the database.\<close>

definition durability_true :: "receipt_conn \<Rightarrow> receipt_conn \<Rightarrow> DecisionReceipt \<Rightarrow> json_object \<Rightarrow> tx_result \<Rightarrow> bool" where
  "durability_true c c' r payload result \<longleftrightarrow>
     (case tr_durability result of
        TX_COMMITTED \<Rightarrow> \<exists>ins. tr_statement_result result = Some ins \<and> receipt_durable c' r payload ins
      | TX_NOT_COMMITTED \<Rightarrow> only_others_committed c c'
      | TX_UNKNOWN \<Rightarrow> \<exists>ins. tr_statement_result result = Some ins \<and> (receipt_durable c' r payload ins \<or> only_others_committed c c'))"

text \<open>The owner relies on the server: a session that it ends for being idle in a transaction was not committed.\<close>

definition idle_timeout_means_rollback :: "receipt_conn \<Rightarrow> bool" where
  "idle_timeout_means_rollback c \<longleftrightarrow> (\<forall>x. R_Ack_lost x \<in> set (rc_schedule c) \<longrightarrow> \<not> is_characterized_idle_owner_timeout x)"

lemma persist_durability:
  assumes "rc_inv c" and "receipt_ok r" and "receipt_floatless r" and "serialize_decision_receipt r = Inr payload"
    and "idle_timeout_means_rollback c" and "persist float_io now_ms timeout_ms (Inr c) r prov = (Some c', Inr result)"
  shows "durability_true c c' r payload result"
proof -
  have run: "persist_on float_io now_ms timeout_ms r prov c = (c', Inr result)" using assms(6)
    by (cases "persist_on float_io now_ms timeout_ms r prov c") (simp add: persist_def)
  have same: "rc_committed d = rc_committed d' \<Longrightarrow> only_others_committed c d = only_others_committed c d'"
    "rc_committed d = rc_committed d' \<Longrightarrow> receipt_durable d r payload = receipt_durable d' r payload" for d d'
    by (auto simp: only_others_committed_def receipt_durable_def fun_eq_iff)
  have timeout: "only_others_committed c c1 \<and> set (rc_schedule c1) \<subseteq> set (rc_schedule c) \<and> rc_inv c1" if "rc_statement c = (c1, y)" for c1 y
    using rc_statement_moves [OF assms(1) that] moves_only_others by blast
  have inserted: "only_others_committed c c2 \<and> set (rc_schedule c2) \<subseteq> set (rc_schedule c)
      \<and> (\<forall>ins d. y = Inr ins \<longrightarrow> set (rc_visible c2) \<subseteq> set (rc_committed d) \<longrightarrow> receipt_durable d r payload ins)"
    if "rc_statement c = (c1, u)" and "receipt_insert float_io now_ms r prov c1 = (c2, y)" for c1 c2 u y
  proof -
    note t = timeout [OF that(1)]
    note v = insert_visible [OF conjunct2 [OF conjunct2 [OF t]] assms(2-4) that(2)]
    show ?thesis using only_others_trans [OF _ _ v(1)] t v(2,3) by blast
  qed
  note durability_true_def [simp]
  show ?thesis
  proof (cases rule: persist_on_cases [of float_io now_ms timeout_ms r prov c])
    case refused
    with run same(1) show ?thesis by (simp add: only_others_committed_def)
  next
    case (no_timeout c1)
    with run same(1) [of c' c1] timeout show ?thesis by auto
  next
    case (no_insert c1 c2)
    with run same(1) [of c' c2] timeout inserted show ?thesis by auto
  next
    case (no_commit c1 c2 c3 ins x)
    note i = inserted [OF no_commit(1,2)]
    have r: "rc_committed c' = rc_committed c3" "if is_characterized_idle_owner_timeout x then tr_durability result = TX_NOT_COMMITTED
        else tr_durability result = TX_UNKNOWN \<and> tr_statement_result result = Some ins" using no_commit run by simp_all
    from no_commit(3) show ?thesis
    proof (cases rule: commit_call_cases)
      case lost
      with i have "only_others_committed c c3" using only_others_trans by blast
      with r same(1) [of c' c3] show ?thesis by (auto split: if_splits)
    next
      case (unheard y)
      with i assms(5) [unfolded idle_timeout_means_rollback_def] have "\<not> is_characterized_idle_owner_timeout x" by auto
      moreover have "receipt_durable c3 r payload ins" using i unheard by blast
      ultimately show ?thesis using r same(2) [of c' c3] by simp
    qed simp
  next
    case (commits c1 c2 c3 ins)
    from commits(3) have "set (rc_visible c2) \<subseteq> set (rc_committed c3)" by (cases rule: commit_call_cases) auto
    with inserted [OF commits(1,2)] have "receipt_durable c3 r payload ins" by blast
    with commits run same(2) [of c' c3] show ?thesis by simp
  qed
qed

text \<open>Nothing that was committed is lost.\<close>

lemma commit_call_keeps: "rc_commit_call c = (c', res) \<Longrightarrow> set (rc_committed c) \<subseteq> set (rc_committed c')"
  by (cases rule: commit_call_cases) (auto simp: only_others_committed_def rc_visible_def)

lemma only_others_keeps: "only_others_committed c c' \<Longrightarrow> set (rc_committed c) \<subseteq> set (rc_committed c')"
  by (auto simp: only_others_committed_def)

lemma persist_keeps_rows:
  assumes "rc_inv c" and "receipt_ok r" and "receipt_floatless r" and "serialize_decision_receipt r = Inr payload"
    and "persist float_io now_ms timeout_ms (Inr c) r prov = (Some c', Inr result)"
  shows "set (rc_committed c) \<subseteq> set (rc_committed c')"
proof -
  have run: "persist_on float_io now_ms timeout_ms r prov c = (c', Inr result)" using assms(5)
    by (cases "persist_on float_io now_ms timeout_ms r prov c") (simp add: persist_def)
  have st: "set (rc_committed c) \<subseteq> set (rc_committed c1) \<and> rc_inv c1" if "rc_statement c = (c1, y)" for c1 y
    using rc_statement_moves [OF assms(1) that] moves_only_others only_others_keeps by blast
  have ins: "set (rc_committed c1) \<subseteq> set (rc_committed c2)" if "rc_inv c1" "receipt_insert float_io now_ms r prov c1 = (c2, y)" for c1 c2 y
    by (rule only_others_keeps [OF insert_visible(1) [OF that(1) assms(2-4) that(2)]])
  show ?thesis
    by (rule persist_on_cases [of float_io now_ms timeout_ms r prov c])
      (use run st ins commit_call_keeps in \<open>simp; blast\<close>)+
qed

text \<open>On a usable connection that nothing disturbs, a new receipt is committed.\<close>

lemma quiet_persist:
  assumes c: "rc_schedule c = []" "rc_own c = []" "rc_autocommit c = Inr False" "rc_idle c = Inr True" and t: "timeout_ms \<le> 2147483647"
    and r: "receipt_ok r" "receipt_int64 r" "receipt_portable r" "serialize_decision_receipt r = Inr payload"
    and new: "dr_receipt_id r \<notin> set (map rr_receipt_id (rc_committed c))"
      "admitted_write_side_accepted_event_id r = None \<or> admitted_write_side_accepted_event_id r \<notin> set (map admitted_write_side_event (rc_committed c))"
      "opt_checked (\<lambda>e. e \<in> set (rc_events c)) (dc_accepted_event_id (dr_correlation r))"
  obtains c' result row where "persist float_io now_ms timeout_ms (Inr c) r prov = (Some c', Inr result)" and "tr_durability result = TX_COMMITTED"
    and "rc_committed c' = rc_committed c @ [row]" and "rr_receipt_id row = dr_receipt_id r"
    and "admitted_write_side_event row = admitted_write_side_accepted_event_id r"
proof -
  have vis: "rc_visible c = rc_committed c" using c(2) by (simp add: rc_visible_def)
  obtain row ins where ins: "receipt_insert float_io now_ms r prov c = (c\<lparr>rc_own := rc_own c @ [row]\<rparr>, Inr ins)"
    and row: "rr_receipt_id row = dr_receipt_id r" "admitted_write_side_event row = admitted_write_side_accepted_event_id r"
    by (rule quiet_insert [OF c(1) r new [folded vis]])
  let ?c2 = "c\<lparr>rc_own := rc_own c @ [row]\<rparr>" and ?c3 = "c\<lparr>rc_own := [], rc_committed := rc_committed c @ [row]\<rparr>"
  have com: "rc_commit_call ?c2 = (?c3, Inr ())"
    using c(1,2) by (simp add: rc_commit_call_def rc_take_def rc_visible_def)
  have "rc_statement c = (c, Inr ())" using c(1) by (simp add: rc_statement_def rc_take_def)
  then have "persist_on float_io now_ms timeout_ms r prov c = committed_result ?c3 ins"
    using c t by (simp add: persist_on_def validate_connection_entry_def build_store_def apply_transaction_local_timeout_def rc_bind_def rc_lift_def
        ins [simplified c(2) append_Nil] com [simplified c(2) append_Nil])
  moreover obtain c' result where "committed_result ?c3 ins = (c', Inr result)" "rc_committed c' = rc_committed ?c3" "tr_durability result = TX_COMMITTED"
    by (rule committed_result_built)
  ultimately show ?thesis using that [of c' result row] row by (simp add: persist_def)
qed

text \<open>
  C9: What the transaction owner says about durability is true. Among any other sessions and any failures of the
  connection, for a well-formed receipt whose documents hold no floats: COMMITTED means that the database
  holds a committed row of the receipt's identity that reads back as the reported record and has the
  receipt's payload; NOT_COMMITTED means that nothing was committed but rows of other sessions; UNKNOWN, that one of the two holds,
  with the statement's result kept as evidence. The owner relies on the server: a
  session that it ends for being idle in a transaction was not committed.
\<close>

theorem persist_durability_true:
  assumes "rc_inv c" and "receipt_ok r" and "receipt_floatless r" and "serialize_decision_receipt r = Inr payload"
    and "idle_timeout_means_rollback c"
    and "persist float_io now_ms timeout_ms (Inr c) r prov = (Some c', Inr result)"
  shows "case tr_durability result of
      TX_COMMITTED \<Rightarrow> \<exists>ins. tr_statement_result result = Some ins \<and> receipt_durable c' r payload ins
    | TX_NOT_COMMITTED \<Rightarrow> only_others_committed c c'
    | TX_UNKNOWN \<Rightarrow> \<exists>ins. tr_statement_result result = Some ins \<and> (receipt_durable c' r payload ins \<or> only_others_committed c c')"
  using persist_durability [OF assms] unfolding durability_true_def .

lemma sample_persist:
  obtains payload c' result where "serialize_decision_receipt sample_receipt = Inr payload"
    and "persist id 0 5000 (Inr sample_receipt_conn) sample_receipt LIVE_RESULT = (Some c', Inr result)" and "tr_durability result = TX_COMMITTED"
proof -
  obtain payload where p: "serialize_decision_receipt sample_receipt = Inr payload" using serialize_total [OF sample_receipt_ok] by blast
  obtain c' result where "persist id 0 5000 (Inr sample_receipt_conn) sample_receipt LIVE_RESULT = (Some c', Inr result)"
    "tr_durability result = TX_COMMITTED"
    by (rule quiet_persist [OF sample_conn_new(1) _ _ _ _ sample_receipt_ok sample_portable p sample_conn_new(2-4), where timeout_ms = 5000
          and float_io = id and now_ms = 0 and prov = LIVE_RESULT]) (simp_all add: sample_receipt_conn_def)
  with that p show ?thesis by blast
qed

theorem persist_always_reports_witness:
  "\<exists>c'. fst (persist id 0 5000 (Inr (sample_receipt_conn\<lparr>rc_autocommit := Inr True\<rparr>)) sample_receipt LIVE_RESULT) = Some c'
     \<and> rc_schedule c' = []"
  using persist_always_reports [of id 0 5000 "Inr (sample_receipt_conn\<lparr>rc_autocommit := Inr True\<rparr>)" sample_receipt LIVE_RESULT]
  by (auto simp: sample_receipt_conn_def)

theorem persist_durability_true_witness:
  "\<exists>payload c' result ins. serialize_decision_receipt sample_receipt = Inr payload
     \<and> persist id 0 5000 (Inr sample_receipt_conn) sample_receipt LIVE_RESULT = (Some c', Inr result)
     \<and> tr_durability result = TX_COMMITTED \<and> receipt_durable c' sample_receipt payload ins"
proof -
  obtain payload c' result where run: "serialize_decision_receipt sample_receipt = Inr payload"
    "persist id 0 5000 (Inr sample_receipt_conn) sample_receipt LIVE_RESULT = (Some c', Inr result)"
    "tr_durability result = TX_COMMITTED" by (rule sample_persist)
  have "idle_timeout_means_rollback sample_receipt_conn"
    by (simp add: idle_timeout_means_rollback_def sample_receipt_conn_def)
  from persist_durability_true [OF sample_conn_inv sample_receipt_ok(1) sample_floatless run(1) this run(2)] run show ?thesis by auto
qed

end
