(* ===== verification/Receipt_Runtime.thy ===== *)
theory Receipt_Runtime
  imports Invocation_Owner Receipt_Mapping Receipt_Transaction
begin

text \<open>
  Receipts of live invocations: the owner of one materialisation
  (pipeline/transactional/postgres_write_side_decision_receipt_materialization_owner.py), its
  composition with one receipt transaction (..._persistence_composition_owner.py), the runtime owner
  that binds both to the results of an invocation owner (..._runtime_owner.py) and its builder
  (bootstrap/build_postgres_write_side_decision_receipt_runtime.py). An \<open>AssertionError\<close> is
  written as a \<open>RuntimeError\<close>; no handler tells the two apart.
\<close>

section \<open>Materialisation\<close>

datatype MaterializationStatus = MATERIALIZED | MATERIALIZATION_FAILED

datatype MaterializationFailureCategory = TYPE_ERROR | VALUE_ERROR

record MaterializationDelivery =
  md_business_result :: PostgresWriteSideResult
  md_status :: MaterializationStatus
  md_receipt :: "DecisionReceipt option"
  md_failure_category :: "MaterializationFailureCategory option"

definition MaterializationDelivery_init :: "MaterializationDelivery \<Rightarrow> MaterializationDelivery res" where
  "MaterializationDelivery_init self =
     (if md_status self = MATERIALIZED
      then bind_res (require (md_receipt self \<noteq> None) (TypeError ''receipt must be DecisionReceipt when status is MATERIALIZED'')) (\<lambda>_.
           bind_res (require (md_failure_category self = None) (ValueError ''failure_category must be None when status is MATERIALIZED''))
             (\<lambda>_. Inr self))
      else bind_res (require (md_receipt self = None) (ValueError ''receipt must be None when status is MATERIALIZATION_FAILED'')) (\<lambda>_.
           bind_res (require (md_failure_category self \<noteq> None) (TypeError
             ''failure_category must be PostgresWriteSideDecisionReceiptMaterializationFailureCategory when status is MATERIALIZATION_FAILED''))
             (\<lambda>_. Inr self)))"

record MaterializationOwner =
  mo_completed_result :: PostgresWriteSideResult
  mo_receipt_id :: "string option"
  mo_outcome_id :: "string option"
  mo_cached_delivery :: "MaterializationDelivery option"

definition MaterializationOwner_init :: "PostgresWriteSideResult \<Rightarrow> MaterializationOwner" where
  "MaterializationOwner_init completed_result =
     \<lparr>mo_completed_result = completed_result, mo_receipt_id = None, mo_outcome_id = None, mo_cached_delivery = None\<rparr>"

text \<open>\<open>factory\<close> is what calling the identity factory gives.\<close>

definition identity_from_factory :: "pyval res \<Rightarrow> string \<Rightarrow> string res" where
  "identity_from_factory factory factory_name =
     bind_res factory (\<lambda>identity. case identity of VUuid u \<Rightarrow> Inr u | _ \<Rightarrow> Inl (TypeError (factory_name @ '' must return UUID'')))"

definition require_materialization_identities ::
  "MaterializationOwner \<Rightarrow> pyval res \<Rightarrow> pyval res \<Rightarrow> MaterializationOwner \<times> (string \<times> string) res" where
  "require_materialization_identities self receipt_id_factory outcome_id_factory =
     (case (mo_receipt_id self, mo_outcome_id self) of
        (None, None) \<Rightarrow>
          (case bind_res (identity_from_factory receipt_id_factory ''receipt_id_factory'') (\<lambda>receipt_id.
                bind_res (identity_from_factory outcome_id_factory ''outcome_id_factory'') (\<lambda>oid. Inr (receipt_id, oid))) of
             Inl x \<Rightarrow> (self, Inl x)
           | Inr (receipt_id, oid) \<Rightarrow>
               (self\<lparr>mo_receipt_id := Some receipt_id, mo_outcome_id := Some oid\<rparr>, Inr (receipt_id, oid)))
      | (Some receipt_id, Some oid) \<Rightarrow> (self, Inr (receipt_id, oid))
      | _ \<Rightarrow> (self, Inl (RuntimeError ''materialization identities must be coherent'')))"

definition failed_delivery :: "MaterializationOwner \<Rightarrow> MaterializationFailureCategory \<Rightarrow> MaterializationDelivery res" where
  "failed_delivery self failure_category =
     MaterializationDelivery_init \<lparr>md_business_result = mo_completed_result self, md_status = MATERIALIZATION_FAILED,
       md_receipt = None, md_failure_category = Some failure_category\<rparr>"

definition materialize :: "MaterializationOwner \<Rightarrow> pyval res \<Rightarrow> pyval res \<Rightarrow> MaterializationOwner \<times> MaterializationDelivery res" where
  "materialize self receipt_id_factory outcome_id_factory =
     (case mo_cached_delivery self of
        Some delivery \<Rightarrow> (self, Inr delivery)
      | None \<Rightarrow>
          (case require_materialization_identities self receipt_id_factory outcome_id_factory of
             (self1, Inl x) \<Rightarrow> (self1, Inl x)
           | (self1, Inr (receipt_id, oid)) \<Rightarrow>
               (case (case map_postgres_write_side_result_to_decision_receipt receipt_id oid (mo_completed_result self1) of
                        Inl x \<Rightarrow>
                          (case x of
                             TypeError _ \<Rightarrow> failed_delivery self1 TYPE_ERROR
                           | _ \<Rightarrow> if is_ValueError x then failed_delivery self1 VALUE_ERROR else Inl x)
                      | Inr receipt \<Rightarrow>
                          MaterializationDelivery_init \<lparr>md_business_result = mo_completed_result self1, md_status = MATERIALIZED,
                            md_receipt = Some receipt, md_failure_category = None\<rparr>) of
                  Inl x \<Rightarrow> (self1, Inl x)
                | Inr delivery \<Rightarrow> (self1\<lparr>mo_cached_delivery := Some delivery\<rparr>, Inr delivery))))"

section \<open>Composition with one receipt transaction\<close>

record PersistenceCompositionDelivery =
  pc_business_result :: PostgresWriteSideResult
  pc_materialization_delivery :: MaterializationDelivery
  pc_persistence_reached :: bool
  pc_persistence_result :: "tx_result option"

text \<open>\<open>is not\<close> on the two business results is inequality of the values.\<close>

definition PersistenceCompositionDelivery_init :: "PersistenceCompositionDelivery \<Rightarrow> PersistenceCompositionDelivery res" where
  "PersistenceCompositionDelivery_init self =
     bind_res (require (pc_business_result self = md_business_result (pc_materialization_delivery self))
       (ValueError ''business_result must be the exact materialization business result'')) (\<lambda>_.
     if md_status (pc_materialization_delivery self) = MATERIALIZATION_FAILED
     then bind_res (require (\<not> pc_persistence_reached self) (ValueError ''failed materialization cannot reach persistence'')) (\<lambda>_.
          bind_res (require (pc_persistence_result self = None) (ValueError ''failed materialization cannot carry persistence_result''))
            (\<lambda>_. Inr self))
     else bind_res (require (pc_persistence_reached self) (ValueError ''materialized delivery must reach receipt persistence'')) (\<lambda>_.
          bind_res (require (pc_persistence_result self \<noteq> None) (TypeError
            ''persistence_result must be PostgresDecisionReceiptTransactionResult when persistence is reached'')) (\<lambda>_. Inr self)))"

text \<open>The receipt transaction owner is represented by its timeout.\<close>

record PersistenceCompositionOwner =
  co_materialization_owner :: MaterializationOwner
  co_receipt_transaction_owner :: int
  co_cached_delivery :: "PersistenceCompositionDelivery option"

text \<open>What the outside gives to one composition: the identity factories, the clock, and the receipt
  connection that the guarded factory acquires.\<close>

datatype factory_connection = Business_connection | Dedicated_connection receipt_conn

definition acquire_dedicated_receipt_connection :: "factory_connection rres \<Rightarrow> receipt_conn rres" where
  "acquire_dedicated_receipt_connection receipt_connection_factory =
     bind_res receipt_connection_factory (\<lambda>connection. case connection of
         Business_connection \<Rightarrow> Inl (Python_error (RuntimeError ''receipt_connection_factory returned the business connection''))
       | Dedicated_connection c \<Rightarrow> Inr c)"

record receipt_env =
  re_receipt_id_factory :: "pyval res"
  re_outcome_id_factory :: "pyval res"
  re_now_ms :: int
  re_receipt_connection_factory :: "factory_connection rres"

definition compose ::
  "(pyval \<Rightarrow> pyval) \<Rightarrow> receipt_env \<Rightarrow> PersistenceCompositionOwner
   \<Rightarrow> PersistenceCompositionOwner \<times> receipt_conn option \<times> PersistenceCompositionDelivery res" where
  "compose float_io env self =
     (case co_cached_delivery self of
        Some delivery \<Rightarrow> (self, None, Inr delivery)
      | None \<Rightarrow>
          (case materialize (co_materialization_owner self) (re_receipt_id_factory env) (re_outcome_id_factory env) of
             (mo, Inl x) \<Rightarrow> (self\<lparr>co_materialization_owner := mo\<rparr>, None, Inl x)
           | (mo, Inr materialization_delivery) \<Rightarrow>
               (let self1 = self\<lparr>co_materialization_owner := mo\<rparr>;
                    (conn, delivery) =
                      (if md_status materialization_delivery = MATERIALIZATION_FAILED
                       then (None, PersistenceCompositionDelivery_init
                         \<lparr>pc_business_result = md_business_result materialization_delivery,
                          pc_materialization_delivery = materialization_delivery, pc_persistence_reached = False,
                          pc_persistence_result = None\<rparr>)
                       else case md_receipt materialization_delivery of
                         None \<Rightarrow> (None, Inl (RuntimeError ''materialized delivery must retain its exact receipt''))
                       | Some receipt \<Rightarrow>
                           (case persist float_io (re_now_ms env) (co_receipt_transaction_owner self)
                                   (acquire_dedicated_receipt_connection (re_receipt_connection_factory env)) receipt LIVE_RESULT of
                              (conn, persistence_result) \<Rightarrow>
                                (conn, bind_res persistence_result (\<lambda>result. PersistenceCompositionDelivery_init
                                  \<lparr>pc_business_result = md_business_result materialization_delivery,
                                   pc_materialization_delivery = materialization_delivery, pc_persistence_reached = True,
                                   pc_persistence_result = Some result\<rparr>))))
                in case delivery of
                     Inl x \<Rightarrow> (self1, conn, Inl x)
                   | Inr d \<Rightarrow> (self1\<lparr>co_cached_delivery := Some d\<rparr>, conn, Inr d))))"

section \<open>Eligibility\<close>

datatype PersistenceEligibility =
    ELIGIBLE_ACCEPTED
  | ELIGIBLE_IDEMPOTENT_REPLAY
  | ELIGIBLE_IDEMPOTENCY_CONFLICT
  | ELIGIBLE_VALIDATION_BLOCKED
  | ELIGIBLE_PREPARATION_LOCK_TIMEOUT
  | INELIGIBLE

definition is_eligible :: "PersistenceEligibility \<Rightarrow> bool" where
  "is_eligible self \<longleftrightarrow> self \<noteq> INELIGIBLE"

definition evaluate_persistence_eligibility :: "PostgresWriteSideResult \<Rightarrow> PersistenceEligibility" where
  "evaluate_persistence_eligibility result =
     (if wr_outcome result = OUT_ACCEPTED then ELIGIBLE_ACCEPTED
      else if wr_outcome result = OUT_REPLAY then ELIGIBLE_IDEMPOTENT_REPLAY
      else if wr_outcome result = OUT_CONFLICT then ELIGIBLE_IDEMPOTENCY_CONFLICT
      else if wr_outcome result = OUT_VALIDATION_BLOCKED then ELIGIBLE_VALIDATION_BLOCKED
      else if wr_outcome result = OUT_ADMISSION_REJECTED \<and> wr_admission_result result = None
        \<and> (case wr_stream_admission_result result of Some s \<Rightarrow> sa_verdict s = LOCK_TIMEOUT | None \<Rightarrow> False)
      then ELIGIBLE_PREPARATION_LOCK_TIMEOUT
      else INELIGIBLE)"

section \<open>Completed invocations\<close>

datatype ReceiptRuntimeStatus =
    PERSISTENCE_INELIGIBLE
  | RECEIPT_MATERIALIZATION_FAILED
  | PERSISTENCE_COMPLETED
  | UNEXPECTED_COMPOSITION_EXCEPTION

record RuntimeDelivery =
  rv_business_result :: PostgresWriteSideResult
  rv_persistence_eligibility :: PersistenceEligibility
  rv_receipt_status :: ReceiptRuntimeStatus
  rv_persistence_delivery :: "PersistenceCompositionDelivery option"

definition RuntimeDelivery_init :: "RuntimeDelivery \<Rightarrow> RuntimeDelivery res" where
  "RuntimeDelivery_init self =
     (if rv_receipt_status self = PERSISTENCE_INELIGIBLE
      then bind_res (require (\<not> is_eligible (rv_persistence_eligibility self))
             (ValueError ''PERSISTENCE_INELIGIBLE requires ineligible evidence'')) (\<lambda>_.
           bind_res (require (rv_persistence_delivery self = None)
             (ValueError ''PERSISTENCE_INELIGIBLE cannot carry persistence delivery'')) (\<lambda>_. Inr self))
      else bind_res (require (is_eligible (rv_persistence_eligibility self))
             (ValueError ''eligible receipt-composition status requires eligible evidence'')) (\<lambda>_.
      if rv_receipt_status self = UNEXPECTED_COMPOSITION_EXCEPTION
      then bind_res (require (rv_persistence_delivery self = None)
             (ValueError ''unexpected composition cannot carry persistence delivery'')) (\<lambda>_. Inr self)
      else case rv_persistence_delivery self of
        None \<Rightarrow> Inl (TypeError ''recognized composition status requires exact PR2 delivery'')
      | Some delivery \<Rightarrow>
          bind_res (require (pc_business_result delivery = rv_business_result self)
            (ValueError ''business_result must be the exact PR2 business result'')) (\<lambda>_.
          let materialization_failed = (md_status (pc_materialization_delivery delivery) = MATERIALIZATION_FAILED)
          in if rv_receipt_status self = RECEIPT_MATERIALIZATION_FAILED
             then bind_res (require (\<not> (\<not> materialization_failed \<or> pc_persistence_reached delivery))
               (ValueError ''MATERIALIZATION_FAILED requires PR2 materialization failure'')) (\<lambda>_. Inr self)
             else bind_res (require (\<not> (materialization_failed \<or> \<not> pc_persistence_reached delivery))
               (ValueError ''PERSISTENCE_COMPLETED requires reached PR2 persistence'')) (\<lambda>_. Inr self))))"

text \<open>The materialisation owner of a handle is the one that its composition owner holds; \<open>compose_receipt\<close>
  keeps the two copies equal.\<close>

record CompletedInvocation =
  ci_business_result :: PostgresWriteSideResult
  ci_persistence_eligibility :: PersistenceEligibility
  ci_materialization_owner :: MaterializationOwner
  ci_persistence_owner :: "PersistenceCompositionOwner option"
  ci_cached_receipt_delivery :: "RuntimeDelivery option"

definition CompletedInvocation_from_runtime_owner :: "PostgresWriteSideResult \<Rightarrow> int \<Rightarrow> CompletedInvocation" where
  "CompletedInvocation_from_runtime_owner business_result receipt_transaction_owner =
     (let eligibility = evaluate_persistence_eligibility business_result;
          materialization_owner = MaterializationOwner_init business_result
      in \<lparr>ci_business_result = business_result, ci_persistence_eligibility = eligibility,
          ci_materialization_owner = materialization_owner,
          ci_persistence_owner =
            (if is_eligible eligibility
             then Some \<lparr>co_materialization_owner = materialization_owner, co_receipt_transaction_owner = receipt_transaction_owner,
                        co_cached_delivery = None\<rparr>
             else None),
          ci_cached_receipt_delivery = None\<rparr>)"

definition delivery_from_persistence :: "CompletedInvocation \<Rightarrow> PersistenceCompositionDelivery \<Rightarrow> RuntimeDelivery res" where
  "delivery_from_persistence self persistence_delivery =
     RuntimeDelivery_init
       \<lparr>rv_business_result = ci_business_result self, rv_persistence_eligibility = ci_persistence_eligibility self,
        rv_receipt_status = (if md_status (pc_materialization_delivery persistence_delivery) = MATERIALIZATION_FAILED
                     then RECEIPT_MATERIALIZATION_FAILED else PERSISTENCE_COMPLETED),
        rv_persistence_delivery = Some persistence_delivery\<rparr>"

definition compose_receipt ::
  "(pyval \<Rightarrow> pyval) \<Rightarrow> receipt_env \<Rightarrow> CompletedInvocation \<Rightarrow> CompletedInvocation \<times> receipt_conn option \<times> RuntimeDelivery res" where
  "compose_receipt float_io env self =
     (case ci_cached_receipt_delivery self of
        Some cached_delivery \<Rightarrow> (self, None, Inr cached_delivery)
      | None \<Rightarrow>
          (let (self1, conn, delivery) =
             (case ci_persistence_owner self of
                None \<Rightarrow> (self, None, RuntimeDelivery_init
                  \<lparr>rv_business_result = ci_business_result self, rv_persistence_eligibility = ci_persistence_eligibility self,
                   rv_receipt_status = PERSISTENCE_INELIGIBLE, rv_persistence_delivery = None\<rparr>)
              | Some persistence_owner \<Rightarrow>
                  (case compose float_io env persistence_owner of
                     (owner', conn, composed) \<Rightarrow>
                       (self\<lparr>ci_persistence_owner := Some owner', ci_materialization_owner := co_materialization_owner owner'\<rparr>, conn,
                        case bind_res composed (delivery_from_persistence self) of
                          Inr d \<Rightarrow> Inr d
                        | Inl _ \<Rightarrow> RuntimeDelivery_init
                            \<lparr>rv_business_result = ci_business_result self, rv_persistence_eligibility = ci_persistence_eligibility self,
                             rv_receipt_status = UNEXPECTED_COMPOSITION_EXCEPTION, rv_persistence_delivery = None\<rparr>)))
           in case delivery of
                Inl x \<Rightarrow> (self1, conn, Inl x)
              | Inr d \<Rightarrow> (self1\<lparr>ci_cached_receipt_delivery := Some d\<rparr>, conn, Inr d)))"

section \<open>The runtime owner\<close>

record RuntimeOwner =
  ro_invocation_owner :: invocation_owner
  ro_receipt_transaction_owner :: int
  ro_initial_completion :: "CompletedInvocation option"
  ro_authorized_reinvocation_completion :: "CompletedInvocation option"

definition RuntimeOwner_init :: "RequestSignature \<Rightarrow> write_side \<Rightarrow> int \<Rightarrow> RuntimeOwner" where
  "RuntimeOwner_init request_signature writer receipt_transaction_owner =
     \<lparr>ro_invocation_owner = new_invocation_owner request_signature writer,
      ro_receipt_transaction_owner = receipt_transaction_owner,
      ro_initial_completion = None, ro_authorized_reinvocation_completion = None\<rparr>"

definition initial_completion :: "RuntimeOwner \<Rightarrow> CompletedInvocation res" where
  "initial_completion self =
     (case ro_initial_completion self of
        None \<Rightarrow> Inl (lifecycle_error ''initial invocation has not completed normally'')
      | Some completion \<Rightarrow> Inr completion)"

definition authorized_reinvocation_completion :: "RuntimeOwner \<Rightarrow> CompletedInvocation res" where
  "authorized_reinvocation_completion self =
     (case ro_authorized_reinvocation_completion self of
        None \<Rightarrow> Inl (lifecycle_error ''authorized re-invocation has not completed normally'')
      | Some completion \<Rightarrow> Inr completion)"

definition new_completed_invocation :: "RuntimeOwner \<Rightarrow> PostgresWriteSideResult \<Rightarrow> CompletedInvocation" where
  "new_completed_invocation self result = CompletedInvocation_from_runtime_owner result (ro_receipt_transaction_owner self)"

definition runtime_invoke_initial ::
  "RuntimeOwner \<Rightarrow> pg_conn \<Rightarrow> string \<Rightarrow> int \<Rightarrow> RuntimeOwner \<times> pg_conn \<times> CompletedInvocation res" where
  "runtime_invoke_initial self c new_event_id now_ms =
     (case invoke_initial (ro_invocation_owner self) c new_event_id now_ms of
        (iv, c', Inl x) \<Rightarrow> (self\<lparr>ro_invocation_owner := iv\<rparr>, c', Inl x)
      | (iv, c', Inr result) \<Rightarrow>
          (let self1 = self\<lparr>ro_invocation_owner := iv\<rparr>;
               completion = new_completed_invocation self1 result
           in if ro_initial_completion self1 \<noteq> None
              then (self1, c', Inl (RuntimeError ''initial completion must publish once''))
              else (self1\<lparr>ro_initial_completion := Some completion\<rparr>, c', Inr completion)))"

definition runtime_evaluate_current_response :: "RuntimeOwner \<Rightarrow> string \<Rightarrow> RuntimeOwner \<times> current_response_delivery res" where
  "runtime_evaluate_current_response self minted =
     (case evaluate_current_response (ro_invocation_owner self) minted of
        (iv, d) \<Rightarrow> (self\<lparr>ro_invocation_owner := iv\<rparr>, d))"

definition runtime_evaluate_reinvocation_authority :: "RuntimeOwner \<Rightarrow> RuntimeOwner \<times> reinvocation_evaluation res" where
  "runtime_evaluate_reinvocation_authority self =
     (case owner_evaluate_reinvocation_authority (ro_invocation_owner self) of
        (iv, a) \<Rightarrow> (self\<lparr>ro_invocation_owner := iv\<rparr>, a))"

definition runtime_invoke_authorized_reinvocation ::
  "RuntimeOwner \<Rightarrow> pg_conn \<Rightarrow> string \<Rightarrow> int \<Rightarrow> RuntimeOwner \<times> pg_conn \<times> CompletedInvocation res" where
  "runtime_invoke_authorized_reinvocation self c new_event_id now_ms =
     (case invoke_authorized_reinvocation (ro_invocation_owner self) c new_event_id now_ms of
        (iv, c', Inl x) \<Rightarrow> (self\<lparr>ro_invocation_owner := iv\<rparr>, c', Inl x)
      | (iv, c', Inr result) \<Rightarrow>
          (let self1 = self\<lparr>ro_invocation_owner := iv\<rparr>;
               completion = new_completed_invocation self1 result
           in if ro_authorized_reinvocation_completion self1 \<noteq> None
              then (self1, c', Inl (RuntimeError ''authorized re-invocation completion must publish once''))
              else (self1\<lparr>ro_authorized_reinvocation_completion := Some completion\<rparr>, c', Inr completion)))"

text \<open>The builder: the default gate is the optimistic one, the default configuration validates strictly before the
  transaction.\<close>

definition build_postgres_write_side_decision_receipt_runtime ::
  "RequestSignature \<Rightarrow> ValidationRuntime \<Rightarrow> int \<Rightarrow> gate_strategy option \<Rightarrow> PostgresWriteSideConfig option \<Rightarrow> RuntimeOwner res" where
  "build_postgres_write_side_decision_receipt_runtime request_signature validation_runtime timeout_ms admission_gate_factory write_side_config =
     (let writer = \<lparr>wsd_validation_runtime = validation_runtime,
           wsd_gate_strategy = (case admission_gate_factory of None \<Rightarrow> Optimistic | Some g \<Rightarrow> g),
           wsd_config = (case write_side_config of
              None \<Rightarrow> \<lparr>cfg_validation_mode = STRICT, cfg_validation_placement = PRE_TRANSACTION\<rparr> | Some cfg \<Rightarrow> cfg)\<rparr>
      in bind_res (TransactionOwner_init timeout_ms) (\<lambda>receipt_transaction_owner.
           Inr (RuntimeOwner_init request_signature writer receipt_transaction_owner)))"

section \<open>Interleaved callers of a runtime owner\<close>

record runtime_state =
  rt_owner :: RuntimeOwner
  rt_conn :: pg_conn
  rt_rows :: "receipt_row list"

text \<open>An acquired receipt connection is a new session on the committed receipts \<open>rows\<close>; \<open>rows_after\<close> are
  the committed receipts when it ends.\<close>

definition uuid_factories :: "receipt_env \<Rightarrow> bool" where
  "uuid_factories env \<longleftrightarrow> (\<exists>rid oid. is_uuid rid \<and> is_uuid oid
     \<and> re_receipt_id_factory env = Inr (VUuid rid) \<and> re_outcome_id_factory env = Inr (VUuid oid))"

definition receipt_session :: "receipt_row list \<Rightarrow> receipt_env \<Rightarrow> bool" where
  "receipt_session rows env \<longleftrightarrow> (\<forall>c. re_receipt_connection_factory env = Inr (Dedicated_connection c) \<longrightarrow>
     rc_inv c \<and> rc_committed c = rows \<and> idle_timeout_means_rollback c)"

definition rows_after :: "receipt_row list \<Rightarrow> receipt_conn option \<Rightarrow> receipt_row list" where
  "rows_after rows conn = (case conn of None \<Rightarrow> rows | Some c \<Rightarrow> rc_committed c)"

text \<open>The lock of the runtime owner makes each of its methods one step; the lock of a handle does so for
  \<open>compose_receipt\<close>.\<close>

inductive runtime_step :: "server_event set \<Rightarrow> (pyval \<Rightarrow> pyval) \<Rightarrow> runtime_state \<Rightarrow> runtime_state \<Rightarrow> bool" for S float_io where
  Invoke_initial: "uuid_in eid = Some eid \<Longrightarrow> set vs \<subseteq> S \<Longrightarrow>
    runtime_invoke_initial (rt_owner s) ((rt_conn s)\<lparr>schedule := vs\<rparr>) eid now = (ro, c', h) \<Longrightarrow>
    runtime_step S float_io s (s\<lparr>rt_owner := ro, rt_conn := c'\<rparr>)"
| Invoke_reinvocation: "uuid_in eid = Some eid \<Longrightarrow> set vs \<subseteq> S \<Longrightarrow>
    runtime_invoke_authorized_reinvocation (rt_owner s) ((rt_conn s)\<lparr>schedule := vs\<rparr>) eid now = (ro, c', h) \<Longrightarrow>
    runtime_step S float_io s (s\<lparr>rt_owner := ro, rt_conn := c'\<rparr>)"
| Evaluate_current: "runtime_evaluate_current_response (rt_owner s) minted = (ro, d) \<Longrightarrow> runtime_step S float_io s (s\<lparr>rt_owner := ro\<rparr>)"
| Evaluate_reinvocation: "runtime_evaluate_reinvocation_authority (rt_owner s) = (ro, a) \<Longrightarrow> runtime_step S float_io s (s\<lparr>rt_owner := ro\<rparr>)"
| Compose_initial: "ro_initial_completion (rt_owner s) = Some h \<Longrightarrow> uuid_factories env \<Longrightarrow> receipt_session (rt_rows s) env \<Longrightarrow>
    compose_receipt float_io env h = (h', conn, d) \<Longrightarrow>
    runtime_step S float_io s (s\<lparr>rt_owner := (rt_owner s)\<lparr>ro_initial_completion := Some h'\<rparr>, rt_rows := rows_after (rt_rows s) conn\<rparr>)"
| Compose_reinvocation: "ro_authorized_reinvocation_completion (rt_owner s) = Some h \<Longrightarrow> uuid_factories env \<Longrightarrow> receipt_session (rt_rows s) env \<Longrightarrow>
    compose_receipt float_io env h = (h', conn, d) \<Longrightarrow>
    runtime_step S float_io s (s\<lparr>rt_owner := (rt_owner s)\<lparr>ro_authorized_reinvocation_completion := Some h'\<rparr>,
      rt_rows := rows_after (rt_rows s) conn\<rparr>)"
| Other_writers: "conn_inv c' \<Longrightarrow> own c' = empty_db \<Longrightarrow> grows_by S (committed (rt_conn s)) (committed c') \<Longrightarrow>
    runtime_step S float_io s (s\<lparr>rt_conn := c'\<rparr>)"
| Other_receipts: "runtime_step S float_io s (s\<lparr>rt_rows := rt_rows s @ rows\<rparr>)"

inductive runtime_reach :: "server_event set \<Rightarrow> (pyval \<Rightarrow> pyval) \<Rightarrow> runtime_state \<Rightarrow> runtime_state \<Rightarrow> bool" for S float_io s0 where
  Begin: "runtime_reach S float_io s0 s0"
| Next: "runtime_reach S float_io s0 s \<Longrightarrow> runtime_step S float_io s s' \<Longrightarrow> runtime_reach S float_io s0 s'"

definition new_runtime_state :: "RuntimeOwner \<Rightarrow> pg_conn \<Rightarrow> receipt_row list \<Rightarrow> runtime_state" where
  "new_runtime_state ro c rows = \<lparr>rt_owner = ro, rt_conn = c, rt_rows = rows\<rparr>"

section \<open>One composition\<close>

lemma summary_floatless:
  assumes "evidence_summary_for_result r = Inr summary"
  shows "floatless (VDict (thawed_pairs (frozen_pairs summary)))"
  using assms by (auto simp: evidence_summary_for_result_def dict_display_def res_simps split: option.splits)

text \<open>The receipt of an answered request can be written.\<close>

lemma answered_persistable:
  assumes "writer_result sg r" and "\<not> py_blank (sig_order_id sg)" and "is_uuid rid" and "is_uuid oid"
  obtains rc payload where "map_postgres_write_side_result_to_decision_receipt rid oid r = Inr rc" and "receipt_ok rc" and "receipt_floatless rc"
    and "serialize_decision_receipt rc = Inr payload"
proof -
  from assms(1) obtain eid where eid: "uuid_in eid = Some eid" "answered sg eid r" unfolding writer_result_def by blast
  obtain rc summary where rc: "map_postgres_write_side_result_to_decision_receipt rid oid r = Inr rc" "receipt_ok rc" "receipt_int64 rc"
    "evidence_summary_for_result r = Inr summary" "dr_evidence_summary rc = frozen_pairs summary" "dr_metadata rc = []"
    by (rule answered_receipt_parts [OF eid(2,1) assms(2-4)])
  have "receipt_floatless rc" using summary_floatless [OF rc(4)] by (simp add: receipt_floatless_def rc(5,6))
  with that rc(1,2) serialize_total [OF rc(2,3)] show ?thesis by blast
qed

lemma compose_receipt_runs:
  assumes rc: "map_postgres_write_side_result_to_decision_receipt rid oid r = Inr rc"
    and ids: "re_receipt_id_factory env = Inr (VUuid rid)" "re_outcome_id_factory env = Inr (VUuid oid)"
    and e: "is_eligible (evaluate_persistence_eligibility r)"
    and p: "persist float_io (re_now_ms env) t (acquire_dedicated_receipt_connection (re_receipt_connection_factory env)) rc LIVE_RESULT = (conn, Inr result)"
  obtains h' d pc where "compose_receipt float_io env (CompletedInvocation_from_runtime_owner r t) = (h', conn, Inr d)"
    and "rv_business_result d = r" and "rv_receipt_status d = PERSISTENCE_COMPLETED" and "rv_persistence_delivery d = Some pc"
    and "md_receipt (pc_materialization_delivery pc) = Some rc" and "pc_persistence_result pc = Some result"
    and "ci_business_result h' = r" and "ci_cached_receipt_delivery h' = Some d"
proof -
  let ?md = "\<lparr>md_business_result = r, md_status = MATERIALIZED, md_receipt = Some rc, md_failure_category = None\<rparr>"
  let ?mo = "\<lparr>mo_completed_result = r, mo_receipt_id = Some rid, mo_outcome_id = Some oid, mo_cached_delivery = Some ?md\<rparr>"
  let ?pc = "\<lparr>pc_business_result = r, pc_materialization_delivery = ?md, pc_persistence_reached = True, pc_persistence_result = Some result\<rparr>"
  have m: "materialize (MaterializationOwner_init r) (re_receipt_id_factory env) (re_outcome_id_factory env) = (?mo, Inr ?md)"
    by (simp add: materialize_def MaterializationOwner_init_def require_materialization_identities_def identity_from_factory_def ids
        rc MaterializationDelivery_init_def)
  have c: "compose float_io env \<lparr>co_materialization_owner = MaterializationOwner_init r, co_receipt_transaction_owner = t, co_cached_delivery = None\<rparr>
      = (\<lparr>co_materialization_owner = ?mo, co_receipt_transaction_owner = t, co_cached_delivery = Some ?pc\<rparr>, conn, Inr ?pc)"
    by (simp add: compose_def m p PersistenceCompositionDelivery_init_def)
  from e that show ?thesis
    by (auto simp: compose_receipt_def CompletedInvocation_from_runtime_owner_def Let_def c delivery_from_persistence_def RuntimeDelivery_init_def)
qed

lemma compose_receipt_fresh:
  assumes "writer_result sg r" and "\<not> py_blank (sig_order_id sg)" and "uuid_factories env" and "is_eligible (evaluate_persistence_eligibility r)"
    and run: "compose_receipt float_io env (CompletedInvocation_from_runtime_owner r t) = (h', conn, d)"
  obtains rid oid rc payload result pc d' where "map_postgres_write_side_result_to_decision_receipt rid oid r = Inr rc" and "receipt_ok rc"
    and "receipt_floatless rc" and "serialize_decision_receipt rc = Inr payload"
    and "persist float_io (re_now_ms env) t (acquire_dedicated_receipt_connection (re_receipt_connection_factory env)) rc LIVE_RESULT = (conn, Inr result)"
    and "d = Inr d'" and "rv_business_result d' = r" and "rv_receipt_status d' = PERSISTENCE_COMPLETED" and "rv_persistence_delivery d' = Some pc"
    and "md_receipt (pc_materialization_delivery pc) = Some rc" and "pc_persistence_result pc = Some result"
    and "ci_business_result h' = r" and "ci_cached_receipt_delivery h' = Some d'"
proof -
  from assms(3) obtain rid oid where ids: "is_uuid rid" "is_uuid oid" "re_receipt_id_factory env = Inr (VUuid rid)"
    "re_outcome_id_factory env = Inr (VUuid oid)" unfolding uuid_factories_def by blast
  obtain rc payload where rc: "map_postgres_write_side_result_to_decision_receipt rid oid r = Inr rc" "receipt_ok rc" "receipt_floatless rc"
    "serialize_decision_receipt rc = Inr payload" by (rule answered_persistable [OF assms(1,2) ids(1,2)])
  obtain conn' result where p: "persist float_io (re_now_ms env) t (acquire_dedicated_receipt_connection (re_receipt_connection_factory env)) rc LIVE_RESULT
      = (conn', Inr result)" by (rule persist_returns)
  show ?thesis
    by (rule compose_receipt_runs [OF rc(1) ids(3,4) assms(4) p]) (rule that [OF rc]; use run p in simp)
qed

text \<open>What a delivery says about the result \<open>r\<close> is true of the committed receipts \<open>rows\<close>.\<close>

definition receipt_stored :: "receipt_row list \<Rightarrow> DecisionReceipt \<Rightarrow> DecisionReceiptInsertResult \<Rightarrow> bool" where
  "receipt_stored rows rc ins \<longleftrightarrow> (\<exists>row \<in> set rows. \<exists>payload. rr_receipt_id row = dr_receipt_id rc
     \<and> persisted_decision_receipt_from_row row = Inr (ir_record ins)
     \<and> serialize_decision_receipt rc = Inr payload \<and> same_versioned_payload (ir_record ins) payload = Inr True)"

definition delivery_true :: "receipt_row list \<Rightarrow> PostgresWriteSideResult \<Rightarrow> RuntimeDelivery \<Rightarrow> bool" where
  "delivery_true rows r d \<longleftrightarrow> rv_business_result d = r
     \<and> (if is_eligible (evaluate_persistence_eligibility r)
        then rv_receipt_status d = PERSISTENCE_COMPLETED
          \<and> (\<exists>pc rc rid oid result. rv_persistence_delivery d = Some pc \<and> md_receipt (pc_materialization_delivery pc) = Some rc
               \<and> pc_persistence_result pc = Some result \<and> map_postgres_write_side_result_to_decision_receipt rid oid r = Inr rc
               \<and> (tr_durability result = TX_COMMITTED \<longrightarrow> (\<exists>ins. tr_statement_result result = Some ins \<and> receipt_stored rows rc ins)))
        else rv_receipt_status d = PERSISTENCE_INELIGIBLE \<and> rv_persistence_delivery d = None)"

lemma compose_receipt_once:
  "compose_receipt float_io env h = (h', conn, Inr d) \<Longrightarrow> ci_cached_receipt_delivery h' = Some d"
  by (auto simp: compose_receipt_def Let_def split: option.splits prod.splits sum.splits)

lemma compose_receipt_again:
  "ci_cached_receipt_delivery h = Some d \<Longrightarrow> compose_receipt float_io env h = (h, None, Inr d)"
  by (simp add: compose_receipt_def)

lemma compose_receipt_ineligible:
  assumes "\<not> is_eligible (evaluate_persistence_eligibility r)"
    and "compose_receipt float_io env (CompletedInvocation_from_runtime_owner r t) = (h', conn, d)"
  shows "conn = None \<and> ci_business_result h' = r \<and> (\<exists>d'. d = Inr d' \<and> ci_cached_receipt_delivery h' = Some d'
    \<and> rv_business_result d' = r \<and> rv_receipt_status d' = PERSISTENCE_INELIGIBLE \<and> rv_persistence_delivery d' = None)"
  using assms by (auto simp: compose_receipt_def CompletedInvocation_from_runtime_owner_def Let_def RuntimeDelivery_init_def)

text \<open>A receipt that was not acquired on a connection of its own is not committed.\<close>

lemma not_acquired_not_committed:
  assumes "acquire_dedicated_receipt_connection f = Inl x" and "persist float_io now_ms t (acquire_dedicated_receipt_connection f) rc prov = (conn, Inr result)"
  shows "conn = None" and "tr_durability result = TX_NOT_COMMITTED"
  using assms by (auto simp: persist_def coherence_defs)

lemma acquired_dedicated: "acquire_dedicated_receipt_connection f = Inr c \<longleftrightarrow> f = Inr (Dedicated_connection c)"
  by (cases f) (auto simp: acquire_dedicated_receipt_connection_def split: factory_connection.splits)

lemma compose_receipt_true:
  assumes "writer_result sg r" and "\<not> py_blank (sig_order_id sg)" and "uuid_factories env" and "receipt_session rows env"
    and run: "compose_receipt float_io env (CompletedInvocation_from_runtime_owner r t) = (h', conn, d)"
  shows "ci_business_result h' = r \<and> (\<exists>d'. d = Inr d' \<and> ci_cached_receipt_delivery h' = Some d' \<and> delivery_true (rows_after rows conn) r d')
    \<and> set rows \<subseteq> set (rows_after rows conn)"
proof (cases "is_eligible (evaluate_persistence_eligibility r)")
  case False
  with compose_receipt_ineligible [OF False run] show ?thesis by (auto simp: delivery_true_def rows_after_def)
next
  case True
  obtain rid oid rc payload result pc d' where
    rc: "map_postgres_write_side_result_to_decision_receipt rid oid r = Inr rc" "receipt_ok rc" "receipt_floatless rc" "serialize_decision_receipt rc = Inr payload"
    and p: "persist float_io (re_now_ms env) t (acquire_dedicated_receipt_connection (re_receipt_connection_factory env)) rc LIVE_RESULT = (conn, Inr result)"
    and d: "d = Inr d'" "rv_business_result d' = r" "rv_receipt_status d' = PERSISTENCE_COMPLETED" "rv_persistence_delivery d' = Some pc"
      "md_receipt (pc_materialization_delivery pc) = Some rc" "pc_persistence_result pc = Some result"
    and h: "ci_business_result h' = r" "ci_cached_receipt_delivery h' = Some d'"
    by (rule compose_receipt_fresh [OF assms(1-3) True run])
  have "(tr_durability result = TX_COMMITTED \<longrightarrow> (\<exists>ins. tr_statement_result result = Some ins \<and> receipt_stored (rows_after rows conn) rc ins))
    \<and> set rows \<subseteq> set (rows_after rows conn)"
  proof (cases "acquire_dedicated_receipt_connection (re_receipt_connection_factory env)")
    case (Inl x)
    with not_acquired_not_committed [OF Inl p] show ?thesis by (simp add: rows_after_def)
  next
    case (Inr c)
    with assms(4) have c: "rc_inv c" "rc_committed c = rows" "idle_timeout_means_rollback c"
      by (auto simp: acquired_dedicated receipt_session_def)
    from p Inr obtain c' where c': "conn = Some c'" by (cases "persist_on float_io (re_now_ms env) t rc LIVE_RESULT c") (auto simp: persist_def)
    have "durability_true c c' rc payload result" by (rule persist_durability [OF c(1) rc(2-4) c(3) p [unfolded Inr c']])
    moreover have "set rows \<subseteq> set (rc_committed c')" using persist_keeps_rows [OF c(1) rc(2-4) p [unfolded Inr c']] c(2) by simp
    ultimately show ?thesis using rc(4) by (auto simp: durability_true_def receipt_durable_def receipt_stored_def rows_after_def c'; blast)
  qed
  with d h rc(1) True show ?thesis by (auto simp: delivery_true_def)
qed

section \<open>The invariant of a runtime owner\<close>

text \<open>The invocation owner inside a runtime owner takes the steps of the owner theory.\<close>

definition at_rest_owner :: "invocation_owner \<Rightarrow> pg_conn \<Rightarrow> invocation list \<Rightarrow> owner_state" where
  "at_rest_owner self c calls = \<lparr>os_owner = self, os_conn = c, os_callers = [], os_calls = calls\<rparr>"

lemma reschedule:
  assumes "owner_reach S s0 s" and "conn_inv (os_conn s)" and "own (os_conn s) = empty_db"
  shows "owner_reach S s0 (s\<lparr>os_conn := (os_conn s)\<lparr>schedule := vs\<rparr>\<rparr>)"
  by (rule Step [OF assms(1)], rule Other_sessions) (use assms(2,3) in \<open>simp_all add: conn_inv_def visible_def grows_refl\<close>)

lemma call_reach:
  assumes "owner_reach S s0 \<lparr>os_owner = self, os_conn = c, os_callers = [Calling i], os_calls = calls\<rparr>" and "uuid_in eid = Some eid"
    and "set vs \<subseteq> S" and "dispatch_retained_request self (c\<lparr>schedule := vs\<rparr>) eid now = (c', r)"
  shows "owner_reach S s0 (case r of
      Inl _ \<Rightarrow> at_rest_owner self c' (i # calls)
    | Inr p \<Rightarrow> at_rest_owner (case i of Initial \<Rightarrow> publish_initial self p | Reinvocation \<Rightarrow> publish_current_response_result self p) c' (i # calls))"
proof -
  let ?s = "\<lparr>os_owner = self, os_conn = c, os_callers = [Calling i], os_calls = calls\<rparr>"
  show ?thesis
  proof (cases r)
    case (Inl x)
    from Step [OF assms(1) Call_raises [of ?s "[]" i "[]" eid vs S now c' x]] assms(2-4) Inl show ?thesis by (simp add: at_rest_owner_def)
  next
    case (Inr p)
    let ?s' = "\<lparr>os_owner = self, os_conn = c', os_callers = [Returned i p], os_calls = i # calls\<rparr>"
    from Step [OF assms(1) Call_returns [of ?s "[]" i "[]" eid vs S now c' p]] assms(2-4) Inr have "owner_reach S s0 ?s'" by simp
    from Step [OF this] Publish_initial [of ?s' "[]" p "[]" S] Publish_reinvocation [of ?s' "[]" p "[]" S] Inr show ?thesis
      by (cases i) (simp_all add: at_rest_owner_def)
  qed
qed

lemma invoke_initial_reach:
  assumes r: "owner_reach S s0 (at_rest_owner self c calls)" and c: "conn_inv c" "own c = empty_db" and eid: "uuid_in eid = Some eid" "set vs \<subseteq> S"
    and run: "invoke_initial self (c\<lparr>schedule := vs\<rparr>) eid now = (self', c', res)"
  shows "\<exists>calls'. owner_reach S s0 (at_rest_owner self' c' calls')"
    and "res = Inr p \<Longrightarrow> \<not> iv_initial_invocation_started self \<and> iv_initial_result self' = Some p"
    and "res = Inl x \<Longrightarrow> iv_initial_result self' = iv_initial_result self"
proof -
  show "res = Inr p \<Longrightarrow> \<not> iv_initial_invocation_started self \<and> iv_initial_result self' = Some p"
    "res = Inl x \<Longrightarrow> iv_initial_result self' = iv_initial_result self"
    using run by (auto simp: invoke_initial_def enter_initial_def publish_initial_def publish_current_response_result_def
        split: if_splits prod.splits sum.splits)
  show "\<exists>calls'. owner_reach S s0 (at_rest_owner self' c' calls')"
  proof (cases "iv_initial_invocation_started self")
    case True
    with run reschedule [OF r] c show ?thesis by (auto simp: invoke_initial_def enter_initial_def at_rest_owner_def)
  next
    case False
    let ?self = "self\<lparr>iv_initial_invocation_started := True\<rparr>"
    obtain c1 y where d: "dispatch_retained_request ?self (c\<lparr>schedule := vs\<rparr>) eid now = (c1, y)" by force
    have "owner_reach S s0 \<lparr>os_owner = ?self, os_conn = c, os_callers = [Calling Initial], os_calls = calls\<rparr>"
      using Step [OF r Enter_initial [of _ ?self]] False by (simp add: at_rest_owner_def enter_initial_def)
    from call_reach [OF this eid d] run False d show ?thesis
      by (cases y) (auto simp: invoke_initial_def enter_initial_def)
  qed
qed

lemma reinvocation_reach:
  assumes r: "owner_reach S s0 (at_rest_owner self c calls)" and c: "conn_inv c" "own c = empty_db" and eid: "uuid_in eid = Some eid" "set vs \<subseteq> S"
    and run: "invoke_authorized_reinvocation self (c\<lparr>schedule := vs\<rparr>) eid now = (self', c', res)"
  shows "\<exists>calls'. owner_reach S s0 (at_rest_owner self' c' calls')"
    and "res = Inr p \<Longrightarrow> iv_current_response_result self' = Some p \<and> iv_authority_spent self'"
    and "iv_initial_result self' = iv_initial_result self"
proof -
  obtain self1 e where en: "enter_reinvocation self = (self1, e)" by force
  have "iv_initial_result self1 = iv_initial_result self" "e = Inr () \<Longrightarrow> iv_authority_spent self1"
    using en by (auto simp: enter_reinvocation_def clear_current_response_state_def
        split: sum.splits option.splits reinvocation_evaluation.splits if_splits)
  then show "res = Inr p \<Longrightarrow> iv_current_response_result self' = Some p \<and> iv_authority_spent self'"
    "iv_initial_result self' = iv_initial_result self"
    using run en by (auto simp: invoke_authorized_reinvocation_def publish_current_response_result_def split: prod.splits sum.splits)
  show "\<exists>calls'. owner_reach S s0 (at_rest_owner self' c' calls')"
  proof (cases e)
    case (Inl x)
    with run en reschedule [OF r] c enter_reinvocation_refuses [of self self1 x] show ?thesis
      by (auto simp: invoke_authorized_reinvocation_def at_rest_owner_def)
  next
    case (Inr u)
    obtain c1 y where d: "dispatch_retained_request self1 (c\<lparr>schedule := vs\<rparr>) eid now = (c1, y)" by force
    have "owner_reach S s0 \<lparr>os_owner = self1, os_conn = c, os_callers = [Calling Reinvocation], os_calls = calls\<rparr>"
      using Step [OF r Enter_reinvocation [of _ self1]] en Inr by (simp add: at_rest_owner_def)
    from call_reach [OF this eid d] run en Inr d show ?thesis
      by (cases y) (auto simp: invoke_authorized_reinvocation_def)
  qed
qed

definition handle_ok :: "RequestSignature \<Rightarrow> receipt_row list \<Rightarrow> CompletedInvocation \<Rightarrow> bool" where
  "handle_ok sg rows h \<longleftrightarrow> writer_result sg (ci_business_result h)
     \<and> ((\<exists>t. h = CompletedInvocation_from_runtime_owner (ci_business_result h) t)
        \<or> (\<exists>d. ci_cached_receipt_delivery h = Some d \<and> delivery_true rows (ci_business_result h) d))"

definition runtime_inv :: "server_event set \<Rightarrow> owner_state \<Rightarrow> RequestSignature \<Rightarrow> runtime_state \<Rightarrow> bool" where
  "runtime_inv S s0 sg s \<longleftrightarrow>
     (let iv = ro_invocation_owner (rt_owner s) in
       (\<exists>calls. owner_reach S s0 (at_rest_owner iv (rt_conn s) calls))
       \<and> (\<forall>h. ro_initial_completion (rt_owner s) = Some h \<longrightarrow>
            handle_ok sg (rt_rows s) h \<and> iv_initial_result iv = Some (ci_business_result h))
       \<and> (\<forall>h. ro_authorized_reinvocation_completion (rt_owner s) = Some h \<longrightarrow> handle_ok sg (rt_rows s) h \<and> iv_authority_spent iv))"

lemma delivery_true_mono: "delivery_true rows r d \<Longrightarrow> set rows \<subseteq> set rows' \<Longrightarrow> delivery_true rows' r d"
  unfolding delivery_true_def receipt_stored_def by (auto split: if_splits; blast)

lemma handle_ok_mono: "handle_ok sg rows h \<Longrightarrow> set rows \<subseteq> set rows' \<Longrightarrow> handle_ok sg rows' h"
  unfolding handle_ok_def using delivery_true_mono by blast

lemma handle_ok_new: "writer_result sg r \<Longrightarrow> handle_ok sg rows (CompletedInvocation_from_runtime_owner r t)"
  by (auto simp: handle_ok_def CompletedInvocation_from_runtime_owner_def Let_def)

lemma handle_ok_compose:
  assumes h: "handle_ok sg rows h" and o': "\<not> py_blank (sig_order_id sg)" and env: "uuid_factories env" "receipt_session rows env"
    and run: "compose_receipt float_io env h = (h', conn, d)"
  shows "handle_ok sg (rows_after rows conn) h'" and "ci_business_result h' = ci_business_result h" and "set rows \<subseteq> set (rows_after rows conn)"
proof -
  from h have w: "writer_result sg (ci_business_result h)" by (simp add: handle_ok_def)
  have "handle_ok sg (rows_after rows conn) h' \<and> ci_business_result h' = ci_business_result h \<and> set rows \<subseteq> set (rows_after rows conn)"
  proof (cases "\<exists>d. ci_cached_receipt_delivery h = Some d \<and> delivery_true rows (ci_business_result h) d")
    case True
    with run h compose_receipt_again show ?thesis by (auto simp: rows_after_def)
  next
    case False
    with h obtain t where t: "h = CompletedInvocation_from_runtime_owner (ci_business_result h) t" by (auto simp: handle_ok_def)
    from compose_receipt_true [OF w o' env] run t w show ?thesis by (simp add: handle_ok_def) metis
  qed
  then show "handle_ok sg (rows_after rows conn) h'" "ci_business_result h' = ci_business_result h" "set rows \<subseteq> set (rows_after rows conn)" by simp_all
qed

text \<open>What the owner theory gives for a state at rest.\<close>

lemma at_rest_facts:
  assumes "owner_inv S d0 sg s0" and "owner_reach S s0 (at_rest_owner iv c calls)"
  shows "conn_inv c" and "own c = empty_db" and "iv_initial_result iv = Some r \<Longrightarrow> writer_result sg r"
    and "iv_current_response_result iv = Some r \<Longrightarrow> writer_result sg r" and "iv_initial_result iv = Some r \<Longrightarrow> iv_initial_invocation_started iv"
    and "iv_authority_spent iv \<Longrightarrow> \<exists>r. iv_initial_result iv = Some r
      \<and> evaluate_postgres_write_side_reinvocation_authority sg r = Inr (ReinvocationAuthorization sg)"
    and "legal_db (committed c)" and "grows_by S d0 (committed c) \<or> accepted_once S d0 sg (committed c)"
  using reach_inv [OF assms(2,1)]
  by (auto simp: at_rest_owner_def owner_inv_defs conn_inv_def split: if_splits)

lemma inv_invoke_initial:
  assumes inv: "runtime_inv S s0 sg s" and base: "owner_inv S d0 sg s0" and eid: "uuid_in eid = Some eid" "set vs \<subseteq> S"
    and run: "runtime_invoke_initial (rt_owner s) ((rt_conn s)\<lparr>schedule := vs\<rparr>) eid now = (ro, c', h)"
  shows "runtime_inv S s0 sg (s\<lparr>rt_owner := ro, rt_conn := c'\<rparr>)"
proof -
  let ?iv = "ro_invocation_owner (rt_owner s)"
  from inv obtain calls where r: "owner_reach S s0 (at_rest_owner ?iv (rt_conn s) calls)" by (auto simp: runtime_inv_def Let_def)
  obtain iv y where i: "invoke_initial ?iv ((rt_conn s)\<lparr>schedule := vs\<rparr>) eid now = (iv, c', y)"
    using run by (cases "invoke_initial ?iv ((rt_conn s)\<lparr>schedule := vs\<rparr>) eid now")
      (auto simp: runtime_invoke_initial_def Let_def split: sum.splits if_splits)
  note n = invoke_initial_reach [OF r at_rest_facts(1,2) [OF base r] eid i]
  from n(1) obtain calls' where r': "owner_reach S s0 (at_rest_owner iv c' calls')" by blast
  have spent: "iv_authority_spent iv = iv_authority_spent ?iv"
    using i by (auto simp: invoke_initial_def enter_initial_def publish_initial_def publish_current_response_result_def
        split: if_splits prod.splits sum.splits)
  show ?thesis
  proof (cases y)
    case (Inl x)
    with run i n(3) inv r' spent show ?thesis by (auto simp: runtime_invoke_initial_def runtime_inv_def Let_def)
  next
    case (Inr p)
    note p = n(2) [OF Inr]
    with inv at_rest_facts(5) [OF base r] have none: "ro_initial_completion (rt_owner s) = None"
      by (cases "ro_initial_completion (rt_owner s)") (auto simp: runtime_inv_def Let_def)
    from p at_rest_facts(3) [OF base r'] have "writer_result sg p" by simp
    from handle_ok_new [OF this] run i Inr p none inv r' spent show ?thesis
      by (auto simp: runtime_invoke_initial_def runtime_inv_def new_completed_invocation_def Let_def CompletedInvocation_from_runtime_owner_def)
  qed
qed

lemma inv_invoke_reinvocation:
  assumes inv: "runtime_inv S s0 sg s" and base: "owner_inv S d0 sg s0" and eid: "uuid_in eid = Some eid" "set vs \<subseteq> S"
    and run: "runtime_invoke_authorized_reinvocation (rt_owner s) ((rt_conn s)\<lparr>schedule := vs\<rparr>) eid now = (ro, c', h)"
  shows "runtime_inv S s0 sg (s\<lparr>rt_owner := ro, rt_conn := c'\<rparr>)"
proof -
  let ?iv = "ro_invocation_owner (rt_owner s)"
  from inv obtain calls where r: "owner_reach S s0 (at_rest_owner ?iv (rt_conn s) calls)" by (auto simp: runtime_inv_def Let_def)
  obtain iv y where i: "invoke_authorized_reinvocation ?iv ((rt_conn s)\<lparr>schedule := vs\<rparr>) eid now = (iv, c', y)"
    using run by (cases "invoke_authorized_reinvocation ?iv ((rt_conn s)\<lparr>schedule := vs\<rparr>) eid now")
      (auto simp: runtime_invoke_authorized_reinvocation_def Let_def split: sum.splits if_splits)
  note n = reinvocation_reach [OF r at_rest_facts(1,2) [OF base r] eid i]
  from n(1) obtain calls' where r': "owner_reach S s0 (at_rest_owner iv c' calls')" by blast
  have spent: "iv_authority_spent ?iv \<Longrightarrow> iv_authority_spent iv"
    using i by (auto simp: invoke_authorized_reinvocation_def enter_reinvocation_def clear_current_response_state_def publish_current_response_result_def
        split: if_splits prod.splits sum.splits option.splits reinvocation_evaluation.splits)
  have stays: "runtime_inv S s0 sg (s\<lparr>rt_owner := (rt_owner s)\<lparr>ro_invocation_owner := iv\<rparr>, rt_conn := c'\<rparr>)"
    using inv n(3) r' spent by (auto simp: runtime_inv_def Let_def)
  show ?thesis
  proof (cases y)
    case (Inl x)
    with run i stays show ?thesis by (auto simp: runtime_invoke_authorized_reinvocation_def)
  next
    case (Inr p)
    note p = n(2) [OF Inr]
    from p at_rest_facts(4) [OF base r'] have "writer_result sg p" by simp
    from handle_ok_new [OF this] run i Inr p stays show ?thesis
      by (auto simp: runtime_invoke_authorized_reinvocation_def runtime_inv_def new_completed_invocation_def Let_def split: if_splits)
  qed
qed

lemma evaluation_keeps:
  "iv_initial_result (fst (evaluate_current_response self minted)) = iv_initial_result self"
  "iv_authority_spent (fst (evaluate_current_response self minted)) = iv_authority_spent self"
  "iv_initial_result (fst (owner_evaluate_reinvocation_authority self)) = iv_initial_result self"
  "iv_authority_spent (fst (owner_evaluate_reinvocation_authority self)) = iv_authority_spent self"
  by (auto simp: evaluate_current_response_def owner_evaluate_reinvocation_authority_def Let_def split: sum.splits option.splits)

lemma inv_inner_step:
  assumes inv: "runtime_inv S s0 sg s" and "\<And>calls. owner_step S (at_rest_owner (ro_invocation_owner (rt_owner s)) (rt_conn s) calls) (at_rest_owner iv c' calls)"
    and "iv_initial_result iv = iv_initial_result (ro_invocation_owner (rt_owner s))"
    and "iv_authority_spent iv = iv_authority_spent (ro_invocation_owner (rt_owner s))"
  shows "runtime_inv S s0 sg (s\<lparr>rt_owner := (rt_owner s)\<lparr>ro_invocation_owner := iv\<rparr>, rt_conn := c'\<rparr>)"
  using assms Step by (fastforce simp: runtime_inv_def Let_def)

lemma runtime_step_inv:
  assumes "runtime_step S float_io s s'" and inv: "runtime_inv S s0 sg s" and base: "owner_inv S d0 sg s0" and o': "\<not> py_blank (sig_order_id sg)"
  shows "runtime_inv S s0 sg s'"
  using assms(1)
proof cases
  case (Invoke_initial eid vs now ro c' h)
  with inv_invoke_initial [OF inv base] show ?thesis by simp
next
  case (Invoke_reinvocation eid vs now ro c' h)
  with inv_invoke_reinvocation [OF inv base] show ?thesis by simp
next
  case (Evaluate_current minted ro d)
  then show ?thesis
    using inv_inner_step [OF inv, of "fst (evaluate_current_response (ro_invocation_owner (rt_owner s)) minted)" "rt_conn s"]
      Evaluate_response [of "at_rest_owner (ro_invocation_owner (rt_owner s)) (rt_conn s) _" minted _ _ S] evaluation_keeps
    by (auto simp: runtime_evaluate_current_response_def at_rest_owner_def split: prod.splits)
next
  case (Evaluate_reinvocation ro a)
  then show ?thesis
    using inv_inner_step [OF inv, of "fst (owner_evaluate_reinvocation_authority (ro_invocation_owner (rt_owner s)))" "rt_conn s"]
      Evaluate_authority [of "at_rest_owner (ro_invocation_owner (rt_owner s)) (rt_conn s) _" _ _ S] evaluation_keeps
    by (auto simp: runtime_evaluate_reinvocation_authority_def at_rest_owner_def split: prod.splits)
next
  case (Compose_initial h env h' conn d)
  from inv Compose_initial(2) have "handle_ok sg (rt_rows s) h" by (auto simp: runtime_inv_def Let_def)
  note c = handle_ok_compose [OF this o' Compose_initial(3-5)]
  show ?thesis using inv c handle_ok_mono [OF _ c(3)] Compose_initial(1,2) by (auto simp: runtime_inv_def Let_def)
next
  case (Compose_reinvocation h env h' conn d)
  from inv Compose_reinvocation(2) have "handle_ok sg (rt_rows s) h" by (auto simp: runtime_inv_def Let_def)
  note c = handle_ok_compose [OF this o' Compose_reinvocation(3-5)]
  show ?thesis using inv c handle_ok_mono [OF _ c(3)] Compose_reinvocation(1,2) by (auto simp: runtime_inv_def Let_def)
next
  case (Other_writers c')
  then show ?thesis
    using inv_inner_step [OF inv, of "ro_invocation_owner (rt_owner s)" c']
      Other_sessions [of c' S "at_rest_owner (ro_invocation_owner (rt_owner s)) (rt_conn s) _"]
    by (simp add: at_rest_owner_def)
next
  case (Other_receipts rows)
  have "handle_ok sg (rt_rows s) h \<Longrightarrow> handle_ok sg (rt_rows s @ rows) h" for h by (rule handle_ok_mono) auto
  with inv Other_receipts show ?thesis by (auto simp: runtime_inv_def Let_def)
qed

lemma runtime_reach_inv:
  assumes "runtime_reach S float_io s1 s" and "runtime_inv S s0 sg s1" and "owner_inv S d0 sg s0" and "\<not> py_blank (sig_order_id sg)"
  shows "runtime_inv S s0 sg s"
  using assms by (induction rule: runtime_reach.induct) (auto intro: runtime_step_inv)

section \<open>The receipt of an acceptance\<close>

text \<open>Identities that a column returned hold no NUL, so the receipt of an accepted event fits the receipt table.\<close>

lemma uuid_text: 
  assumes "uuid_in s = Some s"
  shows "text_ok s"
proof -
  from assms have "length s = 36" and "\<And>i. i < 36 \<Longrightarrow> if i \<in> {8, 13, 18, 23} then s ! i = CHR ''-'' else is_hex (s ! i)"
    by (auto simp: uuid_in_def Let_def list_all_length split: if_splits)
  then have "c = CHR ''-'' \<or> is_hex c" if "c \<in> set s" for c
    using that by (metis in_set_conv_nth)
  moreover have "\<not> is_hex (CHR 0x00)" by (simp add: is_hex_def is_digit_def)
  ultimately show ?thesis unfolding text_ok_def by auto
qed

lemma stored_event_row:
  assumes "legal_db d" and "e \<in> set (history d oid)"
  obtains row where "row \<in> set (order_events d)" and "col_accepted_event_id row = ev_event_id e"
    and "text_ok (ev_order_id e)" and "text_ok (ev_request_id e)"
proof -
  from assms(1) have ok: "db_ok d" by (simp add: legal_db_def)
  from assms(2) obtain row where row: "row \<in> set (order_events d)" "e = event_of row"
    by (auto simp: history_map [OF ok] stream_rows_set)
  have t: "event_row_typed row" using ok row(1) by (auto simp: db_ok_def list_all_iff)
  have "text_in (ev_order_id e) \<noteq> None \<and> text_in (ev_request_id e) \<noteq> None"
    using typed_row_event(2) [OF t] unfolding row(2) by (auto simp: event_to_row_def res_simps)
  with that row typed_row_event(5) [OF t] show ?thesis by (auto simp: text_in_def text_ok_def split: if_splits)
qed

lemma enum_texts:
  "text_ok (ValidationMode_value m)" "text_ok (EnforcementAction_value a)" "text_ok (ValidationVerdict_value v)" "text_ok (AdmissionVerdict_value w)"
  "text_ok (IdempotencyVerdict_value i)"
  by (cases m; cases a; cases v; cases w; cases i; simp add: text_ok_def)+

lemma accepted_summary_portable:
  assumes "evidence_summary_for_result r = Inr summary" and "wr_outcome r = OUT_ACCEPTED"
  shows "portable (VDict (thawed_pairs (frozen_pairs summary)))"
  using assms enum_texts
  by (auto simp: evidence_summary_for_result_def receipt_technical_status_for_result_def lifecycle_phase_for_result_def dict_display_def res_simps
      text_ok_def split: option.splits)

lemma accepted_reason:
  assumes "map_postgres_write_side_result_to_semantic_outcome oid r [] [] = Inr outcome" and "wr_outcome r = OUT_ACCEPTED"
  shows "so_reason outcome = ''Write-side candidate event was admitted into accepted history.''"
  using assms by (auto simp: map_postgres_write_side_result_to_semantic_outcome_def reason_for_result_def
      map_write_side_admission_status_to_semantic_outcome_def map_runtime_technical_status_def SemanticOutcome_init_def require_reason_def py_blank_iff
      py_isspace_def res_simps split: if_splits)

lemma accepted_receipt_portable:
  assumes a: "answered sg eid r" and eid: "uuid_in eid = Some eid" and acc: "wr_outcome r = OUT_ACCEPTED"
    and t: "text_ok (sig_order_id sg)" "text_ok (sig_request_id sg)" and ids: "is_uuid rid" "is_uuid oid"
  obtains rc payload where "map_postgres_write_side_result_to_decision_receipt rid oid r = Inr rc" and "receipt_ok rc" and "receipt_int64 rc"
    and "receipt_portable rc" and "serialize_decision_receipt rc = Inr payload" and "dr_receipt_id rc = rid"
    and "admitted_write_side_accepted_event_id rc = Some eid" and "dc_accepted_event_id (dr_correlation rc) = Some eid"
proof -
  from a acc obtain e where e: "accepted_event_from_result r = Some e" "ev_event_id e = eid" "ev_order_id e = sig_order_id sg"
    "ev_request_id e = sig_request_id sg" and o': "\<not> py_blank (sig_order_id sg)"
    by (auto simp: answered_def accepted_event_from_result_def)
  obtain rc outcome disposition summary where rc: "map_postgres_write_side_result_to_decision_receipt rid oid r = Inr rc" "receipt_ok rc" "receipt_int64 rc"
    "dr_receipt_id rc = rid" "map_postgres_write_side_result_to_semantic_outcome oid r [] [] = Inr outcome"
    "(dr_outcome_id rc, dr_ok rc, dr_boundary rc, dr_category rc, dr_semantic_code rc, dr_reason rc)
       = (oid, so_ok outcome, so_boundary outcome, so_category outcome, so_code outcome, so_reason outcome)"
    "dr_admission_evidence rc = Some \<lparr>dae_disposition = disposition\<rparr>"
    "(disposition = AD_ADMITTED_TO_ACCEPTED_HISTORY) = (wr_outcome r = OUT_ACCEPTED)"
    and sub: "dr_subject rc = \<lparr>ds_subject_type = ST_ACCEPTED_EVENT, ds_subject_id = Some eid\<rparr>"
    and sum: "evidence_summary_for_result r = Inr summary" "dr_evidence_summary rc = frozen_pairs summary" "dr_metadata rc = []"
    and src: "(dr_evidence_source rc, dr_actor rc) = (ES_WRITE_SIDE_ADMISSION, default_actor)"
    and cor: "dr_correlation rc = \<lparr>dc_order_id = si_order_id (named_identity eid r), dc_request_id = si_request_id (named_identity eid r),
      dc_candidate_event_id = si_candidate_event_id (named_identity eid r), dc_accepted_event_id = si_accepted_event_id (named_identity eid r),
      dc_snapshot_id = None, dc_source_global_position = None, dc_identity_source = identity_source_for_result r (named_identity eid r)\<rparr>"
    by (rule answered_receipt_parts [OF a eid o' ids], rule that; (assumption | simp add: acc))
  have named: "si_order_id (named_identity eid r) = Some (sig_order_id sg)" "si_request_id (named_identity eid r) = Some (sig_request_id sg)"
    "si_accepted_event_id (named_identity eid r) = Some eid" using e by (simp_all add: named_identity_def)
  have reason: "text_ok (dr_reason rc)" using accepted_reason [OF rc(5) acc] rc(6) by (simp add: text_ok_def)
  have "receipt_portable rc"
    using reason t uuid_text [OF eid] sub accepted_summary_portable [OF sum(1) acc] src
    by (simp add: receipt_portable_def cor named sum(2,3) default_actor_def opt_checked_def del: portable.simps(2)) simp
  moreover have "admitted_write_side_accepted_event_id rc = Some eid"
    using rc(7,8) acc src by (simp add: admitted_write_side_accepted_event_id_def cor named)
  moreover obtain payload where "serialize_decision_receipt rc = Inr payload" using serialize_total [OF rc(2,3)] by blast
  ultimately show ?thesis using that rc(1-4) by (simp add: cor named)
qed

section \<open>Properties\<close>

text \<open>
  C3: Receipts never bend the business. However the callers of a built runtime owner and of its completed handles
  interleave, with each other, with other sessions on both databases and with failures, the business database
  changes by commits of other sessions and at most one accepted event of the request; a second
  completion exists only after authority was issued for the first result; and every receipt
  delivery is true: it carries exactly the result of its invocation, an eligible result reached persistence with
  the receipt that the mapping gives for it, a receipt reported as COMMITTED is stored under its identity with its
  payload, and an ineligible result never reached persistence.
\<close>

theorem runtime_owner_truthful:
  assumes "conn_inv c" and "own c = empty_db" and "\<not> py_blank (sig_order_id sg)"
    and "build_postgres_write_side_decision_receipt_runtime sg validation timeout_ms gate config = Inr ro"
    and "runtime_reach S float_io (new_runtime_state ro c rows) s"
  shows "legal_db (committed (rt_conn s)) \<and> own (rt_conn s) = empty_db
    \<and> (grows_by S (committed c) (committed (rt_conn s))
       \<or> (\<exists>e d1. accepted_in S (committed c) sg e d1 \<and> grows_by S d1 (committed (rt_conn s))))
    \<and> (\<forall>h. initial_completion (rt_owner s) = Inr h \<longrightarrow> iv_initial_result (ro_invocation_owner (rt_owner s)) = Some (ci_business_result h))
    \<and> (\<forall>h. authorized_reinvocation_completion (rt_owner s) = Inr h \<longrightarrow>
         (\<exists>r. iv_initial_result (ro_invocation_owner (rt_owner s)) = Some r
            \<and> evaluate_postgres_write_side_reinvocation_authority sg r = Inr (ReinvocationAuthorization sg)))
    \<and> (\<forall>h d. initial_completion (rt_owner s) = Inr h \<or> authorized_reinvocation_completion (rt_owner s) = Inr h \<longrightarrow>
         ci_cached_receipt_delivery h = Some d \<longrightarrow> delivery_true (rt_rows s) (ci_business_result h) d)"
proof -
  obtain w t where ro: "ro = RuntimeOwner_init sg w t"
    using assms(4) by (auto simp: build_postgres_write_side_decision_receipt_runtime_def Let_def res_simps)
  let ?s0 = "new_owner_state sg w c"
  have base: "owner_inv S (committed c) sg ?s0" by (rule inv_new [OF assms(1,2) refl])
  have "?s0 = at_rest_owner (new_invocation_owner sg w) c []" by (simp add: new_owner_state_def at_rest_owner_def)
  then have "owner_reach S ?s0 (at_rest_owner (new_invocation_owner sg w) c [])" using owner_reach.Start [of S ?s0] by simp
  then have start: "runtime_inv S ?s0 sg (new_runtime_state ro c rows)"
    by (auto simp: runtime_inv_def ro RuntimeOwner_init_def new_runtime_state_def Let_def)
  have inv: "runtime_inv S ?s0 sg s" by (rule runtime_reach_inv [OF assms(5) start base assms(3)])
  then obtain calls where r: "owner_reach S ?s0 (at_rest_owner (ro_invocation_owner (rt_owner s)) (rt_conn s) calls)"
    by (auto simp: runtime_inv_def Let_def)
  note f = at_rest_facts [OF base r]
  have fresh: "ci_cached_receipt_delivery (CompletedInvocation_from_runtime_owner q t) = None" for q t
    by (simp add: CompletedInvocation_from_runtime_owner_def Let_def)
  have "delivery_true (rt_rows s) (ci_business_result h) d" if "handle_ok sg (rt_rows s) h" "ci_cached_receipt_delivery h = Some d" for h d
    using that fresh unfolding handle_ok_def by (metis option.distinct(1) option.inject)
  then show ?thesis using inv f
    by (auto simp: runtime_inv_def Let_def initial_completion_def authorized_reinvocation_completion_def accepted_once_def split: option.splits)
qed

text \<open>The result of the first invocation is that of the retained command.\<close>

lemma runtime_first_result:
  assumes "build_postgres_write_side_decision_receipt_runtime sg validation timeout_ms gate config = Inr ro"
    and "runtime_invoke_initial ro bc eid now = (ro', bc', Inr h)"
  obtains w r where "durable_command w False bc (retained_command sg eid now) = (bc', Inr (Primary r))"
    and "h = CompletedInvocation_from_runtime_owner r timeout_ms" and "ro = RuntimeOwner_init sg w timeout_ms"
proof -
  from assms(1) obtain w where ro: "ro = RuntimeOwner_init sg w timeout_ms"
    by (auto simp: build_postgres_write_side_decision_receipt_runtime_def TransactionOwner_init_def Let_def res_simps split: if_splits)
  let ?own = "(new_invocation_owner sg w)\<lparr>iv_initial_invocation_started := True\<rparr>"
  obtain c1 y where d: "dispatch_retained_request ?own bc eid now = (c1, y)" by force
  from assms(2) d obtain r where r: "y = Inr r" "c1 = bc'" "h = CompletedInvocation_from_runtime_owner r timeout_ms"
    by (cases y) (auto simp: ro RuntimeOwner_init_def runtime_invoke_initial_def invoke_initial_def enter_initial_def new_invocation_owner_def
        new_completed_invocation_def Let_def)
  from dispatch_is_command [OF d] r(1,2) have "durable_command w False bc (retained_command sg eid now) = (bc', Inr (Primary r))"
    by (simp add: new_invocation_owner_def)
  with that r(3) ro show ?thesis by blast
qed

text \<open>
  C31: An accepted command gets its receipt. After a first invocation whose event was accepted, composing the receipt on
  a usable receipt connection that nothing disturbs, which sees the committed events and no receipt of this
  identity or for this event, reports PERSISTENCE_COMPLETED with an acknowledged commit and adds exactly one row, the admitted receipt of
  the accepted event; composing again returns the same delivery and touches no connection.
\<close>

theorem accepted_command_receipted:
  assumes bc: "conn_inv bc" "own bc = empty_db" and eid: "uuid_in eid = Some eid"
    and ro: "build_postgres_write_side_decision_receipt_runtime sg validation timeout_ms gate config = Inr ro" "timeout_ms \<le> 2147483647"
    and run: "runtime_invoke_initial ro bc eid now = (ro', bc', Inr h)" "wr_outcome (ci_business_result h) = OUT_ACCEPTED"
    and env: "re_receipt_id_factory env = Inr (VUuid rid)" "re_outcome_id_factory env = Inr (VUuid oid)" "is_uuid rid" "is_uuid oid"
      "re_receipt_connection_factory env = Inr (Dedicated_connection c)"
    and c: "rc_schedule c = []" "rc_own c = []" "rc_autocommit c = Inr False" "rc_idle c = Inr True"
    and new: "rid \<notin> set (map rr_receipt_id (rc_committed c))" "Some eid \<notin> set (map admitted_write_side_event (rc_committed c))"
    and seen: "set (map col_accepted_event_id (order_events (committed bc'))) \<subseteq> set (rc_events c)"
  shows "\<exists>h' c' d pc result row. compose_receipt float_io env h = (h', Some c', Inr d)
    \<and> rv_business_result d = ci_business_result h \<and> rv_receipt_status d = PERSISTENCE_COMPLETED \<and> rv_persistence_delivery d = Some pc
    \<and> pc_persistence_result pc = Some result \<and> tr_durability result = TX_COMMITTED
    \<and> rc_committed c' = rc_committed c @ [row] \<and> rr_receipt_id row = rid \<and> admitted_write_side_event row = Some eid
    \<and> (\<forall>env'. compose_receipt float_io env' h' = (h', None, Inr d))"
proof -
  obtain w r where cmd: "durable_command w False bc (retained_command sg eid now) = (bc', Inr (Primary r))"
    and h: "h = CompletedInvocation_from_runtime_owner r timeout_ms" by (rule runtime_first_result [OF ro(1) run(1)])
  have r: "ci_business_result h = r" "wr_outcome r = OUT_ACCEPTED" using run(2) h by (simp_all add: CompletedInvocation_from_runtime_owner_def Let_def)
  have eid': "uuid_in (cmd_event_id (retained_command sg eid now)) = Some (cmd_event_id (retained_command sg eid now))" using eid by simp
  have a: "answered sg eid r" using durable_command_answered [OF bc eid' cmd] by simp
  obtain e where e: "ev_event_id e = eid" and acc: "accepted_in (set (schedule bc)) (committed bc) sg e (committed bc')"
    using durable_command_post [OF bc eid' cmd] r(2) by (auto simp: command_post_def)
  have "legal_db (committed bc')" "e \<in> set (history (committed bc') (ev_order_id e))" using acc by (auto simp: accepted_in_def)
  then obtain row where "row \<in> set (order_events (committed bc'))" "col_accepted_event_id row = eid"
    and t: "text_ok (ev_order_id e)" "text_ok (ev_request_id e)" using e stored_event_row by metis
  then have known: "eid \<in> set (rc_events c)" using seen by auto
  note sg = accepted_identity(1,2) [OF acc]
  obtain rc payload where rc: "map_postgres_write_side_result_to_decision_receipt rid oid r = Inr rc" "receipt_ok rc" "receipt_int64 rc"
    "receipt_portable rc" "serialize_decision_receipt rc = Inr payload" "dr_receipt_id rc = rid"
    "admitted_write_side_accepted_event_id rc = Some eid" "dc_accepted_event_id (dr_correlation rc) = Some eid"
    by (rule accepted_receipt_portable [OF a eid r(2) t [unfolded sg] env(3,4)])
  have elig: "is_eligible (evaluate_persistence_eligibility r)" by (simp add: is_eligible_def evaluate_persistence_eligibility_def r(2))
  obtain c' result row where p: "persist float_io (re_now_ms env) timeout_ms (Inr c) rc LIVE_RESULT = (Some c', Inr result)"
    "tr_durability result = TX_COMMITTED" "rc_committed c' = rc_committed c @ [row]" "rr_receipt_id row = rid" "admitted_write_side_event row = Some eid"
    using quiet_persist [OF c ro(2) rc(2-5), of float_io "re_now_ms env" LIVE_RESULT] new known rc(6-8) by (auto simp: opt_checked_def)
  have acq: "acquire_dedicated_receipt_connection (re_receipt_connection_factory env) = Inr c" using env(5) by (simp add: acquired_dedicated)
  obtain h' d pc where d: "compose_receipt float_io env h = (h', Some c', Inr d)" "rv_business_result d = r"
    "rv_receipt_status d = PERSISTENCE_COMPLETED" "rv_persistence_delivery d = Some pc" "pc_persistence_result pc = Some result"
    "ci_cached_receipt_delivery h' = Some d"
    unfolding h by (rule compose_receipt_runs [OF rc(1) env(1,2) elig p(1) [folded acq]])
  have again: "\<forall>env'. compose_receipt float_io env' h' = (h', None, Inr d)" using compose_receipt_again [OF d(6)] by blast
  show ?thesis
    by (rule exI [of _ h'], rule exI [of _ c'], rule exI [of _ d], rule exI [of _ pc], rule exI [of _ result], rule exI [of _ row])
      (use d p r(1) again in simp)
qed

section \<open>A concrete runtime\<close>

definition sample_runtime :: RuntimeOwner where
  "sample_runtime = RuntimeOwner_init (signature_of sample_command) (sample_write_side IN_TRANSACTION Optimistic) 5000"

lemma sample_runtime_built:
  "build_postgres_write_side_decision_receipt_runtime (signature_of sample_command) (reg_validation_runtime (build_transactional_runtime STRICT)) 5000
     None (Some \<lparr>cfg_validation_mode = STRICT, cfg_validation_placement = IN_TRANSACTION\<rparr>) = Inr sample_runtime"
  by (simp add: build_postgres_write_side_decision_receipt_runtime_def TransactionOwner_init_def sample_runtime_def sample_write_side_def)

lemma sample_runtime_run:
  obtains ro c' h where "runtime_invoke_initial sample_runtime sample_conn (cmd_event_id sample_command) (cmd_now sample_command) = (ro, c', Inr h)"
    and "wr_outcome (ci_business_result h) = OUT_ACCEPTED" and "ro_initial_completion ro = Some h"
    and "h = CompletedInvocation_from_runtime_owner (ci_business_result h) 5000"
proof -
  obtain own' c' r where "invoke_initial (new_invocation_owner (signature_of sample_command) (sample_write_side IN_TRANSACTION Optimistic))
      sample_conn (cmd_event_id sample_command) (cmd_now sample_command) = (own', c', Inr r)" "wr_outcome r = OUT_ACCEPTED"
    by (rule sample_owner_run)
  with that show ?thesis
    by (simp add: sample_runtime_def RuntimeOwner_init_def runtime_invoke_initial_def new_completed_invocation_def
        CompletedInvocation_from_runtime_owner_def Let_def)
qed

lemma sample_order_named: "\<not> py_blank (sig_order_id (signature_of sample_command))"
  by (simp add: signature_of_def sample_command_def sample_create_def py_blank_iff py_isspace_def)

definition sample_env :: "factory_connection rres \<Rightarrow> receipt_env" where
  "sample_env f = \<lparr>re_receipt_id_factory = Inr (VUuid ''00000000-0000-0000-0000-000000000001''),
     re_outcome_id_factory = Inr (VUuid ''00000000-0000-0000-0000-000000000002''), re_now_ms = 0, re_receipt_connection_factory = f\<rparr>"

lemma sample_env_uuids: "is_uuid ''00000000-0000-0000-0000-000000000001''" "is_uuid ''00000000-0000-0000-0000-000000000002''"
  by (rule column_uuid; code_simp)+

theorem runtime_owner_truthful_witness:
  "\<exists>s h d. runtime_reach {} id (new_runtime_state sample_runtime sample_conn []) s \<and> initial_completion (rt_owner s) = Inr h
     \<and> wr_outcome (ci_business_result h) = OUT_ACCEPTED \<and> ci_cached_receipt_delivery h = Some d
     \<and> delivery_true (rt_rows s) (ci_business_result h) d"
proof -
  let ?s = "new_runtime_state sample_runtime sample_conn []" and ?env = "sample_env (Inl (Python_error (RuntimeError ''unreachable'')))"
  obtain ro c' h where run: "runtime_invoke_initial sample_runtime sample_conn (cmd_event_id sample_command) (cmd_now sample_command) = (ro, c', Inr h)"
    and h: "wr_outcome (ci_business_result h) = OUT_ACCEPTED" "ro_initial_completion ro = Some h"
      "h = CompletedInvocation_from_runtime_owner (ci_business_result h) 5000" by (rule sample_runtime_run)
  have "sample_conn\<lparr>schedule := []\<rparr> = sample_conn" by (simp add: sample_conn_def)
  then have "runtime_step {} id ?s (?s\<lparr>rt_owner := ro, rt_conn := c'\<rparr>)"
    using Invoke_initial [of "cmd_event_id sample_command" "[]" "{}" ?s "cmd_now sample_command" ro c' "Inr h" id] run sample_idle(4)
    by (simp add: new_runtime_state_def)
  then have r1: "runtime_reach {} id ?s (?s\<lparr>rt_owner := ro, rt_conn := c'\<rparr>)" by (rule runtime_reach.Next [OF runtime_reach.Begin])
  have env: "uuid_factories ?env" "receipt_session [] ?env"
    using sample_env_uuids by (auto simp: uuid_factories_def sample_env_def receipt_session_def)
  obtain h' conn d where comp: "compose_receipt id ?env h = (h', conn, d)" by (cases "compose_receipt id ?env h")
  let ?s2 = "\<lparr>rt_owner = ro\<lparr>ro_initial_completion := Some h'\<rparr>, rt_conn = c', rt_rows = rows_after [] conn\<rparr>"
  have "runtime_step {} id (?s\<lparr>rt_owner := ro, rt_conn := c'\<rparr>) ?s2"
    using Compose_initial [of "?s\<lparr>rt_owner := ro, rt_conn := c'\<rparr>" h ?env id h' conn d "{}"] h(2) env comp by (simp add: new_runtime_state_def)
  with r1 have r2: "runtime_reach {} id ?s ?s2" by (rule runtime_reach.Next)
  have init: "initial_completion (rt_owner ?s2) = Inr h'" by (simp add: initial_completion_def)
  obtain w r where cmd: "durable_command w False sample_conn (retained_command (signature_of sample_command) (cmd_event_id sample_command) (cmd_now sample_command))
      = (c', Inr (Primary r))" "h = CompletedInvocation_from_runtime_owner r 5000" by (rule runtime_first_result [OF sample_runtime_built run])
  have "writer_result (signature_of sample_command) r"
    using durable_command_answered [OF sample_idle(1,2) _ cmd(1)] sample_idle(4) by (auto simp: writer_result_def)
  from compose_receipt_true [OF this sample_order_named env comp [unfolded cmd(2)]] obtain d' where
    d': "ci_business_result h' = r" "ci_cached_receipt_delivery h' = Some d'" by blast
  have "r = ci_business_result h" using cmd(2) by (simp add: CompletedInvocation_from_runtime_owner_def Let_def)
  moreover have "delivery_true (rt_rows ?s2) (ci_business_result h') d'"
    using runtime_owner_truthful [OF sample_idle(1,2) sample_order_named sample_runtime_built r2] init d'(2) by blast
  ultimately show ?thesis
    by (intro exI [of _ ?s2] exI [of _ h'] exI [of _ d'] conjI r2 init d'(2)) (simp_all add: d'(1) h(1))
qed

theorem accepted_command_receipted_witness:
  "\<exists>ro c' h rows h' c2 d. runtime_invoke_initial sample_runtime sample_conn (cmd_event_id sample_command) (cmd_now sample_command) = (ro, c', Inr h)
     \<and> compose_receipt id (sample_env (Inr (Dedicated_connection (sample_receipt_conn\<lparr>rc_events := rows\<rparr>)))) h = (h', Some c2, Inr d)
     \<and> rv_receipt_status d = PERSISTENCE_COMPLETED \<and> map admitted_write_side_event (rc_committed c2) = [Some (cmd_event_id sample_command)]"
proof -
  obtain ro c' h where run: "runtime_invoke_initial sample_runtime sample_conn (cmd_event_id sample_command) (cmd_now sample_command) = (ro, c', Inr h)"
    and h: "wr_outcome (ci_business_result h) = OUT_ACCEPTED" by (rule sample_runtime_run)
  let ?rows = "map col_accepted_event_id (order_events (committed c'))"
  let ?c = "sample_receipt_conn\<lparr>rc_events := ?rows\<rparr>"
  let ?env = "sample_env (Inr (Dedicated_connection ?c))"
  have env: "re_receipt_id_factory ?env = Inr (VUuid ''00000000-0000-0000-0000-000000000001'')"
    "re_outcome_id_factory ?env = Inr (VUuid ''00000000-0000-0000-0000-000000000002'')" "re_receipt_connection_factory ?env = Inr (Dedicated_connection ?c)"
    by (simp_all add: sample_env_def)
  have c: "rc_schedule ?c = []" "rc_own ?c = []" "rc_autocommit ?c = Inr False" "rc_idle ?c = Inr True" "rc_committed ?c = []" "rc_events ?c = ?rows"
    by (simp_all add: sample_receipt_conn_def)
  have "\<exists>h' c' d pc result row. compose_receipt id ?env h = (h', Some c', Inr d)
    \<and> rv_business_result d = ci_business_result h \<and> rv_receipt_status d = PERSISTENCE_COMPLETED \<and> rv_persistence_delivery d = Some pc
    \<and> pc_persistence_result pc = Some result \<and> tr_durability result = TX_COMMITTED
    \<and> rc_committed c' = rc_committed ?c @ [row] \<and> rr_receipt_id row = ''00000000-0000-0000-0000-000000000001''
    \<and> admitted_write_side_event row = Some (cmd_event_id sample_command)
    \<and> (\<forall>env'. compose_receipt id env' h' = (h', None, Inr d))"
    by (rule accepted_command_receipted [OF sample_idle(1,2,4) sample_runtime_built _ run h env(1,2) sample_env_uuids env(3) c(1-4)])
      (simp_all add: c(5,6))
  then obtain h' c2 d where "compose_receipt id ?env h = (h', Some c2, Inr d)" "rv_receipt_status d = PERSISTENCE_COMPLETED"
    "map admitted_write_side_event (rc_committed c2) = [Some (cmd_event_id sample_command)]" by (auto simp: c(5))
  with run show ?thesis
    by (intro exI [of _ ro] exI [of _ c'] exI [of _ h] exI [of _ ?rows] exI [of _ h'] exI [of _ c2] exI [of _ d] conjI)
qed

end
