(* ===== verification/Authority_Escalation.thy ===== *)
theory Authority_Escalation
  imports Prelude
begin

text \<open>
  The authority-composition model of experiments/indirect_authority_escalation/model.py: a closed
  table of local capabilities, evidence and its issuance, semantic authority admission, the
  inventory store with its vulnerable and governed services, the workflow, the agent and the
  warehouse. Every component but the store is stateless; the store is passed explicitly. The private
  issuance token is a flag of the evidence, which only the issuing operations set, and which
  equality of evidence ignores. The \<open>isinstance\<close> checks are settled by the types of the model.
\<close>

section \<open>Capabilities\<close>

datatype Component = LIMITED_AGENT | RESTOCK_WORKFLOW | INVENTORY_AUTHORITY_SERVICE | AUTHORITATIVE_INVENTORY_STORE

datatype LocalOperation = SUBMIT_RESTOCK_REQUEST | SUBMIT_REPLENISHMENT_CANDIDATE | APPEND_ACCEPTED_REPLENISHMENT

datatype PermissionDecision = PERMISSION_ALLOWED | PERMISSION_DENIED

datatype EvidenceKind = AGENT_RESTOCK_REQUEST | WAREHOUSE_RECEIPT_CONFIRMATION

datatype EvidenceIssuer = ISSUER_LIMITED_AGENT | ISSUER_WAREHOUSE_AUTHORITY

datatype Proposition = RESTOCK_REQUESTED | STOCK_REPLENISHED

datatype AuthorityPromotionDecision = PROMOTION_ACCEPT | PROMOTION_REJECT

record LocalCapability =
  lc_caller :: Component
  lc_operation :: LocalOperation
  lc_target :: Component

record CapabilityCheck =
  cc_capability :: LocalCapability
  cc_decision :: PermissionDecision

definition CAPABILITY_DECISIONS :: "(LocalCapability \<times> PermissionDecision) list" where
  "CAPABILITY_DECISIONS =
     [(\<lparr>lc_caller = LIMITED_AGENT, lc_operation = SUBMIT_RESTOCK_REQUEST, lc_target = RESTOCK_WORKFLOW\<rparr>, PERMISSION_ALLOWED),
      (\<lparr>lc_caller = RESTOCK_WORKFLOW, lc_operation = SUBMIT_REPLENISHMENT_CANDIDATE,
        lc_target = INVENTORY_AUTHORITY_SERVICE\<rparr>, PERMISSION_ALLOWED),
      (\<lparr>lc_caller = INVENTORY_AUTHORITY_SERVICE, lc_operation = APPEND_ACCEPTED_REPLENISHMENT,
        lc_target = AUTHORITATIVE_INVENTORY_STORE\<rparr>, PERMISSION_ALLOWED),
      (\<lparr>lc_caller = LIMITED_AGENT, lc_operation = APPEND_ACCEPTED_REPLENISHMENT,
        lc_target = AUTHORITATIVE_INVENTORY_STORE\<rparr>, PERMISSION_DENIED)]"

definition EVIDENCE_KIND_PROPOSITIONS :: "(EvidenceKind \<times> Proposition list) list" where
  "EVIDENCE_KIND_PROPOSITIONS =
     [(AGENT_RESTOCK_REQUEST, [RESTOCK_REQUESTED]), (WAREHOUSE_RECEIPT_CONFIRMATION, [STOCK_REPLENISHED])]"

definition ISSUER_PROPOSITIONS :: "(EvidenceIssuer \<times> Proposition list) list" where
  "ISSUER_PROPOSITIONS =
     [(ISSUER_LIMITED_AGENT, [RESTOCK_REQUESTED]), (ISSUER_WAREHOUSE_AUTHORITY, [STOCK_REPLENISHED])]"

definition decide_local_capability :: "Component \<Rightarrow> LocalOperation \<Rightarrow> Component \<Rightarrow> CapabilityCheck" where
  "decide_local_capability caller operation target =
     (let capability = \<lparr>lc_caller = caller, lc_operation = operation, lc_target = target\<rparr>
      in \<lparr>cc_capability = capability,
          cc_decision = (case map_of CAPABILITY_DECISIONS capability of None \<Rightarrow> PERMISSION_DENIED | Some d \<Rightarrow> d)\<rparr>)"

definition evidence_kind_supports :: "EvidenceKind \<Rightarrow> Proposition \<Rightarrow> bool" where
  "evidence_kind_supports kind proposition =
     (case map_of EVIDENCE_KIND_PROPOSITIONS kind of None \<Rightarrow> False | Some ps \<Rightarrow> proposition \<in> set ps)"

definition source_authorized_for :: "EvidenceIssuer \<Rightarrow> Proposition \<Rightarrow> bool" where
  "source_authorized_for issuer proposition =
     (case map_of ISSUER_PROPOSITIONS issuer of None \<Rightarrow> False | Some ps \<Rightarrow> proposition \<in> set ps)"

section \<open>Requests, candidates, receipts and facts\<close>

definition validate_product_and_quantity :: "string \<Rightarrow> int \<Rightarrow> unit res" where
  "validate_product_and_quantity product_id quantity =
     (if py_blank product_id then Inl (ValueError ''product_id must be a non-empty string'')
      else if quantity \<le> 0 then Inl (ValueError ''quantity must be a positive int'') else Inr ())"

definition validate_identifier :: "string \<Rightarrow> string \<Rightarrow> unit res" where
  "validate_identifier name v =
     (if py_blank v then Inl (ValueError (name @ '' must be a non-empty string'')) else Inr ())"

definition candidate_id_from_request_id :: "string \<Rightarrow> string" where
  "candidate_id_from_request_id request_id = ''candidate:'' @ request_id"

record RestockRequest =
  rq_product_id :: string
  rq_quantity :: int
  rq_request_id :: string

definition RestockRequest_init :: "RestockRequest \<Rightarrow> RestockRequest res" where
  "RestockRequest_init self =
     bind_res (validate_product_and_quantity (rq_product_id self) (rq_quantity self)) (\<lambda>_.
     bind_res (validate_identifier ''request_id'' (rq_request_id self)) (\<lambda>_. Inr self))"

record CandidateStockReplenished =
  cs_product_id :: string
  cs_quantity :: int
  cs_candidate_id :: string

definition CandidateStockReplenished_init :: "CandidateStockReplenished \<Rightarrow> CandidateStockReplenished res" where
  "CandidateStockReplenished_init self =
     bind_res (validate_product_and_quantity (cs_product_id self) (cs_quantity self)) (\<lambda>_.
     bind_res (validate_identifier ''candidate_id'' (cs_candidate_id self)) (\<lambda>_. Inr self))"

record WarehouseReceiptObservation =
  wo_receipt_id :: string
  wo_product_id :: string
  wo_quantity :: int

definition WarehouseReceiptObservation_init :: "WarehouseReceiptObservation \<Rightarrow> WarehouseReceiptObservation res" where
  "WarehouseReceiptObservation_init self =
     bind_res (validate_identifier ''receipt_id'' (wo_receipt_id self)) (\<lambda>_.
     bind_res (validate_product_and_quantity (wo_product_id self) (wo_quantity self)) (\<lambda>_. Inr self))"

record AcceptedStockReplenished =
  af_product_id :: string
  af_quantity :: int

definition AcceptedStockReplenished_init :: "AcceptedStockReplenished \<Rightarrow> AcceptedStockReplenished res" where
  "AcceptedStockReplenished_init self =
     bind_res (validate_product_and_quantity (af_product_id self) (af_quantity self)) (\<lambda>_. Inr self)"

definition PROTECTED_REQUEST_ID :: string where
  "PROTECTED_REQUEST_ID = ''restock-request-1''"

definition PROTECTED_CANDIDATE_ID :: string where
  "PROTECTED_CANDIDATE_ID = candidate_id_from_request_id PROTECTED_REQUEST_ID"

definition PROTECTED_REPLENISHMENT :: AcceptedStockReplenished where
  "PROTECTED_REPLENISHMENT = \<lparr>af_product_id = ''product-a'', af_quantity = 10\<rparr>"

section \<open>Evidence\<close>

record AuthorityEvidence =
  ae_kind :: EvidenceKind
  ae_issuer :: EvidenceIssuer
  ae_candidate_id :: string
  ae_receipt_id :: "string option"
  ae_product_id :: string
  ae_quantity :: int
  ae_issued :: bool

text \<open>The flag says whether the caller presents the issuance token.\<close>

definition AuthorityEvidence_init :: "AuthorityEvidence \<Rightarrow> AuthorityEvidence res" where
  "AuthorityEvidence_init self =
     (if \<not> ae_issued self then Inl (TypeError ''evidence must be issued by a modeled source API'')
      else bind_res (validate_identifier ''candidate_id'' (ae_candidate_id self)) (\<lambda>_.
      bind_res (validate_product_and_quantity (ae_product_id self) (ae_quantity self)) (\<lambda>_.
      bind_res (case ae_receipt_id self of None \<Rightarrow> Inr () | Some r \<Rightarrow> validate_identifier ''receipt_id'' r) (\<lambda>_.
      if ae_kind self = WAREHOUSE_RECEIPT_CONFIRMATION
      then if ae_receipt_id self = None then Inl (ValueError ''warehouse receipt confirmation requires receipt_id'') else Inr self
      else if ae_receipt_id self \<noteq> None then Inl (ValueError ''agent restock evidence must not claim receipt_id'')
      else Inr self))))"

definition AuthorityEvidence_eq :: "AuthorityEvidence \<Rightarrow> AuthorityEvidence \<Rightarrow> bool" where
  "AuthorityEvidence_eq x y = (x\<lparr>ae_issued := True\<rparr> = y\<lparr>ae_issued := True\<rparr>)"

definition issued_by_modeled_source :: "AuthorityEvidence \<Rightarrow> bool" where
  "issued_by_modeled_source self = ae_issued self"

definition evidence_matches_candidate :: "AuthorityEvidence \<Rightarrow> CandidateStockReplenished \<Rightarrow> bool" where
  "evidence_matches_candidate evidence candidate \<longleftrightarrow>
     ae_candidate_id evidence = cs_candidate_id candidate \<and> ae_product_id evidence = cs_product_id candidate
     \<and> ae_quantity evidence = cs_quantity candidate"

record EvidenceEvaluation =
  ee_evidence :: AuthorityEvidence
  ee_issued_by_modeled_source :: bool
  ee_matches_candidate :: bool
  ee_supports_stock_replenished :: bool
  ee_issuer_authorized :: bool

definition qualifies_for_promotion :: "EvidenceEvaluation \<Rightarrow> bool" where
  "qualifies_for_promotion self \<longleftrightarrow> ee_issued_by_modeled_source self \<and> ee_matches_candidate self
     \<and> ee_supports_stock_replenished self \<and> ee_issuer_authorized self"

section \<open>Semantic authority admission\<close>

record SemanticAuthorityAdmissionResult =
  sx_decision :: AuthorityPromotionDecision
  sx_evidence_evaluations :: "EvidenceEvaluation list"
  sx_qualifying_evidence :: "AuthorityEvidence option"

definition SemanticAuthorityAdmissionResult_init ::
  "SemanticAuthorityAdmissionResult \<Rightarrow> SemanticAuthorityAdmissionResult res" where
  "SemanticAuthorityAdmissionResult_init self =
     (let qualifying = filter qualifies_for_promotion (sx_evidence_evaluations self);
          accepted = sx_decision self = PROMOTION_ACCEPT
      in if accepted \<noteq> (qualifying \<noteq> [])
         then Inl (ValueError ''ACCEPT requires qualifying evidence and REJECT forbids it'')
         else if accepted
         then (case sx_qualifying_evidence self of
                 Some e \<Rightarrow> if AuthorityEvidence_eq e (ee_evidence (hd qualifying)) then Inr self
                           else Inl (ValueError ''qualifying evidence must be the first sufficient evidence'')
               | None \<Rightarrow> Inl (ValueError ''qualifying evidence must be the first sufficient evidence''))
         else if sx_qualifying_evidence self \<noteq> None
         then Inl (ValueError ''REJECT must not expose qualifying evidence'') else Inr self)"

definition semantic_authority_evaluate ::
  "CandidateStockReplenished \<Rightarrow> AuthorityEvidence list \<Rightarrow> SemanticAuthorityAdmissionResult res" where
  "semantic_authority_evaluate candidate evidence =
     (let evaluations = map (\<lambda>i. \<lparr>ee_evidence = i, ee_issued_by_modeled_source = issued_by_modeled_source i,
            ee_matches_candidate = evidence_matches_candidate i candidate,
            ee_supports_stock_replenished = evidence_kind_supports (ae_kind i) STOCK_REPLENISHED,
            ee_issuer_authorized = source_authorized_for (ae_issuer i) STOCK_REPLENISHED\<rparr>) evidence;
          qualifying_evidence = map_option ee_evidence (find qualifies_for_promotion evaluations);
          decision = (if qualifying_evidence \<noteq> None then PROMOTION_ACCEPT else PROMOTION_REJECT)
      in SemanticAuthorityAdmissionResult_init
           \<lparr>sx_decision = decision, sx_evidence_evaluations = evaluations, sx_qualifying_evidence = qualifying_evidence\<rparr>)"

section \<open>Results\<close>

record AppendResult =
  ap_capability_check :: CapabilityCheck
  ap_attempted_fact :: AcceptedStockReplenished
  ap_appended_fact :: "AcceptedStockReplenished option"

definition AppendResult_init :: "AppendResult \<Rightarrow> AppendResult res" where
  "AppendResult_init self =
     (if cc_decision (ap_capability_check self) = PERMISSION_ALLOWED
      then if ap_appended_fact self \<noteq> Some (ap_attempted_fact self)
           then Inl (ValueError ''ALLOWED append must preserve the exact attempted fact'') else Inr self
      else if ap_appended_fact self \<noteq> None
      then Inl (ValueError ''DENIED append must not expose an appended fact'') else Inr self)"

definition fact_appended :: "AppendResult \<Rightarrow> bool" where
  "fact_appended self = (ap_appended_fact self \<noteq> None)"

record CandidatePromotionResult =
  cpr_candidate_submission_check :: CapabilityCheck
  cpr_candidate :: CandidateStockReplenished
  cpr_append_result :: "AppendResult option"

definition CandidatePromotionResult_init :: "CandidatePromotionResult \<Rightarrow> CandidatePromotionResult res" where
  "CandidatePromotionResult_init self =
     (if (cc_decision (cpr_candidate_submission_check self) = PERMISSION_ALLOWED) \<noteq> (cpr_append_result self \<noteq> None)
      then Inl (ValueError ''candidate submission decision and append presence must agree'') else Inr self)"

record GovernedPromotionResult =
  gp_candidate_submission_check :: CapabilityCheck
  gp_candidate :: CandidateStockReplenished
  gp_admission_result :: "SemanticAuthorityAdmissionResult option"
  gp_append_result :: "AppendResult option"

definition GovernedPromotionResult_init :: "GovernedPromotionResult \<Rightarrow> GovernedPromotionResult res" where
  "GovernedPromotionResult_init self =
     (if cc_decision (gp_candidate_submission_check self) \<noteq> PERMISSION_ALLOWED
      then if gp_admission_result self \<noteq> None \<or> gp_append_result self \<noteq> None
           then Inl (ValueError ''denied candidate submission cannot reach admission or append'') else Inr self
      else case gp_admission_result self of
        None \<Rightarrow> Inl (ValueError ''allowed candidate submission requires admission'')
      | Some admission \<Rightarrow>
          if (sx_decision admission = PROMOTION_ACCEPT) \<noteq> (gp_append_result self \<noteq> None)
          then Inl (ValueError ''only semantic admission ACCEPT may produce an append result'')
          else (case gp_append_result self of
                  None \<Rightarrow> Inr self
                | Some appended \<Rightarrow>
                    (case ap_appended_fact appended of
                       None \<Rightarrow> Inl (ValueError ''accepted promotion must append its fact'')
                     | Some appended_fact \<Rightarrow>
                         if af_product_id appended_fact \<noteq> cs_product_id (gp_candidate self)
                            \<or> af_quantity appended_fact \<noteq> cs_quantity (gp_candidate self)
                         then Inl (ValueError ''governed append must preserve candidate semantics'') else Inr self)))"

record WorkflowExecutionResult =
  we_request_submission_check :: CapabilityCheck
  we_candidate :: "CandidateStockReplenished option"
  we_promotion_result :: "CandidatePromotionResult option"

definition WorkflowExecutionResult_init :: "WorkflowExecutionResult \<Rightarrow> WorkflowExecutionResult res" where
  "WorkflowExecutionResult_init self =
     (if (cc_decision (we_request_submission_check self) = PERMISSION_ALLOWED)
         \<noteq> (we_candidate self \<noteq> None \<and> we_promotion_result self \<noteq> None)
      then Inl (ValueError ''request decision, candidate, and promotion presence must agree'') else Inr self)"

record CandidatePreparationResult =
  pr_request_submission_check :: CapabilityCheck
  pr_candidate :: "CandidateStockReplenished option"

definition CandidatePreparationResult_init :: "CandidatePreparationResult \<Rightarrow> CandidatePreparationResult res" where
  "CandidatePreparationResult_init self =
     (if (cc_decision (pr_request_submission_check self) = PERMISSION_ALLOWED) \<noteq> (pr_candidate self \<noteq> None)
      then Inl (ValueError ''request submission decision and candidate presence must agree'') else Inr self)"

section \<open>AuthoritativeInventoryStore\<close>

record AuthoritativeInventoryStore =
  st_accepted_facts :: "AcceptedStockReplenished list"

definition inventory_store_init :: AuthoritativeInventoryStore where
  "inventory_store_init = \<lparr>st_accepted_facts = []\<rparr>"

definition append_accepted_replenishment ::
  "AuthoritativeInventoryStore \<Rightarrow> Component \<Rightarrow> AcceptedStockReplenished \<Rightarrow> AuthoritativeInventoryStore \<times> AppendResult res" where
  "append_accepted_replenishment self caller new_fact =
     (let capability_check = decide_local_capability caller APPEND_ACCEPTED_REPLENISHMENT AUTHORITATIVE_INVENTORY_STORE
      in if cc_decision capability_check = PERMISSION_DENIED
         then (self, AppendResult_init \<lparr>ap_capability_check = capability_check, ap_attempted_fact = new_fact, ap_appended_fact = None\<rparr>)
         else (self\<lparr>st_accepted_facts := st_accepted_facts self @ [new_fact]\<rparr>,
           AppendResult_init \<lparr>ap_capability_check = capability_check, ap_attempted_fact = new_fact, ap_appended_fact = Some new_fact\<rparr>))"

definition accepted_facts :: "AuthoritativeInventoryStore \<Rightarrow> AcceptedStockReplenished list" where
  "accepted_facts self = st_accepted_facts self"

definition inventory :: "AuthoritativeInventoryStore \<Rightarrow> string \<Rightarrow> int res" where
  "inventory self product_id =
     (if py_blank product_id then Inl (ValueError ''product_id must be a non-empty string'')
      else Inr (sum_list (map af_quantity (filter (\<lambda>new_fact. af_product_id new_fact = product_id) (st_accepted_facts self)))))"

section \<open>InventoryAuthorityService\<close>

text \<open>An operation that raises after a change keeps the change: the store is returned beside the result.\<close>

definition promote_candidate_without_semantic_authority_admission ::
  "AuthoritativeInventoryStore \<Rightarrow> Component \<Rightarrow> CandidateStockReplenished
   \<Rightarrow> AuthoritativeInventoryStore \<times> CandidatePromotionResult res" where
  "promote_candidate_without_semantic_authority_admission store caller candidate =
     (let submission_check = decide_local_capability caller SUBMIT_REPLENISHMENT_CANDIDATE INVENTORY_AUTHORITY_SERVICE
      in if cc_decision submission_check = PERMISSION_DENIED
         then (store, CandidatePromotionResult_init
           \<lparr>cpr_candidate_submission_check = submission_check, cpr_candidate = candidate, cpr_append_result = None\<rparr>)
         else (case AcceptedStockReplenished_init \<lparr>af_product_id = cs_product_id candidate, af_quantity = cs_quantity candidate\<rparr> of
             Inl x \<Rightarrow> (store, Inl x)
           | Inr accepted_fact \<Rightarrow>
               (case append_accepted_replenishment store INVENTORY_AUTHORITY_SERVICE accepted_fact of (store', appended) \<Rightarrow>
                  (store', bind_res appended (\<lambda>append_result. CandidatePromotionResult_init
                     \<lparr>cpr_candidate_submission_check = submission_check, cpr_candidate = candidate,
                      cpr_append_result = Some append_result\<rparr>)))))"

definition promote_candidate_with_semantic_authority_admission ::
  "AuthoritativeInventoryStore \<Rightarrow> Component \<Rightarrow> CandidateStockReplenished \<Rightarrow> AuthorityEvidence list
   \<Rightarrow> AuthoritativeInventoryStore \<times> GovernedPromotionResult res" where
  "promote_candidate_with_semantic_authority_admission store caller candidate evidence =
     (let submission_check = decide_local_capability caller SUBMIT_REPLENISHMENT_CANDIDATE INVENTORY_AUTHORITY_SERVICE
      in if cc_decision submission_check = PERMISSION_DENIED
         then (store, GovernedPromotionResult_init
           \<lparr>gp_candidate_submission_check = submission_check, gp_candidate = candidate, gp_admission_result = None,
            gp_append_result = None\<rparr>)
         else (case semantic_authority_evaluate candidate evidence of
             Inl x \<Rightarrow> (store, Inl x)
           | Inr admission_result \<Rightarrow>
               if sx_decision admission_result = PROMOTION_REJECT
               then (store, GovernedPromotionResult_init
                 \<lparr>gp_candidate_submission_check = submission_check, gp_candidate = candidate,
                  gp_admission_result = Some admission_result, gp_append_result = None\<rparr>)
               else (case AcceptedStockReplenished_init \<lparr>af_product_id = cs_product_id candidate, af_quantity = cs_quantity candidate\<rparr> of
                   Inl x \<Rightarrow> (store, Inl x)
                 | Inr accepted_fact \<Rightarrow>
                     (case append_accepted_replenishment store INVENTORY_AUTHORITY_SERVICE accepted_fact of (store', appended) \<Rightarrow>
                        (store', bind_res appended (\<lambda>append_result. GovernedPromotionResult_init
                           \<lparr>gp_candidate_submission_check = submission_check, gp_candidate = candidate,
                            gp_admission_result = Some admission_result, gp_append_result = Some append_result\<rparr>))))))"

section \<open>RestockWorkflow\<close>

definition candidate_for_request :: "RestockRequest \<Rightarrow> CandidateStockReplenished res" where
  "candidate_for_request request =
     CandidateStockReplenished_init \<lparr>cs_product_id = rq_product_id request, cs_quantity = rq_quantity request,
       cs_candidate_id = candidate_id_from_request_id (rq_request_id request)\<rparr>"

definition handle_restock_request ::
  "AuthoritativeInventoryStore \<Rightarrow> Component \<Rightarrow> RestockRequest \<Rightarrow> AuthoritativeInventoryStore \<times> WorkflowExecutionResult res" where
  "handle_restock_request store caller request =
     (let request_check = decide_local_capability caller SUBMIT_RESTOCK_REQUEST RESTOCK_WORKFLOW
      in if cc_decision request_check = PERMISSION_DENIED
         then (store, WorkflowExecutionResult_init
           \<lparr>we_request_submission_check = request_check, we_candidate = None, we_promotion_result = None\<rparr>)
         else (case candidate_for_request request of
             Inl x \<Rightarrow> (store, Inl x)
           | Inr candidate \<Rightarrow>
               (case promote_candidate_without_semantic_authority_admission store RESTOCK_WORKFLOW candidate of (store', promoted) \<Rightarrow>
                  (store', bind_res promoted (\<lambda>promotion_result. WorkflowExecutionResult_init
                     \<lparr>we_request_submission_check = request_check, we_candidate = Some candidate,
                      we_promotion_result = Some promotion_result\<rparr>)))))"

definition workflow_prepare_restock_candidate :: "Component \<Rightarrow> RestockRequest \<Rightarrow> CandidatePreparationResult res" where
  "workflow_prepare_restock_candidate caller request =
     (let request_check = decide_local_capability caller SUBMIT_RESTOCK_REQUEST RESTOCK_WORKFLOW
      in if cc_decision request_check = PERMISSION_DENIED
         then CandidatePreparationResult_init \<lparr>pr_request_submission_check = request_check, pr_candidate = None\<rparr>
         else bind_res (candidate_for_request request) (\<lambda>candidate.
           CandidatePreparationResult_init \<lparr>pr_request_submission_check = request_check, pr_candidate = Some candidate\<rparr>))"

definition submit_candidate_with_semantic_authority_admission ::
  "AuthoritativeInventoryStore \<Rightarrow> CandidateStockReplenished \<Rightarrow> AuthorityEvidence list
   \<Rightarrow> AuthoritativeInventoryStore \<times> GovernedPromotionResult res" where
  "submit_candidate_with_semantic_authority_admission store candidate evidence =
     promote_candidate_with_semantic_authority_admission store RESTOCK_WORKFLOW candidate evidence"

section \<open>LimitedAgent and WarehouseAuthority\<close>

definition attempt_direct_append ::
  "AuthoritativeInventoryStore \<Rightarrow> AcceptedStockReplenished \<Rightarrow> AuthoritativeInventoryStore \<times> AppendResult res" where
  "attempt_direct_append store new_fact = append_accepted_replenishment store LIMITED_AGENT new_fact"

definition submit_restock_request ::
  "AuthoritativeInventoryStore \<Rightarrow> RestockRequest \<Rightarrow> AuthoritativeInventoryStore \<times> WorkflowExecutionResult res" where
  "submit_restock_request store request = handle_restock_request store LIMITED_AGENT request"

definition agent_prepare_restock_candidate :: "RestockRequest \<Rightarrow> CandidatePreparationResult res" where
  "agent_prepare_restock_candidate request = workflow_prepare_restock_candidate LIMITED_AGENT request"

definition issue_restock_request_evidence :: "CandidateStockReplenished \<Rightarrow> AuthorityEvidence res" where
  "issue_restock_request_evidence candidate =
     AuthorityEvidence_init \<lparr>ae_kind = AGENT_RESTOCK_REQUEST, ae_issuer = ISSUER_LIMITED_AGENT,
       ae_candidate_id = cs_candidate_id candidate, ae_receipt_id = None, ae_product_id = cs_product_id candidate,
       ae_quantity = cs_quantity candidate, ae_issued = True\<rparr>"

definition issue_receipt_confirmation ::
  "CandidateStockReplenished \<Rightarrow> WarehouseReceiptObservation \<Rightarrow> AuthorityEvidence res" where
  "issue_receipt_confirmation candidate receipt =
     AuthorityEvidence_init \<lparr>ae_kind = WAREHOUSE_RECEIPT_CONFIRMATION, ae_issuer = ISSUER_WAREHOUSE_AUTHORITY,
       ae_candidate_id = cs_candidate_id candidate, ae_receipt_id = Some (wo_receipt_id receipt),
       ae_product_id = wo_product_id receipt, ae_quantity = wo_quantity receipt, ae_issued = True\<rparr>"

section \<open>What admission decides\<close>

lemma capability_table:
  "cc_decision (decide_local_capability caller SUBMIT_RESTOCK_REQUEST RESTOCK_WORKFLOW) = PERMISSION_ALLOWED \<longleftrightarrow> caller = LIMITED_AGENT"
  "cc_decision (decide_local_capability caller SUBMIT_REPLENISHMENT_CANDIDATE INVENTORY_AUTHORITY_SERVICE) = PERMISSION_ALLOWED
     \<longleftrightarrow> caller = RESTOCK_WORKFLOW"
  "cc_decision (decide_local_capability caller APPEND_ACCEPTED_REPLENISHMENT AUTHORITATIVE_INVENTORY_STORE) = PERMISSION_ALLOWED
     \<longleftrightarrow> caller = INVENTORY_AUTHORITY_SERVICE"
  by (cases caller; simp add: decide_local_capability_def CAPABILITY_DECISIONS_def)+

lemma denied_iff: "d = PERMISSION_DENIED \<longleftrightarrow> d \<noteq> PERMISSION_ALLOWED"
  by (cases d) simp_all

lemma reject_iff: "d = PROMOTION_REJECT \<longleftrightarrow> d \<noteq> PROMOTION_ACCEPT"
  by (cases d) simp_all

text \<open>Evidence that supports the promotion of a candidate.\<close>

definition confirms :: "AuthorityEvidence \<Rightarrow> CandidateStockReplenished \<Rightarrow> bool" where
  "confirms e c \<longleftrightarrow> ae_issued e \<and> evidence_matches_candidate e c \<and> ae_kind e = WAREHOUSE_RECEIPT_CONFIRMATION
     \<and> ae_issuer e = ISSUER_WAREHOUSE_AUTHORITY"

lemma supports_iff:
  "evidence_kind_supports k STOCK_REPLENISHED \<longleftrightarrow> k = WAREHOUSE_RECEIPT_CONFIRMATION"
  "source_authorized_for i STOCK_REPLENISHED \<longleftrightarrow> i = ISSUER_WAREHOUSE_AUTHORITY"
  by (cases k; simp add: evidence_kind_supports_def EVIDENCE_KIND_PROPOSITIONS_def)
     (cases i; simp add: source_authorized_for_def ISSUER_PROPOSITIONS_def)

lemma find_filter: "find P xs = (case filter P xs of [] \<Rightarrow> None | y # ys \<Rightarrow> Some y)"
  by (induction xs) simp_all

lemma evaluate_decides:
  obtains res where "semantic_authority_evaluate c es = Inr res"
    and "sx_decision res = PROMOTION_ACCEPT \<longleftrightarrow> (\<exists>e \<in> set es. confirms e c)"
proof -
  define ev where "ev = (\<lambda>i. \<lparr>ee_evidence = i, ee_issued_by_modeled_source = issued_by_modeled_source i,
            ee_matches_candidate = evidence_matches_candidate i c,
            ee_supports_stock_replenished = evidence_kind_supports (ae_kind i) STOCK_REPLENISHED,
            ee_issuer_authorized = source_authorized_for (ae_issuer i) STOCK_REPLENISHED\<rparr>)"
  have q: "qualifies_for_promotion (ev i) = confirms i c" for i
    by (auto simp: ev_def qualifies_for_promotion_def confirms_def issued_by_modeled_source_def supports_iff)
  have fl: "filter qualifies_for_promotion (map ev es) = map ev (filter (\<lambda>i. confirms i c) es)"
    by (simp add: filter_map comp_def q)
  show ?thesis
  proof (cases "filter (\<lambda>i. confirms i c) es")
    case Nil
    then have "\<forall>e \<in> set es. \<not> confirms e c" by (simp add: filter_empty_conv)
    with Nil that show ?thesis
      by (simp add: semantic_authority_evaluate_def ev_def [symmetric] Let_def find_filter fl SemanticAuthorityAdmissionResult_init_def)
  next
    case (Cons e rest)
    then have "e \<in> set (filter (\<lambda>i. confirms i c) es)" by simp
    then have "\<exists>e \<in> set es. confirms e c" by auto
    with Cons that show ?thesis
      by (simp add: semantic_authority_evaluate_def ev_def [symmetric] Let_def find_filter fl SemanticAuthorityAdmissionResult_init_def
          AuthorityEvidence_eq_def)
  qed
qed

section \<open>What the operations do\<close>

lemma append_by:
  "append_accepted_replenishment st caller f =
     (if caller = INVENTORY_AUTHORITY_SERVICE
      then (st\<lparr>st_accepted_facts := st_accepted_facts st @ [f]\<rparr>,
        Inr \<lparr>ap_capability_check = decide_local_capability caller APPEND_ACCEPTED_REPLENISHMENT AUTHORITATIVE_INVENTORY_STORE,
             ap_attempted_fact = f, ap_appended_fact = Some f\<rparr>)
      else (st, Inr \<lparr>ap_capability_check = decide_local_capability caller APPEND_ACCEPTED_REPLENISHMENT AUTHORITATIVE_INVENTORY_STORE,
             ap_attempted_fact = f, ap_appended_fact = None\<rparr>))"
  by (simp add: append_accepted_replenishment_def Let_def denied_iff capability_table AppendResult_init_def)

text \<open>Values that the constructors let through.\<close>

abbreviation request_ok :: "RestockRequest \<Rightarrow> bool" where
  "request_ok q \<equiv> RestockRequest_init q = Inr q"

abbreviation candidate_ok :: "CandidateStockReplenished \<Rightarrow> bool" where
  "candidate_ok c \<equiv> CandidateStockReplenished_init c = Inr c"

definition fact_of :: "CandidateStockReplenished \<Rightarrow> AcceptedStockReplenished" where
  "fact_of c = \<lparr>af_product_id = cs_product_id c, af_quantity = cs_quantity c\<rparr>"

lemma fact_built:
  "candidate_ok c \<Longrightarrow> AcceptedStockReplenished_init \<lparr>af_product_id = cs_product_id c, af_quantity = cs_quantity c\<rparr> = Inr (fact_of c)"
  by (auto simp: CandidateStockReplenished_init_def AcceptedStockReplenished_init_def res_simps fact_of_def)

lemma candidate_built:
  assumes "request_ok q"
  obtains c where "candidate_for_request q = Inr c" and "candidate_ok c" and "cs_product_id c = rq_product_id q"
    and "cs_quantity c = rq_quantity q"
proof -
  have "\<not> py_blank (candidate_id_from_request_id r)" for r by (simp add: candidate_id_from_request_id_def py_blank_iff py_isspace_def)
  with assms that show ?thesis
    by (auto simp: candidate_for_request_def CandidateStockReplenished_init_def RestockRequest_init_def res_simps validate_identifier_def
        split: if_splits)
qed

lemma governed_promotion:
  assumes "candidate_ok c"
  obtains r where "promote_candidate_with_semantic_authority_admission st caller c es =
      (if caller = RESTOCK_WORKFLOW \<and> (\<exists>e \<in> set es. confirms e c)
       then st\<lparr>st_accepted_facts := st_accepted_facts st @ [fact_of c]\<rparr> else st, Inr r)"
    and "(\<exists>a. gp_append_result r = Some a \<and> ap_appended_fact a = Some (fact_of c)) \<longleftrightarrow> caller = RESTOCK_WORKFLOW \<and> (\<exists>e \<in> set es. confirms e c)"
proof -
  obtain res where res: "semantic_authority_evaluate c es = Inr res"
    "sx_decision res = PROMOTION_ACCEPT \<longleftrightarrow> (\<exists>e \<in> set es. confirms e c)" by (rule evaluate_decides)
  note defs = promote_candidate_with_semantic_authority_admission_def Let_def denied_iff reject_iff capability_table res(1)
    GovernedPromotionResult_init_def fact_built [OF assms] append_by
  show ?thesis
  proof (cases "caller = RESTOCK_WORKFLOW \<and> (\<exists>e \<in> set es. confirms e c)")
    case True
    with res(2) that show ?thesis by (simp add: defs) (simp add: fact_of_def)
  next
    case False
    with res(2) that show ?thesis by (cases "caller = RESTOCK_WORKFLOW") (simp_all add: defs)
  qed
qed

lemma vulnerable_promotion:
  assumes "request_ok q"
  obtains r where "submit_restock_request st q =
      (st\<lparr>st_accepted_facts := st_accepted_facts st @ [\<lparr>af_product_id = rq_product_id q, af_quantity = rq_quantity q\<rparr>]\<rparr>, Inr r)"
proof -
  obtain c where c: "candidate_for_request q = Inr c" "candidate_ok c" "cs_product_id c = rq_product_id q" "cs_quantity c = rq_quantity q"
    by (rule candidate_built [OF assms])
  with that show ?thesis
    by (simp add: submit_restock_request_def handle_restock_request_def Let_def denied_iff capability_table
        promote_candidate_without_semantic_authority_admission_def fact_built [OF c(2), unfolded c(3,4)] append_by
        CandidatePromotionResult_init_def WorkflowExecutionResult_init_def fact_of_def)
qed

section \<open>Traces of the governed system\<close>

text \<open>A run of the governed system: its store, the evidence that exists so far, and the receipts that
  the warehouse has observed.\<close>

record governed_world =
  gw_store :: AuthoritativeInventoryStore
  gw_evidence :: "AuthorityEvidence set"
  gw_receipts :: "WarehouseReceiptObservation set"

text \<open>Any party but the service may try to append, anyone may construct evidence without the token or
  have the agent issue some, the warehouse observes receipts and confirms candidates against them, and
  any caller may submit any candidate with any of the evidence, any number of times.\<close>

inductive governed_step :: "governed_world \<Rightarrow> governed_world \<Rightarrow> bool" where
  append_attempt: "caller \<noteq> INVENTORY_AUTHORITY_SERVICE \<Longrightarrow> append_accepted_replenishment (gw_store w) caller f = (st, r) \<Longrightarrow>
    governed_step w (w\<lparr>gw_store := st\<rparr>)"
| forge: "\<not> ae_issued e \<Longrightarrow> AuthorityEvidence_init e = Inr e' \<Longrightarrow> governed_step w (w\<lparr>gw_evidence := insert e' (gw_evidence w)\<rparr>)"
| request: "issue_restock_request_evidence c = Inr e \<Longrightarrow> governed_step w (w\<lparr>gw_evidence := insert e (gw_evidence w)\<rparr>)"
| observe: "WarehouseReceiptObservation_init r = Inr r' \<Longrightarrow> governed_step w (w\<lparr>gw_receipts := insert r' (gw_receipts w)\<rparr>)"
| confirm: "r \<in> gw_receipts w \<Longrightarrow> issue_receipt_confirmation c r = Inr e \<Longrightarrow>
    governed_step w (w\<lparr>gw_evidence := insert e (gw_evidence w)\<rparr>)"
| submit: "candidate_ok c \<Longrightarrow> set es \<subseteq> gw_evidence w \<Longrightarrow>
    promote_candidate_with_semantic_authority_admission (gw_store w) caller c es = (st, r) \<Longrightarrow> governed_step w (w\<lparr>gw_store := st\<rparr>)"

inductive governed_reach :: "governed_world \<Rightarrow> bool" where
  start: "governed_reach \<lparr>gw_store = inventory_store_init, gw_evidence = {}, gw_receipts = {}\<rparr>"
| run: "governed_reach w \<Longrightarrow> governed_step w w' \<Longrightarrow> governed_reach w'"

definition backed :: "WarehouseReceiptObservation set \<Rightarrow> string \<Rightarrow> int \<Rightarrow> bool" where
  "backed rs p n \<longleftrightarrow> (\<exists>r \<in> rs. wo_product_id r = p \<and> wo_quantity r = n)"

definition governed_inv :: "governed_world \<Rightarrow> bool" where
  "governed_inv w \<longleftrightarrow>
     (\<forall>e \<in> gw_evidence w. ae_issuer e = ISSUER_WAREHOUSE_AUTHORITY \<longrightarrow> backed (gw_receipts w) (ae_product_id e) (ae_quantity e))
     \<and> (\<forall>f \<in> set (st_accepted_facts (gw_store w)). 0 < af_quantity f
         \<and> (\<exists>e \<in> gw_evidence w. ae_kind e = WAREHOUSE_RECEIPT_CONFIRMATION \<and> ae_issuer e = ISSUER_WAREHOUSE_AUTHORITY
             \<and> ae_product_id e = af_product_id f \<and> ae_quantity e = af_quantity f))"

lemma backed_mono: "backed rs p n \<Longrightarrow> rs \<subseteq> rs' \<Longrightarrow> backed rs' p n"
  by (auto simp: backed_def)

lemma evidence_init_same: "AuthorityEvidence_init e = Inr e' \<Longrightarrow> ae_issued e \<and> e' = e"
  by (auto simp: AuthorityEvidence_init_def res_simps split: if_splits)

lemma governed_step_inv:
  assumes "governed_step w w'" and "governed_inv w"
  shows "governed_inv w'"
  using assms
proof (cases rule: governed_step.cases)
  case (append_attempt caller f st r)
  then have "w' = w" by (auto simp: append_by)
  with assms(2) show ?thesis by simp
next
  case (forge e e')
  then show ?thesis using evidence_init_same by blast
next
  case (request c e)
  with evidence_init_same have "ae_issuer e = ISSUER_LIMITED_AGENT" by (fastforce simp: issue_restock_request_evidence_def)
  with request assms(2) show ?thesis by (auto simp: governed_inv_def)
next
  case (observe r r')
  then have "backed (insert r' (gw_receipts w)) p n" if "backed (gw_receipts w) p n" for p n using that backed_mono by blast
  with observe assms(2) show ?thesis by (simp add: governed_inv_def)
next
  case (confirm r c e)
  with evidence_init_same have "ae_product_id e = wo_product_id r" "ae_quantity e = wo_quantity r"
    by (fastforce simp: issue_receipt_confirmation_def)+
  with confirm assms(2) show ?thesis by (auto simp: governed_inv_def backed_def)
next
  case (submit c es caller st r)
  obtain r' where r': "promote_candidate_with_semantic_authority_admission (gw_store w) caller c es =
      (if caller = RESTOCK_WORKFLOW \<and> (\<exists>e \<in> set es. confirms e c)
       then (gw_store w)\<lparr>st_accepted_facts := st_accepted_facts (gw_store w) @ [fact_of c]\<rparr> else gw_store w, Inr r')"
    by (rule governed_promotion [OF submit(2)])
  have "0 < cs_quantity c" using submit(2)
    by (auto simp: CandidateStockReplenished_init_def validate_product_and_quantity_def res_simps split: if_splits)
  with submit r' assms(2) show ?thesis
    by (auto simp: governed_inv_def confirms_def evidence_matches_candidate_def fact_of_def split: if_splits) blast+
qed

lemma governed_reach_inv: "governed_reach w \<Longrightarrow> governed_inv w"
proof (induction rule: governed_reach.induct)
  case start
  show ?case by (simp add: governed_inv_def inventory_store_init_def)
next
  case (run w w')
  then show ?case by (blast intro: governed_step_inv)
qed

lemma inventory_of_facts:
  assumes "\<forall>f \<in> set (st_accepted_facts st). 0 < af_quantity f" and "inventory st p = Inr n"
  shows "0 \<le> n" and "0 < n \<longleftrightarrow> (\<exists>f \<in> set (st_accepted_facts st). af_product_id f = p)"
proof -
  have "0 \<le> sum_list (map af_quantity (filter (\<lambda>f. af_product_id f = p) fs))
      \<and> (0 < sum_list (map af_quantity (filter (\<lambda>f. af_product_id f = p) fs)) \<longleftrightarrow> (\<exists>f \<in> set fs. af_product_id f = p))"
    if "\<forall>f \<in> set fs. 0 < af_quantity f" for fs
    using that by (induction fs) (auto simp: add_nonneg_pos add_pos_nonneg)
  from this [OF assms(1)] assms(2) show "0 \<le> n" "0 < n \<longleftrightarrow> (\<exists>f \<in> set (st_accepted_facts st). af_product_id f = p)"
    by (auto simp: inventory_def split: if_splits)
qed

section \<open>Properties\<close>

text \<open>
  C32: No authority without the warehouse. However parties try appends, construct or request evidence,
  and submit candidates with whatever evidence exists, as often as they like: every fact in the
  accepted history of the governed inventory has the product and the quantity of a receipt that the
  warehouse observed, the inventory of a product is never negative, and it is positive only if the
  warehouse observed a receipt of that product.
\<close>

theorem governed_inventory_confirmed:
  assumes "governed_reach w"
  shows "(\<forall>f \<in> set (accepted_facts (gw_store w)).
      \<exists>r \<in> gw_receipts w. wo_product_id r = af_product_id f \<and> wo_quantity r = af_quantity f)
    \<and> (\<forall>p n. inventory (gw_store w) p = Inr n \<longrightarrow> 0 \<le> n \<and> (0 < n \<longrightarrow> (\<exists>r \<in> gw_receipts w. wo_product_id r = p)))"
proof -
  have inv: "governed_inv w" by (rule governed_reach_inv [OF assms])
  then have facts: "\<exists>r \<in> gw_receipts w. wo_product_id r = af_product_id f \<and> wo_quantity r = af_quantity f"
    if "f \<in> set (st_accepted_facts (gw_store w))" for f
    using that by (fastforce simp: governed_inv_def backed_def)
  have pos: "\<forall>f \<in> set (st_accepted_facts (gw_store w)). 0 < af_quantity f" using inv by (simp add: governed_inv_def)
  from facts inventory_of_facts [OF pos] show ?thesis by (fastforce simp: accepted_facts_def)
qed

text \<open>The protected replenishment of the experiment, with its candidate and a receipt.\<close>

definition sample_candidate :: CandidateStockReplenished where
  "sample_candidate = \<lparr>cs_product_id = ''product-a'', cs_quantity = 10, cs_candidate_id = PROTECTED_CANDIDATE_ID\<rparr>"

definition sample_receipt :: WarehouseReceiptObservation where
  "sample_receipt = \<lparr>wo_receipt_id = ''receipt-1'', wo_product_id = ''product-a'', wo_quantity = 10\<rparr>"

lemma sample_values:
  "candidate_ok sample_candidate" "WarehouseReceiptObservation_init sample_receipt = Inr sample_receipt"
  "\<exists>e. issue_receipt_confirmation sample_candidate sample_receipt = Inr e \<and> confirms e sample_candidate"
  "fact_of sample_candidate = PROTECTED_REPLENISHMENT"
  by (simp_all add: sample_candidate_def sample_receipt_def CandidateStockReplenished_init_def WarehouseReceiptObservation_init_def
      validate_product_and_quantity_def validate_identifier_def issue_receipt_confirmation_def AuthorityEvidence_init_def confirms_def
      evidence_matches_candidate_def fact_of_def PROTECTED_REPLENISHMENT_def PROTECTED_CANDIDATE_ID_def PROTECTED_REQUEST_ID_def
      candidate_id_from_request_id_def py_blank_iff py_isspace_def)

theorem governed_inventory_confirmed_witness:
  "\<exists>w. governed_reach w \<and> accepted_facts (gw_store w) = [PROTECTED_REPLENISHMENT] \<and> inventory (gw_store w) ''product-a'' = Inr 10
     \<and> (\<exists>r \<in> gw_receipts w. wo_product_id r = ''product-a'' \<and> wo_quantity r = 10)"
proof -
  obtain e where e: "issue_receipt_confirmation sample_candidate sample_receipt = Inr e" "confirms e sample_candidate"
    using sample_values(3) by blast
  let ?w0 = "\<lparr>gw_store = inventory_store_init, gw_evidence = {}, gw_receipts = {sample_receipt}\<rparr>"
  let ?w1 = "\<lparr>gw_store = inventory_store_init, gw_evidence = {e}, gw_receipts = {sample_receipt}\<rparr>"
  let ?st = "\<lparr>st_accepted_facts = [PROTECTED_REPLENISHMENT]\<rparr>"
  have "governed_reach ?w0" using governed_reach.run [OF governed_reach.start governed_step.observe [OF sample_values(2)]] by simp
  then have w1: "governed_reach ?w1" using governed_reach.run [OF _ governed_step.confirm [of sample_receipt ?w0, OF _ e(1)]] by simp
  obtain r where "promote_candidate_with_semantic_authority_admission inventory_store_init RESTOCK_WORKFLOW sample_candidate [e] = (?st, Inr r)"
    by (rule governed_promotion [OF sample_values(1), of inventory_store_init RESTOCK_WORKFLOW "[e]"])
       (use e(2) in \<open>auto simp: sample_values(4) inventory_store_init_def\<close>)
  then have "governed_reach (?w1\<lparr>gw_store := ?st\<rparr>)"
    using governed_reach.run [OF w1 governed_step.submit [OF sample_values(1), of "[e]" ?w1 RESTOCK_WORKFLOW ?st "Inr r"]] by simp
  from this governed_inventory_confirmed [OF this] show ?thesis
    by (auto simp: accepted_facts_def inventory_def PROTECTED_REPLENISHMENT_def py_blank_iff py_isspace_def
        intro!: exI [of _ "?w1\<lparr>gw_store := ?st\<rparr>"])
qed

text \<open>
  The same request on the four paths. For every valid restock request and every store: the agent's
  direct append of the fact is denied and changes nothing; submitted through the vulnerable workflow,
  the request appends that very fact; prepared and submitted through the governed workflow with any
  number of the agent's own evidence, it changes nothing; and with a warehouse confirmation of a
  receipt of the same product and quantity among the evidence, it appends the fact.
\<close>

theorem escalation_closed_by_admission:
  assumes "request_ok q" and "f = \<lparr>af_product_id = rq_product_id q, af_quantity = rq_quantity q\<rparr>"
    and "st' = st\<lparr>st_accepted_facts := st_accepted_facts st @ [f]\<rparr>"
  shows "(\<exists>a. attempt_direct_append st f = (st, Inr a) \<and> \<not> fact_appended a)
    \<and> (\<exists>r. submit_restock_request st q = (st', Inr r))
    \<and> (\<exists>prep c own. agent_prepare_restock_candidate q = Inr prep \<and> pr_candidate prep = Some c
        \<and> issue_restock_request_evidence c = Inr own
        \<and> (\<forall>n. \<exists>r. submit_candidate_with_semantic_authority_admission st c (replicate n own) = (st, Inr r))
        \<and> (\<forall>rid. \<not> py_blank rid \<longrightarrow> (\<exists>e. issue_receipt_confirmation c
              \<lparr>wo_receipt_id = rid, wo_product_id = rq_product_id q, wo_quantity = rq_quantity q\<rparr> = Inr e
            \<and> (\<forall>es. e \<in> set es \<longrightarrow> (\<exists>r. submit_candidate_with_semantic_authority_admission st c es = (st', Inr r))))))"
proof -
  obtain c where c: "candidate_for_request q = Inr c" "candidate_ok c" "cs_product_id c = rq_product_id q" "cs_quantity c = rq_quantity q"
    by (rule candidate_built [OF assms(1)])
  then have cok: "validate_product_and_quantity (rq_product_id q) (rq_quantity q) = Inr ()" "\<not> py_blank (cs_candidate_id c)"
    by (auto simp: CandidateStockReplenished_init_def validate_identifier_def res_simps split: if_splits)
  have ev: "fact_of c = f" using c(3,4) assms(2) by (simp add: fact_of_def)
  let ?own = "\<lparr>ae_kind = AGENT_RESTOCK_REQUEST, ae_issuer = ISSUER_LIMITED_AGENT, ae_candidate_id = cs_candidate_id c,
    ae_receipt_id = None, ae_product_id = rq_product_id q, ae_quantity = rq_quantity q, ae_issued = True\<rparr>"
  let ?conf = "\<lambda>rid. \<lparr>ae_kind = WAREHOUSE_RECEIPT_CONFIRMATION, ae_issuer = ISSUER_WAREHOUSE_AUTHORITY,
    ae_candidate_id = cs_candidate_id c, ae_receipt_id = Some rid, ae_product_id = rq_product_id q,
    ae_quantity = rq_quantity q, ae_issued = True\<rparr>"
  have own: "issue_restock_request_evidence c = Inr ?own"
    and conf: "\<not> py_blank rid \<Longrightarrow> issue_receipt_confirmation c
      \<lparr>wo_receipt_id = rid, wo_product_id = rq_product_id q, wo_quantity = rq_quantity q\<rparr> = Inr (?conf rid)" for rid
    using cok c(3,4) by (simp_all add: issue_restock_request_evidence_def issue_receipt_confirmation_def AuthorityEvidence_init_def
        validate_identifier_def)
  have gov: "\<exists>r. submit_candidate_with_semantic_authority_admission st c es = (if \<exists>e \<in> set es. confirms e c then st' else st, Inr r)" for es
    by (rule governed_promotion [OF c(2), of st RESTOCK_WORKFLOW es])
       (auto simp: submit_candidate_with_semantic_authority_admission_def ev assms(3))
  have "\<exists>r. submit_candidate_with_semantic_authority_admission st c (replicate n ?own) = (st, Inr r)" for n
    using gov [of "replicate n ?own"] by (auto simp: confirms_def split: if_splits)
  moreover have "\<exists>r. submit_candidate_with_semantic_authority_admission st c es = (st', Inr r)" if "?conf rid \<in> set es" for rid es
  proof -
    have "confirms (?conf rid) c" using c(3,4) by (simp add: confirms_def evidence_matches_candidate_def)
    with gov [of es] that show ?thesis by (auto split: if_splits)
  qed
  moreover have "\<exists>prep. agent_prepare_restock_candidate q = Inr prep \<and> pr_candidate prep = Some c"
    by (simp add: agent_prepare_restock_candidate_def workflow_prepare_restock_candidate_def Let_def denied_iff capability_table c(1)
        CandidatePreparationResult_init_def)
  moreover have "\<exists>r. submit_restock_request st q = (st', Inr r)"
    by (rule vulnerable_promotion [OF assms(1), of st]) (auto simp: assms(2,3))
  moreover have "\<exists>a. attempt_direct_append st f = (st, Inr a) \<and> \<not> fact_appended a"
    by (simp add: attempt_direct_append_def append_by fact_appended_def)
  ultimately show ?thesis using own conf by blast
qed

theorem escalation_closed_by_admission_witness:
  "\<exists>r. submit_restock_request inventory_store_init \<lparr>rq_product_id = ''product-a'', rq_quantity = 10, rq_request_id = PROTECTED_REQUEST_ID\<rparr>
     = (\<lparr>st_accepted_facts = [PROTECTED_REPLENISHMENT]\<rparr>, Inr r)"
proof -
  let ?q = "\<lparr>rq_product_id = ''product-a'', rq_quantity = 10, rq_request_id = PROTECTED_REQUEST_ID\<rparr>"
  have "request_ok ?q" by (simp add: RestockRequest_init_def validate_product_and_quantity_def validate_identifier_def
        PROTECTED_REQUEST_ID_def py_blank_iff py_isspace_def)
  from escalation_closed_by_admission [OF this refl refl, of inventory_store_init] show ?thesis
    by (simp add: inventory_store_init_def PROTECTED_REPLENISHMENT_def)
qed

end
