(* ===== verification/Correctness_Contract.thy ===== *)
theory Correctness_Contract
  imports Transition_Validation
begin

text \<open>
  The declarative correctness contract of the order domain (src/core/order/correctness_contract.py):
  its vocabularies, the registries of rules, transitions, amount constraints and editions, the
  materialisation of an edition with its structural checks, and the coherence check that runs when
  the module is imported. The module-level registries are an argument of the operations, so that what
  the checks promise can be stated for every registry; \<open>AUTHORITATIVE\<close> holds the registries of the
  module. A dictionary is the list of its items, a frozenset is a set. The \<open>isinstance\<close> checks and the
  blocked constructors are settled by the types of the model.
\<close>

section \<open>Vocabulary\<close>

datatype CorrectnessCategory = COMMAND_LEGALITY | CANDIDATE_CONSTRUCTION | TRUSTED_APPLICATION | TRANSITION_TRUTH

datatype RuleSubject =
    AGGREGATE_COMMAND
  | CANDIDATE_EVENT
  | PREDECESSOR_CLAIM
  | TRUSTED_EVENT_APPLICATION
  | ACCEPTED_CONTEXT_COMPARISON

datatype MoneyRoundingMode = ROUND_HALF_EVEN

datatype AmountConstraintKind =
    NORMALIZED_VALUE_GREATER_THAN_ZERO
  | NORMALIZED_VALUE_EQUALS_CURRENT_TOTAL_AMOUNT

definition known_rule_ids :: "OrderCorrectnessRuleId list" where
  "known_rule_ids =
     [CREATE_ALLOWED_FROM_INIT,
      PAY_ALLOWED_FROM_CREATED,
      CREATE_NORMALIZED_AMOUNT_POSITIVE,
      PAY_NORMALIZED_AMOUNT_POSITIVE,
      PAY_NORMALIZED_AMOUNT_EQUALS_TOTAL,
      CANDIDATE_SEQUENCE_IS_NEXT_AGGREGATE_VERSION,
      CANDIDATE_PROOF_DERIVED_FROM_AGGREGATE_PREDECESSOR,
      TRUSTED_APPLICATION_EVENT_ORDER_ID_MATCHES_AGGREGATE,
      TRUSTED_APPLICATION_EVENT_SEQUENCE_IS_NEXT_VERSION,
      TRUSTED_APPLICATION_CREATED_ESTABLISHES_STATE,
      TRUSTED_APPLICATION_PAID_ESTABLISHES_STATE,
      TRUSTED_APPLICATION_UPDATES_AGGREGATE_HISTORY_HEAD,
      TRANSITION_SEQUENCE_MATCHES_ACCEPTED_NEXT_VERSION,
      TRANSITION_PROOF_PREV_EVENT_ID_MATCHES_ACCEPTED,
      TRANSITION_PROOF_PREV_VERSION_MATCHES_ACCEPTED,
      TRANSITION_PROOF_PREV_STATUS_MATCHES_ACCEPTED,
      TRANSITION_CANDIDATE_EVENT_TYPE_SUPPORTED,
      TRANSITION_EVENT_TYPE_LEGAL_FROM_ACCEPTED_STATUS]"

section \<open>Registries\<close>

record RuleDefinition =
  rd_semantic_proposition :: string
  rd_category :: CorrectnessCategory
  rd_subject :: RuleSubject

definition RuleDefinition_init :: "RuleDefinition \<Rightarrow> RuleDefinition res" where
  "RuleDefinition_init self =
     (if py_blank (rd_semantic_proposition self) \<or> rd_semantic_proposition self \<noteq> py_strip (rd_semantic_proposition self)
      then Inl (ValueError ''semantic_proposition must be a trimmed non-empty string'') else Inr self)"

abbreviation rule_def :: "string \<Rightarrow> CorrectnessCategory \<Rightarrow> RuleSubject \<Rightarrow> RuleDefinition" where
  "rule_def p c s \<equiv> \<lparr>rd_semantic_proposition = p, rd_category = c, rd_subject = s\<rparr>"

definition RULE_DEFINITIONS :: "(OrderCorrectnessRuleId \<times> RuleDefinition) list" where
  "RULE_DEFINITIONS =
     [(CREATE_ALLOWED_FROM_INIT, rule_def ''A CREATE command is legal only when the aggregate status is INIT.'' COMMAND_LEGALITY AGGREGATE_COMMAND),
      (PAY_ALLOWED_FROM_CREATED, rule_def ''A PAY command is legal only when the aggregate status is CREATED.'' COMMAND_LEGALITY AGGREGATE_COMMAND),
      (CREATE_NORMALIZED_AMOUNT_POSITIVE, rule_def ''The normalized CREATE amount is greater than zero.'' COMMAND_LEGALITY AGGREGATE_COMMAND),
      (PAY_NORMALIZED_AMOUNT_POSITIVE, rule_def ''The normalized PAY amount is greater than zero.'' COMMAND_LEGALITY AGGREGATE_COMMAND),
      (PAY_NORMALIZED_AMOUNT_EQUALS_TOTAL, rule_def (''The normalized PAY amount equals the aggregate'' @ [CHR 0x27] @ ''s current total_amount.'') COMMAND_LEGALITY AGGREGATE_COMMAND),
      (CANDIDATE_SEQUENCE_IS_NEXT_AGGREGATE_VERSION, rule_def (''A candidate event'' @ [CHR 0x27] @ ''s sequence equals the aggregate'' @ [CHR 0x27] @ ''s current_version plus next_sequence_increment.'') CANDIDATE_CONSTRUCTION CANDIDATE_EVENT),
      (CANDIDATE_PROOF_DERIVED_FROM_AGGREGATE_PREDECESSOR, rule_def (''A candidate proof'' @ [CHR 0x27] @ ''s prev_status, prev_version, and prev_event_id are derived from the aggregate'' @ [CHR 0x27] @ ''s current status, current_version, and last_event_id.'') CANDIDATE_CONSTRUCTION PREDECESSOR_CLAIM),
      (TRUSTED_APPLICATION_EVENT_ORDER_ID_MATCHES_AGGREGATE, rule_def (''A trusted event'' @ [CHR 0x27] @ ''s order_id equals the aggregate'' @ [CHR 0x27] @ ''s order_id before application.'') TRUSTED_APPLICATION TRUSTED_EVENT_APPLICATION),
      (TRUSTED_APPLICATION_EVENT_SEQUENCE_IS_NEXT_VERSION, rule_def (''A trusted event'' @ [CHR 0x27] @ ''s sequence equals the aggregate'' @ [CHR 0x27] @ ''s current_version plus next_sequence_increment before application.'') TRUSTED_APPLICATION TRUSTED_EVENT_APPLICATION),
      (TRUSTED_APPLICATION_CREATED_ESTABLISHES_STATE, rule_def ''Applying a trusted CREATED event sets status to CREATED and replaces total_amount with event.amount.'' TRUSTED_APPLICATION TRUSTED_EVENT_APPLICATION),
      (TRUSTED_APPLICATION_PAID_ESTABLISHES_STATE, rule_def ''Applying a trusted PAID event sets status to PAID and replaces paid_amount with event.amount.'' TRUSTED_APPLICATION TRUSTED_EVENT_APPLICATION),
      (TRUSTED_APPLICATION_UPDATES_AGGREGATE_HISTORY_HEAD, rule_def (''Applying a trusted event updates the aggregate'' @ [CHR 0x27] @ ''s local history head by setting current_version to event.sequence and last_event_id to event.event_id.'') TRUSTED_APPLICATION TRUSTED_EVENT_APPLICATION),
      (TRANSITION_SEQUENCE_MATCHES_ACCEPTED_NEXT_VERSION, rule_def (''A candidate event'' @ [CHR 0x27] @ ''s sequence equals the accepted context'' @ [CHR 0x27] @ ''s previous version plus next_sequence_increment.'') TRANSITION_TRUTH ACCEPTED_CONTEXT_COMPARISON),
      (TRANSITION_PROOF_PREV_EVENT_ID_MATCHES_ACCEPTED, rule_def (''A candidate proof'' @ [CHR 0x27] @ ''s prev_event_id equals the accepted context'' @ [CHR 0x27] @ ''s predecessor event identity.'') TRANSITION_TRUTH ACCEPTED_CONTEXT_COMPARISON),
      (TRANSITION_PROOF_PREV_VERSION_MATCHES_ACCEPTED, rule_def (''A candidate proof'' @ [CHR 0x27] @ ''s prev_version equals the accepted context'' @ [CHR 0x27] @ ''s previous version.'') TRANSITION_TRUTH ACCEPTED_CONTEXT_COMPARISON),
      (TRANSITION_PROOF_PREV_STATUS_MATCHES_ACCEPTED, rule_def (''A candidate proof'' @ [CHR 0x27] @ ''s prev_status equals the accepted context'' @ [CHR 0x27] @ ''s previous status.'') TRANSITION_TRUTH ACCEPTED_CONTEXT_COMPARISON),
      (TRANSITION_CANDIDATE_EVENT_TYPE_SUPPORTED, rule_def (''A candidate event'' @ [CHR 0x27] @ ''s event_type belongs to the contract'' @ [CHR 0x27] @ ''s declared event_types.'') TRANSITION_TRUTH CANDIDATE_EVENT),
      (TRANSITION_EVENT_TYPE_LEGAL_FROM_ACCEPTED_STATUS, rule_def (''A candidate event'' @ [CHR 0x27] @ ''s event_type is legal from the accepted context'' @ [CHR 0x27] @ ''s previous status according to the allowed transition graph.'') TRANSITION_TRUTH ACCEPTED_CONTEXT_COMPARISON)]"

record AllowedTransitionDefinition =
  td_command :: CommandType
  td_predecessor_status :: OrderStatus
  td_candidate_event_type :: EventType
  td_resulting_status :: OrderStatus

definition ALLOWED_TRANSITION_DEFINITIONS :: "(OrderCorrectnessRuleId \<times> AllowedTransitionDefinition) list" where
  "ALLOWED_TRANSITION_DEFINITIONS =
     [(CREATE_ALLOWED_FROM_INIT, \<lparr>td_command = CREATE, td_predecessor_status = INIT,
        td_candidate_event_type = EV_CREATED, td_resulting_status = CREATED\<rparr>),
      (PAY_ALLOWED_FROM_CREATED, \<lparr>td_command = PAY, td_predecessor_status = CREATED,
        td_candidate_event_type = EV_PAID, td_resulting_status = PAID\<rparr>)]"

record CommandAmountConstraintDefinition =
  ad_command :: CommandType
  ad_constraint :: AmountConstraintKind

definition COMMAND_AMOUNT_CONSTRAINT_DEFINITIONS :: "(OrderCorrectnessRuleId \<times> CommandAmountConstraintDefinition) list" where
  "COMMAND_AMOUNT_CONSTRAINT_DEFINITIONS =
     [(CREATE_NORMALIZED_AMOUNT_POSITIVE, \<lparr>ad_command = CREATE, ad_constraint = NORMALIZED_VALUE_GREATER_THAN_ZERO\<rparr>),
      (PAY_NORMALIZED_AMOUNT_POSITIVE, \<lparr>ad_command = PAY, ad_constraint = NORMALIZED_VALUE_GREATER_THAN_ZERO\<rparr>),
      (PAY_NORMALIZED_AMOUNT_EQUALS_TOTAL, \<lparr>ad_command = PAY, ad_constraint = NORMALIZED_VALUE_EQUALS_CURRENT_TOTAL_AMOUNT\<rparr>)]"

record OrderCorrectnessContractDefinition =
  cd_statuses :: "OrderStatus set"
  cd_commands :: "CommandType set"
  cd_event_types :: "EventType set"
  cd_next_sequence_increment :: int
  cd_normalization_quantum :: decimal
  cd_rounding_mode :: MoneyRoundingMode
  cd_rule_ids :: "OrderCorrectnessRuleId list"
  cd_transition_rule_ids :: "OrderCorrectnessRuleId list"
  cd_amount_rule_ids :: "OrderCorrectnessRuleId list"

definition ORDER_CORRECTNESS_CONTRACT_DEFINITIONS :: "((string \<times> int) \<times> OrderCorrectnessContractDefinition) list" where
  "ORDER_CORRECTNESS_CONTRACT_DEFINITIONS =
     [((''order.correctness'', 0), \<lparr>cd_statuses = {INIT, CREATED, PAID}, cd_commands = {CREATE, PAY},
        cd_event_types = {EV_CREATED, EV_PAID}, cd_next_sequence_increment = 1,
        cd_normalization_quantum = Dec False 1 (- 2), cd_rounding_mode = ROUND_HALF_EVEN,
        cd_rule_ids =
     [CREATE_ALLOWED_FROM_INIT,
      PAY_ALLOWED_FROM_CREATED,
      CREATE_NORMALIZED_AMOUNT_POSITIVE,
      PAY_NORMALIZED_AMOUNT_POSITIVE,
      PAY_NORMALIZED_AMOUNT_EQUALS_TOTAL,
      CANDIDATE_SEQUENCE_IS_NEXT_AGGREGATE_VERSION,
      CANDIDATE_PROOF_DERIVED_FROM_AGGREGATE_PREDECESSOR,
      TRUSTED_APPLICATION_EVENT_ORDER_ID_MATCHES_AGGREGATE,
      TRUSTED_APPLICATION_EVENT_SEQUENCE_IS_NEXT_VERSION,
      TRUSTED_APPLICATION_CREATED_ESTABLISHES_STATE,
      TRUSTED_APPLICATION_PAID_ESTABLISHES_STATE,
      TRUSTED_APPLICATION_UPDATES_AGGREGATE_HISTORY_HEAD,
      TRANSITION_SEQUENCE_MATCHES_ACCEPTED_NEXT_VERSION,
      TRANSITION_PROOF_PREV_EVENT_ID_MATCHES_ACCEPTED,
      TRANSITION_PROOF_PREV_VERSION_MATCHES_ACCEPTED,
      TRANSITION_PROOF_PREV_STATUS_MATCHES_ACCEPTED,
      TRANSITION_CANDIDATE_EVENT_TYPE_SUPPORTED,
      TRANSITION_EVENT_TYPE_LEGAL_FROM_ACCEPTED_STATUS],
        cd_transition_rule_ids = [CREATE_ALLOWED_FROM_INIT, PAY_ALLOWED_FROM_CREATED],
        cd_amount_rule_ids = [CREATE_NORMALIZED_AMOUNT_POSITIVE, PAY_NORMALIZED_AMOUNT_POSITIVE,
          PAY_NORMALIZED_AMOUNT_EQUALS_TOTAL]\<rparr>)]"

record registries =
  rg_rules :: "(OrderCorrectnessRuleId \<times> RuleDefinition) list"
  rg_transitions :: "(OrderCorrectnessRuleId \<times> AllowedTransitionDefinition) list"
  rg_amounts :: "(OrderCorrectnessRuleId \<times> CommandAmountConstraintDefinition) list"
  rg_editions :: "((string \<times> int) \<times> OrderCorrectnessContractDefinition) list"

definition AUTHORITATIVE :: registries where
  "AUTHORITATIVE = \<lparr>rg_rules = RULE_DEFINITIONS, rg_transitions = ALLOWED_TRANSITION_DEFINITIONS,
     rg_amounts = COMMAND_AMOUNT_CONSTRAINT_DEFINITIONS, rg_editions = ORDER_CORRECTNESS_CONTRACT_DEFINITIONS\<rparr>"

section \<open>Materialised records\<close>

record CorrectnessRule =
  cr_rule_id :: OrderCorrectnessRuleId
  cr_semantic_proposition :: string
  cr_category :: CorrectnessCategory
  cr_subject :: RuleSubject

definition CorrectnessRule_from_rule_id :: "registries \<Rightarrow> OrderCorrectnessRuleId \<Rightarrow> CorrectnessRule res" where
  "CorrectnessRule_from_rule_id R rule_id =
     (case map_of (rg_rules R) rule_id of
        None \<Rightarrow> Inl (ValueError ''rule_id has no authoritative semantic definition'')
      | Some definition \<Rightarrow> Inr \<lparr>cr_rule_id = rule_id, cr_semantic_proposition = rd_semantic_proposition definition,
          cr_category = rd_category definition, cr_subject = rd_subject definition\<rparr>)"

record AllowedTransition =
  legality_rule_id :: OrderCorrectnessRuleId
  at_command :: CommandType
  predecessor_status :: OrderStatus
  candidate_event_type :: EventType
  resulting_status :: OrderStatus

definition AllowedTransition_from_rule_id :: "registries \<Rightarrow> OrderCorrectnessRuleId \<Rightarrow> AllowedTransition res" where
  "AllowedTransition_from_rule_id R rule_id =
     (case map_of (rg_transitions R) rule_id of
        None \<Rightarrow> Inl (ValueError ''rule_id has no authoritative allowed-transition definition'')
      | Some definition \<Rightarrow> Inr \<lparr>legality_rule_id = rule_id, at_command = td_command definition,
          predecessor_status = td_predecessor_status definition,
          candidate_event_type = td_candidate_event_type definition, resulting_status = td_resulting_status definition\<rparr>)"

record CommandAmountConstraint =
  ac_rule_id :: OrderCorrectnessRuleId
  ac_command :: CommandType
  ac_constraint :: AmountConstraintKind

definition CommandAmountConstraint_from_rule_id :: "registries \<Rightarrow> OrderCorrectnessRuleId \<Rightarrow> CommandAmountConstraint res" where
  "CommandAmountConstraint_from_rule_id R rule_id =
     (case map_of (rg_amounts R) rule_id of
        None \<Rightarrow> Inl (ValueError ''rule_id has no authoritative command-amount definition'')
      | Some definition \<Rightarrow> Inr \<lparr>ac_rule_id = rule_id, ac_command = ad_command definition, ac_constraint = ad_constraint definition\<rparr>)"

record OrderCorrectnessContract =
  contract_id :: string
  contract_version :: int
  statuses :: "OrderStatus set"
  commands :: "CommandType set"
  event_types :: "EventType set"
  next_sequence_increment :: int
  normalization_quantum :: decimal
  rounding_mode :: MoneyRoundingMode
  rules :: "CorrectnessRule list"
  allowed_transitions :: "AllowedTransition list"
  amount_constraints :: "CommandAmountConstraint list"

section \<open>Structural checks\<close>

definition require_trimmed_non_empty_string :: "string \<Rightarrow> string \<Rightarrow> unit res" where
  "require_trimmed_non_empty_string v field_name =
     (if py_blank v then Inl (ValueError (field_name @ '' must be a non-empty string''))
      else if v \<noteq> py_strip v then Inl (ValueError (field_name @ '' must not contain surrounding whitespace''))
      else Inr ())"

definition require_non_negative_int :: "int \<Rightarrow> string \<Rightarrow> unit res" where
  "require_non_negative_int v field_name =
     (if v < 0 then Inl (ValueError (field_name @ '' must be non-negative'')) else Inr ())"

definition require_positive_int :: "int \<Rightarrow> string \<Rightarrow> unit res" where
  "require_positive_int v field_name =
     (if v \<le> 0 then Inl (ValueError (field_name @ '' must be positive'')) else Inr ())"

fun is_finite :: "decimal \<Rightarrow> bool" where
  "is_finite (Dec s c e) = True"
| "is_finite _ = False"

definition require_positive_finite_decimal :: "decimal \<Rightarrow> string \<Rightarrow> unit res" where
  "require_positive_finite_decimal v field_name =
     (if \<not> is_finite v \<or> dec_le v (Dec False 0 0)
      then Inl (ValueError (field_name @ '' must be a positive finite Decimal'')) else Inr ())"

definition resolve_rule :: "CorrectnessRule list \<Rightarrow> OrderCorrectnessRuleId \<Rightarrow> string \<Rightarrow> CorrectnessRule res" where
  "resolve_rule rs rule_id reference_owner =
     (case filter (\<lambda>rule. cr_rule_id rule = rule_id) rs of
        [] \<Rightarrow> Inl (ValueError (reference_owner @ '' references a rule ID absent from contract.rules''))
      | rule # _ \<Rightarrow> Inr rule)"

text \<open>A loop whose body may raise, and the comprehension of a fallible element.\<close>

fun for_each :: "('a \<Rightarrow> unit res) \<Rightarrow> 'a list \<Rightarrow> unit res" where
  "for_each f [] = Inr ()"
| "for_each f (x # xs) = bind_res (f x) (\<lambda>_. for_each f xs)"

fun map_each :: "('a \<Rightarrow> 'b res) \<Rightarrow> 'a list \<Rightarrow> 'b list res" where
  "map_each f [] = Inr []"
| "map_each f (x # xs) = bind_res (f x) (\<lambda>y. bind_res (map_each f xs) (\<lambda>ys. Inr (y # ys)))"

abbreviation raise_if :: "bool \<Rightarrow> string \<Rightarrow> unit res \<Rightarrow> unit res" where
  "raise_if b message k \<equiv> (if b then Inl (ValueError message) else k)"

definition check_transition :: "OrderCorrectnessContract \<Rightarrow> AllowedTransition \<Rightarrow> unit res" where
  "check_transition self transition =
     raise_if (at_command transition \<notin> commands self) ''allowed transition command must belong to declared commands''
     (raise_if (predecessor_status transition \<notin> statuses self)
       ''allowed transition predecessor status must belong to declared statuses''
     (raise_if (candidate_event_type transition \<notin> event_types self)
       ''allowed transition candidate event type must belong to declared event_types''
     (raise_if (resulting_status transition \<notin> statuses self)
       ''allowed transition resulting status must belong to declared statuses''
     (bind_res (resolve_rule (rules self) (legality_rule_id transition) ''allowed transition'') (\<lambda>legality_rule.
       raise_if (cr_category legality_rule \<noteq> COMMAND_LEGALITY \<or> cr_subject legality_rule \<noteq> AGGREGATE_COMMAND)
         ''allowed transition legality rule must be COMMAND_LEGALITY with AGGREGATE_COMMAND subject'' (Inr ()))))))"

definition check_amount_constraint :: "OrderCorrectnessContract \<Rightarrow> CommandAmountConstraint \<Rightarrow> unit res" where
  "check_amount_constraint self constraint =
     raise_if (ac_command constraint \<notin> commands self) ''amount constraint command must belong to declared commands''
     (bind_res (resolve_rule (rules self) (ac_rule_id constraint) ''amount constraint'') (\<lambda>amount_rule.
       raise_if (cr_category amount_rule \<noteq> COMMAND_LEGALITY \<or> cr_subject amount_rule \<noteq> AGGREGATE_COMMAND)
         ''amount constraint rule must be COMMAND_LEGALITY with AGGREGATE_COMMAND subject'' (Inr ())))"

definition validate_structure :: "OrderCorrectnessContract \<Rightarrow> unit res" where
  "validate_structure self =
     bind_res (require_trimmed_non_empty_string (contract_id self) ''contract_id'') (\<lambda>_.
     bind_res (require_non_negative_int (contract_version self) ''contract_version'') (\<lambda>_.
     bind_res (require_positive_int (next_sequence_increment self) ''next_sequence_increment'') (\<lambda>_.
     bind_res (require_positive_finite_decimal (normalization_quantum self) ''normalization_quantum'') (\<lambda>_.
     raise_if (\<not> distinct (map cr_rule_id (rules self))) ''rules must contain unique rule IDs''
     (raise_if (\<not> distinct (allowed_transitions self)) ''allowed_transitions must not contain duplicates''
     (raise_if (\<not> distinct (map (\<lambda>t. (at_command t, predecessor_status t)) (allowed_transitions self)))
       ''allowed_transitions must not contain contradictory definitions for the same command and predecessor status''
     (bind_res (for_each (check_transition self) (allowed_transitions self)) (\<lambda>_.
     raise_if (\<not> distinct (amount_constraints self)) ''amount_constraints must not contain duplicates''
     (raise_if (\<not> distinct (map (\<lambda>c. (ac_command c, ac_constraint c)) (amount_constraints self)))
       ''amount_constraints must not contain conflicting definitions for the same command and constraint''
     (raise_if (\<not> distinct (map ac_rule_id (amount_constraints self)))
       ''amount_constraints must reference unique rule IDs''
     (for_each (check_amount_constraint self) (amount_constraints self))))))))))))"

section \<open>Editions\<close>

definition from_identity :: "registries \<Rightarrow> string \<Rightarrow> int \<Rightarrow> OrderCorrectnessContract res" where
  "from_identity R cid cversion =
     bind_res (require_trimmed_non_empty_string cid ''contract_id'') (\<lambda>_.
     bind_res (require_non_negative_int cversion ''contract_version'') (\<lambda>_.
     case map_of (rg_editions R) (cid, cversion) of
       None \<Rightarrow> Inl (ValueError ''contract identity has no authoritative edition definition'')
     | Some definition \<Rightarrow>
         bind_res (map_each (CorrectnessRule_from_rule_id R) (cd_rule_ids definition)) (\<lambda>rs.
         bind_res (map_each (AllowedTransition_from_rule_id R) (cd_transition_rule_ids definition)) (\<lambda>ts.
         bind_res (map_each (CommandAmountConstraint_from_rule_id R) (cd_amount_rule_ids definition)) (\<lambda>cs.
         let contract = \<lparr>contract_id = cid, contract_version = cversion, statuses = cd_statuses definition,
               commands = cd_commands definition, event_types = cd_event_types definition,
               next_sequence_increment = cd_next_sequence_increment definition,
               normalization_quantum = cd_normalization_quantum definition, rounding_mode = cd_rounding_mode definition,
               rules = rs, allowed_transitions = ts, amount_constraints = cs\<rparr>
         in bind_res (validate_structure contract) (\<lambda>_. Inr contract))))))"

section \<open>Coherence of the registries\<close>

definition definition_invariant :: "bool \<Rightarrow> string \<Rightarrow> unit res" where
  "definition_invariant condition message = (if condition then Inr () else Inl (RuntimeError message))"

text \<open>The conditions of one registry entry, of one selection and of one edition, in order.\<close>

definition command_legality_rule :: "registries \<Rightarrow> OrderCorrectnessRuleId \<Rightarrow> string \<Rightarrow> unit res" where
  "command_legality_rule R rule_id name =
     (case map_of (rg_rules R) rule_id of
        None \<Rightarrow> definition_invariant False (name @ '' definition must reference a known rule'')
      | Some rule_definition \<Rightarrow>
          definition_invariant (rd_category rule_definition = COMMAND_LEGALITY \<and> rd_subject rule_definition = AGGREGATE_COMMAND)
            (name @ '' rule must be COMMAND_LEGALITY with AGGREGATE_COMMAND subject''))"

definition validate_selection :: "string \<Rightarrow> OrderCorrectnessRuleId list \<Rightarrow> unit res" where
  "validate_selection selection_name selected_ids =
     definition_invariant (distinct selected_ids) (''contract-edition '' @ selection_name @ '' must not contain duplicates'')"

definition validate_edition :: "registries \<Rightarrow> (string \<times> int) \<times> OrderCorrectnessContractDefinition \<Rightarrow> unit res" where
  "validate_edition R edition =
     (case edition of ((cid, cversion), definition) \<Rightarrow>
      bind_res (definition_invariant (\<not> py_blank cid \<and> cid = py_strip cid)
        ''contract-edition contract_id must be a trimmed non-empty string'') (\<lambda>_.
      bind_res (definition_invariant (0 \<le> cversion) ''contract-edition version must be a non-negative int'') (\<lambda>_.
      bind_res (definition_invariant (0 < cd_next_sequence_increment definition)
        ''contract-edition next_sequence_increment must be positive'') (\<lambda>_.
      bind_res (definition_invariant (is_finite (cd_normalization_quantum definition)
          \<and> \<not> dec_le (cd_normalization_quantum definition) (Dec False 0 0))
        ''contract-edition normalization_quantum must be positive and finite'') (\<lambda>_.
      bind_res (for_each (\<lambda>(name, ids). validate_selection name ids)
        [(''rules'', cd_rule_ids definition), (''transitions'', cd_transition_rule_ids definition),
         (''amount constraints'', cd_amount_rule_ids definition)]) (\<lambda>_.
      bind_res (definition_invariant (set (cd_rule_ids definition) \<subseteq> set known_rule_ids)
        ''contract edition must select only known rule IDs'') (\<lambda>_.
      bind_res (definition_invariant (set (cd_transition_rule_ids definition) \<subseteq> fst ` set (rg_transitions R))
        ''selected transition rule must have an authoritative definition'') (\<lambda>_.
      bind_res (definition_invariant (set (cd_amount_rule_ids definition) \<subseteq> fst ` set (rg_amounts R))
        ''selected amount rule must have an authoritative definition'') (\<lambda>_.
      bind_res (definition_invariant (set (cd_transition_rule_ids definition) \<subseteq> set (cd_rule_ids definition)
          \<and> set (cd_amount_rule_ids definition) \<subseteq> set (cd_rule_ids definition))
        ''selected transition and amount rules must be selected edition rules'') (\<lambda>_.
      bind_res (for_each (\<lambda>rule_id.
          definition_invariant (case map_of (rg_transitions R) rule_id of
              None \<Rightarrow> False
            | Some t \<Rightarrow> td_command t \<in> cd_commands definition \<and> td_predecessor_status t \<in> cd_statuses definition
                \<and> td_candidate_event_type t \<in> cd_event_types definition \<and> td_resulting_status t \<in> cd_statuses definition)
            ''selected transition values must belong to edition vocabularies'') (cd_transition_rule_ids definition)) (\<lambda>_.
      for_each (\<lambda>rule_id.
          definition_invariant (case map_of (rg_amounts R) rule_id of
              None \<Rightarrow> False | Some c \<Rightarrow> ad_command c \<in> cd_commands definition)
            ''selected amount command must belong to edition commands'') (cd_amount_rule_ids definition))))))))))))"

definition validate_authoritative_definitions :: "registries \<Rightarrow> unit res" where
  "validate_authoritative_definitions R =
     bind_res (definition_invariant (fst ` set (rg_rules R) = set known_rule_ids)
       ''authoritative rule definitions must exactly cover known rule IDs'') (\<lambda>_.
     bind_res (for_each (\<lambda>(rule_id, definition). command_legality_rule R rule_id ''allowed-transition'') (rg_transitions R)) (\<lambda>_.
     bind_res (definition_invariant (distinct (map (\<lambda>(_, t). (td_command t, td_predecessor_status t)) (rg_transitions R)))
       ''allowed-transition definitions must not contradict one graph key'') (\<lambda>_.
     bind_res (for_each (\<lambda>(rule_id, definition). command_legality_rule R rule_id ''command-amount'') (rg_amounts R)) (\<lambda>_.
     bind_res (definition_invariant (distinct (map (\<lambda>(_, c). (ad_command c, ad_constraint c)) (rg_amounts R)))
       ''command-amount definitions must not duplicate one relationship'') (\<lambda>_.
     for_each (validate_edition R) (rg_editions R))))))"

definition ORDER_CORRECTNESS_CONTRACT_V0 :: "OrderCorrectnessContract res" where
  "ORDER_CORRECTNESS_CONTRACT_V0 = from_identity AUTHORITATIVE ''order.correctness'' 0"

section \<open>What the checks promise\<close>

lemma for_each_iff: "for_each f xs = Inr () \<longleftrightarrow> (\<forall>x \<in> set xs. f x = Inr ())"
  by (induction xs) (auto simp: res_simps)

lemma map_each_total: "(\<And>x. x \<in> set xs \<Longrightarrow> f x = Inr (g x)) \<Longrightarrow> map_each f xs = Inr (map g xs)"
  by (induction xs) simp_all

lemma invariant_iff: "definition_invariant b m = Inr () \<longleftrightarrow> b"
  by (simp add: definition_invariant_def)

lemma registry_keys_inj:
  assumes "distinct (map (\<lambda>(_, t). k t) xs)"
  shows "inj_on (\<lambda>i. k (the (map_of xs i))) (fst ` set xs)"
proof (rule inj_onI)
  fix i j
  assume "i \<in> fst ` set xs" and "j \<in> fst ` set xs" and eq: "k (the (map_of xs i)) = k (the (map_of xs j))"
  then obtain a b where ab: "map_of xs i = Some a" "map_of xs j = Some b" by (meson map_of_eq_None_iff not_None_eq)
  then have "(i, a) \<in> set xs" "(j, b) \<in> set xs" by (auto dest: map_of_SomeD)
  with assms eq ab show "i = j" unfolding distinct_map inj_on_def by fastforce
qed

text \<open>The records that the registries hold for an identity.\<close>

definition rule_of :: "registries \<Rightarrow> OrderCorrectnessRuleId \<Rightarrow> CorrectnessRule" where
  "rule_of R i = (let d = the (map_of (rg_rules R) i) in \<lparr>cr_rule_id = i, cr_semantic_proposition = rd_semantic_proposition d,
     cr_category = rd_category d, cr_subject = rd_subject d\<rparr>)"

definition transition_of :: "registries \<Rightarrow> OrderCorrectnessRuleId \<Rightarrow> AllowedTransition" where
  "transition_of R i = (let d = the (map_of (rg_transitions R) i) in \<lparr>legality_rule_id = i, at_command = td_command d,
     predecessor_status = td_predecessor_status d, candidate_event_type = td_candidate_event_type d,
     resulting_status = td_resulting_status d\<rparr>)"

definition amount_of :: "registries \<Rightarrow> OrderCorrectnessRuleId \<Rightarrow> CommandAmountConstraint" where
  "amount_of R i = (let d = the (map_of (rg_amounts R) i) in \<lparr>ac_rule_id = i, ac_command = ad_command d, ac_constraint = ad_constraint d\<rparr>)"

lemma known_entry: "i \<in> fst ` set xs \<Longrightarrow> \<exists>d. map_of xs i = Some d"
  by (meson map_of_eq_None_iff not_None_eq)

lemma materialized:
  "set is \<subseteq> fst ` set (rg_rules R) \<Longrightarrow> map_each (CorrectnessRule_from_rule_id R) is = Inr (map (rule_of R) is)"
  "set is \<subseteq> fst ` set (rg_transitions R) \<Longrightarrow> map_each (AllowedTransition_from_rule_id R) is = Inr (map (transition_of R) is)"
  "set is \<subseteq> fst ` set (rg_amounts R) \<Longrightarrow> map_each (CommandAmountConstraint_from_rule_id R) is = Inr (map (amount_of R) is)"
proof -
  show "map_each (CorrectnessRule_from_rule_id R) is = Inr (map (rule_of R) is)" if "set is \<subseteq> fst ` set (rg_rules R)"
    using that known_entry [of _ "rg_rules R"]
    by (intro map_each_total) (fastforce simp: CorrectnessRule_from_rule_id_def rule_of_def Let_def)
  show "map_each (AllowedTransition_from_rule_id R) is = Inr (map (transition_of R) is)" if "set is \<subseteq> fst ` set (rg_transitions R)"
    using that known_entry [of _ "rg_transitions R"]
    by (intro map_each_total) (fastforce simp: AllowedTransition_from_rule_id_def transition_of_def Let_def)
  show "map_each (CommandAmountConstraint_from_rule_id R) is = Inr (map (amount_of R) is)" if "set is \<subseteq> fst ` set (rg_amounts R)"
    using that known_entry [of _ "rg_amounts R"]
    by (intro map_each_total) (fastforce simp: CommandAmountConstraint_from_rule_id_def amount_of_def Let_def)
qed

lemma resolved: "i \<in> set is \<Longrightarrow> resolve_rule (map (rule_of R) is) i name = Inr (rule_of R i)"
proof (induction "is")
  case (Cons j "is")
  then show ?case by (cases "j = i") (simp_all add: resolve_rule_def rule_of_def Let_def)
qed simp

lemma distinct_of_keys: "distinct (map f xs) \<Longrightarrow> distinct xs"
  by (simp add: distinct_map)

lemma legality_of:
  assumes "command_legality_rule R i name = Inr ()"
  shows "cr_category (rule_of R i) = COMMAND_LEGALITY \<and> cr_subject (rule_of R i) = AGGREGATE_COMMAND"
  using assms by (auto simp: command_legality_rule_def invariant_iff rule_of_def Let_def split: option.splits)

text \<open>The two loops of the structural check, on a materialised edition.\<close>

lemma transitions_checked:
  assumes "rules c = map (rule_of R) ids" and "set is \<subseteq> set ids" and "set is \<subseteq> fst ` set (rg_transitions R)"
    and "\<forall>i \<in> fst ` set (rg_transitions R). command_legality_rule R i n = Inr ()"
    and "\<forall>i \<in> set is. case map_of (rg_transitions R) i of None \<Rightarrow> False
            | Some t \<Rightarrow> td_command t \<in> commands c \<and> td_predecessor_status t \<in> statuses c
                \<and> td_candidate_event_type t \<in> event_types c \<and> td_resulting_status t \<in> statuses c"
  shows "for_each (check_transition c) (map (transition_of R) is) = Inr ()"
proof -
  have "check_transition c (transition_of R i) = Inr ()" if i: "i \<in> set is" for i
  proof -
    from i assms(3,4) have "command_legality_rule R i n = Inr ()" by blast
    note legality_of [OF this]
    moreover from i assms(2) have "i \<in> set ids" by blast
    ultimately show ?thesis using assms(5) i
      by (auto simp: check_transition_def transition_of_def Let_def assms(1) resolved split: option.splits)
  qed
  then show ?thesis by (simp add: for_each_iff)
qed

lemma amounts_checked:
  assumes "rules c = map (rule_of R) ids" and "set is \<subseteq> set ids" and "set is \<subseteq> fst ` set (rg_amounts R)"
    and "\<forall>i \<in> fst ` set (rg_amounts R). command_legality_rule R i n = Inr ()"
    and "\<forall>i \<in> set is. case map_of (rg_amounts R) i of None \<Rightarrow> False | Some t \<Rightarrow> ad_command t \<in> commands c"
  shows "for_each (check_amount_constraint c) (map (amount_of R) is) = Inr ()"
proof -
  have "check_amount_constraint c (amount_of R i) = Inr ()" if i: "i \<in> set is" for i
  proof -
    from i assms(3,4) have "command_legality_rule R i n = Inr ()" by blast
    note legality_of [OF this]
    moreover from i assms(2) have "i \<in> set ids" by blast
    ultimately show ?thesis using assms(5) i
      by (auto simp: check_amount_constraint_def amount_of_def Let_def assms(1) resolved split: option.splits)
  qed
  then show ?thesis by (simp add: for_each_iff)
qed

lemma edition_checks:
  assumes "validate_edition R ((cid, v), d) = Inr ()"
  shows "\<not> py_blank cid" "cid = py_strip cid" "0 \<le> v" "0 < cd_next_sequence_increment d"
    and "is_finite (cd_normalization_quantum d)" "\<not> dec_le (cd_normalization_quantum d) (Dec False 0 0)"
    and "distinct (cd_rule_ids d)" "distinct (cd_transition_rule_ids d)" "distinct (cd_amount_rule_ids d)"
    and "set (cd_rule_ids d) \<subseteq> set known_rule_ids" "set (cd_transition_rule_ids d) \<subseteq> fst ` set (rg_transitions R)"
    and "set (cd_amount_rule_ids d) \<subseteq> fst ` set (rg_amounts R)" "set (cd_transition_rule_ids d) \<subseteq> set (cd_rule_ids d)"
    and "set (cd_amount_rule_ids d) \<subseteq> set (cd_rule_ids d)"
    and "\<forall>i \<in> set (cd_transition_rule_ids d). case map_of (rg_transitions R) i of None \<Rightarrow> False
            | Some t \<Rightarrow> td_command t \<in> cd_commands d \<and> td_predecessor_status t \<in> cd_statuses d
                \<and> td_candidate_event_type t \<in> cd_event_types d \<and> td_resulting_status t \<in> cd_statuses d"
    and "\<forall>i \<in> set (cd_amount_rule_ids d). case map_of (rg_amounts R) i of None \<Rightarrow> False | Some c \<Rightarrow> ad_command c \<in> cd_commands d"
  using assms by (simp_all add: validate_edition_def bind_res_eq_Inr for_each_iff invariant_iff validate_selection_def)

lemma registry_checks:
  assumes "validate_authoritative_definitions R = Inr ()"
  shows "fst ` set (rg_rules R) = set known_rule_ids"
    and "\<forall>i \<in> fst ` set (rg_transitions R). command_legality_rule R i ''allowed-transition'' = Inr ()"
    and "distinct (map (\<lambda>(_, t). (td_command t, td_predecessor_status t)) (rg_transitions R))"
    and "\<forall>i \<in> fst ` set (rg_amounts R). command_legality_rule R i ''command-amount'' = Inr ()"
    and "distinct (map (\<lambda>(_, c). (ad_command c, ad_constraint c)) (rg_amounts R))"
    and "\<forall>e \<in> set (rg_editions R). validate_edition R e = Inr ()"
  using assms by (auto simp: validate_authoritative_definitions_def bind_res_eq_Inr for_each_iff invariant_iff)

lemma edition_materializes:
  assumes R: "validate_authoritative_definitions R = Inr ()" and dict: "distinct (map fst (rg_editions R))"
    and d: "((cid, v), d) \<in> set (rg_editions R)"
  shows "from_identity R cid v = Inr \<lparr>contract_id = cid, contract_version = v, statuses = cd_statuses d,
     commands = cd_commands d, event_types = cd_event_types d, next_sequence_increment = cd_next_sequence_increment d,
     normalization_quantum = cd_normalization_quantum d, rounding_mode = cd_rounding_mode d,
     rules = map (rule_of R) (cd_rule_ids d), allowed_transitions = map (transition_of R) (cd_transition_rule_ids d),
     amount_constraints = map (amount_of R) (cd_amount_rule_ids d)\<rparr>" (is "_ = Inr ?c")
proof -
  note reg = registry_checks [OF R]
  have "validate_edition R ((cid, v), d) = Inr ()" using reg(6) d by blast
  note ed = edition_checks [OF this]
  have rid: "map cr_rule_id (map (rule_of R) xs) = xs" "map legality_rule_id (map (transition_of R) xs) = xs"
    "map ac_rule_id (map (amount_of R) xs) = xs" for xs
    by (simp_all add: rule_of_def transition_of_def amount_of_def Let_def map_idI)
  have k1: "distinct (map (\<lambda>t. (at_command t, predecessor_status t)) (map (transition_of R) (cd_transition_rule_ids d)))"
    using ed(8) inj_on_subset [OF registry_keys_inj [OF reg(3)] ed(11)] by (simp add: distinct_map transition_of_def Let_def comp_def)
  have k2: "distinct (map (\<lambda>c. (ac_command c, ac_constraint c)) (map (amount_of R) (cd_amount_rule_ids d)))"
    using ed(9) inj_on_subset [OF registry_keys_inj [OF reg(5)] ed(12)] by (simp add: distinct_map amount_of_def Let_def comp_def)
  have loops: "for_each (check_transition ?c) (allowed_transitions ?c) = Inr ()"
    "for_each (check_amount_constraint ?c) (amount_constraints ?c) = Inr ()"
    using transitions_checked [of ?c R "cd_rule_ids d" "cd_transition_rule_ids d", OF _ ed(13,11) reg(2)] ed(15)
      amounts_checked [of ?c R "cd_rule_ids d" "cd_amount_rule_ids d", OF _ ed(14,12) reg(4)] ed(16) by (simp_all cong: option.case_cong)
  have "validate_structure ?c = Inr ()"
    using ed(1-9) k1 k2 loops rid(1) [of "cd_rule_ids d"] rid(3) [of "cd_amount_rule_ids d"] distinct_of_keys [OF k1] distinct_of_keys [OF k2]
    by (simp add: validate_structure_def require_trimmed_non_empty_string_def require_non_negative_int_def require_positive_int_def
        require_positive_finite_decimal_def del: map_map list.map_comp)
  moreover have "map_of (rg_editions R) (cid, v) = Some d" using d dict by simp
  moreover have "set (cd_rule_ids d) \<subseteq> fst ` set (rg_rules R)" using ed(10) reg(1) by simp
  ultimately show ?thesis using ed(1-3)
    by (simp add: from_identity_def require_trimmed_non_empty_string_def require_non_negative_int_def materialized ed(11,12))
qed

lemma authoritative_coherent:
  "validate_authoritative_definitions AUTHORITATIVE = Inr ()" "distinct (map fst (rg_editions AUTHORITATIVE))"
  by (simp_all add: validate_authoritative_definitions_def AUTHORITATIVE_def RULE_DEFINITIONS_def ALLOWED_TRANSITION_DEFINITIONS_def
      COMMAND_AMOUNT_CONSTRAINT_DEFINITIONS_def ORDER_CORRECTNESS_CONTRACT_DEFINITIONS_def known_rule_ids_def definition_invariant_def
      command_legality_rule_def validate_edition_def validate_selection_def py_blank_iff py_isspace_def py_strip_def dec_scaled_def)

section \<open>What the contract says\<close>

text \<open>The declared money rule, the declared constraint on a normalised amount, and what the graph and
  the constraints of an edition admit.\<close>

definition contract_amount :: "OrderCorrectnessContract \<Rightarrow> decimal \<Rightarrow> decimal res" where
  "contract_amount c amount =
     bind_res (parse_money (MDecimal amount)) (\<lambda>x. case rounding_mode c of ROUND_HALF_EVEN \<Rightarrow> dec_quantize x (normalization_quantum c))"

fun constraint_holds :: "AmountConstraintKind \<Rightarrow> OrderAggregate \<Rightarrow> decimal \<Rightarrow> bool" where
  "constraint_holds NORMALIZED_VALUE_GREATER_THAN_ZERO a n = (\<not> dec_le n (Dec False 0 0))"
| "constraint_holds NORMALIZED_VALUE_EQUALS_CURRENT_TOTAL_AMOUNT a n = dec_eq n (total_amount a)"

definition edge :: "OrderCorrectnessContract \<Rightarrow> CommandType \<Rightarrow> OrderStatus \<Rightarrow> AllowedTransition \<Rightarrow> bool" where
  "edge c cmd st t \<longleftrightarrow> t \<in> set (allowed_transitions c) \<and> at_command t = cmd \<and> predecessor_status t = st"

definition command_admitted :: "OrderCorrectnessContract \<Rightarrow> CommandType \<Rightarrow> OrderAggregate \<Rightarrow> decimal \<Rightarrow> bool" where
  "command_admitted c cmd a n \<longleftrightarrow> (\<exists>t. edge c cmd (status a) t)
     \<and> (\<forall>k \<in> set (amount_constraints c). ac_command k = cmd \<longrightarrow> constraint_holds (ac_constraint k) a n)"

lemma v0_contract:
  assumes "ORDER_CORRECTNESS_CONTRACT_V0 = Inr c"
  shows "next_sequence_increment c = 1" "normalization_quantum c = MONEY_QUANT" "event_types c = {EV_CREATED, EV_PAID}"
    and "edge c cmd st t \<longleftrightarrow> (cmd, st) = (CREATE, INIT) \<and> t = transition_of AUTHORITATIVE CREATE_ALLOWED_FROM_INIT
      \<or> (cmd, st) = (PAY, CREATED) \<and> t = transition_of AUTHORITATIVE PAY_ALLOWED_FROM_CREATED"
    and "set (allowed_transitions c) = {transition_of AUTHORITATIVE CREATE_ALLOWED_FROM_INIT, transition_of AUTHORITATIVE PAY_ALLOWED_FROM_CREATED}"
    and "(\<forall>k \<in> set (amount_constraints c). ac_command k = cmd \<longrightarrow> constraint_holds (ac_constraint k) a n) \<longleftrightarrow>
      \<not> dec_le n (Dec False 0 0) \<and> (cmd = PAY \<longrightarrow> dec_eq n (total_amount a))"
proof -
  let ?d = "snd (hd ORDER_CORRECTNESS_CONTRACT_DEFINITIONS)"
  have "((''order.correctness'', 0), ?d) \<in> set (rg_editions AUTHORITATIVE)"
    by (simp add: AUTHORITATIVE_def ORDER_CORRECTNESS_CONTRACT_DEFINITIONS_def)
  from edition_materializes [OF authoritative_coherent this] assms
  have c: "next_sequence_increment c = cd_next_sequence_increment ?d" "normalization_quantum c = cd_normalization_quantum ?d"
    "event_types c = cd_event_types ?d" "allowed_transitions c = map (transition_of AUTHORITATIVE) (cd_transition_rule_ids ?d)"
    "amount_constraints c = map (amount_of AUTHORITATIVE) (cd_amount_rule_ids ?d)"
    unfolding ORDER_CORRECTNESS_CONTRACT_V0_def by auto
  note defs = ORDER_CORRECTNESS_CONTRACT_DEFINITIONS_def transition_of_def amount_of_def Let_def AUTHORITATIVE_def
    ALLOWED_TRANSITION_DEFINITIONS_def COMMAND_AMOUNT_CONSTRAINT_DEFINITIONS_def MONEY_QUANT_def
  show "next_sequence_increment c = 1" "normalization_quantum c = MONEY_QUANT" "event_types c = {EV_CREATED, EV_PAID}"
    unfolding c by (simp_all add: ORDER_CORRECTNESS_CONTRACT_DEFINITIONS_def MONEY_QUANT_def)
  show s: "set (allowed_transitions c) = {transition_of AUTHORITATIVE CREATE_ALLOWED_FROM_INIT, transition_of AUTHORITATIVE PAY_ALLOWED_FROM_CREATED}"
    unfolding c by (simp add: ORDER_CORRECTNESS_CONTRACT_DEFINITIONS_def)
  have "at_command (transition_of AUTHORITATIVE CREATE_ALLOWED_FROM_INIT) = CREATE" "at_command (transition_of AUTHORITATIVE PAY_ALLOWED_FROM_CREATED) = PAY"
    "predecessor_status (transition_of AUTHORITATIVE CREATE_ALLOWED_FROM_INIT) = INIT"
    "predecessor_status (transition_of AUTHORITATIVE PAY_ALLOWED_FROM_CREATED) = CREATED"
    by (simp_all add: defs)
  then show "edge c cmd st t \<longleftrightarrow> (cmd, st) = (CREATE, INIT) \<and> t = transition_of AUTHORITATIVE CREATE_ALLOWED_FROM_INIT
      \<or> (cmd, st) = (PAY, CREATED) \<and> t = transition_of AUTHORITATIVE PAY_ALLOWED_FROM_CREATED"
    by (auto simp: edge_def s)
  show "(\<forall>k \<in> set (amount_constraints c). ac_command k = cmd \<longrightarrow> constraint_holds (ac_constraint k) a n) \<longleftrightarrow>
      \<not> dec_le n (Dec False 0 0) \<and> (cmd = PAY \<longrightarrow> dec_eq n (total_amount a))"
    unfolding c by (cases cmd) (auto simp: defs)
qed

lemma v0_transitions:
  "candidate_event_type (transition_of AUTHORITATIVE CREATE_ALLOWED_FROM_INIT) = EV_CREATED"
  "resulting_status (transition_of AUTHORITATIVE CREATE_ALLOWED_FROM_INIT) = CREATED"
  "predecessor_status (transition_of AUTHORITATIVE CREATE_ALLOWED_FROM_INIT) = INIT"
  "candidate_event_type (transition_of AUTHORITATIVE PAY_ALLOWED_FROM_CREATED) = EV_PAID"
  "resulting_status (transition_of AUTHORITATIVE PAY_ALLOWED_FROM_CREATED) = PAID"
  "predecessor_status (transition_of AUTHORITATIVE PAY_ALLOWED_FROM_CREATED) = CREATED"
  by (simp_all add: transition_of_def Let_def AUTHORITATIVE_def ALLOWED_TRANSITION_DEFINITIONS_def)

lemma dec_le_zero: "dec_le n (Dec False 0 0) \<longleftrightarrow> dec_le n (Dec False 0 (- 2))"
proof -
  have p: "\<not> (10::int) ^ k \<le> 0" for k by (simp add: not_le)
  show ?thesis by (cases n) (auto simp: dec_scaled_def mult_le_0_iff p split: if_splits)
qed

lemma ensure_positive_iff:
  assumes "ORDER_CORRECTNESS_CONTRACT_V0 = Inr c"
  shows "ensure_positive_money (MDecimal amt) = Inr n \<longleftrightarrow> contract_amount c amt = Inr n \<and> \<not> dec_le n (Dec False 0 0)"
proof -
  have "contract_amount c amt = normalize_money (MDecimal amt)"
    by (cases "rounding_mode c") (simp add: contract_amount_def normalize_money_def v0_contract(2) [OF assms])
  then show ?thesis by (auto simp: ensure_positive_money_def res_simps dec_le_zero split: if_splits)
qed

lemma contract_admits:
  assumes c: "ORDER_CORRECTNESS_CONTRACT_V0 = Inr c" and inv: "agg_inv a"
  shows "(\<exists>ev. aggregate_command cmd a eid now rid amt = Inr ev)
    \<longleftrightarrow> \<not> py_blank rid \<and> (\<exists>n. contract_amount c amt = Inr n \<and> command_admitted c cmd a n)"
proof -
  have "(\<exists>l. life_step cmd n (life_of a) = Some l) \<longleftrightarrow> (\<exists>t. edge c cmd (status a) t) \<and> (cmd = PAY \<longrightarrow> dec_eq n (total_amount a))"
    if "ensure_positive_money (MDecimal amt) = Inr n" for n
    using inv ensure_positive_canonical [OF that]
    by (cases cmd; cases "status a") (auto simp: v0_contract(4) [OF c] dec_eq_canonical)
  with command_refines_life [OF inv, of cmd eid now rid amt] ensure_positive_iff [OF c, of amt] show ?thesis
    unfolding command_admitted_def v0_contract(6) [OF c] by blast
qed

lemma contract_candidate:
  assumes c: "ORDER_CORRECTNESS_CONTRACT_V0 = Inr c" and inv: "agg_inv a" and ev: "aggregate_command cmd a eid now rid amt = Inr ev"
  shows "\<exists>t a'. edge c cmd (status a) t \<and> ev_event_type ev = candidate_event_type t \<and> contract_amount c amt = Inr (ev_amount ev)
    \<and> ev_sequence ev = current_version a + next_sequence_increment c \<and> ev_proof ev = proof_of a
    \<and> aggregate_apply a ev = Inr a' \<and> status a' = resulting_status t
    \<and> current_version a' = ev_sequence ev \<and> last_event_id a' = Some (ev_event_id ev)"
proof -
  from command_candidate(1) [OF ev inv] obtain a' where a': "aggregate_apply a ev = Inr a'"
    "status a' = (case ev_event_type ev of EV_CREATED \<Rightarrow> CREATED | EV_PAID \<Rightarrow> PAID)" by (rule legal_apply [OF _ inv])
  from ev inv have "ensure_positive_money (MDecimal amt) = Inr (ev_amount ev)" and f: "ev_sequence ev = current_version a + 1"
    "ev_proof ev = proof_of a" "(cmd, status a, ev_event_type ev) \<in> {(CREATE, INIT, EV_CREATED), (PAY, CREATED, EV_PAID)}"
    by (cases cmd; auto dest!: aggregate_create_event aggregate_pay_event)+
  then have "contract_amount c amt = Inr (ev_amount ev)" using ensure_positive_iff [OF c] by blast
  with f a' aggregate_apply_fields [OF a'(1)] show ?thesis by (auto simp: v0_contract(1,4) [OF c] v0_transitions)
qed

section \<open>Properties\<close>

text \<open>
  C33: Checked registries materialise. For any registries that pass the coherence check of the module,
  every registered edition materialises without an exception, passes its own structural check, and
  holds exactly the rules, transitions and amount constraints that the edition selects, in order.
\<close>

theorem checked_editions_materialize:
  assumes "validate_authoritative_definitions R = Inr ()" and "distinct (map fst (rg_editions R))"
    and "((cid, v), d) \<in> set (rg_editions R)"
  shows "\<exists>c. from_identity R cid v = Inr c \<and> validate_structure c = Inr () \<and> (contract_id c, contract_version c) = (cid, v)
    \<and> map cr_rule_id (rules c) = cd_rule_ids d \<and> map legality_rule_id (allowed_transitions c) = cd_transition_rule_ids d
    \<and> map ac_rule_id (amount_constraints c) = cd_amount_rule_ids d"
proof -
  note c = edition_materializes [OF assms]
  moreover have "map cr_rule_id (map (rule_of R) xs) = xs" "map legality_rule_id (map (transition_of R) xs) = xs"
    "map ac_rule_id (map (amount_of R) xs) = xs" for xs
    by (simp_all add: rule_of_def transition_of_def amount_of_def Let_def map_idI)
  moreover have "validate_structure x = Inr ()" if "from_identity R cid v = Inr x" for x
    using that by (auto simp: from_identity_def bind_res_eq_Inr Let_def split: option.splits)
  ultimately show ?thesis by (simp del: map_map list.map_comp)
qed

theorem checked_editions_materialize_witness:
  "\<exists>c. ORDER_CORRECTNESS_CONTRACT_V0 = Inr c \<and> map cr_rule_id (rules c) = known_rule_ids"
proof -
  let ?d = "snd (hd ORDER_CORRECTNESS_CONTRACT_DEFINITIONS)"
  have "((''order.correctness'', 0), ?d) \<in> set (rg_editions AUTHORITATIVE)"
    by (simp add: AUTHORITATIVE_def ORDER_CORRECTNESS_CONTRACT_DEFINITIONS_def)
  from checked_editions_materialize [OF authoritative_coherent this] obtain c where
    "ORDER_CORRECTNESS_CONTRACT_V0 = Inr c" "map cr_rule_id (rules c) = cd_rule_ids ?d"
    by (auto simp: ORDER_CORRECTNESS_CONTRACT_V0_def)
  moreover have "cd_rule_ids ?d = known_rule_ids" by (simp add: ORDER_CORRECTNESS_CONTRACT_DEFINITIONS_def known_rule_ids_def)
  ultimately show ?thesis by (metis (no_types))
qed

text \<open>
  C11: The code implements its contract. Edition 0 of the order correctness contract materialises, and
  an aggregate produces a candidate for a command exactly when the request identity is not blank, the
  amount normalises by the declared quantum and rounding, the declared graph has an edge for the
  command and the status, and every declared amount constraint of the command holds. The candidate has
  the declared event type, the normalised amount, the declared next sequence and the claim derived
  from the aggregate, and applying it leads to the declared status with the new history head. The
  full-proof validator passes a candidate exactly when its sequence is the declared next one, its claim
  matches the accepted context, and its event type is declared and legal by the graph.
\<close>

theorem contract_parity:
  assumes "agg_inv a"
  shows "\<exists>c. ORDER_CORRECTNESS_CONTRACT_V0 = Inr c
    \<and> ((\<exists>ev. aggregate_command cmd a eid now rid amt = Inr ev)
        \<longleftrightarrow> \<not> py_blank rid \<and> (\<exists>n. contract_amount c amt = Inr n \<and> command_admitted c cmd a n))
    \<and> (\<forall>ev. aggregate_command cmd a eid now rid amt = Inr ev \<longrightarrow> (\<exists>t a'. edge c cmd (status a) t
        \<and> ev_event_type ev = candidate_event_type t \<and> contract_amount c amt = Inr (ev_amount ev)
        \<and> ev_sequence ev = current_version a + next_sequence_increment c \<and> ev_proof ev = proof_of a
        \<and> aggregate_apply a ev = Inr a' \<and> status a' = resulting_status t
        \<and> current_version a' = ev_sequence ev \<and> last_event_id a' = Some (ev_event_id ev)))
    \<and> (vr_verdict (FullProof_validate e x) = PASSED \<longleftrightarrow>
        ev_sequence e = actual_prev_version x + next_sequence_increment c
        \<and> ev_proof e = \<lparr>prev_status = actual_prev_status x, prev_version = actual_prev_version x,
             prev_event_id = map_option ev_event_id (actual_prev_event x)\<rparr>
        \<and> ev_event_type e \<in> event_types c
        \<and> (\<exists>t \<in> set (allowed_transitions c). candidate_event_type t = ev_event_type e \<and> predecessor_status t = actual_prev_status x))"
proof -
  obtain c where c: "ORDER_CORRECTNESS_CONTRACT_V0 = Inr c"
    using edition_materializes [OF authoritative_coherent, of "''order.correctness''" 0 "snd (hd ORDER_CORRECTNESS_CONTRACT_DEFINITIONS)"]
    by (simp add: ORDER_CORRECTNESS_CONTRACT_V0_def AUTHORITATIVE_def ORDER_CORRECTNESS_CONTRACT_DEFINITIONS_def)
  note v0 = v0_contract [OF c]
  have "vr_verdict (FullProof_validate e x) = PASSED \<longleftrightarrow> (\<forall>r \<in> set (transition_rules e x). snd r)"
    using branches_cases(2) [of e x] violated_rule_None [of e x] by (simp add: FullProof_validate_def)
  then have "vr_verdict (FullProof_validate e x) = PASSED \<longleftrightarrow>
        ev_sequence e = actual_prev_version x + next_sequence_increment c
        \<and> ev_proof e = \<lparr>prev_status = actual_prev_status x, prev_version = actual_prev_version x,
             prev_event_id = map_option ev_event_id (actual_prev_event x)\<rparr>
        \<and> ev_event_type e \<in> event_types c
        \<and> (\<exists>t \<in> set (allowed_transitions c). candidate_event_type t = ev_event_type e \<and> predecessor_status t = actual_prev_status x)"
    by (cases "ev_proof e"; cases "ev_event_type e") (auto simp: transition_rules_def v0(1,3,5) v0_transitions)
  then show ?thesis
    by (intro exI [of _ c] conjI allI impI c contract_admits [OF c assms] contract_candidate [OF c assms])
qed

theorem contract_parity_witness:
  "\<exists>c. ORDER_CORRECTNESS_CONTRACT_V0 = Inr c \<and> (\<exists>ev. aggregate_command PAY sample_aggregate ''e2'' 7 ''r2'' (Dec False 1000 (- 2)) = Inr ev)
     \<and> command_admitted c PAY sample_aggregate (Dec False 1000 (- 2))"
proof -
  have inv: "agg_inv sample_aggregate" by (simp add: sample_defs money_eval py_blank_iff py_isspace_def)
  have p: "ensure_positive_money (MDecimal (Dec False 1000 (- 2))) = Inr (Dec False 1000 (- 2))" by simp
  have ev: "\<exists>ev. aggregate_command PAY sample_aggregate ''e2'' 7 ''r2'' (Dec False 1000 (- 2)) = Inr ev"
    by (simp add: sample_defs aggregate_pay_def require_non_empty_request_id_def py_blank_iff py_isspace_def OrderEvent_create_def
        p dec_scaled_def require_def)
  from contract_parity [OF inv, of PAY "''e2''" 7 "''r2''" "Dec False 1000 (- 2)"] ev obtain c n where
    c: "ORDER_CORRECTNESS_CONTRACT_V0 = Inr c" "contract_amount c (Dec False 1000 (- 2)) = Inr n" "command_admitted c PAY sample_aggregate n"
    by blast
  moreover have "contract_amount c (Dec False 1000 (- 2)) = Inr (Dec False 1000 (- 2))" using p ensure_positive_iff [OF c(1)] by blast
  with c(2) have "n = Dec False 1000 (- 2)" by simp
  ultimately show ?thesis using ev by blast
qed

end
