(* ===== verification/Rate_Budget.thy ===== *)
theory Rate_Budget
  imports Prelude
begin

text \<open>
  Governed replanning of a rate budget (experiments/validation_blocked_semantic_replanning): proposals,
  the independent contract, validation, the owner of the accepted state (model.py) and the planner
  that forms a revised proposal from a rejection (planner.py). Both enumerations of the target and the
  action have one member. The exact-type checks are settled by the types of the model; the identity
  test of the planner on the retained proposal is a constructor of its argument.
\<close>

section \<open>Values\<close>

record RateUnitsPerSecond =
  rate_value :: int

definition RateUnitsPerSecond_init :: "RateUnitsPerSecond \<Rightarrow> RateUnitsPerSecond res" where
  "RateUnitsPerSecond_init self =
     (if rate_value self < 0 then Inl (ValueError ''value must be nonnegative'') else Inr self)"

datatype ConfigurationAction = SET_RATE_BUDGET

datatype RateBudgetTarget = FIXTURE_SERVICE

definition require_nonblank :: "string \<Rightarrow> string \<Rightarrow> unit res" where
  "require_nonblank v name = (if py_blank v then Inl (ValueError (name @ '' must be nonblank'')) else Inr ())"

record RateBudgetProposal =
  rp_request_id :: string
  rp_action :: ConfigurationAction
  rp_target :: RateBudgetTarget
  rp_proposed_rate :: RateUnitsPerSecond

definition RateBudgetProposal_init :: "RateBudgetProposal \<Rightarrow> RateBudgetProposal res" where
  "RateBudgetProposal_init self = bind_res (require_nonblank (rp_request_id self) ''request_id'') (\<lambda>_. Inr self)"

record RateBudgetContract =
  rb_contract_id :: string
  rb_contract_version :: int
  rb_target :: RateBudgetTarget
  rb_maximum_rate :: RateUnitsPerSecond

definition RateBudgetContract_init :: "RateBudgetContract \<Rightarrow> RateBudgetContract res" where
  "RateBudgetContract_init self =
     bind_res (require_nonblank (rb_contract_id self) ''contract_id'') (\<lambda>_.
     if rb_contract_version self \<le> 0 then Inl (ValueError ''contract_version must be positive'') else Inr self)"

record AcceptedRateBudgetState =
  as_target :: RateBudgetTarget
  as_configured_rate :: RateUnitsPerSecond

datatype RateVerdict = RATE_PASSED | RATE_FAILED

datatype RateEnforcement = RATE_ALLOW | RATE_BLOCK

datatype RateBudgetRuleId = RATE_BUDGET_WITHIN_MAXIMUM

section \<open>Validation\<close>

text \<open>The two carriers of \<open>validate_rate_budget\<close>, each with the proposal and the contract.\<close>

record rate_evidence =
  re_proposal :: RateBudgetProposal
  re_contract :: RateBudgetContract

datatype RateDecision = RateBudgetValidationAllowed rate_evidence | RateBudgetRejectionEvidence rate_evidence

fun decision_verdict :: "RateDecision \<Rightarrow> RateVerdict" where
  "decision_verdict (RateBudgetValidationAllowed e) = RATE_PASSED"
| "decision_verdict (RateBudgetRejectionEvidence e) = RATE_FAILED"

fun decision_enforcement :: "RateDecision \<Rightarrow> RateEnforcement" where
  "decision_enforcement (RateBudgetValidationAllowed e) = RATE_ALLOW"
| "decision_enforcement (RateBudgetRejectionEvidence e) = RATE_BLOCK"

definition rejection_rule_id :: "rate_evidence \<Rightarrow> RateBudgetRuleId" where
  "rejection_rule_id e = RATE_BUDGET_WITHIN_MAXIMUM"

definition validate_rate_budget :: "RateBudgetProposal \<Rightarrow> RateBudgetContract \<Rightarrow> RateDecision res" where
  "validate_rate_budget proposal contract =
     (if rp_target proposal \<noteq> rb_target contract then Inl (ValueError ''proposal target must match contract target'')
      else if rate_value (rp_proposed_rate proposal) \<le> rate_value (rb_maximum_rate contract)
      then Inr (RateBudgetValidationAllowed \<lparr>re_proposal = proposal, re_contract = contract\<rparr>)
      else Inr (RateBudgetRejectionEvidence \<lparr>re_proposal = proposal, re_contract = contract\<rparr>))"

section \<open>The owner of the accepted state\<close>

record AcceptedSubmission =
  su_decision :: rate_evidence
  su_accepted_state :: AcceptedRateBudgetState

definition AcceptedSubmission_init :: "AcceptedSubmission \<Rightarrow> AcceptedSubmission res" where
  "AcceptedSubmission_init self =
     (let proposal = re_proposal (su_decision self)
      in if as_target (su_accepted_state self) \<noteq> rp_target proposal
            \<or> as_configured_rate (su_accepted_state self) \<noteq> rp_proposed_rate proposal
         then Inl (ValueError ''accepted state must match the evaluated proposal'') else Inr self)"

datatype Submission = Accepted_submission AcceptedSubmission | Blocked_submission rate_evidence

record GovernedRateBudgetFixture =
  fx_contract :: RateBudgetContract
  fx_accepted_state :: AcceptedRateBudgetState

definition GovernedRateBudgetFixture_init ::
  "RateBudgetContract \<Rightarrow> AcceptedRateBudgetState \<Rightarrow> GovernedRateBudgetFixture res" where
  "GovernedRateBudgetFixture_init contract initial_state =
     (if as_target initial_state \<noteq> rb_target contract
      then Inl (ValueError ''initial state target must match contract target'')
      else if rate_value (as_configured_rate initial_state) > rate_value (rb_maximum_rate contract)
      then Inl (ValueError ''initial configured rate must not exceed maximum'')
      else Inr \<lparr>fx_contract = contract, fx_accepted_state = initial_state\<rparr>)"

definition accepted_state :: "GovernedRateBudgetFixture \<Rightarrow> AcceptedRateBudgetState" where
  "accepted_state self = fx_accepted_state self"

definition submit :: "GovernedRateBudgetFixture \<Rightarrow> RateBudgetProposal \<Rightarrow> GovernedRateBudgetFixture \<times> Submission res" where
  "submit self proposal =
     (case validate_rate_budget proposal (fx_contract self) of
        Inl x \<Rightarrow> (self, Inl x)
      | Inr (RateBudgetRejectionEvidence decision) \<Rightarrow> (self, Inr (Blocked_submission decision))
      | Inr (RateBudgetValidationAllowed decision) \<Rightarrow>
          (let next_state = \<lparr>as_target = rp_target (re_proposal decision), as_configured_rate = rp_proposed_rate (re_proposal decision)\<rparr>
           in case AcceptedSubmission_init \<lparr>su_decision = decision, su_accepted_state = next_state\<rparr> of
                Inl x \<Rightarrow> (self, Inl x)
              | Inr result \<Rightarrow> (self\<lparr>fx_accepted_state := next_state\<rparr>, Inr (Accepted_submission result))))"

section \<open>The planner\<close>

datatype RateBudgetRepairPolicy = USE_OBSERVED_MAXIMUM | REDUCE_OBSERVED_RATE_BY_ONE_THIRD

text \<open>The proposal that the caller retained: the very object of the rejection, or another one.\<close>

datatype retained_proposal = The_rejected_object | Another_object RateBudgetProposal

definition plan_rate_budget_repair ::
  "rate_evidence \<Rightarrow> retained_proposal \<Rightarrow> string \<Rightarrow> RateBudgetRepairPolicy \<Rightarrow> RateBudgetProposal res" where
  "plan_rate_budget_repair evidence original_proposal new_request_id policy =
     (case original_proposal of
        Another_object p \<Rightarrow> Inl (ValueError ''original_proposal must be the exact rejected proposal'')
      | The_rejected_object \<Rightarrow>
          (let original_rate = rp_proposed_rate (re_proposal evidence);
               maximum_rate = rb_maximum_rate (re_contract evidence)
           in if rate_value original_rate \<le> rate_value maximum_rate
              then Inl (ValueError ''rejection proposed rate must exceed its retained maximum'')
              else if new_request_id = rp_request_id (re_proposal evidence)
              then Inl (ValueError ''new_request_id must differ from the original request ID'')
              else bind_res (case policy of
                     USE_OBSERVED_MAXIMUM \<Rightarrow> Inr maximum_rate
                   | REDUCE_OBSERVED_RATE_BY_ONE_THIRD \<Rightarrow> RateUnitsPerSecond_init \<lparr>rate_value = (2 * rate_value original_rate) div 3\<rparr>)
                (\<lambda>revised_rate.
                   if revised_rate = original_rate then Inl (ValueError ''repair must change the proposed rate'')
                   else RateBudgetProposal_init \<lparr>rp_request_id = new_request_id, rp_action = rp_action (re_proposal evidence),
                     rp_target = rp_target (re_proposal evidence), rp_proposed_rate = revised_rate\<rparr>)))"

section \<open>Submissions\<close>

lemma one_target: "(t :: RateBudgetTarget) = u"
  by (cases t; cases u) simp

lemma validated:
  "validate_rate_budget p c = Inr (if rate_value (rp_proposed_rate p) \<le> rate_value (rb_maximum_rate c)
     then RateBudgetValidationAllowed \<lparr>re_proposal = p, re_contract = c\<rparr> else RateBudgetRejectionEvidence \<lparr>re_proposal = p, re_contract = c\<rparr>)"
  using one_target [of "rp_target p"] by (simp add: validate_rate_budget_def)

lemma submitted:
  "submit f p = (if rate_value (rp_proposed_rate p) \<le> rate_value (rb_maximum_rate (fx_contract f))
     then (f\<lparr>fx_accepted_state := \<lparr>as_target = rp_target p, as_configured_rate = rp_proposed_rate p\<rparr>\<rparr>,
       Inr (Accepted_submission \<lparr>su_decision = \<lparr>re_proposal = p, re_contract = fx_contract f\<rparr>,
         su_accepted_state = \<lparr>as_target = rp_target p, as_configured_rate = rp_proposed_rate p\<rparr>\<rparr>))
     else (f, Inr (Blocked_submission \<lparr>re_proposal = p, re_contract = fx_contract f\<rparr>)))"
  by (simp add: submit_def validated AcceptedSubmission_init_def Let_def)

text \<open>Values that the constructors let through.\<close>

abbreviation rate_ok :: "RateUnitsPerSecond \<Rightarrow> bool" where
  "rate_ok r \<equiv> RateUnitsPerSecond_init r = Inr r"

lemma rate_ok_iff: "rate_ok r \<longleftrightarrow> 0 \<le> rate_value r"
  by (auto simp: RateUnitsPerSecond_init_def split: if_splits)

lemma reduced_rate: "0 < (r::int) \<Longrightarrow> 0 \<le> 2 * r div 3 \<and> 2 * r div 3 < r"
  by presburger

lemma repaired:
  assumes "rate_value (rb_maximum_rate (re_contract e)) < rate_value (rp_proposed_rate (re_proposal e))"
    and "rate_ok (rb_maximum_rate (re_contract e))" and "new_id \<noteq> rp_request_id (re_proposal e)" and "\<not> py_blank new_id"
  shows "plan_rate_budget_repair e The_rejected_object new_id policy = Inr \<lparr>rp_request_id = new_id, rp_action = rp_action (re_proposal e),
     rp_target = rp_target (re_proposal e), rp_proposed_rate = (case policy of USE_OBSERVED_MAXIMUM \<Rightarrow> rb_maximum_rate (re_contract e)
       | REDUCE_OBSERVED_RATE_BY_ONE_THIRD \<Rightarrow> \<lparr>rate_value = 2 * rate_value (rp_proposed_rate (re_proposal e)) div 3\<rparr>)\<rparr>"
proof -
  from assms have "0 < rate_value (rp_proposed_rate (re_proposal e))" by (simp add: rate_ok_iff)
  note r = reduced_rate [OF this]
  then have "rp_proposed_rate (re_proposal e) \<noteq> \<lparr>rate_value = 2 * rate_value (rp_proposed_rate (re_proposal e)) div 3\<rparr>"
    by (cases "rp_proposed_rate (re_proposal e)") auto
  with assms r show ?thesis
    by (cases policy) (auto simp: plan_rate_budget_repair_def Let_def RateUnitsPerSecond_init_def RateBudgetProposal_init_def require_nonblank_def)
qed

section \<open>Histories of the owner\<close>

text \<open>The fixtures that submissions, by whomever, lead to.\<close>

inductive budget_reach :: "GovernedRateBudgetFixture \<Rightarrow> GovernedRateBudgetFixture \<Rightarrow> bool" for f0 where
  initial: "budget_reach f0 f0"
| submission: "budget_reach f0 f \<Longrightarrow> submit f p = (f', r) \<Longrightarrow> budget_reach f0 f'"

lemma budget_reach_bounded:
  assumes "budget_reach f0 f"
    and "rate_value (as_configured_rate (fx_accepted_state f0)) \<le> rate_value (rb_maximum_rate (fx_contract f0))"
  shows "fx_contract f = fx_contract f0
    \<and> rate_value (as_configured_rate (fx_accepted_state f)) \<le> rate_value (rb_maximum_rate (fx_contract f0))"
  using assms by (induction rule: budget_reach.induct) (auto simp: submitted split: if_splits)

text \<open>C34: from a fixture that the constructor lets through, after any sequence of submissions, the owner still
  holds the contract of the setup and a configured rate within its maximum; one more submission is
  answered without an exception, a blocked one leaves the fixture as it was and carries the proposal and
  the contract that were compared, an accepted one installs the rate that was proposed and nothing else.\<close>

theorem governed_rate_within_maximum:
  assumes "GovernedRateBudgetFixture_init contract initial_state = Inr f0" and "budget_reach f0 f"
  shows "fx_contract f = contract
    \<and> rate_value (as_configured_rate (Rate_Budget.accepted_state f)) \<le> rate_value (rb_maximum_rate contract)
    \<and> (case submit f p of
       (f', Inl x) \<Rightarrow> False
     | (f', Inr (Blocked_submission e)) \<Rightarrow> f' = f \<and> re_proposal e = p \<and> re_contract e = contract
         \<and> rate_value (rp_proposed_rate p) > rate_value (rb_maximum_rate contract)
     | (f', Inr (Accepted_submission s)) \<Rightarrow> Rate_Budget.accepted_state f' = su_accepted_state s
         \<and> as_configured_rate (su_accepted_state s) = rp_proposed_rate p \<and> fx_contract f' = contract)"
proof -
  from assms(1) have "fx_contract f0 = contract"
    and "rate_value (as_configured_rate (fx_accepted_state f0)) \<le> rate_value (rb_maximum_rate (fx_contract f0))"
    by (auto simp: GovernedRateBudgetFixture_init_def split: if_splits)
  with budget_reach_bounded [OF assms(2)] show ?thesis
    by (auto simp: submitted accepted_state_def)
qed

definition sample_contract :: RateBudgetContract where
  "sample_contract = \<lparr>rb_contract_id = ''rate-budget'', rb_contract_version = 1, rb_target = FIXTURE_SERVICE,
     rb_maximum_rate = \<lparr>rate_value = 100\<rparr>\<rparr>"

definition sample_fixture :: GovernedRateBudgetFixture where
  "sample_fixture = \<lparr>fx_contract = sample_contract,
     fx_accepted_state = \<lparr>as_target = FIXTURE_SERVICE, as_configured_rate = \<lparr>rate_value = 80\<rparr>\<rparr>\<rparr>"

definition sample_proposal :: "int \<Rightarrow> RateBudgetProposal" where
  "sample_proposal r = \<lparr>rp_request_id = ''request'', rp_action = SET_RATE_BUDGET, rp_target = FIXTURE_SERVICE,
     rp_proposed_rate = \<lparr>rate_value = r\<rparr>\<rparr>"

lemmas sample_rate_defs = sample_contract_def sample_fixture_def sample_proposal_def

theorem governed_rate_within_maximum_witness:
  "fx_contract (fst (submit sample_fixture (sample_proposal 90))) = sample_contract
     \<and> rate_value (as_configured_rate (Rate_Budget.accepted_state (fst (submit sample_fixture (sample_proposal 90))))) \<le> 100"
proof -
  have "GovernedRateBudgetFixture_init sample_contract (fx_accepted_state sample_fixture) = Inr sample_fixture"
    by (simp add: GovernedRateBudgetFixture_init_def sample_rate_defs)
  moreover have "budget_reach sample_fixture (fst (submit sample_fixture (sample_proposal 90)))"
    by (rule budget_reach.submission [OF budget_reach.initial]) (rule surjective_pairing)
  ultimately show ?thesis
    using governed_rate_within_maximum [of sample_contract _ sample_fixture "fst (submit sample_fixture (sample_proposal 90))"]
    by (fastforce simp: sample_contract_def)
qed

section \<open>One repair\<close>

text \<open>The policy of one third meets the maximum exactly when the rejected rate is not too far beyond it.\<close>

lemma reduction_suffices: "2 * r div 3 \<le> m \<longleftrightarrow> 2 * r \<le> 3 * m + (2::int)"
  by presburger

lemma blocked_submission:
  assumes "submit f p = (f1, Inr (Blocked_submission e))"
  shows "f1 = f" and "e = \<lparr>re_proposal = p, re_contract = fx_contract f\<rparr>"
    and "rate_value (rb_maximum_rate (fx_contract f)) < rate_value (rp_proposed_rate p)"
  using assms by (auto simp: submitted split: if_splits)

lemma repair_other_object:
  "plan_rate_budget_repair e (Another_object p) new_id policy = Inl (ValueError ''original_proposal must be the exact rejected proposal'')"
  by (simp add: plan_rate_budget_repair_def)

lemma repair_refused:
  assumes "rate_value (rb_maximum_rate (re_contract e)) < rate_value (rp_proposed_rate (re_proposal e))"
    and "rate_ok (rb_maximum_rate (re_contract e))"
  shows "plan_rate_budget_repair e The_rejected_object (rp_request_id (re_proposal e)) policy
      = Inl (ValueError ''new_request_id must differ from the original request ID'')"
    and "new_id \<noteq> rp_request_id (re_proposal e) \<Longrightarrow> py_blank new_id \<Longrightarrow>
      plan_rate_budget_repair e The_rejected_object new_id policy = Inl (ValueError ''request_id must be nonblank'')"
proof -
  from assms have "0 < rate_value (rp_proposed_rate (re_proposal e))" by (simp add: rate_ok_iff)
  note r = reduced_rate [OF this]
  then have "rp_proposed_rate (re_proposal e) \<noteq> \<lparr>rate_value = 2 * rate_value (rp_proposed_rate (re_proposal e)) div 3\<rparr>"
    by (cases "rp_proposed_rate (re_proposal e)") auto
  with assms r show "new_id \<noteq> rp_request_id (re_proposal e) \<Longrightarrow> py_blank new_id \<Longrightarrow>
      plan_rate_budget_repair e The_rejected_object new_id policy = Inl (ValueError ''request_id must be nonblank'')"
    by (cases policy) (auto simp: plan_rate_budget_repair_def Let_def RateUnitsPerSecond_init_def RateBudgetProposal_init_def require_nonblank_def)
qed (use assms in \<open>simp add: plan_rate_budget_repair_def Let_def\<close>)

text \<open>C35: one repair of one rejection, and its fresh judgement. For a submission that the owner blocked in any state it
  can reach, the planner refuses another retained object, a reused request identity and a blank one, each
  with its ValueError; for every other identity it forms a proposal with the action and the target of the
  rejected one and a lower rate that is not negative. When that proposal is submitted, the policy of the
  observed maximum is always accepted, at exactly the maximum; the policy of one third is accepted, at
  two thirds of the rejected rate, exactly when twice the rejected rate is at most three times the maximum
  plus two, and is otherwise blocked again with the owner unchanged: a repair is not a correction until
  it is judged.\<close>

theorem repair_judged_afresh:
  assumes "GovernedRateBudgetFixture_init contract initial_state = Inr f0" and "budget_reach f0 f"
    and "rate_ok (rb_maximum_rate contract)" and "submit f p = (f1, Inr (Blocked_submission e))"
  shows "plan_rate_budget_repair e (Another_object p') new_id policy
      = Inl (ValueError ''original_proposal must be the exact rejected proposal'')
    \<and> (case plan_rate_budget_repair e The_rejected_object new_id policy of
         Inl x \<Rightarrow> if new_id = rp_request_id p then x = ValueError ''new_request_id must differ from the original request ID''
                  else py_blank new_id \<and> x = ValueError ''request_id must be nonblank''
       | Inr q \<Rightarrow> new_id \<noteq> rp_request_id p \<and> \<not> py_blank new_id
           \<and> rp_request_id q = new_id \<and> rp_action q = rp_action p \<and> rp_target q = rp_target p
           \<and> 0 \<le> rate_value (rp_proposed_rate q) \<and> rate_value (rp_proposed_rate q) < rate_value (rp_proposed_rate p)
           \<and> (if policy = USE_OBSERVED_MAXIMUM
              then Rate_Budget.accepted_state (fst (submit f1 q)) = \<lparr>as_target = rp_target p, as_configured_rate = rb_maximum_rate contract\<rparr>
              else if 2 * rate_value (rp_proposed_rate p) \<le> 3 * rate_value (rb_maximum_rate contract) + 2
              then Rate_Budget.accepted_state (fst (submit f1 q))
                = \<lparr>as_target = rp_target p, as_configured_rate = \<lparr>rate_value = 2 * rate_value (rp_proposed_rate p) div 3\<rparr>\<rparr>
              else submit f1 q = (f, Inr (Blocked_submission \<lparr>re_proposal = q, re_contract = contract\<rparr>))))"
proof -
  from assms(1) have "fx_contract f0 = contract"
    and "rate_value (as_configured_rate (fx_accepted_state f0)) \<le> rate_value (rb_maximum_rate (fx_contract f0))"
    by (auto simp: GovernedRateBudgetFixture_init_def split: if_splits)
  with budget_reach_bounded [OF assms(2)] have c: "fx_contract f = contract" by simp
  note b = blocked_submission [OF assms(4), unfolded c]
  have over: "rate_value (rb_maximum_rate (re_contract e)) < rate_value (rp_proposed_rate (re_proposal e))"
    "rate_ok (rb_maximum_rate (re_contract e))" using b assms(3) by simp_all
  from over have "0 < rate_value (rp_proposed_rate p)" using b(2) by (simp add: rate_ok_iff)
  note r = reduced_rate [OF this]
  consider (reused) "new_id = rp_request_id p" | (blank) "new_id \<noteq> rp_request_id p" "py_blank new_id"
    | (fresh) "new_id \<noteq> rp_request_id p" "\<not> py_blank new_id" by blast
  then show ?thesis
  proof cases
    case reused
    then show ?thesis using repair_refused(1) [OF over, of policy] b(2) by (simp add: repair_other_object)
  next
    case blank
    then show ?thesis using repair_refused(2) [OF over, of new_id policy] b(2) by (simp add: repair_other_object)
  next
    case fresh
    with repaired [OF over, of new_id policy] b r over(2) reduction_suffices [of "rate_value (rp_proposed_rate p)"] c show ?thesis
      by (cases policy) (simp_all add: repair_other_object submitted accepted_state_def rate_ok_iff)
  qed
qed

text \<open>A rejection of 300 under a maximum of 100, repaired by a third to 200, is blocked again.\<close>

theorem repair_judged_afresh_witness:
  "\<exists>e q. submit sample_fixture (sample_proposal 300) = (sample_fixture, Inr (Blocked_submission e))
     \<and> plan_rate_budget_repair e The_rejected_object ''revised'' REDUCE_OBSERVED_RATE_BY_ONE_THIRD = Inr q
     \<and> rate_value (rp_proposed_rate q) < 300
     \<and> submit sample_fixture q = (sample_fixture, Inr (Blocked_submission \<lparr>re_proposal = q, re_contract = sample_contract\<rparr>))"
proof -
  let ?e = "\<lparr>re_proposal = sample_proposal 300, re_contract = sample_contract\<rparr>"
  have "GovernedRateBudgetFixture_init sample_contract (fx_accepted_state sample_fixture) = Inr sample_fixture"
    by (simp add: GovernedRateBudgetFixture_init_def sample_rate_defs)
  moreover have "rate_ok (rb_maximum_rate sample_contract)" by (simp add: rate_ok_iff sample_contract_def)
  moreover have run: "submit sample_fixture (sample_proposal 300) = (sample_fixture, Inr (Blocked_submission ?e))"
    by (simp add: submitted sample_rate_defs)
  ultimately have j: "case plan_rate_budget_repair ?e The_rejected_object ''revised'' REDUCE_OBSERVED_RATE_BY_ONE_THIRD of
      Inl x \<Rightarrow> py_blank ''revised''
    | Inr q \<Rightarrow> rate_value (rp_proposed_rate q) < 300
        \<and> submit sample_fixture q = (sample_fixture, Inr (Blocked_submission \<lparr>re_proposal = q, re_contract = sample_contract\<rparr>))"
    using repair_judged_afresh [OF _ budget_reach.initial, of sample_contract _ sample_fixture "sample_proposal 300" sample_fixture ?e
      _ "''revised''" REDUCE_OBSERVED_RATE_BY_ONE_THIRD]
    by (fastforce simp: sample_contract_def sample_proposal_def split: sum.splits)
  moreover have "\<not> py_blank ''revised''" by (simp add: py_blank_iff py_isspace_def)
  ultimately show ?thesis using run by (auto split: sum.splits)
qed

end
