(* ===== verification/Autonomous_Governance.thy ===== *)
theory Autonomous_Governance
  imports Invocation_Owner
begin

text \<open>
  Deterministic recovery under governance (experiments/deterministic_autonomous_governance): a planner
  that proposes a second invocation for every stale append (model.py) and an executor that lets a
  proposal through only where an independent assessment issued authority, over the invocation owner
  (executor.py). The exact-type checks are settled by the types of the model.
\<close>

section \<open>The planner\<close>

datatype RecoveryActionKind = ONE_FRESH_SAME_REQUEST_INVOCATION

text \<open>A live result is a result with the identity of its object, which the executor compares.\<close>

record live_result =
  lr_object :: nat
  lr_result :: PostgresWriteSideResult

record RecoveryProposal =
  rc_request_signature :: RequestSignature
  rc_source_result :: live_result
  rc_action :: RecoveryActionKind

definition plan_recovery :: "RequestSignature \<Rightarrow> live_result \<Rightarrow> RecoveryProposal option" where
  "plan_recovery request_signature result =
     (if wr_outcome (lr_result result) = OUT_ADMISSION_REJECTED
         \<and> wr_accepted_event (lr_result result) = None
         \<and> (case wr_admission_result (lr_result result) of None \<Rightarrow> False | Some a \<Rightarrow> ad_verdict a = STALE_WRITE)
      then Some \<lparr>rc_request_signature = request_signature, rc_source_result = result,
             rc_action = ONE_FRESH_SAME_REQUEST_INVOCATION\<rparr>
      else None)"

section \<open>The executor\<close>

text \<open>The owner that an executor retains is passed beside it, since its state changes.\<close>

record ControlledExecutor =
  ce_expected_signature :: RequestSignature
  ce_retained_a1_result :: live_result
  ce_reinvocation_assessment :: reinvocation_evaluation

text \<open>\<open>ControlledExecutionRefused\<close> is a \<open>RuntimeError\<close>.\<close>

abbreviation ControlledExecutionRefused :: "string \<Rightarrow> exc" where
  "ControlledExecutionRefused \<equiv> RuntimeError"

definition check_proposal :: "ControlledExecutor \<Rightarrow> RecoveryProposal \<Rightarrow> unit res" where
  "check_proposal self proposal =
     (if rc_action proposal \<noteq> ONE_FRESH_SAME_REQUEST_INVOCATION
      then Inl (ControlledExecutionRefused ''proposal action is unsupported by ControlledExecutor'')
      else if lr_object (rc_source_result proposal) \<noteq> lr_object (ce_retained_a1_result self)
      then Inl (ControlledExecutionRefused ''proposal source_result is not the retained live A1 result'')
      else if \<not> RequestSignature_eq (rc_request_signature proposal) (ce_expected_signature self)
      then Inl (ControlledExecutionRefused ''proposal request_signature does not equal expected_signature'')
      else case ce_reinvocation_assessment self of
             NoReinvocationAuthority _ _ \<Rightarrow>
               Inl (ControlledExecutionRefused ''independent Stage 4E assessment issued no authority'')
           | ReinvocationAuthorization sg \<Rightarrow>
               if \<not> RequestSignature_eq sg (ce_expected_signature self) \<or> \<not> RequestSignature_eq sg (rc_request_signature proposal)
               then Inl (ControlledExecutionRefused ''authorization request_signature does not match the complete expected and proposed request identity'')
               else Inr ())"

definition execute ::
  "ControlledExecutor \<Rightarrow> invocation_owner \<Rightarrow> pg_conn \<Rightarrow> RecoveryProposal \<Rightarrow> string \<Rightarrow> int
   \<Rightarrow> invocation_owner \<times> pg_conn \<times> PostgresWriteSideResult res" where
  "execute self owner c proposal new_event_id now_ms =
     (case check_proposal self proposal of
        Inl x \<Rightarrow> (owner, c, Inl x)
      | Inr _ \<Rightarrow> invoke_authorized_reinvocation owner c new_event_id now_ms)"

section \<open>Authority bounds the executor\<close>

text \<open>The three outcomes of an execution: refused by the executor, refused by the owner, or one call of
  the writer with the authority of the owner spent.\<close>

lemma execute_cases:
  assumes "execute self owner c proposal eid now = (owner', c', r)"
  obtains (refused) x where "owner' = owner" "c' = c" "r = Inl x"
  | (invoked) owner1 where "check_proposal self proposal = Inr ()" "enter_reinvocation owner = (owner1, Inr ())"
      "dispatch_retained_request owner1 c eid now = (c', r)"
      "owner' = (case r of Inl _ \<Rightarrow> owner1 | Inr p \<Rightarrow> publish_current_response_result owner1 p)"
proof (cases "check_proposal self proposal")
  case (Inl x)
  with assms have "owner' = owner" "c' = c" "r = Inl x" by (simp_all add: execute_def)
  then show ?thesis by (rule refused)
next
  case (Inr u)
  then have chk: "check_proposal self proposal = Inr ()" by simp
  obtain owner1 q where e: "enter_reinvocation owner = (owner1, q)" by force
  show ?thesis
  proof (cases q)
    case q: (Inl x)
    with e have "owner1 = owner" using enter_reinvocation_refuses by blast
    then have "execute self owner c proposal eid now = (owner, c, Inl x)"
      by (simp add: execute_def invoke_authorized_reinvocation_def chk e q)
    then show ?thesis using assms by (intro refused [of x]) simp_all
  next
    case q: (Inr v)
    obtain c1 r1 where d: "dispatch_retained_request owner1 c eid now = (c1, r1)" by force
    have "execute self owner c proposal eid now
        = ((case r1 of Inl _ \<Rightarrow> owner1 | Inr p \<Rightarrow> publish_current_response_result owner1 p), c1, r1)"
      by (cases r1) (simp_all add: execute_def invoke_authorized_reinvocation_def chk e q d)
    note r = this [unfolded assms prod.inject]
    show ?thesis by (rule invoked [OF chk, of owner1]) (use e q d r in auto)
  qed
qed

lemma entered:
  assumes "enter_reinvocation owner = (owner1, Inr ())"
  shows "iv_authority_spent owner1 \<and> iv_initial_result owner1 = iv_initial_result owner \<and> \<not> iv_authority_spent owner"
  using assms by (auto simp: enter_reinvocation_def clear_current_response_state_def
      split: sum.splits option.splits reinvocation_evaluation.splits if_splits)

lemma spent_refuses: "iv_authority_spent owner \<Longrightarrow> \<exists>x. enter_reinvocation owner = (owner, Inl x)"
  by (auto simp: enter_reinvocation_def split: sum.splits option.splits reinvocation_evaluation.splits)

lemma execute_spent: "iv_authority_spent owner \<Longrightarrow> \<exists>x. execute self owner c proposal eid now = (owner, c, Inl x)"
  using spent_refuses [of owner] by (auto simp: execute_def invoke_authorized_reinvocation_def split: sum.splits)

lemma reach_invoked:
  assumes "owner_reach S s0 s" and "os_callers s = []" and "uuid_in eid = Some eid" and "set vs \<subseteq> S"
    and "enter_reinvocation (os_owner s) = (owner1, Inr ())"
    and "dispatch_retained_request owner1 ((os_conn s)\<lparr>schedule := vs\<rparr>) eid now = (c', r)"
  shows "owner_reach S s0 (s\<lparr>os_owner := (case r of Inl _ \<Rightarrow> owner1 | Inr p \<Rightarrow> publish_current_response_result owner1 p),
    os_conn := c', os_calls := Reinvocation # os_calls s\<rparr>)"
proof -
  let ?s1 = "s\<lparr>os_owner := owner1, os_callers := [Calling Reinvocation]\<rparr>"
  have s1: "owner_reach S s0 ?s1"
    using owner_reach.Step [OF assms(1) owner_step.Enter_reinvocation [OF assms(5)]] assms(2) by simp
  show ?thesis
  proof (cases r)
    case (Inl x)
    have "owner_step S ?s1 (?s1\<lparr>os_conn := c', os_callers := [] @ [], os_calls := Reinvocation # os_calls ?s1\<rparr>)"
      by (rule owner_step.Call_raises [of ?s1 _ _ _ eid vs S now c' x]) (use assms Inl in auto)
    from owner_reach.Step [OF s1 this] show ?thesis using Inl assms(2) by (cases s) simp
  next
    case (Inr p)
    let ?s2 = "?s1\<lparr>os_conn := c', os_callers := [] @ Returned Reinvocation p # [], os_calls := Reinvocation # os_calls ?s1\<rparr>"
    have "owner_step S ?s1 ?s2"
      by (rule owner_step.Call_returns [of ?s1 _ _ _ eid vs S now c' p]) (use assms Inr in auto)
    from owner_reach.Step [OF s1 this] have s2: "owner_reach S s0 ?s2" .
    from owner_reach.Step [OF s2 owner_step.Publish_reinvocation [of ?s2 "[]" p "[]"]] show ?thesis
      using Inr assms(2) by (cases s) simp
  qed
qed

lemma authorised_before:
  assumes "owner_inv S d0 sg s" and "enter_reinvocation (os_owner s) = (owner1, Inr ())"
  shows "authorised (os_owner s)"
proof -
  from assms(2) obtain a where "iv_cached_reinvocation_evaluation (os_owner s) = Some (ReinvocationAuthorization a)"
    by (auto simp: enter_reinvocation_def split: sum.splits option.splits reinvocation_evaluation.splits if_splits)
  with assms(1) obtain r where "iv_initial_result (os_owner s) = Some r"
    "evaluate_postgres_write_side_reinvocation_authority (iv_request_signature (os_owner s)) r = Inr (ReinvocationAuthorization a)"
    by (auto simp: owner_inv_def evaluation_ok_def)
  with authority_needs_rejection show ?thesis by (auto simp: authorised_def)
qed

text \<open>C36: in every state that callers of an owner can reach, whatever proposal and whatever binding an executor has,
  an execution either raises and leaves the owner and the connection as they were, or the proposal is
  for the retained result and request, the assessment of the executor authorises that request, and the
  evaluation of the owner itself authorised it on its own first result. Then the state after it is one
  that callers of the owner reach, with one more call of the writer, and every later execution,
  of any proposal by any executor, raises without touching anything.\<close>

theorem controlled_execution_governed:
  assumes "conn_inv c" and "own c = empty_db" and "owner_reach S (new_owner_state sg w c) s" and "os_callers s = []"
    and "uuid_in eid = Some eid" and "set vs \<subseteq> S"
    and "execute self (os_owner s) ((os_conn s)\<lparr>schedule := vs\<rparr>) proposal eid now = (owner', c', r)"
  shows "(owner' = os_owner s \<and> c' = (os_conn s)\<lparr>schedule := vs\<rparr> \<and> (\<exists>x. r = Inl x))
    \<or> (lr_object (rc_source_result proposal) = lr_object (ce_retained_a1_result self)
       \<and> (\<exists>a. ce_reinvocation_assessment self = ReinvocationAuthorization a
            \<and> RequestSignature_eq a (ce_expected_signature self) \<and> RequestSignature_eq a (rc_request_signature proposal))
       \<and> (\<exists>r1. iv_initial_result (os_owner s) = Some r1
            \<and> evaluate_postgres_write_side_reinvocation_authority sg r1 = Inr (ReinvocationAuthorization sg))
       \<and> owner_reach S (new_owner_state sg w c) (s\<lparr>os_owner := owner', os_conn := c', os_calls := Reinvocation # os_calls s\<rparr>)
       \<and> (\<forall>self' c1 proposal' eid' now'. \<exists>x. execute self' owner' c1 proposal' eid' now' = (owner', c1, Inl x)))"
  using assms(7)
proof (cases rule: execute_cases)
  case (invoked owner1)
  from reach_inv [OF assms(3) inv_new [OF assms(1,2) refl]] have inv: "owner_inv S (committed c) sg s" .
  then have "authorised (os_owner s)" "iv_request_signature (os_owner s) = sg"
    using authorised_before invoked(2) by (auto simp: owner_inv_def)
  moreover have "iv_authority_spent owner'"
    using invoked(4) entered [OF invoked(2)] by (auto simp: publish_current_response_result_def split: sum.splits)
  moreover have "owner_reach S (new_owner_state sg w c) (s\<lparr>os_owner := owner', os_conn := c', os_calls := Reinvocation # os_calls s\<rparr>)"
    using reach_invoked [OF assms(3-6) invoked(2,3)] invoked(4) by simp
  ultimately show ?thesis
    using invoked(1) execute_spent [of owner']
    by (auto simp: authorised_def check_proposal_def split: if_splits reinvocation_evaluation.splits)
qed auto

lemma initial_kept:
  assumes "invoke_initial self c eid now = (own', c', Inr r)"
  shows "iv_initial_result own' = Some r"
  using assms by (auto simp: invoke_initial_def publish_initial_def publish_current_response_result_def split: prod.splits sum.splits)

text \<open>At an owner whose first invocation was accepted, no executor and no proposal reaches the writer.\<close>

theorem controlled_execution_governed_witness:
  "\<exists>s. owner_reach {} (new_owner_state (signature_of sample_command) (sample_write_side IN_TRANSACTION Optimistic) sample_conn) s
     \<and> os_calls s = [Initial]
     \<and> (\<forall>self proposal. fst (execute self (os_owner s) ((os_conn s)\<lparr>schedule := []\<rparr>) proposal sample_uuid 0) = os_owner s)"
proof -
  obtain own' c' r where run: "invoke_initial (new_invocation_owner (signature_of sample_command) (sample_write_side IN_TRANSACTION Optimistic))
      sample_conn (cmd_event_id sample_command) (cmd_now sample_command) = (own', c', Inr r)" "wr_outcome r = OUT_ACCEPTED"
    "owner_reach {} (new_owner_state (signature_of sample_command) (sample_write_side IN_TRANSACTION Optimistic) sample_conn)
      \<lparr>os_owner = own', os_conn = c', os_callers = [], os_calls = [Initial]\<rparr>" by (rule sample_owner_run)
  have uuid: "uuid_in sample_uuid = Some sample_uuid" using sample_idle(4) by (simp add: sample_command_def)
  have "fst (execute self own' (c'\<lparr>schedule := []\<rparr>) proposal sample_uuid 0) = own'" for self proposal
  proof -
    obtain o1 c1 r1 where x: "execute self own' (c'\<lparr>schedule := []\<rparr>) proposal sample_uuid 0 = (o1, c1, r1)" by (rule prod_cases3)
    from controlled_execution_governed [OF sample_idle(1,2) run(3) _ uuid, of "[]" self proposal 0 o1 c1 r1] x initial_kept [OF run(1)] run(2)
    show ?thesis by (auto dest!: authority_needs_rejection)
  qed
  with run(3) show ?thesis by force
qed

section \<open>The eager planner\<close>

text \<open>For the result of a command the guard of the planner comes down to the verdict of the append.\<close>

lemma planner_on_results:
  assumes "result_shape sg eid (lr_result result)"
  shows "plan_recovery sg' result =
    (if \<exists>ad. wr_admission_result (lr_result result) = Some ad \<and> ad_verdict ad = STALE_WRITE
     then Some \<lparr>rc_request_signature = sg', rc_source_result = result, rc_action = ONE_FRESH_SAME_REQUEST_INVOCATION\<rparr> else None)"
  using assms by (cases "wr_outcome (lr_result result)") (auto simp: plan_recovery_def result_shape_def split: option.splits)

text \<open>The authority evaluation always answers, and for an append it answers by the versions.\<close>

lemma authority_on_appends:
  assumes "result_shape sg eid r" and "wr_admission_result r = Some ad" and "ad_verdict ad = STALE_WRITE"
  obtains why where "evaluate_postgres_write_side_reinvocation_authority sg r =
    Inr (if \<exists>m. ad_mismatch_evidence ad = Some m \<and> expected_current_version m < observed_current_version m
         then ReinvocationAuthorization sg else NoReinvocationAuthority sg why)"
proof -
  from assms have "wr_outcome r = OUT_ADMISSION_REJECTED" by (cases "wr_outcome r") (auto simp: result_shape_def)
  with assms have "is_eligible_append_version_mismatch sg r
      \<longleftrightarrow> (\<exists>m. ad_mismatch_evidence ad = Some m \<and> expected_current_version m < observed_current_version m)"
    by (auto simp: is_eligible_append_version_mismatch_def result_shape_def decision_shape_def split: option.splits)
  moreover have "\<not> is_eligible_preparation_lock_timeout sg r" using assms(2) by (simp add: is_eligible_preparation_lock_timeout_def)
  ultimately have "\<exists>why. evaluate_postgres_write_side_reinvocation_authority sg r =
      Inr (if \<exists>m. ad_mismatch_evidence ad = Some m \<and> expected_current_version m < observed_current_version m
         then ReinvocationAuthorization sg else NoReinvocationAuthority sg why)"
    by (simp add: evaluate_postgres_write_side_reinvocation_authority_def NoReinvocationAuthority_from_evaluation_def
        py_blank_iff py_isspace_def)
  with that show ?thesis by blast
qed

text \<open>C37: the planner is eager and the executor is bounded, on the result of every durable command among other
  sessions and failures. The planner proposes one fresh invocation of the same request exactly when the
  append of the command was refused as stale, whether or not the refusal carries the two versions. Then the
  command committed nothing, the authority evaluation of the result answers, and an executor that is bound to
  the result and to that answer runs the second invocation of the owner exactly when the refusal shows that the
  stream moved past the expected version; any other proposal is refused with the owner and the connection
  untouched. The request signature is asked to equal itself, which fails only for an amount that is not a number.\<close>

theorem eager_planner_bounded:
  assumes "conn_inv c" and "own c = empty_db" and "uuid_in (cmd_event_id cmd) = Some (cmd_event_id cmd)"
    and "durable_command w traced c cmd = (c', Inr res)" and "lr_result result = primary_result res"
    and "RequestSignature_eq (signature_of cmd) (signature_of cmd)"
  shows "case wr_admission_result (primary_result res) of
      None \<Rightarrow> plan_recovery (signature_of cmd) result = None
    | Some ad \<Rightarrow>
        if ad_verdict ad \<noteq> STALE_WRITE then plan_recovery (signature_of cmd) result = None
        else grows_by (set (schedule c)) (committed c) (committed c')
          \<and> (\<exists>proposal a. plan_recovery (signature_of cmd) result = Some proposal
             \<and> evaluate_postgres_write_side_reinvocation_authority (signature_of cmd) (primary_result res) = Inr a
             \<and> execute \<lparr>ce_expected_signature = signature_of cmd, ce_retained_a1_result = result, ce_reinvocation_assessment = a\<rparr>
                 owner c1 proposal eid now =
               (if \<exists>m. ad_mismatch_evidence ad = Some m \<and> expected_current_version m < observed_current_version m
                then invoke_authorized_reinvocation owner c1 eid now
                else (owner, c1, Inl (ControlledExecutionRefused ''independent Stage 4E assessment issued no authority''))))"
proof -
  let ?r = "primary_result res" and ?sg = "signature_of cmd"
  note sh = durable_command_shape [OF assms(1,2,4)]
  note plan = planner_on_results [of ?sg "cmd_event_id cmd" result, unfolded assms(5), OF sh, of ?sg]
  show ?thesis
  proof (cases "\<exists>ad. wr_admission_result ?r = Some ad \<and> ad_verdict ad = STALE_WRITE")
    case True
    then obtain ad where ad: "wr_admission_result ?r = Some ad" "ad_verdict ad = STALE_WRITE" by blast
    with sh have "wr_outcome ?r = OUT_ADMISSION_REJECTED" by (cases "wr_outcome ?r") (auto simp: result_shape_def)
    with durable_command_post [OF assms(1-4)] have "grows_by (set (schedule c)) (committed c) (committed c')" by (simp add: command_post_def)
    moreover obtain why where "evaluate_postgres_write_side_reinvocation_authority ?sg ?r =
        Inr (if \<exists>m. ad_mismatch_evidence ad = Some m \<and> expected_current_version m < observed_current_version m
           then ReinvocationAuthorization ?sg else NoReinvocationAuthority ?sg why)" by (rule authority_on_appends [OF sh ad])
    ultimately show ?thesis using plan ad assms(6) by (simp add: execute_def check_proposal_def) blast
  next
    case False
    with plan show ?thesis by (simp split: option.split)
  qed
qed

text \<open>A create whose position another session took between the version check and the insert: the append is
  stale and carries no versions.\<close>

definition raced_conn :: pg_conn where
  "raced_conn = sample_conn\<lparr>schedule := [Quiet, Quiet, Quiet,
     Statement_fails (UniqueViolation (Some ''uq_order_events_order_id_sequence'') ''raced'')]\<rparr>"

lemma raced_append:
  assumes "pg_append sample_conn e v = (c1, Inr ())"
    and "c = sample_conn\<lparr>schedule := [Quiet, Statement_fails (UniqueViolation (Some ''uq_order_events_order_id_sequence'') ''raced'')]\<rparr>"
  shows "\<exists>ad. gate_append_if_admitted (new_gate Optimistic) c e v = (sample_conn, Inr ad)
    \<and> ad_verdict ad = STALE_WRITE \<and> ad_mismatch_evidence ad = None"
proof -
  have "pg_append c e v = (sample_conn, Inl (UniqueViolation (Some ''uq_order_events_order_id_sequence'') ''raced''))"
    using assms by (auto simp: pg_append_def pg_current_version_def statement_def take_event_def sample_conn_def visible_def Let_def
        split: if_splits)
  then show ?thesis
    by (simp add: gate_append_if_admitted_def new_gate_def append_with_translation_def is_stream_position_conflict_def AdmissionResult_init_def)
qed

lemma raced_run:
  obtains c' r ad where "durable_command (sample_write_side IN_TRANSACTION Optimistic) False raced_conn sample_command = (c', Inr (Primary r))"
    and "wr_admission_result r = Some ad" and "ad_verdict ad = STALE_WRITE" and "ad_mismatch_evidence ad = None"
proof -
  let ?x = "Statement_fails (UniqueViolation (Some ''uq_order_events_order_id_sequence'') ''raced'')"
  let ?c = "\<lambda>vs. sample_conn\<lparr>schedule := vs @ [?x]\<rparr>"
  have hist: "history (committed sample_conn) (cmd_order_id sample_command) = []"
    by (simp add: sample_conn_def history_def stream_rows_def)
  obtain a e ev c1 where steps: "rehydrate_aggregate_from_history (cmd_order_id sample_command) [] = Inr a"
    "aggregate_command (cmd_type sample_command) a (cmd_event_id sample_command) (cmd_now sample_command)
       (cmd_request_id sample_command) (cmd_amount sample_command) = Inr e"
    "invoke_validation (reg_validation_runtime (build_transactional_runtime STRICT)) e (build_validation_context a None)
       = Inr (vdr_decision ev, Some ev)" "vd_action (vdr_decision ev) = ALLOW"
    "pg_append sample_conn e (current_version a) = (c1, Inr ())"
    by (rule acceptance_steps [OF sample_quiet sample_acceptable, of STRICT]) (simp add: hist)
  have chk: "pg_check raced_conn sg = (?c [Quiet, Quiet], Inr \<lparr>id_verdict = MISS, id_reason = ''No prior request with this request_id'', id_record = None\<rparr>)" for sg
    by (simp add: raced_conn_def pg_check_def statement_def take_event_def classify_request_def sample_conn_def visible_def load_record_def)
  have load: "pg_load (?c [Quiet, Quiet]) oid = (?c [Quiet], Inr [])" for oid
    by (simp add: pg_load_def statement_def take_event_def sample_conn_def visible_def stream_rows_def)
  obtain ad where ad: "gate_append_if_admitted (new_gate Optimistic) (?c [Quiet]) e (current_version a) = (sample_conn, Inr ad)"
    "ad_verdict ad = STALE_WRITE" "ad_mismatch_evidence ad = None" using raced_append [OF steps(5)] by auto
  have "\<not> autocommit raced_conn" by (simp add: raced_conn_def sample_conn_def)
  then show ?thesis
    using that steps ad chk load
    unfolding durable_command_eq run_command_def execute_command_def sample_write_side_def
    by (simp add: execute_in_transaction_command_def run_simps gate_prepare_stream_def stream_admitted_def admission_admitted_def
        gate_append_if_admitted_def new_gate_def)
qed

theorem eager_planner_bounded_witness:
  "\<exists>c' r ad proposal a. durable_command (sample_write_side IN_TRANSACTION Optimistic) False raced_conn sample_command = (c', Inr (Primary r))
     \<and> wr_admission_result r = Some ad \<and> ad_mismatch_evidence ad = None
     \<and> plan_recovery (signature_of sample_command) \<lparr>lr_object = 0, lr_result = r\<rparr> = Some proposal
     \<and> evaluate_postgres_write_side_reinvocation_authority (signature_of sample_command) r = Inr a
     \<and> fst (execute \<lparr>ce_expected_signature = signature_of sample_command, ce_retained_a1_result = \<lparr>lr_object = 0, lr_result = r\<rparr>,
           ce_reinvocation_assessment = a\<rparr>
         (new_invocation_owner (signature_of sample_command) (sample_write_side IN_TRANSACTION Optimistic)) c' proposal sample_uuid 0)
       = new_invocation_owner (signature_of sample_command) (sample_write_side IN_TRANSACTION Optimistic)"
proof -
  obtain c' r ad where run: "durable_command (sample_write_side IN_TRANSACTION Optimistic) False raced_conn sample_command = (c', Inr (Primary r))"
    "wr_admission_result r = Some ad" "ad_verdict ad = STALE_WRITE" "ad_mismatch_evidence ad = None" by (rule raced_run)
  have "conn_inv raced_conn" "own raced_conn = empty_db"
    using sample_idle by (simp_all add: raced_conn_def conn_inv_def visible_def)
  moreover have "RequestSignature_eq (signature_of sample_command) (signature_of sample_command)"
    by (simp add: RequestSignature_eq_def sample_command_def sample_create_def signature_of_def)
  ultimately show ?thesis
    using eager_planner_bounded [OF _ _ sample_idle(4) run(1), of "\<lparr>lr_object = 0, lr_result = r\<rparr>"
        "new_invocation_owner (signature_of sample_command) (sample_write_side IN_TRANSACTION Optimistic)" c' sample_uuid 0] run
    by auto
qed

end
