(* ===== verification/Resolution_Trace.thy ===== *)
theory Resolution_Trace
  imports Snapshot
begin

text \<open>
  Traces of snapshot-assisted resolutions
  (src/pipeline/projection/projection_snapshot_assisted_resolution_trace.py): the terminal stages, the
  scalar progress of one resolution and its coherence rules, and the pair of a result and its trace.
  The type checks are settled by the types of the model. The sources do not produce traces; what is shown
  here is which traces and which pairs the two constructors let through.
\<close>

section \<open>Traces\<close>

datatype TerminalStage =
    TS_SNAPSHOT_PRECONDITION
  | TS_SNAPSHOT_LOOKUP
  | TS_SNAPSHOT_COMPATIBILITY
  | TS_SNAPSHOT_HYDRATION
  | TS_TAIL_SOURCE
  | TS_TAIL_REPLAY
  | TS_COMPLETED

fun TerminalStage_value :: "TerminalStage \<Rightarrow> string" where
  "TerminalStage_value TS_SNAPSHOT_PRECONDITION = ''SNAPSHOT_PRECONDITION''"
| "TerminalStage_value TS_SNAPSHOT_LOOKUP = ''SNAPSHOT_LOOKUP''"
| "TerminalStage_value TS_SNAPSHOT_COMPATIBILITY = ''SNAPSHOT_COMPATIBILITY''"
| "TerminalStage_value TS_SNAPSHOT_HYDRATION = ''SNAPSHOT_HYDRATION''"
| "TerminalStage_value TS_TAIL_SOURCE = ''TAIL_SOURCE''"
| "TerminalStage_value TS_TAIL_REPLAY = ''TAIL_REPLAY''"
| "TerminalStage_value TS_COMPLETED = ''COMPLETED''"

fun ResolutionStatus_value :: "ProjectionSnapshotAssistedResolutionStatus \<Rightarrow> string" where
  "ResolutionStatus_value SR_RESOLVED_FROM_SNAPSHOT = ''RESOLVED_FROM_SNAPSHOT''"
| "ResolutionStatus_value SR_MISSING_SNAPSHOT = ''MISSING_SNAPSHOT''"
| "ResolutionStatus_value SR_INVALID_SNAPSHOT_PRECONDITION = ''INVALID_SNAPSHOT_PRECONDITION''"
| "ResolutionStatus_value SR_INVALID_SNAPSHOT_COMPATIBILITY = ''INVALID_SNAPSHOT_COMPATIBILITY''"
| "ResolutionStatus_value SR_TAIL_EVENT_SOURCE_CONTRACT_VIOLATION = ''TAIL_EVENT_SOURCE_CONTRACT_VIOLATION''"
| "ResolutionStatus_value SR_TAIL_REPLAY_FAILED = ''TAIL_REPLAY_FAILED''"

record ResolutionTrace =
  terminal_stage :: TerminalStage
  snapshot_source_event_sequence :: "int option"
  last_validated_tail_event_sequence :: "int option"
  last_successfully_replayed_tail_event_sequence :: "int option"
  source_expected_event_sequence :: "int option"
  observed_event_sequence :: "int option"
  observed_order_id :: "string option"
  observed_event_id :: "string option"

definition require_optional_positive_int :: "int option \<Rightarrow> string \<Rightarrow> unit res" where
  "require_optional_positive_int v field_name =
     (case v of None \<Rightarrow> Inr ()
      | Some n \<Rightarrow> if n \<le> 0 then Inl (ValueError (field_name @ '' must be positive'')) else Inr ())"

definition trace_optional_non_empty_string :: "string option \<Rightarrow> string \<Rightarrow> unit res" where
  "trace_optional_non_empty_string v field_name =
     (case v of None \<Rightarrow> Inr ()
      | Some t \<Rightarrow> if py_blank t then Inl (ValueError (field_name @ '' must be a non-empty string'')) else Inr ())"

definition PRE_SNAPSHOT_BASE_STAGES :: "TerminalStage list" where
  "PRE_SNAPSHOT_BASE_STAGES = [TS_SNAPSHOT_PRECONDITION, TS_SNAPSHOT_LOOKUP, TS_SNAPSHOT_COMPATIBILITY]"

definition PRE_TAIL_STAGES :: "TerminalStage list" where
  "PRE_TAIL_STAGES = PRE_SNAPSHOT_BASE_STAGES @ [TS_SNAPSHOT_HYDRATION]"

fun RESULT_STATUS_TO_TERMINAL_STAGES :: "ProjectionSnapshotAssistedResolutionStatus \<Rightarrow> TerminalStage list" where
  "RESULT_STATUS_TO_TERMINAL_STAGES SR_INVALID_SNAPSHOT_PRECONDITION = [TS_SNAPSHOT_PRECONDITION]"
| "RESULT_STATUS_TO_TERMINAL_STAGES SR_MISSING_SNAPSHOT = [TS_SNAPSHOT_LOOKUP]"
| "RESULT_STATUS_TO_TERMINAL_STAGES SR_INVALID_SNAPSHOT_COMPATIBILITY = [TS_SNAPSHOT_COMPATIBILITY, TS_SNAPSHOT_HYDRATION]"
| "RESULT_STATUS_TO_TERMINAL_STAGES SR_TAIL_EVENT_SOURCE_CONTRACT_VIOLATION = [TS_TAIL_SOURCE]"
| "RESULT_STATUS_TO_TERMINAL_STAGES SR_TAIL_REPLAY_FAILED = [TS_TAIL_REPLAY]"
| "RESULT_STATUS_TO_TERMINAL_STAGES SR_RESOLVED_FROM_SNAPSHOT = [TS_COMPLETED]"

section \<open>Coherence\<close>

definition validate_observed_event_presence :: "ResolutionTrace \<Rightarrow> unit res" where
  "validate_observed_event_presence t =
     (let observed_presence = [observed_event_sequence t \<noteq> None, observed_order_id t \<noteq> None, observed_event_id t \<noteq> None]
      in if (\<exists>b \<in> set observed_presence. b) \<and> \<not> (\<forall>b \<in> set observed_presence. b)
         then Inl (ValueError ''observed_event_sequence, observed_order_id, and observed_event_id must be all present or all absent'')
         else Inr ())"

definition require_absent_tail_evidence :: "ResolutionTrace \<Rightarrow> unit res" where
  "require_absent_tail_evidence t =
     (let tail_evidence = [(''last_validated_tail_event_sequence'', last_validated_tail_event_sequence t),
             (''last_successfully_replayed_tail_event_sequence'', last_successfully_replayed_tail_event_sequence t),
             (''source_expected_event_sequence'', source_expected_event_sequence t),
             (''observed_event_sequence'', observed_event_sequence t)];
          present_fields = map fst (filter (\<lambda>(name, v). v \<noteq> None) tail_evidence)
      in if present_fields \<noteq> []
         then Inl (ValueError (TerminalStage_value (terminal_stage t) @ '' requires absent tail evidence: ''
                @ py_join '', '' present_fields))
         else Inr ())"

definition validate_stage_presence :: "ResolutionTrace \<Rightarrow> unit res" where
  "validate_stage_presence t =
     (let stage = terminal_stage t
      in bind_res
        (if stage \<in> set PRE_SNAPSHOT_BASE_STAGES
         then (if snapshot_source_event_sequence t \<noteq> None
               then Inl (ValueError (TerminalStage_value stage @ '' requires absent snapshot_source_event_sequence'')) else Inr ())
         else if snapshot_source_event_sequence t = None
         then Inl (ValueError (TerminalStage_value stage @ '' requires snapshot_source_event_sequence'')) else Inr ())
        (\<lambda>_. if stage \<in> set PRE_TAIL_STAGES then require_absent_tail_evidence t
          else case stage of
            TS_TAIL_SOURCE \<Rightarrow>
              (if source_expected_event_sequence t = None
               then Inl (ValueError ''TAIL_SOURCE requires source_expected_event_sequence'')
               else if last_successfully_replayed_tail_event_sequence t \<noteq> None
               then Inl (ValueError ''TAIL_SOURCE requires absent replay progress'') else Inr ())
          | TS_TAIL_REPLAY \<Rightarrow>
              (if last_validated_tail_event_sequence t = None
               then Inl (ValueError ''TAIL_REPLAY requires last_validated_tail_event_sequence'')
               else if source_expected_event_sequence t \<noteq> None
               then Inl (ValueError ''TAIL_REPLAY requires absent source_expected_event_sequence'')
               else if observed_event_sequence t = None
               then Inl (ValueError ''TAIL_REPLAY requires observed event evidence'') else Inr ())
          | TS_COMPLETED \<Rightarrow>
              (if source_expected_event_sequence t \<noteq> None
               then Inl (ValueError ''COMPLETED requires absent source_expected_event_sequence'')
               else if observed_event_sequence t \<noteq> None
               then Inl (ValueError ''COMPLETED requires absent observed event evidence'') else Inr ())
          | _ \<Rightarrow> Inl (ValueError (''Unsupported terminal_stage: '' @ TerminalStage_value stage))))"

text \<open>The three parts of \<open>_validate_progress_coherence\<close>: order of the progress, and the rules of the stages.\<close>

definition check_progress_order :: "ResolutionTrace \<Rightarrow> unit res" where
  "check_progress_order t =
     (let base_sequence = snapshot_source_event_sequence t;
          validated_sequence = last_validated_tail_event_sequence t
      in bind_res
        (case validated_sequence of None \<Rightarrow> Inr ()
         | Some v \<Rightarrow> (case base_sequence of Some b \<Rightarrow> if v \<le> b then Inl (ValueError ''last_validated_tail_event_sequence must be after snapshot_source_event_sequence'') else Inr ()
              | None \<Rightarrow> Inl (ValueError ''last_validated_tail_event_sequence must be after snapshot_source_event_sequence'')))
        (\<lambda>_. case last_successfully_replayed_tail_event_sequence t of None \<Rightarrow> Inr ()
         | Some n \<Rightarrow>
             if (case base_sequence of None \<Rightarrow> True | Some b \<Rightarrow> n \<le> b)
             then Inl (ValueError ''last_successfully_replayed_tail_event_sequence must be after snapshot_source_event_sequence'')
             else if (case validated_sequence of None \<Rightarrow> True | Some v \<Rightarrow> n > v)
             then Inl (ValueError ''last_successfully_replayed_tail_event_sequence must not exceed last_validated_tail_event_sequence'')
             else Inr ()))"

definition check_tail_source_progress :: "ResolutionTrace \<Rightarrow> unit res" where
  "check_tail_source_progress t =
     (case snapshot_source_event_sequence t of
        None \<Rightarrow> Inl (ValueError ''TAIL_SOURCE requires snapshot_source_event_sequence'')
      | Some base_sequence \<Rightarrow>
         (let source_boundary = (case last_validated_tail_event_sequence t of Some v \<Rightarrow> v | None \<Rightarrow> base_sequence)
          in if source_expected_event_sequence t \<noteq> Some (source_boundary + 1)
             then Inl (ValueError ''source_expected_event_sequence must be the next sequence after the validated tail boundary'')
             else Inr ()))"

definition check_tail_replay_progress :: "ResolutionTrace \<Rightarrow> unit res" where
  "check_tail_replay_progress t =
     (case snapshot_source_event_sequence t of
        None \<Rightarrow> Inl (ValueError ''TAIL_REPLAY requires snapshot_source_event_sequence'')
      | Some base_sequence \<Rightarrow>
     (case last_validated_tail_event_sequence t of
        None \<Rightarrow> Inl (ValueError ''TAIL_REPLAY requires last_validated_tail_event_sequence'')
      | Some validated_sequence \<Rightarrow>
     (case observed_event_sequence t of
        None \<Rightarrow> Inl (ValueError ''TAIL_REPLAY requires observed event evidence'')
      | Some observed \<Rightarrow>
         (let replay_boundary = (case last_successfully_replayed_tail_event_sequence t of Some n \<Rightarrow> n | None \<Rightarrow> base_sequence)
          in if observed \<noteq> replay_boundary + 1
             then Inl (ValueError ''TAIL_REPLAY observed_event_sequence must be the next sequence after the successful replay boundary'')
             else if validated_sequence < observed
             then Inl (ValueError ''TAIL_REPLAY observed_event_sequence must be within the complete validated tail'')
             else Inr ()))))"

definition validate_progress_coherence :: "ResolutionTrace \<Rightarrow> unit res" where
  "validate_progress_coherence t =
     bind_res (check_progress_order t) (\<lambda>_.
     let validated_sequence = last_validated_tail_event_sequence t;
         replayed_sequence = last_successfully_replayed_tail_event_sequence t
     in case terminal_stage t of
          TS_TAIL_SOURCE \<Rightarrow> check_tail_source_progress t
        | TS_TAIL_REPLAY \<Rightarrow> check_tail_replay_progress t
        | TS_COMPLETED \<Rightarrow>
            (if (validated_sequence \<noteq> None) \<noteq> (replayed_sequence \<noteq> None)
             then Inl (ValueError ''COMPLETED requires validation and replay progress to be both present or both absent'')
             else if validated_sequence \<noteq> replayed_sequence
             then Inl (ValueError ''COMPLETED validation and replay progress must be equal'')
             else Inr ())
        | _ \<Rightarrow> Inr ())"

definition ResolutionTrace_init :: "ResolutionTrace \<Rightarrow> ResolutionTrace res" where
  "ResolutionTrace_init self =
     bind_res (require_optional_positive_int (snapshot_source_event_sequence self) ''snapshot_source_event_sequence'') (\<lambda>_.
     bind_res (require_optional_positive_int (last_validated_tail_event_sequence self) ''last_validated_tail_event_sequence'') (\<lambda>_.
     bind_res (require_optional_positive_int (last_successfully_replayed_tail_event_sequence self) ''last_successfully_replayed_tail_event_sequence'') (\<lambda>_.
     bind_res (require_optional_positive_int (source_expected_event_sequence self) ''source_expected_event_sequence'') (\<lambda>_.
     bind_res (require_optional_positive_int (observed_event_sequence self) ''observed_event_sequence'') (\<lambda>_.
     bind_res (trace_optional_non_empty_string (observed_order_id self) ''observed_order_id'') (\<lambda>_.
     bind_res (trace_optional_non_empty_string (observed_event_id self) ''observed_event_id'') (\<lambda>_.
     bind_res (validate_observed_event_presence self) (\<lambda>_.
     bind_res (validate_stage_presence self) (\<lambda>_.
     bind_res (validate_progress_coherence self) (\<lambda>_. Inr self))))))))))"

record ResolutionExecution =
  ex_result :: ProjectionSnapshotAssistedResolutionResult
  ex_trace :: ResolutionTrace

definition validate_execution_coherence :: "ProjectionSnapshotAssistedResolutionResult \<Rightarrow> ResolutionTrace \<Rightarrow> unit res" where
  "validate_execution_coherence result t =
     (let permitted_stages = RESULT_STATUS_TO_TERMINAL_STAGES (sr_status result)
      in if terminal_stage t \<notin> set permitted_stages
         then Inl (ValueError (''result status '' @ ResolutionStatus_value (sr_status result)
                @ '' is incoherent with terminal stage '' @ TerminalStage_value (terminal_stage t)))
         else Inr ())"

definition ResolutionExecution_init :: "ResolutionExecution \<Rightarrow> ResolutionExecution res" where
  "ResolutionExecution_init self = bind_res (validate_execution_coherence (ex_result self) (ex_trace self)) (\<lambda>_. Inr self)"

section \<open>Coherent traces\<close>

text \<open>The runs that a trace can describe, given by how far they came: before a snapshot was a base, at
  its hydration, at the source of the tail after \<open>v\<close>, at the replay of the event after \<open>k\<close>, or to the end.
  Progress that is still at the base is not recorded.\<close>

abbreviation progress_after :: "int \<Rightarrow> int \<Rightarrow> int option" where
  "progress_after base n \<equiv> (if n = base then None else Some n)"

fun stage_trace :: "TerminalStage \<Rightarrow> int option \<Rightarrow> int option \<Rightarrow> int option \<Rightarrow> int option
   \<Rightarrow> (int \<times> string \<times> string) option \<Rightarrow> ResolutionTrace" where
  "stage_trace s base validated replayed expected seen =
     \<lparr>terminal_stage = s, snapshot_source_event_sequence = base, last_validated_tail_event_sequence = validated,
      last_successfully_replayed_tail_event_sequence = replayed, source_expected_event_sequence = expected,
      observed_event_sequence = map_option fst seen, observed_order_id = map_option (fst \<circ> snd) seen,
      observed_event_id = map_option (snd \<circ> snd) seen\<rparr>"

definition observable :: "int \<times> string \<times> string \<Rightarrow> bool" where
  "observable e \<longleftrightarrow> (case e of (n, oid, eid) \<Rightarrow> 0 < n \<and> \<not> py_blank oid \<and> \<not> py_blank eid)"

inductive coherent_trace :: "ResolutionTrace \<Rightarrow> bool" where
  no_base: "s \<in> {TS_SNAPSHOT_PRECONDITION, TS_SNAPSHOT_LOOKUP, TS_SNAPSHOT_COMPATIBILITY} \<Longrightarrow>
    coherent_trace (stage_trace s None None None None None)"
| not_hydrated: "0 < base \<Longrightarrow> coherent_trace (stage_trace TS_SNAPSHOT_HYDRATION (Some base) None None None None)"
| source_stopped: "0 < base \<Longrightarrow> base \<le> v \<Longrightarrow> (\<And>e. seen = Some e \<Longrightarrow> observable e) \<Longrightarrow>
    coherent_trace (stage_trace TS_TAIL_SOURCE (Some base) (progress_after base v) None (Some (v + 1)) seen)"
| replay_stopped: "0 < base \<Longrightarrow> base \<le> k \<Longrightarrow> k < v \<Longrightarrow> observable (k + 1, oid, eid) \<Longrightarrow>
    coherent_trace (stage_trace TS_TAIL_REPLAY (Some base) (Some v) (progress_after base k) None (Some (k + 1, oid, eid)))"
| completed: "0 < base \<Longrightarrow> base \<le> v \<Longrightarrow>
    coherent_trace (stage_trace TS_COMPLETED (Some base) (progress_after base v) (progress_after base v) None None)"

text \<open>The one status that a stage belongs to.\<close>

fun stage_status :: "TerminalStage \<Rightarrow> ProjectionSnapshotAssistedResolutionStatus" where
  "stage_status TS_SNAPSHOT_PRECONDITION = SR_INVALID_SNAPSHOT_PRECONDITION"
| "stage_status TS_SNAPSHOT_LOOKUP = SR_MISSING_SNAPSHOT"
| "stage_status TS_SNAPSHOT_COMPATIBILITY = SR_INVALID_SNAPSHOT_COMPATIBILITY"
| "stage_status TS_SNAPSHOT_HYDRATION = SR_INVALID_SNAPSHOT_COMPATIBILITY"
| "stage_status TS_TAIL_SOURCE = SR_TAIL_EVENT_SOURCE_CONTRACT_VIOLATION"
| "stage_status TS_TAIL_REPLAY = SR_TAIL_REPLAY_FAILED"
| "stage_status TS_COMPLETED = SR_RESOLVED_FROM_SNAPSHOT"

lemma permitted_stage_iff: "s \<in> set (RESULT_STATUS_TO_TERMINAL_STAGES st) \<longleftrightarrow> st = stage_status s"
  by (cases st; cases s) simp_all

section \<open>The constructors decide coherence\<close>

text \<open>What each check asks for, and that it refuses with a ValueError.\<close>

lemma positive_iff: "require_optional_positive_int v name = Inr () \<longleftrightarrow> (\<forall>n. v = Some n \<longrightarrow> 0 < n)"
  by (auto simp: require_optional_positive_int_def split: option.splits)

lemma non_empty_iff: "trace_optional_non_empty_string v name = Inr () \<longleftrightarrow> (\<forall>s. v = Some s \<longrightarrow> \<not> py_blank s)"
  by (auto simp: trace_optional_non_empty_string_def split: option.splits)

lemma presence_iff:
  "validate_observed_event_presence t = Inr () \<longleftrightarrow>
     (observed_event_sequence t = None \<longleftrightarrow> observed_order_id t = None) \<and> (observed_event_sequence t = None \<longleftrightarrow> observed_event_id t = None)"
  by (auto simp: validate_observed_event_presence_def Let_def)

lemma absent_tail_iff:
  "require_absent_tail_evidence t = Inr () \<longleftrightarrow> last_validated_tail_event_sequence t = None
     \<and> last_successfully_replayed_tail_event_sequence t = None \<and> source_expected_event_sequence t = None \<and> observed_event_sequence t = None"
  by (auto simp: require_absent_tail_evidence_def Let_def)

lemma progress_order_iff:
  "check_progress_order t = Inr () \<longleftrightarrow>
     (\<forall>v. last_validated_tail_event_sequence t = Some v \<longrightarrow> (\<exists>b. snapshot_source_event_sequence t = Some b \<and> b < v))
     \<and> (\<forall>n. last_successfully_replayed_tail_event_sequence t = Some n \<longrightarrow>
          (\<exists>b v. snapshot_source_event_sequence t = Some b \<and> last_validated_tail_event_sequence t = Some v \<and> b < n \<and> n \<le> v))"
  by (cases "snapshot_source_event_sequence t"; cases "last_validated_tail_event_sequence t";
      cases "last_successfully_replayed_tail_event_sequence t") (auto simp: check_progress_order_def Let_def)

lemmas check_iffs = positive_iff non_empty_iff presence_iff absent_tail_iff progress_order_iff

lemmas stage_check_defs = validate_stage_presence_def validate_progress_coherence_def check_tail_source_progress_def
  check_tail_replay_progress_def PRE_TAIL_STAGES_def PRE_SNAPSHOT_BASE_STAGES_def Let_def

lemma init_iff:
  "ResolutionTrace_init t = Inr u \<longleftrightarrow> u = t
     \<and> (\<forall>n \<in> set_option (snapshot_source_event_sequence t) \<union> set_option (last_validated_tail_event_sequence t)
          \<union> set_option (last_successfully_replayed_tail_event_sequence t) \<union> set_option (source_expected_event_sequence t)
          \<union> set_option (observed_event_sequence t). 0 < n)
     \<and> (\<forall>s \<in> set_option (observed_order_id t) \<union> set_option (observed_event_id t). \<not> py_blank s)
     \<and> validate_observed_event_presence t = Inr () \<and> validate_stage_presence t = Inr () \<and> validate_progress_coherence t = Inr ()"
  unfolding ResolutionTrace_init_def by (simp add: res_simps check_iffs ball_Un elem_set) blast

lemma coherent_accepted: "coherent_trace t \<Longrightarrow> ResolutionTrace_init t = Inr t"
  by (induction rule: coherent_trace.induct)
     (auto simp: init_iff stage_check_defs check_iffs observable_def res_simps split: option.splits)

text \<open>What the checks of the single fields leave: positive positions, and no observed event or a complete one.\<close>

lemma accepted_fields:
  assumes "ResolutionTrace_init t = Inr u"
  obtains seen where "u = t" and "observed_event_sequence t = map_option fst seen"
    and "observed_order_id t = map_option (fst \<circ> snd) seen" and "observed_event_id t = map_option (snd \<circ> snd) seen"
    and "\<And>e. seen = Some e \<Longrightarrow> observable e" and "\<And>n. snapshot_source_event_sequence t = Some n \<Longrightarrow> 0 < n"
    and "validate_stage_presence t = Inr ()" and "validate_progress_coherence t = Inr ()"
proof (cases "observed_event_sequence t")
  case None
  with assms show ?thesis by (intro that [of None]) (auto simp: init_iff presence_iff)
next
  case (Some n)
  with assms obtain oid eid where "observed_order_id t = Some oid" "observed_event_id t = Some eid"
    by (auto simp: init_iff presence_iff)
  with assms Some show ?thesis by (intro that [of "Some (n, oid, eid)"]) (auto simp: init_iff observable_def)
qed

text \<open>What the rules of each stage leave.\<close>

lemma early_checks:
  assumes "validate_stage_presence t = Inr ()" and "terminal_stage t \<in> set PRE_TAIL_STAGES"
  shows "last_validated_tail_event_sequence t = None \<and> last_successfully_replayed_tail_event_sequence t = None
    \<and> source_expected_event_sequence t = None \<and> observed_event_sequence t = None
    \<and> (snapshot_source_event_sequence t = None \<longleftrightarrow> terminal_stage t \<noteq> TS_SNAPSHOT_HYDRATION)"
  using assms by (auto simp: stage_check_defs check_iffs res_simps split: if_splits)

lemma source_checks:
  assumes "validate_stage_presence t = Inr ()" and "validate_progress_coherence t = Inr ()" and "terminal_stage t = TS_TAIL_SOURCE"
  obtains base v where "snapshot_source_event_sequence t = Some base" and "base \<le> v"
    and "last_validated_tail_event_sequence t = progress_after base v" and "last_successfully_replayed_tail_event_sequence t = None"
    and "source_expected_event_sequence t = Some (v + 1)"
proof -
  from assms(1,3) obtain base where base: "snapshot_source_event_sequence t = Some base" "last_successfully_replayed_tail_event_sequence t = None"
    by (auto simp: stage_check_defs res_simps split: if_splits)
  have "check_progress_order t = Inr ()" "check_tail_source_progress t = Inr ()"
    using assms(2,3) by (auto simp: validate_progress_coherence_def res_simps Let_def)
  then show ?thesis
    using base by (intro that [of base "case last_validated_tail_event_sequence t of Some n \<Rightarrow> n | None \<Rightarrow> base"])
      (auto simp: progress_order_iff check_tail_source_progress_def Let_def split: if_splits option.splits)
qed

lemma replay_checks:
  assumes "validate_stage_presence t = Inr ()" and "validate_progress_coherence t = Inr ()" and "terminal_stage t = TS_TAIL_REPLAY"
  obtains base k v where "snapshot_source_event_sequence t = Some base" and "base \<le> k" and "k < v"
    and "last_validated_tail_event_sequence t = Some v" and "last_successfully_replayed_tail_event_sequence t = progress_after base k"
    and "source_expected_event_sequence t = None" and "observed_event_sequence t = Some (k + 1)"
proof -
  from assms(1,3) obtain base v n where base: "snapshot_source_event_sequence t = Some base" "last_validated_tail_event_sequence t = Some v"
    "source_expected_event_sequence t = None" "observed_event_sequence t = Some n"
    by (auto simp: stage_check_defs res_simps split: if_splits)
  have "check_progress_order t = Inr ()" "check_tail_replay_progress t = Inr ()"
    using assms(2,3) by (auto simp: validate_progress_coherence_def res_simps Let_def)
  then show ?thesis
    using base by (intro that [of base "case last_successfully_replayed_tail_event_sequence t of Some n \<Rightarrow> n | None \<Rightarrow> base" v])
      (auto simp: progress_order_iff check_tail_replay_progress_def Let_def split: if_splits option.splits)
qed

lemma completed_checks:
  assumes "validate_stage_presence t = Inr ()" and "validate_progress_coherence t = Inr ()" and "terminal_stage t = TS_COMPLETED"
  obtains base v where "snapshot_source_event_sequence t = Some base" and "base \<le> v"
    and "last_validated_tail_event_sequence t = progress_after base v" and "last_successfully_replayed_tail_event_sequence t = progress_after base v"
    and "source_expected_event_sequence t = None" and "observed_event_sequence t = None"
proof -
  from assms(1,3) obtain base where base: "snapshot_source_event_sequence t = Some base" "source_expected_event_sequence t = None"
    "observed_event_sequence t = None" by (auto simp: stage_check_defs res_simps split: if_splits)
  have "check_progress_order t = Inr ()" "last_validated_tail_event_sequence t = last_successfully_replayed_tail_event_sequence t"
    using assms(2,3) by (auto simp: validate_progress_coherence_def res_simps Let_def split: if_splits)
  then show ?thesis
    using base by (intro that [of base "case last_validated_tail_event_sequence t of Some n \<Rightarrow> n | None \<Rightarrow> base"])
      (auto simp: progress_order_iff split: option.splits)
qed

lemma accepted_coherent:
  assumes "ResolutionTrace_init t = Inr u"
  shows "u = t \<and> coherent_trace t"
  using assms
proof (rule accepted_fields)
  fix seen
  assume f: "u = t" "observed_event_sequence t = map_option fst seen" "observed_order_id t = map_option (fst \<circ> snd) seen"
    "observed_event_id t = map_option (snd \<circ> snd) seen" "\<And>e. seen = Some e \<Longrightarrow> observable e"
    "\<And>n. snapshot_source_event_sequence t = Some n \<Longrightarrow> 0 < n"
    and s: "validate_stage_presence t = Inr ()" "validate_progress_coherence t = Inr ()"
  have t: "t = stage_trace (terminal_stage t) (snapshot_source_event_sequence t) (last_validated_tail_event_sequence t)
      (last_successfully_replayed_tail_event_sequence t) (source_expected_event_sequence t) seen"
    using f(2-4) by simp
  have "coherent_trace t"
  proof (cases "terminal_stage t")
    case TS_TAIL_SOURCE
    with s show ?thesis
    proof (rule source_checks)
      fix base v
      assume "snapshot_source_event_sequence t = Some base" "base \<le> v" "last_validated_tail_event_sequence t = progress_after base v"
        "last_successfully_replayed_tail_event_sequence t = None" "source_expected_event_sequence t = Some (v + 1)"
      with t TS_TAIL_SOURCE source_stopped [of base v seen] f(5,6) show ?thesis by metis
    qed
  next
    case TS_TAIL_REPLAY
    with s show ?thesis
    proof (rule replay_checks)
      fix base k v
      assume r: "snapshot_source_event_sequence t = Some base" "base \<le> k" "k < v" "last_validated_tail_event_sequence t = Some v"
        "last_successfully_replayed_tail_event_sequence t = progress_after base k" "source_expected_event_sequence t = None"
        "observed_event_sequence t = Some (k + 1)"
      from r(7) f(2) obtain oid eid where "seen = Some (k + 1, oid, eid)" by auto
      with t r TS_TAIL_REPLAY replay_stopped [of base k v oid eid] f(5,6) show ?thesis by metis
    qed
  next
    case TS_COMPLETED
    with s show ?thesis
    proof (rule completed_checks)
      fix base v
      assume c: "snapshot_source_event_sequence t = Some base" "base \<le> v" "last_validated_tail_event_sequence t = progress_after base v"
        "last_successfully_replayed_tail_event_sequence t = progress_after base v" "source_expected_event_sequence t = None"
        "observed_event_sequence t = None"
      from c(6) f(2) have "seen = None" by simp
      with t c TS_COMPLETED completed [of base v] f(6) show ?thesis by metis
    qed
  qed (use early_checks [OF s(1)] t f(2,6) no_base [of "terminal_stage t"] not_hydrated in
      \<open>auto simp: PRE_TAIL_STAGES_def PRE_SNAPSHOT_BASE_STAGES_def\<close>)
  with f(1) show ?thesis by simp
qed

text \<open>Every refusal is a ValueError.\<close>

lemma check_refusals:
  "require_optional_positive_int v name = Inl x \<Longrightarrow> is_ValueError x"
  "trace_optional_non_empty_string s name = Inl x \<Longrightarrow> is_ValueError x"
  "validate_observed_event_presence t = Inl x \<Longrightarrow> is_ValueError x"
  "require_absent_tail_evidence t = Inl x \<Longrightarrow> is_ValueError x"
  "check_progress_order t = Inl x \<Longrightarrow> is_ValueError x"
  "check_tail_source_progress t = Inl x \<Longrightarrow> is_ValueError x"
  "check_tail_replay_progress t = Inl x \<Longrightarrow> is_ValueError x"
  by (auto simp: require_optional_positive_int_def trace_optional_non_empty_string_def validate_observed_event_presence_def
      require_absent_tail_evidence_def check_progress_order_def check_tail_source_progress_def check_tail_replay_progress_def
      Let_def res_simps split: option.splits if_splits)

lemma stage_refusals:
  "validate_stage_presence t = Inl x \<Longrightarrow> is_ValueError x"
  "validate_progress_coherence t = Inl x \<Longrightarrow> is_ValueError x"
  by (auto simp: validate_stage_presence_def validate_progress_coherence_def Let_def res_simps check_refusals
      split: if_splits TerminalStage.splits)

lemma refused_value_error: "ResolutionTrace_init t = Inl x \<Longrightarrow> is_ValueError x"
  unfolding ResolutionTrace_init_def by (auto simp: res_simps check_refusals stage_refusals)

text \<open>C38: what the trace contract means. The constructor of a trace lets through exactly the coherent ones and changes
  nothing in them: no base and no progress before a snapshot is compatible, a positive base and nothing else
  when its hydration fails; at the source of the tail the position after the last validated one, no replay
  progress, and the event that was seen, if any; at the replay the next event after the last replayed one,
  inside the validated tail; at the end validation and replay at the same position. Everything else is a
  ValueError. A trace pairs with a result exactly when the status of the result is the one that the terminal
  stage of the trace belongs to, and with no other.\<close>

theorem trace_contract_exact:
  "(case ResolutionTrace_init t of
      Inr u \<Rightarrow> u = t \<and> coherent_trace t
    | Inl x \<Rightarrow> is_ValueError x \<and> \<not> coherent_trace t)
   \<and> (case ResolutionExecution_init ex of
      Inr u \<Rightarrow> u = ex \<and> sr_status (ex_result ex) = stage_status (terminal_stage (ex_trace ex))
    | Inl x \<Rightarrow> is_ValueError x \<and> sr_status (ex_result ex) \<noteq> stage_status (terminal_stage (ex_trace ex)))"
proof
  show "case ResolutionTrace_init t of Inr u \<Rightarrow> u = t \<and> coherent_trace t | Inl x \<Rightarrow> is_ValueError x \<and> \<not> coherent_trace t"
    using accepted_coherent [of t] coherent_accepted [of t] refused_value_error [of t]
    by (cases "ResolutionTrace_init t") auto
qed (simp add: ResolutionExecution_init_def validate_execution_coherence_def Let_def permitted_stage_iff)

end
