(* ===== verification/Measurement.thy ===== *)
theory Measurement
  imports Postgres_Write_Side
begin

text \<open>
  Elapsed-time evidence of a durable command: the immutable contract of
  \<open>postgres_write_side_measurement.py\<close> and the recorder of
  \<open>postgres_write_side_measurement_instrumentation.py\<close>, both in \<open>src/pipeline/transactional\<close>. The clock is a
  parameter, the sequence of what its calls give; a call that raises, or gives a boolean or another
  value that is not an integer, is \<open>Clock_unusable\<close>. The type checks are settled by the types of the model.
\<close>

section \<open>The contract\<close>

datatype PhaseMeasurementState = PM_NOT_APPLICABLE | PM_NOT_REACHED | PM_NOT_COLLECTED | PM_MEASURED

record PhaseMeasurement =
  pm_state :: PhaseMeasurementState
  pm_elapsed_ns :: "int option"

definition PhaseMeasurement_init :: "PhaseMeasurement \<Rightarrow> PhaseMeasurement res" where
  "PhaseMeasurement_init self =
     (if pm_state self = PM_MEASURED
      then (case pm_elapsed_ns self of
              None \<Rightarrow> Inl (TypeError ''elapsed_ns must be int when state is MEASURED'')
            | Some n \<Rightarrow> if n < 0 then Inl (ValueError ''elapsed_ns must be non-negative'') else Inr self)
      else if pm_elapsed_ns self \<noteq> None then Inl (ValueError ''elapsed_ns must be None unless state is MEASURED'')
      else Inr self)"

text \<open>The phases, whose values are the names of the fields of a measurement.\<close>

datatype MeasurementPhase =
    MP_PRODUCER_WRITE_INVOCATION
  | MP_BUSINESS_UOW
  | MP_VALIDATION_RUNTIME_CALL
  | MP_PRELIMINARY_IDEMPOTENCY_CHECK
  | MP_PRELIMINARY_READ_CLEANUP
  | MP_AUTHORITATIVE_IDEMPOTENCY_CHECK
  | MP_ACCEPTED_HISTORY_LOAD
  | MP_CONCURRENCY_PREPARATION_CALL
  | MP_PESSIMISTIC_ADVISORY_TRY_LOCK_CALL
  | MP_APPEND_ADMISSION_CALL
  | MP_IDEMPOTENCY_RECORD_CALL
  | MP_COMMIT_FINALIZATION
  | MP_ROLLBACK_FINALIZATION

fun MeasurementPhase_value :: "MeasurementPhase \<Rightarrow> string" where
  "MeasurementPhase_value MP_PRODUCER_WRITE_INVOCATION = ''producer_write_invocation''"
| "MeasurementPhase_value MP_BUSINESS_UOW = ''business_uow''"
| "MeasurementPhase_value MP_VALIDATION_RUNTIME_CALL = ''validation_runtime_call''"
| "MeasurementPhase_value MP_PRELIMINARY_IDEMPOTENCY_CHECK = ''preliminary_idempotency_check''"
| "MeasurementPhase_value MP_PRELIMINARY_READ_CLEANUP = ''preliminary_read_cleanup''"
| "MeasurementPhase_value MP_AUTHORITATIVE_IDEMPOTENCY_CHECK = ''authoritative_idempotency_check''"
| "MeasurementPhase_value MP_ACCEPTED_HISTORY_LOAD = ''accepted_history_load''"
| "MeasurementPhase_value MP_CONCURRENCY_PREPARATION_CALL = ''concurrency_preparation_call''"
| "MeasurementPhase_value MP_PESSIMISTIC_ADVISORY_TRY_LOCK_CALL = ''pessimistic_advisory_try_lock_call''"
| "MeasurementPhase_value MP_APPEND_ADMISSION_CALL = ''append_admission_call''"
| "MeasurementPhase_value MP_IDEMPOTENCY_RECORD_CALL = ''idempotency_record_call''"
| "MeasurementPhase_value MP_COMMIT_FINALIZATION = ''commit_finalization''"
| "MeasurementPhase_value MP_ROLLBACK_FINALIZATION = ''rollback_finalization''"

record WriteMeasurement =
  producer_write_invocation :: PhaseMeasurement
  business_uow :: PhaseMeasurement
  validation_runtime_call :: PhaseMeasurement
  preliminary_idempotency_check :: PhaseMeasurement
  preliminary_read_cleanup :: PhaseMeasurement
  authoritative_idempotency_check :: PhaseMeasurement
  accepted_history_load :: PhaseMeasurement
  concurrency_preparation_call :: PhaseMeasurement
  pessimistic_advisory_try_lock_call :: PhaseMeasurement
  append_admission_call :: PhaseMeasurement
  idempotency_record_call :: PhaseMeasurement
  commit_finalization :: PhaseMeasurement
  rollback_finalization :: PhaseMeasurement

text \<open>\<open>getattr(self, name)\<close>.\<close>

fun measurement_field :: "WriteMeasurement \<Rightarrow> MeasurementPhase \<Rightarrow> PhaseMeasurement" where
  "measurement_field m MP_PRODUCER_WRITE_INVOCATION = producer_write_invocation m"
| "measurement_field m MP_BUSINESS_UOW = business_uow m"
| "measurement_field m MP_VALIDATION_RUNTIME_CALL = validation_runtime_call m"
| "measurement_field m MP_PRELIMINARY_IDEMPOTENCY_CHECK = preliminary_idempotency_check m"
| "measurement_field m MP_PRELIMINARY_READ_CLEANUP = preliminary_read_cleanup m"
| "measurement_field m MP_AUTHORITATIVE_IDEMPOTENCY_CHECK = authoritative_idempotency_check m"
| "measurement_field m MP_ACCEPTED_HISTORY_LOAD = accepted_history_load m"
| "measurement_field m MP_CONCURRENCY_PREPARATION_CALL = concurrency_preparation_call m"
| "measurement_field m MP_PESSIMISTIC_ADVISORY_TRY_LOCK_CALL = pessimistic_advisory_try_lock_call m"
| "measurement_field m MP_APPEND_ADMISSION_CALL = append_admission_call m"
| "measurement_field m MP_IDEMPOTENCY_RECORD_CALL = idempotency_record_call m"
| "measurement_field m MP_COMMIT_FINALIZATION = commit_finalization m"
| "measurement_field m MP_ROLLBACK_FINALIZATION = rollback_finalization m"

definition was_reached :: "PhaseMeasurement \<Rightarrow> bool" where
  "was_reached m = (pm_state m \<in> {PM_NOT_COLLECTED, PM_MEASURED})"

definition require_same_reach :: "WriteMeasurement \<Rightarrow> MeasurementPhase \<Rightarrow> MeasurementPhase \<Rightarrow> unit res" where
  "require_same_reach self left right =
     (if was_reached (measurement_field self left) \<noteq> was_reached (measurement_field self right)
      then Inl (ValueError (MeasurementPhase_value left @ '' and '' @ MeasurementPhase_value right @ '' must have compatible reached state''))
      else Inr ())"

definition require_parent_reached :: "WriteMeasurement \<Rightarrow> MeasurementPhase \<Rightarrow> MeasurementPhase \<Rightarrow> unit res" where
  "require_parent_reached self child parent =
     (if was_reached (measurement_field self child) \<and> \<not> was_reached (measurement_field self parent)
      then Inl (ValueError (MeasurementPhase_value child @ '' cannot be reached unless '' @ MeasurementPhase_value parent @ '' was reached''))
      else Inr ())"

definition check_finalization :: "WriteMeasurement \<Rightarrow> unit res" where
  "check_finalization self =
     (let uow_reached = was_reached (business_uow self);
          finalization_count = (if was_reached (commit_finalization self) then 1 else 0)
             + (if was_reached (rollback_finalization self) then 1 else (0::int))
      in if uow_reached \<and> finalization_count \<noteq> 1
         then Inl (ValueError ''a reached business_uow requires exactly one reached commit_finalization or rollback_finalization'')
         else if \<not> uow_reached \<and> finalization_count \<noteq> 0
         then Inl (ValueError ''finalization cannot be reached when business_uow was not reached'')
         else Inr ())"

definition WriteMeasurement_init :: "WriteMeasurement \<Rightarrow> WriteMeasurement res" where
  "WriteMeasurement_init self =
     (if pm_state (producer_write_invocation self) \<noteq> PM_MEASURED
      then Inl (ValueError ''producer_write_invocation must be MEASURED for an available normal-return snapshot'')
      else
      bind_res (require_same_reach self MP_PRELIMINARY_IDEMPOTENCY_CHECK MP_PRELIMINARY_READ_CLEANUP) (\<lambda>_.
      bind_res (require_parent_reached self MP_VALIDATION_RUNTIME_CALL MP_ACCEPTED_HISTORY_LOAD) (\<lambda>_.
      bind_res (require_parent_reached self MP_AUTHORITATIVE_IDEMPOTENCY_CHECK MP_BUSINESS_UOW) (\<lambda>_.
      bind_res (require_parent_reached self MP_CONCURRENCY_PREPARATION_CALL MP_AUTHORITATIVE_IDEMPOTENCY_CHECK) (\<lambda>_.
      bind_res (require_parent_reached self MP_PESSIMISTIC_ADVISORY_TRY_LOCK_CALL MP_CONCURRENCY_PREPARATION_CALL) (\<lambda>_.
      bind_res (require_parent_reached self MP_APPEND_ADMISSION_CALL MP_CONCURRENCY_PREPARATION_CALL) (\<lambda>_.
      bind_res (require_parent_reached self MP_IDEMPOTENCY_RECORD_CALL MP_APPEND_ADMISSION_CALL) (\<lambda>_.
      bind_res (require_parent_reached self MP_COMMIT_FINALIZATION MP_IDEMPOTENCY_RECORD_CALL) (\<lambda>_.
      bind_res (require_parent_reached self MP_ROLLBACK_FINALIZATION MP_BUSINESS_UOW) (\<lambda>_.
      bind_res (check_finalization self) (\<lambda>_. Inr self)))))))))))"

datatype MeasurementAvailability = AVAILABLE | UNAVAILABLE

record MeasurementDelivery =
  md_producer_value :: command_result
  md_availability :: MeasurementAvailability
  md_measurement :: "WriteMeasurement option"

definition MeasurementDelivery_init :: "MeasurementDelivery \<Rightarrow> MeasurementDelivery res" where
  "MeasurementDelivery_init self =
     (if md_availability self = AVAILABLE
      then (if md_measurement self = None
            then Inl (TypeError ''measurement must be PostgresWriteSideMeasurement when availability is AVAILABLE'') else Inr self)
      else if md_measurement self \<noteq> None
      then Inl (ValueError ''measurement must be None when availability is UNAVAILABLE'') else Inr self)"

section \<open>The recorder\<close>

datatype clock_reading = Clock_int int | Clock_unusable

record PhaseReading =
  pr_applicable :: bool
  pr_reached :: bool
  pr_elapsed_ns :: "int option"

record MeasurementRecorder =
  mr_clock :: "nat \<Rightarrow> clock_reading"
  mr_reads :: nat
  mr_readings :: "MeasurementPhase \<Rightarrow> PhaseReading"

definition initial_applicability :: "MeasurementPhase \<Rightarrow> ValidationPlacement \<Rightarrow> bool" where
  "initial_applicability phase placement =
     (if phase \<in> set [MP_PRELIMINARY_IDEMPOTENCY_CHECK, MP_PRELIMINARY_READ_CLEANUP] then placement = PRE_TRANSACTION
      else if phase = MP_PESSIMISTIC_ADVISORY_TRY_LOCK_CALL then placement = IN_TRANSACTION
      else True)"

definition new_measurement_recorder :: "ValidationPlacement \<Rightarrow> (nat \<Rightarrow> clock_reading) \<Rightarrow> MeasurementRecorder" where
  "new_measurement_recorder placement clock =
     \<lparr>mr_clock = clock, mr_reads = 0, mr_readings = (\<lambda>phase.
        \<lparr>pr_applicable = initial_applicability phase placement, pr_reached = False, pr_elapsed_ns = None\<rparr>)\<rparr>"

definition read_clock :: "MeasurementRecorder \<Rightarrow> MeasurementRecorder \<times> int option" where
  "read_clock self =
     (self\<lparr>mr_reads := Suc (mr_reads self)\<rparr>,
      case mr_clock self (mr_reads self) of Clock_int n \<Rightarrow> Some n | Clock_unusable \<Rightarrow> None)"

definition set_reading :: "MeasurementRecorder \<Rightarrow> MeasurementPhase \<Rightarrow> PhaseReading \<Rightarrow> MeasurementRecorder" where
  "set_reading self phase reading = self\<lparr>mr_readings := (mr_readings self)(phase := reading)\<rparr>"

definition recorder_start :: "MeasurementRecorder \<Rightarrow> MeasurementPhase \<Rightarrow> MeasurementRecorder \<times> int option" where
  "recorder_start self phase =
     read_clock (set_reading self phase \<lparr>pr_applicable = True, pr_reached = True, pr_elapsed_ns = None\<rparr>)"

definition recorder_finish :: "MeasurementRecorder \<Rightarrow> MeasurementPhase \<Rightarrow> int option \<Rightarrow> MeasurementRecorder" where
  "recorder_finish self phase started_ns =
     (case started_ns of
        None \<Rightarrow> self
      | Some t0 \<Rightarrow>
          (case read_clock self of
             (self1, None) \<Rightarrow> self1
           | (self1, Some t1) \<Rightarrow>
               if t1 < t0 then self1
               else set_reading self1 phase ((mr_readings self1 phase)\<lparr>pr_elapsed_ns := Some (t1 - t0)\<rparr>)))"

definition mark_applicable :: "MeasurementRecorder \<Rightarrow> MeasurementPhase \<Rightarrow> MeasurementRecorder" where
  "mark_applicable self phase =
     (let reading = mr_readings self phase
      in if \<not> pr_reached reading then set_reading self phase (reading\<lparr>pr_applicable := True\<rparr>) else self)"

definition mark_not_applicable :: "MeasurementRecorder \<Rightarrow> MeasurementPhase \<Rightarrow> MeasurementRecorder" where
  "mark_not_applicable self phase =
     (let reading = mr_readings self phase
      in if \<not> pr_reached reading then set_reading self phase (reading\<lparr>pr_applicable := False\<rparr>) else self)"

definition phase_measurement :: "MeasurementRecorder \<Rightarrow> MeasurementPhase \<Rightarrow> PhaseMeasurement res" where
  "phase_measurement self phase =
     (let reading = mr_readings self phase
      in if \<not> pr_applicable reading then PhaseMeasurement_init \<lparr>pm_state = PM_NOT_APPLICABLE, pm_elapsed_ns = None\<rparr>
         else if \<not> pr_reached reading then PhaseMeasurement_init \<lparr>pm_state = PM_NOT_REACHED, pm_elapsed_ns = None\<rparr>
         else if pr_elapsed_ns reading = None then PhaseMeasurement_init \<lparr>pm_state = PM_NOT_COLLECTED, pm_elapsed_ns = None\<rparr>
         else PhaseMeasurement_init \<lparr>pm_state = PM_MEASURED, pm_elapsed_ns = pr_elapsed_ns reading\<rparr>)"

definition build_measurement :: "MeasurementRecorder \<Rightarrow> WriteMeasurement res" where
  "build_measurement self =
     bind_res (phase_measurement self MP_PRODUCER_WRITE_INVOCATION) (\<lambda>m1.
     bind_res (phase_measurement self MP_BUSINESS_UOW) (\<lambda>m2.
     bind_res (phase_measurement self MP_VALIDATION_RUNTIME_CALL) (\<lambda>m3.
     bind_res (phase_measurement self MP_PRELIMINARY_IDEMPOTENCY_CHECK) (\<lambda>m4.
     bind_res (phase_measurement self MP_PRELIMINARY_READ_CLEANUP) (\<lambda>m5.
     bind_res (phase_measurement self MP_AUTHORITATIVE_IDEMPOTENCY_CHECK) (\<lambda>m6.
     bind_res (phase_measurement self MP_ACCEPTED_HISTORY_LOAD) (\<lambda>m7.
     bind_res (phase_measurement self MP_CONCURRENCY_PREPARATION_CALL) (\<lambda>m8.
     bind_res (phase_measurement self MP_PESSIMISTIC_ADVISORY_TRY_LOCK_CALL) (\<lambda>m9.
     bind_res (phase_measurement self MP_APPEND_ADMISSION_CALL) (\<lambda>m10.
     bind_res (phase_measurement self MP_IDEMPOTENCY_RECORD_CALL) (\<lambda>m11.
     bind_res (phase_measurement self MP_COMMIT_FINALIZATION) (\<lambda>m12.
     bind_res (phase_measurement self MP_ROLLBACK_FINALIZATION) (\<lambda>m13.
       WriteMeasurement_init \<lparr>producer_write_invocation = m1, business_uow = m2, validation_runtime_call = m3,
         preliminary_idempotency_check = m4, preliminary_read_cleanup = m5, authoritative_idempotency_check = m6,
         accepted_history_load = m7, concurrency_preparation_call = m8, pessimistic_advisory_try_lock_call = m9,
         append_admission_call = m10, idempotency_record_call = m11, commit_finalization = m12,
         rollback_finalization = m13\<rparr>)))))))))))))"

definition build_delivery :: "MeasurementRecorder \<Rightarrow> command_result \<Rightarrow> MeasurementDelivery res" where
  "build_delivery self producer_value =
     (case bind_res (build_measurement self) (\<lambda>m. MeasurementDelivery_init
             \<lparr>md_producer_value = producer_value, md_availability = AVAILABLE, md_measurement = Some m\<rparr>) of
        Inr delivery \<Rightarrow> Inr delivery
      | Inl _ \<Rightarrow> MeasurementDelivery_init
             \<lparr>md_producer_value = producer_value, md_availability = UNAVAILABLE, md_measurement = None\<rparr>)"

section \<open>What a recorder builds\<close>

text \<open>The rules of a measurement, on the set of the phases that were reached.\<close>

definition topology_ok :: "MeasurementPhase set \<Rightarrow> bool" where
  "topology_ok R \<longleftrightarrow>
     (MP_PRELIMINARY_IDEMPOTENCY_CHECK \<in> R \<longleftrightarrow> MP_PRELIMINARY_READ_CLEANUP \<in> R)
     \<and> (MP_VALIDATION_RUNTIME_CALL \<in> R \<longrightarrow> MP_ACCEPTED_HISTORY_LOAD \<in> R)
     \<and> (MP_AUTHORITATIVE_IDEMPOTENCY_CHECK \<in> R \<longrightarrow> MP_BUSINESS_UOW \<in> R)
     \<and> (MP_CONCURRENCY_PREPARATION_CALL \<in> R \<longrightarrow> MP_AUTHORITATIVE_IDEMPOTENCY_CHECK \<in> R)
     \<and> (MP_PESSIMISTIC_ADVISORY_TRY_LOCK_CALL \<in> R \<longrightarrow> MP_CONCURRENCY_PREPARATION_CALL \<in> R)
     \<and> (MP_APPEND_ADMISSION_CALL \<in> R \<longrightarrow> MP_CONCURRENCY_PREPARATION_CALL \<in> R)
     \<and> (MP_IDEMPOTENCY_RECORD_CALL \<in> R \<longrightarrow> MP_APPEND_ADMISSION_CALL \<in> R)
     \<and> (MP_COMMIT_FINALIZATION \<in> R \<longrightarrow> MP_IDEMPOTENCY_RECORD_CALL \<in> R)
     \<and> (MP_BUSINESS_UOW \<in> R \<longleftrightarrow> MP_COMMIT_FINALIZATION \<in> R \<or> MP_ROLLBACK_FINALIZATION \<in> R)
     \<and> \<not> (MP_COMMIT_FINALIZATION \<in> R \<and> MP_ROLLBACK_FINALIZATION \<in> R)"

lemma require_same_reach_ok: "require_same_reach m l r = Inr u \<longleftrightarrow> (was_reached (measurement_field m l) \<longleftrightarrow> was_reached (measurement_field m r))"
  by (auto simp: require_same_reach_def)

lemma require_parent_reached_ok: "require_parent_reached m l r = Inr u \<longleftrightarrow> (was_reached (measurement_field m l) \<longrightarrow> was_reached (measurement_field m r))"
  by (auto simp: require_parent_reached_def)

lemma check_finalization_ok:
  "check_finalization m = Inr u \<longleftrightarrow> (was_reached (business_uow m) \<longleftrightarrow> was_reached (commit_finalization m) \<or> was_reached (rollback_finalization m))
     \<and> \<not> (was_reached (commit_finalization m) \<and> was_reached (rollback_finalization m))"
  by (auto simp: check_finalization_def Let_def)

lemma WriteMeasurement_accepted:
  "WriteMeasurement_init m = Inr m' \<longleftrightarrow> m' = m \<and> pm_state (producer_write_invocation m) = PM_MEASURED
     \<and> topology_ok {p. was_reached (measurement_field m p)}"
  by (auto simp: WriteMeasurement_init_def bind_res_eq_Inr require_same_reach_ok require_parent_reached_ok
      check_finalization_ok topology_ok_def)

definition reading_ok :: "PhaseReading \<Rightarrow> bool" where
  "reading_ok r \<longleftrightarrow> (pr_reached r \<longrightarrow> pr_applicable r) \<and> (\<forall>n. pr_elapsed_ns r = Some n \<longrightarrow> pr_reached r \<and> 0 \<le> n)"

definition recorder_ok :: "MeasurementRecorder \<Rightarrow> bool" where
  "recorder_ok self \<longleftrightarrow> (\<forall>p. reading_ok (mr_readings self p))"

definition phase_of_reading :: "PhaseReading \<Rightarrow> PhaseMeasurement" where
  "phase_of_reading r =
     \<lparr>pm_state = (if \<not> pr_applicable r then PM_NOT_APPLICABLE else if \<not> pr_reached r then PM_NOT_REACHED
        else if pr_elapsed_ns r = None then PM_NOT_COLLECTED else PM_MEASURED), pm_elapsed_ns = pr_elapsed_ns r\<rparr>"

lemma phase_measurement_eq: "recorder_ok self \<Longrightarrow> phase_measurement self p = Inr (phase_of_reading (mr_readings self p))"
  by (auto simp: phase_measurement_def recorder_ok_def reading_ok_def phase_of_reading_def PhaseMeasurement_init_def Let_def
      split: option.splits dest: spec [of _ p])

lemma reached_of_reading: "reading_ok r \<Longrightarrow> was_reached (phase_of_reading r) \<longleftrightarrow> pr_reached r"
  by (auto simp: was_reached_def phase_of_reading_def reading_ok_def)

definition reached_phases :: "MeasurementRecorder \<Rightarrow> MeasurementPhase set" where
  "reached_phases self = {p. pr_reached (mr_readings self p)}"

definition snapshot_of :: "MeasurementRecorder \<Rightarrow> WriteMeasurement" where
  "snapshot_of self = (let m = phase_of_reading \<circ> mr_readings self in
     \<lparr>producer_write_invocation = m MP_PRODUCER_WRITE_INVOCATION, business_uow = m MP_BUSINESS_UOW,
      validation_runtime_call = m MP_VALIDATION_RUNTIME_CALL, preliminary_idempotency_check = m MP_PRELIMINARY_IDEMPOTENCY_CHECK,
      preliminary_read_cleanup = m MP_PRELIMINARY_READ_CLEANUP, authoritative_idempotency_check = m MP_AUTHORITATIVE_IDEMPOTENCY_CHECK,
      accepted_history_load = m MP_ACCEPTED_HISTORY_LOAD, concurrency_preparation_call = m MP_CONCURRENCY_PREPARATION_CALL,
      pessimistic_advisory_try_lock_call = m MP_PESSIMISTIC_ADVISORY_TRY_LOCK_CALL, append_admission_call = m MP_APPEND_ADMISSION_CALL,
      idempotency_record_call = m MP_IDEMPOTENCY_RECORD_CALL, commit_finalization = m MP_COMMIT_FINALIZATION,
      rollback_finalization = m MP_ROLLBACK_FINALIZATION\<rparr>)"

lemma snapshot_field: "measurement_field (snapshot_of self) p = phase_of_reading (mr_readings self p)"
  by (cases p) (simp_all add: snapshot_of_def Let_def)

lemma snapshot_reached:
  assumes "recorder_ok self"
  shows "was_reached (measurement_field (snapshot_of self) p) \<longleftrightarrow> p \<in> reached_phases self"
  using assms by (simp add: snapshot_field reached_of_reading recorder_ok_def reached_phases_def)

lemma build_measurement_eq: "recorder_ok self \<Longrightarrow> build_measurement self = WriteMeasurement_init (snapshot_of self)"
  by (simp add: build_measurement_def phase_measurement_eq snapshot_of_def Let_def)

lemma build_measurement_accepted:
  assumes "recorder_ok self"
  shows "build_measurement self = Inr m \<longleftrightarrow> m = snapshot_of self
    \<and> pr_elapsed_ns (mr_readings self MP_PRODUCER_WRITE_INVOCATION) \<noteq> None \<and> topology_ok (reached_phases self)"
proof -
  have "pm_state (producer_write_invocation (snapshot_of self)) = PM_MEASURED \<longleftrightarrow> pr_elapsed_ns (mr_readings self MP_PRODUCER_WRITE_INVOCATION) \<noteq> None"
    using assms by (auto simp: snapshot_of_def Let_def phase_of_reading_def recorder_ok_def reading_ok_def split: if_splits)
  moreover have "{p. was_reached (measurement_field (snapshot_of self) p)} = reached_phases self"
    using assms by (simp add: snapshot_reached)
  ultimately show ?thesis using assms by (auto simp: build_measurement_eq WriteMeasurement_accepted)
qed

text \<open>A delivery is always built; it carries the value, and a measurement exactly when one is accepted.\<close>

lemma build_delivery_eq:
  "build_delivery self v = Inr (case build_measurement self of
     Inr m \<Rightarrow> \<lparr>md_producer_value = v, md_availability = AVAILABLE, md_measurement = Some m\<rparr>
   | Inl _ \<Rightarrow> \<lparr>md_producer_value = v, md_availability = UNAVAILABLE, md_measurement = None\<rparr>)"
  by (cases "build_measurement self") (simp_all add: build_delivery_def MeasurementDelivery_init_def)

section \<open>Steps of the recorder\<close>

text \<open>A clock that always gives an integer and never runs backwards.\<close>

definition steady_clock :: "(nat \<Rightarrow> clock_reading) \<Rightarrow> bool" where
  "steady_clock clock \<longleftrightarrow> (\<exists>f. mono f \<and> clock = Clock_int \<circ> f)"

definition uncollected :: "MeasurementRecorder \<Rightarrow> MeasurementPhase set" where
  "uncollected self = {p. pr_reached (mr_readings self p) \<and> pr_elapsed_ns (mr_readings self p) = None}"

text \<open>What every step of a command keeps: the clock, the order of its readings, and, on a steady clock,
  that no phase is left without a value.\<close>

definition later :: "MeasurementRecorder \<Rightarrow> MeasurementRecorder \<Rightarrow> bool" where
  "later self self' \<longleftrightarrow> mr_clock self' = mr_clock self \<and> mr_reads self \<le> mr_reads self' \<and> (recorder_ok self \<longrightarrow> recorder_ok self')
     \<and> (steady_clock (mr_clock self) \<longrightarrow> uncollected self' \<subseteq> uncollected self)"

lemma later_refl [simp]: "later self self"
  by (simp add: later_def)

lemma later_trans: "later a b \<Longrightarrow> later b c \<Longrightarrow> later a c"
  by (auto simp: later_def)

lemma started:
  assumes "recorder_start self p = (self1, t)"
  shows "mr_clock self1 = mr_clock self" and "mr_reads self1 = Suc (mr_reads self)"
    and "reached_phases self1 = insert p (reached_phases self)" and "uncollected self1 = insert p (uncollected self)"
    and "recorder_ok self \<Longrightarrow> recorder_ok self1"
    and "t = (case mr_clock self (mr_reads self) of Clock_int n \<Rightarrow> Some n | Clock_unusable \<Rightarrow> None)"
  using assms by (auto simp: recorder_start_def read_clock_def set_reading_def reached_phases_def uncollected_def recorder_ok_def reading_ok_def split: if_splits)

lemma finished:
  assumes "self1 = recorder_finish self p t" and "p \<in> reached_phases self"
  shows "mr_clock self1 = mr_clock self \<and> mr_reads self \<le> mr_reads self1 \<and> reached_phases self1 = reached_phases self
    \<and> uncollected self1 \<subseteq> uncollected self \<and> (recorder_ok self \<longrightarrow> recorder_ok self1)
    \<and> (\<forall>q. q \<noteq> p \<longrightarrow> mr_readings self1 q = mr_readings self q)"
  using assms
  by (auto simp: recorder_finish_def read_clock_def set_reading_def reached_phases_def uncollected_def recorder_ok_def reading_ok_def
      split: option.splits clock_reading.splits if_splits)

text \<open>On a steady clock, finishing after the start collects the value.\<close>

lemma finished_steady:
  assumes "steady_clock (mr_clock self)" and "t = (case mr_clock self k of Clock_int n \<Rightarrow> Some n | Clock_unusable \<Rightarrow> None)" and "k \<le> mr_reads self"
  shows "uncollected (recorder_finish self p t) = uncollected self - {p} \<and> pr_elapsed_ns (mr_readings (recorder_finish self p t) p) \<noteq> None"
proof -
  from assms(1) obtain f where f: "mono f" "mr_clock self = Clock_int \<circ> f" by (auto simp: steady_clock_def)
  then have "f k \<le> f (mr_reads self)" using assms(3) by (simp add: monoD)
  then show ?thesis using f(2) assms(2) by (auto simp: recorder_finish_def read_clock_def set_reading_def uncollected_def)
qed

end
