(* ===== verification/Measured_Write_Side.thy ===== *)
theory Measured_Write_Side
  imports Measurement Write_Side_Progress
begin

text \<open>
  Durable commands with measurement: the branches of \<open>postgres_write_side.py\<close> with a recorder, the measured unit
  of work and gate of \<open>postgres_write_side_measurement_instrumentation.py\<close>, and the four public
  commands with measurement. A measured command behaves as the plain one, and its measurement tells
  which steps ran.
\<close>

section \<open>Measured computations\<close>

type_synonym 'a mws = "MeasurementRecorder \<times> ws_state \<Rightarrow> (MeasurementRecorder \<times> ws_state) \<times> 'a res"

definition unmeasured :: "'a ws \<Rightarrow> 'a mws" where
  "unmeasured m = (\<lambda>(rec, s). case m s of (s', r) \<Rightarrow> ((rec, s'), r))"

definition mws_return :: "'a \<Rightarrow> 'a mws" where
  "mws_return a st = (st, Inr a)"

definition mws_bind :: "'a mws \<Rightarrow> ('a \<Rightarrow> 'b mws) \<Rightarrow> 'b mws" where
  "mws_bind m f st = (case m st of (st', Inl x) \<Rightarrow> (st', Inl x) | (st', Inr a) \<Rightarrow> f a st')"

definition measure_call :: "MeasurementPhase \<Rightarrow> 'a mws \<Rightarrow> 'a mws" where
  "measure_call phase operation = (\<lambda>(rec, s).
     case recorder_start rec phase of (rec1, started_ns) \<Rightarrow>
       (case operation (rec1, s) of
          (st, Inl x) \<Rightarrow> (st, Inl x)
        | ((rec2, s2), Inr result) \<Rightarrow> ((recorder_finish rec2 phase started_ns, s2), Inr result)))"

text \<open>The measured unit of work: its finalisations, and the \<open>with\<close> statement, whose exit calls them.\<close>

definition uow_commit :: "unit ws" where
  "uow_commit s = (case conn_commit (ws_conn s) of
     (c, Inl x) \<Rightarrow> (s\<lparr>ws_conn := c\<rparr>, Inl x)
   | (c, Inr _) \<Rightarrow> (s\<lparr>ws_conn := c, ws_finished := True\<rparr>, Inr ()))"

definition measured_commit :: "unit mws" where
  "measured_commit = measure_call MP_COMMIT_FINALIZATION (unmeasured uow_commit)"

definition measured_rollback :: "unit mws" where
  "measured_rollback = measure_call MP_ROLLBACK_FINALIZATION (unmeasured uow_rollback)"

definition uow_exit :: "unit res \<Rightarrow> unit mws" where
  "uow_exit raised st =
     (if ws_finished (snd st) then (st, raised)
      else case raised of
             Inl x \<Rightarrow> (case measured_rollback st of (st', Inl y) \<Rightarrow> (st', Inl y) | (st', Inr _) \<Rightarrow> (st', Inl x))
           | Inr _ \<Rightarrow> measured_commit st)"

text \<open>\<open>__exit__\<close> finishes the phase unless the finalisation raised; here \<open>raised\<close> is the exception of the body,
  which the interpreter raises again afterwards.\<close>

definition measured_with_uow :: "'a mws \<Rightarrow> 'a mws" where
  "measured_with_uow body = (\<lambda>(rec, s).
     case recorder_start rec MP_BUSINESS_UOW of (rec1, started_ns) \<Rightarrow>
       if autocommit (ws_conn s)
       then ((rec1, s), Inl (RuntimeError ''PostgresWriteSideUnitOfWork requires connection.autocommit=False''))
       else case body (rec1, s\<lparr>ws_finished := False\<rparr>) of
         (st, Inl x) \<Rightarrow>
           (case uow_exit (Inl x) st of ((rec2, s2), _) \<Rightarrow> ((recorder_finish rec2 MP_BUSINESS_UOW started_ns, s2), Inl x))
       | (st, Inr a) \<Rightarrow>
           (case uow_exit (Inr ()) st of
              (st2, Inl x) \<Rightarrow> (st2, Inl x)
            | ((rec2, s2), Inr _) \<Rightarrow> ((recorder_finish rec2 MP_BUSINESS_UOW started_ns, s2), Inr a)))"

text \<open>\<open>try: body finally: recorder.measure_call(PRELIMINARY_READ_CLEANUP, self._connection.rollback)\<close>.\<close>

definition measured_finally_rollback :: "'a mws \<Rightarrow> 'a mws" where
  "measured_finally_rollback body st =
     (case body st of (st1, r) \<Rightarrow>
        (case measure_call MP_PRELIMINARY_READ_CLEANUP (unmeasured (\<lambda>s. (s\<lparr>ws_conn := conn_rollback (ws_conn s)\<rparr>, Inr ()))) st1 of
           (st2, _) \<Rightarrow> (st2, r)))"

text \<open>The measured pessimistic gate measures its try-lock; another gate is left as it is.\<close>

definition instrument_concrete_pessimistic_gate :: "admission_gate \<Rightarrow> admission_gate mws" where
  "instrument_concrete_pessimistic_gate gate = (\<lambda>(rec, s).
     if gate_strategy_of gate = Pessimistic
     then ((mark_applicable rec MP_PESSIMISTIC_ADVISORY_TRY_LOCK_CALL, s), Inr (new_gate Pessimistic))
     else ((mark_not_applicable rec MP_PESSIMISTIC_ADVISORY_TRY_LOCK_CALL, s), Inr gate))"

definition measured_try_lock_stream :: "string \<Rightarrow> bool mws" where
  "measured_try_lock_stream order_id =
     measure_call MP_PESSIMISTIC_ADVISORY_TRY_LOCK_CALL (unmeasured (on_conn (\<lambda>c. try_lock_stream c order_id)))"

definition measured_prepare_stream :: "admission_gate \<Rightarrow> string \<Rightarrow> (admission_gate \<times> StreamAdmissionResult) mws" where
  "measured_prepare_stream g order_id st =
     (if gate_strategy_of g = Pessimistic
      then (if autocommit (ws_conn (snd st))
            then (st, Inr (g, \<lparr>sa_verdict = INFRASTRUCTURE_ERROR,
                   sa_reason = ''PostgreSQL pessimistic admission gate requires a transaction-scoped connection, but connection.autocommit is enabled'',
                   sa_order_id = order_id\<rparr>))
            else mws_bind (measured_try_lock_stream order_id) (\<lambda>lock_acquired. mws_return
              (if \<not> lock_acquired
               then (g, \<lparr>sa_verdict = LOCK_TIMEOUT,
                      sa_reason = ''Stream lock was not available for PostgreSQL pessimistic admission gate: order_id='' @ order_id,
                      sa_order_id = order_id\<rparr>)
               else (g\<lparr>prepared_order_ids := List.insert order_id (prepared_order_ids g)\<rparr>,
                     \<lparr>sa_verdict = ADMITTED,
                      sa_reason = ''Stream lock acquired by PostgreSQL pessimistic admission gate: order_id='' @ order_id,
                      sa_order_id = order_id\<rparr>))) st)
      else unmeasured (prepare_stream g order_id) st)"

section \<open>Measured commands\<close>

definition measured_in_transaction_command ::
  "write_side \<Rightarrow> string \<Rightarrow> string \<Rightarrow> decimal \<Rightarrow> CommandType \<Rightarrow> (OrderAggregate \<Rightarrow> OrderEvent res)
   \<Rightarrow> command_result mws" where
  "measured_in_transaction_command self request_id order_id amount command_type build_candidate_event =
     (let signature = \<lparr>sig_request_id = request_id, sig_command_type = command_type,
                       sig_order_id = order_id, sig_amount = amount\<rparr>
      in measured_with_uow (
        mws_bind (unmeasured (record_checkpoint BUSINESS_UOW_REACHED)) (\<lambda>_.
        mws_bind (measure_call MP_AUTHORITATIVE_IDEMPOTENCY_CHECK (unmeasured (on_conn (\<lambda>c. pg_check c signature)))) (\<lambda>idempotency_decision.
        mws_bind (unmeasured (record_checkpoint AUTHORITATIVE_IDEMPOTENCY_CHECK_RETURNED)) (\<lambda>_.
        if id_verdict idempotency_decision = REPLAY
        then mws_bind measured_rollback (\<lambda>_.
             mws_bind (unmeasured (ws_lift (accepted_event_from_replay idempotency_decision))) (\<lambda>accepted_event.
               unmeasured (finalize_result (plain_result OUT_REPLAY (Some accepted_event) idempotency_decision))))
        else if id_verdict idempotency_decision = CONFLICT
        then mws_bind measured_rollback (\<lambda>_.
               unmeasured (finalize_result (plain_result OUT_CONFLICT None idempotency_decision)))
        else
        mws_bind (instrument_concrete_pessimistic_gate (new_gate (wsd_gate_strategy self)))  (\<lambda>admission_gate.
        mws_bind (measure_call MP_CONCURRENCY_PREPARATION_CALL (measured_prepare_stream admission_gate order_id)) (\<lambda>(gate, stream_admission_result).
        mws_bind (unmeasured (record_checkpoint CONCURRENCY_PREPARATION_RETURNED)) (\<lambda>_.
        if \<not> stream_admitted stream_admission_result
        then mws_bind measured_rollback (\<lambda>_.
               unmeasured (finalize_result ((plain_result OUT_ADMISSION_REJECTED None idempotency_decision)
                 \<lparr>wr_stream_admission_result := Some stream_admission_result\<rparr>)))
        else
        mws_bind (measure_call MP_ACCEPTED_HISTORY_LOAD (unmeasured (on_conn (\<lambda>c. pg_load c order_id)))) (\<lambda>events.
        mws_bind (unmeasured (record_checkpoint ACCEPTED_HISTORY_OBSERVED)) (\<lambda>_.
        mws_bind (unmeasured (ws_lift (rehydrate_aggregate_from_history order_id events))) (\<lambda>aggregate.
        let prev_event = (if events \<noteq> [] then Some (last events) else None);
            validation_context = build_validation_context aggregate prev_event
        in
        mws_bind (unmeasured (ws_lift (build_candidate_event aggregate))) (\<lambda>candidate_event.
        mws_bind (measure_call MP_VALIDATION_RUNTIME_CALL (unmeasured (ws_lift (invoke_validation (wsd_validation_runtime self) candidate_event validation_context))))
          (\<lambda>(validation_decision, validation_decision_evidence).
        mws_bind (unmeasured (record_checkpoint VALIDATION_RETURNED)) (\<lambda>_.
        if vd_action validation_decision \<noteq> ALLOW
        then mws_bind measured_rollback (\<lambda>_.
               unmeasured (finalize_result ((plain_result OUT_VALIDATION_BLOCKED None idempotency_decision)
                 \<lparr>wr_stream_admission_result := Some stream_admission_result,
                  wr_validation_decision := Some validation_decision,
                  wr_validation_decision_evidence := validation_decision_evidence\<rparr>)))
        else
        mws_bind (measure_call MP_APPEND_ADMISSION_CALL (unmeasured (on_conn (\<lambda>c. gate_append_if_admitted gate c candidate_event (current_version aggregate)))))
          (\<lambda>admission_result.
        mws_bind (unmeasured (record_checkpoint APPEND_ADMISSION_RETURNED)) (\<lambda>_.
        if \<not> admission_admitted admission_result
        then mws_bind measured_rollback (\<lambda>_.
               unmeasured (finalize_result ((plain_result OUT_ADMISSION_REJECTED None idempotency_decision)
                 \<lparr>wr_stream_admission_result := Some stream_admission_result,
                  wr_validation_decision := Some validation_decision,
                  wr_admission_result := Some admission_result,
                  wr_validation_decision_evidence := validation_decision_evidence\<rparr>)))
        else
        mws_bind (measure_call MP_IDEMPOTENCY_RECORD_CALL (unmeasured (on_conn (\<lambda>c. pg_record c signature candidate_event)))) (\<lambda>_.
        mws_bind (unmeasured (record_checkpoint IDEMPOTENCY_PERSISTENCE_RETURNED)) (\<lambda>_.
          unmeasured (finalize_result ((plain_result OUT_ACCEPTED (Some candidate_event) idempotency_decision)
            \<lparr>wr_stream_admission_result := Some stream_admission_result,
             wr_validation_decision := Some validation_decision,
             wr_admission_result := Some admission_result,
             wr_validation_decision_evidence := validation_decision_evidence\<rparr>))))))))))))))))))))"

definition measured_read_phase ::
  "RequestSignature \<Rightarrow> string \<Rightarrow> (command_result + IdempotencyDecision \<times> OrderEvent list) mws" where
  "measured_read_phase signature order_id =
     measured_finally_rollback (
       mws_bind (measure_call MP_PRELIMINARY_IDEMPOTENCY_CHECK (unmeasured (on_conn (\<lambda>c. pg_check c signature)))) (\<lambda>preliminary_idempotency_decision.
       mws_bind (unmeasured (record_checkpoint PRELIMINARY_IDEMPOTENCY_CHECK_RETURNED)) (\<lambda>_.
       if id_verdict preliminary_idempotency_decision = REPLAY
       then mws_bind (unmeasured (ws_lift (accepted_event_from_replay preliminary_idempotency_decision))) (\<lambda>accepted_event.
            mws_bind (unmeasured (finalize_result
                (plain_result OUT_REPLAY (Some accepted_event) preliminary_idempotency_decision))) (\<lambda>result.
              mws_return (Inl result)))
       else if id_verdict preliminary_idempotency_decision = CONFLICT
       then mws_bind (unmeasured (finalize_result (plain_result OUT_CONFLICT None preliminary_idempotency_decision))) (\<lambda>result.
              mws_return (Inl result))
       else
       mws_bind (measure_call MP_ACCEPTED_HISTORY_LOAD (unmeasured (on_conn (\<lambda>c. pg_load c order_id)))) (\<lambda>events.
       mws_bind (unmeasured (record_checkpoint ACCEPTED_HISTORY_OBSERVED)) (\<lambda>_.
         mws_return (Inr (preliminary_idempotency_decision, events)))))))"

definition measured_transaction_uow ::
  "write_side \<Rightarrow> RequestSignature \<Rightarrow> string \<Rightarrow> OrderEvent \<Rightarrow> int \<Rightarrow> ValidationDecision
   \<Rightarrow> ValidationDecisionWithRuleEvidence option \<Rightarrow> command_result mws" where
  "measured_transaction_uow self signature order_id candidate_event expected validation_decision
      validation_decision_evidence =
     measured_with_uow (
       mws_bind (unmeasured (record_checkpoint BUSINESS_UOW_REACHED)) (\<lambda>_.
       mws_bind (measure_call MP_AUTHORITATIVE_IDEMPOTENCY_CHECK (unmeasured (on_conn (\<lambda>c. pg_check c signature)))) (\<lambda>authoritative_idempotency_decision.
       mws_bind (unmeasured (record_checkpoint AUTHORITATIVE_IDEMPOTENCY_CHECK_RETURNED)) (\<lambda>_.
       if id_verdict authoritative_idempotency_decision = REPLAY
       then mws_bind measured_rollback (\<lambda>_.
            mws_bind (unmeasured (ws_lift (accepted_event_from_replay authoritative_idempotency_decision))) (\<lambda>accepted_event.
              unmeasured (finalize_result ((plain_result OUT_REPLAY (Some accepted_event) authoritative_idempotency_decision)
                \<lparr>wr_validation_decision := Some validation_decision,
                 wr_validation_decision_evidence := validation_decision_evidence\<rparr>))))
       else if id_verdict authoritative_idempotency_decision = CONFLICT
       then mws_bind measured_rollback (\<lambda>_.
              unmeasured (finalize_result ((plain_result OUT_CONFLICT None authoritative_idempotency_decision)
                \<lparr>wr_validation_decision := Some validation_decision,
                 wr_validation_decision_evidence := validation_decision_evidence\<rparr>)))
       else
       mws_bind (instrument_concrete_pessimistic_gate (new_gate (wsd_gate_strategy self)))  (\<lambda>admission_gate.
        mws_bind (measure_call MP_CONCURRENCY_PREPARATION_CALL (measured_prepare_stream admission_gate order_id)) (\<lambda>(gate, stream_admission_result).
       mws_bind (unmeasured (record_checkpoint CONCURRENCY_PREPARATION_RETURNED)) (\<lambda>_.
       if \<not> stream_admitted stream_admission_result
       then mws_bind measured_rollback (\<lambda>_.
              unmeasured (finalize_result ((plain_result OUT_ADMISSION_REJECTED None authoritative_idempotency_decision)
                \<lparr>wr_stream_admission_result := Some stream_admission_result,
                 wr_validation_decision := Some validation_decision,
                 wr_validation_decision_evidence := validation_decision_evidence\<rparr>)))
       else
       mws_bind (measure_call MP_APPEND_ADMISSION_CALL (unmeasured (on_conn (\<lambda>c. gate_append_if_admitted gate c candidate_event expected)))) (\<lambda>admission_result.
       mws_bind (unmeasured (record_checkpoint APPEND_ADMISSION_RETURNED)) (\<lambda>_.
       if \<not> admission_admitted admission_result
       then mws_bind measured_rollback (\<lambda>_.
              unmeasured (finalize_result ((plain_result OUT_ADMISSION_REJECTED None authoritative_idempotency_decision)
                \<lparr>wr_stream_admission_result := Some stream_admission_result,
                 wr_validation_decision := Some validation_decision,
                 wr_admission_result := Some admission_result,
                 wr_validation_decision_evidence := validation_decision_evidence\<rparr>)))
       else
       mws_bind (measure_call MP_IDEMPOTENCY_RECORD_CALL (unmeasured (on_conn (\<lambda>c. pg_record c signature candidate_event)))) (\<lambda>_.
       mws_bind (unmeasured (record_checkpoint IDEMPOTENCY_PERSISTENCE_RETURNED)) (\<lambda>_.
         unmeasured (finalize_result ((plain_result OUT_ACCEPTED (Some candidate_event) authoritative_idempotency_decision)
           \<lparr>wr_stream_admission_result := Some stream_admission_result,
            wr_validation_decision := Some validation_decision,
            wr_admission_result := Some admission_result,
            wr_validation_decision_evidence := validation_decision_evidence\<rparr>)))))))))))))"

definition measured_pre_transaction_command ::
  "write_side \<Rightarrow> string \<Rightarrow> string \<Rightarrow> decimal \<Rightarrow> CommandType \<Rightarrow> (OrderAggregate \<Rightarrow> OrderEvent res)
   \<Rightarrow> command_result mws" where
  "measured_pre_transaction_command self request_id order_id amount command_type build_candidate_event =
     (let signature = \<lparr>sig_request_id = request_id, sig_command_type = command_type,
                       sig_order_id = order_id, sig_amount = amount\<rparr>
      in
      mws_bind (measured_read_phase signature order_id) (\<lambda>read.
      case read of
        Inl result \<Rightarrow> mws_return result
      | Inr (preliminary_idempotency_decision, events) \<Rightarrow>
          mws_bind (unmeasured (ws_lift (rehydrate_aggregate_from_history order_id events))) (\<lambda>aggregate.
          let prev_event = (if events \<noteq> [] then Some (last events) else None);
              validation_context = build_validation_context aggregate prev_event
          in
          mws_bind (unmeasured (ws_lift (build_candidate_event aggregate))) (\<lambda>candidate_event.
          mws_bind (measure_call MP_VALIDATION_RUNTIME_CALL (unmeasured (ws_lift (invoke_validation (wsd_validation_runtime self) candidate_event validation_context))))
            (\<lambda>(validation_decision, validation_decision_evidence).
          mws_bind (unmeasured (record_checkpoint VALIDATION_RETURNED)) (\<lambda>_.
          if vd_action validation_decision \<noteq> ALLOW
          then unmeasured (finalize_result ((plain_result OUT_VALIDATION_BLOCKED None preliminary_idempotency_decision)
                 \<lparr>wr_validation_decision := Some validation_decision,
                  wr_validation_decision_evidence := validation_decision_evidence\<rparr>))
          else measured_transaction_uow self signature order_id candidate_event (current_version aggregate)
                 validation_decision validation_decision_evidence))))))"

definition measured_execute_command ::
  "write_side \<Rightarrow> string \<Rightarrow> string \<Rightarrow> decimal \<Rightarrow> CommandType \<Rightarrow> (OrderAggregate \<Rightarrow> OrderEvent res)
   \<Rightarrow> command_result mws" where
  "measured_execute_command self request_id order_id amount command_type build_candidate_event =
     (case cfg_validation_placement (wsd_config self) of
        IN_TRANSACTION \<Rightarrow>
          measured_in_transaction_command self request_id order_id amount command_type build_candidate_event
      | PRE_TRANSACTION \<Rightarrow>
          measured_pre_transaction_command self request_id order_id amount command_type build_candidate_event)"

definition execute_command_with_measurement ::
  "write_side \<Rightarrow> (nat \<Rightarrow> clock_reading) \<Rightarrow> string \<Rightarrow> string \<Rightarrow> decimal \<Rightarrow> CommandType \<Rightarrow> (OrderAggregate \<Rightarrow> OrderEvent res)
   \<Rightarrow> trace_collector option \<Rightarrow> pg_conn \<Rightarrow> pg_conn \<times> MeasurementDelivery res" where
  "execute_command_with_measurement self clock request_id order_id amount command_type build_candidate_event collector c =
     (case recorder_start (new_measurement_recorder (cfg_validation_placement (wsd_config self)) clock) MP_PRODUCER_WRITE_INVOCATION of
        (rec, producer_started_ns) \<Rightarrow>
          (case measured_execute_command self request_id order_id amount command_type build_candidate_event
                  (rec, \<lparr>ws_conn = c, ws_finished = False, ws_collector = collector\<rparr>) of
             ((rec1, s), Inl x) \<Rightarrow> (ws_conn s, Inl x)
           | ((rec1, s), Inr producer_value) \<Rightarrow>
               (ws_conn s, build_delivery (recorder_finish rec1 MP_PRODUCER_WRITE_INVOCATION producer_started_ns) producer_value)))"

definition create_order_with_measurement ::
  "write_side \<Rightarrow> (nat \<Rightarrow> clock_reading) \<Rightarrow> pg_conn \<Rightarrow> string \<Rightarrow> int \<Rightarrow> string \<Rightarrow> string \<Rightarrow> decimal \<Rightarrow> pg_conn \<times> MeasurementDelivery res" where
  "create_order_with_measurement self clock c new_event_id now_ms request_id order_id amount =
     execute_command_with_measurement self clock request_id order_id amount CREATE
       (\<lambda>aggregate. aggregate_create aggregate new_event_id now_ms request_id amount) None c"

definition create_order_with_trace_and_measurement ::
  "write_side \<Rightarrow> (nat \<Rightarrow> clock_reading) \<Rightarrow> pg_conn \<Rightarrow> string \<Rightarrow> int \<Rightarrow> string \<Rightarrow> string \<Rightarrow> decimal \<Rightarrow> pg_conn \<times> MeasurementDelivery res" where
  "create_order_with_trace_and_measurement self clock c new_event_id now_ms request_id order_id amount =
     execute_command_with_measurement self clock request_id order_id amount CREATE
       (\<lambda>aggregate. aggregate_create aggregate new_event_id now_ms request_id amount)
       (Some (new_collector (cfg_validation_placement (wsd_config self)))) c"

definition pay_order_with_measurement ::
  "write_side \<Rightarrow> (nat \<Rightarrow> clock_reading) \<Rightarrow> pg_conn \<Rightarrow> string \<Rightarrow> int \<Rightarrow> string \<Rightarrow> string \<Rightarrow> decimal \<Rightarrow> pg_conn \<times> MeasurementDelivery res" where
  "pay_order_with_measurement self clock c new_event_id now_ms request_id order_id amount =
     execute_command_with_measurement self clock request_id order_id amount PAY
       (\<lambda>aggregate. aggregate_pay aggregate new_event_id now_ms request_id amount) None c"

definition pay_order_with_trace_and_measurement ::
  "write_side \<Rightarrow> (nat \<Rightarrow> clock_reading) \<Rightarrow> pg_conn \<Rightarrow> string \<Rightarrow> int \<Rightarrow> string \<Rightarrow> string \<Rightarrow> decimal \<Rightarrow> pg_conn \<times> MeasurementDelivery res" where
  "pay_order_with_trace_and_measurement self clock c new_event_id now_ms request_id order_id amount =
     execute_command_with_measurement self clock request_id order_id amount PAY
       (\<lambda>aggregate. aggregate_pay aggregate new_event_id now_ms request_id amount)
       (Some (new_collector (cfg_validation_placement (wsd_config self)))) c"

definition measured_command ::
  "write_side \<Rightarrow> (nat \<Rightarrow> clock_reading) \<Rightarrow> bool \<Rightarrow> pg_conn \<Rightarrow> command \<Rightarrow> pg_conn \<times> MeasurementDelivery res" where
  "measured_command w clock traced c cmd =
     (case cmd_type cmd of
        CREATE \<Rightarrow> (if traced then create_order_with_trace_and_measurement else create_order_with_measurement) w clock c
          (cmd_event_id cmd) (cmd_now cmd) (cmd_request_id cmd) (cmd_order_id cmd) (cmd_amount cmd)
      | PAY \<Rightarrow> (if traced then pay_order_with_trace_and_measurement else pay_order_with_measurement) w clock c
          (cmd_event_id cmd) (cmd_now cmd) (cmd_request_id cmd) (cmd_order_id cmd) (cmd_amount cmd))"

section \<open>A measured command is the plain one\<close>

text \<open>The state and the result of a measured computation are those of a plain one, whatever the recorder holds.\<close>

definition shadows :: "'a mws \<Rightarrow> 'a ws \<Rightarrow> bool" where
  "shadows m w \<longleftrightarrow> (\<forall>rec s. \<exists>rec'. m (rec, s) = ((rec', fst (w s)), snd (w s)))"

lemma shadowsE:
  assumes "shadows m w"
  obtains rec' where "m (rec, s) = ((rec', fst (w s)), snd (w s))"
  using assms by (auto simp: shadows_def)

lemma shadows_unmeasured [intro]: "shadows (unmeasured w) w"
  by (auto simp: shadows_def unmeasured_def split: prod.splits)

lemma shadows_return [intro]: "shadows (mws_return a) (ws_return a)"
  by (simp add: shadows_def mws_return_def ws_return_def)

lemma shadows_bind [intro]:
  assumes "shadows m w" and "\<And>a. shadows (f a) (g a)"
  shows "shadows (mws_bind m f) (ws_bind w g)"
  unfolding shadows_def
proof (intro allI)
  fix rec s
  obtain s1 r where w: "w s = (s1, r)" by force
  obtain rec1 where m: "m (rec, s) = ((rec1, s1), r)" using shadowsE [OF assms(1)] w by (metis fst_conv snd_conv)
  show "\<exists>rec'. mws_bind m f (rec, s) = ((rec', fst (ws_bind w g s)), snd (ws_bind w g s))"
  proof (cases r)
    case (Inr a)
    then show ?thesis using shadowsE [OF assms(2) [of a], of rec1 s1] m w by (auto simp: mws_bind_def ws_bind_def)
  qed (simp add: mws_bind_def ws_bind_def m w)
qed

lemma shadows_measure_call [intro]:
  assumes "shadows m w"
  shows "shadows (measure_call p m) w"
  unfolding shadows_def
proof (intro allI)
  fix rec s
  obtain rec1 t where "recorder_start rec p = (rec1, t)" by force
  moreover obtain rec2 where "m (rec1, s) = ((rec2, fst (w s)), snd (w s))" by (rule shadowsE [OF assms])
  ultimately show "\<exists>rec'. measure_call p m (rec, s) = ((rec', fst (w s)), snd (w s))"
    by (cases "snd (w s)") (simp_all add: measure_call_def)
qed

lemma shadows_rollback [intro]: "shadows measured_rollback uow_rollback"
  unfolding measured_rollback_def by blast

lemma shadows_commit: "shadows measured_commit uow_commit"
  unfolding measured_commit_def by blast

lemma shadows_with_uow [intro]:
  assumes "shadows m w"
  shows "shadows (measured_with_uow m) (with_uow w)"
  unfolding shadows_def
proof (intro allI)
  fix rec s
  obtain rec1 t where st: "recorder_start rec MP_BUSINESS_UOW = (rec1, t)" by force
  obtain s1 r where w: "w (s\<lparr>ws_finished := False\<rparr>) = (s1, r)" by force
  obtain rec2 where m: "m (rec1, s\<lparr>ws_finished := False\<rparr>) = ((rec2, s1), r)"
    using shadowsE [OF assms] w by (metis fst_conv snd_conv)
  obtain rec3 where rb: "measured_rollback (rec2, s1) = ((rec3, fst (uow_rollback s1)), snd (uow_rollback s1))"
    by (rule shadowsE [OF shadows_rollback])
  obtain rec4 where cm: "measured_commit (rec2, s1) = ((rec4, fst (uow_commit s1)), snd (uow_commit s1))"
    by (rule shadowsE [OF shadows_commit])
  show "\<exists>rec'. measured_with_uow m (rec, s) = ((rec', fst (with_uow w s)), snd (with_uow w s))"
    using rb cm
    by (cases r; cases "conn_commit (ws_conn s1)"; cases "snd (conn_commit (ws_conn s1))")
       (auto simp: measured_with_uow_def with_uow_def st m w uow_exit_def uow_rollback_def uow_commit_def)
qed

lemma shadows_finally [intro]:
  assumes "shadows m w"
  shows "shadows (measured_finally_rollback m) (finally_rollback w)"
  unfolding shadows_def
proof (intro allI)
  fix rec s
  let ?roll = "(\<lambda>s. (s\<lparr>ws_conn := conn_rollback (ws_conn s)\<rparr>, Inr ())) :: unit ws"
  obtain s1 r where w: "w s = (s1, r)" by force
  obtain rec1 where m: "m (rec, s) = ((rec1, s1), r)" using shadowsE [OF assms] w by (metis fst_conv snd_conv)
  have "shadows (measure_call MP_PRELIMINARY_READ_CLEANUP (unmeasured ?roll)) ?roll" by blast
  then obtain rec2 where "measure_call MP_PRELIMINARY_READ_CLEANUP (unmeasured ?roll) (rec1, s1) = ((rec2, fst (?roll s1)), snd (?roll s1))"
    unfolding shadows_def by blast
  then show "\<exists>rec'. measured_finally_rollback m (rec, s) = ((rec', fst (finally_rollback w s)), snd (finally_rollback w s))"
    by (simp add: measured_finally_rollback_def finally_rollback_def m w)
qed

lemma shadows_prepare [intro]: "shadows (measured_prepare_stream g oid) (prepare_stream g oid)"
  unfolding shadows_def
proof (intro allI)
  fix rec s
  let ?lock = "on_conn (\<lambda>c. try_lock_stream c oid)"
  have "shadows (measured_try_lock_stream oid) ?lock" unfolding measured_try_lock_stream_def by blast
  then obtain rec1 where l: "measured_try_lock_stream oid (rec, s) = ((rec1, fst (?lock s)), snd (?lock s))" by (rule shadowsE)
  show "\<exists>rec'. measured_prepare_stream g oid (rec, s) = ((rec', fst (prepare_stream g oid s)), snd (prepare_stream g oid s))"
  proof (cases "gate_strategy_of g")
    case Optimistic
    then show ?thesis by (simp add: measured_prepare_stream_def unmeasured_def split: prod.splits)
  next
    case Pessimistic
    obtain c1 q where "try_lock_stream (ws_conn s) oid = (c1, q)" by force
    with l Pessimistic show ?thesis
      by (cases q) (auto simp: measured_prepare_stream_def prepare_stream_def gate_prepare_stream_def on_conn_def mws_bind_def mws_return_def)
  qed
qed

lemma shadows_instrument [intro]:
  assumes "shadows (m (new_gate st)) w"
  shows "shadows (mws_bind (instrument_concrete_pessimistic_gate (new_gate st)) m) w"
  unfolding shadows_def
proof (intro allI)
  fix rec s
  obtain rec1 where "instrument_concrete_pessimistic_gate (new_gate st) (rec, s) = ((rec1, s), Inr (new_gate st))"
    by (cases st) (auto simp: instrument_concrete_pessimistic_gate_def new_gate_def)
  moreover obtain rec2 where "m (new_gate st) (rec1, s) = ((rec2, fst (w s)), snd (w s))" by (rule shadowsE [OF assms])
  ultimately show "\<exists>rec'. mws_bind (instrument_concrete_pessimistic_gate (new_gate st)) m (rec, s) = ((rec', fst (w s)), snd (w s))"
    by (simp add: mws_bind_def)
qed

lemma shadows_if [intro]: "(b \<Longrightarrow> shadows m w) \<Longrightarrow> (\<not> b \<Longrightarrow> shadows m' w') \<Longrightarrow> shadows (if b then m else m') (if b then w else w')"
  by simp

lemma shadows_prod [intro]:
  assumes "\<And>a b. shadows (f a b) (g a b)"
  shows "shadows (case p of (a, b) \<Rightarrow> f a b) (case p of (a, b) \<Rightarrow> g a b)"
  using assms by (cases p) simp

lemma shadows_sum [intro]:
  assumes "\<And>a. shadows (f a) (f' a)" and "\<And>b. shadows (g b) (g' b)"
  shows "shadows (case p of Inl a \<Rightarrow> f a | Inr b \<Rightarrow> g b) (case p of Inl a \<Rightarrow> f' a | Inr b \<Rightarrow> g' b)"
  using assms by (cases p) simp_all

lemmas shadows_rules = shadows_instrument shadows_bind shadows_unmeasured shadows_return shadows_measure_call shadows_rollback
  shadows_with_uow shadows_finally shadows_prepare shadows_if shadows_prod shadows_sum

lemma shadows_in_transaction:
  "shadows (measured_in_transaction_command w rid oid amt ct bld) (execute_in_transaction_command w rid oid amt ct bld)"
  unfolding measured_in_transaction_command_def execute_in_transaction_command_def Let_def
  by (rule shadows_rules)+

lemma shadows_transaction_uow:
  "shadows (measured_transaction_uow w sg oid e v d x) (pre_transaction_uow w sg oid e v d x)"
  unfolding measured_transaction_uow_def pre_transaction_uow_def
  by (rule shadows_rules)+

lemma shadows_read_phase: "shadows (measured_read_phase sg oid) (preliminary_read_phase sg oid)"
  unfolding measured_read_phase_def preliminary_read_phase_def
  by (rule shadows_rules)+

lemma shadows_pre_transaction:
  "shadows (measured_pre_transaction_command w rid oid amt ct bld) (execute_pre_transaction_command w rid oid amt ct bld)"
  unfolding measured_pre_transaction_command_def execute_pre_transaction_command_def Let_def
  by (rule shadows_rules shadows_read_phase shadows_transaction_uow)+

lemma shadows_execute: "shadows (measured_execute_command w rid oid amt ct bld) (execute_command w rid oid amt ct bld)"
  using shadows_in_transaction shadows_pre_transaction
  by (cases "cfg_validation_placement (wsd_config w)") (simp_all add: measured_execute_command_def execute_command_def)

section \<open>The phases that a command reaches\<close>

text \<open>\<open>runs m Q R f\<close>: from a recorder that has reached \<open>R\<close> and a unit of work with finished flag \<open>f\<close>, every
  normal return of \<open>m\<close> is in \<open>Q\<close>.\<close>

definition runs :: "'a mws \<Rightarrow> ('a \<Rightarrow> MeasurementPhase set \<Rightarrow> bool \<Rightarrow> bool) \<Rightarrow> MeasurementPhase set \<Rightarrow> bool \<Rightarrow> bool" where
  "runs m Q R f \<longleftrightarrow> (\<forall>rec s rec' s' a. reached_phases rec = R \<longrightarrow> ws_finished s = f \<longrightarrow> m (rec, s) = ((rec', s'), Inr a) \<longrightarrow>
     later rec rec' \<and> R \<subseteq> reached_phases rec' \<and> Q a (reached_phases rec') (ws_finished s'))"

lemma runsI:
  assumes "\<And>rec s rec' s' a. reached_phases rec = R \<Longrightarrow> ws_finished s = f \<Longrightarrow> m (rec, s) = ((rec', s'), Inr a) \<Longrightarrow>
     later rec rec' \<and> R \<subseteq> reached_phases rec' \<and> Q a (reached_phases rec') (ws_finished s')"
  shows "runs m Q R f"
  using assms unfolding runs_def by blast

lemma runsD:
  assumes "runs m Q R f" and "m (rec, s) = ((rec', s'), Inr a)" and "reached_phases rec = R" and "ws_finished s = f"
  shows "later rec rec' \<and> R \<subseteq> reached_phases rec' \<and> Q a (reached_phases rec') (ws_finished s')"
  using assms unfolding runs_def by blast

lemma runs_return: "Q a R f \<Longrightarrow> runs (mws_return a) Q R f"
  by (simp add: runs_def mws_return_def)

lemma runs_bind:
  assumes "runs m (\<lambda>a. runs (g a) Q) R f"
  shows "runs (mws_bind m g) Q R f"
proof (rule runsI)
  fix rec s rec' s' b
  assume start: "reached_phases rec = R" "ws_finished s = f" and run: "mws_bind m g (rec, s) = ((rec', s'), Inr b)"
  obtain rec1 s1 r where m: "m (rec, s) = ((rec1, s1), r)" by (metis surj_pair)
  with run obtain a where a: "r = Inr a" "g a (rec1, s1) = ((rec', s'), Inr b)" by (cases r) (auto simp: mws_bind_def)
  from runsD [OF assms m [unfolded a(1)] start]
  have m1: "later rec rec1" "R \<subseteq> reached_phases rec1" "runs (g a) Q (reached_phases rec1) (ws_finished s1)" by auto
  from runsD [OF m1(3) a(2) refl refl] m1 show "later rec rec' \<and> R \<subseteq> reached_phases rec' \<and> Q b (reached_phases rec') (ws_finished s')"
    using later_trans by blast
qed

lemma runs_unmeasured:
  assumes "\<And>s s' a. w s = (s', Inr a) \<Longrightarrow> ws_finished s = f \<Longrightarrow> Q a R (ws_finished s')"
  shows "runs (unmeasured w) Q R f"
  using assms by (fastforce simp: runs_def unmeasured_def split: prod.splits)

lemma runs_checkpoint: "Q () R f \<Longrightarrow> runs (unmeasured (record_checkpoint cp)) Q R f"
  by (rule runs_unmeasured) (auto simp: record_checkpoint_def split: option.splits sum.splits)

lemma runs_lift: "(\<And>a. Q a R f) \<Longrightarrow> runs (unmeasured (ws_lift r)) Q R f"
  by (rule runs_unmeasured) (auto simp: ws_lift_def)

lemma runs_conn: "(\<And>a. Q a R f) \<Longrightarrow> runs (unmeasured (on_conn g)) Q R f"
  by (rule runs_unmeasured) (auto simp: on_conn_def split: prod.splits)

lemma runs_finalize:
  assumes "\<And>a. wr_outcome (primary_result a) = wr_outcome r \<Longrightarrow> Q a R f"
  shows "runs (unmeasured (finalize_result r)) Q R f"
proof (rule runs_unmeasured)
  fix s s' a
  assume run: "finalize_result r s = (s', Inr a)" and "ws_finished s = f"
  moreover from run have "wr_outcome (primary_result a) = wr_outcome r"
    by (auto simp: finalize_result_def bind_res_eq_Inr PostgresWriteSideResult_init_def PostgresWriteSideExecution_init_def
        split: option.splits if_splits)
  moreover from run have "s' = s" by (simp add: finalize_result_def)
  ultimately show "Q a R (ws_finished s')" using assms by simp
qed

lemma measured_interval:
  assumes "recorder_start rec p = (rec1, t)" and "later rec1 rec2" and "reached_phases rec1 \<subseteq> reached_phases rec2"
  shows "later rec (recorder_finish rec2 p t) \<and> reached_phases (recorder_finish rec2 p t) = reached_phases rec2"
proof -
  note s = started [OF assms(1)]
  have p: "p \<in> reached_phases rec2" using s(3) assms(3) by auto
  note fin = finished [OF refl this, of t]
  have "uncollected (recorder_finish rec2 p t) \<subseteq> uncollected rec" if "steady_clock (mr_clock rec)"
  proof -
    have "uncollected (recorder_finish rec2 p t) = uncollected rec2 - {p}"
      using finished_steady [of rec2 t "mr_reads rec" p] that s(1,2,6) assms(2) by (simp add: later_def)
    also have "\<dots> \<subseteq> uncollected rec" using that s(1,4) assms(2) by (auto simp: later_def)
    finally show ?thesis .
  qed
  then show ?thesis using fin s assms(2) by (auto simp: later_def)
qed

lemma runs_measure:
  assumes "runs m Q (insert p R) f"
  shows "runs (measure_call p m) Q R f"
proof (rule runsI)
  fix rec s rec' s' a
  assume start: "reached_phases rec = R" "ws_finished s = f" and run: "measure_call p m (rec, s) = ((rec', s'), Inr a)"
  obtain rec1 t where t: "recorder_start rec p = (rec1, t)" by force
  with run obtain rec2 where m: "m (rec1, s) = ((rec2, s'), Inr a)" and rec': "rec' = recorder_finish rec2 p t"
    by (auto simp: measure_call_def split: prod.splits sum.splits)
  have r1: "reached_phases rec1 = insert p R" using started(3) [OF t] start(1) by simp
  from runsD [OF assms m r1 start(2)] measured_interval [OF t, of rec2] r1 rec'
  show "later rec rec' \<and> R \<subseteq> reached_phases rec' \<and> Q a (reached_phases rec') (ws_finished s')" by auto
qed

lemma runs_rollback: "Q () (insert MP_ROLLBACK_FINALIZATION R) True \<Longrightarrow> runs measured_rollback Q R f"
  unfolding measured_rollback_def by (rule runs_measure, rule runs_unmeasured) (auto simp: uow_rollback_def)

lemma runs_commit: "Q () (insert MP_COMMIT_FINALIZATION R) True \<Longrightarrow> runs measured_commit Q R f"
  unfolding measured_commit_def by (rule runs_measure, rule runs_unmeasured) (auto simp: uow_commit_def split: prod.splits sum.splits)

lemma runs_exit: "(f \<Longrightarrow> Q () R True) \<Longrightarrow> (\<not> f \<Longrightarrow> Q () (insert MP_COMMIT_FINALIZATION R) True) \<Longrightarrow> runs (uow_exit (Inr ())) Q R f"
  using runs_commit [of Q R f] by (cases f) (fastforce simp: runs_def uow_exit_def)+

lemma runs_with_uow:
  assumes "runs m (\<lambda>a R' f'. Q a (if f' then R' else insert MP_COMMIT_FINALIZATION R') True) (insert MP_BUSINESS_UOW R) False"
  shows "runs (measured_with_uow m) Q R f"
proof (rule runsI)
  fix rec s rec' s' a
  assume start: "reached_phases rec = R" "ws_finished s = f" and run: "measured_with_uow m (rec, s) = ((rec', s'), Inr a)"
  obtain rec1 t where t: "recorder_start rec MP_BUSINESS_UOW = (rec1, t)" by force
  with run obtain rec2 s2 rec3 where m: "m (rec1, s\<lparr>ws_finished := False\<rparr>) = ((rec2, s2), Inr a)"
    and x: "uow_exit (Inr ()) (rec2, s2) = ((rec3, s'), Inr ())" and rec': "rec' = recorder_finish rec3 MP_BUSINESS_UOW t"
    by (auto simp: measured_with_uow_def split: prod.splits sum.splits if_splits)
  have r1: "reached_phases rec1 = insert MP_BUSINESS_UOW R" using started(3) [OF t] start(1) by simp
  from runsD [OF assms m r1]
  have m2: "later rec1 rec2" "insert MP_BUSINESS_UOW R \<subseteq> reached_phases rec2"
    "Q a (if ws_finished s2 then reached_phases rec2 else insert MP_COMMIT_FINALIZATION (reached_phases rec2)) True" by auto
  then have "runs (uow_exit (Inr ())) (\<lambda>_ R' f'. Q a R' f') (reached_phases rec2) (ws_finished s2)"
    by (intro runs_exit) auto
  from runsD [OF this x refl refl] have x3: "later rec2 rec3" "reached_phases rec2 \<subseteq> reached_phases rec3" "Q a (reached_phases rec3) (ws_finished s')"
    by auto
  have "reached_phases rec1 \<subseteq> reached_phases rec3" using r1 m2(2) x3(2) by blast
  from measured_interval [OF t later_trans [OF m2(1) x3(1)] this] r1 m2(2) x3 rec'
  show "later rec rec' \<and> R \<subseteq> reached_phases rec' \<and> Q a (reached_phases rec') (ws_finished s')" by auto
qed

lemma runs_finally:
  assumes "runs m (\<lambda>a R'. Q a (insert MP_PRELIMINARY_READ_CLEANUP R')) R f"
  shows "runs (measured_finally_rollback m) Q R f"
proof (rule runsI)
  fix rec s rec' s' a
  let ?roll = "(\<lambda>s. (s\<lparr>ws_conn := conn_rollback (ws_conn s)\<rparr>, Inr ())) :: unit ws"
  assume start: "reached_phases rec = R" "ws_finished s = f" and run: "measured_finally_rollback m (rec, s) = ((rec', s'), Inr a)"
  then obtain rec1 s1 u where m: "m (rec, s) = ((rec1, s1), Inr a)"
    and x: "measure_call MP_PRELIMINARY_READ_CLEANUP (unmeasured ?roll) (rec1, s1) = ((rec', s'), Inr u)"
    by (auto simp: measured_finally_rollback_def measure_call_def unmeasured_def split: prod.splits)
  from runsD [OF assms m start] have m1: "later rec rec1" "R \<subseteq> reached_phases rec1"
    "Q a (insert MP_PRELIMINARY_READ_CLEANUP (reached_phases rec1)) (ws_finished s1)" by auto
  then have "runs (measure_call MP_PRELIMINARY_READ_CLEANUP (unmeasured ?roll)) (\<lambda>_. Q a) (reached_phases rec1) (ws_finished s1)"
    by (intro runs_measure runs_unmeasured) auto
  from runsD [OF this x refl refl] m1 show "later rec rec' \<and> R \<subseteq> reached_phases rec' \<and> Q a (reached_phases rec') (ws_finished s')"
    using later_trans by blast
qed

lemma marked:
  "later rec (mark_applicable rec p)" "reached_phases (mark_applicable rec p) = reached_phases rec"
  "later rec (mark_not_applicable rec p)" "reached_phases (mark_not_applicable rec p) = reached_phases rec"
  by (auto simp: later_def mark_applicable_def mark_not_applicable_def Let_def set_reading_def reached_phases_def uncollected_def
      recorder_ok_def reading_ok_def split: if_splits) (meson not_None_eq)+

lemma runs_instrument:
  assumes "\<And>g. runs (m g) Q R f"
  shows "runs (mws_bind (instrument_concrete_pessimistic_gate g) m) Q R f"
proof (rule runs_bind)
  show "runs (instrument_concrete_pessimistic_gate g) (\<lambda>a. runs (m a) Q) R f"
    using assms by (intro runsI) (auto simp: instrument_concrete_pessimistic_gate_def marked split: if_splits)
qed

lemma runs_prepare:
  assumes "\<And>a. Q a R f" and "\<And>a. Q a (insert MP_PESSIMISTIC_ADVISORY_TRY_LOCK_CALL R) f"
  shows "runs (measured_prepare_stream g oid) Q R f"
proof -
  have "runs (mws_bind (measured_try_lock_stream oid) (\<lambda>b. mws_return (h b))) Q R f" for h :: "bool \<Rightarrow> admission_gate \<times> StreamAdmissionResult"
    unfolding measured_try_lock_stream_def by (intro runs_bind runs_measure runs_conn runs_return assms)
  moreover have "runs (unmeasured (prepare_stream g oid)) Q R f"
    unfolding prepare_stream_def by (intro runs_conn assms)
  ultimately show ?thesis
    using assms(1) by (auto simp: runs_def measured_prepare_stream_def split: if_splits)
qed

lemma runs_if: "(b \<Longrightarrow> runs m Q R f) \<Longrightarrow> (\<not> b \<Longrightarrow> runs m' Q R f) \<Longrightarrow> runs (if b then m else m') Q R f"
  by simp

lemma runs_prod: "(\<And>a b. runs (h a b) Q R f) \<Longrightarrow> runs (case p of (a, b) \<Rightarrow> h a b) Q R f"
  by (cases p) simp

lemmas runs_rules = runs_instrument runs_prepare runs_bind runs_measure runs_checkpoint runs_lift runs_conn runs_finalize runs_rollback
  runs_with_uow runs_finally runs_return runs_if runs_prod

definition coherent_return :: "command_result \<Rightarrow> MeasurementPhase set \<Rightarrow> bool \<Rightarrow> bool" where
  "coherent_return a R f \<longleftrightarrow> topology_ok R \<and> (MP_COMMIT_FINALIZATION \<in> R \<longleftrightarrow> wr_outcome (primary_result a) = OUT_ACCEPTED)"

lemma runs_in_transaction:
  "runs (measured_in_transaction_command w rid oid amt ct bld) coherent_return {MP_PRODUCER_WRITE_INVOCATION} False"
  unfolding measured_in_transaction_command_def Let_def
  by (rule runs_rules | simp add: coherent_return_def topology_ok_def)+

lemma runs_transaction_uow:
  assumes "R = {MP_PRODUCER_WRITE_INVOCATION, MP_PRELIMINARY_IDEMPOTENCY_CHECK, MP_PRELIMINARY_READ_CLEANUP,
    MP_ACCEPTED_HISTORY_LOAD, MP_VALIDATION_RUNTIME_CALL}"
  shows "runs (measured_transaction_uow w sg oid e v d x) coherent_return R f"
  unfolding measured_transaction_uow_def assms
  by (rule runs_rules | simp add: coherent_return_def topology_ok_def)+

lemma runs_read_phase:
  "runs (measured_read_phase sg oid) (\<lambda>a R f. f = f0 \<and> (case a of
      Inl b \<Rightarrow> coherent_return b R f
    | Inr _ \<Rightarrow> R = {MP_PRODUCER_WRITE_INVOCATION, MP_PRELIMINARY_IDEMPOTENCY_CHECK, MP_PRELIMINARY_READ_CLEANUP, MP_ACCEPTED_HISTORY_LOAD}))
    {MP_PRODUCER_WRITE_INVOCATION} f0"
  unfolding measured_read_phase_def
  by (rule runs_rules | auto simp: coherent_return_def topology_ok_def)+

lemma runs_conseq:
  assumes "runs m Q' R f" and "\<And>a R' f'. Q' a R' f' \<Longrightarrow> Q a R' f'"
  shows "runs m Q R f"
  using assms by (auto simp: runs_def)

lemma runs_pre_transaction:
  "runs (measured_pre_transaction_command w rid oid amt ct bld) coherent_return {MP_PRODUCER_WRITE_INVOCATION} False"
  unfolding measured_pre_transaction_command_def Let_def
proof (rule runs_bind, rule runs_conseq [OF runs_read_phase], elim conjE)
  fix a :: "command_result + IdempotencyDecision \<times> OrderEvent list" and R' f'
  let ?k = "\<lambda>read. case read of Inl result \<Rightarrow> mws_return result
    | Inr (preliminary_idempotency_decision, events) \<Rightarrow>
        mws_bind (unmeasured (ws_lift (rehydrate_aggregate_from_history oid events))) (\<lambda>aggregate.
        mws_bind (unmeasured (ws_lift (bld aggregate))) (\<lambda>candidate_event.
        mws_bind (measure_call MP_VALIDATION_RUNTIME_CALL (unmeasured (ws_lift (invoke_validation (wsd_validation_runtime w) candidate_event
            (build_validation_context aggregate (if events \<noteq> [] then Some (last events) else None))))))
          (\<lambda>(validation_decision, validation_decision_evidence).
        mws_bind (unmeasured (record_checkpoint VALIDATION_RETURNED)) (\<lambda>_.
        if vd_action validation_decision \<noteq> ALLOW
        then unmeasured (finalize_result ((plain_result OUT_VALIDATION_BLOCKED None preliminary_idempotency_decision)
               \<lparr>wr_validation_decision := Some validation_decision,
                wr_validation_decision_evidence := validation_decision_evidence\<rparr>))
        else measured_transaction_uow w \<lparr>sig_request_id = rid, sig_command_type = ct, sig_order_id = oid, sig_amount = amt\<rparr> oid
               candidate_event (current_version aggregate) validation_decision validation_decision_evidence))))"
  assume r: "case a of Inl b \<Rightarrow> coherent_return b R' f'
    | Inr _ \<Rightarrow> R' = {MP_PRODUCER_WRITE_INVOCATION, MP_PRELIMINARY_IDEMPOTENCY_CHECK, MP_PRELIMINARY_READ_CLEANUP, MP_ACCEPTED_HISTORY_LOAD}"
  show "runs (?k a) coherent_return R' f'"
  proof (cases a)
    case (Inl b)
    with r show ?thesis by (simp add: runs_return)
  next
    case (Inr x)
    with r have R': "R' = {MP_PRODUCER_WRITE_INVOCATION, MP_PRELIMINARY_IDEMPOTENCY_CHECK, MP_PRELIMINARY_READ_CLEANUP, MP_ACCEPTED_HISTORY_LOAD}" by simp
    show ?thesis unfolding Inr R' sum.case
      by (rule runs_rules runs_transaction_uow | auto simp: coherent_return_def topology_ok_def)+
  qed
qed

lemma runs_execute: "runs (measured_execute_command w rid oid amt ct bld) coherent_return {MP_PRODUCER_WRITE_INVOCATION} False"
  using runs_in_transaction runs_pre_transaction
  by (cases "cfg_validation_placement (wsd_config w)") (simp_all add: measured_execute_command_def)

section \<open>The delivery\<close>

text \<open>What a delivery says of a normal return: the value itself; a measurement that the rules of the contract
  accept, unless the clock failed for the whole invocation; and in it the commit is reached exactly
  for an accepted command.\<close>

definition delivery_ok :: "(nat \<Rightarrow> clock_reading) \<Rightarrow> command_result \<Rightarrow> MeasurementDelivery \<Rightarrow> bool" where
  "delivery_ok clock v d \<longleftrightarrow> md_producer_value d = v \<and> (md_availability d = AVAILABLE \<longleftrightarrow> md_measurement d \<noteq> None)
     \<and> (steady_clock clock \<longrightarrow> md_availability d = AVAILABLE)
     \<and> (\<forall>m. md_measurement d = Some m \<longrightarrow> WriteMeasurement_init m = Inr m
          \<and> (was_reached (commit_finalization m) \<longleftrightarrow> wr_outcome (primary_result v) = OUT_ACCEPTED)
          \<and> (steady_clock clock \<longrightarrow> (\<forall>p. pm_state (measurement_field m p) \<noteq> PM_NOT_COLLECTED)))"

lemma measured_delivery:
  assumes "recorder_start (new_measurement_recorder pl clock) MP_PRODUCER_WRITE_INVOCATION = (rec, t)"
    and "later rec rec1" and "MP_PRODUCER_WRITE_INVOCATION \<in> reached_phases rec1" and "coherent_return v (reached_phases rec1) f"
  shows "\<exists>d. build_delivery (recorder_finish rec1 MP_PRODUCER_WRITE_INVOCATION t) v = Inr d \<and> delivery_ok clock v d"
proof -
  let ?rec2 = "recorder_finish rec1 MP_PRODUCER_WRITE_INVOCATION t"
  have new: "recorder_ok (new_measurement_recorder pl clock)" "uncollected (new_measurement_recorder pl clock) = {}"
    "mr_clock (new_measurement_recorder pl clock) = clock"
    by (auto simp: new_measurement_recorder_def recorder_ok_def reading_ok_def uncollected_def)
  note s = started [OF assms(1)]
  note fin = finished [OF refl assms(3), of t]
  have ok: "recorder_ok ?rec2" using s(5) new(1) assms(2) fin by (auto simp: later_def)
  have topo: "topology_ok (reached_phases ?rec2)" "MP_COMMIT_FINALIZATION \<in> reached_phases ?rec2 \<longleftrightarrow> wr_outcome (primary_result v) = OUT_ACCEPTED"
    using fin assms(4) by (auto simp: coherent_return_def)
  have steady: "uncollected ?rec2 = {} \<and> pr_elapsed_ns (mr_readings ?rec2 MP_PRODUCER_WRITE_INVOCATION) \<noteq> None" if "steady_clock clock"
  proof -
    have "steady_clock (mr_clock rec1)" "mr_reads (new_measurement_recorder pl clock) \<le> mr_reads rec1" "mr_clock rec1 = mr_clock (new_measurement_recorder pl clock)"
      using that assms(2) s(1,2) new(3) by (auto simp: later_def)
    from finished_steady [OF this(1) _ this(2), of t MP_PRODUCER_WRITE_INVOCATION] s(6) this(3)
    have "uncollected ?rec2 = uncollected rec1 - {MP_PRODUCER_WRITE_INVOCATION}" "pr_elapsed_ns (mr_readings ?rec2 MP_PRODUCER_WRITE_INVOCATION) \<noteq> None"
      by simp_all
    moreover have "uncollected rec1 \<subseteq> {MP_PRODUCER_WRITE_INVOCATION}" using assms(2) s(1,4) new(2,3) that by (auto simp: later_def)
    ultimately show ?thesis by auto
  qed
  let ?m = "snapshot_of ?rec2"
  have reached: "was_reached (commit_finalization ?m) \<longleftrightarrow> wr_outcome (primary_result v) = OUT_ACCEPTED"
    using snapshot_reached [OF ok, of MP_COMMIT_FINALIZATION] topo(2) by simp
  have collected: "pm_state (measurement_field ?m p) \<noteq> PM_NOT_COLLECTED" if "steady_clock clock" for p
    using steady [OF that] by (auto simp: snapshot_field phase_of_reading_def uncollected_def)
  show ?thesis
  proof (cases "pr_elapsed_ns (mr_readings ?rec2 MP_PRODUCER_WRITE_INVOCATION) = None")
    case True
    then have "\<not> steady_clock clock" "build_measurement ?rec2 \<noteq> Inr m" for m
      using steady build_measurement_accepted [OF ok] by auto
    then show ?thesis by (cases "build_measurement ?rec2") (auto simp: build_delivery_eq delivery_ok_def)
  next
    case False
    then have built: "build_measurement ?rec2 = Inr ?m" using build_measurement_accepted [OF ok] topo(1) by simp
    then have "WriteMeasurement_init ?m = Inr ?m" using build_measurement_eq [OF ok] by simp
    then show ?thesis using built reached collected by (simp add: build_delivery_eq delivery_ok_def)
  qed
qed

lemma measured_command_eq:
  "measured_command w clock traced c cmd =
     execute_command_with_measurement w clock (cmd_request_id cmd) (cmd_order_id cmd) (cmd_amount cmd) (cmd_type cmd)
       (\<lambda>a. aggregate_command (cmd_type cmd) a (cmd_event_id cmd) (cmd_now cmd) (cmd_request_id cmd) (cmd_amount cmd))
       (if traced then Some (new_collector (cfg_validation_placement (wsd_config w))) else None) c"
  by (cases "cmd_type cmd") (simp_all add: measured_command_def create_order_with_measurement_def pay_order_with_measurement_def
      create_order_with_trace_and_measurement_def pay_order_with_trace_and_measurement_def)

text \<open>C39: A command with measurement, traced or not, under either placement and gate, whatever other sessions
  and failures do and whatever its clock gives, leaves the connection exactly as the plain command does.
  It raises the exception of the plain command, or it delivers the value of the plain command: with a
  measurement that the rules of the contract accept, in which the commit was reached exactly when the
  command was accepted, or as unavailable, which a steady clock excludes. On a steady clock no
  phase that was reached is left without its elapsed time.\<close>

theorem measured_command_transparent:
  assumes "measured_command w clock traced c cmd = (c', q)"
  shows "\<exists>r. durable_command w traced c cmd = (c', r)
    \<and> (case r of
         Inl x \<Rightarrow> q = Inl x
       | Inr v \<Rightarrow> \<exists>d. q = Inr d \<and> md_producer_value d = v \<and> (md_availability d = AVAILABLE \<longleftrightarrow> md_measurement d \<noteq> None)
           \<and> (steady_clock clock \<longrightarrow> md_availability d = AVAILABLE)
           \<and> (\<forall>m. md_measurement d = Some m \<longrightarrow> WriteMeasurement_init m = Inr m
                \<and> (was_reached (commit_finalization m) \<longleftrightarrow> wr_outcome (primary_result v) = OUT_ACCEPTED)
                \<and> (steady_clock clock \<longrightarrow> (\<forall>p. pm_state (measurement_field m p) \<noteq> PM_NOT_COLLECTED))))"
proof -
  let ?exec = "execute_command w (cmd_request_id cmd) (cmd_order_id cmd) (cmd_amount cmd) (cmd_type cmd)
    (\<lambda>a. aggregate_command (cmd_type cmd) a (cmd_event_id cmd) (cmd_now cmd) (cmd_request_id cmd) (cmd_amount cmd))"
  let ?mexec = "measured_execute_command w (cmd_request_id cmd) (cmd_order_id cmd) (cmd_amount cmd) (cmd_type cmd)
    (\<lambda>a. aggregate_command (cmd_type cmd) a (cmd_event_id cmd) (cmd_now cmd) (cmd_request_id cmd) (cmd_amount cmd))"
  let ?s = "\<lparr>ws_conn = c, ws_finished = False,
    ws_collector = (if traced then Some (new_collector (cfg_validation_placement (wsd_config w))) else None)\<rparr>"
  obtain rec t where t: "recorder_start (new_measurement_recorder (cfg_validation_placement (wsd_config w)) clock) MP_PRODUCER_WRITE_INVOCATION = (rec, t)"
    by force
  obtain s1 r where r: "?exec ?s = (s1, r)" by force
  obtain rec1 where m: "?mexec (rec, ?s) = ((rec1, s1), r)"
    using shadowsE [OF shadows_execute] r by (metis fst_conv snd_conv)
  have plain: "durable_command w traced c cmd = (ws_conn s1, r)" by (simp add: durable_command_eq run_command_def r)
  show ?thesis
  proof (cases r)
    case (Inl x)
    with assms t m plain show ?thesis by (simp add: measured_command_eq execute_command_with_measurement_def)
  next
    case (Inr v)
    have "reached_phases rec = {MP_PRODUCER_WRITE_INVOCATION}"
      using started(3) [OF t] by (simp add: reached_phases_def new_measurement_recorder_def)
    from runsD [OF runs_execute m [unfolded Inr] this] obtain d where
      d: "build_delivery (recorder_finish rec1 MP_PRODUCER_WRITE_INVOCATION t) v = Inr d" "delivery_ok clock v d"
      using measured_delivery [OF t, of rec1 v] by auto
    have "c' = ws_conn s1" "q = Inr d"
      using assms t m Inr d(1) by (simp_all add: measured_command_eq execute_command_with_measurement_def)
    with plain Inr d(2) show ?thesis by (simp add: delivery_ok_def)
  qed
qed

definition ticking_clock :: "nat \<Rightarrow> clock_reading" where
  "ticking_clock n = Clock_int (int n)"

theorem measured_command_transparent_witness:
  "\<exists>c' d m. measured_command (sample_write_side PRE_TRANSACTION Optimistic) ticking_clock False sample_conn sample_command = (c', Inr d)
     \<and> md_measurement d = Some m \<and> was_reached (commit_finalization m) \<and> pm_state (producer_write_invocation m) = PM_MEASURED"
proof -
  obtain c1 r where run: "durable_command (sample_write_side PRE_TRANSACTION Optimistic) False sample_conn sample_command = (c1, Inr (Primary r))"
    "wr_outcome r = OUT_ACCEPTED" by (rule sample_run)
  obtain c' q where q: "measured_command (sample_write_side PRE_TRANSACTION Optimistic) ticking_clock False sample_conn sample_command = (c', q)"
    by force
  have "mono int" by (auto intro: monoI)
  then have steady: "steady_clock ticking_clock" by (auto simp: steady_clock_def ticking_clock_def fun_eq_iff)
  from measured_command_transparent [OF q] run steady obtain d m where d: "q = Inr d" "md_measurement d = Some m" "WriteMeasurement_init m = Inr m"
    "was_reached (commit_finalization m)" by auto
  from d(3) have "pm_state (producer_write_invocation m) = PM_MEASURED" by (simp add: WriteMeasurement_accepted)
  with q d show ?thesis by blast
qed

end
