(* ===== verification/Contract_Yaml.thy ===== *)
theory Contract_Yaml
  imports Correctness_Contract Runtime_Decision "HOL-Library.List_Lexorder" "HOL-Library.Char_ord" "HOL-Library.Multiset"
begin

text \<open>
  The readability projection of a correctness contract
  (src/core/order/correctness_contract_yaml_projection.py): the nested mapping that is built from a contract, and
  its rendering as text. The projection is a Python value; the type checks of the renderer are checks
  on that value. Characters are bytes, so a string has no character above 255.
\<close>

section \<open>Values of the vocabularies\<close>

fun CorrectnessCategory_value :: "CorrectnessCategory \<Rightarrow> string" where
  "CorrectnessCategory_value COMMAND_LEGALITY = ''COMMAND_LEGALITY''"
| "CorrectnessCategory_value CANDIDATE_CONSTRUCTION = ''CANDIDATE_CONSTRUCTION''"
| "CorrectnessCategory_value TRUSTED_APPLICATION = ''TRUSTED_APPLICATION''"
| "CorrectnessCategory_value TRANSITION_TRUTH = ''TRANSITION_TRUTH''"

fun RuleSubject_value :: "RuleSubject \<Rightarrow> string" where
  "RuleSubject_value AGGREGATE_COMMAND = ''AGGREGATE_COMMAND''"
| "RuleSubject_value CANDIDATE_EVENT = ''CANDIDATE_EVENT''"
| "RuleSubject_value PREDECESSOR_CLAIM = ''PREDECESSOR_CLAIM''"
| "RuleSubject_value TRUSTED_EVENT_APPLICATION = ''TRUSTED_EVENT_APPLICATION''"
| "RuleSubject_value ACCEPTED_CONTEXT_COMPARISON = ''ACCEPTED_CONTEXT_COMPARISON''"

fun MoneyRoundingMode_value :: "MoneyRoundingMode \<Rightarrow> string" where
  "MoneyRoundingMode_value ROUND_HALF_EVEN = ''ROUND_HALF_EVEN''"

fun AmountConstraintKind_value :: "AmountConstraintKind \<Rightarrow> string" where
  "AmountConstraintKind_value NORMALIZED_VALUE_GREATER_THAN_ZERO = ''NORMALIZED_VALUE_GREATER_THAN_ZERO''"
| "AmountConstraintKind_value NORMALIZED_VALUE_EQUALS_CURRENT_TOTAL_AMOUNT = ''NORMALIZED_VALUE_EQUALS_CURRENT_TOTAL_AMOUNT''"

section \<open>The projection\<close>

definition ORDER_CORRECTNESS_CONTRACT_YAML_PROJECTION_VERSION :: int where
  "ORDER_CORRECTNESS_CONTRACT_YAML_PROJECTION_VERSION = 1"

definition GENERATED_FILE_HEADER :: "string list" where
  "GENERATED_FILE_HEADER =
     [''# Generated readability projection.'',
      ''# Canonical Python Order Correctness Contract V0 is authoritative.'',
      ''# Do not edit manually or load as production runtime authority.'']"

definition CATEGORY_ORDER :: "CorrectnessCategory list" where
  "CATEGORY_ORDER = [COMMAND_LEGALITY, CANDIDATE_CONSTRUCTION, TRUSTED_APPLICATION, TRANSITION_TRUTH]"

definition STATUS_PRESENTATION_ORDER :: "OrderStatus list" where
  "STATUS_PRESENTATION_ORDER = [INIT, CREATED, PAID]"

text \<open>\<open>str\<close> of a \<open>Decimal\<close>: plain digits while the exponent is not positive and the value is not too small,
  scientific notation otherwise.\<close>

fun decimal_str :: "decimal \<Rightarrow> string" where
  "decimal_str (Dec s c e) =
     (let digits = show_nat c;
          leftdigits = e + int (length digits);
          dotplace = (if e \<le> 0 \<and> leftdigits > - 6 then leftdigits else 1);
          intpart = (if dotplace \<le> 0 then ''0''
             else if dotplace \<ge> int (length digits) then digits @ replicate (nat (dotplace - int (length digits))) (CHR ''0'')
             else take (nat dotplace) digits);
          fracpart = (if dotplace \<le> 0 then ''.'' @ replicate (nat (- dotplace)) (CHR ''0'') @ digits
             else if dotplace \<ge> int (length digits) then '''' else ''.'' @ drop (nat dotplace) digits);
          exponent = (if leftdigits = dotplace then ''''
             else ''E'' @ (if leftdigits - dotplace < 0 then '''' else ''+'') @ show_int (leftdigits - dotplace))
      in (if s then ''-'' else '''') @ intpart @ fracpart @ exponent)"
| "decimal_str (Infinity s) = (if s then ''-Infinity'' else ''Infinity'')"
| "decimal_str NaN = ''NaN''"

definition decimal_string :: "decimal \<Rightarrow> string \<Rightarrow> string res" where
  "decimal_string v field_name =
     (if \<not> is_finite v then Inl (ValueError (field_name @ '' must be finite'')) else Inr (decimal_str v))"

definition sorted_enum_values :: "('a \<Rightarrow> string) \<Rightarrow> 'a set \<Rightarrow> string list" where
  "sorted_enum_values value_of members = sorted_list_of_set (value_of ` members)"

definition ordered_status_values :: "OrderStatus set \<Rightarrow> string \<Rightarrow> string list res" where
  "ordered_status_values supplied field_name =
     (if supplied \<noteq> set STATUS_PRESENTATION_ORDER
      then Inl (ValueError (field_name @ '' must exactly match projection v1 status vocabulary''))
      else Inr (map OrderStatus_value STATUS_PRESENTATION_ORDER))"

abbreviation str_dict :: "(string \<times> pyval) list \<Rightarrow> pyval" where
  "str_dict items \<equiv> VDict (map (\<lambda>(k, v). (VStr k, v)) items)"

definition project_rule :: "CorrectnessRule \<Rightarrow> pyval" where
  "project_rule rule = str_dict [(''rule_id'', VStr (OrderCorrectnessRuleId_value (cr_rule_id rule))),
     (''semantic_proposition'', VStr (cr_semantic_proposition rule)), (''subject'', VStr (RuleSubject_value (cr_subject rule)))]"

definition project_category_rules :: "CorrectnessRule list \<Rightarrow> CorrectnessCategory \<Rightarrow> pyval" where
  "project_category_rules rs category =
     VList (map project_rule (sort_key (OrderCorrectnessRuleId_value \<circ> cr_rule_id) (filter (\<lambda>rule. cr_category rule = category) rs)))"

definition project_transition :: "AllowedTransition \<Rightarrow> pyval" where
  "project_transition transition = str_dict
     [(''rule_id'', VStr (OrderCorrectnessRuleId_value (legality_rule_id transition))),
      (''command'', VStr (CommandType_value (at_command transition))),
      (''predecessor_status'', VStr (OrderStatus_value (predecessor_status transition))),
      (''candidate_event_type'', VStr (EventType_value (candidate_event_type transition))),
      (''resulting_status'', VStr (OrderStatus_value (resulting_status transition)))]"

definition project_amount_constraint :: "CommandAmountConstraint \<Rightarrow> pyval" where
  "project_amount_constraint constraint = str_dict
     [(''rule_id'', VStr (OrderCorrectnessRuleId_value (ac_rule_id constraint))),
      (''command'', VStr (CommandType_value (ac_command constraint))),
      (''constraint'', VStr (AmountConstraintKind_value (ac_constraint constraint)))]"

definition build_order_correctness_contract_yaml_projection :: "OrderCorrectnessContract \<Rightarrow> pyval res" where
  "build_order_correctness_contract_yaml_projection contract =
     (if CorrectnessCategory_value ` cr_category ` set (rules contract) \<noteq> CorrectnessCategory_value ` set CATEGORY_ORDER
      then Inl (ValueError ''contract rules must exactly cover YAML projection v1 categories'')
      else
      bind_res (ordered_status_values (statuses contract) ''contract.statuses'') (\<lambda>projected_statuses.
      bind_res (decimal_string (normalization_quantum contract) ''contract.normalization_quantum'') (\<lambda>projected_quantum.
      Inr (str_dict
        [(''projection_version'', VInt ORDER_CORRECTNESS_CONTRACT_YAML_PROJECTION_VERSION),
         (''contract'', str_dict
           [(''id'', VStr (contract_id contract)),
            (''version'', VInt (contract_version contract)),
            (''vocabulary'', str_dict
              [(''statuses'', VList (map VStr projected_statuses)),
               (''commands'', VList (map VStr (sorted_enum_values CommandType_value (commands contract)))),
               (''event_types'', VList (map VStr (sorted_enum_values EventType_value (event_types contract))))]),
            (''parameters'', str_dict
              [(''next_sequence_increment'', VInt (next_sequence_increment contract)),
               (''normalization_quantum'', VStr projected_quantum),
               (''rounding_mode'', VStr (MoneyRoundingMode_value (rounding_mode contract)))])]),
         (''rules'', str_dict (map (\<lambda>category. (CorrectnessCategory_value category, project_category_rules (rules contract) category)) CATEGORY_ORDER)),
         (''relationships'', str_dict
           [(''allowed_transitions'', VList (map project_transition
               (sort_key (OrderCorrectnessRuleId_value \<circ> legality_rule_id) (allowed_transitions contract)))),
            (''amount_constraints'', VList (map project_amount_constraint
               (sort_key (OrderCorrectnessRuleId_value \<circ> ac_rule_id) (amount_constraints contract))))])]))))"

section \<open>Rendering\<close>

text \<open>\<open>repr\<close> of a tuple of plain strings.\<close>

definition repr_tuple :: "string list \<Rightarrow> string" where
  "repr_tuple xs = ''('' @ py_join '', '' (map (\<lambda>x. [CHR 0x27] @ x @ [CHR 0x27]) xs) @ '')''"

text \<open>An exact ordered mapping, as a lookup of its keys.\<close>

definition yaml_mapping :: "pyval \<Rightarrow> string list \<Rightarrow> string \<Rightarrow> (string \<Rightarrow> pyval) res" where
  "yaml_mapping v expected_keys field_name =
     (case v of
        VDict items \<Rightarrow>
          if map fst items \<noteq> map VStr expected_keys
          then Inl (ValueError (field_name @ '' keys must be exactly '' @ repr_tuple expected_keys @ '' in order''))
          else Inr (\<lambda>k. case map_of items (VStr k) of Some x \<Rightarrow> x | None \<Rightarrow> VNone)
      | _ \<Rightarrow> Inl (TypeError (field_name @ '' must be dict'')))"

definition yaml_sequence :: "pyval \<Rightarrow> string \<Rightarrow> pyval list res" where
  "yaml_sequence v field_name = (case v of VList xs \<Rightarrow> Inr xs | _ \<Rightarrow> Inl (TypeError (field_name @ '' must be list'')))"

text \<open>\<open>json.dumps(text, ensure_ascii=False)\<close>.\<close>

definition hex_digit :: "nat \<Rightarrow> char" where
  "hex_digit n = ''0123456789abcdef'' ! (n mod 16)"

definition json_escape_char :: "char \<Rightarrow> string" where
  "json_escape_char c =
     (if c = CHR 0x22 then [CHR 0x5C, CHR 0x22]
      else if c = CHR 0x5C then [CHR 0x5C, CHR 0x5C]
      else if c = CHR 0x0A then [CHR 0x5C, CHR ''n'']
      else if c = CHR 0x0D then [CHR 0x5C, CHR ''r'']
      else if c = CHR 0x09 then [CHR 0x5C, CHR ''t'']
      else if c = CHR 0x0C then [CHR 0x5C, CHR ''f'']
      else if c = CHR 0x08 then [CHR 0x5C, CHR ''b'']
      else if of_char c < (0x20 :: nat)
      then [CHR 0x5C, CHR ''u'', CHR ''0'', CHR ''0'', hex_digit (of_char c div 16), hex_digit (of_char c)]
      else [c])"

definition json_dumps_string :: "string \<Rightarrow> string" where
  "json_dumps_string t = [CHR 0x22] @ concat (map json_escape_char t) @ [CHR 0x22]"

definition yaml_string :: "pyval \<Rightarrow> string \<Rightarrow> string res" where
  "yaml_string v field_name = (case v of VStr t \<Rightarrow> Inr (json_dumps_string t) | _ \<Rightarrow> Inl (TypeError (field_name @ '' must be str'')))"

definition yaml_integer :: "pyval \<Rightarrow> string \<Rightarrow> string res" where
  "yaml_integer v field_name = (case v of VInt n \<Rightarrow> Inr (show_int n) | _ \<Rightarrow> Inl (TypeError (field_name @ '' must be int'')))"

text \<open>One line with a key and a string, and a loop over the indexed entries of a sequence.\<close>

abbreviation string_line :: "string \<Rightarrow> (string \<Rightarrow> pyval) \<Rightarrow> string \<Rightarrow> string \<Rightarrow> string res" where
  "string_line label entry k field_name \<equiv> bind_res (yaml_string (entry k) (field_name @ ''.'' @ k)) (\<lambda>t. Inr (label @ t))"

definition indexed :: "string \<Rightarrow> nat \<Rightarrow> string" where
  "indexed field_name i = field_name @ ''['' @ show_nat i @ '']''"

fun entry_lines :: "(pyval \<Rightarrow> string \<Rightarrow> string list res) \<Rightarrow> string \<Rightarrow> nat \<Rightarrow> pyval list \<Rightarrow> string list res" where
  "entry_lines f field_name i [] = Inr []"
| "entry_lines f field_name i (v # vs) =
     bind_res (f v (indexed field_name i)) (\<lambda>xs. bind_res (entry_lines f field_name (Suc i) vs) (\<lambda>ys. Inr (xs @ ys)))"

definition append_string_sequence :: "string list \<Rightarrow> string \<Rightarrow> pyval \<Rightarrow> nat \<Rightarrow> string \<Rightarrow> string list res" where
  "append_string_sequence lines key v indent field_name =
     (let prefix = replicate indent (CHR '' '')
      in bind_res (yaml_sequence v field_name) (\<lambda>entries.
         if entries = [] then Inr (lines @ [prefix @ key @ '': []''])
         else bind_res (entry_lines (\<lambda>entry name. bind_res (yaml_string entry name) (\<lambda>t. Inr [prefix @ ''  - '' @ t])) field_name 0 entries) (\<lambda>xs.
           Inr (lines @ [prefix @ key @ '':''] @ xs))))"

definition rule_lines :: "pyval \<Rightarrow> string \<Rightarrow> string list res" where
  "rule_lines v field_name =
     bind_res (yaml_mapping v [''rule_id'', ''semantic_proposition'', ''subject''] field_name) (\<lambda>entry.
     bind_res (string_line ''    - rule_id: '' entry ''rule_id'' field_name) (\<lambda>l1.
     bind_res (string_line ''      semantic_proposition: '' entry ''semantic_proposition'' field_name) (\<lambda>l2.
     bind_res (string_line ''      subject: '' entry ''subject'' field_name) (\<lambda>l3. Inr [l1, l2, l3]))))"

definition category_lines :: "(string \<Rightarrow> pyval) \<Rightarrow> string \<Rightarrow> string list res" where
  "category_lines projected category_name =
     bind_res (yaml_sequence (projected category_name) (''projection.rules.'' @ category_name)) (\<lambda>entries.
       if entries = [] then Inl (ValueError (''projection.rules.'' @ category_name @ '' must not be empty''))
       else bind_res (entry_lines rule_lines (''projection.rules.'' @ category_name) 0 entries) (\<lambda>xs.
         Inr ([''  '' @ category_name @ '':''] @ xs)))"

definition transition_lines :: "pyval \<Rightarrow> string \<Rightarrow> string list res" where
  "transition_lines v field_name =
     bind_res (yaml_mapping v [''rule_id'', ''command'', ''predecessor_status'', ''candidate_event_type'', ''resulting_status''] field_name) (\<lambda>entry.
     bind_res (string_line ''    - rule_id: '' entry ''rule_id'' field_name) (\<lambda>l1.
     bind_res (string_line ''      command: '' entry ''command'' field_name) (\<lambda>l2.
     bind_res (string_line ''      predecessor_status: '' entry ''predecessor_status'' field_name) (\<lambda>l3.
     bind_res (string_line ''      candidate_event_type: '' entry ''candidate_event_type'' field_name) (\<lambda>l4.
     bind_res (string_line ''      resulting_status: '' entry ''resulting_status'' field_name) (\<lambda>l5. Inr [l1, l2, l3, l4, l5]))))))"

definition amount_lines :: "pyval \<Rightarrow> string \<Rightarrow> string list res" where
  "amount_lines v field_name =
     bind_res (yaml_mapping v [''rule_id'', ''command'', ''constraint''] field_name) (\<lambda>entry.
     bind_res (string_line ''    - rule_id: '' entry ''rule_id'' field_name) (\<lambda>l1.
     bind_res (string_line ''      command: '' entry ''command'' field_name) (\<lambda>l2.
     bind_res (string_line ''      constraint: '' entry ''constraint'' field_name) (\<lambda>l3. Inr [l1, l2, l3]))))"

definition relationship_lines :: "(string \<Rightarrow> pyval) \<Rightarrow> string \<Rightarrow> (pyval \<Rightarrow> string \<Rightarrow> string list res) \<Rightarrow> string list res" where
  "relationship_lines relationships key f =
     bind_res (yaml_sequence (relationships key) (''projection.relationships.'' @ key)) (\<lambda>entries.
     bind_res (entry_lines f (''projection.relationships.'' @ key) 0 entries) (\<lambda>xs.
       Inr ([if entries \<noteq> [] then ''  '' @ key @ '':'' else ''  '' @ key @ '': []''] @ xs)))"

definition render_projection_v1 :: "pyval \<Rightarrow> string res" where
  "render_projection_v1 projection =
     bind_res (yaml_mapping projection [''projection_version'', ''contract'', ''rules'', ''relationships''] ''projection'') (\<lambda>root.
     bind_res (yaml_mapping (root ''contract'') [''id'', ''version'', ''vocabulary'', ''parameters''] ''projection.contract'') (\<lambda>contract.
     bind_res (yaml_mapping (contract ''vocabulary'') [''statuses'', ''commands'', ''event_types''] ''projection.contract.vocabulary'') (\<lambda>vocabulary.
     bind_res (yaml_mapping (contract ''parameters'') [''next_sequence_increment'', ''normalization_quantum'', ''rounding_mode''] ''projection.contract.parameters'') (\<lambda>parameters.
     let category_names = map CorrectnessCategory_value CATEGORY_ORDER in
     bind_res (yaml_mapping (root ''rules'') category_names ''projection.rules'') (\<lambda>projected_rules.
     bind_res (yaml_mapping (root ''relationships'') [''allowed_transitions'', ''amount_constraints''] ''projection.relationships'') (\<lambda>relationships.
     bind_res (yaml_integer (root ''projection_version'') ''projection.projection_version'') (\<lambda>version_text.
     bind_res (yaml_string (contract ''id'') ''projection.contract.id'') (\<lambda>id_text.
     bind_res (yaml_integer (contract ''version'') ''projection.contract.version'') (\<lambda>contract_version_text.
     bind_res (append_string_sequence (GENERATED_FILE_HEADER @ [''projection_version: '' @ version_text, '''', ''contract:'', ''  id: '' @ id_text,
         ''  version: '' @ contract_version_text, ''  vocabulary:'']) ''statuses'' (vocabulary ''statuses'') 4 ''projection.contract.vocabulary.statuses'') (\<lambda>lines1.
     bind_res (append_string_sequence lines1 ''commands'' (vocabulary ''commands'') 4 ''projection.contract.vocabulary.commands'') (\<lambda>lines2.
     bind_res (append_string_sequence lines2 ''event_types'' (vocabulary ''event_types'') 4 ''projection.contract.vocabulary.event_types'') (\<lambda>lines3.
     bind_res (yaml_integer (parameters ''next_sequence_increment'') ''projection.contract.parameters.next_sequence_increment'') (\<lambda>increment_text.
     bind_res (yaml_string (parameters ''normalization_quantum'') ''projection.contract.parameters.normalization_quantum'') (\<lambda>quantum_text.
     bind_res (yaml_string (parameters ''rounding_mode'') ''projection.contract.parameters.rounding_mode'') (\<lambda>rounding_text.
     bind_res (map_each (category_lines projected_rules) category_names) (\<lambda>rule_blocks.
     bind_res (relationship_lines relationships ''allowed_transitions'' transition_lines) (\<lambda>transition_block.
     bind_res (relationship_lines relationships ''amount_constraints'' amount_lines) (\<lambda>amount_block.
       Inr (py_join [CHR 0x0A] (lines3 @ [''  parameters:'', ''    next_sequence_increment: '' @ increment_text,
              ''    normalization_quantum: '' @ quantum_text, ''    rounding_mode: '' @ rounding_text, '''', ''rules:'']
            @ concat rule_blocks @ ['''', ''relationships:''] @ transition_block @ amount_block) @ [CHR 0x0A])))))))))))))))))))"

definition render_order_correctness_contract_yaml :: "OrderCorrectnessContract \<Rightarrow> string res" where
  "render_order_correctness_contract_yaml contract =
     bind_res (build_order_correctness_contract_yaml_projection contract) render_projection_v1"

section \<open>The text of a contract\<close>

definition sequence_block :: "nat \<Rightarrow> string \<Rightarrow> string list \<Rightarrow> string list" where
  "sequence_block indent key xs =
     (if xs = [] then [replicate indent (CHR '' '') @ key @ '': []'']
      else [replicate indent (CHR '' '') @ key @ '':''] @ map (\<lambda>x. replicate indent (CHR '' '') @ ''  - '' @ json_dumps_string x) xs)"

definition rule_text :: "CorrectnessRule \<Rightarrow> string list" where
  "rule_text r = [''    - rule_id: '' @ json_dumps_string (OrderCorrectnessRuleId_value (cr_rule_id r)),
     ''      semantic_proposition: '' @ json_dumps_string (cr_semantic_proposition r),
     ''      subject: '' @ json_dumps_string (RuleSubject_value (cr_subject r))]"

definition transition_text :: "AllowedTransition \<Rightarrow> string list" where
  "transition_text t = [''    - rule_id: '' @ json_dumps_string (OrderCorrectnessRuleId_value (legality_rule_id t)),
     ''      command: '' @ json_dumps_string (CommandType_value (at_command t)),
     ''      predecessor_status: '' @ json_dumps_string (OrderStatus_value (predecessor_status t)),
     ''      candidate_event_type: '' @ json_dumps_string (EventType_value (candidate_event_type t)),
     ''      resulting_status: '' @ json_dumps_string (OrderStatus_value (resulting_status t))]"

definition amount_text :: "CommandAmountConstraint \<Rightarrow> string list" where
  "amount_text a = [''    - rule_id: '' @ json_dumps_string (OrderCorrectnessRuleId_value (ac_rule_id a)),
     ''      command: '' @ json_dumps_string (CommandType_value (ac_command a)),
     ''      constraint: '' @ json_dumps_string (AmountConstraintKind_value (ac_constraint a))]"

definition sorted_rules :: "CorrectnessRule list \<Rightarrow> CorrectnessCategory \<Rightarrow> CorrectnessRule list" where
  "sorted_rules rs category = sort_key (OrderCorrectnessRuleId_value \<circ> cr_rule_id) (filter (\<lambda>rule. cr_category rule = category) rs)"

definition contract_lines :: "OrderCorrectnessContract \<Rightarrow> string list" where
  "contract_lines c =
     GENERATED_FILE_HEADER @ [''projection_version: '' @ show_int 1, [], ''contract:'', ''  id: '' @ json_dumps_string (contract_id c),
       ''  version: '' @ show_int (contract_version c), ''  vocabulary:'']
     @ sequence_block 4 ''statuses'' (map OrderStatus_value STATUS_PRESENTATION_ORDER)
     @ sequence_block 4 ''commands'' (sorted_enum_values CommandType_value (commands c))
     @ sequence_block 4 ''event_types'' (sorted_enum_values EventType_value (event_types c))
     @ [''  parameters:'', ''    next_sequence_increment: '' @ show_int (next_sequence_increment c),
       ''    normalization_quantum: '' @ json_dumps_string (decimal_str (normalization_quantum c)),
       ''    rounding_mode: '' @ json_dumps_string (MoneyRoundingMode_value (rounding_mode c)), [], ''rules:'']
     @ concat (map (\<lambda>g. [''  '' @ CorrectnessCategory_value g @ '':''] @ concat (map rule_text (sorted_rules (rules c) g))) CATEGORY_ORDER)
     @ [[], ''relationships:'']
     @ [if allowed_transitions c \<noteq> [] then ''  allowed_transitions:'' else ''  allowed_transitions: []'']
     @ concat (map transition_text (sort_key (OrderCorrectnessRuleId_value \<circ> legality_rule_id) (allowed_transitions c)))
     @ [if amount_constraints c \<noteq> [] then ''  amount_constraints:'' else ''  amount_constraints: []'']
     @ concat (map amount_text (sort_key (OrderCorrectnessRuleId_value \<circ> ac_rule_id) (amount_constraints c)))"

definition projectable :: "OrderCorrectnessContract \<Rightarrow> bool" where
  "projectable c \<longleftrightarrow> cr_category ` set (rules c) = UNIV \<and> statuses c = UNIV \<and> is_finite (normalization_quantum c)"

section \<open>Rendering succeeds\<close>

lemma entry_lines_map:
  assumes "\<And>x name. f (g x) name = Inr (h x)"
  shows "entry_lines f field_name i (map g xs) = Inr (concat (map h xs))"
  using assms by (induction xs arbitrary: i) simp_all

lemma rule_lines_project: "rule_lines (project_rule r) name = Inr (rule_text r)"
  by (simp add: rule_lines_def project_rule_def yaml_mapping_def yaml_string_def rule_text_def)

lemma transition_lines_project: "transition_lines (project_transition t) name = Inr (transition_text t)"
  by (simp add: transition_lines_def project_transition_def yaml_mapping_def yaml_string_def transition_text_def)

lemma amount_lines_project: "amount_lines (project_amount_constraint a) name = Inr (amount_text a)"
  by (simp add: amount_lines_def project_amount_constraint_def yaml_mapping_def yaml_string_def amount_text_def)

lemma append_block: "append_string_sequence lines key (VList (map VStr xs)) indent name = Inr (lines @ sequence_block indent key xs)"
proof -
  have "entry_lines (\<lambda>entry name. bind_res (yaml_string entry name) (\<lambda>t. Inr [p @ ''  - '' @ t])) name 0 (map VStr xs)
      = Inr (concat (map (\<lambda>x. [p @ ''  - '' @ json_dumps_string x]) xs))" for p
    by (rule entry_lines_map) (simp add: yaml_string_def)
  then show ?thesis
    by (simp add: append_string_sequence_def yaml_sequence_def sequence_block_def Let_def concat_map_singleton)
qed

lemma relationship_block:
  assumes "\<And>x name. f (g x) name = Inr (h x)" and "relationships key = VList (map g xs)"
  shows "relationship_lines relationships key f
    = Inr ((if xs \<noteq> [] then ''  '' @ key @ '':'' else ''  '' @ key @ '': []'') # concat (map h xs))"
  by (simp add: relationship_lines_def yaml_sequence_def assms(2) entry_lines_map [of f g h, OF assms(1)])

lemma projected_category: "project_category_rules rs g = VList (map project_rule (sorted_rules rs g))"
  by (simp add: project_category_rules_def sorted_rules_def)

lemma category_block:
  assumes "projected (CorrectnessCategory_value g) = project_category_rules rs g" and "g \<in> cr_category ` set rs"
  shows "category_lines projected (CorrectnessCategory_value g)
    = Inr ([''  '' @ CorrectnessCategory_value g @ '':''] @ concat (map rule_text (sorted_rules rs g)))"
proof -
  from assms(2) obtain r where "r \<in> set (sorted_rules rs g)" by (auto simp: sorted_rules_def)
  then have "sorted_rules rs g \<noteq> []" by auto
  then show ?thesis
    by (simp add: category_lines_def assms(1) projected_category yaml_sequence_def entry_lines_map [of _ _ rule_text, OF rule_lines_project])
qed

lemma category_value_inj: "CorrectnessCategory_value g = CorrectnessCategory_value h \<longleftrightarrow> g = h"
  by (cases g; cases h) simp_all

lemma all_categories: "set CATEGORY_ORDER = UNIV"
proof -
  have "g \<in> set CATEGORY_ORDER" for g by (cases g) (simp_all add: CATEGORY_ORDER_def)
  then show ?thesis by blast
qed

lemma all_statuses: "set STATUS_PRESENTATION_ORDER = UNIV"
proof -
  have "g \<in> set STATUS_PRESENTATION_ORDER" for g by (cases g) (simp_all add: STATUS_PRESENTATION_ORDER_def)
  then show ?thesis by blast
qed

lemma categories_covered:
  "CorrectnessCategory_value ` cr_category ` set rs = CorrectnessCategory_value ` set CATEGORY_ORDER \<longleftrightarrow> cr_category ` set rs = UNIV"
  by (simp add: all_categories inj_image_eq_iff inj_def category_value_inj)

lemma rules_mapping:
  "yaml_mapping (str_dict (map (\<lambda>g. (CorrectnessCategory_value g, F g)) CATEGORY_ORDER)) (map CorrectnessCategory_value CATEGORY_ORDER) name
     = Inr p \<Longrightarrow> p (CorrectnessCategory_value g) = F g"
  by (cases g) (auto simp: yaml_mapping_def CATEGORY_ORDER_def)

lemma rules_mapping_ok:
  "\<exists>p. yaml_mapping (str_dict (map (\<lambda>g. (CorrectnessCategory_value g, F g)) CATEGORY_ORDER)) (map CorrectnessCategory_value CATEGORY_ORDER) name = Inr p"
  by (simp add: yaml_mapping_def CATEGORY_ORDER_def)

lemma all_category_blocks:
  assumes "\<And>g. projected (CorrectnessCategory_value g) = project_category_rules rs g" and "cr_category ` set rs = UNIV"
  shows "map_each (category_lines projected) (map CorrectnessCategory_value CATEGORY_ORDER)
    = Inr (map (\<lambda>g. [''  '' @ CorrectnessCategory_value g @ '':''] @ concat (map rule_text (sorted_rules rs g))) CATEGORY_ORDER)"
proof -
  have "category_lines projected (CorrectnessCategory_value g) = Inr ([''  '' @ CorrectnessCategory_value g @ '':''] @ concat (map rule_text (sorted_rules rs g)))" for g
    by (rule category_block) (simp_all add: assms)
  then have "map_each (category_lines projected) (map CorrectnessCategory_value gs)
      = Inr (map (\<lambda>g. [''  '' @ CorrectnessCategory_value g @ '':''] @ concat (map rule_text (sorted_rules rs g))) gs)" for gs
    by (induction gs) simp_all
  then show ?thesis .
qed

lemma built:
  "build_order_correctness_contract_yaml_projection c =
     (if cr_category ` set (rules c) \<noteq> UNIV then Inl (ValueError ''contract rules must exactly cover YAML projection v1 categories'')
      else if statuses c \<noteq> UNIV then Inl (ValueError ''contract.statuses must exactly match projection v1 status vocabulary'')
      else if \<not> is_finite (normalization_quantum c) then Inl (ValueError ''contract.normalization_quantum must be finite'')
      else build_order_correctness_contract_yaml_projection c)"
  unfolding build_order_correctness_contract_yaml_projection_def categories_covered
  by (simp add: ordered_status_values_def decimal_string_def all_statuses)

lemma rendered_projection:
  fixes rules_value transitions_value amounts_value :: pyval
  assumes "yaml_mapping rules_value (map CorrectnessCategory_value CATEGORY_ORDER) ''projection.rules'' = Inr projected"
    and "map_each (category_lines projected) (map CorrectnessCategory_value CATEGORY_ORDER) = Inr blocks"
  shows "render_projection_v1 (str_dict
      [(''projection_version'', VInt v),
       (''contract'', str_dict [(''id'', VStr cid), (''version'', VInt cv),
          (''vocabulary'', str_dict [(''statuses'', VList (map VStr sts)), (''commands'', VList (map VStr cmds)), (''event_types'', VList (map VStr evs))]),
          (''parameters'', str_dict [(''next_sequence_increment'', VInt inc), (''normalization_quantum'', VStr q), (''rounding_mode'', VStr rm)])]),
       (''rules'', rules_value),
       (''relationships'', str_dict [(''allowed_transitions'', VList (map project_transition ts)), (''amount_constraints'', VList (map project_amount_constraint cs))])])
    = Inr (py_join [CHR 0x0A] (GENERATED_FILE_HEADER @ [''projection_version: '' @ show_int v, [], ''contract:'', ''  id: '' @ json_dumps_string cid,
        ''  version: '' @ show_int cv, ''  vocabulary:'']
      @ sequence_block 4 ''statuses'' sts @ sequence_block 4 ''commands'' cmds @ sequence_block 4 ''event_types'' evs
      @ [''  parameters:'', ''    next_sequence_increment: '' @ show_int inc, ''    normalization_quantum: '' @ json_dumps_string q,
         ''    rounding_mode: '' @ json_dumps_string rm, [], ''rules:'']
      @ concat blocks @ [[], ''relationships:'']
      @ [if ts \<noteq> [] then ''  allowed_transitions:'' else ''  allowed_transitions: []''] @ concat (map transition_text ts)
      @ [if cs \<noteq> [] then ''  amount_constraints:'' else ''  amount_constraints: []''] @ concat (map amount_text cs)) @ [CHR 0x0A])"
proof -
  define rel where "rel = (\<lambda>k. case map_of (map (\<lambda>(k, v). (VStr k, v)) [(''allowed_transitions'', VList (map project_transition ts)),
    (''amount_constraints'', VList (map project_amount_constraint cs))]) (VStr k) of Some x \<Rightarrow> x | None \<Rightarrow> VNone)"
  have rel: "yaml_mapping (str_dict [(''allowed_transitions'', VList (map project_transition ts)), (''amount_constraints'', VList (map project_amount_constraint cs))])
      [''allowed_transitions'', ''amount_constraints''] name = Inr rel" for name
    by (simp add: yaml_mapping_def rel_def)
  have "relationship_lines rel ''allowed_transitions'' transition_lines
      = Inr ((if ts \<noteq> [] then ''  allowed_transitions:'' else ''  allowed_transitions: []'') # concat (map transition_text ts))"
    using relationship_block [of transition_lines project_transition transition_text rel "''allowed_transitions''" ts] transition_lines_project
    by (simp add: rel_def)
  moreover have "relationship_lines rel ''amount_constraints'' amount_lines
      = Inr ((if cs \<noteq> [] then ''  amount_constraints:'' else ''  amount_constraints: []'') # concat (map amount_text cs))"
    using relationship_block [of amount_lines project_amount_constraint amount_text rel "''amount_constraints''" cs] amount_lines_project
    by (simp add: rel_def)
  ultimately show ?thesis
    using assms rel
    by (simp add: render_projection_v1_def yaml_mapping_def [of "VDict _" "[_, _, _, _]"] yaml_mapping_def [of "VDict _" "[_, _, _]"]
        yaml_integer_def yaml_string_def append_block Let_def)
qed

lemma sorted_empty: "sort_key f xs \<noteq> [] \<longleftrightarrow> xs \<noteq> []"
  by (metis length_sort length_0_conv)

lemma rendered:
  "render_order_correctness_contract_yaml c =
     (if projectable c then Inr (py_join [CHR 0x0A] (contract_lines c) @ [CHR 0x0A])
      else if cr_category ` set (rules c) \<noteq> UNIV then Inl (ValueError ''contract rules must exactly cover YAML projection v1 categories'')
      else if statuses c \<noteq> UNIV then Inl (ValueError ''contract.statuses must exactly match projection v1 status vocabulary'')
      else Inl (ValueError ''contract.normalization_quantum must be finite''))"
proof (cases "projectable c")
  case False
  then show ?thesis
    unfolding render_order_correctness_contract_yaml_def by (subst built) (auto simp: projectable_def)
next
  case True
  let ?rv = "str_dict (map (\<lambda>g. (CorrectnessCategory_value g, project_category_rules (rules c) g)) CATEGORY_ORDER)"
  obtain p where p: "yaml_mapping ?rv (map CorrectnessCategory_value CATEGORY_ORDER) ''projection.rules'' = Inr p"
    using rules_mapping_ok by blast
  from True have cats: "cr_category ` set (rules c) = UNIV" and st: "statuses c = UNIV" and q: "is_finite (normalization_quantum c)"
    by (simp_all add: projectable_def)
  note blocks = all_category_blocks [of p "rules c", OF rules_mapping [OF p] cats]
  let ?ts = "sort_key (OrderCorrectnessRuleId_value \<circ> legality_rule_id) (allowed_transitions c)"
  let ?cs = "sort_key (OrderCorrectnessRuleId_value \<circ> ac_rule_id) (amount_constraints c)"
  have "build_order_correctness_contract_yaml_projection c = Inr (str_dict
      [(''projection_version'', VInt 1),
       (''contract'', str_dict [(''id'', VStr (contract_id c)), (''version'', VInt (contract_version c)),
          (''vocabulary'', str_dict [(''statuses'', VList (map VStr (map OrderStatus_value STATUS_PRESENTATION_ORDER))),
             (''commands'', VList (map VStr (sorted_enum_values CommandType_value (commands c)))),
             (''event_types'', VList (map VStr (sorted_enum_values EventType_value (event_types c))))]),
          (''parameters'', str_dict [(''next_sequence_increment'', VInt (next_sequence_increment c)),
             (''normalization_quantum'', VStr (decimal_str (normalization_quantum c))), (''rounding_mode'', VStr (MoneyRoundingMode_value (rounding_mode c)))])]),
       (''rules'', ?rv),
       (''relationships'', str_dict [(''allowed_transitions'', VList (map project_transition ?ts)),
          (''amount_constraints'', VList (map project_amount_constraint ?cs))])])"
    unfolding build_order_correctness_contract_yaml_projection_def categories_covered
    using cats st q by (simp add: ordered_status_values_def decimal_string_def all_statuses ORDER_CORRECTNESS_CONTRACT_YAML_PROJECTION_VERSION_def)
  then have "render_order_correctness_contract_yaml c = Inr (py_join [CHR 0x0A] (contract_lines c) @ [CHR 0x0A])"
    unfolding render_order_correctness_contract_yaml_def contract_lines_def
    by (simp only: bind_res_simps rendered_projection [OF p blocks] sorted_empty)
  with True show ?thesis by simp
qed

section \<open>The text\<close>

lemma no_newline_digits: "CHR 0x0A \<notin> set (show_nat n)"
  using show_nat_digits [of n] by (auto simp: is_digit_def)

lemma no_newline_int: "CHR 0x0A \<notin> set (show_int i)"
  by (simp add: show_int_def no_newline_digits)

lemma no_newline_escape: "CHR 0x0A \<notin> set (json_escape_char c)"
proof -
  have "hex_digit n \<noteq> CHR 0x0A" for n
  proof -
    have "hex_digit n \<in> set ''0123456789abcdef''" unfolding hex_digit_def by (rule nth_mem) simp
    then show ?thesis by auto
  qed
  then have "CHR 0x0A \<noteq> hex_digit n" for n by metis
  then show ?thesis by (auto simp: json_escape_char_def)
qed

lemma no_newline_json: "CHR 0x0A \<notin> set (json_dumps_string t)"
  by (auto simp: json_dumps_string_def no_newline_escape)

lemma contract_lines_plain: "l \<in> set (contract_lines c) \<Longrightarrow> CHR 0x0A \<notin> set l"
proof -
  have cat: "CHR 0x0A \<notin> set (CorrectnessCategory_value g)" for g by (cases g) simp_all
  have block: "l \<in> set (sequence_block n key xs) \<Longrightarrow> CHR 0x0A \<notin> set key \<Longrightarrow> CHR 0x0A \<notin> set l" for n key xs l
    by (auto simp: sequence_block_def no_newline_json split: if_splits)
  have texts: "l \<in> set (rule_text r) \<Longrightarrow> CHR 0x0A \<notin> set l" "l \<in> set (transition_text t) \<Longrightarrow> CHR 0x0A \<notin> set l"
    "l \<in> set (amount_text a) \<Longrightarrow> CHR 0x0A \<notin> set l" for l r t a
    by (auto simp: rule_text_def transition_text_def amount_text_def no_newline_json)
  assume "l \<in> set (contract_lines c)"
  then show ?thesis
    unfolding contract_lines_def GENERATED_FILE_HEADER_def
    by (auto simp: no_newline_json no_newline_int cat split: if_splits dest!: block texts)
qed

section \<open>The order of the lists does not matter\<close>

lemma rule_id_value_inj: "OrderCorrectnessRuleId_value i = OrderCorrectnessRuleId_value j \<Longrightarrow> i = j"
  by (cases i; cases j) simp_all

lemma sort_key_perm:
  assumes "mset xs = mset ys" and "distinct (map key ys)" and "\<And>i j. v i = v j \<Longrightarrow> i = j"
  shows "sort_key (v \<circ> key) xs = sort_key ((v :: 'k \<Rightarrow> string) \<circ> key) ys"
proof (rule sort_key_inj_key_eq)
  show "mset xs = mset (sort_key (v \<circ> key) ys)" using assms(1) by simp
  show "inj_on (v \<circ> key) (set xs)"
    using assms mset_eq_setD [OF assms(1)] by (auto simp: inj_on_def distinct_map)
qed simp

text \<open>The identities in a materialised edition are unique.\<close>

lemma map_each_keys:
  assumes "map_each f xs = Inr ys" and "\<And>x y. f x = Inr y \<Longrightarrow> key y = x"
  shows "map key ys = xs"
  using assms(1) by (induction xs arbitrary: ys) (auto simp: bind_res_eq_Inr assms(2))

lemma map_each_function:
  assumes "map_each f xs = Inr ys" and "distinct ys"
  shows "distinct xs"
  using assms
proof (induction xs arbitrary: ys)
  case (Cons x xs)
  from Cons.prems(1) obtain y zs where y: "f x = Inr y" "map_each f xs = Inr zs" "ys = y # zs" by (auto simp: bind_res_eq_Inr)
  have "x \<in> set xs \<Longrightarrow> y \<in> set zs" if "map_each f xs = Inr zs" for xs zs
    using that y(1) by (induction xs arbitrary: zs) (auto simp: bind_res_eq_Inr)
  with Cons y show ?case by auto
qed simp

lemma materialised_unique:
  assumes "from_identity R cid v = Inr c"
  shows "distinct (map cr_rule_id (rules c))" "distinct (map legality_rule_id (allowed_transitions c))" "distinct (map ac_rule_id (amount_constraints c))"
    "is_finite (normalization_quantum c)"
proof -
  have "(\<exists>d :: OrderCorrectnessContractDefinition. map_each (AllowedTransition_from_rule_id R) (cd_transition_rule_ids d) = Inr (allowed_transitions c)) \<and> validate_structure c = Inr ()"
    using assms by (auto simp: from_identity_def bind_res_eq_Inr Let_def split: option.splits)
  then obtain d :: OrderCorrectnessContractDefinition where parts: "map_each (AllowedTransition_from_rule_id R) (cd_transition_rule_ids d) = Inr (allowed_transitions c)"
    and st: "validate_structure c = Inr ()" by blast
  from st show "distinct (map cr_rule_id (rules c))" "distinct (map ac_rule_id (amount_constraints c))" "is_finite (normalization_quantum c)"
    by (auto simp: validate_structure_def bind_res_eq_Inr require_positive_finite_decimal_def split: if_splits)
  from st have "distinct (allowed_transitions c)" by (auto simp: validate_structure_def bind_res_eq_Inr split: if_splits)
  then have "distinct (cd_transition_rule_ids d)" using map_each_function [OF parts] by simp
  moreover have "map legality_rule_id (allowed_transitions c) = cd_transition_rule_ids d"
    by (rule map_each_keys [OF parts]) (auto simp: AllowedTransition_from_rule_id_def split: option.splits)
  ultimately show "distinct (map legality_rule_id (allowed_transitions c))" by simp
qed

lemma lines_order_free:
  assumes "from_identity R cid v = Inr c" and "mset rs = mset (rules c)" "mset ts = mset (allowed_transitions c)" "mset cs = mset (amount_constraints c)"
  shows "contract_lines (c\<lparr>rules := rs, allowed_transitions := ts, amount_constraints := cs\<rparr>) = contract_lines c"
proof -
  note u = materialised_unique [OF assms(1)]
  have "sorted_rules rs g = sorted_rules (rules c) g" for g
    unfolding sorted_rules_def
    using assms(2) u(1) rule_id_value_inj by (intro sort_key_perm) (auto simp: distinct_map_filter)
  moreover have "sort_key (OrderCorrectnessRuleId_value \<circ> legality_rule_id) ts = sort_key (OrderCorrectnessRuleId_value \<circ> legality_rule_id) (allowed_transitions c)"
    "sort_key (OrderCorrectnessRuleId_value \<circ> ac_rule_id) cs = sort_key (OrderCorrectnessRuleId_value \<circ> ac_rule_id) (amount_constraints c)"
    using assms(3,4) u(2,3) rule_id_value_inj by (auto intro: sort_key_perm)
  moreover have "ts = [] \<longleftrightarrow> allowed_transitions c = []" "cs = [] \<longleftrightarrow> amount_constraints c = []"
    using assms(3,4) by (metis mset_zero_iff)+
  ultimately show ?thesis by (simp add: contract_lines_def)
qed

section \<open>The property\<close>

text \<open>C40: A contract that the registries materialise is rendered exactly when its rules use all four categories
  and it declares all three statuses, and raises a ValueError otherwise. The text is the lines of the
  contract, none of which contains a line separator, joined by line feeds with one at the end. It does
  not depend on the order in which the contract lists its rules, transitions and constraints.\<close>

theorem yaml_projection_deterministic:
  assumes "from_identity R cid v = Inr c"
  shows "(case render_order_correctness_contract_yaml c of
      Inr t \<Rightarrow> cr_category ` set (rules c) = UNIV \<and> statuses c = UNIV
        \<and> (\<exists>ls. t = py_join [CHR 0x0A] ls @ [CHR 0x0A] \<and> (\<forall>l. l \<in> set ls \<longrightarrow> CHR 0x0A \<notin> set l) \<and> ls = contract_lines c)
    | Inl x \<Rightarrow> (cr_category ` set (rules c) \<noteq> UNIV \<or> statuses c \<noteq> UNIV) \<and> is_ValueError x)
    \<and> (\<forall>rs ts cs. mset rs = mset (rules c) \<longrightarrow> mset ts = mset (allowed_transitions c) \<longrightarrow> mset cs = mset (amount_constraints c) \<longrightarrow>
        render_order_correctness_contract_yaml (c\<lparr>rules := rs, allowed_transitions := ts, amount_constraints := cs\<rparr>)
          = render_order_correctness_contract_yaml c)"
proof -
  have "is_finite (normalization_quantum c)" by (rule materialised_unique(4) [OF assms])
  then have ok: "projectable c \<longleftrightarrow> cr_category ` set (rules c) = UNIV \<and> statuses c = UNIV" by (auto simp: projectable_def)
  show ?thesis
  proof (intro conjI allI impI)
    show "case render_order_correctness_contract_yaml c of
        Inr t \<Rightarrow> cr_category ` set (rules c) = UNIV \<and> statuses c = UNIV
          \<and> (\<exists>ls. t = py_join [CHR 0x0A] ls @ [CHR 0x0A] \<and> (\<forall>l. l \<in> set ls \<longrightarrow> CHR 0x0A \<notin> set l) \<and> ls = contract_lines c)
      | Inl x \<Rightarrow> (cr_category ` set (rules c) \<noteq> UNIV \<or> statuses c \<noteq> UNIV) \<and> is_ValueError x"
      using ok contract_lines_plain [of _ c] by (cases "projectable c") (auto simp: rendered)
  next
    fix rs ts cs
    let ?c = "c\<lparr>rules := rs, allowed_transitions := ts, amount_constraints := cs\<rparr>"
    assume m: "mset rs = mset (rules c)" "mset ts = mset (allowed_transitions c)" "mset cs = mset (amount_constraints c)"
    have "projectable ?c = projectable c" using mset_eq_setD [OF m(1)] by (simp add: projectable_def)
    then show "render_order_correctness_contract_yaml ?c = render_order_correctness_contract_yaml c"
      using lines_order_free [OF assms m] mset_eq_setD [OF m(1)] by (simp add: rendered)
  qed
qed

theorem yaml_projection_deterministic_witness:
  "\<exists>c t. ORDER_CORRECTNESS_CONTRACT_V0 = Inr c \<and> render_order_correctness_contract_yaml c = Inr t
     \<and> render_order_correctness_contract_yaml (c\<lparr>rules := rev (rules c)\<rparr>) = Inr t"
proof -
  obtain c where c: "from_identity AUTHORITATIVE ''order.correctness'' 0 = Inr c" "statuses c = {INIT, CREATED, PAID}" "rules c = map (rule_of AUTHORITATIVE) known_rule_ids"
    using edition_materializes [OF authoritative_coherent, of "''order.correctness''" 0 "snd (hd ORDER_CORRECTNESS_CONTRACT_DEFINITIONS)"]
    by (simp add: AUTHORITATIVE_def ORDER_CORRECTNESS_CONTRACT_DEFINITIONS_def known_rule_ids_def)
  have "s \<in> statuses c" for s by (cases s) (simp_all add: c(2))
  moreover have "g \<in> cr_category ` set (rules c)" for g
    by (cases g) (simp_all add: c(3) known_rule_ids_def rule_of_def AUTHORITATIVE_def RULE_DEFINITIONS_def)
  ultimately have "\<exists>t. render_order_correctness_contract_yaml c = Inr t"
    using yaml_projection_deterministic [OF c(1)] by (cases "render_order_correctness_contract_yaml c") auto
  moreover have "render_order_correctness_contract_yaml (c\<lparr>rules := rev (rules c), allowed_transitions := allowed_transitions c, amount_constraints := amount_constraints c\<rparr>)
      = render_order_correctness_contract_yaml c"
    using yaml_projection_deterministic [OF c(1), THEN conjunct2, rule_format, of "rev (rules c)" "allowed_transitions c" "amount_constraints c"] by simp
  ultimately show ?thesis using c(1) by (auto simp: ORDER_CORRECTNESS_CONTRACT_V0_def)
qed

end
