(* ===== verification/Spec2Isabelle.thy ===== *)
theory Spec2Isabelle
  imports Read_Side_Receipts Receipt_Runtime Authority_Escalation Correctness_Contract Rate_Budget Autonomous_Governance Resolution_Trace Measured_Write_Side Contract_Yaml
begin

text \<open>
  Verification of the event-sourced order system under \<open>src/src\<close>: commands become validated,
  admitted and durably recorded events, workers project the accepted events, a governance
  layer decides what a caller may do with a result, and receipts record what was decided. Three experiments
  under \<open>src/experiments\<close> model authority on a small scale. This theory only collects the library; every
  definition and theorem is in one of the theories below.

  \<^bold>\<open>Reading the model.\<close> An exception is a value of \<open>exc\<close>, a fallible function returns \<open>exc + 'a\<close>
  (\<open>Inl\<close> the exception). Objects with mutable attributes are records that operations return
  updated. Fresh identities (\<open>uuid4\<close>) and the clock are arguments. Python's \<open>int\<close> is \<open>int\<close>,
  \<open>Decimal\<close> is sign, coefficient and exponent with the operations that the code uses, rounding and
  the 28 digits of the default context included. Enum and record names follow the code, with a
  prefix where a name would clash.

  \<^bold>\<open>Parts and theories.\<close>
  \<^item> \<open>Prelude\<close>: exceptions, results, strings, decimal numerals, list and map lemmas.
  \<^item> \<open>Money\<close>: \<open>core/common/money.py\<close>; half-even rounding and the storage round trip.
  \<^item> \<open>Order_Domain\<close>: enums, events, claims, state and the aggregate of \<open>core/order\<close>; refinement of an
    abstract life cycle of an order, and legal histories.
  \<^item> \<open>Transition_Validation\<close>: \<open>compass/transition\<close> and the rule evidence; the full validator decides
    exactly the declarative rules.
  \<^item> \<open>Correctness_Contract\<close>: \<open>core/order/correctness_contract.py\<close>; registries that pass the check of the
    module materialise every edition, and aggregate and validator implement edition 0. \<open>Contract_Yaml\<close>: its
    rendering as text (\<open>correctness_contract_yaml_projection.py\<close>), total on the closed vocabularies and
    independent of the order of the lists.
  \<^item> \<open>Memory_Stores\<close>, \<open>Registry\<close>: the in-memory history, request memory, admission gate and the
    registry; the locales \<open>accepted_history\<close>, \<open>request_memory\<close> and \<open>admission_gate\<close> state what a
    client relies on; refinement of an abstract specification, invariants, retries.
  \<^item> \<open>Projection\<close>: reducer, replay and the in-memory worker, which survives redelivery.
  \<^item> \<open>Postgres_Store\<close>, \<open>Postgres_Admission\<close>: tables with their constraints, a connection with its
    own pending rows, the event store, the request memory with semantic fingerprints, and both
    admission gates. A \<open>schedule\<close> of server events lists what other sessions commit before each
    statement, failing statements, busy locks and lost commit acknowledgements.
  \<^item> \<open>Postgres_Write_Side\<close>: unit of work, execution trace, both validation placements, the four
    public commands, and triples for them. \<open>Write_Side_Safety\<close>: safety of a command under every
    schedule. \<open>Write_Side_Traces\<close>: traced and plain commands agree. \<open>Write_Side_Progress\<close>: acceptance
    without interference, and retries. \<open>Measurement\<close>, \<open>Measured_Write_Side\<close>: the measurement contract, the
    recorder and the four commands with measurement; a measured command is the plain one.
  \<^item> \<open>Snapshot\<close>: the snapshot validator and the snapshot-assisted resolver over abstract readers
    (locale \<open>snapshot_readers\<close>). \<open>Postgres_Projection\<close>: the durable worker, its progress, states,
    event sources and the replay validator. \<open>Postgres_Snapshot\<close>: the snapshot store, the two observation
    boundaries, and the interpretation of the locale on the tables. \<open>Read_Side\<close>: the properties.
    \<open>Resolution_Trace\<close>: the trace contract of a resolution; its constructors let through exactly
    the coherent traces, given by rules. The repository does not produce traces yet.
  \<^item> \<open>Semantic_Outcome\<close>, \<open>Runtime_Decision\<close>: \<open>compass/runtime\<close>, from results to semantic outcomes,
    rule feedback, decisions and re-invocation authority. \<open>Governed_Results\<close>: which results a
    command can return, and what governance makes of each.
  \<^item> \<open>Invocation_Owner\<close>: the owner of one request, its lock sections interleaved as a step relation.
    \<open>Autonomous_Governance\<close>: a planner and an executor over that owner
    (\<open>experiments/deterministic_autonomous_governance\<close>), which add no authority.
  \<^item> \<open>Python_Json\<close>, \<open>Decision_Receipt\<close>, \<open>Receipt_Serialization\<close>: JSON-safe values, receipts with every check of
    their constructors, and both directions of their serialisation; round trip and 64-bit bounds.
  \<^item> \<open>Receipt_Mapping\<close>, \<open>Read_Side_Receipts\<close>: the adapters from results to receipts; receipts are true of the
    results of commands and of the three read-side observers.
  \<^item> \<open>Receipt_Store\<close>, \<open>Receipt_Rows\<close>, \<open>Receipt_Transaction\<close>, \<open>Receipt_Runtime\<close>: the receipt table with the
    constraints of migration 007 and its store, the owner of a receipt transaction, and the owners that
    materialise and persist receipts beside an invocation; what they report about durability is true of
    the database, and they never change the business outcome.
  \<^item> \<open>Authority_Escalation\<close> (\<open>experiments/indirect_authority_escalation/model.py\<close>): only confirmed receipts of
    goods enter the governed inventory. \<open>Rate_Budget\<close>
    (\<open>experiments/validation_blocked_semantic_replanning\<close>): the configured rate stays within its maximum,
    and one repair of a rejection is judged afresh: which repairs are accepted and which are blocked again.

  \<^bold>\<open>How the parts interact.\<close> The owner calls a durable command; the command reads the request memory,
  rebuilds the aggregate from the event store, asks the validator, appends through the gate and
  records the request in one transaction. The worker and the resolver read the same rows. The
  theorems follow these calls: the safety of a command is proved from the triples of its steps, the
  invariant of the owner from the safety of a command, the read side from the legality of the
  database that the write side maintains (\<open>legal_db\<close>). The receipt runtime wraps the invocation owner and
  works on a second connection; its theorems use the invariant of the owner and the truth of each receipt.

  \<^bold>\<open>Assumptions.\<close> Other sessions commit only what keeps the database legal, as this write side does.
  Every UUID is spelled canonically. String parameters of SQL statements without a NUL character are stored as
  given. Columns that no operation reads back (times of insertion, JSON payload copies) are left
  out. One projection worker runs at a time. The advisory lock and \<open>READ COMMITTED\<close> visibility are
  those of the schedule. A rollback succeeds. The statements and the commit of the read side succeed; the failures of statements
  and commits are part of the model of the write side and of receipts. The validation runtime of a command is one that the
  repository composes, which has rule evidence. What is not code of the repository is a parameter: the values of \<open>uuid4\<close> and of
  the clocks, how PostgreSQL returns a float of a JSONB column (\<open>float_io\<close>; the theorems on stored
  receipts ask for receipts without floats), and that the server rolls a transaction back when it closes
  an idle session (\<open>idle_timeout_means_rollback\<close>). Object identity (\<open>is\<close>) is a constructor or a field where a check depends on it.

  \<^bold>\<open>Loops and bounds.\<close> Recursion is structural except for the paging loop over tail events, which
  may not end for an arbitrary reader; it is a partial function, and its termination is proved for
  every reader that honours the contract of the locale, hence for the tables. No fuel is used.

  \<^bold>\<open>Not modelled.\<close> Opening connections is I/O, and \<open>core/common/ids.py\<close> is a call of \<open>uuid4\<close>. The harnesses under
  \<open>experiments/stage4b2\<close> and \<open>experiments/stage4b5\<close> run the modelled write side against a live database,
  with processes, barriers, statistics and report files; they hold no rules of the program. Demonstrations,
  tests and documents drive or describe the system. Of the migrations, the columns, checks and indexes that the operations
  rely on are in the tables of the model; grants are not.
\<close>

end
